(* ===== verification/ZPrelude.thy ===== *)
theory ZPrelude
  imports Main "HOL-Library.Word"
begin

text \<open>
  Shared vocabulary of the development: the machine integers of include/types.h, byte
  buffers and NUL-terminated strings, and the lemma collections the component theories use.

  A C buffer is the list of its bytes, written by index. A C string pointer is the list of the
  bytes it points at: the string ends at the first zero byte, and reading the position just
  past the list also gives the terminating zero, so a literal needs no explicit terminator.
  An access outside a buffer has no defined meaning in C; no theorem speaks about one unless
  the model makes it an error value.
\<close>

unbundle bit_operations_syntax

type_synonym u8 = "8 word"
type_synonym u16 = "16 word"
type_synonym u32 = "32 word"
type_synonym bytes = "u8 list"

named_theorems fields \<open>frame facts: which parts of a state an operation leaves alone\<close>
named_theorems lens \<open>lengths of buffers after an operation\<close>

subsection \<open>String literals\<close>

definition lit :: "string \<Rightarrow> bytes" where
  "lit s = map of_char s"

lemma lit_simps [simp]:
  "lit [] = []"
  "lit (c # s) = of_char c # lit s"
  by (simp_all add: lit_def)

subsection \<open>Reading a string by position\<close>

definition byte_at :: "bytes \<Rightarrow> nat \<Rightarrow> u8" where
  "byte_at s i = (if i < length s then s ! i else 0)"

lemma byte_at_Nil [simp]: "byte_at [] i = 0"
  by (simp add: byte_at_def)

lemma byte_at_0 [simp]: "byte_at (c # s) 0 = c"
  by (simp add: byte_at_def)

lemma byte_at_Suc [simp]: "byte_at (c # s) (Suc i) = byte_at s i"
  by (simp add: byte_at_def)

lemma byte_at_numeral [simp]: "byte_at (c # s) (numeral k) = byte_at s (pred_numeral k)"
  by (simp add: byte_at_def numeral_eq_Suc)

text \<open>The characters of a string, up to its terminator.\<close>

definition chars :: "bytes \<Rightarrow> bytes" where
  "chars s = takeWhile (\<lambda>c. c \<noteq> 0) s"

lemma chars_simps [simp]:
  "chars [] = []"
  "chars (c # s) = (if c = 0 then [] else c # chars s)"
  by (simp_all add: chars_def)

lemma chars_no_zero: "0 \<notin> set (chars s)"
  by (induction s) auto

lemma chars_id: "0 \<notin> set s \<Longrightarrow> chars s = s"
  by (induction s) auto

lemma chars_chars [simp]: "chars (chars s) = chars s"
  by (rule chars_id) (rule chars_no_zero)

lemma chars_append_zero: "0 \<notin> set s \<Longrightarrow> chars (s @ 0 # t) = s"
  by (induction s) auto

lemma chars_append: "0 \<notin> set s \<Longrightarrow> chars (s @ t) = s @ chars t"
  by (induction s) auto

lemma length_chars_le: "length (chars s) \<le> length s"
  by (simp add: chars_def length_takeWhile_le)

subsection \<open>Writing a run of bytes into a buffer\<close>

text \<open>The net effect of storing the bytes of a list one after the other from an offset on.\<close>

primrec blit :: "'a list \<Rightarrow> nat \<Rightarrow> 'a list \<Rightarrow> 'a list" where
  "blit m d [] = m"
| "blit m d (x # xs) = blit (m[d := x]) (Suc d) xs" for m :: "'a list"

lemma length_blit [simp, lens]: "length (blit m d xs) = length m"
  by (induction xs arbitrary: m d) auto

lemma nth_blit:
  "i < length m \<Longrightarrow>
   blit m d xs ! i = (if d \<le> i \<and> i < d + length xs then xs ! (i - d) else m ! i)"
proof (induction xs arbitrary: m d)
  case Nil
  then show ?case by auto
next
  case (Cons x xs)
  then show ?case by (auto simp: nth_Cons' nth_list_update)
qed

lemma blit_eq:
  "d + length xs \<le> length m \<Longrightarrow> blit m d xs = take d m @ xs @ drop (d + length xs) m"
  by (rule nth_equalityI) (auto simp: nth_blit nth_append min_def not_less)

lemma blit_outside: "length m \<le> d \<Longrightarrow> blit m d xs = m"
  by (induction xs arbitrary: m d) (auto simp: list_update_beyond)

lemma take_blit: "d + length xs \<le> length m \<Longrightarrow> take (length xs) (drop d (blit m d xs)) = xs"
  by (simp add: blit_eq)

lemma blit_all: "length xs = length m \<Longrightarrow> blit m 0 xs = xs"
  by (simp add: blit_eq)

lemma unat_u32: "unat (x :: u32) < 4294967296"
  using unsigned_less [of x] by simp

lemma sint_u32: "sint (v :: u32) = (if uint v < 2147483648 then uint v else uint v - 4294967296)"
proof -
  have r: "0 \<le> uint v" "uint v < 4294967296" using uint_range_size [of v] by (simp_all add: word_size)
  have "sint v = take_bit 32 (uint v) - 4294967296 * of_bool (bit (uint v) 31)"
    by (simp add: sint_uint signed_take_bit_eq_take_bit_minus)
  moreover have "take_bit 32 (uint v) = uint v" using r by (intro take_bit_int_eq_self) simp_all
  moreover have "bit (uint v) 31 \<longleftrightarrow> 2147483648 \<le> uint v"
  proof -
    have "uint v div 2147483648 = (if 2147483648 \<le> uint v then 1 else 0)" using r by auto
    then show ?thesis by (auto simp: bit_iff_odd)
  qed
  ultimately show ?thesis by auto
qed

lemma abs_sint_u32: "int (unat (if sint (v :: u32) < 0 then - v else v)) = \<bar>sint v\<bar>"
proof -
  have r: "0 \<le> uint v" "uint v < 4294967296" using uint_range_size [of v] by (simp_all add: word_size)
  have "uint (- v) = (- uint v) mod 4294967296" by (simp add: uint_word_ariths)
  moreover have "(- uint v) mod 4294967296 = 4294967296 - uint v" if "2147483648 \<le> uint v"
    using that r by (simp add: zmod_zminus1_eq_if)
  ultimately show ?thesis using r by (auto simp: sint_u32)
qed

lemma unat_ucast_u32 [simp]: "unat (ucast (x :: u8) :: u32) = unat x" "unat (ucast (y :: u16) :: u32) = unat y"
proof -
  have "unat x < 256" "unat y < 65536" using unsigned_less [of x] unsigned_less [of y] by simp_all
  then show "unat (ucast (x :: u8) :: u32) = unat x" "unat (ucast (y :: u16) :: u32) = unat y"
    by (simp_all add: unsigned_ucast_eq take_bit_nat_eq_self)
qed


text \<open>A window of a buffer.\<close>

definition window :: "nat \<Rightarrow> nat \<Rightarrow> 'a list \<Rightarrow> 'a list" where
  "window off n m = take n (drop off m)"

lemma length_window [simp, lens]: "off + n \<le> length m \<Longrightarrow> length (window off n m) = n"
  by (simp add: window_def)

lemma nth_window: "i < n \<Longrightarrow> off + i < length m \<Longrightarrow> window off n m ! i = m ! (off + i)"
  by (simp add: window_def)

lemma concat_windows: "n * m \<le> length xs \<Longrightarrow> concat (map (\<lambda>k. window (k * m) m xs) [0..<n]) = take (n * m) xs"
proof (induction n)
  case (Suc n)
  then show ?case by (simp add: window_def take_add [symmetric] add.commute)
qed simp

lemma window_blit: "d + length xs \<le> length m \<Longrightarrow> window d (length xs) (blit m d xs) = xs"
  by (simp add: window_def take_blit)

lemma window_blit_other:
  "off + n \<le> d \<or> d + length xs \<le> off \<Longrightarrow> off + n \<le> length m \<Longrightarrow>
   window off n (blit m d xs) = window off n m"
  by (rule nth_equalityI) (auto simp: nth_window nth_blit)

subsection \<open>Bytes of a word, least significant first\<close>

definition le16 :: "u16 \<Rightarrow> bytes" where
  "le16 v = [ucast (v AND 0xFF), ucast (drop_bit 8 v AND 0xFF)]"

definition le32 :: "u32 \<Rightarrow> bytes" where
  "le32 v = [ucast v, ucast (drop_bit 8 v), ucast (drop_bit 16 v), ucast (drop_bit 24 v)]"

definition of_le16 :: "bytes \<Rightarrow> nat \<Rightarrow> u16" where
  "of_le16 p i = (ucast (p ! i) OR push_bit 8 (ucast (p ! Suc i)))"

definition of_le32 :: "bytes \<Rightarrow> nat \<Rightarrow> u32" where
  "of_le32 p i = (ucast (p ! i) OR push_bit 8 (ucast (p ! (i + 1)))
     OR push_bit 16 (ucast (p ! (i + 2))) OR push_bit 24 (ucast (p ! (i + 3))))"

lemma length_le [simp, lens]: "length (le16 v) = 2" "length (le32 w) = 4"
  by (simp_all add: le16_def le32_def)

lemma le16_split: "(ucast (ucast (v AND 0xFF) :: u8) OR push_bit 8 (ucast (ucast (drop_bit 8 v AND 0xFF) :: u8))) = (v :: u16)"
proof -
  have m: "(0xFF :: u16) = mask 8" by (simp add: mask_eq_exp_minus_1)
  have "n < 16 \<Longrightarrow> \<not> n < 8 \<Longrightarrow> n - 8 < 8 \<and> 8 + (n - 8) = n" for n :: nat
    by simp
  then show ?thesis
    unfolding m by (intro bit_word_eqI) (auto simp: bit_simps)
qed

lemma le32_split:
  "(ucast (ucast v :: u8) OR push_bit 8 (ucast (ucast (drop_bit 8 v) :: u8))
     OR push_bit 16 (ucast (ucast (drop_bit 16 v) :: u8))
     OR push_bit 24 (ucast (ucast (drop_bit 24 v) :: u8))) = (v :: u32)"
proof -
  have "n < 32 \<Longrightarrow> \<not> n < 8 \<Longrightarrow> n - 8 < 8 \<or> (n - 16 < 8 \<and> 16 + (n - 16) = n) \<or> (n - 24 < 8 \<and> 24 + (n - 24) = n)"
    for n :: nat by arith
  then show ?thesis
    by (intro bit_word_eqI) (fastforce simp: bit_simps)
qed

text \<open>Reading back what was stored little-endian gives the value.\<close>

lemma of_le16_blit [simp]: "d + 2 \<le> length m \<Longrightarrow> of_le16 (blit m d (le16 v)) d = v"
  by (simp add: of_le16_def le16_def nth_list_update le16_split)

lemma of_le32_blit [simp]: "d + 4 \<le> length m \<Longrightarrow> of_le32 (blit m d (le32 v)) d = v"
  by (simp add: of_le32_def le32_def nth_list_update le32_split)

lemma of_le16_blit_other:
  "i + 2 \<le> d \<or> d + length xs \<le> i \<Longrightarrow> i + 2 \<le> length m \<Longrightarrow>
   of_le16 (blit m d xs) i = of_le16 m i"
  by (auto simp: of_le16_def nth_blit)

lemma of_le32_blit_other:
  "i + 4 \<le> d \<or> d + length xs \<le> i \<Longrightarrow> i + 4 \<le> length m \<Longrightarrow>
   of_le32 (blit m d xs) i = of_le32 m i"
  by (auto simp: of_le32_def nth_blit)

subsection \<open>The first index of a loop that stops early\<close>

text \<open>\<open>for (i = 0; i < n; i++) if (P i) break;\<close> as the index it stops at, None when it runs out.\<close>

definition first_idx :: "(nat \<Rightarrow> bool) \<Rightarrow> nat \<Rightarrow> nat option" where
  "first_idx P n = List.find P [0..<n]"

lemma first_idx_Some: "first_idx P n = Some i \<longleftrightarrow> i < n \<and> P i \<and> (\<forall>j<i. \<not> P j)"
proof
  assume "first_idx P n = Some i"
  then show "i < n \<and> P i \<and> (\<forall>j<i. \<not> P j)"
    by (auto simp: first_idx_def find_Some_iff)
next
  assume "i < n \<and> P i \<and> (\<forall>j<i. \<not> P j)"
  then show "first_idx P n = Some i"
    by (auto simp: first_idx_def find_Some_iff intro!: exI [of _ i])
qed

lemma first_idx_None: "first_idx P n = None \<longleftrightarrow> (\<forall>i<n. \<not> P i)"
  by (simp add: first_idx_def find_None_iff)

lemma first_idx_SomeD:
  assumes "first_idx P n = Some i"
  shows "i < n" and "P i" and "j < i \<Longrightarrow> \<not> P j"
  using assms by (auto simp: first_idx_Some)

lemma first_idx_cong:
  "(\<And>i. i < n \<Longrightarrow> P i = Q i) \<Longrightarrow> first_idx P n = first_idx Q n"
  unfolding first_idx_def by (rule find_cong [OF refl]) simp

lemma first_idx_unique:
  "i < n \<Longrightarrow> P i \<Longrightarrow> (\<And>j. j < n \<Longrightarrow> P j \<Longrightarrow> j = i) \<Longrightarrow> first_idx P n = Some i"
  unfolding first_idx_Some by (metis less_irrefl less_trans)

lemma nth_update_False: "(xs[k := False]) ! i \<Longrightarrow> xs ! i"
  by (cases "k = i"; cases "k < length xs") (auto simp: list_update_beyond)

subsection \<open>Masks and shifts read as division\<close>

lemma and_not_mask_shift: "w AND NOT (mask k) = push_bit k (drop_bit k w)" for w :: "'a::len word"
  by (rule bit_word_eqI) (auto simp: bit_simps)

lemma unat_and_not_mask: "unat (w AND NOT (mask k)) = unat w div 2 ^ k * 2 ^ k" for w :: "'a::len word"
proof -
  have "unat w div 2 ^ k * 2 ^ k \<le> unat w" by simp
  also have "unat w < 2 ^ LENGTH('a)" by (rule unsigned_less)
  finally have lt: "unat w div 2 ^ k * 2 ^ k < 2 ^ LENGTH('a)" .
  have "unat (push_bit k (drop_bit k w)) = take_bit LENGTH('a) (unat w div 2 ^ k * 2 ^ k)"
    by (simp only: unsigned_push_bit_eq unsigned_drop_bit_eq) (simp add: drop_bit_eq_div push_bit_eq_mult take_bit_nat_eq_self [OF unsigned_less])
  with lt show ?thesis
    by (simp add: and_not_mask_shift take_bit_nat_eq_self)
qed

lemma unat_and_mask: "unat (w AND mask k) = unat w mod 2 ^ k" for w :: "'a::len word"
proof -
  have "w AND mask k = take_bit k w" by (simp add: take_bit_eq_mask)
  then have "unat (w AND mask k) = take_bit k (unat w)" by (simp only: unsigned_take_bit_eq)
  then show ?thesis by (simp add: take_bit_eq_mod)
qed

end
