(* ===== verification/LibC.thy ===== *)
theory LibC
  imports ZPrelude
begin

text \<open>
  The string and memory routines of libk/string.c. A routine that moves bytes within memory
  (memcpy, memmove) works on one buffer and two offsets, so that overlapping operands are
  covered; a routine that reads strings takes the bytes the pointer points at.
\<close>

subsection \<open>Memory blocks\<close>

primrec memset :: "bytes \<Rightarrow> nat \<Rightarrow> u8 \<Rightarrow> nat \<Rightarrow> bytes" where
  "memset m d c 0 = m"
| "memset m d c (Suc n) = memset (m[d := c]) (Suc d) c n" for m :: bytes

primrec memcpy :: "bytes \<Rightarrow> nat \<Rightarrow> nat \<Rightarrow> nat \<Rightarrow> bytes" where
  "memcpy m d s 0 = m"
| "memcpy m d s (Suc n) = memcpy (m[d := m ! s]) (Suc d) (Suc s) n" for m :: bytes

text \<open>The backward loop of memmove, with both pointers already past their blocks.\<close>

primrec memmove_down :: "bytes \<Rightarrow> nat \<Rightarrow> nat \<Rightarrow> nat \<Rightarrow> bytes" where
  "memmove_down m d s 0 = m"
| "memmove_down m d s (Suc n) = memmove_down (m[d + n := m ! (s + n)]) d s n" for m :: bytes

definition memmove :: "bytes \<Rightarrow> nat \<Rightarrow> nat \<Rightarrow> nat \<Rightarrow> bytes" where
  "memmove m d s n =
     (if d = s \<or> n = 0 then m
      else if d < s then memcpy m d s n
      else memmove_down m d s n)"

fun memcmp :: "bytes \<Rightarrow> bytes \<Rightarrow> nat \<Rightarrow> int" where
  "memcmp a b 0 = 0"
| "memcmp a b (Suc n) =
     (if hd a \<noteq> hd b then uint (hd a) - uint (hd b) else memcmp (tl a) (tl b) n)"

subsection \<open>Strings\<close>

fun strlen :: "bytes \<Rightarrow> nat" where
  "strlen [] = 0"
| "strlen (c # s) = (if c = 0 then 0 else Suc (strlen s))"

text \<open>A list that has run out reads as the terminator.\<close>

fun strcmp :: "bytes \<Rightarrow> bytes \<Rightarrow> int" where
  "strcmp [] b = 0 - uint (byte_at b 0)"
| "strcmp (x # a) b =
     (if x \<noteq> 0 \<and> x = byte_at b 0 then strcmp a (tl b) else uint x - uint (byte_at b 0))"

fun strncmp :: "bytes \<Rightarrow> bytes \<Rightarrow> nat \<Rightarrow> int" where
  "strncmp a b 0 = 0"
| "strncmp [] b (Suc n) = 0 - uint (byte_at b 0)"
| "strncmp (x # a) b (Suc n) =
     (if x \<noteq> 0 \<and> x = byte_at b 0 then strncmp a (tl b) n else uint x - uint (byte_at b 0))"

definition toupper :: "int \<Rightarrow> int" where
  "toupper c = (if 97 \<le> c \<and> c \<le> 122 then c - 32 else c)"

definition tolower :: "int \<Rightarrow> int" where
  "tolower c = (if 65 \<le> c \<and> c \<le> 90 then c + 32 else c)"

definition isspace :: "int \<Rightarrow> bool" where
  "isspace c \<longleftrightarrow> c = 32 \<or> c = 9 \<or> c = 10 \<or> c = 13"

definition isdigit :: "int \<Rightarrow> bool" where
  "isdigit c \<longleftrightarrow> 48 \<le> c \<and> c \<le> 57"

definition isalpha :: "int \<Rightarrow> bool" where
  "isalpha c \<longleftrightarrow> (97 \<le> c \<and> c \<le> 122) \<or> (65 \<le> c \<and> c \<le> 90)"

fun strcasecmp :: "bytes \<Rightarrow> bytes \<Rightarrow> int" where
  "strcasecmp [] b = tolower 0 - tolower (uint (byte_at b 0))"
| "strcasecmp (x # a) b =
     (if x \<noteq> 0 \<and> tolower (uint x) = tolower (uint (byte_at b 0)) then strcasecmp a (tl b)
      else tolower (uint x) - tolower (uint (byte_at b 0)))"

text \<open>strcpy stores the characters and the terminator; strncpy stores exactly n bytes.\<close>

definition strcpy :: "bytes \<Rightarrow> nat \<Rightarrow> bytes \<Rightarrow> bytes" where
  "strcpy m d s = blit m d (chars s @ [0])"

fun strncpy_bytes :: "bytes \<Rightarrow> nat \<Rightarrow> bytes" where
  "strncpy_bytes s 0 = []"
| "strncpy_bytes [] (Suc n) = 0 # strncpy_bytes [] n"
| "strncpy_bytes (c # s) (Suc n) = (if c = 0 then 0 # strncpy_bytes [] n else c # strncpy_bytes s n)"

definition strncpy :: "bytes \<Rightarrow> nat \<Rightarrow> bytes \<Rightarrow> nat \<Rightarrow> bytes" where
  "strncpy m d s n = blit m d (strncpy_bytes s n)"

text \<open>strchr gives the offset of the hit, None for the null pointer.\<close>

fun strchr :: "bytes \<Rightarrow> u8 \<Rightarrow> nat option" where
  "strchr [] c = (if c = 0 then Some 0 else None)"
| "strchr (x # s) c =
     (if x = 0 then (if c = 0 then Some 0 else None)
      else if x = c then Some 0 else map_option Suc (strchr s c))"

subsection \<open>Memory blocks: what the loops store\<close>

lemma length_memset [simp, lens]: "length (memset m d c n) = length m"
  by (induction n arbitrary: m d) auto

lemma memset_blit: "memset m d c n = blit m d (replicate n c)"
  by (induction n arbitrary: m d) auto

lemma length_memcpy [simp, lens]: "length (memcpy m d s n) = length m"
  by (induction n arbitrary: m d s) auto

lemma length_memmove_down [simp, lens]: "length (memmove_down m d s n) = length m"
  by (induction n arbitrary: m) auto

text \<open>The forward loop is right when the destination does not start inside the source.\<close>

lemma nth_memcpy:
  "d + n \<le> length m \<Longrightarrow> s + n \<le> length m \<Longrightarrow> d \<le> s \<or> s + n \<le> d \<Longrightarrow> i < length m \<Longrightarrow>
   memcpy m d s n ! i = (if d \<le> i \<and> i < d + n then m ! (s + (i - d)) else m ! i)"
proof (induction n arbitrary: m d s)
  case 0
  then show ?case by auto
next
  case (Suc n)
  have "memcpy (m[d := m ! s]) (Suc d) (Suc s) n ! i =
    (if Suc d \<le> i \<and> i < Suc d + n then m[d := m ! s] ! (Suc s + (i - Suc d)) else m[d := m ! s] ! i)"
    using Suc.prems by (intro Suc.IH) auto
  moreover have "Suc s + (i - Suc d) = s + (i - d)" if "Suc d \<le> i"
    using that by simp
  ultimately show ?case
    using Suc.prems by (auto simp: nth_list_update not_le Suc_le_eq)
qed

lemma nth_memmove_down:
  "d + n \<le> length m \<Longrightarrow> s + n \<le> length m \<Longrightarrow> s \<le> d \<Longrightarrow> i < length m \<Longrightarrow>
   memmove_down m d s n ! i = (if d \<le> i \<and> i < d + n then m ! (s + (i - d)) else m ! i)"
proof (induction n arbitrary: m)
  case 0
  then show ?case by auto
next
  case (Suc n)
  have "memmove_down (m[d + n := m ! (s + n)]) d s n ! i =
    (if d \<le> i \<and> i < d + n then m[d + n := m ! (s + n)] ! (s + (i - d)) else m[d + n := m ! (s + n)] ! i)"
    using Suc.prems by (intro Suc.IH) auto
  then show ?case
    using Suc.prems by (auto simp: nth_list_update not_less le_less_Suc_eq)
qed

lemma memmove_window:
  assumes "d + n \<le> length m" and "s + n \<le> length m"
  shows "memmove m d s n = blit m d (window s n m)"
proof (rule nth_equalityI)
  show "length (memmove m d s n) = length (blit m d (window s n m))"
    by (simp add: memmove_def)
next
  fix i assume "i < length (memmove m d s n)"
  then have i: "i < length m" by (auto simp: memmove_def split: if_splits)
  show "memmove m d s n ! i = blit m d (window s n m) ! i"
    using assms i
    by (auto simp: memmove_def nth_memcpy nth_memmove_down nth_blit nth_window)
qed

lemma memcmp_0: "n \<le> length a \<Longrightarrow> n \<le> length b \<Longrightarrow> memcmp a b n = 0 \<longleftrightarrow> take n a = take n b"
proof (induction a b n rule: memcmp.induct)
  case (1 a b)
  then show ?case by simp
next
  case (2 a b n)
  then obtain x a' y b' where "a = x # a'" "b = y # b'"
    by (cases a; cases b) auto
  with 2 show ?case by (auto simp: word_uint_eq_iff)
qed

subsection \<open>Strings: the comparison functions decide equality\<close>

lemma strlen_chars: "strlen s = length (chars s)"
  by (induction s) auto

lemma byte_at_0_uint [simp]: "uint (byte_at b 0) = 0 \<longleftrightarrow> byte_at b 0 = 0"
  by (simp add: uint_0_iff)

lemma byte_at_0_chars: "byte_at b 0 = 0 \<longleftrightarrow> chars b = []"
  by (cases b) auto

lemma strcmp_eq_0: "strcmp a b = 0 \<longleftrightarrow> chars a = chars b"
proof (induction a b rule: strcmp.induct)
  case (1 b)
  then show ?case by (cases b) (auto simp: uint_0_iff)
next
  case (2 x a b)
  then show ?case by (cases b) (auto simp: word_uint_eq_iff)
qed

lemma strncmp_eq_0: "strncmp a b n = 0 \<longleftrightarrow> take n (chars a) = take n (chars b)"
proof (induction a b n rule: strncmp.induct)
  case (1 a b)
  then show ?case by simp
next
  case (2 b n)
  then show ?case by (cases b) (auto simp: uint_0_iff)
next
  case (3 x a b n)
  then show ?case by (cases b) (auto simp: word_uint_eq_iff)
qed

text \<open>Case folding on bytes, and on the characters of a string.\<close>

definition lower8 :: "u8 \<Rightarrow> int" where
  "lower8 c = tolower (uint c)"

definition fold_case :: "bytes \<Rightarrow> int list" where
  "fold_case s = map lower8 (chars s)"

lemma lower8_0 [simp]: "lower8 0 = 0"
  by (simp add: lower8_def tolower_def)

lemma lower8_0_iff [simp]: "lower8 c = 0 \<longleftrightarrow> c = 0" "0 = lower8 c \<longleftrightarrow> c = 0"
proof -
  have "0 \<le> uint c" by simp
  then show "lower8 c = 0 \<longleftrightarrow> c = 0" by (auto simp: lower8_def tolower_def uint_0_iff)
  then show "0 = lower8 c \<longleftrightarrow> c = 0" by auto
qed

lemma strcasecmp_eq_0: "strcasecmp a b = 0 \<longleftrightarrow> fold_case a = fold_case b"
proof (induction a b rule: strcasecmp.induct)
  case (1 b)
  have "tolower 0 = 0" by (simp add: tolower_def)
  then show ?case
    by (cases b) (auto simp: fold_case_def simp flip: lower8_def)
next
  case (2 x a b)
  have "tolower 0 = 0" by (simp add: tolower_def)
  then show ?case
    using 2 by (cases b) (auto simp: fold_case_def simp flip: lower8_def)
qed

subsection \<open>Copying strings\<close>

lemma length_strncpy_bytes [simp, lens]: "length (strncpy_bytes s n) = n"
  by (induction s n rule: strncpy_bytes.induct) auto

lemma strncpy_bytes_Nil: "strncpy_bytes [] n = replicate n 0"
  by (induction n) auto

lemma strncpy_bytes_eq:
  "strncpy_bytes s n = take n (chars s) @ replicate (n - length (chars s)) 0"
  by (induction s n rule: strncpy_bytes.induct) (auto simp: strncpy_bytes_Nil)

lemma length_strncpy [simp, lens]: "length (strncpy m d s n) = length m"
  by (simp add: strncpy_def)

lemma length_strcpy [simp, lens]: "length (strcpy m d s) = length m"
  by (simp add: strcpy_def)

text \<open>The idiom used all over the kernel: strncpy of n - 1 bytes and a zero in the last place.\<close>

definition store_name :: "bytes \<Rightarrow> bytes \<Rightarrow> nat \<Rightarrow> bytes" where
  "store_name m s n = (strncpy m 0 s (n - 1))[n - 1 := 0]"

lemma length_store_name [simp, lens]: "length (store_name m s n) = length m"
  by (simp add: store_name_def)

lemma store_name_eq:
  assumes "length m = n" and "0 < n"
  shows "store_name m s n = strncpy_bytes s (n - 1) @ [0]"
proof (rule nth_equalityI)
  show "length (store_name m s n) = length (strncpy_bytes s (n - 1) @ [0])"
    using assms by simp
next
  fix i assume "i < length (store_name m s n)"
  then show "store_name m s n ! i = (strncpy_bytes s (n - 1) @ [0]) ! i"
    using assms
    by (auto simp: store_name_def strncpy_def nth_list_update nth_blit nth_append less_Suc_eq)
qed

lemma chars_replicate_0 [simp]: "chars (replicate n 0) = []"
  by (cases n) auto

lemma chars_store_name:
  assumes "length m = n" and "0 < n"
  shows "chars (store_name m s n) = take (n - 1) (chars s)"
proof -
  have nz: "0 \<notin> set (take (n - 1) (chars s))"
    using chars_no_zero [of s] by (meson in_set_takeD)
  have "strncpy_bytes s (n - 1) @ [0] =
      take (n - 1) (chars s) @ replicate (n - 1 - length (chars s)) 0 @ [0]"
    by (simp add: strncpy_bytes_eq)
  also have "chars \<dots> = take (n - 1) (chars s)"
    by (simp only: chars_append [OF nz] replicate_append_same chars_replicate_0 append_Nil2
        flip: replicate_Suc)
  finally show ?thesis
    by (simp add: store_name_eq [OF assms])
qed

lemma strchr_Some: "strchr s c = Some i \<Longrightarrow> c \<noteq> 0 \<Longrightarrow> i < strlen s \<and> s ! i = c"
  by (induction s arbitrary: i) (auto split: if_splits)

lemma strchr_None: "c \<noteq> 0 \<Longrightarrow> strchr s c = None \<longleftrightarrow> c \<notin> set (chars s)"
  by (induction s) (auto split: if_splits)

text \<open>memmove copies as if through a temporary buffer, whichever way source and destination
  overlap: the destination range gets the bytes the source range held before, the rest is unchanged.\<close>

theorem memmove_overlap:
  assumes "d + n \<le> length m" and "s + n \<le> length m"
  shows "length (memmove m d s n) = length m
    \<and> (\<forall>i < length m. memmove m d s n ! i = (if d \<le> i \<and> i < d + n then m ! (s + (i - d)) else m ! i))"
  using assms by (auto simp: memmove_window nth_blit nth_window)

lemma memmove_overlap_witness:
  "memmove [1, 2, 3, 4, 5] 1 0 4 ! 2 = 2 \<and> memmove [1, 2, 3, 4, 5] 0 1 4 ! 2 = 4"
  using memmove_overlap [of 1 4 "[1, 2, 3, 4, 5]" 0] memmove_overlap [of 0 4 "[1, 2, 3, 4, 5]" 1]
  by auto

text \<open>The comparison functions decide equality of the strings they are given: strcmp of the
  texts before the terminators, strncmp of their first n bytes, strcasecmp of the texts with ASCII
  letters folded to lower case.\<close>

theorem string_compare:
  "(strcmp a b = 0 \<longleftrightarrow> chars a = chars b) \<and> (strncmp a b n = 0 \<longleftrightarrow> take n (chars a) = take n (chars b))
   \<and> (strcasecmp a b = 0 \<longleftrightarrow> map lower8 (chars a) = map lower8 (chars b))"
  by (simp add: strcmp_eq_0 strncmp_eq_0 strcasecmp_eq_0 fold_case_def)

end
