(* ===== verification/SlotStore.thy ===== *)
theory SlotStore
  imports LibC
begin

text \<open>
  The interface shared by the fixed-size tables of the kernel (environment variables, the ARP
  cache): a store of values under keys that are compared up to a canonical form. Clients use
  it through the laws alone; each table interprets the locale on its own operations.
\<close>

text \<open>A sequence of stores, each of which must succeed.\<close>

fun put_all :: "('s \<Rightarrow> 'k \<Rightarrow> 'v \<Rightarrow> 's option) \<Rightarrow> 's \<Rightarrow> ('k \<times> 'v) list \<Rightarrow> 's option" where
  "put_all put s [] = Some s"
| "put_all put s ((k, v) # kvs) =
     (case put s k v of None \<Rightarrow> None | Some s' \<Rightarrow> put_all put s' kvs)"

text \<open>What the newest of a list of stores says about a key.\<close>

fun latest :: "('k \<Rightarrow> 'c) \<Rightarrow> ('v \<Rightarrow> 'w) \<Rightarrow> ('k \<times> 'v) list \<Rightarrow> 'k \<Rightarrow> 'w option" where
  "latest canon norm [] k = None"
| "latest canon norm ((j, v) # kvs) k =
     (case latest canon norm kvs k of
        Some w \<Rightarrow> Some w
      | None \<Rightarrow> if canon j = canon k then Some (norm v) else None)"

locale slot_store =
  fixes get :: "'s \<Rightarrow> 'k \<Rightarrow> 'w option"
    and put :: "'s \<Rightarrow> 'k \<Rightarrow> 'v \<Rightarrow> 's option"
    and inv :: "'s \<Rightarrow> bool"
    and canon :: "'k \<Rightarrow> 'c"
    and fits :: "'k \<Rightarrow> bool"
    and norm :: "'v \<Rightarrow> 'w"
  assumes put_inv: "inv s \<Longrightarrow> fits k \<Longrightarrow> put s k v = Some s' \<Longrightarrow> inv s'"
    and get_put_same: "inv s \<Longrightarrow> fits k \<Longrightarrow> put s k v = Some s' \<Longrightarrow> canon j = canon k \<Longrightarrow> get s' j = Some (norm v)"
    and get_put_other: "inv s \<Longrightarrow> fits k \<Longrightarrow> put s k v = Some s' \<Longrightarrow> canon j \<noteq> canon k \<Longrightarrow> get s' j = get s j"
begin

lemma put_all_inv:
  "inv s \<Longrightarrow> \<forall>(k, v) \<in> set kvs. fits k \<Longrightarrow> put_all put s kvs = Some t \<Longrightarrow> inv t"
  by (induction kvs arbitrary: s) (auto split: option.splits, metis put_inv)

lemma get_put: "inv s \<Longrightarrow> fits k \<Longrightarrow> put s k v = Some s' \<Longrightarrow>
    get s' j = (if canon j = canon k then Some (norm v) else get s j)"
  by (simp add: get_put_same get_put_other)

text \<open>Any number of stores is the map that gives each key its newest value.\<close>

lemma get_put_all:
  "inv s \<Longrightarrow> \<forall>(k, v) \<in> set kvs. fits k \<Longrightarrow> put_all put s kvs = Some t \<Longrightarrow>
   get t j = (case latest canon norm kvs j of Some w \<Rightarrow> Some w | None \<Rightarrow> get s j)"
proof (induction kvs arbitrary: s)
  case Nil
  then show ?case by simp
next
  case (Cons kv kvs)
  obtain k v where kv: "kv = (k, v)" by (cases kv)
  with Cons.prems obtain s' where s': "put s k v = Some s'" and t: "put_all put s' kvs = Some t"
    by (auto split: option.splits)
  have fits: "fits k" using Cons.prems(2) kv by simp
  have "get t j = (case latest canon norm kvs j of Some w \<Rightarrow> Some w | None \<Rightarrow> get s' j)"
    by (rule Cons.IH) (use Cons.prems s' t fits in \<open>auto intro: put_inv\<close>)
  also have "get s' j = (if canon j = canon k then Some (norm v) else get s j)"
    using Cons.prems(1) fits s' by (rule get_put)
  finally show ?case by (auto simp: kv split: option.splits)
qed

end

text \<open>A store that can also forget a key.\<close>

locale slot_store_del = slot_store +
  fixes del :: "'s \<Rightarrow> 'k \<Rightarrow> 's"
  assumes del_inv: "inv s \<Longrightarrow> inv (del s k)"
    and get_del_same: "inv s \<Longrightarrow> canon j = canon k \<Longrightarrow> get (del s k) j = None"
    and get_del_other: "inv s \<Longrightarrow> canon j \<noteq> canon k \<Longrightarrow> get (del s k) j = get s j"
begin

lemma get_put_del: "inv s \<Longrightarrow> fits k \<Longrightarrow> put s k v = Some s' \<Longrightarrow> get (del s' k) j = get (del s k) j"
  by (cases "canon j = canon k") (simp_all add: get_del_same get_del_other put_inv get_put_other)

lemma put_after_del: "inv s \<Longrightarrow> fits k \<Longrightarrow> put (del s k) k v = Some t \<Longrightarrow>
    get t j = (if canon j = canon k then Some (norm v) else get s j)"
  using get_put [of "del s k" k v t j] by (simp add: del_inv get_del_other)

end

end
