(* ===== verification/Printf.thy ===== *)
theory Printf
  imports LibC
begin

text \<open>
  The formatter of libk/printf.c. A sink is either the console, modelled as the sequence of
  bytes sent to it, or a caller's buffer of a given capacity. The variable arguments are a list
  of values, each an integer register word or a string pointer; taking an argument that is
  missing or of the other kind is undefined behaviour in C and gives None.
\<close>

record sink =
  sbuf :: bytes
  scap :: nat
  spos :: nat
  to_console :: bool
  console :: bytes

datatype arg = ArgWord u32 | ArgStr "bytes option"

definition sink_put :: "sink \<Rightarrow> u8 \<Rightarrow> sink" where
  "sink_put s c =
     (if to_console s then s\<lparr>console := console s @ [c]\<rparr>
      else if spos s + 1 < scap s then s\<lparr>sbuf := (sbuf s)[spos s := c], spos := spos s + 1\<rparr>
      else if spos s < scap s then s\<lparr>sbuf := (sbuf s)[spos s := 0]\<rparr>
      else s)"

primrec sink_puts :: "sink \<Rightarrow> bytes \<Rightarrow> sink" where
  "sink_puts s [] = s"
| "sink_puts s (c # cs) = sink_puts (sink_put s c) cs"

definition emit_str :: "sink \<Rightarrow> bytes \<Rightarrow> int \<Rightarrow> bool \<Rightarrow> bool \<Rightarrow> sink" where
  "emit_str s str width pad_zero left =
     (let len = int (strlen str);
          pad = (if len < width then nat (width - len) else 0);
          fill = (if pad_zero then 48 else 32);
          s1 = (if left then s else sink_puts s (replicate pad fill));
          s2 = sink_puts s1 (chars str)
      in if left then sink_puts s2 (replicate pad 32) else s2)"

text \<open>The digits of a number in the order the conversion loop produces them.\<close>

definition digit :: "bool \<Rightarrow> nat \<Rightarrow> u8" where
  "digit upper d = (if d < 10 then of_nat (48 + d) else of_nat ((if upper then 55 else 87) + d))"

fun digits_rev :: "nat \<Rightarrow> bool \<Rightarrow> nat \<Rightarrow> bytes" where
  "digits_rev base upper v =
     (if v = 0 \<or> base < 2 then [] else digit upper (v mod base) # digits_rev base upper (v div base))"

declare digits_rev.simps [simp del]

definition uint_digits :: "nat \<Rightarrow> bool \<Rightarrow> u32 \<Rightarrow> bytes" where
  "uint_digits base upper v = (if v = 0 then [48] else rev (digits_rev base upper (unat v)))"

definition emit_uint :: "sink \<Rightarrow> u32 \<Rightarrow> nat \<Rightarrow> bool \<Rightarrow> int \<Rightarrow> bool \<Rightarrow> bool \<Rightarrow> sink" where
  "emit_uint s v base upper width pad_zero left =
     emit_str s (uint_digits base upper v) width pad_zero left"

definition emit_int :: "sink \<Rightarrow> u32 \<Rightarrow> int \<Rightarrow> bool \<Rightarrow> bool \<Rightarrow> sink" where
  "emit_int s v width pad_zero left =
     (if sint v < 0 then
        emit_uint (sink_put s 45) (- v) 10 False (if 0 < width then width - 1 else width) pad_zero left
      else emit_uint s v 10 False width pad_zero left)"

text \<open>The directive after a percent sign: optional flags, then a width. The width is an int of the C code; it is
  unbounded here, so formats with a width of more than nine digits, which no caller has, are outside the model.\<close>

fun parse_width :: "bytes \<Rightarrow> int \<Rightarrow> int \<times> bytes" where
  "parse_width [] w = (w, [])"
| "parse_width (c # f) w = (if 48 \<le> c \<and> c \<le> 57 then parse_width f (w * 10 + (uint c - 48)) else (w, c # f))"

lemma parse_width_length: "length (snd (parse_width f w)) \<le> length f"
  by (induction f arbitrary: w) (auto intro: le_SucI)

definition take_flag :: "u8 \<Rightarrow> bytes \<Rightarrow> bool \<times> bytes" where
  "take_flag c f = (case f of x # f' \<Rightarrow> if x = c then (True, f') else (False, f) | [] \<Rightarrow> (False, []))"

definition word_arg :: "arg list \<Rightarrow> (u32 \<times> arg list) option" where
  "word_arg as = (case as of ArgWord w # as' \<Rightarrow> Some (w, as') | _ \<Rightarrow> None)"

definition str_arg :: "arg list \<Rightarrow> (bytes option \<times> arg list) option" where
  "str_arg as = (case as of ArgStr p # as' \<Rightarrow> Some (p, as') | _ \<Rightarrow> None)"

text \<open>One conversion: the switch of vformat on the conversion character.\<close>

definition convert :: "sink \<Rightarrow> u8 \<Rightarrow> arg list \<Rightarrow> int \<Rightarrow> bool \<Rightarrow> bool \<Rightarrow> (sink \<times> arg list) option" where
  "convert s c as width pad_zero left =
     (if c = 100 \<or> c = 105 then
        map_option (\<lambda>(v, as'). (emit_int s v width pad_zero left, as')) (word_arg as)
      else if c = 117 then
        map_option (\<lambda>(v, as'). (emit_uint s v 10 False width pad_zero left, as')) (word_arg as)
      else if c = 120 then
        map_option (\<lambda>(v, as'). (emit_uint s v 16 False width pad_zero left, as')) (word_arg as)
      else if c = 88 then
        map_option (\<lambda>(v, as'). (emit_uint s v 16 True width pad_zero left, as')) (word_arg as)
      else if c = 112 then
        map_option (\<lambda>(v, as'). (emit_uint (sink_put (sink_put s 48) 120) v 16 False 8 True False, as'))
          (word_arg as)
      else if c = 115 then
        map_option (\<lambda>(p, as'). (emit_str s (case p of None \<Rightarrow> lit ''(null)'' | Some str \<Rightarrow> str)
          width False left, as')) (str_arg as)
      else if c = 99 then
        map_option (\<lambda>(v, as'). (sink_put s (ucast v), as')) (word_arg as)
      else if c = 37 then Some (sink_put s 37, as)
      else Some (sink_put (sink_put s 37) c, as))"

definition directive :: "bytes \<Rightarrow> bool \<times> bool \<times> int \<times> bytes" where
  "directive f =
     (let (left, f1) = take_flag 45 f;
          (pad_zero, f2) = take_flag 48 f1;
          (width, f3) = parse_width f2 0
      in (left, pad_zero, width, f3))"

lemma take_flag_length: "length (snd (take_flag c f)) \<le> length f"
  by (auto simp: take_flag_def split: list.splits)

lemma directive_length: "directive f = (l, p, w, f3) \<Longrightarrow> length f3 \<le> length f"
  using take_flag_length [of 45 f] take_flag_length [of 48 "snd (take_flag 45 f)"]
    parse_width_length [of "snd (take_flag 48 (snd (take_flag 45 f)))" 0]
  by (auto simp: directive_def Let_def split: prod.splits)

function vformat_loop :: "sink \<Rightarrow> bytes \<Rightarrow> arg list \<Rightarrow> sink option" where
  "vformat_loop s [] as = Some s"
| "vformat_loop s (c # f) as =
     (if c = 0 then Some s
      else if c \<noteq> 37 then vformat_loop (sink_put s c) f as
      else case directive f of (left, pad_zero, width, f3) \<Rightarrow>
        (case convert s (byte_at f3 0) as width pad_zero left of
           None \<Rightarrow> None
         | Some (s', as') \<Rightarrow>
             vformat_loop s' (if byte_at f3 0 = 0 then f3 else tl f3) as'))"
  by pat_completeness auto
termination
proof (relation "measure (\<lambda>(s, f, as). length f)", goal_cases)
  case 1
  then show ?case by simp
next
  case (2 s c f as)
  then show ?case by simp
next
  case (3 s c f as left x pad_zero y width f3 z s' as')
  then have "directive f = (left, pad_zero, width, f3)" by simp
  then have "length f3 \<le> length f" by (rule directive_length)
  moreover have "length (tl f3) \<le> length f3" by simp
  ultimately show ?case by (auto simp: le_imp_less_Suc)
qed

text \<open>The closing terminator of a buffer sink, and the count returned.\<close>

definition vformat :: "sink \<Rightarrow> bytes \<Rightarrow> arg list \<Rightarrow> (sink \<times> int) option" where
  "vformat s fmt as =
     (case vformat_loop s fmt as of
        None \<Rightarrow> None
      | Some s1 \<Rightarrow>
          let s2 = (if \<not> to_console s1 \<and> 0 < scap s1
                    then s1\<lparr>sbuf := (sbuf s1)[(if spos s1 < scap s1 then spos s1 else scap s1 - 1) := 0]\<rparr>
                    else s1)
          in Some (s2, int (spos s2) - int (spos s)))"

definition kprintf :: "bytes \<Rightarrow> bytes \<Rightarrow> arg list \<Rightarrow> (bytes \<times> int) option" where
  "kprintf out fmt as =
     map_option (\<lambda>(s, n). (console s, n))
       (vformat \<lparr>sbuf = [], scap = 0, spos = 0, to_console = True, console = out\<rparr> fmt as)"

definition ksnprintf :: "bytes \<Rightarrow> nat \<Rightarrow> bytes \<Rightarrow> arg list \<Rightarrow> (bytes \<times> int) option" where
  "ksnprintf buf n fmt as =
     map_option (\<lambda>(s, r). (sbuf s, r))
       (vformat \<lparr>sbuf = buf, scap = n, spos = 0, to_console = False, console = []\<rparr> fmt as)"

definition kvsnprintf :: "bytes \<Rightarrow> nat \<Rightarrow> bytes \<Rightarrow> arg list \<Rightarrow> (bytes \<times> int) option" where
  "kvsnprintf buf n fmt as =
     map_option (\<lambda>(s, r). (sbuf s, r))
       (vformat \<lparr>sbuf = buf, scap = n, spos = 0, to_console = False, console = []\<rparr> fmt as)"

subsection \<open>Writing into a buffer stays inside it\<close>

text \<open>The text a buffer sink holds, and what is promised of it: it lies within the capacity.\<close>

definition sink_ok :: "sink \<Rightarrow> bool" where
  "sink_ok s \<longleftrightarrow> \<not> to_console s \<and> scap s \<le> length (sbuf s) \<and> (0 < scap s \<longrightarrow> spos s < scap s)
     \<and> (scap s = 0 \<longrightarrow> spos s = 0)"

definition sink_text :: "sink \<Rightarrow> bytes" where
  "sink_text s = take (spos s) (sbuf s)"

text \<open>Two sinks of one buffer, the second reached from the first by writing.\<close>

definition sink_ext :: "sink \<Rightarrow> sink \<Rightarrow> bool" where
  "sink_ext s t \<longleftrightarrow> scap t = scap s \<and> length (sbuf t) = length (sbuf s) \<and> spos s \<le> spos t
     \<and> drop (scap s) (sbuf t) = drop (scap s) (sbuf s) \<and> sink_ok t"

lemma sink_ext_refl: "sink_ok s \<Longrightarrow> sink_ext s s"
  by (simp add: sink_ext_def)

lemma sink_ext_trans: "sink_ext s t \<Longrightarrow> sink_ext t u \<Longrightarrow> sink_ext s u"
  by (auto simp: sink_ext_def)

lemma sink_put_ext: "sink_ok s \<Longrightarrow> sink_ext s (sink_put s c)"
  by (auto simp: sink_put_def sink_ext_def sink_ok_def)

lemma sink_ext_ok: "sink_ext s t \<Longrightarrow> sink_ok t"
  by (simp add: sink_ext_def)

lemma sink_puts_ext: "sink_ok s \<Longrightarrow> sink_ext s (sink_puts s cs)"
proof (induction cs arbitrary: s)
  case Nil
  then show ?case by (simp add: sink_ext_refl)
next
  case (Cons c cs)
  have "sink_ext s (sink_put s c)" using Cons.prems by (rule sink_put_ext)
  moreover have "sink_ext (sink_put s c) (sink_puts (sink_put s c) cs)"
    using calculation by (intro Cons.IH) (rule sink_ext_ok)
  ultimately show ?case by (auto intro: sink_ext_trans)
qed

lemma emit_str_ext: "sink_ok s \<Longrightarrow> sink_ext s (emit_str s str w p l)"
  by (auto simp: emit_str_def Let_def intro!: sink_puts_ext
      intro: sink_ext_trans [OF sink_puts_ext sink_puts_ext] sink_ext_ok [OF sink_puts_ext])

lemma emit_uint_ext: "sink_ok s \<Longrightarrow> sink_ext s (emit_uint s v b u w p l)"
  by (simp add: emit_uint_def emit_str_ext)

lemma emit_int_ext: "sink_ok s \<Longrightarrow> sink_ext s (emit_int s v w p l)"
  by (auto simp: emit_int_def intro: emit_uint_ext sink_ext_trans [OF sink_put_ext emit_uint_ext]
      sink_ext_ok [OF sink_put_ext])

lemma convert_ext: "sink_ok s \<Longrightarrow> convert s c as w p l = Some (t, as') \<Longrightarrow> sink_ext s t"
proof -
  assume ok: "sink_ok s" and c: "convert s c as w p l = Some (t, as')"
  have two: "sink_ext s (sink_put (sink_put s x) y)" for x y
    by (rule sink_ext_trans [OF sink_put_ext [OF ok] sink_put_ext])
      (rule sink_ext_ok [OF sink_put_ext [OF ok]])
  have three: "sink_ext s (emit_uint (sink_put (sink_put s x) y) v 16 False 8 True False)" for x y v
    by (rule sink_ext_trans [OF two emit_uint_ext]) (rule sink_ext_ok [OF two])
  show ?thesis
    using c by (auto simp: convert_def emit_int_ext emit_uint_ext emit_str_ext sink_put_ext ok two three
        split: if_splits)
qed

lemma vformat_loop_ext: "sink_ok s \<Longrightarrow> vformat_loop s f as = Some t \<Longrightarrow> sink_ext s t"
proof (induction s f as arbitrary: t rule: vformat_loop.induct)
  case (1 s as)
  then show ?case by (simp add: sink_ext_refl)
next
  case (2 s c f as)
  obtain left pz w f3 where d: "directive f = (left, pz, w, f3)" by (cases "directive f") auto
  consider "c = 0" | "c \<noteq> 0" "c \<noteq> 37" | "c = 37" by blast
  then show ?case
  proof cases
    case 1
    with 2 show ?thesis by (simp add: sink_ext_refl)
  next
    case case_plain: 2
    have e: "sink_ext s (sink_put s c)" using "2.prems"(1) by (rule sink_put_ext)
    have "sink_ext (sink_put s c) t"
      using case_plain "2.prems" e by (intro "2.IH"(1)) (auto intro: sink_ext_ok)
    with e show ?thesis by (rule sink_ext_trans)
  next
    case 3
    with "2.prems" d obtain s' as' where cv: "convert s (byte_at f3 0) as w pz left = Some (s', as')"
      and r: "vformat_loop s' (if byte_at f3 0 = 0 then f3 else tl f3) as' = Some t"
      by (auto split: option.splits prod.splits)
    have e: "sink_ext s s'" using "2.prems"(1) cv by (rule convert_ext)
    have "sink_ext s' t"
      using 3 by (intro "2.IH"(2) [OF _ _ d [symmetric] refl refl cv refl sink_ext_ok [OF e] r]) auto
    with e show ?thesis by (rule sink_ext_trans)
  qed
qed

text \<open>What fits is appended unchanged.\<close>

lemma sink_puts_fits:
  "sink_ok s \<Longrightarrow> spos s + length cs < scap s \<Longrightarrow>
   sink_text (sink_puts s cs) = sink_text s @ cs \<and> spos (sink_puts s cs) = spos s + length cs"
proof (induction cs arbitrary: s)
  case Nil
  then show ?case by simp
next
  case (Cons c cs)
  let ?s = "sink_put s c"
  have s: "?s = s\<lparr>sbuf := (sbuf s)[spos s := c], spos := spos s + 1\<rparr>"
    using Cons.prems by (auto simp: sink_put_def sink_ok_def)
  have ok: "sink_ok ?s" using sink_put_ext [OF Cons.prems(1)] by (rule sink_ext_ok)
  have "spos s < length (sbuf s)" using Cons.prems by (auto simp: sink_ok_def)
  then have "sink_text ?s = sink_text s @ [c]"
    by (simp add: s sink_text_def take_Suc_conv_app_nth)
  then show ?case
    using Cons.IH [OF ok] Cons.prems by (simp add: s)
qed

subsection \<open>Decimal digits denote the number\<close>

definition dec_val :: "bytes \<Rightarrow> nat" where
  "dec_val ds = foldl (\<lambda>n c. n * 10 + (unat c - 48)) 0 ds"

definition is_dec :: "u8 \<Rightarrow> bool" where
  "is_dec c \<longleftrightarrow> 48 \<le> c \<and> c \<le> 57"

lemma digit_dec: "d < 10 \<Longrightarrow> is_dec (digit u d) \<and> unat (digit u d) = 48 + d"
proof -
  assume "d < 10"
  then have "d \<in> {0, 1, 2, 3, 4, 5, 6, 7, 8, 9}" by auto
  then show ?thesis by (auto simp: digit_def is_dec_def)
qed

lemma digits_rev_dec:
  "(\<forall>c \<in> set (digits_rev 10 u v). is_dec c) \<and> dec_val (rev (digits_rev 10 u v)) = v"
proof (induction v rule: less_induct)
  case (less v)
  show ?case
  proof (cases "v = 0")
    case True
    then show ?thesis by (simp add: digits_rev.simps dec_val_def)
  next
    case False
    then have IH: "(\<forall>c \<in> set (digits_rev 10 u (v div 10)). is_dec c)
        \<and> dec_val (rev (digits_rev 10 u (v div 10))) = v div 10"
      by (intro less.IH) simp
    from False show ?thesis
      using IH digit_dec [of "v mod 10" u]
      by (simp add: digits_rev.simps [of 10 u v] dec_val_def)
  qed
qed

lemma uint_digits_dec: "\<forall>c \<in> set (uint_digits 10 u v). is_dec c"
  using digits_rev_dec [of u "unat v"] by (auto simp: uint_digits_def is_dec_def)

lemma uint_digits_val: "dec_val (uint_digits 10 u v) = unat v"
  using digits_rev_dec [of u "unat v"]
  by (auto simp: uint_digits_def dec_val_def unat_eq_0)

lemma length_digits_rev: "v < 10 ^ k \<Longrightarrow> length (digits_rev 10 u v) \<le> k"
proof (induction k arbitrary: v)
  case 0
  then show ?case by (simp add: digits_rev.simps)
next
  case (Suc k)
  then have "v div 10 < 10 ^ k" by (simp add: less_mult_imp_div_less mult.commute)
  then show ?case using Suc.IH by (subst digits_rev.simps) simp
qed

lemma is_dec_nonzero: "is_dec c \<Longrightarrow> c \<noteq> 0"
  by (auto simp: is_dec_def)

lemma chars_dec: "\<forall>c \<in> set ds. is_dec c \<Longrightarrow> chars ds = ds"
  by (rule chars_id) (auto dest: is_dec_nonzero)

lemma vformat_buffer:
  assumes ok: "sink_ok s" and n: "0 < scap s" and v: "vformat s fmt as = Some (t, r)"
  shows "length (sbuf t) = length (sbuf s)" and "drop (scap s) (sbuf t) = drop (scap s) (sbuf s)"
    and "0 \<le> r" and "spos s + nat r < scap s" and "sbuf t ! (spos s + nat r) = 0"
proof -
  from v obtain u where u: "vformat_loop s fmt as = Some u" by (auto simp: vformat_def split: option.splits)
  have e: "sink_ext s u" using vformat_loop_ext [OF ok u] .
  then have u_ok: "scap u = scap s" "length (sbuf u) = length (sbuf s)" "spos s \<le> spos u"
      "drop (scap s) (sbuf u) = drop (scap s) (sbuf s)" "spos u < scap s" "\<not> to_console u" "scap s \<le> length (sbuf s)"
    using n ok by (auto simp: sink_ext_def sink_ok_def)
  then have t: "t = u\<lparr>sbuf := (sbuf u)[spos u := 0]\<rparr>" "r = int (spos u) - int (spos s)"
    using v u n by (auto simp: vformat_def)
  show "length (sbuf t) = length (sbuf s)" "drop (scap s) (sbuf t) = drop (scap s) (sbuf s)"
      "0 \<le> r" "spos s + nat r < scap s" "sbuf t ! (spos s + nat r) = 0"
    using u_ok by (simp_all add: t nat_diff_distrib drop_update_cancel)
qed

text \<open>C33: ksnprintf never writes past the size it is given, whatever the format and the arguments: the
  bytes from n on are unchanged, the result is a count below n, and the text is terminated at it.\<close>

theorem ksnprintf_bounded:
  assumes "0 < n" and "n \<le> length buf" and k: "ksnprintf buf n fmt as = Some (buf', r)"
  shows "length buf' = length buf \<and> drop n buf' = drop n buf \<and> 0 \<le> r \<and> nat r < n \<and> buf' ! nat r = 0"
proof -
  let ?s = "\<lparr>sbuf = buf, scap = n, spos = 0, to_console = False, console = []\<rparr>"
  from k obtain t where t: "vformat ?s fmt as = Some (t, r)" "buf' = sbuf t" by (auto simp: ksnprintf_def)
  have "sink_ok ?s" using assms(1,2) by (simp add: sink_ok_def)
  from vformat_buffer [OF this _ t(1)] assms(1) show ?thesis by (simp add: t(2))
qed

lemma ksnprintf_bounded_witness:
  "\<exists>buf' r. ksnprintf (replicate 8 7) 4 (lit ''n=%d'') [ArgWord 123456] = Some (buf', r)
     \<and> drop 4 buf' = replicate 4 7 \<and> r < 4 \<and> buf' ! nat r = 0"
proof -
  have "ksnprintf (replicate 8 7) 4 (lit ''n=%d'') [ArgWord 123456] \<noteq> None"
    by (simp add: ksnprintf_def vformat_def lit_def directive_def take_flag_def convert_def word_arg_def Let_def)
  then obtain buf' r where k: "ksnprintf (replicate 8 7) 4 (lit ''n=%d'') [ArgWord 123456] = Some (buf', r)" by auto
  from ksnprintf_bounded [OF _ _ k] have "drop 4 buf' = replicate 4 7" "0 \<le> r" "nat r < 4" "buf' ! nat r = 0"
    by auto
  moreover from this(2,3) have "r < 4" by simp
  ultimately show ?thesis using k by blast
qed

lemma length_uint_digits: "length (uint_digits 10 u v) \<le> 10"
  using length_digits_rev [of "unat v" 10 u] unat_u32 [of v] by (simp add: uint_digits_def)

text \<open>The sink t is s with more text in it.\<close>

definition sink_wrote :: "sink \<Rightarrow> bytes \<Rightarrow> sink \<Rightarrow> bool" where
  "sink_wrote s cs t \<longleftrightarrow> sink_ok t \<and> scap t = scap s \<and> sink_text t = sink_text s @ cs \<and> spos t = spos s + length cs"

lemma sink_puts_wrote:
  "sink_ok s \<Longrightarrow> spos s + length cs < scap s \<Longrightarrow> sink_wrote s cs (sink_puts s cs)"
  using sink_puts_fits [of s cs] sink_puts_ext [of s cs] by (auto simp: sink_wrote_def sink_ext_def)

lemma sink_put_wrote: "sink_ok s \<Longrightarrow> spos s + 1 < scap s \<Longrightarrow> sink_wrote s [c] (sink_put s c)"
  using sink_puts_wrote [of s "[c]"] by simp

lemma sink_wrote_trans: "sink_wrote s cs t \<Longrightarrow> sink_wrote t ds u \<Longrightarrow> sink_wrote s (cs @ ds) u"
  by (simp add: sink_wrote_def)

text \<open>A plain conversion appends the digits.\<close>

lemma emit_uint_wrote:
  assumes "sink_ok s" and "spos s + length (uint_digits 10 u v) < scap s"
  shows "sink_wrote s (uint_digits 10 u v) (emit_uint s v 10 u 0 False False)"
proof -
  have "emit_uint s v 10 u 0 False False = sink_puts s (uint_digits 10 u v)"
    by (simp add: emit_uint_def emit_str_def chars_dec [OF uint_digits_dec])
  then show ?thesis using sink_puts_wrote [OF assms] by simp
qed

lemma emit_uint_plain:
  assumes "sink_ok s" and "spos s + 10 < scap s"
  shows "sink_text (emit_uint s v 10 u 0 False False) = sink_text s @ uint_digits 10 u v"
    and "spos (emit_uint s v 10 u 0 False False) = spos s + length (uint_digits 10 u v)"
  using emit_uint_wrote [OF assms(1), of u v] assms(2) length_uint_digits [of u v] by (simp_all add: sink_wrote_def)

text \<open>The result of a buffer print, from the sink its loop leaves.\<close>

lemma ksnprintf_loop:
  assumes n: "0 < n" "n \<le> length buf"
    and l: "vformat_loop \<lparr>sbuf = buf, scap = n, spos = 0, to_console = False, console = []\<rparr> fmt as = Some t"
    and nz: "0 \<notin> set (sink_text t)"
  shows "\<exists>buf'. ksnprintf buf n fmt as = Some (buf', int (spos t)) \<and> chars buf' = sink_text t"
proof -
  let ?s = "\<lparr>sbuf = buf, scap = n, spos = 0, to_console = False, console = []\<rparr>"
  have "sink_ext ?s t" using l n by (intro vformat_loop_ext) (auto simp: sink_ok_def)
  then have t: "scap t = n" "length (sbuf t) = length buf" "spos t < n" "\<not> to_console t"
    using n by (auto simp: sink_ext_def sink_ok_def)
  have "(sbuf t)[spos t := 0] = sink_text t @ 0 # drop (Suc (spos t)) (sbuf t)"
    using t n by (simp add: sink_text_def upd_conv_take_nth_drop)
  then have "chars ((sbuf t)[spos t := 0]) = sink_text t" using nz by (simp add: chars_append_zero)
  with t l n show ?thesis by (simp add: ksnprintf_def vformat_def Let_def)
qed

text \<open>The conversions of a 32-bit number print it exactly: an unsigned argument as its decimal
  digits, a signed one as the digits of its magnitude, after a minus sign when it is negative (also
  for the most negative number), when the buffer has the twelve bytes that the longest needs.\<close>

theorem ksnprintf_decimal:
  assumes "12 \<le> n" and "n \<le> length buf"
  shows "(\<exists>buf' ds. ksnprintf buf n (lit ''%u'') [ArgWord v] = Some (buf', int (length ds))
      \<and> chars buf' = ds \<and> (\<forall>c \<in> set ds. is_dec c) \<and> dec_val ds = unat v)
    \<and> (\<exists>buf' ds. ksnprintf buf n (lit ''%d'') [ArgWord v] = Some (buf', int (length (chars buf')))
      \<and> chars buf' = (if sint v < 0 then 45 # ds else ds) \<and> (\<forall>c \<in> set ds. is_dec c)
      \<and> int (dec_val ds) = \<bar>sint v\<bar>)"
proof -
  let ?s = "\<lparr>sbuf = buf, scap = n, spos = 0, to_console = False, console = []\<rparr>"
  have ok: "sink_ok ?s" using assms by (simp add: sink_ok_def)
  have nz: "0 \<notin> set (uint_digits 10 False w)" for w using uint_digits_dec is_dec_nonzero by blast
  have u: "vformat_loop ?s (lit ''%u'') [ArgWord v] = Some (emit_uint ?s v 10 False 0 False False)"
    and d: "vformat_loop ?s (lit ''%d'') [ArgWord v] = Some (emit_int ?s v 0 False False)"
    by (simp_all add: lit_def directive_def take_flag_def convert_def word_arg_def)
  have tu: "sink_text (emit_uint ?s v 10 False 0 False False) = uint_digits 10 False v"
      "spos (emit_uint ?s v 10 False 0 False False) = length (uint_digits 10 False v)" for v
    using emit_uint_plain [OF ok] assms by (simp_all add: sink_text_def)
  have "\<exists>buf'. ksnprintf buf n (lit ''%u'') [ArgWord v] = Some (buf', int (length (uint_digits 10 False v)))
      \<and> chars buf' = uint_digits 10 False v"
    using ksnprintf_loop [OF _ assms(2) u] assms nz tu by auto
  moreover have "\<exists>buf'. ksnprintf buf n (lit ''%d'') [ArgWord v] = Some (buf', int (length (chars buf')))
      \<and> chars buf' = (if sint v < 0 then 45 # uint_digits 10 False (- v) else uint_digits 10 False v)"
  proof (cases "sint v < 0")
    case True
    let ?m = "sink_put ?s 45"
    have m: "sink_ok ?m" using sink_ext_ok [OF sink_put_ext [OF ok]] .
    have mp: "spos ?m = 1" "scap ?m = n" "sink_text ?m = [45]"
      using assms by (cases buf; simp add: sink_put_def sink_text_def)+
    have e: "emit_int ?s v 0 False False = emit_uint ?m (- v) 10 False 0 False False"
      using True by (simp add: emit_int_def)
    show ?thesis
      using ksnprintf_loop [OF _ assms(2) d] emit_uint_plain [OF m, of "- v" False] assms nz True
      by (auto simp: e mp)
  next
    case False
    then have e: "emit_int ?s v 0 False False = emit_uint ?s v 10 False 0 False False"
      by (simp add: emit_int_def)
    show ?thesis using ksnprintf_loop [OF _ assms(2) d] assms nz tu False by (auto simp: e)
  qed
  moreover have "int (unat (- v)) = \<bar>sint v\<bar>" if "sint v < 0"
    using that abs_sint_u32 [of v] by simp
  moreover have "int (unat v) = \<bar>sint v\<bar>" if "\<not> sint v < 0"
    using that abs_sint_u32 [of v] by simp
  ultimately show ?thesis using uint_digits_dec uint_digits_val by (metis (full_types))
qed

lemma ksnprintf_decimal_witness:
  "\<exists>buf' ds. ksnprintf (replicate 16 0) 16 (lit ''%d'') [ArgWord 0x80000000] = Some (buf', int (length (chars buf')))
     \<and> chars buf' = 45 # ds \<and> dec_val ds = 2147483648"
  using ksnprintf_decimal [of 16 "replicate 16 0" "0x80000000", THEN conjunct2] by (auto simp: sint_u32)

end
