(* ===== verification/EnvStore.thy ===== *)
theory EnvStore
  imports SlotStore Printf
begin

text \<open>
  The environment variables of kernel/env.c: three parallel static arrays of names, values and
  in-use flags. Names are compared without case and kept to 31 characters, values to 255.
\<close>

definition ENV_MAX :: nat where "ENV_MAX = 32"
definition ENV_NAME_MAX :: nat where "ENV_NAME_MAX = 32"
definition ENV_VAL_MAX :: nat where "ENV_VAL_MAX = 256"

lemmas env_consts = ENV_MAX_def ENV_NAME_MAX_def ENV_VAL_MAX_def

record env =
  env_names :: "bytes list"
  env_vals :: "bytes list"
  env_used :: "bool list"

definition env_match :: "env \<Rightarrow> bytes \<Rightarrow> nat \<Rightarrow> bool" where
  "env_match e name i \<longleftrightarrow> env_used e ! i \<and> strcasecmp (env_names e ! i) name = 0"

definition env_set :: "env \<Rightarrow> bytes \<Rightarrow> bytes \<Rightarrow> env \<times> int" where
  "env_set e name val =
     (case first_idx (env_match e name) ENV_MAX of
        Some i \<Rightarrow> (e\<lparr>env_vals := (env_vals e)[i := store_name (env_vals e ! i) val ENV_VAL_MAX]\<rparr>, 0)
      | None \<Rightarrow>
          (case first_idx (\<lambda>i. \<not> env_used e ! i) ENV_MAX of
             Some i \<Rightarrow>
               (e\<lparr>env_names := (env_names e)[i := store_name (env_names e ! i) name ENV_NAME_MAX],
                  env_vals := (env_vals e)[i := store_name (env_vals e ! i) val ENV_VAL_MAX],
                  env_used := (env_used e)[i := True]\<rparr>, 0)
           | None \<Rightarrow> (e, -1)))"

definition env_get :: "env \<Rightarrow> bytes \<Rightarrow> bytes option" where
  "env_get e name = map_option (\<lambda>i. env_vals e ! i) (first_idx (env_match e name) ENV_MAX)"

definition env_del :: "env \<Rightarrow> bytes \<Rightarrow> env" where
  "env_del e name =
     (case first_idx (env_match e name) ENV_MAX of
        Some i \<Rightarrow> e\<lparr>env_used := (env_used e)[i := False]\<rparr>
      | None \<Rightarrow> e)"

definition env_init :: "env \<Rightarrow> env" where
  "env_init e =
     (let e0 = e\<lparr>env_used := replicate ENV_MAX False\<rparr>;
          e1 = fst (env_set e0 (lit ''PATH'') (lit (''C:'' @ [CHR 92] @ ''SYSTEM;C:'' @ [CHR 92] @ ''BIN'')));
          e2 = fst (env_set e1 (lit ''OS'') (lit ''Zenbite''))
      in fst (env_set e2 (lit ''VERSION'') (lit ''0.2'')))"

fun env_list_from :: "env \<Rightarrow> nat list \<Rightarrow> bytes \<Rightarrow> bytes option" where
  "env_list_from e [] out = Some out"
| "env_list_from e (i # is) out =
     (if env_used e ! i then
        (case kprintf out (lit (''%s=%s'' @ [CHR 10])) [ArgStr (Some (env_names e ! i)), ArgStr (Some (env_vals e ! i))] of
           None \<Rightarrow> None
         | Some (out', _) \<Rightarrow> env_list_from e is out')
      else env_list_from e is out)"

definition env_list :: "env \<Rightarrow> bytes \<Rightarrow> bytes option" where
  "env_list e out = env_list_from e [0..<ENV_MAX] out"

subsection \<open>The table as a store of values under folded names\<close>

definition env_ok :: "env \<Rightarrow> bool" where
  "env_ok e \<longleftrightarrow>
     length (env_names e) = ENV_MAX \<and> length (env_vals e) = ENV_MAX \<and> length (env_used e) = ENV_MAX
     \<and> (\<forall>i<ENV_MAX. length (env_names e ! i) = ENV_NAME_MAX \<and> length (env_vals e ! i) = ENV_VAL_MAX)
     \<and> (\<forall>i<ENV_MAX. \<forall>j<ENV_MAX. env_used e ! i \<longrightarrow> env_used e ! j \<longrightarrow>
          fold_case (env_names e ! i) = fold_case (env_names e ! j) \<longrightarrow> i = j)"

definition env_val :: "env \<Rightarrow> bytes \<Rightarrow> bytes option" where
  "env_val e name = map_option chars (env_get e name)"

definition env_put :: "env \<Rightarrow> bytes \<Rightarrow> bytes \<Rightarrow> env option" where
  "env_put e name val = (case env_set e name val of (e', r) \<Rightarrow> if r = 0 then Some e' else None)"

definition env_fits :: "bytes \<Rightarrow> bool" where
  "env_fits name \<longleftrightarrow> length (chars name) < ENV_NAME_MAX"

definition env_trunc :: "bytes \<Rightarrow> bytes" where
  "env_trunc val = take (ENV_VAL_MAX - 1) (chars val)"

lemma env_match_fold: "env_match e name i \<longleftrightarrow> env_used e ! i \<and> fold_case (env_names e ! i) = fold_case name"
  by (simp add: env_match_def strcasecmp_eq_0)

lemma fold_case_chars: "chars a = chars b \<Longrightarrow> fold_case a = fold_case b"
  by (simp add: fold_case_def)

lemma env_ok_lengths:
  assumes "env_ok e" and "i < ENV_MAX"
  shows "length (env_names e ! i) = ENV_NAME_MAX" and "length (env_vals e ! i) = ENV_VAL_MAX"
  using assms by (auto simp: env_ok_def)

text \<open>In a well-formed table a slot in use is the only one that matches its name.\<close>

lemma env_first_match:
  assumes "env_ok e" and "i < ENV_MAX" and "env_match e name i"
  shows "first_idx (env_match e name) ENV_MAX = Some i"
  using assms by (intro first_idx_unique) (auto simp: env_match_fold env_ok_def)

lemma env_get_slot:
  assumes "env_ok e" and "i < ENV_MAX" and "env_match e name i"
  shows "env_get e name = Some (env_vals e ! i)"
  by (simp add: env_get_def env_first_match [OF assms])

lemma env_get_None: "env_get e name = None \<longleftrightarrow> (\<forall>i<ENV_MAX. \<not> env_match e name i)"
  by (simp add: env_get_def first_idx_None)

text \<open>The two ways env_set succeeds.\<close>

lemma env_put_cases:
  assumes "env_put e name val = Some e'"
  obtains (update) i where "i < ENV_MAX" "env_match e name i"
      "e' = e\<lparr>env_vals := (env_vals e)[i := store_name (env_vals e ! i) val ENV_VAL_MAX]\<rparr>"
  | (insert) i where "i < ENV_MAX" "\<not> env_used e ! i" "\<forall>j<ENV_MAX. \<not> env_match e name j"
      "e' = e\<lparr>env_names := (env_names e)[i := store_name (env_names e ! i) name ENV_NAME_MAX],
              env_vals := (env_vals e)[i := store_name (env_vals e ! i) val ENV_VAL_MAX],
              env_used := (env_used e)[i := True]\<rparr>"
proof (cases "first_idx (env_match e name) ENV_MAX")
  case (Some i)
  with assms show ?thesis
    by (intro update [of i]) (auto simp: env_put_def env_set_def first_idx_Some)
next
  case None
  show ?thesis
  proof (cases "first_idx (\<lambda>i. \<not> env_used e ! i) ENV_MAX")
    case None2: None
    with assms None show ?thesis by (simp add: env_put_def env_set_def)
  next
    case (Some i)
    with assms None show ?thesis
      by (intro insert [of i]) (auto simp: env_put_def env_set_def first_idx_Some first_idx_None)
  qed
qed

lemma stored_name_fold:
  assumes "length m = ENV_NAME_MAX" and "env_fits name"
  shows "fold_case (store_name m name ENV_NAME_MAX) = fold_case name"
proof (rule fold_case_chars)
  have "chars (store_name m name ENV_NAME_MAX) = take (ENV_NAME_MAX - 1) (chars name)"
    using assms by (intro chars_store_name) (simp_all add: ENV_NAME_MAX_def)
  also have "\<dots> = chars name"
    using assms(2) by (simp add: env_fits_def ENV_NAME_MAX_def)
  finally show "chars (store_name m name ENV_NAME_MAX) = chars name" .
qed

lemma stored_val: "length m = ENV_VAL_MAX \<Longrightarrow> chars (store_name m val ENV_VAL_MAX) = env_trunc val"
  unfolding env_trunc_def by (rule chars_store_name) (simp_all add: ENV_VAL_MAX_def)

lemma env_put_ok:
  assumes ok: "env_ok e" and fits: "env_fits name" and put: "env_put e name val = Some e'"
  shows "env_ok e'"
  using put
proof (cases rule: env_put_cases)
  case (update i)
  with ok show ?thesis by (auto simp: env_ok_def nth_list_update)
next
  case (insert i)
  let ?n = "store_name (env_names e ! i) name ENV_NAME_MAX"
  have n: "fold_case ?n = fold_case name"
    using env_ok_lengths(1) [OF ok insert(1)] fits by (rule stored_name_fold)
  have new: "fold_case (env_names e ! j) \<noteq> fold_case name" if "j < ENV_MAX" "env_used e ! j" for j
    using insert(3) that by (auto simp: env_match_fold)
  have uniq: "j = k" if "j < ENV_MAX" "k < ENV_MAX" "env_used e' ! j" "env_used e' ! k"
      "fold_case (env_names e' ! j) = fold_case (env_names e' ! k)" for j k
    using that ok new [of j] new [of k] n insert(1)
    by (cases "j = i"; cases "k = i") (auto simp: insert(4) env_ok_def)
  have len: "length (env_names e' ! j) = ENV_NAME_MAX \<and> length (env_vals e' ! j) = ENV_VAL_MAX"
    if "j < ENV_MAX" for j
    using ok that insert(1) by (auto simp: insert(4) env_ok_def nth_list_update)
  show ?thesis
    unfolding env_ok_def using ok uniq len by (auto simp: insert(4) env_ok_def)
qed

lemma env_val_put_same:
  assumes ok: "env_ok e" and fits: "env_fits name" and put: "env_put e name val = Some e'"
    and eq: "fold_case other = fold_case name"
  shows "env_val e' other = Some (env_trunc val)"
proof -
  have ok': "env_ok e'" using ok fits put by (rule env_put_ok)
  from put show ?thesis
  proof (cases rule: env_put_cases)
    case (update i)
    have "env_match e' other i" using update eq ok by (auto simp: env_match_fold env_ok_def)
    from env_get_slot [OF ok' update(1) this] update(1) show ?thesis
      using ok stored_val [OF env_ok_lengths(2) [OF ok update(1)]]
      by (simp add: env_val_def update(3) env_ok_def)
  next
    case (insert i)
    have "fold_case (store_name (env_names e ! i) name ENV_NAME_MAX) = fold_case name"
      using env_ok_lengths(1) [OF ok insert(1)] fits by (rule stored_name_fold)
    then have "env_match e' other i" using insert eq ok by (auto simp: env_match_fold env_ok_def)
    from env_get_slot [OF ok' insert(1) this] insert(1) show ?thesis
      using ok stored_val [OF env_ok_lengths(2) [OF ok insert(1)]]
      by (simp add: env_val_def insert(4) env_ok_def)
  qed
qed

lemma env_val_put_other:
  assumes ok: "env_ok e" and fits: "env_fits name" and put: "env_put e name val = Some e'"
    and ne: "fold_case other \<noteq> fold_case name"
  shows "env_val e' other = env_val e other"
  using put
proof (cases rule: env_put_cases)
  case (update i)
  have "first_idx (env_match e' other) ENV_MAX = first_idx (env_match e other) ENV_MAX"
    by (rule first_idx_cong) (simp add: update(3) env_match_fold)
  moreover have "env_vals e' ! j = env_vals e ! j" if "first_idx (env_match e other) ENV_MAX = Some j" for j
    using that update(2) ne by (cases "i = j") (auto simp: update(3) first_idx_Some env_match_fold)
  ultimately show ?thesis
    by (cases "first_idx (env_match e other) ENV_MAX") (auto simp: env_val_def env_get_def)
next
  case (insert i)
  have "fold_case (store_name (env_names e ! i) name ENV_NAME_MAX) = fold_case name"
    using env_ok_lengths(1) [OF ok insert(1)] fits by (rule stored_name_fold)
  then have m: "env_match e' other j = env_match e other j" if "j < ENV_MAX" for j
    using that ok ne insert(1,2) by (cases "j = i") (auto simp: insert(4) env_match_fold env_ok_def)
  then have "first_idx (env_match e' other) ENV_MAX = first_idx (env_match e other) ENV_MAX"
    by (rule first_idx_cong)
  moreover have "env_vals e' ! j = env_vals e ! j" if "first_idx (env_match e other) ENV_MAX = Some j" for j
    using that insert(2) by (cases "i = j") (auto simp: insert(4) first_idx_Some env_match_fold)
  ultimately show ?thesis
    by (cases "first_idx (env_match e other) ENV_MAX") (auto simp: env_val_def env_get_def)
qed

lemma env_del_match:
  assumes ok: "env_ok e" and "i < ENV_MAX"
  shows "env_match (env_del e name) other i \<longleftrightarrow> env_match e other i \<and> \<not> env_match e name i"
proof (cases "first_idx (env_match e name) ENV_MAX")
  case None
  moreover have "env_del e name = e" using None by (simp add: env_del_def)
  ultimately show ?thesis using assms(2) by (auto simp: first_idx_None)
next
  case (Some k)
  then have k: "k < ENV_MAX" "env_match e name k" by (auto simp: first_idx_Some)
  have "env_match e name i \<longleftrightarrow> i = k"
    using k ok assms(2) by (auto simp: env_match_fold env_ok_def)
  then show ?thesis using Some k ok by (auto simp: env_del_def env_match_fold env_ok_def nth_list_update)
qed

lemma env_del_ok: "env_ok e \<Longrightarrow> env_ok (env_del e name)"
proof -
  assume ok: "env_ok e"
  have "env_used (env_del e name) ! i \<Longrightarrow> env_used e ! i" for i
    by (auto simp: env_del_def split: option.splits dest: nth_update_False)
  moreover have "env_names (env_del e name) = env_names e" "env_vals (env_del e name) = env_vals e"
      "length (env_used (env_del e name)) = length (env_used e)"
    by (auto simp: env_del_def split: option.splits)
  ultimately show ?thesis using ok by (auto simp: env_ok_def)
qed

lemma env_del_vals [fields]: "env_vals (env_del e name) = env_vals e"
  by (simp add: env_del_def split: option.splits)

lemma env_val_del:
  assumes ok: "env_ok e"
  shows "env_val (env_del e name) other = (if fold_case other = fold_case name then None else env_val e other)"
proof (cases "fold_case other = fold_case name")
  case True
  then have "env_match e other i \<longleftrightarrow> env_match e name i" for i by (simp add: env_match_fold)
  then have "env_get (env_del e name) other = None"
    by (simp add: env_get_None env_del_match [OF ok])
  with True show ?thesis by (simp add: env_val_def)
next
  case False
  have "first_idx (env_match (env_del e name) other) ENV_MAX = first_idx (env_match e other) ENV_MAX"
    by (rule first_idx_cong, unfold env_del_match [OF ok]) (use False in \<open>auto simp: env_match_fold\<close>)
  with False show ?thesis by (simp add: env_val_def env_get_def fields)
qed

interpretation env_store: slot_store_del env_val env_put env_ok fold_case env_fits env_trunc env_del
  by unfold_locales
    (blast intro: env_put_ok env_val_put_same env_val_put_other env_del_ok | simp add: env_val_del)+

text \<open>A name that does not fit is stored cut short, and the full name then finds nothing.\<close>

lemma env_long_name_lost:
  assumes ok: "env_ok e" and long: "\<not> env_fits name" and put: "env_put e name val = Some e'"
    and fresh: "\<forall>i<ENV_MAX. \<not> env_match e name i"
  shows "env_get e' name = None"
  using put
proof (cases rule: env_put_cases)
  case (update i)
  with fresh show ?thesis by blast
next
  case (insert i)
  have "length (fold_case (store_name (env_names e ! i) name ENV_NAME_MAX)) \<le> ENV_NAME_MAX - 1"
    using chars_store_name [OF env_ok_lengths(1) [OF ok insert(1)], of name]
    by (simp add: fold_case_def ENV_NAME_MAX_def)
  moreover have "length (fold_case name) > ENV_NAME_MAX - 1"
    using long by (simp add: fold_case_def env_fits_def ENV_NAME_MAX_def)
  ultimately have "fold_case (store_name (env_names e ! i) name ENV_NAME_MAX) \<noteq> fold_case name"
    by auto
  then have "\<not> env_match e' name j" if "j < ENV_MAX" for j
    using fresh that ok insert(1) by (cases "j = i") (auto simp: insert(4) env_match_fold env_ok_def)
  then show ?thesis by (simp add: env_get_None)
qed

text \<open>C35: The environment is a map from names of fewer than 32 characters, compared without regard to case,
  to values: after any sequence of env_set with such names that succeed, env_get finds for each name the value
  set last under it (cut to 255 bytes) or what was there before. A longer name is stored cut and not found again.\<close>

theorem env_is_map:
  assumes "env_ok e" and "\<forall>(k, v) \<in> set kvs. env_fits k" and "put_all env_put e kvs = Some e'"
  shows "env_ok e' \<and> env_val e' name =
    (case latest fold_case env_trunc kvs name of Some w \<Rightarrow> Some w | None \<Rightarrow> env_val e name)"
  using env_store.get_put_all [OF assms] env_store.put_all_inv [OF assms] by blast

definition env_zero :: env where
  "env_zero = \<lparr>env_names = replicate 32 (replicate 32 0), env_vals = replicate 32 (replicate 256 0),
     env_used = replicate 32 False\<rparr>"

lemma env_zero_ok: "env_ok env_zero"
  by (simp add: env_ok_def env_zero_def env_consts)

lemma env_zero_free: "first_idx (env_match env_zero name) ENV_MAX = None"
    "first_idx (\<lambda>i. \<not> env_used env_zero ! i) ENV_MAX = Some 0"
  by (simp_all add: first_idx_None first_idx_Some env_match_def env_zero_def env_consts)

lemma env_is_map_witness:
  "\<exists>e'. put_all env_put env_zero [(lit ''Path'', lit ''C'')] = Some e' \<and> env_val e' (lit ''PATH'') = Some (lit ''C'')"
proof -
  obtain e' where e': "put_all env_put env_zero [(lit ''Path'', lit ''C'')] = Some e'"
    by (simp add: env_put_def env_set_def env_zero_free)
  have "env_fits (lit ''Path'')" by (simp add: env_fits_def lit_def env_consts)
  with env_is_map [OF env_zero_ok _ e', of "lit ''PATH''"]
  have "env_val e' (lit ''PATH'') = Some (env_trunc (lit ''C''))"
    by (simp add: fold_case_def lower8_def tolower_def lit_def)
  with e' show ?thesis by (simp add: env_trunc_def env_consts lit_def)
qed

text \<open>A new name of 32 or more characters is lost: env_set reports success and takes a slot, but
  env_get of the very same name finds nothing.\<close>

theorem env_set_long_name:
  assumes "env_ok e" and "\<not> env_fits name" and "\<forall>i<ENV_MAX. \<not> env_match e name i"
    and "env_set e name val = (e', 0)"
  shows "env_get e' name = None"
proof (rule env_long_name_lost [OF assms(1,2) _ assms(3)])
  show "env_put e name val = Some e'" using assms(4) by (simp add: env_put_def)
qed

lemma env_set_long_name_witness:
  "\<exists>e'. env_set env_zero (replicate 40 65) (lit ''x'') = (e', 0) \<and> env_get e' (replicate 40 65) = None"
proof -
  obtain e' where e': "env_set env_zero (replicate 40 65) (lit ''x'') = (e', 0)"
    by (simp add: env_set_def env_zero_free)
  have "\<not> env_fits (replicate 40 65)" by (simp add: env_fits_def chars_id env_consts)
  moreover have "\<forall>i<ENV_MAX. \<not> env_match env_zero (replicate 40 65) i"
    using env_zero_free(1) by (simp add: first_idx_None)
  ultimately show ?thesis using env_set_long_name [OF env_zero_ok _ _ e'] e' by blast
qed

end
