(* ===== verification/Kmem.thy ===== *)
theory Kmem
  imports ZPrelude
begin

text \<open>
  The memory managers of kernel/mm: the frame bitmap (pmm.c), the bump heap (kheap.c) and the
  identity page directory (paging.c). Addresses are 32-bit words and the null pointer is 0, so
  a frame handed out at address 0 cannot be told from failure, as in the code. The end of the
  kernel image, a linker symbol, is an argument.
\<close>

subsection \<open>Physical frames (pmm.c)\<close>

definition FRAME_SIZE :: nat where "FRAME_SIZE = 4096"
definition FRAME_MAX :: nat where "FRAME_MAX = 4096"

lemmas frame_consts = FRAME_SIZE_def FRAME_MAX_def

record pmm =
  bitmap :: bytes
  frame_total :: u32
  frame_free :: u32

definition mark_used :: "bytes \<Rightarrow> nat \<Rightarrow> bytes" where
  "mark_used bm f = bm[f div 8 := bm ! (f div 8) OR push_bit (f mod 8) 1]"

definition mark_free :: "bytes \<Rightarrow> nat \<Rightarrow> bytes" where
  "mark_free bm f = bm[f div 8 := bm ! (f div 8) AND NOT (push_bit (f mod 8) 1)]"

definition is_used :: "bytes \<Rightarrow> nat \<Rightarrow> bool" where
  "is_used bm f \<longleftrightarrow> drop_bit (f mod 8) (bm ! (f div 8)) AND 1 \<noteq> 0"

record boot_info =
  bi_magic :: u32
  mem_upper_kib :: u32

definition BOOT_INFO_MAGIC :: u32 where "BOOT_INFO_MAGIC = 0x5A454E42"

text \<open>The top of memory that pmm_init trusts, in 32-bit arithmetic.\<close>

definition mem_top :: "boot_info option \<Rightarrow> u32" where
  "mem_top bi =
     (let upper_kib = (case bi of Some b \<Rightarrow> if bi_magic b = BOOT_INFO_MAGIC then mem_upper_kib b else 3 * 1024
                                | None \<Rightarrow> 3 * 1024);
          lim = 0x00100000 + upper_kib * 1024
      in if 0x01000000 < lim then 0x01000000 else lim)"

function pmm_free_region :: "pmm \<Rightarrow> nat \<Rightarrow> nat \<Rightarrow> pmm" where
  "pmm_free_region p a lim =
     (if a < lim \<and> a div FRAME_SIZE < FRAME_MAX then
        pmm_free_region (p\<lparr>bitmap := mark_free (bitmap p) (a div FRAME_SIZE),
          frame_total := frame_total p + 1, frame_free := frame_free p + 1\<rparr>) (a + 4096) lim
      else p)"
  by pat_completeness auto
termination
  by (relation "measure (\<lambda>(p, a, lim). lim - a)") auto

declare pmm_free_region.simps [simp del]

definition pmm_init :: "u32 \<Rightarrow> boot_info option \<Rightarrow> pmm" where
  "pmm_init kernel_end_sym bi =
     (let kernel_end = (kernel_end_sym + 4096 - 1) AND NOT (4096 - 1)
      in pmm_free_region \<lparr>bitmap = replicate 512 0xFF, frame_total = 0, frame_free = 0\<rparr>
           (unat kernel_end) (unat (mem_top bi)))"

definition pmm_alloc_frame :: "pmm \<Rightarrow> pmm \<times> u32" where
  "pmm_alloc_frame p =
     (case first_idx (\<lambda>f. \<not> is_used (bitmap p) f) FRAME_MAX of
        Some f \<Rightarrow> (p\<lparr>bitmap := mark_used (bitmap p) f,
                     frame_free := (if frame_free p \<noteq> 0 then frame_free p - 1 else frame_free p)\<rparr>,
                   of_nat (f * FRAME_SIZE))
      | None \<Rightarrow> (p, 0))"

definition pmm_free_frame :: "pmm \<Rightarrow> u32 \<Rightarrow> pmm" where
  "pmm_free_frame p addr =
     (let f = unat addr div FRAME_SIZE in
      if FRAME_MAX \<le> f then p
      else if \<not> is_used (bitmap p) f then p
      else p\<lparr>bitmap := mark_free (bitmap p) f, frame_free := frame_free p + 1\<rparr>)"

definition pmm_total_kib :: "pmm \<Rightarrow> u32" where "pmm_total_kib p = frame_total p * 4"
definition pmm_free_kib :: "pmm \<Rightarrow> u32" where "pmm_free_kib p = frame_free p * 4"
definition pmm_used_kib :: "pmm \<Rightarrow> u32" where "pmm_used_kib p = (frame_total p - frame_free p) * 4"

text \<open>The free frames, and the invariant: the counter counts them.\<close>

definition free_frames :: "bytes \<Rightarrow> nat set" where
  "free_frames bm = {f. f < FRAME_MAX \<and> \<not> is_used bm f}"

definition pmm_ok :: "pmm \<Rightarrow> bool" where
  "pmm_ok p \<longleftrightarrow> length (bitmap p) = 512 \<and> unat (frame_free p) = card (free_frames (bitmap p))"

lemma is_used_bit: "is_used bm f \<longleftrightarrow> bit (bm ! (f div 8)) (f mod 8)"
  by (simp add: is_used_def and_one_eq bit_iff_odd_drop_bit odd_iff_mod_2_eq_one)

lemma is_used_mark_used:
  "length bm = 512 \<Longrightarrow> f < FRAME_MAX \<Longrightarrow> g < FRAME_MAX \<Longrightarrow>
   is_used (mark_used bm f) g \<longleftrightarrow> g = f \<or> is_used bm g"
  by (cases "f div 8 = g div 8")
    (auto simp: is_used_bit mark_used_def frame_consts bit_simps less_mult_imp_div_less,
      metis div_mod_decomp)

lemma is_used_mark_free:
  "length bm = 512 \<Longrightarrow> f < FRAME_MAX \<Longrightarrow> g < FRAME_MAX \<Longrightarrow>
   is_used (mark_free bm f) g \<longleftrightarrow> g \<noteq> f \<and> is_used bm g"
  by (cases "f div 8 = g div 8")
    (auto simp: is_used_bit mark_free_def frame_consts bit_simps less_mult_imp_div_less,
      metis div_mod_decomp)

lemma length_mark [simp, lens]:
  "length (mark_used bm f) = length bm" "length (mark_free bm f) = length bm"
  by (simp_all add: mark_used_def mark_free_def)

lemma finite_free_frames [simp]: "finite (free_frames bm)"
  by (simp add: free_frames_def)

lemma card_free_frames: "card (free_frames bm) \<le> FRAME_MAX"
proof -
  have "free_frames bm \<subseteq> {..<FRAME_MAX}" by (auto simp: free_frames_def)
  then have "card (free_frames bm) \<le> card {..<FRAME_MAX}" by (intro card_mono) auto
  then show ?thesis by simp
qed

lemma free_frames_mark_used:
  "length bm = 512 \<Longrightarrow> f < FRAME_MAX \<Longrightarrow> free_frames (mark_used bm f) = free_frames bm - {f}"
  by (auto simp: free_frames_def is_used_mark_used)

lemma free_frames_mark_free:
  "length bm = 512 \<Longrightarrow> f < FRAME_MAX \<Longrightarrow> free_frames (mark_free bm f) = insert f (free_frames bm)"
  by (auto simp: free_frames_def is_used_mark_free)

lemma unat_inc: "unat (w :: u32) < 2 ^ 32 - 1 \<Longrightarrow> unat (w + 1) = unat w + 1"
  by (simp add: unat_word_ariths)

lemma pmm_free_frame_ok: "pmm_ok p \<Longrightarrow> pmm_ok (pmm_free_frame p a)"
proof -
  assume ok: "pmm_ok p"
  let ?f = "unat a div FRAME_SIZE"
  show ?thesis
  proof (cases "FRAME_MAX \<le> ?f \<or> \<not> is_used (bitmap p) ?f")
    case True
    then show ?thesis using ok by (auto simp: pmm_free_frame_def Let_def)
  next
    case False
    then have f: "?f < FRAME_MAX" and "?f \<notin> free_frames (bitmap p)"
      by (auto simp: free_frames_def)
    moreover have "unat (frame_free p) \<le> 4096"
      using ok card_free_frames [of "bitmap p"] by (simp add: pmm_ok_def FRAME_MAX_def)
    ultimately show ?thesis
      using ok False by (auto simp: pmm_free_frame_def Let_def pmm_ok_def free_frames_mark_free unat_inc)
  qed
qed

lemma pmm_alloc_cases:
  assumes "pmm_ok p"
  obtains (frame) f p' where "pmm_alloc_frame p = (p', of_nat (f * FRAME_SIZE))" "f < FRAME_MAX"
      "f \<in> free_frames (bitmap p)" "\<forall>g \<in> free_frames (bitmap p). f \<le> g"
      "bitmap p' = mark_used (bitmap p) f" "frame_total p' = frame_total p"
      "unat (frame_free p') = unat (frame_free p) - 1" "pmm_ok p'"
  | (full) "pmm_alloc_frame p = (p, 0)" "free_frames (bitmap p) = {}"
proof (cases "first_idx (\<lambda>f. \<not> is_used (bitmap p) f) FRAME_MAX")
  case None
  then have "free_frames (bitmap p) = {}" by (simp add: first_idx_None free_frames_def)
  with None show ?thesis by (intro full) (simp_all add: pmm_alloc_frame_def)
next
  case (Some f)
  let ?p = "fst (pmm_alloc_frame p)"
  from Some have f: "f < FRAME_MAX" "f \<in> free_frames (bitmap p)"
    and least: "\<forall>g \<in> free_frames (bitmap p). f \<le> g"
    by (auto simp: first_idx_Some free_frames_def not_less [symmetric])
  have "card (free_frames (bitmap p)) \<noteq> 0" using f by auto
  then have nz: "frame_free p \<noteq> 0" using assms by (auto simp: pmm_ok_def)
  have dec: "unat (frame_free p - 1) = unat (frame_free p) - 1"
    using nz by (simp add: unat_minus_one)
  show ?thesis
  proof (rule frame [of ?p f])
    show "pmm_ok ?p"
      using assms f nz dec Some by (auto simp: pmm_alloc_frame_def pmm_ok_def free_frames_mark_used)
  qed (use f least Some nz dec in \<open>simp_all add: pmm_alloc_frame_def\<close>)
qed

lemma unat_frame_addr: "f < FRAME_MAX \<Longrightarrow> unat (of_nat (f * FRAME_SIZE) :: u32) = f * FRAME_SIZE"
  by (simp add: frame_consts unat_of_nat del: of_nat_mult)

text \<open>What pmm_init frees: the frames from the rounded kernel end up to the top of memory.\<close>

lemma pmm_free_region_ok:
  assumes "length (bitmap p) = 512" and "FRAME_SIZE dvd a"
    and "unat (frame_free p) = card (free_frames (bitmap p))"
    and "\<forall>f. a div FRAME_SIZE \<le> f \<longrightarrow> f < FRAME_MAX \<longrightarrow> is_used (bitmap p) f"
  shows "pmm_ok (pmm_free_region p a lim) \<and>
    free_frames (bitmap (pmm_free_region p a lim)) =
      free_frames (bitmap p) \<union> {f. a div FRAME_SIZE \<le> f \<and> f < FRAME_MAX \<and> f * FRAME_SIZE < lim}"
  using assms
proof (induction p a lim rule: pmm_free_region.induct)
  case (1 p a lim)
  let ?f = "a div FRAME_SIZE"
  let ?p = "p\<lparr>bitmap := mark_free (bitmap p) ?f, frame_total := frame_total p + 1, frame_free := frame_free p + 1\<rparr>"
  have a: "a = ?f * FRAME_SIZE" using "1.prems"(2) by (simp add: FRAME_SIZE_def)
  have nxtf: "(a + 4096) div FRAME_SIZE = Suc ?f" by (simp add: FRAME_SIZE_def)
  show ?case
  proof (cases "a < lim \<and> ?f < FRAME_MAX")
    case True
    then have f: "?f < FRAME_MAX" by simp
    have nf: "?f \<notin> free_frames (bitmap p)" using "1.prems"(4) f by (auto simp: free_frames_def)
    have free: "free_frames (bitmap ?p) = insert ?f (free_frames (bitmap p))"
      using "1.prems"(1) f by (simp add: free_frames_mark_free)
    have "card (free_frames (bitmap p)) \<le> 4096"
      using card_free_frames [of "bitmap p"] by (simp add: FRAME_MAX_def)
    then have cnt: "unat (frame_free ?p) = card (free_frames (bitmap ?p))"
      using "1.prems"(3) nf by (subst free) (simp add: unat_inc)
    have "pmm_ok (pmm_free_region ?p (a + 4096) lim) \<and>
      free_frames (bitmap (pmm_free_region ?p (a + 4096) lim)) =
        free_frames (bitmap ?p) \<union> {f. (a + 4096) div FRAME_SIZE \<le> f \<and> f < FRAME_MAX \<and> f * FRAME_SIZE < lim}"
    proof (rule "1.IH" [OF True])
      show "FRAME_SIZE dvd a + 4096" using "1.prems"(2) by (simp add: FRAME_SIZE_def)
      show "\<forall>f. (a + 4096) div FRAME_SIZE \<le> f \<longrightarrow> f < FRAME_MAX \<longrightarrow> is_used (bitmap ?p) f"
        using "1.prems"(1,4) f by (simp add: nxtf is_used_mark_free)
    qed (use "1.prems"(1) cnt in simp_all)
    moreover have "insert ?f {f. Suc ?f \<le> f \<and> f < FRAME_MAX \<and> f * FRAME_SIZE < lim} =
        {f. ?f \<le> f \<and> f < FRAME_MAX \<and> f * FRAME_SIZE < lim}"
      using True a by (auto simp: less_Suc_eq_le)
    then have "insert ?f (free_frames (bitmap p) \<union> {f. Suc ?f \<le> f \<and> f < FRAME_MAX \<and> f * FRAME_SIZE < lim}) =
        free_frames (bitmap p) \<union> {f. ?f \<le> f \<and> f < FRAME_MAX \<and> f * FRAME_SIZE < lim}"
      by blast
    ultimately show ?thesis
      using True free by (simp add: nxtf pmm_free_region.simps [of p a lim])
  next
    case False
    have "{f. ?f \<le> f \<and> f < FRAME_MAX \<and> f * FRAME_SIZE < lim} = {}"
    proof (rule ccontr)
      assume "{f. ?f \<le> f \<and> f < FRAME_MAX \<and> f * FRAME_SIZE < lim} \<noteq> {}"
      then obtain g where g: "?f \<le> g" "g < FRAME_MAX" "g * FRAME_SIZE < lim" by auto
      then have "?f * FRAME_SIZE \<le> g * FRAME_SIZE" by simp
      with g a False show False by auto
    qed
    with "1.prems"(1,3) False show ?thesis
      by (auto simp: pmm_free_region.simps [of p a lim] pmm_ok_def)
  qed
qed

lemma pmm_init_ok:
  fixes k :: u32
  defines "ke \<equiv> unat ((k + 4096 - 1) AND NOT (4096 - 1))"
  shows "pmm_ok (pmm_init k bi) \<and>
    free_frames (bitmap (pmm_init k bi)) =
      {f. f < FRAME_MAX \<and> ke \<le> f * FRAME_SIZE \<and> f * FRAME_SIZE < unat (mem_top bi)}"
proof -
  let ?p = "\<lparr>bitmap = replicate 512 0xFF, frame_total = 0, frame_free = 0\<rparr> :: pmm"
  have used: "is_used (bitmap ?p) f" if "f < FRAME_MAX" for f
  proof -
    have "(0xFF :: u8) = mask 8" by (simp add: mask_eq_exp_minus_1)
    moreover have "f div 8 < 512" using that by (simp add: FRAME_MAX_def less_mult_imp_div_less)
    ultimately show ?thesis by (simp only: is_used_bit pmm.simps nth_replicate bit_mask_iff) simp
  qed
  then have none: "free_frames (replicate 512 0xFF) = {}" by (auto simp: free_frames_def)
  have m: "(4096 - 1 :: u32) = mask 12" by (simp add: mask_eq_exp_minus_1)
  have "ke = unat (k + 4096 - 1) div 2 ^ 12 * 2 ^ 12"
    unfolding ke_def m by (rule unat_and_not_mask)
  then have dvd: "FRAME_SIZE dvd ke" by (simp add: FRAME_SIZE_def)
  have le: "ke div FRAME_SIZE \<le> f \<longleftrightarrow> ke \<le> f * FRAME_SIZE" for f
    using dvd by (auto simp: FRAME_SIZE_def elim!: dvdE)
  have "pmm_init k bi = pmm_free_region ?p ke (unat (mem_top bi))"
    by (simp add: pmm_init_def Let_def ke_def)
  moreover have "pmm_ok (pmm_free_region ?p ke (unat (mem_top bi))) \<and>
    free_frames (bitmap (pmm_free_region ?p ke (unat (mem_top bi)))) =
      free_frames (bitmap ?p) \<union> {f. ke div FRAME_SIZE \<le> f \<and> f < FRAME_MAX \<and> f * FRAME_SIZE < unat (mem_top bi)}"
    by (rule pmm_free_region_ok) (use dvd none used in auto)
  ultimately show ?thesis by (auto simp: none le)
qed

subsection \<open>The bump heap (kheap.c)\<close>

text \<open>The state is the offset of the next free byte; a pointer is an offset into the heap array.\<close>

definition HEAP_SIZE :: u32 where "HEAP_SIZE = 64 * 1024"

definition kheap_init :: u32 where "kheap_init = 0"

definition kmalloc :: "u32 \<Rightarrow> u32 \<Rightarrow> u32 \<times> u32 option" where
  "kmalloc nxt n =
     (let n' = (n + 7) AND NOT 7
      in if HEAP_SIZE < nxt + n' then (nxt, None) else (nxt + n', Some nxt))"

definition kfree :: "u32 \<Rightarrow> u32 \<Rightarrow> u32" where "kfree nxt p = nxt"

definition kheap_used_kib :: "u32 \<Rightarrow> u32" where "kheap_used_kib nxt = (nxt + 1023) div 1024"
definition kheap_total_kib :: u32 where "kheap_total_kib = HEAP_SIZE div 1024"

definition heap_ok :: "u32 \<Rightarrow> bool" where
  "heap_ok nxt \<longleftrightarrow> unat nxt \<le> 65536 \<and> unat nxt mod 8 = 0"

lemma round8:
  fixes n :: u32
  assumes "unat n \<le> 2 ^ 32 - 8"
  shows "unat ((n + 7) AND - 8) = (unat n + 7) div 8 * 8"
proof -
  have m: "(- 8 :: u32) = NOT (mask 3)" by (simp add: mask_eq_exp_minus_1)
  have "unat (n + 7) = unat n + 7"
    using assms by (simp add: unat_word_ariths)
  then show ?thesis unfolding m unat_and_not_mask by simp
qed

lemma kmalloc_small:
  assumes "heap_ok nxt" and "unat n \<le> 65536" and "kmalloc nxt n = (nxt', r)"
  shows "heap_ok nxt'"
    and "r = Some p \<Longrightarrow> p = nxt \<and> unat p mod 8 = 0 \<and> unat p + unat n \<le> unat nxt' \<and> unat nxt \<le> unat nxt'"
    and "r = None \<Longrightarrow> nxt' = nxt \<and> 65536 < unat nxt + (unat n + 7) div 8 * 8"
proof -
  let ?n = "(n + 7) AND - 8"
  have r8: "unat ?n = (unat n + 7) div 8 * 8" using assms(2) by (intro round8) simp
  have ge: "unat n \<le> unat ?n" unfolding r8 by presburger
  have "unat ?n \<le> 65536 + 8" using assms(2) unfolding r8 by presburger
  then have sum: "unat (nxt + ?n) = unat nxt + unat ?n"
    using assms(1) by (simp add: unat_word_ariths heap_ok_def)
  have test: "HEAP_SIZE < nxt + ?n \<longleftrightarrow> 65536 < unat nxt + unat ?n"
    by (simp add: HEAP_SIZE_def word_less_nat_alt sum)
  have mod8: "(unat nxt + (unat n + 7) div 8 * 8) mod 8 = 0"
    using assms(1) by (simp add: heap_ok_def)
  show "heap_ok nxt'"
    using assms(1,3) test mod8 by (auto simp: kmalloc_def Let_def heap_ok_def sum r8 split: if_splits)
  show "r = Some p \<Longrightarrow> p = nxt \<and> unat p mod 8 = 0 \<and> unat p + unat n \<le> unat nxt' \<and> unat nxt \<le> unat nxt'"
    using assms(1,3) ge sum by (auto simp: kmalloc_def Let_def heap_ok_def split: if_splits)
  show "r = None \<Longrightarrow> nxt' = nxt \<and> 65536 < unat nxt + (unat n + 7) div 8 * 8"
    using assms(3) test by (auto simp: kmalloc_def Let_def r8 split: if_splits)
qed

text \<open>Several requests in a row: the blocks granted, with their sizes.\<close>

fun kmalloc_all :: "u32 \<Rightarrow> u32 list \<Rightarrow> (u32 \<times> u32) list" where
  "kmalloc_all nxt [] = []"
| "kmalloc_all nxt (n # ns) =
     (case kmalloc nxt n of
        (nxt', Some p) \<Rightarrow> (p, n) # kmalloc_all nxt' ns
      | (nxt', None) \<Rightarrow> kmalloc_all nxt' ns)"

definition disjoint_blocks :: "(u32 \<times> u32) \<Rightarrow> (u32 \<times> u32) \<Rightarrow> bool" where
  "disjoint_blocks x y \<longleftrightarrow>
     unat (fst x) + unat (snd x) \<le> unat (fst y) \<or> unat (fst y) + unat (snd y) \<le> unat (fst x)"

lemma kmalloc_all_blocks:
  assumes "heap_ok nxt" and "\<forall>n \<in> set ns. unat n \<le> 65536"
  shows "(\<forall>(p, n) \<in> set (kmalloc_all nxt ns). unat nxt \<le> unat p \<and> unat p + unat n \<le> 65536 \<and> unat p mod 8 = 0)
    \<and> sorted_wrt disjoint_blocks (kmalloc_all nxt ns)"
  using assms
proof (induction ns arbitrary: nxt)
  case Nil
  then show ?case by simp
next
  case (Cons n ns)
  obtain nxt' r where k: "kmalloc nxt n = (nxt', r)" by (cases "kmalloc nxt n")
  have small: "unat n \<le> 65536" using Cons.prems(2) by simp
  note km = kmalloc_small [OF Cons.prems(1) small k]
  have IH: "(\<forall>(p, n) \<in> set (kmalloc_all nxt' ns). unat nxt' \<le> unat p \<and> unat p + unat n \<le> 65536 \<and> unat p mod 8 = 0)
      \<and> sorted_wrt disjoint_blocks (kmalloc_all nxt' ns)"
    using Cons.IH [OF km(1)] Cons.prems(2) by simp
  show ?case
  proof (cases r)
    case None
    with k km(3) IH show ?thesis by auto
  next
    case (Some p)
    then have p: "p = nxt" "unat p mod 8 = 0" "unat p + unat n \<le> unat nxt'" "unat nxt \<le> unat nxt'"
      using km(2) by auto
    have "unat nxt' \<le> 65536" using km(1) by (simp add: heap_ok_def)
    have all: "kmalloc_all nxt (n # ns) = (p, n) # kmalloc_all nxt' ns"
      using k Some by simp
    have "disjoint_blocks (p, n) y" if "y \<in> set (kmalloc_all nxt' ns)" for y
      using IH that p(3) by (fastforce simp: disjoint_blocks_def)
    moreover have "unat nxt \<le> unat q \<and> unat q + unat m \<le> 65536 \<and> unat q mod 8 = 0"
      if "(q, m) \<in> set (kmalloc_all nxt' ns)" for q m
      using IH that p(4) by fastforce
    ultimately show ?thesis
      using IH p km(1) unfolding all by (auto simp: heap_ok_def simp del: kmalloc_all.simps)
  qed
qed

subsection \<open>The page directory (paging.c)\<close>

record cpu_regs =
  cr0 :: u32
  cr3 :: u32
  cr4 :: u32

definition page_dir :: "u32 list" where
  "page_dir = map (\<lambda>i. (of_nat i * 0x400000) OR 0x83) [0..<1024]"

definition paging_init :: "u32 \<Rightarrow> cpu_regs \<Rightarrow> cpu_regs" where
  "paging_init page_dir_addr r =
     r\<lparr>cr4 := cr4 r OR push_bit 4 1, cr3 := page_dir_addr, cr0 := cr0 r OR 0x80000000\<rparr>"

text \<open>How the processor translates an address through a directory entry with the page-size bit:
  the top ten bits select the entry, whose top ten bits replace them. None is a page fault.\<close>

definition pse_translate :: "u32 list \<Rightarrow> u32 \<Rightarrow> u32 option" where
  "pse_translate pd a =
     (let e = pd ! unat (drop_bit 22 a)
      in if bit e 0 \<and> bit e 7 then Some ((e AND 0xFFC00000) OR (a AND 0x3FFFFF)) else None)"

lemma page_dir_entry: "i < 1024 \<Longrightarrow> page_dir ! i = push_bit 22 (of_nat i) OR 0x83"
  by (simp add: page_dir_def push_bit_eq_mult mult.commute)

text \<open>Allocating a page frame hands out the lowest free one, marks exactly it used and counts it,
  and fails only when no frame is free; the counter stays the number of free frames.\<close>

theorem pmm_alloc_lowest:
  assumes "pmm_ok p" and "pmm_alloc_frame p = (p', a)"
  shows "pmm_ok p' \<and>
    (if free_frames (bitmap p) = {} then p' = p \<and> a = 0
     else unat a div FRAME_SIZE = Min (free_frames (bitmap p)) \<and> unat a mod FRAME_SIZE = 0
          \<and> free_frames (bitmap p') = free_frames (bitmap p) - {unat a div FRAME_SIZE}
          \<and> unat (frame_free p') + 1 = unat (frame_free p))"
  using assms(1)
proof (cases rule: pmm_alloc_cases)
  case (frame f q)
  have min: "Min (free_frames (bitmap p)) = f" using frame(3,4) by (intro Min_eqI) auto
  have card: "0 < card (free_frames (bitmap p))" using frame(3) by (auto simp: card_gt_0_iff)
  have len: "length (bitmap p) = 512" using assms(1) by (simp add: pmm_ok_def)
  show ?thesis
    using frame assms card free_frames_mark_used [OF len frame(2)] unat_frame_addr [OF frame(2)] min
    by (auto simp: pmm_ok_def FRAME_SIZE_def simp del: of_nat_mult)
next
  case full
  with assms show ?thesis by auto
qed

definition pmm_sample :: pmm where
  "pmm_sample = pmm_init 0x00200000 (Some \<lparr>bi_magic = BOOT_INFO_MAGIC, mem_upper_kib = 15360\<rparr>)"

lemma pmm_sample_ok: "pmm_ok pmm_sample" "f \<in> free_frames (bitmap pmm_sample) \<longleftrightarrow> 512 \<le> f \<and> f < 4096"
proof -
  have e: "unat ((0x00200000 + 4096 - 1 :: u32) AND NOT (4096 - 1)) = 0x200000" by simp
  have m: "unat (mem_top (Some \<lparr>bi_magic = BOOT_INFO_MAGIC, mem_upper_kib = 15360\<rparr>)) = 0x1000000"
    by (simp add: mem_top_def BOOT_INFO_MAGIC_def)
  note i = pmm_init_ok [of "0x00200000" "Some \<lparr>bi_magic = BOOT_INFO_MAGIC, mem_upper_kib = 15360\<rparr>",
      unfolded e m, folded pmm_sample_def]
  show "pmm_ok pmm_sample" using i by (rule conjunct1)
  have "f \<in> free_frames (bitmap pmm_sample) \<longleftrightarrow> f < 4096 \<and> 0x200000 \<le> f * 4096 \<and> f * 4096 < 0x1000000"
    using i [THEN conjunct2] by (simp add: frame_consts)
  then show "f \<in> free_frames (bitmap pmm_sample) \<longleftrightarrow> 512 \<le> f \<and> f < 4096" by linarith
qed

lemma pmm_alloc_lowest_witness:
  "\<exists>p' a. pmm_alloc_frame pmm_sample = (p', a) \<and> unat a = 0x200000 \<and> 512 \<notin> free_frames (bitmap p')"
proof -
  obtain p' a where k: "pmm_alloc_frame pmm_sample = (p', a)" by (cases "pmm_alloc_frame pmm_sample")
  have "Min (free_frames (bitmap pmm_sample)) = 512"
    by (rule Min_eqI) (simp_all add: pmm_sample_ok)
  moreover have "free_frames (bitmap pmm_sample) \<noteq> {}" using pmm_sample_ok(2) [of 512] by auto
  ultimately have a: "unat a div 4096 = 512" "unat a mod 4096 = 0" "512 \<notin> free_frames (bitmap p')"
    using pmm_alloc_lowest [OF pmm_sample_ok(1) k] by (auto simp: FRAME_SIZE_def)
  have "unat a = 4096 * 512 + 0" using a(1,2) by (metis mult_div_mod_eq)
  then show ?thesis using k a(3) by auto
qed

text \<open>After pmm_init exactly the whole frames between the rounded-up end of the kernel and the top
  of usable memory are free, and the counter is right from the start; freeing any address keeps it right.\<close>

theorem pmm_init_frames:
  "pmm_ok (pmm_init k bi)
   \<and> free_frames (bitmap (pmm_init k bi)) =
       {f. f < FRAME_MAX \<and> unat ((k + 4096 - 1) AND NOT (4096 - 1)) \<le> f * FRAME_SIZE
           \<and> f * FRAME_SIZE < unat (mem_top bi)}
   \<and> pmm_ok (pmm_free_frame (pmm_init k bi) a)"
  using pmm_init_ok [of k bi] pmm_free_frame_ok by blast

text \<open>The null pointer is a frame address: freeing it hands frame 0 to the allocator, whose next
  result is 0 - the value that means failure - although frames are free.\<close>

theorem pmm_null_frame:
  assumes "pmm_ok p" and "is_used (bitmap p) 0"
  shows "snd (pmm_alloc_frame (pmm_free_frame p 0)) = 0
    \<and> bitmap (fst (pmm_alloc_frame (pmm_free_frame p 0))) \<noteq> bitmap (pmm_free_frame p 0)"
proof -
  have len: "length (bitmap p) = 512" using assms(1) by (simp add: pmm_ok_def)
  have ok: "pmm_ok (pmm_free_frame p 0)" using assms(1) by (rule pmm_free_frame_ok)
  have "bitmap (pmm_free_frame p 0) = mark_free (bitmap p) 0"
    using assms(2) by (simp add: pmm_free_frame_def FRAME_MAX_def)
  then have z: "0 \<in> free_frames (bitmap (pmm_free_frame p 0))"
    using len by (simp add: free_frames_mark_free FRAME_MAX_def)
  from ok show ?thesis
  proof (cases rule: pmm_alloc_cases)
    case (frame f q)
    then have f: "f = 0" using z by force
    have "0 \<notin> free_frames (bitmap q)"
      using frame(2,5) f ok free_frames_mark_used [of "bitmap (pmm_free_frame p 0)" 0] by (simp add: pmm_ok_def)
    with z f frame(1) show ?thesis by (metis fst_conv mult_0 of_nat_0 snd_conv)
  qed (use z in auto)
qed

lemma pmm_null_frame_witness: "snd (pmm_alloc_frame (pmm_free_frame pmm_sample 0)) = 0"
proof -
  have "0 \<notin> free_frames (bitmap pmm_sample)" by (simp add: pmm_sample_ok)
  then have "is_used (bitmap pmm_sample) 0" by (simp add: free_frames_def FRAME_MAX_def)
  from pmm_null_frame [OF pmm_sample_ok(1) this] show ?thesis by blast
qed

text \<open>C34: The blocks kmalloc grants to any sequence of requests of at most 64 KiB are 8-byte aligned, lie
  in the heap, and no two of them overlap.\<close>

theorem kmalloc_disjoint:
  assumes "\<forall>n \<in> set ns. unat n \<le> 65536"
  shows "(\<forall>(p, n) \<in> set (kmalloc_all kheap_init ns). unat p mod 8 = 0 \<and> unat p + unat n \<le> 65536)
    \<and> sorted_wrt disjoint_blocks (kmalloc_all kheap_init ns)"
  using kmalloc_all_blocks [OF _ assms, of kheap_init] by (auto simp: heap_ok_def kheap_init_def)

lemma kmalloc_disjoint_witness:
  "sorted_wrt disjoint_blocks (kmalloc_all kheap_init [13, 65530, 100])
   \<and> kmalloc_all kheap_init [13, 65530, 100] = [(0, 13), (16, 100)]"
  using kmalloc_disjoint [of "[13, 65530, 100]"] by (simp add: kheap_init_def kmalloc_def HEAP_SIZE_def)

text \<open>The size sum of kmalloc is 32-bit: a request of nearly 4 GiB passes the limit test, moves the
  heap pointer back, and the block that is granted next overlaps one granted before.\<close>

theorem kmalloc_wraps:
  "\<exists>p q. kmalloc_all kheap_init [64, 0xFFFFFFC0, 64] = [(0, 64), (p, 0xFFFFFFC0), (q, 64)] \<and> q = 0"
  by (simp add: kheap_init_def kmalloc_def HEAP_SIZE_def)

lemma page_dir_bits:
  assumes "i < 1024"
  shows "bit (page_dir ! i) k \<longleftrightarrow> k = 0 \<or> k = 1 \<or> k = 7 \<or> (22 \<le> k \<and> bit i (k - 22) \<and> k < 32)"
proof -
  have c: "(0x83 :: u32) = push_bit 7 1 OR mask 2" by (simp add: mask_eq_exp_minus_1)
  show ?thesis
    unfolding page_dir_entry [OF assms] c
    by (auto simp: bit_simps simp del: push_bit_of_1 dest: bit_imp_le_length)
qed

text \<open>The page directory maps every 32-bit address to itself: all 4 GiB, in 4 MiB pages.\<close>

theorem paging_identity: "pse_translate page_dir a = Some a"
proof -
  let ?i = "unat (drop_bit 22 a)"
  have i: "?i < 1024"
    using unat_u32 [of a] by (subst unsigned_drop_bit_eq) (simp add: drop_bit_eq_div take_bit_nat_eq_self)
  have b: "bit ?i k \<longleftrightarrow> bit a (k + 22)" for k
    by (auto simp: unsigned_drop_bit_eq bit_simps add.commute dest: bit_imp_le_length)
  have m1: "(0xFFC00000 :: u32) = NOT (mask 22)" and m2: "(0x3FFFFF :: u32) = mask 22"
    by (simp_all add: mask_eq_exp_minus_1)
  have "((page_dir ! ?i) AND 0xFFC00000) OR (a AND 0x3FFFFF) = a"
    unfolding m1 m2 by (rule bit_word_eqI) (auto simp: bit_simps page_dir_bits [OF i] b)
  then show ?thesis
    using page_dir_bits [OF i] by (simp add: pse_translate_def Let_def)
qed

end
