(* ===== verification/Clipboard.thy ===== *)
theory Clipboard
  imports ZPrelude
begin

text \<open>The shared clipboard of kernel/clipboard.c: one buffer of CLIP_MAX bytes and a length.\<close>

definition CLIP_MAX :: nat where "CLIP_MAX = 2048"

record clip =
  clip_buf :: bytes
  clip_len :: int

definition clipboard_set :: "clip \<Rightarrow> bytes \<Rightarrow> int \<Rightarrow> clip" where
  "clipboard_set c buf n0 =
     (let n1 = (if n0 < 0 then 0 else n0);
          n = (if int CLIP_MAX < n1 then int CLIP_MAX else n1)
      in c\<lparr>clip_buf := blit (clip_buf c) 0 (take (nat n) buf), clip_len := n\<rparr>)"

definition clipboard_get :: "clip \<Rightarrow> bytes \<Rightarrow> int \<Rightarrow> bytes \<times> int" where
  "clipboard_get c out mx =
     (let n = (if clip_len c < mx then clip_len c else mx)
      in (blit out 0 (take (nat n) (clip_buf c)), n))"

definition clipboard_len :: "clip \<Rightarrow> int" where "clipboard_len c = clip_len c"

definition clip_ok :: "clip \<Rightarrow> bool" where
  "clip_ok c \<longleftrightarrow> length (clip_buf c) = CLIP_MAX \<and> 0 \<le> clip_len c \<and> clip_len c \<le> int CLIP_MAX"

lemma clipboard_set_ok: "clip_ok c \<Longrightarrow> clip_ok (clipboard_set c buf n)"
  by (auto simp: clip_ok_def clipboard_set_def Let_def CLIP_MAX_def)

lemma clipboard_roundtrip:
  assumes "clip_ok c" and "length buf \<le> CLIP_MAX" and "length buf \<le> length out" and "int (length buf) \<le> mx"
  shows "clipboard_get (clipboard_set c buf (int (length buf))) out mx
    = (buf @ drop (length buf) out, int (length buf))"
  using assms
  by (auto simp: clipboard_get_def clipboard_set_def Let_def clip_ok_def blit_eq)

text \<open>What clipboard_set stores, clipboard_get gives back, cut to the capacity and to the size of the
  reader's buffer; bytes of that buffer past the text are not touched.\<close>

theorem clipboard_copy_paste:
  assumes "clip_ok c" and "nat mx \<le> length out" and "0 \<le> mx"
  shows "clip_ok (clipboard_set c buf (int (length buf)))
    \<and> (let t = take (nat mx) (take CLIP_MAX buf)
       in clipboard_get (clipboard_set c buf (int (length buf))) out mx = (t @ drop (length t) out, int (length t)))"
  using assms clipboard_set_ok [OF assms(1), of buf "int (length buf)"]
  by (auto simp: clipboard_get_def clipboard_set_def Let_def clip_ok_def blit_eq min_def nat_le_iff)

lemma clipboard_copy_paste_witness:
  "clipboard_get (clipboard_set \<lparr>clip_buf = replicate 2048 0, clip_len = 0\<rparr> [1, 2, 3] 3) [9, 9, 9, 9] 2 = ([1, 2, 9, 9], 2)"
  using clipboard_copy_paste [of "\<lparr>clip_buf = replicate 2048 0, clip_len = 0\<rparr>" 2 "[9, 9, 9, 9]" "[1, 2, 3]"]
  by (simp add: clip_ok_def CLIP_MAX_def Let_def)

end
