(* ===== verification/BlockDev.thy ===== *)
theory BlockDev
  imports ZPrelude
begin

text \<open>
  The block-device table of kernel/drv/disk.c, with the partition view-disks of
  kernel/drv/mbr.c that share it.

  A slot of the table holds the function pointers of its driver. A raw controller's driver is
  code outside this model: its read and write functions are values stored in the table, acting
  on a state of type 'w (the controllers and their media) that nothing else looks into. The
  functions of a partition view are part_read and part_write, which call disk_read and
  disk_write of the parent again; this is the only recursion, and since views sit on raw disks
  only (lemma disk_read_depth), a call depth of 2 is enough.
\<close>

definition DISK_SECTOR_SIZE :: nat where "DISK_SECTOR_SIZE = 512"
definition DISK_RAW_MAX :: nat where "DISK_RAW_MAX = 16"
definition PART_SLOT_BASE :: nat where "PART_SLOT_BASE = 16"
definition PART_SLOT_MAX :: nat where "PART_SLOT_MAX = 16"
definition DISK_MAX :: nat where "DISK_MAX = DISK_RAW_MAX + PART_SLOT_MAX"

lemmas disk_consts = DISK_SECTOR_SIZE_def DISK_RAW_MAX_def PART_SLOT_BASE_def PART_SLOT_MAX_def DISK_MAX_def

text \<open>A driver read gives the bytes or fails; a driver write says whether it succeeded.\<close>

type_synonym 'w dev_read = "'w \<Rightarrow> u32 \<Rightarrow> u32 \<Rightarrow> bytes option"
type_synonym 'w dev_write = "'w \<Rightarrow> u32 \<Rightarrow> u32 \<Rightarrow> bytes \<Rightarrow> 'w \<times> bool"

datatype 'w read_ptr = ReadNull | ReadDrv "'w dev_read" | ReadPart
datatype 'w write_ptr = WriteNull | WriteDrv "'w dev_write" | WritePart

text \<open>The private pointer of a view is the index of its part_priv.\<close>

record 'w disk =
  present :: bool
  sectors :: u32
  read_fn :: "'w read_ptr"
  write_fn :: "'w write_ptr"
  priv :: "nat option"
  dname :: bytes

record part_priv =
  parent_disk :: int
  part_idx :: int
  offset_lba :: u32
  part_sectors :: u32
  part_type :: u8
  part_boot :: u8

record 'w dstate =
  disks :: "'w disk list"
  g_parts :: "part_priv list"
  world :: 'w

definition zero_disk :: "'w disk" where
  "zero_disk = \<lparr>present = False, sectors = 0, read_fn = ReadNull, write_fn = WriteNull,
     priv = None, dname = replicate 8 0\<rparr>"

definition zero_part :: part_priv where
  "zero_part = \<lparr>parent_disk = 0, part_idx = 0, offset_lba = 0, part_sectors = 0, part_type = 0, part_boot = 0\<rparr>"

definition disk_init :: "'w dstate \<Rightarrow> 'w dstate" where
  "disk_init s = s\<lparr>disks := map (\<lambda>d. d\<lparr>present := False\<rparr>) (disks s)\<rparr>"

definition disk_get :: "'w dstate \<Rightarrow> int \<Rightarrow> 'w disk option" where
  "disk_get s did = (if did < 0 \<or> int DISK_MAX \<le> did then None else Some (disks s ! nat did))"

text \<open>The bounds check and the translation of a partition view, over the reader of its parent.\<close>

definition part_read :: "(int \<Rightarrow> u32 \<Rightarrow> u32 \<Rightarrow> bytes option) \<Rightarrow> part_priv \<Rightarrow> u32 \<Rightarrow> u32 \<Rightarrow> bytes option" where
  "part_read rd p lba count =
     (if part_sectors p < lba + count then None
      else rd (parent_disk p) (offset_lba p + lba) count)"

definition part_write ::
  "(int \<Rightarrow> u32 \<Rightarrow> u32 \<Rightarrow> bytes \<Rightarrow> 'w dstate \<times> bool) \<Rightarrow> 'w dstate \<Rightarrow> part_priv \<Rightarrow> u32 \<Rightarrow> u32 \<Rightarrow> bytes
    \<Rightarrow> 'w dstate \<times> bool" where
  "part_write wr s p lba count buf =
     (if part_sectors p < lba + count then (s, False)
      else wr (parent_disk p) (offset_lba p + lba) count buf)"

primrec disk_read_n :: "nat \<Rightarrow> 'w dstate \<Rightarrow> int \<Rightarrow> u32 \<Rightarrow> u32 \<Rightarrow> bytes option" where
  "disk_read_n 0 s did lba count = None"
| "disk_read_n (Suc k) s did lba count =
     (case disk_get s did of
        None \<Rightarrow> None
      | Some d \<Rightarrow>
          if \<not> present d then None
          else (case read_fn d of
                  ReadNull \<Rightarrow> None
                | ReadDrv f \<Rightarrow> f (world s) lba count
                | ReadPart \<Rightarrow>
                    (case priv d of
                       None \<Rightarrow> None
                     | Some p \<Rightarrow> part_read (disk_read_n k s) (g_parts s ! p) lba count)))"

primrec disk_write_n :: "nat \<Rightarrow> 'w dstate \<Rightarrow> int \<Rightarrow> u32 \<Rightarrow> u32 \<Rightarrow> bytes \<Rightarrow> 'w dstate \<times> bool" where
  "disk_write_n 0 s did lba count buf = (s, False)"
| "disk_write_n (Suc k) s did lba count buf =
     (case disk_get s did of
        None \<Rightarrow> (s, False)
      | Some d \<Rightarrow>
          if \<not> present d then (s, False)
          else (case write_fn d of
                  WriteNull \<Rightarrow> (s, False)
                | WriteDrv f \<Rightarrow> (case f (world s) lba count buf of (w, ok) \<Rightarrow> (s\<lparr>world := w\<rparr>, ok))
                | WritePart \<Rightarrow>
                    (case priv d of
                       None \<Rightarrow> (s, False)
                     | Some p \<Rightarrow> part_write (disk_write_n k s) s (g_parts s ! p) lba count buf)))"

definition DISK_DEPTH :: nat where "DISK_DEPTH = Suc (Suc 0)"

definition disk_read :: "'w dstate \<Rightarrow> int \<Rightarrow> u32 \<Rightarrow> u32 \<Rightarrow> bytes option" where
  "disk_read s = disk_read_n DISK_DEPTH s"

definition disk_write :: "'w dstate \<Rightarrow> int \<Rightarrow> u32 \<Rightarrow> u32 \<Rightarrow> bytes \<Rightarrow> 'w dstate \<times> bool" where
  "disk_write s = disk_write_n DISK_DEPTH s"

subsection \<open>Views sit on raw disks\<close>

definition table_ok :: "'w dstate \<Rightarrow> bool" where
  "table_ok s \<longleftrightarrow> length (disks s) = DISK_MAX \<and> length (g_parts s) = PART_SLOT_MAX"

definition is_view :: "'w disk \<Rightarrow> bool" where
  "is_view d \<longleftrightarrow> (case read_fn d of ReadPart \<Rightarrow> True | _ \<Rightarrow> False) \<or> (case write_fn d of WritePart \<Rightarrow> True | _ \<Rightarrow> False)"

text \<open>A raw slot never holds a view's functions, and a present view's private pointer names a
  part_priv whose parent is a raw slot.\<close>

definition views_ok :: "'w dstate \<Rightarrow> bool" where
  "views_ok s \<longleftrightarrow> table_ok s
     \<and> (\<forall>i<DISK_RAW_MAX. \<not> is_view (disks s ! i))
     \<and> (\<forall>i. DISK_RAW_MAX \<le> i \<longrightarrow> i < DISK_MAX \<longrightarrow> present (disks s ! i) \<longrightarrow>
          (case priv (disks s ! i) of
             None \<Rightarrow> \<not> is_view (disks s ! i)
           | Some p \<Rightarrow> p < PART_SLOT_MAX \<and> 0 \<le> parent_disk (g_parts s ! p)
                       \<and> parent_disk (g_parts s ! p) < int DISK_RAW_MAX))"

lemma disk_get_Some: "disk_get s did = Some d \<longleftrightarrow> 0 \<le> did \<and> did < int DISK_MAX \<and> d = disks s ! nat did"
  by (auto simp: disk_get_def)

lemma views_ok_raw:
  assumes "views_ok s" and "0 \<le> did" and "did < int DISK_RAW_MAX"
  shows "\<not> is_view (disks s ! nat did)"
  using assms by (auto simp: views_ok_def)

lemma views_ok_parent:
  assumes "views_ok s" and "disk_get s did = Some d" and "present d" and "is_view d"
  obtains p where "priv d = Some p" "0 \<le> parent_disk (g_parts s ! p)"
    "parent_disk (g_parts s ! p) < int DISK_RAW_MAX"
proof -
  have "0 \<le> did" "did < int DISK_MAX" "d = disks s ! nat did" using assms(2) by (auto simp: disk_get_Some)
  moreover from this assms(1,4) have "\<not> did < int DISK_RAW_MAX" using views_ok_raw by blast
  ultimately show ?thesis
    using assms(1,3,4) that by (fastforce simp: views_ok_def split: option.splits)
qed

lemma raw_read_n:
  assumes "views_ok s" and "0 \<le> did" and "did < int DISK_RAW_MAX"
  shows "disk_read_n (Suc k) s did lba count = disk_read_n 1 s did lba count"
  using views_ok_raw [OF assms]
  by (auto simp: is_view_def disk_get_def split: read_ptr.splits)

lemma raw_write_n:
  assumes "views_ok s" and "0 \<le> did" and "did < int DISK_RAW_MAX"
  shows "disk_write_n (Suc k) s did lba count buf = disk_write_n 1 s did lba count buf"
  using views_ok_raw [OF assms]
  by (auto simp: is_view_def disk_get_def split: write_ptr.splits)

text \<open>Two levels of calls reach the driver: allowing more changes nothing.\<close>

lemma disk_read_depth:
  assumes "views_ok s"
  shows "disk_read_n (Suc (Suc k)) s did lba count = disk_read s did lba count"
proof (cases "disk_get s did")
  case None
  then show ?thesis by (simp add: disk_read_def DISK_DEPTH_def)
next
  case (Some d)
  show ?thesis
  proof (cases "present d \<and> read_fn d = ReadPart")
    case False
    with Some show ?thesis
      by (auto simp: disk_read_def DISK_DEPTH_def split: read_ptr.splits)
  next
    case True
    then have "is_view d" by (simp add: is_view_def)
    with assms Some True obtain p where p: "priv d = Some p" "0 \<le> parent_disk (g_parts s ! p)"
        "parent_disk (g_parts s ! p) < int DISK_RAW_MAX"
      by (auto elim: views_ok_parent)
    have e: "disk_read_n (Suc k) s (parent_disk (g_parts s ! p)) l c =
        disk_read_n (Suc 0) s (parent_disk (g_parts s ! p)) l c" for l c
      using raw_read_n [OF assms p(2,3)] by (metis One_nat_def)
    show ?thesis
      unfolding disk_read_def DISK_DEPTH_def disk_read_n.simps(2) [of "Suc k"] disk_read_n.simps(2) [of "Suc 0"]
      using Some True p(1) by (simp add: part_read_def e del: disk_read_n.simps)
  qed
qed

subsection \<open>The contract of a block device\<close>

text \<open>What a client may assume of a device of N sectors: reading returns the sectors in order,
  writing replaces exactly the addressed ones.\<close>

locale block_volume =
  fixes rd :: "'d \<Rightarrow> u32 \<Rightarrow> u32 \<Rightarrow> bytes option"
    and wr :: "'d \<Rightarrow> u32 \<Rightarrow> u32 \<Rightarrow> bytes \<Rightarrow> 'd \<times> bool"
    and ok :: "'d \<Rightarrow> bool"
    and N :: nat
    and sec :: "'d \<Rightarrow> nat \<Rightarrow> bytes"
  assumes sec_len: "ok d \<Longrightarrow> n < N \<Longrightarrow> length (sec d n) = 512"
    and rd_sec: "ok d \<Longrightarrow> unat l + unat c \<le> N \<Longrightarrow>
      rd d l c = Some (concat (map (sec d) [unat l..<unat l + unat c]))"
    and wr_sec: "ok d \<Longrightarrow> unat l + unat c \<le> N \<Longrightarrow> length bs = 512 * unat c \<Longrightarrow> wr d l c bs = (d', r) \<Longrightarrow>
      r \<and> ok d' \<and> (\<forall>n<N. sec d' n = (if unat l \<le> n \<and> n < unat l + unat c
        then window ((n - unat l) * 512) 512 bs else sec d n))"
begin

lemma rd_one: "ok d \<Longrightarrow> unat l < N \<Longrightarrow> rd d l 1 = Some (sec d (unat l))"
  using rd_sec [of d l 1] by simp

lemma wr_one:
  assumes "ok d" and "unat l < N" and "length bs = 512"
  shows "\<exists>d'. wr d l 1 bs = (d', True) \<and> ok d' \<and> (\<forall>n<N. sec d' n = (if n = unat l then bs else sec d n))"
proof -
  obtain d' r where w: "wr d l 1 bs = (d', r)" by (cases "wr d l 1 bs")
  with assms wr_sec [of d l 1 bs d' r]
  have r: "r \<and> ok d' \<and> (\<forall>n<N. sec d' n = (if unat l \<le> n \<and> n < unat l + 1 then window ((n - unat l) * 512) 512 bs else sec d n))"
    by simp
  show ?thesis
    by (rule exI [of _ d']) (use r w assms(3) in \<open>auto simp: window_def\<close>)
qed

text \<open>Reading back what was written.\<close>

lemma rd_wr:
  assumes "ok d" and r: "unat l + unat c \<le> N" and len: "length bs = 512 * unat c" and w: "wr d l c bs = (d', r')"
  shows "rd d' l c = Some bs"
proof -
  from wr_sec [OF assms] have d': "ok d'"
    and s: "sec d' n = window ((n - unat l) * 512) 512 bs" if "unat l \<le> n" "n < unat l + unat c" for n
    using that r by auto
  have "map (sec d') [unat l..<unat l + unat c] = map (\<lambda>k. window (k * 512) 512 bs) [0..<unat c]"
    using s by (intro nth_equalityI) auto
  then have "concat (map (sec d') [unat l..<unat l + unat c]) = bs"
    using concat_windows [of "unat c" 512 bs] len by (simp add: mult.commute)
  moreover have "ok d'" using wr_sec [OF assms] by blast
  ultimately show ?thesis using rd_sec [OF _ r, of d'] by simp
qed

lemma rd_wr_one:
  assumes "ok d" and "unat l < N" and "length bs = 512"
  shows "rd (fst (wr d l 1 bs)) l 1 = Some bs"
proof -
  obtain d' where d': "wr d l 1 bs = (d', True)" "ok d'"
      "\<forall>n<N. sec d' n = (if n = unat l then bs else sec d n)"
    using wr_one [OF assms] by blast
  with d'(1,3) assms(2) show ?thesis by (simp add: rd_one [OF d'(2) assms(2)])
qed

lemma rd_wr_other:
  assumes "ok d" and "unat l < N" and "unat m < N" and "l \<noteq> m" and "length bs = 512"
  shows "rd (fst (wr d l 1 bs)) m 1 = rd d m 1"
proof -
  obtain d' where d': "wr d l 1 bs = (d', True)" "ok d'"
      "\<forall>n<N. sec d' n = (if n = unat l then bs else sec d n)"
    using wr_one [OF assms(1,2,5)] by blast
  have "unat m \<noteq> unat l" using assms(4) by (simp add: word_unat_eq_iff)
  with d'(1,3) assms(3) show ?thesis
    by (simp add: rd_one [OF d'(2) assms(3)] rd_one [OF assms(1,3)])
qed

end

end
