(* ===== verification/DiskVolumes.thy ===== *)
theory DiskVolumes
  imports BlockDev
begin

text \<open>
  The block devices the table of kernel/drv/disk.c makes out of drivers: a raw slot whose driver
  obeys the contract block_volume obeys it through disk_read and disk_write, and so does a
  partition view of kernel/drv/mbr.c on such a slot, restricted to its span. A driver that keeps
  its sectors in a list shows that the contract can be met.
\<close>

subsection \<open>A raw slot\<close>

definition raw_slot :: "int \<Rightarrow> 'w dev_read \<Rightarrow> 'w dev_write \<Rightarrow> 'w dstate \<Rightarrow> bool" where
  "raw_slot did f g s \<longleftrightarrow> 0 \<le> did \<and> did < int DISK_RAW_MAX
     \<and> present (disks s ! nat did) \<and> read_fn (disks s ! nat did) = ReadDrv f
     \<and> write_fn (disks s ! nat did) = WriteDrv g"

lemma raw_slot_world [simp]: "raw_slot did f g (s\<lparr>world := w\<rparr>) = raw_slot did f g s"
  by (simp add: raw_slot_def)

lemma raw_read:
  "raw_slot did f g s \<Longrightarrow> disk_read_n (Suc k) s did l c = f (world s) l c"
  by (simp add: raw_slot_def disk_get_def disk_consts)

lemma raw_write:
  "raw_slot did f g s \<Longrightarrow> disk_write_n (Suc k) s did l c bs =
     (case g (world s) l c bs of (w, r) \<Rightarrow> (s\<lparr>world := w\<rparr>, r))"
  by (simp add: raw_slot_def disk_get_def disk_consts)

lemmas raw_disk_read = raw_read [where k = "Suc 0", folded DISK_DEPTH_def disk_read_def]
lemmas raw_disk_write = raw_write [where k = "Suc 0", folded DISK_DEPTH_def disk_write_def]

locale raw_disk = drv: block_volume f g okw N secw
  for f :: "'w dev_read" and g :: "'w dev_write" and okw and N and secw +
  fixes did :: int
begin

definition raw_ok :: "'w dstate \<Rightarrow> bool" where
  "raw_ok s \<longleftrightarrow> raw_slot did f g s \<and> okw (world s)"

end

sublocale raw_disk \<subseteq> disk: block_volume "\<lambda>s. disk_read s did" "\<lambda>s. disk_write s did" raw_ok N "\<lambda>s. secw (world s)"
proof
  fix s n assume "raw_ok s" "n < N"
  then show "length (secw (world s) n) = 512" by (simp add: raw_ok_def drv.sec_len)
next
  fix s and l c :: u32 assume "raw_ok s" "unat l + unat c \<le> N"
  then show "disk_read s did l c = Some (concat (map (secw (world s)) [unat l..<unat l + unat c]))"
    using raw_disk_read [of did f g s l c] by (simp add: raw_ok_def drv.rd_sec)
next
  fix s and l c :: u32 and bs s' r
  assume ok: "raw_ok s" and r: "unat l + unat c \<le> N" and len: "length bs = 512 * unat c"
    and wr: "disk_write s did l c bs = (s', r)"
  obtain w r' where g: "g (world s) l c bs = (w, r')" by (cases "g (world s) l c bs")
  have "s' = s\<lparr>world := w\<rparr>" "r = r'"
    using wr ok g raw_disk_write [of did f g s l c bs] by (simp_all add: raw_ok_def)
  with drv.wr_sec [OF _ r len g] ok
  show "r \<and> raw_ok s' \<and> (\<forall>n<N. secw (world s') n = (if unat l \<le> n \<and> n < unat l + unat c
        then window ((n - unat l) * 512) 512 bs else secw (world s) n))"
    by (simp add: raw_ok_def)
qed

subsection \<open>A partition view\<close>

definition view_slot :: "int \<Rightarrow> int \<Rightarrow> u32 \<Rightarrow> u32 \<Rightarrow> 'w dstate \<Rightarrow> bool" where
  "view_slot v did off len s \<longleftrightarrow> int PART_SLOT_BASE \<le> v \<and> v < int DISK_MAX
     \<and> present (disks s ! nat v) \<and> read_fn (disks s ! nat v) = ReadPart \<and> write_fn (disks s ! nat v) = WritePart
     \<and> (case priv (disks s ! nat v) of None \<Rightarrow> False
        | Some p \<Rightarrow> parent_disk (g_parts s ! p) = did \<and> offset_lba (g_parts s ! p) = off
                    \<and> part_sectors (g_parts s ! p) = len)"

lemma view_slot_world [simp]: "view_slot v did off len (s\<lparr>world := w\<rparr>) = view_slot v did off len s"
  by (simp add: view_slot_def split: option.splits)

lemma view_read:
  assumes "view_slot v did off len s" and "raw_slot did f g s"
  shows "disk_read s v l c = (if len < l + c then None else f (world s) (off + l) c)"
proof -
  obtain p where p: "priv (disks s ! nat v) = Some p" "parent_disk (g_parts s ! p) = did"
      "offset_lba (g_parts s ! p) = off" "part_sectors (g_parts s ! p) = len"
    using assms(1) by (auto simp: view_slot_def split: option.splits)
  have "disk_read_n (Suc 0) s did a b = f (world s) a b" for a b
    using raw_read [OF assms(2), of 0] by simp
  then show ?thesis
    unfolding disk_read_def DISK_DEPTH_def disk_read_n.simps(2) [of "Suc 0"]
    using assms(1) p by (simp add: view_slot_def disk_get_def disk_consts part_read_def del: disk_read_n.simps)
qed

lemma view_write:
  assumes "view_slot v did off len s" and "raw_slot did f g s"
  shows "disk_write s v l c bs = (if len < l + c then (s, False)
     else (case g (world s) (off + l) c bs of (w, r) \<Rightarrow> (s\<lparr>world := w\<rparr>, r)))"
proof -
  obtain p where p: "priv (disks s ! nat v) = Some p" "parent_disk (g_parts s ! p) = did"
      "offset_lba (g_parts s ! p) = off" "part_sectors (g_parts s ! p) = len"
    using assms(1) by (auto simp: view_slot_def split: option.splits)
  have "disk_write_n (Suc 0) s did a b bs = (case g (world s) a b bs of (w, r) \<Rightarrow> (s\<lparr>world := w\<rparr>, r))" for a b
    using raw_write [OF assms(2), of 0] by simp
  then show ?thesis
    unfolding disk_write_def DISK_DEPTH_def disk_write_n.simps(2) [of "Suc 0"]
    using assms(1) p by (simp add: view_slot_def disk_get_def disk_consts part_write_def del: disk_write_n.simps)
qed

text \<open>The span lies on the parent, and neither its end nor an access to it wraps.\<close>

locale part_disk = drv: block_volume f g okw N secw
  for f :: "'w dev_read" and g :: "'w dev_write" and okw and N and secw +
  fixes did v :: int and off len :: u32
  assumes span: "unat off + unat len \<le> N" and no_wrap: "unat off + unat len < 2 ^ 32"
begin

definition view_ok :: "'w dstate \<Rightarrow> bool" where
  "view_ok s \<longleftrightarrow> view_slot v did off len s \<and> raw_slot did f g s \<and> okw (world s)"

lemma in_view:
  assumes "unat l + unat c \<le> unat len"
  shows "\<not> len < l + c" and "unat (off + l) = unat off + unat l"
    and "unat off + unat l + unat c \<le> N"
proof -
  have "unat l + unat c < 2 ^ 32" using assms no_wrap by simp
  then have "unat (l + c) = unat l + unat c" by (simp add: unat_word_ariths)
  then show "\<not> len < l + c" using assms by (simp add: word_less_nat_alt)
  show "unat (off + l) = unat off + unat l" using assms no_wrap by (simp add: unat_word_ariths)
  show "unat off + unat l + unat c \<le> N" using assms span by simp
qed

end

sublocale part_disk \<subseteq> view: block_volume "\<lambda>s. disk_read s v" "\<lambda>s. disk_write s v" view_ok "unat len"
  "\<lambda>s n. secw (world s) (unat off + n)"
proof
  fix s n assume "view_ok s" "n < unat len"
  then show "length (secw (world s) (unat off + n)) = 512" using span by (simp add: view_ok_def drv.sec_len)
next
  fix s and l c :: u32 assume ok: "view_ok s" and r: "unat l + unat c \<le> unat len"
  note v = in_view [OF r]
  have "map (\<lambda>n. secw (world s) (unat off + n)) [unat l..<unat l + unat c]
      = map (secw (world s)) [unat off + unat l..<unat off + unat l + unat c]"
    by (intro nth_equalityI) (auto simp: add.assoc)
  then show "disk_read s v l c = Some (concat (map (\<lambda>n. secw (world s) (unat off + n)) [unat l..<unat l + unat c]))"
    using ok v drv.rd_sec [of "world s" "off + l" c] by (auto simp: view_ok_def view_read)
next
  fix s and l c :: u32 and bs s' r
  assume ok: "view_ok s" and r: "unat l + unat c \<le> unat len" and len: "length bs = 512 * unat c"
    and wr: "disk_write s v l c bs = (s', r)"
  note v = in_view [OF r]
  obtain w r' where g: "g (world s) (off + l) c bs = (w, r')" by (cases "g (world s) (off + l) c bs")
  have s': "s' = s\<lparr>world := w\<rparr>" "r = r'"
    using wr ok g v(1) view_write [of v did off len s f g l c bs] by (auto simp: view_ok_def)
  from drv.wr_sec [OF _ _ len g] ok v
  have w: "r' \<and> okw w \<and> (\<forall>n<N. secw w n = (if unat off + unat l \<le> n \<and> n < unat off + unat l + unat c
      then window ((n - (unat off + unat l)) * 512) 512 bs else secw (world s) n))"
    by (simp add: view_ok_def)
  have "\<forall>n<unat len. secw w (unat off + n) = (if unat l \<le> n \<and> n < unat l + unat c
      then window ((n - unat l) * 512) 512 bs else secw (world s) (unat off + n))"
  proof (intro allI impI)
    fix n assume "n < unat len"
    then have "unat off + n < N" using span by simp
    with w show "secw w (unat off + n) = (if unat l \<le> n \<and> n < unat l + unat c
        then window ((n - unat l) * 512) 512 bs else secw (world s) (unat off + n))"
      by simp
  qed
  with ok w show "r \<and> view_ok s' \<and> (\<forall>n<unat len. secw (world s') (unat off + n) =
      (if unat l \<le> n \<and> n < unat l + unat c then window ((n - unat l) * 512) 512 bs
       else secw (world s) (unat off + n)))"
    by (simp add: s' view_ok_def)
qed

context part_disk begin

text \<open>A write through the view, seen from the whole disk.\<close>

lemma view_io:
  assumes ok: "view_ok s" and r: "unat l + unat c \<le> unat len" and len: "length bs = 512 * unat c"
    and w: "disk_write s v l c bs = (s', r')"
  shows "r' \<and> disk_read s' v l c = Some bs
    \<and> (\<forall>n<N. secw (world s') n =
         (if unat off + unat l \<le> n \<and> n < unat off + unat l + unat c
          then window ((n - (unat off + unat l)) * 512) 512 bs else secw (world s) n))"
proof -
  note v = in_view [OF r]
  obtain w' q where g: "g (world s) (off + l) c bs = (w', q)" by (cases "g (world s) (off + l) c bs")
  have "s' = s\<lparr>world := w'\<rparr>" "r' = q"
    using ok g w v(1) view_write [of v did off len s f g l c bs] by (auto simp: view_ok_def)
  moreover have "okw (world s)" using ok by (simp add: view_ok_def)
  note drv.wr_sec [OF this _ len g]
  ultimately show ?thesis using v view.rd_wr [OF ok r len w] by simp
qed

end

subsection \<open>A driver over a list of sectors\<close>

definition ram_ok :: "nat \<Rightarrow> bytes list \<Rightarrow> bool" where
  "ram_ok N w \<longleftrightarrow> length w = N \<and> (\<forall>x \<in> set w. length x = 512)"

definition ram_read :: "bytes list dev_read" where
  "ram_read w l c = (if unat l + unat c \<le> length w then Some (concat (map ((!) w) [unat l..<unat l + unat c])) else None)"

definition ram_write :: "bytes list dev_write" where
  "ram_write w l c bs =
     (if unat l + unat c \<le> length w
      then (map (\<lambda>n. if unat l \<le> n \<and> n < unat l + unat c then window ((n - unat l) * 512) 512 bs else w ! n)
              [0..<length w], True)
      else (w, False))"

interpretation ram: block_volume ram_read ram_write "ram_ok N" N "(!)" for N
proof
  fix w :: "bytes list" and l c :: u32 and bs w' r
  assume "ram_ok N w" "unat l + unat c \<le> N" and len: "length bs = 512 * unat c"
    and wr: "ram_write w l c bs = (w', r)"
  then have "w' = map (\<lambda>n. if unat l \<le> n \<and> n < unat l + unat c then window ((n - unat l) * 512) 512 bs else w ! n)
      [0..<N]" "r"
    by (auto simp: ram_write_def ram_ok_def)
  moreover have "length (window ((n - unat l) * 512) 512 bs) = 512" if "unat l \<le> n" "n < unat l + unat c" for n
    using that len by (simp add: length_window)
  moreover have "\<forall>n<N. length (w ! n) = 512" using \<open>ram_ok N w\<close> by (simp add: ram_ok_def)
  ultimately show "r \<and> ram_ok N w' \<and> (\<forall>n<N. w' ! n = (if unat l \<le> n \<and> n < unat l + unat c
      then window ((n - unat l) * 512) 512 bs else w ! n))"
    by (auto simp: ram_ok_def)
qed (auto simp: ram_ok_def ram_read_def)

interpretation ram_raw: raw_disk ram_read ram_write "ram_ok N" N "(!)" did for N did
  by unfold_locales

text \<open>The first raw slot holds this driver; the second view shows its sectors from 4 on.\<close>

definition ram_state :: "bytes list \<Rightarrow> bytes list dstate" where
  "ram_state w = \<lparr>
     disks = \<lparr>present = True, sectors = of_nat (length w), read_fn = ReadDrv ram_read, write_fn = WriteDrv ram_write,
              priv = None, dname = lit ''hda'' @ replicate 5 0\<rparr> # replicate 31 zero_disk,
     g_parts = replicate 16 zero_part, world = w\<rparr>"

lemma ram_state_raw: "raw_slot 0 ram_read ram_write (ram_state w)"
  by (simp add: raw_slot_def ram_state_def disk_consts)

interpretation ram_view: part_disk ram_read ram_write "ram_ok 8" 8 "(!)" 0 16 4 3
  by unfold_locales simp_all

end
