(* ===== verification/Mbr.thy ===== *)
theory Mbr
  imports DiskVolumes
begin

text \<open>
  The partition table of kernel/drv/mbr.c: reading, writing and editing the four entries of
  sector 0, registering the view-disks, and finding the largest free span. The chainloader image
  mbr_blob is built from boot/mbr.asm; its bytes are an argument. Result codes: 0 for success,
  -1 and -2 as in the code; a driver's non-negative result counts as 0.
\<close>

definition MBR_PART_MAX :: nat where "MBR_PART_MAX = 4"

record mbr_part =
  mp_boot :: u8
  mp_type :: u8
  mp_start :: u32
  mp_sectors :: u32

definition empty_part :: mbr_part where
  "empty_part = \<lparr>mp_boot = 0, mp_type = 0, mp_start = 0, mp_sectors = 0\<rparr>"

text \<open>Offset of entry i of the table: 0x1BE + 16 i.\<close>

definition entry_off :: "nat \<Rightarrow> nat" where
  "entry_off i = 0x1BE + i * 16"

definition get_entry :: "bytes \<Rightarrow> nat \<Rightarrow> mbr_part" where
  "get_entry sec i =
     \<lparr>mp_boot = sec ! entry_off i, mp_type = sec ! (entry_off i + 4),
      mp_start = of_le32 sec (entry_off i + 8), mp_sectors = of_le32 sec (entry_off i + 12)\<rparr>"

definition has_signature :: "bytes \<Rightarrow> bool" where
  "has_signature sec \<longleftrightarrow> sec ! 510 = 0x55 \<and> sec ! 511 = 0xAA"

definition plausible :: "mbr_part \<Rightarrow> bool" where
  "plausible p \<longleftrightarrow> mp_type p \<noteq> 0 \<and> mp_sectors p \<noteq> 0 \<and> 1 \<le> mp_start p"

definition mbr_parse :: "bytes \<Rightarrow> mbr_part list option" where
  "mbr_parse sec =
     (if \<not> has_signature sec then None
      else if \<exists>i \<in> set [0..<MBR_PART_MAX]. sec ! entry_off i \<noteq> 0x00 \<and> sec ! entry_off i \<noteq> 0x80 then None
      else let out = map (get_entry sec) [0..<MBR_PART_MAX]
           in if \<exists>p \<in> set out. plausible p then Some out else None)"

definition mbr_read :: "'w dstate \<Rightarrow> int \<Rightarrow> mbr_part list option" where
  "mbr_read s did = (case disk_read s did 0 1 of None \<Rightarrow> None | Some sec \<Rightarrow> mbr_parse sec)"

definition entry_bytes :: "mbr_part \<Rightarrow> bytes" where
  "entry_bytes p =
     [if mp_boot p \<noteq> 0 then 0x80 else 0x00, 0xFE, 0xFF, 0xFF, mp_type p, 0xFE, 0xFF, 0xFF]
     @ le32 (mp_start p) @ le32 (mp_sectors p)"

definition put_entry :: "bytes \<Rightarrow> nat \<Rightarrow> mbr_part \<Rightarrow> bytes" where
  "put_entry sec i p =
     (let sec1 = blit sec (entry_off i) (replicate 16 0)
      in if mp_type p = 0 \<or> mp_sectors p = 0 then sec1
         else blit sec1 (entry_off i) (entry_bytes p))"

definition put_table :: "bytes \<Rightarrow> mbr_part list \<Rightarrow> bytes" where
  "put_table sec ps =
     (let sec1 = fold (\<lambda>i sec. put_entry sec i (ps ! i)) [0..<MBR_PART_MAX] sec
      in sec1[510 := 0x55, 511 := 0xAA])"

definition io_result :: "bool \<Rightarrow> int" where
  "io_result ok = (if ok then 0 else -1)"

definition mbr_write :: "bytes \<Rightarrow> 'w dstate \<Rightarrow> int \<Rightarrow> mbr_part list \<Rightarrow> 'w dstate \<times> int" where
  "mbr_write mbr_blob s did ps =
     (case disk_read s did 0 1 of
        None \<Rightarrow> (s, -1)
      | Some sec0 \<Rightarrow>
          if \<not> has_signature sec0 \<and> length mbr_blob \<noteq> 512 then (s, -1)
          else let sec = (if has_signature sec0 then sec0 else mbr_blob);
                   (s', ok) = disk_write s did 0 1 (put_table sec ps)
               in (s', io_result ok))"

definition mbr_init_disk :: "bytes \<Rightarrow> 'w dstate \<Rightarrow> int \<Rightarrow> 'w dstate \<times> int" where
  "mbr_init_disk mbr_blob s did =
     (if length mbr_blob \<noteq> 512 then (s, -1)
      else let (s1, ok) = disk_write s did 0 1 (mbr_blob[510 := 0x55, 511 := 0xAA])
           in if \<not> ok then (s1, -1) else mbr_write mbr_blob s1 did (replicate MBR_PART_MAX empty_part))"

definition mbr_create_partition ::
  "bytes \<Rightarrow> 'w dstate \<Rightarrow> int \<Rightarrow> int \<Rightarrow> u8 \<Rightarrow> u32 \<Rightarrow> u32 \<Rightarrow> bool \<Rightarrow> 'w dstate \<times> int" where
  "mbr_create_partition mbr_blob s did slot type start secs active =
     (if slot < 0 \<or> int MBR_PART_MAX \<le> slot then (s, -1)
      else let p = (case mbr_read s did of None \<Rightarrow> replicate MBR_PART_MAX empty_part | Some p \<Rightarrow> p);
               k = nat slot
           in if mp_type (p ! k) \<noteq> 0 then (s, -2)
              else let p1 = p[k := \<lparr>mp_boot = (if active then 0x80 else 0), mp_type = type,
                                    mp_start = start, mp_sectors = secs\<rparr>];
                       p2 = (if active
                             then map (\<lambda>i. if i \<noteq> k then (p1 ! i)\<lparr>mp_boot := 0\<rparr> else p1 ! i) [0..<MBR_PART_MAX]
                             else p1)
                   in mbr_write mbr_blob s did p2)"

definition mbr_delete_partition :: "bytes \<Rightarrow> 'w dstate \<Rightarrow> int \<Rightarrow> int \<Rightarrow> 'w dstate \<times> int" where
  "mbr_delete_partition mbr_blob s did slot =
     (if slot < 0 \<or> int MBR_PART_MAX \<le> slot then (s, -1)
      else case mbr_read s did of
             None \<Rightarrow> (s, -1)
           | Some p \<Rightarrow> mbr_write mbr_blob s did (p[nat slot := empty_part]))"

definition mbr_set_active :: "bytes \<Rightarrow> 'w dstate \<Rightarrow> int \<Rightarrow> int \<Rightarrow> 'w dstate \<times> int" where
  "mbr_set_active mbr_blob s did slot =
     (if slot < 0 \<or> int MBR_PART_MAX \<le> slot then (s, -1)
      else case mbr_read s did of
             None \<Rightarrow> (s, -1)
           | Some p \<Rightarrow>
               if mp_type (p ! nat slot) = 0 then (s, -1)
               else mbr_write mbr_blob s did
                      (map (\<lambda>i. (p ! i)\<lparr>mp_boot := (if i = nat slot then 0x80 else 0)\<rparr>) [0..<MBR_PART_MAX]))"

definition mbr_has_table :: "'w dstate \<Rightarrow> int \<Rightarrow> bool" where
  "mbr_has_table s did \<longleftrightarrow> mbr_read s did \<noteq> None"

subsection \<open>View-disk registration\<close>

text \<open>The name of a view: up to six characters of the parent's name, a p when that ends in a
  digit, and the partition number.\<close>

definition make_name :: "bytes \<Rightarrow> nat \<Rightarrow> bytes" where
  "make_name parent idx1 =
     (let stem = take 6 (chars parent);
          ends_digit = (stem \<noteq> [] \<and> 48 \<le> last stem \<and> last stem \<le> 57);
          full = stem @ (if ends_digit \<and> length stem < 7 then [112] else []) @ [of_nat (48 + idx1 mod 10)];
          out = blit (replicate 8 0) 0 full
      in if length full < 8 then out[length full := 0] else out[7 := 0])"

definition clear_views :: "'w dstate \<Rightarrow> 'w dstate" where
  "clear_views s = s\<lparr>disks := take PART_SLOT_BASE (disks s) @ replicate PART_SLOT_MAX zero_disk,
                     g_parts := replicate PART_SLOT_MAX zero_part\<rparr>"

definition register_view :: "'w dstate \<Rightarrow> int \<Rightarrow> nat \<Rightarrow> mbr_part \<Rightarrow> 'w dstate \<times> int" where
  "register_view s parent idx src =
     (case first_idx (\<lambda>i. \<not> present (disks s ! (PART_SLOT_BASE + i))) PART_SLOT_MAX of
        None \<Rightarrow> (s, -1)
      | Some slot \<Rightarrow>
          (case disk_get s parent of
             None \<Rightarrow> (s, -1)
           | Some pd \<Rightarrow>
               if \<not> present pd \<or> mp_start src = 0 \<or> sectors pd \<le> mp_start src \<or> mp_sectors src = 0
                  \<or> sectors pd < mp_start src + mp_sectors src
               then (s, -1)
               else
                 (s\<lparr>g_parts := (g_parts s)[slot := \<lparr>parent_disk = parent, part_idx = int idx,
                        offset_lba = mp_start src, part_sectors = mp_sectors src,
                        part_type = mp_type src, part_boot = mp_boot src\<rparr>],
                    disks := (disks s)[PART_SLOT_BASE + slot := \<lparr>present = True, sectors = mp_sectors src,
                        read_fn = ReadPart,
                        write_fn = (case write_fn pd of WriteNull \<Rightarrow> WriteNull | _ \<Rightarrow> WritePart),
                        priv = Some slot, dname = make_name (dname pd) (idx + 1)\<rparr>]\<rparr>,
                  int (PART_SLOT_BASE + slot))))"

definition scan_entries :: "int \<Rightarrow> mbr_part list \<Rightarrow> 'w dstate \<Rightarrow> 'w dstate" where
  "scan_entries parent pt s =
     fold (\<lambda>i s. if mp_type (pt ! i) = 0 \<or> mp_sectors (pt ! i) = 0 then s
                 else fst (register_view s parent i (pt ! i))) [0..<MBR_PART_MAX] s"

definition scan_disk :: "nat \<Rightarrow> 'w dstate \<Rightarrow> 'w dstate" where
  "scan_disk parent s =
     (let d = disks s ! parent
      in if \<not> present d \<or> sectors d < 2048 then s
         else case mbr_read s (int parent) of None \<Rightarrow> s | Some pt \<Rightarrow> scan_entries (int parent) pt s)"

definition mbr_scan_all :: "'w dstate \<Rightarrow> 'w dstate" where
  "mbr_scan_all s = fold scan_disk [0..<DISK_RAW_MAX] (clear_views s)"

definition mbr_view_for :: "'w dstate \<Rightarrow> int \<Rightarrow> int \<Rightarrow> int" where
  "mbr_view_for s parent idx =
     (case first_idx (\<lambda>i. present (disks s ! (PART_SLOT_BASE + i)) \<and> parent_disk (g_parts s ! i) = parent
             \<and> part_idx (g_parts s ! i) = idx) PART_SLOT_MAX of
        Some i \<Rightarrow> int (PART_SLOT_BASE + i)
      | None \<Rightarrow> -1)"

definition mbr_view_info :: "'w dstate \<Rightarrow> int \<Rightarrow> part_priv option" where
  "mbr_view_info s view =
     (if view < int PART_SLOT_BASE \<or> int DISK_MAX \<le> view then None
      else let d = disks s ! nat view
           in if \<not> present d then None else map_option (\<lambda>p. g_parts s ! p) (priv d))"

subsection \<open>The largest free span\<close>

text \<open>The two parallel arrays of starts and ends are one list of pairs. The inner loop of the
  insertion sort moves larger elements up from position k and says where the hole ended.\<close>

fun ins_loop :: "(u32 \<times> u32) list \<Rightarrow> nat \<Rightarrow> u32 \<Rightarrow> (u32 \<times> u32) list \<times> nat" where
  "ins_loop a 0 st = (a, 0)"
| "ins_loop a (Suc j) st =
     (if st < fst (a ! j) then ins_loop (a[Suc j := a ! j]) j st else (a, Suc j))"

definition ins_step :: "nat \<Rightarrow> (u32 \<times> u32) list \<Rightarrow> (u32 \<times> u32) list" where
  "ins_step i a = (let se = a ! i; (a', k) = ins_loop a i (fst se) in a'[k := se])"

definition sort_spans :: "(u32 \<times> u32) list \<Rightarrow> (u32 \<times> u32) list" where
  "sort_spans a = fold ins_step [1..<length a] a"

text \<open>One step of the walk over the gaps; the state is the cursor and the best span so far.\<close>

definition gap_step :: "u32 \<times> u32 \<Rightarrow> u32 \<times> u32 \<times> u32 \<Rightarrow> u32 \<times> u32 \<times> u32" where
  "gap_step span state =
     (case span of (st, en) \<Rightarrow> case state of (cursor, best_start, best_count) \<Rightarrow>
        let (bs, bc) = (if cursor < st \<and> best_count < st - cursor then (cursor, st - cursor)
                        else (best_start, best_count))
        in (if cursor < en then en else cursor, bs, bc))"

definition used_spans :: "mbr_part list \<Rightarrow> (u32 \<times> u32) list" where
  "used_spans pt = (0, 2048) #
     map (\<lambda>p. (mp_start p, mp_start p + mp_sectors p)) (filter (\<lambda>p. mp_type p \<noteq> 0 \<and> mp_sectors p \<noteq> 0) pt)"

definition largest_gap :: "u32 \<Rightarrow> (u32 \<times> u32) list \<Rightarrow> u32 \<times> u32" where
  "largest_gap disk_sectors spans =
     (case fold gap_step spans (0, 0, 0) of
        (cursor, bs, bc) \<Rightarrow>
          if cursor < disk_sectors \<and> bc < disk_sectors - cursor then (cursor, disk_sectors - cursor)
          else (bs, bc))"

definition mbr_largest_free :: "'w dstate \<Rightarrow> int \<Rightarrow> u32 \<times> u32 \<times> int" where
  "mbr_largest_free s did =
     (case disk_get s did of
        None \<Rightarrow> (0, 0, -1)
      | Some d \<Rightarrow>
          if \<not> present d then (0, 0, -1)
          else case mbr_read s did of
                 None \<Rightarrow> let c = (if 2048 < sectors d then sectors d - 2048 else 0)
                         in (2048, c, if 0 < c then 0 else -1)
               | Some pt \<Rightarrow>
                   (case largest_gap (sectors d) (sort_spans (used_spans pt)) of
                      (bs, bc) \<Rightarrow> (bs, bc, if 0 < bc then 0 else -1)))"

definition mbr_suggest_type :: "u32 \<Rightarrow> u8" where
  "mbr_suggest_type secs = (if secs < 512 * 1024 * 2 then 0x0E else 0x0C)"

subsection \<open>The insertion sort\<close>

lemma ins_loop_spec:
  "ins_loop a k st = (a', k') \<Longrightarrow> k < length a \<Longrightarrow>
   k' \<le> k \<and> length a' = length a \<and> (\<forall>j<k'. a' ! j = a ! j) \<and> (\<forall>j. k' < j \<longrightarrow> j \<le> k \<longrightarrow> a' ! j = a ! (j - 1))
   \<and> (\<forall>j>k. a' ! j = a ! j) \<and> (\<forall>j. k' \<le> j \<longrightarrow> j < k \<longrightarrow> st < fst (a ! j)) \<and> (0 < k' \<longrightarrow> fst (a ! (k' - 1)) \<le> st)"
proof (induction a k st arbitrary: a' k' rule: ins_loop.induct)
  case (1 a st)
  then show ?case by auto
next
  case (2 a j st)
  show ?case
  proof (cases "st < fst (a ! j)")
    case False
    with "2.prems" show ?thesis by auto
  next
    case True
    let ?b = "a[Suc j := a ! j]"
    have IH: "k' \<le> j \<and> length a' = length ?b \<and> (\<forall>i<k'. a' ! i = ?b ! i) \<and> (\<forall>i. k' < i \<longrightarrow> i \<le> j \<longrightarrow> a' ! i = ?b ! (i - 1))
      \<and> (\<forall>i>j. a' ! i = ?b ! i) \<and> (\<forall>i. k' \<le> i \<longrightarrow> i < j \<longrightarrow> st < fst (?b ! i)) \<and> (0 < k' \<longrightarrow> fst (?b ! (k' - 1)) \<le> st)"
      by (rule "2.IH" [OF True]) (use "2.prems" True in simp_all)
    have shift: "a' ! i = a ! (i - 1)" if "k' < i" "i \<le> Suc j" for i
      using that IH "2.prems"(2) by (cases "i = Suc j") auto
    have big: "st < fst (a ! i)" if "k' \<le> i" "i < Suc j" for i
      using that IH True by (cases "i = j") auto
    show ?thesis
      using IH shift big by (auto simp: nth_list_update)
  qed
qed

lemma ins_step_shape:
  assumes "k < length a"
  obtains k' where "k' \<le> k"
    "ins_step k a = take k' a @ a ! k # take (k - k') (drop k' a) @ drop (Suc k) a"
    "\<forall>x \<in> set (take (k - k') (drop k' a)). fst (a ! k) < fst x"
    "0 < k' \<longrightarrow> fst (a ! (k' - 1)) \<le> fst (a ! k)"
proof -
  obtain a' k' where l: "ins_loop a k (fst (a ! k)) = (a', k')" by (cases "ins_loop a k (fst (a ! k))")
  note sp = ins_loop_spec [OF l assms]
  let ?r = "take k' a @ a ! k # take (k - k') (drop k' a) @ drop (Suc k) a"
  have "ins_step k a = a'[k' := a ! k]" by (simp add: ins_step_def l Let_def)
  also have "\<dots> = ?r"
  proof (rule nth_equalityI)
    show "length (a'[k' := a ! k]) = length ?r" using sp assms by simp
  next
    fix i assume "i < length (a'[k' := a ! k])"
    then have i: "i < length a" using sp by simp
    consider "i < k'" | "i = k'" | "k' < i" "i \<le> k" | "k < i" by linarith
    then show "a'[k' := a ! k] ! i = ?r ! i"
    proof cases
      case 1
      then show ?thesis using sp assms by (simp add: nth_append)
    next
      case 2
      then show ?thesis using sp assms by (simp add: nth_append min_def)
    next
      case 3
      then have "i - k' = Suc (i - Suc k')" "i - Suc k' < k - k'" "k - k' < length a - k'"
        using assms by linarith+
      then show ?thesis using 3 sp assms by (simp add: nth_append min_def)
    next
      case 4
      then have "i - k' = Suc (i - Suc k')" "\<not> i - Suc k' < k - k'" "k - k' < length a - k'"
          "i - Suc k' - (k - k') = i - Suc k"
        using sp assms by linarith+
      then show ?thesis using 4 sp assms i by (simp add: nth_append min_def)
    qed
  qed
  finally have r: "ins_step k a = ?r" .
  have "\<forall>x \<in> set (take (k - k') (drop k' a)). fst (a ! k) < fst x"
  proof
    fix x assume "x \<in> set (take (k - k') (drop k' a))"
    then obtain i where "x = a ! (k' + i)" "i < k - k'"
      using assms by (auto simp: in_set_conv_nth simp del: split_paired_Ex)
    then show "fst (a ! k) < fst x" using sp by simp
  qed
  with r sp show ?thesis by (intro that) auto
qed

definition span_le :: "u32 \<times> u32 \<Rightarrow> u32 \<times> u32 \<Rightarrow> bool" where
  "span_le x y \<longleftrightarrow> fst x \<le> fst y"

lemma ins_step_sorted:
  assumes "k < length a" and "sorted_wrt span_le (take k a)"
  shows "length (ins_step k a) = length a" and "set (ins_step k a) = set a"
    and "sorted_wrt span_le (take (Suc k) (ins_step k a))"
proof -
  obtain k' where k': "k' \<le> k" "0 < k' \<longrightarrow> fst (a ! (k' - 1)) \<le> fst (a ! k)"
    and r: "ins_step k a = take k' a @ a ! k # take (k - k') (drop k' a) @ drop (Suc k) a"
    and big: "\<forall>x \<in> set (take (k - k') (drop k' a)). fst (a ! k) < fst x"
    using ins_step_shape [OF assms(1)] by metis
  let ?A = "take k' a" and ?B = "take (k - k') (drop k' a)"
  have split: "take k a = ?A @ ?B"
    using k'(1) by (metis le_add_diff_inverse take_add)
  then have whole: "a = ?A @ ?B @ a ! k # drop (Suc k) a"
    using assms(1) by (metis append.assoc id_take_nth_drop)
  show "length (ins_step k a) = length a" using r k'(1) assms(1) by simp
  show "set (ins_step k a) = set a" by (subst (2) whole, subst r) auto
  have srt: "sorted_wrt span_le ?A" "sorted_wrt span_le ?B" "\<forall>x \<in> set ?A. \<forall>y \<in> set ?B. span_le x y"
    using assms(2) by (auto simp: split sorted_wrt_append)
  have small: "span_le x (a ! k)" if "x \<in> set ?A" for x
  proof -
    from that k'(1) assms(1) obtain i where i: "i < k'" "x = a ! i" by (auto simp: in_set_conv_nth)
    have "fst (a ! i) \<le> fst (a ! (k' - 1))"
    proof (cases "i = k' - 1")
      case False
      with i have "i < k' - 1" by simp
      then have "span_le (?A ! i) (?A ! (k' - 1))"
        using srt(1) i k'(1) assms(1) by (intro sorted_wrt_nth_less [OF srt(1)]) auto
      with i k'(1) show ?thesis by (simp add: span_le_def)
    qed simp
    with i k'(2) show ?thesis by (auto simp: span_le_def)
  qed
  have "k - k' < length a - k'" using k'(1) assms(1) by linarith
  then have "take (Suc k) (ins_step k a) = ?A @ a ! k # ?B"
    using r k'(1) assms(1) by (simp add: min_def Suc_diff_le)
  moreover have "sorted_wrt span_le (?A @ a ! k # ?B)"
    using srt small big by (auto simp: sorted_wrt_append span_le_def less_imp_le)
  ultimately show "sorted_wrt span_le (take (Suc k) (ins_step k a))" by simp
qed

lemma sort_spans_spec: "sorted_wrt span_le (sort_spans a) \<and> set (sort_spans a) = set a"
proof -
  have "length (fold ins_step [1..<n] a) = length a \<and> set (fold ins_step [1..<n] a) = set a
      \<and> sorted_wrt span_le (take n (fold ins_step [1..<n] a))" if "n \<le> length a" for n
    using that
  proof (induction n)
    case 0
    then show ?case by simp
  next
    case (Suc n)
    show ?case
    proof (cases "n = 0")
      case True
      then show ?thesis by (cases a) simp_all
    next
      case False
      with Suc show ?thesis
        using ins_step_sorted [of n "fold ins_step [1..<n] a"] by simp
    qed
  qed
  from this [of "length a"] show ?thesis
    by (metis order_refl sort_spans_def take_all)
qed

subsection \<open>The walk over the gaps\<close>

text \<open>A range of sectors that meets none of the spans.\<close>

definition free_range :: "(u32 \<times> u32) set \<Rightarrow> nat \<Rightarrow> nat \<Rightarrow> bool" where
  "free_range S a b \<longleftrightarrow> (\<forall>(st, en) \<in> S. unat en \<le> a \<or> b \<le> unat st)"

text \<open>What the walk knows after a prefix P of the sorted spans, with Q still to come.\<close>

definition walk_inv :: "(u32 \<times> u32) set \<Rightarrow> (u32 \<times> u32) set \<Rightarrow> u32 \<times> u32 \<times> u32 \<Rightarrow> bool" where
  "walk_inv P Q state \<longleftrightarrow>
     (case state of (c, bs, bc) \<Rightarrow>
        (\<forall>(st, en) \<in> P. unat en \<le> unat c)
        \<and> (c = 0 \<or> (\<exists>st. (st, c) \<in> P \<and> st < c))
        \<and> free_range (P \<union> Q) (unat bs) (unat bs + unat bc)
        \<and> (\<forall>a b. a < b \<longrightarrow> b \<le> unat c \<longrightarrow> free_range P a b \<longrightarrow> b - a \<le> unat bc))"

lemma free_range_mono: "free_range S a b \<Longrightarrow> T \<subseteq> S \<Longrightarrow> free_range T a b"
  by (auto simp: free_range_def)

lemma gap_step_inv:
  assumes inv: "walk_inv P (insert (st, en) Q) (c, bs, bc)" and ne: "st < en"
    and later: "\<forall>(s', e') \<in> Q. st \<le> s'"
  shows "walk_inv (insert (st, en) P) Q (gap_step (st, en) (c, bs, bc))"
proof -
  let ?c = "if c < en then en else c"
  let ?new = "c < st \<and> bc < st - c"
  have ends: "\<forall>(s', e') \<in> P. unat e' \<le> unat c" and touch: "c = 0 \<or> (\<exists>s'. (s', c) \<in> P \<and> s' < c)"
    and free: "free_range (P \<union> insert (st, en) Q) (unat bs) (unat bs + unat bc)"
    and best: "\<And>a b. a < b \<Longrightarrow> b \<le> unat c \<Longrightarrow> free_range P a b \<Longrightarrow> b - a \<le> unat bc"
    using inv by (auto simp: walk_inv_def)
  have gap: "unat (st - c) = unat st - unat c" if "c < st" using that by (simp add: unat_sub less_imp_le)
  have step: "gap_step (st, en) (c, bs, bc) =
      (?c, if ?new then c else bs, if ?new then st - c else bc)"
    by (auto simp: gap_step_def)
  have new_free: "free_range (insert (st, en) P \<union> Q) (unat c) (unat c + unat (st - c))" if "c < st"
    using that ends later gap by (fastforce simp: free_range_def word_le_nat_alt word_less_nat_alt)
  have max: "b - a \<le> unat (if ?new then st - c else bc)"
    if ab: "a < b" "b \<le> unat ?c" and fr: "free_range (insert (st, en) P) a b" for a b
  proof (cases "b \<le> unat c")
    case True
    have "b - a \<le> unat bc"
      using ab(1) True free_range_mono [OF fr] by (intro best) auto
    then show ?thesis by (auto simp: word_less_nat_alt)
  next
    case False
    then have "b \<le> unat en" "c < en" using ab(2) by (auto split: if_splits)
    then have "b \<le> unat st" using fr ab(1) by (auto simp: free_range_def)
    have "unat c \<le> a"
    proof (cases "c = 0")
      case False
      with touch obtain s' where "(s', c) \<in> P" "s' < c" by auto
      with fr have "unat c \<le> a \<or> b \<le> unat s'" by (auto simp: free_range_def)
      with \<open>s' < c\<close> \<open>\<not> b \<le> unat c\<close> show ?thesis by (auto simp: word_less_nat_alt)
    qed simp
    have lt: "c < st" using \<open>b \<le> unat st\<close> \<open>unat c \<le> a\<close> ab(1) by (simp add: word_less_nat_alt)
    then have "b - a \<le> unat (st - c)" using gap \<open>b \<le> unat st\<close> \<open>unat c \<le> a\<close> by simp
    with lt show ?thesis by (auto simp: word_less_nat_alt)
  qed
  have ends': "\<forall>(s', e') \<in> insert (st, en) P. unat e' \<le> unat ?c"
    using ends by (fastforce simp: word_less_nat_alt not_less)
  have touch': "?c = 0 \<or> (\<exists>s'. (s', ?c) \<in> insert (st, en) P \<and> s' < ?c)"
    using touch ne by auto
  have free': "free_range (insert (st, en) P \<union> Q) (unat (if ?new then c else bs))
      (unat (if ?new then c else bs) + unat (if ?new then st - c else bc))"
    using new_free free by auto
  show ?thesis
    unfolding step walk_inv_def using ends' touch' free' max by blast
qed

lemma gap_walk_inv:
  assumes "walk_inv P (set L) state" and "sorted_wrt span_le L" and "\<forall>(st, en) \<in> set L. st < en"
  shows "walk_inv (P \<union> set L) {} (fold gap_step L state)"
  using assms
proof (induction L arbitrary: P state)
  case Nil
  then show ?case by simp
next
  case (Cons span L)
  obtain st en where span: "span = (st, en)" by (cases span)
  obtain c bs bc where state: "state = (c, bs, bc)" by (cases state)
  have "walk_inv (insert (st, en) P) (set L) (gap_step (st, en) (c, bs, bc))"
    by (rule gap_step_inv) (use Cons.prems span state in \<open>auto simp: span_le_def\<close>)
  from Cons.IH [OF this] Cons.prems(2,3) show ?case by (simp add: span state)
qed

lemma largest_gap_spec:
  assumes "sorted_wrt span_le L" and "\<forall>(st, en) \<in> set L. st < en" and "largest_gap n L = (bs, bc)"
  shows "free_range (set L) (unat bs) (unat bs + unat bc)"
    and "\<And>a b. a < b \<Longrightarrow> b \<le> unat n \<Longrightarrow> free_range (set L) a b \<Longrightarrow> b - a \<le> unat bc"
proof -
  obtain c bs0 bc0 where f: "fold gap_step L (0, 0, 0) = (c, bs0, bc0)"
    by (cases "fold gap_step L (0, 0, 0)") auto
  have "walk_inv {} (set L) (0, 0, 0)"
    by (auto simp: walk_inv_def free_range_def)
  then have "walk_inv ({} \<union> set L) {} (fold gap_step L (0, 0, 0))"
    using assms(1,2) by (rule gap_walk_inv)
  then have w: "walk_inv (set L) {} (c, bs0, bc0)" by (simp add: f)
  let ?new = "c < n \<and> bc0 < n - c"
  have res: "bs = (if ?new then c else bs0)" "bc = (if ?new then n - c else bc0)"
    using assms(3) by (auto simp: largest_gap_def f split: if_splits)
  have sub: "unat (n - c) = unat n - unat c" if "c < n" using that by (simp add: unat_sub less_imp_le)
  show "free_range (set L) (unat bs) (unat bs + unat bc)"
    using w by (auto simp: walk_inv_def res free_range_def)
  fix a b assume ab: "a < b" "b \<le> unat n" and fr: "free_range (set L) a b"
  show "b - a \<le> unat bc"
  proof (cases "b \<le> unat c")
    case True
    with w ab fr have "b - a \<le> unat bc0" by (auto simp: walk_inv_def)
    then show ?thesis by (auto simp: res word_less_nat_alt)
  next
    case False
    then have lt: "c < n" using ab by (simp add: word_less_nat_alt)
    have "unat c \<le> a"
    proof (cases "c = 0")
      case False
      with w obtain s' where "(s', c) \<in> set L" "s' < c" by (auto simp: walk_inv_def)
      with fr have "unat c \<le> a \<or> b \<le> unat s'" by (auto simp: free_range_def)
      with \<open>s' < c\<close> \<open>\<not> b \<le> unat c\<close> show ?thesis by (auto simp: word_less_nat_alt)
    qed simp
    then have "b - a \<le> unat (n - c)" using sub [OF lt] ab by simp
    with lt show ?thesis by (auto simp: res word_less_nat_alt)
  qed
qed

text \<open>A span found between partitions or after the last one ends on the disk.\<close>

lemma largest_gap_bound:
  assumes "\<forall>(st, en) \<in> set L. unat st \<le> unat n" and "largest_gap n L = (bs, bc)"
  shows "unat bs + unat bc \<le> unat n"
proof -
  have step: "unat (case gap_step span state of (c, bs, bc) \<Rightarrow> bs) + unat (case gap_step span state of (c, bs, bc) \<Rightarrow> bc) \<le> unat n"
    if "unat (fst span) \<le> unat n" "unat (fst (snd state)) + unat (snd (snd state)) \<le> unat n"
    for span :: "u32 \<times> u32" and state :: "u32 \<times> u32 \<times> u32"
    using that by (auto simp: gap_step_def Let_def unat_sub less_imp_le word_less_nat_alt split: prod.splits if_splits)
  have "unat (fst (snd (fold gap_step L state))) + unat (snd (snd (fold gap_step L state))) \<le> unat n"
    if "unat (fst (snd state)) + unat (snd (snd state)) \<le> unat n" for state
    using assms(1) that
  proof (induction L arbitrary: state)
    case (Cons span L)
    then show ?case using step [of span state] by (auto simp: split_beta)
  qed simp
  from this [of "(0, 0, 0)"] show ?thesis
    using assms(2) by (auto simp: largest_gap_def unat_sub less_imp_le word_less_nat_alt split: prod.splits if_splits)
qed

subsection \<open>Writing a table and reading it back\<close>

text \<open>What the sixteen bytes of an entry say, and what mbr_write leaves of an entry.\<close>

definition dec_entry :: "bytes \<Rightarrow> mbr_part" where
  "dec_entry e = \<lparr>mp_boot = e ! 0, mp_type = e ! 4, mp_start = of_le32 e 8, mp_sectors = of_le32 e 12\<rparr>"

definition norm_part :: "mbr_part \<Rightarrow> mbr_part" where
  "norm_part p = (if mp_type p = 0 \<or> mp_sectors p = 0 then empty_part
                  else p\<lparr>mp_boot := (if mp_boot p \<noteq> 0 then 0x80 else 0)\<rparr>)"

definition enc_entry :: "mbr_part \<Rightarrow> bytes" where
  "enc_entry p = (if mp_type p = 0 \<or> mp_sectors p = 0 then replicate 16 0 else entry_bytes p)"

lemma length_enc_entry [simp]: "length (enc_entry p) = 16"
  by (simp add: enc_entry_def entry_bytes_def le32_def)

lemma of_le32_window: "off + k + 4 \<le> length m \<Longrightarrow> k + 4 \<le> n \<Longrightarrow> of_le32 (window off n m) k = of_le32 m (off + k)"
  by (simp add: of_le32_def nth_window add.assoc)

lemma get_entry_window: "length sec = 512 \<Longrightarrow> i < 4 \<Longrightarrow> get_entry sec i = dec_entry (window (entry_off i) 16 sec)"
  by (simp add: get_entry_def dec_entry_def entry_off_def of_le32_window nth_window)

lemma dec_enc_entry: "dec_entry (enc_entry p) = norm_part p"
proof (cases "mp_type p = 0 \<or> mp_sectors p = 0")
  case True
  have "of_le32 (replicate 16 0) 8 = 0" "of_le32 (replicate 16 0) 12 = 0"
    by (simp_all add: of_le32_def)
  with True show ?thesis by (auto simp: enc_entry_def dec_entry_def norm_part_def empty_part_def)
next
  case False
  then show ?thesis
    by (simp add: enc_entry_def dec_entry_def norm_part_def entry_bytes_def of_le32_def le32_def
        nth_append le32_split)
qed

lemma put_entry_blit: "length sec = 512 \<Longrightarrow> i < 4 \<Longrightarrow> put_entry sec i p = blit sec (entry_off i) (enc_entry p)"
proof (rule nth_equalityI)
  show "length (put_entry sec i p) = length (blit sec (entry_off i) (enc_entry p))"
    by (simp add: put_entry_def Let_def)
next
  fix j assume "length sec = 512" "i < 4" "j < length (put_entry sec i p)"
  moreover have "length (entry_bytes p) = 16" by (simp add: entry_bytes_def le32_def)
  ultimately show "put_entry sec i p ! j = blit sec (entry_off i) (enc_entry p) ! j"
    by (auto simp: put_entry_def Let_def enc_entry_def nth_blit)
qed

lemma window_signature:
  "length s = 512 \<Longrightarrow> i < 4 \<Longrightarrow> window (entry_off i) 16 (s[510 := a, 511 := b]) = window (entry_off i) 16 s"
  by (rule nth_equalityI) (auto simp: nth_window entry_off_def)

lemma put_table_windows:
  assumes "length sec = 512" and "i < 4"
  shows "window (entry_off i) 16 (put_table sec ps) = enc_entry (ps ! i)"
    and "length (put_table sec ps) = 512" and "has_signature (put_table sec ps)"
proof -
  let ?f = "\<lambda>n. fold (\<lambda>i sec. put_entry sec i (ps ! i)) [0..<n] sec"
  have f: "length (?f n) = 512 \<and> (\<forall>i<n. window (entry_off i) 16 (?f n) = enc_entry (ps ! i))" if "n \<le> 4" for n
    using that
  proof (induction n)
    case 0
    then show ?case by (simp add: assms(1))
  next
    case (Suc n)
    then have IH: "length (?f n) = 512" "\<forall>i<n. window (entry_off i) 16 (?f n) = enc_entry (ps ! i)" by auto
    have fS: "?f (Suc n) = blit (?f n) (entry_off n) (enc_entry (ps ! n))"
      using IH(1) Suc.prems by (simp add: put_entry_blit)
    have new: "window (entry_off n) 16 (?f (Suc n)) = enc_entry (ps ! n)"
      unfolding fS using window_blit [of "entry_off n" "enc_entry (ps ! n)" "?f n"] IH(1) Suc.prems
      by (simp add: entry_off_def)
    have old: "window (entry_off i) 16 (?f (Suc n)) = enc_entry (ps ! i)" if "i < n" for i
      unfolding fS using that IH Suc.prems by (subst window_blit_other) (auto simp: entry_off_def)
    show ?case using new old IH(1) fS by (auto simp: less_Suc_eq)
  qed
  let ?s = "?f 4"
  have t: "put_table sec ps = ?s[510 := 0x55, 511 := 0xAA]"
    by (simp add: put_table_def MBR_PART_MAX_def)
  show "length (put_table sec ps) = 512" using f [of 4] by (simp add: t)
  show "has_signature (put_table sec ps)" using f [of 4] by (simp add: t has_signature_def)
  have "window (entry_off i) 16 (put_table sec ps) = window (entry_off i) 16 ?s"
    unfolding t using f [of 4] assms(2) by (intro window_signature) auto
  then show "window (entry_off i) 16 (put_table sec ps) = enc_entry (ps ! i)"
    using f [of 4] assms(2) by simp
qed

lemma mbr_parse_put_table:
  assumes sec: "length sec = 512" and len: "length ps = 4"
  shows "mbr_parse (put_table sec ps) =
    (if \<exists>p \<in> set ps. plausible p then Some (map norm_part ps) else None)"
proof -
  let ?t = "put_table sec ps"
  have t: "length ?t = 512" "has_signature ?t" using put_table_windows [OF sec, of 0] by auto
  have entry: "get_entry ?t i = norm_part (ps ! i)" if "i < 4" for i
    using that t(1) put_table_windows(1) [OF sec that] by (simp add: get_entry_window dec_enc_entry)
  have m: "map (get_entry ?t) [0..<MBR_PART_MAX] = map norm_part ps"
    using entry len by (intro nth_equalityI) (auto simp: MBR_PART_MAX_def)
  have b: "?t ! entry_off i = 0 \<or> ?t ! entry_off i = 0x80" if "i < 4" for i
  proof -
    have "mp_boot (norm_part p) = 0 \<or> mp_boot (norm_part p) = 0x80" for p
      by (simp add: norm_part_def empty_part_def)
    then have "mp_boot (get_entry ?t i) = 0 \<or> mp_boot (get_entry ?t i) = 0x80"
      by (simp add: entry [OF that])
    then show ?thesis by (simp add: get_entry_def)
  qed
  have q: "plausible (norm_part p) \<longleftrightarrow> plausible p" for p
    by (auto simp: plausible_def norm_part_def empty_part_def)
  have "\<not> (\<exists>i<4. ?t ! entry_off i \<noteq> 0 \<and> ?t ! entry_off i \<noteq> 0x80)" using b by blast
  then show ?thesis
    unfolding mbr_parse_def Let_def m using t(2) q by (auto simp: MBR_PART_MAX_def)
qed

lemma mbr_write_volume:
  assumes vol: "block_volume (\<lambda>s. disk_read s did) (\<lambda>s. disk_write s did) ok N sec"
    and ok: "ok s" and N: "0 < N" and ps: "length ps = 4" and blob: "length mbr_blob = 512"
  obtains s' sec0 where "mbr_write mbr_blob s did ps = (s', 0)" "ok s'"
    "length sec0 = 512" "sec s' 0 = put_table sec0 ps"
    "\<And>n. 0 < n \<Longrightarrow> n < N \<Longrightarrow> sec s' n = sec s n"
proof -
  have rd: "disk_read s did 0 1 = Some (sec s 0)"
    using block_volume.rd_one [OF vol ok, of 0] N by simp
  have len0: "length (sec s 0) = 512" using block_volume.sec_len [OF vol ok N] .
  define sec0 where "sec0 = (if has_signature (sec s 0) then sec s 0 else mbr_blob)"
  have l: "length sec0 = 512" using len0 blob by (simp add: sec0_def)
  have lt: "length (put_table sec0 ps) = 512" using put_table_windows(2) [OF l, of 0] by simp
  obtain s' where s': "disk_write s did 0 1 (put_table sec0 ps) = (s', True)" "ok s'"
      "\<forall>n<N. sec s' n = (if n = 0 then put_table sec0 ps else sec s n)"
    using block_volume.wr_one [OF vol ok, of 0] N lt by auto
  show ?thesis
  proof (rule that [of s' sec0])
    show "mbr_write mbr_blob s did ps = (s', 0)"
      using rd blob s'(1) by (simp add: mbr_write_def sec0_def Let_def io_result_def)
  qed (use s' l N in auto)
qed

text \<open>C2: On a device that obeys the block contract, mbr_write succeeds, touches sector 0 only, and
  mbr_read then gives the table back: every used entry with its type, start and length and a
  boot flag of 0 or 0x80, an unused one as zeros - and no table at all when no entry is plausible.\<close>

theorem mbr_write_read:
  assumes vol: "block_volume (\<lambda>s. disk_read s did) (\<lambda>s. disk_write s did) ok N sec"
    and "ok s" and N: "0 < N" and ps: "length ps = 4" and "length mbr_blob = 512"
    and w: "mbr_write mbr_blob s did ps = (s', r)"
  shows "r = 0 \<and> ok s' \<and> mbr_read s' did = (if \<exists>p \<in> set ps. plausible p then Some (map norm_part ps) else None)
     \<and> (\<forall>n. 0 < n \<longrightarrow> n < N \<longrightarrow> sec s' n = sec s n)"
proof -
  obtain t sec0 where m: "mbr_write mbr_blob s did ps = (t, 0)" "ok t" "length sec0 = 512"
      "sec t 0 = put_table sec0 ps" "\<And>n. 0 < n \<Longrightarrow> n < N \<Longrightarrow> sec t n = sec s n"
    using mbr_write_volume [OF assms(1-5)] by blast
  have "disk_read t did 0 1 = Some (put_table sec0 ps)"
    using block_volume.rd_one [OF vol m(2), of 0] N m(4) by simp
  then have "mbr_read t did = (if \<exists>p \<in> set ps. plausible p then Some (map norm_part ps) else None)"
    using mbr_parse_put_table [OF m(3) ps] by (simp add: mbr_read_def)
  with m w show ?thesis by auto
qed

definition sample_part :: mbr_part where
  "sample_part = \<lparr>mp_boot = 0x80, mp_type = 0x0E, mp_start = 4, mp_sectors = 3\<rparr>"

lemma mbr_write_read_witness:
  "\<exists>s'. mbr_read s' 0 = Some [sample_part, empty_part, empty_part, empty_part]
     \<and> mbr_write (replicate 512 0) (ram_state (replicate 8 (replicate 512 0))) 0
         [sample_part, empty_part, empty_part, empty_part] = (s', 0)"
proof -
  let ?s = "ram_state (replicate 8 (replicate 512 0))"
  let ?ps = "[sample_part, empty_part, empty_part, empty_part]"
  obtain s' r where w: "mbr_write (replicate 512 0) ?s 0 ?ps = (s', r)"
    by (cases "mbr_write (replicate 512 0) ?s 0 ?ps")
  have "raw_disk.raw_ok ram_read ram_write (ram_ok 8) 0 ?s"
    using ram_state_raw by (simp add: ram_raw.raw_ok_def ram_ok_def) (simp add: ram_state_def)
  from mbr_write_read [OF ram_raw.disk.block_volume_axioms this _ _ _ w]
  have "r = 0" "mbr_read s' 0 = Some ?ps"
    by (simp_all add: plausible_def sample_part_def norm_part_def empty_part_def)
  with w show ?thesis by blast
qed

subsection \<open>The registered views\<close>

text \<open>A view lies inside its parent as far as the code's 32-bit test can tell.\<close>

definition view_inside :: "'w dstate \<Rightarrow> nat \<Rightarrow> bool" where
  "view_inside s i \<longleftrightarrow> (case priv (disks s ! i) of None \<Rightarrow> False
     | Some p \<Rightarrow> (let pp = g_parts s ! p; d = disks s ! nat (parent_disk pp)
                  in present d \<and> 0 < offset_lba pp \<and> offset_lba pp < sectors d
                     \<and> offset_lba pp + part_sectors pp \<le> sectors d
                     \<and> sectors (disks s ! i) = part_sectors pp))"

text \<open>The state mbr_scan_all keeps: views in the upper half of the table only, the view of slot
  16 + i described by g_parts i.\<close>

definition scan_ok :: "'w dstate \<Rightarrow> bool" where
  "scan_ok s \<longleftrightarrow> table_ok s \<and> (\<forall>i<DISK_RAW_MAX. \<not> is_view (disks s ! i))
     \<and> (\<forall>i<PART_SLOT_MAX. present (disks s ! (PART_SLOT_BASE + i)) \<longrightarrow>
          priv (disks s ! (PART_SLOT_BASE + i)) = Some i
          \<and> 0 \<le> parent_disk (g_parts s ! i) \<and> parent_disk (g_parts s ! i) < int DISK_RAW_MAX
          \<and> view_inside s (PART_SLOT_BASE + i))"

lemma scan_ok_views: "scan_ok s \<Longrightarrow> views_ok s"
  unfolding scan_ok_def views_ok_def
proof (elim conjE, intro conjI allI impI)
  fix i
  assume *: "\<forall>i<PART_SLOT_MAX. present (disks s ! (PART_SLOT_BASE + i)) \<longrightarrow>
          priv (disks s ! (PART_SLOT_BASE + i)) = Some i
          \<and> 0 \<le> parent_disk (g_parts s ! i) \<and> parent_disk (g_parts s ! i) < int DISK_RAW_MAX
          \<and> view_inside s (PART_SLOT_BASE + i)"
    and i: "DISK_RAW_MAX \<le> i" "i < DISK_MAX" and p: "present (disks s ! i)"
  obtain k where k: "i = PART_SLOT_BASE + k" "k < PART_SLOT_MAX"
    using i by (auto simp: disk_consts dest: le_Suc_ex)
  with * p show "case priv (disks s ! i) of None \<Rightarrow> \<not> is_view (disks s ! i)
      | Some p \<Rightarrow> p < PART_SLOT_MAX \<and> 0 \<le> parent_disk (g_parts s ! p) \<and> parent_disk (g_parts s ! p) < int DISK_RAW_MAX"
    by simp
qed auto

lemma clear_views_ok:
  assumes "table_ok s" and "\<forall>i<DISK_RAW_MAX. \<not> is_view (disks s ! i)"
  shows "scan_ok (clear_views s)"
  using assms by (auto simp: scan_ok_def clear_views_def table_ok_def disk_consts nth_append zero_disk_def)

lemma register_view_ok:
  assumes ok: "scan_ok s" and parent: "0 \<le> parent" "parent < int DISK_RAW_MAX"
  shows "scan_ok (fst (register_view s parent idx src))"
    and "i < DISK_RAW_MAX \<Longrightarrow> disks (fst (register_view s parent idx src)) ! i = disks s ! i"
    and "world (fst (register_view s parent idx src)) = world s"
proof -
  have len: "length (disks s) = 32" "length (g_parts s) = 16"
    using ok by (simp_all add: scan_ok_def table_ok_def disk_consts)
  consider "fst (register_view s parent idx src) = s"
    | slot pd where "slot < PART_SLOT_MAX" "pd = disks s ! nat parent" "present pd"
        "mp_start src \<noteq> 0" "mp_start src < sectors pd" "mp_start src + mp_sectors src \<le> sectors pd"
        "fst (register_view s parent idx src) =
           s\<lparr>g_parts := (g_parts s)[slot := \<lparr>parent_disk = parent, part_idx = int idx,
                        offset_lba = mp_start src, part_sectors = mp_sectors src,
                        part_type = mp_type src, part_boot = mp_boot src\<rparr>],
             disks := (disks s)[PART_SLOT_BASE + slot := \<lparr>present = True, sectors = mp_sectors src,
                        read_fn = ReadPart,
                        write_fn = (case write_fn pd of WriteNull \<Rightarrow> WriteNull | _ \<Rightarrow> WritePart),
                        priv = Some slot, dname = make_name (dname pd) (idx + 1)\<rparr>]\<rparr>"
  proof (cases "first_idx (\<lambda>i. \<not> present (disks s ! (PART_SLOT_BASE + i))) PART_SLOT_MAX")
    case None
    then show ?thesis by (intro that(1)) (simp add: register_view_def)
  next
    case (Some slot)
    have pd: "disk_get s parent = Some (disks s ! nat parent)"
      using parent by (simp add: disk_get_def disk_consts)
    let ?d = "disks s ! nat parent"
    show ?thesis
    proof (cases "\<not> present ?d \<or> mp_start src = 0 \<or> sectors ?d \<le> mp_start src \<or> mp_sectors src = 0
        \<or> sectors ?d < mp_start src + mp_sectors src")
      case True
      then show ?thesis by (intro that(1)) (simp add: register_view_def Some pd)
    next
      case False
      then have "present ?d" "mp_start src \<noteq> 0" "\<not> sectors ?d \<le> mp_start src"
          "\<not> sectors ?d < mp_start src + mp_sectors src" "mp_sectors src \<noteq> 0" by auto
      then show ?thesis
        by (intro that(2) [OF first_idx_SomeD(1) [OF Some] refl])
          (simp_all add: register_view_def Some pd)
    qed
  qed
  then have "scan_ok (fst (register_view s parent idx src))
      \<and> (\<forall>i<DISK_RAW_MAX. disks (fst (register_view s parent idx src)) ! i = disks s ! i)
      \<and> world (fst (register_view s parent idx src)) = world s"
  proof cases
    case 1
    with ok show ?thesis by simp
  next
    case 2
    have np: "nat parent < 16" using parent by (simp add: disk_consts)
    have other: "view_inside (fst (register_view s parent idx src)) (16 + i)"
      if i: "i < 16" "i \<noteq> slot" "present (disks s ! (16 + i))" for i
    proof -
      have "priv (disks s ! (16 + i)) = Some i" "view_inside s (16 + i)"
          "16 + slot \<noteq> nat (parent_disk (g_parts s ! i))"
        using ok i by (auto simp: scan_ok_def disk_consts)
      with i 2 len show ?thesis by (simp add: view_inside_def Let_def disk_consts)
    qed
    have new: "view_inside (fst (register_view s parent idx src)) (16 + slot)"
      using 2 len np by (simp add: view_inside_def Let_def disk_consts word_gt_0)
    have present_other: "present (disks (fst (register_view s parent idx src)) ! (16 + i)) = present (disks s ! (16 + i))"
      if "i < 16" "i \<noteq> slot" for i using that 2 len by (simp add: disk_consts)
    have "scan_ok (fst (register_view s parent idx src))"
      unfolding scan_ok_def
    proof (intro conjI allI impI)
      fix i assume i: "i < PART_SLOT_MAX" and p: "present (disks (fst (register_view s parent idx src)) ! (PART_SLOT_BASE + i))"
      show "view_inside (fst (register_view s parent idx src)) (PART_SLOT_BASE + i)"
        using new other present_other i p by (cases "i = slot") (auto simp: disk_consts)
      show "priv (disks (fst (register_view s parent idx src)) ! (PART_SLOT_BASE + i)) = Some i"
        "0 \<le> parent_disk (g_parts (fst (register_view s parent idx src)) ! i)"
        "parent_disk (g_parts (fst (register_view s parent idx src)) ! i) < int DISK_RAW_MAX"
        using ok present_other i p 2 len parent by (cases "i = slot"; simp add: scan_ok_def disk_consts)+
    qed (use ok 2 len in \<open>auto simp: scan_ok_def table_ok_def disk_consts\<close>)
    with 2 len show ?thesis by (auto simp: disk_consts)
  qed
  then show "scan_ok (fst (register_view s parent idx src))"
    and "i < DISK_RAW_MAX \<Longrightarrow> disks (fst (register_view s parent idx src)) ! i = disks s ! i"
    and "world (fst (register_view s parent idx src)) = world s" by auto
qed

lemma scan_entries_ok:
  assumes "scan_ok s" and "0 \<le> parent" and "parent < int DISK_RAW_MAX"
  shows "scan_ok (scan_entries parent pt s) \<and> (\<forall>i<DISK_RAW_MAX. disks (scan_entries parent pt s) ! i = disks s ! i)
    \<and> world (scan_entries parent pt s) = world s"
proof -
  let ?f = "\<lambda>i s. if mp_type (pt ! i) = 0 \<or> mp_sectors (pt ! i) = 0 then s
              else fst (register_view s parent i (pt ! i))"
  have "scan_ok (fold ?f L s) \<and> (\<forall>i<DISK_RAW_MAX. disks (fold ?f L s) ! i = disks s ! i)
      \<and> world (fold ?f L s) = world s" for L
    using assms(1)
  proof (induction L arbitrary: s)
    case (Cons i L)
    show ?case
      using Cons.IH [of "?f i s"] Cons.prems register_view_ok [OF Cons.prems assms(2,3), where idx = i and src = "pt ! i"] by auto
  qed simp
  then show ?thesis by (simp add: scan_entries_def)
qed

lemma scan_disk_ok:
  assumes "scan_ok s" and "parent < DISK_RAW_MAX"
  shows "scan_ok (scan_disk parent s) \<and> (\<forall>i<DISK_RAW_MAX. disks (scan_disk parent s) ! i = disks s ! i)
    \<and> world (scan_disk parent s) = world s"
  using assms scan_entries_ok [OF assms(1), of "int parent"]
  by (simp add: scan_disk_def Let_def split: option.splits)

lemma scan_all_ok:
  assumes "table_ok s" and "\<forall>i<DISK_RAW_MAX. \<not> is_view (disks s ! i)"
  shows "scan_ok (mbr_scan_all s)" and "\<forall>i<DISK_RAW_MAX. disks (mbr_scan_all s) ! i = disks s ! i"
    and "world (mbr_scan_all s) = world s"
proof -
  have "scan_ok (fold scan_disk L t) \<and> (\<forall>i<DISK_RAW_MAX. disks (fold scan_disk L t) ! i = disks t ! i)
      \<and> world (fold scan_disk L t) = world t" if "scan_ok t" "\<forall>k\<in>set L. k < DISK_RAW_MAX" for L t
    using that
  proof (induction L arbitrary: t)
    case (Cons k L)
    show ?case
      using Cons.IH [of "scan_disk k t"] Cons.prems scan_disk_ok [of t k] by auto
  qed simp
  from this [OF clear_views_ok [OF assms], of "[0..<DISK_RAW_MAX]"]
  show "scan_ok (mbr_scan_all s)" "\<forall>i<DISK_RAW_MAX. disks (mbr_scan_all s) ! i = disks s ! i"
      "world (mbr_scan_all s) = world s"
    using assms(1) by (auto simp: mbr_scan_all_def clear_views_def table_ok_def disk_consts nth_append)
qed

text \<open>C5: Scanning all disks for partitions leaves every raw slot and the media alone, and every view it
  registers sits on a present raw disk, starts after the partition table and before the disk's
  end, and ends within the disk by the code's 32-bit sum; the two-level call depth of disk_read is
  therefore enough whatever was scanned.\<close>

theorem mbr_scan_all_views:
  assumes "table_ok s" and "\<forall>i<DISK_RAW_MAX. \<not> is_view (disks s ! i)"
  shows "views_ok (mbr_scan_all s) \<and> world (mbr_scan_all s) = world s
    \<and> (\<forall>i<DISK_RAW_MAX. disks (mbr_scan_all s) ! i = disks s ! i)
    \<and> (\<forall>i. PART_SLOT_BASE \<le> i \<and> i < DISK_MAX \<and> present (disks (mbr_scan_all s) ! i) \<longrightarrow> view_inside (mbr_scan_all s) i)"
proof -
  have "view_inside (mbr_scan_all s) i"
    if "PART_SLOT_BASE \<le> i" "i < DISK_MAX" "present (disks (mbr_scan_all s) ! i)" for i
    using that scan_all_ok(1) [OF assms] le_Suc_ex [OF that(1)] by (auto simp: scan_ok_def disk_consts)
  with scan_all_ok [OF assms] scan_ok_views show ?thesis by blast
qed

definition scan_disk0 :: "bytes list dstate" where
  "scan_disk0 = (let s = ram_state (put_table (replicate 512 0) [sample_part, empty_part, empty_part, empty_part]
       # replicate 7 (replicate 512 0))
     in s\<lparr>disks := (disks s)[0 := (disks s ! 0)\<lparr>sectors := 4096\<rparr>]\<rparr>)"

lemma mbr_scan_all_views_witness: "views_ok (mbr_scan_all scan_disk0)"
  by (rule conjunct1 [OF mbr_scan_all_views])
    (auto simp: scan_disk0_def ram_state_def table_ok_def disk_consts is_view_def nth_Cons' zero_disk_def)

text \<open>C29: A partition view on a driver that obeys the block contract is a device of its own: reads inside
  the span give the sectors of the span, writes replace exactly the addressed ones, succeed, and
  change no sector of the disk outside the partition.\<close>

theorem partition_isolated:
  assumes drv: "block_volume f g okw N secw"
    and span: "unat off + unat len \<le> N" "unat off + unat len < 2 ^ 32"
    and ok: "view_slot v did off len s" "raw_slot did f g s" "okw (world s)"
    and r: "unat l + unat c \<le> unat len" and bs: "length bs = 512 * unat c"
    and w: "disk_write s v l c bs = (s', r')"
  shows "r' \<and> disk_read s' v l c = Some bs
    \<and> (\<forall>n<N. secw (world s') n =
         (if unat off + unat l \<le> n \<and> n < unat off + unat l + unat c
          then window ((n - (unat off + unat l)) * 512) 512 bs else secw (world s) n))"
proof -
  have pd: "part_disk f g okw N secw off len"
    using drv span by (simp add: part_disk_def part_disk_axioms_def)
  have "part_disk.view_ok f g okw did v off len s"
    using ok by (simp add: part_disk.view_ok_def [OF pd])
  from part_disk.view_io [OF pd this r bs w] show ?thesis .
qed

definition view_state :: "bytes list dstate" where
  "view_state = fst (register_view (ram_state (replicate 8 (replicate 512 0))) 0 0 sample_part)"

lemma partition_isolated_witness:
  "\<exists>s'. disk_write view_state 16 1 1 (replicate 512 7) = (s', True)
     \<and> disk_read s' 16 1 1 = Some (replicate 512 7)
     \<and> world s' ! 5 = replicate 512 7 \<and> world s' ! 4 = replicate 512 0"
proof -
  let ?w = "replicate 8 (replicate 512 (0 :: u8))"
  have "first_idx (\<lambda>i. \<not> present (disks (ram_state ?w) ! (PART_SLOT_BASE + i))) PART_SLOT_MAX = Some 0"
    by (simp add: first_idx_Some ram_state_def disk_consts zero_disk_def)
  then have v: "view_slot 16 0 4 3 view_state" "raw_slot 0 ram_read ram_write view_state" "world view_state = ?w"
    by (simp_all add: view_state_def register_view_def disk_get_def ram_state_def sample_part_def disk_consts
        view_slot_def raw_slot_def)
  obtain s' r where w: "disk_write view_state 16 1 1 (replicate 512 7) = (s', r)"
    by (cases "disk_write view_state 16 1 1 (replicate 512 7)")
  have "r \<and> disk_read s' 16 1 1 = Some (replicate 512 7)
    \<and> (\<forall>n<8. world s' ! n = (if 5 \<le> n \<and> n < 6 then window ((n - 5) * 512) 512 (replicate 512 7) else ?w ! n))"
    using partition_isolated [OF ram.block_volume_axioms [of 8] _ _ v(1,2) _ _ _ w] v(3)
    by (simp add: ram_ok_def)
  with w show ?thesis by (auto simp: window_def)
qed

text \<open>The bounds test of a partition view is a 32-bit sum, and it wraps: the access to the last
  32-bit sector number passes it, and reaches the sector before the partition.\<close>

theorem part_access_wraps:
  "part_read rd p 0xFFFFFFFF 1 = rd (parent_disk p) (offset_lba p - 1) 1
   \<and> part_write wr s p 0xFFFFFFFF 1 buf = wr (parent_disk p) (offset_lba p - 1) 1 buf"
proof -
  have m: "(0xFFFFFFFF :: u32) = - 1" by simp
  show ?thesis unfolding part_read_def part_write_def m by simp
qed

text \<open>C37: On a disk of at least 2048 sectors with a partition table whose used entries end on the disk without
  wrapping, mbr_largest_free finds a span past the first 2048 sectors, inside the disk, that no used entry meets and
  that is as long as any free span. It returns 0 exactly when there is such a span; mbr.h says the opposite.\<close>

theorem mbr_largest_free_best:
  assumes "disk_get s did = Some d" and "present d" and "mbr_read s did = Some pt"
    and used: "\<forall>p \<in> set pt. mp_type p \<noteq> 0 \<and> mp_sectors p \<noteq> 0 \<longrightarrow>
      unat (mp_start p) + unat (mp_sectors p) \<le> unat (sectors d)" and "2048 \<le> unat (sectors d)"
    and "mbr_largest_free s did = (bs, bc, r)"
  shows "unat bs + unat bc \<le> unat (sectors d) \<and> (r = 0 \<longleftrightarrow> 0 < bc) \<and> (0 < bc \<longrightarrow> 2048 \<le> bs)
    \<and> (\<forall>p \<in> set pt. mp_type p \<noteq> 0 \<longrightarrow> mp_sectors p \<noteq> 0 \<longrightarrow>
         unat (mp_start p) + unat (mp_sectors p) \<le> unat bs \<or> unat bs + unat bc \<le> unat (mp_start p))
    \<and> (\<forall>a b. 2048 \<le> a \<longrightarrow> a < b \<longrightarrow> b \<le> unat (sectors d) \<longrightarrow>
         (\<forall>p \<in> set pt. mp_type p \<noteq> 0 \<longrightarrow> mp_sectors p \<noteq> 0 \<longrightarrow>
            unat (mp_start p) + unat (mp_sectors p) \<le> a \<or> b \<le> unat (mp_start p)) \<longrightarrow>
         b - a \<le> unat bc)"
proof -
  let ?L = "sort_spans (used_spans pt)"
  let ?U = "{p \<in> set pt. mp_type p \<noteq> 0 \<and> mp_sectors p \<noteq> 0}"
  have gap: "largest_gap (sectors d) ?L = (bs, bc)" and r: "r = (if 0 < bc then 0 else -1)"
    using assms by (auto simp: mbr_largest_free_def split: prod.splits)
  have sum: "unat (mp_start p + mp_sectors p) = unat (mp_start p) + unat (mp_sectors p)" if "p \<in> ?U" for p
    using that used unat_u32 [of "sectors d"] by (fastforce simp: unat_word_ariths)
  have L: "set ?L = insert (0, 2048) ((\<lambda>p. (mp_start p, mp_start p + mp_sectors p)) ` ?U)"
    using sort_spans_spec [of "used_spans pt"] by (auto simp: used_spans_def)
  have ne: "\<forall>(st, en) \<in> set ?L. st < en"
    unfolding L using sum by (auto simp: word_less_nat_alt unat_gt_0)
  have fr: "free_range (set ?L) a b \<longleftrightarrow> (2048 \<le> a \<or> b = 0) \<and> (\<forall>p \<in> set pt. mp_type p \<noteq> 0 \<longrightarrow> mp_sectors p \<noteq> 0 \<longrightarrow>
      unat (mp_start p) + unat (mp_sectors p) \<le> a \<or> b \<le> unat (mp_start p))" for a b
    unfolding L free_range_def using sum by auto
  note sp = largest_gap_spec [OF sort_spans_spec [of "used_spans pt", THEN conjunct1] ne gap]
  have bnd: "\<forall>(st, en) \<in> set ?L. unat st \<le> unat (sectors d)"
    unfolding L using used by auto
  show ?thesis
    using sp(1) [unfolded fr] sp(2) [unfolded fr] largest_gap_bound [OF bnd gap] r
    by (auto simp: word_le_nat_alt word_less_nat_alt)
qed

lemma mbr_largest_free_best_witness:
  "\<exists>bs bc. mbr_largest_free scan_disk0 0 = (bs, bc, 0) \<and> unat bc = 2048 \<and> unat bs = 2048"
proof -
  let ?ps = "[sample_part, empty_part, empty_part, empty_part]"
  have "disk_read scan_disk0 0 0 1 = Some (put_table (replicate 512 0) ?ps)"
    by (simp add: scan_disk0_def ram_state_def disk_read_def DISK_DEPTH_def disk_get_def disk_consts ram_read_def Let_def)
  then have rd: "mbr_read scan_disk0 0 = Some (map norm_part ?ps)"
    by (simp add: mbr_read_def mbr_parse_put_table plausible_def sample_part_def)
  have d: "disk_get scan_disk0 0 = Some (disks scan_disk0 ! 0)" "present (disks scan_disk0 ! 0)"
      "sectors (disks scan_disk0 ! 0) = 4096"
    by (simp_all add: scan_disk0_def ram_state_def disk_get_def disk_consts Let_def)
  obtain bs bc r where f: "mbr_largest_free scan_disk0 0 = (bs, bc, r)"
    by (cases "mbr_largest_free scan_disk0 0") auto
  from mbr_largest_free_best [OF d(1,2) rd _ _ f] d(3)
  have *: "unat bs + unat bc \<le> 4096" "r = 0 \<longleftrightarrow> 0 < bc" "0 < bc \<longrightarrow> 2048 \<le> bs"
      "\<And>a b. 2048 \<le> a \<Longrightarrow> a < b \<Longrightarrow> b \<le> 4096 \<Longrightarrow> b - a \<le> unat bc"
    by (auto simp: norm_part_def sample_part_def empty_part_def)
  from *(4) [of 2048 4096] have "2048 \<le> unat bc" by simp
  with *(1-3) f show ?thesis by (auto simp: word_le_nat_alt word_less_nat_alt)
qed

end
