(* ===== verification/FatVol.thy ===== *)
theory FatVol
  imports Mbr LibC
begin

text \<open>
  The volume layer of kernel/fs/fat.c: the volume record, the FAT with its caches, cluster
  allocation, and the transfer of clusters, the FAT and the fixed root directory. Every operation
  works on a volume and the block devices together. A loop that need not end on an arbitrary
  device is a partial function: None means that it does not return.
\<close>

definition SECTOR_SIZE :: nat where "SECTOR_SIZE = 512"
definition FAT12_BUF :: nat where "FAT12_BUF = 16 * SECTOR_SIZE"
definition ROOT_BUF_MAX :: nat where "ROOT_BUF_MAX = 32 * SECTOR_SIZE"
definition FAT_CACHE_NONE :: u32 where "FAT_CACHE_NONE = 0xFFFFFFFF"
definition FS_PATH_MAX :: nat where "FS_PATH_MAX = 128"
definition FS_DRIVE_MAX :: nat where "FS_DRIVE_MAX = 4"

lemmas fat_consts = SECTOR_SIZE_def FAT12_BUF_def ROOT_BUF_MAX_def FAT_CACHE_NONE_def
  FS_PATH_MAX_def FS_DRIVE_MAX_def

datatype fat_kind = FAT_NONE | FAT_12 | FAT_16 | FAT_32

record fat_volume =
  disk_id :: int
  kind :: fat_kind
  bytes_per_sec :: u16
  sec_per_cluster :: u8
  reserved_sectors :: u16
  num_fats :: u8
  root_entries :: u16
  fat_sectors :: u32
  total_sectors :: u32
  fat_lba :: u32
  root_lba :: u32
  data_lba :: u32
  root_dir_cluster :: u32
  fat :: bytes
  fat_dirty :: bool
  fat_cbuf :: bytes
  fat_csec :: u32
  fat_cdirty :: bool
  root :: bytes
  root_dirty :: bool
  cwd_is_root :: bool
  cwd_cluster :: u32
  cwd_path :: bytes

type_synonym 'w vstate = "fat_volume \<times> 'w dstate"

text \<open>What memset leaves of a volume.\<close>

definition zero_volume :: fat_volume where
  "zero_volume = \<lparr>disk_id = 0, kind = FAT_NONE, bytes_per_sec = 0, sec_per_cluster = 0,
     reserved_sectors = 0, num_fats = 0, root_entries = 0, fat_sectors = 0, total_sectors = 0,
     fat_lba = 0, root_lba = 0, data_lba = 0, root_dir_cluster = 0,
     fat = replicate FAT12_BUF 0, fat_dirty = False, fat_cbuf = replicate SECTOR_SIZE 0, fat_csec = 0,
     fat_cdirty = False, root = replicate ROOT_BUF_MAX 0, root_dirty = False, cwd_is_root = False,
     cwd_cluster = 0, cwd_path = replicate FS_PATH_MAX 0\<rparr>"

subsection \<open>The single-sector cache of FAT16 and FAT32\<close>

definition fat_cache_flush :: "'w vstate \<Rightarrow> 'w vstate \<times> bool" where
  "fat_cache_flush vs =
     (case vs of (v, s) \<Rightarrow>
        if \<not> fat_cdirty v \<or> fat_csec v = FAT_CACHE_NONE then (vs, True)
        else case disk_write s (disk_id v) (fat_lba v + fat_csec v) 1 (fat_cbuf v) of
               (s1, ok) \<Rightarrow>
                 if \<not> ok then ((v, s1), False)
                 else case disk_write s1 (disk_id v) (fat_lba v + fat_sectors v + fat_csec v) 1 (fat_cbuf v) of
                        (s2, _) \<Rightarrow> ((v\<lparr>fat_cdirty := False\<rparr>, s2), True))"

definition fat_cache_load :: "'w vstate \<Rightarrow> u32 \<Rightarrow> 'w vstate \<times> bool" where
  "fat_cache_load vs sec =
     (if fat_csec (fst vs) = sec then (vs, True)
      else case fat_cache_flush vs of
             (vs1, False) \<Rightarrow> (vs1, False)
           | ((v, s), True) \<Rightarrow>
               (case disk_read s (disk_id v) (fat_lba v + sec) 1 of
                  None \<Rightarrow> ((v\<lparr>fat_csec := FAT_CACHE_NONE\<rparr>, s), False)
                | Some bs \<Rightarrow> ((v\<lparr>fat_cbuf := blit (fat_cbuf v) 0 bs, fat_csec := sec\<rparr>, s), True)))"

subsection \<open>FAT entries\<close>

definition fat12_off :: "u32 \<Rightarrow> nat" where
  "fat12_off cluster = unat (cluster + cluster div 2)"

definition fat12_get :: "bytes \<Rightarrow> u32 \<Rightarrow> u32" where
  "fat12_get ft cluster =
     (let val = of_le16 ft (fat12_off cluster)
      in if cluster AND 1 \<noteq> 0 then ucast (drop_bit 4 val) else ucast (val AND 0x0FFF))"

definition fat12_set :: "bytes \<Rightarrow> u32 \<Rightarrow> u32 \<Rightarrow> bytes" where
  "fat12_set ft cluster val =
     (let cur = of_le16 ft (fat12_off cluster);
          new = (if cluster AND 1 \<noteq> 0 then (cur AND 0x000F) OR ucast (push_bit 4 (val AND 0x0FFF))
                 else (cur AND 0xF000) OR ucast (val AND 0x0FFF))
      in blit ft (fat12_off cluster) (le16 new))"

definition fat_get :: "'w vstate \<Rightarrow> u32 \<Rightarrow> 'w vstate \<times> u32" where
  "fat_get vs cluster =
     (case kind (fst vs) of
        FAT_12 \<Rightarrow> (vs, fat12_get (fat (fst vs)) cluster)
      | FAT_16 \<Rightarrow>
          (case fat_cache_load vs ((cluster * 2) div 512) of
             (vs1, False) \<Rightarrow> (vs1, 0xFFFF)
           | (vs1, True) \<Rightarrow> (vs1, ucast (of_le16 (fat_cbuf (fst vs1)) (unat ((cluster * 2) mod 512)))))
      | _ \<Rightarrow>
          (case fat_cache_load vs ((cluster * 4) div 512) of
             (vs1, False) \<Rightarrow> (vs1, 0x0FFFFFFF)
           | (vs1, True) \<Rightarrow> (vs1, of_le32 (fat_cbuf (fst vs1)) (unat ((cluster * 4) mod 512)) AND 0x0FFFFFFF)))"

definition fat_set :: "'w vstate \<Rightarrow> u32 \<Rightarrow> u32 \<Rightarrow> 'w vstate" where
  "fat_set vs cluster val =
     (case kind (fst vs) of
        FAT_12 \<Rightarrow> (case vs of (v, s) \<Rightarrow> (v\<lparr>fat := fat12_set (fat v) cluster val, fat_dirty := True\<rparr>, s))
      | FAT_16 \<Rightarrow>
          (case fat_cache_load vs ((cluster * 2) div 512) of
             (vs1, False) \<Rightarrow> vs1
           | ((v, s), True) \<Rightarrow>
               (v\<lparr>fat_cbuf := blit (fat_cbuf v) (unat ((cluster * 2) mod 512)) (le16 (ucast val)),
                  fat_cdirty := True\<rparr>, s))
      | _ \<Rightarrow>
          (case fat_cache_load vs ((cluster * 4) div 512) of
             (vs1, False) \<Rightarrow> vs1
           | ((v, s), True) \<Rightarrow>
               (let off = unat ((cluster * 4) mod 512);
                    cur = (of_le32 (fat_cbuf v) off AND 0xF0000000) OR (val AND 0x0FFFFFFF)
                in (v\<lparr>fat_cbuf := blit (fat_cbuf v) off (le32 cur), fat_cdirty := True\<rparr>, s))))"

definition fat_eof :: "fat_volume \<Rightarrow> u32" where
  "fat_eof v = (case kind v of FAT_16 \<Rightarrow> 0xFFF8 | FAT_32 \<Rightarrow> 0x0FFFFFF8 | _ \<Rightarrow> 0xFF8)"

definition max_cluster :: "fat_volume \<Rightarrow> u32" where
  "max_cluster v =
     (let cluster_bytes = (case kind v of FAT_32 \<Rightarrow> 4 | FAT_16 \<Rightarrow> 2 | _ \<Rightarrow> 0)
      in if cluster_bytes \<noteq> 0 then fat_sectors v * 512 div cluster_bytes
         else fat_sectors v * 512 * 2 div 3)"

text \<open>The scan of alloc_cluster over the clusters left to try.\<close>

primrec alloc_from :: "nat \<Rightarrow> u32 \<Rightarrow> 'w vstate \<Rightarrow> 'w vstate \<times> u32" where
  "alloc_from 0 c vs = (vs, 0)"
| "alloc_from (Suc k) c vs =
     (case fat_get vs c of (vs1, x) \<Rightarrow>
        if x = 0 then (fat_set vs1 c (fat_eof (fst vs1)), c) else alloc_from k (c + 1) vs1)"

definition alloc_cluster :: "'w vstate \<Rightarrow> 'w vstate \<times> u32" where
  "alloc_cluster vs = alloc_from (unat (max_cluster (fst vs)) - 2) 2 vs"

partial_function (option) free_chain :: "'w vstate \<Rightarrow> u32 \<Rightarrow> 'w vstate option" where
  "free_chain vs c =
     (if 2 \<le> c \<and> c < fat_eof (fst vs)
      then (case fat_get vs c of (vs1, nx) \<Rightarrow> free_chain (fat_set vs1 c 0) nx)
      else Some vs)"

subsection \<open>On-disk I/O\<close>

definition cluster_to_lba :: "fat_volume \<Rightarrow> u32 \<Rightarrow> u32" where
  "cluster_to_lba v c = data_lba v + (c - 2) * ucast (sec_per_cluster v)"

definition read_cluster :: "'w vstate \<Rightarrow> u32 \<Rightarrow> bytes option" where
  "read_cluster vs c =
     (case vs of (v, s) \<Rightarrow> disk_read s (disk_id v) (cluster_to_lba v c) (ucast (sec_per_cluster v)))"

text \<open>The bytes a cluster has; the code's cluster buffers hold 16 sectors.\<close>

definition cluster_bytes :: "fat_volume \<Rightarrow> nat" where
  "cluster_bytes v = unat (sec_per_cluster v) * SECTOR_SIZE"

definition write_cluster :: "'w vstate \<Rightarrow> u32 \<Rightarrow> bytes \<Rightarrow> 'w vstate \<times> bool" where
  "write_cluster vs c buf =
     (case vs of (v, s) \<Rightarrow>
        case disk_write s (disk_id v) (cluster_to_lba v c) (ucast (sec_per_cluster v)) (take (cluster_bytes v) buf) of
          (s1, ok) \<Rightarrow> ((v, s1), ok))"

definition flush_fat :: "'w vstate \<Rightarrow> 'w vstate \<times> bool" where
  "flush_fat vs =
     (case vs of (v, s) \<Rightarrow>
        if kind v = FAT_12 then
          (if \<not> fat_dirty v then (vs, True)
           else let bs = take (unat (fat_sectors v) * SECTOR_SIZE) (fat v)
                in case disk_write s (disk_id v) (fat_lba v) (fat_sectors v) bs of
                     (s1, ok) \<Rightarrow>
                       if \<not> ok then ((v, s1), False)
                       else case disk_write s1 (disk_id v) (fat_lba v + fat_sectors v) (fat_sectors v) bs of
                              (s2, _) \<Rightarrow> ((v\<lparr>fat_dirty := False\<rparr>, s2), True))
        else fat_cache_flush vs)"

definition root_size_sec :: "fat_volume \<Rightarrow> u16" where
  "root_size_sec v = of_nat ((unat (root_entries v) * 32 + SECTOR_SIZE - 1) div SECTOR_SIZE)"

definition root_bytes :: "fat_volume \<Rightarrow> nat" where
  "root_bytes v = unat (root_size_sec v) * SECTOR_SIZE"

definition flush_root :: "'w vstate \<Rightarrow> 'w vstate \<times> bool" where
  "flush_root vs =
     (case vs of (v, s) \<Rightarrow>
        if \<not> root_dirty v then (vs, True)
        else case disk_write s (disk_id v) (root_lba v) (ucast (root_size_sec v)) (take (root_bytes v) (root v)) of
               (s1, ok) \<Rightarrow> if \<not> ok then ((v, s1), False) else ((v\<lparr>root_dirty := False\<rparr>, s1), True))"

end
