(* ===== verification/FatTable.thy ===== *)
theory FatTable
  imports FatVol
begin

text \<open>
  The allocation table of kernel/fs/fat.c as one abstract table, whatever the FAT type. Lemmas on
  the bits of a FAT12 image give its get and set laws; the sector cache of FAT16 and FAT32 is
  shown to be coherent over a block device. The locale fat_access states what cluster allocation
  relies on; alloc_cluster, free_chain and the chain walk are verified once inside it.
\<close>

subsection \<open>The bits of a byte image\<close>

definition ibit :: "bytes \<Rightarrow> nat \<Rightarrow> bool" where
  "ibit b m = bit (b ! (m div 8)) (m mod 8)"

lemma bit_of_le16: "bit (of_le16 b p) j \<longleftrightarrow> j < 16 \<and> ibit b (8 * p + j)"
proof -
  consider "j < 8" | "8 \<le> j" "j < 16" | "16 \<le> j" by linarith
  then show ?thesis
  proof cases
    case 1
    then have "(8 * p + j) div 8 = p" "(8 * p + j) mod 8 = j" by simp_all
    then show ?thesis using 1 by (simp add: of_le16_def ibit_def bit_simps)
  next
    case 2
    then obtain i where i: "j = 8 + i" "i < 8" using le_Suc_ex by fastforce
    then have "(8 * p + j) div 8 = Suc p" "(8 * p + j) mod 8 = i" by simp_all
    then show ?thesis using i by (auto simp: of_le16_def ibit_def bit_simps dest: bit_imp_le_length)
  next
    case 3
    then show ?thesis by (auto dest: bit_imp_le_length)
  qed
qed

lemma ibit_blit_le16:
  assumes "p + 2 \<le> length b" and "m < 8 * length b"
  shows "ibit (blit b p (le16 w)) m \<longleftrightarrow> (if 8 * p \<le> m \<and> m < 8 * p + 16 then bit w (m - 8 * p) else ibit b m)"
proof (cases "8 * p \<le> m \<and> m < 8 * p + 16")
  case True
  then obtain j where j: "m = 8 * p + j" "j < 16" using le_Suc_ex by fastforce
  have "bit (of_le16 (blit b p (le16 w)) p) j = ibit (blit b p (le16 w)) (8 * p + j)"
    using j by (simp add: bit_of_le16)
  then show ?thesis using j assms by (simp del: of_le16_def)
next
  case False
  have "m div 8 < length b" using assms(2) by (simp add: less_mult_imp_div_less mult.commute)
  moreover have "m div 8 < p \<or> p + 2 \<le> m div 8" using False by auto
  ultimately show ?thesis using False by (auto simp: ibit_def nth_blit)
qed

subsection \<open>FAT12: twelve bits an entry\<close>

lemma fat12_off_eq: "unat c < 2147483648 \<Longrightarrow> fat12_off c = unat c + unat c div 2"
proof -
  assume "unat c < 2147483648"
  then have "unat (c + c div 2) = unat c + unat (c div 2)"
    by (simp add: unat_word_ariths unat_div)
  then show ?thesis by (simp add: fat12_off_def unat_div)
qed

lemma and1_odd: "(c :: u32) AND 1 \<noteq> 0 \<longleftrightarrow> odd (unat c)"
proof -
  have "unat (c AND 1) = unat c mod 2" using unat_and_mask [of c 1] by (simp add: mask_eq_exp_minus_1)
  then show ?thesis by (metis even_iff_mod_2_eq_zero unat_eq_0)
qed

lemma fat12_bit0: "unat c < 2147483648 \<Longrightarrow> 8 * fat12_off c + (if odd (unat c) then 4 else 0) = 12 * unat c"
  by (auto simp: fat12_off_eq elim!: evenE oddE)

lemma bit_fat12_get:
  assumes "unat c < 2147483648"
  shows "bit (fat12_get ft c) j \<longleftrightarrow> j < 12 \<and> ibit ft (12 * unat c + j)"
proof -
  have m: "(0x0FFF :: u16) = mask 12" by (simp add: mask_eq_exp_minus_1)
  show ?thesis
  proof (cases "odd (unat c)")
    case True
    have "12 * unat c + j = 8 * fat12_off c + (4 + j)" using fat12_bit0 [OF assms] True by simp
    then show ?thesis using True
      by (auto simp: fat12_get_def Let_def and1_odd bit_simps bit_of_le16 add.assoc simp del: of_le16_def)
  next
    case False
    have e: "12 * unat c + j = 8 * fat12_off c + j" using fat12_bit0 [OF assms] False by simp
    show ?thesis using False
      by (auto simp: e fat12_get_def Let_def and1_odd m bit_simps bit_of_le16 simp del: of_le16_def)
  qed
qed

lemma ibit_fat12_set:
  assumes c: "unat c < 2147483648" and len: "fat12_off c + 2 \<le> length ft" and m: "m < 8 * length ft"
  shows "ibit (fat12_set ft c x) m \<longleftrightarrow>
    (if 12 * unat c \<le> m \<and> m < 12 * unat c + 12 then bit x (m - 12 * unat c) else ibit ft m)"
proof -
  have k: "(0x0FFF :: u32) = mask 12" "(0x000F :: u16) = mask 4" "(0xF000 :: u16) = push_bit 12 (mask 4)"
    by (simp_all add: mask_eq_exp_minus_1)
  let ?p = "fat12_off c"
  show ?thesis
  proof (cases "odd (unat c)")
    case True
    have e: "12 * unat c = 8 * ?p + 4" using fat12_bit0 [OF c] True by simp
    show ?thesis
      unfolding fat12_set_def Let_def ibit_blit_le16 [OF len m] e k
      using True by (auto simp: and1_odd bit_simps bit_of_le16 not_less simp del: of_le16_def)
  next
    case False
    have e: "12 * unat c = 8 * ?p" using fat12_bit0 [OF c] False by simp
    show ?thesis
      unfolding fat12_set_def Let_def ibit_blit_le16 [OF len m] e k
      using False by (auto simp: and1_odd bit_simps bit_of_le16 not_less simp del: of_le16_def)
  qed
qed

text \<open>Reading after writing: the written entry cut to twelve bits, every other entry as before.\<close>

lemma fat12_get_set:
  assumes "unat c < 2147483648" and "unat d < 2147483648"
    and "fat12_off c + 2 \<le> length ft" and "12 * unat d + 12 \<le> 8 * length ft"
  shows "fat12_get (fat12_set ft c x) d = (if c = d then x AND 0xFFF else fat12_get ft d)"
proof (rule bit_word_eqI)
  have m: "(0xFFF :: u32) = mask 12" by (simp add: mask_eq_exp_minus_1)
  fix j assume "j < LENGTH(32)"
  have "ibit (fat12_set ft c x) (12 * unat d + j) =
      (if 12 * unat c \<le> 12 * unat d + j \<and> 12 * unat d + j < 12 * unat c + 12
       then bit x (12 * unat d + j - 12 * unat c) else ibit ft (12 * unat d + j))" if "j < 12"
    using that assms(4) by (intro ibit_fat12_set [OF assms(1,3)]) simp
  moreover have "12 * unat c \<le> 12 * unat d + j \<and> 12 * unat d + j < 12 * unat c + 12 \<longleftrightarrow> c = d" if "j < 12"
    using that by (auto simp: word_unat_eq_iff)
  ultimately show "bit (fat12_get (fat12_set ft c x) d) j = bit (if c = d then x AND 0xFFF else fat12_get ft d) j"
    by (auto simp: bit_fat12_get assms(2) m bit_simps)
qed

lemma length_fat12_set [simp]: "length (fat12_set ft c x) = length ft"
  by (simp add: fat12_set_def Let_def)

subsection \<open>The interface of the table\<close>

text \<open>The fields of a volume that reading and changing the table leaves alone.\<close>

definition geometry :: "fat_volume \<Rightarrow> fat_volume" where
  "geometry v = v\<lparr>fat := [], fat_dirty := False, fat_cbuf := [], fat_csec := 0, fat_cdirty := False\<rparr>"

lemma geometry_fields:
  assumes "geometry v' = geometry v"
  shows "kind v' = kind v" "fat_eof v' = fat_eof v" "max_cluster v' = max_cluster v" "disk_id v' = disk_id v"
    "sec_per_cluster v' = sec_per_cluster v" "fat_sectors v' = fat_sectors v" "fat_lba v' = fat_lba v"
    "data_lba v' = data_lba v" "root v' = root v" "root_lba v' = root_lba v" "root_dirty v' = root_dirty v"
    "root_entries v' = root_entries v"
proof -
  have "kind v' = kind v \<and> disk_id v' = disk_id v \<and> sec_per_cluster v' = sec_per_cluster v
      \<and> fat_sectors v' = fat_sectors v \<and> fat_lba v' = fat_lba v \<and> data_lba v' = data_lba v \<and> root v' = root v
      \<and> root_lba v' = root_lba v \<and> root_dirty v' = root_dirty v \<and> root_entries v' = root_entries v"
    using assms unfolding geometry_def by (cases v; cases v') simp
  then show "kind v' = kind v" "fat_eof v' = fat_eof v" "max_cluster v' = max_cluster v" "disk_id v' = disk_id v"
    "sec_per_cluster v' = sec_per_cluster v" "fat_sectors v' = fat_sectors v" "fat_lba v' = fat_lba v"
    "data_lba v' = data_lba v" "root v' = root v" "root_lba v' = root_lba v" "root_dirty v' = root_dirty v"
    "root_entries v' = root_entries v"
    by (simp_all add: fat_eof_def max_cluster_def Let_def)
qed

text \<open>One step of a chain, and the clusters reached from one.\<close>

definition link :: "(nat \<Rightarrow> u32) \<Rightarrow> u32 \<Rightarrow> u32 \<Rightarrow> u32 \<Rightarrow> bool" where
  "link t eof c d \<longleftrightarrow> 2 \<le> c \<and> c < eof \<and> d = t (unat c) \<and> 2 \<le> d \<and> d < eof"

definition chain :: "(nat \<Rightarrow> u32) \<Rightarrow> u32 \<Rightarrow> u32 \<Rightarrow> u32 set" where
  "chain t eof c = (if 2 \<le> c \<and> c < eof then {d. (link t eof)\<^sup>*\<^sup>* c d} else {})"

text \<open>ok: the states in which the table can be trusted. tbl: its abstract contents. n: how many
  entries it has. rest: what lies outside the table.\<close>

locale fat_access =
  fixes ok :: "'w vstate \<Rightarrow> bool"
    and tbl :: "'w vstate \<Rightarrow> nat \<Rightarrow> u32"
    and n :: nat
    and trunc :: "u32 \<Rightarrow> u32"
    and rest :: "'w vstate \<Rightarrow> 'r"
  assumes get: "ok vs \<Longrightarrow> unat c < n \<Longrightarrow> fat_get vs c = (vs', x) \<Longrightarrow>
      x = tbl vs (unat c) \<and> ok vs' \<and> tbl vs' = tbl vs \<and> rest vs' = rest vs \<and> geometry (fst vs') = geometry (fst vs)"
    and set: "ok vs \<Longrightarrow> unat c < n \<Longrightarrow> fat_set vs c x = vs' \<Longrightarrow>
      ok vs' \<and> (\<forall>k<n. tbl vs' k = (if k = unat c then trunc x else tbl vs k)) \<and> rest vs' = rest vs
      \<and> geometry (fst vs') = geometry (fst vs)"
    and trunc_0: "trunc 0 = 0"
    and trunc_eof: "ok vs \<Longrightarrow> trunc (fat_eof (fst vs)) = fat_eof (fst vs)"
    and max_n: "ok vs \<Longrightarrow> unat (max_cluster (fst vs)) \<le> n"
begin

text \<open>The state after some table operations that only touch the table.\<close>

definition same :: "'w vstate \<Rightarrow> 'w vstate \<Rightarrow> bool" where
  "same vs vs' \<longleftrightarrow> ok vs' \<and> rest vs' = rest vs \<and> geometry (fst vs') = geometry (fst vs)"

lemma same_refl: "ok vs \<Longrightarrow> same vs vs"
  by (simp add: same_def)

lemma same_trans: "same a b \<Longrightarrow> same b c \<Longrightarrow> same a c"
  by (simp add: same_def)

lemma same_ok: "same a b \<Longrightarrow> ok b"
  by (simp add: same_def)

lemma get_same: "ok vs \<Longrightarrow> unat c < n \<Longrightarrow> fat_get vs c = (vs', x) \<Longrightarrow>
    same vs vs' \<and> tbl vs' = tbl vs \<and> x = tbl vs (unat c)"
  using get [of vs c vs' x] by (simp add: same_def)

lemma set_same: "ok vs \<Longrightarrow> unat c < n \<Longrightarrow> same vs (fat_set vs c x)
    \<and> (\<forall>k<n. tbl (fat_set vs c x) k = (if k = unat c then trunc x else tbl vs k))"
  using set [of vs c x "fat_set vs c x"] by (simp add: same_def)

lemma alloc_from_spec:
  assumes "ok vs" and "unat c + k \<le> n" and "n \<le> 2 ^ 32" and "2 \<le> unat c" and "alloc_from k c vs = (vs', r)"
  shows "same vs vs' \<and>
    (if \<exists>j. unat c \<le> j \<and> j < unat c + k \<and> tbl vs j = 0
     then unat c \<le> unat r \<and> unat r < unat c + k \<and> tbl vs (unat r) = 0 \<and> (\<forall>j. unat c \<le> j \<longrightarrow> j < unat r \<longrightarrow> tbl vs j \<noteq> 0)
       \<and> (\<forall>j<n. tbl vs' j = (if j = unat r then fat_eof (fst vs) else tbl vs j))
     else r = 0 \<and> tbl vs' = tbl vs)"
  using assms
proof (induction k arbitrary: c vs)
  case 0
  then show ?case by (simp add: same_refl)
next
  case (Suc k)
  obtain vs1 x where g: "fat_get vs c = (vs1, x)" by (cases "fat_get vs c")
  have cn: "unat c < n" using Suc.prems(2) by simp
  have g1: "same vs vs1" "tbl vs1 = tbl vs" "x = tbl vs (unat c)" using get_same [OF Suc.prems(1) cn g] by auto
  show ?case
  proof (cases "x = 0")
    case True
    with Suc.prems(5) g have r: "r = c" "vs' = fat_set vs1 c (fat_eof (fst vs1))" by auto
    have e: "fat_eof (fst vs1) = fat_eof (fst vs)" using g1(1) by (intro geometry_fields(2)) (simp add: same_def)
    have s: "same vs1 vs'" "\<forall>j<n. tbl vs' j = (if j = unat c then fat_eof (fst vs) else tbl vs j)"
      using set_same [OF same_ok [OF g1(1)] cn, of "fat_eof (fst vs1)"] trunc_eof [OF same_ok [OF g1(1)]]
      by (simp_all add: r g1(2) e)
    have ex: "\<exists>j. unat c \<le> j \<and> j < unat c + Suc k \<and> tbl vs j = 0"
      using True g1(3) by (intro exI [of _ "unat c"]) simp
    show ?thesis
      unfolding if_P [OF ex] using True g1 s same_trans by (auto simp: r)
  next
    case False
    with Suc.prems(5) g have rec: "alloc_from k (c + 1) vs1 = (vs', r)" by simp
    show ?thesis
    proof (cases "k = 0")
      case True
      with rec False g1 show ?thesis by (auto simp: le_less_Suc_eq)
    next
      case kpos: False
      then have "unat c + 1 < 2 ^ 32" using Suc.prems(2,3) by linarith
      then have c1: "unat (c + 1) = unat c + 1" by (simp add: unat_word_ariths)
      have "same vs1 vs' \<and>
        (if \<exists>j. unat (c + 1) \<le> j \<and> j < unat (c + 1) + k \<and> tbl vs1 j = 0
         then unat (c + 1) \<le> unat r \<and> unat r < unat (c + 1) + k \<and> tbl vs1 (unat r) = 0
           \<and> (\<forall>j. unat (c + 1) \<le> j \<longrightarrow> j < unat r \<longrightarrow> tbl vs1 j \<noteq> 0)
           \<and> (\<forall>j<n. tbl vs' j = (if j = unat r then fat_eof (fst vs1) else tbl vs1 j))
         else r = 0 \<and> tbl vs' = tbl vs1)"
        by (rule Suc.IH [OF same_ok [OF g1(1)] _ Suc.prems(3) _ rec]) (use c1 Suc.prems in simp_all)
      note IH = this [unfolded c1 g1(2)]
      have e: "fat_eof (fst vs1) = fat_eof (fst vs)"
        using g1(1) by (intro geometry_fields(2)) (simp add: same_def)
      have nz: "tbl vs (unat c) \<noteq> 0" using False g1(3) by simp
      have ge: "unat c + 1 \<le> j" if "unat c \<le> j" "tbl vs j = 0" for j
        using that nz by (cases "j = unat c") auto
      have s: "same vs vs'" using IH same_trans [OF g1(1)] by blast
      show ?thesis
      proof (cases "\<exists>j. unat c + 1 \<le> j \<and> j < unat c + 1 + k \<and> tbl vs j = 0")
        case True
        then obtain j where "unat c + 1 \<le> j" "j < unat c + 1 + k" "tbl vs j = 0" by blast
        then have "unat c \<le> j \<and> j < unat c + Suc k \<and> tbl vs j = 0" by simp
        then have ex: "\<exists>j. unat c \<le> j \<and> j < unat c + Suc k \<and> tbl vs j = 0" by blast
        have r: "unat c + 1 \<le> unat r" "unat r < unat c + 1 + k" "tbl vs (unat r) = 0"
            "\<forall>j. unat c + 1 \<le> j \<longrightarrow> j < unat r \<longrightarrow> tbl vs j \<noteq> 0"
            "\<forall>j<n. tbl vs' j = (if j = unat r then fat_eof (fst vs) else tbl vs j)"
          using IH True by (simp_all add: e)
        have "\<forall>j. unat c \<le> j \<longrightarrow> j < unat r \<longrightarrow> tbl vs j \<noteq> 0" using r(4) ge by blast
        with r s show ?thesis unfolding if_P [OF ex] by simp
      next
        case none: False
        then have nex: "\<not> (\<exists>j. unat c \<le> j \<and> j < unat c + Suc k \<and> tbl vs j = 0)" using ge by force
        have "r = 0 \<and> tbl vs' = tbl vs" using IH unfolding if_not_P [OF none] by blast
        then show ?thesis using s unfolding if_not_P [OF nex] by blast
      qed
    qed
  qed
qed

text \<open>alloc_cluster finds the lowest free entry below the bound and marks it as an end of chain.\<close>

lemma alloc_cluster_spec:
  assumes "ok vs" and "n \<le> 2 ^ 32" and a: "alloc_cluster vs = (vs', r)"
  shows "same vs vs' \<and>
    (if \<exists>j. 2 \<le> j \<and> j < unat (max_cluster (fst vs)) \<and> tbl vs j = 0
     then 2 \<le> unat r \<and> unat r < unat (max_cluster (fst vs)) \<and> tbl vs (unat r) = 0
       \<and> (\<forall>j. 2 \<le> j \<longrightarrow> j < unat r \<longrightarrow> tbl vs j \<noteq> 0)
       \<and> (\<forall>j<n. tbl vs' j = (if j = unat r then fat_eof (fst vs) else tbl vs j))
     else r = 0 \<and> tbl vs' = tbl vs)"
proof (cases "2 \<le> unat (max_cluster (fst vs))")
  case False
  then have "r = 0" "vs' = vs" using a by (auto simp: alloc_cluster_def)
  then show ?thesis using False assms(1) by (auto simp: same_refl)
next
  case True
  let ?m = "unat (max_cluster (fst vs))"
  have f: "alloc_from (?m - 2) 2 vs = (vs', r)" using a by (simp add: alloc_cluster_def)
  have two: "unat (2 :: u32) = 2" and sum: "2 + (?m - 2) = ?m" using True by simp_all
  show ?thesis
    using alloc_from_spec [OF assms(1) _ assms(2) _ f, unfolded two sum] max_n [OF assms(1)] by blast
qed

text \<open>Every entry that continues a chain stays inside the table.\<close>

definition closed :: "'w vstate \<Rightarrow> bool" where
  "closed vs \<longleftrightarrow> (\<forall>k<n. unat (tbl vs k) < n \<or> fat_eof (fst vs) \<le> tbl vs k)"

text \<open>Freeing a chain always returns: each step clears an entry. It clears exactly the chain.\<close>

lemma link_cleared:
  assumes c: "2 \<le> c" "c < eof" and nx: "nx = t (unat c)" and v: "2 \<le> nx" "nx < eof"
    and t': "\<And>k. unat k \<in> K \<Longrightarrow> t' (unat k) = (if k = c then 0 else t (unat k))"
    and K: "\<And>k. k \<in> chain t eof c \<Longrightarrow> unat k \<in> K"
  shows "chain t eof c = insert c (chain t' eof nx)"
proof -
  have lc: "link t eof c nx" using c nx v by (simp add: link_def)
  have sub: "(link t' eof)\<^sup>*\<^sup>* nx d \<Longrightarrow> (link t eof)\<^sup>*\<^sup>* c d" for d
  proof (induction rule: rtranclp_induct)
    case base
    show ?case using lc by blast
  next
    case (step y z)
    have "y \<in> chain t eof c" using c step.IH by (simp add: chain_def)
    then have "t' (unat y) = (if y = c then 0 else t (unat y))" using K t' by blast
    moreover have "\<not> (2 :: u32) \<le> 0" by simp
    ultimately have "link t eof y z" using step.hyps(2) unfolding link_def by metis
    with step.IH show ?case by (rule rtranclp.rtrancl_into_rtrancl)
  qed
  have sup: "(link t eof)\<^sup>*\<^sup>* c d \<Longrightarrow> d = c \<or> (link t' eof)\<^sup>*\<^sup>* nx d" for d
  proof (induction rule: rtranclp_induct)
    case base
    show ?case by simp
  next
    case (step y z)
    show ?case
    proof (cases "y = c")
      case True
      then have "z = nx" using step.hyps(2) nx by (simp add: link_def)
      then show ?thesis by simp
    next
      case False
      have "y \<in> chain t eof c" using c step.hyps(1) by (simp add: chain_def)
      then have "t' (unat y) = t (unat y)" using K t' False by simp
      then have "link t' eof y z" using step.hyps(2) unfolding link_def by metis
      with False step.IH show ?thesis by (meson rtranclp.rtrancl_into_rtrancl)
    qed
  qed
  show ?thesis using c v sub sup by (auto simp: chain_def)
qed

lemma chain_in_table:
  assumes "closed vs" and "unat c < n" and "d \<in> chain (tbl vs) (fat_eof (fst vs)) c"
  shows "unat d < n"
proof -
  have "(link (tbl vs) (fat_eof (fst vs)))\<^sup>*\<^sup>* c d" using assms(3) by (simp add: chain_def split: if_splits)
  then show ?thesis
  proof (induction rule: rtranclp_induct)
    case (step y z)
    then show ?case using assms(1) by (auto simp: link_def closed_def)
  qed (rule assms(2))
qed

lemma free_chain_spec:
  assumes "ok vs" and "closed vs" and "unat c < n \<or> fat_eof (fst vs) \<le> c"
  shows "\<exists>vs'. free_chain vs c = Some vs' \<and> same vs vs'
    \<and> (\<forall>k. unat k < n \<longrightarrow> tbl vs' (unat k) = (if k \<in> chain (tbl vs) (fat_eof (fst vs)) c then 0 else tbl vs (unat k)))"
  using assms
proof (induction "card {k. k < n \<and> tbl vs k \<noteq> 0}" arbitrary: vs c rule: less_induct)
  case less
  let ?eof = "fat_eof (fst vs)"
  show ?case
  proof (cases "2 \<le> c \<and> c < ?eof")
    case False
    then have "free_chain vs c = Some vs" by (subst free_chain.simps) auto
    moreover have "chain (tbl vs) ?eof c = {}" unfolding chain_def if_not_P [OF False] ..
    ultimately show ?thesis using less.prems(1) by (auto simp: same_refl)
  next
    case True
    then have c: "2 \<le> c" "c < ?eof" and cn: "unat c < n" using less.prems(3) by auto
    obtain vs1 nx where g: "fat_get vs c = (vs1, nx)" by (cases "fat_get vs c")
    have g1: "same vs vs1" "tbl vs1 = tbl vs" "nx = tbl vs (unat c)" using get_same [OF less.prems(1) cn g] by auto
    let ?vs2 = "fat_set vs1 c 0"
    have s2: "same vs1 ?vs2" and t2: "\<And>k. k < n \<Longrightarrow> tbl ?vs2 k = (if k = unat c then 0 else tbl vs k)"
      using set_same [OF same_ok [OF g1(1)] cn, of 0] g1(2) trunc_0 by auto
    have s: "same vs ?vs2" using g1(1) s2 by (rule same_trans)
    have eof: "fat_eof (fst ?vs2) = ?eof" using s by (intro geometry_fields(2)) (simp add: same_def)
    have f: "free_chain vs c = free_chain ?vs2 nx" using True g by (subst free_chain.simps) simp
    have t2w: "tbl ?vs2 (unat k) = (if k = c then 0 else tbl vs (unat k))" if "unat k < n" for k
      using t2 [OF that] by (simp add: word_unat_eq_iff)
    show ?thesis
    proof (cases "2 \<le> nx \<and> nx < ?eof")
      case False
      then have "free_chain ?vs2 nx = Some ?vs2" by (subst free_chain.simps) (auto simp: eof)
      moreover have "chain (tbl vs) ?eof c = {c}"
      proof -
        have "d = c" if "(link (tbl vs) ?eof)\<^sup>*\<^sup>* c d" for d
          using that by (induction rule: rtranclp_induct) (use False g1(3) in \<open>auto simp: link_def\<close>)
        then show ?thesis using c by (auto simp: chain_def)
      qed
      ultimately show ?thesis using f s t2w by auto
    next
      case nx: True
      have "nx \<noteq> 0" using nx by auto
      then have in_set: "unat c \<in> {k. k < n \<and> tbl vs k \<noteq> 0}" using cn g1(3) by simp
      have "{k. k < n \<and> tbl ?vs2 k \<noteq> 0} = {k. k < n \<and> tbl vs k \<noteq> 0} - {unat c}"
        using t2 by (auto split: if_splits)
      then have card: "card {k. k < n \<and> tbl ?vs2 k \<noteq> 0} < card {k. k < n \<and> tbl vs k \<noteq> 0}"
        using card_Diff1_less [OF _ in_set] by simp
      have "0 < n" using cn by simp
      have cl: "closed ?vs2"
        unfolding closed_def eof using less.prems(2) t2 \<open>0 < n\<close> by (auto simp: closed_def)
      have nxn: "unat nx < n \<or> fat_eof (fst ?vs2) \<le> nx"
        using less.prems(2) cn g1(3) by (auto simp: closed_def eof)
      obtain vs' where vs': "free_chain ?vs2 nx = Some vs'" "same ?vs2 vs'"
        "\<And>k. unat k < n \<Longrightarrow> tbl vs' (unat k) = (if k \<in> chain (tbl ?vs2) ?eof nx then 0 else tbl ?vs2 (unat k))"
        using less.hyps [OF card same_ok [OF s] cl nxn] unfolding eof by blast
      have "chain (tbl vs) ?eof c = insert c (chain (tbl ?vs2) ?eof nx)"
        by (rule link_cleared [where K = "{k. k < n}" and t = "tbl vs" and t' = "tbl ?vs2" and nx = nx])
          (use c g1(3) nx t2w chain_in_table [OF less.prems(2) cn] in auto)
      then have "\<forall>k. unat k < n \<longrightarrow>
          tbl vs' (unat k) = (if k \<in> chain (tbl vs) ?eof c then 0 else tbl vs (unat k))"
        using vs'(3) t2w by auto
      then show ?thesis using f vs'(1) same_trans [OF s vs'(2)] by auto
    qed
  qed
qed

end

subsection \<open>FAT12 provides the interface\<close>

definition fat12_ok :: "'w vstate \<Rightarrow> bool" where
  "fat12_ok vs \<longleftrightarrow> kind (fst vs) = FAT_12 \<and> length (fat (fst vs)) = FAT12_BUF \<and> unat (fat_sectors (fst vs)) \<le> 16"

definition fat12_tbl :: "'w vstate \<Rightarrow> nat \<Rightarrow> u32" where
  "fat12_tbl vs k = fat12_get (fat (fst vs)) (of_nat k)"

lemma max_cluster_12:
  assumes "fat12_ok vs"
  shows "unat (max_cluster (fst vs)) = unat (fat_sectors (fst vs)) * 1024 div 3"
    and "unat (max_cluster (fst vs)) \<le> 5461"
proof -
  have f: "unat (fat_sectors (fst vs)) \<le> 16" using assms by (simp add: fat12_ok_def)
  then have "unat (fat_sectors (fst vs) * 512 * 2) = unat (fat_sectors (fst vs)) * 1024"
    by (simp add: unat_word_ariths)
  then show *: "unat (max_cluster (fst vs)) = unat (fat_sectors (fst vs)) * 1024 div 3"
    using assms by (simp add: max_cluster_def fat12_ok_def unat_div Let_def)
  show "unat (max_cluster (fst vs)) \<le> 5461" unfolding * using f by linarith
qed

lemma fat12_small:
  assumes "unat c < 5461"
  shows "unat c < 2147483648" "fat12_off c + 2 \<le> FAT12_BUF" "12 * unat c + 12 \<le> 8 * FAT12_BUF"
proof -
  show c: "unat c < 2147483648" using assms by simp
  show "fat12_off c + 2 \<le> FAT12_BUF" using assms by (simp add: fat12_off_eq [OF c] FAT12_BUF_def SECTOR_SIZE_def)
  show "12 * unat c + 12 \<le> 8 * FAT12_BUF" using assms by (simp add: FAT12_BUF_def SECTOR_SIZE_def)
qed

interpretation fat12: fat_access fat12_ok fat12_tbl 5461 "\<lambda>x. x AND 0xFFF" snd
proof
  fix vs vs' :: "'w vstate" and c x :: u32
  assume ok: "fat12_ok vs" and c: "unat c < 5461"
  show "x = fat12_tbl vs (unat c) \<and> fat12_ok vs' \<and> fat12_tbl vs' = fat12_tbl vs \<and> snd vs' = snd vs
      \<and> geometry (fst vs') = geometry (fst vs)" if "fat_get vs c = (vs', x)"
    using that ok by (auto simp: fat_get_def fat12_ok_def fat12_tbl_def)
  assume set: "fat_set vs c x = vs'"
  obtain v s where vs: "vs = (v, s)" by (cases vs)
  have vs': "vs' = (v\<lparr>fat := fat12_set (fat v) c x, fat_dirty := True\<rparr>, s)"
    using set ok by (auto simp: vs fat_set_def fat12_ok_def)
  have "fat12_tbl vs' k = (if k = unat c then x AND 0xFFF else fat12_tbl vs k)" if k: "k < 5461" for k
  proof -
    have u: "unat (of_nat k :: u32) = k" using k by (simp add: unat_of_nat)
    have "fat12_get (fat12_set (fat v) c x) (of_nat k) =
        (if c = of_nat k then x AND 0xFFF else fat12_get (fat v) (of_nat k))"
      using ok fat12_small [OF c] fat12_small [of "of_nat k"] k
      by (intro fat12_get_set) (simp_all add: u vs fat12_ok_def)
    then show ?thesis using u by (auto simp: fat12_tbl_def vs vs')
  qed
  then show "fat12_ok vs' \<and> (\<forall>k<5461. fat12_tbl vs' k = (if k = unat c then x AND 0xFFF else fat12_tbl vs k))
      \<and> snd vs' = snd vs \<and> geometry (fst vs') = geometry (fst vs)"
    using ok by (simp add: vs vs' fat12_ok_def geometry_def)
next
  fix vs :: "'w vstate"
  assume ok: "fat12_ok vs"
  show "fat_eof (fst vs) AND 0xFFF = fat_eof (fst vs)" using ok by (simp add: fat_eof_def fat12_ok_def)
  show "unat (max_cluster (fst vs)) \<le> 5461" using ok by (rule max_cluster_12)
qed simp

subsection \<open>The sector cache is coherent\<close>

text \<open>Sector i of the table as the driver sees it: the cached copy, or the device.\<close>

definition fat_view :: "('w dstate \<Rightarrow> nat \<Rightarrow> bytes) \<Rightarrow> 'w vstate \<Rightarrow> nat \<Rightarrow> bytes" where
  "fat_view sec vs i =
     (if unat (fat_sectors (fst vs)) \<le> i then []
      else if fat_csec (fst vs) \<noteq> FAT_CACHE_NONE \<and> i = unat (fat_csec (fst vs)) then fat_cbuf (fst vs)
      else sec (snd vs) (unat (fat_lba (fst vs)) + i))"

text \<open>The sectors of the device outside both copies of the table.\<close>

definition fat_rest :: "('w dstate \<Rightarrow> nat \<Rightarrow> bytes) \<Rightarrow> nat \<Rightarrow> 'w vstate \<Rightarrow> nat \<Rightarrow> bytes" where
  "fat_rest sec N vs i =
     (if i < N \<and> (i < unat (fat_lba (fst vs)) \<or> unat (fat_lba (fst vs)) + 2 * unat (fat_sectors (fst vs)) \<le> i)
      then sec (snd vs) i else [])"

text \<open>The cache holds a sector of the table, unchanged unless it is dirty; both copies of the table
  are on the device.\<close>

definition cache_ok :: "('w dstate \<Rightarrow> bool) \<Rightarrow> ('w dstate \<Rightarrow> nat \<Rightarrow> bytes) \<Rightarrow> nat \<Rightarrow> int \<Rightarrow> u32 \<Rightarrow> 'w vstate \<Rightarrow> bool" where
  "cache_ok okd sec N did fs vs \<longleftrightarrow>
     (case vs of (v, s) \<Rightarrow>
        okd s \<and> disk_id v = did \<and> fat_sectors v = fs \<and> length (fat_cbuf v) = 512
        \<and> unat (fat_lba v) + 2 * unat fs \<le> N
        \<and> (if fat_csec v = FAT_CACHE_NONE then \<not> fat_cdirty v
           else unat (fat_csec v) < unat fs
             \<and> (fat_cdirty v \<or> fat_cbuf v = sec s (unat (fat_lba v) + unat (fat_csec v)))))"

locale fat_disk = dev: block_volume "\<lambda>s. disk_read s did" "\<lambda>s. disk_write s did" okd N sec
  for did :: int and okd :: "'w dstate \<Rightarrow> bool" and N :: nat and sec +
  fixes fs :: u32
  assumes N_word: "N < 2 ^ 32" and fs_small: "512 * unat fs < 2 ^ 32"
begin

lemma wr_at:
  assumes "okd s" and "unat a + unat b < N" and "length bs = 512"
  shows "\<exists>s'. disk_write s did (a + b) 1 bs = (s', True) \<and> okd s'
    \<and> (\<forall>i<N. sec s' i = (if i = unat a + unat b then bs else sec s i))"
proof -
  have "unat (a + b) = unat a + unat b" using assms(2) N_word by (simp add: unat_word_ariths)
  then show ?thesis using dev.wr_one [OF assms(1) _ assms(3), of "a + b"] assms(2) by simp
qed

lemma flush_ok:
  assumes ok: "cache_ok okd sec N did fs vs" and f: "fat_cache_flush vs = (vs', r)"
  shows "r \<and> cache_ok okd sec N did fs vs' \<and> \<not> fat_cdirty (fst vs') \<and> fat_csec (fst vs') = fat_csec (fst vs)
    \<and> fat_view sec vs' = fat_view sec vs \<and> fat_rest sec N vs' = fat_rest sec N vs
    \<and> geometry (fst vs') = geometry (fst vs)"
proof -
  obtain v s where vs: "vs = (v, s)" by (cases vs)
  show ?thesis
  proof (cases "fat_cdirty v")
    case False
    with f vs have "vs' = vs" "r" by (auto simp: fat_cache_flush_def)
    with ok vs False show ?thesis by simp
  next
    case True
    let ?lba = "unat (fat_lba v)" and ?c = "unat (fat_csec v)" and ?fs = "unat fs"
    have v: "okd s" "disk_id v = did" "fat_sectors v = fs" "length (fat_cbuf v) = 512" "?lba + 2 * ?fs \<le> N"
        "fat_csec v \<noteq> FAT_CACHE_NONE" "?c < ?fs"
      using ok True by (auto simp: vs cache_ok_def split: if_splits)
    have "?lba + ?c < N" using v by linarith
    then obtain s1 where s1: "disk_write s did (fat_lba v + fat_csec v) 1 (fat_cbuf v) = (s1, True)" "okd s1"
        "\<forall>i<N. sec s1 i = (if i = ?lba + ?c then fat_cbuf v else sec s i)"
      using wr_at [OF v(1) _ v(4), of "fat_lba v" "fat_csec v"] by blast
    have sum: "unat (fat_lba v + fs) = ?lba + ?fs"
      using v N_word by (simp add: unat_word_ariths)
    have "unat (fat_lba v + fs) + ?c < N" using sum v by linarith
    then obtain s2 where s2: "disk_write s1 did (fat_lba v + fs + fat_csec v) 1 (fat_cbuf v) = (s2, True)" "okd s2"
        "\<forall>i<N. sec s2 i = (if i = unat (fat_lba v + fs) + ?c then fat_cbuf v else sec s1 i)"
      using wr_at [OF s1(2) _ v(4), of "fat_lba v + fs" "fat_csec v"] by blast
    have vs': "vs' = (v\<lparr>fat_cdirty := False\<rparr>, s2)" "r"
      using f s1(1) s2(1) True v by (auto simp: vs fat_cache_flush_def)
    have sec2: "sec s2 i = (if i = ?lba + ?c \<or> i = ?lba + ?fs + ?c then fat_cbuf v else sec s i)" if "i < N" for i
      using that s1(3) s2(3) sum by auto
    have "fat_view sec vs' i = fat_view sec vs i" for i
      using v sec2 [of "?lba + i"] by (auto simp: fat_view_def vs vs')
    moreover have "fat_rest sec N vs' i = fat_rest sec N vs i" for i
      using v sec2 [of i] by (auto simp: fat_rest_def vs vs')
    ultimately show ?thesis
      using v s2(2) vs'(2) sec2 [of "?lba + ?c"] by (auto simp: vs vs' cache_ok_def geometry_def)
  qed
qed

lemma load_ok:
  assumes ok: "cache_ok okd sec N did fs vs" and k: "unat k < unat fs" and l: "fat_cache_load vs k = (vs', r)"
  shows "r \<and> cache_ok okd sec N did fs vs' \<and> fat_csec (fst vs') = k
    \<and> fat_view sec vs' = fat_view sec vs \<and> fat_rest sec N vs' = fat_rest sec N vs
    \<and> geometry (fst vs') = geometry (fst vs)"
proof (cases "fat_csec (fst vs) = k")
  case True
  with l ok show ?thesis by (auto simp: fat_cache_load_def)
next
  case False
  obtain vs1 r1 where f: "fat_cache_flush vs = (vs1, r1)" by (cases "fat_cache_flush vs")
  obtain v s where vs1: "vs1 = (v, s)" by (cases vs1)
  note F = flush_ok [OF ok f]
  have v: "okd s" "disk_id v = did" "fat_sectors v = fs" "length (fat_cbuf v) = 512"
      "unat (fat_lba v) + 2 * unat fs \<le> N"
    using F by (auto simp: vs1 cache_ok_def split: if_splits)
  have sum: "unat (fat_lba v + k) = unat (fat_lba v) + unat k"
    using v k N_word by (simp add: unat_word_ariths)
  have lt: "unat (fat_lba v + k) < N" using sum v k by linarith
  have rd: "disk_read s did (fat_lba v + k) 1 = Some (sec s (unat (fat_lba v) + unat k))"
    using dev.rd_one [OF v(1) lt] sum by simp
  have len: "length (sec s (unat (fat_lba v) + unat k)) = 512" using dev.sec_len [OF v(1)] lt sum by simp
  have kn: "k \<noteq> FAT_CACHE_NONE"
  proof
    assume "k = FAT_CACHE_NONE"
    then have "unat k = 4294967295" by (simp add: FAT_CACHE_NONE_def)
    with k fs_small show False by simp
  qed
  have vs': "vs' = (v\<lparr>fat_cbuf := sec s (unat (fat_lba v) + unat k), fat_csec := k\<rparr>, s)" "r"
    using l False f F rd v len by (auto simp: fat_cache_load_def vs1 blit_all)
  have "fat_csec v \<noteq> FAT_CACHE_NONE \<longrightarrow> fat_cbuf v = sec s (unat (fat_lba v) + unat (fat_csec v))"
    using F by (auto simp: vs1 cache_ok_def)
  then have "fat_view sec vs' i = fat_view sec vs1 i" for i
    using k kn v(3) by (auto simp: fat_view_def vs1 vs')
  moreover have "fat_rest sec N vs' = fat_rest sec N vs1"
    by (auto simp: fat_rest_def vs1 vs' fun_eq_iff)
  ultimately show ?thesis
    using F v k kn len vs'(2) by (auto simp: vs1 vs' cache_ok_def geometry_def)
qed

text \<open>Changing the cached copy changes that sector of the view and nothing else.\<close>

lemma poke_ok:
  assumes ok: "cache_ok okd sec N did fs (v, s)" and k: "fat_csec v = k" "unat k < unat fs" and len: "length bs = 512"
  defines "vs' \<equiv> (v\<lparr>fat_cbuf := bs, fat_cdirty := True\<rparr>, s)"
  shows "cache_ok okd sec N did fs vs'"
    and "fat_view sec vs' i = (if i = unat k then bs else fat_view sec (v, s) i)"
    and "fat_rest sec N vs' = fat_rest sec N (v, s)" and "geometry (fst vs') = geometry v"
proof -
  have kn: "k \<noteq> FAT_CACHE_NONE"
  proof
    assume "k = FAT_CACHE_NONE"
    then have "unat k = 4294967295" by (simp add: FAT_CACHE_NONE_def)
    with k fs_small show False by simp
  qed
  show "cache_ok okd sec N did fs vs'"
    using assms kn by (auto simp: cache_ok_def vs'_def)
  show "fat_view sec vs' i = (if i = unat k then bs else fat_view sec (v, s) i)"
    using assms kn by (auto simp: fat_view_def vs'_def cache_ok_def)
  show "fat_rest sec N vs' = fat_rest sec N (v, s)" "geometry (fst vs') = geometry v"
    by (auto simp: fat_rest_def vs'_def geometry_def fun_eq_iff)
qed

end

subsection \<open>FAT16 and FAT32 provide the interface\<close>

definition fat16_tbl :: "('w dstate \<Rightarrow> nat \<Rightarrow> bytes) \<Rightarrow> 'w vstate \<Rightarrow> nat \<Rightarrow> u32" where
  "fat16_tbl sec vs k = ucast (of_le16 (fat_view sec vs (k div 256)) (k mod 256 * 2))"

definition fat32_tbl :: "('w dstate \<Rightarrow> nat \<Rightarrow> bytes) \<Rightarrow> 'w vstate \<Rightarrow> nat \<Rightarrow> u32" where
  "fat32_tbl sec vs k = of_le32 (fat_view sec vs (k div 128)) (k mod 128 * 4) AND 0x0FFFFFFF"

definition fat16_ok :: "('w dstate \<Rightarrow> bool) \<Rightarrow> ('w dstate \<Rightarrow> nat \<Rightarrow> bytes) \<Rightarrow> nat \<Rightarrow> int \<Rightarrow> u32 \<Rightarrow> 'w vstate \<Rightarrow> bool" where
  "fat16_ok okd sec N did fs vs \<longleftrightarrow> cache_ok okd sec N did fs vs \<and> kind (fst vs) = FAT_16"

definition fat32_ok :: "('w dstate \<Rightarrow> bool) \<Rightarrow> ('w dstate \<Rightarrow> nat \<Rightarrow> bytes) \<Rightarrow> nat \<Rightarrow> int \<Rightarrow> u32 \<Rightarrow> 'w vstate \<Rightarrow> bool" where
  "fat32_ok okd sec N did fs vs \<longleftrightarrow> cache_ok okd sec N did fs vs \<and> kind (fst vs) = FAT_32"

definition trunc16 :: "u32 \<Rightarrow> u32" where
  "trunc16 x = ucast (ucast x :: u16)"

lemma entry_pos:
  fixes c w :: u32
  assumes "unat c * unat w < 2 ^ 32"
  shows "unat ((c * w) div 512) = unat c * unat w div 512" "unat ((c * w) mod 512) = unat c * unat w mod 512"
  using assms by (simp_all add: unat_div unat_mod unat_word_ariths)

lemma view_csec:
  "cache_ok okd sec N did fs vs \<Longrightarrow> fat_csec (fst vs) \<noteq> FAT_CACHE_NONE \<Longrightarrow>
   fat_view sec vs (unat (fat_csec (fst vs))) = fat_cbuf (fst vs)"
  by (auto simp: cache_ok_def fat_view_def)

context fat_disk begin

lemma csec_valid: "unat k < unat fs \<Longrightarrow> k \<noteq> FAT_CACHE_NONE"
proof
  assume "unat k < unat fs" "k = FAT_CACHE_NONE"
  then have "unat fs > 4294967295" by (simp add: FAT_CACHE_NONE_def)
  with fs_small show False by simp
qed

end

lemma entry16:
  fixes c fs :: u32
  assumes "unat c < 256 * unat fs" and "512 * unat fs < 2 ^ 32"
  shows "unat ((c * 2) div 512) = unat c div 256" "unat ((c * 2) mod 512) = unat c mod 256 * 2"
    "unat ((c * 2) div 512) < unat fs" "unat c mod 256 * 2 + 2 \<le> 512"
proof -
  have "unat c * 2 < 2 ^ 32" using assms by simp
  then have d: "unat ((c * 2) div 512) = unat c * 2 div 512" "unat ((c * 2) mod 512) = unat c * 2 mod 512"
    using entry_pos [of c 2] by simp_all
  have m: "unat c * 2 div 512 = unat c div 256" "unat c * 2 mod 512 = unat c mod 256 * 2"
    using div_mult_mult2 [of 2 "unat c" 256] mod_mult_mult2 [of "unat c" 2 256] by simp_all
  show "unat ((c * 2) div 512) = unat c div 256" "unat ((c * 2) mod 512) = unat c mod 256 * 2"
    using d m by simp_all
  show "unat ((c * 2) div 512) < unat fs" using d(1) m(1) assms(1) by (simp add: less_mult_imp_div_less mult.commute)
  have "unat c mod 256 < 256" by simp
  then show "unat c mod 256 * 2 + 2 \<le> 512" by linarith
qed

lemma entry32:
  fixes c fs :: u32
  assumes "unat c < 128 * unat fs" and "512 * unat fs < 2 ^ 32"
  shows "unat ((c * 4) div 512) = unat c div 128" "unat ((c * 4) mod 512) = unat c mod 128 * 4"
    "unat ((c * 4) div 512) < unat fs" "unat c mod 128 * 4 + 4 \<le> 512"
proof -
  have "unat c * 4 < 2 ^ 32" using assms by simp
  then have d: "unat ((c * 4) div 512) = unat c * 4 div 512" "unat ((c * 4) mod 512) = unat c * 4 mod 512"
    using entry_pos [of c 4] by simp_all
  have m: "unat c * 4 div 512 = unat c div 128" "unat c * 4 mod 512 = unat c mod 128 * 4"
    using div_mult_mult2 [of 4 "unat c" 128] mod_mult_mult2 [of "unat c" 4 128] by simp_all
  show "unat ((c * 4) div 512) = unat c div 128" "unat ((c * 4) mod 512) = unat c mod 128 * 4"
    using d m by simp_all
  show "unat ((c * 4) div 512) < unat fs" using d(1) m(1) assms(1) by (simp add: less_mult_imp_div_less mult.commute)
  have "unat c mod 128 < 128" by simp
  then show "unat c mod 128 * 4 + 4 \<le> 512" by linarith
qed

text \<open>The two entries of one sector do not overlap.\<close>

lemma same_div_mod: "(k :: nat) div m = c div m \<Longrightarrow> k \<noteq> c \<Longrightarrow> k mod m \<noteq> c mod m"
  by (metis div_mult_mod_eq)

sublocale fat_disk \<subseteq> f16: fat_access "fat16_ok okd sec N did fs" "fat16_tbl sec" "256 * unat fs" trunc16 "fat_rest sec N"
proof
  fix vs vs' and c x :: u32
  assume ok: "fat16_ok okd sec N did fs vs" and c: "unat c < 256 * unat fs"
  have k: "kind (fst vs) = FAT_16" and co: "cache_ok okd sec N did fs vs" using ok by (auto simp: fat16_ok_def)
  note e = entry16 [OF c fs_small]
  obtain vs1 r where l: "fat_cache_load vs ((c * 2) div 512) = (vs1, r)" by (cases "fat_cache_load vs ((c * 2) div 512)")
  note L = load_ok [OF co e(3) l]
  have k1: "kind (fst vs1) = FAT_16" using L k geometry_fields(1) by metis
  have view: "fat_view sec vs1 (unat c div 256) = fat_cbuf (fst vs1)"
    using view_csec [of okd sec N did fs vs1] L csec_valid [OF e(3)] e(1) by simp
  have entry: "ucast (of_le16 (fat_cbuf (fst vs1)) (unat c mod 256 * 2)) = fat16_tbl sec vs (unat c)"
    using L view by (simp add: fat16_tbl_def)
  have tb1: "fat16_tbl sec vs1 = fat16_tbl sec vs" using L by (simp add: fat16_tbl_def fun_eq_iff)
  show "x = fat16_tbl sec vs (unat c) \<and> fat16_ok okd sec N did fs vs' \<and> fat16_tbl sec vs' = fat16_tbl sec vs
      \<and> fat_rest sec N vs' = fat_rest sec N vs \<and> geometry (fst vs') = geometry (fst vs)"
    if g: "fat_get vs c = (vs', x)"
  proof -
    have "vs' = vs1" "x = ucast (of_le16 (fat_cbuf (fst vs1)) (unat c mod 256 * 2))"
      using g k l L e by (auto simp: fat_get_def)
    then show ?thesis using L tb1 entry k1 by (simp add: fat16_ok_def)
  qed
  assume set: "fat_set vs c x = vs'"
  obtain v s where vs1: "vs1 = (v, s)" by (cases vs1)
  let ?bs = "blit (fat_cbuf v) (unat c mod 256 * 2) (le16 (ucast x))"
  have vs': "vs' = (v\<lparr>fat_cbuf := ?bs, fat_cdirty := True\<rparr>, s)"
    using set k l L e by (auto simp: fat_set_def vs1)
  have len: "length (fat_cbuf v) = 512" using L by (simp add: vs1 cache_ok_def)
  have P: "cache_ok okd sec N did fs vs'" "fat_view sec vs' i = (if i = unat c div 256 then ?bs else fat_view sec vs1 i)"
      "fat_rest sec N vs' = fat_rest sec N vs1" "geometry (fst vs') = geometry v" for i
    using poke_ok(1,3,4) [of v s "(c * 2) div 512" ?bs] poke_ok(2) [of v s "(c * 2) div 512" ?bs i]
      L e len by (simp_all add: vs1 vs')
  have "fat16_tbl sec vs' j = (if j = unat c then trunc16 x else fat16_tbl sec vs j)" for j
  proof -
    have "of_le16 ?bs (j mod 256 * 2) = of_le16 (fat_cbuf v) (j mod 256 * 2)" if "j \<noteq> unat c" "j div 256 = unat c div 256"
    proof -
      have "j mod 256 \<noteq> unat c mod 256" using same_div_mod [OF that(2,1)] .
      moreover have "j mod 256 < 256" by simp
      ultimately show ?thesis using len by (intro of_le16_blit_other) auto
    qed
    then show ?thesis
      using view e(4) len by (auto simp: fat16_tbl_def P(2) trunc16_def vs1 tb1 [symmetric])
  qed
  moreover have "kind (fst vs') = FAT_16" using P(4) k1 geometry_fields(1) [of "fst vs'" v] by (simp add: vs1)
  ultimately show "fat16_ok okd sec N did fs vs' \<and>
      (\<forall>j<256 * unat fs. fat16_tbl sec vs' j = (if j = unat c then trunc16 x else fat16_tbl sec vs j))
      \<and> fat_rest sec N vs' = fat_rest sec N vs \<and> geometry (fst vs') = geometry (fst vs)"
    using P L by (simp add: fat16_ok_def vs1)
next
  fix vs assume ok: "fat16_ok okd sec N did fs vs"
  then have k: "kind (fst vs) = FAT_16" "fat_sectors (fst vs) = fs" by (auto simp: fat16_ok_def cache_ok_def)
  show "trunc16 (fat_eof (fst vs)) = fat_eof (fst vs)" using k by (simp add: trunc16_def fat_eof_def)
  have "unat (fs * 512) = unat fs * 512" using fs_small by (simp add: unat_word_ariths)
  then show "unat (max_cluster (fst vs)) \<le> 256 * unat fs"
    using k by (simp add: max_cluster_def unat_div Let_def)
qed (simp add: trunc16_def)

definition trunc32 :: "u32 \<Rightarrow> u32" where
  "trunc32 x = x AND 0x0FFFFFFF"

sublocale fat_disk \<subseteq> f32: fat_access "fat32_ok okd sec N did fs" "fat32_tbl sec" "128 * unat fs" trunc32 "fat_rest sec N"
proof
  fix vs vs' and c x :: u32
  assume ok: "fat32_ok okd sec N did fs vs" and c: "unat c < 128 * unat fs"
  have k: "kind (fst vs) = FAT_32" and co: "cache_ok okd sec N did fs vs" using ok by (auto simp: fat32_ok_def)
  note e = entry32 [OF c fs_small]
  obtain vs1 r where l: "fat_cache_load vs ((c * 4) div 512) = (vs1, r)" by (cases "fat_cache_load vs ((c * 4) div 512)")
  note L = load_ok [OF co e(3) l]
  have k1: "kind (fst vs1) = FAT_32" using L k geometry_fields(1) by metis
  have view: "fat_view sec vs1 (unat c div 128) = fat_cbuf (fst vs1)"
    using view_csec [of okd sec N did fs vs1] L csec_valid [OF e(3)] e(1) by simp
  have entry: "of_le32 (fat_cbuf (fst vs1)) (unat c mod 128 * 4) AND 0x0FFFFFFF = fat32_tbl sec vs (unat c)"
    using L view by (simp add: fat32_tbl_def)
  have tb1: "fat32_tbl sec vs1 = fat32_tbl sec vs" using L by (simp add: fat32_tbl_def fun_eq_iff)
  show "x = fat32_tbl sec vs (unat c) \<and> fat32_ok okd sec N did fs vs' \<and> fat32_tbl sec vs' = fat32_tbl sec vs
      \<and> fat_rest sec N vs' = fat_rest sec N vs \<and> geometry (fst vs') = geometry (fst vs)"
    if g: "fat_get vs c = (vs', x)"
  proof -
    have "vs' = vs1" "x = of_le32 (fat_cbuf (fst vs1)) (unat c mod 128 * 4) AND 0x0FFFFFFF"
      using g k l L e by (auto simp: fat_get_def)
    then show ?thesis using L tb1 entry k1 by (simp add: fat32_ok_def)
  qed
  assume set: "fat_set vs c x = vs'"
  obtain v s where vs1: "vs1 = (v, s)" by (cases vs1)
  let ?cur = "(of_le32 (fat_cbuf v) (unat c mod 128 * 4) AND 0xF0000000) OR (x AND 0x0FFFFFFF)"
  let ?bs = "blit (fat_cbuf v) (unat c mod 128 * 4) (le32 ?cur)"
  have vs': "vs' = (v\<lparr>fat_cbuf := ?bs, fat_cdirty := True\<rparr>, s)"
    using set k l L e by (auto simp: fat_set_def vs1 Let_def)
  have len: "length (fat_cbuf v) = 512" using L by (simp add: vs1 cache_ok_def)
  have P: "cache_ok okd sec N did fs vs'" "fat_view sec vs' i = (if i = unat c div 128 then ?bs else fat_view sec vs1 i)"
      "fat_rest sec N vs' = fat_rest sec N vs1" "geometry (fst vs') = geometry v" for i
    using poke_ok(1,3,4) [of v s "(c * 4) div 512" ?bs] poke_ok(2) [of v s "(c * 4) div 512" ?bs i]
      L e len by (simp_all add: vs1 vs')
  have cur: "?cur AND 0x0FFFFFFF = trunc32 x"
  proof -
    have m: "(0x0FFFFFFF :: u32) = mask 28" "(0xF0000000 :: u32) = push_bit 28 (mask 4)"
      by (simp_all add: mask_eq_exp_minus_1)
    show ?thesis unfolding trunc32_def m by (rule bit_word_eqI) (auto simp: bit_simps)
  qed
  have "fat32_tbl sec vs' j = (if j = unat c then trunc32 x else fat32_tbl sec vs j)" for j
  proof -
    have "of_le32 ?bs (j mod 128 * 4) = of_le32 (fat_cbuf v) (j mod 128 * 4)" if "j \<noteq> unat c" "j div 128 = unat c div 128"
    proof -
      have "j mod 128 \<noteq> unat c mod 128" using same_div_mod [OF that(2,1)] .
      moreover have "j mod 128 < 128" by simp
      ultimately show ?thesis using len by (intro of_le32_blit_other) auto
    qed
    then show ?thesis
      using view e(4) len cur by (auto simp: fat32_tbl_def P(2) vs1 tb1 [symmetric])
  qed
  moreover have "kind (fst vs') = FAT_32" using P(4) k1 geometry_fields(1) [of "fst vs'" v] by (simp add: vs1)
  ultimately show "fat32_ok okd sec N did fs vs' \<and>
      (\<forall>j<128 * unat fs. fat32_tbl sec vs' j = (if j = unat c then trunc32 x else fat32_tbl sec vs j))
      \<and> fat_rest sec N vs' = fat_rest sec N vs \<and> geometry (fst vs') = geometry (fst vs)"
    using P L by (simp add: fat32_ok_def vs1)
next
  fix vs assume ok: "fat32_ok okd sec N did fs vs"
  then have k: "kind (fst vs) = FAT_32" "fat_sectors (fst vs) = fs" by (auto simp: fat32_ok_def cache_ok_def)
  show "trunc32 (fat_eof (fst vs)) = fat_eof (fst vs)" using k by (simp add: trunc32_def fat_eof_def)
  have "unat (fs * 512) = unat fs * 512" using fs_small by (simp add: unat_word_ariths)
  then show "unat (max_cluster (fst vs)) \<le> 128 * unat fs"
    using k by (simp add: max_cluster_def unat_div Let_def)
qed (simp add: trunc32_def)


interpretation ram_fat: fat_disk 0 "raw_disk.raw_ok ram_read ram_write (ram_ok 64) 0" 64 "\<lambda>s. (!) (world s)" 4
  by (unfold_locales) simp_all

subsection \<open>One table for the three types\<close>

definition fat_ok :: "('w dstate \<Rightarrow> bool) \<Rightarrow> ('w dstate \<Rightarrow> nat \<Rightarrow> bytes) \<Rightarrow> nat \<Rightarrow> int \<Rightarrow> u32 \<Rightarrow> 'w vstate \<Rightarrow> bool" where
  "fat_ok okd sec N did fs vs \<longleftrightarrow>
     (case kind (fst vs) of
        FAT_NONE \<Rightarrow> False
      | FAT_12 \<Rightarrow> fat12_ok vs
      | FAT_16 \<Rightarrow> fat16_ok okd sec N did fs vs
      | FAT_32 \<Rightarrow> fat32_ok okd sec N did fs vs)"

definition fat_tbl :: "('w dstate \<Rightarrow> nat \<Rightarrow> bytes) \<Rightarrow> 'w vstate \<Rightarrow> nat \<Rightarrow> u32" where
  "fat_tbl sec vs =
     (case kind (fst vs) of FAT_16 \<Rightarrow> fat16_tbl sec vs | FAT_32 \<Rightarrow> fat32_tbl sec vs | _ \<Rightarrow> fat12_tbl vs)"

definition fat_entries :: "fat_volume \<Rightarrow> u32 \<Rightarrow> nat" where
  "fat_entries v fs = (case kind v of FAT_16 \<Rightarrow> 256 * unat fs | FAT_32 \<Rightarrow> 128 * unat fs | _ \<Rightarrow> 5461)"

text \<open>Sector i is in neither copy of the table.\<close>

definition outside_fat :: "fat_volume \<Rightarrow> nat \<Rightarrow> bool" where
  "outside_fat v i \<longleftrightarrow> i < unat (fat_lba v) \<or> unat (fat_lba v) + 2 * unat (fat_sectors v) \<le> i"

text \<open>What table operations keep: the volume but for the table, and the sectors outside it.\<close>

definition fat_same :: "('w dstate \<Rightarrow> bool) \<Rightarrow> ('w dstate \<Rightarrow> nat \<Rightarrow> bytes) \<Rightarrow> nat \<Rightarrow> int \<Rightarrow> u32 \<Rightarrow> 'w vstate \<Rightarrow> 'w vstate \<Rightarrow> bool" where
  "fat_same okd sec N did fs vs vs' \<longleftrightarrow> fat_ok okd sec N did fs vs' \<and> geometry (fst vs') = geometry (fst vs)
     \<and> (\<forall>i<N. outside_fat (fst vs) i \<longrightarrow> sec (snd vs') i = sec (snd vs) i)"

definition fat_closed :: "('w dstate \<Rightarrow> nat \<Rightarrow> bytes) \<Rightarrow> u32 \<Rightarrow> 'w vstate \<Rightarrow> bool" where
  "fat_closed sec fs vs \<longleftrightarrow> (\<forall>k<fat_entries (fst vs) fs.
     unat (fat_tbl sec vs k) < fat_entries (fst vs) fs \<or> fat_eof (fst vs) \<le> fat_tbl sec vs k)"

context fat_disk begin

lemma rest_outside:
  assumes "fat_rest sec N vs' = fat_rest sec N vs" and "geometry (fst vs') = geometry (fst vs)" and "i < N"
    and "outside_fat (fst vs) i"
  shows "sec (snd vs') i = sec (snd vs) i"
proof -
  have "fat_rest sec N vs' i = fat_rest sec N vs i" using assms(1) by simp
  with assms(3,4) show ?thesis
    using geometry_fields [OF assms(2)] by (auto simp: fat_rest_def outside_fat_def split: if_splits)
qed

lemma same16: "f16.same vs vs' \<Longrightarrow> fat_same okd sec N did fs vs vs'"
  by (auto simp: f16.same_def fat_same_def fat_ok_def fat16_ok_def intro: rest_outside)

lemma same32: "f32.same vs vs' \<Longrightarrow> fat_same okd sec N did fs vs vs'"
  by (auto simp: f32.same_def fat_same_def fat_ok_def fat32_ok_def intro: rest_outside)

lemma same12: "fat12.same vs vs' \<Longrightarrow> fat_same okd sec N did fs vs vs'"
  by (auto simp: fat12.same_def fat_same_def fat_ok_def fat12_ok_def)

lemma alloc_any:
  assumes ok: "fat_ok okd sec N did fs vs" and a: "alloc_cluster vs = (vs', r)"
  shows "fat_same okd sec N did fs vs vs' \<and>
    (if \<exists>j. 2 \<le> j \<and> j < unat (max_cluster (fst vs)) \<and> fat_tbl sec vs j = 0
     then 2 \<le> unat r \<and> unat r < unat (max_cluster (fst vs)) \<and> fat_tbl sec vs (unat r) = 0
       \<and> (\<forall>j. 2 \<le> j \<longrightarrow> j < unat r \<longrightarrow> fat_tbl sec vs j \<noteq> 0)
       \<and> (\<forall>j<fat_entries (fst vs) fs. fat_tbl sec vs' j = (if j = unat r then fat_eof (fst vs) else fat_tbl sec vs j))
     else r = 0 \<and> fat_tbl sec vs' = fat_tbl sec vs)"
proof -
  have n: "256 * unat fs \<le> 2 ^ 32" "128 * unat fs \<le> 2 ^ 32" "(5461 :: nat) \<le> 2 ^ 32" using fs_small by simp_all
  show ?thesis
  proof (cases "kind (fst vs)")
    case FAT_NONE
    with ok show ?thesis by (simp add: fat_ok_def)
  next
    case FAT_12
    with ok have o: "fat12_ok vs" by (simp add: fat_ok_def)
    note S = fat12.alloc_cluster_spec [OF o n(3) a]
    then have "kind (fst vs') = FAT_12" using FAT_12 geometry_fields(1) by (metis fat12.same_def)
    with FAT_12 S show ?thesis by (simp add: fat_tbl_def fat_entries_def same12)
  next
    case FAT_16
    with ok have o: "fat16_ok okd sec N did fs vs" by (simp add: fat_ok_def)
    note S = f16.alloc_cluster_spec [OF o n(1) a]
    then have "kind (fst vs') = FAT_16" using FAT_16 geometry_fields(1) by (metis f16.same_def)
    with FAT_16 S show ?thesis by (simp add: fat_tbl_def fat_entries_def same16)
  next
    case FAT_32
    with ok have o: "fat32_ok okd sec N did fs vs" by (simp add: fat_ok_def)
    note S = f32.alloc_cluster_spec [OF o n(2) a]
    then have "kind (fst vs') = FAT_32" using FAT_32 geometry_fields(1) by (metis f32.same_def)
    with FAT_32 S show ?thesis by (simp add: fat_tbl_def fat_entries_def same32)
  qed
qed

lemma free_any:
  assumes ok: "fat_ok okd sec N did fs vs" and cl: "fat_closed sec fs vs"
    and c: "unat c < fat_entries (fst vs) fs \<or> fat_eof (fst vs) \<le> c"
  shows "\<exists>vs'. free_chain vs c = Some vs' \<and> fat_same okd sec N did fs vs vs'
    \<and> (\<forall>k. unat k < fat_entries (fst vs) fs \<longrightarrow>
        fat_tbl sec vs' (unat k) = (if k \<in> chain (fat_tbl sec vs) (fat_eof (fst vs)) c then 0 else fat_tbl sec vs (unat k)))"
proof (cases "kind (fst vs)")
  case FAT_NONE
  with ok show ?thesis by (simp add: fat_ok_def)
next
  case FAT_12
  with ok have o: "fat12_ok vs" by (simp add: fat_ok_def)
  have "fat12.closed vs" "unat c < 5461 \<or> fat_eof (fst vs) \<le> c"
    using cl c FAT_12 by (simp_all add: fat12.closed_def fat_closed_def fat_entries_def fat_tbl_def)
  from fat12.free_chain_spec [OF o this] obtain vs' where S: "free_chain vs c = Some vs'" "fat12.same vs vs'"
    "\<forall>k. unat k < 5461 \<longrightarrow> fat12_tbl vs' (unat k) = (if k \<in> chain (fat12_tbl vs) (fat_eof (fst vs)) c then 0 else fat12_tbl vs (unat k))"
    by blast
  then have "kind (fst vs') = FAT_12" using FAT_12 geometry_fields(1) by (metis fat12.same_def)
  with FAT_12 S show ?thesis by (simp add: fat_tbl_def fat_entries_def same12)
next
  case FAT_16
  with ok have o: "fat16_ok okd sec N did fs vs" by (simp add: fat_ok_def)
  have "f16.closed vs" "unat c < 256 * unat fs \<or> fat_eof (fst vs) \<le> c"
    using cl c FAT_16 by (simp_all add: f16.closed_def fat_closed_def fat_entries_def fat_tbl_def)
  from f16.free_chain_spec [OF o this] obtain vs' where S: "free_chain vs c = Some vs'" "f16.same vs vs'"
    "\<forall>k. unat k < 256 * unat fs \<longrightarrow> fat16_tbl sec vs' (unat k) = (if k \<in> chain (fat16_tbl sec vs) (fat_eof (fst vs)) c then 0 else fat16_tbl sec vs (unat k))"
    by blast
  then have "kind (fst vs') = FAT_16" using FAT_16 geometry_fields(1) by (metis f16.same_def)
  with FAT_16 S show ?thesis by (simp add: fat_tbl_def fat_entries_def same16)
next
  case FAT_32
  with ok have o: "fat32_ok okd sec N did fs vs" by (simp add: fat_ok_def)
  have "f32.closed vs" "unat c < 128 * unat fs \<or> fat_eof (fst vs) \<le> c"
    using cl c FAT_32 by (simp_all add: f32.closed_def fat_closed_def fat_entries_def fat_tbl_def)
  from f32.free_chain_spec [OF o this] obtain vs' where S: "free_chain vs c = Some vs'" "f32.same vs vs'"
    "\<forall>k. unat k < 128 * unat fs \<longrightarrow> fat32_tbl sec vs' (unat k) = (if k \<in> chain (fat32_tbl sec vs) (fat_eof (fst vs)) c then 0 else fat32_tbl sec vs (unat k))"
    by blast
  then have "kind (fst vs') = FAT_32" using FAT_32 geometry_fields(1) by (metis f32.same_def)
  with FAT_32 S show ?thesis by (simp add: fat_tbl_def fat_entries_def same32)
qed

end

text \<open>C7: Allocating a cluster, on FAT12, FAT16 and FAT32 alike, takes the lowest free entry below the
  bound, marks it as an end of chain and changes no other entry of the table; without a free entry
  it returns 0 and changes none. Through the sector cache the device outside both copies of the table
  stays as it was.\<close>

theorem alloc_cluster_lowest:
  assumes vol: "block_volume (\<lambda>s. disk_read s did) (\<lambda>s. disk_write s did) okd N sec"
    and N: "N < 2 ^ 32" "512 * unat fs < 2 ^ 32"
    and ok: "fat_ok okd sec N did fs vs" and a: "alloc_cluster vs = (vs', r)"
  shows "fat_same okd sec N did fs vs vs' \<and>
    (if \<exists>j. 2 \<le> j \<and> j < unat (max_cluster (fst vs)) \<and> fat_tbl sec vs j = 0
     then 2 \<le> unat r \<and> unat r < unat (max_cluster (fst vs)) \<and> fat_tbl sec vs (unat r) = 0
       \<and> (\<forall>j. 2 \<le> j \<longrightarrow> j < unat r \<longrightarrow> fat_tbl sec vs j \<noteq> 0)
       \<and> (\<forall>j<fat_entries (fst vs) fs. fat_tbl sec vs' j = (if j = unat r then fat_eof (fst vs) else fat_tbl sec vs j))
     else r = 0 \<and> fat_tbl sec vs' = fat_tbl sec vs)"
  by (rule fat_disk.alloc_any [OF _ ok a]) (use vol N in \<open>simp add: fat_disk_def fat_disk_axioms_def\<close>)

text \<open>A FAT16 volume with an empty table of four sectors on a device of 64 sectors.\<close>

definition sample_fat :: "bytes list vstate" where
  "sample_fat = (zero_volume\<lparr>kind := FAT_16, fat_sectors := 4, fat_lba := 1, fat_csec := FAT_CACHE_NONE,
     sec_per_cluster := 1, data_lba := 10\<rparr>, ram_state (replicate 64 (replicate 512 0)))"

lemma sample_fat_ok:
  "fat_ok (raw_disk.raw_ok ram_read ram_write (ram_ok 64) 0) (\<lambda>s. (!) (world s)) 64 0 4 sample_fat"
  "fat_tbl (\<lambda>s. (!) (world s)) sample_fat k = 0 \<or> 1024 \<le> k"
  "kind (fst sample_fat) = FAT_16" "max_cluster (fst sample_fat) = 1024" "fat_eof (fst sample_fat) = 0xFFF8"
proof -
  have "raw_disk.raw_ok ram_read ram_write (ram_ok 64) 0 (ram_state (replicate 64 (replicate 512 0)))"
    using ram_state_raw by (simp add: ram_raw.raw_ok_def ram_ok_def) (simp add: ram_state_def)
  then show "fat_ok (raw_disk.raw_ok ram_read ram_write (ram_ok 64) 0) (\<lambda>s. (!) (world s)) 64 0 4 sample_fat"
    by (simp add: fat_ok_def fat16_ok_def cache_ok_def sample_fat_def zero_volume_def fat_consts)
  show "kind (fst sample_fat) = FAT_16" "max_cluster (fst sample_fat) = 1024" "fat_eof (fst sample_fat) = 0xFFF8"
    by (simp_all add: sample_fat_def max_cluster_def fat_eof_def)
  show "fat_tbl (\<lambda>s. (!) (world s)) sample_fat k = 0 \<or> 1024 \<le> k"
  proof (cases "1024 \<le> k")
    case False
    then have "k div 256 < 4" "k mod 256 * 2 + 1 < 512" by auto
    then show ?thesis
      by (simp add: fat_tbl_def fat16_tbl_def sample_fat_def fat_view_def ram_state_def of_le16_def nth_append)
  qed simp
qed

lemma alloc_cluster_lowest_witness:
  "\<exists>vs'. alloc_cluster sample_fat = (vs', 2) \<and> fat_tbl (\<lambda>s. (!) (world s)) vs' 2 = 0xFFF8"
proof -
  obtain vs' r where a: "alloc_cluster sample_fat = (vs', r)" by (cases "alloc_cluster sample_fat")
  have free: "\<exists>j. 2 \<le> j \<and> j < unat (max_cluster (fst sample_fat)) \<and> fat_tbl (\<lambda>s. (!) (world s)) sample_fat j = 0"
    using sample_fat_ok(2) [of 2] by (intro exI [of _ 2]) (simp add: sample_fat_ok)
  from alloc_cluster_lowest [OF ram_raw.disk.block_volume_axioms _ _ sample_fat_ok(1) a]
  have *: "2 \<le> unat r" "\<forall>j. 2 \<le> j \<longrightarrow> j < unat r \<longrightarrow> fat_tbl (\<lambda>s. (!) (world s)) sample_fat j \<noteq> 0"
    "\<forall>j<fat_entries (fst sample_fat) 4. fat_tbl (\<lambda>s. (!) (world s)) vs' j =
      (if j = unat r then 0xFFF8 else fat_tbl (\<lambda>s. (!) (world s)) sample_fat j)"
    using free by (simp_all add: sample_fat_ok)
  have "\<not> 2 < unat r" using *(2) sample_fat_ok(2) [of 2] by auto
  then have "unat r = 2" using *(1) by simp
  then have "r = 2" by (simp add: word_unat_eq_iff)
  with a *(3) show ?thesis by (auto simp: fat_entries_def sample_fat_ok)
qed

text \<open>C27: Freeing a chain that starts at a cluster of the table (or at an end mark) returns on every table in
  which each entry names a cluster of the table or ends a chain, also when the chain is a cycle; it clears exactly the clusters of the chain and leaves the other entries, and the
  device outside both copies of the table, as they were.\<close>

theorem free_chain_clears:
  assumes vol: "block_volume (\<lambda>s. disk_read s did) (\<lambda>s. disk_write s did) okd N sec"
    and N: "N < 2 ^ 32" "512 * unat fs < 2 ^ 32"
    and ok: "fat_ok okd sec N did fs vs" and cl: "fat_closed sec fs vs"
    and c: "unat c < fat_entries (fst vs) fs \<or> fat_eof (fst vs) \<le> c"
  shows "\<exists>vs'. free_chain vs c = Some vs' \<and> fat_same okd sec N did fs vs vs'
    \<and> (\<forall>k. unat k < fat_entries (fst vs) fs \<longrightarrow>
        fat_tbl sec vs' (unat k) = (if k \<in> chain (fat_tbl sec vs) (fat_eof (fst vs)) c then 0 else fat_tbl sec vs (unat k)))"
  by (rule fat_disk.free_any [OF _ ok cl c]) (use vol N in \<open>simp add: fat_disk_def fat_disk_axioms_def\<close>)

lemma free_chain_clears_witness: "free_chain sample_fat 5 \<noteq> None"
proof -
  have "fat_closed (\<lambda>s. (!) (world s)) 4 sample_fat"
    unfolding fat_closed_def
  proof (intro allI impI)
    fix k assume k: "k < fat_entries (fst sample_fat) 4"
    then have "fat_tbl (\<lambda>s. (!) (world s)) sample_fat k = 0"
      using sample_fat_ok(2) [of k] by (simp add: fat_entries_def sample_fat_ok(3))
    with k show "unat (fat_tbl (\<lambda>s. (!) (world s)) sample_fat k) < fat_entries (fst sample_fat) 4
        \<or> fat_eof (fst sample_fat) \<le> fat_tbl (\<lambda>s. (!) (world s)) sample_fat k"
      by simp
  qed
  from free_chain_clears [OF ram_raw.disk.block_volume_axioms _ _ sample_fat_ok(1) this, of 5]
  show ?thesis by (auto simp: fat_entries_def sample_fat_ok(3))
qed

end
