(* ===== verification/FatDir.thy ===== *)
theory FatDir
  imports FatTable
begin

text \<open>
  Directories and paths of kernel/fs/fat.c. A directory is read into a buffer of 16 sectors; a
  volume whose clusters are larger makes the code write past it, which is the result None of the
  operations here. The inner None of load_dir and find_in_dir is the code's result -1.
\<close>

definition DIRBUF_SECTORS :: nat where "DIRBUF_SECTORS = 16"

definition FS_ATTR_VOL :: u8 where "FS_ATTR_VOL = 0x08"
definition FS_ATTR_DIR :: u8 where "FS_ATTR_DIR = 0x10"
definition FS_ATTR_ARC :: u8 where "FS_ATTR_ARC = 0x20"

subsection \<open>Directory entries\<close>

record dirent_raw =
  de_name :: bytes
  de_attr :: u8
  de_r1 :: u8
  de_r2 :: u8
  de_ctime :: u16
  de_cdate :: u16
  de_adate :: u16
  de_cluster_hi :: u16
  de_time :: u16
  de_date :: u16
  de_cluster :: u16
  de_size :: u32

text \<open>The packed layout of the structure in a buffer.\<close>

definition dec_dirent :: "bytes \<Rightarrow> nat \<Rightarrow> dirent_raw" where
  "dec_dirent b off =
     \<lparr>de_name = window off 11 b, de_attr = b ! (off + 11), de_r1 = b ! (off + 12), de_r2 = b ! (off + 13),
      de_ctime = of_le16 b (off + 14), de_cdate = of_le16 b (off + 16), de_adate = of_le16 b (off + 18),
      de_cluster_hi = of_le16 b (off + 20), de_time = of_le16 b (off + 22), de_date = of_le16 b (off + 24),
      de_cluster = of_le16 b (off + 26), de_size = of_le32 b (off + 28)\<rparr>"

definition enc_dirent :: "dirent_raw \<Rightarrow> bytes" where
  "enc_dirent e = de_name e @ [de_attr e, de_r1 e, de_r2 e] @ le16 (de_ctime e) @ le16 (de_cdate e)
     @ le16 (de_adate e) @ le16 (de_cluster_hi e) @ le16 (de_time e) @ le16 (de_date e)
     @ le16 (de_cluster e) @ le32 (de_size e)"

definition zero_dirent :: dirent_raw where
  "zero_dirent = \<lparr>de_name = replicate 11 0, de_attr = 0, de_r1 = 0, de_r2 = 0, de_ctime = 0, de_cdate = 0,
     de_adate = 0, de_cluster_hi = 0, de_time = 0, de_date = 0, de_cluster = 0, de_size = 0\<rparr>"

definition dirent_cluster :: "fat_volume \<Rightarrow> dirent_raw \<Rightarrow> u32" where
  "dirent_cluster v e =
     (if kind v = FAT_32 then push_bit 16 (ucast (de_cluster_hi e)) OR ucast (de_cluster e)
      else ucast (de_cluster e))"

definition dirent_set_cluster :: "fat_volume \<Rightarrow> dirent_raw \<Rightarrow> u32 \<Rightarrow> dirent_raw" where
  "dirent_set_cluster v e c =
     e\<lparr>de_cluster := ucast (c AND 0xFFFF),
       de_cluster_hi := (if kind v = FAT_32 then ucast (drop_bit 16 c AND 0xFFFF) else 0)\<rparr>"

subsection \<open>8.3 names\<close>

text \<open>The text of a C string up to its terminator is converted: leading spaces are skipped, at most
  eight characters before the first dot and three after it are kept, in upper case.\<close>

definition upper8 :: "u8 \<Rightarrow> u8" where
  "upper8 c = of_int (toupper (uint c))"

definition name_to_83 :: "bytes \<Rightarrow> bytes" where
  "name_to_83 inp =
     (let t = dropWhile (\<lambda>c. c = 32) (chars inp);
          stem = takeWhile (\<lambda>c. c \<noteq> 46) t;
          ext = drop 1 (dropWhile (\<lambda>c. c \<noteq> 46) t);
          s8 = map upper8 (take 8 stem);
          e3 = map upper8 (take 3 ext)
      in s8 @ replicate (8 - length s8) 32 @ e3 @ replicate (3 - length e3) 32)"

text \<open>The result is the text before the terminator that the code writes.\<close>

definition name_from_83 :: "bytes \<Rightarrow> bytes" where
  "name_from_83 raw =
     (let stem = takeWhile (\<lambda>c. c \<noteq> 32) (take 8 raw)
      in if raw ! 8 \<noteq> 32 then stem @ [46] @ takeWhile (\<lambda>c. c \<noteq> 32) (take 3 (drop 8 raw)) else stem)"

subsection \<open>Reading, writing and searching a directory\<close>

definition load_dir :: "'w vstate \<Rightarrow> u32 \<Rightarrow> bytes option option" where
  "load_dir vs dir_cluster =
     (let v = fst vs in
      if dir_cluster = 0 \<and> kind v \<noteq> FAT_32 then Some (Some (take (root_bytes v) (root v)))
      else if DIRBUF_SECTORS < unat (sec_per_cluster v) then None
      else Some (read_cluster vs (if dir_cluster = 0 then root_dir_cluster v else dir_cluster)))"

text \<open>For the fixed root the buffer is the root itself, so that a change of it is in the volume
  before anything is written.\<close>

definition store_dir :: "'w vstate \<Rightarrow> u32 \<Rightarrow> bytes \<Rightarrow> 'w vstate \<times> bool" where
  "store_dir vs dir_cluster buf =
     (case vs of (v, s) \<Rightarrow>
        if dir_cluster = 0 \<and> kind v \<noteq> FAT_32
        then flush_root (v\<lparr>root := blit (root v) 0 buf, root_dirty := True\<rparr>, s)
        else write_cluster vs (if dir_cluster = 0 then root_dir_cluster v else dir_cluster) buf)"

fun scan_dir :: "bytes \<Rightarrow> bytes \<Rightarrow> nat list \<Rightarrow> nat option" where
  "scan_dir buf name83 [] = None"
| "scan_dir buf name83 (i # is) =
     (let e0 = buf ! (i * 32) in
      if e0 = 0 then None
      else if e0 = 0xE5 then scan_dir buf name83 is
      else if buf ! (i * 32 + 11) AND FS_ATTR_VOL \<noteq> 0 then scan_dir buf name83 is
      else if memcmp (window (i * 32) 11 buf) name83 11 = 0 then Some i
      else scan_dir buf name83 is)"

definition find_in_dir :: "'w vstate \<Rightarrow> u32 \<Rightarrow> bytes \<Rightarrow> (nat \<times> dirent_raw) option option" where
  "find_in_dir vs dir_cluster name83 =
     (case load_dir vs dir_cluster of
        None \<Rightarrow> None
      | Some None \<Rightarrow> Some None
      | Some (Some buf) \<Rightarrow>
          Some (map_option (\<lambda>i. (i * 32, dec_dirent buf (i * 32)))
            (scan_dir buf name83 [0..<length buf div 32])))"

subsection \<open>The file system state\<close>

record handle =
  in_use :: bool
  is_dir :: bool
  drive :: nat
  first_cluster :: u32
  fsize :: u32
  pos :: u32
  parent_dir_cluster :: u32
  dirent_offset :: u32
  hbuf :: bytes
  buf_valid_cluster :: int

record dir_handle =
  dh_in_use :: bool
  dh_vol :: nat
  dh_cluster :: u32
  entry_index :: nat

record 'w fsys =
  fdev :: "'w dstate"
  vols :: "fat_volume list"
  current_drive :: int
  handles :: "handle list"
  dirhs :: "dir_handle list"

definition vol_state :: "'w fsys \<Rightarrow> nat \<Rightarrow> 'w vstate" where
  "vol_state F d = (vols F ! d, fdev F)"

definition put_vstate :: "'w fsys \<Rightarrow> nat \<Rightarrow> 'w vstate \<Rightarrow> 'w fsys" where
  "put_vstate F d vs = F\<lparr>vols := (vols F)[d := fst vs], fdev := snd vs\<rparr>"

subsection \<open>Paths\<close>

definition drive_idx :: "u8 \<Rightarrow> int" where
  "drive_idx letter0 =
     (let letter = (if 97 \<le> letter0 \<and> letter0 \<le> 122 then letter0 - 32 else letter0)
      in if letter < 65 \<or> 65 + FS_DRIVE_MAX \<le> unat letter then -1 else uint letter - 65)"

text \<open>-1 for a bad drive letter, -2 for no drive given.\<close>

definition parse_drive :: "bytes \<Rightarrow> int \<times> bytes" where
  "parse_drive path =
     (if byte_at path 0 \<noteq> 0 \<and> byte_at path 1 = 58 then
        (let d = drive_idx (byte_at path 0) in if d < 0 then (-1, path) else (d, drop 2 path))
      else (-2, path))"

definition is_slash :: "u8 \<Rightarrow> bool" where
  "is_slash c \<longleftrightarrow> c = 92 \<or> c = 47"

text \<open>The next component, cut to twelve characters, and the rest of the path.\<close>

definition split_next :: "bytes \<Rightarrow> (bytes \<times> bytes) option" where
  "split_next p =
     (let q = dropWhile is_slash p
      in if q = [] then None
         else Some (take 12 (takeWhile (\<lambda>c. \<not> is_slash c) q), dropWhile (\<lambda>c. \<not> is_slash c) q))"

lemma split_next_shorter: "split_next p = Some (c, q) \<Longrightarrow> length q < length p"
proof -
  assume a: "split_next p = Some (c, q)"
  let ?d = "dropWhile is_slash p"
  from a have ne: "?d \<noteq> []" and q: "q = dropWhile (\<lambda>c. \<not> is_slash c) ?d"
    by (auto simp: split_next_def Let_def split: if_splits)
  from ne have "\<not> is_slash (hd ?d)" by (rule hd_dropWhile)
  with ne have "length (dropWhile (\<lambda>c. \<not> is_slash c) ?d) < length ?d"
    by (cases ?d) (auto simp: le_imp_less_Suc length_dropWhile_le)
  also have "\<dots> \<le> length p" by (rule length_dropWhile_le)
  finally show ?thesis using q by simp
qed

definition dotdot83 :: bytes where
  "dotdot83 = [46, 46] @ replicate 9 32"

definition dot83 :: bytes where
  "dot83 = [46] @ replicate 10 32"

text \<open>Going to the parent: stays where no entry for it is found.\<close>

definition parent_of :: "'w vstate \<Rightarrow> u32 \<Rightarrow> u32 option" where
  "parent_of vs cluster =
     (if cluster = 0 then Some 0
      else case find_in_dir vs cluster dotdot83 of
             None \<Rightarrow> None
           | Some None \<Rightarrow> Some cluster
           | Some (Some (_, e)) \<Rightarrow> Some (dirent_cluster (fst vs) e))"

text \<open>One intermediate component: Some None is the code's failure.\<close>

definition enter_dir :: "'w vstate \<Rightarrow> u32 \<Rightarrow> bytes \<Rightarrow> u32 option option" where
  "enter_dir vs cluster prev =
     (if prev = [46] then Some (Some cluster)
      else if prev = [46, 46] then map_option Some (parent_of vs cluster)
      else case find_in_dir vs cluster (name_to_83 prev) of
             None \<Rightarrow> None
           | Some None \<Rightarrow> Some None
           | Some (Some (_, e)) \<Rightarrow>
               if de_attr e AND FS_ATTR_DIR = 0 then Some None
               else Some (Some (dirent_cluster (fst vs) e)))"

text \<open>The component loop of walk_path: the last component and the directory it is looked up in.\<close>

function walk_comps :: "'w vstate \<Rightarrow> bytes \<Rightarrow> u32 \<Rightarrow> bytes option \<Rightarrow> (u32 \<times> bytes option) option option" where
  "walk_comps vs rest cluster prev =
     (case split_next rest of
        None \<Rightarrow> Some (Some (cluster, prev))
      | Some (nm, rest') \<Rightarrow>
          (case prev of
             None \<Rightarrow> walk_comps vs rest' cluster (Some nm)
           | Some p \<Rightarrow>
               (case enter_dir vs cluster p of
                  None \<Rightarrow> None
                | Some None \<Rightarrow> Some None
                | Some (Some cluster') \<Rightarrow> walk_comps vs rest' cluster' (Some nm))))"
  by pat_completeness auto
termination
  by (relation "measure (\<lambda>(vs, rest, cluster, prev). length rest)") (auto dest: split_next_shorter)

declare walk_comps.simps [simp del]

record walk_result =
  wr_vol :: nat
  parent_cluster :: u32
  leaf83 :: bytes
  leaf :: "(nat \<times> dirent_raw) option"

definition walk_path :: "'w fsys \<Rightarrow> bytes \<Rightarrow> bool \<Rightarrow> walk_result option option" where
  "walk_path F path allow_missing_leaf =
     (case parse_drive (chars path) of (d0, rest) \<Rightarrow>
        let d = (if d0 = -2 then current_drive F else d0) in
        if d < 0 \<or> kind (vols F ! nat d) = FAT_NONE then Some None
        else
          let vs = vol_state F (nat d); v = fst vs;
              absolute = (rest \<noteq> [] \<and> is_slash (hd rest));
              start = (if absolute then 0 else if cwd_is_root v then 0 else cwd_cluster v)
          in (case walk_comps vs rest start None of
                None \<Rightarrow> None
              | Some None \<Rightarrow> Some None
              | Some (Some (cluster, None)) \<Rightarrow>
                  Some (Some \<lparr>wr_vol = nat d, parent_cluster = cluster, leaf83 = replicate 11 32, leaf = None\<rparr>)
              | Some (Some (cluster, Some prev)) \<Rightarrow>
                  if prev = [46] then
                    Some (Some \<lparr>wr_vol = nat d, parent_cluster = cluster, leaf83 = dot83, leaf = None\<rparr>)
                  else if prev = [46, 46] then
                    map_option (\<lambda>c. Some \<lparr>wr_vol = nat d, parent_cluster = c, leaf83 = dotdot83, leaf = None\<rparr>)
                      (parent_of vs cluster)
                  else
                    (case find_in_dir vs cluster (name_to_83 prev) of
                       None \<Rightarrow> None
                     | Some lf \<Rightarrow>
                         if lf = None \<and> \<not> allow_missing_leaf then Some None
                         else Some (Some \<lparr>wr_vol = nat d, parent_cluster = cluster,
                                          leaf83 = name_to_83 prev, leaf = lf\<rparr>))))"

definition is_dot_marker :: "bytes \<Rightarrow> bool" where
  "is_dot_marker l \<longleftrightarrow> l ! 0 = 46 \<and> l ! 1 = 32 \<and> (\<forall>i \<in> set [2..<11]. l ! i = 32)"

definition is_dotdot_marker :: "bytes \<Rightarrow> bool" where
  "is_dotdot_marker l \<longleftrightarrow> l ! 0 = 46 \<and> l ! 1 = 46 \<and> (\<forall>i \<in> set [2..<11]. l ! i = 32)"

subsection \<open>The current directory\<close>

fun pop_len :: "bytes \<Rightarrow> nat \<Rightarrow> nat" where
  "pop_len path len = (if 1 < len \<and> path ! (len - 1) \<noteq> 92 then pop_len path (len - 1) else len)"

declare pop_len.simps [simp del]

definition cwd_pop :: "bytes \<Rightarrow> bytes" where
  "cwd_pop path =
     (let len0 = pop_len path (strlen path);
          len = (if 1 < len0 then len0 - 1 else len0)
      in path[(if len \<noteq> 0 then len else 1) := 0])"

text \<open>None when the terminator is written past the FS_PATH_MAX bytes of the buffer.\<close>

definition cwd_append :: "bytes \<Rightarrow> bytes \<Rightarrow> bytes option" where
  "cwd_append path name =
     (let len0 = strlen path;
          path1 = (if 1 < len0 then path[len0 := 92] else path);
          len1 = (if 1 < len0 then len0 + 1 else len0);
          t = take (FS_PATH_MAX - 1 - len1) (chars name);
          len2 = len1 + length t
      in if FS_PATH_MAX \<le> len2 then None else Some ((blit path1 len1 t)[len2 := 0]))"

definition fs_chdir :: "'w fsys \<Rightarrow> bytes \<Rightarrow> ('w fsys \<times> int) option" where
  "fs_chdir F path =
     (case walk_path F path False of
        None \<Rightarrow> None
      | Some None \<Rightarrow> Some (F, -1)
      | Some (Some r) \<Rightarrow>
          let d = wr_vol r; v = vols F ! d;
              is_dotdot = (leaf r = None \<and> is_dotdot_marker (leaf83 r))
          in if (\<exists>x \<in> set_option (leaf r). de_attr (snd x) AND FS_ATTR_DIR = 0) then Some (F, -1)
             else let target = (case leaf r of Some (_, e) \<Rightarrow> dirent_cluster v e | None \<Rightarrow> parent_cluster r)
                  in if target = 0 then
                       Some (F\<lparr>vols := (vols F)[d := v\<lparr>cwd_is_root := True, cwd_cluster := 0,
                               cwd_path := strcpy (cwd_path v) 0 [92]\<rparr>]\<rparr>, 0)
                     else
                       (case (if is_dotdot then Some (cwd_pop (cwd_path v))
                              else case leaf r of
                                     None \<Rightarrow> Some (cwd_path v)
                                   | Some (_, e) \<Rightarrow>
                                       (let name = name_from_83 (de_name e)
                                        in if chars name = [46, 46] then Some (cwd_pop (cwd_path v))
                                           else if chars name = [46] then Some (cwd_path v)
                                           else cwd_append (cwd_path v) name)) of
                          None \<Rightarrow> None
                        | Some p \<Rightarrow>
                            Some (F\<lparr>vols := (vols F)[d := v\<lparr>cwd_is_root := False, cwd_cluster := target,
                                    cwd_path := p\<rparr>]\<rparr>, 0)))"

end
