(* ===== verification/FatFile.thy ===== *)
theory FatFile
  imports FatDir
begin

text \<open>
  Files and directories of kernel/fs/fat.c: the handle tables and the operations on paths and
  handles. None is a call without a defined result: a division by a cluster size of zero (the
  volume of an open handle was unmounted), a cluster larger than the 16-sector buffers, or a loop
  over the FAT that does not end. The integers returned are the code's.
\<close>

definition MAX_HANDLES :: nat where "MAX_HANDLES = 8"
definition MAX_DIRHS :: nat where "MAX_DIRHS = 8"

subsection \<open>Opening and closing\<close>

definition alloc_handle :: "'w fsys \<Rightarrow> nat option" where
  "alloc_handle F = first_idx (\<lambda>i. \<not> in_use (handles F ! i)) MAX_HANDLES"

definition fs_open :: "'w fsys \<Rightarrow> bytes \<Rightarrow> ('w fsys \<times> int) option" where
  "fs_open F path =
     (case walk_path F path False of
        None \<Rightarrow> None
      | Some None \<Rightarrow> Some (F, -1)
      | Some (Some r) \<Rightarrow>
          (case leaf r of
             None \<Rightarrow> Some (F, -1)
           | Some (off, e) \<Rightarrow>
               if de_attr e AND FS_ATTR_DIR \<noteq> 0 then Some (F, -1)
               else (case alloc_handle F of
                       None \<Rightarrow> Some (F, -1)
                     | Some h \<Rightarrow>
                         Some (F\<lparr>handles := (handles F)[h := (handles F ! h)\<lparr>in_use := True, is_dir := False,
                                 drive := wr_vol r, first_cluster := dirent_cluster (vols F ! wr_vol r) e,
                                 fsize := de_size e, pos := 0, parent_dir_cluster := parent_cluster r,
                                 dirent_offset := of_nat off, buf_valid_cluster := -1\<rparr>]\<rparr>, int h))))"

definition bad_handle :: "'w fsys \<Rightarrow> int \<Rightarrow> bool" where
  "bad_handle F h \<longleftrightarrow> h < 0 \<or> int MAX_HANDLES \<le> h \<or> \<not> in_use (handles F ! nat h)"

definition fs_size :: "'w fsys \<Rightarrow> int \<Rightarrow> int" where
  "fs_size F h = (if bad_handle F h then -1 else sint (fsize (handles F ! nat h)))"

definition fs_close :: "'w fsys \<Rightarrow> int \<Rightarrow> 'w fsys \<times> int" where
  "fs_close F h =
     (if bad_handle F h then (F, -1)
      else (F\<lparr>handles := (handles F)[nat h := (handles F ! nat h)\<lparr>in_use := False\<rparr>]\<rparr>, 0))"

subsection \<open>Reading\<close>

text \<open>The loop of cluster_after, with its counter.\<close>

fun cluster_after :: "'w vstate \<Rightarrow> u32 \<Rightarrow> nat \<Rightarrow> 'w vstate \<times> u32" where
  "cluster_after vs c 0 = (vs, c)"
| "cluster_after vs c (Suc n) =
     (if 2 \<le> c \<and> c < fat_eof (fst vs)
      then (case fat_get vs c of (vs1, c1) \<Rightarrow> cluster_after vs1 c1 n)
      else (vs, c))"

definition cluster_size :: "fat_volume \<Rightarrow> u32" where
  "cluster_size v = ucast (sec_per_cluster v) * 512"

lemma unat_cluster_size: "unat (cluster_size v) = unat (sec_per_cluster v) * 512"
proof -
  have "unat (sec_per_cluster v) < 256" using unsigned_less [of "sec_per_cluster v"] by simp
  then show ?thesis
    by (simp add: cluster_size_def unat_word_ariths unsigned_ucast_eq take_bit_nat_eq_self)
qed

lemma in_cluster_less:
  assumes "sec_per_cluster v \<noteq> 0"
  shows "unat (p mod cluster_size v) < unat (cluster_size v)"
proof -
  have "0 < unat (sec_per_cluster v)" using assms by (simp add: unat_gt_0)
  then have "0 < unat (cluster_size v)" by (simp add: unat_cluster_size)
  then show ?thesis by (simp add: unat_mod)
qed

function read_loop :: "'w vstate \<Rightarrow> handle \<Rightarrow> nat \<Rightarrow> bytes \<Rightarrow> ('w vstate \<times> handle \<times> bytes) option" where
  "read_loop vs f n out =
     (let v = fst vs; cs = cluster_size v; inc = unat (pos f mod cs) in
      if n = 0 \<or> \<not> pos f < fsize f then Some (vs, f, out)
      else if sec_per_cluster v = 0 then None
      else case cluster_after vs (first_cluster f) (unat (pos f div cs)) of (vs1, c) \<Rightarrow>
        if fat_eof v \<le> c then Some (vs1, f, out)
        else if DIRBUF_SECTORS < unat (sec_per_cluster v) then None
        else case read_cluster vs1 c of
          None \<Rightarrow> Some (vs1, f, out)
        | Some cbuf \<Rightarrow>
            let avail = min (min (unat cs - inc) (unat (fsize f - pos f))) n
            in read_loop vs1 (f\<lparr>pos := pos f + of_nat avail\<rparr>) (n - avail) (out @ window inc avail cbuf))"
  by pat_completeness auto
termination
proof (relation "measure (\<lambda>(vs, f, n, out). n)", goal_cases)
  case 1
  then show ?case by simp
next
  case (2 vs f n out v cs inc)
  then have "unat (pos f mod cs) < unat cs" using in_cluster_less [of v "pos f"] by simp
  moreover have "fsize f \<noteq> pos f" using 2 by auto
  then have "0 < unat (fsize f - pos f)" by (simp add: unat_gt_0)
  ultimately show ?case using 2 by simp
qed

declare read_loop.simps [simp del]

definition fs_read :: "'w fsys \<Rightarrow> int \<Rightarrow> nat \<Rightarrow> ('w fsys \<times> bytes \<times> int) option" where
  "fs_read F h n =
     (if bad_handle F h then Some (F, [], -1)
      else let f = handles F ! nat h in
        (case read_loop (vol_state F (drive f)) f n [] of
           None \<Rightarrow> None
         | Some (vs, f', out) \<Rightarrow>
             Some ((put_vstate F (drive f) vs)\<lparr>handles := (handles F)[nat h := f']\<rparr>, out,
                   sint (pos f' - pos f))))"

subsection \<open>Writing\<close>

text \<open>Following the chain to the cluster of the position, extending it where it ends; the inner None
  is the jump to done.\<close>

primrec seek_alloc :: "nat \<Rightarrow> 'w vstate \<Rightarrow> u32 \<Rightarrow> 'w vstate \<times> u32 option" where
  "seek_alloc 0 vs c = (vs, Some c)"
| "seek_alloc (Suc i) vs c =
     (case fat_get vs c of (vs1, nx) \<Rightarrow>
        if fat_eof (fst vs1) \<le> nx then
          (case alloc_cluster vs1 of (vs2, nc) \<Rightarrow>
             if nc = 0 then (vs2, None)
             else seek_alloc i (fat_set (fat_set vs2 c nc) nc (fat_eof (fst vs2))) nc)
        else seek_alloc i vs1 nx)"

function write_loop :: "'w vstate \<Rightarrow> handle \<Rightarrow> bytes \<Rightarrow> nat \<Rightarrow> ('w vstate \<times> handle \<times> nat) option" where
  "write_loop vs f bs cnt =
     (let v = fst vs; cs = cluster_size v; inc = unat (pos f mod cs) in
      if bs = [] then Some (vs, f, cnt)
      else if sec_per_cluster v = 0 then None
      else case seek_alloc (unat (pos f div cs)) vs (first_cluster f) of
        (vs1, None) \<Rightarrow> Some (vs1, f, cnt)
      | (vs1, Some c) \<Rightarrow>
          if DIRBUF_SECTORS < unat (sec_per_cluster v) then None
          else case read_cluster vs1 c of
            None \<Rightarrow> Some (vs1, f, cnt)
          | Some cbuf \<Rightarrow>
              let chunk = min (unat cs - inc) (length bs)
              in (case write_cluster vs1 c (blit cbuf inc (take chunk bs)) of
                    (vs2, False) \<Rightarrow> Some (vs2, f, cnt)
                  | (vs2, True) \<Rightarrow>
                      write_loop vs2 (f\<lparr>pos := pos f + of_nat chunk\<rparr>) (drop chunk bs) (cnt + chunk)))"
  by pat_completeness auto
termination
proof (relation "measure (\<lambda>(vs, f, bs, cnt). length bs)", goal_cases)
  case 1
  then show ?case by simp
next
  case (2 vs f bs cnt v cs inc)
  then have "unat (pos f mod cs) < unat cs" using in_cluster_less [of v "pos f"] by simp
  with 2 show ?case by (cases bs) auto
qed

declare write_loop.simps [simp del]

text \<open>Size and first cluster of the file, put into its directory entry.\<close>

definition update_dirent :: "'w vstate \<Rightarrow> handle \<Rightarrow> 'w vstate option" where
  "update_dirent vs f =
     (case load_dir vs (parent_dir_cluster f) of
        None \<Rightarrow> None
      | Some None \<Rightarrow> Some vs
      | Some (Some buf) \<Rightarrow>
          let off = unat (dirent_offset f);
              e = (dirent_set_cluster (fst vs) (dec_dirent buf off) (first_cluster f))\<lparr>de_size := fsize f\<rparr>
          in Some (fst (store_dir vs (parent_dir_cluster f) (blit buf off (enc_dirent e)))))"

definition fs_write :: "'w fsys \<Rightarrow> int \<Rightarrow> bytes \<Rightarrow> ('w fsys \<times> int) option" where
  "fs_write F h bs =
     (if bad_handle F h then Some (F, -1)
      else
        let f = handles F ! nat h; d = drive f; vs = vol_state F d;
            (vs0, c0) = (if first_cluster f = 0 then alloc_cluster vs else (vs, first_cluster f))
        in if c0 = 0 then Some (put_vstate F d vs0, -1)
           else (case write_loop vs0 (f\<lparr>first_cluster := c0\<rparr>) bs 0 of
                   None \<Rightarrow> None
                 | Some (vs1, f1, cnt) \<Rightarrow>
                     let f2 = f1\<lparr>fsize := (if fsize f1 < pos f1 then pos f1 else fsize f1)\<rparr>
                     in (case update_dirent vs1 f2 of
                           None \<Rightarrow> None
                         | Some vs2 \<Rightarrow>
                             Some ((put_vstate F d (fst (flush_fat vs2)))\<lparr>handles := (handles F)[nat h := f2]\<rparr>,
                                   int cnt))))"

subsection \<open>Creating, deleting and renaming\<close>

definition dir_add_entry :: "'w vstate \<Rightarrow> u32 \<Rightarrow> dirent_raw \<Rightarrow> ('w vstate \<times> bool) option" where
  "dir_add_entry vs dir_cluster src =
     (case load_dir vs dir_cluster of
        None \<Rightarrow> None
      | Some None \<Rightarrow> Some (vs, False)
      | Some (Some buf) \<Rightarrow>
          (case first_idx (\<lambda>i. buf ! (i * 32) = 0 \<or> buf ! (i * 32) = 0xE5) (length buf div 32) of
             None \<Rightarrow> Some (vs, False)
           | Some i \<Rightarrow> Some (store_dir vs dir_cluster (blit buf (i * 32) (enc_dirent src)))))"

definition dir_update_entry :: "'w vstate \<Rightarrow> u32 \<Rightarrow> nat \<Rightarrow> dirent_raw \<Rightarrow> ('w vstate \<times> bool) option" where
  "dir_update_entry vs dir_cluster off e =
     (case load_dir vs dir_cluster of
        None \<Rightarrow> None
      | Some None \<Rightarrow> Some (vs, False)
      | Some (Some buf) \<Rightarrow>
          if length buf < off + 32 then Some (vs, False)
          else Some (store_dir vs dir_cluster (blit buf off (enc_dirent e))))"

text \<open>The names fs_create and fs_mkdir refuse.\<close>

definition bad_new_leaf :: "walk_result \<Rightarrow> bool" where
  "bad_new_leaf r \<longleftrightarrow> leaf r \<noteq> None \<or> is_dot_marker (leaf83 r) \<or> is_dotdot_marker (leaf83 r) \<or> leaf83 r ! 0 = 32"

definition fs_create :: "'w fsys \<Rightarrow> bytes \<Rightarrow> ('w fsys \<times> int) option" where
  "fs_create F path =
     (case walk_path F path True of
        None \<Rightarrow> None
      | Some None \<Rightarrow> Some (F, -1)
      | Some (Some r) \<Rightarrow>
          if bad_new_leaf r then Some (F, -1)
          else (case dir_add_entry (vol_state F (wr_vol r)) (parent_cluster r)
                       (zero_dirent\<lparr>de_name := leaf83 r, de_attr := FS_ATTR_ARC\<rparr>) of
                  None \<Rightarrow> None
                | Some (vs, ok) \<Rightarrow> Some (put_vstate F (wr_vol r) vs, if ok then 0 else -1)))"

text \<open>Marking the entry deleted, shared by fs_unlink and fs_rmdir.\<close>

definition erase_entry :: "'w fsys \<Rightarrow> walk_result \<Rightarrow> nat \<Rightarrow> 'w vstate \<Rightarrow> ('w fsys \<times> int) option" where
  "erase_entry F r off vs =
     (case load_dir vs (parent_cluster r) of
        None \<Rightarrow> None
      | Some None \<Rightarrow> Some (put_vstate F (wr_vol r) vs, -1)
      | Some (Some buf) \<Rightarrow>
          Some (put_vstate F (wr_vol r)
                  (fst (flush_fat (fst (store_dir vs (parent_cluster r) (buf[off := 0xE5]))))), 0))"

definition fs_unlink :: "'w fsys \<Rightarrow> bytes \<Rightarrow> ('w fsys \<times> int) option" where
  "fs_unlink F path =
     (case walk_path F path False of
        None \<Rightarrow> None
      | Some None \<Rightarrow> Some (F, -1)
      | Some (Some r) \<Rightarrow>
          (case leaf r of
             None \<Rightarrow> Some (F, -1)
           | Some (off, e) \<Rightarrow>
               if de_attr e AND FS_ATTR_DIR \<noteq> 0 then Some (F, -1)
               else let vs = vol_state F (wr_vol r); fc = dirent_cluster (fst vs) e
                    in (case (if fc \<noteq> 0 then free_chain vs fc else Some vs) of
                          None \<Rightarrow> None
                        | Some vs1 \<Rightarrow> erase_entry F r off vs1)))"

definition fs_rename :: "'w fsys \<Rightarrow> bytes \<Rightarrow> bytes \<Rightarrow> ('w fsys \<times> int) option" where
  "fs_rename F oldp newp =
     (case walk_path F oldp False of
        None \<Rightarrow> None
      | Some None \<Rightarrow> Some (F, -1)
      | Some (Some ro) \<Rightarrow>
          (case leaf ro of
             None \<Rightarrow> Some (F, -1)
           | Some (off, e) \<Rightarrow>
               (case walk_path F newp True of
                  None \<Rightarrow> None
                | Some None \<Rightarrow> Some (F, -1)
                | Some (Some rn) \<Rightarrow>
                    if leaf rn \<noteq> None then Some (F, -1)
                    else if wr_vol ro \<noteq> wr_vol rn \<or> parent_cluster ro \<noteq> parent_cluster rn then Some (F, -1)
                    else (case dir_update_entry (vol_state F (wr_vol ro)) (parent_cluster ro) off
                                 (e\<lparr>de_name := leaf83 rn\<rparr>) of
                            None \<Rightarrow> None
                          | Some (vs, ok) \<Rightarrow> Some (put_vstate F (wr_vol ro) vs, if ok then 0 else -1)))))"

text \<open>The contents of a new directory: the entries . and .. and zeros.\<close>

definition new_dir_buf :: "fat_volume \<Rightarrow> u32 \<Rightarrow> u32 \<Rightarrow> bytes" where
  "new_dir_buf v c parent =
     (let dot = dirent_set_cluster v (zero_dirent\<lparr>de_name := dot83, de_attr := FS_ATTR_DIR\<rparr>) c;
          ddot = dirent_set_cluster v (zero_dirent\<lparr>de_name := dotdot83, de_attr := FS_ATTR_DIR\<rparr>) parent
      in blit (blit (replicate (cluster_bytes v) 0) 0 (enc_dirent dot)) 32 (enc_dirent ddot))"

definition fs_mkdir :: "'w fsys \<Rightarrow> bytes \<Rightarrow> ('w fsys \<times> int) option" where
  "fs_mkdir F path =
     (case walk_path F path True of
        None \<Rightarrow> None
      | Some None \<Rightarrow> Some (F, -1)
      | Some (Some r) \<Rightarrow>
          if bad_new_leaf r then Some (F, -1)
          else
            let d = wr_vol r
            in (case alloc_cluster (vol_state F d) of (vs, c) \<Rightarrow>
                  if c = 0 then Some (put_vstate F d vs, -1)
                  else if DIRBUF_SECTORS < unat (sec_per_cluster (fst vs)) then None
                  else (case write_cluster vs c (new_dir_buf (fst vs) c (parent_cluster r)) of
                          (vs1, False) \<Rightarrow> Some (put_vstate F d vs1, -1)
                        | (vs1, True) \<Rightarrow>
                            (case dir_add_entry vs1 (parent_cluster r)
                                    (dirent_set_cluster (fst vs1)
                                       (zero_dirent\<lparr>de_name := leaf83 r, de_attr := FS_ATTR_DIR\<rparr>) c) of
                               None \<Rightarrow> None
                             | Some (vs2, False) \<Rightarrow> Some (put_vstate F d vs2, -1)
                             | Some (vs2, True) \<Rightarrow> Some (put_vstate F d (fst (flush_fat vs2)), 0)))))"

text \<open>The emptiness test of fs_rmdir from an entry on.\<close>

fun dir_empty_from :: "bytes \<Rightarrow> nat list \<Rightarrow> bool" where
  "dir_empty_from buf [] = True"
| "dir_empty_from buf (i # is) =
     (if buf ! (i * 32) = 0 then True
      else if buf ! (i * 32) \<noteq> 0xE5 then False
      else dir_empty_from buf is)"

definition fs_rmdir :: "'w fsys \<Rightarrow> bytes \<Rightarrow> ('w fsys \<times> int) option" where
  "fs_rmdir F path =
     (case walk_path F path False of
        None \<Rightarrow> None
      | Some None \<Rightarrow> Some (F, -1)
      | Some (Some r) \<Rightarrow>
          (case leaf r of
             None \<Rightarrow> Some (F, -1)
           | Some (off, e) \<Rightarrow>
               if de_attr e AND FS_ATTR_DIR = 0 then Some (F, -1)
               else let vs = vol_state F (wr_vol r); c = dirent_cluster (fst vs) e
                    in (case load_dir vs c of
                          None \<Rightarrow> None
                        | Some None \<Rightarrow> Some (F, -1)
                        | Some (Some buf) \<Rightarrow>
                            if \<not> dir_empty_from buf [2..<length buf div 32] then Some (F, -1)
                            else (case free_chain vs c of
                                    None \<Rightarrow> None
                                  | Some vs1 \<Rightarrow> erase_entry F r off vs1))))"

subsection \<open>Directory iteration\<close>

record fs_dirent =
  fd_name :: bytes
  fd_size :: u32
  fd_attr :: u8
  fd_cluster :: u32

definition fs_opendir :: "'w fsys \<Rightarrow> bytes \<Rightarrow> ('w fsys \<times> int) option" where
  "fs_opendir F path =
     (case walk_path F path False of
        None \<Rightarrow> None
      | Some None \<Rightarrow> Some (F, -1)
      | Some (Some r) \<Rightarrow>
          (case (case leaf r of
                   None \<Rightarrow> Some (parent_cluster r)
                 | Some (off, e) \<Rightarrow>
                     if leaf83 r ! 0 = 32 then Some (parent_cluster r)
                     else if de_attr e AND FS_ATTR_DIR = 0 then None
                     else Some (dirent_cluster (vols F ! wr_vol r) e)) of
             None \<Rightarrow> Some (F, -1)
           | Some c \<Rightarrow>
               (case first_idx (\<lambda>i. \<not> dh_in_use (dirhs F ! i)) MAX_DIRHS of
                  None \<Rightarrow> Some (F, -1)
                | Some i \<Rightarrow>
                    Some (F\<lparr>dirhs := (dirhs F)[i := \<lparr>dh_in_use = True, dh_vol = wr_vol r, dh_cluster = c,
                            entry_index = 0\<rparr>]\<rparr>, int i + 1))))"

text \<open>The scan of fs_readdir: the index after it, and the entry found.\<close>

function readdir_loop :: "bytes \<Rightarrow> nat \<Rightarrow> nat \<times> nat option" where
  "readdir_loop buf i =
     (if length buf div 32 \<le> i then (i, None)
      else if buf ! (i * 32) = 0 then (i + 1, None)
      else if buf ! (i * 32) = 0xE5 then readdir_loop buf (i + 1)
      else if buf ! (i * 32 + 11) AND FS_ATTR_VOL \<noteq> 0 then readdir_loop buf (i + 1)
      else (i + 1, Some i))"
  by pat_completeness auto
termination
  by (relation "measure (\<lambda>(buf, i). length buf div 32 - i)") auto

declare readdir_loop.simps [simp del]

definition fs_readdir :: "'w fsys \<Rightarrow> int \<Rightarrow> ('w fsys \<times> fs_dirent option) option" where
  "fs_readdir F h =
     (if h \<le> 0 \<or> int MAX_DIRHS < h \<or> \<not> dh_in_use (dirhs F ! nat (h - 1)) then Some (F, None)
      else
        let k = nat (h - 1); dh = dirhs F ! k; vs = vol_state F (dh_vol dh)
        in (case load_dir vs (dh_cluster dh) of
              None \<Rightarrow> None
            | Some None \<Rightarrow> Some (F, None)
            | Some (Some buf) \<Rightarrow>
                (case readdir_loop buf (entry_index dh) of (j, r) \<Rightarrow>
                   Some (F\<lparr>dirhs := (dirhs F)[k := dh\<lparr>entry_index := j\<rparr>]\<rparr>,
                         map_option (\<lambda>i. let e = dec_dirent buf (i * 32)
                                         in \<lparr>fd_name = name_from_83 (de_name e), fd_size = de_size e,
                                             fd_attr = de_attr e, fd_cluster = dirent_cluster (fst vs) e\<rparr>) r))))"

definition fs_closedir :: "'w fsys \<Rightarrow> int \<Rightarrow> 'w fsys \<times> int" where
  "fs_closedir F h =
     (if h \<le> 0 \<or> int MAX_DIRHS < h then (F, -1)
      else (F\<lparr>dirhs := (dirhs F)[nat (h - 1) := (dirhs F ! nat (h - 1))\<lparr>dh_in_use := False\<rparr>]\<rparr>, 0))"

end
