(* ===== verification/FatMount.thy ===== *)
theory FatMount
  imports FatFile
begin

text \<open>
  Mounting, drive selection and formatting of kernel/fs/fat.c. As in FatFile, None is a call that
  writes past a buffer: a FAT12 volume whose sector count wraps in the size test.
\<close>

subsection \<open>Mounting\<close>

text \<open>The fields read from the boot sector.\<close>

definition parse_bpb :: "int \<Rightarrow> bytes \<Rightarrow> fat_volume" where
  "parse_bpb did boot =
     (let tot16 = (ucast (of_le16 boot 19) :: u32); fat16 = of_le16 boot 22
      in zero_volume\<lparr>disk_id := did, bytes_per_sec := of_le16 boot 11, sec_per_cluster := boot ! 13,
           reserved_sectors := of_le16 boot 14, num_fats := boot ! 16, root_entries := of_le16 boot 17,
           total_sectors := (if tot16 = 0 then of_le32 boot 32 else tot16),
           fat_sectors := (if fat16 \<noteq> 0 then ucast fat16 else of_le32 boot 36)\<rparr>)"

text \<open>The layout, and the FAT type from the number of clusters.\<close>

definition fats_end :: "fat_volume \<Rightarrow> u32" where
  "fats_end v = ucast (reserved_sectors v) + ucast (num_fats v) * fat_sectors v"

definition layout :: "fat_volume \<Rightarrow> fat_volume" where
  "layout v0 =
     (let v = v0\<lparr>fat_lba := ucast (reserved_sectors v0), root_lba := fats_end v0,
                data_lba := fats_end v0 + ucast (root_size_sec v0)\<rparr>;
          clusters = (total_sectors v - data_lba v) div ucast (sec_per_cluster v)
      in v\<lparr>kind := (if clusters < 4085 then FAT_12 else if clusters < 65525 then FAT_16 else FAT_32),
           fat_csec := FAT_CACHE_NONE, fat_cdirty := False\<rparr>)"

text \<open>Loading the FAT12 cache; the volume is kept, as the code leaves it, when a step fails.\<close>

definition mount_fat12 :: "'w dstate \<Rightarrow> fat_volume \<Rightarrow> (fat_volume \<times> bool) option" where
  "mount_fat12 s v =
     (if kind v \<noteq> FAT_12 then Some (v, True)
      else if of_nat FAT12_BUF < fat_sectors v * 512 then Some (v, False)
      else if FAT12_BUF < unat (fat_sectors v) * 512 then None
      else case disk_read s (disk_id v) (fat_lba v) (fat_sectors v) of
             None \<Rightarrow> Some (v, False)
           | Some bs \<Rightarrow> Some (v\<lparr>fat := blit (fat v) 0 bs\<rparr>, True))"

definition mount_root :: "'w dstate \<Rightarrow> bytes \<Rightarrow> fat_volume \<Rightarrow> fat_volume \<times> bool" where
  "mount_root s boot v =
     (if kind v = FAT_32 then
        (let v1 = v\<lparr>root_lba := 0, data_lba := fats_end v, root_dir_cluster := of_le32 boot 44\<rparr>
         in (v1, \<not> root_dir_cluster v1 < 2))
      else
        (let v1 = v\<lparr>root_dir_cluster := 0\<rparr>
         in if ROOT_BUF_MAX < root_bytes v1 then (v1, False)
            else case disk_read s (disk_id v1) (root_lba v1) (ucast (root_size_sec v1)) of
                   None \<Rightarrow> (v1, False)
                 | Some bs \<Rightarrow> (v1\<lparr>root := blit (root v1) 0 bs\<rparr>, True)))"

definition mount_volume :: "'w dstate \<Rightarrow> int \<Rightarrow> (fat_volume \<times> bool) option" where
  "mount_volume s did =
     (case disk_read s did 0 1 of
        None \<Rightarrow> Some (zero_volume, False)
      | Some boot \<Rightarrow>
          (let v0 = parse_bpb did boot
           in if bytes_per_sec v0 \<noteq> 512 \<or> fat_sectors v0 = 0 \<or> sec_per_cluster v0 = 0 then Some (v0, False)
              else case mount_fat12 s (layout v0) of
                     None \<Rightarrow> None
                   | Some (v, False) \<Rightarrow> Some (v, False)
                   | Some (v, True) \<Rightarrow>
                       (case mount_root s boot v of
                          (v1, False) \<Rightarrow> Some (v1, False)
                        | (v1, True) \<Rightarrow>
                            Some (v1\<lparr>cwd_is_root := True, cwd_cluster := 0,
                                     cwd_path := strcpy (cwd_path v1) 0 [92]\<rparr>, True))))"

definition fs_mount :: "'w fsys \<Rightarrow> u8 \<Rightarrow> int \<Rightarrow> ('w fsys \<times> int) option" where
  "fs_mount F letter did =
     (let idx = drive_idx letter in
      if idx < 0 then Some (F, -1)
      else if (case disk_get (fdev F) did of None \<Rightarrow> True | Some d \<Rightarrow> \<not> present d) then Some (F, -1)
      else case mount_volume (fdev F) did of
             None \<Rightarrow> None
           | Some (v, ok) \<Rightarrow>
               let F1 = F\<lparr>vols := (vols F)[nat idx := v]\<rparr>
               in Some (if \<not> ok then (F1, -1)
                        else (if current_drive F1 < 0 then F1\<lparr>current_drive := idx\<rparr> else F1, 0)))"

definition fs_unmount :: "'w fsys \<Rightarrow> u8 \<Rightarrow> 'w fsys \<times> int" where
  "fs_unmount F letter =
     (let idx = drive_idx letter in
      if idx < 0 \<or> kind (vols F ! nat idx) = FAT_NONE then (F, -1)
      else let vs = fst (flush_root (fst (flush_fat (vol_state F (nat idx)))))
           in (put_vstate F (nat idx) (zero_volume, snd vs), 0))"

definition fs_set_drive :: "'w fsys \<Rightarrow> u8 \<Rightarrow> 'w fsys \<times> int" where
  "fs_set_drive F letter =
     (let idx = drive_idx letter in
      if idx < 0 \<or> kind (vols F ! nat idx) = FAT_NONE then (F, -1) else (F\<lparr>current_drive := idx\<rparr>, 0))"

definition fs_get_drive :: "'w fsys \<Rightarrow> u8" where
  "fs_get_drive F = (if current_drive F < 0 then 63 else of_int (65 + current_drive F))"

definition fs_drive_present :: "'w fsys \<Rightarrow> u8 \<Rightarrow> bool" where
  "fs_drive_present F letter \<longleftrightarrow> 0 \<le> drive_idx letter \<and> kind (vols F ! nat (drive_idx letter)) \<noteq> FAT_NONE"

definition fs_drive_disk_id :: "'w fsys \<Rightarrow> u8 \<Rightarrow> int" where
  "fs_drive_disk_id F letter =
     (let idx = drive_idx letter in
      if idx < 0 \<or> kind (vols F ! nat idx) = FAT_NONE then -1 else disk_id (vols F ! nat idx))"

definition fs_cwd :: "'w fsys \<Rightarrow> bytes" where
  "fs_cwd F = (if current_drive F < 0 then [63] else cwd_path (vols F ! nat (current_drive F)))"

subsection \<open>Formatting\<close>

definition disk_partition_offset :: "'w dstate \<Rightarrow> int \<Rightarrow> u32" where
  "disk_partition_offset s did = (case mbr_view_info s did of Some p \<Rightarrow> offset_lba p | None \<Rightarrow> 0)"

definition volume_label :: "bytes option \<Rightarrow> bytes" where
  "volume_label label =
     (let t = (case label of None \<Rightarrow> [] | Some l \<Rightarrow> map upper8 (take 11 (chars l)))
      in t @ replicate (11 - length t) 32)"

text \<open>A write whose result the code ignores.\<close>

definition put_sector :: "int \<Rightarrow> u32 \<Rightarrow> bytes \<Rightarrow> 'w dstate \<Rightarrow> 'w dstate" where
  "put_sector did lba bs s = fst (disk_write s did lba 1 bs)"

definition zero_sector :: bytes where
  "zero_sector = replicate SECTOR_SIZE 0"

text \<open>Zeroing sectors 1 to n - 1 of both FATs, then count sectors of the root.\<close>

definition zero_fats :: "int \<Rightarrow> u32 \<Rightarrow> u32 \<Rightarrow> 'w dstate \<Rightarrow> 'w dstate" where
  "zero_fats did lba n s =
     fold (\<lambda>k s. put_sector did (lba + n + of_nat k) zero_sector (put_sector did (lba + of_nat k) zero_sector s))
       [1..<unat n] s"

definition zero_run :: "int \<Rightarrow> u32 \<Rightarrow> nat \<Rightarrow> 'w dstate \<Rightarrow> 'w dstate" where
  "zero_run did lba n s = fold (\<lambda>k s. put_sector did (lba + of_nat k) zero_sector s) [0..<n] s"

text \<open>Both first sectors of the FATs, zeroed FATs and root: the common end of the formatters.\<close>

definition finish_format :: "int \<Rightarrow> u32 \<Rightarrow> u32 \<Rightarrow> bytes \<Rightarrow> u32 \<Rightarrow> nat \<Rightarrow> 'w dstate \<Rightarrow> 'w dstate \<times> int" where
  "finish_format did lba nsec fat_first rlba rsec s =
     (case disk_write s did lba 1 fat_first of
        (s1, False) \<Rightarrow> (s1, -1)
      | (s1, True) \<Rightarrow>
          (case disk_write s1 did (lba + nsec) 1 fat_first of
             (s2, False) \<Rightarrow> (s2, -1)
           | (s2, True) \<Rightarrow> (zero_run did rlba rsec (zero_fats did lba nsec s2), 0)))"

definition fat16_spc :: "u32 \<Rightarrow> u8" where
  "fat16_spc tot = (if tot < 16 * 2048 then 4 else if tot < 64 * 2048 then 8 else 16)"

definition fat16_secs :: "u32 \<Rightarrow> u32" where
  "fat16_secs tot =
     (let num = tot - 4 - 16 + 2 * 4; den = ucast (fat16_spc tot) * 128 + 2; n = (num + den - 1) div den
      in if n = 0 then 1 else n)"

definition fat16_boot :: "u32 \<Rightarrow> u32 \<Rightarrow> bytes option \<Rightarrow> bytes" where
  "fat16_boot tot hidden label =
     (let b0 = zero_sector;
          b1 = blit b0 0 ([0xEB, 0x3C, 0x90] @ lit ''ZENBITE '' @ le16 512 @ [fat16_spc tot] @ le16 4 @ [2] @ le16 256);
          b2 = (if tot \<le> 0xFFFF then blit b1 19 (le16 (ucast tot)) else b1);
          b3 = blit b2 21 ([0xF8] @ le16 (ucast (fat16_secs tot)) @ [63, 0, 16, 0] @ le32 hidden);
          b4 = (if 0xFFFF < tot then blit b3 32 (le32 tot) else b3);
          b5 = b4[36 := 0x80, 38 := 0x29, 39 := 0x37, 40 := 0x12, 41 := 0x34, 42 := 0x56]
      in blit (blit (blit b5 43 (volume_label label)) 54 (lit ''FAT16   '')) 510 [0x55, 0xAA])"

definition format_fat16 :: "'w dstate \<Rightarrow> int \<Rightarrow> bytes option \<Rightarrow> u32 \<Rightarrow> 'w dstate \<times> int" where
  "format_fat16 s did label tot =
     (case disk_write s did 0 1 (fat16_boot tot (disk_partition_offset s did) label) of
        (s1, False) \<Rightarrow> (s1, -1)
      | (s1, True) \<Rightarrow>
          finish_format did 4 (fat16_secs tot) (blit zero_sector 0 [0xF8, 0xFF, 0xFF, 0xFF])
            (4 + 2 * fat16_secs tot) 16 s1)"

definition fat32_spc :: "u32 \<Rightarrow> u8" where
  "fat32_spc tot = (if tot < 1 * 1024 * 1024 * 2 then 8 else 16)"

definition fat32_secs :: "u32 \<Rightarrow> u32" where
  "fat32_secs tot =
     (let num = tot - 32 + 2 * 4; den = ucast (fat32_spc tot) * 128 + 2 * 2; n = (num + den - 1) div den
      in if n = 0 then 1 else n)"

definition fat32_boot :: "u32 \<Rightarrow> u32 \<Rightarrow> bytes option \<Rightarrow> bytes" where
  "fat32_boot tot hidden label =
     (let b0 = zero_sector;
          b1 = blit b0 0 ([0xEB, 0x58, 0x90] @ lit ''ZENBITE '' @ le16 512 @ [fat32_spc tot] @ le16 32 @ [2]);
          b2 = b1[21 := 0xF8, 24 := 63, 26 := 16];
          b3 = blit b2 28 (le32 hidden @ le32 tot @ le32 (fat32_secs tot));
          b4 = (blit b3 44 (le32 2))[48 := 1, 50 := 6, 64 := 0x80];
          b5 = blit b4 66 [0x29, 0x37, 0x12, 0x34, 0x56]
      in blit (blit (blit b5 71 (volume_label label)) 82 (lit ''FAT32   '')) 510 [0x55, 0xAA])"

definition fat32_fsinfo :: bytes where
  "fat32_fsinfo =
     blit (blit (blit zero_sector 0 [0x52, 0x52, 0x61, 0x41]) 484 ([0x72, 0x72, 0x41, 0x61] @ replicate 8 0xFF))
       510 [0x55, 0xAA]"

definition format_fat32 :: "'w dstate \<Rightarrow> int \<Rightarrow> bytes option \<Rightarrow> u32 \<Rightarrow> 'w dstate \<times> int" where
  "format_fat32 s did label tot =
     (let boot = fat32_boot tot (disk_partition_offset s did) label
      in case disk_write s did 0 1 boot of
           (s1, False) \<Rightarrow> (s1, -1)
         | (s1, True) \<Rightarrow>
             (let s2 = put_sector did 7 fat32_fsinfo (put_sector did 1 fat32_fsinfo (put_sector did 6 boot s1))
              in finish_format did 32 (fat32_secs tot)
                   (blit zero_sector 0 [0xF8, 0xFF, 0xFF, 0x0F, 0xFF, 0xFF, 0xFF, 0x0F, 0xF8, 0xFF, 0xFF, 0x0F])
                   (32 + 2 * fat32_secs tot) (unat (fat32_spc tot)) s2))"

definition fs_format :: "'w dstate \<Rightarrow> int \<Rightarrow> bytes option \<Rightarrow> 'w dstate \<times> int" where
  "fs_format s did label =
     (case disk_get s did of
        None \<Rightarrow> (s, -1)
      | Some d \<Rightarrow>
          if \<not> present d then (s, -1)
          else if sectors d < 1024 then (s, -1)
          else if sectors d < 512 * 1024 * 2 then format_fat16 s did label (sectors d)
          else format_fat32 s did label (sectors d))"

end
