(* ===== verification/FatDirFacts.thy ===== *)
theory FatDirFacts
  imports FatMount
begin

text \<open>
  Facts about the directories of kernel/fs/fat.c: the packed entries and the 8.3 names round-trip,
  what store_dir wrote load_dir reads back, and an entry added to a directory is found there.
\<close>

subsection \<open>Entries\<close>

lemma length_enc_dirent [simp]: "length (de_name e) = 11 \<Longrightarrow> length (enc_dirent e) = 32"
  by (simp add: enc_dirent_def)

lemma of_le16_at: "of_le16 (xs @ le16 w @ ys) (length xs) = w"
  by (simp add: of_le16_def le16_def nth_append le16_split)

lemma of_le32_at: "of_le32 (xs @ le32 w @ ys) (length xs) = w"
  by (simp add: of_le32_def le32_def nth_append le32_split)

lemma dec_enc_dirent:
  assumes n: "length (de_name e) = 11"
  shows "dec_dirent (enc_dirent e) 0 = e"
proof -
  let ?p0 = "de_name e @ [de_attr e, de_r1 e, de_r2 e]"
  let ?c = "le16 (de_ctime e)" and ?d = "le16 (de_cdate e)" and ?a = "le16 (de_adate e)"
    and ?h = "le16 (de_cluster_hi e)" and ?t = "le16 (de_time e)" and ?dd = "le16 (de_date e)"
    and ?l = "le16 (de_cluster e)" and ?s = "le32 (de_size e)"
  have e: "enc_dirent e = ?p0 @ ?c @ ?d @ ?a @ ?h @ ?t @ ?dd @ ?l @ ?s" by (simp add: enc_dirent_def)
  have f: "of_le16 (enc_dirent e) 14 = de_ctime e" "of_le16 (enc_dirent e) 16 = de_cdate e"
    "of_le16 (enc_dirent e) 18 = de_adate e" "of_le16 (enc_dirent e) 20 = de_cluster_hi e"
    "of_le16 (enc_dirent e) 22 = de_time e" "of_le16 (enc_dirent e) 24 = de_date e"
    "of_le16 (enc_dirent e) 26 = de_cluster e" "of_le32 (enc_dirent e) 28 = de_size e"
    using of_le16_at [of ?p0 "de_ctime e" "?d @ ?a @ ?h @ ?t @ ?dd @ ?l @ ?s"]
      of_le16_at [of "?p0 @ ?c" "de_cdate e" "?a @ ?h @ ?t @ ?dd @ ?l @ ?s"]
      of_le16_at [of "?p0 @ ?c @ ?d" "de_adate e" "?h @ ?t @ ?dd @ ?l @ ?s"]
      of_le16_at [of "?p0 @ ?c @ ?d @ ?a" "de_cluster_hi e" "?t @ ?dd @ ?l @ ?s"]
      of_le16_at [of "?p0 @ ?c @ ?d @ ?a @ ?h" "de_time e" "?dd @ ?l @ ?s"]
      of_le16_at [of "?p0 @ ?c @ ?d @ ?a @ ?h @ ?t" "de_date e" "?l @ ?s"]
      of_le16_at [of "?p0 @ ?c @ ?d @ ?a @ ?h @ ?t @ ?dd" "de_cluster e" "?s"]
      of_le32_at [of "?p0 @ ?c @ ?d @ ?a @ ?h @ ?t @ ?dd @ ?l" "de_size e" "[]"] n
    by (simp_all add: e)
  have "take 11 (enc_dirent e) = de_name e" using n by (simp add: enc_dirent_def)
  moreover have "enc_dirent e ! 11 = de_attr e" "enc_dirent e ! 12 = de_r1 e" "enc_dirent e ! 13 = de_r2 e"
    using n by (simp_all add: enc_dirent_def nth_append)
  ultimately show ?thesis using f by (simp add: dec_dirent_def window_def)
qed

lemma dec_dirent_window:
  assumes "off + 32 \<le> length b"
  shows "dec_dirent b off = dec_dirent (window off 32 b) 0"
  using assms by (simp add: dec_dirent_def of_le16_def of_le32_def nth_window window_def min_def add.commute [of off])

lemma dec_dirent_blit:
  assumes "length (de_name e) = 11" and "off + 32 \<le> length b"
  shows "dec_dirent (blit b off (enc_dirent e)) off = e"
proof -
  have "window off 32 (blit b off (enc_dirent e)) = enc_dirent e"
    using window_blit [of off "enc_dirent e" b] assms by simp
  then show ?thesis using dec_dirent_window [of off "blit b off (enc_dirent e)"] dec_enc_dirent assms by simp
qed

subsection \<open>8.3 names\<close>

lemma upper8_cases: "upper8 c = (if 97 \<le> c \<and> c \<le> 122 then c - 32 else c)"
proof (cases "97 \<le> c \<and> c \<le> 122")
  case True
  then have "97 \<le> uint c" "uint c \<le> 122" by (simp_all add: word_le_def)
  then have "toupper (uint c) = uint c - 32" by (simp add: toupper_def)
  with True show ?thesis by (simp add: upper8_def)
next
  case False
  then have "toupper (uint c) = uint c" by (auto simp: toupper_def word_le_def)
  with False show ?thesis by (simp add: upper8_def)
qed

lemma upper8_special: "upper8 c = 32 \<longleftrightarrow> c = 32" "upper8 c = 46 \<longleftrightarrow> c = 46"
proof -
  have "c - 32 \<noteq> 32 \<and> c - 32 \<noteq> 46" if "97 \<le> c"
  proof -
    have "unat (c - 32) = unat c - unat (32 :: u8)" by (rule unat_sub) (use that in \<open>simp add: word_le_nat_alt\<close>)
    moreover have "97 \<le> unat c" using that by (simp add: word_le_nat_alt)
    ultimately show ?thesis by (auto simp: word_unat_eq_iff)
  qed
  then show "upper8 c = 32 \<longleftrightarrow> c = 32" "upper8 c = 46 \<longleftrightarrow> c = 46" by (auto simp: upper8_cases)
qed

lemma length_name_to_83 [simp]: "length (name_to_83 s) = 11"
  by (simp add: name_to_83_def Let_def)

text \<open>A proper component of a name: no terminator, space or dot in it.\<close>

definition plain_part :: "bytes \<Rightarrow> bool" where
  "plain_part s \<longleftrightarrow> 0 \<notin> set s \<and> 32 \<notin> set s \<and> 46 \<notin> set s"

lemma takeWhile_plain: "\<forall>c \<in> set s. P c \<Longrightarrow> \<not> P x \<Longrightarrow> takeWhile P (s @ x # t) = s"
  by (induction s) auto

lemma name_to_83_parts:
  assumes stem: "plain_part stem" "stem \<noteq> []" "length stem \<le> 8" and ext: "plain_part ext" "length ext \<le> 3"
  shows "name_to_83 (stem @ [46] @ ext) = map upper8 stem @ replicate (8 - length stem) 32
      @ map upper8 ext @ replicate (3 - length ext) 32"
    and "name_to_83 stem = map upper8 stem @ replicate (8 - length stem) 32 @ replicate 3 32"
proof -
  have hd: "dropWhile (\<lambda>c. c = 32) (stem @ t) = stem @ t" for t
    using stem(1,2) by (cases stem) (auto simp: plain_part_def)
  have c: "chars (stem @ [46] @ ext) = stem @ [46] @ ext" "chars stem = stem"
    using stem ext by (auto intro!: chars_id simp: plain_part_def)
  have nd: "\<forall>c \<in> set stem. c \<noteq> 46" using stem by (auto simp: plain_part_def)
  have tw: "takeWhile (\<lambda>c. c \<noteq> 46) (stem @ 46 # ext) = stem" "dropWhile (\<lambda>c. c \<noteq> 46) (stem @ 46 # ext) = 46 # ext"
    "takeWhile (\<lambda>c. c \<noteq> 46) stem = stem" "dropWhile (\<lambda>c. c \<noteq> 46) stem = []"
    using nd by (simp_all add: takeWhile_plain dropWhile_append3 dropWhile_append2)
  show "name_to_83 (stem @ [46] @ ext) = map upper8 stem @ replicate (8 - length stem) 32
      @ map upper8 ext @ replicate (3 - length ext) 32"
    unfolding name_to_83_def c(1) using hd [of "46 # ext"] stem ext by (simp add: Let_def tw)
  show "name_to_83 stem = map upper8 stem @ replicate (8 - length stem) 32 @ replicate 3 32"
    unfolding name_to_83_def c(2) using hd [of "[]"] stem by (simp add: Let_def tw)
qed

lemma takeWhile_nospace: "plain_part s \<Longrightarrow> takeWhile (\<lambda>c. c \<noteq> 32) (map upper8 s @ replicate k 32) = map upper8 s"
  by (induction s) (auto simp: plain_part_def upper8_special takeWhile_replicate)

text \<open>The 8.3 form of a file name keeps it: converting a name of up to eight characters, with or
  without an extension of one to three, to the directory form and back gives the name in upper
  case; and the directory form always has eleven bytes.\<close>

theorem name_83_roundtrip:
  assumes stem: "plain_part stem" "stem \<noteq> []" "length stem \<le> 8"
    and ext: "plain_part ext" "ext \<noteq> []" "length ext \<le> 3"
  shows "name_from_83 (name_to_83 (stem @ [46] @ ext)) = map upper8 (stem @ [46] @ ext)
    \<and> name_from_83 (name_to_83 stem) = map upper8 stem
    \<and> length (name_to_83 s) = 11"
proof -
  note p = name_to_83_parts [OF stem ext(1,3)]
  let ?a = "map upper8 stem @ replicate (8 - length stem) 32"
  let ?b = "map upper8 ext @ replicate (3 - length ext) 32"
  have la: "length ?a = 8" "length ?b = 3" using stem ext by simp_all
  have w: "name_to_83 (stem @ [46] @ ext) = ?a @ ?b" "name_to_83 stem = ?a @ replicate 3 32" using p by simp_all
  have b0: "?b ! 0 \<noteq> 32" using ext by (cases ext) (auto simp: plain_part_def upper8_special)
  have "upper8 46 = 46" by (simp add: upper8_cases)
  moreover have "name_from_83 (?a @ ?b) = map upper8 stem @ [46] @ map upper8 ext"
    using la b0 takeWhile_nospace [OF stem(1)] takeWhile_nospace [OF ext(1)]
    by (simp add: name_from_83_def Let_def nth_append)
  moreover have "name_from_83 (?a @ replicate 3 32) = map upper8 stem"
    using la takeWhile_nospace [OF stem(1)] by (simp add: name_from_83_def Let_def nth_append)
  ultimately show ?thesis unfolding w by simp
qed

lemma name_83_roundtrip_witness: "name_from_83 (name_to_83 (lit ''readme.txt'')) = lit ''README.TXT''"
  using name_83_roundtrip [of "lit ''readme''" "lit ''txt''" "[]"]
  by (simp add: plain_part_def lit_def upper8_cases)

subsection \<open>A directory on the device\<close>

text \<open>Where a directory lies, its size, and that it lies on a device of N sectors.\<close>

definition dir_root :: "fat_volume \<Rightarrow> u32 \<Rightarrow> bool" where
  "dir_root v c \<longleftrightarrow> c = 0 \<and> kind v \<noteq> FAT_32"

definition dir_cluster :: "fat_volume \<Rightarrow> u32 \<Rightarrow> u32" where
  "dir_cluster v c = (if c = 0 then root_dir_cluster v else c)"

definition dir_bytes :: "fat_volume \<Rightarrow> u32 \<Rightarrow> nat" where
  "dir_bytes v c = (if dir_root v c then root_bytes v else cluster_bytes v)"

definition dir_valid :: "nat \<Rightarrow> fat_volume \<Rightarrow> u32 \<Rightarrow> bool" where
  "dir_valid N v c \<longleftrightarrow>
     (if dir_root v c
      then root_bytes v \<le> length (root v) \<and> unat (root_lba v) + unat (root_size_sec v) \<le> N
      else unat (sec_per_cluster v) \<le> DIRBUF_SECTORS
           \<and> unat (cluster_to_lba v (dir_cluster v c)) + unat (sec_per_cluster v) \<le> N)"

lemma load_dir_length:
  assumes vol: "block_volume (\<lambda>s. disk_read s did) (\<lambda>s. disk_write s did) okd N sec"
    and v: "okd s" "disk_id v = did" "dir_valid N v c"
  shows "\<exists>buf. load_dir (v, s) c = Some (Some buf) \<and> length buf = dir_bytes v c"
proof (cases "dir_root v c")
  case True
  then show ?thesis using v(3)
    by (auto simp: load_dir_def dir_root_def dir_bytes_def dir_valid_def)
next
  case False
  let ?l = "cluster_to_lba v (dir_cluster v c)" and ?n = "ucast (sec_per_cluster v) :: u32"
  have r: "unat ?l + unat ?n \<le> N" using False v(3) by (simp add: dir_valid_def)
  let ?bs = "concat (map (sec s) [unat ?l..<unat ?l + unat ?n])"
  have rd: "disk_read s did ?l ?n = Some ?bs" using block_volume.rd_sec [OF vol v(1) r] .
  have "length (concat (map (sec s) [a..<a + k])) = k * 512" if "a + k \<le> N" for a k
    using that block_volume.sec_len [OF vol v(1)] by (induction k) auto
  then have "length ?bs = cluster_bytes v" using r by (simp add: cluster_bytes_def SECTOR_SIZE_def)
  then show ?thesis using False v(2,3) rd
    by (auto simp: load_dir_def dir_root_def dir_bytes_def dir_valid_def read_cluster_def dir_cluster_def Let_def)
qed

text \<open>What is stored is read back.\<close>

lemma load_store_dir:
  assumes vol: "block_volume (\<lambda>s. disk_read s did) (\<lambda>s. disk_write s did) okd N sec"
    and v: "okd s" "disk_id v = did" "dir_valid N v c" and len: "length buf = dir_bytes v c"
  shows "\<exists>vs'. store_dir (v, s) c buf = (vs', True) \<and> load_dir vs' c = Some (Some buf) \<and> okd (snd vs')
    \<and> kind (fst vs') = kind v"
proof (cases "dir_root v c")
  case True
  have rb: "root_bytes v \<le> length (root v)" and rl: "unat (root_lba v) + unat (root_size_sec v) \<le> N"
    using True v(3) by (simp_all add: dir_valid_def)
  have lb: "length buf = root_bytes v" using len True by (simp add: dir_bytes_def)
  let ?v = "v\<lparr>root := blit (root v) 0 buf, root_dirty := True\<rparr>"
  have t: "take (root_bytes v) (blit (root v) 0 buf) = buf" using lb rb by (simp add: blit_eq)
  have rz: "root_size_sec ?v = root_size_sec v" "root_bytes ?v = root_bytes v"
    by (simp_all add: root_size_sec_def root_bytes_def)
  obtain s' r where w: "disk_write s did (root_lba v) (ucast (root_size_sec v)) buf = (s', r)"
    by (cases "disk_write s did (root_lba v) (ucast (root_size_sec v)) buf")
  have "r \<and> okd s'"
    using block_volume.wr_sec [OF vol v(1) _ _ w] rl lb by (simp add: root_bytes_def SECTOR_SIZE_def mult.commute)
  then show ?thesis
    using True w v(2) t
    by (simp add: store_dir_def dir_root_def flush_root_def rz load_dir_def root_bytes_def root_size_sec_def)
next
  case False
  let ?l = "cluster_to_lba v (dir_cluster v c)" and ?n = "ucast (sec_per_cluster v) :: u32"
  have r: "unat ?l + unat ?n \<le> N" and small: "unat (sec_per_cluster v) \<le> DIRBUF_SECTORS"
    using False v(3) by (simp_all add: dir_valid_def)
  have lb: "length buf = cluster_bytes v" using len False by (simp add: dir_bytes_def)
  then have l512: "length buf = 512 * unat ?n" by (simp add: cluster_bytes_def SECTOR_SIZE_def)
  obtain s' q where w: "disk_write s did ?l ?n buf = (s', q)" by (cases "disk_write s did ?l ?n buf")
  have q: "q" "okd s'" using block_volume.wr_sec [OF vol v(1) r l512 w] by auto
  have rd: "disk_read s' did ?l ?n = Some buf" using block_volume.rd_wr [OF vol v(1) r l512 w] .
  have "store_dir (v, s) c buf = ((v, s'), True)"
    using False w q lb v(2) by (auto simp: store_dir_def dir_root_def write_cluster_def dir_cluster_def)
  moreover have "load_dir (v, s') c = Some (Some buf)"
    using False small rd v(2) by (auto simp: load_dir_def dir_root_def read_cluster_def dir_cluster_def)
  ultimately show ?thesis using q by auto
qed

subsection \<open>An added entry is found\<close>

text \<open>A slot that holds an entry of another name, or none that counts.\<close>

definition slot_skips :: "bytes \<Rightarrow> bytes \<Rightarrow> nat \<Rightarrow> bool" where
  "slot_skips buf name83 i \<longleftrightarrow> buf ! (i * 32) \<noteq> 0 \<and>
     (buf ! (i * 32) = 0xE5 \<or> buf ! (i * 32 + 11) AND FS_ATTR_VOL \<noteq> 0 \<or> window (i * 32) 11 buf \<noteq> name83)"

lemma scan_dir_skip:
  assumes "length name83 = 11" and "\<forall>i \<in> set is. (i + 1) * 32 \<le> length buf"
  shows "\<forall>i \<in> set is. slot_skips buf name83 i \<Longrightarrow> scan_dir buf name83 (is @ js) = scan_dir buf name83 js"
  using assms
proof (induction "is")
  case (Cons i "is")
  have "memcmp (window (i * 32) 11 buf) name83 11 = 0 \<longleftrightarrow> window (i * 32) 11 buf = name83"
    using Cons.prems by (subst memcmp_0) auto
  then show ?case using Cons by (auto simp: slot_skips_def Let_def)
qed simp

lemma scan_dir_hit:
  assumes "length name83 = 11" and "(i + 1) * 32 \<le> length buf" and "window (i * 32) 11 buf = name83"
    and "buf ! (i * 32) \<noteq> 0" and "buf ! (i * 32) \<noteq> 0xE5" and "buf ! (i * 32 + 11) AND FS_ATTR_VOL = 0"
  shows "scan_dir buf name83 (i # is) = Some i"
proof -
  have "memcmp (window (i * 32) 11 buf) name83 11 = 0" using assms by (subst memcmp_0) auto
  with assms show ?thesis by (simp add: Let_def)
qed

text \<open>When a scan finds nothing, the slots before the first free one are of other names.\<close>

lemma scan_dir_None_skips:
  assumes "length name83 = 11" and "\<forall>i \<in> set is. (i + 1) * 32 \<le> length buf"
  shows "scan_dir buf name83 (is @ js) = None \<Longrightarrow> \<forall>i \<in> set is. buf ! (i * 32) \<noteq> 0 \<Longrightarrow>
    \<forall>i \<in> set is. slot_skips buf name83 i"
  using assms
proof (induction "is")
  case (Cons i "is")
  have m: "memcmp (window (i * 32) 11 buf) name83 11 = 0 \<longleftrightarrow> window (i * 32) 11 buf = name83"
    using Cons.prems by (subst memcmp_0) auto
  have "slot_skips buf name83 i \<and> scan_dir buf name83 (is @ js) = None"
    using Cons.prems m by (auto simp: slot_skips_def Let_def split: if_splits)
  with Cons show ?case by simp
qed simp

lemma dir_add_entry_finds:
  assumes vol: "block_volume (\<lambda>s. disk_read s did) (\<lambda>s. disk_write s did) okd N sec"
    and v: "okd s" "disk_id v = did" "dir_valid N v c"
    and src: "length (de_name src) = 11" "de_name src ! 0 \<noteq> 0" "de_name src ! 0 \<noteq> 0xE5" "de_attr src AND FS_ATTR_VOL = 0"
    and absent: "find_in_dir (v, s) c (de_name src) = Some None"
    and add: "dir_add_entry (v, s) c src = Some (vs', True)"
  shows "\<exists>off. find_in_dir vs' c (de_name src) = Some (Some (off, src))"
proof -
  let ?name = "de_name src"
  obtain buf where buf: "load_dir (v, s) c = Some (Some buf)" "length buf = dir_bytes v c"
    using load_dir_length [OF vol v] by blast
  let ?n = "length buf div 32"
  from add buf obtain i where i: "first_idx (\<lambda>i. buf ! (i * 32) = 0 \<or> buf ! (i * 32) = 0xE5) ?n = Some i"
    and st: "store_dir (v, s) c (blit buf (i * 32) (enc_dirent src)) = (vs', True)"
    by (auto simp: dir_add_entry_def split: option.splits)
  let ?b = "blit buf (i * 32) (enc_dirent src)"
  obtain w where "store_dir (v, s) c ?b = (w, True)" "load_dir w c = Some (Some ?b)"
    using load_store_dir [OF vol v, of ?b] buf(2) by auto
  then have ld: "load_dir vs' c = Some (Some ?b)" using st by simp
  have ilt: "i < ?n" and before: "\<forall>j<i. buf ! (j * 32) \<noteq> 0" using i by (auto simp: first_idx_Some)
  have fit: "(j + 1) * 32 \<le> length buf" if "j < ?n" for j
  proof -
    have "Suc j * 32 \<le> ?n * 32" using that by (intro mult_le_mono1) simp
    also have "\<dots> \<le> length buf" by simp
    finally show ?thesis by simp
  qed
  have upt: "[0..<?n] = [0..<i] @ i # [Suc i..<?n]" using upt_add_eq_append [of 0 i "?n - i"] ilt by (simp add: upt_conv_Cons)
  have none: "scan_dir buf ?name [0..<?n] = None" using absent buf by (simp add: find_in_dir_def)
  have sk: "\<forall>j \<in> set [0..<i]. slot_skips buf ?name j"
    by (rule scan_dir_None_skips [OF src(1) _ none [unfolded upt]]) (use before fit ilt in auto)
  have keep: "?b ! k = buf ! k" if "k < i * 32" for k
    using that fit [OF ilt] by (simp add: nth_blit)
  have same: "slot_skips ?b ?name j" if "j < i" for j
  proof -
    have "j * 32 + 32 \<le> i * 32" using that by linarith
    moreover have "window (j * 32) 11 ?b = window (j * 32) 11 buf"
      using calculation fit [OF ilt] by (intro window_blit_other) auto
    ultimately show ?thesis using sk that keep [of "j * 32"] keep [of "j * 32 + 11"] by (auto simp: slot_skips_def)
  qed
  have e: "length (enc_dirent src) = 32" using src(1) by simp
  have fi: "i * 32 + 32 \<le> length buf" using fit [OF ilt] by simp
  have win: "window (i * 32) 32 ?b = enc_dirent src" using window_blit [of "i * 32" "enc_dirent src" buf] fi e by simp
  have at: "?b ! (i * 32 + k) = enc_dirent src ! k" if "k < 32" for k
    using that win nth_window [of k 32 "i * 32" ?b] fi by simp
  have w11: "window (i * 32) 11 ?b = ?name"
  proof -
    have "window (i * 32) 11 ?b = take 11 (window (i * 32) 32 ?b)" by (simp add: window_def take_take)
    then show ?thesis unfolding win using src(1) by (simp add: enc_dirent_def)
  qed
  have hit: "scan_dir ?b ?name (i # [Suc i..<?n]) = Some i"
  proof (rule scan_dir_hit [OF src(1) _ w11])
    show "?b ! (i * 32) \<noteq> 0" "?b ! (i * 32) \<noteq> 0xE5" "?b ! (i * 32 + 11) AND FS_ATTR_VOL = 0"
      using at [of 0] at [of 11] src by (simp_all add: enc_dirent_def nth_append)
  qed (use fi in simp)
  have "scan_dir ?b ?name [0..<?n] = Some i"
    unfolding upt using scan_dir_skip [OF src(1), of "[0..<i]" ?b] same fit ilt hit by auto
  moreover have "dec_dirent ?b (i * 32) = src" using dec_dirent_blit [OF src(1) fi] .
  ultimately show ?thesis using ld by (simp add: find_in_dir_def)
qed

lemma upper8_0: "upper8 c = 0 \<longleftrightarrow> c = 0"
proof -
  have "c - 32 \<noteq> 0" if "97 \<le> c"
  proof
    assume "c - 32 = 0"
    then have "c = 32" by simp
    with that show False by simp
  qed
  then show ?thesis by (auto simp: upper8_cases)
qed

lemma name_to_83_nz: "i < 11 \<Longrightarrow> name_to_83 t ! i \<noteq> 0"
proof -
  have z: "0 \<notin> set (dropWhile (\<lambda>c. c = 32) (chars t))" using chars_no_zero [of t] by (meson set_dropWhileD)
  let ?t = "dropWhile (\<lambda>c. c = 32) (chars t)"
  have "0 \<notin> set (take 8 (takeWhile (\<lambda>c. c \<noteq> 46) ?t))" using z by (meson in_set_takeD set_takeWhileD)
  moreover have "0 \<notin> set (take 3 (drop 1 (dropWhile (\<lambda>c. c \<noteq> 46) ?t)))"
    using z by (meson in_set_takeD in_set_dropD set_dropWhileD)
  ultimately have "0 \<notin> set (name_to_83 t)" by (auto simp: name_to_83_def Let_def upper8_0)
  then show "i < 11 \<Longrightarrow> name_to_83 t ! i \<noteq> 0" by (metis length_name_to_83 nth_mem)
qed

text \<open>What walk_path says of a new leaf that fs_create accepts: a name that the directory does not hold.\<close>

lemma walk_path_new_leaf:
  assumes w: "walk_path F path True = Some (Some r)" and ok: "\<not> bad_new_leaf r"
  shows "(\<exists>t. leaf83 r = name_to_83 t)
    \<and> find_in_dir (vol_state F (wr_vol r)) (parent_cluster r) (leaf83 r) = Some None"
proof -
  have m: "is_dot_marker dot83" "is_dotdot_marker dotdot83"
    by (auto simp: is_dot_marker_def is_dotdot_marker_def dot83_def dotdot83_def nth_Cons')
  have sp: "replicate 11 (32 :: u8) ! 0 = 32" by simp
  have l: "leaf r = None" "leaf83 r \<noteq> dot83" "leaf83 r \<noteq> dotdot83" "leaf83 r \<noteq> replicate 11 32"
    using ok m sp unfolding bad_new_leaf_def by metis+
  from w l show ?thesis
    by (auto simp: walk_path_def Let_def split: prod.splits if_splits option.splits)
qed

text \<open>C36: A file that fs_create made is there: when it reports success on a directory of a device that obeys
  the block contract, the directory did not hold the name before, and looking it up afterwards finds
  an entry of this name with size 0, no cluster and the archive attribute - for every name whose
  first byte is not 0xE5.\<close>

theorem fs_create_found:
  assumes vol: "block_volume (\<lambda>s. disk_read s did) (\<lambda>s. disk_write s did) okd N sec"
    and walk: "walk_path F path True = Some (Some r)" and c: "fs_create F path = Some (F', 0)"
    and dev: "okd (fdev F)" "disk_id (vols F ! wr_vol r) = did" "dir_valid N (vols F ! wr_vol r) (parent_cluster r)"
    and d: "wr_vol r < length (vols F)" and e5: "leaf83 r ! 0 \<noteq> 0xE5"
  shows "find_in_dir (vol_state F (wr_vol r)) (parent_cluster r) (leaf83 r) = Some None
    \<and> (\<exists>off e. find_in_dir (vol_state F' (wr_vol r)) (parent_cluster r) (leaf83 r) = Some (Some (off, e))
      \<and> de_name e = leaf83 r \<and> de_size e = 0 \<and> de_attr e = FS_ATTR_ARC
      \<and> dirent_cluster (vols F' ! wr_vol r) e = 0)"
proof -
  let ?src = "zero_dirent\<lparr>de_name := leaf83 r, de_attr := FS_ATTR_ARC\<rparr>"
  have "\<not> bad_new_leaf r" using walk c by (auto simp: fs_create_def)
  then obtain vs where vs: "dir_add_entry (vol_state F (wr_vol r)) (parent_cluster r) ?src = Some (vs, True)"
      "F' = put_vstate F (wr_vol r) vs"
    using c walk by (auto simp: fs_create_def split: if_splits option.splits)
  from walk_path_new_leaf [OF walk \<open>\<not> bad_new_leaf r\<close>] obtain t where t: "leaf83 r = name_to_83 t"
    and absent: "find_in_dir (vol_state F (wr_vol r)) (parent_cluster r) (leaf83 r) = Some None" by blast
  have "\<exists>off. find_in_dir vs (parent_cluster r) (de_name ?src) = Some (Some (off, ?src))"
    by (rule dir_add_entry_finds [OF vol])
      (use dev e5 absent vs(1) name_to_83_nz [of 0 t] in
        \<open>simp_all add: t vol_state_def zero_dirent_def FS_ATTR_VOL_def FS_ATTR_ARC_def\<close>)
  then obtain off where "find_in_dir vs (parent_cluster r) (leaf83 r) = Some (Some (off, ?src))" by auto
  moreover have "vol_state F' (wr_vol r) = vs" using d by (simp add: vs(2) vol_state_def put_vstate_def)
  moreover have "dirent_cluster v ?src = 0" for v by (simp add: zero_dirent_def dirent_cluster_def)
  ultimately show ?thesis
    using absent by (intro conjI exI [of _ off] exI [of _ ?src]) (simp_all add: zero_dirent_def)
qed

text \<open>A FAT16 volume with an empty root of one sector, mounted as the first drive.\<close>

definition zero_handle :: handle where
  "zero_handle = \<lparr>in_use = False, is_dir = False, drive = 0, first_cluster = 0, fsize = 0, pos = 0,
     parent_dir_cluster = 0, dirent_offset = 0, hbuf = replicate 512 0, buf_valid_cluster = 0\<rparr>"

definition sample_fs :: "bytes list fsys" where
  "sample_fs = \<lparr>fdev = snd sample_fat,
     vols = (fst sample_fat)\<lparr>root_entries := 16, root_lba := 9, cwd_is_root := True\<rparr> # replicate 3 zero_volume,
     current_drive = 0, handles = replicate 8 zero_handle,
     dirhs = replicate 8 \<lparr>dh_in_use = False, dh_vol = 0, dh_cluster = 0, entry_index = 0\<rparr>\<rparr>"

lemma sample_fs_dev: "raw_disk.raw_ok ram_read ram_write (ram_ok 64) 0 (fdev sample_fs)"
  using sample_fat_ok(1) by (simp add: sample_fs_def fat_ok_def sample_fat_ok fat16_ok_def cache_ok_def split_beta)

lemma sample_fs_find: "length n = 11 \<Longrightarrow> find_in_dir (vol_state sample_fs 0) 0 n = Some None"
  by (simp add: find_in_dir_def load_dir_def vol_state_def sample_fs_def sample_fat_def zero_volume_def
      root_bytes_def root_size_sec_def fat_consts upt_conv_Cons Let_def)

lemma sample_fs_walk:
  "walk_path sample_fs [65] True = Some (Some \<lparr>wr_vol = 0, parent_cluster = 0, leaf83 = name_to_83 [65], leaf = None\<rparr>)"
proof -
  have "split_next [65] = Some ([65], [])" "split_next [] = None"
    by (simp_all add: split_next_def is_slash_def Let_def)
  then have "walk_comps vs [65] c None = Some (Some (c, Some [65]))" for vs :: "bytes list vstate" and c
    by (simp add: walk_comps.simps)
  moreover have "kind (vols sample_fs ! 0) \<noteq> FAT_NONE" "current_drive sample_fs = 0" "cwd_is_root (vols sample_fs ! 0)"
    by (simp_all add: sample_fs_def sample_fat_def)
  ultimately show ?thesis
    by (simp add: walk_path_def parse_drive_def is_slash_def Let_def vol_state_def sample_fs_find [unfolded vol_state_def])
qed

lemma fs_create_found_witness:
  "\<exists>F' off e. fs_create sample_fs [65] = Some (F', 0)
     \<and> find_in_dir (vol_state F' 0) 0 (name_to_83 [65]) = Some (Some (off, e)) \<and> de_attr e = FS_ATTR_ARC"
proof -
  let ?r = "\<lparr>wr_vol = 0, parent_cluster = 0, leaf83 = name_to_83 [65], leaf = None\<rparr>"
  let ?src = "zero_dirent\<lparr>de_name := name_to_83 [65], de_attr := FS_ATTR_ARC\<rparr>"
  let ?v = "vols sample_fs ! 0"
  have n: "name_to_83 [65] = 65 # replicate 10 32"
    by (simp add: name_to_83_def upper8_cases Let_def replicate_add [symmetric])
  have valid: "dir_valid 64 ?v 0" "disk_id ?v = 0" "dir_bytes ?v 0 = 512"
    by (simp_all add: dir_valid_def dir_root_def dir_bytes_def sample_fs_def sample_fat_def zero_volume_def
        root_bytes_def root_size_sec_def fat_consts)
  have ld: "load_dir (vol_state sample_fs 0) 0 = Some (Some (replicate 512 0))"
    by (simp add: load_dir_def vol_state_def sample_fs_def sample_fat_def zero_volume_def
        root_bytes_def root_size_sec_def fat_consts Let_def)
  let ?buf = "blit (replicate 512 0) (0 * 32) (enc_dirent ?src)"
  obtain vs' where st: "store_dir (?v, fdev sample_fs) 0 ?buf = (vs', True)"
    using load_store_dir [OF ram_raw.disk.block_volume_axioms sample_fs_dev valid(2,1), of ?buf] valid(3) by auto
  have "first_idx (\<lambda>i. replicate 512 (0 :: u8) ! (i * 32) = 0 \<or> replicate 512 0 ! (i * 32) = (0xE5 :: u8)) 16 = Some 0"
    by (simp add: first_idx_Some)
  then have "dir_add_entry (vol_state sample_fs 0) 0 ?src = Some (vs', True)"
    using ld st by (simp add: dir_add_entry_def vol_state_def)
  moreover have "\<not> bad_new_leaf ?r"
    by (simp add: bad_new_leaf_def n is_dot_marker_def is_dotdot_marker_def)
  ultimately have c: "fs_create sample_fs [65] = Some (put_vstate sample_fs 0 vs', 0)"
    by (simp add: fs_create_def sample_fs_walk)
  have d: "wr_vol ?r < length (vols sample_fs)" "leaf83 ?r ! 0 \<noteq> 0xE5"
    by (simp_all add: sample_fs_def n)
  have "\<exists>off e. find_in_dir (vol_state (put_vstate sample_fs 0 vs') (wr_vol ?r)) (parent_cluster ?r) (leaf83 ?r) = Some (Some (off, e))
      \<and> de_name e = leaf83 ?r \<and> de_size e = 0 \<and> de_attr e = FS_ATTR_ARC
      \<and> dirent_cluster (vols (put_vstate sample_fs 0 vs') ! wr_vol ?r) e = 0"
    by (rule fs_create_found [OF ram_raw.disk.block_volume_axioms sample_fs_walk c sample_fs_dev _ _ d, THEN conjunct2])
      (use valid in simp_all)
  then obtain off e where "find_in_dir (vol_state (put_vstate sample_fs 0 vs') 0) 0 (name_to_83 [65]) = Some (Some (off, e))"
      "de_attr e = FS_ATTR_ARC"
    by auto
  with c show ?thesis by blast
qed

end
