(* ===== verification/FatMountFacts.thy ===== *)
theory FatMountFacts
  imports FatDirFacts
begin

text \<open>
  Facts about mounting, formatting and the handles of kernel/fs/fat.c: which FAT type the layout
  written by fs_format is mounted as, what a failed mount leaves, the bounds of fs_read, and the
  uses of a handle that outlive the volume.
\<close>

subsection \<open>The boot sector that format_fat16 writes\<close>

lemma of_le16_here: "off + 2 \<le> length m \<Longrightarrow> window off 2 m = le16 w \<Longrightarrow> of_le16 m off = w"
proof -
  assume a: "off + 2 \<le> length m" "window off 2 m = le16 w"
  have "m ! off = le16 w ! 0" "m ! (off + 1) = le16 w ! 1"
    using a nth_window [of 0 2 off m] nth_window [of 1 2 off m] by simp_all
  then show ?thesis by (simp add: of_le16_def le16_def le16_split)
qed

lemma fat16_secs_eq:
  assumes "1024 \<le> unat tot" and "unat tot < 1048576"
  defines "d \<equiv> unat (fat16_spc tot) * 128 + 2"
  shows "unat (fat16_secs tot) = (unat tot - 12 + d - 1) div d" and "unat (fat16_secs tot) \<le> 512"
    and "0 < unat (fat16_secs tot)"
proof -
  have spc: "fat16_spc tot = (if unat tot < 32768 then 4 else if unat tot < 131072 then 8 else 16)"
    by (simp add: fat16_spc_def word_less_nat_alt)
  have d: "d \<in> {514, 1026, 2050}" by (simp add: d_def spc)
  have num: "unat (tot - 4 - 16 + 2 * 4) = unat tot - 12"
  proof -
    have "tot - 4 - 16 + 2 * 4 = tot - 12" by simp
    moreover have "unat (tot - 12) = unat tot - unat (12 :: u32)"
      using assms(1) by (intro unat_sub) (simp add: word_le_nat_alt)
    ultimately show ?thesis by simp
  qed
  have den: "unat (ucast (fat16_spc tot) * 128 + 2 :: u32) = d" by (simp add: d_def spc)
  have sum: "unat (tot - 4 - 16 + 2 * 4 + (ucast (fat16_spc tot) * 128 + 2) - 1 :: u32) = unat tot - 12 + d - 1"
  proof -
    let ?a = "tot - 4 - 16 + 2 * 4" and ?b = "ucast (fat16_spc tot) * 128 + 2 :: u32"
    have ab: "unat (?a + ?b) = unat tot - 12 + d"
      using assms(2) d num den by (subst unat_word_ariths) auto
    then have "?a + ?b \<noteq> 0" using d by auto
    from unat_minus_one [OF this] show ?thesis unfolding ab .
  qed
  have q: "0 < (unat tot - 12 + d - 1) div d"
    using assms(1) d by (auto simp: div_greater_zero_iff)
  have quot: "unat ((tot - 4 - 16 + 2 * 4 + (ucast (fat16_spc tot) * 128 + 2) - 1) div (ucast (fat16_spc tot) * 128 + 2) :: u32)
      = (unat tot - 12 + d - 1) div d"
    by (subst unat_div) (simp only: sum den)
  show e: "unat (fat16_secs tot) = (unat tot - 12 + d - 1) div d"
    unfolding fat16_secs_def Let_def using quot q by (auto simp: word_unat_eq_iff)
  show "0 < unat (fat16_secs tot)" using q e by simp
  show "unat (fat16_secs tot) \<le> 512"
  proof -
    have "unat tot < 32768 \<and> d = 514 \<or> unat tot < 131072 \<and> d = 1026 \<or> d = 2050" by (auto simp: d_def spc)
    then have "unat tot - 12 + d - 1 < 513 * d" using assms(2) by auto
    then have "(unat tot - 12 + d - 1) div d < 513" using d by (intro less_mult_imp_div_less) auto
    with e show ?thesis by simp
  qed
qed

lemma length_fat16_boot [simp]: "length (fat16_boot tot hidden label) = 512"
  by (simp add: fat16_boot_def Let_def zero_sector_def SECTOR_SIZE_def)

lemma length_volume_label [simp]: "length (volume_label l) = 11"
  by (simp add: volume_label_def Let_def split: option.splits)

text \<open>What the mount code reads from it.\<close>

lemma fat16_boot_fields:
  fixes tot hidden :: u32 and label
  defines "b \<equiv> fat16_boot tot hidden label"
  shows "of_le16 b 11 = 512" "b ! 13 = fat16_spc tot" "of_le16 b 14 = 4" "b ! 16 = 2" "of_le16 b 17 = 256"
    "of_le16 b 22 = ucast (fat16_secs tot)"
    "of_le16 b 19 = (if tot \<le> 0xFFFF then ucast tot else 0)" "0xFFFF < tot \<Longrightarrow> of_le32 b 32 = tot"
    "of_le16 b 510 = 0xAA55"
proof -
  have l: "length (lit ''ZENBITE '') = 8" "length (lit ''FAT16   '') = 8" by (simp_all add: lit_def)
  have z: "length zero_sector = 512" by (simp add: zero_sector_def SECTOR_SIZE_def)
  note n = b_def fat16_boot_def Let_def of_le16_def nth_blit l z nth_append le16_split
  have le: "le16 512 = [0, 2]" "le16 4 = [4, 0]" "le16 256 = [0, 1]" by (simp_all add: le16_def)
  show "of_le16 b 11 = 512" "b ! 13 = fat16_spc tot" "of_le16 b 14 = 4" "b ! 16 = 2" "of_le16 b 17 = 256"
    by (simp_all add: n le nth_list_update)
  show "of_le16 b 22 = ucast (fat16_secs tot)"
    by (simp add: n le nth_list_update) (simp add: le16_def le16_split)
  show "of_le16 b 19 = (if tot \<le> 0xFFFF then ucast tot else 0)"
    by (simp add: n le nth_list_update) (auto simp: le16_def le16_split zero_sector_def SECTOR_SIZE_def)
  show "0xFFFF < tot \<Longrightarrow> of_le32 b 32 = tot"
    by (simp add: n le nth_list_update of_le32_def) (simp add: le32_def le32_split)
  show "of_le16 b 510 = 0xAA55" by (simp add: n le nth_list_update)
qed

text \<open>The volume as laid out by fs_mount.\<close>

lemma fat16_layout:
  fixes tot hidden :: u32 and label and did :: int
  assumes t: "1024 \<le> unat tot" "unat tot < 1048576"
  defines "v \<equiv> layout (parse_bpb did (fat16_boot tot hidden label))"
  shows "bytes_per_sec v = 512" "sec_per_cluster v = fat16_spc tot" "fat_sectors v = fat16_secs tot"
    "root_bytes v = 8192" "num_fats v = 2" "disk_id v = did" "fat_lba v = 4"
    "root_lba v = 4 + 2 * fat16_secs tot" "root_size_sec v = 16" "root v = replicate ROOT_BUF_MAX 0"
    "kind v = (if unat tot < 16424 then FAT_12 else FAT_16)"
proof -
  note F = fat16_boot_fields [of tot hidden label]
  note S = fat16_secs_eq [OF t]
  let ?v0 = "parse_bpb did (fat16_boot tot hidden label)"
  have nz: "(ucast (fat16_secs tot) :: u16) \<noteq> 0" "ucast (ucast (fat16_secs tot) :: u16) = fat16_secs tot"
  proof -
    have "unat (ucast (fat16_secs tot) :: u16) = unat (fat16_secs tot)"
      using S(2) by (simp add: unsigned_ucast_eq take_bit_nat_eq_self)
    moreover have "unat (ucast (ucast (fat16_secs tot) :: u16) :: u32) = unat (ucast (fat16_secs tot) :: u16)"
      by simp
    ultimately show "(ucast (fat16_secs tot) :: u16) \<noteq> 0" "ucast (ucast (fat16_secs tot) :: u16) = fat16_secs tot"
      using S(3) by (auto simp: word_unat_eq_iff)
  qed
  have tot16: "(if (ucast (of_le16 (fat16_boot tot hidden label) 19) :: u32) = 0 then of_le32 (fat16_boot tot hidden label) 32
      else ucast (of_le16 (fat16_boot tot hidden label) 19)) = tot"
  proof (cases "tot \<le> 0xFFFF")
    case True
    then have "unat tot < 65536" by (simp add: word_le_nat_alt)
    then have "unat (ucast tot :: u16) = unat tot" by (simp add: unsigned_ucast_eq take_bit_nat_eq_self)
    then have "unat (ucast (ucast tot :: u16) :: u32) = unat tot" by (simp only: unat_ucast_u32)
    then have "(ucast (ucast tot :: u16) :: u32) = tot" by (simp add: word_unat_eq_iff)
    moreover have "tot \<noteq> 0" using t(1) by auto
    ultimately show ?thesis using True F(7) by simp
  next
    case False
    then have "of_le16 (fat16_boot tot hidden label) 19 = 0" using F(7) by simp
    moreover have "of_le32 (fat16_boot tot hidden label) 32 = tot" using F(8) False by (simp add: not_le)
    ultimately show ?thesis by simp
  qed
  have v0: "bytes_per_sec ?v0 = 512" "sec_per_cluster ?v0 = fat16_spc tot" "fat_sectors ?v0 = fat16_secs tot"
    "root_entries ?v0 = 256" "num_fats ?v0 = 2" "disk_id ?v0 = did" "reserved_sectors ?v0 = 4" "total_sectors ?v0 = tot"
    using F(1-6) nz tot16 by (simp_all add: parse_bpb_def Let_def)
  have "root ?v0 = replicate ROOT_BUF_MAX 0" by (simp add: parse_bpb_def Let_def zero_volume_def)
  then show "bytes_per_sec v = 512" "sec_per_cluster v = fat16_spc tot" "fat_sectors v = fat16_secs tot"
    "root_bytes v = 8192" "num_fats v = 2" "disk_id v = did" "fat_lba v = 4"
    "root_lba v = 4 + 2 * fat16_secs tot" "root_size_sec v = 16" "root v = replicate ROOT_BUF_MAX 0"
    by (simp_all add: v_def layout_def Let_def v0 root_bytes_def root_size_sec_def SECTOR_SIZE_def fats_end_def)
  define q where "q = unat (fat16_secs tot)"
  have spc: "fat16_spc tot = (if unat tot < 32768 then 4 else if unat tot < 131072 then 8 else 16)"
    by (simp add: fat16_spc_def word_less_nat_alt)
  let ?lba = "4 + 2 * fat16_secs tot + 16 :: u32"
  have lba: "unat ?lba = 2 * q + 20"
    using S(2) by (simp add: unat_word_ariths q_def)
  have small: "2 * q + 20 \<le> unat tot" using S(2) t(1) spc S(1)
    by (auto simp: q_def split: if_splits)
  have data: "unat (tot - ?lba) = unat tot - (2 * q + 20)"
    using small lba by (subst unat_sub) (simp_all add: word_le_nat_alt)
  have clusters: "unat ((tot - ?lba) div ucast (fat16_spc tot)) = (unat tot - (2 * q + 20)) div unat (fat16_spc tot)"
    by (subst unat_div) (simp only: data unat_ucast_u32)
  show "kind v = (if unat tot < 16424 then FAT_12 else FAT_16)"
  proof -
    let ?c = "(tot - ?lba) div ucast (fat16_spc tot)"
    have k: "kind v = (if ?c < 4085 then FAT_12 else if ?c < 65525 then FAT_16 else FAT_32)"
      by (simp add: v_def layout_def Let_def v0 root_size_sec_def SECTOR_SIZE_def fats_end_def)
    have dm: "m * (x div m) \<le> x \<and> x < m * (x div m) + m" if "0 < m" for x m :: nat
      using that by (metis add.commute add_less_cancel_right le_add1 mod_less_divisor mult_div_mod_eq)
    consider "unat tot < 32768" | "32768 \<le> unat tot" "unat tot < 131072" | "131072 \<le> unat tot" by linarith
    then have "unat ?c < 4085 \<longleftrightarrow> unat tot < 16424" "unat ?c < 65525"
    proof (atomize(full), cases)
      case 1
      have q: "514 * q \<le> unat tot + 501" "unat tot + 501 < 514 * q + 514"
        using dm [of 514 "unat tot + 501"] S(1) 1 t(1) by (simp_all add: q_def spc)
      have "unat tot - (2 * q + 20) < 16340 \<longleftrightarrow> unat tot < 16424"
        using q small by (cases "q \<le> 32") auto
      then show "(unat ?c < 4085 \<longleftrightarrow> unat tot < 16424) \<and> unat ?c < 65525"
        unfolding clusters using 1 by (simp add: spc div_less_iff_less_mult)
    next
      case 2
      have q: "1026 * q \<le> unat tot + 1013" "unat tot + 1013 < 1026 * q + 1026"
        using dm [of 1026 "unat tot + 1013"] S(1) 2 by (simp_all add: q_def spc)
      have "\<not> unat tot - (2 * q + 20) < 32680" using q small 2 by (cases "q \<le> 32") auto
      then show "(unat ?c < 4085 \<longleftrightarrow> unat tot < 16424) \<and> unat ?c < 65525"
        unfolding clusters using 2 by (simp add: spc div_less_iff_less_mult)
    next
      case 3
      have q: "2050 * q \<le> unat tot + 2037" "unat tot + 2037 < 2050 * q + 2050"
        using dm [of 2050 "unat tot + 2037"] S(1) 3 by (simp_all add: q_def spc)
      have "\<not> unat tot - (2 * q + 20) < 65360" "unat tot - (2 * q + 20) < 1048400"
        using q small 3 t(2) by auto
      then show "(unat ?c < 4085 \<longleftrightarrow> unat tot < 16424) \<and> unat ?c < 65525"
        unfolding clusters using 3 by (simp add: spc div_less_iff_less_mult)
    qed
    then show ?thesis unfolding k by (simp add: word_less_nat_alt)
  qed
qed

subsection \<open>The sectors a format leaves\<close>

lemma length_zero_sector [simp]: "length zero_sector = 512"
  by (simp add: zero_sector_def SECTOR_SIZE_def)

context raw_disk begin

lemma put_sector_ok:
  assumes "raw_ok s" and "unat lba < N" and "length bs = 512"
  shows "raw_ok (put_sector did lba bs s)
    \<and> (\<forall>i<N. secw (world (put_sector did lba bs s)) i = (if i = unat lba then bs else secw (world s) i))"
proof -
  obtain s' where "disk_write s did lba 1 bs = (s', True)" "raw_ok s'"
      "\<forall>i<N. secw (world s') i = (if i = unat lba then bs else secw (world s) i)"
    using disk.wr_one [OF assms] by blast
  then show ?thesis by (simp add: put_sector_def)
qed

lemma zero_run_ok:
  assumes "raw_ok s" and "unat lba + n \<le> N" and "N < 2 ^ 32"
  shows "raw_ok (zero_run did lba n s)
    \<and> (\<forall>i<N. secw (world (zero_run did lba n s)) i =
         (if unat lba \<le> i \<and> i < unat lba + n then zero_sector else secw (world s) i))"
  using assms(2)
proof (induction n)
  case 0
  then show ?case using assms(1) by (auto simp: zero_run_def)
next
  case (Suc n)
  have at: "unat (lba + of_nat n) = unat lba + n"
    using Suc.prems assms(3) by (simp add: unat_word_ariths unat_of_nat)
  have step: "zero_run did lba (Suc n) s = put_sector did (lba + of_nat n) zero_sector (zero_run did lba n s)"
    by (simp add: zero_run_def)
  note IH = Suc.IH [OF Suc_leD]
  have "raw_ok (zero_run did lba n s)" using IH Suc.prems by simp
  from put_sector_ok [OF this, of "lba + of_nat n" zero_sector] show ?case
    using IH Suc.prems unfolding step at by (auto simp: less_Suc_eq)
qed

lemma zero_fats_ok:
  assumes "raw_ok s" and "unat lba + 2 * unat n \<le> N" and "N < 2 ^ 32"
  shows "raw_ok (zero_fats did lba n s)
    \<and> (\<forall>i<N. secw (world (zero_fats did lba n s)) i =
         (if (unat lba < i \<and> i < unat lba + unat n) \<or> (unat lba + unat n < i \<and> i < unat lba + 2 * unat n)
          then zero_sector else secw (world s) i))"
proof -
  define Z where "Z m = fold (\<lambda>k s. put_sector did (lba + n + of_nat k) zero_sector
      (put_sector did (lba + of_nat k) zero_sector s)) [1..<m] s" for m :: nat
  have "m \<le> unat n \<Longrightarrow> raw_ok (Z m) \<and> (\<forall>i<N. secw (world (Z m)) i =
      (if (unat lba < i \<and> i < unat lba + m) \<or> (unat lba + unat n < i \<and> i < unat lba + unat n + m)
       then zero_sector else secw (world s) i))" for m
  proof (induction m)
    case 0
    then show ?case using assms(1) by (auto simp: Z_def)
  next
    case (Suc m)
    show ?case
    proof (cases "m = 0")
      case True
      then show ?thesis using assms(1) by (auto simp: Z_def)
    next
      case False
      let ?a = "lba + of_nat m" and ?b = "lba + n + of_nat m"
      have at: "unat ?a = unat lba + m" "unat ?b = unat lba + unat n + m"
        using Suc.prems assms(2,3) by (simp_all add: unat_word_ariths unat_of_nat)
      have step: "Z (Suc m) = put_sector did ?b zero_sector (put_sector did ?a zero_sector (Z m))"
        using False by (simp add: Z_def)
      note IH = Suc.IH [OF Suc_leD [OF Suc.prems]]
      have lt: "unat ?a < N" "unat ?b < N" using Suc.prems assms(2) unfolding at by simp_all
      have "raw_ok (Z m)" using IH by simp
      note A = put_sector_ok [OF this lt(1), of zero_sector]
      then have "raw_ok (put_sector did ?a zero_sector (Z m))" by simp
      note B = put_sector_ok [OF this lt(2), of zero_sector]
      have "unat lba < i \<and> i < unat lba + Suc m \<longleftrightarrow> i = unat lba + m \<or> (unat lba < i \<and> i < unat lba + m)" for i
        using False by auto
      moreover have "unat lba + unat n < i \<and> i < unat lba + unat n + Suc m \<longleftrightarrow>
          i = unat lba + unat n + m \<or> (unat lba + unat n < i \<and> i < unat lba + unat n + m)" for i
        using False by auto
      ultimately show ?thesis using A B IH unfolding step at by simp
    qed
  qed
  from this [of "unat n"] show ?thesis
    by (simp add: zero_fats_def Z_def mult_2 add.assoc)
qed

lemma finish_format_ok:
  assumes ok: "raw_ok s" and N: "N < 2 ^ 32" and f: "length ff = 512" and n: "0 < unat n"
    and lay: "unat lba + 2 * unat n = unat rlba" "unat rlba + rsec \<le> N"
  shows "\<exists>s'. finish_format did lba n ff rlba rsec s = (s', 0) \<and> raw_ok s'
    \<and> (\<forall>i<N. secw (world s') i =
         (if i = unat lba \<or> i = unat lba + unat n then ff
          else if unat lba < i \<and> i < unat rlba + rsec then zero_sector else secw (world s) i))"
proof -
  have sum: "unat (lba + n) = unat lba + unat n" using lay N by (simp add: unat_word_ariths)
  have "unat lba < N" using lay n by simp
  from disk.wr_one [OF ok this f] obtain s1 where s1: "disk_write s did lba 1 ff = (s1, True)" "raw_ok s1"
      "\<forall>i<N. secw (world s1) i = (if i = unat lba then ff else secw (world s) i)"
    by blast
  have "unat (lba + n) < N" using lay n unfolding sum by simp
  from disk.wr_one [OF s1(2) this f] obtain s2 where s2: "disk_write s1 did (lba + n) 1 ff = (s2, True)" "raw_ok s2"
      "\<forall>i<N. secw (world s2) i = (if i = unat lba + unat n then ff else secw (world s1) i)"
    unfolding sum by blast
  have "unat lba + 2 * unat n \<le> N" using lay by simp
  note Z = zero_fats_ok [OF s2(2) this N]
  note R = zero_run_ok [OF conjunct1 [OF Z] lay(2) N]
  have "secw (world (zero_run did rlba rsec (zero_fats did lba n s2))) i =
         (if i = unat lba \<or> i = unat lba + unat n then ff
          else if unat lba < i \<and> i < unat rlba + rsec then zero_sector else secw (world s) i)" if "i < N" for i
    using R Z s1(3) s2(3) that n unfolding lay(1) [symmetric] by simp (auto simp: not_less)
  then show ?thesis using R s1(1) s2(1) by (simp add: finish_format_def)
qed

lemma format_fat16_ok:
  assumes ok: "raw_ok s" and N: "N = unat tot" and t: "1024 \<le> unat tot" "unat tot < 1048576"
  defines "q \<equiv> unat (fat16_secs tot)"
  shows "\<exists>s'. format_fat16 s did label tot = (s', 0) \<and> raw_ok s'
    \<and> secw (world s') 0 = fat16_boot tot (disk_partition_offset s did) label
    \<and> (\<forall>i. 4 + 2 * q \<le> i \<longrightarrow> i < 20 + 2 * q \<longrightarrow> secw (world s') i = zero_sector)"
proof -
  note S = fat16_secs_eq [OF t]
  have N32: "N < 2 ^ 32" using N t by simp
  have q: "0 < q" "2 * q + 20 \<le> N"
  proof -
    have "fat16_spc tot \<in> {4, 8, 16} \<and> (unat tot < 32768 \<longrightarrow> fat16_spc tot = 4)"
      by (auto simp: fat16_spc_def word_less_nat_alt)
    then show "2 * q + 20 \<le> N" using S(1,2) t N by (cases "unat tot < 32768") (auto simp: q_def)
    show "0 < q" using S(3) by (simp add: q_def)
  qed
  obtain s1 where s1: "disk_write s did 0 1 (fat16_boot tot (disk_partition_offset s did) label) = (s1, True)" "raw_ok s1"
      "\<forall>i<N. secw (world s1) i = (if i = 0 then fat16_boot tot (disk_partition_offset s did) label else secw (world s) i)"
    using disk.wr_one [OF ok, of 0] q by force
  have r: "unat (4 + 2 * fat16_secs tot) = 4 + 2 * q"
    using S(2) by (simp add: unat_word_ariths q_def)
  have "\<exists>s'. finish_format did 4 (fat16_secs tot) (blit zero_sector 0 [0xF8, 0xFF, 0xFF, 0xFF]) (4 + 2 * fat16_secs tot) 16 s1
        = (s', 0) \<and> raw_ok s'
    \<and> (\<forall>i<N. secw (world s') i =
         (if i = unat (4 :: u32) \<or> i = unat (4 :: u32) + unat (fat16_secs tot) then blit zero_sector 0 [0xF8, 0xFF, 0xFF, 0xFF]
          else if unat (4 :: u32) < i \<and> i < unat (4 + 2 * fat16_secs tot) + 16 then zero_sector else secw (world s1) i))"
    by (rule finish_format_ok [OF s1(2) N32]) (use q r S(3) in \<open>simp_all add: q_def\<close>)
  then obtain s' where s': "finish_format did 4 (fat16_secs tot) (blit zero_sector 0 [0xF8, 0xFF, 0xFF, 0xFF]) (4 + 2 * fat16_secs tot) 16 s1
        = (s', 0)" "raw_ok s'"
      "\<forall>i<N. secw (world s') i =
         (if i = 4 \<or> i = 4 + q then blit zero_sector 0 [0xF8, 0xFF, 0xFF, 0xFF]
          else if 4 < i \<and> i < 20 + 2 * q then zero_sector else secw (world s1) i)"
    unfolding r by (auto simp: q_def)
  have "secw (world s') 0 = fat16_boot tot (disk_partition_offset s did) label" using s'(3) s1(3) q by simp
  moreover have "secw (world s') i = zero_sector" if "4 + 2 * q \<le> i" "i < 20 + 2 * q" for i
    using s'(3) q that by auto
  ultimately show ?thesis using s'(1,2) s1(1) by (simp add: format_fat16_def)
qed

lemma concat_replicate: "concat (replicate n (replicate m x)) = replicate (n * m) x"
  by (induction n) (simp_all add: replicate_add)

text \<open>The two reads of a mount: a FAT12 table is cached when it fits, and the fixed root is read.\<close>

lemma mount_fat12_cached:
  assumes ok: "raw_ok s" and v: "disk_id v = did" "unat (fat_lba v) + unat (fat_sectors v) \<le> N"
    and small: "unat (fat_sectors v) \<le> 512"
  shows "\<exists>v2. mount_fat12 s v = Some (v2, \<not> (kind v = FAT_12 \<and> 16 < unat (fat_sectors v))) \<and> kind v2 = kind v
      \<and> root v2 = root v \<and> root_lba v2 = root_lba v \<and> root_entries v2 = root_entries v \<and> disk_id v2 = disk_id v"
proof -
  have "unat (fat_sectors v * 512) = unat (fat_sectors v) * 512" using small by (simp add: unat_word_ariths)
  then have big: "of_nat FAT12_BUF < fat_sectors v * 512 \<longleftrightarrow> 16 < unat (fat_sectors v)"
    by (simp add: word_less_nat_alt fat_consts)
  have "disk_read s (disk_id v) (fat_lba v) (fat_sectors v)
      = Some (concat (map (secw (world s)) [unat (fat_lba v)..<unat (fat_lba v) + unat (fat_sectors v)]))"
    unfolding v(1) by (rule disk.rd_sec [OF ok v(2)])
  with big show ?thesis by (simp add: mount_fat12_def fat_consts)
qed

lemma mount_root_zero:
  assumes ok: "raw_ok s" and k: "kind v \<noteq> FAT_32" and rs: "root_size_sec v = 16" "root_bytes v = 8192"
    and v: "disk_id v = did" "unat (root_lba v) + 16 \<le> N"
    and zeros: "\<forall>i. unat (root_lba v) \<le> i \<longrightarrow> i < unat (root_lba v) + 16 \<longrightarrow> secw (world s) i = zero_sector"
  shows "mount_root s boot v = (v\<lparr>root_dir_cluster := 0, root := blit (root v) 0 (replicate 8192 0)\<rparr>, True)"
proof -
  have "disk_read s did (root_lba v) 16
      = Some (concat (map (secw (world s)) [unat (root_lba v)..<unat (root_lba v) + unat (16 :: u32)]))"
    by (rule disk.rd_sec [OF ok]) (use v in simp)
  also have "map (secw (world s)) [unat (root_lba v)..<unat (root_lba v) + unat (16 :: u32)] = replicate 16 zero_sector"
    using zeros by (intro nth_equalityI) auto
  also have "concat (replicate 16 zero_sector) = replicate 8192 0"
    unfolding zero_sector_def concat_replicate by (simp add: SECTOR_SIZE_def)
  finally have "disk_read s (disk_id v) (root_lba v) (ucast (root_size_sec v)) = Some (replicate 8192 0)"
    by (simp add: rs v(1))
  moreover have "root_bytes (v\<lparr>root_dir_cluster := 0\<rparr>) = 8192" "root_size_sec (v\<lparr>root_dir_cluster := 0\<rparr>) = root_size_sec v"
    using rs by (simp_all add: root_bytes_def root_size_sec_def)
  ultimately show ?thesis using k by (simp add: mount_root_def Let_def ROOT_BUF_MAX_def SECTOR_SIZE_def)
qed

text \<open>Mounting what the boot sector describes, over an empty root.\<close>

lemma mount_fat16_ok:
  assumes ok: "raw_ok s" and N: "N = unat tot" and t: "1024 \<le> unat tot" "unat tot < 1048576"
    and boot: "secw (world s) 0 = fat16_boot tot hidden label"
    and zeros: "\<forall>i. 4 + 2 * unat (fat16_secs tot) \<le> i \<longrightarrow> i < 20 + 2 * unat (fat16_secs tot) \<longrightarrow> secw (world s) i = zero_sector"
  shows "\<exists>v. mount_volume s did = Some (v, unat tot < 8237 \<or> 16424 \<le> unat tot)
    \<and> kind v = (if unat tot < 16424 then FAT_12 else FAT_16)
    \<and> (unat tot < 8237 \<or> 16424 \<le> unat tot \<longrightarrow> load_dir (v, s) 0 = Some (Some (replicate 8192 0)))"
proof -
  define q where "q = unat (fat16_secs tot)"
  define v where "v = layout (parse_bpb did (fat16_boot tot hidden label))"
  note L = fat16_layout [OF t, where hidden = hidden and label = label and did = did, folded v_def]
  note S = fat16_secs_eq [OF t, folded q_def]
  note F = fat16_boot_fields [of tot hidden label]
  have spc: "unat (fat16_spc tot) * 128 + 2 \<in> {514, 1026, 2050}" "unat tot < 32768 \<Longrightarrow> unat (fat16_spc tot) = 4"
    by (auto simp: fat16_spc_def word_less_nat_alt)
  have q: "0 < q" "q \<le> 512" "2 * q + 20 \<le> N"
  proof -
    show "0 < q" "q \<le> 512" using S by simp_all
    show "2 * q + 20 \<le> N" using S(1,2) spc t N by (cases "unat tot < 32768") auto
  qed
  have rd0: "disk_read s did 0 1 = Some (fat16_boot tot hidden label)"
    using disk.rd_one [OF ok, of 0] boot q by simp
  have good: "\<not> (bytes_per_sec (parse_bpb did (fat16_boot tot hidden label)) \<noteq> 512
      \<or> fat_sectors (parse_bpb did (fat16_boot tot hidden label)) = 0
      \<or> sec_per_cluster (parse_bpb did (fat16_boot tot hidden label)) = 0)"
  proof -
    have "bytes_per_sec v = 512" "fat_sectors v \<noteq> 0" "sec_per_cluster v \<noteq> 0"
      using L(1-3) q(1) by (auto simp: q_def fat16_spc_def)
    then show ?thesis by (simp add: v_def layout_def Let_def)
  qed
  have m: "mount_volume s did = (case mount_fat12 s v of None \<Rightarrow> None | Some (v, False) \<Rightarrow> Some (v, False)
      | Some (v, True) \<Rightarrow> (case mount_root s (fat16_boot tot hidden label) v of (v1, False) \<Rightarrow> Some (v1, False)
          | (v1, True) \<Rightarrow> Some (v1\<lparr>cwd_is_root := True, cwd_cluster := 0, cwd_path := strcpy (cwd_path v1) 0 [92]\<rparr>, True)))"
    unfolding mount_volume_def rd0 option.case Let_def if_not_P [OF good] v_def [symmetric] ..
  have "kind v = FAT_12 \<Longrightarrow> 16 < q \<longleftrightarrow> \<not> unat tot < 8237"
  proof -
    assume "kind v = FAT_12"
    then have "q = (unat tot + 501) div 514" using L(11) S(1) spc(2) t(1) by (simp split: if_splits)
    then show ?thesis using less_eq_div_iff_mult_less_eq [of 514 17 "unat tot + 501"] by linarith
  qed
  moreover have "kind v = FAT_12 \<longleftrightarrow> unat tot < 16424" using L(11) by simp
  ultimately have cut: "kind v = FAT_12 \<and> 16 < q \<longleftrightarrow> \<not> (unat tot < 8237 \<or> 16424 \<le> unat tot)" by auto
  have "unat (fat_lba v) + unat (fat_sectors v) \<le> N" "unat (fat_sectors v) \<le> 512"
    using L(3,7) q by (simp_all add: q_def)
  from mount_fat12_cached [OF ok L(6) this] obtain v2
    where v2: "mount_fat12 s v = Some (v2, unat tot < 8237 \<or> 16424 \<le> unat tot)" "kind v2 = kind v"
      "root v2 = root v" "root_lba v2 = root_lba v" "root_entries v2 = root_entries v" "disk_id v2 = disk_id v"
    using cut L(3) by (auto simp: q_def)
  have rs: "root_size_sec v2 = 16" "root_bytes v2 = 8192"
    using L(4,9) v2(5) by (simp_all add: root_size_sec_def root_bytes_def)
  have at: "unat (root_lba v2) = 4 + 2 * q"
    using q(2) unfolding v2(4) L(8) by (simp add: q_def unat_word_ariths)
  have k: "kind v2 \<noteq> FAT_32" using L(11) v2(2) by simp
  have root: "mount_root s (fat16_boot tot hidden label) v2
      = (v2\<lparr>root_dir_cluster := 0, root := blit (root v2) 0 (replicate 8192 0)\<rparr>, True)"
    by (rule mount_root_zero [OF ok k]) (use rs at q zeros v2(6) L(6) in \<open>simp_all add: q_def\<close>)
  show ?thesis
  proof (cases "unat tot < 8237 \<or> 16424 \<le> unat tot")
    case False
    with m v2(1,2) L(11) show ?thesis by simp
  next
    case True
    define v3 where "v3 = v2\<lparr>root_dir_cluster := 0, root := blit (root v2) 0 (replicate 8192 0), cwd_is_root := True,
        cwd_cluster := 0, cwd_path := strcpy (cwd_path v2) 0 [92]\<rparr>"
    have "mount_volume s did = Some (v3, True)" using m v2(1) root True by (simp add: v3_def)
    moreover have "kind v3 = kind v" "root_bytes v3 = 8192" using v2(2) rs by (simp_all add: v3_def root_bytes_def root_size_sec_def)
    moreover have "take 8192 (root v3) = replicate 8192 0"
      by (simp add: v3_def v2(3) L(10) blit_eq ROOT_BUF_MAX_def SECTOR_SIZE_def)
    ultimately show ?thesis using True k v2(2) L(11) by (simp add: load_dir_def)
  qed
qed

end

subsection \<open>Formatting, then mounting\<close>

text \<open>C6: On a raw disk of N sectors, from 512 KiB to just below 512 MiB, whose driver reads and writes
  sectors faithfully, fs_format succeeds, and mounting the result gives FAT12 below 16424 sectors and
  FAT16 from there on, with an empty root directory - except between 8237 and 16423 sectors, where the
  volume that was just formatted as FAT16 is taken for FAT12 and refused because its FAT exceeds the
  16 sectors of the FAT12 buffer.\<close>
theorem format_mount:
  assumes drv: "block_volume f g okw N secw" and ok: "raw_slot did f g s" "okw (world s)"
    and N: "sectors (disks s ! nat did) = of_nat N" "1024 \<le> N" "N < 1048576"
  shows "snd (fs_format s did label) = 0
    \<and> (\<exists>v. mount_volume (fst (fs_format s did label)) did = Some (v, N < 8237 \<or> 16424 \<le> N)
         \<and> kind v = (if N < 16424 then FAT_12 else FAT_16)
         \<and> (N < 8237 \<or> 16424 \<le> N \<longrightarrow>
              load_dir (v, fst (fs_format s did label)) 0 = Some (Some (replicate 8192 0))))"
proof -
  have rd: "raw_disk f g okw N secw" using drv by (simp add: raw_disk_def)
  have rok: "raw_disk.raw_ok f g okw did s" using ok by (simp add: raw_disk.raw_ok_def [OF rd])
  define tot :: u32 where "tot = of_nat N"
  have tot: "N = unat tot" using N(3) by (simp add: tot_def unat_of_nat)
  then have t: "1024 \<le> unat tot" "unat tot < 1048576" using N by simp_all
  obtain s' where s': "format_fat16 s did label tot = (s', 0)" "raw_disk.raw_ok f g okw did s'"
      "secw (world s') 0 = fat16_boot tot (disk_partition_offset s did) label"
      "\<forall>i. 4 + 2 * unat (fat16_secs tot) \<le> i \<longrightarrow> i < 20 + 2 * unat (fat16_secs tot) \<longrightarrow> secw (world s') i = zero_sector"
    using raw_disk.format_fat16_ok [OF rd rok tot t] by blast
  have "fs_format s did label = format_fat16 s did label tot"
    using ok(1) N(1) t by (simp add: fs_format_def raw_slot_def disk_get_def disk_consts word_less_nat_alt tot_def)
  with s'(1) raw_disk.mount_fat16_ok [OF rd s'(2) tot t s'(3,4)] show ?thesis by (simp add: tot)
qed

lemma format_mount_witness:
  "snd (fs_format (ram_state (replicate 1024 zero_sector)) 0 None) = 0
    \<and> (\<exists>v. mount_volume (fst (fs_format (ram_state (replicate 1024 zero_sector)) 0 None)) 0 = Some (v, True)
         \<and> kind v = FAT_12)"
proof -
  let ?s = "ram_state (replicate 1024 zero_sector)"
  have "ram_ok 1024 (world ?s)" by (simp add: ram_ok_def ram_state_def)
  moreover have "sectors (disks ?s ! nat 0) = of_nat 1024" by (simp add: ram_state_def)
  ultimately show ?thesis
    using format_mount [OF ram.block_volume_axioms ram_state_raw, of 1024 "replicate 1024 zero_sector" None]
    by auto
qed

end
