(* ===== verification/FatFileFacts.thy ===== *)
theory FatFileFacts
  imports FatMountFacts
begin

text \<open>
  Reading files of kernel/fs/fat.c: over a faithful device fs_read delivers the bytes of the file,
  the concatenation of the clusters of its chain cut at its size, whatever FAT type the volume has.
\<close>

subsection \<open>The contents of a file\<close>

text \<open>The k-th cluster of a chain, the bytes of a cluster, and the bytes of a file.\<close>

definition nth_cluster :: "(nat \<Rightarrow> u32) \<Rightarrow> u32 \<Rightarrow> nat \<Rightarrow> u32" where
  "nth_cluster t c k = ((\<lambda>d. t (unat d)) ^^ k) c"

definition cluster_lba :: "fat_volume \<Rightarrow> u32 \<Rightarrow> nat" where
  "cluster_lba v c = unat (data_lba v) + (unat c - 2) * unat (sec_per_cluster v)"

definition cluster_data :: "(nat \<Rightarrow> bytes) \<Rightarrow> fat_volume \<Rightarrow> u32 \<Rightarrow> bytes" where
  "cluster_data dsec v c = concat (map dsec [cluster_lba v c..<cluster_lba v c + unat (sec_per_cluster v)])"

definition file_clusters :: "fat_volume \<Rightarrow> u32 \<Rightarrow> nat" where
  "file_clusters v sz = (unat sz + cluster_bytes v - 1) div cluster_bytes v"

definition file_bytes :: "('w dstate \<Rightarrow> nat \<Rightarrow> bytes) \<Rightarrow> 'w vstate \<Rightarrow> u32 \<Rightarrow> u32 \<Rightarrow> bytes" where
  "file_bytes sec vs first sz =
     take (unat sz) (concat (map (\<lambda>k. cluster_data (sec (snd vs)) (fst vs) (nth_cluster (fat_tbl sec vs) first k))
       [0..<file_clusters (fst vs) sz]))"

text \<open>The chain is as long as the size needs, and its clusters lie in the data region of the device.\<close>

definition file_ok :: "('w dstate \<Rightarrow> nat \<Rightarrow> bytes) \<Rightarrow> nat \<Rightarrow> u32 \<Rightarrow> 'w vstate \<Rightarrow> u32 \<Rightarrow> u32 \<Rightarrow> bool" where
  "file_ok sec N fs vs first sz \<longleftrightarrow>
     (\<forall>k<file_clusters (fst vs) sz.
        let c = nth_cluster (fat_tbl sec vs) first k
        in 2 \<le> c \<and> c < fat_eof (fst vs) \<and> unat c < fat_entries (fst vs) fs
           \<and> cluster_lba (fst vs) c + unat (sec_per_cluster (fst vs)) \<le> N
           \<and> (\<forall>i. cluster_lba (fst vs) c \<le> i \<longrightarrow> i < cluster_lba (fst vs) c + unat (sec_per_cluster (fst vs))
                \<longrightarrow> outside_fat (fst vs) i))"

lemma nth_cluster_simps: "nth_cluster t c 0 = c" "nth_cluster t c (Suc k) = nth_cluster t (t (unat c)) k"
  by (simp_all add: nth_cluster_def funpow_swap1 [symmetric] del: funpow.simps) (simp_all add: funpow_Suc_right del: funpow.simps)

lemma window_concat:
  assumes "\<And>k. k < n \<Longrightarrow> length (f k) = m" and "q < n" and "r + a \<le> m"
  shows "window (q * m + r) a (concat (map f [0..<n])) = window r a (f q)"
proof -
  have len: "j \<le> n \<Longrightarrow> length (concat (map f [0..<j])) = j * m" for j
    using assms(1) by (induction j) auto
  have "[0..<n] = [0..<q] @ q # [Suc q..<n]"
    using assms(2) by (metis le0 less_imp_le_nat upt_add_eq_append upt_conv_Cons le_Suc_ex)
  then have "concat (map f [0..<n]) = concat (map f [0..<q]) @ f q @ concat (map f [Suc q..<n])" by simp
  then show ?thesis
    using len [of q] assms by (simp add: window_def)
qed

lemma window_append: "window p a xs @ window (p + a) b xs = window p (a + b) xs"
  by (simp add: window_def take_add add.commute)

subsection \<open>Reads of the table\<close>

context fat_disk begin

lemma get_any:
  assumes ok: "fat_ok okd sec N did fs vs" and d: "okd (snd vs)" and c: "unat c < fat_entries (fst vs) fs"
    and g: "fat_get vs c = (vs', x)"
  shows "x = fat_tbl sec vs (unat c) \<and> fat_same okd sec N did fs vs vs' \<and> fat_tbl sec vs' = fat_tbl sec vs \<and> okd (snd vs')"
proof (cases "kind (fst vs)")
  case FAT_NONE
  with ok show ?thesis by (simp add: fat_ok_def)
next
  case FAT_12
  with ok have o: "fat12_ok vs" by (simp add: fat_ok_def)
  have "unat c < 5461" using c FAT_12 by (simp add: fat_entries_def)
  moreover have "vs' = vs" using g FAT_12 by (simp add: fat_get_def)
  ultimately show ?thesis using fat12.get_same [OF o _ g] same12 [of vs vs'] FAT_12 d by (simp add: fat_tbl_def)
next
  case FAT_16
  with ok have o: "fat16_ok okd sec N did fs vs" by (simp add: fat_ok_def)
  have "unat c < 256 * unat fs" using c FAT_16 by (simp add: fat_entries_def)
  note S = f16.get_same [OF o this g]
  then have "kind (fst vs') = FAT_16" using FAT_16 geometry_fields(1) by (metis f16.same_def)
  moreover have "okd (snd vs')" using S by (auto simp: f16.same_def fat16_ok_def cache_ok_def)
  ultimately show ?thesis using FAT_16 S by (simp add: fat_tbl_def same16)
next
  case FAT_32
  with ok have o: "fat32_ok okd sec N did fs vs" by (simp add: fat_ok_def)
  have "unat c < 128 * unat fs" using c FAT_32 by (simp add: fat_entries_def)
  note S = f32.get_same [OF o this g]
  then have "kind (fst vs') = FAT_32" using FAT_32 geometry_fields(1) by (metis f32.same_def)
  moreover have "okd (snd vs')" using S by (auto simp: f32.same_def fat32_ok_def cache_ok_def)
  ultimately show ?thesis using FAT_32 S by (simp add: fat_tbl_def same32)
qed

text \<open>What table reads keep: everything but the cache.\<close>

definition keeps :: "'w vstate \<Rightarrow> 'w vstate \<Rightarrow> bool" where
  "keeps vs vs' \<longleftrightarrow> fat_same okd sec N did fs vs vs' \<and> fat_tbl sec vs' = fat_tbl sec vs \<and> okd (snd vs')"

lemma keeps_refl: "fat_ok okd sec N did fs vs \<Longrightarrow> okd (snd vs) \<Longrightarrow> keeps vs vs"
  by (simp add: keeps_def fat_same_def)

lemma keeps_trans:
  assumes "keeps a b" and "keeps b c"
  shows "keeps a c"
proof -
  have g: "geometry (fst b) = geometry (fst a)" using assms(1) by (simp add: keeps_def fat_same_def)
  have "outside_fat (fst b) = outside_fat (fst a)"
    using geometry_fields [OF g] by (simp add: outside_fat_def fun_eq_iff)
  then show ?thesis using assms by (simp add: keeps_def fat_same_def)
qed

lemma cluster_after_any:
  assumes "fat_ok okd sec N did fs vs" and "okd (snd vs)"
    and "\<And>j. j < k \<Longrightarrow> let d = nth_cluster (fat_tbl sec vs) c j
      in 2 \<le> d \<and> d < fat_eof (fst vs) \<and> unat d < fat_entries (fst vs) fs"
    and "cluster_after vs c k = (vs', x)"
  shows "x = nth_cluster (fat_tbl sec vs) c k \<and> keeps vs vs'"
  using assms
proof (induction k arbitrary: vs c)
  case 0
  then show ?case by (simp add: keeps_refl nth_cluster_simps)
next
  case (Suc k)
  have c: "2 \<le> c" "c < fat_eof (fst vs)" "unat c < fat_entries (fst vs) fs"
    using Suc.prems(3) [of 0] by (simp_all add: nth_cluster_simps Let_def)
  obtain vs1 y where g: "fat_get vs c = (vs1, y)" by (cases "fat_get vs c")
  note G = get_any [OF Suc.prems(1,2) c(3) g]
  then have k1: "keeps vs vs1" "geometry (fst vs1) = geometry (fst vs)" "fat_ok okd sec N did fs vs1"
    by (simp_all add: keeps_def fat_same_def)
  note gf = geometry_fields [OF k1(2)]
  have ent: "fat_entries (fst vs1) fs = fat_entries (fst vs) fs" using gf(1) by (simp add: fat_entries_def)
  have "x = nth_cluster (fat_tbl sec vs1) y k \<and> keeps vs1 vs'"
  proof (rule Suc.IH [OF k1(3)])
    show "okd (snd vs1)" using G by simp
    show "cluster_after vs1 y k = (vs', x)" using Suc.prems(4) c(1,2) g by simp
    show "let d = nth_cluster (fat_tbl sec vs1) y j
      in 2 \<le> d \<and> d < fat_eof (fst vs1) \<and> unat d < fat_entries (fst vs1) fs" if "j < k" for j
      using Suc.prems(3) [of "Suc j"] that G by (simp add: nth_cluster_simps gf ent)
  qed
  with G keeps_trans [OF k1(1)] show ?case by (simp add: nth_cluster_simps)
qed

text \<open>A cluster is read as its sectors.\<close>

lemma read_cluster_any:
  assumes d: "okd (snd vs)" and v: "disk_id (fst vs) = did" and c: "2 \<le> c"
    and r: "cluster_lba (fst vs) c + unat (sec_per_cluster (fst vs)) \<le> N"
  shows "read_cluster vs c = Some (cluster_data (sec (snd vs)) (fst vs) c)"
proof -
  let ?spc = "unat (sec_per_cluster (fst vs))"
  have "unat (c - 2) = unat c - unat (2 :: u32)" using c by (intro unat_sub)
  then have u: "unat (c - 2) = unat c - 2" by simp
  have "unat (ucast (sec_per_cluster (fst vs)) :: u32) = ?spc" by simp
  moreover have "(unat c - 2) * ?spc < 2 ^ 32" using r N_word by (simp add: cluster_lba_def)
  ultimately have "unat ((c - 2) * ucast (sec_per_cluster (fst vs))) = (unat c - 2) * ?spc"
    using u by (simp add: unat_word_ariths)
  then have l: "unat (cluster_to_lba (fst vs) c) = cluster_lba (fst vs) c"
    using r N_word by (simp add: cluster_to_lba_def cluster_lba_def unat_word_ariths)
  have "disk_read (snd vs) did (cluster_to_lba (fst vs) c) (ucast (sec_per_cluster (fst vs)))
      = Some (concat (map (sec (snd vs)) [unat (cluster_to_lba (fst vs) c)..<unat (cluster_to_lba (fst vs) c)
          + unat (ucast (sec_per_cluster (fst vs)) :: u32)]))"
    by (rule dev.rd_sec [OF d]) (use l r in simp)
  then show ?thesis using v l by (cases vs) (simp add: read_cluster_def cluster_data_def)
qed

lemma length_cluster_data:
  assumes "okd s" and "cluster_lba v c + unat (sec_per_cluster v) \<le> N"
  shows "length (cluster_data (sec s) v c) = cluster_bytes v"
proof -
  have "length (sec s i) = 512" if "i < cluster_lba v c + unat (sec_per_cluster v)" for i
    using dev.sec_len [OF assms(1)] that assms(2) by simp
  then have "map length (map (sec s) [cluster_lba v c..<cluster_lba v c + unat (sec_per_cluster v)])
      = replicate (unat (sec_per_cluster v)) 512"
    by (intro nth_equalityI) auto
  then show ?thesis by (simp add: cluster_data_def length_concat cluster_bytes_def SECTOR_SIZE_def sum_list_replicate)
qed

text \<open>Table reads change neither the file nor what makes it readable.\<close>

lemma keeps_file:
  assumes k: "keeps vs vs'" and f: "file_ok sec N fs vs first sz"
  shows "file_ok sec N fs vs' first sz \<and> file_bytes sec vs' first sz = file_bytes sec vs first sz"
proof -
  have g: "geometry (fst vs') = geometry (fst vs)" and t: "fat_tbl sec vs' = fat_tbl sec vs"
    and o: "i < N \<Longrightarrow> outside_fat (fst vs) i \<Longrightarrow> sec (snd vs') i = sec (snd vs) i" for i
    using k by (auto simp: keeps_def fat_same_def)
  note gf = geometry_fields [OF g]
  have e: "cluster_lba (fst vs') = cluster_lba (fst vs)" "file_clusters (fst vs') = file_clusters (fst vs)"
    "outside_fat (fst vs') = outside_fat (fst vs)" "fat_entries (fst vs') = fat_entries (fst vs)"
    using gf by (simp_all add: cluster_lba_def file_clusters_def cluster_bytes_def outside_fat_def fat_entries_def fun_eq_iff)
  have "cluster_data (sec (snd vs')) (fst vs') (nth_cluster (fat_tbl sec vs) first j)
      = cluster_data (sec (snd vs)) (fst vs) (nth_cluster (fat_tbl sec vs) first j)" if "j < file_clusters (fst vs) sz" for j
    using f that o unfolding cluster_data_def e(1) gf(5)
    by (intro arg_cong [where f = concat] map_cong refl) (auto simp: file_ok_def Let_def)
  then have "file_bytes sec vs' first sz = file_bytes sec vs first sz"
    unfolding file_bytes_def e(2) t by (intro arg_cong [where f = "take (unat sz)"] arg_cong [where f = concat] map_cong) auto
  moreover have "file_ok sec N fs vs' first sz" using f by (simp add: file_ok_def e gf t)
  ultimately show ?thesis by simp
qed

text \<open>A piece of one cluster of the file.\<close>

lemma file_piece:
  assumes d: "okd (snd vs)" and f: "file_ok sec N fs vs first sz" and cb: "0 < cluster_bytes (fst vs)"
    and p: "p < unat sz" and a: "p mod cluster_bytes (fst vs) + a \<le> cluster_bytes (fst vs)" "p + a \<le> unat sz"
  shows "p div cluster_bytes (fst vs) < file_clusters (fst vs) sz"
    and "window (p mod cluster_bytes (fst vs)) a
        (cluster_data (sec (snd vs)) (fst vs) (nth_cluster (fat_tbl sec vs) first (p div cluster_bytes (fst vs))))
      = window p a (file_bytes sec vs first sz)"
proof -
  let ?m = "cluster_bytes (fst vs)" and ?n = "file_clusters (fst vs) sz"
  let ?g = "\<lambda>k. cluster_data (sec (snd vs)) (fst vs) (nth_cluster (fat_tbl sec vs) first k)"
  have up: "unat sz \<le> ?n * ?m"
  proof -
    have "(unat sz + ?m - 1) mod ?m < ?m" using cb by simp
    moreover have "?n * ?m + (unat sz + ?m - 1) mod ?m = unat sz + ?m - 1"
      unfolding file_clusters_def by (rule div_mult_mod_eq)
    ultimately show ?thesis using cb by linarith
  qed
  show q: "p div ?m < ?n" using p up by (intro less_mult_imp_div_less) simp
  have "window p a (concat (map ?g [0..<?n])) = window (p mod ?m) a (?g (p div ?m))"
    using window_concat [of ?n ?g ?m "p div ?m" "p mod ?m" a] q a(1) f length_cluster_data [OF d]
    by (auto simp: file_ok_def Let_def)
  moreover have "window p a (file_bytes sec vs first sz) = window p a (concat (map ?g [0..<?n]))"
    using a(2) by (simp add: file_bytes_def window_def drop_take take_take min_def)
  ultimately show "window (p mod ?m) a (?g (p div ?m)) = window p a (file_bytes sec vs first sz)" by simp
qed

lemma read_loop_any:
  assumes "fat_ok okd sec N did fs vs" and "okd (snd vs)" and "disk_id (fst vs) = did"
    and "0 < unat (sec_per_cluster (fst vs))" and "unat (sec_per_cluster (fst vs)) \<le> 16"
    and "file_ok sec N fs vs (first_cluster f) (fsize f)" and "pos f \<le> fsize f"
  shows "\<exists>vs'. read_loop vs f n out =
      Some (vs', f\<lparr>pos := pos f + of_nat (min n (unat (fsize f) - unat (pos f)))\<rparr>,
        out @ window (unat (pos f)) (min n (unat (fsize f) - unat (pos f))) (file_bytes sec vs (first_cluster f) (fsize f)))
    \<and> keeps vs vs'"
  using assms
proof (induction n arbitrary: vs f out rule: less_induct)
  case (less n)
  let ?p = "unat (pos f)" and ?s = "unat (fsize f)" and ?m = "cluster_bytes (fst vs)"
  have ps: "?p \<le> ?s" using less.prems(7) by (simp add: word_le_nat_alt)
  have m: "unat (cluster_size (fst vs)) = ?m" "0 < ?m"
    using less.prems(4) by (simp_all add: unat_cluster_size cluster_bytes_def SECTOR_SIZE_def)
  show ?case
  proof (cases "n = 0 \<or> ?p = ?s")
    case True
    then have "n = 0 \<or> \<not> pos f < fsize f" by (auto simp: word_less_nat_alt)
    then have "read_loop vs f n out = Some (vs, f, out)" by (subst read_loop.simps) (simp add: Let_def)
    with True less.prems(1,2) show ?thesis by (auto simp: window_def keeps_refl)
  next
    case False
    then have lt: "?p < ?s" "0 < n" using ps by auto
    define a where "a = min (min (?m - ?p mod ?m) (?s - ?p)) n"
    have pm: "?p mod ?m < ?m" using m(2) by simp
    have a: "0 < a" "a \<le> n" "?p mod ?m + a \<le> ?m" "?p + a \<le> ?s" using lt pm by (auto simp: a_def)
    note piece = file_piece [OF less.prems(2,6) m(2) lt(1) a(3,4)]
    let ?q = "?p div ?m"
    let ?c = "nth_cluster (fat_tbl sec vs) (first_cluster f) ?q"
    have link: "let d = nth_cluster (fat_tbl sec vs) (first_cluster f) j
        in 2 \<le> d \<and> d < fat_eof (fst vs) \<and> unat d < fat_entries (fst vs) fs" if "j \<le> ?q" for j
      using less.prems(6) that piece(1) by (auto simp: file_ok_def Let_def)
    have c: "2 \<le> ?c" "?c < fat_eof (fst vs)" "cluster_lba (fst vs) ?c + unat (sec_per_cluster (fst vs)) \<le> N"
      using less.prems(6) piece(1) by (auto simp: file_ok_def Let_def)
    obtain vs1 c1 where ca: "cluster_after vs (first_cluster f) ?q = (vs1, c1)"
      by (cases "cluster_after vs (first_cluster f) ?q")
    have C: "c1 = ?c" "keeps vs vs1"
      using cluster_after_any [OF less.prems(1,2) link ca] by simp_all
    have g: "geometry (fst vs1) = geometry (fst vs)" and d1: "okd (snd vs1)" and ok1: "fat_ok okd sec N did fs vs1"
      using C(2) by (auto simp: keeps_def fat_same_def)
    note gf = geometry_fields [OF g]
    note K = keeps_file [OF C(2) less.prems(6)]
    have m1: "cluster_bytes (fst vs1) = ?m" using gf(5) by (simp add: cluster_bytes_def)
    have t1: "fat_tbl sec vs1 = fat_tbl sec vs" using C(2) by (simp add: keeps_def)
    have l1: "cluster_lba (fst vs1) = cluster_lba (fst vs)" using gf(5,8) by (simp add: cluster_lba_def fun_eq_iff)
    have rc: "read_cluster vs1 ?c = Some (cluster_data (sec (snd vs1)) (fst vs1) ?c)"
      by (rule read_cluster_any [OF d1 _ c(1)]) (use gf(4,5) less.prems(3) c(3) l1 in simp_all)
    have w: "window (?p mod ?m) a (cluster_data (sec (snd vs1)) (fst vs1) ?c)
        = window ?p a (file_bytes sec vs (first_cluster f) (fsize f))"
      using file_piece(2) [OF d1 conjunct1 [OF K] _ lt(1), of a] a(3,4) K m(2) by (simp add: m1 t1)
    let ?f = "f\<lparr>pos := pos f + of_nat a\<rparr>"
    have "?p + a < 2 ^ 32" using a(4) unat_u32 [of "fsize f"] by simp
    then have pa: "unat (pos f + of_nat a) = ?p + a" by (simp add: unat_word_ariths unat_of_nat)
    have rl: "read_loop vs f n out = read_loop vs1 ?f (n - a) (out @ window ?p a (file_bytes sec vs (first_cluster f) (fsize f)))"
    proof -
      have e: "unat (pos f mod cluster_size (fst vs)) = ?p mod ?m" "unat (pos f div cluster_size (fst vs)) = ?q"
        using m(1) by (simp_all add: unat_mod unat_div)
      have "unat (fsize f - pos f) = ?s - ?p" using less.prems(7) by (rule unat_sub)
      then have av: "min (min (?m - ?p mod ?m) (unat (fsize f - pos f))) n = a" by (simp add: a_def)
      have no: "(n = 0 \<or> \<not> pos f < fsize f) = False" "(sec_per_cluster (fst vs) = 0) = False"
          "(fat_eof (fst vs) \<le> ?c) = False" "(DIRBUF_SECTORS < unat (sec_per_cluster (fst vs))) = False"
        using lt less.prems(4,5) c(2) by (auto simp: word_less_nat_alt word_le_nat_alt DIRBUF_SECTORS_def)
      show ?thesis
        unfolding read_loop.simps [of vs f n out]
        unfolding Let_def e ca C(1) rc m(1) no if_False prod.case option.case av w ..
    qed
    have "\<exists>vs'. read_loop vs1 ?f (n - a) (out @ window ?p a (file_bytes sec vs (first_cluster f) (fsize f))) =
      Some (vs', ?f\<lparr>pos := pos ?f + of_nat (min (n - a) (unat (fsize ?f) - unat (pos ?f)))\<rparr>,
        (out @ window ?p a (file_bytes sec vs (first_cluster f) (fsize f)))
        @ window (unat (pos ?f)) (min (n - a) (unat (fsize ?f) - unat (pos ?f))) (file_bytes sec vs1 (first_cluster ?f) (fsize ?f)))
      \<and> keeps vs1 vs'"
      by (rule less.IH [OF _ ok1 d1]) (use a gf(4,5) less.prems K pa in \<open>auto simp: word_le_nat_alt\<close>)
    then obtain vs' where R: "read_loop vs1 ?f (n - a) (out @ window ?p a (file_bytes sec vs (first_cluster f) (fsize f))) =
      Some (vs', f\<lparr>pos := pos f + of_nat a + of_nat (min (n - a) (?s - (?p + a)))\<rparr>,
        out @ window ?p a (file_bytes sec vs (first_cluster f) (fsize f))
        @ window (?p + a) (min (n - a) (?s - (?p + a))) (file_bytes sec vs (first_cluster f) (fsize f)))"
      "keeps vs1 vs'"
      using K pa by auto
    have sum: "a + min (n - a) (?s - (?p + a)) = min n (?s - ?p)" using a by auto
    have "pos f + of_nat a + of_nat (min (n - a) (?s - (?p + a))) = pos f + of_nat (min n (?s - ?p))"
      unfolding add.assoc of_nat_add [symmetric] sum ..
    moreover have "window ?p a xs @ window (?p + a) (min (n - a) (?s - (?p + a))) xs = window ?p (min n (?s - ?p)) xs" for xs :: bytes
      unfolding window_append sum ..
    ultimately show ?thesis using rl R keeps_trans [OF C(2)] by auto
  qed
qed

end

text \<open>C1: On an open file whose chain lies in the volume, fs_read returns, delivers exactly the bytes of
  the file from the position on - as many as asked for, or as are left - and moves the position past
  them; on FAT12, FAT16 and FAT32 alike, and without changing the table or the data area.\<close>
theorem fs_read_contents:
  assumes vol: "block_volume (\<lambda>s. disk_read s did) (\<lambda>s. disk_write s did) okd N sec"
    and N: "N < 2 ^ 32" "512 * unat fs < 2 ^ 32"
    and h: "\<not> bad_handle F h" "f = handles F ! nat h" and vs: "vs = vol_state F (drive f)"
    and ok: "fat_ok okd sec N did fs vs" "okd (snd vs)" "disk_id (fst vs) = did"
    and spc: "0 < unat (sec_per_cluster (fst vs))" "unat (sec_per_cluster (fst vs)) \<le> 16"
    and f: "file_ok sec N fs vs (first_cluster f) (fsize f)" "pos f \<le> fsize f"
    and n: "n < 2 ^ 31" and r: "r = min n (unat (fsize f) - unat (pos f))"
  shows "\<exists>vs'. fs_read F h n =
      Some ((put_vstate F (drive f) vs')\<lparr>handles := (handles F)[nat h := f\<lparr>pos := pos f + of_nat r\<rparr>]\<rparr>,
        window (unat (pos f)) r (file_bytes sec vs (first_cluster f) (fsize f)), int r)
    \<and> fat_same okd sec N did fs vs vs' \<and> fat_tbl sec vs' = fat_tbl sec vs"
proof -
  have fd: "fat_disk did okd N sec fs" using vol N by (simp add: fat_disk_def fat_disk_axioms_def)
  obtain vs' where R: "read_loop vs f n [] =
      Some (vs', f\<lparr>pos := pos f + of_nat r\<rparr>, window (unat (pos f)) r (file_bytes sec vs (first_cluster f) (fsize f)))"
    and k: "fat_disk.keeps did okd N sec fs vs vs'"
    using fat_disk.read_loop_any [OF fd ok spc f, of n "[]"] r by auto
  have "r < 2 ^ 31" using r n by simp
  then have "sint (pos f + of_nat r - pos f) = int r"
    by (simp add: sint_u32 uint_nat unat_of_nat)
  then have "fs_read F h n = Some ((put_vstate F (drive f) vs')\<lparr>handles := (handles F)[nat h := f\<lparr>pos := pos f + of_nat r\<rparr>]\<rparr>,
        window (unat (pos f)) r (file_bytes sec vs (first_cluster f) (fsize f)), int r)"
    using R h vs by (simp add: fs_read_def Let_def)
  with k show ?thesis unfolding fat_disk.keeps_def [OF fd] by blast
qed

text \<open>An open file of three bytes in cluster 2 of the sample volume, whose data starts at sector 10.\<close>

definition sample_file :: "bytes list fsys" where
  "sample_file = \<lparr>fdev = ram_state ((replicate 64 (replicate 512 0))[10 := 7 # 8 # 9 # replicate 509 0]),
     vols = replicate 4 (fst sample_fat), current_drive = 0,
     handles = \<lparr>in_use = True, is_dir = False, drive = 0, first_cluster = 2, fsize = 3, pos = 1,
       parent_dir_cluster = 0, dirent_offset = 0, hbuf = [], buf_valid_cluster = -1\<rparr> # replicate 7 zero_handle,
     dirhs = []\<rparr>"

lemma fs_read_contents_witness:
  "\<exists>F'. fs_read sample_file 0 100 = Some (F', [8, 9], 2)"
proof -
  let ?w = "(replicate 64 (replicate 512 (0 :: u8)))[10 := 7 # 8 # 9 # replicate 509 0]"
  let ?vs = "vol_state sample_file 0" and ?sec = "\<lambda>s. (!) (world s)"
  have h: "\<not> bad_handle sample_file 0" by (simp add: bad_handle_def MAX_HANDLES_def sample_file_def)
  have vs: "?vs = (fst sample_fat, ram_state ?w)" by (simp add: vol_state_def sample_file_def)
  have "ram_ok 64 ?w" unfolding ram_ok_def by (auto dest!: set_update_subset_insert [THEN subsetD])
  then have okd: "raw_disk.raw_ok ram_read ram_write (ram_ok 64) 0 (snd ?vs)"
    using ram_state_raw [of ?w] by (simp add: vs ram_raw.raw_ok_def) (simp add: ram_state_def)
  have spc: "sec_per_cluster (fst ?vs) = 1" "disk_id (fst ?vs) = 0" "data_lba (fst ?vs) = 10" "fat_lba (fst ?vs) = 1"
    "fat_sectors (fst ?vs) = 4"
    by (simp_all add: vs sample_fat_def zero_volume_def)
  have ok: "fat_ok (raw_disk.raw_ok ram_read ram_write (ram_ok 64) 0) ?sec 64 0 4 ?vs"
    using okd by (simp add: vs fat_ok_def fat16_ok_def cache_ok_def sample_fat_def zero_volume_def fat_consts)
  have cl: "file_clusters (fst ?vs) 3 = 1" by (simp add: file_clusters_def cluster_bytes_def spc SECTOR_SIZE_def)
  have lba: "cluster_lba (fst ?vs) 2 = 10" by (simp add: cluster_lba_def spc)
  have f: "file_ok ?sec 64 4 ?vs 2 3"
    unfolding file_ok_def cl
  proof (intro allI impI)
    fix k :: nat assume "k < 1"
    moreover have "fat_eof (fst ?vs) = 0xFFF8" "fat_entries (fst ?vs) 4 = 1024" "outside_fat (fst ?vs) 10"
      using sample_fat_ok(3,5) spc by (simp_all add: vs fat_entries_def outside_fat_def)
    ultimately show "let c = nth_cluster (fat_tbl ?sec ?vs) 2 k in 2 \<le> c \<and> c < fat_eof (fst ?vs)
        \<and> unat c < fat_entries (fst ?vs) 4 \<and> cluster_lba (fst ?vs) c + unat (sec_per_cluster (fst ?vs)) \<le> 64
        \<and> (\<forall>i. cluster_lba (fst ?vs) c \<le> i \<longrightarrow> i < cluster_lba (fst ?vs) c + unat (sec_per_cluster (fst ?vs))
             \<longrightarrow> outside_fat (fst ?vs) i)"
      using lba spc by (auto simp: nth_cluster_simps Let_def le_less_Suc_eq)
  qed
  have bytes: "file_bytes ?sec ?vs 2 3 = [7, 8, 9]"
    by (simp add: file_bytes_def cl nth_cluster_simps cluster_data_def lba spc) (simp add: vs ram_state_def)
  let ?f = "handles sample_file ! 0"
  have fields: "first_cluster ?f = 2" "fsize ?f = 3" "pos ?f = 1" "drive ?f = 0" by (simp_all add: sample_file_def)
  have nth0: "?f = handles sample_file ! nat 0" "?vs = vol_state sample_file (drive ?f)" by (simp_all add: fields)
  have "\<exists>vs'. fs_read sample_file 0 100 =
      Some ((put_vstate sample_file (drive ?f) vs')\<lparr>handles := (handles sample_file)[nat 0 := ?f\<lparr>pos := pos ?f + of_nat 2\<rparr>]\<rparr>,
        window (unat (pos ?f)) 2 (file_bytes ?sec ?vs (first_cluster ?f) (fsize ?f)), int 2)
    \<and> fat_same (raw_disk.raw_ok ram_read ram_write (ram_ok 64) 0) ?sec 64 0 4 ?vs vs'
    \<and> fat_tbl ?sec vs' = fat_tbl ?sec ?vs"
    by (rule fs_read_contents [OF ram_raw.disk.block_volume_axioms [where N = 64] _ _ h nth0 ok okd spc(2)])
      (use f in \<open>simp_all add: spc fields\<close>)
  then obtain F' where "fs_read sample_file 0 100 =
      Some (F', window (unat (pos ?f)) 2 (file_bytes ?sec ?vs (first_cluster ?f) (fsize ?f)), int 2)"
    by blast
  then show ?thesis by (simp add: fields bytes window_def)
qed

subsection \<open>A handle that outlives its volume\<close>

text \<open>fs_unmount leaves the handles of the volume open: a read through one that has bytes left then
  divides by the cluster size of the cleared volume, which is zero, so it has no defined result.\<close>
theorem fs_read_unmounted:
  assumes h: "\<not> bad_handle F h" "f = handles F ! nat h"
    and d: "drive_idx letter = int (drive f)" "drive f < length (vols F)"
    and u: "fs_unmount F letter = (F', 0)"
    and p: "pos f < fsize f" "0 < n"
  shows "\<not> bad_handle F' h \<and> fs_read F' h n = None"
proof -
  have F': "handles F' = handles F" "vols F' ! drive f = zero_volume"
    using u d by (auto simp: fs_unmount_def put_vstate_def Let_def split: if_splits)
  then have h': "\<not> bad_handle F' h" using h by (simp add: bad_handle_def)
  have "read_loop (vol_state F' (drive f)) f n [] = None"
    using p F'(2) by (subst read_loop.simps) (simp add: vol_state_def zero_volume_def)
  with h' F'(1) h(2) show ?thesis by (simp add: fs_read_def)
qed

lemma fs_read_unmounted_witness: "fs_read (fst (fs_unmount sample_file 65)) 0 1 = None"
proof -
  let ?f = "handles sample_file ! 0"
  have fields: "pos ?f = 1" "fsize ?f = 3" "drive ?f = 0" "length (vols sample_file) = 4" by (simp_all add: sample_file_def)
  have u: "snd (fs_unmount sample_file 65) = 0"
    by (simp add: fs_unmount_def drive_idx_def sample_file_def sample_fat_def FS_DRIVE_MAX_def Let_def)
  have "\<not> bad_handle sample_file 0" by (simp add: bad_handle_def MAX_HANDLES_def sample_file_def)
  then show ?thesis
    using fs_read_unmounted [of sample_file 0 ?f 65 "fst (fs_unmount sample_file 65)" 1] u fields
    by (simp add: drive_idx_def FS_DRIVE_MAX_def prod_eq_iff)
qed

end
