(* ===== verification/ByteQueue.thy ===== *)
theory ByteQueue
  imports ZPrelude
begin

text \<open>
  The contract of a bounded byte queue and what a client may conclude from it: bytes come out in
  the order they went in, and none is lost while there is room. The receive ring of the TCP
  connection and the scan-code ring of the keyboard are instances.
\<close>

text \<open>Putting bytes until one is refused, and getting at most so many.\<close>

primrec put_many :: "('q \<Rightarrow> 'b \<Rightarrow> 'q option) \<Rightarrow> 'q \<Rightarrow> 'b list \<Rightarrow> 'q" where
  "put_many put q [] = q"
| "put_many put q (b # bs) = (case put q b of None \<Rightarrow> q | Some q' \<Rightarrow> put_many put q' bs)"

primrec get_many :: "('q \<Rightarrow> ('b \<times> 'q) option) \<Rightarrow> nat \<Rightarrow> 'q \<Rightarrow> 'b list \<times> 'q" where
  "get_many get 0 q = ([], q)"
| "get_many get (Suc n) q =
     (case get q of
        None \<Rightarrow> ([], q)
      | Some (b, q') \<Rightarrow> (case get_many get n q' of (bs, q'') \<Rightarrow> (b # bs, q'')))"

datatype 'b queue_op = Puts "'b list" | Gets nat

text \<open>A history: the bytes taken out by all its operations, and the queue left.\<close>

primrec queue_run :: "('q \<Rightarrow> 'b \<Rightarrow> 'q option) \<Rightarrow> ('q \<Rightarrow> ('b \<times> 'q) option) \<Rightarrow> 'q \<Rightarrow> 'b queue_op list \<Rightarrow> 'b list \<times> 'q" where
  "queue_run put get q [] = ([], q)"
| "queue_run put get q (e # es) =
     (case e of
        Puts bs \<Rightarrow> queue_run put get (put_many put q bs) es
      | Gets n \<Rightarrow>
          (case get_many get n q of (out, q') \<Rightarrow>
             case queue_run put get q' es of (out', q'') \<Rightarrow> (out @ out', q'')))"

text \<open>The same history on a list, with the capacity as the only limit.\<close>

primrec list_run :: "nat \<Rightarrow> 'b list \<Rightarrow> 'b queue_op list \<Rightarrow> 'b list \<times> 'b list" where
  "list_run cap xs [] = ([], xs)"
| "list_run cap xs (e # es) =
     (case e of
        Puts bs \<Rightarrow> list_run cap (xs @ take (cap - length xs) bs) es
      | Gets n \<Rightarrow> (case list_run cap (drop n xs) es of (out, ys) \<Rightarrow> (take n xs @ out, ys)))"

primrec puts_of :: "'b queue_op list \<Rightarrow> 'b list" where
  "puts_of [] = []"
| "puts_of (e # es) = (case e of Puts bs \<Rightarrow> bs | Gets n \<Rightarrow> []) @ puts_of es"

locale byte_queue =
  fixes put :: "'q \<Rightarrow> 'b \<Rightarrow> 'q option"
    and get :: "'q \<Rightarrow> ('b \<times> 'q) option"
    and items :: "'q \<Rightarrow> 'b list"
    and inv :: "'q \<Rightarrow> bool"
    and cap :: nat
  assumes put_full: "inv q \<Longrightarrow> put q b = None \<longleftrightarrow> length (items q) = cap"
    and put_some: "inv q \<Longrightarrow> put q b = Some q' \<Longrightarrow> inv q' \<and> items q' = items q @ [b]"
    and get_none: "inv q \<Longrightarrow> get q = None \<longleftrightarrow> items q = []"
    and get_some: "inv q \<Longrightarrow> get q = Some (b, q') \<Longrightarrow> inv q' \<and> items q = b # items q'"
    and in_cap: "inv q \<Longrightarrow> length (items q) \<le> cap"
begin

lemma put_many_items:
  assumes "inv q"
  shows "inv (put_many put q bs) \<and> items (put_many put q bs) = items q @ take (cap - length (items q)) bs"
  using assms
proof (induction bs arbitrary: q)
  case (Cons b bs)
  show ?case
  proof (cases "put q b")
    case None
    then have "length (items q) = cap" using Cons.prems put_full by blast
    with None Cons.prems show ?thesis by simp
  next
    case (Some q')
    then have "length (items q) < cap" using Cons.prems put_full in_cap by (metis le_neq_implies_less option.distinct(1))
    then obtain m where m: "cap - length (items q) = Suc m" by (metis Suc_diff_Suc)
    from Some Cons.prems have "inv q'" "items q' = items q @ [b]" using put_some by blast+
    moreover from this m have "cap - length (items q') = m" by simp
    ultimately show ?thesis using Some Cons.IH [of q'] m by simp
  qed
qed simp

lemma get_many_items:
  assumes "inv q" and "get_many get n q = (out, q')"
  shows "inv q' \<and> out = take n (items q) \<and> items q' = drop n (items q)"
  using assms
proof (induction n arbitrary: q out q')
  case (Suc n)
  show ?case
  proof (cases "get q")
    case None
    with Suc.prems get_none show ?thesis by simp
  next
    case (Some p)
    obtain b q1 where p: "p = (b, q1)" by (cases p)
    obtain out1 q2 where g: "get_many get n q1 = (out1, q2)" by (cases "get_many get n q1")
    have "inv q1" "items q = b # items q1" using Suc.prems(1) Some p get_some by blast+
    with Suc.IH [OF _ g] Suc.prems(2) Some p g show ?thesis by auto
  qed
qed simp

text \<open>Every history does what it does on the list.\<close>

lemma run_refines:
  assumes "inv q" and "queue_run put get q es = (out, q')"
  shows "inv q' \<and> list_run cap (items q) es = (out, items q')"
  using assms
proof (induction es arbitrary: q out q')
  case (Cons e es)
  show ?case
  proof (cases e)
    case (Puts bs)
    with Cons.prems put_many_items [OF Cons.prems(1), of bs] Cons.IH [of "put_many put q bs" out q'] show ?thesis by auto
  next
    case (Gets n)
    obtain o1 q1 where g: "get_many get n q = (o1, q1)" by (cases "get_many get n q")
    obtain o2 q2 where r: "queue_run put get q1 es = (o2, q2)" by (cases "queue_run put get q1 es")
    note G = get_many_items [OF Cons.prems(1) g]
    with Cons.IH [OF _ r] Cons.prems(2) Gets g r show ?thesis by auto
  qed
qed simp

text \<open>First in, first out: while every put fits, what came out and what is left is what was there and
  what was put, in that order.\<close>

lemma list_run_fifo:
  assumes "length xs + length (puts_of es) \<le> cap" and "list_run cap xs es = (out, ys)"
  shows "out @ ys = xs @ puts_of es"
  using assms
proof (induction es arbitrary: xs out ys)
  case (Cons e es)
  show ?case
  proof (cases e)
    case (Puts bs)
    with Cons.IH [of "xs @ bs"] Cons.prems show ?thesis by auto
  next
    case (Gets n)
    obtain o1 z where r: "list_run cap (drop n xs) es = (o1, z)" by (cases "list_run cap (drop n xs) es")
    have "length (drop n xs) + length (puts_of es) \<le> cap" using Cons.prems(1) Gets by simp
    from Cons.IH [OF this r] Cons.prems(2) Gets r show ?thesis by auto
  qed
qed simp

lemma fifo:
  assumes "inv q" and "length (items q) + length (puts_of es) \<le> cap" and "queue_run put get q es = (out, q')"
  shows "out @ items q' = items q @ puts_of es"
  using run_refines [OF assms(1,3)] list_run_fifo [OF assms(2)] by auto

end

subsection \<open>A circular buffer\<close>

text \<open>The bytes between a tail and a head index of a buffer of n slots, one of which stays empty.\<close>

definition ring_list :: "nat \<Rightarrow> 'b list \<Rightarrow> nat \<Rightarrow> nat \<Rightarrow> 'b list" where
  "ring_list n buf h t = map (\<lambda>i. buf ! ((t + i) mod n)) [0..<(h + n - t) mod n]"

lemma mod_once: "x < 2 * n \<Longrightarrow> x mod n = (if x < n then x else x - n)" for x n :: nat
  by (simp add: mod_if)

lemma ring_length: "h < n \<Longrightarrow> t < n \<Longrightarrow> length (ring_list n buf h t) = (if t \<le> h then h - t else h + n - t)"
  by (auto simp: ring_list_def mod_once)

lemma ring_nth: "i < length (ring_list n buf h t) \<Longrightarrow> ring_list n buf h t ! i = buf ! ((t + i) mod n)"
  by (simp add: ring_list_def)

lemma ring_empty: "h < n \<Longrightarrow> t < n \<Longrightarrow> ring_list n buf h t = [] \<longleftrightarrow> h = t"
  using ring_length [of h n t buf] by (auto split: if_splits)

lemma ring_full: "h < n \<Longrightarrow> t < n \<Longrightarrow> (h + 1) mod n = t \<longleftrightarrow> length (ring_list n buf h t) = n - 1"
  using mod_once [of "h + 1" n] by (auto simp: ring_length)

lemma ring_append:
  assumes "h < n" and "t < n" and "(h + 1) mod n \<noteq> t" and "length buf = n"
  shows "ring_list n (buf[h := b]) ((h + 1) mod n) t = ring_list n buf h t @ [b]"
proof (rule nth_equalityI)
  let ?u = "if t \<le> h then h - t else h + n - t"
  have m: "(h + 1) mod n = (if h + 1 < n then h + 1 else 0)" using assms(1) mod_once [of "h + 1" n] by auto
  then have h1: "(h + 1) mod n < n" using assms(1) by auto
  have l: "length (ring_list n (buf[h := b]) ((h + 1) mod n) t) = Suc ?u"
    unfolding ring_length [OF h1 assms(2)] using assms(1-3) m by auto
  show "length (ring_list n (buf[h := b]) ((h + 1) mod n) t) = length (ring_list n buf h t @ [b])"
    unfolding l length_append ring_length [OF assms(1,2)] by simp
  fix i assume "i < length (ring_list n (buf[h := b]) ((h + 1) mod n) t)"
  then have i: "i < Suc ?u" unfolding l .
  then have p: "(t + i) mod n = (if t + i < n then t + i else t + i - n)"
    using assms(1,2) by (intro mod_once) (auto split: if_splits)
  have e: "ring_list n (buf[h := b]) ((h + 1) mod n) t ! i = (buf[h := b]) ! ((t + i) mod n)"
    using i l by (intro ring_nth) simp
  show "ring_list n (buf[h := b]) ((h + 1) mod n) t ! i = (ring_list n buf h t @ [b]) ! i"
  proof (cases "i = ?u")
    case True
    then have "(t + i) mod n = h" using p assms(1,2) by (auto split: if_splits)
    then show ?thesis using e True ring_length [OF assms(1,2), of buf] assms(1,4) by (simp add: nth_append)
  next
    case False
    then have iu: "i < ?u" using i by simp
    then have "(t + i) mod n \<noteq> h" using p assms(1,2) by (auto split: if_splits)
    moreover have "(ring_list n buf h t @ [b]) ! i = buf ! ((t + i) mod n)"
      using iu ring_length [OF assms(1,2), of buf] by (simp add: nth_append ring_list_def)
    ultimately show ?thesis using e by simp
  qed
qed

lemma ring_cons:
  assumes "h < n" and "t < n" and "h \<noteq> t"
  shows "ring_list n buf h t = buf ! t # ring_list n buf h ((t + 1) mod n)"
proof (rule nth_equalityI)
  have m: "(t + 1) mod n = (if t + 1 < n then t + 1 else 0)" using assms(2) mod_once [of "t + 1" n] by auto
  then have t1: "(t + 1) mod n < n" using assms(2) by auto
  have l: "length (ring_list n buf h t) = Suc (length (ring_list n buf h ((t + 1) mod n)))"
    unfolding ring_length [OF assms(1,2)] ring_length [OF assms(1) t1] using assms m by auto
  then show "length (ring_list n buf h t) = length (buf ! t # ring_list n buf h ((t + 1) mod n))" by simp
  fix i assume i: "i < length (ring_list n buf h t)"
  show "ring_list n buf h t ! i = (buf ! t # ring_list n buf h ((t + 1) mod n)) ! i"
  proof (cases i)
    case 0
    with i assms(2) show ?thesis unfolding ring_list_def by simp
  next
    case (Suc j)
    have "((t + 1) mod n + j) mod n = (t + i) mod n" unfolding Suc by (simp add: mod_add_left_eq)
    moreover have "j < length (ring_list n buf h ((t + 1) mod n))" using i Suc unfolding l by simp
    ultimately show ?thesis using ring_nth [OF i] Suc by (simp add: ring_nth)
  qed
qed

end
