(* ===== verification/NetBase.thy ===== *)
theory NetBase
  imports Printf ByteQueue
begin

text \<open>
  The data of kernel/net/net.c and include/net.h that does not depend on the state of the stack:
  byte order, the Internet checksum, dotted-quad addresses, the ARP cache and the receive ring of
  the TCP connection. An address (ip4_addr_t) is a 32-bit word whose bytes in memory are in network
  order. A header is the list of its bytes.
\<close>

subsection \<open>Byte order\<close>

definition htons :: "u16 \<Rightarrow> u16" where
  "htons x = (drop_bit 8 x OR push_bit 8 x)"

definition htonl :: "u32 \<Rightarrow> u32" where
  "htonl x = (drop_bit 24 x AND 0xFF) OR push_bit 8 (drop_bit 16 x AND 0xFF)
     OR push_bit 16 (drop_bit 8 x AND 0xFF) OR push_bit 24 (x AND 0xFF)"

definition ntohs :: "u16 \<Rightarrow> u16" where "ntohs x = htons x"
definition ntohl :: "u32 \<Rightarrow> u32" where "ntohl x = htonl x"

definition ETH_FRAME_MAX :: nat where "ETH_FRAME_MAX = 1518"
definition ETH_TYPE_IPV4 :: u16 where "ETH_TYPE_IPV4 = 0x0800"
definition ETH_TYPE_ARP_W :: u16 where "ETH_TYPE_ARP_W = 0x0806"
definition IPPROTO_ICMP :: u8 where "IPPROTO_ICMP = 1"
definition IPPROTO_TCP :: u8 where "IPPROTO_TCP = 6"
definition IPPROTO_UDP :: u8 where "IPPROTO_UDP = 17"

definition TCP_FIN :: u8 where "TCP_FIN = 0x01"
definition TCP_SYN :: u8 where "TCP_SYN = 0x02"
definition TCP_RST :: u8 where "TCP_RST = 0x04"
definition TCP_PSH :: u8 where "TCP_PSH = 0x08"
definition TCP_ACK :: u8 where "TCP_ACK = 0x10"

lemmas net_consts = ETH_FRAME_MAX_def ETH_TYPE_IPV4_def ETH_TYPE_ARP_W_def IPPROTO_ICMP_def IPPROTO_TCP_def
  IPPROTO_UDP_def TCP_FIN_def TCP_SYN_def TCP_RST_def TCP_PSH_def TCP_ACK_def

subsection \<open>The Internet checksum\<close>

text \<open>The sum of the big-endian 16-bit words, an odd last byte padded with zero.\<close>

fun sum_words :: "bytes \<Rightarrow> u32 \<Rightarrow> u32" where
  "sum_words (a # b # p) acc = sum_words p (acc + (push_bit 8 (ucast a) OR ucast b))"
| "sum_words [a] acc = acc + push_bit 8 (ucast a)"
| "sum_words [] acc = acc"

function fold_carry :: "u32 \<Rightarrow> u32" where
  "fold_carry acc = (if drop_bit 16 acc \<noteq> 0 then fold_carry ((acc AND 0xFFFF) + drop_bit 16 acc) else acc)"
  by pat_completeness auto

lemma fold_step:
  fixes s :: u32
  shows "unat ((s AND 0xFFFF) + drop_bit 16 s) = unat s mod 65536 + unat s div 65536"
proof -
  have "unat (drop_bit 16 s) = unat s div 65536" by (simp add: drop_bit_eq_div unat_div)
  moreover have "unat (s AND 0xFFFF) = unat s mod 65536"
    using unat_and_mask [of s 16] by (simp add: mask_eq_exp_minus_1)
  moreover have "unat s mod 65536 + unat s div 65536 < 2 ^ 32"
  proof -
    have "unat s mod 65536 < 65536" by simp
    moreover have "unat s div 65536 < 65536" using unat_u32 [of s] by (intro less_mult_imp_div_less) simp
    ultimately show ?thesis by simp
  qed
  ultimately show ?thesis by (simp add: unat_word_ariths)
qed

lemma drop16_zero: "drop_bit 16 s = 0 \<longleftrightarrow> unat s < 65536" for s :: u32
proof -
  have "unat (drop_bit 16 s) = unat s div 65536" by (simp add: drop_bit_eq_div unat_div)
  then show ?thesis by (simp add: word_unat_eq_iff div_eq_0_iff)
qed

termination fold_carry
proof (relation "measure unat", goal_cases)
  case 1
  then show ?case by simp
next
  case (2 s)
  then have "65536 \<le> unat s" by (simp add: drop16_zero)
  then have "0 < unat s div 65536" by (simp add: div_greater_zero_iff)
  moreover have "unat s = unat s div 65536 * 65536 + unat s mod 65536" by simp
  ultimately show ?case unfolding in_measure fold_step by linarith
qed

declare fold_carry.simps [simp del]

definition ip_checksum :: "bytes \<Rightarrow> u16" where
  "ip_checksum p = htons (NOT (ucast (fold_carry (sum_words p 0))))"

subsection \<open>Dotted quads\<close>

text \<open>The digits of one number, its value wrapping as a 32-bit word, and the rest of the text.\<close>

fun dec_word :: "bytes \<Rightarrow> u32 \<Rightarrow> u32 \<times> bytes" where
  "dec_word [] n = (n, [])"
| "dec_word (c # s) n = (if 48 \<le> c \<and> c \<le> 57 then dec_word s (n * 10 + (ucast c - 48)) else (n, c # s))"

primrec ip4_quads :: "nat \<Rightarrow> bytes \<Rightarrow> u32 \<Rightarrow> u32" where
  "ip4_quads 0 s v = htonl v"
| "ip4_quads (Suc k) s v =
     (case dec_word s 0 of (n, s1) \<Rightarrow>
        if 255 < n then 0
        else let v1 = push_bit 8 v OR n
             in if k = 0 then htonl v1
                else if byte_at s1 0 \<noteq> 46 then 0
                else ip4_quads k (tl s1) v1)"

definition ip4_parse :: "bytes \<Rightarrow> u32" where
  "ip4_parse s = ip4_quads 4 s 0"

text \<open>The four numbers of an address, as the arguments of a conversion.\<close>

definition quad_args :: "u32 \<Rightarrow> arg list" where
  "quad_args a =
     (let v = ntohl a
      in [ArgWord (drop_bit 24 v AND 0xFF), ArgWord (drop_bit 16 v AND 0xFF), ArgWord (drop_bit 8 v AND 0xFF),
          ArgWord (v AND 0xFF)])"

definition ip4_format :: "bytes \<Rightarrow> u32 \<Rightarrow> bytes option" where
  "ip4_format out a = map_option fst (ksnprintf out 16 (lit ''%u.%u.%u.%u'') (quad_args a))"

subsection \<open>The ARP cache\<close>

definition ARP_N :: nat where "ARP_N = 8"

record arp_entry =
  ae_ip :: u32
  ae_mac :: bytes
  ae_valid :: bool

definition arp_slot :: "arp_entry list \<Rightarrow> u32 \<Rightarrow> nat option" where
  "arp_slot es ip = first_idx (\<lambda>i. ae_valid (es ! i) \<and> ae_ip (es ! i) = ip) ARP_N"

definition arp_find :: "arp_entry list \<Rightarrow> u32 \<Rightarrow> bytes option" where
  "arp_find es ip = map_option (\<lambda>i. ae_mac (es ! i)) (arp_slot es ip)"

definition arp_insert :: "arp_entry list \<Rightarrow> u32 \<Rightarrow> bytes \<Rightarrow> arp_entry list" where
  "arp_insert es ip mac =
     (case arp_slot es ip of
        Some i \<Rightarrow> es[i := (es ! i)\<lparr>ae_mac := mac\<rparr>]
      | None \<Rightarrow>
          (case first_idx (\<lambda>i. \<not> ae_valid (es ! i)) ARP_N of
             Some i \<Rightarrow> es[i := \<lparr>ae_ip = ip, ae_mac = mac, ae_valid = True\<rparr>]
           | None \<Rightarrow> es[0 := \<lparr>ae_ip = ip, ae_mac = mac, ae_valid = True\<rparr>]))"

subsection \<open>The connection and its receive ring\<close>

datatype tcp_state =
  TCP_S_CLOSED | TCP_S_SYN_SENT | TCP_S_ESTABLISHED | TCP_S_FIN_WAIT | TCP_S_CLOSE_WAIT | TCP_S_CLOSED_BY_PEER

text \<open>The comparison with TCP_S_ESTABLISHED.\<close>

definition past_handshake :: "tcp_state \<Rightarrow> bool" where
  "past_handshake s \<longleftrightarrow> s \<noteq> TCP_S_CLOSED \<and> s \<noteq> TCP_S_SYN_SENT"

definition RBUF_SIZE :: nat where "RBUF_SIZE = 4096"

record tcp_conn =
  tstate :: tcp_state
  src_ip :: u32
  dst_ip :: u32
  src_port :: u16
  dst_port :: u16
  snd_nxt :: u32
  snd_una :: u32
  rcv_nxt :: u32
  rbuf :: bytes
  rhead :: u32
  rtail :: u32

definition zero_tcp :: tcp_conn where
  "zero_tcp = \<lparr>tstate = TCP_S_CLOSED, src_ip = 0, dst_ip = 0, src_port = 0, dst_port = 0, snd_nxt = 0, snd_una = 0,
     rcv_nxt = 0, rbuf = replicate RBUF_SIZE 0, rhead = 0, rtail = 0\<rparr>"

definition ring_next :: "u32 \<Rightarrow> u32" where
  "ring_next i = (i + 1) mod of_nat RBUF_SIZE"

text \<open>One turn of the storing loop of tcp_input and of the draining loop of tcp_recv, and the loops.\<close>

definition ring_put :: "tcp_conn \<Rightarrow> u8 \<Rightarrow> tcp_conn option" where
  "ring_put t b =
     (if ring_next (rhead t) = rtail t then None
      else Some (t\<lparr>rbuf := (rbuf t)[unat (rhead t) := b], rhead := ring_next (rhead t)\<rparr>))"

definition ring_get :: "tcp_conn \<Rightarrow> (u8 \<times> tcp_conn) option" where
  "ring_get t =
     (if rtail t = rhead t then None
      else Some (rbuf t ! unat (rtail t), t\<lparr>rtail := ring_next (rtail t)\<rparr>))"

definition ring_push :: "tcp_conn \<Rightarrow> bytes \<Rightarrow> tcp_conn" where
  "ring_push = put_many ring_put"

definition ring_drain :: "nat \<Rightarrow> tcp_conn \<Rightarrow> bytes \<times> tcp_conn" where
  "ring_drain = get_many ring_get"

text \<open>How many bytes the loop of tcp_input stores before it stops.\<close>

definition ring_free :: "tcp_conn \<Rightarrow> nat" where
  "ring_free t = unat ((rtail t - rhead t - 1) mod of_nat RBUF_SIZE)"

end
