(* ===== verification/NetStack.thy ===== *)
theory NetStack
  imports NetBase "HOL-Library.Monad_Syntax"
begin

text \<open>
  The stack of kernel/net/net.c: sending, the input path of a received frame, and the blocking
  calls on ICMP, UDP and TCP.

  The network card is the record of driver callbacks the code calls through: its transmit and
  receive functions act on a state of type 'w that nothing else looks into, like the tick counter
  pit_ticks. A wait loop of the code ends when enough ticks have passed, which nothing in this file
  guarantees, and polling inside a wait can nest, so the operations take fuel: the recursion depth
  and the turns of each loop it allows. The result None is an operation that ran out of it, or one
  that reads past a buffer.
\<close>

subsection \<open>The state\<close>

record 'w net_iface =
  if_present :: bool
  if_mac :: bytes
  if_ip :: u32
  if_netmask :: u32
  if_gateway :: u32
  if_tx :: "'w \<Rightarrow> bytes \<Rightarrow> 'w"
  if_poll :: "('w \<Rightarrow> nat \<Rightarrow> bytes \<times> 'w) option"

record 'w net =
  iface :: "'w net_iface option"
  arp_cache :: "arp_entry list"
  ip_id :: u16
  ip_buf :: bytes
  rx_frame :: bytes
  icmp_reply_received :: bool
  icmp_reply_id :: u32
  icmp_reply_seq :: u32
  ping_seq :: u16
  udp_listen_port :: u16
  udp_recv_src :: u32
  udp_recv_sport :: u16
  udp_recv_buf :: bytes
  udp_recv_len :: u32
  udp_recv_ready :: bool
  tcp :: tcp_conn
  ephemeral :: u16
  dns_id :: u16
  dns_server :: u32
  g_http_status :: int
  g_http_location :: bytes
  conout :: bytes
  pit_ticks :: "'w \<Rightarrow> u32 \<times> 'w"
  nworld :: 'w

definition ticks :: "'w net \<Rightarrow> u32 \<times> 'w net" where
  "ticks s = (case pit_ticks s (nworld s) of (t, w) \<Rightarrow> (t, s\<lparr>nworld := w\<rparr>))"

subsection \<open>Sending\<close>

definition IP_BUF_SIZE :: nat where "IP_BUF_SIZE = ETH_FRAME_MAX - 14"

definition eth_send :: "bytes \<Rightarrow> u16 \<Rightarrow> bytes \<Rightarrow> 'w net \<Rightarrow> 'w net" where
  "eth_send dst ethertype payload s =
     (case iface s of
        None \<Rightarrow> s
      | Some n \<Rightarrow>
          if \<not> if_present n then s
          else s\<lparr>nworld := if_tx n (nworld s)
                   (dst @ if_mac n @ le16 (htons ethertype) @ take (ETH_FRAME_MAX - 14) payload)\<rparr>)"

definition arp_packet :: "u16 \<Rightarrow> bytes \<Rightarrow> u32 \<Rightarrow> bytes \<Rightarrow> u32 \<Rightarrow> bytes" where
  "arp_packet op sha spa tha tpa =
     le16 (htons 1) @ le16 (htons ETH_TYPE_IPV4) @ [6, 4] @ le16 (htons op) @ sha @ le32 spa @ tha @ le32 tpa"

definition arp_request :: "u32 \<Rightarrow> 'w net \<Rightarrow> 'w net" where
  "arp_request target_ip s =
     (case iface s of
        None \<Rightarrow> s
      | Some n \<Rightarrow> eth_send (replicate 6 0xFF) ETH_TYPE_ARP_W
                    (arp_packet 1 (if_mac n) (if_ip n) (replicate 6 0) target_ip) s)"

definition arp_lookup :: "'w net \<Rightarrow> u32 \<Rightarrow> bytes option" where
  "arp_lookup s ip = arp_find (arp_cache s) ip"

text \<open>\<open>while (pit_ticks() - t0 < d) { net_poll(); \<dots> }\<close>, left early when the test after the poll
  gives a result.\<close>

primrec wait_until :: "nat \<Rightarrow> ('w net \<Rightarrow> 'w net option) \<Rightarrow> u32 \<Rightarrow> u32 \<Rightarrow> ('w net \<Rightarrow> 'r option) \<Rightarrow> 'w net
    \<Rightarrow> ('r option \<times> 'w net) option" where
  "wait_until 0 poll t0 d test s = None"
| "wait_until (Suc k) poll t0 d test s =
     (case ticks s of (t, s1) \<Rightarrow>
        if \<not> t - t0 < d then Some (None, s1)
        else do { s2 \<leftarrow> poll s1;
                  case test s2 of Some r \<Rightarrow> Some (Some r, s2) | None \<Rightarrow> wait_until k poll t0 d test s2 })"

definition wait_ticks :: "nat \<Rightarrow> ('w net \<Rightarrow> 'w net option) \<Rightarrow> u32 \<Rightarrow> 'w net \<Rightarrow> 'w net option" where
  "wait_ticks k poll d s =
     (case ticks s of (t0, s1) \<Rightarrow> map_option snd (wait_until k poll t0 d (\<lambda>_. None :: unit option) s1))"

text \<open>The turns of the ARP wait of ip_send that are left.\<close>

primrec arp_wait :: "nat \<Rightarrow> nat \<Rightarrow> ('w net \<Rightarrow> 'w net option) \<Rightarrow> u32 \<Rightarrow> 'w net \<Rightarrow> 'w net option" where
  "arp_wait 0 k poll ip s = Some s"
| "arp_wait (Suc n) k poll ip s =
     (if arp_find (arp_cache s) ip \<noteq> None then Some s
      else wait_ticks k poll 50 (arp_request ip s) \<bind> arp_wait n k poll ip)"

definition ip_header :: "'w net_iface \<Rightarrow> u32 \<Rightarrow> u8 \<Rightarrow> nat \<Rightarrow> u16 \<Rightarrow> u16 \<Rightarrow> bytes" where
  "ip_header n dst proto len ident sumw =
     [0x45, 0] @ le16 (htons (of_nat (20 + len))) @ le16 (htons ident) @ le16 0 @ [64, proto] @ le16 sumw
     @ le32 (if_ip n) @ le32 dst"

definition next_hop :: "'w net_iface \<Rightarrow> u32 \<Rightarrow> u32" where
  "next_hop n dst = (if (dst XOR if_ip n) AND if_netmask n \<noteq> 0 then if_gateway n else dst)"

text \<open>The packet is built in a static buffer, which polling during the ARP wait can fill again.\<close>

definition ip_send :: "nat \<Rightarrow> ('w net \<Rightarrow> 'w net option) \<Rightarrow> u32 \<Rightarrow> u8 \<Rightarrow> bytes \<Rightarrow> 'w net \<Rightarrow> (int \<times> 'w net) option" where
  "ip_send k poll dst proto payload s =
     (case iface s of
        None \<Rightarrow> Some (-1, s)
      | Some n \<Rightarrow>
          if IP_BUF_SIZE < length payload + 20 then Some (-1, s)
          else
            let ident = ip_id s + 1;
                sumw = ip_checksum (ip_header n dst proto (length payload) ident 0);
                s1 = s\<lparr>ip_id := ident,
                       ip_buf := blit (ip_buf s) 0 (ip_header n dst proto (length payload) ident sumw @ payload)\<rparr>
            in do { s2 \<leftarrow> arp_wait 5 k poll (next_hop n dst) s1;
                    Some (case arp_find (arp_cache s2) (next_hop n dst) of
                            None \<Rightarrow> (-1, s2)
                          | Some mac \<Rightarrow>
                              (int (length payload),
                               eth_send mac ETH_TYPE_IPV4 (take (20 + length payload) (ip_buf s2)) s2)) })"

subsection \<open>ARP and ICMP input\<close>

text \<open>A packet is what the frame buffer holds from its start on; len is the length the caller computed
  for it. Reading past the buffer is None.\<close>

definition arp_input :: "bytes \<Rightarrow> u32 \<Rightarrow> 'w net \<Rightarrow> 'w net" where
  "arp_input pkt len s =
     (if len < 28 then s
      else if ntohs (of_le16 pkt 2) \<noteq> ETH_TYPE_IPV4 then s
      else
        let s1 = s\<lparr>arp_cache := arp_insert (arp_cache s) (of_le32 pkt 14) (window 8 6 pkt)\<rparr>
        in case iface s of
             None \<Rightarrow> s1
           | Some n \<Rightarrow>
               if ntohs (of_le16 pkt 6) = 1 \<and> of_le32 pkt 24 = if_ip n
               then eth_send (window 8 6 pkt) ETH_TYPE_ARP_W
                      (arp_packet 2 (if_mac n) (if_ip n) (window 8 6 pkt) (of_le32 pkt 14)) s1
               else s1)"

definition icmp_echo_reply :: "bytes \<Rightarrow> bytes" where
  "icmp_echo_reply req =
     (let r = blit (req[0 := 0]) 2 (le16 0) in blit r 2 (le16 (ip_checksum r)))"

definition ICMP_REPLY_SIZE :: nat where "ICMP_REPLY_SIZE = 1500"

definition icmp_input :: "nat \<Rightarrow> ('w net \<Rightarrow> 'w net option) \<Rightarrow> u32 \<Rightarrow> bytes \<Rightarrow> u32 \<Rightarrow> 'w net \<Rightarrow> 'w net option" where
  "icmp_input k poll src pkt len s =
     (if len < 8 then Some s
      else if pkt ! 0 = 8 then
        (let paylen = min (unat len) ICMP_REPLY_SIZE
         in if length pkt < paylen then None
            else map_option snd (ip_send k poll src IPPROTO_ICMP (icmp_echo_reply (take paylen pkt)) s))
      else if pkt ! 0 = 0 then
        Some (s\<lparr>icmp_reply_id := ucast (ntohs (of_le16 pkt 4)), icmp_reply_seq := ucast (ntohs (of_le16 pkt 6)),
                icmp_reply_received := True\<rparr>)
      else Some s)"

subsection \<open>UDP input\<close>

definition UDP_BUF_SIZE :: nat where "UDP_BUF_SIZE = 1500"

definition udp_input :: "u32 \<Rightarrow> bytes \<Rightarrow> u32 \<Rightarrow> 'w net \<Rightarrow> 'w net option" where
  "udp_input src pkt len s =
     (if len < 8 then Some s
      else if udp_listen_port s \<noteq> ntohs (of_le16 pkt 2) \<or> udp_recv_ready s then Some s
      else
        let plen = (ucast (ntohs (of_le16 pkt 4)) :: u32)
        in if plen < 8 \<or> len < plen then Some s
           else
             let payload = min (unat (plen - 8)) UDP_BUF_SIZE
             in if length pkt < 8 + payload then None
                else Some (s\<lparr>udp_recv_buf := blit (udp_recv_buf s) 0 (window 8 payload pkt),
                             udp_recv_len := of_nat payload, udp_recv_src := src,
                             udp_recv_sport := ntohs (of_le16 pkt 0), udp_recv_ready := True\<rparr>))"

subsection \<open>TCP output and input\<close>

definition tcp_checksum :: "u32 \<Rightarrow> u32 \<Rightarrow> bytes \<Rightarrow> u16" where
  "tcp_checksum src dst seg =
     (if 1600 < length seg + 12 then 0
      else ip_checksum (le32 src @ le32 dst @ [0, IPPROTO_TCP]
             @ [of_nat (length seg div 256), of_nat (length seg)] @ seg))"

definition tcp_header :: "tcp_conn \<Rightarrow> u8 \<Rightarrow> u16 \<Rightarrow> bytes" where
  "tcp_header t flags sumw =
     le16 (htons (src_port t)) @ le16 (htons (dst_port t)) @ le32 (htonl (snd_nxt t)) @ le32 (htonl (rcv_nxt t))
     @ [0x50, flags] @ le16 (htons 4096) @ le16 sumw @ le16 0"

definition TCP_PKT_SIZE :: nat where "TCP_PKT_SIZE = 1500"

definition tcp_emit :: "nat \<Rightarrow> ('w net \<Rightarrow> 'w net option) \<Rightarrow> u8 \<Rightarrow> bytes \<Rightarrow> 'w net \<Rightarrow> 'w net option" where
  "tcp_emit k poll flags bs s =
     (if TCP_PKT_SIZE < length bs + 20 then Some s
      else
        let t = tcp s; sumw = tcp_checksum (src_ip t) (dst_ip t) (tcp_header t flags 0 @ bs)
        in map_option snd (ip_send k poll (dst_ip t) IPPROTO_TCP (tcp_header t flags sumw @ bs) s))"

definition set_tcp :: "(tcp_conn \<Rightarrow> tcp_conn) \<Rightarrow> 'w net \<Rightarrow> 'w net" where
  "set_tcp f s = s\<lparr>tcp := f (tcp s)\<rparr>"

text \<open>The segment of an established connection: in-order bytes into the ring, then the flags.\<close>

definition tcp_segment :: "nat \<Rightarrow> ('w net \<Rightarrow> 'w net option) \<Rightarrow> u32 \<Rightarrow> u32 \<Rightarrow> u8 \<Rightarrow> bytes \<Rightarrow> u32 \<Rightarrow> 'w net \<Rightarrow> 'w net option" where
  "tcp_segment k poll seg_seq seg_ack flags body dlen s =
     do { s1 \<leftarrow> (if dlen \<noteq> 0 \<and> seg_seq = rcv_nxt (tcp s) then
                  (if length body < min (unat dlen) (ring_free (tcp s)) then None
                   else tcp_emit k poll TCP_ACK []
                          (set_tcp (\<lambda>t. (ring_push t (take (unat dlen) body))\<lparr>rcv_nxt := rcv_nxt t + dlen\<rparr>) s))
                else Some s);
          let s2 = (if flags AND TCP_ACK \<noteq> 0 then set_tcp (\<lambda>t. t\<lparr>snd_una := seg_ack\<rparr>) s1 else s1);
          if flags AND TCP_FIN \<noteq> 0 then
            map_option (set_tcp (\<lambda>t. t\<lparr>tstate := TCP_S_CLOSED_BY_PEER\<rparr>))
              (tcp_emit k poll TCP_ACK [] (set_tcp (\<lambda>t. t\<lparr>rcv_nxt := rcv_nxt t + 1\<rparr>) s2))
          else Some s2 }"

definition tcp_input :: "nat \<Rightarrow> ('w net \<Rightarrow> 'w net option) \<Rightarrow> u32 \<Rightarrow> bytes \<Rightarrow> u32 \<Rightarrow> 'w net \<Rightarrow> 'w net option" where
  "tcp_input k poll src pkt len s =
     (let t = tcp s in
      if len < 20 \<or> tstate t = TCP_S_CLOSED \<or> ntohs (of_le16 pkt 2) \<noteq> src_port t \<or> src \<noteq> dst_ip t
         \<or> ntohs (of_le16 pkt 0) \<noteq> dst_port t then Some s
      else
        let seg_seq = ntohl (of_le32 pkt 4); seg_ack = ntohl (of_le32 pkt 8); flags = pkt ! 13;
            hlen = (ucast (drop_bit 4 (pkt ! 12)) :: u32) * 4
        in if len < hlen then Some s
           else if flags AND TCP_RST \<noteq> 0 then Some (set_tcp (\<lambda>t. t\<lparr>tstate := TCP_S_CLOSED\<rparr>) s)
           else if tstate t = TCP_S_SYN_SENT then
             (if flags AND (TCP_SYN OR TCP_ACK) = (TCP_SYN OR TCP_ACK) then
                tcp_emit k poll TCP_ACK []
                  (set_tcp (\<lambda>t. t\<lparr>rcv_nxt := seg_seq + 1, snd_una := seg_ack, snd_nxt := seg_ack,
                                 tstate := TCP_S_ESTABLISHED\<rparr>) s)
              else Some s)
           else if past_handshake (tstate t) then
             tcp_segment k poll seg_seq seg_ack flags (drop (unat hlen) pkt) (len - hlen) s
           else Some s)"

subsection \<open>IP input and polling\<close>

definition ip_input :: "nat \<Rightarrow> ('w net \<Rightarrow> 'w net option) \<Rightarrow> bytes \<Rightarrow> u32 \<Rightarrow> 'w net \<Rightarrow> 'w net option" where
  "ip_input k poll pkt len s =
     (if len < 20 then Some s
      else if drop_bit 4 (pkt ! 0) \<noteq> 4 then Some s
      else
        let hlen = (ucast (pkt ! 0 AND 0x0F) :: u32) * 4
        in if hlen < 20 \<or> len < hlen then Some s
           else
             let tot = (ucast (ntohs (of_le16 pkt 2)) :: u32);
                 payload = (if len < tot then len else tot) - hlen;
                 body = drop (unat hlen) pkt; src = of_le32 pkt 12; dst = of_le32 pkt 16; proto = pkt ! 9
             in case iface s of
                  None \<Rightarrow> Some s
                | Some n \<Rightarrow>
                    if dst \<noteq> if_ip n \<and> dst \<noteq> 0xFFFFFFFF \<and> proto \<noteq> IPPROTO_ICMP then Some s
                    else if proto = IPPROTO_ICMP then icmp_input k poll src body payload s
                    else if proto = IPPROTO_UDP then udp_input src body payload s
                    else if proto = IPPROTO_TCP then tcp_input k poll src body payload s
                    else Some s)"

text \<open>One turn of the poll loop: None as the inner result when there is no frame.\<close>

definition handle_frame :: "nat \<Rightarrow> ('w net \<Rightarrow> 'w net option) \<Rightarrow> nat \<Rightarrow> 'w net \<Rightarrow> 'w net option" where
  "handle_frame k poll len s =
     (if len < 14 then Some s
      else
        let t = ntohs (of_le16 (rx_frame s) 12); payload = drop 14 (rx_frame s); plen = of_nat (len - 14)
        in if t = ETH_TYPE_ARP_W then Some (arp_input payload plen s)
           else if t = ETH_TYPE_IPV4 then ip_input k poll payload plen s
           else Some s)"

primrec poll_frames :: "nat \<Rightarrow> nat \<Rightarrow> ('w net \<Rightarrow> 'w net option) \<Rightarrow> ('w \<Rightarrow> nat \<Rightarrow> bytes \<times> 'w) \<Rightarrow> 'w net \<Rightarrow> 'w net option" where
  "poll_frames 0 k poll rx s = Some s"
| "poll_frames (Suc i) k poll rx s =
     (case rx (nworld s) ETH_FRAME_MAX of (fr, w) \<Rightarrow>
        let s1 = s\<lparr>nworld := w, rx_frame := blit (rx_frame s) 0 fr\<rparr>
        in if fr = [] then Some s1
           else handle_frame k poll (length fr) s1 \<bind> poll_frames i k poll rx)"

primrec net_poll :: "nat \<Rightarrow> 'w net \<Rightarrow> 'w net option" where
  "net_poll 0 s = None"
| "net_poll (Suc k) s =
     (case iface s of
        None \<Rightarrow> Some s
      | Some n \<Rightarrow>
          if \<not> if_present n then Some s
          else (case if_poll n of
                  None \<Rightarrow> Some s
                | Some rx \<Rightarrow> poll_frames 8 k (net_poll k) rx s))"

end
