(* ===== verification/NetApps.thy ===== *)
theory NetApps
  imports NetStack FatMount
begin

text \<open>
  The blocking calls of kernel/net/net.c and what is built on them: ping, UDP, the TCP client, the
  name resolver and http_get. Each takes the fuel of the polling it does (see NetStack); http_get
  also works on the file system, whose state it threads along.
\<close>

subsection \<open>Ping\<close>

definition ping_packet :: "u16 \<Rightarrow> bytes" where
  "ping_packet sq =
     (let p = [8, 0] @ le16 0 @ le16 (htons 0x1234) @ le16 (htons sq) @ replicate 8 0
      in blit p 2 (le16 (ip_checksum p)))"

text \<open>The round-trip time is the second result.\<close>

definition icmp_ping :: "nat \<Rightarrow> u32 \<Rightarrow> u32 \<Rightarrow> 'w net \<Rightarrow> (int \<times> u32 option \<times> 'w net) option" where
  "icmp_ping k dst timeout s =
     (let s1 = s\<lparr>ping_seq := ping_seq s + 1, icmp_reply_received := False\<rparr>
      in case ticks s1 of (t0, s2) \<Rightarrow>
        do { (r, s3) \<leftarrow> ip_send k (net_poll k) dst IPPROTO_ICMP (ping_packet (ping_seq s1)) s2;
             if r < 0 then Some (-1, None, s3)
             else do { (res, s4) \<leftarrow> wait_until k (net_poll k) t0 timeout
                           (\<lambda>u. if icmp_reply_received u then Some () else None) s3;
                       Some (case res of
                               None \<Rightarrow> (-1, None, s4)
                             | Some _ \<Rightarrow> (case ticks s4 of (t, s5) \<Rightarrow> (0, Some (t - t0), s5))) } })"

subsection \<open>UDP\<close>

definition udp_send :: "nat \<Rightarrow> u32 \<Rightarrow> u16 \<Rightarrow> u16 \<Rightarrow> bytes \<Rightarrow> 'w net \<Rightarrow> (int \<times> 'w net) option" where
  "udp_send k dst dport sport buf s =
     (if 1500 < length buf + 8 then Some (-1, s)
      else ip_send k (net_poll k) dst IPPROTO_UDP
             (le16 (htons sport) @ le16 (htons dport) @ le16 (htons (of_nat (8 + length buf))) @ le16 0 @ buf) s)"

text \<open>The datagram, its sender's address and port; None of the inner option is the timeout.\<close>

definition udp_recv :: "nat \<Rightarrow> u16 \<Rightarrow> nat \<Rightarrow> u32 \<Rightarrow> 'w net \<Rightarrow> ((bytes \<times> u32 \<times> u16) option \<times> 'w net) option" where
  "udp_recv k sport maxlen timeout s =
     (case ticks (s\<lparr>udp_listen_port := sport, udp_recv_ready := False\<rparr>) of (t0, s1) \<Rightarrow>
        do { (res, s2) \<leftarrow> wait_until k (net_poll k) t0 timeout
               (\<lambda>u. if udp_recv_ready u
                    then Some (take (min (unat (udp_recv_len u)) maxlen) (udp_recv_buf u), udp_recv_src u, udp_recv_sport u)
                    else None) s1;
             Some (case res of
                     None \<Rightarrow> (None, s2\<lparr>udp_listen_port := 0\<rparr>)
                   | Some r \<Rightarrow> (Some r, s2\<lparr>udp_recv_ready := False, udp_listen_port := 0\<rparr>)) })"

subsection \<open>The TCP client\<close>

definition next_ephemeral :: "u16 \<Rightarrow> u16" where
  "next_ephemeral p = (if p + 1 < 49152 then 49152 else p + 1)"

definition tcp_connect :: "nat \<Rightarrow> u32 \<Rightarrow> u16 \<Rightarrow> 'w net \<Rightarrow> (int \<times> 'w net) option" where
  "tcp_connect k dst dport s =
     (case iface s of
        None \<Rightarrow> Some (-1, s)
      | Some n \<Rightarrow>
          if \<not> if_present n then Some (-1, s)
          else case ticks (s\<lparr>ephemeral := next_ephemeral (ephemeral s)\<rparr>) of (t, s1) \<Rightarrow>
            do { s2 \<leftarrow> tcp_emit k (net_poll k) TCP_SYN []
                   (s1\<lparr>tcp := zero_tcp\<lparr>src_ip := if_ip n, dst_ip := dst, src_port := ephemeral s1, dst_port := dport,
                       snd_nxt := t * 1009 + 0xC0DE, tstate := TCP_S_SYN_SENT\<rparr>\<rparr>);
                 case ticks (set_tcp (\<lambda>t. t\<lparr>snd_nxt := snd_nxt t + 1\<rparr>) s2) of (t0, s3) \<Rightarrow>
                 do { (res, s4) \<leftarrow> wait_until k (net_poll k) t0 500
                        (\<lambda>u. if tstate (tcp u) = TCP_S_ESTABLISHED then Some 0
                             else if tstate (tcp u) = TCP_S_CLOSED then Some (-1) else None) s3;
                      Some (case res of
                              Some r \<Rightarrow> (r, s4)
                            | None \<Rightarrow> (-1, set_tcp (\<lambda>t. t\<lparr>tstate := TCP_S_CLOSED\<rparr>) s4)) } })"

fun tcp_send_loop :: "nat \<Rightarrow> bytes \<Rightarrow> 'w net \<Rightarrow> 'w net option" where
  "tcp_send_loop k bs s =
     (if bs = [] then Some s
      else
        let chunk = take 1400 bs
        in tcp_emit k (net_poll k) (TCP_ACK OR TCP_PSH) chunk s
           \<bind> (\<lambda>s1. wait_ticks k (net_poll k) 2 (set_tcp (\<lambda>t. t\<lparr>snd_nxt := snd_nxt t + of_nat (length chunk)\<rparr>) s1))
           \<bind> tcp_send_loop k (drop 1400 bs))"

declare tcp_send_loop.simps [simp del]

definition tcp_send :: "nat \<Rightarrow> bytes \<Rightarrow> 'w net \<Rightarrow> (int \<times> 'w net) option" where
  "tcp_send k bs s =
     (if tstate (tcp s) \<noteq> TCP_S_ESTABLISHED then Some (-1, s)
      else map_option (\<lambda>s1. (int (length bs), s1)) (tcp_send_loop k bs s))"

text \<open>The turns of the receive loop, which the fuel bounds; the bytes, or the end of the stream or the
  timeout as the integer the code returns.\<close>

primrec tcp_recv_loop :: "nat \<Rightarrow> ('w net \<Rightarrow> 'w net option) \<Rightarrow> nat \<Rightarrow> u32 \<Rightarrow> u32 \<Rightarrow> 'w net \<Rightarrow> (int \<times> bytes \<times> 'w net) option" where
  "tcp_recv_loop 0 poll maxlen t0 timeout s = None"
| "tcp_recv_loop (Suc k) poll maxlen t0 timeout s =
     (if maxlen = 0 then Some (0, [], s)
      else do { s1 \<leftarrow> poll s;
                case ring_drain maxlen (tcp s1) of (bs, t) \<Rightarrow>
                let s2 = s1\<lparr>tcp := t\<rparr>
                in if bs \<noteq> [] then Some (int (length bs), bs, s2)
                   else if tstate t = TCP_S_CLOSED_BY_PEER \<or> tstate t = TCP_S_CLOSED then Some (0, [], s2)
                   else case ticks s2 of (now, s3) \<Rightarrow>
                     if timeout < now - t0 then Some (-1, [], s3) else tcp_recv_loop k poll maxlen t0 timeout s3 })"

definition tcp_recv :: "nat \<Rightarrow> nat \<Rightarrow> u32 \<Rightarrow> 'w net \<Rightarrow> (int \<times> bytes \<times> 'w net) option" where
  "tcp_recv k maxlen timeout s =
     (case ticks s of (t0, s1) \<Rightarrow> tcp_recv_loop k (net_poll k) maxlen t0 timeout s1)"

definition tcp_close :: "nat \<Rightarrow> 'w net \<Rightarrow> 'w net option" where
  "tcp_close k s =
     map_option (set_tcp (\<lambda>t. t\<lparr>tstate := TCP_S_CLOSED\<rparr>))
       (if tstate (tcp s) = TCP_S_ESTABLISHED \<or> tstate (tcp s) = TCP_S_CLOSED_BY_PEER then
          tcp_emit k (net_poll k) (TCP_FIN OR TCP_ACK) [] s
          \<bind> (\<lambda>s1. wait_ticks k (net_poll k) 100 (set_tcp (\<lambda>t. t\<lparr>snd_nxt := snd_nxt t + 1\<rparr>) s1))
        else Some s)"

subsection \<open>Messages\<close>

text \<open>kprintf and kputs append to the console.\<close>

definition print :: "string \<Rightarrow> arg list \<Rightarrow> 'w net \<Rightarrow> 'w net option" where
  "print fmt as s = map_option (\<lambda>r. s\<lparr>conout := fst r\<rparr>) (kprintf (conout s) (lit fmt) as)"

definition mac_args :: "bytes \<Rightarrow> arg list" where
  "mac_args m = map (\<lambda>b. ArgWord (ucast b)) m"

primrec arp_dump_from :: "arp_entry list \<Rightarrow> 'w net \<Rightarrow> 'w net option" where
  "arp_dump_from [] s = Some s"
| "arp_dump_from (e # es) s =
     (if \<not> ae_valid e then arp_dump_from es s
      else print ''  %u.%u.%u.%u  %02x:%02x:%02x:%02x:%02x:%02x\<newline>'' (quad_args (ae_ip e) @ mac_args (ae_mac e)) s
           \<bind> arp_dump_from es)"

definition arp_dump :: "'w net \<Rightarrow> 'w net option" where
  "arp_dump s = print ''ARP cache:\<newline>'' [] s \<bind> arp_dump_from (arp_cache s)"

definition net_init :: "'w net \<Rightarrow> 'w net option" where
  "net_init s =
     (case iface s of
        None \<Rightarrow> Some s
      | Some n \<Rightarrow>
          if \<not> if_present n then Some s
          else print ''net: MAC %02x:%02x:%02x:%02x:%02x:%02x  IP %u.%u.%u.%u\<newline>'' (mac_args (if_mac n) @ quad_args (if_ip n)) s)"

subsection \<open>Names\<close>

text \<open>The labels of a name, as dns_encode_name writes them from offset off on.\<close>

function dns_labels :: "bytes \<Rightarrow> nat \<Rightarrow> nat \<Rightarrow> bytes option" where
  "dns_labels s off maxlen =
     (if s = [] then Some []
      else
        let lab = takeWhile (\<lambda>c. c \<noteq> 46) s; rest = dropWhile (\<lambda>c. c \<noteq> 46) s
        in if 63 < length lab \<or> maxlen \<le> off + length lab + 1 then None
           else map_option (\<lambda>q. of_nat (length lab) # lab @ q) (dns_labels (tl rest) (off + length lab + 1) maxlen))"
  by pat_completeness auto
termination
proof (relation "measure (\<lambda>(s, off, m). length s)", goal_cases)
  case 1
  then show ?case by simp
next
  case (2 s off maxlen lab rest)
  then have "length rest \<le> length s" "s \<noteq> []" by (simp_all add: length_dropWhile_le)
  then show ?case by (cases rest) auto
qed

declare dns_labels.simps [simp del]

definition dns_encode_name :: "bytes \<Rightarrow> nat \<Rightarrow> bytes option" where
  "dns_encode_name name maxlen =
     (case dns_labels (chars name) 0 maxlen of
        None \<Rightarrow> None
      | Some q \<Rightarrow> if maxlen \<le> length q then None else Some (q @ [0]))"

text \<open>The offset after a name; None is the code's -1.\<close>

function dns_skip_from :: "bytes \<Rightarrow> nat \<Rightarrow> nat \<Rightarrow> nat \<Rightarrow> nat option" where
  "dns_skip_from p plen off hops =
     (if plen \<le> off then None
      else
        let b = p ! off
        in if b = 0 then Some (off + 1)
           else if b AND 0xC0 = 0xC0 then (if plen < off + 2 then None else Some (off + 2))
           else if 63 < b then None
           else if 64 < hops + 1 then None
           else dns_skip_from p plen (off + 1 + unat b) (hops + 1))"
  by pat_completeness auto
termination
  by (relation "measure (\<lambda>(p, plen, off, hops). plen - off)") auto

declare dns_skip_from.simps [simp del]

definition dns_skip_name :: "bytes \<Rightarrow> nat \<Rightarrow> nat \<Rightarrow> nat option" where
  "dns_skip_name p plen off = dns_skip_from p plen off 0"

text \<open>A 16-bit field of a reply.\<close>

definition be16_at :: "bytes \<Rightarrow> nat \<Rightarrow> nat" where
  "be16_at p i = unat (p ! i) * 256 + unat (p ! (i + 1))"

text \<open>The first address record among the answers left.\<close>

primrec dns_answers :: "nat \<Rightarrow> bytes \<Rightarrow> nat \<Rightarrow> u32 option" where
  "dns_answers 0 p off = None"
| "dns_answers (Suc n) p off =
     (if length p \<le> off + 10 then None
      else case dns_skip_name p (length p) off of
             None \<Rightarrow> None
           | Some o1 \<Rightarrow>
               if length p < o1 + 10 then None
               else let atype = be16_at p o1; rdlen = be16_at p (o1 + 8)
                    in if atype = 1 \<and> rdlen = 4 \<and> o1 + 14 \<le> length p then Some (of_le32 p (o1 + 10))
                       else dns_answers n p (o1 + 10 + rdlen))"

definition dns_reply :: "u16 \<Rightarrow> bytes \<Rightarrow> u32 option" where
  "dns_reply qid p =
     (if length p < 12 \<or> p ! 0 \<noteq> ucast (drop_bit 8 qid) \<or> p ! 1 \<noteq> ucast qid then None
      else let ancount = be16_at p 6
           in if ancount = 0 then None
              else case dns_skip_name p (length p) 12 of
                     None \<Rightarrow> None
                   | Some off \<Rightarrow> dns_answers ancount p (off + 4))"

definition dns_query :: "u16 \<Rightarrow> bytes \<Rightarrow> bytes" where
  "dns_query qid qname =
     [ucast (drop_bit 8 qid), ucast qid, 1, 0, 0, 1, 0, 0, 0, 0, 0, 0] @ qname @ [0, 1, 0, 1]"

primrec dns_retry :: "nat \<Rightarrow> nat \<Rightarrow> u32 \<Rightarrow> u16 \<Rightarrow> u16 \<Rightarrow> bytes \<Rightarrow> 'w net \<Rightarrow> (u32 \<times> 'w net) option" where
  "dns_retry 0 k server sport qid pkt s = Some (0, s)"
| "dns_retry (Suc r) k server sport qid pkt s =
     do { (_, s1) \<leftarrow> udp_send k server 53 sport pkt s;
          (d, s2) \<leftarrow> udp_recv k sport 512 250 s1;
          case (case d of None \<Rightarrow> None | Some (p, _, _) \<Rightarrow> dns_reply qid p) of
            Some a \<Rightarrow> Some (a, s2)
          | None \<Rightarrow> dns_retry r k server sport qid pkt s2 }"

definition dns_resolve :: "nat \<Rightarrow> bytes \<Rightarrow> 'w net \<Rightarrow> (u32 \<times> 'w net) option" where
  "dns_resolve k name s =
     (if ip4_parse name \<noteq> 0 then Some (ip4_parse name, s)
      else case iface s of
             None \<Rightarrow> Some (0, s)
           | Some n \<Rightarrow>
               if \<not> if_present n then Some (0, s)
               else
                 let server = (if dns_server s = 0 then htonl 0x08080808 else dns_server s); qid = dns_id s + 1;
                     s1 = s\<lparr>dns_id := qid\<rparr>
                 in case dns_encode_name name (512 - 12 - 4) of
                      None \<Rightarrow> Some (0, s1)
                    | Some qname \<Rightarrow>
                        (case ticks s1 of (t, s2) \<Rightarrow>
                           dns_retry 3 k server (35000 + (ucast t AND 0x0FFF)) qid (dns_query qid qname) s2))"

definition net_set_dns :: "u32 \<Rightarrow> 'w net \<Rightarrow> 'w net" where
  "net_set_dns a s = s\<lparr>dns_server := a\<rparr>"

end
