(* ===== verification/NetHttp.thy ===== *)
theory NetHttp
  imports NetApps
begin

text \<open>
  http_get of kernel/net/net.c: splitting the URL, the parser of the response head, one request and
  the redirects. A request works on the network state and the file system state together.
\<close>

subsection \<open>The URL\<close>

record http_url =
  u_host :: bytes
  u_port :: u16
  u_path :: bytes

fun dec_port :: "bytes \<Rightarrow> u16 \<Rightarrow> u16 \<times> bytes" where
  "dec_port [] n = (n, [])"
| "dec_port (c # s) n = (if 48 \<le> c \<and> c \<le> 57 then dec_port s (n * 10 + (ucast c - 48)) else (n, c # s))"

text \<open>At most 63 bytes of host: what is left then starts at the byte after them.\<close>

definition split_url :: "bytes \<Rightarrow> http_url option" where
  "split_url url0 =
     (let url = chars url0 in
      if strncmp url (lit ''http://'') 7 \<noteq> 0 then None
      else
        let p = drop 7 url;
            host = take 63 (takeWhile (\<lambda>c. c \<noteq> 58 \<and> c \<noteq> 47) p);
            p1 = drop (length host) p;
            (port, p2) = (if byte_at p1 0 = 58 then dec_port (tl p1) 0 else (80, p1))
        in Some \<lparr>u_host = host, u_port = port, u_path = (if byte_at p2 0 = 47 then p2 else [47])\<rparr>)"

subsection \<open>The head of the response\<close>

record http_head =
  h_line :: bytes
  h_done :: bool
  h_got_status :: bool
  h_status :: int
  h_location :: bytes

definition zero_head :: http_head where
  "zero_head = \<lparr>h_line = [], h_done = False, h_got_status = False, h_status = 0, h_location = []\<rparr>"

definition is_space8 :: "u8 \<Rightarrow> bool" where
  "is_space8 c \<longleftrightarrow> c = 32"

fun dec_code :: "bytes \<Rightarrow> u32 \<Rightarrow> u32" where
  "dec_code [] n = n"
| "dec_code (c # s) n = (if 48 \<le> c \<and> c \<le> 57 then dec_code s (n * 10 + (ucast c - 48)) else n)"

definition status_code :: "bytes \<Rightarrow> int" where
  "status_code line = sint (dec_code (dropWhile is_space8 (dropWhile (\<lambda>c. \<not> is_space8 c) line)) 0)"

definition location_of :: "bytes \<Rightarrow> bytes" where
  "location_of line = take 255 (dropWhile (\<lambda>c. c = 32 \<or> c = 9) (drop 9 line))"

text \<open>The end of a line.\<close>

definition head_line :: "http_head \<Rightarrow> http_head" where
  "head_line h =
     (let line = chars (h_line h) in
      if h_line h = [] then h\<lparr>h_done := True\<rparr>
      else if \<not> h_got_status h \<and> take 5 line = lit ''HTTP/'' then
        h\<lparr>h_line := [], h_status := status_code line, h_got_status := True\<rparr>
      else if (byte_at line 0 = 76 \<or> byte_at line 0 = 108) \<and> (byte_at line 1 = 111 \<or> byte_at line 1 = 79)
           \<and> strncmp (drop 2 line) (lit ''cation:'') 7 = 0 then
        h\<lparr>h_line := [], h_location := location_of line\<rparr>
      else h\<lparr>h_line := []\<rparr>)"

definition head_byte :: "http_head \<Rightarrow> u8 \<Rightarrow> http_head" where
  "head_byte h c =
     (if c = 13 then h
      else if c \<noteq> 10 then (if length (h_line h) < 255 then h\<lparr>h_line := h_line h @ [c]\<rparr> else h)
      else head_line h)"

text \<open>The bytes of a chunk the head takes, and those left for the body.\<close>

fun head_chunk :: "http_head \<Rightarrow> bytes \<Rightarrow> http_head \<times> bytes" where
  "head_chunk h [] = (h, [])"
| "head_chunk h (c # cs) = (if h_done h then (h, c # cs) else head_chunk (head_byte h c) cs)"

subsection \<open>One request\<close>

definition http_request :: "bytes \<Rightarrow> bytes \<Rightarrow> (bytes \<times> int) option" where
  "http_request path host =
     ksnprintf (replicate 256 0) 256
       (lit ''GET %s HTTP/1.0'' @ [13, 10] @ lit ''Host: %s'' @ [13, 10] @ lit ''User-Agent: Zenbite/0.3'' @ [13, 10]
        @ lit ''Connection: close'' @ [13, 10, 13, 10])
       [ArgStr (Some path), ArgStr (Some host)]"

definition put_head :: "http_head \<Rightarrow> 'w net \<Rightarrow> 'w net" where
  "put_head h s = s\<lparr>g_http_status := h_status h, g_http_location := h_location h\<rparr>"

text \<open>The loop over the received chunks: the count of body bytes written.\<close>

primrec http_body :: "nat \<Rightarrow> nat \<Rightarrow> int \<Rightarrow> http_head \<Rightarrow> u32 \<Rightarrow> 'w net \<Rightarrow> 'd fsys \<Rightarrow> (u32 \<times> 'w net \<times> 'd fsys) option" where
  "http_body 0 k fh h got s F = None"
| "http_body (Suc j) k fh h got s F =
     do { (n, chunk, s1) \<leftarrow> tcp_recv k 1024 500 s;
          if n \<le> 0 then Some (got, s1, F)
          else case head_chunk h chunk of (h1, rest) \<Rightarrow>
            let s2 = put_head h1 s1
            in if h_done h1 \<and> rest \<noteq> [] then
                 do { (F1, w) \<leftarrow> fs_write F fh rest;
                      http_body j k fh h1 (if 0 < w then got + of_int w else got) s2 F1 }
               else http_body j k fh h1 got s2 F }"

definition fail_closed :: "nat \<Rightarrow> 'w net \<Rightarrow> 'd fsys \<Rightarrow> (int \<times> 'w net \<times> 'd fsys) option" where
  "fail_closed k s F = map_option (\<lambda>s1. (-1, s1, F)) (tcp_close k s)"

definition http_transfer :: "nat \<Rightarrow> bytes \<Rightarrow> http_url \<Rightarrow> 'w net \<Rightarrow> 'd fsys \<Rightarrow> (int \<times> 'w net \<times> 'd fsys) option" where
  "http_transfer k out_path u s F =
     do { (req, reqlen) \<leftarrow> http_request (u_path u) (u_host u);
          (_, s1) \<leftarrow> tcp_send k (take (nat reqlen) req) s;
          (F1, _) \<leftarrow> fs_unlink F out_path;
          (F2, rc) \<leftarrow> fs_create F1 out_path;
          if rc < 0 then print ''http_get: cannot create output file\<newline>'' [] s1 \<bind> (\<lambda>s2. fail_closed k s2 F2)
          else do { (F3, fh) \<leftarrow> fs_open F2 out_path;
                    if fh < 0 then fail_closed k s1 F3
                    else do { (got, s2, F4) \<leftarrow> http_body k k fh zero_head 0 s1 F3;
                              s3 \<leftarrow> tcp_close k s2;
                              Some (sint got, s3, fst (fs_close F4 fh)) } } }"

definition http_get_once :: "nat \<Rightarrow> bytes \<Rightarrow> bytes \<Rightarrow> 'w net \<Rightarrow> 'd fsys \<Rightarrow> (int \<times> 'w net \<times> 'd fsys) option" where
  "http_get_once k url out_path s0 F =
     (let s = put_head zero_head s0 in
      case split_url url of
        None \<Rightarrow> map_option (\<lambda>s1. (-1, s1, F)) (print ''http_get: only http:// supported\<newline>'' [] s)
      | Some u \<Rightarrow>
          do { (dst, s1) \<leftarrow> dns_resolve k (u_host u) s;
               if dst = 0 then
                 map_option (\<lambda>s2. (-1, s2, F)) (print ''http_get: cannot resolve %s\<newline>'' [ArgStr (Some (u_host u))] s1)
               else do { s2 \<leftarrow> print ''http_get: GET http://%s:%u%s\<newline>''
                                [ArgStr (Some (u_host u)), ArgWord (ucast (u_port u)), ArgStr (Some (u_path u))] s1;
                         (rc, s3) \<leftarrow> tcp_connect k dst (u_port u) s2;
                         if rc < 0 then map_option (\<lambda>s4. (-1, s4, F)) (print ''http_get: TCP connect failed\<newline>'' [] s3)
                         else http_transfer k out_path u s3 F } })"

subsection \<open>Redirects\<close>

definition is_redirect :: "int \<Rightarrow> bool" where
  "is_redirect st \<longleftrightarrow> st \<in> {301, 302, 303, 307, 308}"

primrec http_hops :: "nat \<Rightarrow> nat \<Rightarrow> bytes \<Rightarrow> bytes \<Rightarrow> 'w net \<Rightarrow> 'd fsys \<Rightarrow> (int \<times> 'w net \<times> 'd fsys) option" where
  "http_hops 0 k cur out_path s F = Some (-1, s, F)"
| "http_hops (Suc n) k cur out_path s F =
     do { (body, s1, F1) \<leftarrow> http_get_once k cur out_path s F;
          if is_redirect (g_http_status s1) \<and> strncmp (g_http_location s1) (lit ''http://'') 7 = 0
          then http_hops n k (take 511 (g_http_location s1)) out_path s1 F1
          else Some (body, s1, F1) }"

definition http_get :: "nat \<Rightarrow> bytes \<Rightarrow> bytes \<Rightarrow> 'w net \<Rightarrow> 'd fsys \<Rightarrow> (int \<times> 'w net \<times> 'd fsys) option" where
  "http_get k url out_path s F = http_hops 5 k (take 511 (chars url)) out_path s F"

definition http_last_status :: "'w net \<Rightarrow> int" where
  "http_last_status s = g_http_status s"

definition http_last_location :: "'w net \<Rightarrow> bytes" where
  "http_last_location s = g_http_location s"

end
