(* ===== verification/NetFacts.thy ===== *)
theory NetFacts
  imports NetBase
begin

text \<open>
  Facts about the data of the network stack: byte order is undone by itself, a header with its
  checksum filled in sums to zero, dotted quads print and parse back, the ARP cache answers with
  what was last learnt, and the receive ring of the connection is a first-in first-out queue.
\<close>

subsection \<open>Byte order\<close>

lemma htons_htons [simp]: "htons (htons x) = x"
proof (rule bit_word_eqI)
  fix n :: nat assume "n < LENGTH(16)"
  then consider "n < 8" | i where "n = 8 + i" "i < 8" using le_Suc_ex [of 8 n] by fastforce
  then show "bit (htons (htons x)) n \<longleftrightarrow> bit x n"
    by cases (auto simp: htons_def bit_simps)
qed

lemma ntohs_htons [simp]: "ntohs (htons x) = x" "htons (ntohs x) = x"
  by (simp_all add: ntohs_def)

text \<open>A 16-bit field in network order: high byte first.\<close>

lemma le16_htons: "le16 (htons x) = [ucast (drop_bit 8 x), ucast x]"
proof -
  have "ucast (htons x AND 0xFF) = (ucast (drop_bit 8 x) :: u8)"
  proof (rule bit_word_eqI)
    have m: "(0xFF :: u16) = mask 8" by (simp add: mask_eq_exp_minus_1)
    fix n :: nat assume "n < LENGTH(8)"
    then show "bit (ucast (htons x AND 0xFF) :: u8) n \<longleftrightarrow> bit (ucast (drop_bit 8 x) :: u8) n"
      unfolding m by (auto simp: htons_def bit_simps)
  qed
  moreover have "ucast (drop_bit 8 (htons x) AND 0xFF) = (ucast x :: u8)"
  proof (rule bit_word_eqI)
    have m: "(0xFF :: u16) = mask 8" by (simp add: mask_eq_exp_minus_1)
    fix n :: nat assume "n < LENGTH(8)"
    then show "bit (ucast (drop_bit 8 (htons x) AND 0xFF) :: u8) n \<longleftrightarrow> bit (ucast x :: u8) n"
      unfolding m by (auto simp: htons_def bit_simps)
  qed
  ultimately show ?thesis by (simp add: le16_def)
qed

subsection \<open>The checksum\<close>

text \<open>The words of a packet as one number, and their end-around sum.\<close>

fun word_total :: "bytes \<Rightarrow> nat" where
  "word_total (a # b # p) = unat a * 256 + unat b + word_total p"
| "word_total [a] = unat a * 256"
| "word_total [] = 0"

definition ones_sum :: "nat \<Rightarrow> nat" where
  "ones_sum n = (if n = 0 then 0 else if n mod 65535 = 0 then 65535 else n mod 65535)"

lemma word_total_le: "word_total p \<le> 65535 * ((length p + 1) div 2)"
proof (induction p rule: word_total.induct)
  case (1 a b p)
  have "unat a < 256" "unat b < 256" using unsigned_less [of a] unsigned_less [of b] by simp_all
  with 1 show ?case by simp
next
  case (2 a)
  have "unat a < 256" using unsigned_less [of a] by simp
  then show ?case by simp
qed simp

lemma unat_word_pair: "unat (push_bit 8 (ucast a) OR ucast b :: u32) = unat a * 256 + unat b" for a b :: u8
proof -
  have lt: "unat a < 256" "unat b < 256" using unsigned_less [of a] unsigned_less [of b] by simp_all
  have "push_bit 8 (ucast a) OR ucast b = push_bit 8 (ucast a) + (ucast b :: u32)"
    by (intro disjunctive_add_eq_or [symmetric] bit_word_eqI) (auto simp: bit_simps dest: bit_imp_le_length)
  moreover have "unat (push_bit 8 (ucast a) :: u32) = unat a * 256"
    using lt by (simp add: push_bit_eq_mult unat_word_ariths unsigned_ucast_eq take_bit_nat_eq_self)
  ultimately show ?thesis using lt by (simp add: unat_word_ariths unsigned_ucast_eq take_bit_nat_eq_self)
qed

lemma unat_sum_words:
  "unat acc + word_total p < 2 ^ 32 \<Longrightarrow> unat (sum_words p acc) = unat acc + word_total p"
proof (induction p acc rule: sum_words.induct)
  case (1 a b p acc)
  have s: "unat (acc + (push_bit 8 (ucast a) OR ucast b)) = unat acc + (unat a * 256 + unat b)"
    using "1.prems" unat_word_pair [of a b] by (simp add: unat_word_ariths)
  show ?case using "1.IH" "1.prems" by (simp add: s)
next
  case (2 a acc)
  have "unat (push_bit 8 (ucast a) :: u32) = unat a * 256" using unat_word_pair [of a 0] by simp
  with "2.prems" show ?case by (simp add: unat_word_ariths)
qed simp

lemma ones_sum_fold: "65536 \<le> n \<Longrightarrow> ones_sum (n mod 65536 + n div 65536) = ones_sum n"
proof -
  assume n: "65536 \<le> n"
  have "n = n div 65536 * 65535 + (n mod 65536 + n div 65536)"
    using div_mult_mod_eq [of n 65536] by linarith
  then have "n mod 65535 = (n mod 65536 + n div 65536) mod 65535"
    by (metis mod_mult_self3)
  moreover have "0 < n div 65536" using n by (simp add: div_greater_zero_iff)
  ultimately show ?thesis using n by (simp add: ones_sum_def)
qed

lemma unat_fold_carry: "unat (fold_carry s) = ones_sum (unat s)"
proof (induction s rule: fold_carry.induct)
  case (1 s)
  show ?case
  proof (cases "drop_bit 16 s = 0")
    case True
    then have "fold_carry s = s" by (subst fold_carry.simps) simp
    moreover have "unat s < 65536" using True by (simp add: drop16_zero)
    moreover have "n < 65536 \<Longrightarrow> ones_sum n = n" for n
      by (cases "n = 65535") (auto simp: ones_sum_def)
    ultimately show ?thesis by simp
  next
    case False
    then have "fold_carry s = fold_carry ((s AND 0xFFFF) + drop_bit 16 s)" by (subst fold_carry.simps) simp
    moreover have "65536 \<le> unat s" using False by (simp add: drop16_zero)
    ultimately show ?thesis using 1 [OF False] ones_sum_fold fold_step by simp
  qed
qed

lemma ones_sum_le: "ones_sum n \<le> 65535"
  by (simp add: ones_sum_def less_imp_le)

text \<open>What a checksum is, for a packet short enough for the 32-bit sum.\<close>

lemma ip_checksum_eq:
  assumes "length p \<le> 131070"
  shows "ip_checksum p = htons (of_nat (65535 - ones_sum (word_total p)))"
proof -
  have "(length p + 1) div 2 \<le> 65535" using assms by linarith
  then have "word_total p \<le> 65535 * 65535" using word_total_le [of p] by (meson order_trans mult_le_mono2)
  then have "unat (sum_words p 0) = word_total p" using unat_sum_words [of 0 p] by simp
  then have f: "unat (fold_carry (sum_words p 0)) = ones_sum (word_total p)" by (simp add: unat_fold_carry)
  let ?c = "ucast (fold_carry (sum_words p 0)) :: u16"
  have c: "unat ?c = ones_sum (word_total p)"
    using f ones_sum_le [of "word_total p"] by (simp add: unsigned_ucast_eq take_bit_nat_eq_self)
  have "?c = of_nat (ones_sum (word_total p))" using c by (metis of_nat_unat ucast_id)
  moreover have "of_nat (65535 - m) = (- 1 - of_nat m :: u16)" if "m \<le> 65535" for m
    using that by (simp add: of_nat_diff)
  ultimately have "NOT ?c = of_nat (65535 - ones_sum (word_total p))"
    using ones_sum_le by (simp add: not_eq_complement)
  then show ?thesis by (simp add: ip_checksum_def)
qed

lemma word_total_append: "even (length p) \<Longrightarrow> word_total (p @ q) = word_total p + word_total q"
  by (induction p rule: word_total.induct) auto

lemma word_total_htons: "word_total (le16 (htons x) @ q) = unat x + word_total q"
proof -
  have "unat (ucast (drop_bit 8 x) :: u8) = unat x div 256"
  proof -
    have "unat x < 65536" using unsigned_less [of x] by simp
    then have "unat x div 256 < 256" by (intro less_mult_imp_div_less) simp
    moreover have "unat (drop_bit 8 x) = unat x div 256" by (simp add: drop_bit_eq_div unat_div)
    ultimately show ?thesis by (simp add: unsigned_ucast_eq take_bit_nat_eq_self)
  qed
  moreover have "unat (ucast x :: u8) = unat x mod 256" by (simp add: unsigned_ucast_eq take_bit_eq_mod)
  ultimately show ?thesis by (simp add: le16_htons)
qed

text \<open>A checksum field that held zero and is filled with the checksum makes the sum zero.\<close>

lemma checksum_filled:
  assumes "even off" and "off + 2 \<le> length p" and "length p \<le> 131070" and z: "window off 2 p = [0, 0]"
  shows "ip_checksum (blit p off (le16 (ip_checksum p))) = 0"
proof -
  define a where "a = take off p"
  define b where "b = drop (off + 2) p"
  have p: "p = a @ [0, 0] @ b"
  proof -
    have "drop off p = [0, 0] @ b"
      using z append_take_drop_id [of 2 "drop off p"] by (simp add: window_def b_def add.commute)
    then show ?thesis using append_take_drop_id [of off p] by (simp add: a_def)
  qed
  have la: "length a = off" using assms(2) by (simp add: a_def)
  define n where "n = word_total p"
  have n: "n = word_total a + word_total b" using assms(1) la by (simp add: n_def p word_total_append)
  define x :: u16 where "x = of_nat (65535 - ones_sum n)"
  have ux: "unat x = 65535 - ones_sum n" by (simp add: x_def unat_of_nat take_bit_nat_eq_self)
  have ck: "ip_checksum p = htons x" using ip_checksum_eq [OF assms(3)] by (simp add: n_def x_def)
  have bl: "blit p off (le16 (htons x)) = a @ le16 (htons x) @ b"
    using assms(2) la by (simp add: blit_eq) (simp add: p)
  have "word_total (a @ le16 (htons x) @ b) = n + (65535 - ones_sum n)"
    using assms(1) la n by (simp add: word_total_append word_total_htons ux)
  moreover have "ones_sum (n + (65535 - ones_sum n)) = 65535"
  proof -
    have "(n + (65535 - ones_sum n)) mod 65535 = 0 \<and> 0 < n + (65535 - ones_sum n)"
    proof (cases "n mod 65535 = 0")
      case True
      then show ?thesis by (auto simp: ones_sum_def)
    next
      case False
      have m: "n mod 65535 < 65535" by simp
      have "n + (65535 - r) = (q + 1) * 65535" if "q * 65535 + r = n" "r < 65535" for q r :: nat
        using that by (simp add: algebra_simps)
      from this [OF div_mult_mod_eq m] have "(n + (65535 - n mod 65535)) mod 65535 = 0" by (metis mod_mult_self2_is_0)
      then show ?thesis using False m by (auto simp: ones_sum_def)
    qed
    then show ?thesis unfolding ones_sum_def by simp
  qed
  ultimately have "ip_checksum (blit p off (le16 (htons x))) = htons (of_nat 0)"
    using ip_checksum_eq [of "blit p off (le16 (htons x))"] assms(3) unfolding bl [symmetric] length_blit by simp
  then show ?thesis by (simp add: ck htons_def)
qed

text \<open>A packet whose checksum field held zero and is then filled with the computed checksum sums to
  zero, which is what a receiver checks; for every packet the 32-bit sum can hold.\<close>
theorem ip_checksum_verifies:
  assumes "even off" and "off + 2 \<le> length p" and "length p \<le> 131070" and "window off 2 p = [0, 0]"
  shows "ip_checksum (blit p off (le16 (ip_checksum p))) = 0"
  using assms by (rule checksum_filled)

lemma ip_checksum_verifies_witness:
  "ip_checksum (blit [0x45, 0, 0, 0, 1, 2] 2 (le16 (ip_checksum [0x45, 0, 0, 0, 1, 2]))) = 0"
  by (rule ip_checksum_verifies) (simp_all add: window_def)

subsection \<open>Dotted quads\<close>

text \<open>A run of digits is read as its value.\<close>

lemma dec_word_digits:
  assumes "\<forall>c \<in> set ds. is_dec c" and "rest = [] \<or> \<not> is_dec (hd rest)"
  shows "dec_word (ds @ rest) (of_nat m) = (of_nat (foldl (\<lambda>n c. n * 10 + (unat c - 48)) m ds), rest)"
  using assms(1)
proof (induction ds arbitrary: m)
  case Nil
  then show ?case using assms(2) by (cases rest) (auto simp: is_dec_def)
next
  case (Cons c ds)
  then have c: "48 \<le> c" "c \<le> 57" by (simp_all add: is_dec_def)
  have "(ucast c :: u32) - 48 = of_nat (unat c - 48)"
    using c by (simp add: word_le_nat_alt of_nat_diff)
  then have "of_nat m * 10 + (ucast c - 48) = (of_nat (m * 10 + (unat c - 48)) :: u32)" by simp
  moreover have "\<forall>c \<in> set ds. is_dec c" using Cons.prems by simp
  ultimately show ?case using c Cons.IH [of "m * 10 + (unat c - 48)"] by (simp del: of_nat_add of_nat_mult)
qed

lemma dec_word_uint:
  "rest = [] \<or> \<not> is_dec (hd rest) \<Longrightarrow> dec_word (uint_digits 10 u v @ rest) 0 = (v, rest)"
  using dec_word_digits [OF uint_digits_dec, of rest u v 0] uint_digits_val [of u v] by (simp add: dec_val_def)

text \<open>The text of an address.\<close>

definition quad_text :: "u32 \<Rightarrow> bytes" where
  "quad_text a =
     (let v = ntohl a; d = uint_digits 10 False
      in d (drop_bit 24 v AND 0xFF) @ 46 # d (drop_bit 16 v AND 0xFF) @ 46 # d (drop_bit 8 v AND 0xFF) @ 46
         # d (v AND 0xFF))"

lemma byte_and: "unat (w AND 0xFF) < 256" for w :: u32
  using unat_and_mask [of w 8] by (simp add: mask_eq_exp_minus_1)

lemma byte_le: "w AND 0xFF \<le> 255" for w :: u32
  using byte_and [of w] by (simp add: word_le_nat_alt)

lemma length_byte_digits: "length (uint_digits 10 u (w AND 0xFF)) \<le> 3"
  using length_digits_rev [of "unat (w AND 0xFF)" 3 u] byte_and [of w] by (simp add: uint_digits_def)

lemma quad_join:
  "push_bit 8 (push_bit 8 (push_bit 8 (push_bit 8 0 OR (drop_bit 24 v AND 0xFF)) OR (drop_bit 16 v AND 0xFF))
     OR (drop_bit 8 v AND 0xFF)) OR (v AND 0xFF) = v" for v :: u32
proof (rule bit_word_eqI)
  have m: "(0xFF :: u32) = mask 8" by (simp add: mask_eq_exp_minus_1)
  fix n :: nat assume "n < LENGTH(32)"
  then consider "n < 8" | i where "n = 8 + i" "i < 8" | i where "n = 16 + i" "i < 8" | i where "n = 24 + i" "i < 8"
  proof -
    assume a: "n < LENGTH(32)"
    have "n < 8 \<or> (\<exists>i. n = 8 + i \<and> i < 8) \<or> (\<exists>i. n = 16 + i \<and> i < 8) \<or> (\<exists>i. n = 24 + i \<and> i < 8)"
      using a by simp presburger
    then show ?thesis using that by blast
  qed
  then show "bit (push_bit 8 (push_bit 8 (push_bit 8 (push_bit 8 0 OR (drop_bit 24 v AND 0xFF)) OR (drop_bit 16 v AND 0xFF))
     OR (drop_bit 8 v AND 0xFF)) OR (v AND 0xFF)) n = bit v n"
    unfolding m by cases (auto simp: bit_simps)
qed

lemma htonl_htonl [simp]: "htonl (htonl x) = x"
proof (rule bit_word_eqI)
  have m: "(0xFF :: u32) = mask 8" by (simp add: mask_eq_exp_minus_1)
  fix n :: nat assume a: "n < LENGTH(32)"
  have "n < 8 \<or> (\<exists>i. n = 8 + i \<and> i < 8) \<or> (\<exists>i. n = 16 + i \<and> i < 8) \<or> (\<exists>i. n = 24 + i \<and> i < 8)"
    using a by simp presburger
  then consider "n < 8" | i where "n = 8 + i" "i < 8" | i where "n = 16 + i" "i < 8" | i where "n = 24 + i" "i < 8"
    by blast
  then show "bit (htonl (htonl x)) n = bit x n"
    unfolding htonl_def m by cases (auto simp: bit_simps)
qed

lemma ip4_parse_text:
  assumes "rest = [] \<or> hd rest = 0"
  shows "ip4_parse (quad_text a @ rest) = a"
proof -
  have dot: "\<not> is_dec 46" "rest = [] \<or> \<not> is_dec (hd rest)" using assms by (auto simp: is_dec_def)
  have big: "\<not> 255 < w AND (0xFF :: u32)" for w using byte_le [of w] by (simp add: not_less)
  have four: "ip4_parse s = ip4_quads (Suc (Suc (Suc (Suc 0)))) s 0" for s
    by (simp add: ip4_parse_def eval_nat_numeral del: ip4_quads.simps)
  have "ip4_parse (quad_text a @ rest) = htonl (ntohl a)"
    unfolding four quad_text_def Let_def append_assoc append_Cons ip4_quads.simps
    using dot by (simp only: dec_word_uint list.sel prod.case big if_False quad_join byte_at_0 simp_thms
        nat.distinct list.distinct if_True)
  then show ?thesis by (simp add: ntohl_def)
qed

text \<open>An address printed by ip4_format into a buffer of at least sixteen bytes is parsed back by
  ip4_parse to the same address, and nothing after the sixteenth byte is touched.\<close>
theorem ip4_roundtrip:
  assumes "16 \<le> length out"
  shows "\<exists>out'. ip4_format out a = Some out' \<and> ip4_parse out' = a \<and> length out' = length out
    \<and> drop 16 out' = drop 16 out"
proof -
  let ?s = "\<lparr>sbuf = out, scap = 16, spos = 0, to_console = False, console = []\<rparr>"
  let ?w = "\<lambda>k. drop_bit k (ntohl a) AND 0xFF" and ?d = "uint_digits 10 False"
  let ?e = "\<lambda>s v. emit_uint s v 10 False 0 False False"
  define t where "t = ?e (sink_put (?e (sink_put (?e (sink_put (?e ?s (?w 24)) 46) (?w 16)) 46) (?w 8)) 46) (?w 0)"
  have l: "vformat_loop ?s (lit ''%u.%u.%u.%u'') (quad_args a) = Some t"
    by (simp add: lit_def directive_def take_flag_def convert_def word_arg_def quad_args_def Let_def t_def)
  have len: "length (?d (?w k)) \<le> 3" for k by (rule length_byte_digits)
  have ok: "sink_ok ?s" using assms by (simp add: sink_ok_def)
  note [simp] = sink_wrote_def
  have w1: "sink_wrote ?s (?d (?w 24)) (?e ?s (?w 24))"
    using emit_uint_wrote [OF ok, of False "?w 24"] len [of 24] by simp
  have w2: "sink_wrote ?s (?d (?w 24) @ [46]) (sink_put (?e ?s (?w 24)) 46)" (is "sink_wrote _ _ ?s2")
    using sink_wrote_trans [OF w1 sink_put_wrote] w1 len [of 24] by simp
  have w3: "sink_wrote ?s ((?d (?w 24) @ [46]) @ ?d (?w 16)) (?e ?s2 (?w 16))" (is "sink_wrote _ _ ?s3")
    using sink_wrote_trans [OF w2 emit_uint_wrote] w2 len [of 24] len [of 16] by simp
  have w4: "sink_wrote ?s (((?d (?w 24) @ [46]) @ ?d (?w 16)) @ [46]) (sink_put ?s3 46)" (is "sink_wrote _ _ ?s4")
    using sink_wrote_trans [OF w3 sink_put_wrote] w3 len [of 24] len [of 16] by simp
  have w5: "sink_wrote ?s ((((?d (?w 24) @ [46]) @ ?d (?w 16)) @ [46]) @ ?d (?w 8)) (?e ?s4 (?w 8))" (is "sink_wrote _ _ ?s5")
    using sink_wrote_trans [OF w4 emit_uint_wrote] w4 len [of 24] len [of 16] len [of 8] by simp
  have w6: "sink_wrote ?s (((((?d (?w 24) @ [46]) @ ?d (?w 16)) @ [46]) @ ?d (?w 8)) @ [46]) (sink_put ?s5 46)" (is "sink_wrote _ _ ?s6")
    using sink_wrote_trans [OF w5 sink_put_wrote] w5 len [of 24] len [of 16] len [of 8] by simp
  have "sink_wrote ?s ((((((?d (?w 24) @ [46]) @ ?d (?w 16)) @ [46]) @ ?d (?w 8)) @ [46]) @ ?d (?w 0)) t"
    unfolding t_def using sink_wrote_trans [OF w6 emit_uint_wrote] w6 len [of 24] len [of 16] len [of 8] len [of 0] by simp
  then have "sink_text t = sink_text ?s @ quad_text a" by (simp add: quad_text_def Let_def)
  then have tx: "sink_text t = quad_text a" by (simp add: sink_text_def [of ?s])
  have "\<forall>c \<in> set (quad_text a). c \<noteq> 0"
    using uint_digits_dec is_dec_nonzero by (fastforce simp: quad_text_def Let_def)
  then obtain out' where o: "ksnprintf out 16 (lit ''%u.%u.%u.%u'') (quad_args a) = Some (out', int (spos t))"
      "chars out' = quad_text a"
    using ksnprintf_loop [OF _ assms l] tx by auto
  have "out' = quad_text a @ dropWhile (\<lambda>c. c \<noteq> 0) out'"
    using o(2) takeWhile_dropWhile_id [of "\<lambda>c. c \<noteq> 0" out'] by (simp add: chars_def)
  moreover have "dropWhile (\<lambda>c. c \<noteq> 0) out' = [] \<or> hd (dropWhile (\<lambda>c. c \<noteq> 0) out') = 0"
    using hd_dropWhile [of "\<lambda>c. c \<noteq> 0" out'] by auto
  ultimately have "ip4_parse out' = a" using ip4_parse_text by metis
  then show ?thesis
    using o(1) ksnprintf_bounded [OF _ assms o(1)] by (auto simp: ip4_format_def)
qed

lemma ip4_roundtrip_witness: "\<exists>out'. ip4_format (replicate 16 0) 0x0F02000A = Some out' \<and> ip4_parse out' = 0x0F02000A"
  using ip4_roundtrip [of "replicate 16 0" "0x0F02000A"] by auto

subsection \<open>The ARP cache\<close>

text \<open>Eight slots, no address twice.\<close>

definition arp_ok :: "arp_entry list \<Rightarrow> bool" where
  "arp_ok es \<longleftrightarrow> length es = ARP_N \<and>
     (\<forall>i<ARP_N. \<forall>j<ARP_N. ae_valid (es ! i) \<longrightarrow> ae_valid (es ! j) \<longrightarrow> ae_ip (es ! i) = ae_ip (es ! j) \<longrightarrow> i = j)"

lemma arp_slot_valid:
  assumes "arp_ok es"
  shows "arp_slot es ip = Some i \<longleftrightarrow> i < ARP_N \<and> ae_valid (es ! i) \<and> ae_ip (es ! i) = ip"
  using assms unfolding arp_slot_def first_idx_Some arp_ok_def by (metis less_trans order_less_irrefl)

text \<open>Putting an entry into a slot that is free, or holds the address already, or may be evicted.\<close>

lemma arp_put:
  assumes ok: "arp_ok es" and k: "k < ARP_N" and e: "ae_valid e" "ae_ip e = ip"
    and u: "\<And>i. arp_slot es ip = Some i \<Longrightarrow> i = k"
  shows "arp_ok (es[k := e])" and "arp_find (es[k := e]) ip = Some (ae_mac e)"
    and "other \<noteq> ip \<Longrightarrow> \<not> (ae_valid (es ! k) \<and> ae_ip (es ! k) = other) \<Longrightarrow> arp_find (es[k := e]) other = arp_find es other"
proof -
  have l: "length es = ARP_N" using ok by (simp add: arp_ok_def)
  have n: "i < ARP_N \<Longrightarrow> es[k := e] ! i = (if i = k then e else es ! i)" for i using l by (simp add: nth_list_update)
  have nip: "i < ARP_N \<Longrightarrow> i \<noteq> k \<Longrightarrow> ae_valid (es ! i) \<Longrightarrow> ae_ip (es ! i) \<noteq> ip" for i
    using u arp_slot_valid [OF ok] by blast
  show ok': "arp_ok (es[k := e])"
    unfolding arp_ok_def length_list_update
  proof (intro conjI allI impI)
    fix i j assume i: "i < ARP_N" and j: "j < ARP_N" and "ae_valid (es[k := e] ! i)" "ae_valid (es[k := e] ! j)"
      "ae_ip (es[k := e] ! i) = ae_ip (es[k := e] ! j)"
    moreover have "i \<noteq> k \<Longrightarrow> ae_valid (es ! i) \<Longrightarrow> ae_ip (es ! i) \<noteq> ip" "j \<noteq> k \<Longrightarrow> ae_valid (es ! j) \<Longrightarrow> ae_ip (es ! j) \<noteq> ip"
      using nip i j by blast+
    moreover have "ae_valid (es ! i) \<Longrightarrow> ae_valid (es ! j) \<Longrightarrow> ae_ip (es ! i) = ae_ip (es ! j) \<Longrightarrow> i = j"
      using ok i j unfolding arp_ok_def by blast
    ultimately show "i = j" unfolding n [OF i] n [OF j] using e by (metis (full_types))
  qed (rule l)
  have "arp_slot (es[k := e]) ip = Some k" using arp_slot_valid [OF ok'] k e n [OF k] by simp
  then show "arp_find (es[k := e]) ip = Some (ae_mac e)" using n [OF k] by (simp add: arp_find_def)
  assume "other \<noteq> ip" and "\<not> (ae_valid (es ! k) \<and> ae_ip (es ! k) = other)"
  then have s: "arp_slot (es[k := e]) other = arp_slot es other"
    unfolding arp_slot_def using e n by (intro first_idx_cong) (auto split: if_splits)
  have "i \<noteq> k" if "arp_slot es other = Some i" for i
    using that arp_slot_valid [OF ok] \<open>\<not> (ae_valid (es ! k) \<and> ae_ip (es ! k) = other)\<close> by auto
  then show "arp_find (es[k := e]) other = arp_find es other"
    unfolding arp_find_def s by (cases "arp_slot es other") (simp_all add: nth_list_update)
qed

text \<open>Learning an address makes the ARP cache answer with the new hardware address and keeps at most
  one entry per address; every other address keeps its answer, except that when the cache is full the
  entry of slot 0 gives way.\<close>
theorem arp_insert_latest:
  assumes ok: "arp_ok es"
  shows "arp_ok (arp_insert es ip mac) \<and> arp_find (arp_insert es ip mac) ip = Some mac
    \<and> (\<forall>other. other \<noteq> ip \<longrightarrow> arp_find (arp_insert es ip mac) other = arp_find es other
        \<or> (arp_find es ip = None \<and> (\<forall>i<ARP_N. ae_valid (es ! i)) \<and> ae_ip (es ! 0) = other))"
proof (cases "arp_slot es ip")
  case (Some i)
  then have i: "i < ARP_N" "ae_valid (es ! i)" "ae_ip (es ! i) = ip" by (simp_all add: arp_slot_valid [OF ok])
  have "arp_insert es ip mac = es[i := (es ! i)\<lparr>ae_mac := mac\<rparr>]" using Some by (simp add: arp_insert_def)
  have u: "k = i" if "arp_slot es ip = Some k" for k using that Some by simp
  have v: "ae_valid ((es ! i)\<lparr>ae_mac := mac\<rparr>)" "ae_ip ((es ! i)\<lparr>ae_mac := mac\<rparr>) = ip" using i by simp_all
  note P = arp_put [OF ok i(1) v u]
  have "arp_ok (arp_insert es ip mac)" "arp_find (arp_insert es ip mac) ip = Some mac"
    unfolding \<open>arp_insert es ip mac = _\<close> using P(1,2) by simp_all
  moreover have "arp_find (arp_insert es ip mac) other = arp_find es other" if "other \<noteq> ip" for other
    unfolding \<open>arp_insert es ip mac = _\<close> by (rule P(3)) (use i Some that in simp_all)
  ultimately show ?thesis by blast
next
  case None
  let ?e = "\<lparr>ae_ip = ip, ae_mac = mac, ae_valid = True\<rparr>"
  have f: "arp_find es ip = None" using None by (simp add: arp_find_def)
  show ?thesis
  proof (cases "first_idx (\<lambda>i. \<not> ae_valid (es ! i)) ARP_N")
    case (Some k)
    then have k: "k < ARP_N" "\<not> ae_valid (es ! k)" by (auto simp: first_idx_Some)
    have "arp_insert es ip mac = es[k := ?e]" using None Some by (simp add: arp_insert_def)
    then show ?thesis using arp_put [OF ok k(1), of ?e ip] None k(2) by auto
  next
    case full: None
    have z: "0 < ARP_N" by (simp add: ARP_N_def)
    have "arp_insert es ip mac = es[0 := ?e]" using None full by (simp add: arp_insert_def)
    moreover have "\<forall>i<ARP_N. ae_valid (es ! i)" using full by (simp add: first_idx_None)
    ultimately show ?thesis using arp_put [OF ok z, of ?e ip] None f by fastforce
  qed
qed

definition empty_arp :: "arp_entry list" where
  "empty_arp = replicate ARP_N \<lparr>ae_ip = 0, ae_mac = replicate 6 0, ae_valid = False\<rparr>"

lemma arp_insert_latest_witness: "arp_find (arp_insert empty_arp 5 [1, 2, 3, 4, 5, 6]) 5 = Some [1, 2, 3, 4, 5, 6]"
proof -
  have "arp_ok empty_arp" by (auto simp: arp_ok_def empty_arp_def)
  then show ?thesis using arp_insert_latest by blast
qed

subsection \<open>The receive ring\<close>

definition ring_inv :: "tcp_conn \<Rightarrow> bool" where
  "ring_inv t \<longleftrightarrow> length (rbuf t) = RBUF_SIZE \<and> unat (rhead t) < RBUF_SIZE \<and> unat (rtail t) < RBUF_SIZE"

text \<open>The bytes received and not yet read.\<close>

definition ring_bytes :: "tcp_conn \<Rightarrow> bytes" where
  "ring_bytes t = ring_list RBUF_SIZE (rbuf t) (unat (rhead t)) (unat (rtail t))"

lemma ring_next_nat: "unat i < RBUF_SIZE \<Longrightarrow> unat (ring_next i) = (unat i + 1) mod RBUF_SIZE"
  by (simp add: ring_next_def RBUF_SIZE_def unat_mod unat_word_ariths)

lemma ring_next_less: "unat i < RBUF_SIZE \<Longrightarrow> unat (ring_next i) < RBUF_SIZE"
  by (simp add: ring_next_nat RBUF_SIZE_def)

interpretation tcp_ring: byte_queue ring_put ring_get ring_bytes ring_inv "RBUF_SIZE - 1"
proof
  fix t t' :: tcp_conn and b
  assume inv: "ring_inv t"
  then have h: "unat (rhead t) < RBUF_SIZE" and tl: "unat (rtail t) < RBUF_SIZE" and l: "length (rbuf t) = RBUF_SIZE"
    by (simp_all add: ring_inv_def)
  note nx = ring_next_nat [OF h] ring_next_nat [OF tl]
  show "ring_put t b = None \<longleftrightarrow> length (ring_bytes t) = RBUF_SIZE - 1"
    using ring_full [OF h tl, of "rbuf t"] nx by (simp add: ring_put_def ring_bytes_def word_unat_eq_iff)
  show "ring_inv t' \<and> ring_bytes t' = ring_bytes t @ [b]" if "ring_put t b = Some t'"
  proof -
    have t': "t' = t\<lparr>rbuf := (rbuf t)[unat (rhead t) := b], rhead := ring_next (rhead t)\<rparr>" "ring_next (rhead t) \<noteq> rtail t"
      using that by (auto simp: ring_put_def split: if_splits)
    then have "unat (ring_next (rhead t)) \<noteq> unat (rtail t)" unfolding word_unat_eq_iff by simp
    then have "(unat (rhead t) + 1) mod RBUF_SIZE \<noteq> unat (rtail t)" using nx by simp
    from ring_append [OF h tl this l] show ?thesis
      using inv ring_next_less [OF h] nx by (simp add: t' ring_inv_def ring_bytes_def)
  qed
  show "ring_get t = None \<longleftrightarrow> ring_bytes t = []"
    using ring_empty [OF h tl, of "rbuf t"] by (auto simp: ring_get_def ring_bytes_def word_unat_eq_iff)
  show "ring_inv t' \<and> ring_bytes t = b # ring_bytes t'" if "ring_get t = Some (b, t')"
  proof -
    have t': "t' = t\<lparr>rtail := ring_next (rtail t)\<rparr>" "b = rbuf t ! unat (rtail t)" "unat (rhead t) \<noteq> unat (rtail t)"
      using that by (auto simp: ring_get_def word_unat_eq_iff split: if_splits)
    from ring_cons [OF h tl t'(3), of "rbuf t"] show ?thesis
      using inv ring_next_less [OF tl] nx by (simp add: t' ring_inv_def ring_bytes_def)
  qed
  show "length (ring_bytes t) \<le> RBUF_SIZE - 1"
    using ring_length [OF h tl, of "rbuf t"] h tl by (auto simp: ring_bytes_def)
qed

lemma ring_free_room: "ring_inv t \<Longrightarrow> ring_free t = RBUF_SIZE - 1 - length (ring_bytes t)"
proof -
  assume inv: "ring_inv t"
  let ?h = "unat (rhead t)" and ?t = "unat (rtail t)"
  have h: "?h < 4096" and tl: "?t < 4096" using inv by (simp_all add: ring_inv_def RBUF_SIZE_def)
  have "rtail t - rhead t - 1 = of_nat (?t + 4294967295 - ?h)"
    using h by (simp add: of_nat_diff)
  then have "unat ((rtail t - rhead t - 1) mod 4096) = (?t + 4294967295 - ?h) mod 4294967296 mod 4096"
    by (simp add: unat_mod unat_of_nat take_bit_eq_mod)
  also have "\<dots> = (?t + 4294967295 - ?h) mod 4096" by (rule mod_mod_cancel) simp
  also have "?t + 4294967295 - ?h = ?t + 4095 - ?h + 1048575 * 4096" using h by simp
  also have "(?t + 4095 - ?h + 1048575 * 4096) mod 4096 = (?t + 4095 - ?h) mod 4096" by (rule mod_mult_self1)
  finally have "ring_free t = (?t + 4095 - ?h) mod 4096"
    by (simp add: ring_free_def RBUF_SIZE_def)
  moreover have "(?t + 4095 - ?h) mod 4096 = 4095 - (if ?t \<le> ?h then ?h - ?t else ?h + 4096 - ?t)"
    using h tl mod_once [of "?t + 4095 - ?h" 4096] by auto
  ultimately show ?thesis using ring_length [of ?h 4096 ?t "rbuf t"] h tl by (simp add: ring_bytes_def RBUF_SIZE_def)
qed

text \<open>C4: The receive ring of the TCP connection refines a bounded list: any sequence of stores and
  reads gives the bytes a list cut at 4095 bytes gives, and while the stores fit the bytes come out
  complete and in order.\<close>
theorem tcp_ring_fifo:
  assumes "ring_inv t" and "queue_run ring_put ring_get t es = (out, t')"
  shows "list_run (RBUF_SIZE - 1) (ring_bytes t) es = (out, ring_bytes t')
    \<and> (length (ring_bytes t) + length (puts_of es) \<le> RBUF_SIZE - 1 \<longrightarrow> out @ ring_bytes t' = ring_bytes t @ puts_of es)"
  using tcp_ring.run_refines [OF assms] tcp_ring.fifo [OF assms(1) _ assms(2)] by blast

lemma zero_tcp_ring: "ring_inv zero_tcp" "ring_bytes zero_tcp = []"
  by (simp_all add: ring_inv_def zero_tcp_def ring_bytes_def ring_list_def RBUF_SIZE_def)

lemma tcp_ring_fifo_witness:
  "\<exists>t'. queue_run ring_put ring_get zero_tcp [Puts [1, 2], Gets 1, Puts [3]] = ([1], t') \<and> ring_bytes t' = [2, 3]"
proof -
  let ?es = "[Puts [1, 2], Gets 1, Puts [3 :: u8]]"
  obtain out t' where r: "queue_run ring_put ring_get zero_tcp ?es = (out, t')"
    by (cases "queue_run ring_put ring_get zero_tcp ?es")
  from tcp_ring_fifo [OF zero_tcp_ring(1) r] have "list_run 4095 [] ?es = (out, ring_bytes t')"
    by (simp add: zero_tcp_ring(2) RBUF_SIZE_def)
  then have "out = [1]" "ring_bytes t' = [2, 3]" by auto
  with r show ?thesis by simp
qed

end
