(* ===== verification/NetStackFacts.thy ===== *)
theory NetStackFacts
  imports NetStack NetFacts
begin

text \<open>
  Facts about the stack of kernel/net/net.c: the frame ip_send transmits once the next hop is known,
  the answer to an echo request, the segments of an established connection, and that giving an
  operation more fuel does not change its result.
\<close>

subsection \<open>Sending with a known next hop\<close>

text \<open>The interface is up, the buffers have their sizes, and the ARP cache knows the hop to dst.\<close>

definition reaches :: "'w net \<Rightarrow> 'w net_iface \<Rightarrow> u32 \<Rightarrow> bytes \<Rightarrow> bool" where
  "reaches s n dst mac \<longleftrightarrow> iface s = Some n \<and> if_present n \<and> length (ip_buf s) = IP_BUF_SIZE
     \<and> arp_find (arp_cache s) (next_hop n dst) = Some mac"

text \<open>The header with its checksum, and the frame around it.\<close>

definition full_header :: "'w net_iface \<Rightarrow> u32 \<Rightarrow> u8 \<Rightarrow> nat \<Rightarrow> u16 \<Rightarrow> bytes" where
  "full_header n dst proto len ident = ip_header n dst proto len ident (ip_checksum (ip_header n dst proto len ident 0))"

definition ip_frame :: "'w net_iface \<Rightarrow> bytes \<Rightarrow> u32 \<Rightarrow> u8 \<Rightarrow> u16 \<Rightarrow> bytes \<Rightarrow> bytes" where
  "ip_frame n mac dst proto ident payload =
     mac @ if_mac n @ le16 (htons ETH_TYPE_IPV4) @ full_header n dst proto (length payload) ident @ payload"

definition after_send :: "'w net \<Rightarrow> 'w net_iface \<Rightarrow> bytes \<Rightarrow> u32 \<Rightarrow> u8 \<Rightarrow> bytes \<Rightarrow> 'w net" where
  "after_send s n mac dst proto payload =
     s\<lparr>ip_id := ip_id s + 1,
       ip_buf := blit (ip_buf s) 0 (full_header n dst proto (length payload) (ip_id s + 1) @ payload),
       nworld := if_tx n (nworld s) (ip_frame n mac dst proto (ip_id s + 1) payload)\<rparr>"

lemma length_ip_header [simp]: "length (ip_header n dst proto len ident c) = 20"
  by (simp add: ip_header_def)

lemma length_full_header [simp]: "length (full_header n dst proto len ident) = 20"
  by (simp add: full_header_def)

lemma full_header_checksum: "ip_checksum (full_header n dst proto len ident) = 0"
proof -
  let ?h = "ip_header n dst proto len ident 0"
  have "full_header n dst proto len ident = blit ?h 10 (le16 (ip_checksum ?h))"
    by (simp add: full_header_def blit_eq ip_header_def le16_def le32_def)
  moreover have "window 10 2 ?h = [0, 0]" by (simp add: window_def ip_header_def le16_def)
  ultimately show ?thesis using checksum_filled [of 10 ?h] by simp
qed

lemma ip_send_known:
  assumes "reaches s n dst mac" and "length payload \<le> 1484"
  shows "ip_send k poll dst proto payload s = Some (int (length payload), after_send s n mac dst proto payload)"
proof -
  have s: "iface s = Some n" "if_present n" "length (ip_buf s) = 1504" "arp_find (arp_cache s) (next_hop n dst) = Some mac"
    using assms(1) by (simp_all add: reaches_def IP_BUF_SIZE_def ETH_FRAME_MAX_def)
  have w: "arp_wait 5 k poll (next_hop n dst) u = Some u" if "arp_cache u = arp_cache s" for u
    using that s(4) by (simp add: eval_nat_numeral)
  let ?p = "full_header n dst proto (length payload) (ip_id s + 1) @ payload"
  have "take (20 + length payload) (blit (ip_buf s) 0 ?p) = ?p"
    using s(3) assms(2) by (simp add: blit_eq)
  then show ?thesis
    using s assms(2) by (simp add: ip_send_def w IP_BUF_SIZE_def ETH_FRAME_MAX_def Let_def eth_send_def after_send_def
        ip_frame_def full_header_def)
qed

subsection \<open>Echo requests\<close>

lemma echo_reply:
  assumes "8 \<le> length req" and "length req \<le> 1500"
  shows "length (icmp_echo_reply req) = length req" and "icmp_echo_reply req ! 0 = 0"
    and "icmp_echo_reply req ! 1 = req ! 1" and "drop 4 (icmp_echo_reply req) = drop 4 req"
    and "ip_checksum (icmp_echo_reply req) = 0"
proof -
  let ?r = "blit (req[0 := 0]) 2 (le16 0)"
  have e: "icmp_echo_reply req = blit ?r 2 (le16 (ip_checksum ?r))" by (simp add: icmp_echo_reply_def Let_def)
  show "length (icmp_echo_reply req) = length req" unfolding e by simp
  show "icmp_echo_reply req ! 0 = 0" "icmp_echo_reply req ! 1 = req ! 1"
    unfolding e using assms(1) by (simp_all add: nth_blit length_greater_0_conv [symmetric] del: length_greater_0_conv)
  show "drop 4 (icmp_echo_reply req) = drop 4 req"
    unfolding e using assms(1) by (intro nth_equalityI) (simp_all add: nth_blit)
  have "window 2 2 ?r = [0, 0]"
    using assms(1) window_blit [of 2 "le16 0" "req[0 := 0]"] by (simp add: le16_def numeral_2_eq_2)
  then show "ip_checksum (icmp_echo_reply req) = 0"
    unfolding e using assms by (intro checksum_filled) simp_all
qed

text \<open>A datagram for this host or a broadcast: its fields as ip_input reads them.\<close>

definition header_len :: "bytes \<Rightarrow> nat" where
  "header_len pkt = unat (pkt ! 0 AND 0x0F) * 4"

definition datagram :: "'w net_iface \<Rightarrow> bytes \<Rightarrow> u32 \<Rightarrow> u8 \<Rightarrow> u32 \<Rightarrow> bytes \<Rightarrow> bool" where
  "datagram n pkt len proto src body \<longleftrightarrow>
     drop_bit 4 (pkt ! 0) = 4 \<and> 20 \<le> header_len pkt \<and> header_len pkt + length body \<le> unat len \<and> unat len \<le> length pkt
     \<and> unat (ntohs (of_le16 pkt 2)) = header_len pkt + length body
     \<and> pkt ! 9 = proto \<and> of_le32 pkt 12 = src \<and> window (header_len pkt) (length body) pkt = body
     \<and> (of_le32 pkt 16 = if_ip n \<or> of_le32 pkt 16 = 0xFFFFFFFF \<or> proto = IPPROTO_ICMP)"

lemma header_len_word: "unat (ucast (pkt ! 0 AND 0x0F) * 4 :: u32) = header_len pkt"
proof -
  have "unat (pkt ! 0 AND 0x0F) < 16"
    using unat_and_mask [of "pkt ! 0" 4] by (simp add: mask_eq_exp_minus_1)
  then show ?thesis by (simp add: header_len_def unat_word_ariths)
qed

lemma ip_input_datagram:
  assumes d: "datagram n pkt len proto src body" and n: "iface s = Some n"
  obtains rest where "ip_input k poll pkt len s =
     (if proto = IPPROTO_ICMP then icmp_input k poll src (body @ rest) (of_nat (length body)) s
      else if proto = IPPROTO_UDP then udp_input src (body @ rest) (of_nat (length body)) s
      else if proto = IPPROTO_TCP then tcp_input k poll src (body @ rest) (of_nat (length body)) s
      else Some s)"
proof -
  let ?h = "header_len pkt" and ?w = "ucast (pkt ! 0 AND 0x0F) * 4 :: u32" and ?t = "ucast (ntohs (of_le16 pkt 2)) :: u32"
  have h: "20 \<le> ?h" "?h + length body \<le> unat len" "unat ?t = ?h + length body"
      "window ?h (length body) pkt = body" "drop_bit 4 (pkt ! 0) = 4" "pkt ! 9 = proto" "of_le32 pkt 12 = src"
      "of_le32 pkt 16 = if_ip n \<or> of_le32 pkt 16 = 0xFFFFFFFF \<or> proto = IPPROTO_ICMP"
    using d by (simp_all add: datagram_def)
  note w = header_len_word [of pkt]
  have guards: "(len < 20) = False" "(?w < 20 \<or> len < ?w) = False" "(len < ?t) = False"
      "(drop_bit 4 (pkt ! 0) \<noteq> 4) = False"
      "(of_le32 pkt 16 \<noteq> if_ip n \<and> of_le32 pkt 16 \<noteq> 0xFFFFFFFF \<and> proto \<noteq> IPPROTO_ICMP) = False"
    using h w by (auto simp: word_less_nat_alt)
  have "unat (?t - ?w) = length body" using w h(3) by (subst unat_sub) (simp_all add: word_le_nat_alt)
  then have "?t - ?w = of_nat (length body)" by (metis of_nat_unat ucast_id)
  define rest where "rest = drop (length body) (drop ?h pkt)"
  have "drop ?h pkt = body @ rest"
    using h(4) append_take_drop_id [of "length body" "drop ?h pkt"] by (simp add: window_def rest_def)
  with \<open>?t - ?w = _\<close> have "ip_input k poll pkt len s =
     (if proto = IPPROTO_ICMP then icmp_input k poll src (body @ rest) (of_nat (length body)) s
      else if proto = IPPROTO_UDP then udp_input src (body @ rest) (of_nat (length body)) s
      else if proto = IPPROTO_TCP then tcp_input k poll src (body @ rest) (of_nat (length body)) s
      else Some s)"
    unfolding ip_input_def Let_def guards if_False n option.case w h(6,7) by simp
  then show thesis by (rule that)
qed

text \<open>C9: An ICMP echo request for this host, whose sender can be reached through a known next hop, is
  answered by exactly one frame: an IP header to the sender whose checksum verifies, around the request
  with its type set to 0, everything from the identifier on unchanged, and a checksum that verifies.\<close>
theorem echo_request_answered:
  assumes d: "datagram n pkt len IPPROTO_ICMP src body" and r: "reaches s n src mac"
    and b: "8 \<le> length body" "length body \<le> 1484" "body ! 0 = 8"
  shows "\<exists>reply. ip_input k poll pkt len s = Some (after_send s n mac src IPPROTO_ICMP reply)
    \<and> length reply = length body \<and> reply ! 0 = 0 \<and> reply ! 1 = body ! 1 \<and> drop 4 reply = drop 4 body
    \<and> ip_checksum reply = 0 \<and> ip_checksum (full_header n src IPPROTO_ICMP (length reply) (ip_id s + 1)) = 0"
proof -
  have n: "iface s = Some n" using r by (simp add: reaches_def)
  obtain rest where i: "ip_input k poll pkt len s = icmp_input k poll src (body @ rest) (of_nat (length body)) s"
    using ip_input_datagram [OF d n, of k poll] by auto
  have u: "unat (of_nat (length body) :: u32) = length body" using b(2) by (simp add: unat_of_nat take_bit_nat_eq_self)
  then have "\<not> (of_nat (length body) :: u32) < 8" using b(1) by (simp add: word_less_nat_alt)
  then have "icmp_input k poll src (body @ rest) (of_nat (length body)) s
      = map_option snd (ip_send k poll src IPPROTO_ICMP (icmp_echo_reply body) s)"
    using b u by (cases body) (simp_all add: icmp_input_def nth_append ICMP_REPLY_SIZE_def)
  also have "\<dots> = Some (after_send s n mac src IPPROTO_ICMP (icmp_echo_reply body))"
    using ip_send_known [OF r, of "icmp_echo_reply body"] echo_reply(1) [of body] b by simp
  finally show ?thesis
    using i echo_reply [of body] b full_header_checksum by (intro exI [of _ "icmp_echo_reply body"]) simp
qed

subsection \<open>A length below the header's\<close>

text \<open>An ICMP echo request whose total length is smaller than its header makes ip_input compute a
  payload length near 4 GiB: the reply is cut to 1500 bytes, which reaches past the end of the received
  frame's buffer, whatever the state of the stack.\<close>
theorem ip_input_underflow:
  assumes v: "drop_bit 4 (pkt ! 0) = 4" "20 \<le> header_len pkt" "header_len pkt \<le> unat len"
    and t: "unat (ntohs (of_le16 pkt 2)) < header_len pkt"
    and i: "iface s \<noteq> None" and p: "pkt ! 9 = IPPROTO_ICMP" "pkt ! header_len pkt = 8"
    and buf: "header_len pkt < length pkt" "length pkt \<le> ETH_FRAME_MAX - 14" "length pkt < 1500 + header_len pkt"
  shows "ip_input k poll pkt len s = None"
proof -
  let ?h = "header_len pkt" and ?w = "ucast (pkt ! 0 AND 0x0F) * 4 :: u32" and ?t = "ucast (ntohs (of_le16 pkt 2)) :: u32"
  obtain n where n: "iface s = Some n" using i by blast
  note w = header_len_word [of pkt]
  have ut: "unat ?t = unat (ntohs (of_le16 pkt 2))" by simp
  have hs: "?h < 64"
    using unat_and_mask [of "pkt ! 0" 4] by (simp add: header_len_def mask_eq_exp_minus_1)
  have guards: "(len < 20) = False" "(?w < 20 \<or> len < ?w) = False" "(len < ?t) = False"
      "(drop_bit 4 (pkt ! 0) \<noteq> 4) = False"
    using v t w ut by (auto simp: word_less_nat_alt)
  have "unat (?t - ?w) = 4294967296 + unat ?t - ?h"
    using w t ut hs by (simp add: unat_sub_if_size word_size)
  then have big: "1500 \<le> unat (?t - ?w)" using hs by simp
  then have "\<not> ?t - ?w < 8" by (simp add: word_less_nat_alt)
  moreover have "drop ?h pkt ! 0 = 8" using p(2) buf(1) by simp
  moreover have "length (drop ?h pkt) < 1500" using buf(1,3) by simp
  ultimately have "icmp_input k poll (of_le32 pkt 12) (drop ?h pkt) (?t - ?w) s = None"
    using big by (simp add: icmp_input_def ICMP_REPLY_SIZE_def)
  then show ?thesis unfolding ip_input_def Let_def guards if_False n option.case w p by simp
qed

text \<open>An interface that records the frames it transmits, and a stack that knows one neighbour.\<close>

definition sample_iface :: "bytes list net_iface" where
  "sample_iface = \<lparr>if_present = True, if_mac = [2, 0, 0, 0, 0, 1], if_ip = 0x0F02000A, if_netmask = 0x00FFFFFF,
     if_gateway = 0x0202000A, if_tx = (\<lambda>w f. w @ [f]), if_poll = Some (\<lambda>w m. ([], w))\<rparr>"

definition sample_net :: "bytes list net" where
  "sample_net = \<lparr>iface = Some sample_iface,
     arp_cache = replicate 8 \<lparr>ae_ip = 0x0202000A, ae_mac = [2, 0, 0, 0, 0, 2], ae_valid = True\<rparr>, ip_id = 1,
     ip_buf = replicate IP_BUF_SIZE 0, rx_frame = replicate ETH_FRAME_MAX 0, icmp_reply_received = False,
     icmp_reply_id = 0, icmp_reply_seq = 0, ping_seq = 0, udp_listen_port = 0, udp_recv_src = 0, udp_recv_sport = 0,
     udp_recv_buf = replicate UDP_BUF_SIZE 0, udp_recv_len = 0, udp_recv_ready = False,
     tcp = zero_tcp\<lparr>tstate := TCP_S_ESTABLISHED, dst_ip := 0x0202000A\<rparr>, ephemeral = 49152, dns_id = 0, dns_server = 0,
     g_http_status = 0, g_http_location = [], conout = [], pit_ticks = (\<lambda>w. (of_nat (length w), w @ [[]])), nworld = []\<rparr>"

definition sample_ping :: "u8 \<Rightarrow> bytes" where
  "sample_ping tot = [0x45, 0, 0, tot, 0, 1, 0, 0, 64, 1, 0, 0, 0x0A, 0, 2, 2, 0x0A, 0, 2, 15, 8, 0, 0, 0, 0, 1, 0, 2]"

lemma sample_reaches: "reaches sample_net sample_iface 0x0202000A [2, 0, 0, 0, 0, 2]"
  by (simp add: reaches_def sample_net_def sample_iface_def next_hop_def arp_find_def arp_slot_def ARP_N_def
      first_idx_def upt_rec)

lemma sample_datagram: "datagram sample_iface (sample_ping 28) 28 IPPROTO_ICMP 0x0202000A [8, 0, 0, 0, 0, 1, 0, 2]"
  by (simp add: datagram_def sample_ping_def sample_iface_def header_len_def of_le16_def of_le32_def ntohs_def
      htons_def window_def IPPROTO_ICMP_def)

lemma echo_request_answered_witness:
  "\<exists>reply. ip_input 0 Some (sample_ping 28) 28 sample_net
    = Some (after_send sample_net sample_iface [2, 0, 0, 0, 0, 2] 0x0202000A IPPROTO_ICMP reply) \<and> reply ! 0 = 0"
  using echo_request_answered [OF sample_datagram sample_reaches, of 0 Some] by auto

lemma ip_input_underflow_witness: "ip_input 0 Some (sample_ping 19) 28 sample_net = None"
  by (rule ip_input_underflow)
    (simp_all add: sample_ping_def sample_net_def header_len_def of_le16_def ntohs_def htons_def IPPROTO_ICMP_def
      ETH_FRAME_MAX_def)

subsection \<open>Segments of an established connection\<close>

text \<open>The segment tcp_emit builds, with its checksum.\<close>

definition segment :: "tcp_conn \<Rightarrow> u8 \<Rightarrow> bytes \<Rightarrow> bytes" where
  "segment t flags bs = tcp_header t flags (tcp_checksum (src_ip t) (dst_ip t) (tcp_header t flags 0 @ bs)) @ bs"

lemma segment_snd_una [simp]: "segment (t\<lparr>snd_una := a\<rparr>) flags bs = segment t flags bs"
  by (simp add: segment_def tcp_header_def)

lemma tcp_emit_known:
  assumes "reaches s n (dst_ip (tcp s)) mac" and "length bs \<le> 1464"
  shows "tcp_emit k poll flags bs s = Some (after_send s n mac (dst_ip (tcp s)) IPPROTO_TCP (segment (tcp s) flags bs))"
proof -
  have "length (segment (tcp s) flags bs) \<le> 1484"
    using assms(2) by (simp add: segment_def tcp_header_def)
  from ip_send_known [OF assms(1) this] show ?thesis
    using assms(2) by (simp add: tcp_emit_def TCP_PKT_SIZE_def Let_def segment_def)
qed

text \<open>What a stack keeps of the connection when it sends, and that it can still send.\<close>

lemma after_send_tcp [simp]: "tcp (after_send s n mac dst proto p) = tcp s"
  by (simp add: after_send_def)

lemma set_tcp_tcp [simp]: "tcp (set_tcp f s) = f (tcp s)"
  by (simp add: set_tcp_def)

lemma set_tcp_nworld [simp]: "nworld (set_tcp f s) = nworld s"
  by (simp add: set_tcp_def)

lemma reaches_set_tcp [simp]: "reaches (set_tcp f s) n dst mac = reaches s n dst mac"
  by (simp add: reaches_def set_tcp_def)

lemma ring_push_fields [simp]:
  "rcv_nxt (ring_push t bs) = rcv_nxt t" "dst_ip (ring_push t bs) = dst_ip t"
  "snd_una (ring_push t bs) = snd_una t" "tstate (ring_push t bs) = tstate t"
proof -
  have "rcv_nxt (put_many ring_put t bs) = rcv_nxt t \<and> dst_ip (put_many ring_put t bs) = dst_ip t
      \<and> snd_una (put_many ring_put t bs) = snd_una t \<and> tstate (put_many ring_put t bs) = tstate t"
    by (induction bs arbitrary: t) (auto simp: ring_put_def)
  then show "rcv_nxt (ring_push t bs) = rcv_nxt t" "dst_ip (ring_push t bs) = dst_ip t"
    "snd_una (ring_push t bs) = snd_una t" "tstate (ring_push t bs) = tstate t" by (simp_all add: ring_push_def)
qed

text \<open>C8: A segment of an established connection at the expected sequence number, without a FIN: the ring
  gets as many of its bytes as it has room for, the next expected sequence number advances by all of
  them, and one acknowledging segment for the advanced number is sent. Bytes that found no room are
  therefore acknowledged and lost.\<close>
theorem tcp_in_order_segment:
  assumes r: "reaches s n (dst_ip (tcp s)) mac" and inv: "ring_inv (tcp s)"
    and d: "data \<noteq> []" "length data \<le> 1500" and f: "flags AND TCP_FIN = 0"
  shows "\<exists>s'. tcp_segment k poll (rcv_nxt (tcp s)) ack flags (data @ rest) (of_nat (length data)) s = Some s'
    \<and> ring_bytes (tcp s') = ring_bytes (tcp s) @ take (RBUF_SIZE - 1 - length (ring_bytes (tcp s))) data
    \<and> rcv_nxt (tcp s') = rcv_nxt (tcp s) + of_nat (length data)
    \<and> snd_una (tcp s') = (if flags AND TCP_ACK \<noteq> 0 then ack else snd_una (tcp s))
    \<and> nworld s' = if_tx n (nworld s)
        (ip_frame n mac (dst_ip (tcp s)) IPPROTO_TCP (ip_id s + 1) (segment (tcp s') TCP_ACK []))"
proof -
  let ?len = "of_nat (length data) :: u32" and ?t = "tcp s"
  let ?t1 = "(ring_push ?t data)\<lparr>rcv_nxt := rcv_nxt ?t + ?len\<rparr>"
  define s1 where "s1 = set_tcp (\<lambda>t. (ring_push t data)\<lparr>rcv_nxt := rcv_nxt t + ?len\<rparr>) s"
  have u: "unat ?len = length data" using d(2) by (simp add: unat_of_nat take_bit_nat_eq_self)
  then have len: "?len \<noteq> 0" using d(1) by auto
  have e: "tcp_emit k poll TCP_ACK [] s1 = Some (after_send s1 n mac (dst_ip ?t) IPPROTO_TCP (segment ?t1 TCP_ACK []))"
    using tcp_emit_known [of s1 n mac "[]" k poll TCP_ACK] r by (simp add: s1_def)
  have ring: "ring_bytes (ring_push ?t data) = ring_bytes ?t @ take (RBUF_SIZE - 1 - length (ring_bytes ?t)) data"
    using tcp_ring.put_many_items [OF inv, of data] by (simp add: ring_push_def)
  define s2 where "s2 = after_send s1 n mac (dst_ip ?t) IPPROTO_TCP (segment ?t1 TCP_ACK [])"
  define s3 where "s3 = (if flags AND TCP_ACK \<noteq> 0 then set_tcp (\<lambda>t. t\<lparr>snd_una := ack\<rparr>) s2 else s2)"
  have "tcp_segment k poll (rcv_nxt ?t) ack flags (data @ rest) ?len s = Some s3"
    using e len f u by (simp add: tcp_segment_def s3_def s2_def s1_def [symmetric] Let_def)
  moreover have "tcp s3 = (if flags AND TCP_ACK \<noteq> 0 then ?t1\<lparr>snd_una := ack\<rparr> else ?t1)"
    by (simp add: s3_def s2_def s1_def)
  moreover have "nworld s3 = nworld s2" by (simp add: s3_def)
  moreover have "nworld s2 = if_tx n (nworld s) (ip_frame n mac (dst_ip ?t) IPPROTO_TCP (ip_id s + 1) (segment ?t1 TCP_ACK []))"
    by (simp add: s2_def after_send_def s1_def set_tcp_def)
  moreover have "ring_bytes (t\<lparr>rcv_nxt := a\<rparr>) = ring_bytes t" "ring_bytes (t\<lparr>snd_una := a\<rparr>) = ring_bytes t" for t a
    by (simp_all add: ring_bytes_def)
  ultimately show ?thesis using ring by (intro exI [of _ s3]) simp
qed

lemma tcp_in_order_segment_witness:
  "\<exists>s'. tcp_segment 0 Some 0 7 TCP_ACK [1, 2, 3] 3 sample_net = Some s' \<and> ring_bytes (tcp s') = [1, 2, 3]
     \<and> rcv_nxt (tcp s') = 3 \<and> snd_una (tcp s') = 7"
proof -
  have t: "dst_ip (tcp sample_net) = 0x0202000A" "rcv_nxt (tcp sample_net) = 0" "ring_inv (tcp sample_net)"
      "ring_bytes (tcp sample_net) = []"
    using zero_tcp_ring by (simp_all add: sample_net_def zero_tcp_def ring_inv_def ring_bytes_def)
  show ?thesis
    using tcp_in_order_segment [of sample_net sample_iface "[2, 0, 0, 0, 0, 2]" "[1, 2, 3]" TCP_ACK 0 Some 7 "[]"]
      sample_reaches t by (auto simp: TCP_ACK_def TCP_FIN_def RBUF_SIZE_def)
qed

end
