(* ===== verification/Fuel.thy ===== *)
theory Fuel
  imports ZPrelude "HOL-Library.Monad_Syntax"
begin

text \<open>
  Functions with a bound on the depth of their calls: more of it keeps a result. A function is often the
  iteration of a step that takes what it calls as an argument; that more fuel keeps its results then
  follows from the step.
\<close>

text \<open>A result the first computation gives, the second gives too.\<close>

definition opt_le :: "'a option \<Rightarrow> 'a option \<Rightarrow> bool" where
  "opt_le a b \<longleftrightarrow> (\<forall>r. a = Some r \<longrightarrow> b = Some r)"

named_theorems fuel \<open>more fuel keeps a result\<close>

lemma opt_le_refl [fuel]: "opt_le a a"
  by (simp add: opt_le_def)

lemma opt_le_None: "opt_le None b"
  by (simp add: opt_le_def)

lemma opt_le_if [fuel]: "opt_le a a' \<Longrightarrow> opt_le b b' \<Longrightarrow> opt_le (if c then a else b) (if c then a' else b')"
  by simp

lemma opt_le_bind [fuel]: "opt_le a b \<Longrightarrow> (\<And>x. opt_le (f x) (g x)) \<Longrightarrow> opt_le (a \<bind> f) (b \<bind> g)"
  by (cases a; cases b) (auto simp: opt_le_def)

lemma opt_le_map [fuel]: "opt_le a b \<Longrightarrow> opt_le (map_option h a) (map_option h b)"
  by (auto simp: opt_le_def)

lemma opt_le_option [fuel]:
  "opt_le a a' \<Longrightarrow> (\<And>x. opt_le (f x) (f' x)) \<Longrightarrow> opt_le (case v of None \<Rightarrow> a | Some x \<Rightarrow> f x) (case v of None \<Rightarrow> a' | Some x \<Rightarrow> f' x)"
  by (cases v) simp_all

lemma opt_le_prod [fuel]: "(\<And>x y. opt_le (f x y) (f' x y)) \<Longrightarrow> opt_le (case v of (x, y) \<Rightarrow> f x y) (case v of (x, y) \<Rightarrow> f' x y)"
  by (cases v) simp

text \<open>The iteration of a step over the goals of a group of functions.\<close>

locale fuelled =
  fixes step :: "nat \<Rightarrow> ('g \<Rightarrow> 's \<Rightarrow> 'r option) \<Rightarrow> 'g \<Rightarrow> 's \<Rightarrow> 'r option"
    and run :: "nat \<Rightarrow> 'g \<Rightarrow> 's \<Rightarrow> 'r option"
  assumes step_le: "f \<le> f' \<Longrightarrow> (\<And>g s. opt_le (rec g s) (rec' g s)) \<Longrightarrow> opt_le (step f rec g s) (step f' rec' g s)"
    and run_0: "run 0 g s = None"
    and run_Suc: "run (Suc f) = step f (run f)"
begin

lemma run_le: "f \<le> f' \<Longrightarrow> opt_le (run f g s) (run f' g s)"
proof (induction f arbitrary: f' g s)
  case 0
  then show ?case by (simp add: run_0 opt_le_None)
next
  case (Suc f)
  then obtain k where "f' = Suc k" "f \<le> k" by (cases f') auto
  with Suc.IH step_le show ?case by (simp add: run_Suc)
qed

lemma run_more: "run f g s = Some r \<Longrightarrow> f \<le> f' \<Longrightarrow> run f' g s = Some r"
  using run_le [of f f' g s] by (simp add: opt_le_def)

lemma run_unique: "run f g s = Some r \<Longrightarrow> run f' g s = Some r' \<Longrightarrow> r = r'"
  using run_more [of f g s r "max f f'"] run_more [of f' g s r' "max f f'"] by simp

text \<open>Having a result with some fuel.\<close>

definition gives :: "'g \<Rightarrow> 's \<Rightarrow> 'r \<Rightarrow> bool" where
  "gives g s r \<longleftrightarrow> (\<exists>f. run f g s = Some r)"

lemma givesI: "run f g s = Some r \<Longrightarrow> gives g s r"
  by (auto simp: gives_def)

lemma gives_fuel: "gives g s r \<Longrightarrow> \<exists>f. \<forall>f'\<ge>f. run f' g s = Some r"
  by (auto simp: gives_def intro: run_more)

lemma gives_unique: "gives g s r \<Longrightarrow> gives g s r' \<Longrightarrow> r = r'"
  by (auto simp: gives_def intro: run_unique)

text \<open>A result of the step over enough fuel is a result.\<close>

lemma gives_step: "step f (run f) g s = Some r \<Longrightarrow> gives g s r"
  using givesI [of "Suc f"] by (simp add: run_Suc)

end

end
