(* ===== verification/NetFuel.thy ===== *)
theory NetFuel
  imports NetApps NetStackFacts Fuel
begin

text \<open>
  Fuel of the network calls: more of it never changes a result, and on a card that receives nothing a
  bounded amount of it is enough for a receive call to reach its timeout.
\<close>

lemma wait_until_fuel:
  "(\<And>s. opt_le (p s) (q s)) \<Longrightarrow> j \<le> k \<Longrightarrow> opt_le (wait_until j p t0 d test s) (wait_until k q t0 d test s)"
proof (induction j arbitrary: k s)
  case 0
  then show ?case by (simp add: opt_le_None)
next
  case (Suc j)
  then obtain k' where k: "k = Suc k'" "j \<le> k'" by (cases k) auto
  show ?case unfolding k(1) wait_until.simps by (intro fuel Suc.IH Suc.prems(1) k(2))
qed

text \<open>Polling that gets more fuel, and a caller that gets more.\<close>

locale more_fuel =
  fixes p q :: "'w net \<Rightarrow> 'w net option" and j k :: nat
  assumes poll: "opt_le (p s) (q s)" and le: "j \<le> k"
begin

lemma wait_ticks_fuel: "opt_le (wait_ticks j p d s) (wait_ticks k q d s)"
  unfolding wait_ticks_def by (intro fuel wait_until_fuel poll le)

lemma arp_wait_fuel: "opt_le (arp_wait n j p ip s) (arp_wait n k q ip s)"
proof (induction n arbitrary: s)
  case (Suc n)
  show ?case unfolding arp_wait.simps by (intro fuel wait_ticks_fuel Suc.IH)
qed (simp add: opt_le_refl)

lemma ip_send_fuel: "opt_le (ip_send j p dst proto b s) (ip_send k q dst proto b s)"
  unfolding ip_send_def Let_def by (intro fuel arp_wait_fuel)

lemma tcp_emit_fuel: "opt_le (tcp_emit j p fl b s) (tcp_emit k q fl b s)"
  unfolding tcp_emit_def Let_def by (intro fuel ip_send_fuel)

lemma icmp_input_fuel: "opt_le (icmp_input j p src b len s) (icmp_input k q src b len s)"
  unfolding icmp_input_def Let_def by (intro fuel ip_send_fuel)

lemma tcp_segment_fuel: "opt_le (tcp_segment j p sq ak fl b d s) (tcp_segment k q sq ak fl b d s)"
  unfolding tcp_segment_def Let_def by (intro fuel tcp_emit_fuel)

lemma tcp_input_fuel: "opt_le (tcp_input j p src b len s) (tcp_input k q src b len s)"
  unfolding tcp_input_def Let_def by (intro fuel tcp_emit_fuel tcp_segment_fuel)

lemma ip_input_fuel: "opt_le (ip_input j p b len s) (ip_input k q b len s)"
  unfolding ip_input_def Let_def by (intro fuel icmp_input_fuel tcp_input_fuel)

lemma handle_frame_fuel: "opt_le (handle_frame j p len s) (handle_frame k q len s)"
  unfolding handle_frame_def Let_def by (intro fuel ip_input_fuel)

lemma poll_frames_fuel: "opt_le (poll_frames n j p rx s) (poll_frames n k q rx s)"
proof (induction n arbitrary: s)
  case (Suc n)
  show ?case unfolding poll_frames.simps Let_def by (intro fuel handle_frame_fuel Suc.IH)
qed (simp add: opt_le_refl)

end

lemma net_poll_fuel: "j \<le> k \<Longrightarrow> opt_le (net_poll j s) (net_poll k s)"
proof (induction j arbitrary: k s)
  case 0
  then show ?case by (simp add: opt_le_None)
next
  case (Suc j)
  then obtain k' where k: "k = Suc k'" "j \<le> k'" by (cases k) auto
  show ?case unfolding k(1) net_poll.simps 
    by (intro fuel more_fuel.poll_frames_fuel more_fuel.intro Suc.IH k(2))
qed

interpretation net_fuel: more_fuel "net_poll j" "net_poll (j + d)" j "j + d" for j d
  by unfold_locales (simp_all add: net_poll_fuel)

lemma wait_until_net: "opt_le (wait_until j (net_poll j) t0 t test s) (wait_until (j + d) (net_poll (j + d)) t0 t test s)"
  by (intro wait_until_fuel net_poll_fuel) simp_all

lemma tcp_send_loop_fuel: "opt_le (tcp_send_loop j bs (s :: 'a net)) (tcp_send_loop (j + d) bs s)"
proof (induction bs arbitrary: s rule: measure_induct_rule [where f = length])
  case (less bs)
  show ?case
  proof (cases "bs = []")
    case True
    then show ?thesis by (simp add: tcp_send_loop.simps opt_le_refl)
  next
    case False
    then have "length (drop 1400 bs) < length bs" by (cases bs) simp_all
    then have "opt_le (tcp_send_loop j (drop 1400 bs) s) (tcp_send_loop (j + d) (drop 1400 bs) s)" for s :: "'a net"
      by (rule less.IH)
    then show ?thesis
      unfolding tcp_send_loop.simps [of _ bs] Let_def
      by (intro fuel net_fuel.tcp_emit_fuel net_fuel.wait_ticks_fuel)
  qed
qed

lemma tcp_recv_loop_fuel:
  "(\<And>s. opt_le (p s) (q s)) \<Longrightarrow> j \<le> k \<Longrightarrow> opt_le (tcp_recv_loop j p m t0 t s) (tcp_recv_loop k q m t0 t s)"
proof (induction j arbitrary: k s)
  case 0
  then show ?case by (simp add: opt_le_None)
next
  case (Suc j)
  then obtain k' where k: "k = Suc k'" "j \<le> k'" by (cases k) auto
  show ?case unfolding k(1) tcp_recv_loop.simps Let_def by (intro fuel Suc.IH Suc.prems(1) k(2))
qed

text \<open>The fuel of the network calls is only a bound: a result that polling, ping, the UDP receive call
  or any call of the TCP client gives with some fuel is also its result with more.\<close>
theorem net_calls_fuel:
  "opt_le (net_poll k s) (net_poll (k + d) s) \<and> opt_le (icmp_ping k dst t s) (icmp_ping (k + d) dst t s)
   \<and> opt_le (udp_recv k port m t s) (udp_recv (k + d) port m t s) \<and> opt_le (tcp_connect k dst port s) (tcp_connect (k + d) dst port s)
   \<and> opt_le (tcp_send k bs s) (tcp_send (k + d) bs s) \<and> opt_le (tcp_recv k m t s) (tcp_recv (k + d) m t s)
   \<and> opt_le (tcp_close k s) (tcp_close (k + d) s)"
proof (intro conjI)
  show "opt_le (net_poll k s) (net_poll (k + d) s)" by (simp add: net_poll_fuel)
  show "opt_le (icmp_ping k dst t s) (icmp_ping (k + d) dst t s)"
    unfolding icmp_ping_def Let_def by (intro fuel net_fuel.ip_send_fuel wait_until_net)
  show "opt_le (udp_recv k port m t s) (udp_recv (k + d) port m t s)"
    unfolding udp_recv_def by (intro fuel wait_until_net)
  show "opt_le (tcp_connect k dst port s) (tcp_connect (k + d) dst port s)"
    unfolding tcp_connect_def by (intro fuel net_fuel.tcp_emit_fuel wait_until_net)
  show "opt_le (tcp_send k bs s) (tcp_send (k + d) bs s)"
    unfolding tcp_send_def by (intro fuel tcp_send_loop_fuel)
  show "opt_le (tcp_recv k m t s) (tcp_recv (k + d) m t s)"
    unfolding tcp_recv_def by (intro fuel tcp_recv_loop_fuel net_poll_fuel) simp_all
  show "opt_le (tcp_close k s) (tcp_close (k + d) s)"
    unfolding tcp_close_def by (intro fuel net_fuel.tcp_emit_fuel net_fuel.wait_ticks_fuel)
qed

subsection \<open>A silent card\<close>

text \<open>The card has no frame to give, and each reading of the tick counter takes time: between one unit
  and one tick of R units.\<close>

definition quiet :: "'w net \<Rightarrow> ('w \<Rightarrow> nat) \<Rightarrow> nat \<Rightarrow> bool" where
  "quiet s clock R \<longleftrightarrow> 0 < R
     \<and> (\<forall>w. fst (pit_ticks s w) = of_nat (clock w div R) \<and> clock w < clock (snd (pit_ticks s w))
          \<and> clock (snd (pit_ticks s w)) \<le> clock w + R)
     \<and> (\<forall>n rx w. iface s = Some n \<longrightarrow> if_poll n = Some rx \<longrightarrow>
          fst (rx w ETH_FRAME_MAX) = [] \<and> clock (snd (rx w ETH_FRAME_MAX)) = clock w)"

lemma quiet_update [simp]: "quiet (s\<lparr>nworld := w, rx_frame := b\<rparr>) clock R = quiet s clock R"
  "quiet (s\<lparr>nworld := w\<rparr>) clock R = quiet s clock R"
  by (simp_all add: quiet_def)

lemma net_poll_quiet:
  assumes "quiet s clock R"
  shows "\<exists>w b. net_poll (Suc k) s = Some (s\<lparr>nworld := w, rx_frame := b\<rparr>) \<and> clock w = clock (nworld s)"
proof (cases "\<exists>n rx. iface s = Some n \<and> if_present n \<and> if_poll n = Some rx")
  case True
  then obtain n rx where n: "iface s = Some n" "if_present n" "if_poll n = Some rx" by blast
  then have "fst (rx (nworld s) ETH_FRAME_MAX) = []" "clock (snd (rx (nworld s) ETH_FRAME_MAX)) = clock (nworld s)"
    using assms by (simp_all add: quiet_def)
  then show ?thesis using n poll_frames.simps(2) [of 7 k "net_poll k" rx s]
    by (intro exI [of _ "snd (rx (nworld s) ETH_FRAME_MAX)"] exI [of _ "rx_frame s"], cases s)
      (simp add: split_beta Let_def)
next
  case False
  then have "net_poll (Suc k) s = Some s" by (auto split: option.splits)
  then show ?thesis by (intro exI [of _ "nworld s"] exI [of _ "rx_frame s"]) simp
qed

text \<open>A wait that nothing can end early lasts until the tick counter has advanced by d.\<close>

lemma wait_until_quiet:
  assumes q: "quiet s clock R" and test: "\<And>w b. test (s\<lparr>nworld := w, rx_frame := b\<rparr>) = None"
    and d: "unat d + 1 < 2 ^ 32" and c: "c \<le> clock (nworld s) div R" "clock (nworld s) div R \<le> c + unat d + 1"
    and k: "(c + unat d) * R - clock (nworld s) < k"
  shows "\<exists>w b. wait_until k (net_poll (Suc m)) (of_nat c) d test s = Some (None, s\<lparr>nworld := w, rx_frame := b\<rparr>)"
  using q test c k
proof (induction k arbitrary: s)
  case (Suc k)
  let ?c = "clock (nworld s)"
  have R: "0 < R" using Suc.prems(1) by (simp add: quiet_def)
  obtain w1 where t: "ticks s = (of_nat (?c div R), s\<lparr>nworld := w1\<rparr>)" and w1: "?c < clock w1" "clock w1 \<le> ?c + R"
    using Suc.prems(1) by (auto simp: quiet_def ticks_def split_beta)
  have "of_nat (?c div R) - of_nat c = (of_nat (?c div R - c) :: u32)" using Suc.prems(3) by (simp add: of_nat_diff)
  moreover have "?c div R - c < 2 ^ 32" using Suc.prems(4) d by simp
  ultimately have u: "unat (of_nat (?c div R) - of_nat c :: u32) = ?c div R - c"
    by (simp add: unat_of_nat take_bit_nat_eq_self)
  show ?case
  proof (cases "?c div R - c < unat d")
    case False
    then show ?thesis using t u by (auto simp: word_less_nat_alt intro!: exI [of _ w1] exI [of _ "rx_frame s"])
  next
    case True
    obtain w2 b2 where p: "net_poll (Suc m) (s\<lparr>nworld := w1\<rparr>) = Some (s\<lparr>nworld := w2, rx_frame := b2\<rparr>)"
      and w2: "clock w2 = clock w1"
      using net_poll_quiet [of "s\<lparr>nworld := w1\<rparr>" clock R m] Suc.prems(1) by auto
    let ?s2 = "s\<lparr>nworld := w2, rx_frame := b2\<rparr>"
    have "?c div R < c + unat d" using True Suc.prems(3) by simp
    then have lt: "?c < (c + unat d) * R" using R by (simp add: div_less_iff_less_mult)
    have "clock w2 div R \<le> (?c + R) div R" using w1 w2 by (intro div_le_mono) simp
    also have "\<dots> = ?c div R + 1" using R by (simp add: div_add_self2)
    finally have b1: "clock w2 div R \<le> c + unat d + 1" using Suc.prems(4) True by simp
    have b0: "c \<le> clock w2 div R"
      using Suc.prems(3) w1 w2 div_le_mono [of ?c "clock w2" R] by simp
    have kk: "(c + unat d) * R - clock (nworld ?s2) < k"
      using Suc.prems(5) w1 w2 lt by simp
    have "\<exists>w b. wait_until k (net_poll (Suc m)) (of_nat c) d test ?s2 = Some (None, ?s2\<lparr>nworld := w, rx_frame := b\<rparr>)"
      using Suc.prems(1,2) b0 b1 by (intro Suc.IH kk) simp_all
    then show ?thesis
      using t u True p Suc.prems(2) by (auto simp: word_less_nat_alt simp del: net_poll.simps)
  qed
qed simp

text \<open>C39: On a card that receives nothing, a UDP receive call returns: with fuel for the turns its timeout
  takes at the clock's speed it gives the timeout, having changed the listening port and nothing else but
  the world and the frame buffer.\<close>
theorem udp_recv_times_out:
  assumes q: "quiet s clock R" and d: "unat timeout + 1 < 2 ^ 32" and k: "unat timeout * R + R < k"
  shows "\<exists>w b. udp_recv k port maxlen timeout s
    = Some (None, s\<lparr>udp_listen_port := 0, udp_recv_ready := False, nworld := w, rx_frame := b\<rparr>)"
proof -
  let ?s = "s\<lparr>udp_listen_port := port, udp_recv_ready := False\<rparr>" and ?c = "clock (nworld s)"
  have R: "0 < R" using q by (simp add: quiet_def)
  have q': "quiet ?s clock R" using q by (simp add: quiet_def)
  obtain w1 where t: "ticks ?s = (of_nat (?c div R), ?s\<lparr>nworld := w1\<rparr>)" and w1: "?c < clock w1" "clock w1 \<le> ?c + R"
    using q by (auto simp: quiet_def ticks_def split_beta)
  obtain m where m: "k = Suc m" using k by (cases k) auto
  have "?c div R \<le> clock w1 div R" "clock w1 div R \<le> ?c div R + 1"
    using w1 R div_le_mono [of ?c "clock w1" R] div_le_mono [of "clock w1" "?c + R" R] by (simp_all add: div_add_self2)
  moreover have "(?c div R + unat timeout) * R - clock w1 < k"
  proof -
    have "R * (?c div R) \<le> ?c" by (rule times_div_less_eq_dividend)
    moreover have "(?c div R + unat timeout) * R = R * (?c div R) + unat timeout * R" by (simp add: algebra_simps)
    ultimately show ?thesis using k w1 by linarith
  qed
  ultimately have "\<exists>w b. wait_until k (net_poll k) (of_nat (?c div R)) timeout (\<lambda>u. if udp_recv_ready u then
        Some (take (min (unat (udp_recv_len u)) maxlen) (udp_recv_buf u), udp_recv_src u, udp_recv_sport u) else None)
      (?s\<lparr>nworld := w1\<rparr>) = Some (None, ?s\<lparr>nworld := w1, nworld := w, rx_frame := b\<rparr>)"
    unfolding m using q' d by (intro wait_until_quiet [where clock = clock and R = R]) simp_all
  then obtain w b where "udp_recv k port maxlen timeout s = Some (None, ?s\<lparr>nworld := w, rx_frame := b, udp_listen_port := 0\<rparr>)"
    by (auto simp: udp_recv_def t simp del: wait_until.simps)
  then show ?thesis by (intro exI [of _ w] exI [of _ b], cases s) simp
qed

lemma udp_recv_times_out_witness:
  "\<exists>w b. udp_recv 10 68 100 5 sample_net
    = Some (None, sample_net\<lparr>udp_listen_port := 0, udp_recv_ready := False, nworld := w, rx_frame := b\<rparr>)"
  by (rule udp_recv_times_out [where clock = length and R = 1])
    (auto simp: quiet_def sample_net_def sample_iface_def)

end
