(* ===== verification/Zas.thy ===== *)
theory Zas
  imports LibC Printf "HOL-Library.Monad_Syntax"
begin

text \<open>
  The lexer, the tables and the output helpers of the assembler, shell/zas.c.

  The source pointer lex_p is what it points at: the rest of the source buffer, whose text ends at the
  first zero byte. A loop of the code that may run forever is a partial function into option, whose
  result None is that it does not return.
\<close>

subsection \<open>Tokens\<close>

datatype tok_type =
  TOK_EOF | TOK_NEWLINE | TOK_IDENT | TOK_NUMBER | TOK_STRING | TOK_COMMA | TOK_LBRACKET | TOK_RBRACKET
  | TOK_PLUS | TOK_MINUS | TOK_COLON | TOK_STAR

record token =
  tkind :: tok_type
  ttext :: bytes
  tnum :: u32

definition plain_token :: "tok_type \<Rightarrow> token" where
  "plain_token k = \<lparr>tkind = k, ttext = [], tnum = 0\<rparr>"

fun skip_blank :: "bytes \<Rightarrow> bytes" where
  "skip_blank [] = []"
| "skip_blank (c # p) = (if c = 32 \<or> c = 9 \<or> c = 13 then skip_blank p else c # p)"

fun skip_comment :: "bytes \<Rightarrow> bytes" where
  "skip_comment [] = []"
| "skip_comment (c # p) = (if c \<noteq> 0 \<and> c \<noteq> 10 then skip_comment p else c # p)"

definition lex_skip_ws :: "bytes \<Rightarrow> bytes" where
  "lex_skip_ws p = (let q = skip_blank p in if byte_at q 0 = 59 then skip_comment q else q)"

definition escape :: "u8 \<Rightarrow> u8" where
  "escape c = (if c = 110 then 10 else if c = 116 then 9 else if c = 48 then 0 else c)"

text \<open>At most so many characters of a string literal, and of an identifier. zas_src is cleared before a source is read
  into it, so the zeros that an empty list reads as are those behind the text. There is one exception: a backslash
  makes the lexer step over the next character whatever it is, and when the text fills all 8191 bytes and its last
  one is such a backslash, that character is the last zero of the array and the C code goes on behind it.\<close>

primrec lex_string :: "nat \<Rightarrow> bytes \<Rightarrow> bytes \<times> bytes" where
  "lex_string 0 p = ([], p)"
| "lex_string (Suc n) p =
     (if byte_at p 0 = 0 \<or> byte_at p 0 = 34 then ([], p)
      else if hd p = 92 then
        (case lex_string n (tl (tl p)) of (t, q) \<Rightarrow> (escape (byte_at (tl p) 0) # t, q))
      else (case lex_string n (tl p) of (t, q) \<Rightarrow> (hd p # t, q)))"

definition is_digit8 :: "u8 \<Rightarrow> bool" where
  "is_digit8 c \<longleftrightarrow> 48 \<le> c \<and> c \<le> 57"

definition is_alpha8 :: "u8 \<Rightarrow> bool" where
  "is_alpha8 c \<longleftrightarrow> (97 \<le> c \<and> c \<le> 122) \<or> (65 \<le> c \<and> c \<le> 90)"

definition ident_char :: "u8 \<Rightarrow> bool" where
  "ident_char c \<longleftrightarrow> is_alpha8 c \<or> is_digit8 c \<or> c = 95 \<or> c = 46"

primrec lex_ident :: "nat \<Rightarrow> bytes \<Rightarrow> bytes \<times> bytes" where
  "lex_ident 0 p = ([], p)"
| "lex_ident (Suc n) p =
     (if ident_char (byte_at p 0) then (case lex_ident n (tl p) of (t, q) \<Rightarrow> (hd p # t, q)) else ([], p))"

definition hex_digit :: "u8 \<Rightarrow> u32 option" where
  "hex_digit c =
     (if 48 \<le> c \<and> c \<le> 57 then Some (ucast (c - 48))
      else if 97 \<le> c \<and> c \<le> 102 then Some (ucast (c - 97 + 10))
      else if 65 \<le> c \<and> c \<le> 70 then Some (ucast (c - 65 + 10))
      else None)"

fun lex_hex :: "bytes \<Rightarrow> u32 \<Rightarrow> u32 \<times> bytes" where
  "lex_hex [] v = (v, [])"
| "lex_hex (c # p) v = (case hex_digit c of Some d \<Rightarrow> lex_hex p (v * 16 + d) | None \<Rightarrow> (v, c # p))"

fun lex_dec :: "bytes \<Rightarrow> u32 \<Rightarrow> u32 \<times> bytes" where
  "lex_dec [] v = (v, [])"
| "lex_dec (c # p) v = (if is_digit8 c then lex_dec p (v * 10 + ucast (c - 48)) else (v, c # p))"

definition lex_number :: "bytes \<Rightarrow> u32 \<times> bytes" where
  "lex_number p =
     (if byte_at p 0 = 48 \<and> (byte_at p 1 = 120 \<or> byte_at p 1 = 88) then lex_hex (drop 2 p) 0 else lex_dec p 0)"

definition punct :: "u8 \<Rightarrow> tok_type option" where
  "punct c = map_of [(10, TOK_NEWLINE), (44, TOK_COMMA), (91, TOK_LBRACKET), (93, TOK_RBRACKET), (43, TOK_PLUS),
     (45, TOK_MINUS), (58, TOK_COLON), (42, TOK_STAR)] c"

text \<open>The token at a position, and the position after it.\<close>

definition lex_at :: "bytes \<Rightarrow> token \<times> bytes" where
  "lex_at p0 =
     (let p = lex_skip_ws p0; c = byte_at p 0
      in if c = 0 then (plain_token TOK_EOF, p)
         else case punct c of
           Some k \<Rightarrow> (plain_token k, tl p)
         | None \<Rightarrow>
             if c = 34 then
               (case lex_string 63 (tl p) of (t, q) \<Rightarrow>
                  (\<lparr>tkind = TOK_STRING, ttext = t, tnum = 0\<rparr>, if byte_at q 0 = 34 then tl q else q))
             else if is_digit8 c then
               (case lex_number p of (v, q) \<Rightarrow> (\<lparr>tkind = TOK_NUMBER, ttext = [], tnum = v\<rparr>, q))
             else if is_alpha8 c \<or> c = 95 \<or> c = 46 \<or> c = 37 then
               (case lex_ident 63 p of (t, q) \<Rightarrow> (\<lparr>tkind = TOK_IDENT, ttext = t, tnum = 0\<rparr>, q))
             else (\<lparr>tkind = TOK_IDENT, ttext = [63], tnum = 0\<rparr>, tl p))"

subsection \<open>The state of the assembler\<close>

definition ZAS_SRC_MAX :: nat where "ZAS_SRC_MAX = 8192"
definition ZAS_OUT_MAX :: nat where "ZAS_OUT_MAX = 16384"
definition ZAS_LABEL_MAX :: nat where "ZAS_LABEL_MAX = 128"
definition ZAS_FIXUP_MAX :: nat where "ZAS_FIXUP_MAX = 256"
definition ZAS_DEF_MAX :: nat where "ZAS_DEF_MAX = 32"
definition ZAS_TEXT_VMA :: u32 where "ZAS_TEXT_VMA = 0x00800000"

datatype zas_section = SEC_TEXT | SEC_DATA | SEC_BSS

record fixup =
  out_offset :: u32
  fx_name :: bytes
  fx_base :: u32
  is_rel :: bool

text \<open>The tables are the lists of their used slots.\<close>

record zas =
  lex_p :: bytes
  lex_line :: int
  zas_out :: bytes
  zas_labels :: "(bytes \<times> u32) list"
  zas_fixups :: "fixup list"
  cur_sec :: zas_section
  text_size :: u32
  data_size :: u32
  bss_size :: u32
  text_out_start :: u32
  data_out_start :: u32
  out_pos :: u32
  zas_entry :: u32
  zas_entry_set :: bool
  zas_defs :: "(bytes \<times> bytes) list"

definition lex_next :: "zas \<Rightarrow> token \<times> zas" where
  "lex_next s =
     (case lex_at (lex_p s) of (t, p) \<Rightarrow>
        (t, s\<lparr>lex_p := p, lex_line := (if tkind t = TOK_NEWLINE then lex_line s + 1 else lex_line s)\<rparr>))"

definition lex_peek :: "zas \<Rightarrow> token" where
  "lex_peek s = fst (lex_next s)"

text \<open>The state after a token that is not looked at.\<close>

definition lex_drop :: "zas \<Rightarrow> zas" where
  "lex_drop s = snd (lex_next s)"

subsection \<open>Registers, labels, fixups\<close>

definition reg_names :: "bytes list" where
  "reg_names = [lit ''eax'', lit ''ecx'', lit ''edx'', lit ''ebx'', lit ''esp'', lit ''ebp'', lit ''esi'', lit ''edi'']"

definition reg32_encode :: "bytes \<Rightarrow> int" where
  "reg32_encode s =
     (let lo = map (\<lambda>c. c OR 0x20) (take 7 (chars s))
      in case first_idx (\<lambda>i. strcmp lo (reg_names ! i) = 0) 8 of None \<Rightarrow> -1 | Some i \<Rightarrow> int i)"

definition label_find :: "zas \<Rightarrow> bytes \<Rightarrow> nat option" where
  "label_find s name = first_idx (\<lambda>i. strcmp (fst (zas_labels s ! i)) name = 0) (length (zas_labels s))"

definition label_define :: "bytes \<Rightarrow> u32 \<Rightarrow> zas \<Rightarrow> zas" where
  "label_define name addr s =
     (case label_find s name of
        Some i \<Rightarrow> s\<lparr>zas_labels := (zas_labels s)[i := (fst (zas_labels s ! i), addr)]\<rparr>
      | None \<Rightarrow>
          if ZAS_LABEL_MAX \<le> length (zas_labels s) then s
          else s\<lparr>zas_labels := zas_labels s @ [(take 63 (chars name), addr)]\<rparr>)"

definition add_fixup :: "u32 \<Rightarrow> bytes \<Rightarrow> u32 \<Rightarrow> bool \<Rightarrow> zas \<Rightarrow> zas" where
  "add_fixup off name base rel s =
     (if ZAS_FIXUP_MAX \<le> length (zas_fixups s) then s
      else s\<lparr>zas_fixups := zas_fixups s @
              [\<lparr>out_offset = off, fx_name = take 63 (chars name), fx_base = base, is_rel = rel\<rparr>]\<rparr>)"

subsection \<open>Output\<close>

definition emit8 :: "u8 \<Rightarrow> zas \<Rightarrow> zas" where
  "emit8 b s =
     (if out_pos s < of_nat ZAS_OUT_MAX
      then s\<lparr>zas_out := (zas_out s)[unat (out_pos s) := b], out_pos := out_pos s + 1\<rparr>
      else s)"

definition emit32 :: "u32 \<Rightarrow> zas \<Rightarrow> zas" where
  "emit32 v s =
     emit8 (ucast (drop_bit 24 v)) (emit8 (ucast (drop_bit 16 v)) (emit8 (ucast (drop_bit 8 v)) (emit8 (ucast v) s)))"

definition align4 :: "u32 \<Rightarrow> u32" where
  "align4 x = (x + 3) AND NOT 3"

definition cur_vma :: "zas \<Rightarrow> u32" where
  "cur_vma s =
     (case cur_sec s of
        SEC_TEXT \<Rightarrow> ZAS_TEXT_VMA + (out_pos s - text_out_start s)
      | SEC_DATA \<Rightarrow> align4 (ZAS_TEXT_VMA + text_size s) + (out_pos s - data_out_start s)
      | SEC_BSS \<Rightarrow> align4 (ZAS_TEXT_VMA + text_size s) + data_size s)"

definition modrm :: "int \<Rightarrow> int \<Rightarrow> int \<Rightarrow> u8" where
  "modrm md reg rm = of_int (push_bit 6 md OR push_bit 3 reg OR rm)"

definition emit_modrm_rr :: "u8 \<Rightarrow> int \<Rightarrow> int \<Rightarrow> zas \<Rightarrow> zas" where
  "emit_modrm_rr opcode reg rm s = emit8 (modrm 3 reg rm) (emit8 opcode s)"

definition emit_modrm_mem :: "u8 \<Rightarrow> int \<Rightarrow> int \<Rightarrow> int \<Rightarrow> bool \<Rightarrow> zas \<Rightarrow> zas" where
  "emit_modrm_mem opcode reg base disp has_disp s =
     (let s1 = emit8 opcode s
      in if \<not> has_disp then
           (let s2 = emit8 (modrm 0 reg base) s1 in if base = 5 then emit8 0 s2 else s2)
         else if -128 \<le> disp \<and> disp \<le> 127 then emit8 (of_int disp) (emit8 (modrm 1 reg base) s1)
         else emit32 (of_int disp) (emit8 (modrm 2 reg base) s1))"

subsection \<open>Expressions\<close>

definition def_lookup :: "zas \<Rightarrow> bytes \<Rightarrow> bytes option" where
  "def_lookup s name =
     map_option (\<lambda>i. snd (zas_defs s ! i))
       (first_idx (\<lambda>i. strcmp (fst (zas_defs s ! i)) name = 0) (length (zas_defs s)))"

text \<open>The value of a definition: hexadecimal digits with other characters skipped, or leading decimal digits.\<close>

fun hex_all :: "bytes \<Rightarrow> u32 \<Rightarrow> u32" where
  "hex_all [] v = v"
| "hex_all (c # p) v = (case hex_digit c of Some d \<Rightarrow> hex_all p (v * 16 + d) | None \<Rightarrow> hex_all p v)"

definition def_value :: "bytes \<Rightarrow> u32" where
  "def_value dv =
     (if byte_at dv 0 = 48 \<and> (byte_at dv 1 = 120 \<or> byte_at dv 1 = 88) then hex_all (chars (drop 2 dv)) 0
      else fst (lex_dec dv 0))"

text \<open>Whether the value is known, the value, the label left to resolve.\<close>

definition parse_expr :: "zas \<Rightarrow> bool \<times> u32 \<times> bytes \<times> zas" where
  "parse_expr s =
     (let t = lex_peek s in
      if tkind t = TOK_NUMBER then (True, tnum t, [], lex_drop s)
      else if tkind t = TOK_MINUS then
        (case lex_next (lex_drop s) of (t2, s2) \<Rightarrow>
           if tkind t2 = TOK_NUMBER then (True, - tnum t2, [], s2) else (False, 0, [], s2))
      else if tkind t = TOK_IDENT then
        (let s1 = lex_drop s
         in case def_lookup s1 (ttext t) of
              Some dv \<Rightarrow> (True, def_value dv, [], s1)
            | None \<Rightarrow>
                (case label_find s1 (ttext t) of
                   Some i \<Rightarrow> (True, snd (zas_labels s1 ! i), [], s1)
                 | None \<Rightarrow> (False, 0, take 63 (chars (ttext t)), s1)))
      else (False, 0, [], s))"

partial_function (option) skip_line :: "zas \<Rightarrow> zas option" where
  "skip_line s =
     (if tkind (lex_peek s) = TOK_NEWLINE \<or> tkind (lex_peek s) = TOK_EOF then Some s else skip_line (lex_drop s))"

partial_function (option) skip_newlines :: "zas \<Rightarrow> zas option" where
  "skip_newlines s = (if tkind (lex_peek s) = TOK_NEWLINE then skip_newlines (lex_drop s) else Some s)"

text \<open>A memory operand after its bracket: the base register, the displacement and whether there is one.\<close>

definition parse_mem_op :: "zas \<Rightarrow> int \<times> int \<times> bool \<times> zas" where
  "parse_mem_op s =
     (case lex_next s of (t, s1) \<Rightarrow>
        let r = reg32_encode (ttext t); base = (if r < 0 then 0 else r); k = tkind (lex_peek s1);
            (disp, has_disp, s2) =
              (if k = TOK_PLUS \<or> k = TOK_MINUS then
                 (case lex_next (lex_drop s1) of (t3, s3) \<Rightarrow>
                    if tkind t3 = TOK_NUMBER then (if k = TOK_PLUS then sint (tnum t3) else - sint (tnum t3), True, s3)
                    else (0, False, s3))
               else (0, False, s1))
        in (base, disp, has_disp, if tkind (lex_peek s2) = TOK_RBRACKET then lex_drop s2 else s2))"

end
