(* ===== verification/ZasAsm.thy ===== *)
theory ZasAsm
  imports Zas FatFile
begin

text \<open>
  The statements, the two passes and the output file of the assembler, shell/zas.c. Each handler takes
  the state after the statement's first token and gives the state after the rest of its line; None is a
  handler that does not return. The file is written through the FAT file system.
\<close>

definition is_word :: "token \<Rightarrow> string \<Rightarrow> bool" where
  "is_word t w \<longleftrightarrow> strcasecmp (ttext t) (lit w) = 0"

subsection \<open>Directives\<close>

definition do_define :: "nat \<Rightarrow> zas \<Rightarrow> zas option" where
  "do_define pass s =
     (case lex_next s of (name_t, s1) \<Rightarrow> case lex_next s1 of (val_t, s2) \<Rightarrow>
        skip_line
          (if pass = 1 \<and> length (zas_defs s2) < ZAS_DEF_MAX
           then s2\<lparr>zas_defs := zas_defs s2 @ [(take 63 (chars (ttext name_t)), take 63 (chars (ttext val_t)))]\<rparr>
           else s2))"

definition do_section :: "nat \<Rightarrow> zas \<Rightarrow> zas option" where
  "do_section pass s =
     (case lex_next s of (sec, s1) \<Rightarrow>
        skip_line
          (if strcmp (ttext sec) (lit ''.text'') = 0 then s1\<lparr>cur_sec := SEC_TEXT\<rparr>
           else if strcmp (ttext sec) (lit ''.data'') = 0 then
             (if pass = 1 \<and> cur_sec s1 = SEC_TEXT then s1\<lparr>text_size := out_pos s1 - text_out_start s1\<rparr>
              else s1)\<lparr>cur_sec := SEC_DATA\<rparr>
           else if strcmp (ttext sec) (lit ''.bss'') = 0 then
             (if pass = 1 then
                (case cur_sec s1 of
                   SEC_TEXT \<Rightarrow> s1\<lparr>text_size := out_pos s1 - text_out_start s1\<rparr>
                 | SEC_DATA \<Rightarrow> s1\<lparr>data_size := out_pos s1 - data_out_start s1\<rparr>
                 | SEC_BSS \<Rightarrow> s1)
              else s1)\<lparr>cur_sec := SEC_BSS\<rparr>
           else s1))"

definition do_times :: "zas \<Rightarrow> zas option" where
  "do_times s =
     (case parse_expr s of (_, count, _, s1) \<Rightarrow>
        case lex_next s1 of (dir, s2) \<Rightarrow>
          skip_line
            (if is_word dir ''db'' then (case parse_expr s2 of (_, val, _, s3) \<Rightarrow> (emit8 (ucast val) ^^ unat count) s3)
             else s2))"

text \<open>The items of a db line.\<close>

partial_function (option) db_loop :: "zas \<Rightarrow> zas option" where
  "db_loop s =
     (let t = lex_peek s in
      if tkind t = TOK_NEWLINE \<or> tkind t = TOK_EOF then Some s
      else
        let s1 = (if tkind t = TOK_STRING then fold emit8 (chars (ttext t)) (lex_drop s)
                  else (case parse_expr s of (_, val, _, s2) \<Rightarrow> emit8 (ucast val) s2))
        in if tkind (lex_peek s1) = TOK_COMMA then db_loop (lex_drop s1) else Some s1)"

definition do_dw :: "zas \<Rightarrow> zas option" where
  "do_dw s = (case parse_expr s of (_, val, _, s1) \<Rightarrow> skip_line (emit8 (ucast (drop_bit 8 val)) (emit8 (ucast val) s1)))"

definition do_dd :: "nat \<Rightarrow> zas \<Rightarrow> zas option" where
  "do_dd pass s =
     (case parse_expr s of (known, val, lb, s1) \<Rightarrow>
        skip_line (emit32 val (if \<not> known \<and> pass = 2 then add_fixup (out_pos s1) lb 0 False s1 else s1)))"

definition do_resb :: "zas \<Rightarrow> zas option" where
  "do_resb s =
     (case parse_expr s of (_, count, _, s1) \<Rightarrow>
        skip_line (if cur_sec s1 = SEC_BSS then s1\<lparr>bss_size := bss_size s1 + count\<rparr> else (emit8 0 ^^ unat count) s1))"

text \<open>A label, with the position after its colon.\<close>

definition do_label :: "nat \<Rightarrow> token \<Rightarrow> zas \<Rightarrow> zas" where
  "do_label pass t s =
     (let addr = cur_vma s in
      if pass \<noteq> 1 then s
      else
        let s1 = label_define (ttext t) addr s;
            s2 = (if strcmp (ttext t) (lit ''_start'') = 0 then s1\<lparr>zas_entry := addr, zas_entry_set := True\<rparr> else s1)
        in if \<not> zas_entry_set s2 then s2\<lparr>zas_entry := addr, zas_entry_set := True\<rparr> else s2)"

subsection \<open>Instructions\<close>

definition simple_ops :: "(string \<times> u8) list" where
  "simple_ops = [(''nop'', 0x90), (''hlt'', 0xF4), (''ret'', 0xC3), (''leave'', 0xC9), (''pusha'', 0x60), (''popa'', 0x61),
     (''pushf'', 0x9C), (''popf'', 0x9D), (''sti'', 0xFB), (''cli'', 0xFA), (''cld'', 0xFC), (''std'', 0xFD)]"

text \<open>The first entry of a mnemonic table that the token names.\<close>

definition op_find :: "(string \<times> 'a) list \<Rightarrow> token \<Rightarrow> 'a option" where
  "op_find tbl t = map_option snd (List.find (\<lambda>e. is_word t (fst e)) tbl)"

definition do_int :: "zas \<Rightarrow> zas option" where
  "do_int s = (case lex_next s of (it, s1) \<Rightarrow> skip_line (emit8 (ucast (tnum it)) (emit8 0xCD s1)))"

definition push_imm :: "u32 \<Rightarrow> zas \<Rightarrow> zas" where
  "push_imm v s = emit32 v (emit8 0x68 s)"

definition do_push :: "zas \<Rightarrow> zas option" where
  "do_push s =
     (let op = lex_peek s; s1 = lex_drop s in
      if tkind op = TOK_IDENT then
        (let rd = reg32_encode (ttext op) in
         if 0 \<le> rd then skip_line (emit8 (of_int (0x50 + rd)) s1)
         else skip_line (push_imm (case label_find s1 (ttext op) of Some i \<Rightarrow> snd (zas_labels s1 ! i) | None \<Rightarrow> 0) s1))
      else if tkind op = TOK_NUMBER then
        skip_line (if tnum op \<le> 127 then emit8 (ucast (tnum op)) (emit8 0x6A s1) else push_imm (tnum op) s1)
      else if tkind op = TOK_MINUS then (case lex_next s1 of (neg, s2) \<Rightarrow> skip_line (push_imm (- tnum neg) s2))
      else skip_line s)"

text \<open>pop, inc and dec: the opcode holds the register.\<close>

definition reg_ops :: "(string \<times> int) list" where
  "reg_ops = [(''pop'', 0x58), (''inc'', 0x40), (''dec'', 0x48)]"

definition do_reg_op :: "int \<Rightarrow> zas \<Rightarrow> zas option" where
  "do_reg_op base s =
     (case lex_next s of (op, s1) \<Rightarrow>
        let rd = reg32_encode (ttext op) in skip_line (if 0 \<le> rd then emit8 (of_int (base + rd)) s1 else s1))"

definition f7_ops :: "(string \<times> int) list" where
  "f7_ops = [(''neg'', 3), (''not'', 2), (''mul'', 4), (''imul'', 5), (''idiv'', 7), (''div'', 6)]"

definition do_f7 :: "int \<Rightarrow> zas \<Rightarrow> zas option" where
  "do_f7 n s =
     (case lex_next s of (op, s1) \<Rightarrow>
        let rm = reg32_encode (ttext op) in skip_line (if 0 \<le> rm then emit_modrm_rr 0xF7 n rm s1 else s1))"

definition do_xchg :: "zas \<Rightarrow> zas option" where
  "do_xchg s =
     (case lex_next s of (op1, s1) \<Rightarrow> case lex_next (lex_drop s1) of (op2, s2) \<Rightarrow>
        let r1 = reg32_encode (ttext op1); r2 = reg32_encode (ttext op2)
        in skip_line (if 0 \<le> r1 \<and> 0 \<le> r2 then emit_modrm_rr 0x87 r1 r2 s2 else s2))"

definition mov_imm :: "int \<Rightarrow> u32 \<Rightarrow> zas \<Rightarrow> zas" where
  "mov_imm r1 v s = emit32 v (emit8 (of_int (0xB8 + r1)) s)"

text \<open>mov reg, ident: a register, a definition, a label known or to be fixed up.\<close>

definition mov_ident :: "nat \<Rightarrow> int \<Rightarrow> bytes \<Rightarrow> zas \<Rightarrow> zas" where
  "mov_ident pass r1 name s =
     (let r2 = reg32_encode name in
      if 0 \<le> r2 then emit_modrm_rr 0x8B r1 r2 s
      else case def_lookup s name of
        Some dv \<Rightarrow> mov_imm r1 (def_value dv) s
      | None \<Rightarrow>
          (case label_find s name of
             Some i \<Rightarrow> mov_imm r1 (snd (zas_labels s ! i)) s
           | None \<Rightarrow> mov_imm r1 0 (if pass = 2 then add_fixup (out_pos s + 1) name 0 False s else s)))"

definition do_mov :: "nat \<Rightarrow> zas \<Rightarrow> zas option" where
  "do_mov pass s0 =
     (case lex_next s0 of (op1, s1) \<Rightarrow>
        let s = lex_drop s1; op2 = lex_peek s; r1 = reg32_encode (ttext op1) in
        if tkind op1 = TOK_LBRACKET then
          (case parse_mem_op s of (base, disp, has_disp, s2) \<Rightarrow>
             case lex_next s2 of (src, s3) \<Rightarrow>
               let rs = reg32_encode (ttext src)
               in skip_line (if 0 \<le> rs then emit_modrm_mem 0x89 rs base disp has_disp s3 else s3))
        else if 0 \<le> r1 then
          (if tkind op2 = TOK_LBRACKET then
             (case parse_mem_op (lex_drop s) of (base, disp, has_disp, s2) \<Rightarrow>
                skip_line (emit_modrm_mem 0x8B r1 base disp has_disp s2))
           else if tkind op2 = TOK_IDENT then skip_line (mov_ident pass r1 (ttext op2) (lex_drop s))
           else if tkind op2 = TOK_NUMBER then skip_line (mov_imm r1 (tnum op2) (lex_drop s))
           else if tkind op2 = TOK_MINUS then
             (case lex_next (lex_drop s) of (neg, s2) \<Rightarrow> skip_line (mov_imm r1 (- tnum neg) s2))
           else skip_line s)
        else skip_line s)"

definition do_lea :: "zas \<Rightarrow> zas option" where
  "do_lea s =
     (case lex_next s of (dst, s1) \<Rightarrow>
        let r1 = reg32_encode (ttext dst) in
        case lex_next (lex_drop s1) of (lb_t, s2) \<Rightarrow>
          if tkind lb_t = TOK_LBRACKET then
            (case parse_mem_op s2 of (base, disp, has_disp, s3) \<Rightarrow>
               skip_line (if 0 \<le> r1 then emit_modrm_mem 0x8D r1 base disp has_disp s3 else s3))
          else skip_line s2)"

text \<open>add, sub, xor, and, or, cmp: the opcode of the register form and the extension of the immediate form.\<close>

definition arith_ops :: "(string \<times> u8 \<times> int) list" where
  "arith_ops = [(''add'', 0x03, 0), (''sub'', 0x2B, 5), (''xor'', 0x33, 6), (''and'', 0x23, 4), (''or'', 0x0B, 1),
     (''cmp'', 0x3B, 7)]"

definition arith_imm :: "int \<Rightarrow> int \<Rightarrow> bool \<Rightarrow> u32 \<Rightarrow> zas \<Rightarrow> zas" where
  "arith_imm n r1 short v s =
     (if short then emit8 (ucast v) (emit8 (modrm 3 n r1) (emit8 0x83 s))
      else emit32 v (emit8 (modrm 3 n r1) (emit8 0x81 s)))"

definition do_arith :: "u8 \<Rightarrow> int \<Rightarrow> zas \<Rightarrow> zas option" where
  "do_arith op_rm n s0 =
     (case lex_next s0 of (op1, s1) \<Rightarrow>
        let s = lex_drop s1; op2 = lex_peek s; r1 = reg32_encode (ttext op1) in
        if r1 < 0 then skip_line s
        else if tkind op2 = TOK_IDENT then
          (let r2 = reg32_encode (ttext op2); s2 = lex_drop s
           in skip_line (if 0 \<le> r2 then emit_modrm_rr op_rm r1 r2 s2 else s2))
        else if tkind op2 = TOK_NUMBER then skip_line (arith_imm n r1 (tnum op2 \<le> 127) (tnum op2) (lex_drop s))
        else if tkind op2 = TOK_MINUS then
          (case lex_next (lex_drop s) of (neg, s2) \<Rightarrow> skip_line (arith_imm n r1 (-128 \<le> sint (- tnum neg)) (- tnum neg) s2))
        else skip_line s)"

subsection \<open>Jumps\<close>

text \<open>The 32-bit displacement to a label, after the opcode.\<close>

definition emit_rel :: "nat \<Rightarrow> bytes \<Rightarrow> u32 option \<Rightarrow> zas \<Rightarrow> zas" where
  "emit_rel pass name addr s =
     (case addr of
        Some a \<Rightarrow> if pass = 2 then emit32 (a - (cur_vma s + 4)) s else emit32 0 s
      | None \<Rightarrow> emit32 0 (if pass = 2 then add_fixup (out_pos s) name (cur_vma s + 4) True s else s))"

definition label_addr :: "zas \<Rightarrow> bytes \<Rightarrow> u32 option" where
  "label_addr s name = map_option (\<lambda>i. snd (zas_labels s ! i)) (label_find s name)"

definition do_branch :: "nat \<Rightarrow> bytes \<Rightarrow> bool \<Rightarrow> zas \<Rightarrow> zas option" where
  "do_branch pass opcode num_ok s =
     (case lex_next s of (op, s1) \<Rightarrow>
        skip_line
          (if tkind op = TOK_IDENT then emit_rel pass (ttext op) (label_addr s1 (ttext op)) (fold emit8 opcode s1)
           else if num_ok \<and> tkind op = TOK_NUMBER then
             (let s2 = fold emit8 opcode s1 in emit32 (tnum op - (cur_vma s2 + 4)) s2)
           else s1))"

text \<open>jmp alone takes a number.\<close>

definition branch_ops :: "(string \<times> bytes \<times> bool) list" where
  "branch_ops = [(''jmp'', [0xE9], True), (''call'', [0xE8], False)]"

definition jcc_ops :: "(string \<times> u8) list" where
  "jcc_ops = [(''je'', 0x84), (''jz'', 0x84), (''jne'', 0x85), (''jnz'', 0x85), (''jl'', 0x8C), (''jnge'', 0x8C),
     (''jle'', 0x8E), (''jng'', 0x8E), (''jg'', 0x8F), (''jnle'', 0x8F), (''jge'', 0x8D), (''jnl'', 0x8D), (''ja'', 0x87),
     (''jb'', 0x82), (''jae'', 0x83), (''jbe'', 0x86)]"

definition do_instr :: "nat \<Rightarrow> token \<Rightarrow> zas \<Rightarrow> zas option" where
  "do_instr pass t s =
     (case op_find simple_ops t of Some b \<Rightarrow> skip_line (emit8 b s) | None \<Rightarrow>
      if is_word t ''int'' then do_int s
      else if is_word t ''push'' then do_push s
      else case op_find reg_ops t of Some b \<Rightarrow> do_reg_op b s | None \<Rightarrow>
      case op_find f7_ops t of Some n \<Rightarrow> do_f7 n s | None \<Rightarrow>
      if is_word t ''xchg'' then do_xchg s
      else if is_word t ''mov'' then do_mov pass s
      else if is_word t ''lea'' then do_lea s
      else case op_find arith_ops t of Some (op_rm, n) \<Rightarrow> do_arith op_rm n s | None \<Rightarrow>
      case op_find branch_ops t of Some (opc, num_ok) \<Rightarrow> do_branch pass opc num_ok s | None \<Rightarrow>
      case op_find jcc_ops t of Some cc \<Rightarrow> do_branch pass [0x0F, cc] False s | None \<Rightarrow>
      skip_line s)"

subsection \<open>Statements and passes\<close>

text \<open>The statement after its first token.\<close>

definition do_statement :: "nat \<Rightarrow> token \<Rightarrow> zas \<Rightarrow> zas option" where
  "do_statement pass t s =
     (if strcmp (ttext t) (lit ''%define'') = 0 then do_define pass s
      else if is_word t ''section'' then do_section pass s
      else if is_word t ''global'' then skip_line s
      else if is_word t ''times'' then do_times s
      else if is_word t ''db'' then db_loop s \<bind> skip_line
      else if is_word t ''dw'' then do_dw s
      else if is_word t ''dd'' then do_dd pass s
      else if is_word t ''resb'' then do_resb s
      else if tkind (lex_peek s) = TOK_COLON then Some (do_label pass t (lex_drop s))
      else do_instr pass t s)"

text \<open>Whether to go on.\<close>

definition assemble_line :: "nat \<Rightarrow> zas \<Rightarrow> (bool \<times> zas) option" where
  "assemble_line pass s0 =
     do { s \<leftarrow> skip_newlines s0;
          if tkind (lex_peek s) = TOK_EOF then Some (False, s)
          else map_option (Pair True) (do_statement pass (lex_peek s) (lex_drop s)) }"

partial_function (option) run_lines :: "nat \<Rightarrow> zas \<Rightarrow> zas option" where
  "run_lines pass s =
     (if byte_at (lex_p s) 0 = 0 then Some s
      else assemble_line pass s \<bind> (\<lambda>(more, s1). if more then run_lines pass s1 else Some s1))"

definition start_pass :: "nat \<Rightarrow> bytes \<Rightarrow> zas \<Rightarrow> zas" where
  "start_pass pass src s =
     (if pass = 2 then s\<lparr>out_pos := 0, text_out_start := 0, data_out_start := text_size s\<rparr>
      else s\<lparr>out_pos := 0, text_out_start := 0, data_out_start := 0, text_size := 0, data_size := 0, bss_size := 0\<rparr>)
     \<lparr>cur_sec := SEC_TEXT, lex_p := src, lex_line := 1\<rparr>"

definition end_pass :: "zas \<Rightarrow> zas" where
  "end_pass s =
     (case cur_sec s of
        SEC_TEXT \<Rightarrow> s\<lparr>text_size := out_pos s - text_out_start s\<rparr>
      | SEC_DATA \<Rightarrow> s\<lparr>data_size := out_pos s - data_out_start s\<rparr>
      | SEC_BSS \<Rightarrow> s)"

definition run_pass :: "nat \<Rightarrow> bytes \<Rightarrow> zas \<Rightarrow> zas option" where
  "run_pass pass src s = map_option end_pass (run_lines pass (start_pass pass src s))"

subsection \<open>Fixups\<close>

text \<open>The output after one fixup, and the message about a label that is not defined.\<close>

definition apply_fixup :: "zas \<Rightarrow> fixup \<Rightarrow> bytes \<times> bytes \<Rightarrow> (bytes \<times> bytes) option" where
  "apply_fixup s fx oc =
     (case oc of (code, con) \<Rightarrow>
        case label_addr s (fx_name fx) of
          None \<Rightarrow> map_option (\<lambda>r. (code, fst r))
                    (kprintf con (lit ''zas: undefined label '' @ [39] @ lit ''%s'' @ [39] @ lit ''\<newline>'') [ArgStr (Some (fx_name fx))])
        | Some addr \<Rightarrow>
            let val = (if is_rel fx then addr - fx_base fx else addr); off = out_offset fx
            in Some (if off + 4 \<le> of_nat ZAS_OUT_MAX
                     then blit code (unat off) (le32 val) else code, con))"

primrec apply_fixups :: "zas \<Rightarrow> fixup list \<Rightarrow> bytes \<times> bytes \<Rightarrow> (bytes \<times> bytes) option" where
  "apply_fixups s [] oc = Some oc"
| "apply_fixups s (fx # fs) oc = apply_fixup s fx oc \<bind> apply_fixups s fs"

subsection \<open>The ELF file\<close>

definition elf_header :: "u32 \<Rightarrow> bytes" where
  "elf_header entry =
     [0x7F, 69, 76, 70, 1, 1, 1] @ replicate 9 0 @ [2, 0, 3, 0, 1, 0, 0, 0] @ le32 entry @ le32 52 @ replicate 8 0
     @ [52, 0, 32, 0, 1, 0] @ replicate 6 0"

definition program_header :: "u32 \<Rightarrow> u32 \<Rightarrow> bytes" where
  "program_header filesz memsz =
     le32 1 @ le32 84 @ le32 ZAS_TEXT_VMA @ le32 ZAS_TEXT_VMA @ le32 filesz @ le32 memsz @ le32 7 @ le32 0x1000"

text \<open>Writing more bytes than the output buffer holds reads past it: None.\<close>

definition write_elf :: "bytes \<Rightarrow> zas \<Rightarrow> bytes \<Rightarrow> 'd fsys \<Rightarrow> (int \<times> bytes \<times> 'd fsys) option" where
  "write_elf out_path s con F =
     (let code_size = text_size s + data_size s;
          entry = (if zas_entry_set s then zas_entry s else ZAS_TEXT_VMA);
          say = (\<lambda>m F. map_option (\<lambda>r. (-1, fst r, F)) (kprintf con (lit m) [ArgStr (Some out_path)]))
      in do { (F1, _) \<leftarrow> fs_unlink F out_path;
              (F2, rc) \<leftarrow> fs_create F1 out_path;
              if rc < 0 then say ''zas: cannot create %s\<newline>'' F2
              else do { (F3, h) \<leftarrow> fs_open F2 out_path;
                        if h < 0 then say ''zas: cannot open %s\<newline>'' F3
                        else if ZAS_OUT_MAX < unat code_size then None
                        else do { (F4, _) \<leftarrow> fs_write F3 h (elf_header entry);
                                  (F5, _) \<leftarrow> fs_write F4 h (program_header code_size (code_size + bss_size s));
                                  (F6, _) \<leftarrow> fs_write F5 h (take (unat code_size) (zas_out s));
                                  Some (sint (84 + code_size), con, fst (fs_close F6 h)) } } })"

text \<open>The source, zero-filled to the size of its buffer; the inner None is the message that was printed.\<close>

definition read_source :: "bytes \<Rightarrow> bytes \<Rightarrow> 'd fsys \<Rightarrow> (bytes option \<times> bytes \<times> 'd fsys) option" where
  "read_source src_path con F =
     do { (F1, h) \<leftarrow> fs_open F src_path;
          if h < 0 then map_option (\<lambda>r. (None, fst r, F1)) (kprintf con (lit ''zas: cannot open %s\<newline>'') [ArgStr (Some src_path)])
          else
            let sz = fs_size F1 h
            in if sz < 0 \<or> int ZAS_SRC_MAX \<le> sz then
                 map_option (\<lambda>r. (None, fst r, fst (fs_close F1 h)))
                   (kprintf con (lit ''zas: source too large or unreadable\<newline>'') [])
               else do { (F2, bs, _) \<leftarrow> fs_read F1 h (nat sz);
                         Some (Some (blit (replicate ZAS_SRC_MAX 0) 0 bs), con, fst (fs_close F2 h)) } }"

definition zas_start :: "zas \<Rightarrow> zas" where
  "zas_start s =
     s\<lparr>zas_labels := [], zas_fixups := [], zas_entry := ZAS_TEXT_VMA, zas_entry_set := False, zas_defs := [],
       zas_out := replicate ZAS_OUT_MAX 0\<rparr>"

text \<open>The passes over a source, and the fixups.\<close>

definition zas_passes :: "bytes \<Rightarrow> zas \<Rightarrow> bytes \<Rightarrow> (zas \<times> bytes) option" where
  "zas_passes src s con =
     do { s1 \<leftarrow> run_pass 1 src s;
          s2 \<leftarrow> run_pass 2 src (s1\<lparr>zas_fixups := []\<rparr>);
          (code, con1) \<leftarrow> apply_fixups s2 (zas_fixups s2) (zas_out s2, con);
          Some (s2\<lparr>zas_out := code\<rparr>, con1) }"

definition zas_assemble :: "bytes \<Rightarrow> bytes \<Rightarrow> zas \<Rightarrow> bytes \<Rightarrow> 'd fsys \<Rightarrow> (int \<times> zas \<times> bytes \<times> 'd fsys) option" where
  "zas_assemble src_path out_path s con F =
     do { (src, con1, F1) \<leftarrow> read_source src_path con F;
          case src of
            None \<Rightarrow> Some (-1, zas_start s, con1, F1)
          | Some text \<Rightarrow>
              do { (s2, con2) \<leftarrow> zas_passes text (zas_start s) con1;
                   (rc, con3, F2) \<leftarrow> write_elf out_path s2 con2 F1;
                   if rc < 0 then Some (-1, s2, con3, F2)
                   else map_option (\<lambda>r. (rc, s2, fst r, F2))
                     (kprintf con3 (lit ''zas: %u bytes text, %u bytes data, %u bytes bss, entry=0x%x\<newline>'')
                       [ArgWord (text_size s2), ArgWord (data_size s2), ArgWord (bss_size s2), ArgWord (zas_entry s2)]) } }"

end
