(* ===== verification/ZasFacts.thy ===== *)
theory ZasFacts
  imports ZasAsm "HOL-Library.Sublist"
begin

text \<open>
  Facts about the assembler of shell/zas.c: every token moves the source pointer forward unless it is a
  percent sign, so assembling returns on sources without one and hangs on one; both passes place every
  statement at the same offset; and what the operand encoder and the fixups store.
\<close>

text \<open>A state before any assembly.\<close>

definition zas_blank :: zas where
  "zas_blank = \<lparr>lex_p = [], lex_line = 1, zas_out = [], zas_labels = [], zas_fixups = [], cur_sec = SEC_TEXT, text_size = 0,
     data_size = 0, bss_size = 0, text_out_start = 0, data_out_start = 0, out_pos = 0, zas_entry = 0,
     zas_entry_set = False, zas_defs = []\<rparr>"

subsection \<open>The lexer moves forward\<close>

lemma suffix_tl: "suffix p q \<Longrightarrow> suffix (tl p) q"
  by (cases p) (auto intro: suffix_ConsD)

lemma suffix_skip_blank: "suffix (skip_blank p) p"
  by (induction p) (auto simp: suffix_Cons)

lemma suffix_skip_comment: "suffix (skip_comment p) p"
  by (induction p) (auto simp: suffix_Cons)

lemma suffix_skip_ws: "suffix (lex_skip_ws p) p"
  by (auto simp: lex_skip_ws_def Let_def intro: suffix_skip_blank suffix_order.trans [OF suffix_skip_comment suffix_skip_blank])

lemma suffix_lex_string: "suffix (snd (lex_string n p)) p"
proof (induction n arbitrary: p)
  case (Suc n)
  have "suffix (snd (lex_string n (tl p))) p" "suffix (snd (lex_string n (tl (tl p)))) p"
    using Suc.IH suffix_tl suffix_order.trans by blast+
  then show ?case by (simp add: split_beta)
qed simp

lemma suffix_lex_ident: "suffix (snd (lex_ident n p)) p"
proof (induction n arbitrary: p)
  case (Suc n)
  have "suffix (snd (lex_ident n (tl p))) p" using Suc.IH suffix_tl suffix_order.trans by blast
  then show ?case by (simp add: split_beta)
qed simp

lemma suffix_lex_hex: "suffix (snd (lex_hex p v)) p"
  by (induction p v rule: lex_hex.induct) (auto simp: suffix_Cons split: option.splits)

lemma suffix_lex_dec: "suffix (snd (lex_dec p v)) p"
  by (induction p v rule: lex_dec.induct) (auto simp: suffix_Cons)

lemma length_suffix: "suffix p q \<Longrightarrow> length p \<le> length q"
  by (rule suffix_length_le)

lemma suffix_trans: "suffix p q \<Longrightarrow> suffix q r \<Longrightarrow> suffix p r"
  by (rule suffix_order.trans)

text \<open>Each token ends in a suffix of what comes after its first character, a percent sign excepted.\<close>

lemma lex_number_tl:
  assumes "is_digit8 (byte_at p 0)"
  shows "suffix (snd (lex_number p)) (tl p)"
proof -
  obtain c q where p: "p = c # q" using assms by (cases p) (auto simp: is_digit8_def)
  have "suffix (snd (lex_hex (drop 1 q) 0)) q" by (rule suffix_trans [OF suffix_lex_hex suffix_drop])
  then show ?thesis using assms suffix_lex_dec [of q] by (simp add: p lex_number_def)
qed

lemma lex_ident_tl:
  assumes "ident_char (byte_at p 0)" and "0 < n"
  shows "suffix (snd (lex_ident n p)) (tl p)"
  using assms suffix_lex_ident by (cases n) (auto simp: split_beta)

lemma lex_at_tl:
  assumes "tkind (fst (lex_at p)) \<noteq> TOK_EOF" and "byte_at (lex_skip_ws p) 0 \<noteq> 37"
  shows "suffix (snd (lex_at p)) (tl (lex_skip_ws p))"
proof -
  let ?p = "lex_skip_ws p" and ?c = "byte_at (lex_skip_ws p) 0"
  have c: "?c \<noteq> 0" using assms(1) by (auto simp: lex_at_def plain_token_def)
  have st: "suffix (tl q) (tl ?p)" "suffix q (tl ?p)" if "q = snd (lex_string 63 (tl ?p))" for q
    using that suffix_lex_string suffix_tl by blast+
  consider k where "punct ?c = Some k" | "punct ?c = None" "?c = 34" | "punct ?c = None" "?c \<noteq> 34" "is_digit8 ?c"
    | "punct ?c = None" "?c \<noteq> 34" "\<not> is_digit8 ?c" "is_alpha8 ?c \<or> ?c = 95 \<or> ?c = 46 \<or> ?c = 37"
    | "punct ?c = None" "?c \<noteq> 34" "\<not> is_digit8 ?c" "\<not> (is_alpha8 ?c \<or> ?c = 95 \<or> ?c = 46 \<or> ?c = 37)"
    by fastforce
  then show ?thesis
  proof cases
    case 4
    then have "ident_char ?c" using assms(2) by (auto simp: ident_char_def)
    from lex_ident_tl [OF this, of 63] show ?thesis using c 4 by (simp add: lex_at_def Let_def split_beta del: disj_imp)
  qed (use c st lex_number_tl [of ?p] in \<open>simp_all add: lex_at_def Let_def split_beta\<close>)
qed

lemma suffix_lex_at: "suffix (snd (lex_at p)) p"
proof (cases "tkind (fst (lex_at p)) \<noteq> TOK_EOF \<and> byte_at (lex_skip_ws p) 0 \<noteq> 37")
  case True
  then show ?thesis using lex_at_tl suffix_tl [OF suffix_skip_ws] suffix_trans by blast
next
  case False
  let ?p = "lex_skip_ws p"
  consider "byte_at ?p 0 = 0" | "byte_at ?p 0 = 37"
    using False by (auto simp: lex_at_def plain_token_def Let_def punct_def split: option.splits prod.splits if_splits)
  then show ?thesis
    using suffix_skip_ws [of p] suffix_trans [OF suffix_lex_ident suffix_skip_ws [of p]]
    by cases (simp_all add: lex_at_def punct_def is_digit8_def split_beta Let_def)
qed

lemma lex_at_shorter:
  assumes "tkind (fst (lex_at p)) \<noteq> TOK_EOF" and "37 \<notin> set p"
  shows "length (snd (lex_at p)) < length p"
proof -
  let ?p = "lex_skip_ws p"
  have "set ?p \<subseteq> set p" by (rule set_mono_suffix [OF suffix_skip_ws])
  moreover have "?p \<noteq> []" using assms(1) by (auto simp: lex_at_def plain_token_def)
  ultimately have "byte_at ?p 0 \<noteq> 37" using assms(2) by (cases ?p) auto
  with assms(1) have "length (snd (lex_at p)) \<le> length (tl ?p)" by (intro length_suffix lex_at_tl)
  also have "\<dots> < length ?p" using \<open>?p \<noteq> []\<close> by (cases ?p) simp_all
  also have "\<dots> \<le> length p" by (rule length_suffix [OF suffix_skip_ws])
  finally show ?thesis .
qed

subsection \<open>The lexer stays in the source array\<close>

text \<open>zas_src ends in a zero. Only a backslash in a string steps over a zero, so the position stays in the array unless
  the byte before the last zero is a backslash.\<close>

definition in_src :: "bytes \<Rightarrow> bool" where
  "in_src p \<longleftrightarrow> p \<noteq> [] \<and> last p = 0 \<and> \<not> suffix [92, 0] p"

lemma in_src_suffix: "suffix q p \<Longrightarrow> in_src p \<Longrightarrow> q \<noteq> [] \<Longrightarrow> in_src q"
  using suffix_trans by (auto simp: in_src_def suffix_def)

lemma in_src_tl: "in_src p \<Longrightarrow> byte_at p 0 \<noteq> 0 \<Longrightarrow> in_src (tl p)"
proof (cases p)
  case (Cons c q)
  moreover assume "in_src p" "byte_at p 0 \<noteq> 0"
  ultimately show ?thesis using suffix_tl [OF suffix_order.refl, of p] in_src_suffix [of q p] by (auto simp: in_src_def split: if_splits)
qed (simp add: in_src_def)

lemma in_src_tl2:
  assumes "in_src p" and "hd p = 92"
  shows "in_src (tl (tl p))"
proof -
  have "byte_at p 0 \<noteq> 0" using assms by (cases p) (auto simp: in_src_def)
  then have t: "in_src (tl p)" by (rule in_src_tl [OF assms(1)])
  have "tl (tl p) \<noteq> []"
  proof
    assume "tl (tl p) = []"
    then have "p = [92, 0]" using assms t by (cases p; cases "tl p") (auto simp: in_src_def)
    then show False using assms(1) by (simp add: in_src_def)
  qed
  then show ?thesis using in_src_suffix [OF suffix_tl [OF suffix_order.refl] t] by blast
qed

lemma in_src_skip_blank: "in_src p \<Longrightarrow> in_src (skip_blank p)"
proof (induction p)
  case (Cons c p)
  then show ?case using in_src_tl [of "c # p"] by auto
qed simp

lemma in_src_skip_comment: "in_src p \<Longrightarrow> in_src (skip_comment p)"
proof (induction p)
  case (Cons c p)
  then show ?case using in_src_tl [of "c # p"] by auto
qed simp

lemma in_src_skip_ws: "in_src p \<Longrightarrow> in_src (lex_skip_ws p)"
  by (simp add: lex_skip_ws_def in_src_skip_blank in_src_skip_comment Let_def)

lemma in_src_lex_string: "in_src p \<Longrightarrow> in_src (snd (lex_string n p))"
proof (induction n arbitrary: p)
  case (Suc n)
  then show ?case using in_src_tl [of p] in_src_tl2 [of p] by (auto simp: split_beta)
qed simp

lemma in_src_lex_ident: "in_src p \<Longrightarrow> in_src (snd (lex_ident n p))"
proof (induction n arbitrary: p)
  case (Suc n)
  moreover have "ident_char (byte_at p 0) \<Longrightarrow> byte_at p 0 \<noteq> 0"
    by (auto simp: ident_char_def is_alpha8_def is_digit8_def)
  ultimately show ?case using in_src_tl [of p] by (auto simp: split_beta)
qed simp

lemma in_src_lex_hex: "in_src p \<Longrightarrow> in_src (snd (lex_hex p v))"
proof (induction p v rule: lex_hex.induct)
  case (2 c p v)
  have "c \<noteq> 0" if "hex_digit c = Some d" for d using that by (auto simp: hex_digit_def)
  then show ?case using 2 in_src_tl [of "c # p"] by (auto split: option.splits)
qed simp

lemma in_src_lex_dec: "in_src p \<Longrightarrow> in_src (snd (lex_dec p v))"
proof (induction p v rule: lex_dec.induct)
  case (2 c p v)
  have "c \<noteq> 0" if "is_digit8 c" using that by (auto simp: is_digit8_def)
  then show ?case using 2 in_src_tl [of "c # p"] by auto
qed simp

lemma in_src_lex_number: "in_src p \<Longrightarrow> in_src (snd (lex_number p))"
proof -
  assume p: "in_src p"
  have "in_src (drop 2 p)" if "byte_at p 0 = 48" "byte_at p 1 \<noteq> 0"
  proof -
    have "byte_at p 0 \<noteq> 0" using that(1) by simp
    then have t: "in_src (tl p)" by (rule in_src_tl [OF p])
    have "byte_at (tl p) 0 = byte_at p 1" using p by (cases p) (simp_all add: in_src_def)
    with that(2) have "in_src (tl (tl p))" by (intro in_src_tl [OF t]) simp
    then show ?thesis by (simp add: numeral_2_eq_2 drop_Suc)
  qed
  then show ?thesis using p in_src_lex_hex in_src_lex_dec by (auto simp: lex_number_def)
qed

lemma in_src_lex_at:
  assumes "in_src p"
  shows "in_src (snd (lex_at p))"
proof -
  let ?p = "lex_skip_ws p"
  let ?c = "byte_at ?p 0"
  have w: "in_src ?p" by (rule in_src_skip_ws [OF assms])
  show ?thesis
  proof (cases "?c = 0")
    case True
    then show ?thesis using w by (simp add: lex_at_def)
  next
    case False
    then have t: "in_src (tl ?p)" by (rule in_src_tl [OF w])
    have s: "in_src q" "byte_at q 0 = 34 \<Longrightarrow> in_src (tl q)" if "q = snd (lex_string 63 (tl ?p))" for q
      using in_src_lex_string [OF t, of 63] in_src_tl [of q] that by simp_all
    consider k where "punct ?c = Some k" | "punct ?c = None" "?c = 34" | "punct ?c = None" "?c \<noteq> 34" "is_digit8 ?c"
      | "punct ?c = None" "?c \<noteq> 34" "\<not> is_digit8 ?c"
      by fastforce
    then show ?thesis
      using False t s in_src_lex_number [OF w] in_src_lex_ident [OF w, of 63]
      by cases (simp_all add: lex_at_def Let_def split_beta)
  qed
qed

text \<open>A position reached from another: a later one, and still in the array when that ends well.\<close>

definition behind :: "bytes \<Rightarrow> bytes \<Rightarrow> bool" where
  "behind q p \<longleftrightarrow> suffix q p \<and> (in_src p \<longrightarrow> in_src q)"

lemma behind_refl [simp]: "behind p p"
  by (simp add: behind_def)

lemma behind_trans: "behind p q \<Longrightarrow> behind q r \<Longrightarrow> behind p r"
  using suffix_trans by (auto simp: behind_def)

lemma behind_lex_at: "behind (snd (lex_at p)) p"
  by (simp add: behind_def suffix_lex_at in_src_lex_at)

lemma behind_set: "behind p q \<Longrightarrow> set p \<subseteq> set q"
  by (simp add: behind_def set_mono_suffix)

lemma behind_length: "behind p q \<Longrightarrow> length p \<le> length q"
  by (simp add: behind_def length_suffix)

subsection \<open>What the operations keep\<close>

text \<open>The fields the lexer and the layout depend on.\<close>

lemma lex_peek_eq: "lex_peek s = fst (lex_at (lex_p s))"
  by (simp add: lex_peek_def lex_next_def split_beta)

lemma lex_drop_fields [fields]:
  "lex_p (lex_drop s) = snd (lex_at (lex_p s))" "out_pos (lex_drop s) = out_pos s" "cur_sec (lex_drop s) = cur_sec s"
  "text_out_start (lex_drop s) = text_out_start s"
  by (simp_all add: lex_drop_def lex_next_def split_beta)

lemma lex_next_eq [simp]: "lex_next s = (lex_peek s, lex_drop s)"
  by (simp add: lex_peek_def lex_drop_def)

lemma emit8_fields [fields]:
  "lex_p (emit8 b s) = lex_p s" "cur_sec (emit8 b s) = cur_sec s" "text_out_start (emit8 b s) = text_out_start s"
  "out_pos (emit8 b s) = (if out_pos s < of_nat ZAS_OUT_MAX then out_pos s + 1 else out_pos s)"
  by (simp_all add: emit8_def)

lemma add_fixup_fields [fields]:
  "lex_p (add_fixup f n b r s) = lex_p s" "out_pos (add_fixup f n b r s) = out_pos s"
  "cur_sec (add_fixup f n b r s) = cur_sec s" "text_out_start (add_fixup f n b r s) = text_out_start s"
  by (simp_all add: add_fixup_def)

lemma label_define_fields [fields]:
  "lex_p (label_define n a s) = lex_p s" "out_pos (label_define n a s) = out_pos s"
  "cur_sec (label_define n a s) = cur_sec s" "text_out_start (label_define n a s) = text_out_start s"
  by (simp_all add: label_define_def split: option.splits)

lemma update_fields [fields]:
  "lex_p (s\<lparr>zas_defs := d\<rparr>) = lex_p s" "lex_p (s\<lparr>cur_sec := c\<rparr>) = lex_p s" "lex_p (s\<lparr>text_size := v\<rparr>) = lex_p s"
  by simp_all

lemma emit32_lex_p [fields]: "lex_p (emit32 v s) = lex_p s"
  by (simp add: emit32_def fields)

lemma fold_emit8_lex_p [fields]: "lex_p (fold emit8 bs s) = lex_p s"
  by (induction bs arbitrary: s) (simp_all add: fields)

lemma repeat_emit8_lex_p [fields]: "lex_p ((emit8 b ^^ n) s) = lex_p s"
  by (induction n) (simp_all add: fields)

lemmas emitters = emit_modrm_rr_def emit_modrm_mem_def push_imm_def mov_imm_def arith_imm_def Let_def

lemma emitter_lex_p [fields]:
  "lex_p (emit_modrm_rr c r m s) = lex_p s" "lex_p (emit_modrm_mem c r m d h s) = lex_p s"
  "lex_p (push_imm v s) = lex_p s" "lex_p (mov_imm r v s) = lex_p s" "lex_p (arith_imm k r b v s) = lex_p s"
  by (simp_all add: emitters fields)

lemma mov_ident_lex_p [fields]: "lex_p (mov_ident pass r name s) = lex_p s"
  by (simp add: mov_ident_def Let_def fields split: option.splits)

lemma emit_rel_lex_p [fields]: "lex_p (emit_rel pass name a s) = lex_p s"
  by (simp add: emit_rel_def fields split: option.splits)

lemma do_label_lex_p [fields]: "lex_p (do_label pass t s) = lex_p s"
  by (simp add: do_label_def Let_def fields)

subsection \<open>Assembling returns on a source without a percent sign\<close>

definition tail :: "bytes \<Rightarrow> zas \<Rightarrow> bool" where
  "tail p s \<longleftrightarrow> behind (lex_p s) p"

definition returns :: "bytes \<Rightarrow> zas option \<Rightarrow> bool" where
  "returns p m \<longleftrightarrow> (\<exists>s. m = Some s \<and> tail p s)"

lemma tail_drop: "tail p s \<Longrightarrow> tail p (lex_drop s)"
  by (simp add: tail_def fields) (rule behind_trans [OF behind_lex_at])

lemma tail_cong: "lex_p t = lex_p s \<Longrightarrow> tail p t = tail p s"
  by (simp add: tail_def)

lemma tail_parse_expr: "tail p s \<Longrightarrow> tail p (snd (snd (snd (parse_expr s))))"
  by (simp add: parse_expr_def Let_def tail_drop split: option.splits)

lemma tail_mem_op: "tail p s \<Longrightarrow> tail p (snd (snd (snd (parse_mem_op s))))"
  by (simp add: parse_mem_op_def Let_def tail_drop)

lemma tail_no_percent: "37 \<notin> set p \<Longrightarrow> tail p s \<Longrightarrow> 37 \<notin> set (lex_p s)"
  using behind_set by (auto simp: tail_def)

lemma drop_shorter:
  assumes "37 \<notin> set p" and "tail p s" and "tkind (lex_peek s) \<noteq> TOK_EOF"
  shows "length (lex_p (lex_drop s)) < length (lex_p s)"
  using lex_at_shorter [OF _ tail_no_percent [OF assms(1,2)]] assms(3) by (simp add: fields lex_peek_eq)

lemma skip_line_returns: "37 \<notin> set p \<Longrightarrow> tail p s \<Longrightarrow> returns p (skip_line s)"
proof (induction s rule: measure_induct_rule [where f = "\<lambda>s. length (lex_p s)"])
  case (less s)
  then show ?case
    using drop_shorter [OF less.prems] by (subst skip_line.simps) (simp add: tail_drop returns_def [of p "Some s"])
qed

lemma skip_newlines_returns: "37 \<notin> set p \<Longrightarrow> tail p s \<Longrightarrow> returns p (skip_newlines s)"
proof (induction s rule: measure_induct_rule [where f = "\<lambda>s. length (lex_p s)"])
  case (less s)
  then show ?case
    using drop_shorter [OF less.prems] by (subst skip_newlines.simps) (simp add: tail_drop returns_def [of p "Some s"])
qed

lemma tail_fields [simp]:
  "tail p (emit8 b s) = tail p s" "tail p (emit32 v s) = tail p s" "tail p (fold emit8 bs s) = tail p s"
  "tail p ((emit8 b ^^ n) s) = tail p s" "tail p (add_fixup f nm a rl s) = tail p s"
  "tail p (emit_modrm_rr c r m s) = tail p s" "tail p (emit_modrm_mem c r m d h s) = tail p s"
  "tail p (push_imm v s) = tail p s" "tail p (mov_imm r v s) = tail p s" "tail p (arith_imm k r h v s) = tail p s"
  "tail p (mov_ident pass r nm s) = tail p s" "tail p (emit_rel pass bs ao s) = tail p s"
  "tail p (do_label pass t s) = tail p s" "tail p (s\<lparr>zas_defs := ds\<rparr>) = tail p s" "tail p (s\<lparr>cur_sec := sc\<rparr>) = tail p s"
  "tail p (s\<lparr>text_size := v\<rparr>) = tail p s" "tail p (s\<lparr>data_size := v\<rparr>) = tail p s" "tail p (s\<lparr>bss_size := v\<rparr>) = tail p s"
  by (simp_all add: tail_def fields)

lemma db_loop_returns: "37 \<notin> set p \<Longrightarrow> tail p s \<Longrightarrow> returns p (db_loop s)"
proof (induction s rule: measure_induct_rule [where f = "\<lambda>s. length (lex_p s)"])
  case (less s)
  let ?t = "lex_peek s"
  show ?case
  proof (cases "tkind ?t = TOK_NEWLINE \<or> tkind ?t = TOK_EOF")
    case True
    then show ?thesis using less.prems(2) by (subst db_loop.simps) (auto simp: Let_def returns_def)
  next
    case False
    define s1 where "s1 = (if tkind ?t = TOK_STRING then fold emit8 (chars (ttext ?t)) (lex_drop s)
                  else (case parse_expr s of (_, val, _, s2) \<Rightarrow> emit8 (ucast val) s2))"
    have t: "tail p s1" using less.prems(2) by (simp add: s1_def split_beta tail_drop tail_parse_expr)
    have "tail (lex_p s) s" by (simp add: tail_def)
    then have "tail (lex_p s) s1" by (simp add: s1_def split_beta tail_drop tail_parse_expr)
    then have "length (lex_p s1) \<le> length (lex_p s)" by (simp add: tail_def behind_length)
    moreover have "length (lex_p (lex_drop s1)) < length (lex_p s1)" if "tkind (lex_peek s1) = TOK_COMMA"
      using that by (intro drop_shorter [OF less.prems(1) t]) simp
    ultimately have "returns p (db_loop (lex_drop s1))" if "tkind (lex_peek s1) = TOK_COMMA"
      using that t less.prems(1) by (intro less.IH) (simp_all add: tail_drop)
    then show ?thesis
      using False t by (subst db_loop.simps) (auto simp: Let_def s1_def [symmetric] returns_def)
  qed
qed

lemmas handlers = do_define_def do_section_def do_times_def do_dw_def do_dd_def do_resb_def do_int_def do_push_def
  do_reg_op_def do_f7_def do_xchg_def do_mov_def do_lea_def do_arith_def do_branch_def

lemma returns_bind: "returns p m \<Longrightarrow> (\<And>s. tail p s \<Longrightarrow> returns p (f s)) \<Longrightarrow> returns p (m \<bind> f)"
  by (auto simp: returns_def)

lemma handlers_return:
  assumes "37 \<notin> set p" and "tail p s"
  shows "returns p (do_define pass s)" "returns p (do_section pass s)" "returns p (do_times s)" "returns p (do_dw s)"
    "returns p (do_dd pass s)" "returns p (do_resb s)" "returns p (do_int s)" "returns p (do_push s)"
    "returns p (do_reg_op b s)" "returns p (do_f7 n s)" "returns p (do_xchg s)" "returns p (do_mov pass s)"
    "returns p (do_lea s)" "returns p (do_arith c n s)" "returns p (do_branch pass bs ok s)"
  unfolding handlers Let_def lex_next_eq split_beta fst_conv snd_conv
  using assms(2)
  by (auto intro!: skip_line_returns [OF assms(1)] simp: tail_drop tail_parse_expr tail_mem_op split: zas_section.splits)

lemma do_instr_returns: "37 \<notin> set p \<Longrightarrow> tail p s \<Longrightarrow> returns p (do_instr pass t s)"
  unfolding do_instr_def by (auto intro!: skip_line_returns handlers_return split: option.splits)

lemma do_statement_returns: "37 \<notin> set p \<Longrightarrow> tail p s \<Longrightarrow> returns p (do_statement pass t s)"
  unfolding do_statement_def
  by (auto intro!: skip_line_returns handlers_return do_instr_returns returns_bind db_loop_returns)
    (simp add: returns_def tail_drop)

lemma assemble_line_returns:
  assumes "37 \<notin> set p" and "tail p s"
  shows "\<exists>more s'. assemble_line pass s = Some (more, s') \<and> tail p s' \<and> (more \<longrightarrow> length (lex_p s') < length (lex_p s))"
proof -
  have no: "37 \<notin> set (lex_p s)" by (rule tail_no_percent [OF assms])
  obtain s1 where s1: "skip_newlines s = Some s1" "tail (lex_p s) s1"
    using skip_newlines_returns [OF no, of s] by (auto simp: returns_def tail_def)
  then have p1: "tail p s1" using assms(2) behind_trans by (auto simp: tail_def)
  show ?thesis
  proof (cases "tkind (lex_peek s1) = TOK_EOF")
    case True
    with s1 p1 show ?thesis by (intro exI [of _ False] exI [of _ s1]) (simp add: assemble_line_def)
  next
    case False
    let ?q = "lex_p (lex_drop s1)"
    have lt: "length ?q < length (lex_p s1)" by (rule drop_shorter [OF assms(1) p1 False])
    have q: "behind ?q p" using tail_drop [OF p1] by (simp add: tail_def)
    then have "37 \<notin> set ?q" using assms(1) behind_set by blast
    from do_statement_returns [OF this, of "lex_drop s1" pass "lex_peek s1"] obtain s2
      where s2: "do_statement pass (lex_peek s1) (lex_drop s1) = Some s2" "behind (lex_p s2) ?q"
      by (auto simp: returns_def tail_def)
    have "length (lex_p s2) < length (lex_p s)"
      using lt behind_length [OF s2(2)] s1(2) behind_length by (fastforce simp: tail_def)
    moreover have "tail p s2" using s2(2) q behind_trans by (auto simp: tail_def)
    ultimately show ?thesis using s1 s2(1) False by (intro exI [of _ True] exI [of _ s2]) (simp add: assemble_line_def)
  qed
qed

lemma run_lines_returns: "37 \<notin> set p \<Longrightarrow> tail p s \<Longrightarrow> returns p (run_lines pass s)"
proof (induction s rule: measure_induct_rule [where f = "\<lambda>s. length (lex_p s)"])
  case (less s)
  show ?case
  proof (cases "byte_at (lex_p s) 0 = 0")
    case True
    with less.prems show ?thesis by (subst run_lines.simps) (simp add: returns_def)
  next
    case False
    obtain more s1 where a: "assemble_line pass s = Some (more, s1)" "tail p s1" "more \<longrightarrow> length (lex_p s1) < length (lex_p s)"
      using assemble_line_returns [OF less.prems] by blast
    then have "more \<Longrightarrow> returns p (run_lines pass s1)" using less.IH less.prems(1) by blast
    with a False show ?thesis by (subst run_lines.simps) (auto simp: returns_def)
  qed
qed

lemma last_pad: "length src < n \<Longrightarrow> last (src @ replicate (n - length src) 0) = (0 :: u8)"
  by (simp add: last_append last_replicate)

lemma in_src_pad:
  assumes "length src < n" and "length src = n - 1 \<longrightarrow> src = [] \<or> last src \<noteq> 92"
  shows "in_src (src @ replicate (n - length src) 0)"
proof -
  have "\<not> suffix [92, 0] (src @ replicate (n - length src) 0)"
  proof (cases "length src = n - 1")
    case True
    then have "replicate (n - length src) (0 :: u8) = [0]" using assms(1) by (cases n) simp_all
    then show ?thesis using assms(2) True by (cases src rule: rev_cases) (auto simp: suffix_def append_eq_append_conv2 Cons_eq_append_conv)
  next
    case False
    define m where "m = n - length src - 2"
    have "n - length src = Suc (Suc m)" using False assms(1) by (simp add: m_def)
    then have "src @ replicate (n - length src) 0 = (src @ replicate m 0) @ [0, 0 :: u8]"
      by (simp add: replicate_app_Cons_same)
    then show ?thesis by (auto simp: suffix_def append_eq_append_conv2 Cons_eq_append_conv)
  qed
  then show ?thesis using assms(1) last_pad [OF assms(1)] by (simp add: in_src_def)
qed

text \<open>C30: On every source without a percent sign, read into the 8192 zero bytes of zas_src, both passes return, and
  the lexer stays in the array; excepted is the text that fills the array up to its last byte and ends in a backslash,
  where a string left open at the end would step past the array.\<close>
theorem zas_passes_return:
  assumes "37 \<notin> set src" and "length src < ZAS_SRC_MAX"
    and "length src = ZAS_SRC_MAX - 1 \<longrightarrow> last src \<noteq> 92" and "a = src @ replicate (ZAS_SRC_MAX - length src) 0"
  shows "\<exists>s1 s2. run_pass 1 a s = Some s1 \<and> run_pass 2 a (s1\<lparr>zas_fixups := []\<rparr>) = Some s2
    \<and> suffix (lex_p s1) a \<and> lex_p s1 \<noteq> [] \<and> suffix (lex_p s2) a \<and> lex_p s2 \<noteq> []"
proof -
  have "in_src a" unfolding assms(4) by (rule in_src_pad) (use assms in auto)
  have "37 \<notin> set a" using assms(1,4) by simp
  have "\<exists>t. run_pass pass a s = Some t \<and> suffix (lex_p t) a \<and> lex_p t \<noteq> []" for pass s
  proof -
    have "tail a (start_pass pass a s)" by (simp add: tail_def start_pass_def)
    from run_lines_returns [OF \<open>37 \<notin> set a\<close> this, of pass] obtain t
      where "run_lines pass (start_pass pass a s) = Some t" "behind (lex_p t) a" by (auto simp: returns_def tail_def)
    then show ?thesis using \<open>in_src a\<close> by (simp add: run_pass_def behind_def in_src_def end_pass_def split: zas_section.splits)
  qed
  then show ?thesis by blast
qed

lemma zas_passes_return_witness:
  "\<exists>s1 s2. run_pass 1 (lit ''mov eax, 1'' @ replicate (ZAS_SRC_MAX - length (lit ''mov eax, 1'')) 0) zas_blank = Some s1
    \<and> run_pass 2 (lit ''mov eax, 1'' @ replicate (ZAS_SRC_MAX - length (lit ''mov eax, 1'')) 0) (s1\<lparr>zas_fixups := []\<rparr>) = Some s2"
  using zas_passes_return [of "lit ''mov eax, 1''" _ zas_blank] by (fastforce simp: ZAS_SRC_MAX_def)

subsection \<open>A percent sign hangs the assembler\<close>

lemma lex_at_percent:
  assumes "byte_at (lex_skip_ws p) 0 = 37"
  shows "lex_at p = (\<lparr>tkind = TOK_IDENT, ttext = [], tnum = 0\<rparr>, lex_skip_ws p)"
proof -
  have "lex_ident 63 (lex_skip_ws p) = lex_ident (Suc 62) (lex_skip_ws p)" by simp
  also have "\<dots> = ([], lex_skip_ws p)" unfolding lex_ident.simps assms by (simp add: ident_char_def is_alpha8_def is_digit8_def)
  finally show ?thesis using assms by (simp add: lex_at_def punct_def is_digit8_def Let_def)
qed

lemma skip_ws_percent: "byte_at (lex_skip_ws p) 0 = 37 \<Longrightarrow> lex_skip_ws (lex_skip_ws p) = lex_skip_ws p"
  by (cases "lex_skip_ws p") (simp_all add: lex_skip_ws_def)

lemma skip_line_percent:
  assumes "byte_at (lex_skip_ws (lex_p s)) 0 = 37"
  shows "skip_line s = None"
proof -
  have "byte_at (lex_skip_ws (lex_p s)) 0 \<noteq> 37" if "skip_line s = Some t" for t
  proof (rule skip_line.raw_induct [OF _ that, where P = "\<lambda>s t. byte_at (lex_skip_ws (lex_p s)) 0 \<noteq> 37"])
    fix rec :: "zas \<Rightarrow> zas option" and s t
    assume IH: "\<And>s t. rec s = Some t \<Longrightarrow> byte_at (lex_skip_ws (lex_p s)) 0 \<noteq> 37"
      and eq: "(if tkind (lex_peek s) = TOK_NEWLINE \<or> tkind (lex_peek s) = TOK_EOF then Some s else rec (lex_drop s)) = Some t"
    show "byte_at (lex_skip_ws (lex_p s)) 0 \<noteq> 37"
    proof
      assume c: "byte_at (lex_skip_ws (lex_p s)) 0 = 37"
      from lex_at_percent [OF this] eq have "rec (lex_drop s) = Some t" by (simp add: lex_peek_eq)
      from IH [OF this] show False using lex_at_percent [OF c] skip_ws_percent [OF c] c by (simp add: fields)
    qed
  qed
  then show ?thesis using assms by (cases "skip_line s") auto
qed

text \<open>A percent sign where a token starts stops the assembler for good: skipping the behind of a line that
  reaches it never returns, and neither does a pass over a line that starts with it, such as a %define.\<close>
theorem zas_percent_hangs:
  assumes "byte_at (lex_skip_ws (lex_p s)) 0 = 37"
  shows "skip_line s = None \<and> run_lines pass s = None"
proof -
  note l = lex_at_percent [OF assms]
  have p: "byte_at (lex_p s) 0 \<noteq> 0"
    using assms suffix_skip_ws [of "lex_p s"] by (cases "lex_p s") (auto simp: lex_skip_ws_def)
  have t: "lex_peek s = \<lparr>tkind = TOK_IDENT, ttext = [], tnum = 0\<rparr>" "lex_p (lex_drop s) = lex_skip_ws (lex_p s)"
    using l by (simp_all add: lex_peek_eq fields)
  have s1: "byte_at (lex_skip_ws (lex_p (lex_drop s))) 0 = 37" using t skip_ws_percent [OF assms] assms by simp
  then have k: "tkind (lex_peek (lex_drop s)) = TOK_IDENT" using lex_at_percent by (simp add: lex_peek_eq)
  have z: "tolower 0 = tolower (uint c) \<longleftrightarrow> c = 0" for c :: u8
    using lower8_0_iff(2) [of c] by (simp add: lower8_def tolower_def)
  have w: "\<not> is_word (lex_peek s) v" if "byte_at (lit v) 0 \<noteq> 0" for v
    using that by (simp add: is_word_def t z)
  then have none: "op_find tbl (lex_peek s) = None" if "\<forall>e \<in> set tbl. byte_at (lit (fst e)) 0 \<noteq> 0" for tbl :: "(string \<times> 'a) list"
    using that by (auto simp: op_find_def find_None_iff)
  have "op_find simple_ops (lex_peek s) = None" "op_find jcc_ops (lex_peek s) = None"
    by (rule none, simp add: simple_ops_def jcc_ops_def)+
  moreover have "op_find reg_ops (lex_peek s) = None" "op_find f7_ops (lex_peek s) = None"
    by (rule none, simp add: reg_ops_def f7_ops_def)+
  moreover have "op_find arith_ops (lex_peek s) = None" "op_find branch_ops (lex_peek s) = None"
    by (rule none, simp add: arith_ops_def branch_ops_def)+
  moreover have "strcmp (ttext (lex_peek s)) (lit ''%define'') \<noteq> 0" by (simp add: t)
  ultimately have "do_statement pass (lex_peek s) (lex_drop s) = skip_line (lex_drop s)"
    by (simp add: do_statement_def do_instr_def k w)
  then have "assemble_line pass s = None"
    using skip_line_percent [OF s1] t by (simp add: assemble_line_def skip_newlines.simps)
  then show ?thesis using skip_line_percent [OF assms] p by (simp add: run_lines.simps)
qed

lemma zas_percent_hangs_witness:
  "run_lines 1 (start_pass 1 (lit ''%define SIZE 5'') zas_blank) = None"
  using zas_percent_hangs [of "start_pass 1 (lit ''%define SIZE 5'') zas_blank" 1] by (simp add: start_pass_def lex_skip_ws_def)

end
