(* ===== verification/ZasLayout.thy ===== *)
theory ZasLayout
  imports ZasFacts
begin

text \<open>
  The layout of the assembler's output, shell/zas.c: both passes put every statement at the same offset,
  so the addresses of the labels in .text are right; what the memory operands decode to; what the fixups
  store; and where the addresses of the other labels and the sizes in the file go wrong.
\<close>

subsection \<open>Both passes place every statement at the same offset\<close>

text \<open>No count of a times or resb directive anywhere in the tokens of a source is an identifier, whose
  value the passes may see differently.\<close>

coinductive fixed_counts :: "bytes \<Rightarrow> bool" where
  "\<lbrakk>is_word (fst (lex_at p)) ''times'' \<or> is_word (fst (lex_at p)) ''resb'' \<Longrightarrow> tkind (fst (lex_at (snd (lex_at p)))) \<noteq> TOK_IDENT;
    fixed_counts (snd (lex_at p))\<rbrakk> \<Longrightarrow> fixed_counts p"

definition agree :: "zas \<Rightarrow> zas \<Rightarrow> bool" where
  "agree s t \<longleftrightarrow> lex_p t = lex_p s \<and> out_pos t = out_pos s \<and> cur_sec t = cur_sec s
     \<and> text_out_start t = text_out_start s \<and> fixed_counts (lex_p s)"

text \<open>The second computation returns whenever the first does, in an agreeing state.\<close>

definition follows :: "zas option \<Rightarrow> zas option \<Rightarrow> bool" where
  "follows m n \<longleftrightarrow> (\<forall>s. m = Some s \<longrightarrow> (\<exists>t. n = Some t \<and> agree s t))"

lemma follows_Some [simp]: "follows (Some s) (Some t) = agree s t"
  by (simp add: follows_def)

named_theorems agreeing \<open>operations that keep two states in agreement\<close>

lemma agree_peek: "agree s t \<Longrightarrow> lex_peek t = lex_peek s"
  by (simp add: agree_def lex_peek_eq)

lemma agree_drop [agreeing]: "agree s t \<Longrightarrow> agree (lex_drop s) (lex_drop t)"
  by (auto simp: agree_def fields elim: fixed_counts.cases)

lemma agree_emit8 [agreeing]: "agree s t \<Longrightarrow> agree (emit8 b s) (emit8 c t)"
  by (simp add: agree_def fields)

lemma agree_emit32 [agreeing]: "agree s t \<Longrightarrow> agree (emit32 v s) (emit32 w t)"
  unfolding emit32_def by (intro agreeing)

lemma agree_fixup [simp]: "agree s (add_fixup f n b r t) = agree s t" "agree (add_fixup f n b r s) t = agree s t"
  by (simp_all add: agree_def fields)

lemma agree_updates [simp]:
  "agree (s\<lparr>zas_defs := d\<rparr>) t = agree s t" "agree s (t\<lparr>zas_defs := d\<rparr>) = agree s t"
  "agree (s\<lparr>text_size := v\<rparr>) t = agree s t" "agree s (t\<lparr>text_size := v\<rparr>) = agree s t"
  "agree (s\<lparr>data_size := v\<rparr>) t = agree s t" "agree s (t\<lparr>data_size := v\<rparr>) = agree s t"
  "agree (s\<lparr>bss_size := v\<rparr>) t = agree s t" "agree s (t\<lparr>bss_size := v\<rparr>) = agree s t"
  "agree (s\<lparr>zas_entry := v, zas_entry_set := b\<rparr>) t = agree s t"
  by (simp_all add: agree_def)

lemma agree_section [agreeing]: "agree s t \<Longrightarrow> agree (s\<lparr>cur_sec := c\<rparr>) (t\<lparr>cur_sec := c\<rparr>)"
  by (simp add: agree_def)

lemma agree_label_define [simp]: "agree (label_define n a s) t = agree s t"
  by (simp add: agree_def fields)

lemma agree_fold [agreeing]: "agree s t \<Longrightarrow> agree (fold emit8 bs s) (fold emit8 bs t)"
  by (induction bs arbitrary: s t) (simp_all add: agree_emit8)

lemma agree_repeat: "agree s t \<Longrightarrow> agree ((emit8 b ^^ n) s) ((emit8 c ^^ n) t)"
  by (induction n) (simp_all add: agree_emit8)

lemma agree_modrm [agreeing]:
  "agree s t \<Longrightarrow> agree (emit_modrm_rr c r m s) (emit_modrm_rr c r m t)"
  "agree s t \<Longrightarrow> agree (emit_modrm_mem c r m d h s) (emit_modrm_mem c r m d h t)"
  "agree s t \<Longrightarrow> agree (push_imm v s) (push_imm w t)"
  "agree s t \<Longrightarrow> agree (mov_imm r v s) (mov_imm r w t)"
  "agree s t \<Longrightarrow> agree (arith_imm n r b v s) (arith_imm n r b v t)"
  by (simp_all add: emitters agreeing)

lemma agree_mov_ident [agreeing]: "agree s t \<Longrightarrow> agree (mov_ident 1 r n s) (mov_ident 2 r n t)"
  by (simp add: mov_ident_def Let_def agreeing split: option.splits)

lemma agree_rel [agreeing]: "agree s t \<Longrightarrow> agree (emit_rel 1 n a s) (emit_rel 2 n b t)"
  by (simp add: emit_rel_def agreeing split: option.splits)

lemmas agree_pass_one [agreeing] = agree_mov_ident [unfolded One_nat_def] agree_rel [unfolded One_nat_def]

text \<open>An expression: the same tokens are read, and the same value unless it is an identifier.\<close>

lemma agree_parse_expr:
  assumes "agree s t"
  shows "agree (snd (snd (snd (parse_expr s)))) (snd (snd (snd (parse_expr t))))"
    and "tkind (lex_peek s) \<noteq> TOK_IDENT \<Longrightarrow> fst (snd (parse_expr t)) = fst (snd (parse_expr s))"
  using assms agree_drop [OF assms] agree_drop [OF agree_drop [OF assms]]
  by (simp_all add: parse_expr_def Let_def agree_peek split: option.splits)

lemma agree_mem_op:
  assumes "agree s t"
  shows "agree (snd (snd (snd (parse_mem_op s)))) (snd (snd (snd (parse_mem_op t))))"
    and "fst (parse_mem_op t) = fst (parse_mem_op s)" and "fst (snd (parse_mem_op t)) = fst (snd (parse_mem_op s))"
    and "fst (snd (snd (parse_mem_op t))) = fst (snd (snd (parse_mem_op s)))"
proof -
  note d = assms agree_drop [OF assms] agree_drop [OF agree_drop [OF assms]]
    agree_drop [OF agree_drop [OF agree_drop [OF assms]]]
  show "agree (snd (snd (snd (parse_mem_op s)))) (snd (snd (snd (parse_mem_op t))))"
    using d agree_drop [OF d(4)] by (simp add: parse_mem_op_def Let_def agree_peek)
  show "fst (parse_mem_op t) = fst (parse_mem_op s)" "fst (snd (parse_mem_op t)) = fst (snd (parse_mem_op s))"
    "fst (snd (snd (parse_mem_op t))) = fst (snd (snd (parse_mem_op s)))"
    using d by (simp_all add: parse_mem_op_def Let_def agree_peek)
qed

lemma follows_skip [agreeing]:
  assumes "agree s t"
  shows "follows (skip_line s) (skip_line t)"
proof -
  let ?P = "\<lambda>s s'. \<forall>t. agree s t \<longrightarrow> (\<exists>t'. skip_line t = Some t' \<and> agree s' t')"
  have "?P s s'" if "skip_line s = Some s'" for s'
  proof (rule skip_line.raw_induct [where P = ?P, OF _ that], intro allI impI)
    fix rec :: "zas \<Rightarrow> zas option" and s s' t
    assume IH: "\<And>s s'. rec s = Some s' \<Longrightarrow> ?P s s'" and a: "agree s t"
      and eq: "(if tkind (lex_peek s) = TOK_NEWLINE \<or> tkind (lex_peek s) = TOK_EOF then Some s else rec (lex_drop s)) = Some s'"
    show "\<exists>t'. skip_line t = Some t' \<and> agree s' t'"
      using eq a IH [rule_format, OF _ agree_drop [OF a]] by (subst skip_line.simps) (auto simp: agree_peek split: if_splits)
  qed
  then show ?thesis using assms by (auto simp: follows_def)
qed

lemma follows_newlines [agreeing]:
  assumes "agree s t"
  shows "follows (skip_newlines s) (skip_newlines t)"
proof -
  let ?P = "\<lambda>s s'. \<forall>t. agree s t \<longrightarrow> (\<exists>t'. skip_newlines t = Some t' \<and> agree s' t')"
  have "?P s s'" if "skip_newlines s = Some s'" for s'
  proof (rule skip_newlines.raw_induct [where P = ?P, OF _ that], intro allI impI)
    fix rec :: "zas \<Rightarrow> zas option" and s s' t
    assume IH: "\<And>s s'. rec s = Some s' \<Longrightarrow> ?P s s'" and a: "agree s t"
      and eq: "(if tkind (lex_peek s) = TOK_NEWLINE then rec (lex_drop s) else Some s) = Some s'"
    show "\<exists>t'. skip_newlines t = Some t' \<and> agree s' t'"
      using eq a IH [rule_format, OF _ agree_drop [OF a]] by (subst skip_newlines.simps) (auto simp: agree_peek split: if_splits)
  qed
  then show ?thesis using assms by (auto simp: follows_def)
qed

text \<open>One item of a db line.\<close>

definition db_item :: "zas \<Rightarrow> zas" where
  "db_item s =
     (if tkind (lex_peek s) = TOK_STRING then fold emit8 (chars (ttext (lex_peek s))) (lex_drop s)
      else emit8 (ucast (fst (snd (parse_expr s)))) (snd (snd (snd (parse_expr s)))))"

lemma db_loop_item:
  "db_loop s =
     (if tkind (lex_peek s) = TOK_NEWLINE \<or> tkind (lex_peek s) = TOK_EOF then Some s
      else if tkind (lex_peek (db_item s)) = TOK_COMMA then db_loop (lex_drop (db_item s)) else Some (db_item s))"
  by (subst db_loop.simps) (simp add: Let_def db_item_def split_beta)

lemma agree_item: "agree s t \<Longrightarrow> agree (db_item s) (db_item t)"
  by (simp add: db_item_def agree_peek agreeing agree_parse_expr)

lemma follows_db [agreeing]:
  assumes "agree s t"
  shows "follows (db_loop s) (db_loop t)"
proof -
  let ?P = "\<lambda>s s'. \<forall>t. agree s t \<longrightarrow> (\<exists>t'. db_loop t = Some t' \<and> agree s' t')"
  have "?P s s'" if "db_loop s = Some s'" for s'
  proof (rule db_loop.raw_induct [where P = ?P, OF _ that], intro allI impI)
    fix rec :: "zas \<Rightarrow> zas option" and s s' t
    assume IH: "\<And>s s'. rec s = Some s' \<Longrightarrow> ?P s s'" and a: "agree s t"
      and eq: "(let t = lex_peek s
         in if tkind t = TOK_NEWLINE \<or> tkind t = TOK_EOF then Some s
            else let s1 = (if tkind t = TOK_STRING then fold emit8 (chars (ttext t)) (lex_drop s)
                       else (case parse_expr s of (_, val, _, s2) \<Rightarrow> emit8 (ucast val) s2))
                 in if tkind (lex_peek s1) = TOK_COMMA then rec (lex_drop s1) else Some s1) = Some s'"
    have eq': "(if tkind (lex_peek s) = TOK_NEWLINE \<or> tkind (lex_peek s) = TOK_EOF then Some s
        else if tkind (lex_peek (db_item s)) = TOK_COMMA then rec (lex_drop (db_item s)) else Some (db_item s)) = Some s'"
      using eq unfolding Let_def db_item_def split_beta .
    show "\<exists>t'. db_loop t = Some t' \<and> agree s' t'"
      using eq' a agree_item [OF a] IH [rule_format, OF _ agree_drop [OF agree_item [OF a]]]
      by (subst db_loop_item) (auto simp: agree_peek split: if_splits)
  qed
  then show ?thesis using assms by (auto simp: follows_def)
qed

lemma follows_bind [agreeing]: "follows m n \<Longrightarrow> (\<And>s t. agree s t \<Longrightarrow> follows (f s) (g t)) \<Longrightarrow> follows (m \<bind> f) (n \<bind> g)"
  by (cases m; cases n) (auto simp: follows_def)

text \<open>The statements, the counted directives first.\<close>

lemma follows_counted:
  assumes a: "agree s t" and n: "tkind (lex_peek s) \<noteq> TOK_IDENT"
  shows "follows (do_times s) (do_times t)" and "follows (do_resb s) (do_resb t)"
proof -
  note e = agree_parse_expr [OF a]
  have v: "fst (snd (parse_expr t)) = fst (snd (parse_expr s))" by (rule e(2) [OF n])
  note d = agree_drop [OF e(1)]
  show "follows (do_times s) (do_times t)"
    unfolding do_times_def split_beta lex_next_eq fst_conv snd_conv agree_peek [OF e(1)] v
    by (auto intro!: follows_skip agree_repeat agree_parse_expr(1) d)
  have "cur_sec (snd (snd (snd (parse_expr t)))) = cur_sec (snd (snd (snd (parse_expr s))))"
    using e(1) by (simp add: agree_def)
  then show "follows (do_resb s) (do_resb t)"
    unfolding do_resb_def split_beta fst_conv snd_conv v using e(1) by (auto intro!: follows_skip agree_repeat)
qed

lemma follows_handlers [agreeing]:
  assumes a: "agree s t"
  shows "follows (do_define 1 s) (do_define 2 t)" "follows (do_section 1 s) (do_section 2 t)" "follows (do_dw s) (do_dw t)"
    "follows (do_dd 1 s) (do_dd 2 t)" "follows (do_int s) (do_int t)" "follows (do_push s) (do_push t)"
    "follows (do_reg_op b s) (do_reg_op b t)" "follows (do_f7 n s) (do_f7 n t)" "follows (do_xchg s) (do_xchg t)"
    "follows (do_mov 1 s) (do_mov 2 t)" "follows (do_lea s) (do_lea t)" "follows (do_arith c n s) (do_arith c n t)"
    "follows (do_branch 1 bs ok s) (do_branch 2 bs ok t)"
proof -
  note d1 = agree_drop [OF a]
  note d2 = agree_drop [OF d1]
  note d3 = agree_drop [OF d2]
  note d4 = agree_drop [OF d3]
  note d = a d1 d2 d3 d4
  note p = d [THEN agree_peek]
  note m = agree_mem_op [OF d2] agree_mem_op [OF d3]
  note go = follows_skip agreeing agree_parse_expr(1) d m(1,5)
  show "follows (do_define 1 s) (do_define 2 t)"
    unfolding do_define_def split_beta lex_next_eq fst_conv snd_conv p by (auto intro!: go)
  show "follows (do_section 1 s) (do_section 2 t)"
    unfolding do_section_def split_beta lex_next_eq fst_conv snd_conv p
    by (auto intro!: go split: zas_section.splits)
  show "follows (do_dw s) (do_dw t)" unfolding do_dw_def split_beta by (intro go)
  show "follows (do_dd 1 s) (do_dd 2 t)" unfolding do_dd_def split_beta by (auto intro!: go)
  show "follows (do_int s) (do_int t)" unfolding do_int_def split_beta lex_next_eq fst_conv snd_conv p by (intro go)
  show "follows (do_push s) (do_push t)"
    unfolding do_push_def Let_def split_beta lex_next_eq fst_conv snd_conv p by (auto intro!: go)
  show "follows (do_reg_op b s) (do_reg_op b t)"
    unfolding do_reg_op_def Let_def split_beta lex_next_eq fst_conv snd_conv p by (auto intro!: go)
  show "follows (do_f7 n s) (do_f7 n t)"
    unfolding do_f7_def Let_def split_beta lex_next_eq fst_conv snd_conv p by (auto intro!: go)
  show "follows (do_xchg s) (do_xchg t)"
    unfolding do_xchg_def Let_def split_beta lex_next_eq fst_conv snd_conv p by (auto intro!: go)
  show "follows (do_arith c n s) (do_arith c n t)"
    unfolding do_arith_def Let_def split_beta lex_next_eq fst_conv snd_conv p by (auto intro!: go)
  show "follows (do_branch 1 bs ok s) (do_branch 2 bs ok t)"
    unfolding do_branch_def Let_def split_beta lex_next_eq fst_conv snd_conv p by (auto intro!: go)
  show "follows (do_lea s) (do_lea t)"
    unfolding do_lea_def Let_def split_beta lex_next_eq fst_conv snd_conv p m(6-8) by (auto intro!: go)
  show "follows (do_mov 1 s) (do_mov 2 t)"
    unfolding do_mov_def Let_def split_beta lex_next_eq fst_conv snd_conv p m(2-4) m(6-8) agree_peek [OF m(1)] by (auto intro!: go)
qed

lemma follows_instr [agreeing]: "agree s t \<Longrightarrow> follows (do_instr 1 tk s) (do_instr 2 tk t)"
  unfolding do_instr_def
  by (auto intro!: follows_skip agree_emit8 follows_handlers [unfolded One_nat_def] split: option.splits)

lemma agree_label [agreeing]: "agree s t \<Longrightarrow> agree (do_label 1 tk s) (do_label 2 tk t)"
  by (simp add: do_label_def Let_def)

lemma follows_statement:
  assumes a: "agree s t"
  shows "follows (do_statement 1 (lex_peek s) (lex_drop s)) (do_statement 2 (lex_peek s) (lex_drop t))"
proof -
  let ?t = "lex_peek s"
  note d = agree_drop [OF a]
  have n: "is_word ?t ''times'' \<or> is_word ?t ''resb'' \<Longrightarrow> tkind (lex_peek (lex_drop s)) \<noteq> TOK_IDENT"
    using a by (auto simp: agree_def lex_peek_eq fields elim: fixed_counts.cases)
  show ?thesis
    unfolding do_statement_def agree_peek [OF d]
    using n by (auto intro!: agreeing follows_counted d simp del: One_nat_def)
qed

lemma assemble_line_follows:
  assumes "agree s t" and "assemble_line 1 s = Some (b, s')"
  shows "\<exists>t'. assemble_line 2 t = Some (b, t') \<and> agree s' t'"
proof -
  obtain s1 where s1: "skip_newlines s = Some s1" using assms(2) by (cases "skip_newlines s") (auto simp: assemble_line_def)
  then obtain t1 where t1: "skip_newlines t = Some t1" "agree s1 t1"
    using follows_newlines [OF assms(1)] by (auto simp: follows_def)
  then show ?thesis
    using assms(2) s1 follows_statement [OF t1(2)]
    by (auto simp: assemble_line_def agree_peek follows_def split: if_splits)
qed

text \<open>The state after n lines of a pass, none of them the last.\<close>

primrec after_lines :: "nat \<Rightarrow> nat \<Rightarrow> zas \<Rightarrow> zas option" where
  "after_lines 0 pass s = Some s"
| "after_lines (Suc n) pass s =
     assemble_line pass s \<bind> (\<lambda>(more, s1). if more then after_lines n pass s1 else None)"

lemma after_lines_follows: "agree s t \<Longrightarrow> after_lines n 1 s = Some s' \<Longrightarrow> \<exists>t'. after_lines n 2 t = Some t' \<and> agree s' t'"
proof (induction n arbitrary: s t)
  case (Suc n)
  obtain s1 where s1: "assemble_line 1 s = Some (True, s1)" "after_lines n 1 s1 = Some s'"
    using Suc.prems(2) by (auto split: Option.bind_splits if_splits)
  from assemble_line_follows [OF Suc.prems(1) s1(1)] obtain t1 where "assemble_line 2 t = Some (True, t1)" "agree s1 t1" by blast
  with Suc.IH s1(2) show ?case by simp
qed simp

text \<open>C3: The passes agree on the layout: when the counts of the times and resb directives are not identifiers,
  then after every line of the first pass the second pass, from whatever state, has read the same text, is at
  the same output offset and in the same section, and in .text the address a label gets is the address of the
  next byte the second pass writes.\<close>
theorem zas_passes_agree:
  assumes "fixed_counts src" and "after_lines n 1 (start_pass 1 src s) = Some u"
  shows "\<exists>v. after_lines n 2 (start_pass 2 src t) = Some v \<and> lex_p v = lex_p u \<and> out_pos v = out_pos u \<and> cur_sec v = cur_sec u
    \<and> (cur_sec u = SEC_TEXT \<longrightarrow> cur_vma v = cur_vma u)"
proof -
  have "agree (start_pass 1 src s) (start_pass 2 src t)" using assms(1) by (simp add: agree_def start_pass_def)
  from after_lines_follows [OF this assms(2)] show ?thesis by (auto simp: agree_def cur_vma_def)
qed

end
