(* ===== verification/ZasCode.thy ===== *)
theory ZasCode
  imports ZasLayout
begin

text \<open>
  The bytes the assembler of shell/zas.c stores: a run of bytes is written at the output position, and a
  memory operand is compared with a decoder of the i386 ModRM byte. Then the addresses of labels outside
  .text, the size of .bss and the stores to memory, which the code gets wrong.
\<close>

subsection \<open>Runs of bytes\<close>

text \<open>There is room for n more bytes.\<close>

definition room :: "nat \<Rightarrow> zas \<Rightarrow> bool" where
  "room n s \<longleftrightarrow> length (zas_out s) = ZAS_OUT_MAX \<and> unat (out_pos s) + n \<le> ZAS_OUT_MAX"

lemma fold_emit8:
  "room (length bs) s \<Longrightarrow>
   fold emit8 bs s = s\<lparr>zas_out := blit (zas_out s) (unat (out_pos s)) bs, out_pos := out_pos s + of_nat (length bs)\<rparr>"
proof (induction bs arbitrary: s)
  case (Cons b bs)
  have r: "length (zas_out s) = 16384" "unat (out_pos s) + Suc (length bs) \<le> 16384"
    using Cons.prems by (simp_all add: room_def ZAS_OUT_MAX_def)
  then have lt: "out_pos s < of_nat ZAS_OUT_MAX" by (simp add: ZAS_OUT_MAX_def word_less_nat_alt)
  have u: "unat (out_pos s + 1) = Suc (unat (out_pos s))"
    using r(2) by (simp add: unat_word_ariths)
  have "room (length bs) (emit8 b s)" using r lt u by (simp add: room_def emit8_def ZAS_OUT_MAX_def)
  from Cons.IH [OF this] show ?case using lt u by (simp add: emit8_def)
qed simp

lemma emit32_fold: "emit32 v s = fold emit8 (le32 v) s"
  by (simp add: emit32_def le32_def)

subsection \<open>Memory operands\<close>

text \<open>What a processor in 32-bit mode reads after an opcode with a ModRM byte: the register field, the
  operand, the rest of the code. A SIB byte follows when the operand is Indexed.\<close>

datatype operand = Register nat | Based nat u32 | Absolute u32 | Indexed

definition decode_modrm :: "bytes \<Rightarrow> nat \<times> operand \<times> bytes" where
  "decode_modrm p =
     (let m = hd p; md = unat (drop_bit 6 m); reg = unat (drop_bit 3 m AND 7); rm = unat (m AND 7); q = tl p
      in if md = 3 then (reg, Register rm, q)
         else if rm = 4 then (reg, Indexed, q)
         else if md = 0 then (if rm = 5 then (reg, Absolute (of_le32 q 0), drop 4 q) else (reg, Based rm 0, q))
         else if md = 1 then (reg, Based rm (scast (hd q)), tl q)
         else (reg, Based rm (of_le32 q 0), drop 4 q))"

text \<open>The bytes of emit_modrm_mem after the opcode.\<close>

definition mem_code :: "nat \<Rightarrow> nat \<Rightarrow> int \<Rightarrow> bool \<Rightarrow> bytes" where
  "mem_code reg base disp has_disp =
     (if \<not> has_disp then modrm 0 (int reg) (int base) # (if base = 5 then [0] else [])
      else if -128 \<le> disp \<and> disp \<le> 127 then [modrm 1 (int reg) (int base), of_int disp]
      else modrm 2 (int reg) (int base) # le32 (of_int disp))"

lemma emit_modrm_mem_fold:
  "emit_modrm_mem opcode (int reg) (int base) disp has_disp s = fold emit8 (opcode # mem_code reg base disp has_disp) s"
  by (simp add: emit_modrm_mem_def mem_code_def Let_def emit32_fold)

lemma modrm_table:
  "list_all (\<lambda>md. list_all (\<lambda>r. list_all (\<lambda>b. drop_bit 6 (modrm md r b) = of_int md
     \<and> drop_bit 3 (modrm md r b) AND 7 = of_int r \<and> modrm md r b AND 7 = of_int b) [0..7]) [0..7]) [0..3]"
  by (simp add: upto_rec1 modrm_def)

lemma modrm_fields:
  assumes "md < 4" and "r < 8" and "b < 8"
  shows "unat (drop_bit 6 (modrm (int md) (int r) (int b))) = md" and "unat (drop_bit 3 (modrm (int md) (int r) (int b)) AND 7) = r"
    and "unat (modrm (int md) (int r) (int b) AND 7) = b"
proof -
  have "int md \<in> set [0..3]" "int r \<in> set [0..7]" "int b \<in> set [0..7]" using assms by simp_all
  with modrm_table have "drop_bit 6 (modrm (int md) (int r) (int b)) = of_nat md"
      "drop_bit 3 (modrm (int md) (int r) (int b)) AND 7 = of_nat r" "modrm (int md) (int r) (int b) AND 7 = of_nat b"
    unfolding list_all_iff by (metis of_int_of_nat_eq)+
  with assms show "unat (drop_bit 6 (modrm (int md) (int r) (int b))) = md"
    "unat (drop_bit 3 (modrm (int md) (int r) (int b)) AND 7) = r" "unat (modrm (int md) (int r) (int b) AND 7) = b"
    by (simp_all add: unat_of_nat take_bit_nat_eq_self)
qed

lemma of_le32_le32 [simp]: "of_le32 (le32 v @ q) 0 = v"
  by (simp add: of_le32_def le32_def le32_split)

lemma le32_drop: "drop 4 (le32 v @ q) = q"
  by (simp add: le32_def)

lemma scast_small: "-128 \<le> d \<Longrightarrow> d \<le> 127 \<Longrightarrow> scast (of_int d :: u8) = (of_int d :: u32)"
  by (simp add: signed_of_int signed_take_bit_int_eq_self)

lemma mem_code_length: "length (mem_code reg base disp has_disp) \<le> 5"
  by (simp add: mem_code_def)

text \<open>C32: A memory operand is stored as bytes a processor decodes to the register, the base and the
  displacement it was given, for every base but esp, and for ebp only with a displacement.\<close>
theorem zas_mem_operand:
  assumes "reg < 8" and "base < 8" and "base \<noteq> 4" and "base = 5 \<longrightarrow> has_disp" and "room 6 s"
  shows "\<exists>code. zas_out (emit_modrm_mem opcode (int reg) (int base) disp has_disp s)
      = blit (zas_out s) (unat (out_pos s)) (opcode # code)
    \<and> out_pos (emit_modrm_mem opcode (int reg) (int base) disp has_disp s) = out_pos s + of_nat (Suc (length code))
    \<and> (\<forall>rest. decode_modrm (code @ rest) = (reg, Based base (if has_disp then of_int disp else 0), rest))"
proof -
  let ?code = "mem_code reg base disp has_disp"
  have "room (length (opcode # ?code)) s" using assms(5) mem_code_length [of reg base disp has_disp] by (simp add: room_def)
  note e = fold_emit8 [OF this]
  note f = assms(1-4) modrm_fields [OF _ assms(1,2)]
  have "decode_modrm (?code @ rest) = (reg, Based base (if has_disp then of_int disp else 0), rest)" for rest
  proof (cases has_disp)
    case False
    then show ?thesis using f(1-4) f(5-7) [of 0] by (simp add: mem_code_def decode_modrm_def Let_def)
  next
    case True
    show ?thesis
    proof (cases "-128 \<le> disp \<and> disp \<le> 127")
      case small: True
      then show ?thesis using True f(1-4) f(5-7) [of 1] by (simp add: mem_code_def decode_modrm_def Let_def scast_small)
    next
      case False
      then have "?code = modrm 2 (int reg) (int base) # le32 (of_int disp)" using True by (auto simp: mem_code_def)
      then show ?thesis using True f(1-4) f(5-7) [of 2] by (simp add: decode_modrm_def Let_def le32_drop)
    qed
  qed
  then show ?thesis unfolding emit_modrm_mem_fold e by (intro exI [of _ ?code]) simp
qed

lemma zas_mem_operand_witness:
  "\<exists>code. zas_out (emit_modrm_mem 0x8B 1 3 8 True (zas_start zas_blank)) = blit (replicate ZAS_OUT_MAX 0) 0 (0x8B # code)
    \<and> decode_modrm (code @ [7]) = (1, Based 3 8, [7])"
  using zas_mem_operand [of 1 3 True "zas_start zas_blank" "0x8B" 8]
  by (auto simp: room_def zas_start_def zas_blank_def ZAS_OUT_MAX_def)

text \<open>With ebp and no displacement the three bytes after the operand are taken for an address; with esp the
  byte after it is taken for a SIB byte.\<close>

lemma zas_ebp_operand:
  assumes "reg < 8"
  shows "decode_modrm (mem_code reg 5 0 False @ [a, b, c] @ rest) = (reg, Absolute (of_le32 [0, a, b, c] 0), rest)"
    and "\<exists>q. decode_modrm (mem_code reg 4 disp has_disp @ rest) = (reg, Indexed, q)"
  using modrm_fields [OF _ assms, of 0 5] modrm_fields [OF _ assms, of 0 4] modrm_fields [OF _ assms, of 1 4]
    modrm_fields [OF _ assms, of 2 4]
  by (simp_all add: mem_code_def decode_modrm_def Let_def of_le32_def)

subsection \<open>Programs\<close>

text \<open>The equations a program is evaluated with.\<close>

declare run_lines.simps [code] skip_line.simps [code] skip_newlines.simps [code] db_loop.simps [code]

definition source_lines :: "string list \<Rightarrow> bytes" where
  "source_lines ls = concat (map (\<lambda>l. lit l @ [10]) ls)"

text \<open>A label in .data after one byte of code is given an address four bytes past the byte it names: the file
  puts .data right behind .text, the address rounds the end of .text up and adds its length once more.\<close>

lemma zas_data_label:
  "map_option (\<lambda>s. (label_addr s (lit ''x''), out_pos s)) (run_pass 1 (source_lines [''nop'', ''section .data'', ''x: db 7'']) zas_blank)
     = Some (Some 0x800005, 2)"
  by code_simp

text \<open>The bytes reserved in .bss are counted by both passes.\<close>

lemma zas_bss_twice:
  "map_option bss_size (run_pass 1 (source_lines [''section .bss'', ''resb 16'']) zas_blank
      \<bind> run_pass 2 (source_lines [''section .bss'', ''resb 16''])) = Some 32"
  by code_simp

text \<open>The .data bytes of a program that ends in .bss are counted together with its .text.\<close>

lemma zas_data_size:
  "map_option (\<lambda>s. (text_size s, data_size s)) (run_pass 1 (source_lines [''nop'', ''section .data'', ''db 7'', ''section .bss'']) zas_blank
      \<bind> run_pass 2 (source_lines [''nop'', ''section .data'', ''db 7'', ''section .bss''])) = Some (1, 2)"
  by code_simp

text \<open>A store to memory emits nothing: the base register is read as the comma.\<close>

lemma zas_store_dropped:
  "map_option out_pos (run_pass 1 (source_lines [''mov [ebx], eax'']) zas_blank) = Some 0"
  "map_option out_pos (run_pass 1 (source_lines [''mov [ebx+4], eax'']) zas_blank) = Some 0"
  by code_simp+

lemma fixed_counts_Nil: "fixed_counts []"
  by (coinduction) (simp add: lex_at_def lex_skip_ws_def plain_token_def is_word_def tolower_def)

lemma fixed_counts_step:
  "fixed_counts (snd (lex_at p)) \<Longrightarrow> tkind (fst (lex_at (snd (lex_at p)))) \<noteq> TOK_IDENT \<Longrightarrow> fixed_counts p"
  by (rule fixed_counts.intros)

lemma zas_passes_agree_witness:
  "\<exists>v. after_lines 1 2 (start_pass 2 (lit ''nop'') zas_blank) = Some v \<and> out_pos v = 1"
proof -
  let ?s = "start_pass 1 (lit ''nop'') zas_blank"
  have n: "snd (lex_at (lit ''nop'')) = []" by code_simp
  have "tkind (fst (lex_at [])) = TOK_EOF" by code_simp
  then have f: "fixed_counts (lit ''nop'')" using fixed_counts_Nil by - (rule fixed_counts_step, simp_all only: n, simp)
  have "map_option out_pos (after_lines 1 1 ?s) = Some 1" by code_simp
  then obtain u where u: "after_lines 1 1 ?s = Some u" "out_pos u = 1" unfolding map_option_eq_Some by (elim exE conjE)
  from zas_passes_agree [OF f u(1), of zas_blank] u(2) show ?thesis by auto
qed

end
