(* ===== verification/Elf.thy ===== *)
theory Elf
  imports FatFile Printf "HOL-Library.Monad_Syntax"
begin

text \<open>
  The loader of kernel/fs/elf.c up to the jump to the entry point, and its system calls. The memory a
  program is loaded into is the function from addresses to bytes; the kernel's own variables are not part
  of it, so a segment placed over the kernel is outside the model. The keyboard is a parameter. None is a
  read past the end of elf_load_buf.
\<close>

type_synonym memory = "u32 \<Rightarrow> u8"

definition ELF_BUF_SIZE :: nat where "ELF_BUF_SIZE = 65536"

primrec mem_write :: "memory \<Rightarrow> u32 \<Rightarrow> bytes \<Rightarrow> memory" where
  "mem_write m a [] = m"
| "mem_write m a (b # bs) = mem_write (m(a := b)) (a + 1) bs"

subsection \<open>Segments\<close>

record phdr =
  p_type :: u32
  p_offset :: u32
  p_vaddr :: u32
  p_filesz :: u32
  p_memsz :: u32

definition read_phdr :: "bytes \<Rightarrow> nat \<Rightarrow> phdr" where
  "read_phdr buf i = \<lparr>p_type = of_le32 buf i, p_offset = of_le32 buf (i + 4), p_vaddr = of_le32 buf (i + 8),
     p_filesz = of_le32 buf (i + 16), p_memsz = of_le32 buf (i + 20)\<rparr>"

definition load_segment :: "bytes \<Rightarrow> phdr \<Rightarrow> memory \<Rightarrow> memory option" where
  "load_segment buf ph m =
     (let n = unat (p_filesz ph); src = unat (p_offset ph) in
      if p_type ph \<noteq> 1 then Some m
      else if 0 < n \<and> ELF_BUF_SIZE < src + n then None
      else
        let m1 = (if 0 < n then mem_write m (p_vaddr ph) (window src n buf) else m)
        in Some (if p_filesz ph < p_memsz ph
                 then mem_write m1 (p_vaddr ph + p_filesz ph) (replicate (unat (p_memsz ph - p_filesz ph)) 0)
                 else m1))"

text \<open>The program headers from number i on, n of them left.\<close>

primrec load_segments :: "nat \<Rightarrow> u16 \<Rightarrow> bytes \<Rightarrow> u32 \<Rightarrow> u32 \<Rightarrow> u16 \<Rightarrow> memory \<Rightarrow> memory option" where
  "load_segments 0 i buf flen phoff phentsize m = Some m"
| "load_segments (Suc n) i buf flen phoff phentsize m =
     (let off = phoff + ucast i * ucast phentsize in
      if flen < off + 32 then Some m
      else if ELF_BUF_SIZE < unat off + 32 then None
      else load_segment buf (read_phdr buf (unat off)) m \<bind> load_segments n (i + 1) buf flen phoff phentsize)"

text \<open>The checks on the header, then the segments: the message of a refusal, or the entry point and the memory.\<close>

definition elf_map :: "bytes \<Rightarrow> int \<Rightarrow> u32 \<Rightarrow> memory \<Rightarrow> (string + u32 \<times> memory) option" where
  "elf_map buf n flen m =
     (if n < 52 then Some (Inl ''elf: file too small\<newline>'')
      else if take 4 buf \<noteq> [0x7F, 69, 76, 70] then Some (Inl ''elf: bad magic\<newline>'')
      else if of_le16 buf 18 \<noteq> 3 then Some (Inl ''elf: not i386\<newline>'')
      else if of_le16 buf 16 \<noteq> 2 then Some (Inl ''elf: not an executable\<newline>'')
      else map_option (\<lambda>m1. Inr (of_le32 buf 24, m1))
             (load_segments (unat (of_le16 buf 44)) 0 buf flen (of_le32 buf 28) (of_le16 buf 42) m))"

subsection \<open>Loading a file\<close>

record 'k elf_state =
  emem :: memory
  g_elf_running :: bool
  g_elf_exit_code :: int
  elf_console :: bytes
  keyboard :: 'k

definition elf_say :: "bytes \<Rightarrow> arg list \<Rightarrow> 'k elf_state \<Rightarrow> 'k elf_state option" where
  "elf_say fmt as s = map_option (\<lambda>r. s\<lparr>elf_console := fst r\<rparr>) (kprintf (elf_console s) fmt as)"

text \<open>elf_exec up to the jump: the entry point, or the inner None for the result -1.\<close>

definition elf_exec :: "bytes \<Rightarrow> 'k elf_state \<Rightarrow> 'd fsys \<Rightarrow> (u32 option \<times> 'k elf_state \<times> 'd fsys) option" where
  "elf_exec path s F =
     do { (F1, h) \<leftarrow> fs_open F path;
          if h < 0 then map_option (\<lambda>s1. (None, s1, F1)) (elf_say (lit ''elf: cannot open %s\<newline>'') [ArgStr (Some path)] s)
          else
            let flen = fs_size F1 h
            in if flen < 0 \<or> int ELF_BUF_SIZE < flen then
                 map_option (\<lambda>s1. (None, s1, fst (fs_close F1 h)))
                   (elf_say (lit ''elf: file too large (%d bytes, max %u)\<newline>'') [ArgWord (of_int flen), ArgWord (of_nat ELF_BUF_SIZE)] s)
               else do { (F2, bs, n) \<leftarrow> fs_read F1 h (nat flen);
                         r \<leftarrow> elf_map (blit (replicate ELF_BUF_SIZE 0) 0 bs) n (of_int flen) (emem s);
                         case r of
                           Inl msg \<Rightarrow> map_option (\<lambda>s1. (None, s1, fst (fs_close F2 h))) (elf_say (lit msg) [] s)
                         | Inr (entry, m) \<Rightarrow>
                             Some (Some entry, s\<lparr>emem := m, g_elf_running := True, g_elf_exit_code := 0\<rparr>, fst (fs_close F2 h)) } }"

subsection \<open>System calls\<close>

text \<open>The exit call also returns to the caller of elf_exec.\<close>

definition elf_syscall :: "('k \<Rightarrow> u8 \<times> 'k) \<Rightarrow> u32 \<Rightarrow> u32 \<Rightarrow> u32 \<Rightarrow> u32 \<Rightarrow> 'k elf_state \<Rightarrow> 'k elf_state" where
  "elf_syscall kb_getc eax ebx ecx edx s =
     (if eax = 1 then s\<lparr>g_elf_exit_code := sint ebx, g_elf_running := False\<rparr>
      else if eax = 4 then
        (if ebx = 1 \<or> ebx = 2
         then s\<lparr>elf_console := elf_console s @ map (\<lambda>i. emem s (ecx + of_nat i)) [0..<unat edx]\<rparr>
         else s)
      else if eax = 3 then
        (if ebx = 0 \<and> 0 < edx
         then (case kb_getc (keyboard s) of (c, k) \<Rightarrow> s\<lparr>emem := (emem s)(ecx := c), keyboard := k\<rparr>)
         else s)
      else s)"

subsection \<open>What is loaded\<close>

lemma mem_write_nth:
  "length bs \<le> 2 ^ 32 \<Longrightarrow> mem_write m a bs x = (if unat (x - a) < length bs then bs ! unat (x - a) else m x)"
proof (induction bs arbitrary: m a)
  case (Cons b bs)
  have l: "length bs < 2 ^ 32" using Cons.prems by simp
  show ?case
  proof (cases "x = a")
    case True
    have "unat (a - (a + 1)) = 2 ^ 32 - 1" by (simp add: unsigned_minus_1_eq_mask mask_eq_exp_minus_1)
    then have "mem_write (m(a := b)) (a + 1) bs a = (m(a := b)) a"
      using Cons.IH [of "m(a := b)" "a + 1"] True l by (simp del: fun_upd_apply)
    then show ?thesis using True by simp
  next
    case False
    define w where "w = x - a"
    have "unat w \<noteq> 0" using False by (simp add: w_def unat_eq_0)
    moreover from this have "unat (w - 1) = unat w - 1" by (subst unat_sub) (simp_all add: word_le_nat_alt)
    ultimately have "unat w = Suc (unat (w - 1))" by simp
    moreover have "x - (a + 1) = w - 1" by (simp add: w_def)
    ultimately have "unat (x - a) = Suc (unat (x - (a + 1)))" by (simp only: w_def [symmetric])
    moreover have "mem_write (m(a := b)) (a + 1) bs x = (if unat (x - (a + 1)) < length bs then bs ! unat (x - (a + 1)) else (m(a := b)) x)"
      using Cons.IH [of "m(a := b)" "a + 1"] l by (simp del: fun_upd_apply)
    ultimately show ?thesis using False by simp
  qed
qed simp

end
