(* ===== verification/FileWrites.thy ===== *)
theory FileWrites
  imports FatFile "HOL-Library.Monad_Syntax"
begin

text \<open>
  Writing a file piece by piece: the writes two programs make through fs_write of kernel/fs/fat.c, one after the other
  on the same handle. The assembler writes its ELF file so, the editor its rows.
\<close>

primrec write_all :: "int \<Rightarrow> bytes list \<Rightarrow> 'd fsys \<Rightarrow> 'd fsys option" where
  "write_all h [] F = Some F"
| "write_all h (bs # bss) F = do { (F1, _) \<leftarrow> fs_write F h bs; write_all h bss F1 }"

lemma write_all_append: "write_all h (xs @ ys) F = do { F1 \<leftarrow> write_all h xs F; write_all h ys F1 }"
  by (induction xs arbitrary: F) (auto simp: bind_eq_None_conv split: Option.bind_split)

end
