(* ===== verification/ZasElf.thy ===== *)
theory ZasElf
  imports ZasCode Elf FileWrites
begin

text \<open>
  The assembler's output and the loader together: the file shell/zas.c writes is one kernel/fs/elf.c
  accepts, and it puts the assembled bytes at the address the assembler laid them out for.
\<close>

text \<open>The file write_elf writes for a code of n bytes.\<close>

definition elf_file :: "u32 \<Rightarrow> u32 \<Rightarrow> bytes \<Rightarrow> bytes" where
  "elf_file entry bss code =
     elf_header entry @ program_header (of_nat (length code)) (of_nat (length code) + bss) @ code"

lemma elf_header_bytes:
  "elf_header e = [0x7F, 69, 76, 70, 1, 1, 1, 0, 0, 0, 0, 0, 0, 0, 0, 0, 2, 0, 3, 0, 1, 0, 0, 0,
     ucast e, ucast (drop_bit 8 e), ucast (drop_bit 16 e), ucast (drop_bit 24 e), 52, 0, 0, 0, 0, 0, 0, 0, 0, 0, 0, 0,
     52, 0, 32, 0, 1, 0, 0, 0, 0, 0, 0, 0]"
proof -
  have "replicate 9 x = [x, x, x, x, x, x, x, x, x]" "replicate 8 x = [x, x, x, x, x, x, x, x]"
    "replicate 6 x = [x, x, x, x, x, x]" for x :: u8 by (simp_all add: eval_nat_numeral)
  then show ?thesis by (simp add: elf_header_def le32_def)
qed

lemma length_headers: "length (elf_header e) = 52" "length (program_header f m) = 32"
  by (simp_all add: elf_header_bytes program_header_def)

text \<open>That is what it writes: it takes the first text_size + data_size bytes of the output, and its writes make
  elf_file of them, piece by piece.\<close>

lemma write_elf_writes:
  assumes "length (zas_out s) = ZAS_OUT_MAX" and "unat (text_size s + data_size s) \<le> ZAS_OUT_MAX"
    and "code = take (unat (text_size s + data_size s)) (zas_out s)"
    and "entry = (if zas_entry_set s then zas_entry s else ZAS_TEXT_VMA)"
    and "fs_unlink F out_path = Some (F1, u)" and "fs_create F1 out_path = Some (F2, rc)" and "0 \<le> rc"
    and "fs_open F2 out_path = Some (F3, h)" and "0 \<le> h"
  shows "\<exists>pieces. concat pieces = elf_file entry (bss_size s) code
    \<and> write_elf out_path s con F = map_option (\<lambda>G. (int (length (concat pieces)), con, fst (fs_close G h))) (write_all h pieces F3)"
proof (intro exI [of _ "[elf_header entry, program_header (of_nat (length code)) (of_nat (length code) + bss_size s), code]"] conjI)
  let ?n = "text_size s + data_size s"
  have n: "length code = unat ?n" using assms(1-3) by simp
  then have f: "(of_nat (length code) :: u32) = ?n" by simp
  have "unat ?n \<le> 16384" using assms(2) by (simp add: ZAS_OUT_MAX_def)
  then have "unat (84 + ?n) = 84 + unat ?n" by (simp add: unat_word_ariths)
  with \<open>unat ?n \<le> 16384\<close> have "uint (84 + ?n) < 2147483648" "uint (84 + ?n) = 84 + int (unat ?n)"
    unfolding uint_nat by linarith+
  then have "sint (84 + ?n) = 84 + int (unat ?n)" unfolding sint_u32 by simp
  then show "write_elf out_path s con F = map_option (\<lambda>G. (int (length (concat [elf_header entry,
      program_header (of_nat (length code)) (of_nat (length code) + bss_size s), code])), con, fst (fs_close G h)))
    (write_all h [elf_header entry, program_header (of_nat (length code)) (of_nat (length code) + bss_size s), code] F3)"
    using assms(2-9) n by (simp add: write_elf_def Let_def f length_headers map_option_bind split_beta split: Option.bind_split)
qed (simp add: elf_file_def)

lemma header_fields:
  "take 4 (elf_header e @ q) = [0x7F, 69, 76, 70]" "of_le16 (elf_header e @ q) 18 = 3" "of_le16 (elf_header e @ q) 16 = 2"
  "of_le16 (elf_header e @ q) 44 = 1" "of_le16 (elf_header e @ q) 42 = 32" "of_le32 (elf_header e @ q) 28 = 52"
  "of_le32 (elf_header e @ q) 24 = e"
  by (simp_all add: elf_header_bytes of_le16_def of_le32_def le32_split)

lemma of_le32_skip: "length p \<le> i \<Longrightarrow> of_le32 (p @ q) i = of_le32 q (i - length p)"
  by (simp add: of_le32_def nth_append Suc_diff_le)

lemma program_header_fields:
  "read_phdr (elf_header e @ program_header f m @ q) 52 =
     \<lparr>p_type = 1, p_offset = 84, p_vaddr = ZAS_TEXT_VMA, p_filesz = f, p_memsz = m\<rparr>"
proof -
  let ?z = "ZAS_TEXT_VMA"
  have "read_phdr (elf_header e @ program_header f m @ q) 52 = read_phdr (program_header f m @ q) 0"
    by (simp add: read_phdr_def of_le32_skip length_headers)
  also have "\<dots> = \<lparr>p_type = 1, p_offset = 84, p_vaddr = ?z, p_filesz = f, p_memsz = m\<rparr>"
    by (simp add: read_phdr_def program_header_def of_le32_skip)
  finally show ?thesis .
qed

text \<open>C31: The loader accepts every file the assembler writes that fits its buffer: it gives the entry point,
  puts the assembled bytes at ZAS_TEXT_VMA in order, clears the bytes of .bss behind them and changes nothing
  else.\<close>
theorem zas_file_loads:
  assumes "length code + 84 \<le> ELF_BUF_SIZE" and "unat bss < 2 ^ 31"
  shows "\<exists>m'. elf_map (blit (replicate ELF_BUF_SIZE 0) 0 (elf_file entry bss code)) (int (84 + length code))
      (of_nat (84 + length code)) m = Some (Inr (entry, m'))
    \<and> (\<forall>x. m' x = (let k = unat (x - ZAS_TEXT_VMA) in
         if k < length code then code ! k else if k < length code + unat bss then 0 else m x))"
proof -
  let ?n = "length code" and ?f = "of_nat (length code) :: u32"
  define buf where "buf = blit (replicate ELF_BUF_SIZE 0) 0 (elf_file entry bss code)"
  define z where "z = replicate (ELF_BUF_SIZE - (84 + ?n)) (0 :: u8)"
  have n: "?n + 84 \<le> 65536" using assms(1) by (simp add: ELF_BUF_SIZE_def)
  have buf: "buf = elf_header entry @ program_header ?f (?f + bss) @ code @ z"
    using n by (simp add: buf_def elf_file_def blit_eq length_headers z_def ELF_BUF_SIZE_def)
  have u: "unat ?f = ?n" "unat (?f + bss) = ?n + unat bss" "unat (of_nat (84 + ?n) :: u32) = 84 + ?n"
    using n assms(2) by (simp_all add: unat_of_nat take_bit_nat_eq_self unat_word_ariths)
  have w: "window 84 ?n buf = code" by (simp add: buf window_def length_headers)
  note ph = program_header_fields [of entry ?f "?f + bss" "code @ z", folded buf]
  let ?m1 = "if 0 < ?n then mem_write m ZAS_TEXT_VMA code else m"
  define m' where "m' = (if ?f < ?f + bss then mem_write ?m1 (ZAS_TEXT_VMA + ?f) (replicate (unat bss) 0) else ?m1)"
  have seg: "load_segment buf (read_phdr buf 52) m = Some m'"
    unfolding ph using n u w by (simp add: load_segment_def Let_def ELF_BUF_SIZE_def m'_def)
  have "\<not> of_nat (84 + ?n) < (52 + 32 :: u32)" using u(3) by (simp add: word_less_nat_alt)
  then have "load_segments 1 0 buf (of_nat (84 + ?n)) 52 32 m = Some m'"
    using seg by (simp add: ELF_BUF_SIZE_def)
  then have "elf_map buf (int (84 + ?n)) (of_nat (84 + ?n)) m = Some (Inr (entry, m'))"
    using header_fields [of entry "program_header ?f (?f + bss) @ code @ z", folded buf]
    by (simp add: elf_map_def del: load_segments.simps)
  moreover have "m' x = (let k = unat (x - ZAS_TEXT_VMA) in
         if k < ?n then code ! k else if k < ?n + unat bss then 0 else m x)" for x
  proof -
    define k where "k = x - ZAS_TEXT_VMA"
    have m1: "?m1 x = (if unat k < ?n then code ! unat k else m x)" using n by (simp add: mem_write_nth k_def)
    have pos: "?f < ?f + bss \<longleftrightarrow> 0 < unat bss" using u by (simp add: word_less_nat_alt)
    have e: "x - (ZAS_TEXT_VMA + ?f) = k - ?f" by (simp add: k_def)
    have "unat (x - (ZAS_TEXT_VMA + ?f)) < unat bss \<longleftrightarrow> ?n \<le> unat k \<and> unat k < ?n + unat bss"
    proof (cases "?n \<le> unat k")
      case True
      then have "unat (k - ?f) = unat k - ?n" using u(1) by (subst unat_sub) (simp_all add: word_le_nat_alt)
      with True show ?thesis unfolding e by auto
    next
      case False
      then have "unat (k - ?f) = unat k + 2 ^ 32 - ?n"
        using u(1) n by (simp add: unat_sub_if_size word_size)
      with False show ?thesis unfolding e using assms(2) n by auto
    qed
    then show ?thesis using m1 pos assms(2) by (auto simp: m'_def mem_write_nth Let_def simp flip: k_def)
  qed
  ultimately show ?thesis unfolding buf_def by blast
qed

lemma zas_file_loads_witness:
  "\<exists>m'. elf_map (blit (replicate ELF_BUF_SIZE 0) 0 (elf_file 0x800000 16 [0x90, 0xC3])) 86 86 (\<lambda>_. 0) = Some (Inr (0x800000, m'))
     \<and> m' 0x800001 = 0xC3 \<and> m' 0x800002 = 0"
  using zas_file_loads [of "[0x90, 0xC3]" 16 "0x800000" "\<lambda>_. 0"]
  by (auto simp: ELF_BUF_SIZE_def ZAS_TEXT_VMA_def Let_def)

end
