(* ===== verification/Vfs.thy ===== *)
theory Vfs
  imports FatMountFacts Printf
begin

text \<open>
  Boot-time setup and rescanning of kernel/fs/vfs.c: probing the controllers, which is a parameter, the
  partition scan, and mounting every disk that holds a FAT file system under the first free letters.
\<close>

text \<open>The first letter from number m on that no volume is mounted under.\<close>

definition free_letter :: "'w fsys \<Rightarrow> nat \<Rightarrow> nat" where
  "free_letter F m =
     (case List.find (\<lambda>i. \<not> fs_drive_present F (of_nat (65 + i))) [m..<FS_DRIVE_MAX] of
        Some i \<Rightarrow> i
      | None \<Rightarrow> FS_DRIVE_MAX)"

text \<open>The loop body of do_mount_all for one disk: the count so far, the file system and the console.\<close>

definition mount_step :: "nat \<Rightarrow> nat \<times> 'w fsys \<times> bytes \<Rightarrow> (nat \<times> 'w fsys \<times> bytes) option" where
  "mount_step i st =
     (case st of (mounted, F, con) \<Rightarrow>
        if FS_DRIVE_MAX \<le> mounted then Some st
        else case disk_get (fdev F) (int i) of
          None \<Rightarrow> Some st
        | Some d \<Rightarrow>
            if \<not> present d then Some st
            else if fs_drive_disk_id F (of_nat (65 + mounted)) = int i then Some st
            else if i < DISK_RAW_MAX \<and> mbr_has_table (fdev F) (int i) then Some st
            else
              let m = free_letter F mounted
              in if FS_DRIVE_MAX \<le> m then Some (m, F, con)
                 else case fs_mount F (of_nat (65 + m)) (int i) of
                   None \<Rightarrow> None
                 | Some (F1, rc) \<Rightarrow>
                     if rc = 0 then
                       map_option (\<lambda>r. (Suc m, F1, fst r))
                         (kprintf con (lit ''mounted %c: on %s (%u sectors)\<newline>'')
                           [ArgWord (of_nat (65 + m)), ArgStr (Some (dname d)), ArgWord (sectors d)])
                     else
                       map_option (\<lambda>r. (m, F1, fst r))
                         (kprintf con (lit ''disk %s present but unformatted (try `install %s`)\<newline>'')
                           [ArgStr (Some (dname d)), ArgStr (Some (dname d))]))"

primrec mount_from :: "nat list \<Rightarrow> nat \<times> 'w fsys \<times> bytes \<Rightarrow> (nat \<times> 'w fsys \<times> bytes) option" where
  "mount_from [] st = Some st"
| "mount_from (i # is) st = (case mount_step i st of None \<Rightarrow> None | Some st1 \<Rightarrow> mount_from is st1)"

definition do_mount_all :: "'w fsys \<Rightarrow> bytes \<Rightarrow> (nat \<times> 'w fsys \<times> bytes) option" where
  "do_mount_all F con = mount_from [0..<DISK_MAX] (0, F, con)"

text \<open>The controllers' probes, in the order of the calls, and the partition scan.\<close>

definition probe_all :: "('w dstate \<Rightarrow> 'w dstate) list \<Rightarrow> 'w fsys \<Rightarrow> 'w fsys" where
  "probe_all probes F = F\<lparr>fdev := mbr_scan_all (fold (\<lambda>p s. p s) probes (fdev F))\<rparr>"

definition fs_init :: "('w dstate \<Rightarrow> 'w dstate) list \<Rightarrow> 'w fsys \<Rightarrow> bytes \<Rightarrow> (int \<times> 'w fsys \<times> bytes) option" where
  "fs_init probes F con =
     map_option (\<lambda>(m, F1, c). (if m \<noteq> 0 then 0 else -1, F1, c))
       (do_mount_all (probe_all probes (F\<lparr>fdev := disk_init (fdev F)\<rparr>)) con)"

definition fs_rescan :: "('w dstate \<Rightarrow> 'w dstate) list \<Rightarrow> 'w fsys \<Rightarrow> bytes \<Rightarrow> (int \<times> 'w fsys \<times> bytes) option" where
  "fs_rescan probes F con = map_option (\<lambda>(m, F1, c). (0, F1, c)) (do_mount_all (probe_all probes F) con)"

subsection \<open>A disk mounted under two letters\<close>

lemma drive_idx_letter: "m < 4 \<Longrightarrow> drive_idx (of_nat (65 + m)) = int m"
proof -
  assume "m < 4"
  then consider "m = 0" | "m = 1" | "m = 2" | "m = 3" by linarith
  then show ?thesis by cases (simp_all add: drive_idx_def FS_DRIVE_MAX_def)
qed

lemma kprintf_mounted:
  "\<exists>c. kprintf con (lit ''mounted %c: on %s (%u sectors)\<newline>'') [ArgWord w, ArgStr (Some nm), ArgWord v] = Some c"
  by (simp add: kprintf_def vformat_def directive_def take_flag_def convert_def word_arg_def str_arg_def Let_def)

text \<open>What a successful mount sets.\<close>

lemma mount_volume_ok:
  assumes "mount_volume s did = Some (v, True)"
  shows "disk_id v = did \<and> kind v \<noteq> FAT_NONE"
  using assms
  by (auto simp: mount_volume_def Let_def mount_fat12_def mount_root_def layout_def parse_bpb_def
      split: option.splits if_splits prod.splits bool.splits)

lemma free_letter_eq:
  assumes "m \<le> k" and "k < FS_DRIVE_MAX" and "\<forall>j. m \<le> j \<and> j < k \<longrightarrow> fs_drive_present F (of_nat (65 + j))"
    and "\<not> fs_drive_present F (of_nat (65 + k))"
  shows "free_letter F m = k"
proof -
  have "List.find (\<lambda>i. \<not> fs_drive_present F (of_nat (65 + i))) [m..<FS_DRIVE_MAX] = Some k"
    unfolding find_Some_iff using assms by (intro exI [of _ "k - m"]) (auto simp del: of_nat_add)
  then show ?thesis by (simp add: free_letter_def)
qed

text \<open>Mounting all disks again, as fs_rescan does, looks for a disk only under the next letter to use: a
  disk mounted under a later letter is mounted a second time under the first free one, with caches of its
  own.\<close>
lemma rescan_mounts_twice:
  assumes d: "disk_get (fdev F) (int i) = Some d" "present d" and t: "\<not> (i < DISK_RAW_MAX \<and> mbr_has_table (fdev F) (int i))"
    and a: "fs_drive_present F 65" "fs_drive_disk_id F 65 \<noteq> int i"
    and b: "fs_drive_present F 66" "fs_drive_disk_id F 66 = int i"
    and c: "\<not> fs_drive_present F 67" and v: "mount_volume (fdev F) (int i) = Some (v, True)" and l: "length (vols F) = FS_DRIVE_MAX"
  shows "\<exists>F' con'. mount_step i (0, F, con) = Some (3, F', con') \<and> fs_drive_disk_id F' 66 = int i \<and> fs_drive_disk_id F' 67 = int i"
proof -
  have m: "free_letter F 0 = 2"
  proof (rule free_letter_eq)
    show "\<forall>j. 0 \<le> j \<and> j < 2 \<longrightarrow> fs_drive_present F (of_nat (65 + j))"
      using a(1) b(1) by (auto simp: less_Suc_eq numeral_2_eq_2)
  qed (use c in \<open>simp_all add: FS_DRIVE_MAX_def\<close>)
  have idx: "drive_idx 66 = 1" "drive_idx 67 = 2" by (simp_all add: drive_idx_def FS_DRIVE_MAX_def)
  let ?F = "F\<lparr>vols := (vols F)[2 := v]\<rparr>"
  obtain F' where f: "fs_mount F 67 (int i) = Some (F', 0)" "vols F' = (vols F)[2 := v]"
    using d v idx by (auto simp: fs_mount_def Let_def)
  obtain r where "kprintf con (lit ''mounted %c: on %s (%u sectors)\<newline>'') [ArgWord 67, ArgStr (Some (dname d)), ArgWord (sectors d)] = Some r"
    using kprintf_mounted by blast
  then have "mount_step i (0, F, con) = Some (3, F', fst r)"
    using d t a(2) m f(1) by (simp add: mount_step_def FS_DRIVE_MAX_def)
  moreover have "fs_drive_disk_id F' 66 = int i" "fs_drive_disk_id F' 67 = int i"
    using b f(2) l mount_volume_ok [OF v] idx by (auto simp: fs_drive_disk_id_def Let_def FS_DRIVE_MAX_def split: if_splits)
  ultimately show ?thesis by blast
qed

end
