(* ===== verification/Zbc.thy ===== *)
theory Zbc
  imports LibC "HOL-Library.Monad_Syntax"
begin

text \<open>
  The front end of the C interpreter of shell/zbc.c: the tokenizer, the table of syntax nodes and the
  recursive-descent parser. The static variables are one record. A node refers to others by index, None
  for -1; the node and function tables are lists that grow up to their fixed sizes. Tokens past the last
  keep what an earlier program left there, so the token table is a function of the index.
\<close>

definition MAX_SRC :: nat where "MAX_SRC = 8192"
definition MAX_TOKENS :: nat where "MAX_TOKENS = 512"
definition MAX_NODES :: nat where "MAX_NODES = 512"
definition MAX_FUNCS :: nat where "MAX_FUNCS = 16"
definition MAX_VARS :: nat where "MAX_VARS = 32"
definition MAX_STRTAB :: nat where "MAX_STRTAB = 1024"
definition MAX_CALL :: nat where "MAX_CALL = 8"

datatype tok =
    T_EOF | T_INT | T_IDENT | T_STR
  | T_LPAR | T_RPAR | T_LBRACE | T_RBRACE | T_SEMI | T_COMMA
  | T_PLUS | T_MINUS | T_STAR | T_SLASH | T_PCT
  | T_ASSIGN | T_PLUSEQ | T_MINUSEQ | T_STAREQ | T_SLASHEQ
  | T_EQ | T_NEQ | T_LT | T_GT | T_LE | T_GE
  | T_AND | T_OR | T_NOT | T_BAND | T_BOR | T_BXOR | T_SHL | T_SHR
  | T_KW_INT | T_KW_VOID | T_KW_IF | T_KW_ELSE | T_KW_WHILE
  | T_KW_RETURN | T_KW_BREAK | T_KW_CONT | T_KW_FOR

record ctoken =
  tk_kind :: tok
  tk_ival :: u32
  tk_sval :: bytes
  tk_str_off :: nat

datatype nkind =
    N_NUM | N_VAR | N_STR | N_ASSIGN | N_BIN | N_UN | N_CALL
  | N_IF | N_WHILE | N_FOR | N_BLOCK | N_RETURN | N_BREAK | N_CONT | N_EXPR_STMT | N_FUNC

record node =
  nkind :: nkind
  nop :: tok
  nival :: u32
  nstr :: nat
  nname :: bytes
  nchild :: "nat option list"
  nnext :: "nat option"

record func =
  fname :: bytes
  fbody :: nat
  fparams :: "bytes list"
  fvoid :: bool

record var =
  vname :: bytes
  vval :: u32

record zbc =
  toks :: "nat \<Rightarrow> ctoken"
  tok_count :: nat
  tok_pos :: nat
  strtab :: bytes
  strtab_pos :: nat
  nodes :: "node list"
  funcs :: "func list"
  globals :: "var list"
  scopes :: "nat \<Rightarrow> var list"
  scope_depth :: nat
  had_error :: bool
  had_return :: bool
  return_value :: u32
  had_break :: bool
  had_continue :: bool
  z_out :: bytes
  z_keys :: "int list"

definition zbc_say :: "bytes \<Rightarrow> zbc \<Rightarrow> zbc" where
  "zbc_say s z = z\<lparr>z_out := z_out z @ s\<rparr>"

text \<open>Only the first error is printed.\<close>

definition zbc_err :: "string \<Rightarrow> zbc \<Rightarrow> zbc" where
  "zbc_err msg z = (if had_error z then z else zbc_say (lit ''ZBC error: '' @ lit msg @ [10]) z)\<lparr>had_error := True\<rparr>"

definition strtab_add :: "bytes \<Rightarrow> zbc \<Rightarrow> nat \<times> zbc" where
  "strtab_add s z =
     (if MAX_STRTAB < strtab_pos z + length s + 1 then (0, zbc_err ''string table full'' z)
      else (strtab_pos z, z\<lparr>strtab := blit (strtab z) (strtab_pos z) (s @ [0]), strtab_pos := strtab_pos z + length s + 1\<rparr>))"

subsection \<open>Tokens\<close>

definition zero_token :: ctoken where
  "zero_token = \<lparr>tk_kind = T_EOF, tk_ival = 0, tk_sval = [], tk_str_off = 0\<rparr>"

definition kw_table :: "(bytes \<times> tok) list" where
  "kw_table =
     [(lit ''int'', T_KW_INT), (lit ''void'', T_KW_VOID), (lit ''if'', T_KW_IF), (lit ''else'', T_KW_ELSE), (lit ''while'', T_KW_WHILE),
      (lit ''return'', T_KW_RETURN), (lit ''break'', T_KW_BREAK), (lit ''continue'', T_KW_CONT), (lit ''for'', T_KW_FOR)]"

definition is_digit :: "u8 \<Rightarrow> bool" where
  "is_digit c \<longleftrightarrow> isdigit (uint c)"

definition is_ident :: "u8 \<Rightarrow> bool" where
  "is_ident c \<longleftrightarrow> isalpha (uint c) \<or> isdigit (uint c) \<or> c = 0x5F"

definition dec_value :: "bytes \<Rightarrow> u32" where
  "dec_value ds = foldl (\<lambda>v d. v * 10 + (ucast d - 48)) 0 ds"

definition is_hex :: "u8 \<Rightarrow> bool" where
  "is_hex c \<longleftrightarrow> is_digit c \<or> (97 \<le> c \<and> c \<le> 102) \<or> (65 \<le> c \<and> c \<le> 70)"

definition chex_digit :: "u8 \<Rightarrow> u32" where
  "chex_digit c = (if is_digit c then ucast c - 48 else if 97 \<le> c then ucast c - 97 + 10 else ucast c - 65 + 10)"

definition hex_value :: "bytes \<Rightarrow> u32" where
  "hex_value ds = foldl (\<lambda>v d. v * 16 + chex_digit d) 0 ds"

text \<open>A number from its first digit: its value and the rest of the source.\<close>

definition scan_number :: "bytes \<Rightarrow> u32 \<times> bytes" where
  "scan_number p =
     (if byte_at p 0 = 48 \<and> (byte_at p 1 = 0x78 \<or> byte_at p 1 = 0x58)
      then (let q = drop 2 p in (hex_value (takeWhile is_hex q), dropWhile is_hex q))
      else (dec_value (takeWhile is_digit p), dropWhile is_digit p))"

text \<open>At most 31 characters of an identifier.\<close>

definition scan_ident :: "bytes \<Rightarrow> bytes \<times> bytes" where
  "scan_ident p = (let s = take 31 (takeWhile is_ident p) in (s, drop (length s) p))"

definition cescape :: "u8 \<Rightarrow> u8" where
  "cescape e = (if e = 0x6E then 10 else if e = 0x74 then 9 else if e = 0x72 then 13 else if e = 0x30 then 0 else e)"

text \<open>The characters of a string literal after its quote, at most n of them.\<close>

fun scan_string :: "nat \<Rightarrow> bytes \<Rightarrow> bytes \<times> bytes" where
  "scan_string 0 p = ([], p)"
| "scan_string (Suc n) [] = ([], [])"
| "scan_string (Suc n) (c # p) =
     (if c = 0x22 then ([], c # p)
      else if c = 0x5C \<and> p \<noteq> [] then (case scan_string n (tl p) of (s, q) \<Rightarrow> (cescape (hd p) # s, q))
      else (case scan_string n p of (s, q) \<Rightarrow> (c # s, q)))"

text \<open>An operator at a character: a long form when the next character matches, else the short one.\<close>

definition op2 :: "bytes \<Rightarrow> (u8 \<times> tok) list \<Rightarrow> tok \<Rightarrow> (tok \<times> bytes) option" where
  "op2 p longer short =
     (case map_of longer (byte_at p 1) of Some k \<Rightarrow> Some (k, drop 2 p) | None \<Rightarrow> Some (short, drop 1 p))"

definition scan_op :: "bytes \<Rightarrow> (tok \<times> bytes) option" where
  "scan_op p =
     (let c = byte_at p 0 in
      if c = 0x28 then op2 p [] T_LPAR else if c = 0x29 then op2 p [] T_RPAR
      else if c = 0x7B then op2 p [] T_LBRACE else if c = 0x7D then op2 p [] T_RBRACE
      else if c = 0x3B then op2 p [] T_SEMI else if c = 0x2C then op2 p [] T_COMMA
      else if c = 0x2B then op2 p [(0x3D, T_PLUSEQ)] T_PLUS
      else if c = 0x2D then op2 p [(0x3D, T_MINUSEQ)] T_MINUS
      else if c = 0x2A then op2 p [(0x3D, T_STAREQ)] T_STAR
      else if c = 0x2F then op2 p [(0x3D, T_SLASHEQ)] T_SLASH
      else if c = 0x25 then op2 p [] T_PCT
      else if c = 0x3D then op2 p [(0x3D, T_EQ)] T_ASSIGN
      else if c = 0x21 then op2 p [(0x3D, T_NEQ)] T_NOT
      else if c = 0x3C then op2 p [(0x3D, T_LE), (0x3C, T_SHL)] T_LT
      else if c = 0x3E then op2 p [(0x3D, T_GE), (0x3E, T_SHR)] T_GT
      else if c = 0x26 then op2 p [(0x26, T_AND)] T_BAND
      else if c = 0x7C then op2 p [(0x7C, T_OR)] T_BOR
      else if c = 0x5E then op2 p [] T_BXOR
      else None)"

fun cskip_comment :: "bytes \<Rightarrow> bytes" where
  "cskip_comment [] = []"
| "cskip_comment (c # p) = (if c = 0x2A \<and> byte_at p 0 = 0x2F then tl p else cskip_comment p)"

text \<open>One turn of the tokenizer: it skips something, or finds a token, or meets a character it does not know.\<close>

datatype scan = Skipped bytes | Found ctoken bytes zbc | Unknown u8

definition scan_one :: "bytes \<Rightarrow> zbc \<Rightarrow> scan" where
  "scan_one p z =
     (let c = byte_at p 0 in
      if isspace (uint c) then Skipped (drop 1 p)
      else if c = 0x2F \<and> byte_at p 1 = 0x2F then Skipped (dropWhile (\<lambda>b. b \<noteq> 10) p)
      else if c = 0x2F \<and> byte_at p 1 = 0x2A then Skipped (cskip_comment (drop 2 p))
      else if c = 0x23 then Skipped (dropWhile (\<lambda>b. b \<noteq> 10) p)
      else if is_digit c then
        (case scan_number p of (v, q) \<Rightarrow> Found (zero_token\<lparr>tk_kind := T_INT, tk_ival := v\<rparr>) q z)
      else if isalpha (uint c) \<or> c = 0x5F then
        (case scan_ident p of (s, q) \<Rightarrow>
           Found (zero_token\<lparr>tk_kind := (case map_of kw_table s of Some k \<Rightarrow> k | None \<Rightarrow> T_IDENT), tk_sval := s\<rparr>) q z)
      else if c = 0x22 then
        (case scan_string 255 (drop 1 p) of (s, q) \<Rightarrow>
           case strtab_add s z of (off, z1) \<Rightarrow>
             Found (zero_token\<lparr>tk_kind := T_STR, tk_str_off := off\<rparr>) (if byte_at q 0 = 0x22 then drop 1 q else q) z1)
      else (case scan_op p of Some (k, q) \<Rightarrow> Found (zero_token\<lparr>tk_kind := k\<rparr>) q z | None \<Rightarrow> Unknown c))"

lemma length_scan_string: "length (snd (scan_string n p)) \<le> length p"
  by (induction n p rule: scan_string.induct) (auto split: prod.splits simp: le_SucI)

lemma length_skip_comment: "length (cskip_comment p) \<le> length p"
  by (induction p) auto

lemma op2_shorter: "op2 p l k = Some (t, q) \<Longrightarrow> p \<noteq> [] \<Longrightarrow> length q < length p"
  by (auto simp: op2_def split: option.splits)

lemma scan_op_shorter: "scan_op p = Some (k, q) \<Longrightarrow> p \<noteq> [] \<Longrightarrow> length q < length p"
  by (auto simp: scan_op_def Let_def split: if_splits dest: op2_shorter)

lemma drop_ident_shorter: "p \<noteq> [] \<Longrightarrow> is_ident (hd p) \<Longrightarrow> length (snd (scan_ident p)) < length p"
  by (cases p) (auto simp: scan_ident_def Let_def)

lemma dropWhile_shorter: "p \<noteq> [] \<Longrightarrow> P (hd p) \<Longrightarrow> length (dropWhile P p) < length p"
  by (cases p) (auto simp: length_dropWhile_le le_imp_less_Suc)

lemma scan_number_shorter: "p \<noteq> [] \<Longrightarrow> is_digit (hd p) \<Longrightarrow> length (snd (scan_number p)) < length p"
proof -
  assume p: "p \<noteq> []" "is_digit (hd p)"
  have "length (dropWhile is_hex (drop 2 p)) \<le> length (drop 2 p)" by (rule length_dropWhile_le)
  moreover have "length (drop 2 p) < length p" using p(1) by (cases p) auto
  ultimately show ?thesis using dropWhile_shorter [OF p(1), of is_digit] p(2) by (simp add: scan_number_def Let_def)
qed

lemma byte_hd: "p \<noteq> [] \<Longrightarrow> byte_at p 0 = hd p"
  by (cases p) simp_all

lemma scan_shorter:
  assumes "p \<noteq> []"
  shows "scan_one p z = Skipped q \<Longrightarrow> length q < length p" and "scan_one p z = Found t q z1 \<Longrightarrow> length q < length p"
proof -
  note b = byte_hd [OF assms]
  have d1: "length (drop 1 p) < length p" using assms by (cases p) auto
  have c: "length (cskip_comment (drop 2 p)) < length p"
    using length_skip_comment [of "drop 2 p"] assms by (cases p) auto
  show "length q < length p" if "scan_one p z = Skipped q"
    using that d1 c dropWhile_shorter [OF assms, of "\<lambda>b. b \<noteq> 10"]
    by (auto simp: scan_one_def Let_def b split: if_splits prod.splits option.splits)
  have s: "length (snd (scan_string 255 (drop 1 p))) < length p"
    using length_scan_string [of 255 "drop 1 p"] d1 by simp
  have i: "is_ident (hd p)" if "isalpha (uint (hd p)) \<or> hd p = 0x5F" using that by (auto simp: is_ident_def)
  show "length q < length p" if "scan_one p z = Found t q z1"
    using that s i scan_number_shorter [OF assms] drop_ident_shorter [OF assms] scan_op_shorter [OF _ assms]
    unfolding scan_one_def Let_def b
    by (auto split: if_splits prod.splits option.splits)
qed

text \<open>The loop of tokenize: what is left of the source and the state; the result is whether it succeeded.\<close>

function tokenize_loop :: "bytes \<Rightarrow> zbc \<Rightarrow> bool \<times> zbc" where
  "tokenize_loop p z =
     (if p = [] \<or> MAX_TOKENS - 1 \<le> tok_count z then (True, z\<lparr>toks := (toks z)(tok_count z := (toks z (tok_count z))\<lparr>tk_kind := T_EOF\<rparr>)\<rparr>)
      else
        case scan_one p z of
          Skipped q \<Rightarrow> tokenize_loop q z
        | Found t q z1 \<Rightarrow> tokenize_loop q (z1\<lparr>toks := (toks z1)(tok_count z1 := t), tok_count := tok_count z1 + 1\<rparr>)
        | Unknown c \<Rightarrow>
            (False, (zbc_say (lit ''ZBC: unexpected character '' @ [0x27, c, 0x27, 10]) z)
               \<lparr>toks := (toks z)(tok_count z := zero_token)\<rparr>))"
  by pat_completeness auto

termination
  by (relation "measure (\<lambda>(p, z). length p)") (auto dest: scan_shorter)

declare tokenize_loop.simps [simp del]

definition tokenize :: "bytes \<Rightarrow> zbc \<Rightarrow> bool \<times> zbc" where
  "tokenize s z = tokenize_loop (chars s) (z\<lparr>tok_count := 0\<rparr>)"

subsection \<open>Reading tokens and making nodes\<close>

definition peek :: "zbc \<Rightarrow> ctoken" where
  "peek z = toks z (tok_pos z)"

definition advance :: "zbc \<Rightarrow> ctoken \<times> zbc" where
  "advance z = (toks z (tok_pos z), z\<lparr>tok_pos := tok_pos z + 1\<rparr>)"

definition accept :: "tok \<Rightarrow> zbc \<Rightarrow> bool \<times> zbc" where
  "accept t z = (if tk_kind (peek z) = t then (True, snd (advance z)) else (False, z))"

definition expect :: "tok \<Rightarrow> string \<Rightarrow> zbc \<Rightarrow> zbc" where
  "expect t what z = (case accept t z of (ok, z1) \<Rightarrow> if ok then z1 else zbc_err what z1)"

definition blank_node :: "nkind \<Rightarrow> node" where
  "blank_node k = \<lparr>nkind = k, nop = T_EOF, nival = 0, nstr = 0, nname = [], nchild = [None, None, None, None], nnext = None\<rparr>"

definition new_node :: "nkind \<Rightarrow> zbc \<Rightarrow> nat \<times> zbc" where
  "new_node k z =
     (if MAX_NODES \<le> length (nodes z) then (0, zbc_err ''too many AST nodes'' z)
      else (length (nodes z), z\<lparr>nodes := nodes z @ [blank_node k]\<rparr>))"

definition upd_node :: "nat \<Rightarrow> (node \<Rightarrow> node) \<Rightarrow> zbc \<Rightarrow> zbc" where
  "upd_node n f z = z\<lparr>nodes := (nodes z)[n := f (nodes z ! n)]\<rparr>"

definition set_child :: "nat \<Rightarrow> nat \<Rightarrow> nat option \<Rightarrow> zbc \<Rightarrow> zbc" where
  "set_child n j c z = upd_node n (\<lambda>d. d\<lparr>nchild := (nchild d)[j := c]\<rparr>) z"

text \<open>A new node with some of its fields filled in.\<close>

definition make_node :: "nkind \<Rightarrow> (node \<Rightarrow> node) \<Rightarrow> zbc \<Rightarrow> nat \<times> zbc" where
  "make_node k f z = (case new_node k z of (n, z1) \<Rightarrow> (n, upd_node n f z1))"

definition fill :: "tok \<Rightarrow> nat option list \<Rightarrow> node \<Rightarrow> node" where
  "fill op cs d = d\<lparr>nop := op, nchild := cs @ drop (length cs) (nchild d)\<rparr>"

definition bin_prec :: "tok \<Rightarrow> nat" where
  "bin_prec k =
     (case k of
        T_OR \<Rightarrow> 1 | T_AND \<Rightarrow> 2 | T_BOR \<Rightarrow> 3 | T_BXOR \<Rightarrow> 4 | T_BAND \<Rightarrow> 5
      | T_EQ \<Rightarrow> 6 | T_NEQ \<Rightarrow> 6
      | T_LT \<Rightarrow> 7 | T_GT \<Rightarrow> 7 | T_LE \<Rightarrow> 7 | T_GE \<Rightarrow> 7
      | T_SHL \<Rightarrow> 8 | T_SHR \<Rightarrow> 8
      | T_PLUS \<Rightarrow> 9 | T_MINUS \<Rightarrow> 9
      | T_STAR \<Rightarrow> 10 | T_SLASH \<Rightarrow> 10 | T_PCT \<Rightarrow> 10
      | _ \<Rightarrow> 0)"

definition is_assign :: "tok \<Rightarrow> bool" where
  "is_assign k \<longleftrightarrow> k \<in> {T_ASSIGN, T_PLUSEQ, T_MINUSEQ, T_STAREQ, T_SLASHEQ}"

subsection \<open>Expressions\<close>

text \<open>Each function of the parser is a definition over the parser of what it calls, rec, which is given a goal:
  the function to call and its arguments, a loop counting as a function. The result is the index of the
  node made (the number of arguments for the loop over them) and the state.\<close>

type_synonym parser = "zbc \<Rightarrow> (nat \<times> zbc) option"

datatype egoal = Primary | Args nat "nat option" nat | Binop nat | Binop_loop nat nat | Expr

definition parse_call :: "(egoal \<Rightarrow> parser) \<Rightarrow> bytes \<Rightarrow> parser" where
  "parse_call rec name z =
     (case make_node N_CALL (\<lambda>d. d\<lparr>nname := name\<rparr>) (snd (advance z)) of (n, z1) \<Rightarrow>
        do { (argi, z2) \<leftarrow> rec (Args n None 0) z1;
             Some (n, upd_node n (\<lambda>d. d\<lparr>nival := of_nat argi\<rparr>) (expect T_RPAR ''expected )'' z2)) })"

definition parse_primary :: "(egoal \<Rightarrow> parser) \<Rightarrow> parser" where
  "parse_primary rec z =
     (let k = tk_kind (peek z) in
      if k = T_INT then
        (case new_node N_NUM z of (n, z1) \<Rightarrow>
         case advance z1 of (a, z2) \<Rightarrow> Some (n, upd_node n (\<lambda>d. d\<lparr>nival := tk_ival a\<rparr>) z2))
      else if k = T_STR then
        (case new_node N_STR z of (n, z1) \<Rightarrow>
         case advance z1 of (a, z2) \<Rightarrow> Some (n, upd_node n (\<lambda>d. d\<lparr>nstr := tk_str_off a\<rparr>) z2))
      else if k = T_IDENT then
        (case advance z of (i, z1) \<Rightarrow>
           if tk_kind (peek z1) = T_LPAR then parse_call rec (tk_sval i) z1
           else Some (make_node N_VAR (\<lambda>d. d\<lparr>nname := tk_sval i\<rparr>) z1))
      else if k = T_LPAR then
        do { (n, z1) \<leftarrow> rec Expr (snd (advance z));
             Some (n, expect T_RPAR ''expected )'' z1) }
      else if k = T_MINUS \<or> k = T_NOT then
        (case make_node N_UN (\<lambda>d. d\<lparr>nop := k\<rparr>) (snd (advance z)) of (n, z1) \<Rightarrow>
           do { (c, z2) \<leftarrow> rec Primary z1; Some (n, set_child n 0 (Some c) z2) })
      else Some (new_node N_NUM (zbc_err ''expected expression'' z)))"

text \<open>An argument becomes the first child of the call or the successor of the argument before it.\<close>

definition link_node :: "nat \<Rightarrow> nat option \<Rightarrow> nat \<Rightarrow> zbc \<Rightarrow> zbc" where
  "link_node n prev a z =
     (case prev of None \<Rightarrow> set_child n 0 (Some a) z | Some p \<Rightarrow> upd_node p (\<lambda>d. d\<lparr>nnext := Some a\<rparr>) z)"

definition parse_args :: "(egoal \<Rightarrow> parser) \<Rightarrow> nat \<Rightarrow> nat option \<Rightarrow> nat \<Rightarrow> parser" where
  "parse_args rec n prev argi z =
     (if tk_kind (peek z) = T_RPAR \<or> had_error z then Some (argi, z)
      else do {
        (a, z1) \<leftarrow> rec Expr z;
        (case accept T_COMMA (link_node n prev a z1) of (comma, z2) \<Rightarrow>
           if comma then rec (Args n (Some a) (argi + 1)) z2 else Some (argi + 1, z2)) })"

definition parse_binop :: "(egoal \<Rightarrow> parser) \<Rightarrow> nat \<Rightarrow> parser" where
  "parse_binop rec prec z = do { (lhs, z1) \<leftarrow> rec Primary z; rec (Binop_loop prec lhs) z1 }"

definition binop_loop :: "(egoal \<Rightarrow> parser) \<Rightarrow> nat \<Rightarrow> nat \<Rightarrow> parser" where
  "binop_loop rec prec lhs z =
     (let op = tk_kind (peek z) in
      if prec \<le> bin_prec op then do {
        (rhs, z1) \<leftarrow> rec (Binop (bin_prec op + 1)) (snd (advance z));
        (case make_node N_BIN (fill op [Some lhs, Some rhs]) z1 of (n, z2) \<Rightarrow> rec (Binop_loop prec n) z2) }
      else Some (lhs, z))"

definition cparse_expr :: "(egoal \<Rightarrow> parser) \<Rightarrow> parser" where
  "cparse_expr rec z = do {
     (lhs, z1) \<leftarrow> rec (Binop 1) z;
     let k = tk_kind (peek z1);
     (if is_assign k then
        (if nkind (nodes z1 ! lhs) \<noteq> N_VAR then Some (lhs, zbc_err ''assign to non-variable'' z1)
         else do {
           (rhs, z2) \<leftarrow> rec Expr (snd (advance z1));
           Some (make_node N_ASSIGN (fill k [Some lhs, Some rhs]) z2) })
      else Some (lhs, z1)) }"

text \<open>The recursion: at most so many calls deep, None when it is not enough.\<close>

definition expr_step :: "(egoal \<Rightarrow> parser) \<Rightarrow> egoal \<Rightarrow> parser" where
  "expr_step rec g =
     (case g of
        Primary \<Rightarrow> parse_primary rec
      | Args n prev argi \<Rightarrow> parse_args rec n prev argi
      | Binop prec \<Rightarrow> parse_binop rec prec
      | Binop_loop prec lhs \<Rightarrow> binop_loop rec prec lhs
      | Expr \<Rightarrow> cparse_expr rec)"

primrec parse_e :: "nat \<Rightarrow> egoal \<Rightarrow> parser" where
  "parse_e 0 = (\<lambda>g z. None)"
| "parse_e (Suc f) = expr_step (parse_e f)"

subsection \<open>Statements\<close>

text \<open>\<open>int name\<close> with an optional initial value: the nodes of the assignment, marked as a declaration.\<close>

definition declare_node :: "bytes \<Rightarrow> nat option \<Rightarrow> zbc \<Rightarrow> nat \<times> zbc" where
  "declare_node name rhs z =
     (case make_node N_ASSIGN (\<lambda>d. d\<lparr>nop := T_ASSIGN\<rparr>) z of (n, z1) \<Rightarrow>
      case make_node N_VAR (\<lambda>d. d\<lparr>nname := name, nival := 1\<rparr>) z1 of (v, z2) \<Rightarrow>
      case (case rhs of None \<Rightarrow> make_node N_NUM (\<lambda>d. d\<lparr>nival := 0\<rparr>) z2 | Some r \<Rightarrow> (r, z2)) of (r, z3) \<Rightarrow>
        (n, set_child n 1 (Some r) (set_child n 0 (Some v) z3)))"

text \<open>An optional part, with the parser ex of expressions: parsed unless the next token is the one given.\<close>

definition parse_opt :: "parser \<Rightarrow> tok \<Rightarrow> zbc \<Rightarrow> (nat option \<times> zbc) option" where
  "parse_opt ex t z = (if tk_kind (peek z) \<noteq> t then do { (n, z1) \<leftarrow> ex z; Some (Some n, z1) } else Some (None, z))"

text \<open>A part that a token announces: an initial value, the other branch.\<close>

definition parse_after :: "parser \<Rightarrow> tok \<Rightarrow> zbc \<Rightarrow> (nat option \<times> zbc) option" where
  "parse_after p t z =
     (case accept t z of (yes, z1) \<Rightarrow> if yes then do { (n, z2) \<leftarrow> p z1; Some (Some n, z2) } else Some (None, z1))"

definition parse_cond :: "parser \<Rightarrow> parser" where
  "parse_cond ex z = do { (c, z1) \<leftarrow> ex (expect T_LPAR ''('' z); Some (c, expect T_RPAR '')'' z1) }"

datatype sgoal = Stmt | Block | Block_loop nat "nat option" | For_rest "nat option"

definition parse_if :: "parser \<Rightarrow> (sgoal \<Rightarrow> parser) \<Rightarrow> parser" where
  "parse_if ex rec z = do {
     (c, z1) \<leftarrow> parse_cond ex z;
     (t, z2) \<leftarrow> rec Stmt z1;
     (e, z3) \<leftarrow> parse_after (rec Stmt) T_KW_ELSE z2;
     Some (make_node N_IF (fill T_EOF [Some c, Some t, e]) z3) }"

definition parse_while :: "parser \<Rightarrow> (sgoal \<Rightarrow> parser) \<Rightarrow> parser" where
  "parse_while ex rec z = do {
     (c, z1) \<leftarrow> parse_cond ex z;
     (b, z2) \<leftarrow> rec Stmt z1;
     Some (make_node N_WHILE (fill T_EOF [Some c, Some b]) z2) }"

definition parse_for :: "parser \<Rightarrow> (sgoal \<Rightarrow> parser) \<Rightarrow> parser" where
  "parse_for ex rec z =
     (case accept T_KW_INT (expect T_LPAR ''('' z) of (decl, z1) \<Rightarrow>
        if decl then
          (case advance z1 of (i, z2) \<Rightarrow>
             if tk_kind i \<noteq> T_IDENT then Some (new_node N_NUM (zbc_err ''expected name'' z2))
             else do { (rhs, z3) \<leftarrow> parse_after ex T_ASSIGN z2;
                       (case declare_node (tk_sval i) rhs z3 of (a, z4) \<Rightarrow> rec (For_rest (Some a)) z4) })
        else do { (i, z2) \<leftarrow> parse_opt ex T_SEMI z1; rec (For_rest i) z2 })"

definition parse_for_rest :: "parser \<Rightarrow> (sgoal \<Rightarrow> parser) \<Rightarrow> nat option \<Rightarrow> parser" where
  "parse_for_rest ex rec init z = do {
     (c, z1) \<leftarrow> parse_opt ex T_SEMI (expect T_SEMI '';'' z);
     (p, z2) \<leftarrow> parse_opt ex T_RPAR (expect T_SEMI '';'' z1);
     (b, z3) \<leftarrow> rec Stmt (expect T_RPAR '')'' z2);
     Some (make_node N_FOR (fill T_EOF [init, c, p, Some b]) z3) }"

definition parse_return :: "parser \<Rightarrow> parser" where
  "parse_return ex z =
     (case new_node N_RETURN z of (n, z1) \<Rightarrow>
      case accept T_SEMI z1 of (none, z2) \<Rightarrow>
        if none then Some (n, z2)
        else do { (e, z3) \<leftarrow> ex z2; Some (n, expect T_SEMI '';'' (set_child n 0 (Some e) z3)) })"

definition parse_decl :: "parser \<Rightarrow> parser" where
  "parse_decl ex z =
     (case advance z of (i, z1) \<Rightarrow>
        if tk_kind i \<noteq> T_IDENT then Some (new_node N_NUM (zbc_err ''expected name'' z1))
        else do { (rhs, z2) \<leftarrow> parse_after ex T_ASSIGN z1; Some (declare_node (tk_sval i) rhs (expect T_SEMI '';'' z2)) })"

definition parse_stmt :: "parser \<Rightarrow> (sgoal \<Rightarrow> parser) \<Rightarrow> parser" where
  "parse_stmt ex rec z =
     (let k = tk_kind (peek z); z1 = snd (advance z) in
      if k = T_LBRACE then rec Block z1
      else if k = T_KW_IF then parse_if ex rec z1
      else if k = T_KW_WHILE then parse_while ex rec z1
      else if k = T_KW_FOR then parse_for ex rec z1
      else if k = T_KW_RETURN then parse_return ex z1
      else if k = T_KW_BREAK then Some (new_node N_BREAK (expect T_SEMI '';'' z1))
      else if k = T_KW_CONT then Some (new_node N_CONT (expect T_SEMI '';'' z1))
      else if k = T_KW_INT then parse_decl ex z1
      else do {
        (e, z2) \<leftarrow> ex z;
        Some (make_node N_EXPR_STMT (fill T_EOF [Some e]) (expect T_SEMI '';'' z2)) })"

text \<open>The loop over the statements gives 1 when it returns early because of an error.\<close>

definition block_loop :: "(sgoal \<Rightarrow> parser) \<Rightarrow> nat \<Rightarrow> nat option \<Rightarrow> parser" where
  "block_loop rec b lst z =
     (if tk_kind (peek z) = T_RBRACE \<or> tk_kind (peek z) = T_EOF then Some (0, z)
      else do {
        (s, z1) \<leftarrow> rec Stmt z;
        let z2 = link_node b lst s z1;
        (if had_error z2 then Some (1, z2) else rec (Block_loop b (Some s)) z2) })"

definition parse_block :: "(sgoal \<Rightarrow> parser) \<Rightarrow> parser" where
  "parse_block rec z =
     (case new_node N_BLOCK z of (b, z1) \<Rightarrow> do {
        (early, z2) \<leftarrow> rec (Block_loop b None) z1;
        Some (b, if early = 1 then z2 else expect T_RBRACE ''}'' z2) })"

definition stmt_step :: "parser \<Rightarrow> (sgoal \<Rightarrow> parser) \<Rightarrow> sgoal \<Rightarrow> parser" where
  "stmt_step ex rec g =
     (case g of
        Stmt \<Rightarrow> parse_stmt ex rec
      | Block \<Rightarrow> parse_block rec
      | Block_loop b lst \<Rightarrow> block_loop rec b lst
      | For_rest init \<Rightarrow> parse_for_rest ex rec init)"

primrec parse_s :: "nat \<Rightarrow> sgoal \<Rightarrow> parser" where
  "parse_s 0 = (\<lambda>g z. None)"
| "parse_s (Suc f) = stmt_step (parse_e f Expr) (parse_s f)"

subsection \<open>Functions\<close>

text \<open>The parameters of a function; False when a name is missing. At most eight are kept.\<close>

primrec parse_params :: "nat \<Rightarrow> bytes list \<Rightarrow> zbc \<Rightarrow> (bool \<times> bytes list \<times> zbc) option" where
  "parse_params 0 ps z = None"
| "parse_params (Suc f) ps z =
     (if tk_kind (peek z) = T_RPAR \<or> had_error z then Some (True, ps, z)
      else
        case advance (snd (accept T_KW_INT z)) of (i, z1) \<Rightarrow>
          if tk_kind i \<noteq> T_IDENT then Some (False, ps, zbc_err ''param name'' z1)
          else
            let ps1 = (if length ps < 8 then ps @ [tk_sval i] else ps) in
            case accept T_COMMA z1 of (comma, z2) \<Rightarrow> if comma then parse_params f ps1 z2 else Some (True, ps1, z2))"

definition upd_func :: "nat \<Rightarrow> (func \<Rightarrow> func) \<Rightarrow> zbc \<Rightarrow> zbc" where
  "upd_func i g z = z\<lparr>funcs := (funcs z)[i := g (funcs z ! i)]\<rparr>"

definition parse_func :: "nat \<Rightarrow> bool \<Rightarrow> zbc \<Rightarrow> zbc option" where
  "parse_func f is_void z =
     (if MAX_FUNCS \<le> length (funcs z) then Some (zbc_err ''too many functions'' z)
      else
        let i = length (funcs z); z1 = z\<lparr>funcs := funcs z @ [\<lparr>fname = [], fbody = 0, fparams = [], fvoid = is_void\<rparr>]\<rparr> in
        case advance z1 of (name, z2) \<Rightarrow>
          if tk_kind name \<noteq> T_IDENT then Some (zbc_err ''function name'' z2)
          else do {
            (ok, ps, z3) \<leftarrow> parse_params f [] (expect T_LPAR ''('' (upd_func i (\<lambda>g. g\<lparr>fname := tk_sval name\<rparr>) z2));
            let z4 = upd_func i (\<lambda>g. g\<lparr>fparams := ps\<rparr>) z3;
            (if \<not> ok then Some z4
             else do {
               (b, z5) \<leftarrow> parse_s f Block (expect T_LBRACE ''{'' (expect T_RPAR '')'' z4));
               Some (upd_func i (\<lambda>g. g\<lparr>fbody := b\<rparr>) z5) }) })"

text \<open>The loop of zbc_run over the functions of the program.\<close>

primrec parse_program :: "nat \<Rightarrow> zbc \<Rightarrow> zbc option" where
  "parse_program 0 z = None"
| "parse_program (Suc f) z =
     (if tk_kind (peek z) = T_EOF \<or> had_error z then Some z
      else
        case accept T_KW_INT z of (fn, z1) \<Rightarrow>
          if fn then do { z2 \<leftarrow> parse_func f False z1; parse_program f z2 }
          else case accept T_KW_VOID z1 of (proc, z2) \<Rightarrow>
            if proc then do { z3 \<leftarrow> parse_func f True z2; parse_program f z3 }
            else Some (zbc_err ''expected function definition'' z2))"

end
