(* ===== verification/ZbcEval.thy ===== *)
theory ZbcEval
  imports Zbc FatFile Printf "HOL-Library.Signed_Division"
begin

text \<open>
  The evaluator of shell/zbc.c over the node table, and the entry points that read a program from a volume.
  int is a 32-bit word; the shifts take the count modulo 32 and the sum, difference and product wrap, as
  the code compiled for the i386 does. No result (None) means that the interpreter does not come back:
  the bound on the depth of the calls is too small, it waits for a key that never comes, the division
  INT_MIN / -1 faults, or a format is read past the string table.
\<close>

subsection \<open>Variables\<close>

text \<open>A variable is in the current scope or global; the one declared last is found.\<close>

datatype place = Local nat | Global nat

definition last_named :: "bytes \<Rightarrow> var list \<Rightarrow> nat option" where
  "last_named name vs = map_option (\<lambda>j. length vs - 1 - j) (first_idx (\<lambda>j. vname (vs ! (length vs - 1 - j)) = name) (length vs))"

definition find_var :: "bytes \<Rightarrow> zbc \<Rightarrow> place option" where
  "find_var name z =
     (case (if 0 < scope_depth z then last_named name (scopes z (scope_depth z - 1)) else None) of
        Some i \<Rightarrow> Some (Local i)
      | None \<Rightarrow> map_option Global (last_named name (globals z)))"

definition get_var :: "place \<Rightarrow> zbc \<Rightarrow> u32" where
  "get_var p z = (case p of Local i \<Rightarrow> vval (scopes z (scope_depth z - 1) ! i) | Global i \<Rightarrow> vval (globals z ! i))"

definition put_var :: "place \<Rightarrow> u32 \<Rightarrow> zbc \<Rightarrow> zbc" where
  "put_var p v z =
     (case p of
        Local i \<Rightarrow> (let d = scope_depth z - 1; s = scopes z d in z\<lparr>scopes := (scopes z)(d := s[i := (s ! i)\<lparr>vval := v\<rparr>])\<rparr>)
      | Global i \<Rightarrow> z\<lparr>globals := (globals z)[i := (globals z ! i)\<lparr>vval := v\<rparr>]\<rparr>)"

definition set_local :: "bytes \<Rightarrow> u32 \<Rightarrow> zbc \<Rightarrow> zbc" where
  "set_local name v z =
     (let d = (if 0 < scope_depth z then scope_depth z - 1 else 0) in
      if MAX_VARS \<le> length (scopes z d) then zbc_err ''too many locals'' z
      else z\<lparr>scopes := (scopes z)(d := scopes z d @ [\<lparr>vname = name, vval = v\<rparr>])\<rparr>)"

subsection \<open>Operators\<close>

definition bool32 :: "bool \<Rightarrow> u32" where
  "bool32 b = (if b then 1 else 0)"

text \<open>Division and remainder of ints: 0 for a zero divisor, a fault for the overflow.\<close>

definition int_div :: "u32 \<Rightarrow> u32 \<Rightarrow> u32 option" where
  "int_div a b = (if b = 0 then Some 0 else if a = 0x80000000 \<and> b = -1 then None else Some (of_int (sint a sdiv sint b)))"

definition int_mod :: "u32 \<Rightarrow> u32 \<Rightarrow> u32 option" where
  "int_mod a b = (if b = 0 then Some 0 else if a = 0x80000000 \<and> b = -1 then None else Some (of_int (sint a smod sint b)))"

definition bin_value :: "tok \<Rightarrow> u32 \<Rightarrow> u32 \<Rightarrow> u32 option" where
  "bin_value op a b =
     (case op of
        T_PLUS \<Rightarrow> Some (a + b) | T_MINUS \<Rightarrow> Some (a - b) | T_STAR \<Rightarrow> Some (a * b)
      | T_SLASH \<Rightarrow> int_div a b | T_PCT \<Rightarrow> int_mod a b
      | T_EQ \<Rightarrow> Some (bool32 (a = b)) | T_NEQ \<Rightarrow> Some (bool32 (a \<noteq> b))
      | T_LT \<Rightarrow> Some (bool32 (sint a < sint b)) | T_GT \<Rightarrow> Some (bool32 (sint b < sint a))
      | T_LE \<Rightarrow> Some (bool32 (sint a \<le> sint b)) | T_GE \<Rightarrow> Some (bool32 (sint b \<le> sint a))
      | T_BAND \<Rightarrow> Some (a AND b) | T_BOR \<Rightarrow> Some (a OR b) | T_BXOR \<Rightarrow> Some (a XOR b)
      | T_SHL \<Rightarrow> Some (push_bit (unat (b AND 31)) a) | T_SHR \<Rightarrow> Some (signed_drop_bit (unat (b AND 31)) a)
      | _ \<Rightarrow> Some 0)"

definition un_value :: "tok \<Rightarrow> u32 \<Rightarrow> u32" where
  "un_value op a = (if op = T_MINUS then - a else if op = T_NOT then bool32 (a = 0) else a)"

definition assign_value :: "tok \<Rightarrow> u32 \<Rightarrow> u32 \<Rightarrow> u32 option" where
  "assign_value op old v =
     (case op of
        T_ASSIGN \<Rightarrow> Some v | T_PLUSEQ \<Rightarrow> Some (old + v) | T_MINUSEQ \<Rightarrow> Some (old - v) | T_STAREQ \<Rightarrow> Some (old * v)
      | T_SLASHEQ \<Rightarrow> int_div old v | _ \<Rightarrow> Some old)"

subsection \<open>The evaluator\<close>

text \<open>The functions of the evaluator and its loops, by their arguments: a node, the arguments of a call so far, the
  turns of a loop at a node, the statements from one on, a format from a position on.\<close>

datatype vgoal =
    Eval "nat option" | Call_args bytes "nat option" "u32 list" | While_turn nat | For_turn nat
  | Stmts "nat option" | Format nat "nat option"

type_synonym evaluator = "zbc \<Rightarrow> (u32 \<times> zbc) option"

definition str_at :: "nat \<Rightarrow> zbc \<Rightarrow> bytes" where
  "str_at off z = chars (drop off (strtab z))"

definition print_fmt :: "string \<Rightarrow> u32 \<Rightarrow> zbc \<Rightarrow> zbc option" where
  "print_fmt fmt v z = map_option (\<lambda>(s, n). z\<lparr>z_out := s\<rparr>) (kprintf (z_out z) (lit fmt) [ArgWord v])"

definition builtin :: "bytes \<Rightarrow> u32 list \<Rightarrow> zbc \<Rightarrow> (u32 \<times> zbc) option option" where
  "builtin name args z =
     (if name = lit ''print'' then
        Some (case args of [] \<Rightarrow> Some (0, z) | v # _ \<Rightarrow> do { z1 \<leftarrow> print_fmt ''%d'' v z; Some (0, zbc_say [10] z1) })
      else if name = lit ''putchar'' then
        Some (case args of [] \<Rightarrow> Some (0, z) | v # _ \<Rightarrow> Some (0, zbc_say [ucast v] z))
      else if name = lit ''getchar'' then
        Some (case z_keys z of [] \<Rightarrow> None | c # ks \<Rightarrow> Some (of_int c, z\<lparr>z_keys := ks\<rparr>))
      else if name = lit ''puts'' then Some (Some (0, z))
      else None)"

definition call_function :: "(vgoal \<Rightarrow> evaluator) \<Rightarrow> bytes \<Rightarrow> u32 list \<Rightarrow> evaluator" where
  "call_function rec name args z =
     (case builtin name args z of
        Some r \<Rightarrow> r
      | None \<Rightarrow>
          (case first_idx (\<lambda>i. fname (funcs z ! i) = name) (length (funcs z)) of
             None \<Rightarrow>
               (let z1 = zbc_err ''undefined function'' z in
                Some (0, zbc_say (lit ''       (called: '' @ name @ lit '')'' @ [10]) z1))
           | Some i \<Rightarrow>
               if MAX_CALL \<le> scope_depth z then Some (0, zbc_err ''call too deep'' z)
               else
                 let fn = funcs z ! i;
                     z1 = z\<lparr>scope_depth := scope_depth z + 1, scopes := (scopes z)(scope_depth z := [])\<rparr>;
                     z2 = foldl (\<lambda>z (p, a). set_local p a z) z1 (zip (fparams fn) args)
                 in do {
                   (_, z3) \<leftarrow> rec (Eval (Some (fbody fn))) (z2\<lparr>had_return := False, return_value := 0\<rparr>);
                   Some (return_value z3, z3\<lparr>had_return := False, scope_depth := scope_depth z3 - 1\<rparr>) }))"

definition undefined_msg :: "string \<Rightarrow> bytes \<Rightarrow> zbc \<Rightarrow> zbc" where
  "undefined_msg msg name z = zbc_say (lit ''       ('' @ name @ lit '')'' @ [10]) (zbc_err msg z)"

definition eval_assign :: "(vgoal \<Rightarrow> evaluator) \<Rightarrow> node \<Rightarrow> evaluator" where
  "eval_assign rec n z =
     (let lhs = nodes z ! the (nchild n ! 0) in
      do { (rv, z1) \<leftarrow> rec (Eval (nchild n ! 1)) z;
           (case find_var (nname lhs) z1 of
              None \<Rightarrow>
                (if nival lhs = 1 then Some (rv, set_local (nname lhs) rv z1)
                 else Some (rv, undefined_msg ''assign to undefined variable'' (nname lhs) z1))
            | Some p \<Rightarrow> do { v \<leftarrow> assign_value (nop n) (get_var p z1) rv; Some (v, put_var p v z1) }) })"

definition eval_bin :: "(vgoal \<Rightarrow> evaluator) \<Rightarrow> node \<Rightarrow> evaluator" where
  "eval_bin rec n z = do {
     (a, z1) \<leftarrow> rec (Eval (nchild n ! 0)) z;
     (if nop n = T_AND then
        (if a \<noteq> 0 then do { (b, z2) \<leftarrow> rec (Eval (nchild n ! 1)) z1; Some (bool32 (b \<noteq> 0), z2) } else Some (0, z1))
      else if nop n = T_OR then
        (if a \<noteq> 0 then Some (1, z1) else do { (b, z2) \<leftarrow> rec (Eval (nchild n ! 1)) z1; Some (bool32 (b \<noteq> 0), z2) })
      else do { (b, z2) \<leftarrow> rec (Eval (nchild n ! 1)) z1; v \<leftarrow> bin_value (nop n) a b; Some (v, z2) }) }"

text \<open>The index of the string literal that is the first argument.\<close>

definition str_arg_node :: "node \<Rightarrow> zbc \<Rightarrow> nat option" where
  "str_arg_node n z =
     (case nchild n ! 0 of None \<Rightarrow> None | Some a \<Rightarrow> if nkind (nodes z ! a) = N_STR then Some a else None)"

definition eval_call :: "(vgoal \<Rightarrow> evaluator) \<Rightarrow> node \<Rightarrow> evaluator" where
  "eval_call rec n z =
     (if nname n = lit ''puts'' then
        (case str_arg_node n z of
           None \<Rightarrow> Some (0, zbc_err ''puts needs a string'' z)
         | Some a \<Rightarrow> Some (0, zbc_say (str_at (nstr (nodes z ! a)) z @ [10]) z))
      else if nname n = lit ''printf'' then
        (case str_arg_node n z of
           None \<Rightarrow> Some (0, zbc_err ''printf needs a format string'' z)
         | Some a \<Rightarrow> rec (Format (nstr (nodes z ! a)) (nnext (nodes z ! a))) z)
      else rec (Call_args (nname n) (nchild n ! 0) []) z)"

text \<open>The conversion after a per cent sign, for the value of the next argument.\<close>

definition convert_arg :: "u8 \<Rightarrow> u32 \<Rightarrow> zbc \<Rightarrow> zbc option" where
  "convert_arg c v z =
     (if c = 0x64 \<or> c = 0x69 then print_fmt ''%d'' v z
      else if c = 0x75 then print_fmt ''%u'' v z
      else if c = 0x78 then print_fmt ''%x'' v z
      else if c = 0x63 then Some (zbc_say [ucast v] z)
      else Some (zbc_say [0x25, c] z))"

text \<open>The loop over the format from position q of the string table on; after a per cent sign at the end of the
  format it steps over the terminator.\<close>

definition eval_format :: "(vgoal \<Rightarrow> evaluator) \<Rightarrow> nat \<Rightarrow> nat option \<Rightarrow> evaluator" where
  "eval_format rec q arg z =
     (if MAX_STRTAB \<le> q then None
      else
        let c = strtab z ! q in
        if c = 0 then Some (0, z)
        else if c \<noteq> 0x25 then rec (Format (q + 1) arg) (zbc_say [c] z)
        else if MAX_STRTAB \<le> q + 1 then None
        else
          let d = strtab z ! (q + 1) in
          if d = 0x25 then rec (Format (q + 2) arg) (zbc_say [0x25] z)
          else if d = 0x73 then
            (case arg of
               Some a \<Rightarrow>
                 if nkind (nodes z ! a) = N_STR then rec (Format (q + 2) (nnext (nodes z ! a))) (zbc_say (str_at (nstr (nodes z ! a)) z) z)
                 else rec (Format (q + 2) arg) z
             | None \<Rightarrow> rec (Format (q + 2) arg) z)
          else do {
            (v, z1) \<leftarrow> (case arg of Some a \<Rightarrow> rec (Eval (Some a)) z | None \<Rightarrow> Some (0, z));
            z2 \<leftarrow> convert_arg d v z1;
            rec (Format (q + 2) (case arg of Some a \<Rightarrow> nnext (nodes z1 ! a) | None \<Rightarrow> None)) z2 })"

text \<open>At most eight arguments are evaluated.\<close>

definition call_args :: "(vgoal \<Rightarrow> evaluator) \<Rightarrow> bytes \<Rightarrow> nat option \<Rightarrow> u32 list \<Rightarrow> evaluator" where
  "call_args rec name c args z =
     (case c of
        Some a \<Rightarrow>
          if length args < 8 then do {
            (v, z1) \<leftarrow> rec (Eval c) z;
            rec (Call_args name (nnext (nodes z1 ! a)) (args @ [v])) z1 }
          else call_function rec name args z
      | None \<Rightarrow> call_function rec name args z)"

definition looping :: "zbc \<Rightarrow> bool" where
  "looping z \<longleftrightarrow> \<not> had_return z \<and> \<not> had_break z \<and> \<not> had_error z"

definition while_turn :: "(vgoal \<Rightarrow> evaluator) \<Rightarrow> nat \<Rightarrow> evaluator" where
  "while_turn rec i z =
     (if looping z then do {
        (c, z1) \<leftarrow> rec (Eval (nchild (nodes z ! i) ! 0)) z;
        (if c \<noteq> 0 then do {
           (_, z2) \<leftarrow> rec (Eval (nchild (nodes z ! i) ! 1)) (z1\<lparr>had_continue := False\<rparr>);
           rec (While_turn i) z2 }
         else Some (0, z1\<lparr>had_break := False\<rparr>)) }
      else Some (0, z\<lparr>had_break := False\<rparr>))"

text \<open>A part of a for loop that may be missing.\<close>

definition eval_opt :: "(vgoal \<Rightarrow> evaluator) \<Rightarrow> nat option \<Rightarrow> u32 \<Rightarrow> evaluator" where
  "eval_opt rec c dflt z = (if c = None then Some (dflt, z) else rec (Eval c) z)"

definition for_turn :: "(vgoal \<Rightarrow> evaluator) \<Rightarrow> nat \<Rightarrow> evaluator" where
  "for_turn rec i z =
     (let n = nodes z ! i in
      if looping z then do {
        (c, z1) \<leftarrow> eval_opt rec (nchild n ! 1) 1 z;
        (if c = 0 then Some (0, z1\<lparr>had_break := False\<rparr>)
         else do {
           (_, z2) \<leftarrow> eval_opt rec (nchild n ! 3) 0 (z1\<lparr>had_continue := False\<rparr>);
           (_, z3) \<leftarrow> eval_opt rec (nchild n ! 2) 0 (z2\<lparr>had_continue := False\<rparr>);
           rec (For_turn i) z3 }) }
      else Some (0, z\<lparr>had_break := False\<rparr>))"

definition eval_stmts :: "(vgoal \<Rightarrow> evaluator) \<Rightarrow> nat option \<Rightarrow> evaluator" where
  "eval_stmts rec c z =
     (case c of
        None \<Rightarrow> Some (0, z)
      | Some i \<Rightarrow>
          if looping z \<and> \<not> had_continue z then do { (_, z1) \<leftarrow> rec (Eval c) z; rec (Stmts (nnext (nodes z1 ! i))) z1 }
          else Some (0, z))"

definition eval_return :: "(vgoal \<Rightarrow> evaluator) \<Rightarrow> node \<Rightarrow> evaluator" where
  "eval_return rec n z =
     (case nchild n ! 0 of
        None \<Rightarrow> Some (return_value z, z\<lparr>had_return := True\<rparr>)
      | Some c \<Rightarrow> do { (v, z1) \<leftarrow> rec (Eval (Some c)) z; Some (v, z1\<lparr>return_value := v, had_return := True\<rparr>) })"

definition eval_node :: "(vgoal \<Rightarrow> evaluator) \<Rightarrow> nat \<Rightarrow> evaluator" where
  "eval_node rec i z =
     (let n = nodes z ! i in
      case nkind n of
        N_NUM \<Rightarrow> Some (nival n, z)
      | N_STR \<Rightarrow> Some (of_nat (nstr n), z)
      | N_VAR \<Rightarrow>
          (case find_var (nname n) z of
             None \<Rightarrow> Some (0, undefined_msg ''undefined variable'' (nname n) z)
           | Some p \<Rightarrow> Some (get_var p z, z))
      | N_ASSIGN \<Rightarrow> eval_assign rec n z
      | N_BIN \<Rightarrow> eval_bin rec n z
      | N_UN \<Rightarrow> do { (a, z1) \<leftarrow> rec (Eval (nchild n ! 0)) z; Some (un_value (nop n) a, z1) }
      | N_CALL \<Rightarrow> eval_call rec n z
      | N_IF \<Rightarrow> do {
          (c, z1) \<leftarrow> rec (Eval (nchild n ! 0)) z;
          (_, z2) \<leftarrow> (if c \<noteq> 0 then rec (Eval (nchild n ! 1)) z1 else eval_opt rec (nchild n ! 2) 0 z1);
          Some (0, z2) }
      | N_WHILE \<Rightarrow> rec (While_turn i) z
      | N_FOR \<Rightarrow> do { (_, z1) \<leftarrow> eval_opt rec (nchild n ! 0) 0 z; rec (For_turn i) z1 }
      | N_BLOCK \<Rightarrow> rec (Stmts (nchild n ! 0)) z
      | N_RETURN \<Rightarrow> eval_return rec n z
      | N_BREAK \<Rightarrow> Some (0, z\<lparr>had_break := True\<rparr>)
      | N_CONT \<Rightarrow> Some (0, z\<lparr>had_continue := True\<rparr>)
      | N_EXPR_STMT \<Rightarrow> rec (Eval (nchild n ! 0)) z
      | _ \<Rightarrow> Some (0, z))"

definition eval_step :: "(vgoal \<Rightarrow> evaluator) \<Rightarrow> vgoal \<Rightarrow> evaluator" where
  "eval_step rec g z =
     (case g of
        Eval idx \<Rightarrow> (case idx of None \<Rightarrow> Some (0, z) | Some i \<Rightarrow> if had_error z then Some (0, z) else eval_node rec i z)
      | Call_args name c args \<Rightarrow> call_args rec name c args z
      | While_turn i \<Rightarrow> while_turn rec i z
      | For_turn i \<Rightarrow> for_turn rec i z
      | Stmts c \<Rightarrow> eval_stmts rec c z
      | Format q arg \<Rightarrow> eval_format rec q arg z)"

primrec eval :: "nat \<Rightarrow> vgoal \<Rightarrow> evaluator" where
  "eval 0 = (\<lambda>g z. None)"
| "eval (Suc f) = eval_step (eval f)"

subsection \<open>Running a program\<close>

definition zbe_magic :: bytes where "zbe_magic = lit ''ZBE!''"

text \<open>What read_source makes of the n bytes it has read: terminated, and without the header if there is one.\<close>

definition strip_header :: "bytes \<Rightarrow> bytes" where
  "strip_header bs = (if 8 \<le> length bs \<and> take 4 bs = zbe_magic then drop 8 bs else bs)"

text \<open>The program in a file; the inner None is an error, with its message on the console con.\<close>

definition zbc_read_source :: "bytes \<Rightarrow> bytes \<Rightarrow> 'd fsys \<Rightarrow> (bytes option \<times> bytes \<times> 'd fsys) option" where
  "zbc_read_source path con F = do {
     (F1, h) \<leftarrow> fs_open F path;
     (if h < 0 then Some (None, con @ lit ''ZBC: cannot open '' @ chars path @ [10], F1)
      else
        let sz = fs_size F1 h in
        if sz \<le> 0 \<or> int MAX_SRC \<le> sz then Some (None, con @ lit ''ZBC: source too big or empty'' @ [10], fst (fs_close F1 h))
        else do {
          (F2, bs, n) \<leftarrow> fs_read F1 h (nat sz);
          (if n < 0 then Some (None, con @ lit ''ZBC: read failed'' @ [10], fst (fs_close F2 h))
           else Some (Some (strip_header bs), con, fst (fs_close F2 h))) }) }"

text \<open>The bytes zbc_compile writes for a program text.\<close>

definition zbe_file :: "bytes \<Rightarrow> bytes" where
  "zbe_file s = zbe_magic @ [0, 0, 0, 0] @ chars s"

definition zbc_compile :: "bytes \<Rightarrow> bytes \<Rightarrow> bytes \<Rightarrow> 'd fsys \<Rightarrow> (int \<times> bytes \<times> 'd fsys) option" where
  "zbc_compile src_path out_path con F = do {
     (src, con1, F1) \<leftarrow> zbc_read_source src_path con F;
     (case src of
        None \<Rightarrow> Some (-1, con1, F1)
      | Some s \<Rightarrow> do {
          (F2, _) \<leftarrow> fs_unlink F1 out_path;
          (F3, made) \<leftarrow> fs_create F2 out_path;
          (if made < 0 then Some (-1, con1 @ lit ''ZBC: cannot create '' @ chars out_path @ [10], F3)
           else do {
             (F4, h) \<leftarrow> fs_open F3 out_path;
             (if h < 0 then Some (-1, con1, F4)
              else do {
                (F5, _) \<leftarrow> fs_write F4 h (take 8 (zbe_file s));
                (F6, _) \<leftarrow> fs_write F5 h (drop 8 (zbe_file s));
                Some (0, con1, fst (fs_close F6 h)) }) }) }) }"

text \<open>The state zbc_run starts from: the counters and flags are cleared, the tables keep what they hold.\<close>

definition zbc_start :: "bytes \<Rightarrow> zbc \<Rightarrow> zbc" where
  "zbc_start con z =
     z\<lparr>tok_count := 0, tok_pos := 0, strtab_pos := 0, nodes := [], funcs := [], globals := [], scope_depth := 0,
       had_error := False, had_return := False, had_break := False, had_continue := False, z_out := con\<rparr>"

text \<open>zbc_run on a program text: the parser gets the bound pf, the evaluator the bound f.\<close>

definition zbc_exec :: "nat \<Rightarrow> nat \<Rightarrow> bytes \<Rightarrow> bytes \<Rightarrow> zbc \<Rightarrow> (u32 \<times> zbc) option" where
  "zbc_exec pf f src con z =
     (case tokenize src (zbc_start con z) of
        (ok, z1) \<Rightarrow>
          if \<not> ok then Some (-1, z1)
          else do {
            z2 \<leftarrow> parse_program pf z1;
            (if had_error z2 then Some (-1, z2) else call_function (eval f) (lit ''main'') [] z2) })"

definition zbc_run :: "nat \<Rightarrow> nat \<Rightarrow> bytes \<Rightarrow> zbc \<Rightarrow> bytes \<Rightarrow> 'd fsys \<Rightarrow> (u32 \<times> zbc \<times> bytes \<times> 'd fsys) option" where
  "zbc_run pf f path z con F = do {
     (src, con1, F1) \<leftarrow> zbc_read_source path con F;
     (case src of
        None \<Rightarrow> Some (-1, z, con1, F1)
      | Some s \<Rightarrow> do { (v, z1) \<leftarrow> zbc_exec pf f s con1 z; Some (v, z1, z_out z1, F1) }) }"

end
