(* ===== verification/ZbcFuel.thy ===== *)
theory ZbcFuel
  imports ZbcEval Fuel
begin

text \<open>
  More fuel keeps the results of the parser and the evaluator of shell/zbc.c.
\<close>

lemma expr_step_le:
  assumes "\<And>g z. opt_le (rec g z) (rec' g z)"
  shows "opt_le (expr_step rec g z) (expr_step rec' g z)"
  unfolding expr_step_def parse_primary_def parse_call_def parse_args_def parse_binop_def binop_loop_def cparse_expr_def Let_def
  by (cases g; simp only: egoal.case) (intro fuel assms)+

interpretation pe: fuelled "\<lambda>_. expr_step" parse_e
  by unfold_locales (simp_all add: expr_step_le)

lemma parse_parts_le:
  assumes "\<And>z. opt_le (ex z) (ex' z)"
  shows "opt_le (parse_opt ex t z) (parse_opt ex' t z)" and "opt_le (parse_after ex t z) (parse_after ex' t z)"
    and "opt_le (parse_cond ex z) (parse_cond ex' z)" and "opt_le (parse_return ex z) (parse_return ex' z)"
  unfolding parse_opt_def parse_after_def parse_cond_def parse_return_def by (intro fuel assms)+

lemma parse_decl_le: "(\<And>z. opt_le (ex z) (ex' z)) \<Longrightarrow> opt_le (parse_decl ex z) (parse_decl ex' z)"
  unfolding parse_decl_def by (intro fuel parse_parts_le)

lemma parse_stmt_le:
  assumes "\<And>z. opt_le (ex z) (ex' z)" and "\<And>g z. opt_le (rec g z) (rec' g z)"
  shows "opt_le (parse_stmt ex rec z) (parse_stmt ex' rec' z)"
  unfolding parse_stmt_def parse_if_def parse_while_def parse_for_def Let_def
  by (intro fuel assms parse_parts_le parse_decl_le)

lemma stmt_step_le:
  assumes "\<And>z. opt_le (ex z) (ex' z)" and "\<And>g z. opt_le (rec g z) (rec' g z)"
  shows "opt_le (stmt_step ex rec g z) (stmt_step ex' rec' g z)"
  unfolding stmt_step_def
  by (cases g; simp only: sgoal.case parse_block_def block_loop_def parse_for_rest_def Let_def)
    (intro fuel assms parse_parts_le parse_stmt_le)+

interpretation ps: fuelled "\<lambda>f. stmt_step (parse_e f Expr)" parse_s
  by unfold_locales (simp_all add: stmt_step_le pe.run_le)

lemma parse_params_le: "f \<le> f' \<Longrightarrow> opt_le (parse_params f ps z) (parse_params f' ps z)"
proof (induction f arbitrary: f' ps z)
  case (Suc f)
  then obtain k where k: "f' = Suc k" "f \<le> k" by (cases f') auto
  show ?case unfolding k(1) parse_params.simps Let_def by (intro fuel Suc.IH k(2))
qed (simp add: opt_le_None)

lemma parse_func_le: "f \<le> f' \<Longrightarrow> opt_le (parse_func f v z) (parse_func f' v z)"
  unfolding parse_func_def Let_def by (intro fuel parse_params_le ps.run_le)

lemma parse_program_le: "f \<le> f' \<Longrightarrow> opt_le (parse_program f z) (parse_program f' z)"
proof (induction f arbitrary: f' z)
  case (Suc f)
  then obtain k where k: "f' = Suc k" "f \<le> k" by (cases f') auto
  show ?case unfolding k(1) parse_program.simps by (intro fuel Suc.IH parse_func_le k(2))
qed (simp add: opt_le_None)

lemma eval_node_le:
  assumes "\<And>g z. opt_le (rec g z) (rec' g z)"
  shows "opt_le (eval_node rec i z) (eval_node rec' i z)"
proof -
  have "opt_le (eval_assign rec n z) (eval_assign rec' n z)" "opt_le (eval_bin rec n z) (eval_bin rec' n z)"
    "opt_le (eval_call rec n z) (eval_call rec' n z)" "opt_le (eval_opt rec c d z) (eval_opt rec' c d z)"
    "opt_le (eval_return rec n z) (eval_return rec' n z)" for n c d z
    unfolding eval_assign_def eval_bin_def eval_call_def eval_opt_def eval_return_def Let_def by (intro fuel assms)+
  then show ?thesis
    unfolding eval_node_def Let_def
    by (cases "nkind (nodes z ! i)"; simp only: nkind.case) (intro fuel assms | assumption)+
qed

lemma call_function_le:
  "(\<And>g z. opt_le (rec g z) (rec' g z)) \<Longrightarrow> opt_le (call_function rec name args z) (call_function rec' name args z)"
  unfolding call_function_def Let_def by (intro fuel)

lemma eval_step_le:
  assumes "\<And>g z. opt_le (rec g z) (rec' g z)"
  shows "opt_le (eval_step rec g z) (eval_step rec' g z)"
proof -
  have "opt_le (eval_opt rec c d z) (eval_opt rec' c d z)" for c d z unfolding eval_opt_def by (intro fuel assms)
  then show ?thesis
    unfolding eval_step_def
    by (cases g; simp only: vgoal.case call_args_def while_turn_def for_turn_def eval_stmts_def eval_format_def Let_def)
      (intro fuel assms eval_node_le call_function_le | assumption)+
qed

interpretation ev: fuelled "\<lambda>_. eval_step" eval
  by unfold_locales (simp_all add: eval_step_le)

lemma zbc_exec_le: "pf \<le> pf' \<Longrightarrow> f \<le> f' \<Longrightarrow> opt_le (zbc_exec pf f src con z) (zbc_exec pf' f' src con z)"
  unfolding zbc_exec_def by (intro fuel parse_program_le call_function_le ev.run_le)

lemma zbc_run_le: "pf \<le> pf' \<Longrightarrow> f \<le> f' \<Longrightarrow> opt_le (zbc_run pf f path z con F) (zbc_run pf' f' path z con F)"
  unfolding zbc_run_def by (intro fuel zbc_exec_le)

end
