(* ===== verification/ZbcWf.thy ===== *)
theory ZbcWf
  imports ZbcFuel
begin

text \<open>
  The parser of shell/zbc.c builds a well-formed node table: as long as no error was reported, every link
  of a node stays inside the table, an assignment has a variable on its left, a string literal points into
  the string table, and no token past the end marker was read.
\<close>

subsection \<open>Well-formed states\<close>

definition ref_ok :: "node list \<Rightarrow> nat option \<Rightarrow> bool" where
  "ref_ok ns c \<longleftrightarrow> (\<forall>i. c = Some i \<longrightarrow> i < length ns)"

definition node_ok :: "node list \<Rightarrow> nat \<Rightarrow> node \<Rightarrow> bool" where
  "node_ok ns sp n \<longleftrightarrow> length (nchild n) = 4 \<and> (\<forall>c\<in>set (nchild n). ref_ok ns c) \<and> ref_ok ns (nnext n)
     \<and> (nkind n = N_ASSIGN \<longrightarrow> (\<exists>v. nchild n ! 0 = Some v \<and> v < length ns \<and> nkind (ns ! v) = N_VAR))
     \<and> (nkind n = N_STR \<longrightarrow> nstr n < sp)"

definition nodes_ok :: "node list \<Rightarrow> nat \<Rightarrow> bool" where
  "nodes_ok ns sp \<longleftrightarrow> length ns \<le> MAX_NODES \<and> (\<forall>n\<in>set ns. node_ok ns sp n)"

definition tokens_ok :: "zbc \<Rightarrow> bool" where
  "tokens_ok z \<longleftrightarrow> tk_kind (toks z (tok_count z)) = T_EOF \<and>
     (\<forall>i<tok_count z. tk_kind (toks z i) = T_STR \<longrightarrow> tk_str_off (toks z i) < strtab_pos z)"

definition ok :: "zbc \<Rightarrow> bool" where
  "ok z \<longleftrightarrow> (\<not> had_error z \<longrightarrow> nodes_ok (nodes z) (strtab_pos z) \<and> tokens_ok z \<and> tok_pos z \<le> tok_count z)"

text \<open>What later steps keep of a state: the tokens, the strings, the functions, the scopes and the kinds of the nodes.\<close>

definition ext :: "zbc \<Rightarrow> zbc \<Rightarrow> bool" where
  "ext z z' \<longleftrightarrow> toks z' = toks z \<and> tok_count z' = tok_count z \<and> strtab_pos z' = strtab_pos z \<and> funcs z' = funcs z
     \<and> scope_depth z' = scope_depth z \<and> globals z' = globals z \<and> length (nodes z) \<le> length (nodes z') \<and> (\<not> had_error z' \<longrightarrow> \<not> had_error z)
     \<and> (\<forall>i<length (nodes z). nkind (nodes z' ! i) = nkind (nodes z ! i))"

definition node_in :: "zbc \<Rightarrow> nat \<Rightarrow> bool" where
  "node_in z n \<longleftrightarrow> (\<not> had_error z \<longrightarrow> n < length (nodes z))"

definition is_kind :: "zbc \<Rightarrow> nkind \<Rightarrow> nat \<Rightarrow> bool" where
  "is_kind z k n \<longleftrightarrow> (\<not> had_error z \<longrightarrow> n < length (nodes z) \<and> nkind (nodes z ! n) = k)"

lemma ext_refl [simp]: "ext z z"
  by (simp add: ext_def)

lemma ext_trans: "ext z z1 \<Longrightarrow> ext z1 z2 \<Longrightarrow> ext z z2"
  by (auto simp: ext_def)

lemma ext_node_in: "ext z z1 \<Longrightarrow> node_in z n \<Longrightarrow> node_in z1 n"
  by (auto simp: ext_def node_in_def)

lemma ext_is_kind: "ext z z1 \<Longrightarrow> is_kind z k n \<Longrightarrow> is_kind z1 k n"
  by (auto simp: ext_def is_kind_def)

lemma is_kind_in: "is_kind z k n \<Longrightarrow> node_in z n"
  by (simp add: is_kind_def node_in_def)

lemma ok_error: "had_error z \<Longrightarrow> ok z"
  by (simp add: ok_def)

text \<open>Nodes stay well-formed when the table grows and kinds are kept.\<close>

lemma node_ok_grow:
  assumes "node_ok ns sp n" and "length ns \<le> length ns'" and "\<And>i. i < length ns \<Longrightarrow> nkind (ns' ! i) = nkind (ns ! i)"
  shows "node_ok ns' sp n"
proof -
  have "ref_ok ns' c" if "ref_ok ns c" for c using that assms(2) by (auto simp: ref_ok_def)
  then show ?thesis using assms unfolding node_ok_def by (metis order.strict_trans2)
qed

subsection \<open>The primitives\<close>

named_theorems keeps \<open>what the operations on tokens and nodes keep\<close>

lemma err_keeps [keeps]: "ext z (zbc_err m z)" "ok (zbc_err m z)" "had_error (zbc_err m z)"
  by (simp_all add: zbc_err_def zbc_say_def ext_def ok_def)

lemma advance_ext [keeps]: "ext z (snd (advance z))"
  by (simp add: advance_def ext_def)

lemma advance_ok: "ok z \<Longrightarrow> tk_kind (peek z) \<noteq> T_EOF \<Longrightarrow> ok (snd (advance z))"
  by (auto simp: ok_def advance_def peek_def tokens_ok_def le_less)

lemma advance_fst: "fst (advance z) = peek z"
  by (simp add: advance_def peek_def)

lemma peek_str: "ok z \<Longrightarrow> \<not> had_error z \<Longrightarrow> tk_kind (peek z) = T_STR \<Longrightarrow> tk_str_off (peek z) < strtab_pos z"
  by (auto simp: ok_def peek_def tokens_ok_def le_less)

lemma accept_keeps: "accept t z = (b, z1) \<Longrightarrow> t \<noteq> T_EOF \<Longrightarrow> ok z \<Longrightarrow> ext z z1 \<and> ok z1"
  using advance_ext [of z] advance_ok [of z] by (auto simp: accept_def split: if_splits)

lemma expect_keeps [keeps]: "t \<noteq> T_EOF \<Longrightarrow> ok z \<Longrightarrow> ext z (expect t m z) \<and> ok (expect t m z)"
  using accept_keeps [of t z] err_keeps unfolding expect_def
  by (cases "accept t z") (auto intro: ext_trans)

lemma blank_fields: "nkind (blank_node k) = k" "nchild (blank_node k) = [None, None, None, None]" "nnext (blank_node k) = None"
  by (simp_all add: blank_node_def)

text \<open>Replacing a node by a well-formed one of the same kind.\<close>

lemma upd_node_keeps:
  assumes "ok z" and "node_in z n"
    and "\<And>d. nkind (g d) = nkind d"
    and "\<not> had_error z \<Longrightarrow> node_ok (nodes z) (strtab_pos z) (g (nodes z ! n))"
  shows "ext z (upd_node n g z) \<and> ok (upd_node n g z)"
proof -
  have k: "nkind ((nodes z)[n := g (nodes z ! n)] ! i) = nkind (nodes z ! i)" if "i < length (nodes z)" for i
    using that assms(3) by (cases "i = n") simp_all
  have "nodes_ok ((nodes z)[n := g (nodes z ! n)]) (strtab_pos z)" if "\<not> had_error z"
  proof -
    have t: "nodes_ok (nodes z) (strtab_pos z)" using assms(1) that by (simp add: ok_def)
    have "node_ok (nodes z) (strtab_pos z) d" if "d \<in> set ((nodes z)[n := g (nodes z ! n)])" for d
      using set_update_subset_insert [of "nodes z" n] that t assms(4) \<open>\<not> had_error z\<close> by (auto simp: nodes_ok_def)
    then have "node_ok ((nodes z)[n := g (nodes z ! n)]) (strtab_pos z) d" if "d \<in> set ((nodes z)[n := g (nodes z ! n)])" for d
      using node_ok_grow [of "nodes z" "strtab_pos z" d "(nodes z)[n := g (nodes z ! n)]"] k that by simp
    then show ?thesis using t by (simp add: nodes_ok_def)
  qed
  with assms(1) k show ?thesis by (auto simp: upd_node_def ext_def ok_def tokens_ok_def)
qed

lemma new_node_keeps:
  assumes "ok z" and "k \<noteq> N_ASSIGN" and "k \<noteq> N_STR" and "new_node k z = (n, z1)"
  shows "ext z z1 \<and> ok z1 \<and> is_kind z1 k n"
proof (cases "MAX_NODES \<le> length (nodes z)")
  case True
  then show ?thesis using assms(4) err_keeps by (auto simp: new_node_def is_kind_def)
next
  case False
  then have e: "n = length (nodes z)" "z1 = z\<lparr>nodes := nodes z @ [blank_node k]\<rparr>" using assms(4) by (simp_all add: new_node_def)
  have t: "nodes_ok (nodes z @ [blank_node k]) (strtab_pos z)" if "nodes_ok (nodes z) (strtab_pos z)"
  proof -
    have "node_ok (nodes z @ [blank_node k]) (strtab_pos z) d" if "d \<in> set (nodes z @ [blank_node k])" for d
      using that \<open>nodes_ok (nodes z) (strtab_pos z)\<close> assms(2,3)
        node_ok_grow [of "nodes z" "strtab_pos z" d "nodes z @ [blank_node k]"]
      by (auto simp: nodes_ok_def nth_append) (auto simp: node_ok_def ref_ok_def blank_fields)
    then show ?thesis using False that by (auto simp: nodes_ok_def)
  qed
  then show ?thesis using assms(1) by (auto simp: e ext_def ok_def is_kind_def tokens_ok_def nth_append blank_fields)
qed

lemma upd_node_ext: "(\<And>d. nkind (g d) = nkind d) \<Longrightarrow> ext z (upd_node n g z)"
proof -
  assume g: "\<And>d. nkind (g d) = nkind d"
  have "nkind ((nodes z)[n := g (nodes z ! n)] ! i) = nkind (nodes z ! i)" if "i < length (nodes z)" for i
    using that g by (cases "i = n") simp_all
  then show ?thesis by (simp add: upd_node_def ext_def)
qed

lemma make_node_keeps:
  assumes "ok z" and "\<And>d. nkind (g d) = nkind d" and "make_node k g z = (n, z1)"
    and "\<not> had_error z \<Longrightarrow> node_ok (nodes z) (strtab_pos z) (g (blank_node k))"
  shows "ext z z1 \<and> ok z1 \<and> is_kind z1 k n"
proof (cases "MAX_NODES \<le> length (nodes z)")
  case True
  then have z1: "z1 = upd_node 0 g (zbc_err ''too many AST nodes'' z)" using assms(3) by (simp add: make_node_def new_node_def)
  have e: "had_error z1" using err_keeps(3) by (simp add: z1 upd_node_def)
  have "ext z z1" unfolding z1 by (rule ext_trans [OF err_keeps(1) upd_node_ext [OF assms(2)]])
  with e show ?thesis by (simp add: ok_error is_kind_def)
next
  case False
  define ns where "ns = nodes z @ [g (blank_node k)]"
  have e: "n = length (nodes z)" "z1 = z\<lparr>nodes := ns\<rparr>" using False assms(3) by (simp_all add: make_node_def new_node_def upd_node_def ns_def)
  have "nodes_ok ns (strtab_pos z)" if "\<not> had_error z"
  proof -
    have t: "nodes_ok (nodes z) (strtab_pos z)" using assms(1) that by (simp add: ok_def)
    have "node_ok ns (strtab_pos z) d" if "d \<in> set ns" for d
      using that t assms(4) \<open>\<not> had_error z\<close> node_ok_grow [of "nodes z" "strtab_pos z" d ns]
      by (auto simp: nodes_ok_def ns_def nth_append)
    then show ?thesis using False t by (simp add: nodes_ok_def ns_def)
  qed
  then show ?thesis using assms(1,2) by (auto simp: e ext_def ok_def is_kind_def tokens_ok_def ns_def nth_append blank_fields)
qed

text \<open>A state after a step later z, and a result of a step: a node of the new state.\<close>

definition later :: "zbc \<Rightarrow> zbc \<Rightarrow> bool" where
  "later z z1 \<longleftrightarrow> ext z z1 \<and> ok z1"

lemma later_trans: "later z z1 \<Longrightarrow> later z1 z2 \<Longrightarrow> later z z2"
  by (auto simp: later_def intro: ext_trans)

lemma later_in: "later z z1 \<Longrightarrow> node_in z n \<Longrightarrow> node_in z1 n" and later_kind: "later z z1 \<Longrightarrow> is_kind z k n \<Longrightarrow> is_kind z1 k n"
  by (auto simp: later_def intro: ext_node_in ext_is_kind)

lemma later_expect: "t \<noteq> T_EOF \<Longrightarrow> ok z \<Longrightarrow> later z (expect t m z)"
  using expect_keeps by (simp add: later_def)

lemma later_err: "later z (zbc_err m z)"
  using err_keeps by (simp add: later_def)

lemma later_accept: "accept t z = (b, z1) \<Longrightarrow> t \<noteq> T_EOF \<Longrightarrow> ok z \<Longrightarrow> later z z1"
  using accept_keeps by (auto simp: later_def)

lemma later_advance: "ok z \<Longrightarrow> tk_kind (peek z) \<noteq> T_EOF \<Longrightarrow> later z (snd (advance z))"
  using advance_ok advance_ext by (simp add: later_def)

lemma later_ok: "later z z1 \<Longrightarrow> ok z1"
  by (simp add: later_def)

text \<open>Node fields that refer to nodes of the state.\<close>

definition opt_in :: "zbc \<Rightarrow> nat option \<Rightarrow> bool" where
  "opt_in z c \<longleftrightarrow> (\<forall>n. c = Some n \<longrightarrow> node_in z n)"

lemma opt_in_simps [simp]: "opt_in z None" "opt_in z (Some n) = node_in z n"
  by (simp_all add: opt_in_def)

lemma later_opt_in: "later z z1 \<Longrightarrow> opt_in z c \<Longrightarrow> opt_in z1 c"
  by (auto simp: opt_in_def intro: later_in)

lemma fill_kind [simp]: "nkind (fill op cs d) = nkind d"
  by (simp add: fill_def)

text \<open>A new node over children that are there.\<close>

lemma make_fill:
  assumes "ok z" and "make_node k (fill op cs) z = (n, z1)" and "length cs \<le> 4" and "\<forall>c\<in>set cs. opt_in z c"
    and "k = N_ASSIGN \<Longrightarrow> \<exists>v c. cs = [Some v, c] \<and> is_kind z N_VAR v" and "k \<noteq> N_STR"
  shows "later z z1 \<and> node_in z1 n"
proof -
  have "node_ok (nodes z) (strtab_pos z) (fill op cs (blank_node k))" if "\<not> had_error z"
  proof -
    have "set (cs @ drop (length cs) [None, None, None, None]) \<subseteq> insert None (set cs)"
      using set_drop_subset [of "length cs" "[None, None, None, None]"] by auto
    then show ?thesis
      using that assms(3-6) by (auto simp: node_ok_def fill_def blank_fields ref_ok_def opt_in_def node_in_def is_kind_def)
  qed
  from make_node_keeps [OF assms(1) _ assms(2) this] show ?thesis by (auto simp: later_def intro: is_kind_in)
qed

text \<open>Setting one link of a node to a node that is there.\<close>

lemma set_child_keeps:
  assumes "ok z" and "is_kind z k n" and "k \<noteq> N_ASSIGN" and "opt_in z c"
  shows "later z (set_child n j c z)"
proof -
  have "node_ok (nodes z) (strtab_pos z) ((nodes z ! n)\<lparr>nchild := (nchild (nodes z ! n))[j := c]\<rparr>)" if e: "\<not> had_error z"
  proof -
    have "node_ok (nodes z) (strtab_pos z) (nodes z ! n)" "nkind (nodes z ! n) \<noteq> N_ASSIGN"
      using assms e by (auto simp: ok_def nodes_ok_def is_kind_def)
    moreover have "ref_ok (nodes z) c" using assms(4) e by (auto simp: opt_in_def ref_ok_def node_in_def)
    ultimately show ?thesis using set_update_subset_insert [of "nchild (nodes z ! n)" j c] by (auto simp: node_ok_def)
  qed
  with upd_node_keeps [OF assms(1) is_kind_in [OF assms(2)], of "\<lambda>d. d\<lparr>nchild := (nchild d)[j := c]\<rparr>"]
  show ?thesis by (simp add: set_child_def later_def)
qed

lemma set_field_keeps:
  assumes "ok z" and "node_in z n"
    and "\<And>d. nkind (g d) = nkind d" and "\<And>d. nchild (g d) = nchild d" and "\<And>d. nstr (g d) = nstr d"
    and "\<And>d. nnext (g d) = nnext d \<or> (\<exists>a. nnext (g d) = Some a \<and> node_in z a)"
  shows "later z (upd_node n g z)"
proof -
  have "node_ok (nodes z) (strtab_pos z) (g (nodes z ! n))" if e: "\<not> had_error z"
  proof -
    have "node_ok (nodes z) (strtab_pos z) (nodes z ! n)" using assms(1,2) e by (auto simp: ok_def nodes_ok_def node_in_def)
    moreover have "ref_ok (nodes z) (nnext (g (nodes z ! n)))"
      using assms(6) [of "nodes z ! n"] calculation e by (auto simp: node_ok_def ref_ok_def node_in_def)
    ultimately show ?thesis by (auto simp: node_ok_def assms(3-5))
  qed
  with upd_node_keeps [OF assms(1-3)] show ?thesis by (simp add: later_def)
qed

lemma link_keeps:
  assumes "ok z" and "is_kind z k n" and "k \<noteq> N_ASSIGN" and "opt_in z prev" and "node_in z a"
  shows "later z (link_node n prev a z)"
proof (cases prev)
  case None
  with set_child_keeps [OF assms(1-3), of "Some a" 0] assms(5) show ?thesis by (simp add: link_node_def)
next
  case (Some p)
  with set_field_keeps [OF assms(1), of p "\<lambda>d. d\<lparr>nnext := Some a\<rparr>"] assms(4,5) show ?thesis by (simp add: link_node_def)
qed

subsection \<open>Expressions\<close>

text \<open>What a step gives: a later state, and a value that is right for it: a node, an optional node, or any number.\<close>

definition res :: "(zbc \<Rightarrow> 'a \<Rightarrow> bool) \<Rightarrow> zbc \<Rightarrow> ('a \<times> zbc) option \<Rightarrow> bool" where
  "res Q z r \<longleftrightarrow> (\<forall>x z'. r = Some (x, z') \<longrightarrow> later z z' \<and> Q z' x)"

abbreviation good :: "zbc \<Rightarrow> (nat \<times> zbc) option \<Rightarrow> bool" where "good \<equiv> res node_in"

abbreviation ogood :: "zbc \<Rightarrow> (nat option \<times> zbc) option \<Rightarrow> bool" where "ogood \<equiv> res opt_in"

abbreviation fine :: "zbc \<Rightarrow> ('a \<times> zbc) option \<Rightarrow> bool" where "fine \<equiv> res (\<lambda>_ _. True)"

lemma res_later: "later z z1 \<Longrightarrow> res Q z1 r \<Longrightarrow> res Q z r"
  unfolding res_def by (blast intro: later_trans)

lemma res_bind:
  assumes "res Q z a" and "\<And>x z1. later z z1 \<Longrightarrow> ok z1 \<Longrightarrow> Q z1 x \<Longrightarrow> res R z1 (f x z1)"
  shows "res R z (a \<bind> (\<lambda>(x, z1). f x z1))"
proof (cases a)
  case None
  then show ?thesis by (simp add: res_def)
next
  case (Some p)
  obtain x z1 where p: "p = (x, z1)" by (cases p)
  with Some assms(1) have "later z z1" "Q z1 x" by (simp_all add: res_def)
  with assms(2) [of z1 x] Some p show ?thesis by (auto dest: later_ok intro: res_later)
qed

lemma good_Some: "later z z1 \<Longrightarrow> node_in z1 n \<Longrightarrow> good z (Some (n, z1))"
  by (simp add: res_def)

lemma good_new: "ok z \<Longrightarrow> k \<noteq> N_ASSIGN \<Longrightarrow> k \<noteq> N_STR \<Longrightarrow> good z (Some (new_node k z))"
  using new_node_keeps [of z k] by (cases "new_node k z") (auto simp: res_def later_def intro: is_kind_in)

lemma good_fill:
  assumes "ok z" and "length cs \<le> 4" and "\<forall>c\<in>set cs. opt_in z c"
    and "k = N_ASSIGN \<Longrightarrow> \<exists>v c. cs = [Some v, c] \<and> is_kind z N_VAR v" and "k \<noteq> N_STR"
  shows "good z (Some (make_node k (fill op cs) z))"
  using make_fill [OF assms(1) _ assms(2-5)] by (cases "make_node k (fill op cs) z") (auto simp: res_def)

definition egoal_ok :: "egoal \<Rightarrow> zbc \<Rightarrow> bool" where
  "egoal_ok g z =
     (case g of
        Args n prev argi \<Rightarrow> is_kind z N_CALL n \<and> opt_in z prev
      | Binop prec \<Rightarrow> 1 \<le> prec
      | Binop_loop prec lhs \<Rightarrow> 1 \<le> prec \<and> node_in z lhs
      | _ \<Rightarrow> True)"

definition egood :: "egoal \<Rightarrow> zbc \<Rightarrow> (nat \<times> zbc) option \<Rightarrow> bool" where
  "egood g z r = (case g of Args n prev argi \<Rightarrow> fine z r | _ \<Rightarrow> good z r)"

lemma bin_prec_pos: "1 \<le> p \<Longrightarrow> p \<le> bin_prec k \<Longrightarrow> k \<noteq> T_EOF"
  by (cases k) (simp_all add: bin_prec_def)

text \<open>A leaf: a new node with a field taken from the token.\<close>

lemma leaf_keeps:
  assumes "ok z" and "k \<noteq> N_ASSIGN" and "k \<noteq> N_STR"
    and "\<And>d. nkind (g d) = nkind d" and "\<And>d. nchild (g d) = nchild d" and "\<And>d. nnext (g d) = nnext d" and "make_node k g z = (n, z1)"
  shows "later z z1 \<and> is_kind z1 k n"
proof -
  have "node_ok (nodes z) (strtab_pos z) (g (blank_node k))"
    using assms(2,3) by (auto simp: node_ok_def ref_ok_def blank_fields assms(4-6))
  from make_node_keeps [OF assms(1,4,7) this] show ?thesis by (simp add: later_def)
qed

lemma parse_call_good:
  assumes rec: "\<And>g z. ok z \<Longrightarrow> egoal_ok g z \<Longrightarrow> egood g z (rec g z)" and "ok z" and "tk_kind (peek z) = T_LPAR"
  shows "good z (parse_call rec name z)"
proof -
  obtain n z1 where m: "make_node N_CALL (\<lambda>d. d\<lparr>nname := name\<rparr>) (snd (advance z)) = (n, z1)" by fastforce
  have a: "later z (snd (advance z))" using assms(2,3) by (intro later_advance) auto
  have l: "later (snd (advance z)) z1" "is_kind z1 N_CALL n" using leaf_keeps [OF later_ok [OF a] _ _ _ _ _ m] by simp_all
  have "fine z1 (rec (Args n None 0) z1)"
    using rec [OF later_ok [OF l(1)], of "Args n None 0"] l(2) by (simp add: egoal_ok_def egood_def)
  then have "good z1 (rec (Args n None 0) z1 \<bind> (\<lambda>(argi, z2). Some (n, upd_node n (\<lambda>d. d\<lparr>nival := of_nat argi\<rparr>) (expect T_RPAR ''expected )'' z2))))"
  proof (rule res_bind)
    fix argi z2 assume z2: "later z1 z2" "ok z2"
    have e: "later z2 (expect T_RPAR ''expected )'' z2)" using z2 by (intro later_expect) simp_all
    have i: "node_in (expect T_RPAR ''expected )'' z2) n"
      using is_kind_in [OF later_kind [OF e later_kind [OF z2(1) l(2)]]] .
    have u: "later (expect T_RPAR ''expected )'' z2) (upd_node n (\<lambda>d. d\<lparr>nival := of_nat argi\<rparr>) (expect T_RPAR ''expected )'' z2))"
      by (rule set_field_keeps [OF later_ok [OF e] i]) auto
    show "good z2 (Some (n, upd_node n (\<lambda>d. d\<lparr>nival := of_nat argi\<rparr>) (expect T_RPAR ''expected )'' z2)))"
      by (rule good_Some [OF later_trans [OF e u] later_in [OF u i]])
  qed
  then show ?thesis using res_later [OF later_trans [OF a l(1)]] m by (simp add: parse_call_def)
qed

lemma string_leaf:
  assumes "ok z" and "tk_kind (peek z) = T_STR" and "new_node N_STR z = (n, z1)" and "advance z1 = (a, z2)"
  shows "good z (Some (n, upd_node n (\<lambda>d. d\<lparr>nstr := tk_str_off a\<rparr>) z2))"
proof -
  define g where "g = (\<lambda>d :: node. d\<lparr>nstr := tk_str_off (peek z)\<rparr>)"
  have t: "toks z1 = toks z" "tok_pos z1 = tok_pos z" using assms(3) by (auto simp: new_node_def zbc_err_def zbc_say_def split: if_splits)
  have a: "a = peek z" "z2 = z1\<lparr>tok_pos := tok_pos z1 + 1\<rparr>" using assms(4) t by (auto simp: advance_def peek_def)
  have "node_ok (nodes z) (strtab_pos z) (g (blank_node N_STR))" if "\<not> had_error z"
    using peek_str [OF assms(1) that assms(2)] by (auto simp: node_ok_def ref_ok_def blank_fields g_def)
  moreover obtain n' z' where m: "make_node N_STR g z = (n', z')" by fastforce
  ultimately have k: "ext z z' \<and> ok z' \<and> is_kind z' N_STR n'" using make_node_keeps [OF assms(1) _ m] by (simp add: g_def)
  have z': "z' = upd_node n g z1" "n' = n" using m assms(3) by (auto simp: make_node_def)
  have "toks z' = toks z" "tok_pos z' = tok_pos z" using t by (simp_all add: z' upd_node_def)
  then have p: "tk_kind (peek z') \<noteq> T_EOF" using assms(2) by (simp add: peek_def)
  have "later z' (snd (advance z'))" using k p by (intro later_advance) simp_all
  moreover have "snd (advance z') = upd_node n (\<lambda>d. d\<lparr>nstr := tk_str_off a\<rparr>) z2"
    by (simp add: advance_def z' upd_node_def a g_def)
  ultimately show ?thesis
    using k z'(2) by (auto simp: res_def later_def intro: ext_trans dest: is_kind_in ext_node_in)
qed

lemma parse_primary_good:
  assumes rec: "\<And>g z. ok z \<Longrightarrow> egoal_ok g z \<Longrightarrow> egood g z (rec g z)" and "ok z"
  shows "good z (parse_primary rec z)"
proof -
  define k where "k = tk_kind (peek z)"
  consider (int) "k = T_INT" | (str) "k = T_STR" | (ident) "k = T_IDENT" | (par) "k = T_LPAR" | (un) "k = T_MINUS \<or> k = T_NOT"
    | (other) "k \<notin> {T_INT, T_STR, T_IDENT, T_LPAR, T_MINUS, T_NOT}" by blast
  then show ?thesis
  proof cases
    case int
    obtain n z1 where n: "new_node N_NUM z = (n, z1)" by fastforce
    obtain a z2 where a: "advance z1 = (a, z2)" by fastforce
    have l: "later z z1" "is_kind z1 N_NUM n" using new_node_keeps [OF assms(2) _ _ n] by (simp_all add: later_def)
    have "toks z1 = toks z" "tok_pos z1 = tok_pos z" using n by (auto simp: new_node_def zbc_err_def zbc_say_def split: if_splits)
    then have "later z1 z2" using later_advance [OF later_ok [OF l(1)]] a int by (simp add: k_def peek_def)
    moreover from this have "later z2 (upd_node n (\<lambda>d. d\<lparr>nival := tk_ival a\<rparr>) z2)"
      using is_kind_in [OF l(2)] by (intro set_field_keeps) (auto dest: later_ok later_in)
    ultimately show ?thesis
      using int l n a by (auto simp: parse_primary_def k_def Let_def intro!: good_Some intro: later_trans later_in is_kind_in)
  next
    case str
    obtain n z1 where n: "new_node N_STR z = (n, z1)" by fastforce
    obtain a z2 where a: "advance z1 = (a, z2)" by fastforce
    show ?thesis using string_leaf [OF assms(2) _ n a] str n a by (simp add: parse_primary_def k_def Let_def)
  next
    case ident
    obtain i z1 where a: "advance z = (i, z1)" by fastforce
    then have l: "later z z1" using later_advance [OF assms(2)] ident by (simp add: k_def)
    show ?thesis
    proof (cases "tk_kind (peek z1) = T_LPAR")
      case True
      then show ?thesis
        using ident a res_later [OF l parse_call_good [OF rec later_ok [OF l]]] by (simp add: parse_primary_def k_def Let_def)
    next
      case False
      obtain n z2 where m: "make_node N_VAR (\<lambda>d. d\<lparr>nname := tk_sval i\<rparr>) z1 = (n, z2)" by fastforce
      have "later z1 z2 \<and> is_kind z2 N_VAR n" by (rule leaf_keeps [OF later_ok [OF l] _ _ _ _ _ m]) simp_all
      then show ?thesis
        using ident a False m l by (auto simp: parse_primary_def k_def Let_def intro!: good_Some intro: later_trans is_kind_in)
    qed
  next
    case par
    have l: "later z (snd (advance z))" using par assms(2) by (intro later_advance) (simp_all add: k_def)
    have g: "good (snd (advance z)) (rec Expr (snd (advance z)))" using rec [OF later_ok [OF l], of Expr] by (simp add: egoal_ok_def egood_def)
    have "good (snd (advance z)) (rec Expr (snd (advance z)) \<bind> (\<lambda>(n, z1). Some (n, expect T_RPAR ''expected )'' z1)))"
      by (rule res_bind [OF g]) (rule good_Some, auto intro: later_expect later_in)
    then show ?thesis using par res_later [OF l] by (simp add: parse_primary_def k_def Let_def)
  next
    case un
    have l: "later z (snd (advance z))" using un assms(2) by (intro later_advance) (auto simp: k_def)
    obtain n z1 where m: "make_node N_UN (\<lambda>d. d\<lparr>nop := k\<rparr>) (snd (advance z)) = (n, z1)" by fastforce
    have l1: "later (snd (advance z)) z1" "is_kind z1 N_UN n" using leaf_keeps [OF later_ok [OF l] _ _ _ _ _ m] by simp_all
    have g: "good z1 (rec Primary z1)" using rec [OF later_ok [OF l1(1)], of Primary] by (simp add: egoal_ok_def egood_def)
    have "good z1 (rec Primary z1 \<bind> (\<lambda>(c, z2). Some (n, set_child n 0 (Some c) z2)))"
    proof (rule res_bind [OF g])
      fix c z2 assume z2: "later z1 z2" "ok z2" "node_in z2 c"
      have "later z2 (set_child n 0 (Some c) z2)" by (rule set_child_keeps [OF z2(2) later_kind [OF z2(1) l1(2)]]) (simp_all add: z2)
      then show "good z2 (Some (n, set_child n 0 (Some c) z2))"
        using is_kind_in [OF later_kind [OF z2(1) l1(2)]] by (intro good_Some) (auto intro: later_in)
    qed
    then have "good z (case make_node N_UN (\<lambda>d. d\<lparr>nop := k\<rparr>) (snd (advance z)) of (n, z1) \<Rightarrow>
        rec Primary z1 \<bind> (\<lambda>(c, z2). Some (n, set_child n 0 (Some c) z2)))"
      using res_later [OF later_trans [OF l l1(1)]] m by simp
    then show ?thesis using un by (auto simp: parse_primary_def k_def Let_def)
  next
    case other
    have "good (zbc_err ''expected expression'' z) (Some (new_node N_NUM (zbc_err ''expected expression'' z)))"
      by (rule good_new) (simp_all add: ok_error err_keeps)
    then show ?thesis using other res_later [OF later_err] by (simp add: parse_primary_def k_def Let_def)
  qed
qed

lemma parse_args_good:
  assumes rec: "\<And>g z. ok z \<Longrightarrow> egoal_ok g z \<Longrightarrow> egood g z (rec g z)" and "ok z" and "is_kind z N_CALL n" and "opt_in z prev"
  shows "fine z (parse_args rec n prev argi z)"
proof (cases "tk_kind (peek z) = T_RPAR \<or> had_error z")
  case True
  then show ?thesis using assms(2) by (simp add: parse_args_def res_def later_def)
next
  case False
  have g: "good z (rec Expr z)" using rec [OF assms(2), of Expr] by (simp add: egoal_ok_def egood_def)
  have "fine z (rec Expr z \<bind> (\<lambda>(a, z1). case accept T_COMMA (link_node n prev a z1) of (comma, z2) \<Rightarrow>
      if comma then rec (Args n (Some a) (argi + 1)) z2 else Some (argi + 1, z2)))"
  proof (rule res_bind [OF g])
    fix a z1 assume z1: "later z z1" "ok z1" "node_in z1 a"
    have l: "later z1 (link_node n prev a z1)"
      by (rule link_keeps [OF z1(2) later_kind [OF z1(1) assms(3)] _ later_opt_in [OF z1(1) assms(4)] z1(3)]) simp
    obtain comma z2 where c: "accept T_COMMA (link_node n prev a z1) = (comma, z2)" by fastforce
    have l2: "later z1 z2" by (rule later_trans [OF l later_accept [OF c _ later_ok [OF l]]]) simp
    have "fine z2 (rec (Args n (Some a) (argi + 1)) z2)"
      using rec [OF later_ok [OF l2], of "Args n (Some a) (argi + 1)"] later_kind [OF later_trans [OF z1(1) l2] assms(3)] later_in [OF l2 z1(3)]
      by (simp add: egoal_ok_def egood_def)
    then show "fine z1 (case accept T_COMMA (link_node n prev a z1) of (comma, z2) \<Rightarrow>
        if comma then rec (Args n (Some a) (argi + 1)) z2 else Some (argi + 1, z2))"
      using res_later [OF l2] l2 c by (cases comma) (simp_all add: res_def [of _ z1 "Some _"])
  qed
  then show ?thesis using False by (simp add: parse_args_def)
qed

lemma parse_binop_good:
  assumes rec: "\<And>g z. ok z \<Longrightarrow> egoal_ok g z \<Longrightarrow> egood g z (rec g z)" and "ok z" and "1 \<le> prec"
  shows "good z (parse_binop rec prec z)"
  unfolding parse_binop_def
proof (rule res_bind)
  show "good z (rec Primary z)" using rec [OF assms(2), of Primary] by (simp add: egoal_ok_def egood_def)
  show "good z1 (rec (Binop_loop prec n) z1)" if "ok z1" "node_in z1 n" for n z1
    using rec [OF that(1), of "Binop_loop prec n"] that(2) assms(3) by (simp add: egoal_ok_def egood_def)
qed

lemma binop_loop_good:
  assumes rec: "\<And>g z. ok z \<Longrightarrow> egoal_ok g z \<Longrightarrow> egood g z (rec g z)" and "ok z" and "1 \<le> prec" and "node_in z lhs"
  shows "good z (binop_loop rec prec lhs z)"
proof (cases "prec \<le> bin_prec (tk_kind (peek z))")
  case True
  define op where "op = tk_kind (peek z)"
  have l: "later z (snd (advance z))" using True assms by (intro later_advance) (auto simp: bin_prec_pos)
  have g: "good (snd (advance z)) (rec (Binop (bin_prec op + 1)) (snd (advance z)))"
    using rec [OF later_ok [OF l], of "Binop (bin_prec op + 1)"] by (simp add: egoal_ok_def egood_def)
  have "good (snd (advance z)) (rec (Binop (bin_prec op + 1)) (snd (advance z)) \<bind>
      (\<lambda>(rhs, z1). case make_node N_BIN (fill op [Some lhs, Some rhs]) z1 of (n, z2) \<Rightarrow> rec (Binop_loop prec n) z2))"
  proof (rule res_bind [OF g])
    fix rhs z1 assume z1: "later (snd (advance z)) z1" "ok z1" "node_in z1 rhs"
    obtain n z2 where m: "make_node N_BIN (fill op [Some lhs, Some rhs]) z1 = (n, z2)" by fastforce
    have "node_in z1 lhs" by (rule later_in [OF later_trans [OF l z1(1)] assms(4)])
    then have l2: "later z1 z2" "node_in z2 n" using make_fill [OF z1(2) m] z1(3) by simp_all
    have "good z2 (rec (Binop_loop prec n) z2)"
      using rec [OF later_ok [OF l2(1)], of "Binop_loop prec n"] l2(2) assms(3) by (simp add: egoal_ok_def egood_def)
    then show "good z1 (case make_node N_BIN (fill op [Some lhs, Some rhs]) z1 of (n, z2) \<Rightarrow> rec (Binop_loop prec n) z2)"
      using res_later [OF l2(1)] m by simp
  qed
  then show ?thesis using res_later [OF l] True by (simp add: binop_loop_def op_def Let_def)
next
  case False
  then show ?thesis using assms(2,4) by (simp add: binop_loop_def Let_def res_def later_def)
qed

lemma parse_expr_good:
  assumes rec: "\<And>g z. ok z \<Longrightarrow> egoal_ok g z \<Longrightarrow> egood g z (rec g z)" and "ok z"
  shows "good z (cparse_expr rec z)"
  unfolding cparse_expr_def Let_def
proof (rule res_bind)
  show "good z (rec (Binop 1) z)" using rec [OF assms(2), of "Binop 1"] by (simp add: egoal_ok_def egood_def)
  fix lhs z1 assume z1: "later z z1" "ok z1" "node_in z1 lhs"
  define k where "k = tk_kind (peek z1)"
  show "good z1 (if is_assign (tk_kind (peek z1))
      then if nkind (nodes z1 ! lhs) \<noteq> N_VAR then Some (lhs, zbc_err ''assign to non-variable'' z1)
        else rec Expr (snd (advance z1)) \<bind> (\<lambda>(rhs, z2). Some (make_node N_ASSIGN (fill (tk_kind (peek z1)) [Some lhs, Some rhs]) z2))
      else Some (lhs, z1))"
  proof (cases "is_assign k \<and> nkind (nodes z1 ! lhs) = N_VAR")
    case True
    have l: "later z1 (snd (advance z1))" using True z1(2) by (intro later_advance) (auto simp: k_def is_assign_def)
    have kv: "is_kind z1 N_VAR lhs" using True z1(3) by (simp add: is_kind_def node_in_def)
    have g: "good (snd (advance z1)) (rec Expr (snd (advance z1)))" using rec [OF later_ok [OF l], of Expr] by (simp add: egoal_ok_def egood_def)
    have "good (snd (advance z1)) (rec Expr (snd (advance z1)) \<bind> (\<lambda>(rhs, z2). Some (make_node N_ASSIGN (fill k [Some lhs, Some rhs]) z2)))"
    proof (rule res_bind [OF g])
      fix rhs z2 assume z2: "later (snd (advance z1)) z2" "ok z2" "node_in z2 rhs"
      have "is_kind z2 N_VAR lhs" by (rule later_kind [OF later_trans [OF l z2(1)] kv])
      then show "good z2 (Some (make_node N_ASSIGN (fill k [Some lhs, Some rhs]) z2))"
        using z2 is_kind_in by (intro good_fill) auto
    qed
    then show ?thesis using True res_later [OF l] by (simp add: k_def)
  next
    case False
    then show ?thesis using z1 by (auto simp: k_def res_def later_def err_keeps node_in_def)
  qed
qed

lemma parse_e_good: "ok z \<Longrightarrow> egoal_ok g z \<Longrightarrow> egood g z (parse_e f g z)"
proof (induction f arbitrary: g z)
  case 0
  then show ?case by (simp add: egood_def res_def split: egoal.split)
next
  case (Suc f)
  note rec = Suc.IH
  show ?case
    using parse_primary_good [OF rec Suc.prems(1)] parse_args_good [OF rec Suc.prems(1)] parse_binop_good [OF rec Suc.prems(1)]
      binop_loop_good [OF rec Suc.prems(1)] parse_expr_good [OF rec Suc.prems(1)] Suc.prems(2)
    by (cases g) (auto simp: egood_def egoal_ok_def expr_step_def)
qed

lemma parse_expr_ok: "ok z \<Longrightarrow> good z (parse_e f Expr z)"
  using parse_e_good [of z Expr f] by (simp add: egood_def egoal_ok_def)

end
