(* ===== verification/ZbcWfS.thy ===== *)
theory ZbcWfS
  imports ZbcWf
begin

text \<open>
  The statements and functions of the parser of shell/zbc.c keep the node table well-formed, and so does the
  parser of a whole program on the tokens that tokenize makes.
\<close>

subsection \<open>Declarations\<close>

lemma make_node_ext:
  assumes "\<And>d. nkind (g d) = nkind d" and "make_node k g z = (n, z1)"
  shows "ext z z1"
proof (cases "MAX_NODES \<le> length (nodes z)")
  case True
  then have "z1 = upd_node 0 g (zbc_err ''too many AST nodes'' z)" using assms(2) by (simp add: make_node_def new_node_def)
  then show ?thesis using ext_trans [OF err_keeps(1) upd_node_ext [OF assms(1)]] by simp
next
  case False
  then have "z1 = z\<lparr>nodes := nodes z @ [g (blank_node k)]\<rparr>" using assms(2) by (auto simp: make_node_def new_node_def upd_node_def)
  then show ?thesis by (simp add: ext_def nth_append)
qed

lemma make_node_done:
  assumes "make_node k g z = (n, z1)" and "\<not> had_error z1"
  shows "length (nodes z) < MAX_NODES \<and> n = length (nodes z) \<and> z1 = z\<lparr>nodes := nodes z @ [g (blank_node k)]\<rparr>"
  using assms by (auto simp: make_node_def new_node_def upd_node_def zbc_err_def split: if_splits)

lemma declare_parts:
  assumes "declare_node name rhs z = (n, z1)"
  obtains v z2 z3 r z4 where
    "make_node N_ASSIGN (\<lambda>d. d\<lparr>nop := T_ASSIGN\<rparr>) z = (n, z2)"
    "make_node N_VAR (\<lambda>d. d\<lparr>nname := name, nival := 1\<rparr>) z2 = (v, z3)"
    "rhs = None \<and> make_node N_NUM (\<lambda>d. d\<lparr>nival := 0\<rparr>) z3 = (r, z4) \<or> rhs = Some r \<and> z4 = z3"
    "z1 = set_child n 1 (Some r) (set_child n 0 (Some v) z4)"
  using assms unfolding declare_node_def by (auto split: prod.splits option.splits)

lemma declare_ext:
  assumes "declare_node name rhs z = (n, z1)"
  shows "ext z z1"
proof -
  obtain v z2 z3 r z4 where a: "make_node N_ASSIGN (\<lambda>d. d\<lparr>nop := T_ASSIGN\<rparr>) z = (n, z2)"
    and v: "make_node N_VAR (\<lambda>d. d\<lparr>nname := name, nival := 1\<rparr>) z2 = (v, z3)"
    and r: "rhs = None \<and> make_node N_NUM (\<lambda>d. d\<lparr>nival := 0\<rparr>) z3 = (r, z4) \<or> rhs = Some r \<and> z4 = z3"
    and z1: "z1 = set_child n 1 (Some r) (set_child n 0 (Some v) z4)" by (rule declare_parts [OF assms])
  have "ext z3 z4" using r make_node_ext [of "\<lambda>d. d\<lparr>nival := 0\<rparr>" N_NUM z3 r z4] by auto
  moreover have "ext z4 z1" unfolding z1 set_child_def by (rule ext_trans; rule upd_node_ext) simp_all
  moreover have "ext z z2" by (rule make_node_ext [OF _ a]) simp
  moreover have "ext z2 z3" by (rule make_node_ext [OF _ v]) simp
  ultimately show ?thesis by (blast intro: ext_trans)
qed

lemma later_declare:
  assumes "ok z" and "opt_in z rhs" and "declare_node name rhs z = (n, z1)"
  shows "later z z1 \<and> node_in z1 n"
proof (cases "had_error z1")
  case True
  then show ?thesis using declare_ext [OF assms(3)] by (simp add: later_def ok_def node_in_def)
next
  case ne: False
  obtain v z2 z3 r z4 where a: "make_node N_ASSIGN (\<lambda>d. d\<lparr>nop := T_ASSIGN\<rparr>) z = (n, z2)"
    and v: "make_node N_VAR (\<lambda>d. d\<lparr>nname := name, nival := 1\<rparr>) z2 = (v, z3)"
    and r: "rhs = None \<and> make_node N_NUM (\<lambda>d. d\<lparr>nival := 0\<rparr>) z3 = (r, z4) \<or> rhs = Some r \<and> z4 = z3"
    and z1: "z1 = set_child n 1 (Some r) (set_child n 0 (Some v) z4)" by (rule declare_parts [OF assms(3)])
  define ns where "ns = nodes z"
  have e4: "\<not> had_error z4" using ne by (simp add: z1 set_child_def upd_node_def)
  have e3: "\<not> had_error z3" using r e4 make_node_ext [of "\<lambda>d. d\<lparr>nival := 0\<rparr>" N_NUM z3] by (auto simp: ext_def)
  have e2: "\<not> had_error z2" using make_node_ext [OF _ v] e3 by (simp add: ext_def)
  have e: "\<not> had_error z" using make_node_ext [OF _ a] e2 by (simp add: ext_def)
  define A where "A = (blank_node N_ASSIGN)\<lparr>nop := T_ASSIGN, nchild := [Some v, Some r, None, None]\<rparr>"
  define V where "V = (blank_node N_VAR)\<lparr>nname := name, nival := 1\<rparr>"
  define more where "more = (case rhs of None \<Rightarrow> [(blank_node N_NUM)\<lparr>nival := 0\<rparr>] | Some x \<Rightarrow> [])"
  note d = make_node_done [OF a e2] make_node_done [OF v e3]
  have n: "n = length ns" "v = Suc (length ns)" using d by (auto simp: ns_def)
  have rr: "r < length (ns @ [A, V] @ more)"
    using r make_node_done [of N_NUM "\<lambda>d. d\<lparr>nival := 0\<rparr>" z3 r z4] e4 d assms(2) e
    by (auto simp: more_def ns_def node_in_def)
  have z1': "z1 = z\<lparr>nodes := ns @ [A, V] @ more\<rparr>"
    using r make_node_done [of N_NUM "\<lambda>d. d\<lparr>nival := 0\<rparr>" z3 r z4] e4 d n
    by (auto simp: z1 set_child_def upd_node_def ns_def more_def A_def V_def blank_node_def nth_append)
  have len: "length (ns @ [A, V] @ more) \<le> MAX_NODES"
    using r make_node_done [of N_NUM "\<lambda>d. d\<lparr>nival := 0\<rparr>" z3 r z4] e4 d by (auto simp: more_def ns_def)
  have t: "nodes_ok ns (strtab_pos z)" using assms(1) e by (simp add: ok_def ns_def)
  have "node_ok (ns @ [A, V] @ more) (strtab_pos z) x" if "x \<in> set (ns @ [A, V] @ more)" for x
  proof -
    have o: "node_ok (ns @ [A, V] @ more) (strtab_pos z) x" if "x \<in> set ns"
      using that t node_ok_grow [of ns "strtab_pos z" x "ns @ [A, V] @ more"] by (auto simp: nodes_ok_def nth_append)
    have "node_ok (ns @ [A, V] @ more) (strtab_pos z) A"
      using rr by (auto simp: node_ok_def A_def V_def blank_node_def ref_ok_def n nth_append)
    moreover have "node_ok (ns @ [A, V] @ more) (strtab_pos z) V"
      by (auto simp: node_ok_def V_def blank_node_def ref_ok_def)
    moreover have "node_ok (ns @ [A, V] @ more) (strtab_pos z) y" if "y \<in> set more" for y
      using that by (auto simp: node_ok_def more_def blank_node_def ref_ok_def split: option.splits)
    ultimately show ?thesis using that o by auto
  qed
  then have "nodes_ok (ns @ [A, V] @ more) (strtab_pos z)" using len by (simp add: nodes_ok_def)
  then have "ok z1" using assms(1) e by (simp add: z1' ok_def tokens_ok_def)
  moreover have "ext z z1" by (simp add: z1' ext_def ns_def nth_append)
  ultimately show ?thesis using n by (simp add: later_def node_in_def z1')
qed

lemma good_declare: "ok z \<Longrightarrow> opt_in z rhs \<Longrightarrow> good z (Some (declare_node name rhs z))"
  using later_declare [of z rhs name] by (cases "declare_node name rhs z") (auto simp: res_def)

subsection \<open>Optional parts\<close>

lemma opt_good:
  assumes "ok z" and "\<And>z1. ok z1 \<Longrightarrow> good z1 (ex z1)"
  shows "ogood z (parse_opt ex t z)"
proof -
  have "ogood z (ex z \<bind> (\<lambda>(n, z1). Some (Some n, z1)))"
    by (rule res_bind [OF assms(2) [OF assms(1)]]) (simp add: res_def later_def)
  then show ?thesis using assms(1) by (simp add: parse_opt_def res_def later_def)
qed

lemma after_good:
  assumes "ok z" and "t \<noteq> T_EOF" and "\<And>z1. ok z1 \<Longrightarrow> good z1 (p z1)"
  shows "ogood z (parse_after p t z)"
proof -
  obtain yes z1 where a: "accept t z = (yes, z1)" by fastforce
  have l: "later z z1" by (rule later_accept [OF a assms(2,1)])
  have "ogood z1 (p z1 \<bind> (\<lambda>(n, z2). Some (Some n, z2)))"
    by (rule res_bind [OF assms(3) [OF later_ok [OF l]]]) (simp add: res_def later_def)
  then show ?thesis using res_later [OF l, of opt_in] a l by (cases yes) (simp_all add: parse_after_def res_def [of opt_in _ "Some _"])
qed

lemma cond_good:
  assumes "ok z" and "\<And>z1. ok z1 \<Longrightarrow> good z1 (ex z1)"
  shows "good z (parse_cond ex z)"
proof -
  have l: "later z (expect T_LPAR ''('' z)" by (rule later_expect [OF _ assms(1)]) simp
  have "good (expect T_LPAR ''('' z) (ex (expect T_LPAR ''('' z) \<bind> (\<lambda>(c, z1). Some (c, expect T_RPAR '')'' z1)))"
    by (rule res_bind [OF assms(2) [OF later_ok [OF l]]]) (auto simp: res_def intro: later_expect later_in)
  then show ?thesis using res_later [OF l] by (simp add: parse_cond_def)
qed

subsection \<open>Statements\<close>

definition sgoal_ok :: "sgoal \<Rightarrow> zbc \<Rightarrow> bool" where
  "sgoal_ok g z =
     (case g of
        Block_loop b lst \<Rightarrow> is_kind z N_BLOCK b \<and> opt_in z lst
      | For_rest init \<Rightarrow> opt_in z init
      | _ \<Rightarrow> True)"

definition sgood :: "sgoal \<Rightarrow> zbc \<Rightarrow> (nat \<times> zbc) option \<Rightarrow> bool" where
  "sgood g z r = (case g of Block_loop b lst \<Rightarrow> fine z r | _ \<Rightarrow> good z r)"

lemma rec_stmt: "(\<And>g z. ok z \<Longrightarrow> sgoal_ok g z \<Longrightarrow> sgood g z (rec g z)) \<Longrightarrow> ok z1 \<Longrightarrow> good z1 (rec Stmt z1)"
  and rec_block: "(\<And>g z. ok z \<Longrightarrow> sgoal_ok g z \<Longrightarrow> sgood g z (rec g z)) \<Longrightarrow> ok z1 \<Longrightarrow> good z1 (rec Block z1)"
  and rec_loop: "(\<And>g z. ok z \<Longrightarrow> sgoal_ok g z \<Longrightarrow> sgood g z (rec g z)) \<Longrightarrow> ok z1 \<Longrightarrow> is_kind z1 N_BLOCK b \<Longrightarrow> opt_in z1 l \<Longrightarrow>
    fine z1 (rec (Block_loop b l) z1)"
  and rec_for: "(\<And>g z. ok z \<Longrightarrow> sgoal_ok g z \<Longrightarrow> sgood g z (rec g z)) \<Longrightarrow> ok z1 \<Longrightarrow> opt_in z1 i \<Longrightarrow> good z1 (rec (For_rest i) z1)"
  unfolding sgoal_ok_def sgood_def by (metis (no_types, lifting) sgoal.simps)+

lemma parse_if_good:
  assumes rec: "\<And>g z. ok z \<Longrightarrow> sgoal_ok g z \<Longrightarrow> sgood g z (rec g z)" and ex: "\<And>z1. ok z1 \<Longrightarrow> good z1 (ex z1)" and "ok z"
  shows "good z (parse_if ex rec z)"
  unfolding parse_if_def
proof (rule res_bind [OF cond_good [OF assms(3) ex]], assumption)
  fix c z1 assume c: "ok z1" "node_in z1 c"
  show "good z1 (rec Stmt z1 \<bind> (\<lambda>(t, z2). parse_after (rec Stmt) T_KW_ELSE z2 \<bind>
      (\<lambda>(e, z3). Some (make_node N_IF (fill T_EOF [Some c, Some t, e]) z3))))"
  proof (rule res_bind [OF rec_stmt [OF rec c(1)]], assumption+)
    fix t z2 assume t: "later z1 z2" "ok z2" "node_in z2 t"
    show "good z2 (parse_after (rec Stmt) T_KW_ELSE z2 \<bind> (\<lambda>(e, z3). Some (make_node N_IF (fill T_EOF [Some c, Some t, e]) z3)))"
    proof (rule res_bind [OF after_good [OF t(2) _ rec_stmt [OF rec]]], simp, assumption+)
      fix e z3 assume "later z2 z3" "ok z3" "opt_in z3 e"
      then show "good z3 (Some (make_node N_IF (fill T_EOF [Some c, Some t, e]) z3))"
        using later_in [OF later_trans [OF t(1)] c(2)] later_in [OF _ t(3)] by (intro good_fill) auto
    qed
  qed
qed

lemma parse_while_good:
  assumes rec: "\<And>g z. ok z \<Longrightarrow> sgoal_ok g z \<Longrightarrow> sgood g z (rec g z)" and ex: "\<And>z1. ok z1 \<Longrightarrow> good z1 (ex z1)" and "ok z"
  shows "good z (parse_while ex rec z)"
  unfolding parse_while_def
proof (rule res_bind [OF cond_good [OF assms(3) ex]], assumption)
  fix c z1 assume c: "ok z1" "node_in z1 c"
  show "good z1 (rec Stmt z1 \<bind> (\<lambda>(b, z2). Some (make_node N_WHILE (fill T_EOF [Some c, Some b]) z2)))"
  proof (rule res_bind [OF rec_stmt [OF rec c(1)]], assumption+)
    fix b z2 assume "later z1 z2" "ok z2" "node_in z2 b"
    then show "good z2 (Some (make_node N_WHILE (fill T_EOF [Some c, Some b]) z2))"
      using later_in [OF _ c(2)] by (intro good_fill) auto
  qed
qed

lemma parse_for_rest_good:
  assumes rec: "\<And>g z. ok z \<Longrightarrow> sgoal_ok g z \<Longrightarrow> sgood g z (rec g z)" and ex: "\<And>z1. ok z1 \<Longrightarrow> good z1 (ex z1)" and "ok z"
    and i: "opt_in z init"
  shows "good z (parse_for_rest ex rec init z)"
  unfolding parse_for_rest_def
proof -
  have l: "later z (expect T_SEMI '';'' z)" by (rule later_expect [OF _ assms(3)]) simp
  have "good (expect T_SEMI '';'' z) (parse_opt ex T_SEMI (expect T_SEMI '';'' z) \<bind> (\<lambda>(c, z1).
      parse_opt ex T_RPAR (expect T_SEMI '';'' z1) \<bind> (\<lambda>(p, z2).
      rec Stmt (expect T_RPAR '')'' z2) \<bind> (\<lambda>(b, z3). Some (make_node N_FOR (fill T_EOF [init, c, p, Some b]) z3)))))"
    (is "good ?za (_ \<bind> (\<lambda>(c, z1). ?after c z1))")
  proof (rule res_bind [OF opt_good [OF later_ok [OF l] ex]], assumption)
    fix c z1 assume c: "later ?za z1" "ok z1" "opt_in z1 c"
    let ?zb = "expect T_SEMI '';'' z1"
    have l1: "later z1 ?zb" by (rule later_expect [OF _ c(2)]) simp
    have "good ?zb (parse_opt ex T_RPAR ?zb \<bind> (\<lambda>(p, z2).
      rec Stmt (expect T_RPAR '')'' z2) \<bind> (\<lambda>(b, z3). Some (make_node N_FOR (fill T_EOF [init, c, p, Some b]) z3))))"
    proof (rule res_bind [OF opt_good [OF later_ok [OF l1] ex]], assumption)
      fix p z2 assume p: "later ?zb z2" "ok z2" "opt_in z2 p"
      let ?zc = "expect T_RPAR '')'' z2"
      have l2: "later z2 ?zc" by (rule later_expect [OF _ p(2)]) simp
      have "good ?zc (rec Stmt ?zc \<bind> (\<lambda>(b, z3). Some (make_node N_FOR (fill T_EOF [init, c, p, Some b]) z3)))"
      proof (rule res_bind [OF rec_stmt [OF rec later_ok [OF l2]]], assumption+)
        fix b z3 assume b: "later ?zc z3" "ok z3" "node_in z3 b"
        have m: "later z2 z3" "later z1 z3" "later z z3"
          using later_trans [OF l2 b(1)] later_trans [OF l1 p(1)] later_trans [OF l c(1)] by (blast intro: later_trans)+
        show "good z3 (Some (make_node N_FOR (fill T_EOF [init, c, p, Some b]) z3))"
          using b later_opt_in [OF m(1) p(3)] later_opt_in [OF m(2) c(3)] later_opt_in [OF m(3) i] by (intro good_fill) auto
      qed
      then show "good z2 (rec Stmt ?zc \<bind> (\<lambda>(b, z3). Some (make_node N_FOR (fill T_EOF [init, c, p, Some b]) z3)))"
        by (rule res_later [OF l2])
    qed
    then show "good z1 (?after c z1)" by (rule res_later [OF l1])
  qed
  then show "good z (parse_opt ex T_SEMI ?za \<bind> (\<lambda>(c, z1). ?after c z1))" by (rule res_later [OF l])
qed

lemma good_err: "later z z1 \<Longrightarrow> good z (Some (new_node N_NUM (zbc_err m z1)))"
  by (rule res_later [OF later_trans [OF _ later_err]], assumption, rule good_new) (simp_all add: ok_error err_keeps)

lemma advance_later:
  assumes "ok z" and "advance z = (i, z1)" and "tk_kind i \<noteq> T_EOF"
  shows "later z z1"
  using later_advance [OF assms(1)] assms(2,3) advance_fst [of z] by simp

lemma advance_err: "advance z = (i, z1) \<Longrightarrow> later z (zbc_err m z1)"
  using ext_trans [OF advance_ext [of z] err_keeps(1) [of "snd (advance z)" m]] by (simp add: later_def ok_error err_keeps)

lemma good_name_err: "advance z = (i, z1) \<Longrightarrow> good z (Some (new_node N_NUM (zbc_err m z1)))"
  by (rule res_later [OF advance_err], assumption, rule good_new) (simp_all add: ok_error err_keeps)

lemma parse_for_good:
  assumes rec: "\<And>g z. ok z \<Longrightarrow> sgoal_ok g z \<Longrightarrow> sgood g z (rec g z)" and ex: "\<And>z1. ok z1 \<Longrightarrow> good z1 (ex z1)" and "ok z"
  shows "good z (parse_for ex rec z)"
proof -
  obtain decl z1 where d: "accept T_KW_INT (expect T_LPAR ''('' z) = (decl, z1)" by fastforce
  have e: "later z (expect T_LPAR ''('' z)" by (rule later_expect [OF _ assms(3)]) simp
  have l: "later z z1" by (rule later_trans [OF e later_accept [OF d _ later_ok [OF e]]]) simp
  show ?thesis
  proof (cases decl)
    case False
    have "good z1 (parse_opt ex T_SEMI z1 \<bind> (\<lambda>(i, z2). rec (For_rest i) z2))"
      by (rule res_bind [OF opt_good [OF later_ok [OF l] ex]], assumption, rule rec_for [OF rec])
    then show ?thesis using False d res_later [OF l] by (simp add: parse_for_def)
  next
    case decl: True
    obtain i z2 where a: "advance z1 = (i, z2)" by fastforce
    show ?thesis
    proof (cases "tk_kind i = T_IDENT")
      case False
      have "good z1 (Some (new_node N_NUM (zbc_err ''expected name'' z2)))" by (rule good_name_err [OF a])
      then show ?thesis using False d decl a res_later [OF l] by (simp add: parse_for_def)
    next
      case True
      have l2: "later z1 z2" by (rule advance_later [OF later_ok [OF l] a]) (simp add: True)
      have "good z2 (parse_after ex T_ASSIGN z2 \<bind> (\<lambda>(rhs, z3). case declare_node (tk_sval i) rhs z3 of (a, z4) \<Rightarrow> rec (For_rest (Some a)) z4))"
      proof (rule res_bind [OF after_good [OF later_ok [OF l2] _ ex]], simp, assumption)
        fix rhs z3 assume z3: "ok z3" "opt_in z3 rhs"
        obtain n z4 where n: "declare_node (tk_sval i) rhs z3 = (n, z4)" by fastforce
        have l4: "later z3 z4" "node_in z4 n" using later_declare [OF z3 n] by simp_all
        have "good z4 (rec (For_rest (Some n)) z4)" by (rule rec_for [OF rec later_ok [OF l4(1)]]) (simp_all add: l4(2))
        then show "good z3 (case declare_node (tk_sval i) rhs z3 of (a, z4) \<Rightarrow> rec (For_rest (Some a)) z4)"
          using n res_later [OF l4(1)] by simp
      qed
      then show ?thesis using True d decl a res_later [OF later_trans [OF l l2]] by (simp add: parse_for_def)
    qed
  qed
qed

lemma parse_return_good:
  assumes ex: "\<And>z1. ok z1 \<Longrightarrow> good z1 (ex z1)" and "ok z"
  shows "good z (parse_return ex z)"
proof -
  obtain n z1 where n: "new_node N_RETURN z = (n, z1)" by fastforce
  have l: "later z z1" "is_kind z1 N_RETURN n" using new_node_keeps [OF assms(2) _ _ n] by (simp_all add: later_def)
  obtain none z2 where a: "accept T_SEMI z1 = (none, z2)" by fastforce
  have l2: "later z1 z2" by (rule later_accept [OF a _ later_ok [OF l(1)]]) simp
  have k2: "is_kind z2 N_RETURN n" by (rule later_kind [OF l2 l(2)])
  have "good z2 (ex z2 \<bind> (\<lambda>(e, z3). Some (n, expect T_SEMI '';'' (set_child n 0 (Some e) z3))))"
  proof (rule res_bind [OF ex [OF later_ok [OF l2]]])
    fix e z3 assume e: "later z2 z3" "ok z3" "node_in z3 e"
    have s: "later z3 (set_child n 0 (Some e) z3)" by (rule set_child_keeps [OF e(2) later_kind [OF e(1) k2]]) (simp_all add: e(3))
    have t: "later z3 (expect T_SEMI '';'' (set_child n 0 (Some e) z3))"
      by (rule later_trans [OF s later_expect [OF _ later_ok [OF s]]]) simp
    then show "good z3 (Some (n, expect T_SEMI '';'' (set_child n 0 (Some e) z3)))"
      using later_in [OF later_trans [OF e(1) t] is_kind_in [OF k2]] by (rule good_Some)
  qed
  then show ?thesis
    using n a res_later [OF later_trans [OF l(1) l2], of node_in] good_Some [OF later_trans [OF l(1) l2] is_kind_in [OF k2]]
    by (cases none) (simp_all add: parse_return_def)
qed

lemma parse_decl_good:
  assumes ex: "\<And>z1. ok z1 \<Longrightarrow> good z1 (ex z1)" and "ok z"
  shows "good z (parse_decl ex z)"
proof -
  obtain i z1 where a: "advance z = (i, z1)" by fastforce
  show ?thesis
  proof (cases "tk_kind i = T_IDENT")
    case False
    then show ?thesis using good_name_err [OF a] a by (simp add: parse_decl_def)
  next
    case True
    have l: "later z z1" by (rule advance_later [OF assms(2) a]) (simp add: True)
    have "good z1 (parse_after ex T_ASSIGN z1 \<bind> (\<lambda>(rhs, z2). Some (declare_node (tk_sval i) rhs (expect T_SEMI '';'' z2))))"
    proof (rule res_bind [OF after_good [OF later_ok [OF l] _ ex]], simp, assumption)
      fix rhs z2 assume z2: "ok z2" "opt_in z2 rhs"
      have e: "later z2 (expect T_SEMI '';'' z2)" by (rule later_expect [OF _ z2(1)]) simp
      show "good z2 (Some (declare_node (tk_sval i) rhs (expect T_SEMI '';'' z2)))"
        by (rule res_later [OF e good_declare [OF later_ok [OF e] later_opt_in [OF e z2(2)]]])
    qed
    then show ?thesis using True a res_later [OF l] by (simp add: parse_decl_def)
  qed
qed

lemma parse_stmt_good:
  assumes rec: "\<And>g z. ok z \<Longrightarrow> sgoal_ok g z \<Longrightarrow> sgood g z (rec g z)" and ex: "\<And>z1. ok z1 \<Longrightarrow> good z1 (ex z1)" and z: "ok z"
  shows "good z (parse_stmt ex rec z)"
proof -
  define k where "k = tk_kind (peek z)"
  let ?z1 = "snd (advance z)"
  consider (kw) "k \<in> {T_LBRACE, T_KW_IF, T_KW_WHILE, T_KW_FOR, T_KW_RETURN, T_KW_BREAK, T_KW_CONT, T_KW_INT}"
    | (expr) "k \<notin> {T_LBRACE, T_KW_IF, T_KW_WHILE, T_KW_FOR, T_KW_RETURN, T_KW_BREAK, T_KW_CONT, T_KW_INT}" by blast
  then show ?thesis
  proof cases
    case kw
    then have l: "later z ?z1" using z by (intro later_advance) (auto simp: k_def)
    note o = later_ok [OF l]
    have e: "later ?z1 (expect T_SEMI '';'' ?z1)" by (rule later_expect [OF _ o]) simp
    have s: "good ?z1 (Some (new_node d (expect T_SEMI '';'' ?z1)))" if "d \<noteq> N_ASSIGN" "d \<noteq> N_STR" for d
      by (rule res_later [OF e good_new [OF later_ok [OF e] that]])
    have "good ?z1 (parse_stmt ex rec z)"
      using kw rec_block [OF rec o] parse_if_good [OF rec ex o] parse_while_good [OF rec ex o] parse_for_good [OF rec ex o]
        parse_return_good [OF ex o] parse_decl_good [OF ex o] s
      unfolding parse_stmt_def Let_def k_def by auto
    then show ?thesis by (rule res_later [OF l])
  next
    case expr
    have "good z (ex z \<bind> (\<lambda>(e, z2). Some (make_node N_EXPR_STMT (fill T_EOF [Some e]) (expect T_SEMI '';'' z2))))"
    proof (rule res_bind [OF ex [OF z]])
      fix e z2 assume e: "ok z2" "node_in z2 e"
      have l: "later z2 (expect T_SEMI '';'' z2)" by (rule later_expect [OF _ e(1)]) simp
      show "good z2 (Some (make_node N_EXPR_STMT (fill T_EOF [Some e]) (expect T_SEMI '';'' z2)))"
        by (rule res_later [OF l good_fill]) (simp_all add: later_ok [OF l] later_in [OF l e(2)])
    qed
    then show ?thesis using expr by (simp add: parse_stmt_def Let_def k_def)
  qed
qed

lemma block_loop_good:
  assumes rec: "\<And>g z. ok z \<Longrightarrow> sgoal_ok g z \<Longrightarrow> sgood g z (rec g z)" and z: "ok z" and b: "is_kind z N_BLOCK b" and lst: "opt_in z lst"
  shows "fine z (block_loop rec b lst z)"
proof (cases "tk_kind (peek z) = T_RBRACE \<or> tk_kind (peek z) = T_EOF")
  case True
  then show ?thesis using z by (simp add: block_loop_def res_def later_def)
next
  case False
  have "fine z (rec Stmt z \<bind> (\<lambda>(s, z1). let z2 = link_node b lst s z1 in
      if had_error z2 then Some (1, z2) else rec (Block_loop b (Some s)) z2))"
  proof (rule res_bind [OF rec_stmt [OF rec z]], assumption+)
    fix s z1 assume s: "later z z1" "ok z1" "node_in z1 s"
    let ?z2 = "link_node b lst s z1"
    have l: "later z1 ?z2" by (rule link_keeps [OF s(2) later_kind [OF s(1) b] _ later_opt_in [OF s(1) lst] s(3)]) simp
    have "fine ?z2 (rec (Block_loop b (Some s)) ?z2)"
      by (rule rec_loop [OF rec later_ok [OF l] later_kind [OF later_trans [OF s(1) l] b]]) (simp_all add: later_in [OF l s(3)])
    from res_later [OF l this] l
    show "fine z1 (let z2 = ?z2 in if had_error z2 then Some (1, z2) else rec (Block_loop b (Some s)) z2)"
      by (simp add: Let_def res_def)
  qed
  then show ?thesis using False by (simp add: block_loop_def)
qed

lemma parse_block_good:
  assumes rec: "\<And>g z. ok z \<Longrightarrow> sgoal_ok g z \<Longrightarrow> sgood g z (rec g z)" and z: "ok z"
  shows "good z (parse_block rec z)"
proof -
  obtain b z1 where n: "new_node N_BLOCK z = (b, z1)" by fastforce
  have l: "later z z1" "is_kind z1 N_BLOCK b" using new_node_keeps [OF z _ _ n] by (simp_all add: later_def)
  have "good z1 (rec (Block_loop b None) z1 \<bind> (\<lambda>(early, z2). Some (b, if early = 1 then z2 else expect T_RBRACE ''}'' z2)))"
  proof (rule res_bind [OF rec_loop [OF rec later_ok [OF l(1)] l(2)]], assumption+, simp)
    fix early :: nat and z2 assume z2: "later z1 z2" "ok z2"
    have "later z2 (if early = 1 then z2 else expect T_RBRACE ''}'' z2)"
      using later_expect [of T_RBRACE z2 "''}''"] z2(2) by (auto simp: later_def)
    then show "good z2 (Some (b, if early = 1 then z2 else expect T_RBRACE ''}'' z2))"
      using later_in [OF _ later_in [OF z2(1) is_kind_in [OF l(2)]]] by (intro good_Some)
  qed
  then show ?thesis using n res_later [OF l(1)] by (simp add: parse_block_def)
qed

lemma parse_s_good: "ok z \<Longrightarrow> sgoal_ok g z \<Longrightarrow> sgood g z (parse_s f g z)"
proof (induction f arbitrary: g z)
  case 0
  then show ?case by (simp add: sgood_def res_def split: sgoal.split)
next
  case (Suc f)
  note rec = Suc.IH
  show ?case
    using parse_stmt_good [OF rec parse_expr_ok Suc.prems(1)] parse_block_good [OF rec Suc.prems(1)]
      block_loop_good [OF rec Suc.prems(1)] parse_for_rest_good [OF rec parse_expr_ok Suc.prems(1)] Suc.prems(2)
    by (cases g) (auto simp: sgood_def sgoal_ok_def stmt_step_def)
qed

lemma parse_block_ok: "ok z \<Longrightarrow> good z (parse_s f Block z)"
  using parse_s_good [of z Block f] by (simp add: sgood_def sgoal_ok_def)

subsection \<open>Functions\<close>

text \<open>The body of every function is a node, at most eight of its parameters are kept, and no scope is open.\<close>

definition funcs_ok :: "zbc \<Rightarrow> bool" where
  "funcs_ok z \<longleftrightarrow> (\<not> had_error z \<longrightarrow> length (funcs z) \<le> MAX_FUNCS \<and>
     (\<forall>g\<in>set (funcs z). fbody g < length (nodes z) \<and> length (fparams g) \<le> 8)
     \<and> scope_depth z = 0 \<and> globals z = [])"

lemma accept_later: "t \<noteq> T_EOF \<Longrightarrow> ok z \<Longrightarrow> later z (snd (accept t z))"
  using later_accept [of t z] by (cases "accept t z") simp

lemma parse_params_keeps:
  "parse_params f ps z = Some (yes, ps1, z1) \<Longrightarrow> ok z \<Longrightarrow> length ps \<le> 8 \<Longrightarrow>
    later z z1 \<and> length ps1 \<le> 8 \<and> (\<not> yes \<longrightarrow> had_error z1)"
proof (induction f arbitrary: ps z)
  case 0
  then show ?case by simp
next
  case (Suc f)
  show ?case
  proof (cases "tk_kind (peek z) = T_RPAR \<or> had_error z")
    case True
    then show ?thesis using Suc.prems by (auto simp: later_def)
  next
    case False
    obtain i z2 where a: "advance (snd (accept T_KW_INT z)) = (i, z2)" by fastforce
    have l: "later z (snd (accept T_KW_INT z))" by (rule accept_later [OF _ Suc.prems(2)]) simp
    show ?thesis
    proof (cases "tk_kind i = T_IDENT")
      case i: False
      then have "z1 = zbc_err ''param name'' z2" "\<not> yes" "ps1 = ps" using Suc.prems(1) False a by auto
      then show ?thesis using later_trans [OF l advance_err [OF a]] Suc.prems(3) err_keeps by simp
    next
      case True
      have l2: "later z z2" by (rule later_trans [OF l advance_later [OF later_ok [OF l] a]]) (simp add: True)
      define ps2 where "ps2 = (if length ps < 8 then ps @ [tk_sval i] else ps)"
      obtain comma z3 where c: "accept T_COMMA z2 = (comma, z3)" by fastforce
      have l3: "later z z3" by (rule later_trans [OF l2 later_accept [OF c _ later_ok [OF l2]]]) simp
      have n: "length ps2 \<le> 8" using Suc.prems(3) by (simp add: ps2_def)
      show ?thesis
        using Suc.prems(1) False a True c l3 n Suc.IH [OF _ later_ok [OF l3] n] later_trans [OF l3]
        by (cases comma) (simp_all add: ps2_def [symmetric] Let_def)
    qed
  qed
qed

lemma upd_func_ok [simp]: "ok (upd_func i g z) = ok z" "had_error (upd_func i g z) = had_error z" "nodes (upd_func i g z) = nodes z"
  by (simp_all add: upd_func_def ok_def tokens_ok_def)

lemma later_length: "later z z1 \<Longrightarrow> length (nodes z) \<le> length (nodes z1)" and later_funcs: "later z z1 \<Longrightarrow> funcs z1 = funcs z"
  and later_scope: "later z z1 \<Longrightarrow> scope_depth z1 = scope_depth z \<and> globals z1 = globals z"
  and later_error: "later z z1 \<Longrightarrow> \<not> had_error z1 \<Longrightarrow> \<not> had_error z"
  by (simp_all add: later_def ext_def)

text \<open>The state at the body of a function is later than the state at its name, up to the entry of the function.\<close>

lemma parse_func_keeps:
  assumes "parse_func f v z = Some z'" and "ok z" and "funcs_ok z"
  shows "ok z' \<and> funcs_ok z'"
proof (cases "had_error z'")
  case True
  then show ?thesis by (simp add: ok_def funcs_ok_def)
next
  case ne: False
  define i where "i = length (funcs z)"
  define z1 where "z1 = z\<lparr>funcs := funcs z @ [\<lparr>fname = [], fbody = 0, fparams = [], fvoid = v\<rparr>]\<rparr>"
  have full: "\<not> MAX_FUNCS \<le> length (funcs z)" using assms(1) ne err_keeps by (auto simp: parse_func_def)
  obtain name z2 where a: "advance z1 = (name, z2)" by fastforce
  have id: "tk_kind name = T_IDENT"
    using assms(1) ne err_keeps(3) [of "''function name''" z2] full a by (auto simp: parse_func_def z1_def Let_def split: if_splits)
  have o1: "ok z1" using assms(2) by (simp add: z1_def ok_def tokens_ok_def)
  have l2: "later z1 z2" by (rule advance_later [OF o1 a]) (simp add: id)
  define z3 where "z3 = upd_func i (\<lambda>g. g\<lparr>fname := tk_sval name\<rparr>) z2"
  have o3: "ok z3" using later_ok [OF l2] by (simp add: z3_def)
  define z4 where "z4 = expect T_LPAR ''('' z3"
  have l4: "later z3 z4" unfolding z4_def by (rule later_expect [OF _ o3]) simp
  define rest where "rest = (\<lambda>yes ps z5. if \<not> yes then Some (upd_func i (\<lambda>g. g\<lparr>fparams := ps\<rparr>) z5)
      else parse_s f Block (expect T_LBRACE ''{'' (expect T_RPAR '')'' (upd_func i (\<lambda>g. g\<lparr>fparams := ps\<rparr>) z5))) \<bind>
        (\<lambda>(b, z5). Some (upd_func i (\<lambda>g. g\<lparr>fbody := b\<rparr>) z5)))"
  have "parse_params f [] z4 \<bind> (\<lambda>(yes, ps, z5). rest yes ps z5) = Some z'"
    using assms(1) full a id unfolding rest_def i_def z4_def z3_def by (simp add: parse_func_def z1_def Let_def)
  then obtain yes ps z5 where p: "parse_params f [] z4 = Some (yes, ps, z5)" and r: "rest yes ps z5 = Some z'"
    by (cases "parse_params f [] z4") auto
  have k5: "later z4 z5" "length ps \<le> 8" "\<not> yes \<longrightarrow> had_error z5" using parse_params_keeps [OF p later_ok [OF l4]] by simp_all
  have yes: "yes" using r k5(3) ne by (auto simp: rest_def split: if_splits)
  define z6 where "z6 = upd_func i (\<lambda>g. g\<lparr>fparams := ps\<rparr>) z5"
  have o6: "ok z6" using later_ok [OF k5(1)] by (simp add: z6_def)
  define z7 where "z7 = expect T_LBRACE ''{'' (expect T_RPAR '')'' z6)"
  have e: "later z6 (expect T_RPAR '')'' z6)" by (rule later_expect [OF _ o6]) simp
  have l7: "later z6 z7" unfolding z7_def by (rule later_trans [OF e later_expect [OF _ later_ok [OF e]]]) simp
  from r yes obtain b z8 where b: "parse_s f Block z7 = Some (b, z8)" and z': "z' = upd_func i (\<lambda>g. g\<lparr>fbody := b\<rparr>) z8"
    by (auto simp: rest_def z7_def z6_def split: bind_splits)
  have l8: "later z7 z8" "node_in z8 b" using parse_block_ok [OF later_ok [OF l7], of f] b by (simp_all add: res_def)
  have len: "length (nodes z) \<le> length (nodes z8)"
    using later_length [OF l2] later_length [OF l4] later_length [OF k5(1)] later_length [OF l7] later_length [OF l8(1)]
    by (simp add: z1_def z3_def z6_def)
  have ez: "\<not> had_error z"
    using later_error [OF l2] later_error [OF l4] later_error [OF k5(1)] later_error [OF l7] later_error [OF l8(1)] ne
    by (simp add: z' z1_def z3_def z6_def)
  have sc: "scope_depth z8 = scope_depth z \<and> globals z8 = globals z"
    using later_scope [OF l2] later_scope [OF l4] later_scope [OF k5(1)] later_scope [OF l7] later_scope [OF l8(1)]
    by (simp add: z1_def z3_def z6_def upd_func_def)
  define F where "F = \<lparr>fname = tk_sval name, fbody = b, fparams = ps, fvoid = v\<rparr>"
  have fs: "funcs z' = funcs z @ [F]"
    using later_funcs [OF l2] later_funcs [OF l4] later_funcs [OF k5(1)] later_funcs [OF l7] later_funcs [OF l8(1)]
    by (simp add: z' upd_func_def z3_def z6_def z1_def i_def F_def)
  have e8: "\<not> had_error z8" "nodes z' = nodes z8" "scope_depth z' = scope_depth z8" "globals z' = globals z8"
    using ne by (simp_all add: z' upd_func_def)
  have "funcs_ok z'" using assms(3) ez len l8(2) full e8 k5(2) sc by (auto simp: funcs_ok_def fs F_def node_in_def)
  moreover have "ok z'" using later_ok [OF l8(1)] by (simp add: z')
  ultimately show ?thesis by simp
qed

lemma parse_program_keeps: "parse_program f z = Some z' \<Longrightarrow> ok z \<Longrightarrow> funcs_ok z \<Longrightarrow> ok z' \<and> funcs_ok z'"
proof (induction f arbitrary: z)
  case 0
  then show ?case by simp
next
  case (Suc f)
  have fo: "funcs_ok z2" if "later z1 z2" "funcs_ok z1" for z1 z2
    using that later_error [OF that(1)] by (auto simp: funcs_ok_def later_def ext_def)
  have "ok z' \<and> funcs_ok z'" if g: "\<not> (tk_kind (peek z) = T_EOF \<or> had_error z)"
  proof -
    obtain fn z1 where a: "accept T_KW_INT z = (fn, z1)" by fastforce
    have l: "later z z1" by (rule later_accept [OF a _ Suc.prems(2)]) simp
    obtain proc z2 where b: "accept T_KW_VOID z1 = (proc, z2)" by fastforce
    have l2: "later z z2" by (rule later_trans [OF l later_accept [OF b _ later_ok [OF l]]]) simp
    have fn1: "parse_func f False z1 \<bind> parse_program f = Some z'" if fn
      using Suc.prems(1) g a that by simp
    have fn2: "parse_func f True z2 \<bind> parse_program f = Some z'" if "\<not> fn" proc
      using Suc.prems(1) g a b that by simp
    have *: ?thesis if "parse_func f v y \<bind> parse_program f = Some z'" "later z y" for v y
    proof (cases "parse_func f v y")
      case (Some y')
      then show ?thesis
        using that Suc.IH [of y'] parse_func_keeps [OF Some later_ok [OF that(2)] fo [OF that(2) Suc.prems(3)]] by simp
    qed (use that in simp)
    have "z' = zbc_err ''expected function definition'' z2" if "\<not> fn" "\<not> proc"
      using Suc.prems(1) g a b that by simp
    then show ?thesis using * [OF fn1 l] * [OF fn2 l2] err_keeps(3) by (cases fn; cases proc) (auto simp: ok_def funcs_ok_def)
  qed
  then show ?case using Suc.prems by (auto split: if_splits)
qed

subsection \<open>Programs\<close>

lemma scan_one_keeps:
  assumes "scan_one p z = Found t q z1"
  shows "toks z1 = toks z \<and> tok_count z1 = tok_count z \<and> strtab_pos z \<le> strtab_pos z1 \<and> nodes z1 = nodes z \<and> funcs z1 = funcs z
    \<and> tok_pos z1 = tok_pos z \<and> scope_depth z1 = scope_depth z \<and> globals z1 = globals z \<and> (had_error z \<longrightarrow> had_error z1) \<and> (\<not> had_error z1 \<longrightarrow> tk_kind t = T_STR \<longrightarrow> tk_str_off t < strtab_pos z1)"
proof -
  have kw: "map_of kw_table s \<noteq> Some T_STR" for s
    by (auto simp: kw_table_def dest!: map_of_SomeD)
  have op: "k \<noteq> T_STR" if "scan_op p = Some (k, q)" for k q
    using that by (auto simp: scan_op_def op2_def Let_def split: if_splits option.splits)
  show ?thesis
    using assms op kw
    by (auto simp: scan_one_def Let_def strtab_add_def zbc_err_def zbc_say_def zero_token_def split: if_splits prod.splits option.splits)
qed

lemma tokenize_loop_keeps:
  "tokenize_loop p z = (True, z') \<Longrightarrow> (\<not> had_error z \<Longrightarrow> \<forall>i<tok_count z. tk_kind (toks z i) = T_STR \<longrightarrow> tk_str_off (toks z i) < strtab_pos z) \<Longrightarrow>
    (\<not> had_error z' \<longrightarrow> tokens_ok z') \<and> nodes z' = nodes z \<and> funcs z' = funcs z \<and> tok_pos z' = tok_pos z
    \<and> scope_depth z' = scope_depth z \<and> globals z' = globals z"
proof (induction p z rule: tokenize_loop.induct)
  case (1 p z)
  show ?case
  proof (cases "p = [] \<or> MAX_TOKENS - 1 \<le> tok_count z")
    case True
    then show ?thesis using 1(3,4) by (subst (asm) tokenize_loop.simps) (auto simp: tokens_ok_def)
  next
    case False
    show ?thesis
    proof (cases "scan_one p z")
      case (Skipped q)
      then show ?thesis using 1(1) [OF False Skipped] 1(3,4) False by (simp add: tokenize_loop.simps [of p z])
    next
      case (Found t q z1)
      have k: "toks z1 = toks z" "tok_count z1 = tok_count z" "strtab_pos z \<le> strtab_pos z1" "nodes z1 = nodes z" "funcs z1 = funcs z"
        "tok_pos z1 = tok_pos z" "scope_depth z1 = scope_depth z" "globals z1 = globals z" "had_error z \<longrightarrow> had_error z1" "\<not> had_error z1 \<longrightarrow> tk_kind t = T_STR \<longrightarrow> tk_str_off t < strtab_pos z1"
        using scan_one_keeps [OF Found] by simp_all
      let ?z = "z1\<lparr>toks := (toks z1)(tok_count z1 := t), tok_count := tok_count z1 + 1\<rparr>"
      have i: "\<forall>i<tok_count ?z. tk_kind (toks ?z i) = T_STR \<longrightarrow> tk_str_off (toks ?z i) < strtab_pos ?z" if "\<not> had_error ?z"
        using k that 1(4) by (auto simp: less_Suc_eq intro: order.strict_trans2)
      have "tokenize_loop q ?z = (True, z')" using 1(3) False Found by (simp add: tokenize_loop.simps [of p z])
      then show ?thesis using 1(2) [OF False Found _ i] k by simp
    next
      case (Unknown c)
      then show ?thesis using 1(3) False by (simp add: tokenize_loop.simps [of p z])
    qed
  qed
qed

text \<open>What the tables hold when a program was read and parsed without an error.\<close>

definition program_ok :: "zbc \<Rightarrow> bool" where
  "program_ok z \<longleftrightarrow> nodes_ok (nodes z) (strtab_pos z) \<and> length (funcs z) \<le> MAX_FUNCS
     \<and> (\<forall>g\<in>set (funcs z). fbody g < length (nodes z) \<and> length (fparams g) \<le> 8) \<and> tok_pos z \<le> tok_count z
     \<and> scope_depth z = 0 \<and> globals z = []"

lemma parsed_program_ok:
  assumes "tokenize src (zbc_start con z) = (True, z1)" and "parse_program f z1 = Some z2" and "\<not> had_error z2"
  shows "program_ok z2"
proof -
  have t: "(\<not> had_error z1 \<longrightarrow> tokens_ok z1) \<and> nodes z1 = [] \<and> funcs z1 = [] \<and> tok_pos z1 = 0 \<and> scope_depth z1 = 0 \<and> globals z1 = []"
    using tokenize_loop_keeps [OF assms(1) [unfolded tokenize_def]] by (simp add: zbc_start_def)
  then have "ok z1" "funcs_ok z1" by (auto simp: ok_def funcs_ok_def nodes_ok_def)
  from parse_program_keeps [OF assms(2) this] assms(3) show ?thesis by (simp add: ok_def funcs_ok_def program_ok_def)
qed

end
