(* ===== verification/ZbcSafe.thy ===== *)
theory ZbcSafe
  imports ZbcWfS
begin

text \<open>
  The evaluator of shell/zbc.c stays inside its tables. The goals it is asked for are nodes of the table, a
  call never leaves the scopes deeper or shallower than it found them, and the array of scopes and the
  variables of a scope stay within their bounds: an evaluator that checks all of this before every step
  does the same as the one that checks nothing.
\<close>

subsection \<open>The invariant\<close>

definition scopes_ok :: "zbc \<Rightarrow> bool" where
  "scopes_ok z \<longleftrightarrow> scope_depth z \<le> MAX_CALL \<and> (\<forall>d < scope_depth z. length (scopes z d) \<le> MAX_VARS) \<and> length (globals z) \<le> MAX_VARS"

definition tables_ok :: "zbc \<Rightarrow> bool" where
  "tables_ok z \<longleftrightarrow> nodes_ok (nodes z) (strtab_pos z) \<and> (\<forall>g\<in>set (funcs z). fbody g < length (nodes z))"

definition goal_in :: "vgoal \<Rightarrow> zbc \<Rightarrow> bool" where
  "goal_in g z =
     (case g of
        Eval c \<Rightarrow> ref_ok (nodes z) c
      | Call_args name c args \<Rightarrow> ref_ok (nodes z) c \<and> length args \<le> 8
      | While_turn i \<Rightarrow> i < length (nodes z)
      | For_turn i \<Rightarrow> i < length (nodes z)
      | Stmts c \<Rightarrow> ref_ok (nodes z) c
      | Format q arg \<Rightarrow> ref_ok (nodes z) arg)"

text \<open>The evaluator that looks before it steps.\<close>

primrec eval_checked :: "nat \<Rightarrow> vgoal \<Rightarrow> evaluator" where
  "eval_checked 0 = (\<lambda>g z. None)"
| "eval_checked (Suc f) = (\<lambda>g z. if goal_in g z \<and> scopes_ok z \<and> tables_ok z then eval_step (eval_checked f) g z else None)"

definition inv :: "zbc \<Rightarrow> bool" where
  "inv z \<longleftrightarrow> scopes_ok z \<and> tables_ok z"

text \<open>What evaluation leaves alone.\<close>

definition frame :: "zbc \<Rightarrow> zbc \<Rightarrow> bool" where
  "frame z z' \<longleftrightarrow> nodes z' = nodes z \<and> funcs z' = funcs z \<and> strtab_pos z' = strtab_pos z \<and> strtab z' = strtab z
     \<and> scope_depth z' = scope_depth z \<and> (had_error z \<longrightarrow> had_error z')"

lemma frame_refl [simp]: "frame z z"
  by (simp add: frame_def)

lemma frame_trans: "frame z z1 \<Longrightarrow> frame z1 z2 \<Longrightarrow> frame z z2"
  by (simp add: frame_def)

text \<open>Two runs of a step that agree, and whose result keeps the invariant and the frame.\<close>

definition agrees :: "zbc \<Rightarrow> ('a \<times> zbc) option \<Rightarrow> ('a \<times> zbc) option \<Rightarrow> bool" where
  "agrees z r s \<longleftrightarrow> r = s \<and> (\<forall>v z'. s = Some (v, z') \<longrightarrow> inv z' \<and> frame z z')"

lemma agree_Some: "inv z' \<Longrightarrow> frame z z' \<Longrightarrow> agrees z (Some (v, z')) (Some (v, z'))"
  by (simp add: agrees_def)

lemma agree_None [simp]: "agrees z None None"
  by (simp add: agrees_def)

lemma agree_frame: "frame z z1 \<Longrightarrow> agrees z1 r s \<Longrightarrow> agrees z r s"
  unfolding agrees_def by (blast intro: frame_trans)

lemma agree_bind:
  assumes "agrees z r s" and "\<And>v z1. inv z1 \<Longrightarrow> frame z z1 \<Longrightarrow> agrees z1 (f v z1) (g v z1)"
  shows "agrees z (r \<bind> (\<lambda>(v, z1). f v z1)) (s \<bind> (\<lambda>(v, z1). g v z1))"
proof (cases s)
  case None
  then show ?thesis using assms(1) by (simp add: agrees_def)
next
  case (Some p)
  obtain v z1 where p: "p = (v, z1)" by (cases p)
  with Some assms(1) have "r = Some (v, z1)" "inv z1" "frame z z1" by (simp_all add: agrees_def)
  with assms(2) [of z1 v] Some p show ?thesis by (auto intro: agree_frame)
qed

text \<open>An answer that needs no state: either none or the value.\<close>

lemma agree_opt: "(\<And>v. r = Some v \<Longrightarrow> agrees z (f v) (g v)) \<Longrightarrow> agrees z (r \<bind> f) (r \<bind> g)"
  by (cases r) simp_all

lemma agree_value: "(\<And>v. inv (h v) \<and> frame z (h v)) \<Longrightarrow> agrees z (r \<bind> (\<lambda>v. Some (v, h v))) (r \<bind> (\<lambda>v. Some (v, h v)))"
  by (cases r) (simp_all add: agrees_def)

subsection \<open>Operations on the state\<close>

definition calm :: "(zbc \<Rightarrow> zbc) \<Rightarrow> bool" where
  "calm h \<longleftrightarrow> (\<forall>z. nodes (h z) = nodes z \<and> funcs (h z) = funcs z \<and> strtab_pos (h z) = strtab_pos z \<and> strtab (h z) = strtab z
     \<and> scope_depth (h z) = scope_depth z \<and> scopes (h z) = scopes z \<and> globals (h z) = globals z \<and> (had_error z \<longrightarrow> had_error (h z)))"

lemma calm_keeps: "calm h \<Longrightarrow> inv z \<Longrightarrow> inv (h z)" "calm h \<Longrightarrow> frame z (h z)"
  by (simp_all add: calm_def inv_def scopes_ok_def tables_ok_def frame_def)

named_theorems calm

lemma calm_flags [calm]:
  "calm (had_continue_update b)" "calm (had_break_update b)" "calm (had_return_update b)" "calm (return_value_update v)"
  "calm (z_out_update t)" "calm (z_keys_update k)"
  by (simp_all add: calm_def)

lemma calm_say [calm]: "calm (zbc_say s)" and calm_err [calm]: "calm (zbc_err m)" and calm_undefined [calm]: "calm (undefined_msg m n)"
  by (simp_all add: calm_def zbc_say_def zbc_err_def undefined_msg_def)

lemma calm_comp: "calm h \<Longrightarrow> calm k \<Longrightarrow> calm (\<lambda>z. h (k z))"
  by (simp add: calm_def)

lemma agree_calm: "calm h \<Longrightarrow> inv z \<Longrightarrow> agrees z (Some (v, h z)) (Some (v, h z))"
  by (simp add: agree_Some calm_keeps)

lemma print_fmt_keeps: "print_fmt m v z = Some z1 \<Longrightarrow> inv z \<Longrightarrow> inv z1 \<and> frame z z1"
  by (auto simp: print_fmt_def inv_def scopes_ok_def tables_ok_def frame_def)

lemma convert_arg_keeps: "convert_arg c v z = Some z1 \<Longrightarrow> inv z \<Longrightarrow> inv z1 \<and> frame z z1"
  using print_fmt_keeps calm_keeps [OF calm_say] by (auto simp: convert_arg_def split: if_splits)

lemma set_local_keeps: "inv z \<Longrightarrow> inv (set_local n v z) \<and> frame z (set_local n v z)"
  by (auto simp: set_local_def inv_def scopes_ok_def tables_ok_def frame_def Let_def zbc_err_def zbc_say_def MAX_CALL_def)

text \<open>find_var gives a place in the current scope or among the globals.\<close>

definition place_in :: "place \<Rightarrow> zbc \<Rightarrow> bool" where
  "place_in p z = (case p of Local i \<Rightarrow> 0 < scope_depth z \<and> i < length (scopes z (scope_depth z - 1)) | Global i \<Rightarrow> i < length (globals z))"

lemma last_named_in: "last_named n vs = Some i \<Longrightarrow> i < length vs \<and> vname (vs ! i) = n"
  by (auto simp: last_named_def first_idx_Some)

lemma find_var_in: "find_var n z = Some p \<Longrightarrow> place_in p z"
  by (auto simp: find_var_def place_in_def split: option.splits if_splits dest: last_named_in)

lemma put_var_keeps: "inv z \<Longrightarrow> inv (put_var p v z) \<and> frame z (put_var p v z)"
  by (auto simp: put_var_def inv_def scopes_ok_def tables_ok_def frame_def Let_def split: place.splits)

subsection \<open>Calls\<close>

lemma set_locals_keeps:
  "inv z \<Longrightarrow> inv (foldl (\<lambda>z (p, a). set_local p a z) z xs) \<and> frame z (foldl (\<lambda>z (p, a). set_local p a z) z xs)"
proof (induction xs arbitrary: z)
  case Nil
  then show ?case by simp
next
  case (Cons x xs)
  show ?case
    using Cons.IH [of "set_local (fst x) (snd x) z"] set_local_keeps [OF Cons.prems, of "fst x" "snd x"]
    by (auto simp: split_def intro: frame_trans)
qed

lemma builtin_keeps:
  assumes "builtin name args z = Some r" and "inv z"
  shows "agrees z r r"
proof -
  have p: "agrees z (print_fmt m v z \<bind> (\<lambda>z1. Some (0 :: u32, zbc_say [10] z1))) (print_fmt m v z \<bind> (\<lambda>z1. Some (0, zbc_say [10] z1)))" for m v
  proof (rule agree_opt)
    fix z1 assume "print_fmt m v z = Some z1"
    then have "inv z1" "frame z z1" using print_fmt_keeps [OF _ assms(2)] by simp_all
    then show "agrees z (Some (0 :: u32, zbc_say [10] z1)) (Some (0, zbc_say [10] z1))"
      by (blast intro: agree_frame agree_calm calm_say)
  qed
  have k: "agrees z (Some (v, z\<lparr>z_keys := ks\<rparr>)) (Some (v, z\<lparr>z_keys := ks\<rparr>))" for v :: u32 and ks
    using agree_calm [OF calm_flags(6) assms(2), of v "\<lambda>_. ks"] by simp
  show ?thesis
    using assms(1) p k agree_calm [OF calm_say assms(2)] agree_Some [OF assms(2) frame_refl]
    by (auto simp: builtin_def split: if_splits list.splits)
qed

definition undefined_call :: "bytes \<Rightarrow> zbc \<Rightarrow> zbc" where
  "undefined_call name z = zbc_say (lit ''       (called: '' @ name @ lit '')'' @ [10]) (zbc_err ''undefined function'' z)"

lemma calm_undefined_call [calm]: "calm (undefined_call n)"
  by (simp add: calm_def undefined_call_def zbc_say_def zbc_err_def)

text \<open>The state in which the body of a called function is evaluated.\<close>

definition enter :: "func \<Rightarrow> u32 list \<Rightarrow> zbc \<Rightarrow> zbc" where
  "enter fn args z =
     (foldl (\<lambda>z (p, a). set_local p a z) (z\<lparr>scope_depth := scope_depth z + 1, scopes := (scopes z)(scope_depth z := [])\<rparr>)
        (zip (fparams fn) args))\<lparr>had_return := False, return_value := 0\<rparr>"

lemma enter_keeps:
  assumes "inv z" and "scope_depth z < MAX_CALL"
  shows "inv (enter fn args z) \<and> nodes (enter fn args z) = nodes z \<and> funcs (enter fn args z) = funcs z
    \<and> strtab_pos (enter fn args z) = strtab_pos z \<and> strtab (enter fn args z) = strtab z \<and> scope_depth (enter fn args z) = scope_depth z + 1
    \<and> (had_error z \<longrightarrow> had_error (enter fn args z))"
proof -
  let ?z1 = "z\<lparr>scope_depth := scope_depth z + 1, scopes := (scopes z)(scope_depth z := [])\<rparr>"
  have "inv ?z1" using assms by (auto simp: inv_def scopes_ok_def tables_ok_def)
  define w where "w = foldl (\<lambda>z (p, a). set_local p a z) ?z1 (zip (fparams fn) args)"
  have "inv w" "frame ?z1 w" using set_locals_keeps [OF \<open>inv ?z1\<close>] by (simp_all add: w_def)
  then show ?thesis unfolding enter_def w_def [symmetric] by (simp add: inv_def scopes_ok_def tables_ok_def frame_def)
qed

lemma call_enter:
  "call_function rec name args z =
     (case builtin name args z of
        Some r \<Rightarrow> r
      | None \<Rightarrow>
          (case first_idx (\<lambda>i. fname (funcs z ! i) = name) (length (funcs z)) of
             None \<Rightarrow> Some (0, undefined_call name z)
           | Some i \<Rightarrow>
               if MAX_CALL \<le> scope_depth z then Some (0, zbc_err ''call too deep'' z)
               else rec (Eval (Some (fbody (funcs z ! i)))) (enter (funcs z ! i) args z) \<bind>
                 (\<lambda>(_, z3). Some (return_value z3, z3\<lparr>had_return := False, scope_depth := scope_depth z3 - 1\<rparr>))))"
  unfolding call_function_def undefined_call_def enter_def Let_def by (rule refl)

subsection \<open>The steps\<close>

text \<open>The links of a node of the table.\<close>

lemma node_in_table: "inv z \<Longrightarrow> i < length (nodes z) \<Longrightarrow> node_ok (nodes z) (strtab_pos z) (nodes z ! i)"
  by (simp add: inv_def tables_ok_def nodes_ok_def)

lemma child_ref: "inv z \<Longrightarrow> i < length (nodes z) \<Longrightarrow> j < 4 \<Longrightarrow> ref_ok (nodes z) (nchild (nodes z ! i) ! j)"
  using node_in_table [of z i] by (simp add: node_ok_def)

lemma next_ref: "inv z \<Longrightarrow> i < length (nodes z) \<Longrightarrow> ref_ok (nodes z) (nnext (nodes z ! i))"
  using node_in_table [of z i] by (simp add: node_ok_def)

lemma ref_Some [simp]: "ref_ok ns (Some i) \<longleftrightarrow> i < length ns" and ref_None [simp]: "ref_ok ns None"
  by (simp_all add: ref_ok_def)

lemma frame_nodes: "frame z z1 \<Longrightarrow> nodes z1 = nodes z"
  by (simp add: frame_def)

text \<open>Two evaluators that agree on every goal in range.\<close>

locale agreeing =
  fixes rec rec' :: "vgoal \<Rightarrow> evaluator"
  assumes rec_agree: "inv z \<Longrightarrow> goal_in g z \<Longrightarrow> agrees z (rec g z) (rec' g z)"
begin

lemma ev: "inv z \<Longrightarrow> ref_ok (nodes z) c \<Longrightarrow> agrees z (rec (Eval c) z) (rec' (Eval c) z)"
  by (rule rec_agree) (simp_all add: goal_in_def)

lemma call: 
  assumes "inv z"
  shows "agrees z (call_function rec name args z) (call_function rec' name args z)"
proof (cases "builtin name args z")
  case (Some r)
  then show ?thesis using builtin_keeps [OF Some assms] by (simp add: call_enter)
next
  case bn: None
  show ?thesis
  proof (cases "first_idx (\<lambda>i. fname (funcs z ! i) = name) (length (funcs z))")
    case None
    then show ?thesis using bn agree_calm [OF calm_undefined_call assms] by (simp add: call_enter)
  next
    case (Some i)
    then have i: "i < length (funcs z)" by (simp add: first_idx_Some)
    show ?thesis
    proof (cases "MAX_CALL \<le> scope_depth z")
      case True
      then show ?thesis using bn Some agree_calm [OF calm_err assms] by (simp add: call_enter)
    next
      case False
      let ?w = "enter (funcs z ! i) args z"
      have w: "inv ?w" "nodes ?w = nodes z" "funcs ?w = funcs z" "strtab_pos ?w = strtab_pos z" "strtab ?w = strtab z"
        "scope_depth ?w = scope_depth z + 1" "had_error z \<longrightarrow> had_error ?w"
        using enter_keeps [OF assms, of "funcs z ! i" args] False by simp_all
      have "ref_ok (nodes ?w) (Some (fbody (funcs z ! i)))"
        using assms i w(2) by (auto simp: inv_def tables_ok_def ref_ok_def)
      from ev [OF w(1) this] have a: "agrees ?w (rec (Eval (Some (fbody (funcs z ! i)))) ?w) (rec' (Eval (Some (fbody (funcs z ! i)))) ?w)" .
      have e: "inv (z3\<lparr>had_return := False, scope_depth := scope_depth z3 - 1\<rparr>) \<and>
          frame z (z3\<lparr>had_return := False, scope_depth := scope_depth z3 - 1\<rparr>)" if "inv z3" "frame ?w z3" for z3
        using that w by (auto simp: inv_def scopes_ok_def tables_ok_def frame_def)
      show ?thesis
        using bn Some False a e by (auto simp: call_enter agrees_def split: bind_splits)
    qed
  qed
qed


lemma opt: "inv z \<Longrightarrow> ref_ok (nodes z) c \<Longrightarrow> agrees z (eval_opt rec c d z) (eval_opt rec' c d z)"
  using ev [of z c] by (simp add: eval_opt_def agree_Some)

lemma assign:
  assumes "inv z" and "i < length (nodes z)"
  shows "agrees z (eval_assign rec (nodes z ! i) z) (eval_assign rec' (nodes z ! i) z)"
  unfolding eval_assign_def Let_def
proof (rule agree_bind [OF ev [OF assms(1) child_ref [OF assms]]], simp)
  fix rv z1 assume z1: "inv z1" "frame z z1"
  let ?l = "nodes z ! the (nchild (nodes z ! i) ! 0)"
  show "agrees z1 (case find_var (nname ?l) z1 of
        None \<Rightarrow> if nival ?l = 1 then Some (rv, set_local (nname ?l) rv z1)
          else Some (rv, undefined_msg ''assign to undefined variable'' (nname ?l) z1)
      | Some p \<Rightarrow> assign_value (nop (nodes z ! i)) (get_var p z1) rv \<bind> (\<lambda>v. Some (v, put_var p v z1)))
     (case find_var (nname ?l) z1 of
        None \<Rightarrow> if nival ?l = 1 then Some (rv, set_local (nname ?l) rv z1)
          else Some (rv, undefined_msg ''assign to undefined variable'' (nname ?l) z1)
      | Some p \<Rightarrow> assign_value (nop (nodes z ! i)) (get_var p z1) rv \<bind> (\<lambda>v. Some (v, put_var p v z1)))"
    using set_local_keeps [OF z1(1)] agree_calm [OF calm_undefined z1(1)] put_var_keeps [OF z1(1)]
    by (cases "find_var (nname ?l) z1") (auto intro: agree_Some agree_value)
qed

lemma bin:
  assumes "inv z" and "i < length (nodes z)"
  shows "agrees z (eval_bin rec (nodes z ! i) z) (eval_bin rec' (nodes z ! i) z)"
  unfolding eval_bin_def
proof (rule agree_bind [OF ev [OF assms(1) child_ref [OF assms]]], simp)
  fix a z1 assume z1: "inv z1" "frame z z1"
  have c: "ref_ok (nodes z1) (nchild (nodes z ! i) ! 1)" using child_ref [OF assms] frame_nodes [OF z1(2)] by simp
  have e: "agrees z1 (rec (Eval (nchild (nodes z ! i) ! 1)) z1 \<bind> (\<lambda>(b, z2). f b \<bind> (\<lambda>v. Some (v, z2))))
      (rec' (Eval (nchild (nodes z ! i) ! 1)) z1 \<bind> (\<lambda>(b, z2). f b \<bind> (\<lambda>v. Some (v, z2))))" for f :: "u32 \<Rightarrow> u32 option"
    by (rule agree_bind [OF ev [OF z1(1) c]]) (simp add: agree_value)
  have b: "agrees z1 (rec (Eval (nchild (nodes z ! i) ! 1)) z1 \<bind> (\<lambda>(b, z2). Some (bool32 (b \<noteq> 0), z2)))
      (rec' (Eval (nchild (nodes z ! i) ! 1)) z1 \<bind> (\<lambda>(b, z2). Some (bool32 (b \<noteq> 0), z2)))"
    by (rule agree_bind [OF ev [OF z1(1) c]]) (auto intro: agree_Some)
  show "agrees z1 (if nop (nodes z ! i) = T_AND then
        if a \<noteq> 0 then rec (Eval (nchild (nodes z ! i) ! 1)) z1 \<bind> (\<lambda>(b, z2). Some (bool32 (b \<noteq> 0), z2)) else Some (0, z1)
      else if nop (nodes z ! i) = T_OR then
        if a \<noteq> 0 then Some (1, z1) else rec (Eval (nchild (nodes z ! i) ! 1)) z1 \<bind> (\<lambda>(b, z2). Some (bool32 (b \<noteq> 0), z2))
      else rec (Eval (nchild (nodes z ! i) ! 1)) z1 \<bind> (\<lambda>(b, z2). bin_value (nop (nodes z ! i)) a b \<bind> (\<lambda>v. Some (v, z2))))
     (if nop (nodes z ! i) = T_AND then
        if a \<noteq> 0 then rec' (Eval (nchild (nodes z ! i) ! 1)) z1 \<bind> (\<lambda>(b, z2). Some (bool32 (b \<noteq> 0), z2)) else Some (0, z1)
      else if nop (nodes z ! i) = T_OR then
        if a \<noteq> 0 then Some (1, z1) else rec' (Eval (nchild (nodes z ! i) ! 1)) z1 \<bind> (\<lambda>(b, z2). Some (bool32 (b \<noteq> 0), z2))
      else rec' (Eval (nchild (nodes z ! i) ! 1)) z1 \<bind> (\<lambda>(b, z2). bin_value (nop (nodes z ! i)) a b \<bind> (\<lambda>v. Some (v, z2))))"
    using e b z1(1) by (auto intro: agree_Some)
qed

lemma str_node:
  assumes "inv z" and "i < length (nodes z)" and "str_arg_node (nodes z ! i) z = Some a"
  shows "a < length (nodes z)"
  using child_ref [OF assms(1,2), of 0] assms(3) by (auto simp: str_arg_node_def split: option.splits if_splits)

lemma call_node:
  assumes "inv z" and "i < length (nodes z)"
  shows "agrees z (eval_call rec (nodes z ! i) z) (eval_call rec' (nodes z ! i) z)"
proof -
  have f: "agrees z (rec (Format (nstr (nodes z ! a)) (nnext (nodes z ! a))) z) (rec' (Format (nstr (nodes z ! a)) (nnext (nodes z ! a))) z)"
    if "str_arg_node (nodes z ! i) z = Some a" for a
    using next_ref [OF assms(1) str_node [OF assms that]] by (intro rec_agree [OF assms(1)]) (simp add: goal_in_def)
  have c: "agrees z (rec (Call_args n (nchild (nodes z ! i) ! 0) []) z) (rec' (Call_args n (nchild (nodes z ! i) ! 0) []) z)" for n
    using child_ref [OF assms, of 0] by (intro rec_agree [OF assms(1)]) (simp add: goal_in_def)
  show ?thesis using f c agree_calm [OF calm_err assms(1)] agree_calm [OF calm_say assms(1)]
    unfolding eval_call_def by (auto split: option.splits)
qed

lemma args:
  assumes "inv z" and "ref_ok (nodes z) c" and "length as \<le> 8"
  shows "agrees z (call_args rec name c as z) (call_args rec' name c as z)"
proof (cases c)
  case None
  then show ?thesis using call [OF assms(1)] by (simp add: call_args_def)
next
  case (Some a)
  have "agrees z (rec (Eval c) z \<bind> (\<lambda>(v, z1). rec (Call_args name (nnext (nodes z1 ! a)) (as @ [v])) z1))
      (rec' (Eval c) z \<bind> (\<lambda>(v, z1). rec' (Call_args name (nnext (nodes z1 ! a)) (as @ [v])) z1))" if "length as < 8"
  proof (rule agree_bind [OF ev [OF assms(1,2)]])
    fix v z1 assume z1: "inv z1" "frame z z1"
    have "ref_ok (nodes z1) (nnext (nodes z1 ! a))" using next_ref [OF z1(1), of a] frame_nodes [OF z1(2)] assms(2) Some by simp
    then show "agrees z1 (rec (Call_args name (nnext (nodes z1 ! a)) (as @ [v])) z1) (rec' (Call_args name (nnext (nodes z1 ! a)) (as @ [v])) z1)"
      using that by (intro rec_agree [OF z1(1)]) (simp add: goal_in_def)
  qed
  then show ?thesis using Some call [OF assms(1)] by (simp add: call_args_def)
qed

lemma format:
  assumes "inv z" and "ref_ok (nodes z) arg"
  shows "agrees z (eval_format rec q arg z) (eval_format rec' q arg z)"
proof -
  define d where "d = strtab z ! (q + 1)"
  have fmt: "agrees z1 (rec (Format p a) z1) (rec' (Format p a) z1)" if "inv z1" "ref_ok (nodes z1) a" for p a z1
    using that(2) by (intro rec_agree [OF that(1)]) (simp add: goal_in_def)
  have say: "agrees z (rec (Format p a) (zbc_say t z)) (rec' (Format p a) (zbc_say t z))" if "ref_ok (nodes z) a" for p a t
    using calm_keeps [OF calm_say, of z t] assms(1) that by (intro agree_frame [OF _ fmt]) (auto simp: frame_nodes)
  have str: "agrees z (rec (Format p (nnext (nodes z ! a))) (zbc_say t z)) (rec' (Format p (nnext (nodes z ! a))) (zbc_say t z))" if "arg = Some a" for p a t
    using say [OF next_ref [OF assms(1)]] that assms(2) by simp
  have conv: "agrees z
      ((case arg of Some a \<Rightarrow> rec (Eval (Some a)) z | None \<Rightarrow> Some (0, z)) \<bind> (\<lambda>(v, z1). convert_arg d v z1 \<bind> (\<lambda>z2.
        rec (Format (q + 2) (case arg of Some a \<Rightarrow> nnext (nodes z1 ! a) | None \<Rightarrow> None)) z2)))
      ((case arg of Some a \<Rightarrow> rec' (Eval (Some a)) z | None \<Rightarrow> Some (0, z)) \<bind> (\<lambda>(v, z1). convert_arg d v z1 \<bind> (\<lambda>z2.
        rec' (Format (q + 2) (case arg of Some a \<Rightarrow> nnext (nodes z1 ! a) | None \<Rightarrow> None)) z2)))"
  proof (rule agree_bind)
    show "agrees z (case arg of Some a \<Rightarrow> rec (Eval (Some a)) z | None \<Rightarrow> Some (0, z)) (case arg of Some a \<Rightarrow> rec' (Eval (Some a)) z | None \<Rightarrow> Some (0, z))"
      using ev [OF assms(1)] assms by (auto intro: agree_Some split: option.split)
    fix v z1 assume z1: "inv z1" "frame z z1"
    have a: "ref_ok (nodes z1) (case arg of Some a \<Rightarrow> nnext (nodes z1 ! a) | None \<Rightarrow> None)"
      using next_ref [OF z1(1)] assms(2) frame_nodes [OF z1(2)] by (auto split: option.split)
    show "agrees z1 (convert_arg d v z1 \<bind> (\<lambda>z2. rec (Format (q + 2) (case arg of Some a \<Rightarrow> nnext (nodes z1 ! a) | None \<Rightarrow> None)) z2))
        (convert_arg d v z1 \<bind> (\<lambda>z2. rec' (Format (q + 2) (case arg of Some a \<Rightarrow> nnext (nodes z1 ! a) | None \<Rightarrow> None)) z2))"
    proof (rule agree_opt)
      fix z2 assume "convert_arg d v z1 = Some z2"
      then have k: "inv z2" "frame z1 z2" using convert_arg_keeps [OF _ z1(1)] by simp_all
      show "agrees z1 (rec (Format (q + 2) (case arg of Some a \<Rightarrow> nnext (nodes z1 ! a) | None \<Rightarrow> None)) z2)
        (rec' (Format (q + 2) (case arg of Some a \<Rightarrow> nnext (nodes z1 ! a) | None \<Rightarrow> None)) z2)"
        using agree_frame [OF k(2) fmt [OF k(1)]] a frame_nodes [OF k(2)] by simp
    qed
  qed
  show ?thesis
    using say [OF assms(2)] str fmt [OF assms] conv agree_Some [OF assms(1) frame_refl]
    unfolding eval_format_def Let_def d_def [symmetric] by (auto split: option.split)
qed

lemma while_loop:
  assumes "inv z" and "i < length (nodes z)"
  shows "agrees z (while_turn rec i z) (while_turn rec' i z)"
proof -
  have stop: "agrees z1 (Some (0, z1\<lparr>had_break := False\<rparr>)) (Some (0 :: u32, z1\<lparr>had_break := False\<rparr>))" if "inv z1" for z1
    using agree_calm [OF calm_flags(2) that, of 0 "\<lambda>_. False"] by simp
  have "agrees z (rec (Eval (nchild (nodes z ! i) ! 0)) z \<bind> (\<lambda>(c, z1).
        if c \<noteq> 0 then rec (Eval (nchild (nodes z ! i) ! 1)) (z1\<lparr>had_continue := False\<rparr>) \<bind> (\<lambda>(_, z2). rec (While_turn i) z2)
        else Some (0, z1\<lparr>had_break := False\<rparr>)))
      (rec' (Eval (nchild (nodes z ! i) ! 0)) z \<bind> (\<lambda>(c, z1).
        if c \<noteq> 0 then rec' (Eval (nchild (nodes z ! i) ! 1)) (z1\<lparr>had_continue := False\<rparr>) \<bind> (\<lambda>(_, z2). rec' (While_turn i) z2)
        else Some (0, z1\<lparr>had_break := False\<rparr>)))"
  proof (rule agree_bind [OF ev [OF assms(1) child_ref [OF assms]]], simp)
    fix c z1 assume z1: "inv z1" "frame z z1"
    let ?z = "z1\<lparr>had_continue := False\<rparr>"
    have w: "inv ?z" "frame z1 ?z" using calm_keeps [OF calm_flags(1), of z1 "\<lambda>_. False"] z1(1) by simp_all
    have r: "ref_ok (nodes ?z) (nchild (nodes z ! i) ! 1)" using child_ref [OF assms, of 1] frame_nodes [OF z1(2)] by simp
    have "agrees ?z (rec (Eval (nchild (nodes z ! i) ! 1)) ?z \<bind> (\<lambda>(_, z2). rec (While_turn i) z2))
        (rec' (Eval (nchild (nodes z ! i) ! 1)) ?z \<bind> (\<lambda>(_, z2). rec' (While_turn i) z2))"
    proof (rule agree_bind [OF ev [OF w(1) r]])
      fix v z2 assume z2: "inv z2" "frame ?z z2"
      show "agrees z2 (rec (While_turn i) z2) (rec' (While_turn i) z2)"
        using assms(2) frame_nodes [OF z1(2)] frame_nodes [OF z2(2)] by (intro rec_agree [OF z2(1)]) (simp add: goal_in_def)
    qed
    from agree_frame [OF w(2) this] stop [OF z1(1)]
    show "agrees z1 (if c \<noteq> 0 then rec (Eval (nchild (nodes z ! i) ! 1)) ?z \<bind> (\<lambda>(_, z2). rec (While_turn i) z2) else Some (0, z1\<lparr>had_break := False\<rparr>))
        (if c \<noteq> 0 then rec' (Eval (nchild (nodes z ! i) ! 1)) ?z \<bind> (\<lambda>(_, z2). rec' (While_turn i) z2) else Some (0, z1\<lparr>had_break := False\<rparr>))" by simp
  qed
  then show ?thesis using stop [OF assms(1)] by (simp add: while_turn_def)
qed

lemma for_loop:
  assumes "inv z" and "i < length (nodes z)"
  shows "agrees z (for_turn rec i z) (for_turn rec' i z)"
proof -
  let ?c = "\<lambda>j. nchild (nodes z ! i) ! j"
  have stop: "agrees z1 (Some (0, z1\<lparr>had_break := False\<rparr>)) (Some (0 :: u32, z1\<lparr>had_break := False\<rparr>))" if "inv z1" for z1
    using agree_calm [OF calm_flags(2) that, of 0 "\<lambda>_. False"] by simp
  have clear: "inv (z1\<lparr>had_continue := False\<rparr>) \<and> frame z1 (z1\<lparr>had_continue := False\<rparr>)" if "inv z1" for z1
    using calm_keeps [OF calm_flags(1), of z1 "\<lambda>_. False"] that by simp
  have r: "ref_ok (nodes z1) (?c j)" if "frame z z1" "j < 4" for z1 j using child_ref [OF assms that(2)] frame_nodes [OF that(1)] by simp
  have "agrees z (eval_opt rec (?c 1) 1 z \<bind> (\<lambda>(c, z1).
        if c = 0 then Some (0, z1\<lparr>had_break := False\<rparr>)
        else eval_opt rec (?c 3) 0 (z1\<lparr>had_continue := False\<rparr>) \<bind> (\<lambda>(_, z2).
          eval_opt rec (?c 2) 0 (z2\<lparr>had_continue := False\<rparr>) \<bind> (\<lambda>(_, z3). rec (For_turn i) z3))))
      (eval_opt rec' (?c 1) 1 z \<bind> (\<lambda>(c, z1).
        if c = 0 then Some (0, z1\<lparr>had_break := False\<rparr>)
        else eval_opt rec' (?c 3) 0 (z1\<lparr>had_continue := False\<rparr>) \<bind> (\<lambda>(_, z2).
          eval_opt rec' (?c 2) 0 (z2\<lparr>had_continue := False\<rparr>) \<bind> (\<lambda>(_, z3). rec' (For_turn i) z3))))"
  proof (rule agree_bind [OF opt [OF assms(1) r [OF frame_refl]]], simp)
    fix c z1 assume z1: "inv z1" "frame z z1"
    let ?z1 = "z1\<lparr>had_continue := False\<rparr>"
    have f1: "frame z ?z1" using z1 clear frame_trans by blast
    have "agrees ?z1 (eval_opt rec (?c 3) 0 ?z1 \<bind> (\<lambda>(_, z2).
          eval_opt rec (?c 2) 0 (z2\<lparr>had_continue := False\<rparr>) \<bind> (\<lambda>(_, z3). rec (For_turn i) z3)))
        (eval_opt rec' (?c 3) 0 ?z1 \<bind> (\<lambda>(_, z2).
          eval_opt rec' (?c 2) 0 (z2\<lparr>had_continue := False\<rparr>) \<bind> (\<lambda>(_, z3). rec' (For_turn i) z3)))"
    proof (rule agree_bind [OF opt [OF _ r [OF f1]]])
      show "inv ?z1" using clear z1(1) by simp
      fix v z2 assume z2: "inv z2" "frame ?z1 z2"
      let ?z2 = "z2\<lparr>had_continue := False\<rparr>"
      have f2: "frame z ?z2" using f1 z2 clear frame_trans by blast
      have "agrees ?z2 (eval_opt rec (?c 2) 0 ?z2 \<bind> (\<lambda>(_, z3). rec (For_turn i) z3))
          (eval_opt rec' (?c 2) 0 ?z2 \<bind> (\<lambda>(_, z3). rec' (For_turn i) z3))"
      proof (rule agree_bind [OF opt [OF _ r [OF f2]]])
        show "inv ?z2" using clear z2(1) by simp
        fix w z3 assume z3: "inv z3" "frame ?z2 z3"
        show "agrees z3 (rec (For_turn i) z3) (rec' (For_turn i) z3)"
          using assms(2) frame_nodes [OF f2] frame_nodes [OF z3(2)] by (intro rec_agree [OF z3(1)]) (simp add: goal_in_def)
      qed simp
      then show "agrees z2 (eval_opt rec (?c 2) 0 ?z2 \<bind> (\<lambda>(_, z3). rec (For_turn i) z3)) (eval_opt rec' (?c 2) 0 ?z2 \<bind> (\<lambda>(_, z3). rec' (For_turn i) z3))"
        by (rule agree_frame [OF conjunct2 [OF clear [OF z2(1)]]])
    qed simp
    from agree_frame [OF conjunct2 [OF clear [OF z1(1)]] this] stop [OF z1(1)]
    show "agrees z1 (if c = 0 then Some (0, z1\<lparr>had_break := False\<rparr>)
        else eval_opt rec (?c 3) 0 ?z1 \<bind> (\<lambda>(_, z2). eval_opt rec (?c 2) 0 (z2\<lparr>had_continue := False\<rparr>) \<bind> (\<lambda>(_, z3). rec (For_turn i) z3)))
      (if c = 0 then Some (0, z1\<lparr>had_break := False\<rparr>)
        else eval_opt rec' (?c 3) 0 ?z1 \<bind> (\<lambda>(_, z2). eval_opt rec' (?c 2) 0 (z2\<lparr>had_continue := False\<rparr>) \<bind> (\<lambda>(_, z3). rec' (For_turn i) z3)))"
      by simp
  qed
  then show ?thesis using stop [OF assms(1)] by (simp add: for_turn_def Let_def)
qed

lemma stmts:
  assumes "inv z" and "ref_ok (nodes z) c"
  shows "agrees z (eval_stmts rec c z) (eval_stmts rec' c z)"
proof (cases c)
  case None
  then show ?thesis using assms(1) by (simp add: eval_stmts_def agree_Some)
next
  case (Some i)
  have "agrees z (rec (Eval c) z \<bind> (\<lambda>(_, z1). rec (Stmts (nnext (nodes z1 ! i))) z1))
      (rec' (Eval c) z \<bind> (\<lambda>(_, z1). rec' (Stmts (nnext (nodes z1 ! i))) z1))"
  proof (rule agree_bind [OF ev [OF assms]])
    fix v z1 assume z1: "inv z1" "frame z z1"
    have "ref_ok (nodes z1) (nnext (nodes z1 ! i))" using next_ref [OF z1(1)] frame_nodes [OF z1(2)] assms(2) Some by simp
    then show "agrees z1 (rec (Stmts (nnext (nodes z1 ! i))) z1) (rec' (Stmts (nnext (nodes z1 ! i))) z1)"
      by (intro rec_agree [OF z1(1)]) (simp add: goal_in_def)
  qed
  then show ?thesis using Some assms(1) by (simp add: eval_stmts_def agree_Some)
qed

lemma return_stmt:
  assumes "inv z" and "i < length (nodes z)"
  shows "agrees z (eval_return rec (nodes z ! i) z) (eval_return rec' (nodes z ! i) z)"
proof (cases "nchild (nodes z ! i) ! 0")
  case None
  then show ?thesis using agree_calm [OF calm_flags(3) assms(1), of "return_value z" "\<lambda>_. True"] by (simp add: eval_return_def)
next
  case (Some c)
  have "agrees z (rec (Eval (Some c)) z \<bind> (\<lambda>(v, z1). Some (v, z1\<lparr>return_value := v, had_return := True\<rparr>)))
      (rec' (Eval (Some c)) z \<bind> (\<lambda>(v, z1). Some (v, z1\<lparr>return_value := v, had_return := True\<rparr>)))"
  proof (rule agree_bind)
    show "agrees z (rec (Eval (Some c)) z) (rec' (Eval (Some c)) z)" using ev [OF assms(1), of "Some c"] child_ref [OF assms, of 0] Some by simp
    fix v z1 assume "inv z1"
    then show "agrees z1 (Some (v, z1\<lparr>return_value := v, had_return := True\<rparr>)) (Some (v, z1\<lparr>return_value := v, had_return := True\<rparr>))"
      by (rule agree_calm [OF calm_comp [OF calm_flags(3) calm_flags(4)], of z1 v "\<lambda>_. True" "\<lambda>_. v"])
  qed
  then show ?thesis using Some by (simp add: eval_return_def)
qed

lemma unary:
  assumes "inv z" and "i < length (nodes z)"
  shows "agrees z (rec (Eval (nchild (nodes z ! i) ! 0)) z \<bind> (\<lambda>(a, z1). Some (f a, z1))) (rec' (Eval (nchild (nodes z ! i) ! 0)) z \<bind> (\<lambda>(a, z1). Some (f a, z1)))"
  by (rule agree_bind [OF ev [OF assms(1) child_ref [OF assms]]]) (auto intro: agree_Some)

lemma if_stmt:
  assumes "inv z" and "i < length (nodes z)"
  shows "agrees z (rec (Eval (nchild (nodes z ! i) ! 0)) z \<bind> (\<lambda>(c, z1).
        (if c \<noteq> 0 then rec (Eval (nchild (nodes z ! i) ! 1)) z1 else eval_opt rec (nchild (nodes z ! i) ! 2) 0 z1) \<bind> (\<lambda>(_, z2). Some (0, z2))))
      (rec' (Eval (nchild (nodes z ! i) ! 0)) z \<bind> (\<lambda>(c, z1).
        (if c \<noteq> 0 then rec' (Eval (nchild (nodes z ! i) ! 1)) z1 else eval_opt rec' (nchild (nodes z ! i) ! 2) 0 z1) \<bind> (\<lambda>(_, z2). Some (0 :: u32, z2))))"
proof (rule agree_bind [OF ev [OF assms(1) child_ref [OF assms]]], simp)
  fix c z1 assume z1: "inv z1" "frame z z1"
  show "agrees z1 ((if c \<noteq> 0 then rec (Eval (nchild (nodes z ! i) ! 1)) z1 else eval_opt rec (nchild (nodes z ! i) ! 2) 0 z1) \<bind> (\<lambda>(_, z2). Some (0, z2)))
      ((if c \<noteq> 0 then rec' (Eval (nchild (nodes z ! i) ! 1)) z1 else eval_opt rec' (nchild (nodes z ! i) ! 2) 0 z1) \<bind> (\<lambda>(_, z2). Some (0 :: u32, z2)))"
    using ev [OF z1(1)] opt [OF z1(1)] child_ref [OF assms, of 1] child_ref [OF assms, of 2] frame_nodes [OF z1(2)]
    by (intro agree_bind) (auto intro: agree_Some)
qed

lemma for_init:
  assumes "inv z" and "i < length (nodes z)"
  shows "agrees z (eval_opt rec (nchild (nodes z ! i) ! 0) 0 z \<bind> (\<lambda>(_, z1). rec (For_turn i) z1)) (eval_opt rec' (nchild (nodes z ! i) ! 0) 0 z \<bind> (\<lambda>(_, z1). rec' (For_turn i) z1))"
proof (rule agree_bind [OF opt [OF assms(1) child_ref [OF assms]]], simp)
  fix v z1 assume z1: "inv z1" "frame z z1"
  show "agrees z1 (rec (For_turn i) z1) (rec' (For_turn i) z1)"
    using assms(2) frame_nodes [OF z1(2)] by (intro rec_agree [OF z1(1)]) (simp add: goal_in_def)
qed

lemma variable: "inv z \<Longrightarrow> agrees z (case find_var m z of None \<Rightarrow> Some (0, undefined_msg ''undefined variable'' m z) | Some p \<Rightarrow> Some (get_var p z, z))
    (case find_var m z of None \<Rightarrow> Some (0, undefined_msg ''undefined variable'' m z) | Some p \<Rightarrow> Some (get_var p z, z))"
  using agree_calm [OF calm_undefined] by (auto intro: agree_Some split: option.split)

lemma node:
  assumes "inv z" and "i < length (nodes z)"
  shows "agrees z (eval_node rec i z) (eval_node rec' i z)"
proof -
  have w: "agrees z (rec (While_turn i) z) (rec' (While_turn i) z)" using assms by (intro rec_agree) (simp_all add: goal_in_def)
  have b: "agrees z (rec (Stmts (nchild (nodes z ! i) ! 0)) z) (rec' (Stmts (nchild (nodes z ! i) ! 0)) z)"
    using child_ref [OF assms, of 0] by (intro rec_agree [OF assms(1)]) (simp_all add: goal_in_def)
  have e: "agrees z (rec (Eval (nchild (nodes z ! i) ! 0)) z) (rec' (Eval (nchild (nodes z ! i) ! 0)) z)"
    using ev [OF assms(1) child_ref [OF assms, of 0]] by simp
  have f: "agrees z (Some (0, z\<lparr>had_break := True\<rparr>)) (Some (0 :: u32, z\<lparr>had_break := True\<rparr>))"
    "agrees z (Some (0, z\<lparr>had_continue := True\<rparr>)) (Some (0 :: u32, z\<lparr>had_continue := True\<rparr>))"
    using agree_calm [OF calm_flags(2) assms(1), of 0 "\<lambda>_. True"] agree_calm [OF calm_flags(1) assms(1), of 0 "\<lambda>_. True"] by simp_all
  show ?thesis
    using w b e f variable [OF assms(1)] assign [OF assms] bin [OF assms] unary [OF assms] call_node [OF assms] if_stmt [OF assms]
      for_init [OF assms] return_stmt [OF assms] agree_Some [OF assms(1) frame_refl]
    unfolding eval_node_def Let_def by (cases "nkind (nodes z ! i)") simp_all
qed

lemma step: "inv z \<Longrightarrow> goal_in g z \<Longrightarrow> agrees z (eval_step rec g z) (eval_step rec' g z)"
  using node args while_loop for_loop stmts format agree_Some
  by (cases g) (auto simp: eval_step_def goal_in_def intro: agree_Some split: option.split)

end

subsection \<open>The evaluator\<close>

lemma eval_agreeing: "agreeing (eval_checked f) (eval f)"
proof (induction f)
  case 0
  show ?case by (rule agreeing.intro) simp
next
  case (Suc f)
  show ?case
  proof (rule agreeing.intro)
    fix z g assume "inv z" "goal_in g z"
    then show "agrees z (eval_checked (Suc f) g z) (eval (Suc f) g z)"
      using agreeing.step [OF Suc] by (simp add: inv_def)
  qed
qed

interpretation checked: agreeing "eval_checked f" "eval f" for f
  by (rule eval_agreeing)

lemma eval_keeps: "inv z \<Longrightarrow> goal_in g z \<Longrightarrow> eval f g z = Some (v, z') \<Longrightarrow> inv z' \<and> frame z z'"
  using checked.rec_agree [of z g f] by (simp add: agrees_def)

text \<open>A parsed program starts within the bounds.\<close>

lemma parsed_inv: "program_ok z \<Longrightarrow> inv z"
  by (simp add: program_ok_def inv_def scopes_ok_def tables_ok_def)

end
