(* ===== verification/ZbcTerm.thy ===== *)
theory ZbcTerm
  imports ZbcSafe
begin

text \<open>
  The parser of shell/zbc.c comes back on every token table. Every recursion of it has either read a token
  or follows a fixed number of calls down; every loop reads a token in a turn or stops at an error. After an
  error it may read past the end marker into tokens of an earlier program, so the bound is the size of the
  token table: L is an index from which on all tokens are end markers.
\<close>

definition ends :: "nat \<Rightarrow> zbc \<Rightarrow> bool" where
  "ends L z \<longleftrightarrow> (\<forall>i\<ge>L. tk_kind (toks z i) = T_EOF)"

definition left :: "nat \<Rightarrow> zbc \<Rightarrow> nat" where
  "left L z = L - tok_pos z"

text \<open>How far a step has moved: maybe not at all, or by a token unless there is an error.\<close>

definition moved :: "zbc \<Rightarrow> zbc \<Rightarrow> bool" where
  "moved z z' \<longleftrightarrow> toks z' = toks z \<and> tok_pos z \<le> tok_pos z' \<and> (had_error z \<longrightarrow> had_error z')"

definition went :: "zbc \<Rightarrow> zbc \<Rightarrow> bool" where
  "went z z' \<longleftrightarrow> moved z z' \<and> (tok_pos z < tok_pos z' \<or> had_error z')"

definition comes_back :: "(zbc \<Rightarrow> zbc \<Rightarrow> bool) \<Rightarrow> zbc \<Rightarrow> ('a \<times> zbc) option \<Rightarrow> bool" where
  "comes_back R z r \<longleftrightarrow> (\<exists>x z'. r = Some (x, z') \<and> R z z')"

lemma moved_refl [simp]: "moved z z"
  by (simp add: moved_def)

lemma moved_trans: "moved z z1 \<Longrightarrow> moved z1 z2 \<Longrightarrow> moved z z2"
  by (auto simp: moved_def)

lemma went_moved: "went z z1 \<Longrightarrow> moved z z1"
  by (simp add: went_def)

lemma went_trans: "went z z1 \<Longrightarrow> moved z1 z2 \<Longrightarrow> went z z2" and moved_went: "moved z z1 \<Longrightarrow> went z1 z2 \<Longrightarrow> went z z2"
  by (auto simp: went_def moved_def)

lemma moved_ends: "moved z z1 \<Longrightarrow> ends L z \<Longrightarrow> ends L z1" and moved_left: "moved z z1 \<Longrightarrow> left L z1 \<le> left L z"
  by (auto simp: moved_def ends_def left_def)

lemma returns_Some [simp]: "comes_back R z (Some (x, z')) \<longleftrightarrow> R z z'"
  by (simp add: comes_back_def)

lemma returns_moved: "comes_back went z r \<Longrightarrow> comes_back moved z r"
  by (auto simp: comes_back_def intro: went_moved)

text \<open>A step in sequence with another, by how far each has moved.\<close>

lemma back_bind:
  assumes "comes_back moved z a" and "\<And>x z1. moved z z1 \<Longrightarrow> comes_back moved z1 (f x z1)"
  shows "comes_back moved z (a \<bind> (\<lambda>(x, z1). f x z1))"
  using assms unfolding comes_back_def by (fastforce intro: moved_trans)

lemma returns_went_bind:
  assumes "comes_back went z a" and "\<And>x z1. went z z1 \<Longrightarrow> comes_back moved z1 (f x z1)"
  shows "comes_back went z (a \<bind> (\<lambda>(x, z1). f x z1))"
  using assms unfolding comes_back_def by (fastforce intro: went_trans)

lemma returns_after: "moved z z1 \<Longrightarrow> comes_back moved z1 r \<Longrightarrow> comes_back moved z r" and returns_went_after: "went z z1 \<Longrightarrow> comes_back moved z1 r \<Longrightarrow> comes_back went z r"
  unfolding comes_back_def by (blast intro: moved_trans went_trans)+

subsection \<open>Tokens and nodes\<close>

lemma err_moved: "moved z (zbc_err m z)" and err_went: "moved z z1 \<Longrightarrow> went z (zbc_err m z1)"
  by (simp_all add: moved_def went_def zbc_err_def zbc_say_def)

lemma advance_went: "went z (snd (advance z))"
  by (simp add: went_def moved_def advance_def)

lemma advance_went': "advance z = (i, z1) \<Longrightarrow> went z z1"
  using advance_went [of z] by simp

lemma accept_moved: "accept t z = (b, z1) \<Longrightarrow> moved z z1 \<and> (b \<longrightarrow> went z z1)"
  using advance_went [of z] by (auto simp: accept_def went_def split: if_splits)

lemma expect_moved: "moved z (expect t m z)"
  using accept_moved [of t z] err_moved by (cases "accept t z") (auto simp: expect_def intro: moved_trans)

lemma upd_node_moved: "moved z (upd_node n g z)" and set_child_moved: "moved z (set_child n j c z)" and link_moved: "moved z (link_node n p a z)"
  by (simp_all add: moved_def upd_node_def set_child_def link_node_def split: option.split)

lemma new_node_moved: "new_node k z = (n, z1) \<Longrightarrow> moved z z1"
  using err_moved [of z] by (auto simp: new_node_def moved_def split: if_splits)

lemma make_node_moved: "make_node k g z = (n, z1) \<Longrightarrow> moved z z1"
  using new_node_moved [of k z] upd_node_moved by (cases "new_node k z") (auto simp: make_node_def intro: moved_trans)

lemma returns_new: "moved z z1 \<Longrightarrow> comes_back moved z (Some (new_node k z1))" and returns_make: "moved z z1 \<Longrightarrow> comes_back moved z (Some (make_node k g z1))"
  using new_node_moved make_node_moved by (auto simp: comes_back_def intro: moved_trans) (metis moved_trans prod.exhaust)+

lemma declare_moved: "declare_node m r z = (n, z1) \<Longrightarrow> moved z z1"
  using make_node_moved set_child_moved unfolding declare_node_def
  by (auto split: prod.splits option.splits) (meson moved_trans)+

lemma at_token: "ends L z \<Longrightarrow> tk_kind (peek z) \<noteq> T_EOF \<Longrightarrow> 0 < left L z"
  by (auto simp: ends_def peek_def left_def not_le)

lemma advance_left: "ends L z \<Longrightarrow> tk_kind (peek z) \<noteq> T_EOF \<Longrightarrow> advance z = (i, z1) \<Longrightarrow> left L z1 < left L z"
  using at_token [of L z] by (auto simp: advance_def left_def)

lemma went_left: "went z z1 \<Longrightarrow> \<not> had_error z1 \<Longrightarrow> 0 < left L z \<Longrightarrow> left L z1 < left L z"
  by (auto simp: went_def left_def)

subsection \<open>Expressions\<close>

fun erank :: "egoal \<Rightarrow> nat" where
  "erank Primary = 1"
| "erank (Binop_loop p l) = 1"
| "erank (Binop p) = 2"
| "erank Expr = 3"
| "erank (Args n p a) = 4"

fun prec_ok :: "egoal \<Rightarrow> bool" where
  "prec_ok (Binop p) = (1 \<le> p)"
| "prec_ok (Binop_loop p l) = (1 \<le> p)"
| "prec_ok g = True"

definition eret :: "egoal \<Rightarrow> zbc \<Rightarrow> (nat \<times> zbc) option \<Rightarrow> bool" where
  "eret g z r = (case g of Args n p a \<Rightarrow> comes_back moved z r | Binop_loop p l \<Rightarrow> comes_back moved z r | _ \<Rightarrow> comes_back went z r)"

text \<open>An evaluator of goals that returns on the goals for which the bound f is enough.\<close>

locale returning =
  fixes L f :: nat and rec :: "egoal \<Rightarrow> parser"
  assumes rec_returns: "ends L z \<Longrightarrow> 4 * left L z + erank g \<le> f \<Longrightarrow> prec_ok g \<Longrightarrow> eret g z (rec g z)"
begin

lemma expr: "ends L z \<Longrightarrow> 4 * left L z + 3 \<le> f \<Longrightarrow> comes_back went z (rec Expr z)"
  and primary: "ends L z \<Longrightarrow> 4 * left L z + 1 \<le> f \<Longrightarrow> comes_back went z (rec Primary z)"
  and binop: "ends L z \<Longrightarrow> 4 * left L z + 2 \<le> f \<Longrightarrow> 1 \<le> p \<Longrightarrow> comes_back went z (rec (Binop p) z)"
  and loop: "ends L z \<Longrightarrow> 4 * left L z + 1 \<le> f \<Longrightarrow> 1 \<le> p \<Longrightarrow> comes_back moved z (rec (Binop_loop p l) z)"
  and args: "ends L z \<Longrightarrow> 4 * left L z + 4 \<le> f \<Longrightarrow> comes_back moved z (rec (Args n q a) z)"
  using rec_returns [of z Expr] rec_returns [of z Primary] rec_returns [of z "Binop p"] rec_returns [of z "Binop_loop p l"]
    rec_returns [of z "Args n q a"]
  by (simp_all add: eret_def)

lemma call:
  assumes "ends L z" and "4 * left L z + 4 \<le> f"
  shows "comes_back moved z (parse_call rec name z)"
proof -
  obtain n z1 where m: "make_node N_CALL (\<lambda>d. d\<lparr>nname := name\<rparr>) (snd (advance z)) = (n, z1)" by fastforce
  have l: "moved z z1" by (rule moved_trans [OF went_moved [OF advance_went] make_node_moved [OF m]])
  have a: "comes_back moved z1 (rec (Args n None 0) z1)" using args [OF moved_ends [OF l assms(1)]] moved_left [OF l, of L] assms(2) by simp
  have "comes_back moved z1 (rec (Args n None 0) z1 \<bind> (\<lambda>(argi, z2). Some (n, upd_node n (\<lambda>d. d\<lparr>nival := of_nat argi\<rparr>) (expect T_RPAR ''expected )'' z2))))"
    by (rule back_bind [OF a]) (simp add: moved_trans [OF expect_moved upd_node_moved])
  then show ?thesis using returns_after [OF l] m by (simp add: parse_call_def)
qed

lemma parse_primary_returns:
  assumes "ends L z" and "4 * left L z \<le> f"
  shows "comes_back went z (parse_primary rec z)"
proof (cases "tk_kind (peek z) = T_EOF")
  case True
  obtain n z1 where "new_node N_NUM (zbc_err ''expected expression'' z) = (n, z1)" by fastforce
  then show ?thesis
    using True went_trans [OF err_went [OF moved_refl] new_node_moved] by (simp add: parse_primary_def)
next
  case neof: False
  define k where "k = tk_kind (peek z)"
  obtain i z1 where a: "advance z = (i, z1)" by fastforce
  note w = advance_went' [OF a]
  have e1: "ends L z1" by (rule moved_ends [OF went_moved [OF w] assms(1)])
  have l1: "4 * left L z1 + 4 \<le> f" using advance_left [OF assms(1) neof a] assms(2) by simp
  have leaf: "comes_back went z (case new_node kd z of (n, z1) \<Rightarrow> case advance z1 of (a, z2) \<Rightarrow> Some (n, upd_node n (g a) z2))" for kd g
  proof -
    obtain n z2 where n: "new_node kd z = (n, z2)" by fastforce
    obtain b z3 where b: "advance z2 = (b, z3)" by fastforce
    have "went z z3" by (rule moved_went [OF new_node_moved [OF n] advance_went' [OF b]])
    then show ?thesis using n b went_trans [OF _ upd_node_moved] by simp
  qed
  have ident: "comes_back went z (if tk_kind (peek z1) = T_LPAR then parse_call rec (tk_sval i) z1
      else Some (make_node N_VAR (\<lambda>d. d\<lparr>nname := tk_sval i\<rparr>) z1))"
    using returns_went_after [OF w call [OF e1 l1]] returns_went_after [OF w returns_make [OF moved_refl]] by simp
  have par: "comes_back went z (rec Expr z1 \<bind> (\<lambda>(n, z2). Some (n, expect T_RPAR ''expected )'' z2)))"
    by (rule returns_went_after [OF w back_bind [OF returns_moved [OF expr [OF e1]]]]) (use l1 in \<open>simp_all add: expect_moved\<close>)
  have un: "comes_back went z (case make_node N_UN (\<lambda>d. d\<lparr>nop := k\<rparr>) z1 of (n, z2) \<Rightarrow>
      rec Primary z2 \<bind> (\<lambda>(c, z3). Some (n, set_child n 0 (Some c) z3)))"
  proof -
    obtain n z2 where m: "make_node N_UN (\<lambda>d. d\<lparr>nop := k\<rparr>) z1 = (n, z2)" by fastforce
    note l2 = make_node_moved [OF m]
    have "comes_back moved z2 (rec Primary z2 \<bind> (\<lambda>(c, z3). Some (n, set_child n 0 (Some c) z3)))"
      by (rule back_bind [OF returns_moved [OF primary [OF moved_ends [OF l2 e1]]]])
        (use moved_left [OF l2, of L] l1 in \<open>simp_all add: set_child_moved\<close>)
    then show ?thesis using m returns_went_after [OF w returns_after [OF l2]] by simp
  qed
  obtain n z2 where "new_node N_NUM (zbc_err ''expected expression'' z) = (n, z2)" by fastforce
  then have other: "comes_back went z (Some (new_node N_NUM (zbc_err ''expected expression'' z)))"
    using went_trans [OF err_went [OF moved_refl] new_node_moved] by simp
  show ?thesis
    using leaf [where kd = N_NUM and g = "\<lambda>a d. d\<lparr>nival := tk_ival a\<rparr>"] leaf [where kd = N_STR and g = "\<lambda>a d. d\<lparr>nstr := tk_str_off a\<rparr>"] ident par un other a
    unfolding parse_primary_def Let_def k_def by simp
qed

lemma parse_args_returns:
  assumes "ends L z" and "4 * left L z + 3 \<le> f"
  shows "comes_back moved z (parse_args rec n prev argi z)"
proof -
  have "comes_back moved z (rec Expr z \<bind> (\<lambda>(a, z1). case accept T_COMMA (link_node n prev a z1) of (comma, z2) \<Rightarrow>
      if comma then rec (Args n (Some a) (argi + 1)) z2 else Some (argi + 1, z2)))"
  proof (rule back_bind [OF returns_moved [OF expr [OF assms]]])
    fix a z1 assume l: "moved z z1"
    obtain comma z2 where c: "accept T_COMMA (link_node n prev a z1) = (comma, z2)" by fastforce
    have m: "moved z1 z2" using moved_trans [OF link_moved] accept_moved [OF c] by blast
    have "comes_back moved z2 (rec (Args n (Some a) (argi + 1)) z2)" if comma
    proof (rule args [OF moved_ends [OF moved_trans [OF l m] assms(1)]])
      have "tk_kind (peek (link_node n prev a z1)) \<noteq> T_EOF" using c that by (auto simp: accept_def split: if_splits)
      moreover have "ends L (link_node n prev a z1)" by (rule moved_ends [OF moved_trans [OF l link_moved] assms(1)])
      ultimately have "left L z2 < left L (link_node n prev a z1)"
        using c that advance_left [of L "link_node n prev a z1" _ z2] by (cases "advance (link_node n prev a z1)") (auto simp: accept_def split: if_splits)
      also have "\<dots> \<le> left L z" by (rule moved_left [OF moved_trans [OF l link_moved]])
      finally show "4 * left L z2 + 4 \<le> f" using assms(2) by simp
    qed
    then show "comes_back moved z1 (case accept T_COMMA (link_node n prev a z1) of (comma, z2) \<Rightarrow>
        if comma then rec (Args n (Some a) (argi + 1)) z2 else Some (argi + 1, z2))"
      using c m by (cases comma) (auto intro: returns_after [OF m])
  qed
  then show ?thesis by (simp add: parse_args_def)
qed

lemma parse_binop_returns:
  assumes "ends L z" and "4 * left L z + 1 \<le> f" and "1 \<le> p"
  shows "comes_back went z (parse_binop rec p z)"
  unfolding parse_binop_def
proof (rule returns_went_bind [OF primary [OF assms(1,2)]])
  fix l z1 assume "went z z1"
  then have m: "moved z z1" by (rule went_moved)
  show "comes_back moved z1 (rec (Binop_loop p l) z1)" using loop [OF moved_ends [OF m assms(1)] _ assms(3)] moved_left [OF m, of L] assms(2) by simp
qed

lemma binop_loop_returns:
  assumes "ends L z" and "4 * left L z \<le> f" and "1 \<le> p"
  shows "comes_back moved z (binop_loop rec p lhs z)"
proof (cases "p \<le> bin_prec (tk_kind (peek z))")
  case False
  then show ?thesis by (simp add: binop_loop_def Let_def)
next
  case True
  then have neof: "tk_kind (peek z) \<noteq> T_EOF" using assms(3) by (auto simp: bin_prec_pos)
  define op where "op = tk_kind (peek z)"
  obtain i z1 where a: "advance z = (i, z1)" by fastforce
  note w = went_moved [OF advance_went' [OF a]]
  have l1: "4 * left L z1 + 4 \<le> f" using advance_left [OF assms(1) neof a] assms(2) by simp
  have b: "comes_back went z1 (rec (Binop (bin_prec op + 1)) z1)" using binop [OF moved_ends [OF w assms(1)]] l1 by simp
  have "comes_back moved z1 (rec (Binop (bin_prec op + 1)) z1 \<bind> (\<lambda>(rhs, z2).
      case make_node N_BIN (fill op [Some lhs, Some rhs]) z2 of (n, z3) \<Rightarrow> rec (Binop_loop p n) z3))"
  proof (rule back_bind [OF returns_moved [OF b]])
    fix rhs z2 assume m2: "moved z1 z2"
    obtain n z3 where m: "make_node N_BIN (fill op [Some lhs, Some rhs]) z2 = (n, z3)" by fastforce
    have m3: "moved z1 z3" by (rule moved_trans [OF m2 make_node_moved [OF m]])
    have "comes_back moved z3 (rec (Binop_loop p n) z3)"
      using loop [OF moved_ends [OF moved_trans [OF w m3] assms(1)] _ assms(3)] moved_left [OF m3, of L] l1 by simp
    then show "comes_back moved z2 (case make_node N_BIN (fill op [Some lhs, Some rhs]) z2 of (n, z3) \<Rightarrow> rec (Binop_loop p n) z3)"
      using m returns_after [OF make_node_moved [OF m]] by simp
  qed
  then show ?thesis using True a returns_after [OF w] by (simp add: binop_loop_def op_def Let_def)
qed

lemma parse_expr_returns:
  assumes "ends L z" and "4 * left L z + 2 \<le> f"
  shows "comes_back went z (cparse_expr rec z)"
  unfolding cparse_expr_def Let_def
proof (rule returns_went_bind [OF binop [OF assms]], simp)
  fix lhs z1 assume "went z z1"
  then have m: "moved z z1" by (rule went_moved)
  obtain i z2 where a: "advance z1 = (i, z2)" by fastforce
  note w = went_moved [OF advance_went' [OF a]]
  have "comes_back moved z1 (rec Expr z2 \<bind> (\<lambda>(rhs, z3). Some (make_node N_ASSIGN (fill (tk_kind (peek z1)) [Some lhs, Some rhs]) z3)))"
    if "is_assign (tk_kind (peek z1))"
  proof (rule returns_after [OF w back_bind [OF returns_moved [OF expr]]])
    show "ends L z2" by (rule moved_ends [OF moved_trans [OF m w] assms(1)])
    have "left L z2 < left L z1" using that by (intro advance_left [OF moved_ends [OF m assms(1)] _ a]) (auto simp: is_assign_def)
    then show "4 * left L z2 + 3 \<le> f" using moved_left [OF m, of L] assms(2) by simp
  qed (rule returns_make, simp)
  then show "comes_back moved z1 (if is_assign (tk_kind (peek z1))
      then if nkind (nodes z1 ! lhs) \<noteq> N_VAR then Some (lhs, zbc_err ''assign to non-variable'' z1)
        else rec Expr (snd (advance z1)) \<bind> (\<lambda>(rhs, z2). Some (make_node N_ASSIGN (fill (tk_kind (peek z1)) [Some lhs, Some rhs]) z2))
      else Some (lhs, z1))"
    using a err_moved by simp
qed

lemma step: "ends L z \<Longrightarrow> 4 * left L z + erank g \<le> Suc f \<Longrightarrow> prec_ok g \<Longrightarrow> eret g z (expr_step rec g z)"
  by (cases g) (simp_all add: eret_def expr_step_def parse_primary_returns parse_args_returns parse_binop_returns binop_loop_returns parse_expr_returns)

end

lemma parse_e_returning: "returning L f (parse_e f)"
proof (induction f)
  case 0
  show ?case by (rule returning.intro) (case_tac g, simp_all)
next
  case (Suc f)
  show ?case by (rule returning.intro) (simp add: returning.step [OF Suc])
qed

interpretation pe_ret: returning L f "parse_e f" for L f
  by (rule parse_e_returning)

subsection \<open>Statements\<close>

fun srank :: "sgoal \<Rightarrow> nat" where
  "srank Stmt = 4"
| "srank (For_rest i) = 5"
| "srank (Block_loop b l) = 5"
| "srank Block = 6"

definition sret :: "sgoal \<Rightarrow> zbc \<Rightarrow> (nat \<times> zbc) option \<Rightarrow> bool" where
  "sret g z r = (if g = Stmt then comes_back went z r else comes_back moved z r)"

locale s_returning =
  fixes L f :: nat and ex :: parser and rec :: "sgoal \<Rightarrow> parser"
  assumes ex_returns: "ends L z \<Longrightarrow> 4 * left L z + 3 \<le> f \<Longrightarrow> comes_back went z (ex z)"
    and rec_returns: "ends L z \<Longrightarrow> 4 * left L z + srank g \<le> f \<Longrightarrow> sret g z (rec g z)"
begin

text \<open>With a state z whose bound is enough, everything later has enough too.\<close>

lemma ex_later: "moved z z1 \<Longrightarrow> ends L z \<Longrightarrow> 4 * left L z + 3 \<le> f \<Longrightarrow> comes_back went z1 (ex z1)"
  using ex_returns [of z1] moved_ends [of z z1 L] moved_left [of z z1 L] by simp

lemma rec_later: "moved z z1 \<Longrightarrow> ends L z \<Longrightarrow> 4 * left L z + 6 \<le> f \<Longrightarrow> sret g z1 (rec g z1)"
  using rec_returns [of z1 g] moved_ends [of z z1 L] moved_left [of z z1 L] by (cases g) simp_all

lemma rec_moved: "moved z z1 \<Longrightarrow> ends L z \<Longrightarrow> 4 * left L z + 6 \<le> f \<Longrightarrow> comes_back moved z1 (rec g z1)"
  using rec_later [of z z1 g] by (auto simp: sret_def intro: returns_moved split: if_splits)

lemma stmt_went: "moved z z1 \<Longrightarrow> ends L z \<Longrightarrow> 4 * left L z + 4 \<le> f \<Longrightarrow> comes_back went z1 (rec Stmt z1)"
  using rec_returns [of z1 Stmt] moved_ends [of z z1 L] moved_left [of z z1 L] by (simp add: sret_def)

lemma opt:
  assumes "moved z z1" and "ends L z" and "4 * left L z + 3 \<le> f"
  shows "comes_back moved z1 (parse_opt ex t z1)"
  using back_bind [OF returns_moved [OF ex_later [OF assms]], of "\<lambda>n z2. Some (Some n, z2)"] by (simp add: parse_opt_def)

lemma after:
  assumes "\<And>z2. moved z1 z2 \<Longrightarrow> comes_back moved z2 (p z2)"
  shows "comes_back moved z1 (parse_after p t z1)"
proof -
  obtain b z2 where a: "accept t z1 = (b, z2)" by fastforce
  have m: "moved z1 z2" using accept_moved [OF a] by simp
  show ?thesis
    using a m returns_after [OF m back_bind [OF assms [OF m], of "\<lambda>n z2. Some (Some n, z2)"]] by (cases b) (simp_all add: parse_after_def)
qed

lemma cond:
  assumes "moved z z1" and "ends L z" and "4 * left L z + 3 \<le> f"
  shows "comes_back moved z1 (parse_cond ex z1)"
  unfolding parse_cond_def
  by (rule returns_after [OF expect_moved back_bind [OF returns_moved [OF ex_later [OF moved_trans [OF assms(1) expect_moved] assms(2,3)]]]])
    (simp add: expect_moved)

lemma if_returns:
  assumes "ends L z" and "4 * left L z + 6 \<le> f"
  shows "comes_back moved z (parse_if ex rec z)"
  unfolding parse_if_def
proof (rule back_bind [OF cond [OF moved_refl assms(1)]])
  fix c z1 assume m1: "moved z z1"
  show "comes_back moved z1 (rec Stmt z1 \<bind> (\<lambda>(t, z2). parse_after (rec Stmt) T_KW_ELSE z2 \<bind>
      (\<lambda>(e, z3). Some (make_node N_IF (fill T_EOF [Some c, Some t, e]) z3))))"
  proof (rule back_bind [OF rec_moved [OF m1 assms]])
    fix t z2 assume m2: "moved z1 z2"
    show "comes_back moved z2 (parse_after (rec Stmt) T_KW_ELSE z2 \<bind> (\<lambda>(e, z3). Some (make_node N_IF (fill T_EOF [Some c, Some t, e]) z3)))"
      by (rule back_bind [OF after [OF rec_moved [OF moved_trans [OF moved_trans [OF m1 m2]] assms]]]) (simp_all add: returns_make)
  qed
qed (use assms in simp)

lemma while_returns:
  assumes "ends L z" and "4 * left L z + 6 \<le> f"
  shows "comes_back moved z (parse_while ex rec z)"
  unfolding parse_while_def
proof (rule back_bind [OF cond [OF moved_refl assms(1)]])
  fix c z1 assume m1: "moved z z1"
  show "comes_back moved z1 (rec Stmt z1 \<bind> (\<lambda>(b, z2). Some (make_node N_WHILE (fill T_EOF [Some c, Some b]) z2)))"
    by (rule back_bind [OF rec_moved [OF m1 assms]]) (simp add: returns_make)
qed (use assms in simp)

lemma for_rest_returns:
  assumes "ends L z" and "4 * left L z + 4 \<le> f"
  shows "comes_back moved z (parse_for_rest ex rec init z)"
proof -
  have l3: "4 * left L z + 3 \<le> f" using assms(2) by simp
  have body: "comes_back moved z2 (rec Stmt (expect T_RPAR '')'' z2) \<bind> (\<lambda>(b, z3). Some (make_node N_FOR (fill T_EOF [init, c, p, Some b]) z3)))"
    if "moved z z2" for c p z2
    by (rule returns_after [OF expect_moved back_bind [OF returns_moved [OF stmt_went [OF moved_trans [OF that expect_moved] assms]]]])
      (simp add: returns_make)
  have post: "comes_back moved z1 (parse_opt ex T_RPAR (expect T_SEMI '';'' z1) \<bind> (\<lambda>(p, z2).
      rec Stmt (expect T_RPAR '')'' z2) \<bind> (\<lambda>(b, z3). Some (make_node N_FOR (fill T_EOF [init, c, p, Some b]) z3))))"
    if "moved z z1" for c z1
    by (rule returns_after [OF expect_moved back_bind [OF opt [OF moved_trans [OF that expect_moved] assms(1) l3]]])
      (rule body [OF moved_trans [OF moved_trans [OF that expect_moved]]])
  show ?thesis unfolding parse_for_rest_def
    by (rule returns_after [OF expect_moved back_bind [OF opt [OF expect_moved assms(1) l3]]])
      (rule post [OF moved_trans [OF expect_moved]])
qed

lemma name_err: "moved z z1 \<Longrightarrow> comes_back moved z (Some (new_node N_NUM (zbc_err m z1)))"
  by (rule returns_new) (rule moved_trans [OF _ err_moved])

lemma for_returns:
  assumes "ends L z" and "4 * left L z + 6 \<le> f"
  shows "comes_back moved z (parse_for ex rec z)"
proof -
  obtain decl z1 where d: "accept T_KW_INT (expect T_LPAR ''('' z) = (decl, z1)" by fastforce
  have m: "moved z z1" using moved_trans [OF expect_moved] accept_moved [OF d] by blast
  obtain i z2 where a: "advance z1 = (i, z2)" by fastforce
  have m2: "moved z z2" by (rule moved_trans [OF m went_moved [OF advance_went' [OF a]]])
  have l3: "4 * left L z + 3 \<le> f" using assms(2) by simp
  have plain: "comes_back moved z (parse_opt ex T_SEMI z1 \<bind> (\<lambda>(i, z2). rec (For_rest i) z2))"
    by (rule returns_after [OF m back_bind [OF opt [OF m assms(1) l3] rec_moved [OF moved_trans [OF m] assms]]])
  have "comes_back moved z2 (parse_after ex T_ASSIGN z2 \<bind> (\<lambda>(rhs, z3). case declare_node (tk_sval i) rhs z3 of (a, z4) \<Rightarrow> rec (For_rest (Some a)) z4))"
  proof (rule back_bind [OF after [OF returns_moved [OF ex_later [OF moved_trans [OF m2] assms(1) l3]]]])
    fix rhs z3 assume m3: "moved z2 z3"
    obtain n z4 where n: "declare_node (tk_sval i) rhs z3 = (n, z4)" by fastforce
    note m4 = declare_moved [OF n]
    show "comes_back moved z3 (case declare_node (tk_sval i) rhs z3 of (a, z4) \<Rightarrow> rec (For_rest (Some a)) z4)"
      using n returns_after [OF m4 rec_moved [OF moved_trans [OF moved_trans [OF m2 m3] m4] assms]] by simp
  qed
  from returns_after [OF m2 this] name_err [OF m2] plain d a show ?thesis by (cases decl) (simp_all add: parse_for_def)
qed

lemma return_returns:
  assumes "ends L z" and "4 * left L z + 3 \<le> f"
  shows "comes_back moved z (parse_return ex z)"
proof -
  obtain n z1 where n: "new_node N_RETURN z = (n, z1)" by fastforce
  obtain none z2 where a: "accept T_SEMI z1 = (none, z2)" by fastforce
  have m: "moved z z2" using moved_trans [OF new_node_moved [OF n]] accept_moved [OF a] by blast
  have "comes_back moved z (ex z2 \<bind> (\<lambda>(e, z3). Some (n, expect T_SEMI '';'' (set_child n 0 (Some e) z3))))"
    by (rule returns_after [OF m back_bind [OF returns_moved [OF ex_later [OF m assms]]]])
      (simp add: moved_trans [OF set_child_moved expect_moved])
  then show ?thesis using n a m by (cases none) (simp_all add: parse_return_def)
qed

lemma decl_returns:
  assumes "ends L z" and "4 * left L z + 3 \<le> f"
  shows "comes_back moved z (parse_decl ex z)"
proof -
  obtain i z1 where a: "advance z = (i, z1)" by fastforce
  note m = went_moved [OF advance_went' [OF a]]
  have d: "comes_back moved z2 (Some (declare_node (tk_sval i) rhs (expect T_SEMI '';'' z2)))" for rhs z2
    using moved_trans [OF expect_moved declare_moved] by (cases "declare_node (tk_sval i) rhs (expect T_SEMI '';'' z2)") simp
  have "comes_back moved z (parse_after ex T_ASSIGN z1 \<bind> (\<lambda>(rhs, z2). Some (declare_node (tk_sval i) rhs (expect T_SEMI '';'' z2))))"
    by (rule returns_after [OF m back_bind [OF after [OF returns_moved [OF ex_later [OF moved_trans [OF m] assms]]] d]])
  then show ?thesis using a name_err [OF m] by (simp add: parse_decl_def)
qed

lemma stmt_returns:
  assumes "ends L z" and "4 * left L z + 3 \<le> f"
  shows "comes_back went z (parse_stmt ex rec z)"
proof -
  define k where "k = tk_kind (peek z)"
  obtain i z1 where a: "advance z = (i, z1)" by fastforce
  note w = advance_went' [OF a]
  note m = went_moved [OF w]
  show ?thesis
  proof (cases "k \<in> {T_LBRACE, T_KW_IF, T_KW_WHILE, T_KW_FOR, T_KW_RETURN, T_KW_BREAK, T_KW_CONT, T_KW_INT}")
    case True
    then have neof: "tk_kind (peek z) \<noteq> T_EOF" by (auto simp: k_def)
    have e: "ends L z1" by (rule moved_ends [OF m assms(1)])
    have l: "4 * left L z1 + 6 \<le> f" "4 * left L z1 + 3 \<le> f" using advance_left [OF assms(1) neof a] assms(2) by simp_all
    have n: "comes_back moved z1 (Some (new_node kd (expect T_SEMI '';'' z1)))" for kd by (rule returns_new [OF expect_moved])
    have "comes_back moved z1 (parse_stmt ex rec z)"
      using True a rec_moved [OF moved_refl e l(1)] if_returns [OF e l(1)] while_returns [OF e l(1)] for_returns [OF e l(1)]
        return_returns [OF e l(2)] decl_returns [OF e l(2)] n
      unfolding parse_stmt_def Let_def k_def by auto
    then show ?thesis by (rule returns_went_after [OF w])
  next
    case False
    have "comes_back went z (ex z \<bind> (\<lambda>(e, z2). Some (make_node N_EXPR_STMT (fill T_EOF [Some e]) (expect T_SEMI '';'' z2))))"
      by (rule returns_went_bind [OF ex_returns [OF assms]]) (rule returns_make [OF expect_moved])
    then show ?thesis using False by (simp add: parse_stmt_def Let_def k_def)
  qed
qed

lemma block_loop_returns:
  assumes "ends L z" and "4 * left L z + 4 \<le> f"
  shows "comes_back moved z (block_loop rec b lst z)"
proof (cases "tk_kind (peek z) = T_RBRACE \<or> tk_kind (peek z) = T_EOF")
  case True
  then show ?thesis by (simp add: block_loop_def)
next
  case False
  have "comes_back moved z (rec Stmt z \<bind> (\<lambda>(s, z1). let z2 = link_node b lst s z1 in
      if had_error z2 then Some (1, z2) else rec (Block_loop b (Some s)) z2))"
    unfolding Let_def
  proof -
    obtain s z1 where s: "rec Stmt z = Some (s, z1)" and w: "went z z1"
      using stmt_went [OF moved_refl assms] by (auto simp: comes_back_def)
    let ?z2 = "link_node b lst s z1"
    have m: "moved z ?z2" by (rule moved_trans [OF went_moved [OF w] link_moved])
    have "comes_back moved ?z2 (rec (Block_loop b (Some s)) ?z2)" if "\<not> had_error ?z2"
    proof -
      have "went z ?z2" by (rule went_trans [OF w link_moved])
      then have "left L ?z2 < left L z" using that at_token [OF assms(1)] False by (intro went_left) simp_all
      then show ?thesis
        using rec_returns [OF moved_ends [OF m assms(1)], of "Block_loop b (Some s)"] assms(2) by (simp add: sret_def)
    qed
    then show "comes_back moved z (rec Stmt z \<bind> (\<lambda>(s, z1). if had_error (link_node b lst s z1) then Some (1, link_node b lst s z1)
        else rec (Block_loop b (Some s)) (link_node b lst s z1)))"
      using s m by (auto intro: returns_after)
  qed
  then show ?thesis using False by (simp add: block_loop_def)
qed

lemma block_returns:
  assumes "ends L z" and "4 * left L z + 5 \<le> f"
  shows "comes_back moved z (parse_block rec z)"
proof -
  obtain b z1 where n: "new_node N_BLOCK z = (b, z1)" by fastforce
  note m = new_node_moved [OF n]
  have "sret (Block_loop b None) z1 (rec (Block_loop b None) z1)"
    using rec_returns [OF moved_ends [OF m assms(1)], of "Block_loop b None"] moved_left [OF m, of L] assms(2) by simp
  then have "comes_back moved z1 (rec (Block_loop b None) z1 \<bind> (\<lambda>(early, z2). Some (b, if early = 1 then z2 else expect T_RBRACE ''}'' z2)))"
    by (intro back_bind) (simp_all add: sret_def expect_moved)
  then show ?thesis using n returns_after [OF m] by (simp add: parse_block_def)
qed

lemma step: "ends L z \<Longrightarrow> 4 * left L z + srank g \<le> Suc f \<Longrightarrow> sret g z (stmt_step ex rec g z)"
  by (cases g) (simp_all add: sret_def stmt_step_def stmt_returns block_loop_returns block_returns for_rest_returns)

end

lemma parse_s_returning: "s_returning L f (parse_e f Expr) (parse_s f)"
proof (induction f)
  case 0
  show ?case by (rule s_returning.intro) (simp, case_tac g, simp_all)
next
  case (Suc f)
  have s: "s_returning L f (parse_e f Expr) (parse_s f)" by (rule Suc)
  show ?case
    by (rule s_returning.intro) (simp_all only: pe_ret.expr, simp add: s_returning.step [OF s])
qed

interpretation ps_ret: s_returning L f "parse_e f Expr" "parse_s f" for L f
  by (rule parse_s_returning)

subsection \<open>Programs\<close>

lemma params_return: "ends L z \<Longrightarrow> left L z < f \<Longrightarrow> \<exists>yes ps1 z1. parse_params f ps z = Some (yes, ps1, z1) \<and> moved z z1"
proof (induction f arbitrary: ps z)
  case 0
  then show ?case by simp
next
  case (Suc f)
  show ?case
  proof (cases "tk_kind (peek z) = T_RPAR \<or> had_error z")
    case True
    then show ?thesis by auto
  next
    case False
    obtain b z1 where k: "accept T_KW_INT z = (b, z1)" by fastforce
    obtain i z2 where a: "advance z1 = (i, z2)" by fastforce
    have m1: "moved z z1" using accept_moved [OF k] by simp
    have m2: "moved z z2" by (rule moved_trans [OF m1 went_moved [OF advance_went' [OF a]]])
    show ?thesis
    proof (cases "tk_kind i = T_IDENT")
      case i: False
      then show ?thesis using False k a moved_trans [OF m2 err_moved] by (simp add: exI [of "\<lambda>b. \<not> b" False])
    next
      case True
      have "left L z2 < left L z1"
        using True a by (intro advance_left [OF moved_ends [OF m1 Suc.prems(1)]]) (auto simp: advance_def peek_def)
      then have l2: "left L z2 < f" using moved_left [OF m1, of L] Suc.prems(2) by simp
      obtain comma z3 where c: "accept T_COMMA z2 = (comma, z3)" by fastforce
      have m3: "moved z2 z3" using accept_moved [OF c] by simp
      have "\<exists>yes ps2 z4. parse_params f ps1 z3 = Some (yes, ps2, z4) \<and> moved z3 z4" for ps1
        using Suc.IH [OF moved_ends [OF moved_trans [OF m2 m3] Suc.prems(1)]] moved_left [OF m3, of L] l2 by simp
      then show ?thesis
        using False k a True c m2 moved_trans [OF moved_trans [OF m2 m3]] moved_trans [OF m2 m3]
        by (cases comma) (simp_all add: Let_def, blast, rule exI [of _ True], simp)
    qed
  qed
qed

lemma upd_func_moved: "moved z (upd_func i g z)"
  by (simp add: upd_func_def moved_def)

lemma parse_func_returns:
  assumes "ends L z" and "4 * left L z + 6 \<le> f"
  shows "\<exists>z'. parse_func f v z = Some z' \<and> moved z z'"
proof -
  define i where "i = length (funcs z)"
  define z1 where "z1 = z\<lparr>funcs := funcs z @ [\<lparr>fname = [], fbody = 0, fparams = [], fvoid = v\<rparr>]\<rparr>"
  obtain name z2 where a: "advance z1 = (name, z2)" by fastforce
  define z3 where "z3 = expect T_LPAR ''('' (upd_func i (\<lambda>g. g\<lparr>fname := tk_sval name\<rparr>) z2)"
  have m1: "moved z z1" by (simp add: z1_def moved_def)
  have m2: "moved z z2" by (rule moved_trans [OF m1 went_moved [OF advance_went' [OF a]]])
  have m3: "moved z z3" unfolding z3_def by (rule moved_trans [OF m2 moved_trans [OF upd_func_moved expect_moved]])
  obtain yes ps z4 where p: "parse_params f [] z3 = Some (yes, ps, z4)" and m4: "moved z3 z4"
    using params_return [OF moved_ends [OF m3 assms(1)], of f "[]"] moved_left [OF m3, of L] assms(2) by auto
  define z5 where "z5 = upd_func i (\<lambda>g. g\<lparr>fparams := ps\<rparr>) z4"
  have m5: "moved z z5" unfolding z5_def by (rule moved_trans [OF moved_trans [OF m3 m4] upd_func_moved])
  define z6 where "z6 = expect T_LBRACE ''{'' (expect T_RPAR '')'' z5)"
  have m6: "moved z z6" unfolding z6_def by (rule moved_trans [OF m5 moved_trans [OF expect_moved expect_moved]])
  obtain b z7 where b: "parse_s f Block z6 = Some (b, z7)" and m7: "moved z6 z7"
    using ps_ret.rec_moved [OF m6 assms, of Block] by (auto simp: comes_back_def)
  have "parse_func f v z =
      (if MAX_FUNCS \<le> length (funcs z) then Some (zbc_err ''too many functions'' z)
       else if tk_kind name \<noteq> T_IDENT then Some (zbc_err ''function name'' z2)
       else if \<not> yes then Some z5 else Some (upd_func i (\<lambda>g. g\<lparr>fbody := b\<rparr>) z7))"
    using a p b unfolding parse_func_def Let_def i_def [symmetric] z1_def [symmetric]
    by (simp add: z3_def [symmetric] z5_def [symmetric] z6_def [symmetric])
  then show ?thesis
    using err_moved moved_trans [OF m2 err_moved] m5 moved_trans [OF moved_trans [OF m6 m7] upd_func_moved] by auto
qed

lemma parse_program_returns: "ends L z \<Longrightarrow> 4 * left L z + 3 \<le> f \<Longrightarrow> \<exists>z'. parse_program f z = Some z'"
proof (induction f arbitrary: z)
  case 0
  then show ?case by simp
next
  case (Suc f)
  show ?case
  proof (cases "tk_kind (peek z) = T_EOF \<or> had_error z")
    case True
    then show ?thesis by simp
  next
    case False
    obtain i z0 where a: "advance z = (i, z0)" by fastforce
    have l: "left L z0 < left L z" using advance_left [OF Suc.prems(1) _ a] False by simp
    have m: "moved z z0" by (rule went_moved [OF advance_went' [OF a]])
    have *: "\<exists>z'. parse_func f v z0 \<bind> parse_program f = Some z'" for v
    proof -
      obtain z2 where p: "parse_func f v z0 = Some z2" and m2: "moved z0 z2"
        using parse_func_returns [OF moved_ends [OF m Suc.prems(1)], of f v] l Suc.prems(2) by auto
      show ?thesis
        using Suc.IH [OF moved_ends [OF moved_trans [OF m m2] Suc.prems(1)]] moved_left [OF m2, of L] l Suc.prems(2) p by simp
    qed
    then show ?thesis using False a by (simp add: accept_def)
  qed
qed

text \<open>Tokenizing keeps the end markers beyond the table.\<close>

lemma tokenize_loop_ends:
  "tokenize_loop p z = (b, z') \<Longrightarrow> ends MAX_TOKENS z \<Longrightarrow> tok_count z < MAX_TOKENS \<Longrightarrow> ends MAX_TOKENS z'"
proof (induction p z rule: tokenize_loop.induct)
  case (1 p z)
  show ?case
  proof (cases "p = [] \<or> MAX_TOKENS - 1 \<le> tok_count z")
    case True
    then show ?thesis using 1(3,4) by (subst (asm) tokenize_loop.simps) (auto simp: ends_def)
  next
    case False
    show ?thesis
    proof (cases "scan_one p z")
      case (Skipped q)
      then show ?thesis using 1(1) [OF False Skipped] 1(3-5) False by (simp add: tokenize_loop.simps [of p z])
    next
      case (Found t q z1)
      have k: "toks z1 = toks z" "tok_count z1 = tok_count z" using scan_one_keeps [OF Found] by simp_all
      show ?thesis
        using 1(2) [OF False Found] 1(3-5) False less_diff_conv [of "tok_count z" MAX_TOKENS 1] Found k by (simp add: tokenize_loop.simps [of p z] ends_def)
    next
      case (Unknown c)
      then show ?thesis using 1(3-5) False by (auto simp: tokenize_loop.simps [of p z] ends_def zbc_say_def)
    qed
  qed
qed

lemma tokenize_ends: "tokenize s z = (b, z') \<Longrightarrow> ends MAX_TOKENS z \<Longrightarrow> ends MAX_TOKENS z'"
  using tokenize_loop_ends [of "chars s" "z\<lparr>tok_count := 0\<rparr>" b z']
  by (simp del: tokenize_loop.simps add: tokenize_def ends_def MAX_TOKENS_def)

lemma program_returns:
  assumes "tokenize src (zbc_start con z) = (b, z1)" and "ends MAX_TOKENS z"
  shows "\<exists>z2. parse_program 2051 z1 = Some z2"
proof (rule parse_program_returns)
  show "ends MAX_TOKENS z1" using tokenize_ends [OF assms(1)] assms(2) by (simp add: zbc_start_def ends_def)
  show "4 * left MAX_TOKENS z1 + 3 \<le> 2051" by (simp add: left_def MAX_TOKENS_def)
qed

end
