(* ===== verification/ZbcExpr.thy ===== *)
theory ZbcExpr
  imports ZbcTerm
begin

text \<open>
  Expressions of the C interpreter of shell/zbc.c: the tokens of an expression, printed with the parentheses
  that the binding of its operators asks for and no others, parse to nodes for this expression, and the
  evaluator gives these nodes the value of the expression.
\<close>

subsection \<open>Expressions, their tokens and their nodes\<close>

datatype expr = Num u32 | Var bytes | Unary tok expr | Binary tok expr expr

primrec wf_expr :: "expr \<Rightarrow> bool" where
  "wf_expr (Num v) = True"
| "wf_expr (Var x) = True"
| "wf_expr (Unary op e) = ((op = T_MINUS \<or> op = T_NOT) \<and> wf_expr e)"
| "wf_expr (Binary op a b) = (1 \<le> bin_prec op \<and> wf_expr a \<and> wf_expr b)"

datatype lexeme = Lx tok | LInt u32 | LId bytes

text \<open>The lexemes of an expression where operators that bind less tightly than q need parentheses.\<close>

primrec lexemes :: "nat \<Rightarrow> expr \<Rightarrow> lexeme list" where
  "lexemes q (Num v) = [LInt v]"
| "lexemes q (Var x) = [LId x]"
| "lexemes q (Unary op e) = Lx op # lexemes 11 e"
| "lexemes q (Binary op a b) =
     (let body = lexemes (bin_prec op) a @ Lx op # lexemes (bin_prec op + 1) b in
      if bin_prec op < q then Lx T_LPAR # body @ [Lx T_RPAR] else body)"

declare lexemes.simps(4) [simp del]

primrec lex_ok :: "ctoken \<Rightarrow> lexeme \<Rightarrow> bool" where
  "lex_ok t (Lx k) = (tk_kind t = k)"
| "lex_ok t (LInt v) = (tk_kind t = T_INT \<and> tk_ival t = v)"
| "lex_ok t (LId x) = (tk_kind t = T_IDENT \<and> tk_sval t = x)"

primrec at_tokens :: "(nat \<Rightarrow> ctoken) \<Rightarrow> nat \<Rightarrow> lexeme list \<Rightarrow> bool" where
  "at_tokens t i [] = True"
| "at_tokens t i (l # ls) = (lex_ok (t i) l \<and> at_tokens t (Suc i) ls)"

lemma at_append [simp]: "at_tokens t i (ls @ ms) \<longleftrightarrow> at_tokens t i ls \<and> at_tokens t (i + length ls) ms"
  by (induction ls arbitrary: i) auto

primrec nsize :: "expr \<Rightarrow> nat" where
  "nsize (Num v) = 1"
| "nsize (Var x) = 1"
| "nsize (Unary op e) = Suc (nsize e)"
| "nsize (Binary op a b) = Suc (nsize a + nsize b)"

text \<open>The nodes made for an expression from index k on, and the index of its own node.\<close>

primrec root :: "nat \<Rightarrow> expr \<Rightarrow> nat" where
  "root k (Num v) = k"
| "root k (Var x) = k"
| "root k (Unary op e) = k"
| "root k (Binary op a b) = k + nsize a + nsize b"

definition bin_node :: "tok \<Rightarrow> nat \<Rightarrow> nat \<Rightarrow> node" where
  "bin_node op a b = fill op [Some a, Some b] (blank_node N_BIN)"

definition un_node :: "tok \<Rightarrow> nat \<Rightarrow> node" where
  "un_node op c = (blank_node N_UN)\<lparr>nop := op, nchild := [Some c, None, None, None]\<rparr>"

primrec expr_nodes :: "nat \<Rightarrow> expr \<Rightarrow> node list" where
  "expr_nodes k (Num v) = [(blank_node N_NUM)\<lparr>nival := v\<rparr>]"
| "expr_nodes k (Var x) = [(blank_node N_VAR)\<lparr>nname := x\<rparr>]"
| "expr_nodes k (Unary op e) = un_node op (root (Suc k) e) # expr_nodes (Suc k) e"
| "expr_nodes k (Binary op a b) =
     expr_nodes k a @ expr_nodes (k + nsize a) b @ [bin_node op (root k a) (root (k + nsize a) b)]"

lemma length_expr_nodes [simp]: "length (expr_nodes k e) = nsize e"
  by (induction e arbitrary: k) auto

lemma nsize_pos [simp]: "0 < nsize e"
  by (cases e) simp_all

text \<open>A state after n more tokens and some more nodes.\<close>

definition grown :: "nat \<Rightarrow> node list \<Rightarrow> zbc \<Rightarrow> zbc" where
  "grown n ns z = z\<lparr>tok_pos := tok_pos z + n, nodes := nodes z @ ns\<rparr>"

lemma grown_simps [simp]:
  "toks (grown n ns z) = toks z" "tok_pos (grown n ns z) = tok_pos z + n" "nodes (grown n ns z) = nodes z @ ns"
  "grown m ms (grown n ns z) = grown (n + m) (ns @ ms) z" "peek (grown n ns z) = toks z (tok_pos z + n)"
  by (simp_all add: grown_def peek_def)

lemma advance_grown: "advance z = (toks z (tok_pos z), grown 1 [] z)"
  by (simp add: advance_def grown_def)

lemma make_grown: "length (nodes z) < MAX_NODES \<Longrightarrow> make_node k g z = (length (nodes z), grown 0 [g (blank_node k)] z)"
  by (simp add: make_node_def new_node_def upd_node_def grown_def)

lemma expect_grown: "tk_kind (peek z) = t \<Longrightarrow> expect t m z = grown 1 [] z"
  by (simp add: expect_def accept_def advance_grown)

subsection \<open>The rules of the parser\<close>

lemma two_fuels:
  assumes "pe.gives g z r" and "pe.gives h y s"
  obtains f where "parse_e f g z = Some r" and "parse_e f h y = Some s"
proof -
  obtain a b where "\<forall>f\<ge>a. parse_e f g z = Some r" "\<forall>f\<ge>b. parse_e f h y = Some s"
    using pe.gives_fuel [OF assms(1)] pe.gives_fuel [OF assms(2)] by blast
  then have "parse_e (max a b) g z = Some r" "parse_e (max a b) h y = Some s" by simp_all
  then show ?thesis by (rule that)
qed

lemma gives_binop:
  assumes "pe.gives Primary z (n, z1)" and "pe.gives (Binop_loop p n) z1 r"
  shows "pe.gives (Binop p) z r"
proof -
  obtain f where "parse_e f Primary z = Some (n, z1)" "parse_e f (Binop_loop p n) z1 = Some r" by (rule two_fuels [OF assms])
  then show ?thesis by (intro pe.gives_step [where f = f]) (simp add: expr_step_def parse_binop_def)
qed

lemma gives_loop_stop: "bin_prec (tk_kind (peek z)) < p \<Longrightarrow> pe.gives (Binop_loop p l) z (l, z)"
  by (intro pe.gives_step) (simp add: expr_step_def binop_loop_def)

lemma gives_loop:
  assumes "p \<le> bin_prec (tk_kind (peek z))" and "pe.gives (Binop (bin_prec (tk_kind (peek z)) + 1)) (grown 1 [] z) (rhs, z1)"
    and "length (nodes z1) < MAX_NODES"
    and "pe.gives (Binop_loop p (length (nodes z1))) (grown 0 [bin_node (tk_kind (peek z)) lhs rhs] z1) r"
  shows "pe.gives (Binop_loop p lhs) z r"
proof -
  obtain f where "parse_e f (Binop (bin_prec (tk_kind (peek z)) + 1)) (grown 1 [] z) = Some (rhs, z1)"
    "parse_e f (Binop_loop p (length (nodes z1))) (grown 0 [bin_node (tk_kind (peek z)) lhs rhs] z1) = Some r"
    by (rule two_fuels [OF assms(2,4)])
  then show ?thesis using assms(1,3)
    by (intro pe.gives_step [where f = f]) (simp add: expr_step_def binop_loop_def advance_grown make_grown Let_def bin_node_def)
qed

lemma gives_expr:
  assumes "pe.gives (Binop 1) z (n, z1)" and "\<not> is_assign (tk_kind (peek z1))"
  shows "pe.gives Expr z (n, z1)"
proof -
  obtain f where "parse_e f (Binop 1) z = Some (n, z1)" using assms(1) by (auto simp: pe.gives_def)
  then show ?thesis using assms(2) by (intro pe.gives_step [where f = f]) (simp add: expr_step_def cparse_expr_def)
qed

lemma gives_num:
  assumes "lex_ok (peek z) (LInt v)" and "length (nodes z) < MAX_NODES"
  shows "pe.gives Primary z (length (nodes z), grown 1 [(blank_node N_NUM)\<lparr>nival := v\<rparr>] z)"
  using assms
  by (intro pe.gives_step) (simp add: expr_step_def parse_primary_def new_node_def advance_def upd_node_def grown_def peek_def)

lemma gives_var:
  assumes "lex_ok (peek z) (LId x)" and "tk_kind (toks z (tok_pos z + 1)) \<noteq> T_LPAR" and "length (nodes z) < MAX_NODES"
  shows "pe.gives Primary z (length (nodes z), grown 1 [(blank_node N_VAR)\<lparr>nname := x\<rparr>] z)"
  using assms
  by (intro pe.gives_step) (simp add: expr_step_def parse_primary_def advance_grown make_grown, simp add: peek_def)

lemma gives_par:
  assumes "tk_kind (peek z) = T_LPAR" and "pe.gives Expr (grown 1 [] z) (n, z1)" and "tk_kind (peek z1) = T_RPAR"
  shows "pe.gives Primary z (n, grown 1 [] z1)"
proof -
  obtain f where "parse_e f Expr (grown 1 [] z) = Some (n, z1)" using assms(2) by (auto simp: pe.gives_def)
  then show ?thesis using assms(1,3)
    by (intro pe.gives_step [where f = f]) (simp add: expr_step_def parse_primary_def advance_grown expect_grown)
qed

lemma gives_un:
  assumes "tk_kind (peek z) = op" and "op = T_MINUS \<or> op = T_NOT" and "length (nodes z) < MAX_NODES"
    and "pe.gives Primary (grown 1 [(blank_node N_UN)\<lparr>nop := op\<rparr>] z) (c, grown n ((blank_node N_UN)\<lparr>nop := op\<rparr> # ns) z)"
  shows "pe.gives Primary z (length (nodes z), grown n (un_node op c # ns) z)"
proof -
  obtain f where "parse_e f Primary (grown 1 [(blank_node N_UN)\<lparr>nop := op\<rparr>] z) = Some (c, grown n ((blank_node N_UN)\<lparr>nop := op\<rparr> # ns) z)"
    using assms(4) by (auto simp: pe.gives_def)
  moreover have "set_child (length (nodes z)) 0 (Some c) (grown n ((blank_node N_UN)\<lparr>nop := op\<rparr> # ns) z) = grown n (un_node op c # ns) z"
    by (simp add: set_child_def upd_node_def grown_def un_node_def blank_node_def)
  ultimately show ?thesis using assms(1-3)
    by (intro pe.gives_step [where f = f]) (auto simp: expr_step_def parse_primary_def advance_grown make_grown Let_def)
qed

subsection \<open>Parsing what was printed\<close>

text \<open>The token after the lexemes of an expression, and a state in which they can be parsed.\<close>

definition follow :: "nat \<Rightarrow> expr \<Rightarrow> zbc \<Rightarrow> tok" where
  "follow q e z = tk_kind (toks z (tok_pos z + length (lexemes q e)))"

definition ready :: "nat \<Rightarrow> expr \<Rightarrow> zbc \<Rightarrow> bool" where
  "ready q e z \<longleftrightarrow> at_tokens (toks z) (tok_pos z) (lexemes q e) \<and> length (nodes z) + nsize e \<le> MAX_NODES \<and> follow q e z \<noteq> T_LPAR"

definition parsed :: "nat \<Rightarrow> expr \<Rightarrow> zbc \<Rightarrow> zbc" where
  "parsed q e z = grown (length (lexemes q e)) (expr_nodes (length (nodes z)) e) z"

definition node_of :: "expr \<Rightarrow> zbc \<Rightarrow> nat" where
  "node_of e z = root (length (nodes z)) e"

text \<open>The two ways an expression is parsed: as a primary one, and as the left operand of the loop over operators.\<close>

definition primary_ok :: "expr \<Rightarrow> bool" where
  "primary_ok e \<longleftrightarrow> (\<forall>z. ready 11 e z \<longrightarrow> pe.gives Primary z (node_of e z, parsed 11 e z))"

definition binop_ok :: "nat \<Rightarrow> expr \<Rightarrow> bool" where
  "binop_ok q e \<longleftrightarrow> (\<forall>p z r. 1 \<le> p \<longrightarrow> p \<le> q \<longrightarrow> ready q e z \<longrightarrow> bin_prec (follow q e z) \<le> q \<longrightarrow>
     pe.gives (Binop_loop p (node_of e z)) (parsed q e z) r \<longrightarrow> pe.gives (Binop p) z r)"

lemma bin_prec_le: "bin_prec k \<le> 10"
  by (cases k) (simp_all add: bin_prec_def)

lemma prec_no_paren: "1 \<le> bin_prec k \<Longrightarrow> k \<noteq> T_LPAR"
  by (auto simp: bin_prec_def)

lemma primary_binop: "primary_ok e \<Longrightarrow> lexemes q e = lexemes 11 e \<Longrightarrow> binop_ok q e"
  unfolding primary_ok_def binop_ok_def ready_def parsed_def follow_def by (auto intro: gives_binop)

lemma primary_unary:
  assumes "op = T_MINUS \<or> op = T_NOT" and "primary_ok e"
  shows "primary_ok (Unary op e)"
  unfolding primary_ok_def
proof (intro allI impI)
  fix z assume r: "ready 11 (Unary op e) z"
  let ?n = "(blank_node N_UN)\<lparr>nop := op\<rparr>"
  let ?z = "grown 1 [?n] z"
  have "ready 11 e ?z" using r by (simp add: ready_def follow_def)
  then have "pe.gives Primary ?z (node_of e ?z, parsed 11 e ?z)" using assms(2) by (simp add: primary_ok_def)
  then have "pe.gives Primary ?z (root (Suc (length (nodes z))) e, grown (Suc (length (lexemes 11 e))) (?n # expr_nodes (Suc (length (nodes z))) e) z)"
    by (simp add: node_of_def parsed_def)
  from gives_un [OF _ assms(1) _ this] show "pe.gives Primary z (node_of (Unary op e) z, parsed 11 (Unary op e) z)"
    using r by (simp add: ready_def peek_def node_of_def parsed_def)
qed

text \<open>An operator with operands, printed without parentheses.\<close>

lemma binop_infix:
  assumes "1 \<le> bin_prec op" and "q \<le> bin_prec op" and "binop_ok (bin_prec op) a" and "binop_ok (bin_prec op + 1) b"
  shows "binop_ok q (Binary op a b)"
  unfolding binop_ok_def
proof (intro allI impI)
  fix p z r
  let ?e = "Binary op a b" and ?P = "bin_prec op"
  assume p: "1 \<le> p" "p \<le> q" and rd: "ready q ?e z" and fl: "bin_prec (follow q ?e z) \<le> q"
    and g: "pe.gives (Binop_loop p (node_of ?e z)) (parsed q ?e z) r"
  have lx: "lexemes q ?e = lexemes ?P a @ Lx op # lexemes (?P + 1) b" using assms(2) by (simp add: lexemes.simps(4) Let_def)
  let ?m = "length (lexemes ?P a)"
  have op: "tk_kind (toks z (tok_pos z + ?m)) = op" using rd unfolding ready_def lx by simp
  have ra: "ready ?P a z" using rd op prec_no_paren [OF assms(1)] unfolding ready_def lx by (simp add: follow_def)
  let ?za = "parsed ?P a z"
  have pk: "tk_kind (peek ?za) = op" using op by (simp add: parsed_def)
  let ?zb = "grown 1 [] ?za"
  have ff: "follow (?P + 1) b ?zb = follow q ?e z" by (simp add: follow_def parsed_def lx add.assoc)
  have rb: "ready (?P + 1) b ?zb" using rd ff by (simp add: ready_def lx parsed_def)
  let ?zc = "parsed (?P + 1) b ?zb"
  have "tk_kind (peek ?zc) = follow q ?e z" by (simp add: follow_def parsed_def lx add.assoc)
  then have "pe.gives (Binop_loop (?P + 1) (node_of b ?zb)) ?zc (node_of b ?zb, ?zc)"
    using fl assms(2) by (intro gives_loop_stop) simp
  then have gb: "pe.gives (Binop (?P + 1)) ?zb (node_of b ?zb, ?zc)"
    using assms(4) rb ff fl assms(2) by (simp add: binop_ok_def)
  have room: "length (nodes ?zc) < MAX_NODES" using rd by (simp add: ready_def parsed_def)
  have z': "grown 0 [bin_node op (node_of a z) (node_of b ?zb)] ?zc = parsed q ?e z" "length (nodes ?zc) = node_of ?e z"
    by (simp_all add: parsed_def node_of_def lx)
  have "pe.gives (Binop_loop p (node_of a z)) ?za r"
    by (rule gives_loop [where rhs = "node_of b ?zb" and ?z1.0 = ?zc]) (use p assms(2) pk gb room g z' in simp_all)
  then show "pe.gives (Binop p) z r"
    using assms(3) ra p assms(2) op by (cases r) (simp add: binop_ok_def follow_def)
qed

text \<open>And with parentheses.\<close>

lemma primary_infix:
  assumes "1 \<le> bin_prec op" and "binop_ok 1 (Binary op a b)"
  shows "primary_ok (Binary op a b)"
  unfolding primary_ok_def
proof (intro allI impI)
  let ?e = "Binary op a b"
  fix z assume rd: "ready 11 ?e z"
  have lx: "lexemes 11 ?e = Lx T_LPAR # lexemes 1 ?e @ [Lx T_RPAR]"
    using assms(1) bin_prec_le [of op] by (simp add: lexemes.simps(4) Let_def)
  let ?z = "grown 1 [] z"
  have f: "follow 1 ?e ?z = T_RPAR" using rd unfolding ready_def lx by (simp add: follow_def)
  have "ready 1 ?e ?z" using rd f unfolding ready_def lx by (simp)
  moreover have pk: "tk_kind (peek (parsed 1 ?e ?z)) = T_RPAR" using f by (simp add: parsed_def follow_def)
  moreover from this have "pe.gives (Binop_loop 1 (node_of ?e ?z)) (parsed 1 ?e ?z) (node_of ?e ?z, parsed 1 ?e ?z)"
    by (intro gives_loop_stop) (simp add: bin_prec_def)
  ultimately have "pe.gives (Binop 1) ?z (node_of ?e ?z, parsed 1 ?e ?z)"
    using assms(2) f by (simp add: binop_ok_def bin_prec_def)
  then have "pe.gives Expr ?z (node_of ?e ?z, parsed 1 ?e ?z)" using pk by (intro gives_expr) (auto simp: is_assign_def)
  from gives_par [OF _ this pk] show "pe.gives Primary z (node_of ?e z, parsed 11 ?e z)"
    using rd unfolding ready_def lx by (simp add: node_of_def parsed_def lx peek_def)
qed

lemma parse_lexemes: "wf_expr e \<Longrightarrow> primary_ok e \<and> (\<forall>q\<le>11. binop_ok q e)"
proof (induction e)
  case (Num v)
  have "primary_ok (Num v)"
    unfolding primary_ok_def
  proof (intro allI impI)
    fix z assume "ready 11 (Num v) z"
    then show "pe.gives Primary z (node_of (Num v) z, parsed 11 (Num v) z)"
      using gives_num [of z v] by (simp add: ready_def peek_def node_of_def parsed_def)
  qed
  then show ?case by (auto intro: primary_binop)
next
  case (Var x)
  have "primary_ok (Var x)"
    unfolding primary_ok_def
  proof (intro allI impI)
    fix z assume "ready 11 (Var x) z"
    then show "pe.gives Primary z (node_of (Var x) z, parsed 11 (Var x) z)"
      using gives_var [of z x] by (simp add: ready_def peek_def node_of_def parsed_def follow_def)
  qed
  then show ?case by (auto intro: primary_binop)
next
  case (Unary op e)
  then have "primary_ok (Unary op e)" by (intro primary_unary) simp_all
  then show ?case by (auto intro: primary_binop)
next
  case (Binary op a b)
  have P: "1 \<le> bin_prec op" "bin_prec op \<le> 11" "bin_prec op + 1 \<le> 11" using Binary.prems bin_prec_le [of op] by simp_all
  have i: "binop_ok q (Binary op a b)" if "q \<le> bin_prec op" for q
    using Binary P that by (intro binop_infix) simp_all
  have p: "primary_ok (Binary op a b)" by (rule primary_infix [OF P(1) i]) (use P in simp)
  have "binop_ok q (Binary op a b)" if "q \<le> 11" for q
  proof (cases "q \<le> bin_prec op")
    case False
    then show ?thesis using bin_prec_le [of op] by (intro primary_binop [OF p]) (simp add: lexemes.simps(4) Let_def)
  qed (rule i)
  with p show ?case by simp
qed

subsection \<open>The value of an expression\<close>

text \<open>The value under an assignment of values to names; none where a division faults. The second operand of
  the logical operators counts only when it is needed.\<close>

primrec den :: "(bytes \<Rightarrow> u32) \<Rightarrow> expr \<Rightarrow> u32 option" where
  "den E (Num v) = Some v"
| "den E (Var x) = Some (E x)"
| "den E (Unary op e) = map_option (un_value op) (den E e)"
| "den E (Binary op a b) = do {
     v \<leftarrow> den E a;
     (if op = T_AND then (if v \<noteq> 0 then map_option (\<lambda>w. bool32 (w \<noteq> 0)) (den E b) else Some 0)
      else if op = T_OR then (if v \<noteq> 0 then Some 1 else map_option (\<lambda>w. bool32 (w \<noteq> 0)) (den E b))
      else do { w \<leftarrow> den E b; bin_value op v w }) }"

primrec names :: "expr \<Rightarrow> bytes list" where
  "names (Num v) = []"
| "names (Var x) = [x]"
| "names (Unary op e) = names e"
| "names (Binary op a b) = names a @ names b"

definition declared :: "zbc \<Rightarrow> bytes \<Rightarrow> bool" where
  "declared z x \<longleftrightarrow> find_var x z \<noteq> None"

definition value_of :: "zbc \<Rightarrow> bytes \<Rightarrow> u32" where
  "value_of z x = get_var (the (find_var x z)) z"

text \<open>The nodes of an expression are in the table from index k on.\<close>

definition holds_expr :: "node list \<Rightarrow> nat \<Rightarrow> expr \<Rightarrow> bool" where
  "holds_expr ns k e \<longleftrightarrow> (\<forall>j<nsize e. ns ! (k + j) = expr_nodes k e ! j)"

lemma holds_unary: "holds_expr ns k (Unary op e) \<Longrightarrow> ns ! k = un_node op (root (Suc k) e) \<and> holds_expr ns (Suc k) e"
  by (auto simp: holds_expr_def less_Suc_eq_0_disj dest: spec [of _ "Suc _"])

lemma holds_binary:
  assumes "holds_expr ns k (Binary op a b)"
  shows "holds_expr ns k a" and "holds_expr ns (k + nsize a) b"
    and "ns ! (k + nsize a + nsize b) = bin_node op (root k a) (root (k + nsize a) b)"
proof -
  have h: "ns ! (k + j) = (expr_nodes k a @ expr_nodes (k + nsize a) b @ [bin_node op (root k a) (root (k + nsize a) b)]) ! j"
    if "j < Suc (nsize a + nsize b)" for j using assms that by (simp add: holds_expr_def)
  show "holds_expr ns k a" using h by (simp add: holds_expr_def nth_append)
  show "holds_expr ns (k + nsize a) b"
    unfolding holds_expr_def
  proof (intro allI impI)
    fix j assume "j < nsize b"
    then show "ns ! (k + nsize a + j) = expr_nodes (k + nsize a) b ! j" using h [of "nsize a + j"] by (simp add: nth_append add.assoc)
  qed
  show "ns ! (k + nsize a + nsize b) = bin_node op (root k a) (root (k + nsize a) b)"
    using h [of "nsize a + nsize b"] by (simp add: nth_append add.assoc)
qed

lemma bind_value: "r \<bind> (\<lambda>v. Some (v, z)) = map_option (\<lambda>v. (v, z)) r"
  by (cases r) simp_all

lemma eval_expr:
  assumes "\<not> had_error z"
  shows "holds_expr (nodes z) k e \<Longrightarrow> \<forall>x\<in>set (names e). declared z x \<Longrightarrow> nsize e \<le> f \<Longrightarrow>
    eval f (Eval (Some (root k e))) z = map_option (\<lambda>v. (v, z)) (den (value_of z) e)"
proof (induction e arbitrary: k f)
  case (Num v)
  then obtain m where "f = Suc m" by (cases f) auto
  with Num assms show ?case by (simp add: eval_step_def eval_node_def holds_expr_def blank_node_def)
next
  case (Var x)
  then obtain m where "f = Suc m" by (cases f) auto
  with Var assms show ?case
    by (auto simp: eval_step_def eval_node_def holds_expr_def blank_node_def declared_def value_of_def split: option.split)
next
  case (Unary op e)
  then obtain m where m: "f = Suc m" "nsize e \<le> m" by (cases f) auto
  have h: "nodes z ! k = un_node op (root (Suc k) e)" "holds_expr (nodes z) (Suc k) e" using holds_unary [OF Unary.prems(1)] by simp_all
  have "eval m (Eval (Some (root (Suc k) e))) z = map_option (\<lambda>v. (v, z)) (den (value_of z) e)"
    using Unary.IH [OF h(2) _ m(2)] Unary.prems(2) by simp
  then show ?case using assms h(1) m(1)
    by (cases "den (value_of z) e") (simp_all add: eval_step_def eval_node_def un_node_def blank_node_def)
next
  case (Binary op a b)
  then obtain m where m: "f = Suc m" "nsize a + nsize b \<le> m" by (cases f) auto
  note h = holds_binary [OF Binary.prems(1)]
  have a: "eval m (Eval (Some (root k a))) z = map_option (\<lambda>v. (v, z)) (den (value_of z) a)"
    using Binary.IH(1) [OF h(1)] Binary.prems(2) m(2) by simp
  have b: "eval m (Eval (Some (root (k + nsize a) b))) z = map_option (\<lambda>v. (v, z)) (den (value_of z) b)"
    using Binary.IH(2) [OF h(2)] Binary.prems(2) m(2) by simp
  let ?n = "bin_node op (root k a) (root (k + nsize a) b)"
  have n: "nchild ?n ! 0 = Some (root k a)" "nchild ?n ! 1 = Some (root (k + nsize a) b)" "nop ?n = op" "nkind ?n = N_BIN"
    by (simp_all add: bin_node_def fill_def blank_node_def)
  have "eval f (Eval (Some (root k (Binary op a b)))) z = eval_bin (eval m) ?n z"
    using assms h(3) n(4) by (simp add: m(1) eval_step_def eval_node_def)
  also have "\<dots> = map_option (\<lambda>v. (v, z)) (den (value_of z) (Binary op a b))"
    unfolding eval_bin_def n a by (cases "den (value_of z) a"; cases "den (value_of z) b") (simp_all add: b bind_value)
  finally show ?case .
qed

text \<open>Printing, parsing and evaluating an expression gives its value.\<close>

lemma expr_parsed:
  assumes "wf_expr e" and "ready 1 e z" and "bin_prec (follow 1 e z) = 0" and "\<not> is_assign (follow 1 e z)"
  shows "pe.gives Expr z (node_of e z, parsed 1 e z)"
proof -
  have p: "tk_kind (peek (parsed 1 e z)) = follow 1 e z" by (simp add: parsed_def follow_def)
  have "binop_ok 1 e" using parse_lexemes [OF assms(1)] by simp
  moreover have "pe.gives (Binop_loop 1 (node_of e z)) (parsed 1 e z) (node_of e z, parsed 1 e z)"
    using p assms(3) by (intro gives_loop_stop) simp
  ultimately have "pe.gives (Binop 1) z (node_of e z, parsed 1 e z)" using assms(2,3) by (simp add: binop_ok_def)
  then show ?thesis by (rule gives_expr) (use p assms(4) in simp)
qed

lemma parsed_eval:
  assumes "\<not> had_error z" and "\<forall>x\<in>set (names e). declared z x" and "nsize e \<le> f"
  shows "eval f (Eval (Some (node_of e z))) (parsed q e z) = map_option (\<lambda>v. (v, parsed q e z)) (den (value_of z) e)"
proof -
  have p: "find_var x (parsed q e z) = find_var x z" "get_var y (parsed q e z) = get_var y z" for x y
    by (simp_all add: parsed_def grown_def find_var_def get_var_def split: option.split place.split)
  have "holds_expr (nodes (parsed q e z)) (length (nodes z)) e" by (simp add: holds_expr_def parsed_def)
  moreover have "value_of (parsed q e z) = value_of z" by (simp add: value_of_def p fun_eq_iff)
  ultimately show ?thesis
    using eval_expr [of "parsed q e z" "length (nodes z)" e f] assms
    by (simp add: node_of_def declared_def p) (simp add: parsed_def grown_def)
qed

end
