(* ===== verification/ZbcFacts.thy ===== *)
theory ZbcFacts
  imports ZbcExpr
begin

text \<open>
  The properties of the C interpreter of shell/zbc.c, on top of ZbcWf and ZbcWfS (the tables the parser
  leaves), ZbcTerm (the parser comes back), ZbcSafe (the evaluator stays in the tables) and ZbcExpr
  (expressions), with concrete programs.
\<close>

subsection \<open>Example programs\<close>

text \<open>The static variables before the first program; the string table, which the examples do not use, is left short.\<close>

definition zbc_init :: zbc where
  "zbc_init = \<lparr>toks = \<lambda>_. zero_token, tok_count = 0, tok_pos = 0, strtab = [0], strtab_pos = 0, nodes = [], funcs = [],
     globals = [], scopes = \<lambda>_. [], scope_depth = 0, had_error = False, had_return = False, return_value = 0, had_break = False,
     had_continue = False, z_out = [], z_keys = []\<rparr>"

definition sample_prog :: bytes where
  "sample_prog = lit ''int f(int a){return a=g(2);}''"

definition parsed_prog :: "bytes \<Rightarrow> zbc" where
  "parsed_prog src = the (parse_program 30 (snd (tokenize src (zbc_start [] zbc_init))))"

lemma sample_parses:
  "fst (tokenize sample_prog (zbc_start [] zbc_init)) \<and>
    (case parse_program 30 (snd (tokenize sample_prog (zbc_start [] zbc_init))) of None \<Rightarrow> False | Some z2 \<Rightarrow> \<not> had_error z2 \<and> length (nodes z2) = 6)"
  by code_simp

lemma sample_tokenized: "tokenize sample_prog (zbc_start [] zbc_init) = (True, snd (tokenize sample_prog (zbc_start [] zbc_init)))"
  using sample_parses by (simp add: prod_eq_iff)

lemma sample_parsed: "parse_program 30 (snd (tokenize sample_prog (zbc_start [] zbc_init))) = Some (parsed_prog sample_prog)"
  "\<not> had_error (parsed_prog sample_prog)" "length (nodes (parsed_prog sample_prog)) = 6"
  using sample_parses unfolding parsed_prog_def by (auto split: option.splits)

text \<open>C25: When the tokenizer and the parser of the C interpreter take a program without an error, the tables are
  well-formed: every link of a node is an index of the table or none, an assignment has a variable on its
  left, a string literal starts inside the used part of the string table, the body of each of the at most 16
  functions is a node of the table, and no token past the end marker was consumed.\<close>

theorem zbc_tables_well_formed:
  assumes "tokenize src (zbc_start con z) = (True, z1)" and "parse_program f z1 = Some z2" and "\<not> had_error z2"
  shows "program_ok z2"
  by (rule parsed_program_ok [OF assms])

lemma zbc_tables_well_formed_witness: "program_ok (parsed_prog sample_prog) \<and> length (nodes (parsed_prog sample_prog)) = 6"
  using zbc_tables_well_formed [OF sample_tokenized sample_parsed(1,2)] sample_parsed(3) by simp

text \<open>The parser of the C interpreter comes back on every program text, with a depth of at most 2051 calls, as
  long as nothing but end markers follows the table of 512 tokens; the tokens in the table may be left over
  from an earlier program.\<close>

theorem zbc_parser_returns:
  assumes "\<forall>i\<ge>MAX_TOKENS. tk_kind (toks z i) = T_EOF"
  shows "\<exists>z2. parse_program 2051 (snd (tokenize src (zbc_start con z))) = Some z2"
  using program_returns [of src con z] assms by (cases "tokenize src (zbc_start con z)") (simp add: ends_def)

lemma zbc_parser_returns_witness: "\<exists>z2. parse_program 2051 (snd (tokenize (lit ''if ( if int else {'') (zbc_start [] zbc_init))) = Some z2"
  by (rule zbc_parser_returns) (simp add: zbc_init_def zero_token_def)

text \<open>C24: The evaluator stays inside its tables. For a program parsed without an error, running a function does the
  same as an evaluator that checks, before every step, that the node it is to look at is in the table, that
  all links of the table are, that at most 8 scopes are open and that none of them holds more than 32
  variables; and afterwards no scope is left open and the program is unchanged.\<close>

theorem zbc_run_in_bounds:
  assumes "tokenize src (zbc_start con z) = (True, z1)" and "parse_program pf z1 = Some z2" and "\<not> had_error z2"
  shows "call_function (eval_checked f) name args z2 = call_function (eval f) name args z2 \<and>
    (\<forall>v z3. call_function (eval f) name args z2 = Some (v, z3) \<longrightarrow> scope_depth z3 = 0 \<and> scopes_ok z3 \<and> nodes z3 = nodes z2 \<and> funcs z3 = funcs z2)"
proof -
  have p: "program_ok z2" by (rule parsed_program_ok [OF assms])
  have "agrees z2 (call_function (eval_checked f) name args z2) (call_function (eval f) name args z2)"
    by (rule checked.call [OF parsed_inv [OF p]])
  then show ?thesis using p by (auto simp: agrees_def inv_def frame_def program_ok_def)
qed

lemma zbc_run_in_bounds_witness:
  "call_function (eval_checked 40) (lit ''f'') [7] (parsed_prog sample_prog) = call_function (eval 40) (lit ''f'') [7] (parsed_prog sample_prog)"
  using zbc_run_in_bounds [OF sample_tokenized sample_parsed(1,2)] by simp

text \<open>C23: Expressions keep their meaning. The tokens of an expression, with parentheses only where the binding of
  the operators asks for them, followed by a token that no expression continues with, parse to nodes of the
  table, and evaluating these gives the value of the expression under the variables of the current scopes:
  products bind tighter than sums, operators of one level associate to the left, the second operand of the
  logical operators is skipped when the first decides, and no result means that a division faults.\<close>

theorem zbc_expression_roundtrip:
  assumes "wf_expr e" and "ready 1 e z" and "bin_prec (follow 1 e z) = 0" and "\<not> is_assign (follow 1 e z)"
    and "\<not> had_error z" and "\<forall>x\<in>set (names e). declared z x"
  shows "\<exists>f0 n z1. (\<forall>f\<ge>f0. parse_e f Expr z = Some (n, z1)) \<and> tok_pos z1 = tok_pos z + length (lexemes 1 e) \<and>
    (\<forall>f\<ge>nsize e. eval f (Eval (Some n)) z1 = map_option (\<lambda>v. (v, z1)) (den (value_of z) e))"
proof -
  obtain f0 where "\<forall>f\<ge>f0. parse_e f Expr z = Some (node_of e z, parsed 1 e z)"
    using pe.gives_fuel [OF expr_parsed [OF assms(1-4)]] by blast
  moreover have "\<forall>f\<ge>nsize e. eval f (Eval (Some (node_of e z))) (parsed 1 e z) = map_option (\<lambda>v. (v, parsed 1 e z)) (den (value_of z) e)"
    using parsed_eval [OF assms(5,6)] by blast
  moreover have "tok_pos (parsed 1 e z) = tok_pos z + length (lexemes 1 e)" by (simp add: parsed_def)
  ultimately show ?thesis by blast
qed

text \<open>\<open>(2 - x) * 3\<close> at the start of the token table, with x = 7.\<close>

definition sample_expr :: expr where
  "sample_expr = Binary T_STAR (Binary T_MINUS (Num 2) (Var (lit ''x''))) (Num 3)"

definition sample_tokens :: zbc where
  "sample_tokens = zbc_init\<lparr>toks := \<lambda>i. if i < 7 then
       [zero_token\<lparr>tk_kind := T_LPAR\<rparr>, zero_token\<lparr>tk_kind := T_INT, tk_ival := 2\<rparr>, zero_token\<lparr>tk_kind := T_MINUS\<rparr>,
        zero_token\<lparr>tk_kind := T_IDENT, tk_sval := lit ''x''\<rparr>, zero_token\<lparr>tk_kind := T_RPAR\<rparr>, zero_token\<lparr>tk_kind := T_STAR\<rparr>,
        zero_token\<lparr>tk_kind := T_INT, tk_ival := 3\<rparr>] ! i else zero_token,
     scope_depth := 1, scopes := \<lambda>_. [\<lparr>vname = lit ''x'', vval = 7\<rparr>]\<rparr>"

lemma zbc_expression_roundtrip_witness:
  "(\<exists>f0 n z1. (\<forall>f\<ge>f0. parse_e f Expr sample_tokens = Some (n, z1)) \<and> tok_pos z1 = 7 \<and>
    (\<forall>f\<ge>5. eval f (Eval (Some n)) z1 = Some (-15, z1))) \<and> den (value_of sample_tokens) sample_expr = Some (-15)"
proof -
  have v: "den (value_of sample_tokens) sample_expr = Some (-15)" by code_simp
  have l: "lexemes 1 sample_expr = [Lx T_LPAR, LInt 2, Lx T_MINUS, LId (lit ''x''), Lx T_RPAR, Lx T_STAR, LInt 3]" "nsize sample_expr = 5"
    by code_simp+
  have "wf_expr sample_expr" "bin_prec (follow 1 sample_expr sample_tokens) = 0" "\<not> is_assign (follow 1 sample_expr sample_tokens)"
    "\<not> had_error sample_tokens" by code_simp+
  moreover have "ready 1 sample_expr sample_tokens" unfolding ready_def by code_simp
  moreover have "\<forall>x\<in>set (names sample_expr). declared sample_tokens x" by code_simp
  moreover have "tok_pos sample_tokens = 0" by code_simp
  ultimately show ?thesis using zbc_expression_roundtrip [of sample_expr sample_tokens] v l by (simp add: eval_nat_numeral)
qed

subsection \<open>Where break and continue go wrong\<close>

text \<open>A break out of a for loop evaluates the third part of the loop once more: this program returns 5.\<close>

lemma for_break_runs_post: "map_option fst (zbc_exec 30 60 (lit ''int main(){int i;for(;;i=5)break;return i;}'') [] zbc_init) = Some 5"
  by code_simp

text \<open>A continue in the last turn of a while loop skips the rest of the block around the loop: this program returns 0.\<close>

lemma while_continue_leaks: "map_option fst (zbc_exec 30 60 (lit ''int main(){int i;while(!i){i=1;continue;}return 7;}'') [] zbc_init) = Some 0"
  by code_simp

end
