(* ===== verification/Ports.thy ===== *)
theory Ports
  imports ByteQueue "HOL-Library.Monad_Syntax"
begin

text \<open>
  Port input and output of include/io.h. The devices behind the ports are not part of the program: a
  ports record gives what they answer to a read and how a read or a write changes their state, of
  any type. A driver takes the ports and threads that state.
\<close>

record 'h ports =
  port_in :: "u16 \<Rightarrow> 'h \<Rightarrow> u8 \<times> 'h"
  port_out :: "u16 \<Rightarrow> u8 \<Rightarrow> 'h \<Rightarrow> 'h"

definition inb :: "'h ports \<Rightarrow> u16 \<Rightarrow> 'h \<Rightarrow> u8 \<times> 'h" where
  "inb P port h = port_in P port h"

definition outb :: "'h ports \<Rightarrow> u16 \<Rightarrow> u8 \<Rightarrow> 'h \<Rightarrow> 'h" where
  "outb P port v h = port_out P port v h"

definition io_wait :: "'h ports \<Rightarrow> 'h \<Rightarrow> 'h" where
  "io_wait P h = outb P 0x80 0 h"

text \<open>A run of writes, in order.\<close>

primrec outs :: "'h ports \<Rightarrow> (u16 \<times> u8) list \<Rightarrow> 'h \<Rightarrow> 'h" where
  "outs P [] h = h"
| "outs P (w # ws) h = outs P ws (outb P (fst w) (snd w) h)"

lemma outs_append: "outs P (xs @ ys) h = outs P ys (outs P xs h)"
  by (induction xs arbitrary: h) simp_all

text \<open>\<open>while (inb(port) & m) ...;\<close>: None when it never ends.\<close>

partial_function (option) wait_clear :: "'h ports \<Rightarrow> u16 \<Rightarrow> u8 \<Rightarrow> ('h \<Rightarrow> 'h) \<Rightarrow> 'h \<Rightarrow> 'h option" where
  "wait_clear P port m body h =
     (case inb P port h of (v, h1) \<Rightarrow> if v AND m = 0 then Some h1 else wait_clear P port m body (body h1))"

text \<open>A switch over a byte that gives a byte, 0 by default; and a static table given by its
  designated entries, each a first index and the bytes from there.\<close>

definition switch_byte :: "(u8 \<times> u8) list \<Rightarrow> u8 \<Rightarrow> u8" where
  "switch_byte tbl b = (case map_of tbl b of None \<Rightarrow> 0 | Some v \<Rightarrow> v)"

definition byte_table :: "nat \<Rightarrow> (nat \<times> bytes) list \<Rightarrow> bytes" where
  "byte_table n es = foldl (\<lambda>t e. blit t (fst e) (snd e)) (replicate n 0) es"

lemma length_byte_table [simp, lens]: "length (byte_table n es) = n"
proof -
  have "length (foldl (\<lambda>t e. blit t (fst e) (snd e)) t es) = length t" for t :: bytes
    by (induction es arbitrary: t) auto
  then show ?thesis by (simp add: byte_table_def)
qed

lemma byte_low: "\<not> bit c 7 \<Longrightarrow> unat c < 128" for c :: u8
proof -
  assume b: "\<not> bit c 7"
  have "n < 7" if "n < 8" "bit c n" for n :: nat using that b by (cases "n = 7") simp_all
  then have "c = c AND mask 7" by (intro bit_word_eqI) (auto simp: bit_simps)
  then have "unat c = unat c mod 128" using unat_and_mask [of c 7] by simp
  then show ?thesis by (metis mod_less_divisor zero_less_numeral)
qed

end
