(* ===== verification/Keyboard.thy ===== *)
theory Keyboard
  imports Ports
begin

text \<open>
  The keyboard driver of kernel/keyboard.c: scan codes of set 1 become characters of the chosen layout
  and are queued in a ring of 64 bytes. The USB keyboard it also asks is the function usb_getc over
  the state of the devices, -1 when it has no character.
\<close>

subsection \<open>Layout tables\<close>

definition us_base :: bytes where
  "us_base = byte_table 128
     [(1, 27 # lit ''1234567890-='' @ [8]), (15, 9 # lit ''qwertyuiop[]'' @ [10]),
      (30, lit ''asdfghjkl;'' @ [0x27] @ lit ''`''), (43, 0x5C # lit ''zxcvbnm,./''), (55, lit ''*''), (57, lit '' '')]"

definition us_shift :: bytes where
  "us_shift = byte_table 128
     [(1, 27 # lit ''!@#$%^&*()_+'' @ [8]), (15, 9 # lit ''QWERTYUIOP{}'' @ [10]),
      (30, lit ''ASDFGHJKL:'' @ [0x22] @ lit ''~''), (43, lit ''|ZXCVBNM<>?''), (55, lit ''*''), (57, lit '' '')]"

text \<open>Code page 437: small and capital umlauts, sharp s, the degree sign.\<close>

definition UM_a :: u8 where "UM_a = 0x84"
definition UM_o :: u8 where "UM_o = 0x94"
definition UM_u :: u8 where "UM_u = 0x81"
definition UM_A :: u8 where "UM_A = 0x8E"
definition UM_O :: u8 where "UM_O = 0x99"
definition UM_U :: u8 where "UM_U = 0x9A"
definition SS :: u8 where "SS = 0xE1"
definition DEG :: u8 where "DEG = 0xF8"

lemmas cp437 = UM_a_def UM_o_def UM_u_def UM_A_def UM_O_def UM_U_def SS_def DEG_def

definition de_base :: bytes where
  "de_base = byte_table 128
     [(0x02, lit ''1234567890'' @ [SS, 0x27, 8, 9]), (0x10, lit ''qwertzuiop'' @ [UM_u] @ lit ''+'' @ [10]),
      (0x1E, lit ''asdfghjkl'' @ [UM_o, UM_a] @ lit ''^''), (0x2B, lit ''#yxcvbnm,.-''), (0x39, lit '' '')]"

definition de_shift :: bytes where
  "de_shift = byte_table 128
     [(0x02, lit ''!'' @ [0x22, 0x15] @ lit ''$%&/()=?`'' @ [8, 9]), (0x10, lit ''QWERTZUIOP'' @ [UM_U] @ lit ''*'' @ [10]),
      (0x1E, lit ''ASDFGHJKL'' @ [UM_O, UM_A, DEG]), (0x2B, [0x27] @ lit ''YXCVBNM;:_''), (0x39, lit '' '')]"

definition de_altgr :: bytes where
  "de_altgr = byte_table 128
     [(0x08, lit ''{[]}'' @ [0x5C]), (0x10, lit ''@''), (0x1B, lit ''~''), (0x2B, lit ''|'')]"

subsection \<open>Key codes outside ASCII\<close>

definition KB_UP :: u8 where "KB_UP = 0x80"
definition KB_DOWN :: u8 where "KB_DOWN = 0x81"
definition KB_LEFT :: u8 where "KB_LEFT = 0x82"
definition KB_RIGHT :: u8 where "KB_RIGHT = 0x83"
definition KB_DEL :: u8 where "KB_DEL = 0x84"
definition KB_HOME :: u8 where "KB_HOME = 0x85"
definition KB_END :: u8 where "KB_END = 0x86"
definition KB_PGUP :: u8 where "KB_PGUP = 0x87"
definition KB_PGDN :: u8 where "KB_PGDN = 0x88"
definition KB_F1 :: u8 where "KB_F1 = 0x90"
definition KB_F2 :: u8 where "KB_F2 = 0x91"
definition KB_F3 :: u8 where "KB_F3 = 0x92"
definition KB_F4 :: u8 where "KB_F4 = 0x93"
definition KB_F5 :: u8 where "KB_F5 = 0x94"
definition KB_F6 :: u8 where "KB_F6 = 0x95"
definition KB_F7 :: u8 where "KB_F7 = 0x96"
definition KB_F8 :: u8 where "KB_F8 = 0x97"

lemmas kb_codes = KB_UP_def KB_DOWN_def KB_LEFT_def KB_RIGHT_def KB_DEL_def KB_HOME_def KB_END_def KB_PGUP_def
  KB_PGDN_def KB_F1_def KB_F2_def KB_F3_def KB_F4_def KB_F5_def KB_F6_def KB_F7_def KB_F8_def

definition ext_key :: "u8 \<Rightarrow> u8" where
  "ext_key = switch_byte
     [(0x48, KB_UP), (0x50, KB_DOWN), (0x4B, KB_LEFT), (0x4D, KB_RIGHT), (0x53, KB_DEL),
      (0x47, KB_HOME), (0x4F, KB_END), (0x49, KB_PGUP), (0x51, KB_PGDN)]"

definition f_key :: "u8 \<Rightarrow> u8" where
  "f_key = switch_byte
     [(0x3B, KB_F1), (0x3C, KB_F2), (0x3D, KB_F3), (0x3E, KB_F4), (0x3F, KB_F5), (0x40, KB_F6), (0x41, KB_F7), (0x42, KB_F8)]"

subsection \<open>State\<close>

definition KB_BUF_SIZE :: nat where "KB_BUF_SIZE = 64"

record kbd =
  kb_buf :: bytes
  kb_head :: nat
  kb_tail :: nat
  shift_down :: bool
  ctrl_down :: bool
  caps_lock :: bool
  altgr_down :: bool
  ext_flag :: bool
  kb_german :: bool
  g_intr :: bool

text \<open>The static variables as they start out.\<close>

definition kb_reset :: kbd where
  "kb_reset = \<lparr>kb_buf = replicate KB_BUF_SIZE 0, kb_head = 0, kb_tail = 0, shift_down = False, ctrl_down = False,
     caps_lock = False, altgr_down = False, ext_flag = False, kb_german = False, g_intr = False\<rparr>"

definition kb_intr_pending :: "kbd \<Rightarrow> bool" where
  "kb_intr_pending k = g_intr k"

definition kb_intr_consume :: "kbd \<Rightarrow> kbd" where
  "kb_intr_consume k = k\<lparr>g_intr := False\<rparr>"

definition kb_set_layout :: "bytes option \<Rightarrow> kbd \<Rightarrow> kbd" where
  "kb_set_layout name k =
     (case name of
        None \<Rightarrow> k
      | Some s \<Rightarrow> k\<lparr>kb_german := (byte_at s 0 = of_char CHR ''d'' \<or> byte_at s 0 = of_char CHR ''D'')\<rparr>)"

definition kb_get_layout :: "kbd \<Rightarrow> bytes" where
  "kb_get_layout k = (if kb_german k then lit ''de'' else lit ''us'')"

subsection \<open>The ring\<close>

definition kb_next :: "nat \<Rightarrow> nat" where
  "kb_next i = (i + 1) mod KB_BUF_SIZE"

text \<open>The store of enqueue, None when the ring is full; enqueue drops the byte then.\<close>

definition kb_put :: "kbd \<Rightarrow> u8 \<Rightarrow> kbd option" where
  "kb_put k c = (if kb_next (kb_head k) = kb_tail k then None
     else Some (k\<lparr>kb_buf := (kb_buf k)[kb_head k := c], kb_head := kb_next (kb_head k)\<rparr>))"

definition enqueue :: "u8 \<Rightarrow> kbd \<Rightarrow> kbd" where
  "enqueue c k = (case kb_put k c of None \<Rightarrow> k | Some k' \<Rightarrow> k')"

definition kb_get :: "kbd \<Rightarrow> (u8 \<times> kbd) option" where
  "kb_get k = (if kb_head k = kb_tail k then None
     else Some (kb_buf k ! kb_tail k, k\<lparr>kb_tail := kb_next (kb_tail k)\<rparr>))"

subsection \<open>Scan codes\<close>

definition is_low :: "u8 \<Rightarrow> bool" where
  "is_low c \<longleftrightarrow> of_char CHR ''a'' \<le> c \<and> c \<le> of_char CHR ''z''"

definition is_up :: "u8 \<Rightarrow> bool" where
  "is_up c \<longleftrightarrow> of_char CHR ''A'' \<le> c \<and> c \<le> of_char CHR ''Z''"

definition table_char :: "u8 \<Rightarrow> kbd \<Rightarrow> u8" where
  "table_char sc k =
     (if kb_german k then
        (let c = (if altgr_down k then de_altgr ! unat sc else 0) in
         if c = 0 then (if shift_down k then de_shift else de_base) ! unat sc else c)
      else (if shift_down k then us_shift else us_base) ! unat sc)"

definition caps_char :: "kbd \<Rightarrow> u8 \<Rightarrow> u8" where
  "caps_char k c = (if caps_lock k \<and> is_low c then c - 32 else if caps_lock k \<and> is_up c \<and> \<not> shift_down k then c + 32 else c)"

definition ctrl_char :: "kbd \<Rightarrow> u8 \<Rightarrow> u8" where
  "ctrl_char k c = (if ctrl_down k \<and> is_low c then c - of_char CHR ''a'' + 1
     else if ctrl_down k \<and> is_up c then c - of_char CHR ''A'' + 1 else c)"

text \<open>A key of the tables: nothing, or its character queued; ^C also sets the interrupt flag.\<close>

definition plain_key :: "u8 \<Rightarrow> kbd \<Rightarrow> kbd" where
  "plain_key sc k =
     (let c = table_char sc k in
      if c = 0 then k
      else let c = ctrl_char k (caps_char k c) in
        enqueue c (if c = 3 then k\<lparr>g_intr := True\<rparr> else k))"

text \<open>on_irq1 after it has read the scan code.\<close>

definition on_scancode :: "u8 \<Rightarrow> kbd \<Rightarrow> kbd" where
  "on_scancode sc k =
     (if sc = 0xE0 then k\<lparr>ext_flag := True\<rparr>
      else if ext_flag k then
        (let k = k\<lparr>ext_flag := False\<rparr> in
         if sc = 0x38 then k\<lparr>altgr_down := True\<rparr>
         else if sc = 0xB8 then k\<lparr>altgr_down := False\<rparr>
         else if sc AND 0x80 \<noteq> 0 then k
         else if ext_key sc \<noteq> 0 then enqueue (ext_key sc) k else k)
      else if sc AND 0x80 \<noteq> 0 then
        (let down = sc AND 0x7F;
             k = (if down = 0x2A \<or> down = 0x36 then k\<lparr>shift_down := False\<rparr> else k)
         in if down = 0x1D then k\<lparr>ctrl_down := False\<rparr> else k)
      else if sc = 0x2A \<or> sc = 0x36 then k\<lparr>shift_down := True\<rparr>
      else if sc = 0x1D then k\<lparr>ctrl_down := True\<rparr>
      else if sc = 0x3A then k\<lparr>caps_lock := \<not> caps_lock k\<rparr>
      else if f_key sc \<noteq> 0 then enqueue (f_key sc) k
      else plain_key sc k)"

subsection \<open>The driver\<close>

definition KBD_DATA :: u16 where "KBD_DATA = 0x60"
definition KBD_STATUS :: u16 where "KBD_STATUS = 0x64"

definition on_irq1 :: "'h ports \<Rightarrow> kbd \<Rightarrow> 'h \<Rightarrow> kbd \<times> 'h" where
  "on_irq1 P k h = (case inb P KBD_DATA h of (sc, h1) \<Rightarrow> (on_scancode sc k, h1))"

text \<open>keyboard_init up to the registration of the handler.\<close>

definition keyboard_init :: "'h ports \<Rightarrow> kbd \<Rightarrow> 'h \<Rightarrow> (kbd \<times> 'h) option" where
  "keyboard_init P k h = do {
     h1 \<leftarrow> wait_clear P KBD_STATUS 1 (\<lambda>h. snd (inb P KBD_DATA h)) h;
     h2 \<leftarrow> wait_clear P KBD_STATUS 2 (\<lambda>h. h) h1;
     Some (k\<lparr>kb_head := 0, kb_tail := 0\<rparr>, io_wait P (outb P KBD_STATUS 0xAE h2)) }"

definition kb_trygetc :: "'h ports \<Rightarrow> ('h \<Rightarrow> int \<times> 'h) \<Rightarrow> kbd \<Rightarrow> 'h \<Rightarrow> int \<times> kbd \<times> 'h" where
  "kb_trygetc P usb_getc k h =
     (let (k1, h1) =
        (if kb_head k = kb_tail k then
           (case inb P KBD_STATUS h of (st, h1) \<Rightarrow> if st AND 0x21 = 1 then on_irq1 P k h1 else (k, h1))
         else (k, h))
      in case usb_getc h1 of (c, h2) \<Rightarrow>
        if 0 \<le> c then (c, k1, h2)
        else case kb_get k1 of None \<Rightarrow> (-1, k1, h2) | Some (b, k2) \<Rightarrow> (int (unat b), k2, h2))"

text \<open>kb_getc; hlt waits for an interrupt, whose effect is the function irq. None when no key ever comes.\<close>

partial_function (option) kb_getc ::
  "'h ports \<Rightarrow> ('h \<Rightarrow> int \<times> 'h) \<Rightarrow> (kbd \<times> 'h \<Rightarrow> kbd \<times> 'h) \<Rightarrow> kbd \<Rightarrow> 'h \<Rightarrow> (int \<times> kbd \<times> 'h) option" where
  "kb_getc P usb_getc irq k h =
     (case kb_trygetc P usb_getc k h of (c, k1, h1) \<Rightarrow>
        if 0 \<le> c then Some (c, k1, h1)
        else (case irq (k1, h1) of (k2, h2) \<Rightarrow> kb_getc P usb_getc irq k2 h2))"

end
