(* ===== verification/KeyboardFacts.thy ===== *)
theory KeyboardFacts
  imports Keyboard
begin

text \<open>
  Facts about the keyboard driver of kernel/keyboard.c: its ring is a bounded queue, a text typed key by
  key is read back, and which characters the German layout loses or confuses.
\<close>

subsection \<open>The ring is a queue of 63 bytes\<close>

definition kb_items :: "kbd \<Rightarrow> bytes" where
  "kb_items k = ring_list KB_BUF_SIZE (kb_buf k) (kb_head k) (kb_tail k)"

definition kb_inv :: "kbd \<Rightarrow> bool" where
  "kb_inv k \<longleftrightarrow> kb_head k < KB_BUF_SIZE \<and> kb_tail k < KB_BUF_SIZE \<and> length (kb_buf k) = KB_BUF_SIZE"

interpretation kb_ring: byte_queue kb_put kb_get kb_items kb_inv "KB_BUF_SIZE - 1"
proof
  fix k k' :: kbd and b
  assume "kb_inv k"
  then have h: "kb_head k < KB_BUF_SIZE" and t: "kb_tail k < KB_BUF_SIZE" and l: "length (kb_buf k) = KB_BUF_SIZE"
    by (simp_all add: kb_inv_def)
  have n: "(i + 1) mod KB_BUF_SIZE < KB_BUF_SIZE" for i by (simp add: KB_BUF_SIZE_def)
  show "kb_put k b = None \<longleftrightarrow> length (kb_items k) = KB_BUF_SIZE - 1"
    using ring_full [OF h t, of "kb_buf k"] by (simp add: kb_put_def kb_next_def kb_items_def)
  show "kb_inv k' \<and> kb_items k' = kb_items k @ [b]" if "kb_put k b = Some k'"
    using that h t l n ring_append [OF h t _ l, of b]
    by (auto simp: kb_put_def kb_next_def kb_inv_def kb_items_def split: if_splits)
  show "kb_get k = None \<longleftrightarrow> kb_items k = []"
    using ring_empty [OF h t, of "kb_buf k"] by (simp add: kb_get_def kb_items_def)
  show "kb_inv k' \<and> kb_items k = b # kb_items k'" if "kb_get k = Some (b, k')"
    using that h t l n ring_cons [OF h t, of "kb_buf k"]
    by (auto simp: kb_get_def kb_next_def kb_inv_def kb_items_def split: if_splits)
  show "length (kb_items k) \<le> KB_BUF_SIZE - 1"
    using ring_length [OF h t, of "kb_buf k"] h t by (auto simp: kb_items_def KB_BUF_SIZE_def split: if_splits)
qed

lemma fold_enqueue: "kb_inv k \<Longrightarrow> length (kb_items k) + length s \<le> 63 \<Longrightarrow>
   kb_inv (foldl (\<lambda>k c. enqueue c k) k s) \<and> kb_items (foldl (\<lambda>k c. enqueue c k) k s) = kb_items k @ s"
proof (induction s arbitrary: k)
  case (Cons c s)
  have "kb_put k c \<noteq> None" using Cons.prems kb_ring.put_full [of k c] by (auto simp: KB_BUF_SIZE_def)
  then obtain k' where k': "kb_put k c = Some k'" by blast
  with kb_ring.put_some [OF Cons.prems(1)] have "kb_inv k'" "kb_items k' = kb_items k @ [c]" by blast+
  with Cons.IH [of k'] Cons.prems k' show ?case by (simp add: enqueue_def)
qed simp

text \<open>Reading n keys, one call after the other.\<close>

primrec get_keys :: "'h ports \<Rightarrow> ('h \<Rightarrow> int \<times> 'h) \<Rightarrow> nat \<Rightarrow> kbd \<Rightarrow> 'h \<Rightarrow> int list" where
  "get_keys P usb 0 k h = []"
| "get_keys P usb (Suc n) k h = (case kb_trygetc P usb k h of (c, k1, h1) \<Rightarrow> c # get_keys P usb n k1 h1)"

lemma get_keys_items:
  "kb_inv k \<Longrightarrow> get_keys P (\<lambda>h. (-1, h)) (length (kb_items k)) k h = map (\<lambda>b. int (unat b)) (kb_items k)"
proof (induction "kb_items k" arbitrary: k h)
  case Nil
  then show ?case by simp
next
  case (Cons b bs)
  then have ne: "kb_get k \<noteq> None" using kb_ring.get_none [of k] by force
  then obtain c k' where g: "kb_get k = Some (c, k')" by auto
  with kb_ring.get_some [OF Cons.prems] Cons.hyps(2) have e: "kb_inv k'" "c = b" "kb_items k' = bs" by auto
  have "kb_head k \<noteq> kb_tail k" using g by (auto simp: kb_get_def split: if_splits)
  then have "kb_trygetc P (\<lambda>h. (-1, h)) k h = (int (unat b), k', h)"
    using g e by (simp add: kb_trygetc_def)
  with Cons.hyps(1) [OF e(3) [symmetric] e(1)] e(3) show ?case by (simp flip: Cons.hyps(2))
qed

subsection \<open>Keys of the tables\<close>

text \<open>A scan code that is no modifier and no function key, pressed and released.\<close>

definition table_key :: "nat \<Rightarrow> bool" where
  "table_key i \<longleftrightarrow> (let sc = of_nat i :: u8; up = of_nat (i + 128) :: u8 in
     i < 128 \<and> unat sc = i \<and> sc AND 0x80 = 0 \<and> sc \<noteq> 0xE0 \<and> sc \<notin> {0x2A, 0x36, 0x1D, 0x3A} \<and> f_key sc = 0 \<and>
     up AND 0x80 \<noteq> 0 \<and> up \<noteq> 0xE0 \<and> up AND 0x7F \<notin> {0x2A, 0x36, 0x1D})"

lemma low_keys: "list_all (\<lambda>i. i \<in> {0x1D, 0x2A, 0x36} \<or> table_key i) [0..<58]"
  by code_simp

lemma low_keyI: "i < 58 \<Longrightarrow> i \<notin> {0x1D, 0x2A, 0x36} \<Longrightarrow> table_key i"
  using low_keys by (auto simp: list_all_iff)

text \<open>The codes a table has characters for are such, and no character is ^C.\<close>

definition key_table :: "bytes \<Rightarrow> bool" where
  "key_table t \<longleftrightarrow> length t = 128 \<and>
     list_all (\<lambda>(i, c). c = 0 \<or> (c \<noteq> 3 \<and> i < 58 \<and> i \<notin> {0x1D, 0x2A, 0x36})) (zip [0..<128] t)"

lemma key_tables: "key_table us_base" "key_table us_shift" "key_table de_base" "key_table de_shift" "key_table de_altgr"
  by code_simp+

lemma key_tableD:
  assumes "key_table t" and "i < 128" and "t ! i \<noteq> 0"
  shows "table_key i" and "t ! i \<noteq> 3"
proof -
  have "(i, t ! i) \<in> set (zip [0..<128] t)"
    using assms(1,2) by (auto simp: key_table_def set_zip intro!: exI [of _ i])
  with assms(1,3) have "i < 58" "i \<notin> {0x1D, 0x2A, 0x36}" "t ! i \<noteq> 3"
    by (auto simp: key_table_def list_all_iff)
  then show "table_key i" "t ! i \<noteq> 3" by (auto intro: low_keyI)
qed

lemma press_table_key: "table_key i \<Longrightarrow> \<not> ext_flag k \<Longrightarrow> on_scancode (of_nat i) k = plain_key (of_nat i) k"
  by (simp add: on_scancode_def table_key_def Let_def)

lemma release_table_key: "table_key i \<Longrightarrow> \<not> ext_flag k \<Longrightarrow> on_scancode (of_nat (i + 128)) k = k"
  by (simp add: on_scancode_def table_key_def Let_def)

lemma modifier_keys:
  "\<not> ext_flag k \<Longrightarrow> on_scancode 0x2A k = k\<lparr>shift_down := True\<rparr>"
  "\<not> ext_flag k \<Longrightarrow> on_scancode 0xAA k = k\<lparr>shift_down := False\<rparr>"
  "\<not> ext_flag k \<Longrightarrow> on_scancode 0x38 (on_scancode 0xE0 k) = k\<lparr>ext_flag := False, altgr_down := True\<rparr>"
  "\<not> ext_flag k \<Longrightarrow> on_scancode 0xB8 (on_scancode 0xE0 k) = k\<lparr>ext_flag := False, altgr_down := False\<rparr>"
  by (simp_all add: on_scancode_def Let_def)

text \<open>No modifier is down.\<close>

definition kb_idle :: "kbd \<Rightarrow> bool" where
  "kb_idle k \<longleftrightarrow> \<not> shift_down k \<and> \<not> ctrl_down k \<and> \<not> caps_lock k \<and> \<not> altgr_down k \<and> \<not> ext_flag k"

lemma enqueue_fields [simp]:
  "shift_down (enqueue c k) = shift_down k" "ctrl_down (enqueue c k) = ctrl_down k"
  "caps_lock (enqueue c k) = caps_lock k" "altgr_down (enqueue c k) = altgr_down k"
  "ext_flag (enqueue c k) = ext_flag k" "kb_german (enqueue c k) = kb_german k"
  by (simp_all add: enqueue_def kb_put_def)

lemma enqueue_idle [simp]: "kb_idle (enqueue c k) = kb_idle k"
  by (simp add: kb_idle_def)

lemma enqueue_flags:
  "(enqueue c (k\<lparr>shift_down := b\<rparr>))\<lparr>shift_down := shift_down k\<rparr> = enqueue c k"
  "(enqueue c (k\<lparr>ext_flag := x, altgr_down := b\<rparr>))\<lparr>ext_flag := ext_flag k, altgr_down := altgr_down k\<rparr> = enqueue c k"
  by (simp_all add: enqueue_def kb_put_def)

text \<open>The keystrokes for a character: its key, its key with shift, or its key with AltGr.\<close>

definition key_of :: "bytes \<Rightarrow> u8 \<Rightarrow> nat option" where
  "key_of t c = first_idx (\<lambda>i. c \<noteq> 0 \<and> t ! i = c) 128"

definition keystrokes :: "bool \<Rightarrow> u8 \<Rightarrow> u8 list option" where
  "keystrokes german c =
     (let base = (if german then de_base else us_base); shift = (if german then de_shift else us_shift) in
      case key_of base c of
        Some i \<Rightarrow> Some [of_nat i, of_nat (i + 128)]
      | None \<Rightarrow>
          (case key_of shift c of
             Some i \<Rightarrow> Some [0x2A, of_nat i, of_nat (i + 128), 0xAA]
           | None \<Rightarrow>
               if german then
                 map_option (\<lambda>i. [0xE0, 0x38, of_nat i, of_nat (i + 128), 0xE0, 0xB8]) (key_of de_altgr c)
               else None))"

lemma key_ofD: "key_of t c = Some i \<Longrightarrow> i < 128 \<and> t ! i = c \<and> c \<noteq> 0"
  by (auto simp: key_of_def first_idx_Some)

lemma plain_key_char:
  "table_char sc k = c \<Longrightarrow> c \<noteq> 0 \<Longrightarrow> c \<noteq> 3 \<Longrightarrow> \<not> ctrl_down k \<Longrightarrow> \<not> caps_lock k \<Longrightarrow> plain_key sc k = enqueue c k"
  by (simp add: plain_key_def ctrl_char_def caps_char_def)

lemma type_key:
  assumes "kb_idle k" and "keystrokes (kb_german k) c = Some ks"
  shows "foldl (\<lambda>k sc. on_scancode sc k) k ks = enqueue c k"
proof -
  define base where "base = (if kb_german k then de_base else us_base)"
  define shift where "shift = (if kb_german k then de_shift else us_shift)"
  note T = base_def shift_def
  have mem: "key_table base" "key_table shift" "key_table de_altgr"
    by (simp_all add: T key_tables)
  have flags: "\<not> shift_down k" "\<not> ctrl_down k" "\<not> caps_lock k" "\<not> altgr_down k" "\<not> ext_flag k"
    using assms(1) by (simp_all add: kb_idle_def)
  have key: "table_key i" "unat (of_nat i :: u8) = i" "t ! i = c" "c \<noteq> 0" "c \<noteq> 3"
    if "key_of t c = Some i" "key_table t" for t i
    using key_tableD [OF that(2), of i] key_ofD [OF that(1)] by (auto simp: table_key_def Let_def)
  consider (plain) i where "key_of base c = Some i" "ks = [of_nat i, of_nat (i + 128)]"
    | (shift) i where "key_of shift c = Some i" "ks = [0x2A, of_nat i, of_nat (i + 128), 0xAA]"
    | (altgr) i where "kb_german k" "key_of de_altgr c = Some i" "ks = [0xE0, 0x38, of_nat i, of_nat (i + 128), 0xE0, 0xB8]"
    using assms(2) by (auto simp: keystrokes_def T Let_def split: option.splits if_splits)
  then show ?thesis
  proof cases
    case plain
    note K = key [OF plain(1) mem(1)]
    have "plain_key (of_nat i) k = enqueue c k"
      using K flags by (intro plain_key_char) (auto simp: table_char_def T)
    then show ?thesis using K flags plain(2) press_table_key [OF K(1)] release_table_key [OF K(1)] by simp
  next
    case shift
    note K = key [OF shift(1) mem(2)]
    define k1 where "k1 = k\<lparr>shift_down := True\<rparr>"
    have "plain_key (of_nat i) k1 = enqueue c k1"
      using K flags by (intro plain_key_char) (auto simp: table_char_def T k1_def)
    moreover have "\<not> ext_flag k1" "on_scancode 0x2A k = k1" using flags by (simp_all add: k1_def modifier_keys)
    ultimately show ?thesis
      using K flags shift(2) press_table_key [OF K(1), of k1] release_table_key [OF K(1), of "enqueue c k1"]
        enqueue_flags(1) [where k = k and c = c and b = True] by (simp add: modifier_keys k1_def)
  next
    case altgr
    note K = key [OF altgr(2) mem(3)]
    define k1 where "k1 = k\<lparr>ext_flag := False, altgr_down := True\<rparr>"
    have "plain_key (of_nat i) k1 = enqueue c k1"
      using K flags altgr(1) by (intro plain_key_char) (simp_all add: table_char_def T k1_def)
    moreover have "\<not> ext_flag k1" "on_scancode 0x38 (on_scancode 0xE0 k) = k1" using flags by (simp_all add: k1_def modifier_keys)
    ultimately show ?thesis
      using K flags altgr(3) press_table_key [OF K(1), of k1] release_table_key [OF K(1), of "enqueue c k1"]
        enqueue_flags(2) [where k = k and c = c and x = False and b = True] by (simp add: modifier_keys k1_def)
  qed
qed

lemma type_keys:
  "kb_idle k \<Longrightarrow> \<forall>c\<in>set s. keystrokes (kb_german k) c \<noteq> None \<Longrightarrow>
   foldl (\<lambda>k sc. on_scancode sc k) k (concat (map (\<lambda>c. the (keystrokes (kb_german k) c)) s)) = foldl (\<lambda>k c. enqueue c k) k s"
proof (induction s arbitrary: k)
  case (Cons c s)
  then obtain ks where "keystrokes (kb_german k) c = Some ks" by auto
  with type_key [OF Cons.prems(1) this] Cons.IH [of "enqueue c k"] Cons.prems show ?case by simp
qed simp

text \<open>C10: with no modifier held and an empty queue, pressing and releasing the keys of a text of at most 63
  characters that the layout has keys for, shifted and AltGr characters included, makes as many calls of
  kb_trygetc return exactly that text, in order.\<close>

lemma kb_typed_text:
  assumes "kb_inv k" and "kb_idle k" and "kb_items k = []"
    and "length s \<le> 63" and "\<forall>c\<in>set s. keystrokes (kb_german k) c \<noteq> None"
  shows "get_keys P (\<lambda>h. (-1, h)) (length s)
      (foldl (\<lambda>k sc. on_scancode sc k) k (concat (map (\<lambda>c. the (keystrokes (kb_german k) c)) s))) h
    = map (\<lambda>b. int (unat b)) s"
  using fold_enqueue [OF assms(1), of s] get_keys_items [of "foldl (\<lambda>k c. enqueue c k) k s" P h] assms(3,4)
  by (simp add: type_keys [OF assms(2,5)])

lemma kb_typed_text_witness:
  "get_keys \<lparr>port_in = (\<lambda>p h. (0, h)), port_out = (\<lambda>p v h. h)\<rparr> (\<lambda>h. (-1, h)) 5
      (foldl (\<lambda>k sc. on_scancode sc k) (kb_set_layout (Some (lit ''de'')) kb_reset)
         (concat (map (\<lambda>c. the (keystrokes True c)) (lit ''A@z:q'')))) ()
    = map (\<lambda>b. int (unat b)) (lit ''A@z:q'')"
proof -
  let ?k = "kb_set_layout (Some (lit ''de'')) kb_reset"
  have "kb_inv ?k" "kb_idle ?k" "kb_items ?k = []" "kb_german ?k"
    by (simp_all add: kb_set_layout_def kb_reset_def kb_inv_def kb_idle_def kb_items_def ring_list_def KB_BUF_SIZE_def)
  moreover have "\<forall>c\<in>set (lit ''A@z:q''). keystrokes True c \<noteq> None" by code_simp
  moreover have "length (lit ''A@z:q'') = 5" by simp
  ultimately show ?thesis
    using kb_typed_text [of ?k "lit ''A@z:q''" "\<lparr>port_in = (\<lambda>p h. (0, h)), port_out = (\<lambda>p v h. h)\<rparr>" "()"] by (simp del: lit_simps)
qed

subsection \<open>What the German layout cannot type\<close>

lemma enqueue_items: "kb_inv k \<Longrightarrow> kb_inv (enqueue c k) \<and> set (kb_items (enqueue c k)) \<subseteq> insert c (set (kb_items k))"
  using kb_ring.put_some [of k c] by (cases "kb_put k c") (auto simp: enqueue_def)

text \<open>The changes of the flags leave the ring alone.\<close>

lemma flag_items [simp]:
  "kb_items (k\<lparr>shift_down := b\<rparr>) = kb_items k" "kb_items (k\<lparr>ctrl_down := b\<rparr>) = kb_items k"
  "kb_items (k\<lparr>caps_lock := b\<rparr>) = kb_items k" "kb_items (k\<lparr>altgr_down := b\<rparr>) = kb_items k"
  "kb_items (k\<lparr>ext_flag := b\<rparr>) = kb_items k" "kb_items (k\<lparr>g_intr := b\<rparr>) = kb_items k"
  "kb_inv (k\<lparr>shift_down := b\<rparr>) = kb_inv k" "kb_inv (k\<lparr>ctrl_down := b\<rparr>) = kb_inv k"
  "kb_inv (k\<lparr>caps_lock := b\<rparr>) = kb_inv k" "kb_inv (k\<lparr>altgr_down := b\<rparr>) = kb_inv k"
  "kb_inv (k\<lparr>ext_flag := b\<rparr>) = kb_inv k" "kb_inv (k\<lparr>g_intr := b\<rparr>) = kb_inv k"
  by (simp_all add: kb_items_def kb_inv_def)

text \<open>The bytes a scan code can queue.\<close>

definition key_bytes :: "u8 \<Rightarrow> kbd \<Rightarrow> u8 set" where
  "key_bytes sc k = {ext_key sc, f_key sc} \<union>
     {ctrl_char k' (caps_char k' (table_char sc k')) | k'. sc AND 0x80 = 0 \<and> kb_german k' = kb_german k}"

lemma on_scancode_items:
  assumes "kb_inv k"
  shows "kb_inv (on_scancode sc k) \<and> kb_german (on_scancode sc k) = kb_german k
    \<and> set (kb_items (on_scancode sc k)) \<subseteq> set (kb_items k) \<union> key_bytes sc k"
proof -
  define c where "c = ctrl_char k (caps_char k (table_char sc k))"
  have E: "kb_inv (enqueue b k') \<and> set (kb_items (enqueue b k')) \<subseteq> insert b (set (kb_items k))"
    if "k' \<in> {k, k\<lparr>ext_flag := False\<rparr>, k\<lparr>g_intr := True\<rparr>}" for b k'
    using that assms enqueue_items [of k' b] by auto
  have plain: "kb_inv (plain_key sc k) \<and> kb_german (plain_key sc k) = kb_german k
    \<and> set (kb_items (plain_key sc k)) \<subseteq> insert c (set (kb_items k))"
    using E [of k c] E [of "k\<lparr>g_intr := True\<rparr>" c] assms unfolding plain_key_def Let_def c_def [symmetric]
    by (auto split: if_splits)
  show ?thesis
  proof (cases "sc AND 0x80 = 0 \<and> \<not> ext_flag k")
    case True
    then have "c \<in> key_bytes sc k" "f_key sc \<in> key_bytes sc k" by (auto simp: key_bytes_def c_def)
    then show ?thesis using True E [of k "f_key sc"] plain assms by (auto simp: on_scancode_def Let_def)
  next
    case False
    moreover have "ext_key sc \<in> key_bytes sc k" by (simp add: key_bytes_def)
    ultimately show ?thesis using E [of "k\<lparr>ext_flag := False\<rparr>" "ext_key sc"] assms by (auto simp: on_scancode_def Let_def)
  qed
qed

text \<open>Escape and the angle brackets.\<close>

definition de_missing :: "u8 set" where
  "de_missing = {27, of_char CHR ''<'', of_char CHR ''>''}"

lemma letter_nat: "is_low c \<longleftrightarrow> 97 \<le> unat c \<and> unat c \<le> 122" "is_up c \<longleftrightarrow> 65 \<le> unat c \<and> unat c \<le> 90"
  "c \<in> de_missing \<longleftrightarrow> unat c \<in> {27, 60, 62}"
  by (simp_all add: is_low_def is_up_def de_missing_def word_le_nat_alt word_unat_eq_iff)

lemma byte_shift:
  "32 \<le> unat c \<Longrightarrow> unat (c - 32) = unat c - 32" "unat c < 224 \<Longrightarrow> unat (c + 32) = unat c + 32"
  "97 \<le> unat c \<Longrightarrow> unat (c - 96) = unat c - 96" "65 \<le> unat c \<Longrightarrow> unat (c - 64) = unat c - 64" for c :: u8
  using unsigned_less [of c] by (simp_all add: unat_word_ariths unat_sub_if_size word_size word_le_nat_alt)

lemma letter_cases: "is_low c \<Longrightarrow> is_up (c - 32) \<and> \<not> is_up c" "is_up c \<Longrightarrow> is_low (c + 32) \<and> \<not> is_low c"
  by (auto simp: letter_nat byte_shift)

lemma letter_not_missing:
  "is_low c \<Longrightarrow> c \<notin> de_missing" "is_up c \<Longrightarrow> c \<notin> de_missing"
  "is_low c \<Longrightarrow> c - of_char CHR ''a'' + 1 \<notin> de_missing" "is_up c \<Longrightarrow> c - of_char CHR ''A'' + 1 \<notin> de_missing"
  by (auto simp: letter_nat byte_shift)

lemma shifted_not_missing: "c \<notin> de_missing \<Longrightarrow> ctrl_char k (caps_char k c) \<notin> de_missing"
proof -
  assume c: "c \<notin> de_missing"
  have caps: "caps_char k c \<notin> de_missing"
  proof (cases "is_low c \<or> is_up c")
    case True
    then have "is_low (caps_char k c) \<or> is_up (caps_char k c)"
      using letter_cases [of c] by (auto simp: caps_char_def)
    then show ?thesis using letter_not_missing by blast
  next
    case False
    with c show ?thesis by (simp add: caps_char_def)
  qed
  then show ?thesis using letter_not_missing [of "caps_char k c"] by (simp add: ctrl_char_def)
qed

lemma de_tables_lack: "set (de_base @ de_shift @ de_altgr) \<inter> de_missing = {}"
proof -
  have "list_all (\<lambda>c. c \<notin> de_missing) (de_base @ de_shift @ de_altgr)" by code_simp
  then show ?thesis by (auto simp: list_all_iff)
qed

lemma unat_no_high_bit: "sc AND 0x80 = 0 \<Longrightarrow> unat sc < 128" for sc :: u8
proof -
  assume a: "sc AND 0x80 = 0"
  have "\<not> bit (sc AND 0x80) 7" using a by simp
  then show ?thesis by (intro byte_low) (simp add: bit_simps)
qed

lemma special_keys_lack: "ext_key sc \<notin> de_missing" "f_key sc \<notin> de_missing"
  by (auto simp: ext_key_def f_key_def switch_byte_def de_missing_def kb_codes)

lemma key_bytes_de: "kb_german k \<Longrightarrow> key_bytes sc k \<inter> de_missing = {}"
proof -
  assume g: "kb_german k"
  have "ctrl_char k' (caps_char k' (table_char sc k')) \<notin> de_missing" if "sc AND 0x80 = 0" "kb_german k'" for k'
  proof -
    have "table_char sc k' \<in> set (de_base @ de_shift @ de_altgr)"
      using that(2) unat_no_high_bit [OF that(1)] by (auto simp: table_char_def de_base_def de_shift_def de_altgr_def Let_def intro!: nth_mem)
    then show ?thesis using de_tables_lack by (intro shifted_not_missing) blast
  qed
  then show ?thesis using g special_keys_lack by (auto simp: key_bytes_def)
qed

lemma de_never_queued:
  "kb_inv k \<Longrightarrow> kb_german k \<Longrightarrow> set (kb_items k) \<inter> de_missing = {} \<Longrightarrow>
   kb_inv (foldl (\<lambda>k sc. on_scancode sc k) k scs) \<and> set (kb_items (foldl (\<lambda>k sc. on_scancode sc k) k scs)) \<inter> de_missing = {}"
proof (induction scs arbitrary: k)
  case (Cons sc scs)
  then show ?case using on_scancode_items [of k sc] key_bytes_de [of k sc] Cons.IH [of "on_scancode sc k"] by auto
qed simp

text \<open>with the German layout no sequence of scan codes puts Escape, \<open><\<close> or \<open>>\<close> into the queue, so a user cannot
  leave the insert mode of the editor or redirect output: the tables have no entry for key 0x01 nor for 0x56.\<close>

lemma de_no_escape:
  "set (kb_items (foldl (\<lambda>k sc. on_scancode sc k) (kb_set_layout (Some (lit ''de'')) kb_reset) scs))
    \<inter> {27, of_char CHR ''<'', of_char CHR ''>''} = {}"
  using de_never_queued [of "kb_set_layout (Some (lit ''de'')) kb_reset" scs]
  by (simp add: de_missing_def kb_set_layout_def kb_reset_def kb_inv_def kb_items_def ring_list_def KB_BUF_SIZE_def)

text \<open>The byte of a small umlaut is also the byte of a key outside ASCII: what is queued is the same.\<close>

lemma umlauts_are_keys:
  "kb_idle k \<Longrightarrow> kb_german k \<Longrightarrow> on_scancode 0x1A k = on_scancode 0x50 (on_scancode 0xE0 k)"
  "kb_idle k \<Longrightarrow> kb_german k \<Longrightarrow> on_scancode 0x28 k = on_scancode 0x53 (on_scancode 0xE0 k)"
  "kb_idle k \<Longrightarrow> kb_german k \<Longrightarrow> on_scancode 0x27 k = on_scancode 0x3F k"
proof -
  have t: "de_base ! 0x1A = 0x81" "de_base ! 0x28 = 0x84" "de_base ! 0x27 = 0x94"
    by code_simp+
  have f: "f_key 0x1A = 0" "f_key 0x28 = 0" "f_key 0x27 = 0" "f_key 0x3F = 0x94" "ext_key 0x50 = 0x81" "ext_key 0x53 = 0x84"
    by code_simp+
  have "enqueue c (k\<lparr>ext_flag := False\<rparr>) = enqueue c k" if "kb_idle k" for c
    using that by (cases k) (simp add: kb_idle_def)
  with t f show "kb_idle k \<Longrightarrow> kb_german k \<Longrightarrow> on_scancode 0x1A k = on_scancode 0x50 (on_scancode 0xE0 k)"
    "kb_idle k \<Longrightarrow> kb_german k \<Longrightarrow> on_scancode 0x28 k = on_scancode 0x53 (on_scancode 0xE0 k)"
    "kb_idle k \<Longrightarrow> kb_german k \<Longrightarrow> on_scancode 0x27 k = on_scancode 0x3F k"
    by (auto simp: on_scancode_def plain_key_def table_char_def kb_idle_def ctrl_char_def caps_char_def Let_def)
qed

end
