(* ===== verification/UsbHid.thy ===== *)
theory UsbHid
  imports Keyboard
begin

text \<open>
  The polled USB keyboard and mouse of kernel/drv/usb.c: each has a transfer descriptor and a queue head
  the controller works on; when a descriptor is no longer active its report is taken and it is submitted
  again. The addresses the linker gives to the static structures are the function adr. What the
  controller itself does (clear the active bit, store a report) is a change of the state between calls.
\<close>

definition TD_CS_ACTIVE :: u32 where "TD_CS_ACTIVE = push_bit 23 1"
definition TD_CS_ERRCNT :: "u32 \<Rightarrow> u32" where "TD_CS_ERRCNT n = push_bit 27 n"
definition TD_CS_LS :: u32 where "TD_CS_LS = push_bit 26 1"
definition PID_IN :: u8 where "PID_IN = 0x69"

definition make_token :: "u8 \<Rightarrow> u8 \<Rightarrow> u8 \<Rightarrow> u8 \<Rightarrow> u16 \<Rightarrow> u32" where
  "make_token pid addr ep tog len =
     (let maxlen = (if len = 0 then 0x7FF else ucast len - 1) in
      ucast pid OR push_bit 8 (ucast addr) OR push_bit 15 (ucast ep) OR push_bit 19 (ucast tog) OR push_bit 21 maxlen)"

definition LP_TERMINATE :: u32 where "LP_TERMINATE = 1"
definition LP_QH :: u32 where "LP_QH = 2"
definition LP_TD :: "u32 \<Rightarrow> u32" where "LP_TD a = a AND NOT 0x0F"
definition LP_QH_PTR :: "u32 \<Rightarrow> u32" where "LP_QH_PTR a = LP_TD a OR LP_QH"

record uhci_td =
  td_link :: u32
  td_ctlsts :: u32
  td_token :: u32
  td_buffer :: u32

record uhci_qh =
  qh_head :: u32
  qh_element :: u32

datatype usb_obj = g_kbd_qh | g_kbd_td | g_kbd_report | g_mouse_qh | g_mouse_td | g_mouse_report

text \<open>An endpoint that is polled: what enumeration found, its descriptor and queue head, its report.\<close>

record hid_ep =
  hid_found :: bool
  hid_addr :: u8
  hid_ep_num :: u8
  hid_maxp :: u8
  hid_ls :: bool
  hid_tog :: u8
  hid_td :: uhci_td
  hid_qh :: uhci_qh
  hid_report :: bytes

record usb_hid =
  usb_kbd :: hid_ep
  usb_mouse :: hid_ep
  prev_report :: bytes
  usb_buf :: bytes
  usb_head :: nat
  usb_tail :: nat
  mouse_dx :: u32
  mouse_dy :: u32
  mouse_btn :: u8
  frame_list :: "u32 list"

subsection \<open>Submitting a transfer\<close>

text \<open>The descriptor and queue head of an endpoint, as both submit functions fill them.\<close>

definition submit_ep :: "u32 \<Rightarrow> u32 \<Rightarrow> u32 \<Rightarrow> hid_ep \<Rightarrow> hid_ep" where
  "submit_ep td report head e =
     e\<lparr>hid_td := \<lparr>td_link = LP_TERMINATE, td_ctlsts = TD_CS_ERRCNT 3 OR (if hid_ls e then TD_CS_LS else 0) OR TD_CS_ACTIVE,
         td_token = make_token PID_IN (hid_addr e) (hid_ep_num e) (hid_tog e) (ucast (hid_maxp e)), td_buffer = report\<rparr>,
       hid_qh := \<lparr>qh_head = head, qh_element = LP_TD td\<rparr>\<rparr>"

definition kbd_td_submit :: "(usb_obj \<Rightarrow> u32) \<Rightarrow> usb_hid \<Rightarrow> usb_hid" where
  "kbd_td_submit adr u =
     u\<lparr>usb_kbd := submit_ep (adr g_kbd_td) (adr g_kbd_report) LP_TERMINATE (usb_kbd u),
       frame_list := replicate 1024 (LP_QH_PTR (adr g_kbd_qh))\<rparr>"

definition mouse_td_submit :: "(usb_obj \<Rightarrow> u32) \<Rightarrow> usb_hid \<Rightarrow> usb_hid" where
  "mouse_td_submit adr u =
     u\<lparr>usb_mouse := submit_ep (adr g_mouse_td) (adr g_mouse_report)
          (if hid_found (usb_kbd u) then LP_QH_PTR (adr g_kbd_qh) else LP_TERMINATE) (usb_mouse u),
       frame_list := replicate 1024 (LP_QH_PTR (adr g_mouse_qh))\<rparr>"

subsection \<open>The keyboard\<close>

definition hid_to_kbcode :: bytes where
  "hid_to_kbcode = byte_table 256
     [(0x04, lit ''abcdefghijklmnopqrstuvwxyz1234567890'' @ [10, 27, 8, 9] @ lit '' -=[]'' @ [0x5C, 0] @ lit '';'' @ [0x27] @ lit ''`,./''),
      (0x3A, [0x90, 0x91, 0x92, 0x93, 0x94])]"

definition hid_to_kbcode_shift :: bytes where
  "hid_to_kbcode_shift = byte_table 256
     [(0x04, lit ''ABCDEFGHIJKLMNOPQRSTUVWXYZ!@#$%^&*()'' @ [10, 27, 8, 9] @ lit '' _+{}|'' @ [0] @ lit '':'' @ [0x22] @ lit ''~<>?''),
      (0x3A, [0x90, 0x91, 0x92, 0x93, 0x94])]"

definition hid_nav :: "u8 \<Rightarrow> u8" where
  "hid_nav = switch_byte
     [(0x4F, 0x83), (0x50, 0x82), (0x51, 0x81), (0x52, 0x80), (0x4A, 0x85), (0x4D, 0x86), (0x4B, 0x87), (0x4E, 0x88), (0x4C, 0x84)]"

definition USB_BUF :: nat where "USB_BUF = 64"

definition usb_put :: "usb_hid \<Rightarrow> u8 \<Rightarrow> usb_hid option" where
  "usb_put u c = (let nx = (usb_head u + 1) mod USB_BUF in
     if nx = usb_tail u then None else Some (u\<lparr>usb_buf := (usb_buf u)[usb_head u := c], usb_head := nx\<rparr>))"

definition usb_enqueue :: "u8 \<Rightarrow> usb_hid \<Rightarrow> usb_hid" where
  "usb_enqueue c u = (case usb_put u c of None \<Rightarrow> u | Some u' \<Rightarrow> u')"

definition usb_get :: "usb_hid \<Rightarrow> (u8 \<times> usb_hid) option" where
  "usb_get u = (if usb_head u = usb_tail u then None
     else Some (usb_buf u ! usb_tail u, u\<lparr>usb_tail := (usb_tail u + 1) mod USB_BUF\<rparr>))"

text \<open>The character of a usage code: the table of the shift state, else a navigation key.\<close>

definition usage_char :: "bool \<Rightarrow> u8 \<Rightarrow> u8" where
  "usage_char shift usage =
     (let c = (if shift then hid_to_kbcode_shift else hid_to_kbcode) ! unat usage in if c = 0 then hid_nav usage else c)"

definition report_shift :: "bytes \<Rightarrow> bool" where
  "report_shift r \<longleftrightarrow> r ! 0 AND 0x22 \<noteq> 0"

text \<open>Whether a key was already in a report.\<close>

definition key_held :: "bytes \<Rightarrow> u8 \<Rightarrow> bool" where
  "key_held prev usage \<longleftrightarrow> (\<exists>j\<in>set [2..<8]. prev ! j = usage)"

text \<open>One of the six key slots of a report: queued when it was not in the report before.\<close>

definition report_key :: "bytes \<Rightarrow> bytes \<Rightarrow> nat \<Rightarrow> usb_hid \<Rightarrow> usb_hid" where
  "report_key prev r i u =
     (let usage = r ! i in
      if usage = 0 then u
      else if key_held prev usage then u
      else let c = usage_char (report_shift r) usage in if c \<noteq> 0 then usb_enqueue c u else u)"

definition take_report :: "usb_hid \<Rightarrow> usb_hid" where
  "take_report u =
     (let r = hid_report (usb_kbd u) in
      (foldl (\<lambda>v i. report_key (prev_report u) r i v) u [2..<8])\<lparr>prev_report := r\<rparr>)"

definition td_active :: "uhci_td \<Rightarrow> bool" where
  "td_active td \<longleftrightarrow> td_ctlsts td AND TD_CS_ACTIVE \<noteq> 0"

definition usb_kbd_trygetc :: "(usb_obj \<Rightarrow> u32) \<Rightarrow> usb_hid \<Rightarrow> int \<times> usb_hid" where
  "usb_kbd_trygetc adr u =
     (if \<not> hid_found (usb_kbd u) then (-1, u)
      else
        let u1 = (if \<not> td_active (hid_td (usb_kbd u)) then
                    (let v = take_report u in
                     kbd_td_submit adr (v\<lparr>usb_kbd := (usb_kbd v)\<lparr>hid_tog := hid_tog (usb_kbd v) XOR 1\<rparr>\<rparr>))
                  else u)
        in case usb_get u1 of None \<Rightarrow> (-1, u1) | Some (c, u2) \<Rightarrow> (int (unat c), u2))"

subsection \<open>The mouse\<close>

definition usb_mouse_present :: "usb_hid \<Rightarrow> bool" where
  "usb_mouse_present u = hid_found (usb_mouse u)"

text \<open>The accumulated motion is handed out and cleared; all three out-parameters are given.\<close>

definition usb_mouse_poll :: "(usb_obj \<Rightarrow> u32) \<Rightarrow> usb_hid \<Rightarrow> u32 \<times> u32 \<times> u8 \<times> usb_hid" where
  "usb_mouse_poll adr u =
     (if \<not> hid_found (usb_mouse u) then (0, 0, 0, u)
      else
        let m = usb_mouse u;
            u1 = (if \<not> td_active (hid_td m) then
                    mouse_td_submit adr
                      (u\<lparr>mouse_btn := hid_report m ! 0, mouse_dx := mouse_dx u + scast (hid_report m ! 1),
                         mouse_dy := mouse_dy u + scast (hid_report m ! 2),
                         usb_mouse := m\<lparr>hid_tog := hid_tog m XOR 1\<rparr>\<rparr>)
                  else u)
        in (mouse_dx u1, mouse_dy u1, mouse_btn u1, u1\<lparr>mouse_dx := 0, mouse_dy := 0\<rparr>))"

subsection \<open>Facts\<close>

definition usb_items :: "usb_hid \<Rightarrow> bytes" where
  "usb_items u = ring_list USB_BUF (usb_buf u) (usb_head u) (usb_tail u)"

definition usb_inv :: "usb_hid \<Rightarrow> bool" where
  "usb_inv u \<longleftrightarrow> usb_head u < USB_BUF \<and> usb_tail u < USB_BUF \<and> length (usb_buf u) = USB_BUF"

interpretation usb_ring: byte_queue usb_put usb_get usb_items usb_inv "USB_BUF - 1"
proof
  fix u u' :: usb_hid and b
  assume "usb_inv u"
  then have h: "usb_head u < USB_BUF" and t: "usb_tail u < USB_BUF" and l: "length (usb_buf u) = USB_BUF"
    by (simp_all add: usb_inv_def)
  have n: "(i + 1) mod USB_BUF < USB_BUF" for i by (simp add: USB_BUF_def)
  show "usb_put u b = None \<longleftrightarrow> length (usb_items u) = USB_BUF - 1"
    using ring_full [OF h t, of "usb_buf u"] by (simp add: usb_put_def usb_items_def Let_def)
  show "usb_inv u' \<and> usb_items u' = usb_items u @ [b]" if "usb_put u b = Some u'"
    using that h t l n ring_append [OF h t _ l, of b]
    by (auto simp: usb_put_def usb_inv_def usb_items_def Let_def split: if_splits)
  show "usb_get u = None \<longleftrightarrow> usb_items u = []"
    using ring_empty [OF h t, of "usb_buf u"] by (simp add: usb_get_def usb_items_def)
  show "usb_inv u' \<and> usb_items u = b # usb_items u'" if "usb_get u = Some (b, u')"
    using that h t l n ring_cons [OF h t, of "usb_buf u"]
    by (auto simp: usb_get_def usb_inv_def usb_items_def split: if_splits)
  show "length (usb_items u) \<le> USB_BUF - 1"
    using ring_length [OF h t, of "usb_buf u"] h t by (auto simp: usb_items_def USB_BUF_def split: if_splits)
qed

text \<open>The keys a report adds: the usages not in the report before, as characters.\<close>

definition new_keys :: "bytes \<Rightarrow> bytes \<Rightarrow> bytes" where
  "new_keys prev r = filter (\<lambda>c. c \<noteq> 0) (map (usage_char (report_shift r))
     (filter (\<lambda>b. b \<noteq> 0 \<and> b \<notin> set (drop 2 prev)) (drop 2 r)))"

text \<open>What a queue head reaches from the frame list.\<close>

definition mouse_scheduled :: "(usb_obj \<Rightarrow> u32) \<Rightarrow> usb_hid \<Rightarrow> bool" where
  "mouse_scheduled adr u \<longleftrightarrow> LP_QH_PTR (adr g_mouse_qh) \<in> set (frame_list u)
     \<or> (LP_QH_PTR (adr g_kbd_qh) \<in> set (frame_list u) \<and> qh_head (hid_qh (usb_kbd u)) = LP_QH_PTR (adr g_mouse_qh))"

lemma foldl_report_map:
  "foldl (\<lambda>u i. report_key prev r i u) u is =
   foldl (\<lambda>u c. usb_enqueue c u) u (filter (\<lambda>c. c \<noteq> 0) (map (usage_char (report_shift r))
     (filter (\<lambda>b. b \<noteq> 0 \<and> \<not> key_held prev b) (map (\<lambda>i. r ! i) is))))"
  by (induction "is" arbitrary: u) (simp_all add: report_key_def Let_def)

lemma enqueue_usb_items:
  "usb_inv u \<Longrightarrow> usb_inv (foldl (\<lambda>u c. usb_enqueue c u) u s)
    \<and> usb_items (foldl (\<lambda>u c. usb_enqueue c u) u s) = usb_items u @ take (63 - length (usb_items u)) s"
proof (induction s arbitrary: u)
  case (Cons c s)
  show ?case
  proof (cases "usb_put u c")
    case None
    then have "length (usb_items u) = 63" using usb_ring.put_full [OF Cons.prems] by (simp add: USB_BUF_def)
    with Cons.IH [OF Cons.prems] None show ?thesis by (simp add: usb_enqueue_def)
  next
    case (Some u')
    then have "length (usb_items u) \<noteq> 63" using usb_ring.put_full [OF Cons.prems, of c] by (simp add: USB_BUF_def)
    moreover have "length (usb_items u) \<le> 63" using usb_ring.in_cap [OF Cons.prems] by (simp add: USB_BUF_def)
    ultimately have "63 - length (usb_items u) = Suc (62 - length (usb_items u))" by simp
    with Cons.IH [of u'] usb_ring.put_some [OF Cons.prems Some] Some show ?thesis by (simp add: usb_enqueue_def)
  qed
qed simp

lemma take_report_items:
  assumes "usb_inv u" and "length (prev_report u) = 8" and "length (hid_report (usb_kbd u)) = 8"
  shows "usb_inv (take_report u) \<and> usb_items (take_report u)
    = usb_items u @ take (63 - length (usb_items u)) (new_keys (prev_report u) (hid_report (usb_kbd u)))"
proof -
  let ?p = "prev_report u" and ?r = "hid_report (usb_kbd u)"
  have six: "drop 2 x = map (\<lambda>i. x ! i) [2..<8]" if "length x = 8" for x :: bytes
    by (rule nth_equalityI) (use that in \<open>auto simp del: upt_rec_numeral\<close>)
  have n: "filter (\<lambda>c. c \<noteq> 0) (map (usage_char (report_shift ?r))
       (filter (\<lambda>b. b \<noteq> 0 \<and> \<not> key_held ?p b) (map (\<lambda>i. ?r ! i) [2..<8]))) = new_keys ?p ?r"
    unfolding new_keys_def six [OF assms(2)] six [OF assms(3)]
    by (rule arg_cong [where f = "\<lambda>q. filter (\<lambda>c. c \<noteq> 0) (map (usage_char (report_shift ?r)) q)"], rule filter_cong) (auto simp: key_held_def image_iff Bex_def simp del: upt_rec_numeral)
  have "usb_inv (v\<lparr>prev_report := q\<rparr>) = usb_inv v" "usb_items (v\<lparr>prev_report := q\<rparr>) = usb_items v" for v q
    by (simp_all add: usb_inv_def usb_items_def)
  then show ?thesis
    using enqueue_usb_items [OF assms(1), of "new_keys ?p ?r"] unfolding take_report_def Let_def foldl_report_map n by (simp del: upt_rec_numeral)
qed

lemma usb_kbd_report:
  assumes "usb_inv u" and "hid_found (usb_kbd u)" and "\<not> td_active (hid_td (usb_kbd u))"
    and "length (prev_report u) = 8" and "length (hid_report (usb_kbd u)) = 8"
    and "q = usb_items u @ take (63 - length (usb_items u)) (new_keys (prev_report u) (hid_report (usb_kbd u)))"
    and "usb_kbd_trygetc adr u = (c, u')"
  shows "c = (case q of [] \<Rightarrow> -1 | b # _ \<Rightarrow> int (unat b))" and "usb_items u' = tl q" and "usb_inv u'"
    and "td_active (hid_td (usb_kbd u'))" and "hid_tog (usb_kbd u') = hid_tog (usb_kbd u) XOR 1"
    and "prev_report u' = hid_report (usb_kbd u)"
proof -
  let ?v = "take_report u"
  define w where "w = kbd_td_submit adr (?v\<lparr>usb_kbd := (usb_kbd ?v)\<lparr>hid_tog := hid_tog (usb_kbd ?v) XOR 1\<rparr>\<rparr>)"
  have enq: "usb_kbd (usb_enqueue b x) = usb_kbd x" for b x by (auto simp: usb_enqueue_def usb_put_def Let_def)
  have kbd: "usb_kbd (foldl (\<lambda>u c. usb_enqueue c u) x s) = usb_kbd x" for x s
    by (induction s arbitrary: x) (simp_all add: enq)
  have fields: "usb_kbd ?v = usb_kbd u" "prev_report ?v = hid_report (usb_kbd u)"
    by (simp_all add: take_report_def foldl_report_map kbd Let_def del: upt_rec_numeral)
  have wi: "usb_inv w" "usb_items w = q"
    using take_report_items [OF assms(1,4,5)] assms(6) by (simp_all add: w_def kbd_td_submit_def usb_inv_def usb_items_def)
  have wt: "td_active (hid_td (usb_kbd w))" "hid_tog (usb_kbd w) = hid_tog (usb_kbd u) XOR 1" "prev_report w = hid_report (usb_kbd u)"
    by (simp_all add: w_def kbd_td_submit_def submit_ep_def fields td_active_def bit.conj_disj_distrib2 TD_CS_ACTIVE_def TD_CS_ERRCNT_def TD_CS_LS_def)
  have r: "(c, u') = (case usb_get w of None \<Rightarrow> (-1, w) | Some (c, u2) \<Rightarrow> (int (unat c), u2))"
    unfolding assms(7) [symmetric] using assms(2,3) by (simp only: usb_kbd_trygetc_def Let_def w_def if_False if_True simp_thms)
  have "c = (case q of [] \<Rightarrow> -1 | b # _ \<Rightarrow> int (unat b)) \<and> usb_items u' = tl q \<and> usb_inv u' \<and> usb_kbd u' = usb_kbd w
    \<and> prev_report u' = prev_report w"
  proof (cases "usb_get w")
    case None
    with wi usb_ring.get_none [OF wi(1)] r show ?thesis by simp
  next
    case (Some p)
    obtain b x where p: "p = (b, x)" by (cases p)
    then have "usb_kbd x = usb_kbd w" "prev_report x = prev_report w" using Some by (auto simp: usb_get_def split: if_splits)
    with wi usb_ring.get_some [OF wi(1), of b x] Some p r show ?thesis by (auto split: list.splits)
  qed
  with wt show "c = (case q of [] \<Rightarrow> -1 | b # _ \<Rightarrow> int (unat b))" "usb_items u' = tl q" "usb_inv u'"
    "td_active (hid_td (usb_kbd u'))" "hid_tog (usb_kbd u') = hid_tog (usb_kbd u) XOR 1" "prev_report u' = hid_report (usb_kbd u)"
    by simp_all
qed

text \<open>A keyboard that has just reported A and B with shift, A held from before, and a mouse that waits.\<close>

definition usb_sample_adr :: "usb_obj \<Rightarrow> u32" where
  "usb_sample_adr ob = (case ob of g_kbd_qh \<Rightarrow> 0x1000 | g_kbd_td \<Rightarrow> 0x1010 | g_kbd_report \<Rightarrow> 0x1020
     | g_mouse_qh \<Rightarrow> 0x1030 | g_mouse_td \<Rightarrow> 0x1040 | g_mouse_report \<Rightarrow> 0x1050)"

definition usb_sample_ep :: "u32 \<Rightarrow> bytes \<Rightarrow> hid_ep" where
  "usb_sample_ep cs r = \<lparr>hid_found = True, hid_addr = 1, hid_ep_num = 1, hid_maxp = 8, hid_ls = False, hid_tog = 0,
     hid_td = \<lparr>td_link = LP_TERMINATE, td_ctlsts = cs, td_token = 0, td_buffer = 0\<rparr>,
     hid_qh = \<lparr>qh_head = LP_TERMINATE, qh_element = LP_TERMINATE\<rparr>, hid_report = r\<rparr>"

definition usb_sample :: usb_hid where
  "usb_sample = \<lparr>usb_kbd = usb_sample_ep 0 [2, 0, 4, 5, 0, 0, 0, 0], usb_mouse = usb_sample_ep TD_CS_ACTIVE (replicate 8 0),
     prev_report = [0, 0, 4, 0, 0, 0, 0, 0], usb_buf = replicate 64 0, usb_head = 0, usb_tail = 0,
     mouse_dx = 0, mouse_dy = 0, mouse_btn = 0, frame_list = replicate 1024 (LP_QH_PTR (usb_sample_adr g_mouse_qh))\<rparr>"

lemma usb_sample_facts:
  "usb_inv usb_sample" "hid_found (usb_kbd usb_sample)" "\<not> td_active (hid_td (usb_kbd usb_sample))"
  "td_active (hid_td (usb_mouse usb_sample))" "length (prev_report usb_sample) = 8" "length (hid_report (usb_kbd usb_sample)) = 8"
  "usb_items usb_sample = []"
  by (simp_all add: usb_sample_def usb_sample_ep_def usb_inv_def USB_BUF_def td_active_def TD_CS_ACTIVE_def usb_items_def ring_list_def)

lemma usb_sample_keys: "new_keys (prev_report usb_sample) (hid_report (usb_kbd usb_sample)) = lit ''B''"
  by code_simp

text \<open>C16: when the USB keyboard has delivered a report, one call of usb_kbd_trygetc appends exactly the keys pressed
  since the previous report to the queue, a held key never twice and what the ring has no room for dropped, hands out
  the oldest, and arms the endpoint again with the other data toggle.\<close>

lemma usb_kbd_report_keys:
  assumes "usb_inv u" and "hid_found (usb_kbd u)" and "\<not> td_active (hid_td (usb_kbd u))"
    and "length (prev_report u) = 8" and "length (hid_report (usb_kbd u)) = 8"
    and "q = usb_items u @ take (63 - length (usb_items u)) (new_keys (prev_report u) (hid_report (usb_kbd u)))"
    and "usb_kbd_trygetc adr u = (c, u')"
  shows "c = (case q of [] \<Rightarrow> -1 | b # _ \<Rightarrow> int (unat b)) \<and> usb_items u' = tl q \<and> usb_inv u'
    \<and> td_active (hid_td (usb_kbd u')) \<and> hid_tog (usb_kbd u') = hid_tog (usb_kbd u) XOR 1
    \<and> prev_report u' = hid_report (usb_kbd u)"
  using usb_kbd_report [OF assms] by blast

lemma usb_kbd_report_keys_witness:
  "\<exists>u'. usb_kbd_trygetc usb_sample_adr usb_sample = (66, u') \<and> usb_items u' = [] \<and> td_active (hid_td (usb_kbd u'))"
proof -
  obtain c u' where t: "usb_kbd_trygetc usb_sample_adr usb_sample = (c, u')" by (cases "usb_kbd_trygetc usb_sample_adr usb_sample")
  from usb_kbd_report_keys [OF usb_sample_facts(1-3,5,6) refl t] have "c = 66" "usb_items u' = []" "td_active (hid_td (usb_kbd u'))"
    by (simp_all add: usb_sample_facts(7) usb_sample_keys)
  with t show ?thesis by blast
qed

subsection \<open>The mouse drops off the schedule\<close>

text \<open>What happens to the two endpoints: the program polls one of them, or the controller completes a
  descriptor it can reach from the frame list.\<close>

inductive usb_step :: "(usb_obj \<Rightarrow> u32) \<Rightarrow> usb_hid \<Rightarrow> usb_hid \<Rightarrow> bool" for adr where
  kbd_poll: "usb_kbd_trygetc adr u = (c, u') \<Longrightarrow> usb_step adr u u'"
| mouse_poll: "usb_mouse_poll adr u = (dx, dy, b, u') \<Longrightarrow> usb_step adr u u'"
| kbd_done: "usb_step adr u (u\<lparr>usb_kbd := (usb_kbd u)\<lparr>hid_td := (hid_td (usb_kbd u))\<lparr>td_ctlsts := cs\<rparr>, hid_report := r\<rparr>\<rparr>)"
| mouse_done: "mouse_scheduled adr u \<Longrightarrow>
    usb_step adr u (u\<lparr>usb_mouse := (usb_mouse u)\<lparr>hid_td := (hid_td (usb_mouse u))\<lparr>td_ctlsts := cs\<rparr>, hid_report := r\<rparr>\<rparr>)"

text \<open>The mouse is off the schedule and waits for a completion.\<close>

definition mouse_lost :: "(usb_obj \<Rightarrow> u32) \<Rightarrow> usb_hid \<Rightarrow> bool" where
  "mouse_lost adr u \<longleftrightarrow> set (frame_list u) = {LP_QH_PTR (adr g_kbd_qh)} \<and> qh_head (hid_qh (usb_kbd u)) = LP_TERMINATE
     \<and> td_active (hid_td (usb_mouse u))"

lemma enqueue_usb_fields:
  "usb_mouse (usb_enqueue c u) = usb_mouse u" "frame_list (usb_enqueue c u) = frame_list u" "usb_kbd (usb_enqueue c u) = usb_kbd u"
  by (auto simp: usb_enqueue_def usb_put_def Let_def)

lemma take_report_fields:
  "usb_mouse (take_report u) = usb_mouse u" "frame_list (take_report u) = frame_list u" "usb_kbd (take_report u) = usb_kbd u"
proof -
  have "usb_mouse (foldl (\<lambda>u c. usb_enqueue c u) x s) = usb_mouse x \<and> frame_list (foldl (\<lambda>u c. usb_enqueue c u) x s) = frame_list x
    \<and> usb_kbd (foldl (\<lambda>u c. usb_enqueue c u) x s) = usb_kbd x" for x s
    by (induction s arbitrary: x) (simp_all add: enqueue_usb_fields)
  then show "usb_mouse (take_report u) = usb_mouse u" "frame_list (take_report u) = frame_list u" "usb_kbd (take_report u) = usb_kbd u"
    by (simp_all add: take_report_def foldl_report_map Let_def del: upt_rec_numeral)
qed

lemma usb_get_fields: "usb_get u = Some (c, u') \<Longrightarrow> usb_mouse u' = usb_mouse u \<and> frame_list u' = frame_list u \<and> usb_kbd u' = usb_kbd u"
  by (auto simp: usb_get_def split: if_splits)

text \<open>A completed keyboard report takes the mouse off, whatever it was before.\<close>

lemma kbd_poll_mouse:
  assumes "usb_kbd_trygetc adr u = (c, u')"
  shows "usb_mouse u' = usb_mouse u"
    and "hid_found (usb_kbd u) \<Longrightarrow> \<not> td_active (hid_td (usb_kbd u)) \<Longrightarrow>
      set (frame_list u') = {LP_QH_PTR (adr g_kbd_qh)} \<and> qh_head (hid_qh (usb_kbd u')) = LP_TERMINATE"
    and "\<not> (hid_found (usb_kbd u) \<and> \<not> td_active (hid_td (usb_kbd u))) \<Longrightarrow> frame_list u' = frame_list u \<and> usb_kbd u' = usb_kbd u"
  using assms by (auto simp: usb_kbd_trygetc_def kbd_td_submit_def submit_ep_def take_report_fields Let_def
    dest!: usb_get_fields split: if_splits option.splits)

lemma mouse_lost_off:
  assumes "LP_QH_PTR (adr g_mouse_qh) \<notin> {LP_QH_PTR (adr g_kbd_qh), LP_TERMINATE}" and "mouse_lost adr u"
  shows "\<not> mouse_scheduled adr u"
proof -
  have "LP_TERMINATE \<noteq> LP_QH_PTR (adr g_mouse_qh)" "LP_QH_PTR (adr g_mouse_qh) \<noteq> LP_QH_PTR (adr g_kbd_qh)"
    using assms(1) by auto
  with assms(2) show ?thesis by (simp add: mouse_lost_def mouse_scheduled_def)
qed

lemma mouse_lost_step:
  assumes "LP_QH_PTR (adr g_mouse_qh) \<notin> {LP_QH_PTR (adr g_kbd_qh), LP_TERMINATE}"
    and "usb_step adr u u'" and "mouse_lost adr u"
  shows "mouse_lost adr u' \<and> usb_mouse u' = usb_mouse u"
  using assms(2)
proof (cases rule: usb_step.cases)
  case (kbd_poll c)
  then show ?thesis using kbd_poll_mouse [OF kbd_poll] assms(3)
    by (cases "hid_found (usb_kbd u) \<and> \<not> td_active (hid_td (usb_kbd u))") (auto simp: mouse_lost_def)
next
  case (mouse_poll dx dy b)
  have "td_active (hid_td (usb_mouse u))" using assms(3) by (simp add: mouse_lost_def)
  then have "usb_mouse_poll adr u \<in> {(0, 0, 0, u), (mouse_dx u, mouse_dy u, mouse_btn u, u\<lparr>mouse_dx := 0, mouse_dy := 0\<rparr>)}"
    by (simp add: usb_mouse_poll_def Let_def)
  with mouse_poll have "u' = u \<or> u' = u\<lparr>mouse_dx := 0, mouse_dy := 0\<rparr>" by auto
  then show ?thesis using assms(3) by (elim disjE) (simp_all add: mouse_lost_def)
next
  case (kbd_done cs r)
  then show ?thesis using assms(3) by (simp add: mouse_lost_def)
next
  case (mouse_done cs r)
  moreover have "\<not> mouse_scheduled adr u" using mouse_lost_off [OF assms(1,3)] .
  ultimately show ?thesis by simp
qed

text \<open>C40: submitting the keyboard's transfer rewrites the whole frame list without the mouse. Once the keyboard
  has delivered a report while the mouse's transfer is still pending, no sequence of polls and controller steps
  ever puts the mouse back: its descriptor stays as it is and the controller cannot reach it. (A mouse transfer
  that had completed by then is submitted again by the next poll of the mouse.)\<close>

lemma usb_mouse_lost:
  assumes "LP_QH_PTR (adr g_mouse_qh) \<notin> {LP_QH_PTR (adr g_kbd_qh), LP_TERMINATE}"
    and "hid_found (usb_kbd u)" and "\<not> td_active (hid_td (usb_kbd u))" and "td_active (hid_td (usb_mouse u))"
    and "usb_kbd_trygetc adr u = (c, u1)" and "(usb_step adr)\<^sup>*\<^sup>* u1 u2"
  shows "\<not> mouse_scheduled adr u2 \<and> usb_mouse u2 = usb_mouse u"
proof -
  have "mouse_lost adr u1 \<and> usb_mouse u1 = usb_mouse u"
    using kbd_poll_mouse [OF assms(5)] assms(2-4) by (simp add: mouse_lost_def)
  with assms(6) have "mouse_lost adr u2 \<and> usb_mouse u2 = usb_mouse u"
    by (induction rule: rtranclp_induct) (auto dest: mouse_lost_step [OF assms(1)])
  then show ?thesis using mouse_lost_off [OF assms(1)] by simp
qed

lemma usb_mouse_lost_witness:
  "mouse_scheduled usb_sample_adr usb_sample \<and>
   \<not> mouse_scheduled usb_sample_adr (snd (usb_kbd_trygetc usb_sample_adr usb_sample))"
proof -
  obtain c u' where t: "usb_kbd_trygetc usb_sample_adr usb_sample = (c, u')" by (cases "usb_kbd_trygetc usb_sample_adr usb_sample")
  have "LP_QH_PTR (usb_sample_adr g_mouse_qh) \<notin> {LP_QH_PTR (usb_sample_adr g_kbd_qh), LP_TERMINATE}"
    by (simp add: usb_sample_adr_def LP_QH_PTR_def LP_TD_def LP_QH_def LP_TERMINATE_def)
  from usb_mouse_lost [OF this usb_sample_facts(2-4) t rtranclp.rtrancl_refl]
  have "\<not> mouse_scheduled usb_sample_adr u'" by blast
  moreover have "mouse_scheduled usb_sample_adr usb_sample" by (simp add: mouse_scheduled_def usb_sample_def)
  ultimately show ?thesis using t by simp
qed

end
