(* ===== verification/Mouse.thy ===== *)
theory Mouse
  imports UsbHid
begin

text \<open>
  The mouse driver of kernel/drv/mouse.c: three-byte packets of the PS/2 mouse and the motion of the USB
  mouse move one pointer, kept in eighths of a character cell and clamped to the screen.
\<close>

definition MS_SCALE :: int where "MS_SCALE = 8"

record mouse =
  ps2_ok :: bool
  ms_max_x :: int
  ms_max_y :: int
  ms_x :: int
  ms_y :: int
  ms_buttons :: u8
  ms_pkt :: bytes
  ms_phase :: nat

definition mouse_reset :: mouse where
  "mouse_reset = \<lparr>ps2_ok = False, ms_max_x = 80 * MS_SCALE - 1, ms_max_y = 25 * MS_SCALE - 1, ms_x = 40 * MS_SCALE,
     ms_y = 12 * MS_SCALE, ms_buttons = 0, ms_pkt = [0, 0, 0], ms_phase = 0\<rparr>"

definition mouse_ps2_present :: "mouse \<Rightarrow> bool" where
  "mouse_ps2_present m = ps2_ok m"

subsection \<open>Talking to the controller\<close>

text \<open>A bounded wait for a bit of the status port; whether it came, after at most n reads.\<close>

primrec ms_wait :: "nat \<Rightarrow> 'h ports \<Rightarrow> u8 \<Rightarrow> bool \<Rightarrow> 'h \<Rightarrow> bool \<times> 'h" where
  "ms_wait 0 P m want h = (False, h)"
| "ms_wait (Suc n) P m want h =
     (case inb P 0x64 h of (v, h1) \<Rightarrow> if (v AND m \<noteq> 0) = want then (True, h1) else ms_wait n P m want (io_wait P h1))"

definition ms_wait_in :: "'h ports \<Rightarrow> 'h \<Rightarrow> bool \<times> 'h" where
  "ms_wait_in P h = ms_wait 100000 P 0x02 False h"

definition ms_wait_out :: "'h ports \<Rightarrow> 'h \<Rightarrow> bool \<times> 'h" where
  "ms_wait_out P h = ms_wait 100000 P 0x01 True h"

text \<open>A write to a port once the input buffer is empty, a read once the output buffer is full; Inl on a timeout.\<close>

definition ms_send :: "'h ports \<Rightarrow> u16 \<Rightarrow> u8 \<Rightarrow> 'h \<Rightarrow> 'h + 'h" where
  "ms_send P port b h = (case ms_wait_in P h of (ok, h1) \<Rightarrow> if ok then Inr (outb P port b h1) else Inl h1)"

definition ms_write :: "'h ports \<Rightarrow> u8 \<Rightarrow> 'h \<Rightarrow> 'h + 'h" where
  "ms_write P b h = (case ms_send P 0x64 0xD4 h of Inl h1 \<Rightarrow> Inl h1 | Inr h1 \<Rightarrow> ms_send P 0x60 b h1)"

definition ms_read :: "'h ports \<Rightarrow> 'h \<Rightarrow> 'h + u8 \<times> 'h" where
  "ms_read P h = (case ms_wait_out P h of (ok, h1) \<Rightarrow> if ok then Inr (inb P 0x60 h1) else Inl h1)"

primrec ms_drain :: "nat \<Rightarrow> 'h ports \<Rightarrow> 'h \<Rightarrow> 'h" where
  "ms_drain 0 P h = h"
| "ms_drain (Suc n) P h =
     (case inb P 0x64 h of (v, h1) \<Rightarrow> if v AND 1 = 0 then h1 else ms_drain n P (snd (inb P 0x60 h1)))"

text \<open>The command sequence of mouse_init; Inl where it goes to fail.\<close>

definition mouse_setup :: "'h ports \<Rightarrow> 'h \<Rightarrow> 'h + 'h" where
  "mouse_setup P h =
     (case ms_send P 0x64 0xA8 (ms_drain 8 P h) of Inl h \<Rightarrow> Inl h | Inr h \<Rightarrow>
      case ms_send P 0x64 0x20 h of Inl h \<Rightarrow> Inl h | Inr h \<Rightarrow>
      case ms_read P h of Inl h \<Rightarrow> Inl h | Inr (ccb, h) \<Rightarrow>
      case ms_send P 0x64 0x60 h of Inl h \<Rightarrow> Inl h | Inr h \<Rightarrow>
      case ms_send P 0x60 ((ccb OR 0x02) AND NOT 0x20) h of Inl h \<Rightarrow> Inl h | Inr h \<Rightarrow>
      case ms_write P 0xF6 h of Inl h \<Rightarrow> Inl h | Inr h \<Rightarrow>
      case ms_read P h of Inl h \<Rightarrow> Inl h | Inr (ack, h) \<Rightarrow>
      case ms_write P 0xF4 h of Inl h \<Rightarrow> Inl h | Inr h \<Rightarrow>
      case ms_read P h of Inl h \<Rightarrow> Inl h | Inr (ack, h) \<Rightarrow> Inr h)"

definition mouse_init :: "'h ports \<Rightarrow> mouse \<Rightarrow> 'h \<Rightarrow> mouse \<times> 'h" where
  "mouse_init P m h =
     (case mouse_setup P h of Inl h1 \<Rightarrow> (m, h1) | Inr h1 \<Rightarrow> (m\<lparr>ms_phase := 0, ms_buttons := 0, ps2_ok := True\<rparr>, h1))"

subsection \<open>Moving the pointer\<close>

definition clamp :: "int \<Rightarrow> int \<Rightarrow> int" where
  "clamp hi n = (let n0 = (if n < 0 then 0 else n) in if hi < n0 then hi else n0)"

definition move_to :: "int \<Rightarrow> int \<Rightarrow> mouse \<Rightarrow> mouse" where
  "move_to nx ny m = m\<lparr>ms_x := clamp (ms_max_x m) nx, ms_y := clamp (ms_max_y m) ny\<rparr>"

text \<open>A byte of the mouse: the first of a packet must have bit 3 set; the third completes it.\<close>

definition mouse_byte :: "u8 \<Rightarrow> mouse \<Rightarrow> mouse" where
  "mouse_byte b m =
     (if ms_phase m = 0 \<and> b AND 0x08 = 0 then m
      else
        let m1 = m\<lparr>ms_pkt := (ms_pkt m)[ms_phase m := b], ms_phase := ms_phase m + 1\<rparr> in
        if 3 \<le> ms_phase m1 then
          let flags = ms_pkt m1 ! 0;
              dx = (if flags AND 0x40 \<noteq> 0 then 0 else sint (ms_pkt m1 ! 1));
              dy = (if flags AND 0x80 \<noteq> 0 then 0 else sint (ms_pkt m1 ! 2))
          in (move_to (ms_x m + dx) (ms_y m - dy) m1)\<lparr>ms_phase := 0, ms_buttons := flags AND 0x07\<rparr>
        else m1)"

text \<open>The interrupt handler drains the controller until it is empty or has a byte of the keyboard.\<close>

partial_function (option) on_irq12 :: "'h ports \<Rightarrow> mouse \<Rightarrow> 'h \<Rightarrow> (mouse \<times> 'h) option" where
  "on_irq12 P m h =
     (case inb P 0x64 h of (st, h1) \<Rightarrow>
        if st AND 0x01 = 0 then Some (m, h1)
        else case inb P 0x64 h1 of (status, h2) \<Rightarrow>
          if status AND 0x20 = 0 then Some (m, h2)
          else case inb P 0x60 h2 of (b, h3) \<Rightarrow> on_irq12 P (mouse_byte b m) h3)"

text \<open>mouse_get: the cell of the pointer and the buttons. C division truncates; the position is never negative.\<close>

definition mouse_get :: "(usb_obj \<Rightarrow> u32) \<Rightarrow> mouse \<Rightarrow> usb_hid \<Rightarrow> int \<times> int \<times> u8 \<times> mouse \<times> usb_hid" where
  "mouse_get adr m u =
     (case usb_mouse_poll adr u of (udx, udy, ubtn, u1) \<Rightarrow>
        let m1 = (if udx \<noteq> 0 \<or> udy \<noteq> 0 then move_to (sint (of_int (ms_x m) + udx)) (sint (of_int (ms_y m) - udy)) m else m);
            m2 = (if usb_mouse_present u1 then m1\<lparr>ms_buttons := ubtn\<rparr> else m1)
        in (ms_x m2 div MS_SCALE, ms_y m2 div MS_SCALE, ms_buttons m2, m2, u1))"

definition mouse_set_bounds :: "int \<Rightarrow> int \<Rightarrow> mouse \<Rightarrow> mouse" where
  "mouse_set_bounds cols rows m =
     (let mx = cols * MS_SCALE - 1; my = rows * MS_SCALE - 1 in
      m\<lparr>ms_max_x := mx, ms_max_y := my, ms_x := (if mx < ms_x m then mx else ms_x m), ms_y := (if my < ms_y m then my else ms_y m)\<rparr>)"

subsection \<open>The pointer stays on the screen\<close>

definition mouse_ok :: "mouse \<Rightarrow> bool" where
  "mouse_ok m \<longleftrightarrow> 0 \<le> ms_x m \<and> ms_x m \<le> ms_max_x m \<and> 0 \<le> ms_y m \<and> ms_y m \<le> ms_max_y m \<and> length (ms_pkt m) = 3 \<and> ms_phase m < 3"

lemma clamp_range: "0 \<le> hi \<Longrightarrow> 0 \<le> clamp hi n \<and> clamp hi n \<le> hi"
  by (simp add: clamp_def Let_def)

lemma move_to_ok: "mouse_ok m \<Longrightarrow> mouse_ok (move_to nx ny m)"
  using clamp_range [of "ms_max_x m" nx] clamp_range [of "ms_max_y m" ny] by (auto simp: mouse_ok_def move_to_def)

lemma mouse_byte_ok: "mouse_ok m \<Longrightarrow> mouse_ok (mouse_byte b m)"
proof -
  assume ok: "mouse_ok m"
  define m1 where "m1 = m\<lparr>ms_pkt := (ms_pkt m)[ms_phase m := b], ms_phase := ms_phase m + 1\<rparr>"
  have "0 \<le> ms_max_x m1" "0 \<le> ms_max_y m1" using ok by (auto simp: mouse_ok_def m1_def)
  then have c: "0 \<le> clamp (ms_max_x m1) nx \<and> clamp (ms_max_x m1) nx \<le> ms_max_x m1"
    "0 \<le> clamp (ms_max_y m1) ny \<and> clamp (ms_max_y m1) ny \<le> ms_max_y m1" for nx ny
    using clamp_range by blast+
  have l: "length (ms_pkt m1) = 3" using ok by (simp add: m1_def mouse_ok_def)
  then show ?thesis
    using ok c unfolding mouse_byte_def m1_def [symmetric] Let_def move_to_def
    by (auto simp: mouse_ok_def m1_def)
qed

inductive mouse_step :: "'h ports \<Rightarrow> (usb_obj \<Rightarrow> u32) \<Rightarrow> mouse \<Rightarrow> mouse \<Rightarrow> bool" for P adr where
  irq: "on_irq12 P m h = Some (m', h') \<Longrightarrow> mouse_step P adr m m'"
| poll: "mouse_get adr m u = (col, row, btn, m', u') \<Longrightarrow> mouse_step P adr m m'"
| bounds: "1 \<le> cols \<Longrightarrow> 1 \<le> rows \<Longrightarrow> mouse_step P adr m (mouse_set_bounds cols rows m)"

lemma on_irq12_ok:
  fixes P :: "'h ports"
  assumes "on_irq12 P m h = Some r" and "mouse_ok m"
  shows "mouse_ok (fst r)"
proof -
  let ?Q = "\<lambda>x r. mouse_ok (snd (fst x)) \<longrightarrow> mouse_ok (fst r)"
  have "?Q ((P, m), h) r"
  proof (rule on_irq12.raw_induct [where Pa = ?Q, OF _ assms(1)])
    fix f :: "'h ports \<Rightarrow> mouse \<Rightarrow> 'h \<Rightarrow> (mouse \<times> 'h) option" and P m h r
    assume ih: "\<And>P m h r. f P m h = Some r \<Longrightarrow> ?Q ((P, m), h) r"
    assume e: "(case inb P 0x64 h of (st, h1) \<Rightarrow>
        if st AND 0x01 = 0 then Some (m, h1)
        else case inb P 0x64 h1 of (status, h2) \<Rightarrow>
          if status AND 0x20 = 0 then Some (m, h2)
          else case inb P 0x60 h2 of (b, h3) \<Rightarrow> f P (mouse_byte b m) h3) = Some r"
    obtain st h1 where 1: "inb P 0x64 h = (st, h1)" by (cases "inb P 0x64 h")
    obtain status h2 where 2: "inb P 0x64 h1 = (status, h2)" by (cases "inb P 0x64 h1")
    obtain b h3 where 3: "inb P 0x60 h2 = (b, h3)" by (cases "inb P 0x60 h2")
    show "?Q ((P, m), h) r"
      using e 1 2 3 ih [of P "mouse_byte b m" h3 r] mouse_byte_ok [of m b] by (auto split: if_splits)
  qed
  with assms(2) show ?thesis by simp
qed

lemma mouse_get_ok:
  assumes "mouse_get adr m u = (col, row, btn, m', u')" and "mouse_ok m"
  shows "mouse_ok m' \<and> col = ms_x m' div MS_SCALE \<and> row = ms_y m' div MS_SCALE \<and> ms_max_x m' = ms_max_x m \<and> ms_max_y m' = ms_max_y m"
proof -
  obtain udx udy ubtn u1 where p: "usb_mouse_poll adr u = (udx, udy, ubtn, u1)" by (cases "usb_mouse_poll adr u")
  define m1 where "m1 = (if udx \<noteq> 0 \<or> udy \<noteq> 0 then move_to (sint (of_int (ms_x m) + udx)) (sint (of_int (ms_y m) - udy)) m else m)"
  have "mouse_ok m1" "ms_max_x m1 = ms_max_x m" "ms_max_y m1 = ms_max_y m"
    using assms(2) move_to_ok by (simp_all add: m1_def move_to_def) 
  moreover have "mouse_ok (m1\<lparr>ms_buttons := ubtn\<rparr>) = mouse_ok m1" by (simp add: mouse_ok_def)
  ultimately show ?thesis
    using assms(1) unfolding mouse_get_def p prod.case Let_def m1_def [symmetric] by (auto split: if_splits)
qed

lemma mouse_bounds_ok: "1 \<le> cols \<Longrightarrow> 1 \<le> rows \<Longrightarrow> mouse_ok m \<Longrightarrow> mouse_ok (mouse_set_bounds cols rows m)"
  by (auto simp: mouse_ok_def mouse_set_bounds_def MS_SCALE_def Let_def)

lemma mouse_step_ok: "mouse_step P adr m m' \<Longrightarrow> mouse_ok m \<Longrightarrow> mouse_ok m'"
proof (induction rule: mouse_step.induct)
  case (irq m h m' h')
  then show ?case using on_irq12_ok [OF irq(1)] by simp
next
  case (poll m u col row btn m' u')
  then show ?case using mouse_get_ok [OF poll(1)] by simp
qed (rule mouse_bounds_ok)

text \<open>C22: whatever packets the PS/2 mouse sends, whatever motion the USB mouse reports and however the screen is
  resized, the cell mouse_get returns lies on the screen.\<close>

lemma mouse_on_screen:
  assumes "(mouse_step P adr)\<^sup>*\<^sup>* mouse_reset m" and "mouse_get adr m u = (col, row, btn, m', u')"
  shows "0 \<le> col \<and> 8 * col \<le> ms_max_x m' \<and> 0 \<le> row \<and> 8 * row \<le> ms_max_y m'"
proof -
  have "mouse_ok mouse_reset" by (simp add: mouse_reset_def mouse_ok_def MS_SCALE_def)
  with assms(1) have "mouse_ok m" by (induction rule: rtranclp_induct) (auto dest: mouse_step_ok)
  from mouse_get_ok [OF assms(2) this] show ?thesis by (auto simp: mouse_ok_def MS_SCALE_def)
qed

abbreviation no_device :: "unit ports" where
  "no_device \<equiv> \<lparr>port_in = (\<lambda>p h. (0, h)), port_out = (\<lambda>p v h. h)\<rparr>"

lemma mouse_on_screen_witness:
  "\<exists>col row btn m' u'. mouse_get usb_sample_adr (mouse_set_bounds 10 5 mouse_reset) usb_sample = (col, row, btn, m', u')
     \<and> 0 \<le> col \<and> 8 * col \<le> ms_max_x m'"
proof -
  obtain col row btn m' u' where g: "mouse_get usb_sample_adr (mouse_set_bounds 10 5 mouse_reset) usb_sample = (col, row, btn, m', u')"
    by (cases "mouse_get usb_sample_adr (mouse_set_bounds 10 5 mouse_reset) usb_sample")
  have "(mouse_step no_device usb_sample_adr)\<^sup>*\<^sup>* mouse_reset (mouse_set_bounds 10 5 mouse_reset)"
    by (rule r_into_rtranclp, rule bounds) simp_all
  from mouse_on_screen [OF this g] g show ?thesis by blast
qed

end
