(* ===== verification/Rtc.thy ===== *)
theory Rtc
  imports Ports
begin

text \<open>
  The clock driver of kernel/drv/rtc.c over the index and data ports of the CMOS chip. What the code relies
  on of the chip is the predicate cmos_obeys: a register is read and written through the two ports.
\<close>

record rtc_time =
  rtc_sec :: u8
  rtc_min :: u8
  rtc_hour :: u8
  rtc_day :: u8
  rtc_month :: u8
  rtc_year :: u16

definition CMOS_INDEX :: u16 where "CMOS_INDEX = 0x70"
definition CMOS_DATA :: u16 where "CMOS_DATA = 0x71"

definition cmos_read :: "'h ports \<Rightarrow> u8 \<Rightarrow> 'h \<Rightarrow> u8 \<times> 'h" where
  "cmos_read P reg h = inb P CMOS_DATA (outb P CMOS_INDEX (reg OR 0x80) h)"

definition update_in_progress :: "'h ports \<Rightarrow> 'h \<Rightarrow> bool \<times> 'h" where
  "update_in_progress P h = (case cmos_read P 0x0A h of (v, h1) \<Rightarrow> (v AND 0x80 \<noteq> 0, h1))"

definition bcd_to_bin :: "u8 \<Rightarrow> u8" where
  "bcd_to_bin v = drop_bit 4 v * 10 + (v AND 0x0F)"

definition bin_to_bcd :: "u8 \<Rightarrow> u8" where
  "bin_to_bcd v = (push_bit 4 (v div 10) OR (v mod 10))"

text \<open>\<open>while (update_in_progress()) io_wait();\<close>\<close>

partial_function (option) wait_update :: "'h ports \<Rightarrow> 'h \<Rightarrow> 'h option" where
  "wait_update P h = (case update_in_progress P h of (busy, h1) \<Rightarrow> if busy then wait_update P (io_wait P h1) else Some h1)"

text \<open>The six registers of the time, in the order they are read: the year has two digits here.\<close>

definition read_fields :: "'h ports \<Rightarrow> 'h \<Rightarrow> u8 list \<times> 'h" where
  "read_fields P h = foldl (\<lambda>(vs, h) r. case cmos_read P r h of (v, h1) \<Rightarrow> (vs @ [v], h1)) ([], h)
     [0x00, 0x02, 0x04, 0x07, 0x08, 0x09]"

definition field_hour :: "bool \<Rightarrow> bool \<Rightarrow> u8 \<Rightarrow> u8" where
  "field_hour bcd h12 v =
     (let v1 = (if bcd then bcd_to_bin (v AND 0x7F) OR (v AND 0x80) else v) in
      if h12 \<and> v1 AND 0x80 \<noteq> 0 then ((v1 AND 0x7F) + 12) mod 24 else v1)"

definition full_year :: "u8 \<Rightarrow> u8 \<Rightarrow> u16" where
  "full_year century yr = (if 19 \<le> century \<and> century \<le> 22 then ucast century * 100 + ucast yr else 2000 + ucast yr)"

text \<open>The conversion of two equal readings, given register B and the century register.\<close>

definition decode_time :: "u8 \<Rightarrow> u8 \<Rightarrow> u8 list \<Rightarrow> rtc_time" where
  "decode_time reg_b century a =
     (let bcd = (reg_b AND 0x04 = 0); h12 = (reg_b AND 0x02 = 0); dec = (if bcd then bcd_to_bin else (\<lambda>v. v)) in
      \<lparr>rtc_sec = dec (a ! 0), rtc_min = dec (a ! 1), rtc_hour = field_hour bcd h12 (a ! 2), rtc_day = dec (a ! 3),
       rtc_month = dec (a ! 4), rtc_year = full_year (dec century) (dec (a ! 5))\<rparr>)"

definition rtc_zero :: rtc_time where
  "rtc_zero = \<lparr>rtc_sec = 0, rtc_min = 0, rtc_hour = 0, rtc_day = 0, rtc_month = 0, rtc_year = 0\<rparr>"

text \<open>rtc_read with n tries left; it starts with five.\<close>

primrec rtc_tries :: "nat \<Rightarrow> 'h ports \<Rightarrow> 'h \<Rightarrow> (rtc_time \<times> 'h) option" where
  "rtc_tries 0 P h = Some (rtc_zero, h)"
| "rtc_tries (Suc n) P h = do {
     h1 \<leftarrow> wait_update P h;
     (case read_fields P h1 of (a, h2) \<Rightarrow>
      case cmos_read P 0x32 h2 of (century, h3) \<Rightarrow> do {
        h4 \<leftarrow> wait_update P h3;
        (case read_fields P h4 of (b, h5) \<Rightarrow>
           if a = b then
             (case cmos_read P 0x0B h5 of (reg_b, h6) \<Rightarrow> Some (decode_time reg_b century a, h6))
           else rtc_tries n P h5) }) }"

definition rtc_read :: "'h ports \<Rightarrow> 'h \<Rightarrow> (rtc_time \<times> 'h) option" where
  "rtc_read P h = rtc_tries 5 P h"

text \<open>The bytes rtc_write stores, in the order of their registers.\<close>

definition encode_time :: "u8 \<Rightarrow> rtc_time \<Rightarrow> (u8 \<times> u8) list" where
  "encode_time reg_b t =
     (let enc = (if reg_b AND 0x04 = 0 then bin_to_bcd else (\<lambda>v. v)) in
      [(0x80, enc (rtc_sec t)), (0x82, enc (rtc_min t)), (0x84, enc (rtc_hour t)), (0x87, enc (rtc_day t)),
       (0x88, enc (rtc_month t)), (0x89, enc (ucast (rtc_year t mod 100))), (0xB2, enc (ucast (rtc_year t div 100)))])"

definition cmos_store :: "'h ports \<Rightarrow> (u8 \<times> u8) list \<Rightarrow> 'h \<Rightarrow> 'h" where
  "cmos_store P ws h = outs P (concat (map (\<lambda>(r, v). [(CMOS_INDEX, r), (CMOS_DATA, v)]) ws)) h"

definition rtc_write :: "'h ports \<Rightarrow> rtc_time \<Rightarrow> 'h \<Rightarrow> 'h" where
  "rtc_write P t h =
     (case cmos_read P 0x0B h of (reg_b, h1) \<Rightarrow>
        cmos_store P ([(0x8B, reg_b OR 0x80)] @ encode_time reg_b t @ [(0x8B, reg_b)]) h1)"

subsection \<open>Reading back what was written\<close>

text \<open>What the driver relies on: below 0x80, the index port selects the register the data port reads or writes.\<close>

definition cmos_obeys :: "'h ports \<Rightarrow> ('h \<Rightarrow> u8 \<Rightarrow> u8) \<Rightarrow> bool" where
  "cmos_obeys P regs \<longleftrightarrow>
     (\<forall>r h. r < 0x80 \<longrightarrow> fst (cmos_read P r h) = regs h r \<and> regs (snd (cmos_read P r h)) = regs h) \<and>
     (\<forall>r v h. r < 0x80 \<longrightarrow> regs (outb P CMOS_DATA v (outb P CMOS_INDEX (r OR 0x80) h)) = (regs h)(r := v))"

definition valid_time :: "rtc_time \<Rightarrow> bool" where
  "valid_time t \<longleftrightarrow> rtc_sec t < 60 \<and> rtc_min t < 60 \<and> rtc_hour t < 24 \<and> rtc_day t < 32 \<and> rtc_month t < 13
     \<and> 1900 \<le> rtc_year t \<and> rtc_year t < 2300"

lemma obeys_read: "cmos_obeys P regs \<Longrightarrow> r < 0x80 \<Longrightarrow> cmos_read P r h = (v, h1) \<Longrightarrow> v = regs h r \<and> regs h1 = regs h"
  unfolding cmos_obeys_def by (metis fst_conv snd_conv)

lemma obeys_write: "cmos_obeys P regs \<Longrightarrow> r < 0x80 \<Longrightarrow>
   regs (outb P CMOS_DATA v (outb P CMOS_INDEX (r OR 0x80) h)) = (regs h)(r := v)"
  by (simp add: cmos_obeys_def)

lemma obeys_store:
  "cmos_obeys P regs \<Longrightarrow> \<forall>(r, v)\<in>set ws. r < 0x80 \<Longrightarrow>
   regs (cmos_store P (map (\<lambda>(r, v). (r OR 0x80, v)) ws) h) = foldl (\<lambda>f (r, v). f(r := v)) (regs h) ws"
proof (induction ws arbitrary: h)
  case (Cons w ws)
  obtain r v where w: "w = (r, v)" by (cases w)
  with Cons.IH [OF Cons.prems(1), of "outb P CMOS_DATA v (outb P CMOS_INDEX (r OR 0x80) h)"] Cons.prems
    obeys_write [OF Cons.prems(1), of r v h]
  show ?case by (simp add: cmos_store_def del: fun_upd_apply)
qed (simp add: cmos_store_def)

lemma wait_update_idle:
  assumes "cmos_obeys P regs" and "regs h 0x0A AND 0x80 = 0"
  shows "\<exists>h1. wait_update P h = Some h1 \<and> regs h1 = regs h"
proof -
  obtain v h1 where c: "cmos_read P 0x0A h = (v, h1)" by (cases "cmos_read P 0x0A h")
  from obeys_read [OF assms(1) _ c] assms(2) c show ?thesis
    by (simp add: wait_update.simps [of P h] update_in_progress_def)
qed

lemma read_fields_obeys:
  assumes "cmos_obeys P regs"
  shows "\<exists>h1. read_fields P h = (map (regs h) [0x00, 0x02, 0x04, 0x07, 0x08, 0x09], h1) \<and> regs h1 = regs h"
proof -
  have "\<exists>h1. foldl (\<lambda>(vs, h) r. case cmos_read P r h of (v, h1) \<Rightarrow> (vs @ [v], h1)) (vs, h) rs = (vs @ map (regs h) rs, h1) \<and> regs h1 = regs h"
    if "\<forall>r\<in>set rs. r < 0x80" for vs rs
    using that
  proof (induction rs arbitrary: vs h)
    case (Cons r rs)
    obtain v h1 where c: "cmos_read P r h = (v, h1)" by (cases "cmos_read P r h")
    from obeys_read [OF assms _ c] Cons.prems have "v = regs h r" "regs h1 = regs h" by simp_all
    with Cons.IH [of "vs @ [v]" h1] Cons.prems c show ?case by simp
  qed simp
  from this [of "[0x00, 0x02, 0x04, 0x07, 0x08, 0x09]" "[]"] show ?thesis by (simp add: read_fields_def)
qed

text \<open>What one reading of a chip that is not updating gives.\<close>

lemma rtc_read_obeys:
  assumes "cmos_obeys P regs" and "regs h 0x0A AND 0x80 = 0"
  shows "\<exists>h1. rtc_read P h = Some (decode_time (regs h 0x0B) (regs h 0x32) (map (regs h) [0x00, 0x02, 0x04, 0x07, 0x08, 0x09]), h1)"
proof -
  obtain h1 where 1: "wait_update P h = Some h1" "regs h1 = regs h" using wait_update_idle [OF assms] by blast
  obtain h2 where 2: "read_fields P h1 = (map (regs h) [0x00, 0x02, 0x04, 0x07, 0x08, 0x09], h2)" "regs h2 = regs h"
    using read_fields_obeys [OF assms(1), of h1] 1(2) by auto
  obtain c h3 where 3: "cmos_read P 0x32 h2 = (c, h3)" by (cases "cmos_read P 0x32 h2")
  then have c3: "c = regs h 0x32" "regs h3 = regs h" using obeys_read [OF assms(1) _ 3] 2 by simp_all
  obtain h4 where 4: "wait_update P h3 = Some h4" "regs h4 = regs h" using wait_update_idle [OF assms(1), of h3] assms(2) c3 by auto
  obtain h5 where 5: "read_fields P h4 = (map (regs h) [0x00, 0x02, 0x04, 0x07, 0x08, 0x09], h5)" "regs h5 = regs h"
    using read_fields_obeys [OF assms(1), of h4] 4(2) by auto
  obtain b h6 where 6: "cmos_read P 0x0B h5 = (b, h6)" by (cases "cmos_read P 0x0B h5")
  then have "b = regs h 0x0B" using obeys_read [OF assms(1) _ 6] 5 by simp
  with 1 2 3 c3 4 5 6 show ?thesis by (simp add: rtc_read_def numeral_eq_Suc)
qed

lemma bcd_list: "list_all (\<lambda>n. bcd_to_bin (bin_to_bcd (of_nat n)) = of_nat n) [0..<100]"
  by code_simp

lemma bcd_roundtrip: "v < 100 \<Longrightarrow> bcd_to_bin (bin_to_bcd v) = v"
  using bcd_list [unfolded list_all_iff, rule_format, of "unat v"] by (simp add: word_less_nat_alt)

lemma year_digits:
  fixes y :: u16
  assumes "y < 2300"
  shows "unat (ucast (y div 100) :: u8) = unat y div 100" and "unat (ucast (y mod 100) :: u8) = unat y mod 100"
    and "(ucast (y div 100) :: u8) < 100" and "(ucast (y mod 100) :: u8) < 100"
proof -
  have "unat y < 2300" using assms by (simp add: word_less_nat_alt)
  then have l: "unat y div 100 < 100" "unat y mod 100 < 100" by (simp_all add: less_mult_imp_div_less)
  then show u: "unat (ucast (y div 100) :: u8) = unat y div 100" "unat (ucast (y mod 100) :: u8) = unat y mod 100"
    by (simp_all add: unsigned_ucast_eq unat_div unat_mod take_bit_nat_eq_self)
  show "(ucast (y div 100) :: u8) < 100" "(ucast (y mod 100) :: u8) < 100"
    using l u by (simp_all add: word_less_nat_alt)
qed

lemma year_roundtrip:
  fixes y :: u16
  assumes "1900 \<le> y" and "y < 2300"
  shows "full_year (ucast (y div 100)) (ucast (y mod 100)) = y"
proof -
  define c :: u8 where "c = ucast (y div 100)"
  define d :: u8 where "d = ucast (y mod 100)"
  have n: "1900 \<le> unat y" "unat y < 2300" using assms by (simp_all add: word_le_nat_alt word_less_nat_alt)
  have u: "unat c = unat y div 100" "unat d = unat y mod 100" using year_digits [OF assms(2)] by (simp_all add: c_def d_def)
  have c: "19 \<le> c" "c \<le> 22" using u(1) n by (auto simp: word_le_nat_alt)
  have "unat (ucast c * 100 + ucast d :: u16) = unat y"
    using n by (simp add: unat_word_ariths unsigned_ucast_eq u take_bit_nat_eq_self)
  then show ?thesis using c by (simp add: full_year_def c_def d_def word_unat_eq_iff)
qed

lemma hour_roundtrip_list:
  "list_all (\<lambda>n. field_hour False False (of_nat n) = of_nat n \<and> field_hour True False (bin_to_bcd (of_nat n)) = of_nat n) [0..<24]"
  by code_simp

lemma hour_roundtrip: "v < 24 \<Longrightarrow> field_hour False False v = v \<and> field_hour True False (bin_to_bcd v) = v"
  using hour_roundtrip_list [unfolded list_all_iff, rule_format, of "unat v"] by (simp add: word_less_nat_alt)

lemma decode_encode:
  assumes "valid_time t" and "reg_b AND 0x02 \<noteq> 0" and "map snd (encode_time reg_b t) = [s, m, hr, d, mo, y, c]"
  shows "decode_time reg_b c [s, m, hr, d, mo, y] = t"
proof -
  have v: "rtc_sec t < 100" "rtc_min t < 100" "rtc_hour t < 24" "rtc_day t < 100" "rtc_month t < 100" "1900 \<le> rtc_year t" "rtc_year t < 2300"
    using assms(1) by (auto simp: valid_time_def elim: order.strict_trans)
  show ?thesis
    using assms(2,3) v bcd_roundtrip hour_roundtrip [OF v(3)] year_roundtrip [OF v(6,7)] year_digits [OF v(7)]
    by (cases "reg_b AND 0x04 = 0") (auto simp: decode_time_def encode_time_def Let_def)
qed

text \<open>C20: on a chip in 24-hour mode that is not updating, whether it counts in BCD or in binary, rtc_read right
  after rtc_write returns the time written, for every valid time of the years 1900 to 2299.\<close>

lemma rtc_write_read:
  assumes "cmos_obeys P regs" and "regs h 0x0A AND 0x80 = 0" and "regs h 0x0B AND 0x02 \<noteq> 0" and "valid_time t"
  shows "\<exists>h1. rtc_read P (rtc_write P t h) = Some (t, h1)"
proof -
  obtain b h0 where c: "cmos_read P 0x0B h = (b, h0)" by (cases "cmos_read P 0x0B h")
  then have b: "b = regs h 0x0B" "regs h0 = regs h" using obeys_read [OF assms(1) _ c] by simp_all
  obtain s m hr d mo y cn where e: "map snd (encode_time b t) = [s, m, hr, d, mo, y, cn]"
    by (simp add: encode_time_def Let_def)
  then have e': "encode_time b t = [(0x80, s), (0x82, m), (0x84, hr), (0x87, d), (0x88, mo), (0x89, y), (0xB2, cn)]"
    by (auto simp: encode_time_def Let_def)
  define ws where "ws = [(0x0B :: u8, b OR 0x80), (0x00, s), (0x02, m), (0x04, hr), (0x07, d), (0x08, mo), (0x09, y), (0x32, cn), (0x0B, b)]"
  have w: "rtc_write P t h = cmos_store P (map (\<lambda>(r, v). (r OR 0x80, v)) ws) h0"
    by (simp add: rtc_write_def c e' ws_def)
  have r: "regs (rtc_write P t h) = foldl (\<lambda>f (r, v). f(r := v)) (regs h) ws"
    unfolding w b(2) [symmetric] by (rule obeys_store [OF assms(1)]) (simp add: ws_def)
  then have "regs (rtc_write P t h) 0x0A = regs h 0x0A" "regs (rtc_write P t h) 0x0B = b" "regs (rtc_write P t h) 0x32 = cn"
    "map (regs (rtc_write P t h)) [0x00, 0x02, 0x04, 0x07, 0x08, 0x09] = [s, m, hr, d, mo, y]"
    by (simp_all add: ws_def)
  with rtc_read_obeys [OF assms(1), of "rtc_write P t h"] assms(2) show ?thesis
    using decode_encode [OF assms(4) _ e] assms(3) b(1) by simp
qed

text \<open>A chip as the ports see it: the selected register and the registers.\<close>

definition sample_cmos :: "(u8 \<times> (u8 \<Rightarrow> u8)) ports" where
  "sample_cmos = \<lparr>port_in = (\<lambda>p h. (snd h (fst h AND 0x7F), h)),
     port_out = (\<lambda>p v h. if p = 0x70 then (v, snd h) else if p = 0x71 then (fst h, (snd h)(fst h AND 0x7F := v)) else h)\<rparr>"

lemma low_select: "r < 0x80 \<Longrightarrow> (r OR 0x80) AND 0x7F = r" for r :: u8
proof -
  assume "r < 0x80"
  then have "unat r mod 128 = unat r" by (simp add: word_less_nat_alt)
  then have "r AND mask 7 = r" using unat_and_mask [of r 7] by (simp add: word_unat_eq_iff)
  moreover have "(0x7F :: u8) = mask 7" "(0x80 :: u8) AND mask 7 = 0" by (simp_all add: mask_eq_exp_minus_1)
  ultimately show ?thesis by (simp add: bit.conj_disj_distrib2)
qed

lemma sample_cmos_obeys: "cmos_obeys sample_cmos snd"
  by (auto simp: cmos_obeys_def sample_cmos_def cmos_read_def inb_def outb_def CMOS_INDEX_def CMOS_DATA_def low_select)

lemma rtc_write_read_witness:
  "\<exists>h1. rtc_read sample_cmos (rtc_write sample_cmos
     \<lparr>rtc_sec = 59, rtc_min = 30, rtc_hour = 23, rtc_day = 31, rtc_month = 12, rtc_year = 2026\<rparr> (0, (\<lambda>_. 0)(0x0B := 2)))
   = Some (\<lparr>rtc_sec = 59, rtc_min = 30, rtc_hour = 23, rtc_day = 31, rtc_month = 12, rtc_year = 2026\<rparr>, h1)"
  by (rule rtc_write_read [OF sample_cmos_obeys]) (simp_all add: valid_time_def)

subsection \<open>The twelve-hour clock\<close>

text \<open>In 12-hour mode 12 pm reads as hour 0 and 12 am as hour 12: noon and midnight are exchanged, in BCD
  and in binary.\<close>

lemma rtc_noon:
  "field_hour True True 0x92 = 0" "field_hour True True 0x12 = 12"
  "field_hour False True 0x8C = 0" "field_hour False True 0x0C = 12"
  by code_simp+

end
