(* ===== verification/Vga.thy ===== *)
theory Vga
  imports Ports
begin

text \<open>
  The text-mode display of kernel/vga.c: the cells of the frame buffer at 0xB8000 as a function of their
  index, the shadow buffer full-screen programs draw into, and the cursor. Glyph and attribute bytes are
  the low and high half of a cell.
\<close>

definition VGA_COLS :: nat where "VGA_COLS = 80"
definition VGA_ROWS :: nat where "VGA_ROWS = 25"

abbreviation screen_cells :: nat where "screen_cells \<equiv> 2000"

record vga =
  vga_buf :: "nat \<Rightarrow> u16"
  cursor_row :: u16
  cursor_col :: u16
  fg_colour :: u8
  bg_colour :: u8
  redir :: "(bytes \<times> nat \<times> nat option) option"
  shadow_buf :: "u16 list"
  prev_buf :: "u16 list"
  shadow_mode :: bool
  font :: "nat \<Rightarrow> u8"

text \<open>Output redirected into a buffer of a given capacity; the length starts at 0.\<close>

definition vga_redirect :: "bytes option \<Rightarrow> nat \<Rightarrow> nat option \<Rightarrow> vga \<Rightarrow> vga" where
  "vga_redirect buf cap len v =
     v\<lparr>redir := (case buf of None \<Rightarrow> None | Some b \<Rightarrow> Some (b, cap, map_option (\<lambda>_. 0) len))\<rparr>"

definition screen :: "vga \<Rightarrow> u16 list" where
  "screen v = map (vga_buf v) [0..<VGA_COLS * VGA_ROWS]"

definition vga_shadow_enable :: "vga \<Rightarrow> vga" where
  "vga_shadow_enable v = v\<lparr>shadow_mode := True, shadow_buf := screen v, prev_buf := screen v\<rparr>"

definition poke_all :: "u16 list \<Rightarrow> (nat \<Rightarrow> u16) \<Rightarrow> nat \<Rightarrow> u16" where
  "poke_all xs m i = (if i < length xs then xs ! i else m i)"

definition vga_shadow_flush :: "vga \<Rightarrow> vga" where
  "vga_shadow_flush v = v\<lparr>vga_buf := poke_all (shadow_buf v) (vga_buf v), prev_buf := shadow_buf v, shadow_mode := False\<rparr>"

subsection \<open>Presenting the shadow buffer\<close>

text \<open>A bounded spin on the status port: the state of the devices when the bit is as awaited, or after n reads.\<close>

primrec spin_port :: "nat \<Rightarrow> 'h ports \<Rightarrow> u16 \<Rightarrow> u8 \<Rightarrow> bool \<Rightarrow> 'h \<Rightarrow> 'h" where
  "spin_port 0 P port m want h = h"
| "spin_port (Suc n) P port m want h =
     (case inb P port h of (v, h1) \<Rightarrow> if (v AND m \<noteq> 0) = want then h1 else spin_port n P port m want h1)"

definition wait_vblank :: "'h ports \<Rightarrow> 'h \<Rightarrow> 'h" where
  "wait_vblank P h = spin_port 200000 P 0x3DA 0x08 True (spin_port 200000 P 0x3DA 0x08 False h)"

definition present_cell :: "nat \<Rightarrow> vga \<Rightarrow> vga" where
  "present_cell i v =
     (let s = shadow_buf v ! i in
      if s \<noteq> prev_buf v ! i then v\<lparr>vga_buf := (vga_buf v)(i := s), prev_buf := (prev_buf v)[i := s]\<rparr> else v)"

definition vga_present :: "'h ports \<Rightarrow> vga \<Rightarrow> 'h \<Rightarrow> vga \<times> 'h" where
  "vga_present P v h =
     (if \<not> shadow_mode v then (v, h)
      else (foldl (\<lambda>v i. present_cell i v) v [0..<VGA_COLS * VGA_ROWS], wait_vblank P h))"

subsection \<open>Start-up\<close>

definition vga_disable_blink :: "'h ports \<Rightarrow> 'h \<Rightarrow> 'h" where
  "vga_disable_blink P h =
     (let h1 = outb P 0x3C0 (0x10 OR 0x20) (snd (inb P 0x3DA h)) in
      case inb P 0x3C1 h1 of (mode, h2) \<Rightarrow>
        let h3 = outs P [(0x3C0, 0x10 OR 0x20), (0x3C0, mode AND NOT 0x08)] (snd (inb P 0x3DA h2))
        in outb P 0x3C0 0x20 (snd (inb P 0x3DA h3)))"

text \<open>An indexed register: the index is written to one port, the value is at the next.\<close>

definition read_reg :: "'h ports \<Rightarrow> u16 \<Rightarrow> u8 \<Rightarrow> 'h \<Rightarrow> u8 \<times> 'h" where
  "read_reg P port i h = inb P (port + 1) (outb P port i h)"

definition write_regs :: "'h ports \<Rightarrow> (u16 \<times> u8 \<times> u8) list \<Rightarrow> 'h \<Rightarrow> 'h" where
  "write_regs P rs h = outs P (concat (map (\<lambda>(port, i, v). [(port, i), (port + 1, v)]) rs)) h"

text \<open>The font plane is visible only between the two runs of register writes.\<close>

definition vga_set_glyph :: "'h ports \<Rightarrow> u8 \<Rightarrow> bytes \<Rightarrow> vga \<Rightarrow> 'h \<Rightarrow> vga \<times> 'h" where
  "vga_set_glyph P code bitmap v h =
     (case read_reg P 0x3C4 2 h of (seq_map, h1) \<Rightarrow>
      case read_reg P 0x3C4 4 h1 of (seq_mode, h2) \<Rightarrow>
      case read_reg P 0x3CE 4 h2 of (gfx_read, h3) \<Rightarrow>
      case read_reg P 0x3CE 5 h3 of (gfx_mode, h4) \<Rightarrow>
      case read_reg P 0x3CE 6 h4 of (gfx_misc, h5) \<Rightarrow>
        let h6 = write_regs P [(0x3C4, 2, 4), (0x3C4, 4, 7), (0x3CE, 4, 2), (0x3CE, 5, 0), (0x3CE, 6, 4)] h5;
            off = unat code * 32
        in (v\<lparr>font := (\<lambda>i. if off \<le> i \<and> i < off + 16 then bitmap ! (i - off) else font v i)\<rparr>,
            write_regs P [(0x3C4, 2, seq_map), (0x3C4, 4, seq_mode), (0x3CE, 4, gfx_read), (0x3CE, 5, gfx_mode), (0x3CE, 6, gfx_misc)] h6))"

definition arrow :: bytes where
  "arrow = [0x80, 0xC0, 0xA0, 0x90, 0x88, 0x84, 0x82, 0x81, 0x82, 0x86, 0x8A, 0xC8, 0x44, 0x04, 0x02, 0x02]"

definition install_arrow_glyph :: "'h ports \<Rightarrow> vga \<Rightarrow> 'h \<Rightarrow> vga \<times> 'h" where
  "install_arrow_glyph P v h = vga_set_glyph P 1 arrow v h"

subsection \<open>Characters\<close>

text \<open>entry: the character is signed and is widened with its sign.\<close>

definition cell_entry :: "u8 \<Rightarrow> u8 \<Rightarrow> u8 \<Rightarrow> u16" where
  "cell_entry c fg bg = (scast c OR push_bit 8 (push_bit 4 (ucast bg) OR (ucast fg AND 0x0F)))"

definition move_hw_cursor :: "'h ports \<Rightarrow> vga \<Rightarrow> 'h \<Rightarrow> 'h" where
  "move_hw_cursor P v h =
     (let pos = cursor_row v * 80 + cursor_col v in
      outs P [(0x3D4, 0x0F), (0x3D5, ucast (pos AND 0xFF)), (0x3D4, 0x0E), (0x3D5, ucast (drop_bit 8 pos AND 0xFF))] h)"

definition blank :: "vga \<Rightarrow> u16" where
  "blank v = cell_entry 0x20 (fg_colour v) (bg_colour v)"

definition vga_clear :: "'h ports \<Rightarrow> vga \<Rightarrow> 'h \<Rightarrow> vga \<times> 'h" where
  "vga_clear P v h =
     (let v1 = v\<lparr>vga_buf := poke_all (replicate (VGA_COLS * VGA_ROWS) (blank v)) (vga_buf v), cursor_row := 0, cursor_col := 0\<rparr>
      in (v1, move_hw_cursor P v1 h))"

definition vga_init :: "'h ports \<Rightarrow> vga \<Rightarrow> 'h \<Rightarrow> vga \<times> 'h" where
  "vga_init P v h = (case install_arrow_glyph P v (vga_disable_blink P h) of (v1, h1) \<Rightarrow> vga_clear P v1 h1)"

text \<open>The rows move up by one and the last becomes blank.\<close>

definition scrolled :: "u16 \<Rightarrow> (nat \<Rightarrow> u16) \<Rightarrow> nat \<Rightarrow> u16" where
  "scrolled b m i =
     (if i < (VGA_ROWS - 1) * VGA_COLS then m (i + VGA_COLS) else if i < VGA_ROWS * VGA_COLS then b else m i)"

definition scroll_if_needed :: "vga \<Rightarrow> vga" where
  "scroll_if_needed v =
     (if unat (cursor_row v) < VGA_ROWS then v
      else v\<lparr>vga_buf := scrolled (blank v) (vga_buf v), cursor_row := of_nat (VGA_ROWS - 1)\<rparr>)"

definition cursor_pos :: "vga \<Rightarrow> nat" where
  "cursor_pos v = unat (cursor_row v) * VGA_COLS + unat (cursor_col v)"

definition put_here :: "u8 \<Rightarrow> vga \<Rightarrow> vga" where
  "put_here ch v = v\<lparr>vga_buf := (vga_buf v)(cursor_pos v := cell_entry ch (fg_colour v) (bg_colour v))\<rparr>"

definition wrap_line :: "vga \<Rightarrow> vga" where
  "wrap_line v = (if 80 \<le> cursor_col v then v\<lparr>cursor_col := 0, cursor_row := cursor_row v + 1\<rparr> else v)"

text \<open>The effect of a character on the screen, before scrolling.\<close>

definition putc_screen :: "u8 \<Rightarrow> vga \<Rightarrow> vga" where
  "putc_screen ch v =
     (if ch = 10 then v\<lparr>cursor_col := 0, cursor_row := cursor_row v + 1\<rparr>
      else if ch = 13 then v\<lparr>cursor_col := 0\<rparr>
      else if ch = 8 then put_here 0x20 (if cursor_col v \<noteq> 0 then v\<lparr>cursor_col := cursor_col v - 1\<rparr> else v)
      else if ch = 9 then wrap_line (v\<lparr>cursor_col := (cursor_col v + 8) AND NOT 7\<rparr>)
      else wrap_line ((put_here ch v)\<lparr>cursor_col := cursor_col v + 1\<rparr>))"

definition vga_putc :: "'h ports \<Rightarrow> u8 \<Rightarrow> vga \<Rightarrow> 'h \<Rightarrow> vga \<times> 'h" where
  "vga_putc P ch v h =
     (case redir v of
        Some (buf, cap, len) \<Rightarrow>
          (case len of
             Some n \<Rightarrow> (if n < cap then v\<lparr>redir := Some (buf[n := ch], cap, Some (n + 1))\<rparr> else v, h)
           | None \<Rightarrow> (v, h))
      | None \<Rightarrow> (let v1 = scroll_if_needed (putc_screen ch v) in (v1, move_hw_cursor P v1 h)))"

primrec vga_puts :: "'h ports \<Rightarrow> bytes \<Rightarrow> vga \<Rightarrow> 'h \<Rightarrow> vga \<times> 'h" where
  "vga_puts P [] v h = (v, h)"
| "vga_puts P (c # s) v h = (if c = 0 then (v, h) else case vga_putc P c v h of (v1, h1) \<Rightarrow> vga_puts P s v1 h1)"

definition vga_set_colour :: "u8 \<Rightarrow> u8 \<Rightarrow> vga \<Rightarrow> vga" where
  "vga_set_colour fg bg v = v\<lparr>fg_colour := fg AND 0x0F, bg_colour := bg AND 0x0F\<rparr>"

definition vga_get_colour :: "vga \<Rightarrow> u8 \<times> u8" where
  "vga_get_colour v = (fg_colour v, bg_colour v)"

definition vga_set_cursor :: "'h ports \<Rightarrow> u16 \<Rightarrow> u16 \<Rightarrow> vga \<Rightarrow> 'h \<Rightarrow> vga \<times> 'h" where
  "vga_set_cursor P row col v h = (let v1 = v\<lparr>cursor_row := row, cursor_col := col\<rparr> in (v1, move_hw_cursor P v1 h))"

definition vga_get_cursor :: "vga \<Rightarrow> u16 \<times> u16" where
  "vga_get_cursor v = (cursor_row v, cursor_col v)"

subsection \<open>Cells\<close>

definition on_screen :: "int \<Rightarrow> int \<Rightarrow> bool" where
  "on_screen row col \<longleftrightarrow> 0 \<le> row \<and> row < int VGA_ROWS \<and> 0 \<le> col \<and> col < int VGA_COLS"

definition cell_index :: "int \<Rightarrow> int \<Rightarrow> nat" where
  "cell_index row col = nat (row * int VGA_COLS + col)"

definition vga_put_cell :: "int \<Rightarrow> int \<Rightarrow> u8 \<Rightarrow> u8 \<Rightarrow> u8 \<Rightarrow> vga \<Rightarrow> vga" where
  "vga_put_cell row col c fg bg v =
     (if \<not> on_screen row col then v
      else
        let e = (ucast c OR push_bit 8 (push_bit 4 (ucast bg AND 0x0F) OR (ucast fg AND 0x0F))); i = cell_index row col in
        if shadow_mode v then v\<lparr>shadow_buf := (shadow_buf v)[i := e]\<rparr> else v\<lparr>vga_buf := (vga_buf v)(i := e)\<rparr>)"

definition vga_get_cell_raw :: "int \<Rightarrow> int \<Rightarrow> vga \<Rightarrow> u8 \<times> u8" where
  "vga_get_cell_raw row col v =
     (if \<not> on_screen row col then (0x20, 0x07)
      else let i = cell_index row col; e = (if shadow_mode v then shadow_buf v ! i else vga_buf v i) in
        (ucast (e AND 0xFF), ucast (drop_bit 8 e AND 0xFF)))"

text \<open>Rows and columns of a rectangle, in the order the loops visit them.\<close>

definition rect :: "int \<Rightarrow> int \<Rightarrow> int \<Rightarrow> int \<Rightarrow> (int \<times> int) list" where
  "rect row col w h = List.product [row..row + h - 1] [col..col + w - 1]"

definition vga_fill :: "int \<Rightarrow> int \<Rightarrow> int \<Rightarrow> int \<Rightarrow> u8 \<Rightarrow> u8 \<Rightarrow> u8 \<Rightarrow> vga \<Rightarrow> vga" where
  "vga_fill row col w h c fg bg v = foldl (\<lambda>v (r, x). vga_put_cell r x c fg bg v) v (rect row col w h)"

primrec vga_write :: "int \<Rightarrow> int \<Rightarrow> bytes \<Rightarrow> u8 \<Rightarrow> u8 \<Rightarrow> vga \<Rightarrow> vga" where
  "vga_write row x [] fg bg v = v"
| "vga_write row x (c # s) fg bg v =
     (if c \<noteq> 0 \<and> x < int VGA_COLS then vga_write row (x + 1) s fg bg (vga_put_cell row x c fg bg v) else v)"

definition vga_hide_cursor :: "'h ports \<Rightarrow> 'h \<Rightarrow> 'h" where
  "vga_hide_cursor P h = outs P [(0x3D4, 0x0A), (0x3D5, 0x20)] h"

definition vga_show_cursor :: "'h ports \<Rightarrow> 'h \<Rightarrow> 'h" where
  "vga_show_cursor P h = outs P [(0x3D4, 0x0A), (0x3D5, 14), (0x3D4, 0x0B), (0x3D5, 15)] h"

subsection \<open>The cursor stays on the screen\<close>

definition cursor_ok :: "vga \<Rightarrow> bool" where
  "cursor_ok v \<longleftrightarrow> unat (cursor_row v) < VGA_ROWS \<and> unat (cursor_col v) < VGA_COLS"

text \<open>Between a character and the scroll the cursor may be one row below the screen.\<close>

definition cursor_near :: "vga \<Rightarrow> bool" where
  "cursor_near v \<longleftrightarrow> unat (cursor_row v) \<le> VGA_ROWS \<and> unat (cursor_col v) < VGA_COLS"

definition same_beyond :: "vga \<Rightarrow> vga \<Rightarrow> bool" where
  "same_beyond v v1 \<longleftrightarrow> (\<forall>i\<ge>screen_cells. vga_buf v1 i = vga_buf v i) \<and> redir v1 = redir v"

lemma same_beyondI: "redir v1 = redir v \<Longrightarrow> (\<And>i. screen_cells \<le> i \<Longrightarrow> vga_buf v1 i = vga_buf v i) \<Longrightarrow> same_beyond v v1"
  by (simp add: same_beyond_def)

lemma same_beyond_trans: "same_beyond v v1 \<Longrightarrow> same_beyond v1 v2 \<Longrightarrow> same_beyond v v2"
  by (simp add: same_beyond_def)

lemma cursor_pos_less: "cursor_ok v \<Longrightarrow> cursor_pos v < screen_cells"
  by (auto simp: cursor_ok_def cursor_pos_def VGA_ROWS_def VGA_COLS_def)

lemma put_here_ok: "cursor_ok v \<Longrightarrow> same_beyond v (put_here c v)"
  using cursor_pos_less [of v] by (auto simp: put_here_def intro!: same_beyondI)

lemma wrap_line_near:
  "unat (cursor_row v) < VGA_ROWS \<Longrightarrow> unat (cursor_col v) \<le> VGA_COLS \<Longrightarrow> cursor_near (wrap_line v) \<and> same_beyond v (wrap_line v)"
  by (auto simp: wrap_line_def cursor_near_def VGA_ROWS_def VGA_COLS_def word_le_nat_alt unat_word_ariths intro!: same_beyondI)

lemma unat_tab: "unat (c :: u16) < 80 \<Longrightarrow> unat ((c + 8) AND NOT 7) \<le> 80"
proof -
  assume c: "unat c < 80"
  then have "unat (c + 8) = unat c + 8" by (simp add: unat_word_ariths)
  moreover have "(7 :: u16) = mask 3" by (simp add: mask_eq_exp_minus_1)
  ultimately have "unat ((c + 8) AND NOT 7) = (unat c + 8) div 8 * 8" using unat_and_not_mask [of "c + 8" 3] by simp
  with c show ?thesis by simp
qed

lemma putc_screen_near: "cursor_ok v \<Longrightarrow> cursor_near (putc_screen ch v) \<and> same_beyond v (putc_screen ch v)"
proof -
  assume ok: "cursor_ok v"
  then have r: "unat (cursor_row v) < 25" and c: "unat (cursor_col v) < 80" by (simp_all add: cursor_ok_def VGA_ROWS_def VGA_COLS_def)
  consider (nl) "ch = 10" | (cr) "ch = 13" | (bs) "ch = 8" | (tab) "ch = 9" | (plain) "ch \<notin> {10, 13, 8, 9}" by blast
  then show ?thesis
  proof cases
    case bs
    define w where "w = (if cursor_col v \<noteq> 0 then v\<lparr>cursor_col := cursor_col v - 1\<rparr> else v)"
    have w: "cursor_ok w" "same_beyond v w"
      using r c by (auto simp: w_def cursor_ok_def VGA_ROWS_def VGA_COLS_def unat_sub_if_size word_size word_le_nat_alt word_unat_eq_iff intro!: same_beyondI)
    have "putc_screen ch v = put_here 0x20 w" using bs by (simp add: putc_screen_def w_def)
    moreover have "cursor_near (put_here 0x20 w)" using w(1) by (simp add: put_here_def cursor_ok_def cursor_near_def)
    ultimately show ?thesis using w put_here_ok [OF w(1), of "0x20"] same_beyond_trans by metis
  next
    case tab
    let ?w = "v\<lparr>cursor_col := (cursor_col v + 8) AND NOT 7\<rparr>"
    have "cursor_near (wrap_line ?w) \<and> same_beyond ?w (wrap_line ?w)"
      using r unat_tab [OF c] by (intro wrap_line_near) (simp_all add: VGA_ROWS_def VGA_COLS_def)
    then show ?thesis using tab by (simp add: putc_screen_def same_beyond_def)
  next
    case plain
    let ?w = "(put_here ch v)\<lparr>cursor_col := cursor_col v + 1\<rparr>"
    have "cursor_near (wrap_line ?w) \<and> same_beyond ?w (wrap_line ?w)"
      using r c by (intro wrap_line_near) (simp_all add: VGA_ROWS_def VGA_COLS_def put_here_def unat_word_ariths)
    moreover have "same_beyond v ?w" using put_here_ok [OF ok, of ch] by (simp add: same_beyond_def)
    ultimately show ?thesis using plain by (auto simp: putc_screen_def elim: same_beyond_trans)
  next
    case nl
    then show ?thesis using r c by (simp add: putc_screen_def cursor_near_def same_beyond_def VGA_ROWS_def VGA_COLS_def unat_word_ariths)
  next
    case cr
    then show ?thesis using r c by (simp add: putc_screen_def cursor_near_def same_beyond_def VGA_ROWS_def VGA_COLS_def)
  qed
qed

lemma scroll_ok: "cursor_near v \<Longrightarrow> cursor_ok (scroll_if_needed v) \<and> same_beyond v (scroll_if_needed v)"
  by (auto simp: cursor_near_def cursor_ok_def scroll_if_needed_def scrolled_def VGA_ROWS_def VGA_COLS_def intro!: same_beyondI)

lemma vga_putc_safe:
  "cursor_ok v \<Longrightarrow> vga_putc P ch v h = (v1, h1) \<Longrightarrow> cursor_ok v1 \<and> (\<forall>i\<ge>screen_cells. vga_buf v1 i = vga_buf v i)"
  using putc_screen_near [of v ch] scroll_ok [of "putc_screen ch v"]
  by (auto simp: vga_putc_def Let_def same_beyond_def cursor_ok_def split: option.splits if_splits)

text \<open>C19: from a cursor on the screen, printing any text, control characters, wrapping and scrolling included,
  leaves the cursor on the screen and writes no cell past the 2000 of the screen.\<close>

lemma vga_puts_safe:
  assumes "cursor_ok v" and "vga_puts P s v h = (v1, h1)"
  shows "cursor_ok v1 \<and> (\<forall>i\<ge>screen_cells. vga_buf v1 i = vga_buf v i)"
  using assms
proof (induction s arbitrary: v h)
  case (Cons c s)
  obtain v2 h2 where p: "vga_putc P c v h = (v2, h2)" by (cases "vga_putc P c v h")
  with vga_putc_safe [OF Cons.prems(1) p] Cons show ?case by (auto split: if_splits)
qed simp

subsection \<open>Presenting only what changed\<close>

lemma present_cells:
  assumes "length (shadow_buf v) = screen_cells" and "length (prev_buf v) = screen_cells" and "prev_buf v = screen v" and "n \<le> screen_cells"
  shows "foldl (\<lambda>v i. present_cell i v) v [0..<n] = v\<lparr>vga_buf := poke_all (take n (shadow_buf v)) (vga_buf v),
    prev_buf := take n (shadow_buf v) @ drop n (prev_buf v)\<rparr>"
  using assms(4)
proof (induction n)
  case 0
  then show ?case by (simp add: poke_all_def)
next
  case (Suc n)
  define w where "w = v\<lparr>vga_buf := poke_all (take n (shadow_buf v)) (vga_buf v), prev_buf := take n (shadow_buf v) @ drop n (prev_buf v)\<rparr>"
  have n: "n < screen_cells" using Suc.prems by simp
  have p: "prev_buf w ! n = prev_buf v ! n" "shadow_buf w = shadow_buf v" using n assms(1,2) by (simp_all add: w_def nth_append)
  have m: "vga_buf v n = prev_buf v ! n" using n assms(3) by (simp add: screen_def VGA_COLS_def VGA_ROWS_def del: upt_rec_numeral)
  have t: "take (Suc n) (shadow_buf v) = take n (shadow_buf v) @ [shadow_buf v ! n]" using n assms(1) by (simp add: take_Suc_conv_app_nth)
  have d: "drop n (prev_buf v) = prev_buf v ! n # drop (Suc n) (prev_buf v)" using n assms(2) by (simp add: Cons_nth_drop_Suc)
  have "present_cell n w = v\<lparr>vga_buf := poke_all (take (Suc n) (shadow_buf v)) (vga_buf v),
    prev_buf := take (Suc n) (shadow_buf v) @ drop (Suc n) (prev_buf v)\<rparr>"
  proof (cases "shadow_buf v ! n = prev_buf v ! n")
    case True
    have "poke_all (take (Suc n) (shadow_buf v)) (vga_buf v) = poke_all (take n (shadow_buf v)) (vga_buf v)"
      using True m n assms(1) by (auto simp: poke_all_def fun_eq_iff less_Suc_eq)
    then show ?thesis using True p by (simp add: present_cell_def w_def t d)
  next
    case False
    have "(poke_all (take n (shadow_buf v)) (vga_buf v))(n := shadow_buf v ! n) = poke_all (take (Suc n) (shadow_buf v)) (vga_buf v)"
      using n assms(1) by (auto simp: poke_all_def fun_eq_iff less_Suc_eq)
    moreover have "(take n (shadow_buf v) @ drop n (prev_buf v))[n := shadow_buf v ! n] = take (Suc n) (shadow_buf v) @ drop (Suc n) (prev_buf v)"
      using n assms(1) unfolding t d by (simp add: list_update_append)
    ultimately show ?thesis using False p by (simp add: present_cell_def w_def)
  qed
  then show ?case using Suc by (simp add: w_def)
qed

text \<open>as long as the saved copy agrees with the screen, presenting only the changed cells leaves the screen and
  the copy exactly as the unconditional flush of all cells does.\<close>

lemma vga_present_flushes:
  assumes "shadow_mode v" and "length (shadow_buf v) = screen_cells" and "prev_buf v = screen v" and "vga_present P v h = (v1, h1)"
  shows "v1 = (vga_shadow_flush v)\<lparr>shadow_mode := True\<rparr> \<and> prev_buf v1 = screen v1"
proof -
  have l: "length (prev_buf v) = screen_cells" unfolding assms(3) by (simp add: screen_def VGA_COLS_def VGA_ROWS_def del: upt_rec_numeral)
  have "v1 = foldl (\<lambda>v i. present_cell i v) v [0..<screen_cells]"
    using assms(1,4) by (simp add: vga_present_def VGA_COLS_def VGA_ROWS_def del: upt_rec_numeral)
  also have "\<dots> = (vga_shadow_flush v)\<lparr>shadow_mode := True\<rparr>"
    unfolding present_cells [OF assms(2) l assms(3) order.refl] using assms(1,2) l by (cases v) (simp add: vga_shadow_flush_def)
  finally have e: "v1 = (vga_shadow_flush v)\<lparr>shadow_mode := True\<rparr>" .
  have "screen v1 = shadow_buf v"
    using assms(2) by (intro nth_equalityI) (simp_all add: e vga_shadow_flush_def screen_def poke_all_def VGA_COLS_def VGA_ROWS_def del: upt_rec_numeral)
  with e show ?thesis by (simp add: vga_shadow_flush_def)
qed

subsection \<open>Characters above ASCII\<close>

text \<open>The sign extension of a character above 0x7F fills the attribute byte: the cell is bright white on bright
  white whatever the colours; below it the attribute is the colours.\<close>

lemma cell_entry_high: "0x80 \<le> c \<Longrightarrow> cell_entry c fg bg AND 0xFF00 = 0xFF00"
proof -
  assume "0x80 \<le> c"
  then have b: "bit c 7" using byte_low [of c] by (auto simp: word_le_nat_alt)
  have m: "(0xFF00 :: u16) = push_bit 8 (mask 8)" by (simp add: mask_eq_exp_minus_1 push_bit_eq_mult)
  show ?thesis
    unfolding m by (rule bit_word_eqI) (auto simp: cell_entry_def bit_simps b min_def)
qed

text \<open>a character above 0x7F printed on the screen gets the attribute 0xFF instead of the colours.\<close>

lemma vga_putc_high:
  assumes "redir v = None" and "cursor_ok v" and "unat (cursor_row v) + 1 < VGA_ROWS" and "0x80 \<le> ch"
    and "vga_putc P ch v h = (v1, h1)"
  shows "vga_buf v1 (cursor_pos v) AND 0xFF00 = 0xFF00"
proof -
  define w where "w = (put_here ch v)\<lparr>cursor_col := cursor_col v + 1\<rparr>"
  have n: "ch \<notin> {10, 13, 8, 9}" using assms(4) by auto
  have r: "unat (cursor_row (wrap_line w)) < VGA_ROWS"
    using assms(2,3) by (auto simp: wrap_line_def w_def put_here_def cursor_ok_def VGA_ROWS_def unat_word_ariths)
  have "v1 = wrap_line w"
    using assms(1,5) n r by (auto simp: vga_putc_def putc_screen_def w_def scroll_if_needed_def Let_def)
  then have "vga_buf v1 (cursor_pos v) = cell_entry ch (fg_colour v) (bg_colour v)"
    by (simp add: wrap_line_def w_def put_here_def)
  then show ?thesis using cell_entry_high [OF assms(4)] by simp
qed

subsection \<open>Samples\<close>

definition sample_vga :: vga where
  "sample_vga = \<lparr>vga_buf = (\<lambda>_. 0), cursor_row = 24, cursor_col = 78, fg_colour = 7, bg_colour = 0, redir = None,
     shadow_buf = replicate 2000 0x0741, prev_buf = replicate 2000 0, shadow_mode = True, font = (\<lambda>_. 0)\<rparr>"

abbreviation no_ports :: "unit ports" where
  "no_ports \<equiv> \<lparr>port_in = (\<lambda>p h. (0, h)), port_out = (\<lambda>p v h. h)\<rparr>"

lemma vga_puts_safe_witness:
  "case vga_puts no_ports (lit ''abc'' @ [8, 9, 10, 0xFF]) sample_vga () of (v1, h1) \<Rightarrow>
     cursor_ok v1 \<and> vga_buf v1 2000 = 0"
proof -
  have "cursor_ok sample_vga" by (simp add: sample_vga_def cursor_ok_def VGA_ROWS_def VGA_COLS_def)
  moreover obtain v1 h1 where p: "vga_puts no_ports (lit ''abc'' @ [8, 9, 10, 0xFF]) sample_vga () = (v1, h1)"
    by (cases "vga_puts no_ports (lit ''abc'' @ [8, 9, 10, 0xFF]) sample_vga ()")
  ultimately show ?thesis using vga_puts_safe [OF _ p] by (simp add: sample_vga_def)
qed

lemma sample_prev: "prev_buf sample_vga = screen sample_vga"
  by (rule nth_equalityI) (simp_all add: sample_vga_def screen_def VGA_COLS_def VGA_ROWS_def del: upt_rec_numeral)

lemma vga_present_flushes_witness:
  "vga_buf (fst (vga_present no_ports sample_vga ())) 1999 = 0x0741"
proof -
  obtain v1 h1 where p: "vga_present no_ports sample_vga () = (v1, h1)" by (cases "vga_present no_ports sample_vga ()")
  have "v1 = (vga_shadow_flush sample_vga)\<lparr>shadow_mode := True\<rparr>"
    using vga_present_flushes [OF _ _ sample_prev p] by (simp add: sample_vga_def)
  then show ?thesis using p by (simp add: vga_shadow_flush_def poke_all_def sample_vga_def)
qed

lemma vga_putc_high_witness:
  "vga_buf (fst (vga_putc no_ports 0x84 (sample_vga\<lparr>cursor_row := 3\<rparr>) ())) 318 AND 0xFF00 = 0xFF00"
proof -
  obtain v1 h1 where p: "vga_putc no_ports 0x84 (sample_vga\<lparr>cursor_row := 3\<rparr>) () = (v1, h1)"
    by (cases "vga_putc no_ports 0x84 (sample_vga\<lparr>cursor_row := 3\<rparr>) ()")
  from vga_putc_high [OF _ _ _ _ p] p show ?thesis
    by (simp add: sample_vga_def cursor_ok_def cursor_pos_def VGA_ROWS_def VGA_COLS_def)
qed

end
