(* ===== verification/Tui.thy ===== *)
theory Tui
  imports Vga LibC
begin

text \<open>
  The full-screen primitives of kernel/tui.c. Keys come from kb_getc as a list: the integers it returns one
  after the other; a loop that asks for more keys than there are waits for ever and gives None.
\<close>

definition TUI_BG :: u8 where "TUI_BG = 1"
definition TUI_FG :: u8 where "TUI_FG = 15"
definition TUI_TITLE_FG :: u8 where "TUI_TITLE_FG = 14"
definition TUI_TITLE_BG :: u8 where "TUI_TITLE_BG = 4"
definition TUI_STATUS_FG :: u8 where "TUI_STATUS_FG = 0"
definition TUI_STATUS_BG :: u8 where "TUI_STATUS_BG = 7"
definition TUI_BOX_FG :: u8 where "TUI_BOX_FG = 15"
definition TUI_HIGH_FG :: u8 where "TUI_HIGH_FG = 0"
definition TUI_HIGH_BG :: u8 where "TUI_HIGH_BG = 7"

definition tui_clear :: "vga \<Rightarrow> vga" where
  "tui_clear v = vga_fill 0 0 (int VGA_COLS) (int VGA_ROWS) 0x20 TUI_FG TUI_BG v"

definition tui_init :: "'h ports \<Rightarrow> vga \<Rightarrow> 'h \<Rightarrow> vga \<times> 'h" where
  "tui_init P v h =
     (let h1 = vga_hide_cursor P h;
          v1 = vga_fill 0 0 (int VGA_COLS) (int VGA_ROWS) 0x20 TUI_FG TUI_BG (vga_shadow_enable v)
      in vga_present P v1 h1)"

definition tui_end :: "'h ports \<Rightarrow> vga \<Rightarrow> 'h \<Rightarrow> vga \<times> 'h" where
  "tui_end P v h = (case vga_clear P (vga_shadow_flush v) h of (v1, h1) \<Rightarrow> (v1, vga_show_cursor P h1))"

text \<open>The cells of a box in the order they are drawn: corners, top and bottom edge, then each row.\<close>

definition box_cells :: "int \<Rightarrow> int \<Rightarrow> int \<Rightarrow> int \<Rightarrow> u8 \<Rightarrow> u8 \<Rightarrow> u8 \<Rightarrow> u8 \<Rightarrow> u8 \<Rightarrow> u8 \<Rightarrow> (int \<times> int \<times> u8 \<times> u8) list" where
  "box_cells row col w h c1 c2 c3 c4 hz vt =
     [(row, col, c1, TUI_BOX_FG), (row, col + w - 1, c2, TUI_BOX_FG), (row + h - 1, col, c3, TUI_BOX_FG), (row + h - 1, col + w - 1, c4, TUI_BOX_FG)]
     @ concat (map (\<lambda>x. [(row, x, hz, TUI_BOX_FG), (row + h - 1, x, hz, TUI_BOX_FG)]) [col + 1..col + w - 2])
     @ concat (map (\<lambda>y. [(y, col, vt, TUI_BOX_FG), (y, col + w - 1, vt, TUI_BOX_FG)]
         @ map (\<lambda>x. (y, x, 0x20, TUI_FG)) [col + 1..col + w - 2]) [row + 1..row + h - 2])"

definition box :: "int \<Rightarrow> int \<Rightarrow> int \<Rightarrow> int \<Rightarrow> u8 \<Rightarrow> u8 \<Rightarrow> u8 \<Rightarrow> u8 \<Rightarrow> u8 \<Rightarrow> u8 \<Rightarrow> vga \<Rightarrow> vga" where
  "box row col w h c1 c2 c3 c4 hz vt v =
     (if w < 2 \<or> h < 2 then v
      else foldl (\<lambda>v (r, x, c, fg). vga_put_cell r x c fg TUI_BG v) v (box_cells row col w h c1 c2 c3 c4 hz vt))"

definition tui_box :: "int \<Rightarrow> int \<Rightarrow> int \<Rightarrow> int \<Rightarrow> vga \<Rightarrow> vga" where
  "tui_box row col w h v = box row col w h 0xDA 0xBF 0xC0 0xD9 0xC4 0xB3 v"

definition tui_dbl_box :: "int \<Rightarrow> int \<Rightarrow> int \<Rightarrow> int \<Rightarrow> vga \<Rightarrow> vga" where
  "tui_dbl_box row col w h v = box row col w h 0xC9 0xBB 0xC8 0xBC 0xCD 0xBA v"

definition tui_title :: "bytes \<Rightarrow> vga \<Rightarrow> vga" where
  "tui_title s v =
     (let v1 = vga_fill 0 0 (int VGA_COLS) 1 0x20 TUI_TITLE_FG TUI_TITLE_BG v;
          n = int (length (chars s)); x = (if int VGA_COLS < n then 0 else (int VGA_COLS - n) div 2)
      in vga_write 0 x s TUI_TITLE_FG TUI_TITLE_BG v1)"

definition tui_status :: "bytes \<Rightarrow> vga \<Rightarrow> vga" where
  "tui_status s v =
     vga_write (int VGA_ROWS - 1) 1 s TUI_STATUS_FG TUI_STATUS_BG
       (vga_fill (int VGA_ROWS - 1) 0 (int VGA_COLS) 1 0x20 TUI_STATUS_FG TUI_STATUS_BG v)"

definition tui_print :: "int \<Rightarrow> int \<Rightarrow> bytes \<Rightarrow> vga \<Rightarrow> vga" where
  "tui_print row col s v = vga_write row col s TUI_FG TUI_BG v"

definition tui_print_color :: "int \<Rightarrow> int \<Rightarrow> bytes \<Rightarrow> u8 \<Rightarrow> u8 \<Rightarrow> vga \<Rightarrow> vga" where
  "tui_print_color row col s fg bg v = vga_write row col s fg bg v"

text \<open>The characters come from the frame buffer even in shadow mode.\<close>

definition tui_highlight :: "int \<Rightarrow> int \<Rightarrow> int \<Rightarrow> vga \<Rightarrow> vga" where
  "tui_highlight row col w v =
     foldl (\<lambda>v x. vga_put_cell row x (ucast (vga_buf v (cell_index row x) AND 0xFF)) TUI_HIGH_FG TUI_HIGH_BG v) v [col..col + w - 1]"

subsection \<open>Reading a line\<close>

definition printable :: "int \<Rightarrow> bool" where
  "printable c \<longleftrightarrow> 0x20 \<le> c \<and> c \<le> 0x7E"

text \<open>The loop of tui_input with len characters in buf: the length returned, -1 on Escape, and the buffer.\<close>

primrec tui_input_loop :: "'h ports \<Rightarrow> int \<Rightarrow> int \<Rightarrow> int \<Rightarrow> int \<Rightarrow> nat \<Rightarrow> bytes \<Rightarrow> int list \<Rightarrow> vga \<Rightarrow> 'h \<Rightarrow>
    (int \<times> bytes \<times> int list \<times> vga \<times> 'h) option" where
  "tui_input_loop P row col w maxn len buf [] v h = None"
| "tui_input_loop P row col w maxn len buf (c # ks) v h =
     (if c = 10 \<or> c = 13 then Some (int len, buf[len := 0], ks, v, vga_hide_cursor P h)
      else if c = 27 then Some (-1, buf[0 := 0], ks, v, vga_hide_cursor P h)
      else if c = 8 then
        (if 0 < len then
           (case vga_set_cursor P (of_int row) (of_int (col + int (len - 1)))
                   (vga_put_cell row (col + int (len - 1)) 0x20 TUI_HIGH_FG TUI_HIGH_BG v) h of
              (v1, h1) \<Rightarrow> tui_input_loop P row col w maxn (len - 1) buf ks v1 h1)
         else tui_input_loop P row col w maxn len buf ks v h)
      else if \<not> printable c then tui_input_loop P row col w maxn len buf ks v h
      else if maxn \<le> int len + 1 \<or> w - 1 \<le> int len then tui_input_loop P row col w maxn len buf ks v h
      else
        (case vga_set_cursor P (of_int row) (of_int (col + int (len + 1)))
                (vga_put_cell row (col + int len) (of_int c) TUI_HIGH_FG TUI_HIGH_BG v) h of
           (v1, h1) \<Rightarrow> tui_input_loop P row col w maxn (len + 1) (buf[len := of_int c]) ks v1 h1))"

definition tui_input :: "'h ports \<Rightarrow> int \<Rightarrow> int \<Rightarrow> int \<Rightarrow> bytes \<Rightarrow> int \<Rightarrow> int list \<Rightarrow> vga \<Rightarrow> 'h \<Rightarrow>
    (int \<times> bytes \<times> int list \<times> vga \<times> 'h) option" where
  "tui_input P row col w buf maxn ks v h =
     (case vga_set_cursor P (of_int row) (of_int col) (vga_fill row col w 1 0x20 TUI_HIGH_FG TUI_HIGH_BG v) (vga_show_cursor P h) of
        (v1, h1) \<Rightarrow> tui_input_loop P row col w maxn 0 buf ks v1 h1)"

subsection \<open>Messages\<close>

definition tui_alert :: "bytes \<Rightarrow> int list \<Rightarrow> vga \<Rightarrow> (int list \<times> vga) option" where
  "tui_alert msg ks v =
     (let len = int (length (chars msg)); w = (if 60 < len + 6 then 60 else len + 6); h = 5;
          row = (int VGA_ROWS - h) div 2; col = (int VGA_COLS - w) div 2;
          v1 = vga_write (row + 2) (col + 3) msg TUI_FG TUI_BG (tui_dbl_box row col w h v);
          v2 = vga_write (row + h - 2) (col + 2) (lit ''[ Press any key ]'') TUI_TITLE_FG TUI_BG v1
      in case ks of [] \<Rightarrow> None | _ # ks' \<Rightarrow> Some (ks', v2))"

primrec confirm_loop :: "int \<Rightarrow> int \<Rightarrow> bool \<Rightarrow> int list \<Rightarrow> vga \<Rightarrow> (bool \<times> int list \<times> vga) option" where
  "confirm_loop r mid no [] v = None"
| "confirm_loop r mid no (c # ks) v =
     (let v1 = vga_write r (mid - 9) (lit ''[ Yes ]'') (if no then TUI_FG else TUI_HIGH_FG) (if no then TUI_BG else TUI_HIGH_BG) v;
          v2 = vga_write r (mid + 2) (lit ''[  No ]'') (if no then TUI_HIGH_FG else TUI_FG) (if no then TUI_HIGH_BG else TUI_BG) v1
      in if c = 9 \<or> c = 0x20 \<or> c = 0x6C \<or> c = 0x68 then confirm_loop r mid (\<not> no) ks v2
         else if c = 0x79 \<or> c = 0x59 then Some (True, ks, v2)
         else if c = 0x6E \<or> c = 0x4E \<or> c = 27 then Some (False, ks, v2)
         else if c = 10 \<or> c = 13 then Some (\<not> no, ks, v2)
         else confirm_loop r mid no ks v2)"

definition tui_confirm :: "bytes \<Rightarrow> int list \<Rightarrow> vga \<Rightarrow> (bool \<times> int list \<times> vga) option" where
  "tui_confirm msg ks v =
     (let len = int (length (chars msg)); w0 = (if 60 < len + 6 then 60 else len + 6); w = (if w0 < 24 then 24 else w0); h = 7;
          row = (int VGA_ROWS - h) div 2; col = (int VGA_COLS - w) div 2;
          v1 = vga_write (row + 2) (col + 3) msg TUI_FG TUI_BG (tui_dbl_box row col w h v)
      in confirm_loop (row + h - 2) (col + w div 2) False ks v1)"

subsection \<open>What a typed line is\<close>

text \<open>The line after some keys: Backspace takes the last character away, a printable one is added while
  there is room for it in the field and, with the terminator, in the buffer.\<close>

definition line_key :: "int \<Rightarrow> int \<Rightarrow> bytes \<Rightarrow> int \<Rightarrow> bytes" where
  "line_key w maxn s c =
     (if c = 8 then butlast s
      else if printable c \<and> int (length s) + 1 < maxn \<and> int (length s) < w - 1 then s @ [of_int c] else s)"

lemma take_update_here: "n < length b \<Longrightarrow> take (Suc n) (b[n := x]) = take n b @ [x]"
  by (simp add: take_Suc_conv_app_nth)

lemma tui_input_loop_line:
  assumes "take len buf = s" and "length s = len" and "int len < maxn" and "maxn \<le> int (length buf)" and "c = 10 \<or> c = 13"
    and "\<forall>k\<in>set ks. k \<notin> {10, 13, 27}"
  shows "\<exists>buf' v' h'. tui_input_loop P row col w maxn len buf (ks @ c # rest) v h
      = Some (int (length (foldl (line_key w maxn) s ks)), buf', rest, v', h')
    \<and> length buf' = length buf \<and> length (foldl (line_key w maxn) s ks) < length buf
    \<and> take (length (foldl (line_key w maxn) s ks) + 1) buf' = foldl (line_key w maxn) s ks @ [0]"
  using assms(1-4,6)
proof (induction ks arbitrary: len buf s v h)
  case Nil
  then show ?case using assms(5) by (auto simp: take_update_here)
next
  case (Cons k ks)
  then have k: "k \<noteq> 10" "k \<noteq> 13" "k \<noteq> 27" and rest: "\<forall>k\<in>set ks. k \<notin> {10, 13, 27}" by auto
  consider (bs) "k = 8" "0 < len" | (bs0) "k = 8" "len = 0"
    | (add) "k \<noteq> 8" "printable k" "int len + 1 < maxn" "int len < w - 1"
    | (skip) "k \<noteq> 8" "\<not> (printable k \<and> int len + 1 < maxn \<and> int len < w - 1)" by blast
  then show ?case
  proof cases
    case bs
    obtain v1 h1 where p: "vga_set_cursor P (of_int row) (of_int (col + int (len - 1)))
        (vga_put_cell row (col + int (len - 1)) 0x20 TUI_HIGH_FG TUI_HIGH_BG v) h = (v1, h1)" by fastforce
    have t: "take (len - 1) buf = butlast s" using Cons.prems(1,2,4) bs by (auto simp: butlast_conv_take)
    have "length (butlast s) = len - 1" "int (len - 1) < maxn" using Cons.prems(2,3) by simp_all
    from Cons.IH [OF t this Cons.prems(4) rest, of v1 h1] show ?thesis using bs k p by (simp add: line_key_def)
  next
    case bs0
    then have "line_key w maxn s k = s" using Cons.prems(2) by (simp add: line_key_def)
    with Cons.IH [OF Cons.prems(1-4) rest, of v h] bs0 k show ?thesis by simp
  next
    case add
    obtain v1 h1 where p: "vga_set_cursor P (of_int row) (of_int (col + int (len + 1)))
        (vga_put_cell row (col + int len) (of_int k) TUI_HIGH_FG TUI_HIGH_BG v) h = (v1, h1)" by fastforce
    have "len < length buf" using Cons.prems(3,4) by simp
    then have t: "take (len + 1) (buf[len := of_int k]) = s @ [of_int k]" using Cons.prems(1) by (simp add: take_update_here)
    have "length (s @ [of_int k]) = len + 1" "int (len + 1) < maxn" "maxn \<le> int (length (buf[len := of_int k]))"
      using Cons.prems(2,4) add by simp_all
    from Cons.IH [OF t this rest, of v1 h1] show ?thesis using add k p Cons.prems(2) by (simp add: line_key_def)
  next
    case skip
    then have "line_key w maxn s k = s" using Cons.prems(2) by (auto simp: line_key_def)
    with Cons.IH [OF Cons.prems(1-4) rest, of v h] skip k show ?thesis by auto
  qed
qed

text \<open>for any keys before Enter tui_input stores the line they edit, with its terminator inside the buffer,
  and returns its length: Backspace deletes, other keys are dropped, and so is what does not fit.\<close>

lemma tui_input_line:
  assumes "0 < maxn" and "maxn \<le> int (length buf)" and "\<forall>k\<in>set ks. k \<notin> {10, 13, 27}"
  shows "\<exists>buf' v' h'. tui_input P row col w buf maxn (ks @ 10 # rest) v h
      = Some (int (length (foldl (line_key w maxn) [] ks)), buf', rest, v', h')
    \<and> length buf' = length buf \<and> length (foldl (line_key w maxn) [] ks) < length buf
    \<and> take (length (foldl (line_key w maxn) [] ks) + 1) buf' = foldl (line_key w maxn) [] ks @ [0]"
proof -
  obtain v1 h1 where p: "vga_set_cursor P (of_int row) (of_int col)
      (vga_fill row col w 1 0x20 TUI_HIGH_FG TUI_HIGH_BG v) (vga_show_cursor P h) = (v1, h1)" by fastforce
  show ?thesis
    using tui_input_loop_line [of 0 buf "[]" maxn 10 ks P row col w rest v1 h1] assms p by (simp add: tui_input_def)
qed

lemma tui_input_line_witness:
  "\<exists>buf' v' h'. tui_input no_ports 10 20 8 (replicate 16 0xFF) 16 (map (\<lambda>b. int (unat b)) (lit ''abcd'') @ [8, 1] @ 10 # [99]) sample_vga ()
      = Some (3, buf', [99], v', h') \<and> take 4 buf' = lit ''abc'' @ [0]"
  using tui_input_line [of 16 "replicate 16 0xFF" "map (\<lambda>b. int (unat b)) (lit ''abcd'') @ [8, 1]" no_ports 10 20 8 "[99]" sample_vga "()"]
  by (simp add: line_key_def printable_def) (metis Suc_numeral numeral_3_eq_3 numerals(2) semiring_norm(2,5,8))

end
