(* ===== verification/Interrupts.thy ===== *)
theory Interrupts
  imports Ports
begin

text \<open>
  The tables and controllers of interrupts: kernel/gdt.c, kernel/idt.c, kernel/pic.c, kernel/pit.c, and the
  serial line of kernel/drv/serial.c. The addresses of the assembler stubs are parameters.
\<close>

subsection \<open>Segments\<close>

record gdt_entry =
  limit_lo :: u16
  gdt_base_lo :: u16
  base_mid :: u8
  access :: u8
  gran :: u8
  base_hi8 :: u8

definition gdt_set :: "u32 \<Rightarrow> u32 \<Rightarrow> u8 \<Rightarrow> u8 \<Rightarrow> gdt_entry" where
  "gdt_set base limit acc g =
     \<lparr>limit_lo = ucast (limit AND 0xFFFF), gdt_base_lo = ucast (base AND 0xFFFF), base_mid = ucast (drop_bit 16 base AND 0xFF),
      access = acc, gran = (ucast (drop_bit 16 limit) AND 0x0F) OR (g AND 0xF0), base_hi8 = ucast (drop_bit 24 base AND 0xFF)\<rparr>"

definition gdt_init :: "gdt_entry list" where
  "gdt_init = [gdt_set 0 0 0 0, gdt_set 0 0xFFFFF 0x9A 0xCF, gdt_set 0 0xFFFFF 0x92 0xCF,
     gdt_set 0 0xFFFFF 0xFA 0xCF, gdt_set 0 0xFFFFF 0xF2 0xCF]"

subsection \<open>Gates\<close>

record idt_entry =
  gate_lo :: u16
  gate_sel :: u16
  gate_zero :: u8
  gate_flags :: u8
  gate_hi :: u16

definition idt_gate :: "u32 \<Rightarrow> u16 \<Rightarrow> u8 \<Rightarrow> idt_entry" where
  "idt_gate handler s fl =
     \<lparr>gate_lo = ucast (handler AND 0xFFFF), gate_sel = s, gate_zero = 0, gate_flags = fl,
      gate_hi = ucast (drop_bit 16 handler AND 0xFFFF)\<rparr>"

text \<open>The entries idt_init sets, in order: the exceptions, the interrupt requests, the system call.\<close>

definition idt_stubs :: "(nat \<Rightarrow> u32) \<Rightarrow> (nat \<Rightarrow> u32) \<Rightarrow> (nat \<times> u32) list" where
  "idt_stubs isr irq = map (\<lambda>n. (n, isr n)) [0..<32] @ map (\<lambda>n. (32 + n, irq n)) [0..<16] @ [(0x80, isr 128)]"

definition idt_init :: "(nat \<Rightarrow> u32) \<Rightarrow> (nat \<Rightarrow> u32) \<Rightarrow> idt_entry list" where
  "idt_init isr irq = foldl (\<lambda>t (n, a). t[n := idt_gate a 0x08 0x8E]) (replicate 256 (idt_gate 0 0 0)) (idt_stubs isr irq)"

text \<open>The table of the drivers' handlers.\<close>

definition irq_install_handler :: "u8 \<Rightarrow> 'f \<Rightarrow> (nat \<rightharpoonup> 'f) \<Rightarrow> nat \<rightharpoonup> 'f" where
  "irq_install_handler irq fn t = (if irq < 16 then t(unat irq \<mapsto> fn) else t)"

definition irq_uninstall_handler :: "u8 \<Rightarrow> (nat \<rightharpoonup> 'f) \<Rightarrow> nat \<rightharpoonup> 'f" where
  "irq_uninstall_handler irq t = (if irq < 16 then t(unat irq := None) else t)"

text \<open>irq_handler: both acknowledgements, then the handler to call.\<close>

definition irq_handler :: "'h ports \<Rightarrow> (nat \<rightharpoonup> 'f) \<Rightarrow> u32 \<Rightarrow> 'h \<Rightarrow> 'f option \<times> 'h" where
  "irq_handler P t int_no h =
     (let irq = int_no - 32;
          h1 = (if 8 \<le> irq then outb P 0xA0 0x20 h else h);
          h2 = outb P 0x20 0x20 h1
      in (if irq < 16 then t (unat irq) else None, h2))"

text \<open>isr_handler: a system call, or a panic with the number and the error of the exception.\<close>

datatype trap = Syscall | Panic u32 bytes

definition exception_names :: "string list" where
  "exception_names =
     [''Divide-by-zero'', ''Debug'', ''NMI'', ''Breakpoint'', ''Overflow'', ''Bound range'', ''Invalid opcode'', ''Device n/a'',
      ''Double fault'', ''Coproc segment'', ''Invalid TSS'', ''Segment not present'', ''Stack-segment'', ''GP fault'', ''Page fault'',
      ''Reserved'', ''x87 FP'', ''Alignment check'', ''Machine check'', ''SIMD FP'', ''Virtualization'', ''Control protection'']
     @ replicate 6 ''Reserved'' @ [''Hypervisor injection'', ''VMM communication'', ''Security'', ''Reserved'']"

definition isr_handler :: "u32 \<Rightarrow> trap" where
  "isr_handler int_no =
     (if int_no = 128 then Syscall
      else Panic int_no (if int_no < 32 then lit (exception_names ! unat int_no) else lit ''Unknown''))"

subsection \<open>The interrupt controllers\<close>

definition PIC1_CMD :: u16 where "PIC1_CMD = 0x20"
definition PIC1_DATA :: u16 where "PIC1_DATA = 0x21"
definition PIC2_CMD :: u16 where "PIC2_CMD = 0xA0"
definition PIC2_DATA :: u16 where "PIC2_DATA = 0xA1"

definition pic_init :: "'h ports \<Rightarrow> 'h \<Rightarrow> 'h" where
  "pic_init P h =
     (case inb P PIC1_DATA h of (m1, h1) \<Rightarrow>
      case inb P PIC2_DATA h1 of (m2, h2) \<Rightarrow>
        let slow = foldl (\<lambda>h (port, v). io_wait P (outb P port v h)) h2
              [(PIC1_CMD, 0x11), (PIC2_CMD, 0x11), (PIC1_DATA, 0x20), (PIC2_DATA, 0x28),
               (PIC1_DATA, 0x04), (PIC2_DATA, 0x02), (PIC1_DATA, 0x01), (PIC2_DATA, 0x01)]
        in outs P [(PIC1_DATA, m1), (PIC2_DATA, m2), (PIC1_DATA, 0xFF), (PIC2_DATA, 0xFF)] slow)"

definition unmask_bit :: "'h ports \<Rightarrow> u16 \<Rightarrow> nat \<Rightarrow> 'h \<Rightarrow> 'h" where
  "unmask_bit P port n h = (case inb P port h of (m, h1) \<Rightarrow> outb P port (m AND NOT (push_bit n 1)) h1)"

definition pic_unmask :: "'h ports \<Rightarrow> u8 \<Rightarrow> 'h \<Rightarrow> 'h" where
  "pic_unmask P irq h =
     (let h1 = unmask_bit P (if irq < 8 then PIC1_DATA else PIC2_DATA) (unat (irq AND 7)) h
      in if 8 \<le> irq then unmask_bit P PIC1_DATA 2 h1 else h1)"

subsection \<open>The timer and the serial line\<close>

definition on_tick :: "u32 \<Rightarrow> u32" where
  "on_tick ticks = ticks + 1"

text \<open>The division faults for a rate of 0: None.\<close>

definition pit_init :: "'h ports \<Rightarrow> u32 \<Rightarrow> 'h \<Rightarrow> 'h option" where
  "pit_init P hz h =
     (if hz = 0 then None
      else let divisor = 1193180 div hz in
        Some (pic_unmask P 0 (outs P [(0x43, 0x36), (0x40, ucast (divisor AND 0xFF)), (0x40, ucast (drop_bit 8 divisor AND 0xFF))] h)))"

definition COM1 :: u16 where "COM1 = 0x3F8"

definition serial_init :: "'h ports \<Rightarrow> 'h \<Rightarrow> 'h" where
  "serial_init P h = outs P [(COM1 + 1, 0x00), (COM1 + 3, 0x80), (COM1, 0x03), (COM1 + 1, 0x00), (COM1 + 3, 0x03), (COM1 + 2, 0xC7), (COM1 + 4, 0x0B)] h"

text \<open>Waiting for the transmitter; None when it never gets ready.\<close>

partial_function (option) wait_tx :: "'h ports \<Rightarrow> 'h \<Rightarrow> 'h option" where
  "wait_tx P h = (case inb P (COM1 + 5) h of (v, h1) \<Rightarrow> if v AND 0x20 \<noteq> 0 then Some h1 else wait_tx P h1)"

definition serial_putc :: "'h ports \<Rightarrow> u8 \<Rightarrow> 'h \<Rightarrow> 'h option" where
  "serial_putc P c h = do {
     h1 \<leftarrow> (if c = 10 then do { g \<leftarrow> wait_tx P h; Some (outb P COM1 13 g) } else Some h);
     h2 \<leftarrow> wait_tx P h1;
     Some (outb P COM1 c h2) }"

primrec serial_puts :: "'h ports \<Rightarrow> bytes \<Rightarrow> 'h \<Rightarrow> 'h option" where
  "serial_puts P [] h = Some h"
| "serial_puts P (c # s) h = (if c = 0 then Some h else do { h1 \<leftarrow> serial_putc P c h; serial_puts P s h1 })"

subsection \<open>What the processor finds in the tables\<close>

definition gate_handler :: "idt_entry \<Rightarrow> u32" where
  "gate_handler e = (ucast (gate_lo e) OR push_bit 16 (ucast (gate_hi e)))"

definition gate_present :: "idt_entry \<Rightarrow> bool" where
  "gate_present e \<longleftrightarrow> bit (gate_flags e) 7"

lemma gate_handler_set: "gate_handler (idt_gate a s fl) = a"
proof -
  have m: "(0xFFFF :: u32) = mask 16" by (simp add: mask_eq_exp_minus_1)
  have "n < 32 \<Longrightarrow> \<not> n < 16 \<Longrightarrow> n - 16 < 16 \<and> 16 + (n - 16) = n" for n :: nat by simp
  then show ?thesis
    unfolding gate_handler_def idt_gate_def m by (intro bit_word_eqI) (auto simp: bit_simps)
qed

lemma length_gates: "length (foldl (\<lambda>t (n, a). t[n := idt_gate a s fl]) t ws) = length t"
  by (induction ws arbitrary: t) auto

lemma foldl_gates:
  "distinct (map fst ws) \<Longrightarrow> \<forall>(n, a)\<in>set ws. n < length t \<Longrightarrow> i < length t \<Longrightarrow>
   foldl (\<lambda>t (n, a). t[n := idt_gate a s fl]) t ws ! i = (case map_of ws i of Some a \<Rightarrow> idt_gate a s fl | None \<Rightarrow> t ! i)"
proof (induction ws arbitrary: t)
  case (Cons w ws)
  obtain n a where w: "w = (n, a)" by (cases w)
  have "map_of ws n = None" using Cons.prems(1) w by (simp add: map_of_eq_None_iff)
  with Cons.IH [of "t[n := idt_gate a s fl]"] Cons.prems w show ?case by (auto split: option.split)
qed simp

text \<open>after idt_init the processor finds the stub of each of the 32 exceptions, the 16 interrupt requests and the
  system call behind a present gate of the kernel's code segment, and no other gate is present.\<close>

lemma idt_gates:
  "length (idt_init isr irq) = 256 \<and>
   (\<forall>n<256. let e = idt_init isr irq ! n in
      if n < 48 \<or> n = 128 then gate_present e \<and> gate_sel e = 8
        \<and> gate_handler e = (if n < 32 \<or> n = 128 then isr n else irq (n - 32))
      else \<not> gate_present e)"
proof -
  have "[0..<32] @ map ((+) 32) [0..<16] = [0..<48]" by (rule nth_equalityI) (auto simp: nth_append)
  then have "map fst (idt_stubs isr irq) = [0..<48] @ [128]" by (simp add: idt_stubs_def comp_def)
  then have d: "distinct (map fst (idt_stubs isr irq))" and b: "\<forall>(n, a)\<in>set (idt_stubs isr irq). n < 256"
    by (simp, auto simp: idt_stubs_def)
  have m: "map_of (idt_stubs isr irq) n = (if n < 32 \<or> n = 128 then Some (isr n) else if n < 48 then Some (irq (n - 32)) else None)" for n
  proof -
    have "map_of (map (\<lambda>k. (c + k, f k)) [0..<j]) n = (if c \<le> n \<and> n < c + j then Some (f (n - c)) else None)"
      for c j and f :: "nat \<Rightarrow> u32" by (induction j) (auto simp: map_add_def)
    from this [of 0 "\<lambda>k. isr k" 32] this [of 32 "\<lambda>k. irq k" 16]
    show ?thesis by (auto simp: idt_stubs_def map_add_def simp del: upt_rec_numeral)
  qed
  have f: "bit (0x8E :: u8) 7" "\<not> bit (0 :: u8) 7" by (simp_all add: bit_iff_odd)
  have e: "idt_init isr irq ! n = (case map_of (idt_stubs isr irq) n of Some a \<Rightarrow> idt_gate a 8 0x8E | None \<Rightarrow> idt_gate 0 0 0)" if "n < 256" for n
    using foldl_gates [OF d, of "replicate 256 (idt_gate 0 0 0)" n 8 "0x8E"] b that by (simp add: idt_init_def split: option.split)
  have "length (idt_init isr irq) = 256" by (simp add: idt_init_def length_gates)
  moreover have "gate_flags (idt_gate a s fl) = fl" "gate_sel (idt_gate a s fl) = s" for a s fl by (simp_all add: idt_gate_def)
  ultimately show ?thesis by (auto simp: e m gate_present_def gate_handler_set f Let_def)
qed

end
