(* ===== verification/Edit.thy ===== *)
theory Edit
  imports Vga Printf FatFile Clipboard Keyboard "HOL-Library.Monad_Syntax" "HOL-Library.Signed_Division"
begin

text \<open>
  The text editor of shell/edit.c. A row of the buffer is its text up to the terminator; everything the
  code does with a row goes through strlen, and byte 119 of a row is always zero. A state that the code
  reaches by writing outside its arrays, or a copy with a negative size, has no successor (None), and so has
  a read from a keyboard on which no more keys are pressed. The screen is a field of the state, and so is
  the position given to the hardware cursor.
\<close>

definition MAX_LINES :: nat where "MAX_LINES = 256"
definition MAX_LINE :: nat where "MAX_LINE = 120"
definition MAX_UNDO :: nat where "MAX_UNDO = 32"
definition TAB_STOP :: int where "TAB_STOP = 4"

datatype ed_mode = M_NORMAL | M_INSERT | M_VISUAL | M_CMDLINE | M_SEARCH

datatype undo_op = U_MODIFY | U_INSERT_LINE | U_DELETE_LINE

record undo =
  u_op :: undo_op
  u_row :: int
  u_old :: bytes
  u_new :: bytes

record 'd editor =
  rows :: "bytes list"
  line_count :: int
  dirty :: bool
  filepath :: bytes
  cur_row :: int
  cur_col :: int
  view_off :: int
  v_col_save :: int
  ed_mode :: ed_mode
  v_arow :: int
  v_acol :: int
  undostk :: "undo list"
  undopos :: nat
  search_pat :: bytes
  search_dir :: int
  msgline :: bytes
  scr :: vga
  hw_cursor :: "int \<times> int"
  ed_keys :: "int list"
  ed_clip :: clip
  ed_fs :: "'d fsys"

type_synonym 'd ed_op = "'d editor \<Rightarrow> 'd editor option"

text \<open>The text of a row; there is none outside the array.\<close>

definition row_at :: "int \<Rightarrow> 'd editor \<Rightarrow> bytes option" where
  "row_at r E = (if 0 \<le> r \<and> r < int MAX_LINES then Some (rows E ! nat r) else None)"

definition put_row :: "int \<Rightarrow> bytes \<Rightarrow> 'd ed_op" where
  "put_row r t E = (if 0 \<le> r \<and> r < int MAX_LINES then Some (E\<lparr>rows := (rows E)[nat r := t]\<rparr>) else None)"

text \<open>The two loops that move rows: rows r to n - 1 one down, rows from r + k to n - 1 up to r.\<close>

definition rows_down :: "int \<Rightarrow> 'd ed_op" where
  "rows_down r E =
     (let n = line_count E in
      if r < n \<and> (r < 0 \<or> int MAX_LINES \<le> n) then None
      else Some (E\<lparr>rows := map (\<lambda>i. if r < int i \<and> int i \<le> n then rows E ! (i - 1) else rows E ! i) [0..<MAX_LINES]\<rparr>))"

definition rows_up :: "int \<Rightarrow> int \<Rightarrow> 'd ed_op" where
  "rows_up r k E =
     (let n = line_count E in
      if r + k < n \<and> (r < 0 \<or> int MAX_LINES < n) then None
      else Some (E\<lparr>rows := map (\<lambda>i. if r \<le> int i \<and> int i + k < n then rows E ! nat (int i + k) else rows E ! i) [0..<MAX_LINES]\<rparr>))"

subsection \<open>Columns\<close>

text \<open>The width of the first n characters, and the character at a width.\<close>

definition next_col :: "int \<Rightarrow> u8 \<Rightarrow> int" where
  "next_col sc c = (if c = 9 then sc + (TAB_STOP - sc mod TAB_STOP) else sc + 1)"

definition text_width :: "bytes \<Rightarrow> int" where
  "text_width t = foldl next_col 0 t"

definition col_to_screen :: "int \<Rightarrow> int \<Rightarrow> 'd editor \<Rightarrow> int option" where
  "col_to_screen r c E = map_option (\<lambda>t. text_width (take (nat c) t)) (row_at r E)"

primrec col_at :: "int \<Rightarrow> int \<Rightarrow> bytes \<Rightarrow> int" where
  "col_at s_col sc [] = 0"
| "col_at s_col sc (c # t) =
     (if (if c = 9 then s_col < next_col sc c else s_col \<le> sc) then 0 else 1 + col_at s_col (next_col sc c) t)"

definition screen_to_col :: "int \<Rightarrow> int \<Rightarrow> 'd editor \<Rightarrow> int option" where
  "screen_to_col r s_col E = map_option (col_at s_col 0) (row_at r E)"

definition ensure_visible :: "'d editor \<Rightarrow> 'd editor" where
  "ensure_visible E =
     (let v = (if cur_row E < view_off E then cur_row E else if view_off E + 23 \<le> cur_row E then cur_row E - 22 else view_off E)
      in E\<lparr>view_off := max 0 v\<rparr>)"

text \<open>Where most commands end: the column to come back to, and the view.\<close>

definition save_col :: "'d ed_op" where
  "save_col E = map_option (\<lambda>w. E\<lparr>v_col_save := w\<rparr>) (col_to_screen (cur_row E) (cur_col E) E)"

definition settle :: "'d ed_op" where
  "settle E = map_option ensure_visible (save_col E)"

subsection \<open>The screen\<close>

definition set_msg :: "bytes \<Rightarrow> 'd editor \<Rightarrow> 'd editor" where
  "set_msg s E =
     (let m = take 79 (chars s)
      in E\<lparr>msgline := m, scr := vga_write 24 0 m 7 0 (vga_fill 24 0 80 1 0x20 7 0 (scr E))\<rparr>)"

definition printed :: "nat \<Rightarrow> bytes \<Rightarrow> arg list \<Rightarrow> bytes" where
  "printed n fmt as = (case ksnprintf (replicate n 0) n fmt as of Some (s, _) \<Rightarrow> chars s | None \<Rightarrow> [])"

definition draw_char :: "int \<Rightarrow> u8 \<Rightarrow> u8 \<Rightarrow> vga \<times> int \<Rightarrow> u8 \<Rightarrow> vga \<times> int" where
  "draw_char r fg bg p c =
     (case p of (v, col) \<Rightarrow>
        if 80 \<le> col then (v, col)
        else if c = 9 then
          (let e = min 80 (col + (TAB_STOP - (col - 5) mod TAB_STOP))
           in (foldl (\<lambda>v x. vga_write r x [0x20] fg bg v) v [col..e - 1], e))
        else if 0x20 \<le> sint c then (vga_write r col [c] fg bg v, col + 1)
        else (v, col))"

definition draw_line :: "int \<Rightarrow> int \<Rightarrow> u8 \<Rightarrow> u8 \<Rightarrow> 'd editor \<Rightarrow> 'd editor" where
  "draw_line r i fg bg E =
     (let v = vga_fill r 0 80 1 0x20 fg bg (scr E) in
      if i < 0 \<or> line_count E \<le> i then E\<lparr>scr := v\<rparr>
      else
        let v1 = vga_write r 0 (printed 6 (lit ''%3d: '') [ArgWord (of_int (i + 1))]) 8 bg v
        in E\<lparr>scr := fst (foldl (draw_char r fg bg) (v1, 5) (rows E ! nat i))\<rparr>)"

definition selected :: "'d editor \<Rightarrow> int \<times> int" where
  "selected E =
     (if v_arow E < cur_row E \<or> v_arow E = cur_row E \<and> v_acol E \<le> cur_col E then (v_arow E, cur_row E) else (cur_row E, v_arow E))"

definition line_colours :: "int \<Rightarrow> 'd editor \<Rightarrow> u8 \<times> u8" where
  "line_colours i E =
     (if ed_mode E = M_VISUAL then
        (case selected E of (a, b) \<Rightarrow> if a \<le> i \<and> i \<le> b then (0, 3) else (7, 0))
      else if i = cur_row E then (0, 7) else (7, 0))"

definition redraw_screen :: "'d editor \<Rightarrow> 'd editor" where
  "redraw_screen E =
     foldl (\<lambda>E i. case line_colours (view_off E + i) E of (fg, bg) \<Rightarrow> draw_line i (view_off E + i) fg bg E) E [0..22]"

definition mode_name :: "ed_mode \<Rightarrow> string" where
  "mode_name m = (case m of M_NORMAL \<Rightarrow> ''NORM'' | M_INSERT \<Rightarrow> ''INS'' | M_VISUAL \<Rightarrow> ''VIS'' | M_CMDLINE \<Rightarrow> ''CMD'' | M_SEARCH \<Rightarrow> ''SRCH'')"

definition status_line :: "'d editor \<Rightarrow> 'd editor" where
  "status_line E =
     (let n = line_count E;
          pct = (if n = 0 then 0 else ((cur_row E + 1) * 100) sdiv n);
          s = printed 80 (lit '' %s  %s %s  %d:%d  %d%%'')
                [ArgStr (Some (lit (mode_name (ed_mode E)))), ArgStr (Some (filepath E)), ArgStr (Some (lit (if dirty E then ''[+]'' else ''   ''))),
                 ArgWord (of_int (cur_row E + 1)), ArgWord (of_int (cur_col E + 1)), ArgWord (of_int pct)]
      in E\<lparr>scr := vga_write 23 0 s 15 1 (vga_fill 23 0 80 1 0x20 15 1 (scr E)), hw_cursor := (24, 0)\<rparr>)"

definition refresh :: "'d editor \<Rightarrow> 'd editor" where
  "refresh E = status_line (redraw_screen E)"

text \<open>The cursor in the text, or in a corner when it is out of view.\<close>

definition place_cursor :: "'d ed_op" where
  "place_cursor E =
     map_option (\<lambda>w. let r = cur_row E - view_off E; c = 5 + w
       in E\<lparr>hw_cursor := if 0 \<le> r \<and> r < 23 \<and> c < 80 then (r, c) else (23, 79)\<rparr>)
       (col_to_screen (cur_row E) (cur_col E) E)"

subsection \<open>Undo\<close>

definition push_undo :: "undo_op \<Rightarrow> int \<Rightarrow> bytes \<Rightarrow> bytes \<Rightarrow> 'd editor \<Rightarrow> 'd editor" where
  "push_undo op r old new E =
     (let st = take (undopos E) (undostk E);
          st1 = (if MAX_UNDO \<le> length st then tl st else st);
          st2 = st1 @ [\<lparr>u_op = op, u_row = r, u_old = take (MAX_LINE - 1) old, u_new = take (MAX_LINE - 1) new\<rparr>]
      in E\<lparr>undostk := st2, undopos := length st2\<rparr>)"

definition upd_undo :: "(undo \<Rightarrow> undo) \<Rightarrow> nat \<Rightarrow> 'd editor \<Rightarrow> 'd editor" where
  "upd_undo f i E = E\<lparr>undostk := (undostk E)[i := f (undostk E ! i)]\<rparr>"

text \<open>A row goes away, or comes in: the shared parts of undo and redo.\<close>

definition drop_row :: "int \<Rightarrow> 'd ed_op" where
  "drop_row r E = do {
     E1 \<leftarrow> rows_up r 1 E;
     let n = line_count E1 - 1;
     Some (E1\<lparr>line_count := n, cur_row := if n \<le> cur_row E1 then n - 1 else cur_row E1, cur_col := 0\<rparr>) }"

definition bring_row :: "int \<Rightarrow> bytes \<Rightarrow> 'd ed_op" where
  "bring_row r t E = do {
     E1 \<leftarrow> rows_down r E;
     E2 \<leftarrow> put_row r t E1;
     Some (E2\<lparr>line_count := line_count E2 + 1, cur_row := r, cur_col := 0\<rparr>) }"

definition swap_row :: "int \<Rightarrow> bytes \<Rightarrow> 'd ed_op" where
  "swap_row r t E = map_option (\<lambda>E1. E1\<lparr>cur_row := r, cur_col := 0, dirty := True\<rparr>) (put_row r t E)"

definition undo_done :: "string \<Rightarrow> 'd editor \<Rightarrow> 'd editor" where
  "undo_done m E = set_msg (lit m) (ensure_visible (E\<lparr>cur_row := max 0 (cur_row E)\<rparr>))"

definition do_undo :: "'d ed_op" where
  "do_undo E =
     (if undopos E = 0 then Some (set_msg (lit ''no undo'') E)
      else
        let i = undopos E - 1; u = undostk E ! i; E1 = E\<lparr>undopos := i\<rparr> in
        map_option (undo_done ''undo'')
          (case u_op u of
             U_MODIFY \<Rightarrow> do {
               t \<leftarrow> row_at (u_row u) E1;
               E2 \<leftarrow> swap_row (u_row u) (u_old u) E1;
               Some (upd_undo (\<lambda>u. u\<lparr>u_old := t\<rparr>) i E2) }
           | U_INSERT_LINE \<Rightarrow> drop_row (u_row u) E1
           | U_DELETE_LINE \<Rightarrow> bring_row (u_row u) (u_old u) E1))"

definition do_redo :: "'d ed_op" where
  "do_redo E =
     (if length (undostk E) \<le> undopos E then Some (set_msg (lit ''no redo'') E)
      else
        let i = undopos E; u = undostk E ! i; E1 = E\<lparr>undopos := i + 1\<rparr> in
        map_option (undo_done ''redo'')
          (case u_op u of
             U_MODIFY \<Rightarrow> do {
               t \<leftarrow> row_at (u_row u) E1;
               E2 \<leftarrow> swap_row (u_row u) (u_new u) E1;
               Some (upd_undo (\<lambda>u. u\<lparr>u_new := t\<rparr>) i E2) }
           | U_INSERT_LINE \<Rightarrow> bring_row (u_row u) (u_new u) E1
           | U_DELETE_LINE \<Rightarrow> drop_row (u_row u) E1))"

subsection \<open>Files\<close>

text \<open>The lines of the bytes read: a line ends at a newline and keeps at most 119 characters, carriage returns
  are dropped, and at most 256 lines are kept.\<close>

primrec line_scan :: "nat \<Rightarrow> bytes \<Rightarrow> bytes \<times> bytes" where
  "line_scan l [] = ([], [])"
| "line_scan l (c # p) =
     (if c = 10 \<or> MAX_LINE - 1 \<le> l then ([], c # p)
      else if c = 13 then line_scan l p
      else (case line_scan (l + 1) p of (t, q) \<Rightarrow> (c # t, q)))"

lemma length_line_scan: "length (snd (line_scan l p)) \<le> length p"
proof (induction p arbitrary: l)
  case (Cons c p)
  then show ?case by (auto split: prod.splits simp: le_SucI) (metis le_SucI snd_conv)
qed simp

lemma line_rest_shorter:
  assumes "p \<noteq> []"
  shows "length (tl (dropWhile (\<lambda>c. c \<noteq> 10) (snd (line_scan 0 p)))) < length p"
proof -
  have "length (dropWhile (\<lambda>c. c \<noteq> 10) (snd (line_scan 0 p))) \<le> length p"
    using length_dropWhile_le length_line_scan le_trans by blast
  then show ?thesis using assms by (cases p) auto
qed

function load_lines :: "nat \<Rightarrow> bytes \<Rightarrow> bytes list" where
  "load_lines n p =
     (if p = [] \<or> MAX_LINES \<le> n then []
      else case line_scan 0 p of (t, q) \<Rightarrow> chars t # load_lines (n + 1) (tl (dropWhile (\<lambda>c. c \<noteq> 10) q)))"
  by pat_completeness auto

termination
  by (relation "measure (\<lambda>(n, p). length p)") (auto simp del: length_tl, metis line_rest_shorter snd_conv)

declare load_lines.simps [simp del]

definition LOAD_MAX :: nat where "LOAD_MAX = 16 * 1024"

definition load_file :: "bytes \<Rightarrow> 'd editor \<Rightarrow> (int \<times> 'd editor) option" where
  "load_file path E = do {
     (F1, h) \<leftarrow> fs_open (ed_fs E) path;
     (if h < 0 then Some (0, E\<lparr>ed_fs := F1, line_count := 0\<rparr>)
      else
        let sz = fs_size F1 h in
        if sz < 0 then Some (-1, E\<lparr>ed_fs := fst (fs_close F1 h)\<rparr>)
        else do {
          (F2, bs, n) \<leftarrow> fs_read F1 h (nat (min sz (int LOAD_MAX - 1)));
          let E1 = E\<lparr>ed_fs := fst (fs_close F2 h)\<rparr>;
          (if n < 0 then Some (-1, E1)
           else let ls = load_lines 0 bs in Some (0, E1\<lparr>rows := ls @ drop (length ls) (rows E1), line_count := int (length ls)\<rparr>)) }) }"

text \<open>save_file writes every row and a newline.\<close>

primrec save_rows :: "int \<Rightarrow> bytes list \<Rightarrow> 'd fsys \<Rightarrow> 'd fsys option" where
  "save_rows h [] F = Some F"
| "save_rows h (t # ts) F = do {
     F1 \<leftarrow> (if t = [] then Some F else map_option fst (fs_write F h t));
     (F2, _) \<leftarrow> fs_write F1 h [10];
     save_rows h ts F2 }"

definition save_file :: "bytes \<Rightarrow> 'd editor \<Rightarrow> (int \<times> 'd editor) option" where
  "save_file path E = do {
     (F1, _) \<leftarrow> fs_unlink (ed_fs E) path;
     (F2, made) \<leftarrow> fs_create F1 path;
     (if made < 0 then Some (-1, E\<lparr>ed_fs := F2\<rparr>)
      else do {
        (F3, h) \<leftarrow> fs_open F2 path;
        (if h < 0 then Some (-1, E\<lparr>ed_fs := F3\<rparr>)
         else do {
           F4 \<leftarrow> save_rows h (take (nat (line_count E)) (rows E)) F3;
           Some (0, E\<lparr>ed_fs := fst (fs_close F4 h)\<rparr>) }) }) }"

definition save_current :: "'d editor \<Rightarrow> (int \<times> 'd editor) option" where
  "save_current E = do {
     (r, E1) \<leftarrow> save_file (filepath E) E;
     Some (if r = 0 then (0, set_msg (lit ''written'') (E1\<lparr>dirty := False\<rparr>)) else (-1, set_msg (lit ''write failed'') E1)) }"

definition fresh_buffer :: "bytes \<Rightarrow> 'd editor \<Rightarrow> 'd editor" where
  "fresh_buffer path E =
     E\<lparr>filepath := take (FS_PATH_MAX - 1) (chars path), line_count := 0, dirty := False, undostk := [], undopos := 0,
       cur_row := 0, cur_col := 0, view_off := 0\<rparr>"

definition edit_file :: "bytes \<Rightarrow> 'd ed_op" where
  "edit_file path E = do {
     (r, E1) \<leftarrow> load_file path (fresh_buffer path E);
     Some (if r < 0 then set_msg (lit ''cannot read file'') E1 else E1) }"

subsection \<open>Movement\<close>

definition row_len :: "int \<Rightarrow> 'd editor \<Rightarrow> int option" where
  "row_len r E = map_option (int \<circ> length) (row_at r E)"

definition move_left :: "'d ed_op" where
  "move_left E =
     (if 0 < cur_col E then settle (E\<lparr>cur_col := cur_col E - 1\<rparr>)
      else if 0 < cur_row E then do { n \<leftarrow> row_len (cur_row E - 1) E; settle (E\<lparr>cur_row := cur_row E - 1, cur_col := n\<rparr>) }
      else settle (E\<lparr>cur_row := max 0 (cur_row E)\<rparr>))"

definition move_right :: "'d ed_op" where
  "move_right E = do {
     n \<leftarrow> row_len (cur_row E) E;
     settle (if cur_col E < n then E\<lparr>cur_col := cur_col E + 1\<rparr>
       else if cur_row E + 1 < line_count E then E\<lparr>cur_row := cur_row E + 1, cur_col := 0\<rparr> else E) }"

text \<open>To another row, in the column remembered.\<close>

definition to_row :: "int \<Rightarrow> 'd ed_op" where
  "to_row r E = do {
     c \<leftarrow> screen_to_col r (v_col_save E) E;
     n \<leftarrow> row_len r E;
     Some (ensure_visible (E\<lparr>cur_row := r, cur_col := min c n\<rparr>)) }"

definition move_up :: "'d ed_op" where
  "move_up E = (if cur_row E \<le> 0 then Some E else to_row (cur_row E - 1) E)"

definition move_down :: "'d ed_op" where
  "move_down E = (if line_count E \<le> cur_row E + 1 then Some E else to_row (cur_row E + 1) E)"

text \<open>Past the next word and the spaces after it; back to the start of a word.\<close>

definition word_end :: "bytes \<Rightarrow> nat \<Rightarrow> nat" where
  "word_end t c =
     (let c1 = c + length (takeWhile (\<lambda>b. b \<noteq> 0x20) (drop c t)) in c1 + length (takeWhile (\<lambda>b. b = 0x20) (drop c1 t)))"

definition move_word_fwd :: "'d ed_op" where
  "move_word_fwd E = do {
     t \<leftarrow> row_at (cur_row E) E;
     (if int (length t) \<le> cur_col E then
        Some (if cur_row E + 1 < line_count E then E\<lparr>cur_row := cur_row E + 1, cur_col := 0\<rparr> else E)
      else settle (E\<lparr>cur_col := int (word_end t (nat (cur_col E)))\<rparr>)) }"

primrec skip_back :: "bytes \<Rightarrow> nat \<Rightarrow> nat" where
  "skip_back t 0 = 0"
| "skip_back t (Suc c) = (if byte_at t (Suc c) = 0x20 then skip_back t c else Suc c)"

primrec word_start :: "bytes \<Rightarrow> nat \<Rightarrow> nat" where
  "word_start t 0 = 0"
| "word_start t (Suc c) = (if byte_at t c \<noteq> 0x20 then word_start t c else Suc c)"

definition move_word_bwd :: "'d ed_op" where
  "move_word_bwd E =
     (if cur_col E \<le> 0 then
        (if 0 < cur_row E then do { n \<leftarrow> row_len (cur_row E - 1) E; Some (E\<lparr>cur_row := cur_row E - 1, cur_col := n\<rparr>) } else Some E)
      else do {
        t \<leftarrow> row_at (cur_row E) E;
        (if int (length t) + 1 < cur_col E then None
         else settle (E\<lparr>cur_col := int (word_start t (skip_back t (nat (cur_col E - 1))))\<rparr>)) })"

definition move_line_start :: "'d editor \<Rightarrow> 'd editor" where
  "move_line_start E = E\<lparr>cur_col := 0, v_col_save := 0\<rparr>"

definition move_line_end :: "'d ed_op" where
  "move_line_end E = do { n \<leftarrow> row_len (cur_row E) E; save_col (E\<lparr>cur_col := n\<rparr>) }"

definition move_file_start :: "'d editor \<Rightarrow> 'd editor" where
  "move_file_start E = E\<lparr>cur_row := 0, cur_col := 0, view_off := 0, v_col_save := 0\<rparr>"

definition move_file_end :: "'d ed_op" where
  "move_file_end E =
     (let r = max 0 (line_count E - 1) in
      do { n \<leftarrow> row_len r E; save_col (ensure_visible (E\<lparr>cur_row := r, cur_col := n\<rparr>)) })"

end
