(* ===== verification/EditCmds.thy ===== *)
theory EditCmds
  imports Edit
begin

text \<open>
  The commands of the text editor of shell/edit.c: the editing actions, the loops of the insert, command-line
  and search modes, and the keys of the normal and the visual mode. A loop that reads keys takes the list of
  keys apart; None is a wait for a key that never comes or, as before, an access outside the buffers.
\<close>

subsection \<open>Editing\<close>

definition ins_at :: "nat \<Rightarrow> u8 \<Rightarrow> bytes \<Rightarrow> bytes" where
  "ins_at c b t = take c t @ b # drop c t"

text \<open>One character at the cursor. At one column past the terminator the copy is empty and the character lands
  behind the text; further out the size of the copy is negative.\<close>

definition put_char :: "u8 \<Rightarrow> 'd ed_op" where
  "put_char b E = do {
     t \<leftarrow> row_at (cur_row E) E;
     (if int MAX_LINE - 2 \<le> int (length t) then Some E
      else if int (length t) + 1 < cur_col E then None
      else if int (length t) < cur_col E then Some (E\<lparr>cur_col := cur_col E + 1\<rparr>)
      else do {
        E1 \<leftarrow> put_row (cur_row E) (ins_at (nat (cur_col E)) b t) E;
        Some (E1\<lparr>cur_col := cur_col E1 + 1\<rparr>) }) }"

text \<open>n spaces at once, as the loop for a tab stores them: it counts the length of the row itself.\<close>

definition put_spaces :: "nat \<Rightarrow> 'd ed_op" where
  "put_spaces n E = do {
     t \<leftarrow> row_at (cur_row E) E;
     (if int MAX_LINE - 2 \<le> int (length t) then Some E
      else if int (length t) + 1 < cur_col E then None
      else
        let k = min n (MAX_LINE - 2 - length t); E1 = E\<lparr>cur_col := cur_col E + int k\<rparr> in
        if int (length t) < cur_col E then Some E1
        else put_row (cur_row E) (take (nat (cur_col E)) t @ replicate k 0x20 @ drop (nat (cur_col E)) t) E1) }"

definition insert_char :: "u8 \<Rightarrow> 'd ed_op" where
  "insert_char c E =
     (if c = 9 then do {
        w \<leftarrow> col_to_screen (cur_row E) (cur_col E) E;
        E1 \<leftarrow> put_spaces (nat (TAB_STOP - w mod TAB_STOP)) E;
        settle (E1\<lparr>dirty := True\<rparr>) }
      else do {
        n \<leftarrow> row_len (cur_row E) E;
        (if int MAX_LINE - 2 \<le> n then Some E
         else do { E1 \<leftarrow> put_char c E; settle (E1\<lparr>dirty := True\<rparr>) }) })"

text \<open>Without the character at c; the copy covers the terminator too.\<close>

definition cut_at :: "int \<Rightarrow> bytes \<Rightarrow> bytes option" where
  "cut_at c t = (if c < 0 \<or> int (length t) < c then None else Some (take (nat c) t @ drop (nat c + 1) t))"

text \<open>The row after r is appended to it and goes away.\<close>

definition join_rows :: "int \<Rightarrow> 'd ed_op" where
  "join_rows r E = do {
     a \<leftarrow> row_at r E;
     b \<leftarrow> row_at (r + 1) E;
     E1 \<leftarrow> put_row r (a @ b) E;
     E2 \<leftarrow> rows_up (r + 1) 1 E1;
     Some (E2\<lparr>line_count := line_count E2 - 1\<rparr>) }"

definition delete_char :: "'d ed_op" where
  "delete_char E = do {
     t \<leftarrow> row_at (cur_row E) E;
     (if int (length t) \<le> cur_col E then
        (if line_count E \<le> cur_row E + 1 then Some E
         else do {
           b \<leftarrow> row_at (cur_row E + 1) E;
           (if MAX_LINE - 1 \<le> length t + length b then Some E
            else do {
              E1 \<leftarrow> join_rows (cur_row E) E;
              Some ((push_undo U_INSERT_LINE (cur_row E + 1) t (t @ b) E1)\<lparr>dirty := True\<rparr>) }) })
      else do {
        u \<leftarrow> cut_at (cur_col E) t;
        E1 \<leftarrow> put_row (cur_row E) u E;
        Some ((push_undo U_MODIFY (cur_row E) t u E1)\<lparr>dirty := True\<rparr>) }) }"

definition backspace_char :: "'d ed_op" where
  "backspace_char E =
     (if cur_col E \<le> 0 then
        (if cur_row E \<le> 0 then Some E
         else do {
           a \<leftarrow> row_at (cur_row E - 1) E;
           b \<leftarrow> row_at (cur_row E) E;
           (if MAX_LINE - 1 \<le> length a + length b then Some E
            else do {
              E1 \<leftarrow> join_rows (cur_row E - 1) E;
              settle (E1\<lparr>cur_row := cur_row E - 1, cur_col := int (length a), dirty := True\<rparr>) }) })
      else do {
        t \<leftarrow> row_at (cur_row E) E;
        u \<leftarrow> cut_at (cur_col E - 1) t;
        E1 \<leftarrow> put_row (cur_row E) u (E\<lparr>cur_col := cur_col E - 1\<rparr>);
        save_col ((push_undo U_MODIFY (cur_row E) t u E1)\<lparr>dirty := True\<rparr>) })"

definition split_line :: "'d ed_op" where
  "split_line E = do {
     t \<leftarrow> row_at (cur_row E) E;
     (if int (length t) < cur_col E \<or> cur_col E < 0 then None
      else do {
        E1 \<leftarrow> put_row (cur_row E) (take (nat (cur_col E)) t) E;
        E2 \<leftarrow> rows_down (cur_row E + 1) E1;
        E3 \<leftarrow> put_row (cur_row E + 1) (drop (nat (cur_col E)) t) E2;
        let E4 = E3\<lparr>line_count := line_count E3 + 1, cur_row := cur_row E3 + 1, cur_col := 0, v_col_save := 0\<rparr>;
        Some (ensure_visible ((push_undo U_INSERT_LINE (cur_row E4) t (drop (nat (cur_col E)) t) E4)\<lparr>dirty := True\<rparr>)) }) }"

text \<open>An empty buffer is one empty row.\<close>

definition one_row :: "'d ed_op" where
  "one_row E = (if line_count E = 0 then map_option (\<lambda>E1. E1\<lparr>line_count := 1\<rparr>) (put_row 0 [] E) else Some E)"

definition delete_line :: "'d ed_op" where
  "delete_line E =
     (if line_count E = 0 then Some E
      else do {
        t \<leftarrow> row_at (cur_row E) E;
        E1 \<leftarrow> rows_up (cur_row E) 1 (push_undo U_DELETE_LINE (cur_row E) t [] E);
        let n = line_count E1 - 1;
        E2 \<leftarrow> one_row (E1\<lparr>line_count := n\<rparr>);
        Some (ensure_visible (E2\<lparr>cur_row := if n \<noteq> 0 \<and> n \<le> cur_row E2 then n - 1 else cur_row E2, cur_col := 0, dirty := True, v_col_save := 0\<rparr>)) })"

definition delete_to_eol :: "'d ed_op" where
  "delete_to_eol E = do {
     t \<leftarrow> row_at (cur_row E) E;
     (if int (length t) \<le> cur_col E then Some E
      else do {
        let u = take (nat (cur_col E)) t;
        E1 \<leftarrow> put_row (cur_row E) u E;
        Some ((push_undo U_MODIFY (cur_row E) t u E1)\<lparr>dirty := True\<rparr>) }) }"

definition open_line :: "int \<Rightarrow> 'd ed_op" where
  "open_line r E = do {
     E1 \<leftarrow> rows_down r E;
     E2 \<leftarrow> put_row r [] E1;
     Some ((ensure_visible (E2\<lparr>line_count := line_count E2 + 1, cur_row := r, cur_col := 0, v_col_save := 0\<rparr>))\<lparr>ed_mode := M_INSERT\<rparr>) }"

definition open_line_below :: "'d ed_op" where
  "open_line_below E = open_line (cur_row E + 1) E"

definition open_line_above :: "'d ed_op" where
  "open_line_above E = open_line (cur_row E) E"

subsection \<open>Pages\<close>

definition page_up :: "'d editor \<Rightarrow> 'd editor" where
  "page_up E = (let v = max 0 (view_off E - 22) in E\<lparr>view_off := v, cur_row := v\<rparr>)"

definition page_down :: "'d editor \<Rightarrow> 'd editor" where
  "page_down E =
     (let n = line_count E; v = (if n - 1 < view_off E + 22 then max 0 (n - 1) else view_off E + 22)
      in E\<lparr>view_off := v, cur_row := min (v + 22) (n - 1)\<rparr>)"

subsection \<open>Insert mode\<close>

text \<open>The row the entry for undo is about and its text when the mode was entered.\<close>

definition leave_insert :: "int \<Rightarrow> bytes \<Rightarrow> 'd ed_op" where
  "leave_insert row0 saved E =
     (if 0 \<le> row0 \<and> row0 < line_count E then do {
        t \<leftarrow> row_at row0 E;
        Some (refresh ((push_undo U_MODIFY row0 saved t E)\<lparr>ed_mode := M_NORMAL\<rparr>)) }
      else Some (refresh (E\<lparr>ed_mode := M_NORMAL\<rparr>)))"

definition insert_key :: "int \<Rightarrow> 'd ed_op" where
  "insert_key c E =
     (if c = 10 \<or> c = 13 then map_option refresh (split_line E)
      else if c = 8 then map_option refresh (backspace_char E)
      else if c = uint KB_LEFT then map_option refresh (move_left E)
      else if c = uint KB_RIGHT then map_option refresh (move_right E)
      else if c = uint KB_UP then map_option refresh (move_up E)
      else if c = uint KB_DOWN then map_option refresh (move_down E)
      else if c = uint KB_HOME then Some (refresh (move_line_start E))
      else if c = uint KB_END then map_option refresh (move_line_end E)
      else if c = uint KB_DEL then map_option refresh (delete_char E)
      else if c = uint KB_PGUP then Some (refresh (page_up E))
      else if c = uint KB_PGDN then Some (refresh (page_down E))
      else if 0x20 \<le> c \<and> c \<le> 0x7E then map_option refresh (insert_char (of_int c) E)
      else Some E)"

primrec insert_loop :: "int list \<Rightarrow> int \<Rightarrow> bytes \<Rightarrow> 'd ed_op" where
  "insert_loop [] row0 saved E = None"
| "insert_loop (c # ks) row0 saved E = do {
     E1 \<leftarrow> map_option (ed_keys_update (\<lambda>_. ks)) (place_cursor E);
     (if c = 27 then leave_insert row0 saved E1
      else do {
        E2 \<leftarrow> insert_key c E1;
        insert_loop ks (if c = 10 \<or> c = 13 then cur_row E2 else row0) saved E2 }) }"

definition do_insert_mode :: "'d ed_op" where
  "do_insert_mode E =
     (let E1 = E\<lparr>ed_mode := M_INSERT\<rparr> in
      do { t \<leftarrow> row_at (cur_row E1) E1; insert_loop (ed_keys E1) (cur_row E1) t (refresh E1) })"

subsection \<open>Command line and search\<close>

text \<open>The line typed after a colon, a slash or a question mark, the character itself included; none after Escape.\<close>

definition show_prompt :: "bytes \<Rightarrow> 'd editor \<Rightarrow> 'd editor" where
  "show_prompt b E =
     E\<lparr>scr := vga_write 24 0 b 7 0 (vga_fill 24 0 80 1 0x20 7 0 (scr E)), hw_cursor := (24, min (int (length b)) 79)\<rparr>"

primrec prompt_loop :: "int list \<Rightarrow> bytes \<Rightarrow> 'd editor \<Rightarrow> (bytes option \<times> 'd editor) option" where
  "prompt_loop [] b E = None"
| "prompt_loop (c # ks) b E =
     (let E1 = (show_prompt b E)\<lparr>ed_keys := ks\<rparr> in
      if c = 27 then Some (None, refresh (E1\<lparr>ed_mode := M_NORMAL\<rparr>))
      else if c = 10 \<or> c = 13 then Some (Some b, E1)
      else if c = 8 then prompt_loop ks (if 1 < length b then butlast b else b) E1
      else if 0x20 \<le> c \<and> c \<le> 0x7E \<and> length b < 78 then prompt_loop ks (b @ [of_int c]) E1
      else prompt_loop ks b E1)"

record flags =
  do_w :: bool
  do_q :: bool
  force :: bool
  do_e :: "bytes option"

text \<open>The letters of a command; what follows an e is a file name.\<close>

primrec parse_flags :: "bytes \<Rightarrow> flags \<Rightarrow> flags" where
  "parse_flags [] f = f"
| "parse_flags (c # p) f =
     (if c = 0x77 \<or> c = 0x57 then parse_flags p (f\<lparr>do_w := True\<rparr>)
      else if c = 0x71 \<or> c = 0x51 then parse_flags p (f\<lparr>do_q := True\<rparr>)
      else if c = 0x21 then parse_flags p (f\<lparr>force := True\<rparr>)
      else if c = 0x65 \<or> c = 0x45 then f\<lparr>do_e := Some p\<rparr>
      else parse_flags p f)"

definition no_flags :: flags where
  "no_flags = \<lparr>do_w = False, do_q = False, force = False, do_e = None\<rparr>"

text \<open>A command line runs; True is the signal to quit.\<close>

definition run_cmdline :: "bytes \<Rightarrow> 'd editor \<Rightarrow> (bool \<times> 'd editor) option" where
  "run_cmdline b E =
     (let f = parse_flags (dropWhile (\<lambda>c. c = 0x20) (tl b)) no_flags in
      case do_e f of
        Some p \<Rightarrow>
          (let fn = dropWhile (\<lambda>c. c = 0x20) p in
           if fn = [] then Some (False, refresh E)
           else if dirty E \<and> \<not> force f then Some (False, refresh (set_msg (lit ''unsaved -- :e! discards changes'') E))
           else map_option (\<lambda>E1. (False, refresh E1)) (edit_file fn E))
      | None \<Rightarrow> do {
          (r, E1) \<leftarrow> (if do_w f then save_current E else Some (0, E));
          (if r < 0 then Some (False, refresh E1)
           else if do_q f then
             (if dirty E1 \<and> \<not> force f then Some (False, refresh (set_msg (lit ''unsaved -- :q! or :wq'') E1)) else Some (True, E1))
           else Some (False, refresh E1)) })"

definition do_cmdline :: "'d editor \<Rightarrow> (bool \<times> 'd editor) option" where
  "do_cmdline E = do {
     (b, E1) \<leftarrow> prompt_loop (ed_keys E) [0x3A] (E\<lparr>ed_mode := M_CMDLINE\<rparr>);
     (case b of None \<Rightarrow> Some (False, E1) | Some l \<Rightarrow> run_cmdline l (E1\<lparr>ed_mode := M_NORMAL\<rparr>)) }"

definition find_in_row :: "bytes \<Rightarrow> bytes \<Rightarrow> nat option" where
  "find_in_row pat t = first_idx (\<lambda>j. take (length pat) (drop j t) = pat) (length t)"

primrec search_rows :: "int list \<Rightarrow> 'd editor \<Rightarrow> (bool \<times> 'd editor) option" where
  "search_rows [] E = Some (False, set_msg (lit ''pattern not found'') E)"
| "search_rows (i # is) E =
     (let r = (cur_row E + i * search_dir E + line_count E) smod line_count E in do {
        t \<leftarrow> row_at r E;
        (case find_in_row (search_pat E) t of
           Some j \<Rightarrow> map_option (Pair True) (settle (E\<lparr>cur_row := r, cur_col := int j\<rparr>))
         | None \<Rightarrow> search_rows is E) })"

definition search_next :: "'d editor \<Rightarrow> (bool \<times> 'd editor) option" where
  "search_next E = (if search_pat E = [] then Some (False, E) else search_rows [1..line_count E] E)"

definition do_search :: "int \<Rightarrow> 'd ed_op" where
  "do_search dir E = do {
     (b, E1) \<leftarrow> prompt_loop (ed_keys E) [if dir = 1 then 0x2F else 0x3F] (E\<lparr>ed_mode := M_SEARCH, search_dir := dir\<rparr>);
     (case b of
        None \<Rightarrow> Some E1
      | Some l \<Rightarrow> map_option (refresh \<circ> snd) (search_next (E1\<lparr>search_pat := tl l, ed_mode := M_NORMAL\<rparr>))) }"

subsection \<open>Visual mode\<close>

text \<open>The columns c1 to c2 of a row; at the column past the last character the copy is empty and the row stays.\<close>

definition cut_range :: "nat \<Rightarrow> nat \<Rightarrow> bytes \<Rightarrow> bytes option" where
  "cut_range c1 c2 t = (if length t < c2 then None else if c2 = length t then Some t else Some (take c1 t @ drop (c2 + 1) t))"

definition visual_cut :: "int \<Rightarrow> 'd ed_op" where
  "visual_cut r E =
     (let c1 = min (v_acol E) (cur_col E); c2 = max (v_acol E) (cur_col E) in do {
        t \<leftarrow> row_at r E;
        (if c1 < int (length t) then do {
           u \<leftarrow> cut_range (nat c1) (nat c2) t;
           E1 \<leftarrow> put_row r u E;
           Some ((push_undo U_MODIFY r t u E1)\<lparr>dirty := True, cur_col := c1\<rparr>) }
         else Some E) })"

definition cut_rows :: "int \<Rightarrow> int \<Rightarrow> 'd ed_op" where
  "cut_rows r1 r2 E = do {
     t \<leftarrow> row_at r1 E;
     E1 \<leftarrow> rows_up r1 (r2 - r1 + 1) (push_undo U_DELETE_LINE r1 t [] E);
     E2 \<leftarrow> one_row (E1\<lparr>line_count := line_count E1 - (r2 - r1 + 1)\<rparr>);
     Some (E2\<lparr>cur_row := r1, cur_col := 0, dirty := True\<rparr>) }"

definition do_visual_delete :: "'d ed_op" where
  "do_visual_delete E =
     (case selected E of (r1, r2) \<Rightarrow> do {
        E1 \<leftarrow> (if r1 = r2 then visual_cut r1 E else cut_rows r1 r2 E);
        Some (ensure_visible (E1\<lparr>cur_row := if line_count E1 \<le> cur_row E1 then line_count E1 - 1 else cur_row E1, v_col_save := 0\<rparr>)) })"

text \<open>The keys both modes move with; None for another key.\<close>

definition next_key :: "'d editor \<Rightarrow> (int \<times> 'd editor) option" where
  "next_key E = (case ed_keys E of [] \<Rightarrow> None | c # ks \<Rightarrow> Some (c, E\<lparr>ed_keys := ks\<rparr>))"

definition move_key :: "int \<Rightarrow> 'd ed_op option" where
  "move_key c =
     (if c = 0x68 \<or> c = uint KB_LEFT then Some move_left
      else if c = 0x6A \<or> c = uint KB_DOWN then Some move_down
      else if c = 0x6B \<or> c = uint KB_UP then Some move_up
      else if c = 0x6C \<or> c = uint KB_RIGHT then Some move_right
      else if c = 0x77 then Some move_word_fwd
      else if c = 0x62 then Some move_word_bwd
      else if c = 0x30 then Some (\<lambda>E. Some (move_line_start E))
      else if c = 0x24 then Some move_line_end
      else if c = 0x67 then Some (\<lambda>E. do { (c2, E1) \<leftarrow> next_key E; Some (if c2 = 0x67 then move_file_start E1 else E1) })
      else if c = 0x47 then Some move_file_end
      else if c = uint KB_PGUP then Some (\<lambda>E. Some (ensure_visible (page_up E)))
      else if c = uint KB_PGDN then Some (\<lambda>E. Some (ensure_visible (page_down E)))
      else None)"

definition handle_visual :: "int \<Rightarrow> 'd ed_op" where
  "handle_visual c E =
     (case move_key c of
        Some m \<Rightarrow> m E
      | None \<Rightarrow>
          if c = 0x64 \<or> c = 0x78 then map_option (\<lambda>E1. redraw_screen (E1\<lparr>ed_mode := M_NORMAL\<rparr>)) (do_visual_delete E)
          else if c = 27 then Some (redraw_screen (E\<lparr>ed_mode := M_NORMAL\<rparr>))
          else Some E)"

subsection \<open>Normal mode\<close>

definition yank_line :: "'d ed_op" where
  "yank_line E = do {
     t \<leftarrow> row_at (cur_row E) E;
     Some (set_msg (lit ''yanked 1 line to clipboard'') (E\<lparr>ed_clip := clipboard_set (ed_clip E) (t @ [10]) (int (length t + 1))\<rparr>)) }"

definition yank_rest :: "'d ed_op" where
  "yank_rest E = do {
     t \<leftarrow> row_at (cur_row E) E;
     let u = drop (nat (cur_col E)) t;
     Some (set_msg (lit ''yanked to clipboard'') (E\<lparr>ed_clip := clipboard_set (ed_clip E) u (int (length u))\<rparr>)) }"

text \<open>The text of the clipboard, without a newline at its end, becomes one row.\<close>

definition paste_text :: "clip \<Rightarrow> bytes" where
  "paste_text c =
     (case clipboard_get c (replicate (MAX_LINE + 2) 0) (int MAX_LINE) of (b, n) \<Rightarrow>
        let m = (if 0 < n \<and> b ! nat (n - 1) = 10 then n - 1 else n) in chars (take (MAX_LINE - 1) (take (nat m) b)))"

definition paste_line :: "'d ed_op" where
  "paste_line E =
     (if clipboard_len (ed_clip E) \<le> 0 \<or> int MAX_LINES \<le> line_count E then Some E
      else do {
        E1 \<leftarrow> rows_down (cur_row E + 1) E;
        E2 \<leftarrow> put_row (cur_row E + 1) (paste_text (ed_clip E)) E1;
        Some (redraw_screen ((ensure_visible (E2\<lparr>line_count := line_count E2 + 1, cur_row := cur_row E + 1, cur_col := 0\<rparr>))\<lparr>dirty := True\<rparr>)) })"

text \<open>The keys that edit; the commands on a row need a buffer with rows.\<close>

definition edit_key :: "int \<Rightarrow> 'd ed_op" where
  "edit_key c E =
     (if c = 0x69 then do_insert_mode E
      else if c = 0x61 then do {
        n \<leftarrow> (if 0 < line_count E then row_len (cur_row E) E else Some 0);
        do_insert_mode (if 0 < line_count E \<and> cur_col E < n then E\<lparr>cur_col := cur_col E + 1\<rparr> else E) }
      else if c = 0x49 then do_insert_mode (move_line_start E)
      else if c = 0x41 then do { E1 \<leftarrow> move_line_end E; do_insert_mode E1 }
      else if c = 0x6F then do { E1 \<leftarrow> open_line_below E; do_insert_mode E1 }
      else if c = 0x4F then do { E1 \<leftarrow> open_line_above E; do_insert_mode E1 }
      else if c = 0x78 then (if 0 < line_count E then map_option redraw_screen (delete_char E) else Some E)
      else if c = 0x58 then (if 0 < line_count E then map_option redraw_screen (backspace_char E) else Some E)
      else if c = 0x64 then do {
        (c2, E1) \<leftarrow> next_key E;
        (if c2 = 0x64 then map_option redraw_screen (delete_line E1) else Some E1) }
      else if c = 0x44 then (if 0 < line_count E then map_option redraw_screen (delete_to_eol E) else Some E)
      else if c = 0x75 then map_option redraw_screen (do_undo E)
      else if c = 18 then map_option redraw_screen (do_redo E)
      else if c = 0x79 then do {
        (c2, E1) \<leftarrow> next_key E;
        (if c2 = 0x79 \<and> 0 < line_count E1 then yank_line E1 else Some E1) }
      else if c = 0x59 then (if 0 < line_count E then yank_rest E else Some E)
      else if c = 0x70 then paste_line E
      else Some E)"

definition handle_normal :: "int \<Rightarrow> 'd editor \<Rightarrow> (bool \<times> 'd editor) option" where
  "handle_normal c E =
     (case move_key c of
        Some m \<Rightarrow> map_option (Pair False) (m E)
      | None \<Rightarrow>
          if c = uint KB_HOME then Some (False, move_line_start E)
          else if c = uint KB_END then map_option (Pair False) (move_line_end E)
          else if c = 0x76 then Some (False, redraw_screen (E\<lparr>v_arow := cur_row E, v_acol := cur_col E, ed_mode := M_VISUAL\<rparr>))
          else if c = 0x3A then map_option (\<lambda>(q, E1). (q, if q then E1 else redraw_screen E1)) (do_cmdline E)
          else if c = 0x2F then map_option (Pair False) (do_search 1 E)
          else if c = 0x3F then map_option (Pair False) (do_search (-1) E)
          else if c = 0x6E then
            (if search_pat E \<noteq> [] then map_option (\<lambda>(_, E1). (False, redraw_screen E1)) (search_next E) else Some (False, E))
          else if c = 10 \<or> c = 13 then map_option (Pair False) (move_down E)
          else map_option (Pair False) (edit_key c E))"

subsection \<open>The program\<close>

text \<open>Every turn of the main loop reads a key, so with a bound above the number of keys, None is a wait for a key or
  an access outside the buffers, never the bound.\<close>

definition main_turn :: "'d editor \<Rightarrow> (bool \<times> 'd editor) option" where
  "main_turn E = do {
     E1 \<leftarrow> place_cursor (refresh E);
     (c, E2) \<leftarrow> next_key E1;
     (case ed_mode E2 of
        M_NORMAL \<Rightarrow> handle_normal c E2
      | M_VISUAL \<Rightarrow> map_option (Pair False) (handle_visual c E2)
      | _ \<Rightarrow> Some (False, E2)) }"

primrec main_loop :: "nat \<Rightarrow> 'd ed_op" where
  "main_loop 0 E = None"
| "main_loop (Suc f) E = do { (q, E1) \<leftarrow> main_turn E; if q then Some E1 else main_loop f E1 }"

text \<open>vga_clear changes the screen in the same way whatever is behind the ports.\<close>

definition cleared :: "vga \<Rightarrow> vga" where
  "cleared v = fst (vga_clear no_ports v ())"

definition edit_main :: "bytes \<Rightarrow> 'd editor \<Rightarrow> (int \<times> 'd editor) option" where
  "edit_main path E = do {
     (r, E1) \<leftarrow> load_file path (fresh_buffer path (E\<lparr>v_col_save := 0, search_pat := []\<rparr>));
     (if r < 0 then Some (-1, set_msg (lit ''evi: cannot read file'') E1)
      else do {
        E2 \<leftarrow> one_row E1;
        E3 \<leftarrow> main_loop (Suc (length (ed_keys E2)))
          (refresh (set_msg (lit ''evi -- H for help, :q to quit'') (E2\<lparr>ed_mode := M_NORMAL, scr := cleared (scr E2)\<rparr>)));
        Some (0, E3\<lparr>scr := cleared (scr E3)\<rparr>) }) }"

lemma cleared_any: "fst (vga_clear P v h) = cleared v"
  by (simp add: cleared_def vga_clear_def Let_def split_def)

end
