(* ===== verification/EditFacts.thy ===== *)
theory EditFacts
  imports EditCmds FatDirFacts
begin

text \<open>
  Facts about the text editor of shell/edit.c: the commands that move and edit keep the cursor in the text
  and never leave the buffers while there is room for a row, what typing and undo do to the text, and what
  undo loses.
\<close>

subsection \<open>Fields that drawing leaves alone\<close>

lemma draw_line_scr: "\<exists>v. draw_line r i fg bg E = E\<lparr>scr := v\<rparr>"
  by (auto simp: draw_line_def Let_def)

lemma draw_lines_scr: "\<exists>v. foldl (\<lambda>E i. case line_colours (view_off E + i) E of (fg, bg) \<Rightarrow> draw_line i (view_off E + i) fg bg E) E is = E\<lparr>scr := v\<rparr>"
proof (induction "is" arbitrary: E)
  case Nil
  show ?case by (rule exI [of _ "scr E"]) simp
next
  case (Cons i "is")
  obtain fg bg where c: "line_colours (view_off E + i) E = (fg, bg)" by fastforce
  obtain v where v: "draw_line i (view_off E + i) fg bg E = E\<lparr>scr := v\<rparr>" using draw_line_scr by blast
  show ?case using Cons.IH [of "E\<lparr>scr := v\<rparr>"] by (simp add: c v)
qed

lemma redraw_scr: "\<exists>v. redraw_screen E = E\<lparr>scr := v\<rparr>"
  unfolding redraw_screen_def by (rule draw_lines_scr)

lemma redraw_fields [simp]:
  "rows (redraw_screen E) = rows E" "line_count (redraw_screen E) = line_count E" "dirty (redraw_screen E) = dirty E"
  "cur_row (redraw_screen E) = cur_row E" "cur_col (redraw_screen E) = cur_col E" "view_off (redraw_screen E) = view_off E"
  "v_col_save (redraw_screen E) = v_col_save E" "ed_mode (redraw_screen E) = ed_mode E" "undostk (redraw_screen E) = undostk E"
  "undopos (redraw_screen E) = undopos E" "search_pat (redraw_screen E) = search_pat E" "ed_keys (redraw_screen E) = ed_keys E"
  "ed_clip (redraw_screen E) = ed_clip E" "ed_fs (redraw_screen E) = ed_fs E" "filepath (redraw_screen E) = filepath E"
  using redraw_scr [of E] by auto

lemma refresh_fields [simp]:
  "rows (refresh E) = rows E" "line_count (refresh E) = line_count E" "dirty (refresh E) = dirty E"
  "cur_row (refresh E) = cur_row E" "cur_col (refresh E) = cur_col E" "view_off (refresh E) = view_off E"
  "v_col_save (refresh E) = v_col_save E" "ed_mode (refresh E) = ed_mode E" "undostk (refresh E) = undostk E"
  "undopos (refresh E) = undopos E" "search_pat (refresh E) = search_pat E" "ed_keys (refresh E) = ed_keys E"
  "ed_clip (refresh E) = ed_clip E" "ed_fs (refresh E) = ed_fs E" "filepath (refresh E) = filepath E"
  by (simp_all add: refresh_def status_line_def Let_def)

lemma set_msg_fields [simp]:
  "rows (set_msg s E) = rows E" "line_count (set_msg s E) = line_count E" "dirty (set_msg s E) = dirty E"
  "cur_row (set_msg s E) = cur_row E" "cur_col (set_msg s E) = cur_col E" "undostk (set_msg s E) = undostk E"
  "undopos (set_msg s E) = undopos E"
  by (simp_all add: set_msg_def Let_def)

lemma visible_fields [simp]:
  "rows (ensure_visible E) = rows E" "line_count (ensure_visible E) = line_count E" "dirty (ensure_visible E) = dirty E"
  "cur_row (ensure_visible E) = cur_row E" "cur_col (ensure_visible E) = cur_col E" "undostk (ensure_visible E) = undostk E"
  "undopos (ensure_visible E) = undopos E" "ed_keys (ensure_visible E) = ed_keys E"
  by (simp_all add: ensure_visible_def Let_def)

lemma push_fields [simp]:
  "rows (push_undo p r a b E) = rows E" "line_count (push_undo p r a b E) = line_count E" "dirty (push_undo p r a b E) = dirty E"
  "cur_row (push_undo p r a b E) = cur_row E" "cur_col (push_undo p r a b E) = cur_col E" "ed_keys (push_undo p r a b E) = ed_keys E"
  by (simp_all add: push_undo_def Let_def)

subsection \<open>The text\<close>

text \<open>The rows in use, and a state whose cursor is in them.\<close>

definition ed_text :: "'d editor \<Rightarrow> bytes list" where
  "ed_text E = take (nat (line_count E)) (rows E)"

definition buf_ok :: "'d editor \<Rightarrow> bool" where
  "buf_ok E \<longleftrightarrow> length (rows E) = MAX_LINES \<and> 1 \<le> line_count E \<and> line_count E \<le> int MAX_LINES
     \<and> (\<forall>t\<in>set (ed_text E). length t < MAX_LINE)"

definition cursor_at :: "int \<Rightarrow> int \<Rightarrow> 'd editor \<Rightarrow> bool" where
  "cursor_at r c E \<longleftrightarrow> 0 \<le> r \<and> r < line_count E \<and> 0 \<le> c \<and> c \<le> int (length (ed_text E ! nat r))"

definition ed_ok :: "'d editor \<Rightarrow> bool" where
  "ed_ok E \<longleftrightarrow> buf_ok E \<and> cursor_at (cur_row E) (cur_col E) E"

lemma ed_fields [simp]:
  "ed_text (refresh E) = ed_text E" "buf_ok (refresh E) = buf_ok E" "ed_ok (refresh E) = ed_ok E"
  "ed_text (redraw_screen E) = ed_text E" "ed_ok (redraw_screen E) = ed_ok E"
  "ed_text (ensure_visible E) = ed_text E" "ed_ok (ensure_visible E) = ed_ok E"
  "ed_text (push_undo p r a b E) = ed_text E" "ed_ok (push_undo p r a b E) = ed_ok E"
  "ed_text (set_msg s E) = ed_text E"
  "ed_text (E\<lparr>cur_row := x\<rparr>) = ed_text E" "ed_text (E\<lparr>cur_col := y\<rparr>) = ed_text E" "ed_text (E\<lparr>v_col_save := y\<rparr>) = ed_text E"
  "ed_text (E\<lparr>dirty := d\<rparr>) = ed_text E" "ed_text (E\<lparr>ed_mode := m\<rparr>) = ed_text E" "ed_text (E\<lparr>ed_keys := ks\<rparr>) = ed_text E"
  "ed_text (E\<lparr>hw_cursor := h\<rparr>) = ed_text E" "ed_text (E\<lparr>view_off := y\<rparr>) = ed_text E"
  "ed_text (E\<lparr>undopos := q\<rparr>) = ed_text E" "ed_text (E\<lparr>undostk := st\<rparr>) = ed_text E"
  by (simp_all add: ed_ok_def cursor_at_def buf_ok_def ed_text_def)

lemma ed_ok_iff:
  "ed_ok E \<longleftrightarrow> buf_ok E \<and> 0 \<le> cur_row E \<and> cur_row E < line_count E \<and> 0 \<le> cur_col E \<and> cur_col E \<le> int (length (ed_text E ! nat (cur_row E)))"
  by (simp add: ed_ok_def cursor_at_def)

lemma length_ed_text: "buf_ok E \<Longrightarrow> length (ed_text E) = nat (line_count E)"
  by (auto simp: buf_ok_def ed_text_def)

lemma row_at_text: "buf_ok E \<Longrightarrow> 0 \<le> r \<Longrightarrow> r < line_count E \<Longrightarrow> row_at r E = Some (ed_text E ! nat r)"
  by (auto simp: buf_ok_def row_at_def ed_text_def)

lemma text_short: "buf_ok E \<Longrightarrow> 0 \<le> r \<Longrightarrow> r < line_count E \<Longrightarrow> length (ed_text E ! nat r) < MAX_LINE"
  using length_ed_text [of E] by (auto simp: buf_ok_def)

text \<open>The operations on rows, on the text.\<close>

lemma take_update: "take n (xs[i := x]) = (take n xs)[i := x]"
proof (induction xs arbitrary: n i)
  case (Cons a xs)
  then show ?case by (cases n; cases i) simp_all
qed simp

lemma put_row_text:
  assumes "buf_ok E" and "0 \<le> r" and "r < line_count E" and "length t < MAX_LINE"
  shows "\<exists>E1. put_row r t E = Some E1 \<and> E1 = E\<lparr>rows := (rows E)[nat r := t]\<rparr> \<and> buf_ok E1 \<and> ed_text E1 = (ed_text E)[nat r := t]"
proof -
  have n: "nat r < nat (line_count E)" using assms(2,3) by simp
  have e: "take (nat (line_count E)) ((rows E)[nat r := t]) = (ed_text E)[nat r := t]" unfolding ed_text_def by (rule take_update)
  have "set ((ed_text E)[nat r := t]) \<subseteq> insert t (set (ed_text E))" by (rule set_update_subset_insert)
  then show ?thesis using assms e by (auto simp: put_row_def buf_ok_def ed_text_def)
qed

lemma rows_down_text:
  assumes "buf_ok E" and "line_count E < int MAX_LINES" and "0 \<le> r" and "r \<le> line_count E" and "length t < MAX_LINE"
  shows "\<exists>E1 E2. rows_down r E = Some E1 \<and> put_row r t E1 = Some E2 \<and> E2 = E\<lparr>rows := rows E2\<rparr> \<and> buf_ok (E2\<lparr>line_count := line_count E + 1\<rparr>)
    \<and> ed_text (E2\<lparr>line_count := line_count E + 1\<rparr>) = take (nat r) (ed_text E) @ t # drop (nat r) (ed_text E)"
proof -
  let ?n = "nat (line_count E)" and ?k = "nat r"
  define R where "R = map (\<lambda>i. if r < int i \<and> int i \<le> line_count E then rows E ! (i - 1) else rows E ! i) [0..<MAX_LINES]"
  define E1 where "E1 = E\<lparr>rows := R\<rparr>"
  define E2 where "E2 = E\<lparr>rows := R[?k := t]\<rparr>"
  have len: "length (rows E) = MAX_LINES" "?n < MAX_LINES" "?k \<le> ?n" "1 \<le> ?n" using assms by (auto simp: buf_ok_def)
  have d: "rows_down r E = Some E1" "put_row r t E1 = Some E2"
    using assms by (auto simp: rows_down_def put_row_def E1_def E2_def R_def Let_def)
  have tx: "take (Suc ?n) (R[?k := t]) = take ?k (ed_text E) @ t # drop ?k (ed_text E)"
  proof (rule nth_equalityI)
    show "length (take (Suc ?n) (R[?k := t])) = length (take ?k (ed_text E) @ t # drop ?k (ed_text E))"
      using len by (simp add: R_def ed_text_def)
    fix i assume "i < length (take (Suc ?n) (R[?k := t]))"
    then have i: "i < Suc ?n" "i < MAX_LINES" using len by (simp_all add: R_def)
    show "take (Suc ?n) (R[?k := t]) ! i = (take ?k (ed_text E) @ t # drop ?k (ed_text E)) ! i"
    proof (cases i ?k rule: linorder_cases)
      case less
      then have "\<not> r < int i" "i < ?n" using assms(3) len by linarith+
      then show ?thesis using less i len by (simp add: R_def ed_text_def nth_append)
    next
      case equal
      then show ?thesis using i len by (simp add: R_def ed_text_def nth_append)
    next
      case greater
      then have "r < int i" "int i \<le> line_count E" using i assms(3) by linarith+
      then have "R[?k := t] ! i = rows E ! (i - 1)" using i greater by (simp add: R_def)
      moreover have "(take ?k (ed_text E) @ t # drop ?k (ed_text E)) ! i = ed_text E ! (i - 1)"
        using greater i len by (simp add: nth_append ed_text_def min_def nth_Cons' Suc_diff_Suc)
      ultimately show ?thesis using i greater by (simp add: ed_text_def)
    qed
  qed
  have n1: "nat (line_count E + 1) = Suc ?n" using assms(1) by (simp add: buf_ok_def nat_add_distrib)
  have "set (take (Suc ?n) (R[?k := t])) \<subseteq> insert t (set (ed_text E))"
    unfolding tx using set_take_subset set_drop_subset by fastforce
  then have "buf_ok (E2\<lparr>line_count := line_count E + 1\<rparr>)"
    using assms(1,2,5) by (auto simp: buf_ok_def E2_def ed_text_def n1 R_def)
  then show ?thesis using d tx by (simp add: ed_text_def E2_def n1)
qed

lemma rows_up_text:
  assumes "buf_ok E" and "0 \<le> r" and "0 < k" and "r + k \<le> line_count E"
  shows "\<exists>E1. rows_up r k E = Some E1 \<and> E1 = E\<lparr>rows := rows E1\<rparr> \<and> length (rows E1) = MAX_LINES
    \<and> take (nat (line_count E - k)) (rows E1) = take (nat r) (ed_text E) @ drop (nat (r + k)) (ed_text E)"
proof -
  let ?n = "nat (line_count E)" and ?r = "nat r" and ?k = "nat k"
  define R where "R = map (\<lambda>i. if r \<le> int i \<and> int i + k < line_count E then rows E ! nat (int i + k) else rows E ! i) [0..<MAX_LINES]"
  have len: "length (rows E) = MAX_LINES" "?n \<le> MAX_LINES" "?r + ?k \<le> ?n" using assms by (auto simp: buf_ok_def)
  have d: "rows_up r k E = Some (E\<lparr>rows := R\<rparr>)" using assms by (auto simp: rows_up_def buf_ok_def R_def Let_def)
  have nk: "nat (line_count E - k) = ?n - ?k" "nat (r + k) = ?r + ?k" using assms by (simp_all add: nat_diff_distrib nat_add_distrib)
  have "take (?n - ?k) R = take ?r (ed_text E) @ drop (?r + ?k) (ed_text E)"
  proof (rule nth_equalityI)
    show "length (take (?n - ?k) R) = length (take ?r (ed_text E) @ drop (?r + ?k) (ed_text E))" using len by (simp add: R_def ed_text_def)
    fix i assume "i < length (take (?n - ?k) R)"
    then have i: "i < ?n - ?k" "i < MAX_LINES" using len by (simp_all add: R_def)
    show "take (?n - ?k) R ! i = (take ?r (ed_text E) @ drop (?r + ?k) (ed_text E)) ! i"
    proof (cases "i < ?r")
      case True
      then have "\<not> r \<le> int i" using assms(2) by linarith
      then show ?thesis using True i len by (simp add: R_def ed_text_def nth_append)
    next
      case False
      then have "r \<le> int i" "int i + k < line_count E" "nat (int i + k) = i + ?k" using i assms(2,3) by linarith+
      then have "R ! i = rows E ! (i + ?k)" using i by (simp add: R_def)
      moreover have "i + ?k < ?n" using i by linarith
      ultimately show ?thesis using i False len by (simp add: ed_text_def nth_append min_def ac_simps)
    qed
  qed
  then show ?thesis using d by (simp add: R_def nk)
qed

lemma join_rows_text:
  assumes "buf_ok E" and "0 \<le> r" and "r + 1 < line_count E" and "length (ed_text E ! nat r) + length (ed_text E ! nat (r + 1)) < MAX_LINE - 1"
  shows "\<exists>E1. join_rows r E = Some E1 \<and> E1 = E\<lparr>rows := rows E1, line_count := line_count E - 1\<rparr> \<and> buf_ok E1
    \<and> ed_text E1 = take (nat r) (ed_text E) @ (ed_text E ! nat r @ ed_text E ! nat (r + 1)) # drop (nat r + 2) (ed_text E)"
proof -
  let ?t = "ed_text E ! nat r @ ed_text E ! nat (r + 1)"
  have n: "nat r + 1 < length (ed_text E)" using assms(2,3) length_ed_text [OF assms(1)] by linarith
  have st: "length ?t < MAX_LINE" using assms(4) by simp
  obtain E1 where p: "put_row r ?t E = Some E1" "E1 = E\<lparr>rows := (rows E)[nat r := ?t]\<rparr>" "buf_ok E1" "ed_text E1 = (ed_text E)[nat r := ?t]"
    using put_row_text [OF assms(1,2) _ st] assms(3) by auto
  have c: "line_count E1 = line_count E" by (simp add: p(2))
  obtain E2 where u: "rows_up (r + 1) 1 E1 = Some E2" "E2 = E1\<lparr>rows := rows E2\<rparr>" "length (rows E2) = MAX_LINES"
    "take (nat (line_count E1 - 1)) (rows E2) = take (nat (r + 1)) (ed_text E1) @ drop (nat (r + 2)) (ed_text E1)"
    using rows_up_text [OF p(3), of "r + 1" 1] assms(2,3) c by (auto simp: add.assoc)
  define R where "R = rows E2"
  have E2: "E2 = E\<lparr>rows := R\<rparr>" using u(2) p(2) by (simp add: R_def)
  have e: "take (nat (line_count E - 1)) R = take (nat r) (ed_text E) @ ?t # drop (nat r + 2) (ed_text E)"
    using n u(4) assms(2) unfolding R_def by (simp add: p(4) c nat_add_distrib take_Suc_conv_app_nth)
  have "set (take (nat (line_count E - 1)) R) \<subseteq> insert ?t (set (ed_text E))"
    unfolding e using set_take_subset set_drop_subset by fastforce
  then have b: "buf_ok (E\<lparr>rows := R, line_count := line_count E - 1\<rparr>)"
    using assms u(3) st unfolding R_def by (fastforce simp: buf_ok_def ed_text_def)
  have "row_at r E = Some (ed_text E ! nat r)" "row_at (r + 1) E = Some (ed_text E ! nat (r + 1))"
    using row_at_text [OF assms(1)] assms(2,3) by auto
  then have "join_rows r E = Some (E\<lparr>rows := R, line_count := line_count E - 1\<rparr>)"
    using u(1) p(1) by (simp add: join_rows_def E2)
  then show ?thesis using b e by (simp add: ed_text_def)
qed

subsection \<open>Samples\<close>

text \<open>An editor on the rows ts, at column c of row r, in which the keys ks will be pressed.\<close>

definition sample_ed :: "bytes list \<Rightarrow> int \<Rightarrow> int \<Rightarrow> int list \<Rightarrow> bytes list editor" where
  "sample_ed ts r c ks =
     \<lparr>rows = ts @ replicate (MAX_LINES - length ts) [], line_count = int (length ts), dirty = False, filepath = lit ''a.txt'', cur_row = r, cur_col = c,
      view_off = 0, v_col_save = 0, ed_mode = M_NORMAL, v_arow = 0, v_acol = 0, undostk = [], undopos = 0, search_pat = [], search_dir = 1,
      msgline = [], scr = sample_vga, hw_cursor = (0, 0), ed_keys = ks, ed_clip = \<lparr>clip_buf = replicate CLIP_MAX 0, clip_len = 0\<rparr>, ed_fs = sample_fs\<rparr>"

lemma sample_text [simp]: "ed_text (sample_ed ts r c ks) = ts"
  by (simp add: ed_text_def sample_ed_def)

lemma sample_fields [simp]:
  "line_count (sample_ed ts r c ks) = int (length ts)" "cur_row (sample_ed ts r c ks) = r" "cur_col (sample_ed ts r c ks) = c"
  "ed_keys (sample_ed ts r c ks) = ks" "undostk (sample_ed ts r c ks) = []" "undopos (sample_ed ts r c ks) = 0"
  by (simp_all add: sample_ed_def)

lemma sample_buf_ok: "ts \<noteq> [] \<Longrightarrow> length ts \<le> MAX_LINES \<Longrightarrow> (\<forall>t\<in>set ts. length t < MAX_LINE) \<Longrightarrow> buf_ok (sample_ed ts r c ks)"
  by (simp add: buf_ok_def) (simp add: sample_ed_def Suc_le_eq)

end
