(* ===== verification/EditSafe.thy ===== *)
theory EditSafe
  imports EditFacts
begin

text \<open>
  Insert mode of the editor of shell/edit.c is total and keeps the cursor in the text, as long as no page key
  is pressed and there is a free row for every Enter.
\<close>

subsection \<open>Moving\<close>

text \<open>A move leaves the text as it is and the cursor in it.\<close>

definition moves :: "'d editor \<Rightarrow> 'd editor option \<Rightarrow> bool" where
  "moves E m \<longleftrightarrow> (\<exists>E1. m = Some E1 \<and> ed_ok E1 \<and> rows E1 = rows E \<and> line_count E1 = line_count E \<and> ed_mode E1 = ed_mode E)"

lemma save_col_some:
  assumes "0 \<le> cur_row E" and "cur_row E < int MAX_LINES"
  shows "\<exists>w. save_col E = Some (E\<lparr>v_col_save := w\<rparr>)"
  using assms by (auto simp: save_col_def col_to_screen_def row_at_def)

lemma mode_visible [simp]: "ed_mode (ensure_visible E) = ed_mode E"
  by (simp add: ensure_visible_def Let_def)

lemma moved:
  assumes "ed_ok E" and "cursor_at (cur_row E1) (cur_col E1) E" and "rows E1 = rows E" and "line_count E1 = line_count E" and "ed_mode E1 = ed_mode E"
  shows "moves E (Some E1)" and "moves E (Some (ensure_visible E1))" and "moves E (save_col E1)" and "moves E (settle E1)"
proof -
  have t: "ed_text E1 = ed_text E" using assms(3,4) by (simp add: ed_text_def)
  then have e: "ed_ok E1" using assms by (simp add: ed_ok_def cursor_at_def buf_ok_def)
  then obtain w where w: "save_col E1 = Some (E1\<lparr>v_col_save := w\<rparr>)"
    using save_col_some [of E1] by (auto simp: ed_ok_iff buf_ok_def)
  have "ed_ok (E1\<lparr>v_col_save := w\<rparr>)" using e by (simp add: ed_ok_iff buf_ok_def)
  then show "moves E (Some E1)" "moves E (Some (ensure_visible E1))" "moves E (save_col E1)" "moves E (settle E1)"
    using e assms w by (simp_all add: moves_def settle_def)
qed

lemma row_len_text: "buf_ok E \<Longrightarrow> 0 \<le> r \<Longrightarrow> r < line_count E \<Longrightarrow> row_len r E = Some (int (length (ed_text E ! nat r)))"
  by (simp add: row_len_def row_at_text)

lemma col_at_bounds: "0 \<le> col_at s sc t \<and> col_at s sc t \<le> int (length t)"
proof (induction t arbitrary: sc)
  case (Cons c t)
  show ?case using Cons.IH [of "next_col sc c"] by auto
qed simp

lemma move_left_ok: "ed_ok E \<Longrightarrow> moves E (move_left E)"
  unfolding move_left_def by (auto simp: ed_ok_iff cursor_at_def row_len_text intro!: moved)

lemma move_right_ok: "ed_ok E \<Longrightarrow> moves E (move_right E)"
  unfolding move_right_def by (auto simp: ed_ok_iff cursor_at_def row_len_text intro!: moved)

lemma to_row_ok:
  assumes "ed_ok E" and "0 \<le> r" and "r < line_count E"
  shows "moves E (to_row r E)"
  using assms col_at_bounds [of "v_col_save E" 0 "ed_text E ! nat r"]
  by (auto simp: to_row_def screen_to_col_def row_len_text row_at_text ed_ok_iff cursor_at_def intro!: moved)

lemma move_vertical_ok: "ed_ok E \<Longrightarrow> moves E (move_up E)" "ed_ok E \<Longrightarrow> moves E (move_down E)"
  by (auto simp: move_up_def move_down_def ed_ok_def cursor_at_def intro!: to_row_ok moved(1))

lemma line_move_ok: "ed_ok E \<Longrightarrow> moves E (Some (move_line_start E))" "ed_ok E \<Longrightarrow> moves E (move_line_end E)"
  by (auto simp: move_line_start_def move_line_end_def row_len_text ed_ok_iff cursor_at_def intro!: moved)

subsection \<open>Editing\<close>

text \<open>An edit keeps the cursor in a text of at most k rows more.\<close>

definition edits :: "int \<Rightarrow> 'd editor \<Rightarrow> 'd editor option \<Rightarrow> bool" where
  "edits k E m \<longleftrightarrow> (\<exists>E1. m = Some E1 \<and> ed_ok E1 \<and> line_count E1 \<le> line_count E + k)"

lemma moves_edits: "moves E m \<Longrightarrow> edits 0 E m"
  by (auto simp: moves_def edits_def)

lemma edits_refresh: "edits k E m \<Longrightarrow> edits k E (map_option refresh m)"
  by (auto simp: edits_def)

text \<open>The row of the cursor gets another text.\<close>

lemma put_row_some: "0 \<le> r \<Longrightarrow> r < int MAX_LINES \<Longrightarrow> put_row r t E = Some (E\<lparr>rows := (rows E)[nat r := t]\<rparr>)"
  by (simp add: put_row_def)

lemma put_row_here: "ed_ok E \<Longrightarrow> cur_row E1 = cur_row E \<Longrightarrow> put_row (cur_row E) t E1 = Some (E1\<lparr>rows := (rows E1)[nat (cur_row E) := t]\<rparr>)"
  by (rule put_row_some) (auto simp: ed_ok_iff buf_ok_def)

lemma ed_okI:
  assumes "buf_ok E1" and "rows E2 = rows E1" and "line_count E2 = line_count E1" and "cursor_at (cur_row E2) (cur_col E2) E1"
  shows "ed_ok E2"
proof -
  have "ed_text E2 = ed_text E1" using assms(2,3) by (simp add: ed_text_def)
  then show ?thesis using assms by (simp add: ed_ok_def buf_ok_def cursor_at_def)
qed

lemma save_edits:
  assumes "ed_ok E1" and "line_count E1 \<le> line_count E + k"
  shows "edits k E (save_col E1)" and "edits k E (settle E1)"
proof -
  obtain w where w: "save_col E1 = Some (E1\<lparr>v_col_save := w\<rparr>)" using save_col_some [of E1] assms(1) by (auto simp: ed_ok_iff buf_ok_def)
  have "ed_ok (E1\<lparr>v_col_save := w\<rparr>)" by (rule ed_okI [of E1]) (use assms(1) in \<open>auto simp: ed_ok_def\<close>)
  then show "edits k E (save_col E1)" "edits k E (settle E1)" using w assms(2) by (simp_all add: edits_def settle_def)
qed

lemma new_row_ok:
  assumes "ed_ok E" and "length t < MAX_LINE" and "rows E1 = (rows E)[nat (cur_row E) := t]" and "line_count E1 = line_count E"
    and "cur_row E1 = cur_row E" and "0 \<le> cur_col E1" and "cur_col E1 \<le> int (length t)"
  shows "ed_ok E1"
proof -
  have r: "buf_ok E" "0 \<le> cur_row E" "cur_row E < line_count E" using assms(1) by (auto simp: ed_ok_iff)
  let ?E = "E\<lparr>rows := (rows E)[nat (cur_row E) := t]\<rparr>"
  have p: "buf_ok ?E" "ed_text ?E = (ed_text E)[nat (cur_row E) := t]" using put_row_text [OF r assms(2)] by auto
  have "cursor_at (cur_row E1) (cur_col E1) ?E" using assms r by (simp add: cursor_at_def p(2) length_ed_text)
  then show ?thesis using assms(3,4) by (intro ed_okI [OF p(1)]) simp_all
qed

lemma cut_at_some: "0 \<le> c \<Longrightarrow> c < int (length t) \<Longrightarrow> cut_at c t = Some (take (nat c) t @ drop (nat c + 1) t)"
  by (simp add: cut_at_def)

lemma delete_char_ok:
  assumes "ed_ok E"
  shows "edits 0 E (delete_char E)"
proof -
  let ?t = "ed_text E ! nat (cur_row E)"
  have t: "row_at (cur_row E) E = Some ?t" using assms by (simp add: ed_ok_iff row_at_text)
  have n: "nat (cur_row E) < length (ed_text E)" using assms by (auto simp: ed_ok_iff length_ed_text)
  show ?thesis
  proof (cases "cur_col E < int (length ?t)")
    case True
    let ?u = "take (nat (cur_col E)) ?t @ drop (nat (cur_col E) + 1) ?t"
    have c: "0 \<le> cur_col E" "length ?t < MAX_LINE" using assms by (auto simp: ed_ok_iff text_short)
    have "ed_ok ((push_undo U_MODIFY (cur_row E) ?t ?u (E\<lparr>rows := (rows E)[nat (cur_row E) := ?u]\<rparr>))\<lparr>dirty := True\<rparr>)"
      by (rule new_row_ok [OF assms, of ?u]) (use c True in auto)
    then show ?thesis using True c by (simp add: delete_char_def t cut_at_some put_row_here [OF assms] edits_def)
  next
    case False
    let ?b = "ed_text E ! nat (cur_row E + 1)"
    show ?thesis
    proof (cases "cur_row E + 1 < line_count E \<and> length ?t + length ?b < MAX_LINE - 1")
      case True
      obtain E1 where J: "join_rows (cur_row E) E = Some E1" "E1 = E\<lparr>rows := rows E1, line_count := line_count E - 1\<rparr>" "buf_ok E1"
        "ed_text E1 = take (nat (cur_row E)) (ed_text E) @ (?t @ ?b) # drop (nat (cur_row E) + 2) (ed_text E)"
        using join_rows_text [of E "cur_row E"] assms True by (auto simp: ed_ok_iff)
      have b: "row_at (cur_row E + 1) E = Some ?b" using assms True by (simp add: ed_ok_iff row_at_text)
      have f: "cur_row E1 = cur_row E" "cur_col E1 = cur_col E" "line_count E1 = line_count E - 1" by (subst J(2), simp)+
      have "cursor_at (cur_row E1) (cur_col E1) E1"
        using assms True n by (simp add: cursor_at_def J(4) f ed_ok_iff nth_append min_def)
      then have "ed_ok ((push_undo U_INSERT_LINE (cur_row E + 1) ?t (?t @ ?b) E1)\<lparr>dirty := True\<rparr>)" by (intro ed_okI [OF J(3)]) simp_all
      then show ?thesis using False True J(1) f(3) by (simp add: delete_char_def t b edits_def)
    next
      case F: False
      then have "delete_char E = Some E" using False assms row_at_text [of E "cur_row E + 1"] by (auto simp: delete_char_def t ed_ok_iff)
      then show ?thesis using assms by (simp add: edits_def)
    qed
  qed
qed

lemma backspace_char_ok:
  assumes "ed_ok E"
  shows "edits 0 E (backspace_char E)"
proof -
  let ?t = "ed_text E ! nat (cur_row E)"
  have t: "row_at (cur_row E) E = Some ?t" using assms by (simp add: ed_ok_iff row_at_text)
  have n: "nat (cur_row E) < length (ed_text E)" using assms by (auto simp: ed_ok_iff length_ed_text)
  show ?thesis
  proof (cases "0 < cur_col E")
    case True
    let ?u = "take (nat (cur_col E - 1)) ?t @ drop (nat (cur_col E - 1) + 1) ?t"
    have c: "0 \<le> cur_col E - 1" "cur_col E - 1 < int (length ?t)" "length ?t < MAX_LINE" using True assms by (auto simp: ed_ok_iff text_short)
    have "ed_ok ((push_undo U_MODIFY (cur_row E) ?t ?u (E\<lparr>cur_col := cur_col E - 1, rows := (rows E)[nat (cur_row E) := ?u]\<rparr>))\<lparr>dirty := True\<rparr>)"
      by (rule new_row_ok [OF assms, of ?u]) (use c in auto)
    then show ?thesis using True c by (simp add: backspace_char_def t cut_at_some put_row_here [OF assms] save_edits)
  next
    case False
    let ?a = "ed_text E ! nat (cur_row E - 1)"
    show ?thesis
    proof (cases "0 < cur_row E \<and> length ?a + length ?t < MAX_LINE - 1")
      case True
      then obtain E1 where J: "join_rows (cur_row E - 1) E = Some E1" "E1 = E\<lparr>rows := rows E1, line_count := line_count E - 1\<rparr>" "buf_ok E1"
        "ed_text E1 = take (nat (cur_row E - 1)) (ed_text E) @ (?a @ ?t) # drop (nat (cur_row E - 1) + 2) (ed_text E)"
        using join_rows_text [of E "cur_row E - 1"] assms by (auto simp: ed_ok_iff)
      have b: "row_at (cur_row E - 1) E = Some ?a" using assms True by (simp add: ed_ok_iff row_at_text)
      have f: "cur_row E1 = cur_row E" "line_count E1 = line_count E - 1" by (subst J(2), simp)+
      have "nat (cur_row E - 1) < length (ed_text E)" using n by linarith
      then have "cursor_at (cur_row E - 1) (int (length ?a)) E1"
        using assms True n by (simp add: cursor_at_def J(4) f ed_ok_iff nth_append min_def)
      then have "ed_ok (E1\<lparr>cur_row := cur_row E - 1, cur_col := int (length ?a), dirty := True\<rparr>)" by (intro ed_okI [OF J(3)]) simp_all
      then show ?thesis using False True J(1) f(2) by (simp add: backspace_char_def t b save_edits)
    next
      case F: False
      then have "backspace_char E = Some E" using False assms row_at_text [of E "cur_row E - 1"] by (auto simp: backspace_char_def t ed_ok_iff)
      then show ?thesis using assms by (simp add: edits_def)
    qed
  qed
qed

lemma push_stk:
  "undostk E1 = undostk E \<Longrightarrow> undopos E1 = undopos E \<Longrightarrow> undostk (push_undo p r a b E1) = undostk (push_undo p r a b E)"
  "undostk E1 = undostk E \<Longrightarrow> undopos E1 = undopos E \<Longrightarrow> undopos (push_undo p r a b E1) = undopos (push_undo p r a b E)"
  by (simp_all add: push_undo_def Let_def)

lemma split_line_result:
  assumes "ed_ok E" and "line_count E < int MAX_LINES" and "t = ed_text E ! nat (cur_row E)"
  shows "\<exists>E1. split_line E = Some E1 \<and> ed_ok E1 \<and> line_count E1 = line_count E + 1
    \<and> ed_text E1 = take (nat (cur_row E)) (ed_text E) @ take (nat (cur_col E)) t # drop (nat (cur_col E)) t # drop (nat (cur_row E) + 1) (ed_text E)
    \<and> undostk E1 = undostk (push_undo U_INSERT_LINE (cur_row E + 1) t (drop (nat (cur_col E)) t) E)
    \<and> undopos E1 = undopos (push_undo U_INSERT_LINE (cur_row E + 1) t (drop (nat (cur_col E)) t) E)"
proof -
  let ?c = "nat (cur_col E)" and ?r = "nat (cur_row E)"
  let ?E1 = "E\<lparr>rows := (rows E)[?r := take ?c t]\<rparr>"
  have r: "0 \<le> cur_row E" "cur_row E < line_count E" "0 \<le> cur_col E" "cur_col E \<le> int (length t)" "length t < MAX_LINE" "buf_ok E" "?r < length (ed_text E)"
    using assms(1) by (auto simp: ed_ok_iff text_short assms(3) length_ed_text)
  have t: "row_at (cur_row E) E = Some t" using r assms(3) by (simp add: row_at_text)
  have b: "buf_ok ?E1" "ed_text ?E1 = (ed_text E)[?r := take ?c t]" using put_row_text [OF r(6,1,2), of "take ?c t"] r(5) by auto
  have h: "line_count ?E1 < int MAX_LINES" "0 \<le> cur_row E + 1" "cur_row E + 1 \<le> line_count ?E1" "length (drop ?c t) < MAX_LINE"
    using r assms(2) by auto
  obtain E2 E3 where d: "rows_down (cur_row E + 1) ?E1 = Some E2" "put_row (cur_row E + 1) (drop ?c t) E2 = Some E3" "E3 = ?E1\<lparr>rows := rows E3\<rparr>"
    "buf_ok (E3\<lparr>line_count := line_count ?E1 + 1\<rparr>)"
    "ed_text (E3\<lparr>line_count := line_count ?E1 + 1\<rparr>) = take (nat (cur_row E + 1)) (ed_text ?E1) @ drop ?c t # drop (nat (cur_row E + 1)) (ed_text ?E1)"
    using rows_down_text [OF b(1) h] by blast
  have f: "cur_row E3 = cur_row E" "line_count E3 = line_count E" "undostk E3 = undostk E" "undopos E3 = undopos E" by (subst d(3), simp)+
  let ?E4 = "E3\<lparr>line_count := line_count E + 1, cur_row := cur_row E + 1, cur_col := 0, v_col_save := 0\<rparr>"
  let ?E5 = "ensure_visible ((push_undo U_INSERT_LINE (cur_row E + 1) t (drop ?c t) ?E4)\<lparr>dirty := True\<rparr>)"
  have "ed_ok ?E5" by (rule ed_okI [OF d(4)]) (use r in \<open>auto simp: cursor_at_def\<close>)
  moreover have "split_line E = Some ?E5" using r d(1,2) f by (simp add: split_line_def t put_row_here [OF assms(1)])
  moreover have "nat (cur_row E + 1) = Suc ?r" using r(1) by simp
  then have "ed_text (E3\<lparr>line_count := line_count ?E1 + 1\<rparr>) = take ?r (ed_text E) @ take ?c t # drop ?c t # drop (?r + 1) (ed_text E)"
    unfolding d(5) b(2) using r(7) by (simp add: take_Suc_conv_app_nth)
  then have "ed_text ?E5 = take ?r (ed_text E) @ take ?c t # drop ?c t # drop (?r + 1) (ed_text E)" by (simp add: ed_text_def)
  ultimately show ?thesis by (simp add: push_stk [of ?E4 E] f)
qed

lemma split_line_ok: "ed_ok E \<Longrightarrow> line_count E < int MAX_LINES \<Longrightarrow> edits 1 E (split_line E)"
  using split_line_result [of E] by (auto simp: edits_def)

lemma put_char_ok:
  assumes "ed_ok E"
  shows "\<exists>E1. put_char b E = Some E1 \<and> ed_ok E1 \<and> line_count E1 = line_count E"
proof -
  let ?t = "ed_text E ! nat (cur_row E)"
  have r: "0 \<le> cur_col E" "cur_col E \<le> int (length ?t)" "row_at (cur_row E) E = Some ?t" using assms by (auto simp: ed_ok_iff row_at_text)
  show ?thesis
  proof (cases "int MAX_LINE - 2 \<le> int (length ?t)")
    case False
    have "ed_ok (E\<lparr>rows := (rows E)[nat (cur_row E) := ins_at (nat (cur_col E)) b ?t], cur_col := cur_col E + 1\<rparr>)"
      by (rule new_row_ok [OF assms, of "ins_at (nat (cur_col E)) b ?t"]) (use r False in \<open>auto simp: ins_at_def\<close>)
    then show ?thesis using False r by (simp add: put_char_def put_row_here [OF assms])
  qed (use assms r in \<open>simp add: put_char_def\<close>)
qed

lemma insert_char_ok:
  assumes "ed_ok E" and "c \<noteq> 9"
  shows "edits 0 E (insert_char c E)"
proof -
  obtain E1 where p: "put_char c E = Some E1" "ed_ok E1" "line_count E1 = line_count E" using put_char_ok [OF assms(1)] by blast
  have "ed_ok (E1\<lparr>dirty := True\<rparr>)" by (rule ed_okI [of E1]) (use p(2) in \<open>auto simp: ed_ok_def\<close>)
  then show ?thesis using assms p by (simp add: insert_char_def row_len_text ed_ok_iff [of E] save_edits) (simp add: edits_def ed_ok_iff)
qed

subsection \<open>The loop\<close>

definition row_key :: "int \<Rightarrow> bool" where
  "row_key c \<longleftrightarrow> c = 10 \<or> c = 13"

definition page_key :: "int \<Rightarrow> bool" where
  "page_key c \<longleftrightarrow> c = uint KB_PGUP \<or> c = uint KB_PGDN"

definition new_rows :: "int list \<Rightarrow> int" where
  "new_rows ks = int (length (filter row_key ks))"

lemma insert_key_ok:
  assumes "ed_ok E" and "\<not> page_key c" and "row_key c \<Longrightarrow> line_count E < int MAX_LINES"
  shows "edits (if row_key c then 1 else 0) E (insert_key c E)"
proof -
  have p: "edits 0 E (map_option refresh m)" if "moves E m" for m using that by (intro edits_refresh moves_edits)
  have k: "\<not> row_key (uint KB_LEFT)" "\<not> row_key (uint KB_RIGHT)" "\<not> row_key (uint KB_UP)" "\<not> row_key (uint KB_DOWN)"
    "\<not> row_key (uint KB_HOME)" "\<not> row_key (uint KB_END)" "\<not> row_key (uint KB_DEL)" "\<not> row_key 8"
    by (simp_all add: row_key_def KB_LEFT_def KB_RIGHT_def KB_UP_def KB_DOWN_def KB_HOME_def KB_END_def KB_DEL_def)
  have s: "edits 0 E (Some (refresh (move_line_start E)))" using p [OF line_move_ok(1) [OF assms(1)]] by simp
  have i: "edits 0 E (map_option refresh (insert_char (of_int c) E))" if "0x20 \<le> c" "c \<le> 0x7E"
  proof (intro edits_refresh insert_char_ok [OF assms(1)])
    have "uint (of_int c :: u8) = c" using that by (simp add: uint_word_of_int)
    then show "(of_int c :: u8) \<noteq> 9" using that by auto
  qed
  have n: "edits 0 E (Some E)" using assms(1) by (simp add: edits_def)
  show ?thesis
    using assms k p [OF move_left_ok] p [OF move_right_ok] p [OF move_vertical_ok(1)] p [OF move_vertical_ok(2)] p [OF line_move_ok(2)] s i n
      edits_refresh [OF split_line_ok] edits_refresh [OF backspace_char_ok] edits_refresh [OF delete_char_ok]
    by (auto simp: insert_key_def page_key_def row_key_def)
qed

lemma place_cursor_some: "ed_ok E \<Longrightarrow> \<exists>h. place_cursor E = Some (E\<lparr>hw_cursor := h\<rparr>)"
  by (auto simp: place_cursor_def col_to_screen_def row_at_text ed_ok_iff Let_def)

lemma insert_loop_ok:
  assumes "ed_ok E" and "\<forall>k\<in>set ks. \<not> page_key k \<and> k \<noteq> 27" and "line_count E + new_rows ks \<le> int MAX_LINES"
  shows "\<exists>E1. insert_loop (ks @ 27 # rest) row0 saved E = Some E1 \<and> ed_ok E1 \<and> ed_mode E1 = M_NORMAL \<and> ed_keys E1 = rest"
  using assms
proof (induction ks arbitrary: E row0)
  case Nil
  obtain h where h: "place_cursor E = Some (E\<lparr>hw_cursor := h\<rparr>)" using place_cursor_some [OF Nil(1)] by blast
  let ?E1 = "E\<lparr>hw_cursor := h, ed_keys := rest\<rparr>"
  let ?E2 = "if 0 \<le> row0 \<and> row0 < line_count E then (push_undo U_MODIFY row0 saved (ed_text E ! nat row0) ?E1)\<lparr>ed_mode := M_NORMAL\<rparr> else ?E1\<lparr>ed_mode := M_NORMAL\<rparr>"
  have b: "buf_ok E" using Nil(1) by (simp add: ed_ok_def)
  have "row_at row0 ?E1 = Some (ed_text E ! nat row0)" if "0 \<le> row0" "row0 < line_count E"
    using row_at_text [OF b that] by (auto simp: row_at_def split: if_splits)
  then have "insert_loop ([] @ 27 # rest) row0 saved E = Some (refresh ?E2)" by (simp add: h leave_insert_def)
  moreover have "ed_ok ?E2" by (rule ed_okI [OF b]) (use Nil(1) in \<open>auto simp: ed_ok_def\<close>)
  ultimately show ?case by (cases "0 \<le> row0 \<and> row0 < line_count E") simp_all
next
  case (Cons k ks)
  obtain h where h: "place_cursor E = Some (E\<lparr>hw_cursor := h\<rparr>)" using place_cursor_some [OF Cons.prems(1)] by blast
  let ?E1 = "E\<lparr>hw_cursor := h, ed_keys := ks @ 27 # rest\<rparr>"
  have b: "buf_ok E" using Cons.prems(1) by (simp add: ed_ok_def)
  have o1: "ed_ok ?E1" by (rule ed_okI [OF b]) (use Cons.prems(1) in \<open>auto simp: ed_ok_def\<close>)
  have n: "new_rows (k # ks) = (if row_key k then 1 else 0) + new_rows ks" "0 \<le> new_rows ks" by (simp_all add: new_rows_def)
  obtain E2 where E2: "insert_key k ?E1 = Some E2" "ed_ok E2" "line_count E2 \<le> line_count E + (if row_key k then 1 else 0)"
    using insert_key_ok [OF o1, of k] Cons.prems(2,3) n by (auto simp: edits_def split: if_splits)
  have "line_count E2 + new_rows ks \<le> int MAX_LINES" using E2(3) Cons.prems(3) n by simp
  then show ?case using Cons.IH [OF E2(2)] Cons.prems(2) by (simp add: h E2(1))
qed

text \<open>C11: From a buffer with the cursor in its text, insert mode with any keys but the two page keys, ended by Escape, always comes back
  when there is a free row for every Enter pressed: no access outside the rows and no copy of a negative size. It is back in normal mode
  with the keys behind Escape unread, the rows still fit and the cursor is still in the text.
\<close>

theorem insert_mode_total:
  assumes "ed_ok E" and "ed_keys E = ks @ 27 # rest" and "\<forall>k\<in>set ks. \<not> page_key k \<and> k \<noteq> 27" and "line_count E + new_rows ks \<le> int MAX_LINES"
  shows "\<exists>E1. do_insert_mode E = Some E1 \<and> ed_ok E1 \<and> ed_mode E1 = M_NORMAL \<and> ed_keys E1 = rest"
proof -
  have b: "buf_ok E" "0 \<le> cur_row E" "cur_row E < line_count E" using assms(1) by (auto simp: ed_ok_iff)
  have o1: "ed_ok (refresh (E\<lparr>ed_mode := M_INSERT\<rparr>))" by (rule ed_okI [OF b(1)]) (use assms(1) in \<open>auto simp: ed_ok_def\<close>)
  have "row_at (cur_row E) (E\<lparr>ed_mode := M_INSERT\<rparr>) = Some (ed_text E ! nat (cur_row E))"
    using row_at_text [OF b] by (auto simp: row_at_def split: if_splits)
  then show ?thesis using insert_loop_ok [OF o1 assms(3)] assms(2,4) by (simp add: do_insert_mode_def)
qed

lemma insert_mode_total_witness:
  "\<exists>E1. do_insert_mode (sample_ed [lit ''hello'', lit ''x''] 0 2 [0x61, 13, 8, 0x62, 27, 0x71]) = Some E1 \<and> ed_ok E1 \<and> ed_mode E1 = M_NORMAL \<and> ed_keys E1 = [0x71]"
proof (rule insert_mode_total [where ks = "[0x61, 13, 8, 0x62]"])
  show "ed_ok (sample_ed [lit ''hello'', lit ''x''] 0 2 [0x61, 13, 8, 0x62, 27, 0x71])"
    using sample_buf_ok [of "[lit ''hello'', lit ''x'']" 0 2] by (simp add: ed_ok_iff MAX_LINES_def MAX_LINE_def)
qed (simp_all add: page_key_def KB_PGUP_def KB_PGDN_def new_rows_def row_key_def MAX_LINES_def)

end
