(* ===== verification/EditUndo.thy ===== *)
theory EditUndo
  imports EditSafe
begin

text \<open>
  Undo in the editor of shell/edit.c: what it restores, and the text it loses after an Enter and after an
  undo that was redone. Typing in insert mode is one step of it.
\<close>

subsection \<open>The entry on top\<close>

lemma push_top:
  "undostk (push_undo p r a b E) \<noteq> []" "undopos (push_undo p r a b E) = length (undostk (push_undo p r a b E))"
  "List.last (undostk (push_undo p r a b E)) = \<lparr>u_op = p, u_row = r, u_old = take (MAX_LINE - 1) a, u_new = take (MAX_LINE - 1) b\<rparr>"
  by (simp_all add: push_undo_def Let_def)

text \<open>A state whose last entry is the one given, with nothing to redo.\<close>

definition top_entry :: "undo_op \<Rightarrow> int \<Rightarrow> bytes \<Rightarrow> bytes \<Rightarrow> 'd editor \<Rightarrow> bool" where
  "top_entry p r a b E \<longleftrightarrow> (\<exists>st. undostk E = st @ [\<lparr>u_op = p, u_row = r, u_old = a, u_new = b\<rparr>] \<and> undopos E = Suc (length st))"

lemma top_push:
  assumes "undostk E1 = undostk (push_undo p r a b E)" and "undopos E1 = undopos (push_undo p r a b E)" and "length a < MAX_LINE" and "length b < MAX_LINE"
  shows "top_entry p r a b E1"
proof -
  have "take (MAX_LINE - 1) a = a" "take (MAX_LINE - 1) b = b" using assms(3,4) by simp_all
  then show ?thesis using assms(1,2) by (auto simp: top_entry_def push_undo_def Let_def)
qed

lemma done_text [simp]: "ed_text (undo_done m E) = ed_text E" "rows (undo_done m E) = rows E" "line_count (undo_done m E) = line_count E"
  "undostk (undo_done m E) = undostk E" "undopos (undo_done m E) = undopos E"
  by (simp_all add: undo_done_def)

lemma buf_ok_cong: "rows E1 = rows E \<Longrightarrow> line_count E1 = line_count E \<Longrightarrow> buf_ok E1 = buf_ok E \<and> ed_text E1 = ed_text E"
  by (simp add: buf_ok_def ed_text_def)

text \<open>Undo of a change of a row puts the text of the entry back and keeps the text it replaced in its place.\<close>

lemma undo_modify:
  assumes "buf_ok E" and "0 \<le> r" and "r < line_count E" and "length a < MAX_LINE" and "top_entry U_MODIFY r a b E"
  shows "\<exists>E1 st. do_undo E = Some E1 \<and> buf_ok E1 \<and> line_count E1 = line_count E \<and> ed_text E1 = (ed_text E)[nat r := a]
    \<and> undostk E1 = st @ [\<lparr>u_op = U_MODIFY, u_row = r, u_old = ed_text E ! nat r, u_new = b\<rparr>] \<and> undopos E1 = length st"
proof -
  obtain st where st: "undostk E = st @ [\<lparr>u_op = U_MODIFY, u_row = r, u_old = a, u_new = b\<rparr>]" "undopos E = Suc (length st)"
    using assms(5) by (auto simp: top_entry_def)
  let ?E1 = "E\<lparr>undopos := length st\<rparr>"
  let ?E2 = "?E1\<lparr>rows := (rows E)[nat r := a]\<rparr>"
  let ?E3 = "upd_undo (\<lambda>u. u\<lparr>u_old := ed_text E ! nat r\<rparr>) (length st) (?E2\<lparr>cur_row := r, cur_col := 0, dirty := True\<rparr>)"
  have b1: "buf_ok ?E1" "ed_text ?E1 = ed_text E" using assms(1) buf_ok_cong [of ?E1 E] by simp_all
  have t: "row_at r ?E1 = Some (ed_text E ! nat r)" using row_at_text [OF b1(1) assms(2)] assms(3) b1(2) by simp
  obtain E2 where E2: "put_row r a ?E1 = Some E2" "E2 = ?E2" "buf_ok E2" "ed_text E2 = (ed_text E)[nat r := a]"
    using put_row_text [OF b1(1) assms(2) _ assms(4)] assms(3) b1(2) by auto
  have b3: "buf_ok ?E3" "ed_text ?E3 = (ed_text E)[nat r := a]" using buf_ok_cong [of ?E3 E2] E2(2,3,4) by (simp_all add: upd_undo_def)
  have u: "do_undo E = Some (undo_done ''undo'' ?E3)" using E2(1,2) t by (simp add: do_undo_def st Let_def swap_row_def)
  have s: "undostk ?E3 = st @ [\<lparr>u_op = U_MODIFY, u_row = r, u_old = ed_text E ! nat r, u_new = b\<rparr>]" "undopos ?E3 = length st"
    by (simp_all add: upd_undo_def st)
  have "buf_ok (undo_done ''undo'' ?E3)" using b3(1) buf_ok_cong [of "undo_done ''undo'' ?E3" ?E3] by simp
  then show ?thesis using u b3(2) s by (intro exI [of _ "undo_done ''undo'' ?E3"] exI [of _ st]) (simp add: upd_undo_def)
qed

lemma redo_modify:
  assumes "buf_ok E" and "0 \<le> r" and "r < line_count E" and "length b < MAX_LINE"
    and "undostk E = st @ [\<lparr>u_op = U_MODIFY, u_row = r, u_old = a, u_new = b\<rparr>]" and "undopos E = length st"
  shows "\<exists>E1. do_redo E = Some E1 \<and> buf_ok E1 \<and> line_count E1 = line_count E \<and> ed_text E1 = (ed_text E)[nat r := b] \<and> top_entry U_MODIFY r a (ed_text E ! nat r) E1"
proof -
  let ?E1 = "E\<lparr>undopos := Suc (length st)\<rparr>"
  let ?E2 = "?E1\<lparr>rows := (rows E)[nat r := b]\<rparr>"
  let ?E3 = "upd_undo (\<lambda>u. u\<lparr>u_new := ed_text E ! nat r\<rparr>) (length st) (?E2\<lparr>cur_row := r, cur_col := 0, dirty := True\<rparr>)"
  have b1: "buf_ok ?E1" "ed_text ?E1 = ed_text E" using assms(1) buf_ok_cong [of ?E1 E] by simp_all
  have t: "row_at r ?E1 = Some (ed_text E ! nat r)" using row_at_text [OF b1(1) assms(2)] assms(3) b1(2) by simp
  obtain E2 where E2: "put_row r b ?E1 = Some E2" "E2 = ?E2" "buf_ok E2" "ed_text E2 = (ed_text E)[nat r := b]"
    using put_row_text [OF b1(1) assms(2) _ assms(4)] assms(3) b1(2) by auto
  have b3: "buf_ok ?E3" "ed_text ?E3 = (ed_text E)[nat r := b]" using buf_ok_cong [of ?E3 E2] E2(2,3,4) by (simp_all add: upd_undo_def)
  have u: "do_redo E = Some (undo_done ''redo'' ?E3)" using E2(1,2) t by (simp add: do_redo_def assms(5,6) Let_def swap_row_def)
  have "top_entry U_MODIFY r a (ed_text E ! nat r) ?E3" by (simp add: top_entry_def upd_undo_def assms(5))
  then have "top_entry U_MODIFY r a (ed_text E ! nat r) (undo_done ''redo'' ?E3)" by (simp add: top_entry_def)
  moreover have "buf_ok (undo_done ''redo'' ?E3)" using b3(1) buf_ok_cong [of "undo_done ''redo'' ?E3" ?E3] by simp
  ultimately show ?thesis using u b3(2) by (simp add: upd_undo_def)
qed

subsection \<open>Typing\<close>

definition typed_key :: "int \<Rightarrow> bool" where
  "typed_key k \<longleftrightarrow> 0x20 \<le> k \<and> k \<le> 0x7E"

lemma insert_key_typed:
  assumes "ed_ok E" and "typed_key k" and "length (ed_text E ! nat (cur_row E)) < MAX_LINE - 2"
  shows "\<exists>E1. insert_key k E = Some E1 \<and> ed_ok E1 \<and> cur_row E1 = cur_row E \<and> cur_col E1 = cur_col E + 1 \<and> line_count E1 = line_count E
    \<and> ed_text E1 = (ed_text E)[nat (cur_row E) := ins_at (nat (cur_col E)) (of_int k) (ed_text E ! nat (cur_row E))]"
proof -
  let ?t = "ed_text E ! nat (cur_row E)"
  let ?u = "ins_at (nat (cur_col E)) (of_int k) ?t"
  let ?E1 = "E\<lparr>rows := (rows E)[nat (cur_row E) := ?u], cur_col := cur_col E + 1, dirty := True\<rparr>"
  have r: "0 \<le> cur_row E" "cur_row E < line_count E" "0 \<le> cur_col E" "cur_col E \<le> int (length ?t)" "buf_ok E" using assms(1) by (auto simp: ed_ok_iff)
  have u: "length ?u < MAX_LINE" "length ?u = Suc (length ?t)" using assms(3) r by (simp_all add: ins_at_def)
  have o1: "ed_ok ?E1" by (rule new_row_ok [OF assms(1) u(1)]) (use r u(2) in auto)
  have "ed_text ?E1 = take (nat (line_count E)) ((rows E)[nat (cur_row E) := ?u])" by (simp add: ed_text_def)
  then have e: "ed_text ?E1 = (ed_text E)[nat (cur_row E) := ?u]" unfolding take_update by (simp add: ed_text_def)
  have k: "uint (of_int k :: u8) = k" using assms(2) by (simp add: typed_key_def uint_word_of_int)
  then have "(of_int k :: u8) \<noteq> 9" using assms(2) by (auto simp: typed_key_def)
  moreover have "put_char (of_int k) E = Some (E\<lparr>rows := (rows E)[nat (cur_row E) := ?u], cur_col := cur_col E + 1\<rparr>)"
    using r assms(3) by (simp add: put_char_def row_at_text put_row_here [OF assms(1)])
  moreover have "\<not> int MAX_LINE - 2 \<le> int (length ?t)" using assms(3) by linarith
  ultimately have "insert_char (of_int k) E = settle ?E1"
    using r by (simp add: insert_char_def row_len_text)
  moreover obtain w where "save_col ?E1 = Some (?E1\<lparr>v_col_save := w\<rparr>)" using save_col_some [of ?E1] o1 by (auto simp: ed_ok_iff buf_ok_def)
  ultimately have i: "insert_char (of_int k) E = Some (ensure_visible (?E1\<lparr>v_col_save := w\<rparr>))" by (simp add: settle_def)
  have "insert_key k E = Some (refresh (ensure_visible (?E1\<lparr>v_col_save := w\<rparr>)))"
    using assms(2) i by (simp add: insert_key_def typed_key_def KB_LEFT_def KB_RIGHT_def KB_UP_def KB_DOWN_def KB_HOME_def KB_END_def KB_DEL_def KB_PGUP_def KB_PGDN_def)
  moreover have "ed_ok (?E1\<lparr>v_col_save := w\<rparr>)" by (rule ed_okI [of ?E1]) (use o1 in \<open>auto simp: ed_ok_def\<close>)
  ultimately show ?thesis using e by (simp add: ed_text_def)
qed

lemma ins_at_ins:
  assumes "c \<le> length t"
  shows "take (Suc c) (ins_at c b t) @ ks @ drop (Suc c) (ins_at c b t) = take c t @ (b # ks) @ drop c t"
proof -
  have "length (take c t) = c" using assms by simp
  then show ?thesis unfolding ins_at_def by (simp add: take_Cons' drop_Cons')
qed

lemma insert_loop_types:
  assumes "ed_ok E" and "\<forall>k\<in>set ks. typed_key k" and "length (ed_text E ! nat (cur_row E)) + length ks \<le> MAX_LINE - 2"
    and "row0 = cur_row E" and "length saved < MAX_LINE"
    and "t = ed_text E ! nat (cur_row E)" and "u = take (nat (cur_col E)) t @ map of_int ks @ drop (nat (cur_col E)) t"
  shows "\<exists>E1. insert_loop (ks @ 27 # rest) row0 saved E = Some E1 \<and> ed_ok E1 \<and> cur_row E1 = cur_row E \<and> cur_col E1 = cur_col E + int (length ks)
    \<and> line_count E1 = line_count E \<and> ed_text E1 = (ed_text E)[nat (cur_row E) := u] \<and> ed_keys E1 = rest \<and> top_entry U_MODIFY row0 saved u E1"
  using assms
proof (induction ks arbitrary: E t)
  case Nil
  obtain h where h: "place_cursor E = Some (E\<lparr>hw_cursor := h\<rparr>)" using place_cursor_some [OF Nil(1)] by blast
  have r: "buf_ok E" "0 \<le> cur_row E" "cur_row E < line_count E" "length t < MAX_LINE" using Nil(1) by (auto simp: ed_ok_iff text_short Nil.prems(6))
  let ?E1 = "E\<lparr>hw_cursor := h, ed_keys := rest\<rparr>"
  let ?E2 = "(push_undo U_MODIFY row0 saved t ?E1)\<lparr>ed_mode := M_NORMAL\<rparr>"
  have u: "u = t" using Nil.prems(7) by simp
  have "row_at row0 ?E1 = Some t" using row_at_text [OF r(1,2,3)] Nil.prems(4,6) by (auto simp: row_at_def split: if_splits)
  then have "insert_loop ([] @ 27 # rest) row0 saved E = Some (refresh ?E2)" using r(2,3) Nil.prems(4) by (simp add: h leave_insert_def)
  moreover have "ed_ok ?E2" by (rule ed_okI [OF r(1)]) (use Nil(1) in \<open>auto simp: ed_ok_def\<close>)
  moreover have "top_entry U_MODIFY row0 saved u (refresh ?E2)" unfolding u by (rule top_push [OF _ _ Nil.prems(5) r(4), of _ _ _ ?E1]) simp_all
  moreover have "(ed_text E)[nat (cur_row E) := u] = ed_text E" using Nil.prems(6) u by simp
  ultimately show ?case by simp
next
  case (Cons k ks)
  obtain h where h: "place_cursor E = Some (E\<lparr>hw_cursor := h\<rparr>)" using place_cursor_some [OF Cons.prems(1)] by blast
  let ?E1 = "E\<lparr>hw_cursor := h, ed_keys := ks @ 27 # rest\<rparr>" and ?v = "ins_at (nat (cur_col E)) (of_int k) t"
  have r: "buf_ok E" "0 \<le> cur_row E" "cur_row E < line_count E" "0 \<le> cur_col E" "nat (cur_col E) \<le> length t" "nat (cur_row E) < length (ed_text E)"
    using Cons.prems(1) by (auto simp: ed_ok_iff Cons.prems(6) length_ed_text)
  have o1: "ed_ok ?E1" by (rule ed_okI [OF r(1)]) (use Cons.prems(1) in \<open>auto simp: ed_ok_def\<close>)
  obtain E2 where E2: "insert_key k ?E1 = Some E2" "ed_ok E2" "cur_row E2 = cur_row E" "cur_col E2 = cur_col E + 1" "line_count E2 = line_count E"
    "ed_text E2 = (ed_text E)[nat (cur_row E) := ?v]"
    using insert_key_typed [OF o1, of k] Cons.prems(2,3,6) by auto
  have v: "ed_text E2 ! nat (cur_row E2) = ?v" using r(6) by (simp add: E2(3,6))
  have n: "length ?v + length ks \<le> MAX_LINE - 2" using Cons.prems(3,6) r(5) by (simp add: ins_at_def)
  have "nat (cur_col E2) = Suc (nat (cur_col E))" using r(4) by (simp add: E2(4))
  then have u: "u = take (nat (cur_col E2)) ?v @ map of_int ks @ drop (nat (cur_col E2)) ?v" using Cons.prems(7) ins_at_ins [OF r(5)] by simp
  have "k \<noteq> 27" "k \<noteq> 10" "k \<noteq> 13" using Cons.prems(2) by (auto simp: typed_key_def)
  then have "insert_loop ((k # ks) @ 27 # rest) row0 saved E = insert_loop (ks @ 27 # rest) row0 saved E2" by (simp add: h E2(1))
  then show ?case using Cons.IH [OF E2(2) _ _ _ Cons.prems(5) v [symmetric] u] n v Cons.prems(2,4) by (simp add: E2(3,4,5,6) algebra_simps)
qed

lemma insert_mode_types:
  assumes "ed_ok E" and "ed_keys E = ks @ 27 # rest" and "\<forall>k\<in>set ks. typed_key k"
    and "t = ed_text E ! nat (cur_row E)" and "length t + length ks \<le> MAX_LINE - 2"
    and "u = take (nat (cur_col E)) t @ map of_int ks @ drop (nat (cur_col E)) t"
  shows "\<exists>E1. do_insert_mode E = Some E1 \<and> ed_ok E1 \<and> cur_row E1 = cur_row E \<and> cur_col E1 = cur_col E + int (length ks) \<and> line_count E1 = line_count E
    \<and> ed_text E1 = (ed_text E)[nat (cur_row E) := u] \<and> ed_keys E1 = rest \<and> top_entry U_MODIFY (cur_row E) t u E1"
proof -
  let ?E1 = "refresh (E\<lparr>ed_mode := M_INSERT\<rparr>)"
  have b: "buf_ok E" "0 \<le> cur_row E" "cur_row E < line_count E" "length t < MAX_LINE" using assms(1) by (auto simp: ed_ok_iff text_short assms(4))
  have o1: "ed_ok ?E1" by (rule ed_okI [OF b(1)]) (use assms(1) in \<open>auto simp: ed_ok_def\<close>)
  have "row_at (cur_row E) (E\<lparr>ed_mode := M_INSERT\<rparr>) = Some t"
    using row_at_text [OF b(1,2,3)] assms(4) by (auto simp: row_at_def split: if_splits)
  then show ?thesis using insert_loop_types [OF o1 assms(3) _ refl b(4), of t u rest] assms(2,4,5,6) by (simp add: do_insert_mode_def)
qed

text \<open>C14: Typing in the editor: i, any printable characters that fit in the row, and Escape put the text at the cursor of its row, in the
  order typed and with the characters behind the cursor after it; no other row changes, the cursor moves behind the new text, and the
  keys behind Escape are left for the next command.
\<close>

theorem typing_inserts:
  assumes "ed_ok E" and "ed_keys E = ks @ 27 # rest" and "\<forall>k\<in>set ks. typed_key k"
    and "t = ed_text E ! nat (cur_row E)" and "length t + length ks \<le> MAX_LINE - 2"
  shows "\<exists>E1. edit_key 0x69 E = Some E1 \<and> ed_text E1 = (ed_text E)[nat (cur_row E) := take (nat (cur_col E)) t @ map of_int ks @ drop (nat (cur_col E)) t]
    \<and> cur_row E1 = cur_row E \<and> cur_col E1 = cur_col E + int (length ks) \<and> ed_keys E1 = rest"
  using insert_mode_types [OF assms refl] by (auto simp: edit_key_def)

lemma typing_inserts_witness:
  "\<exists>E1. edit_key 0x69 (sample_ed [lit ''hello'', lit ''x''] 0 2 [0x61, 0x62, 27, 0x71]) = Some E1 \<and> ed_text E1 = [lit ''heabllo'', lit ''x'']
    \<and> cur_row E1 = 0 \<and> cur_col E1 = 4 \<and> ed_keys E1 = [0x71]"
proof -
  let ?E = "sample_ed [lit ''hello'', lit ''x''] 0 2 [0x61, 0x62, 27, 0x71]"
  have "ed_ok ?E" using sample_buf_ok [of "[lit ''hello'', lit ''x'']" 0 2] by (simp add: ed_ok_iff MAX_LINES_def MAX_LINE_def)
  moreover have "\<forall>k\<in>set [0x61, 0x62]. typed_key k" by (simp add: typed_key_def)
  ultimately show ?thesis using typing_inserts [of ?E "[0x61, 0x62]" "[0x71]" "lit ''hello''"] by (simp add: MAX_LINE_def)
qed

subsection \<open>What undo restores\<close>

text \<open>C13: What insert mode typed is one step of undo: after i, printable characters and Escape, u brings the text back that was there, and Ctrl-R
  the typed text again. But a step stores the text it replaces on both sides of its entry, so u once more leaves the typed text in place:
  undo, redo, undo ends in another text than undo alone.
\<close>

theorem typing_undo_redo_undo:
  assumes "ed_ok E" and "ed_keys E = ks @ 27 # rest" and "\<forall>k\<in>set ks. typed_key k" and "ks \<noteq> []"
    and "length (ed_text E ! nat (cur_row E)) + length ks \<le> MAX_LINE - 2"
  shows "\<exists>E1 E2 E3 E4. edit_key 0x69 E = Some E1 \<and> do_undo E1 = Some E2 \<and> do_redo E2 = Some E3 \<and> do_undo E3 = Some E4
    \<and> ed_text E2 = ed_text E \<and> ed_text E3 = ed_text E1 \<and> ed_text E4 = ed_text E1 \<and> ed_text E1 \<noteq> ed_text E"
proof -
  let ?r = "cur_row E" and ?t = "ed_text E ! nat (cur_row E)"
  let ?u = "take (nat (cur_col E)) ?t @ map of_int ks @ drop (nat (cur_col E)) ?t"
  have r: "0 \<le> ?r" "?r < line_count E" "length ?t < MAX_LINE" "nat ?r < length (ed_text E)" using assms(1) by (auto simp: ed_ok_iff text_short length_ed_text)
  have lu: "length ?u = length ?t + length ks" "length ?u < MAX_LINE" using assms(1,5) by (auto simp: ed_ok_iff MAX_LINE_def)
  obtain E1 where E1: "edit_key 0x69 E = Some E1" "ed_ok E1" "line_count E1 = line_count E" "ed_text E1 = (ed_text E)[nat ?r := ?u]" "top_entry U_MODIFY ?r ?t ?u E1"
    using insert_mode_types [OF assms(1,2,3) refl assms(5) refl] by (auto simp: edit_key_def)
  have b1: "buf_ok E1" using E1(2) by (simp add: ed_ok_def)
  obtain E2 st where E2: "do_undo E1 = Some E2" "buf_ok E2" "line_count E2 = line_count E" "ed_text E2 = ed_text E"
    "undostk E2 = st @ [\<lparr>u_op = U_MODIFY, u_row = ?r, u_old = ?u, u_new = ?u\<rparr>]" "undopos E2 = length st"
    using undo_modify [OF b1 r(1) _ r(3) E1(5)] r(2,4) by (auto simp: E1(3,4))
  obtain E3 where E3: "do_redo E2 = Some E3" "buf_ok E3" "line_count E3 = line_count E" "ed_text E3 = ed_text E1" "top_entry U_MODIFY ?r ?u ?t E3"
    using redo_modify [OF E2(2) r(1) _ lu(2) E2(5,6)] r(2) by (auto simp: E2(3,4) E1(4))
  obtain E4 where E4: "do_undo E3 = Some E4" "ed_text E4 = ed_text E1"
    using undo_modify [OF E3(2) r(1) _ lu(2) E3(5)] r(2,4) by (auto simp: E3(3,4) E1(4))
  have "?u \<noteq> ?t" using lu(1) assms(4) by (metis add.right_neutral add_left_cancel length_0_conv)
  then have "ed_text E1 \<noteq> ed_text E" using r(4) by (metis E1(4) nth_list_update_eq)
  then show ?thesis using E1(1) E2(1,4) E3(1,4) E4 by blast
qed

lemma typing_undo_redo_undo_witness:
  "\<exists>E1 E2 E3 E4. edit_key 0x69 (sample_ed [lit ''hello''] 0 5 [0x21, 27]) = Some E1 \<and> do_undo E1 = Some E2 \<and> do_redo E2 = Some E3 \<and> do_undo E3 = Some E4
    \<and> ed_text E2 = [lit ''hello''] \<and> ed_text E3 = ed_text E1 \<and> ed_text E4 = ed_text E1 \<and> ed_text E1 \<noteq> [lit ''hello'']"
proof -
  let ?E = "sample_ed [lit ''hello''] 0 5 [0x21, 27]"
  have "ed_ok ?E" using sample_buf_ok [of "[lit ''hello'']" 0 5] by (simp add: ed_ok_iff MAX_LINES_def MAX_LINE_def)
  moreover have "\<forall>k\<in>set [0x21]. typed_key k" by (simp add: typed_key_def)
  ultimately show ?thesis using typing_undo_redo_undo [of ?E "[0x21]" "[]"] by (simp add: MAX_LINE_def)
qed

text \<open>The commands that delete, seen through the entry they leave.\<close>

lemma new_row_text:
  assumes "rows E1 = (rows E)[nat r := t]" and "line_count E1 = line_count E"
  shows "ed_text E1 = (ed_text E)[nat r := t]"
  unfolding ed_text_def assms take_update by simp

lemma undo_after:
  assumes "ed_ok E" and "t = ed_text E ! nat (cur_row E)" and "length u < length t"
    and "rows E1 = (rows E)[nat (cur_row E) := u]" and "line_count E1 = line_count E"
    and "undostk E1 = undostk (push_undo U_MODIFY (cur_row E) t u E0)" and "undopos E1 = undopos (push_undo U_MODIFY (cur_row E) t u E0)"
  shows "\<exists>E2. do_undo E1 = Some E2 \<and> ed_text E2 = ed_text E \<and> ed_text E1 \<noteq> ed_text E"
proof -
  have r: "buf_ok E" "0 \<le> cur_row E" "cur_row E < line_count E" "length t < MAX_LINE" "nat (cur_row E) < length (ed_text E)"
    using assms(1) by (auto simp: ed_ok_iff text_short assms(2) length_ed_text)
  have x: "ed_text E1 = (ed_text E)[nat (cur_row E) := u]" by (rule new_row_text [OF assms(4,5)])
  have lu: "length u < MAX_LINE" using assms(3) r(4) by simp
  obtain P where p: "P = E\<lparr>rows := (rows E)[nat (cur_row E) := u]\<rparr>" "buf_ok P" using put_row_text [OF r(1,2,3) lu] by auto
  have b: "buf_ok E1" using p(2) buf_ok_cong [of E1 P] assms(4,5) by (simp add: p(1))
  have "top_entry U_MODIFY (cur_row E) t u E1" by (rule top_push [OF assms(6,7) r(4) lu])
  then obtain E2 where "do_undo E1 = Some E2" "ed_text E2 = ed_text E"
    using undo_modify [OF b r(2) _ r(4)] r(3,5) assms(2,5) by (auto simp: x)
  moreover have "u \<noteq> t" using assms(3) by auto
  then have "ed_text E1 \<noteq> ed_text E" using r(5) assms(2) by (metis x nth_list_update_eq)
  ultimately show ?thesis by blast
qed

lemma cut_shorter: "0 \<le> c \<Longrightarrow> c < int (length t) \<Longrightarrow> length (take (nat c) t @ drop (nat c + 1) t) < length t"
  by simp

lemma undo_deleted_row:
  assumes "buf_ok E" and "line_count E < int MAX_LINES" and "0 \<le> r" and "r \<le> line_count E" and "length a < MAX_LINE" and "top_entry U_DELETE_LINE r a b E"
  shows "\<exists>E1. do_undo E = Some E1 \<and> ed_text E1 = take (nat r) (ed_text E) @ a # drop (nat r) (ed_text E)"
proof -
  obtain st where st: "undostk E = st @ [\<lparr>u_op = U_DELETE_LINE, u_row = r, u_old = a, u_new = b\<rparr>]" "undopos E = Suc (length st)"
    using assms(6) by (auto simp: top_entry_def)
  let ?D = "E\<lparr>undopos := length st\<rparr>"
  have b1: "buf_ok ?D" "ed_text ?D = ed_text E" "line_count ?D = line_count E" using assms(1) buf_ok_cong [of ?D E] by simp_all
  obtain X Y where U: "rows_down r ?D = Some X" "put_row r a X = Some Y" "Y = ?D\<lparr>rows := rows Y\<rparr>"
    "ed_text (Y\<lparr>line_count := line_count E + 1\<rparr>) = take (nat r) (ed_text E) @ a # drop (nat r) (ed_text E)"
    using rows_down_text [OF b1(1) _ assms(3) _ assms(5)] assms(2,4) unfolding b1(2,3) by blast
  have ly: "line_count Y = line_count E" by (subst U(3)) simp
  have "do_undo E = Some (undo_done ''undo'' (Y\<lparr>line_count := line_count Y + 1, cur_row := r, cur_col := 0\<rparr>))"
    using U(1,2) by (simp add: do_undo_def st Let_def bring_row_def)
  then show ?thesis using U(4) by (simp add: ly ed_text_def)
qed

lemma undo_inserted_row:
  assumes "buf_ok E" and "0 \<le> r" and "r < line_count E" and "top_entry U_INSERT_LINE r a b E"
  shows "\<exists>E1. do_undo E = Some E1 \<and> ed_text E1 = take (nat r) (ed_text E) @ drop (nat (r + 1)) (ed_text E)"
proof -
  obtain st where st: "undostk E = st @ [\<lparr>u_op = U_INSERT_LINE, u_row = r, u_old = a, u_new = b\<rparr>]" "undopos E = Suc (length st)"
    using assms(4) by (auto simp: top_entry_def)
  let ?D = "E\<lparr>undopos := length st\<rparr>"
  have b1: "buf_ok ?D" "ed_text ?D = ed_text E" "line_count ?D = line_count E" using assms(1) buf_ok_cong [of ?D E] by simp_all
  obtain X where X: "rows_up r 1 ?D = Some X" "X = ?D\<lparr>rows := rows X\<rparr>"
    "take (nat (line_count E - 1)) (rows X) = take (nat r) (ed_text E) @ drop (nat (r + 1)) (ed_text E)"
    using rows_up_text [OF b1(1) assms(2), of 1] assms(3) unfolding b1(2,3) by auto
  have "line_count X = line_count E" by (subst X(2)) simp
  then have "\<exists>E1. do_undo E = Some E1 \<and> rows E1 = rows X \<and> line_count E1 = line_count E - 1"
    using X(1) by (simp add: do_undo_def st Let_def drop_row_def)
  then show ?thesis using X(3) by (auto simp: ed_text_def)
qed

lemma undo_delete_line:
  assumes "ed_ok E" and "2 \<le> line_count E"
  shows "\<exists>E1 E2. delete_line E = Some E1 \<and> do_undo E1 = Some E2 \<and> ed_text E2 = ed_text E \<and> ed_text E1 \<noteq> ed_text E"
proof -
  let ?r = "cur_row E" and ?t = "ed_text E ! nat (cur_row E)" and ?n = "line_count E"
  have r: "buf_ok E" "0 \<le> ?r" "?r < ?n" "length ?t < MAX_LINE" "nat ?r < length (ed_text E)" "length (ed_text E) = nat ?n"
    using assms(1) by (auto simp: ed_ok_iff text_short length_ed_text)
  let ?P = "push_undo U_DELETE_LINE ?r ?t [] E"
  have bP: "buf_ok ?P" "ed_text ?P = ed_text E" "line_count ?P = ?n" using r(1) buf_ok_cong [of ?P E] by simp_all
  obtain E1 where E1: "rows_up ?r 1 ?P = Some E1" "E1 = ?P\<lparr>rows := rows E1\<rparr>" "length (rows E1) = MAX_LINES"
    "take (nat (?n - 1)) (rows E1) = take (nat ?r) (ed_text E) @ drop (nat (?r + 1)) (ed_text E)"
    using rows_up_text [OF bP(1) r(2), of 1] r(3) by (auto simp: bP(2))
  define R where "R = rows E1"
  have e1: "E1 = ?P\<lparr>rows := R\<rparr>" using E1(2) by (simp add: R_def)
  let ?c = "if ?n - 1 \<noteq> 0 \<and> ?n - 1 \<le> ?r then ?n - 1 - 1 else ?r"
  let ?D = "ensure_visible (?P\<lparr>rows := R, line_count := ?n - 1, cur_row := ?c, cur_col := 0, dirty := True, v_col_save := 0\<rparr>)"
  have d: "delete_line E = Some ?D"
    using assms(2) row_at_text [OF r(1,2,3)] E1(1) unfolding delete_line_def e1 by (simp add: one_row_def)
  have dx: "ed_text ?D = take (nat ?r) (ed_text E) @ drop (nat ?r + 1) (ed_text E)"
    using E1(4) r(2) by (simp add: ed_text_def R_def nat_add_distrib)
  have "set (ed_text ?D) \<subseteq> set (ed_text E)" unfolding dx using set_take_subset set_drop_subset by fastforce
  then have bD: "buf_ok ?D" using r(1) E1(3) assms(2) by (auto simp: buf_ok_def R_def)
  have "top_entry U_DELETE_LINE ?r ?t [] ?D" by (rule top_push [of _ _ _ _ _ E]) (use r(4) in \<open>simp_all add: MAX_LINE_def\<close>)
  then obtain E2 where E2: "do_undo ?D = Some E2" "ed_text E2 = take (nat ?r) (ed_text ?D) @ ?t # drop (nat ?r) (ed_text ?D)"
    using undo_deleted_row [OF bD _ r(2) _ r(4), of "[]"] r(1,3) by (auto simp: buf_ok_def)
  have "ed_text E2 = take (nat ?r) (ed_text E) @ ?t # drop (nat ?r + 1) (ed_text E)" unfolding E2(2) dx using r(5) by simp
  then have "ed_text E2 = ed_text E" using r(5) by (simp add: id_take_nth_drop [symmetric])
  moreover have "ed_text ?D \<noteq> ed_text E"
  proof
    assume "ed_text ?D = ed_text E"
    then have "length (take (nat ?r) (ed_text E) @ drop (nat ?r + 1) (ed_text E)) = length (ed_text E)" by (simp only: dx)
    then show False using r(5) by simp
  qed
  ultimately show ?thesis using d E2(1) by blast
qed

text \<open>The only row of a text: dd leaves an empty row, which is not part of the entry, so u puts the row back above it.\<close>

lemma undo_delete_only_row:
  assumes "ed_ok E" and "line_count E = 1"
  shows "\<exists>E1 E2. delete_line E = Some E1 \<and> ed_text E1 = [[]] \<and> do_undo E1 = Some E2 \<and> ed_text E2 = [ed_text E ! 0, []]"
proof -
  let ?t = "ed_text E ! 0"
  have r: "buf_ok E" "cur_row E = 0" "length (ed_text E) = 1" using assms by (auto simp: ed_ok_iff length_ed_text)
  have t: "length ?t < MAX_LINE" using text_short [OF r(1), of 0] assms(2) by simp
  let ?P = "push_undo U_DELETE_LINE 0 ?t [] E"
  have bP: "buf_ok ?P" "ed_text ?P = ed_text E" "line_count ?P = 1" using r(1) assms(2) buf_ok_cong [of ?P E] by simp_all
  obtain E1 where E1: "rows_up 0 1 ?P = Some E1" "E1 = ?P\<lparr>rows := rows E1\<rparr>" "length (rows E1) = MAX_LINES"
    using rows_up_text [OF bP(1), of 0 1] assms(2) by (auto simp: bP(2))
  define R where "R = rows E1"
  have e1: "E1 = ?P\<lparr>rows := R\<rparr>" and R: "length R = MAX_LINES" using E1(2,3) by (simp_all add: R_def)
  let ?D = "ensure_visible (?P\<lparr>rows := R[0 := []], line_count := 1, cur_col := 0, dirty := True, v_col_save := 0\<rparr>)"
  have "row_at (cur_row E) E = Some ?t" using row_at_text [OF r(1), of 0] assms(2) r(2) by simp
  then have d: "delete_line E = Some ?D"
    using assms(2) r(2) E1(1) R unfolding delete_line_def e1 by (simp add: one_row_def put_row_def MAX_LINES_def)
  obtain x R' where "R = x # R'" using R by (cases R) (auto simp: MAX_LINES_def)
  then have dx: "ed_text ?D = [[]]" by (simp add: ed_text_def)
  have bD: "buf_ok ?D" using r(1) R dx by (auto simp: buf_ok_def MAX_LINES_def MAX_LINE_def)
  have "top_entry U_DELETE_LINE 0 ?t [] ?D" by (rule top_push [of _ _ _ _ _ E]) (use t in \<open>simp_all add: MAX_LINE_def\<close>)
  then obtain E2 where E2: "do_undo ?D = Some E2" "ed_text E2 = take (nat 0) (ed_text ?D) @ ?t # drop (nat 0) (ed_text ?D)"
    using undo_deleted_row [OF bD _ _ _ t, of 0 "[]"] by (auto simp: MAX_LINES_def)
  then show ?thesis using d dx by auto
qed

text \<open>What u is for: after the command the text is another, and undo brings back exactly the text before it.\<close>

definition undone :: "'d ed_op \<Rightarrow> 'd editor \<Rightarrow> bool" where
  "undone f E \<longleftrightarrow> (\<exists>E1 E2. f E = Some E1 \<and> do_undo E1 = Some E2 \<and> ed_text E2 = ed_text E \<and> ed_text E1 \<noteq> ed_text E)"

text \<open>C12: Undo of the commands that delete inside a row, the cursor past its first character and before its end: after x, X
  or D, u brings back exactly the text that was there; after dd it does when the text has two rows or more, and
  when it has one, u leaves that row and an empty one below it that was not there before.
\<close>

theorem undo_restores_deleted:
  assumes "ed_ok E" and "0 < cur_col E" and "cur_col E < int (length (ed_text E ! nat (cur_row E)))"
  shows "undone delete_char E \<and> undone backspace_char E \<and> undone delete_to_eol E
    \<and> (2 \<le> line_count E \<longrightarrow> undone delete_line E)
    \<and> (line_count E = 1 \<longrightarrow> (\<exists>E1 E2. delete_line E = Some E1 \<and> ed_text E1 = [[]] \<and> do_undo E1 = Some E2 \<and> ed_text E2 = [ed_text E ! 0, []]))"
proof -
  let ?r = "cur_row E" and ?t = "ed_text E ! nat (cur_row E)" and ?c = "cur_col E"
  have r: "row_at ?r E = Some ?t" "0 \<le> ?r" "?r < int MAX_LINES" using assms(1) by (auto simp: ed_ok_iff row_at_text buf_ok_def)
  let ?u = "take (nat ?c) ?t @ drop (nat ?c + 1) ?t" and ?b = "take (nat (?c - 1)) ?t @ drop (nat (?c - 1) + 1) ?t" and ?e = "take (nat ?c) ?t"
  let ?D = "(push_undo U_MODIFY ?r ?t ?u (E\<lparr>rows := (rows E)[nat ?r := ?u]\<rparr>))\<lparr>dirty := True\<rparr>"
  let ?B = "(push_undo U_MODIFY ?r ?t ?b (E\<lparr>cur_col := ?c - 1, rows := (rows E)[nat ?r := ?b]\<rparr>))\<lparr>dirty := True\<rparr>"
  let ?L = "(push_undo U_MODIFY ?r ?t ?e (E\<lparr>rows := (rows E)[nat ?r := ?e]\<rparr>))\<lparr>dirty := True\<rparr>"
  have l: "length ?u < length ?t" "length ?b < length ?t" "length ?e < length ?t" using assms(2,3) by auto
  have "delete_char E = Some ?D" using assms(2,3) r by (simp add: delete_char_def cut_at_some put_row_here [OF assms(1)])
  moreover have "\<exists>E2. do_undo ?D = Some E2 \<and> ed_text E2 = ed_text E \<and> ed_text ?D \<noteq> ed_text E" by (rule undo_after [OF assms(1) refl l(1)]) simp_all
  moreover obtain w where "save_col ?B = Some (?B\<lparr>v_col_save := w\<rparr>)" using save_col_some [of ?B] r(2,3) by auto
  then have "backspace_char E = Some (?B\<lparr>v_col_save := w\<rparr>)" using assms(2,3) r by (simp add: backspace_char_def cut_at_some put_row_here [OF assms(1)])
  moreover have "\<exists>E2. do_undo (?B\<lparr>v_col_save := w\<rparr>) = Some E2 \<and> ed_text E2 = ed_text E \<and> ed_text (?B\<lparr>v_col_save := w\<rparr>) \<noteq> ed_text E"
    by (rule undo_after [OF assms(1) refl l(2)]) simp_all
  moreover have "delete_to_eol E = Some ?L" using assms(2,3) r by (simp add: delete_to_eol_def Let_def put_row_here [OF assms(1)])
  moreover have "\<exists>E2. do_undo ?L = Some E2 \<and> ed_text E2 = ed_text E \<and> ed_text ?L \<noteq> ed_text E" by (rule undo_after [OF assms(1) refl l(3)]) simp_all
  ultimately have "undone delete_char E" "undone backspace_char E" "undone delete_to_eol E" unfolding undone_def by blast+
  moreover have "undone delete_line E" if "2 \<le> line_count E" using undo_delete_line [OF assms(1) that] by (simp add: undone_def)
  ultimately show ?thesis using undo_delete_only_row [OF assms(1)] by blast
qed

lemma undo_restores_deleted_witness:
  "undone delete_line (sample_ed [lit ''hello'', lit ''x''] 0 2 [])
    \<and> (\<exists>E1 E2. delete_line (sample_ed [lit ''hello''] 0 2 []) = Some E1 \<and> do_undo E1 = Some E2 \<and> ed_text E2 = [lit ''hello'', []])"
proof -
  have "ed_ok (sample_ed [lit ''hello'', lit ''x''] 0 2 [])" "ed_ok (sample_ed [lit ''hello''] 0 2 [])"
    using sample_buf_ok [of "[lit ''hello'', lit ''x'']" 0 2] sample_buf_ok [of "[lit ''hello'']" 0 2]
    by (simp_all add: ed_ok_iff MAX_LINES_def MAX_LINE_def)
  from undo_restores_deleted [OF this(1)] undo_restores_deleted [OF this(2)] show ?thesis by simp blast
qed

subsection \<open>What undo loses\<close>

text \<open>The entry Enter leaves: undoing it takes the new row away and puts nothing back, so the row ends at the
  cursor and the characters that were behind it are in no row of the text. (In the editor Escape pushes an
  entry of its own above this one, so it is the second u that reaches it.)\<close>

lemma undo_of_enter_loses_tail:
  assumes "ed_ok E" and "line_count E < int MAX_LINES" and "t = ed_text E ! nat (cur_row E)"
  shows "\<exists>E1 E2. split_line E = Some E1 \<and> do_undo E1 = Some E2
    \<and> ed_text E1 = take (nat (cur_row E)) (ed_text E) @ take (nat (cur_col E)) t # drop (nat (cur_col E)) t # drop (nat (cur_row E) + 1) (ed_text E)
    \<and> ed_text E2 = (ed_text E)[nat (cur_row E) := take (nat (cur_col E)) t]"
proof -
  let ?r = "nat (cur_row E)" and ?T = "ed_text E" and ?c = "nat (cur_col E)"
  have r: "0 \<le> cur_row E" "?r < length ?T" "length t < MAX_LINE" "cur_row E < line_count E"
    using assms(1) by (auto simp: ed_ok_iff length_ed_text text_short assms(3))
  obtain E1 where E1: "split_line E = Some E1" "ed_ok E1" "line_count E1 = line_count E + 1" "ed_text E1 = take ?r ?T @ take ?c t # drop ?c t # drop (?r + 1) ?T"
    "undostk E1 = undostk (push_undo U_INSERT_LINE (cur_row E + 1) t (drop ?c t) E)" "undopos E1 = undopos (push_undo U_INSERT_LINE (cur_row E + 1) t (drop ?c t) E)"
    using split_line_result [OF assms(1,2)] assms(3) by blast
  have te: "top_entry U_INSERT_LINE (cur_row E + 1) t (drop ?c t) E1" by (rule top_push [OF E1(5,6) r(3)]) (use r(3) in simp)
  have b: "buf_ok E1" using E1(2) by (simp add: ed_ok_def)
  obtain E2 where E2: "do_undo E1 = Some E2" "ed_text E2 = take (nat (cur_row E + 1)) (ed_text E1) @ drop (nat (cur_row E + 1 + 1)) (ed_text E1)"
    using undo_inserted_row [OF b _ _ te] r(1,4) E1(3) by auto
  have n: "nat (cur_row E + 1) = Suc ?r" "nat (cur_row E + 1 + 1) = Suc (Suc ?r)" using r(1) by simp_all
  have "length (take ?r ?T) = ?r" using r(2) by simp
  then have "ed_text E2 = take ?r ?T @ take ?c t # drop (?r + 1) ?T" unfolding E2(2) E1(4) n by simp
  also have "\<dots> = ?T[?r := take ?c t]" using r(2) by (simp add: upd_conv_take_nth_drop)
  finally show ?thesis using E1(1,4) E2(1) by blast
qed

text \<open>Undo of a join takes another row: x at the end of a row appends the next row to it, but u then drops the row after the two, which the
  command never touched, and leaves them joined.
\<close>

theorem undo_of_join_drops_row:
  assumes "ed_ok E" and "cur_row E + 2 < line_count E" and "a = ed_text E ! nat (cur_row E)" and "b = ed_text E ! nat (cur_row E + 1)"
    and "cur_col E = int (length a)" and "length a + length b < MAX_LINE - 1"
  shows "\<exists>E1 E2. delete_char E = Some E1 \<and> do_undo E1 = Some E2
    \<and> ed_text E1 = take (nat (cur_row E)) (ed_text E) @ (a @ b) # drop (nat (cur_row E) + 2) (ed_text E)
    \<and> ed_text E2 = take (nat (cur_row E)) (ed_text E) @ (a @ b) # drop (nat (cur_row E) + 3) (ed_text E)"
proof -
  let ?r = "nat (cur_row E)" and ?T = "ed_text E"
  have r: "buf_ok E" "0 \<le> cur_row E" "?r < length ?T" "cur_row E + 1 < line_count E" using assms(1,2) by (auto simp: ed_ok_iff length_ed_text)
  obtain J where J: "join_rows (cur_row E) E = Some J" "J = E\<lparr>rows := rows J, line_count := line_count E - 1\<rparr>" "buf_ok J"
    "ed_text J = take ?r ?T @ (a @ b) # drop (?r + 2) ?T"
    using join_rows_text [OF r(1,2,4)] assms(3,4,6) by blast
  have f: "line_count J = line_count E - 1" by (subst J(2)) simp
  have ab: "row_at (cur_row E) E = Some a" "row_at (cur_row E + 1) E = Some b" using r assms by (simp_all add: row_at_text)
  let ?E1 = "(push_undo U_INSERT_LINE (cur_row E + 1) a (a @ b) J)\<lparr>dirty := True\<rparr>"
  have d: "delete_char E = Some ?E1" using assms(5,6) r(4) J(1) by (simp add: delete_char_def ab)
  have te: "top_entry U_INSERT_LINE (cur_row E + 1) a (a @ b) ?E1" by (rule top_push [of _ _ _ _ _ J]) (use assms(6) in simp_all)
  have b1: "buf_ok ?E1" "ed_text ?E1 = ed_text J" "line_count ?E1 = line_count E - 1" using J(3) buf_ok_cong [of ?E1 J] by (simp_all add: f)
  obtain E2 where E2: "do_undo ?E1 = Some E2" "ed_text E2 = take (nat (cur_row E + 1)) (ed_text J) @ drop (nat (cur_row E + 1 + 1)) (ed_text J)"
    using undo_inserted_row [OF b1(1) _ _ te] r(2) assms(2) b1(2,3) by auto
  have n: "nat (cur_row E + 1) = Suc ?r" "nat (cur_row E + 1 + 1) = Suc (Suc ?r)" using r(2) by simp_all
  have "length (take ?r ?T) = ?r" using r(3) by simp
  then have "ed_text E2 = take ?r ?T @ (a @ b) # drop (?r + 3) ?T" unfolding E2(2) J(4) n by (simp add: numeral_3_eq_3)
  then show ?thesis using d E2(1) J(4) b1(2) by auto
qed

lemma undo_of_join_drops_row_witness:
  "\<exists>E1 E2. delete_char (sample_ed [lit ''a'', lit ''b'', lit ''c''] 0 1 []) = Some E1 \<and> do_undo E1 = Some E2
    \<and> ed_text E1 = [lit ''ab'', lit ''c''] \<and> ed_text E2 = [lit ''ab'']"
proof -
  let ?E = "sample_ed [lit ''a'', lit ''b'', lit ''c''] 0 1 []"
  have "ed_ok ?E" using sample_buf_ok [of "[lit ''a'', lit ''b'', lit ''c'']" 0 1] by (simp add: ed_ok_iff MAX_LINES_def MAX_LINE_def)
  then show ?thesis using undo_of_join_drops_row [of ?E "lit ''a''" "lit ''b''"] by (simp add: MAX_LINE_def)
qed

end
