(* ===== verification/EditText.thy ===== *)
theory EditText
  imports EditUndo FileWrites
begin

text \<open>
  The editor of shell/edit.c beyond the rows: reading the lines of a file, the search, the page keys in insert
  mode and the command line.
\<close>

subsection \<open>Lines of a file\<close>

text \<open>A row that a file can hold as it is, and the bytes save_file writes for rows.\<close>

definition plain_row :: "bytes \<Rightarrow> bool" where
  "plain_row t \<longleftrightarrow> length t < MAX_LINE \<and> 0 \<notin> set t \<and> 10 \<notin> set t \<and> 13 \<notin> set t"

definition saved_rows :: "bytes list \<Rightarrow> bytes" where
  "saved_rows ts = concat (map (\<lambda>t. t @ [10]) ts)"

text \<open>These are the bytes save_file writes: a write for each row that is not empty, and one for each newline.\<close>

definition row_pieces :: "bytes list \<Rightarrow> bytes list" where
  "row_pieces ts = concat (map (\<lambda>t. if t = [] then [[10]] else [t, [10]]) ts)"

lemma save_rows_writes: "concat (row_pieces ts) = saved_rows ts \<and> save_rows h ts F = write_all h (row_pieces ts) F"
proof
  show "concat (row_pieces ts) = saved_rows ts"
    by (induction ts) (simp_all add: row_pieces_def saved_rows_def)
  show "save_rows h ts F = write_all h (row_pieces ts) F"
    by (induction ts arbitrary: F) (auto simp: row_pieces_def split_beta map_option_case split: Option.bind_splits option.splits)
qed

lemma line_scan_row:
  "10 \<notin> set t \<Longrightarrow> 13 \<notin> set t \<Longrightarrow> l + length t < MAX_LINE \<Longrightarrow> line_scan l (t @ 10 # p) = (t, 10 # p)"
  by (induction t arbitrary: l) (auto simp: MAX_LINE_def)

text \<open>Saving and loading agree: from the bytes that the rows of an editor make, each with a newline after it, load_file
  takes exactly those rows, for at most 256 rows of at most 119 characters with no zero, newline or carriage
  return. load_file reads at most 16383 bytes, so of a longer file only the rows of its start come back.\<close>

lemma load_saved_rows:
  assumes "\<forall>t\<in>set ts. plain_row t" and "n + length ts \<le> MAX_LINES"
  shows "load_lines n (saved_rows ts) = ts"
  using assms
proof (induction ts arbitrary: n)
  case Nil
  show ?case by (subst load_lines.simps) (simp add: saved_rows_def)
next
  case (Cons t ts)
  have p: "plain_row t" "n < MAX_LINES" using Cons.prems by auto
  have "saved_rows (t # ts) = t @ 10 # saved_rows ts" by (simp add: saved_rows_def)
  moreover have "line_scan 0 (t @ 10 # saved_rows ts) = (t, 10 # saved_rows ts)" using p by (intro line_scan_row) (auto simp: plain_row_def)
  moreover have "chars t = t" using p(1) by (intro chars_id) (auto simp: plain_row_def)
  ultimately show ?case using Cons p(2) by (subst load_lines.simps) simp
qed

lemma load_saved_rows_witness: "load_lines 0 (saved_rows [lit ''two'', [], lit ''rows'']) = [lit ''two'', [], lit ''rows'']"
  by (rule load_saved_rows) (simp_all add: plain_row_def MAX_LINE_def MAX_LINES_def)

subsection \<open>Search\<close>

text \<open>The pattern stands at column j of row t, and nowhere in it.\<close>

definition occurs_at :: "bytes \<Rightarrow> bytes \<Rightarrow> nat \<Rightarrow> bool" where
  "occurs_at pat t j \<longleftrightarrow> j < length t \<and> take (length pat) (drop j t) = pat"

definition occurs :: "bytes \<Rightarrow> bytes \<Rightarrow> bool" where
  "occurs pat t \<longleftrightarrow> (\<exists>j<length t. occurs_at pat t j)"

lemma find_in_row_Some: "find_in_row pat t = Some j \<Longrightarrow> occurs_at pat t j \<and> (\<forall>k<j. \<not> occurs_at pat t k)"
  by (auto simp: find_in_row_def first_idx_Some occurs_at_def)

lemma find_in_row_None: "find_in_row pat t = None \<longleftrightarrow> \<not> occurs pat t"
  by (auto simp: find_in_row_def first_idx_None occurs_at_def occurs_def)

text \<open>The row that the i-th step of a search looks at.\<close>

definition search_row :: "'d editor \<Rightarrow> int \<Rightarrow> int" where
  "search_row E i = (cur_row E + i * search_dir E) mod line_count E"

lemma smod_nonneg: "0 \<le> x \<Longrightarrow> 0 < n \<Longrightarrow> x smod n = x mod (n :: int)"
  by (auto simp: signed_modulo_int_def sgn_if)

lemma search_row_smod:
  assumes "0 < n" and "0 \<le> c" and "1 \<le> i" and "i \<le> n" and "d = 1 \<or> d = -1"
  shows "(c + i * d + n) smod n = (c + i * d) mod (n :: int)"
proof -
  have "0 \<le> c + i * d + n" using assms by auto
  then have "(c + i * d + n) smod n = (c + i * d + n) mod n" using assms(1) by (rule smod_nonneg)
  then show ?thesis by (simp only: mod_add_self2)
qed

lemma search_rows_finds:
  assumes "ed_ok E" and "search_dir E = 1 \<or> search_dir E = -1" and "1 \<le> a" and "\<exists>i\<in>set [a..line_count E]. occurs (search_pat E) (ed_text E ! nat (search_row E i))"
  shows "\<exists>E1 i. search_rows [a..line_count E] E = Some (True, E1) \<and> moves E (Some E1) \<and> a \<le> i \<and> i \<le> line_count E \<and> cur_row E1 = search_row E i
    \<and> occurs_at (search_pat E) (ed_text E ! nat (cur_row E1)) (nat (cur_col E1)) \<and> (\<forall>k. a \<le> k \<and> k < i \<longrightarrow> \<not> occurs (search_pat E) (ed_text E ! nat (search_row E k)))"
  using assms(3,4)
proof (induction "nat (line_count E + 1 - a)" arbitrary: a)
  case 0
  then show ?case by auto
next
  case (Suc x)
  let ?n = "line_count E" and ?t = "ed_text E ! nat (search_row E a)"
  have an: "a \<le> ?n" using Suc.hyps(2) by linarith
  have b: "buf_ok E" "0 < ?n" "0 \<le> cur_row E" using assms(1) by (auto simp: ed_ok_iff)
  have up: "[a..?n] = a # [a + 1..?n]" using an by (rule upto_rec1)
  have r: "0 \<le> search_row E a" "search_row E a < ?n" using b(2) by (simp_all add: search_row_def)
  have m: "(cur_row E + a * search_dir E + ?n) smod ?n = search_row E a"
    unfolding search_row_def using search_row_smod [OF b(2,3) Suc.prems(1) an assms(2)] .
  have t: "row_at (search_row E a) E = Some ?t" using row_at_text [OF b(1) r] .
  show ?case
  proof (cases "find_in_row (search_pat E) ?t")
    case None
    then have no: "\<not> occurs (search_pat E) ?t" by (simp add: find_in_row_None)
    then have "\<exists>i\<in>set [a + 1..?n]. occurs (search_pat E) (ed_text E ! nat (search_row E i))" using Suc.prems(2) unfolding up by auto
    moreover have "x = nat (?n + 1 - (a + 1))" "1 \<le> a + 1" using Suc.hyps(2) Suc.prems(1) by linarith+
    ultimately obtain E1 i where IH: "search_rows [a + 1..?n] E = Some (True, E1)" "moves E (Some E1)" "a + 1 \<le> i" "i \<le> ?n" "cur_row E1 = search_row E i"
      "occurs_at (search_pat E) (ed_text E ! nat (cur_row E1)) (nat (cur_col E1))"
      "\<forall>k. a + 1 \<le> k \<and> k < i \<longrightarrow> \<not> occurs (search_pat E) (ed_text E ! nat (search_row E k))"
      using Suc.hyps(1) by blast
    have "\<forall>k. a \<le> k \<and> k < i \<longrightarrow> \<not> occurs (search_pat E) (ed_text E ! nat (search_row E k))"
    proof (intro allI impI)
      fix k assume "a \<le> k \<and> k < i"
      then show "\<not> occurs (search_pat E) (ed_text E ! nat (search_row E k))" using no IH(7) by (cases "k = a") auto
    qed
    moreover have "search_rows [a..?n] E = Some (True, E1)" unfolding up using IH(1) by (simp add: m t None)
    ultimately show ?thesis using IH(2,3,4,5,6) by (intro exI [of _ E1] exI [of _ i]) simp
  next
    case (Some j)
    then have o: "occurs_at (search_pat E) ?t j" using find_in_row_Some by blast
    let ?E = "E\<lparr>cur_row := search_row E a, cur_col := int j\<rparr>"
    have c: "cursor_at (cur_row ?E) (cur_col ?E) E" using o r by (simp add: cursor_at_def occurs_at_def)
    obtain w where w: "save_col ?E = Some (?E\<lparr>v_col_save := w\<rparr>)" using save_col_some [of ?E] r b(1) by (auto simp: buf_ok_def)
    have s: "settle ?E = Some (ensure_visible (?E\<lparr>v_col_save := w\<rparr>))" by (simp add: settle_def w)
    moreover have "moves E (settle ?E)" by (rule moved(4) [OF assms(1) c]) simp_all
    ultimately have "search_rows [a..?n] E = Some (True, ensure_visible (?E\<lparr>v_col_save := w\<rparr>))" "moves E (Some (ensure_visible (?E\<lparr>v_col_save := w\<rparr>)))"
      unfolding up by (simp_all add: m t Some)
    then show ?thesis using o an by (intro exI [of _ "ensure_visible (?E\<lparr>v_col_save := w\<rparr>)"] exI [of _ a]) auto
  qed
qed

text \<open>C15: The search: when a pattern stands in some row of the text, a search up or down finds it. The cursor ends on an occurrence, in the first row
  with one in the direction of the search from the row after the cursor's, round the ends of the text and its own row last; the text stays as it is.
\<close>

theorem search_finds_next:
  assumes "ed_ok E" and "search_dir E = 1 \<or> search_dir E = -1" and "search_pat E \<noteq> []" and "1 \<le> s" and "s \<le> line_count E"
    and "occurs (search_pat E) (ed_text E ! nat (search_row E s))"
  shows "\<exists>E1 i. search_next E = Some (True, E1) \<and> ed_text E1 = ed_text E \<and> 1 \<le> i \<and> i \<le> line_count E \<and> cur_row E1 = search_row E i
    \<and> occurs_at (search_pat E) (ed_text E ! nat (cur_row E1)) (nat (cur_col E1)) \<and> (\<forall>k. 1 \<le> k \<and> k < i \<longrightarrow> \<not> occurs (search_pat E) (ed_text E ! nat (search_row E k)))"
proof -
  have "\<exists>i\<in>set [1..line_count E]. occurs (search_pat E) (ed_text E ! nat (search_row E i))" using assms(4,5,6) by auto
  then obtain E1 i where f: "search_rows [1..line_count E] E = Some (True, E1)" "moves E (Some E1)" "1 \<le> i" "i \<le> line_count E" "cur_row E1 = search_row E i"
    "occurs_at (search_pat E) (ed_text E ! nat (cur_row E1)) (nat (cur_col E1))"
    "\<forall>k. 1 \<le> k \<and> k < i \<longrightarrow> \<not> occurs (search_pat E) (ed_text E ! nat (search_row E k))"
    using search_rows_finds [OF assms(1,2), of 1] by auto
  have "ed_text E1 = ed_text E" using f(2) by (simp add: moves_def ed_text_def)
  then show ?thesis using f assms(3) by (intro exI [of _ E1] exI [of _ i]) (simp add: search_next_def)
qed

lemma search_finds_next_witness:
  "\<exists>E1. search_next ((sample_ed [lit ''ab'', lit ''cd''] 1 0 [])\<lparr>search_pat := lit ''b'', search_dir := 1\<rparr>) = Some (True, E1)
    \<and> occurs_at (lit ''b'') ([lit ''ab'', lit ''cd''] ! nat (cur_row E1)) (nat (cur_col E1))"
proof -
  let ?E = "(sample_ed [lit ''ab'', lit ''cd''] 1 0 [])\<lparr>search_pat := lit ''b'', search_dir := 1\<rparr>"
  have x: "ed_text ?E = [lit ''ab'', lit ''cd'']" using sample_text [of "[lit ''ab'', lit ''cd'']" 1 0 "[]"] unfolding ed_text_def by simp
  have "buf_ok ?E" using sample_buf_ok [of "[lit ''ab'', lit ''cd'']" 1 0 "[]"] by (simp add: buf_ok_def ed_text_def MAX_LINES_def MAX_LINE_def)
  then have "ed_ok ?E" by (simp add: ed_ok_iff x)
  moreover have "search_row ?E 1 = 0" by (simp add: search_row_def)
  moreover have "occurs (lit ''b'') (lit ''ab'')" unfolding occurs_def by (rule exI [of _ 1]) (simp add: occurs_at_def)
  then have "occurs (search_pat ?E) (ed_text ?E ! nat 0)" unfolding x by simp
  ultimately obtain E1 where "search_next ?E = Some (True, E1)" "occurs_at (search_pat ?E) (ed_text ?E ! nat (cur_row E1)) (nat (cur_col E1))"
    using search_finds_next [of ?E 1] by auto
  then show ?thesis unfolding x by auto
qed

subsection \<open>Page keys\<close>

text \<open>The page keys in insert mode keep the column: with the cursor more than one column beyond the end of the first row, Page Up and a
  printable character make the size of a copy negative, so the editor has no further state.
\<close>

theorem page_key_breaks_typing:
  assumes "ed_ok E" and "view_off E \<le> 22" and "int (length (ed_text E ! 0)) + 1 < cur_col E" and "length (ed_text E ! 0) < MAX_LINE - 2"
    and "typed_key k" and "ed_keys E = uint KB_PGUP # k # ks"
  shows "do_insert_mode E = None"
proof -
  let ?E0 = "refresh (E\<lparr>ed_mode := M_INSERT\<rparr>)"
  have b: "buf_ok E" "0 \<le> cur_row E" "cur_row E < line_count E" using assms(1) by (auto simp: ed_ok_iff)
  have o1: "ed_ok ?E0" by (rule ed_okI [OF b(1)]) (use assms(1) in \<open>auto simp: ed_ok_def\<close>)
  obtain h where h: "place_cursor ?E0 = Some (?E0\<lparr>hw_cursor := h\<rparr>)" using place_cursor_some [OF o1] by blast
  let ?E1 = "?E0\<lparr>hw_cursor := h, ed_keys := k # ks\<rparr>"
  let ?E2 = "refresh (page_up ?E1)"
  have f: "rows ?E2 = rows E" "line_count ?E2 = line_count E" "cur_col ?E2 = cur_col E" "cur_row ?E2 = 0"
    using assms(2) by (simp_all add: page_up_def Let_def)
  have pg: "insert_key (uint KB_PGUP) ?E1 = Some ?E2"
    by (simp add: insert_key_def KB_LEFT_def KB_RIGHT_def KB_UP_def KB_DOWN_def KB_HOME_def KB_END_def KB_DEL_def KB_PGUP_def)
  let ?t = "ed_text E ! 0"
  have "ed_text ?E2 = ed_text E" "buf_ok ?E2" using buf_ok_cong [of ?E2 E] b(1) f by simp_all
  then have t: "row_at 0 ?E2 = Some ?t" using row_at_text [of ?E2 0] b f(2) by simp
  obtain g where g: "place_cursor ?E2 = Some (?E2\<lparr>hw_cursor := g\<rparr>)" using t f(4) by (auto simp: place_cursor_def col_to_screen_def Let_def)
  let ?E3 = "?E2\<lparr>hw_cursor := g, ed_keys := ks\<rparr>"
  have t3: "row_at 0 ?E3 = Some ?t" using t by (simp add: row_at_def split: if_splits)
  have lt: "\<not> int MAX_LINE - 2 \<le> int (length ?t)" using assms(4) by linarith
  have "put_char (of_int k) ?E3 = None" using t3 f(3,4) assms(3) lt by (simp add: put_char_def)
  moreover have "uint (of_int k :: u8) = k" using assms(5) by (simp add: typed_key_def uint_word_of_int)
  then have "(of_int k :: u8) \<noteq> 9" using assms(5) by (auto simp: typed_key_def)
  ultimately have "insert_char (of_int k) ?E3 = None" using t3 f(4) lt by (simp add: insert_char_def row_len_def)
  then have "insert_key k ?E3 = None"
    using assms(5) by (simp add: insert_key_def typed_key_def KB_LEFT_def KB_RIGHT_def KB_UP_def KB_DOWN_def KB_HOME_def KB_END_def KB_DEL_def KB_PGUP_def KB_PGDN_def)
  moreover have "k \<noteq> 27" using assms(5) by (auto simp: typed_key_def)
  moreover have "row_at (cur_row E) (E\<lparr>ed_mode := M_INSERT\<rparr>) = Some (ed_text E ! nat (cur_row E))"
    using row_at_text [OF b] by (auto simp: row_at_def split: if_splits)
  moreover have "uint KB_PGUP \<noteq> 27" by (simp add: KB_PGUP_def)
  ultimately show ?thesis using h g pg by (simp add: do_insert_mode_def assms(6))
qed

lemma page_key_breaks_typing_witness: "do_insert_mode (sample_ed [lit ''a'', lit ''hello''] 1 5 [uint KB_PGUP, 0x61, 27]) = None"
proof (rule page_key_breaks_typing)
  show "ed_ok (sample_ed [lit ''a'', lit ''hello''] 1 5 [uint KB_PGUP, 0x61, 27])"
    using sample_buf_ok [of "[lit ''a'', lit ''hello'']" 1 5] by (simp add: ed_ok_iff MAX_LINES_def MAX_LINE_def)
  show "view_off (sample_ed [lit ''a'', lit ''hello''] 1 5 [uint KB_PGUP, 0x61, 27]) \<le> 22" by (simp add: sample_ed_def)
qed (simp_all add: MAX_LINE_def typed_key_def)

subsection \<open>The command line\<close>

text \<open>The command that the editor names for leaving a changed file is refused: from a changed buffer, :e! and a file name leave the text as it is
  and answer that :e! discards changes, because the letters are read up to the e and the exclamation mark becomes part of the name.
\<close>

theorem edit_force_refused:
  assumes "dirty E"
  shows "run_cmdline (lit '':e!'' @ name) E = Some (False, refresh (set_msg (lit ''unsaved -- :e! discards changes'') E))"
  using assms by (simp add: run_cmdline_def no_flags_def Let_def)

lemma edit_force_refused_witness:
  "run_cmdline (lit '':e!'' @ lit '' b.txt'') ((sample_ed [lit ''a''] 0 0 [])\<lparr>dirty := True\<rparr>)
    = Some (False, refresh (set_msg (lit ''unsaved -- :e! discards changes'') ((sample_ed [lit ''a''] 0 0 [])\<lparr>dirty := True\<rparr>)))"
  by (rule edit_force_refused) simp

end
