(* ===== verification/Shell.thy ===== *)
theory Shell
  imports EnvStore FatMount FatFile Keyboard "HOL-Library.Monad_Syntax"
begin

text \<open>
  The command shell: shell/shell.c, which reads a line, expands an alias and splits it into arguments, and
  the tables of shell/builtins.c it works with, the history, the aliases and the list of commands. Strings
  are the characters before the terminator; the keys pressed are a list, and None is a wait for a key that
  never comes.
\<close>

definition LINE_MAX :: nat where "LINE_MAX = 256"
definition HIST_MAX :: nat where "HIST_MAX = 32"
definition HIST_LEN :: nat where "HIST_LEN = 128"
definition ALIAS_MAX :: nat where "ALIAS_MAX = 16"
definition ALIAS_NAME_LEN :: nat where "ALIAS_NAME_LEN = 16"
definition ALIAS_VAL_LEN :: nat where "ALIAS_VAL_LEN = 64"
definition ARGV_MAX :: nat where "ARGV_MAX = 16"

text \<open>The tables, the console, the environment and the file system; an alias with an empty name is a free slot.\<close>

record 'd shell =
  g_hist :: "bytes list"
  g_hist_count :: nat
  g_alias :: "(bytes \<times> bytes) list"
  sh_keys :: "int list"
  kb_intr :: bool
  sh_out :: bytes
  sh_env :: env
  sh_fs :: "'d fsys"

type_synonym 'd sh_op = "'d shell \<Rightarrow> 'd shell option"
type_synonym 'd sh_cmd = "bytes list \<Rightarrow> 'd shell \<Rightarrow> (int \<times> 'd shell) option"

subsection \<open>The console\<close>

definition kputs :: "bytes \<Rightarrow> 'd shell \<Rightarrow> 'd shell" where
  "kputs s S = S\<lparr>sh_out := sh_out S @ s\<rparr>"

definition say :: "string \<Rightarrow> arg list \<Rightarrow> 'd sh_op" where
  "say fmt as S = map_option (\<lambda>r. S\<lparr>sh_out := fst r\<rparr>) (kprintf (sh_out S) (lit fmt) as)"

definition answer :: "int \<Rightarrow> string \<Rightarrow> arg list \<Rightarrow> 'd shell \<Rightarrow> (int \<times> 'd shell) option" where
  "answer r fmt as S = map_option (Pair r) (say fmt as S)"

text \<open>ksnprintf into a buffer of n bytes, read as a string.\<close>

definition format_str :: "nat \<Rightarrow> bytes \<Rightarrow> arg list \<Rightarrow> bytes option" where
  "format_str n fmt as = map_option (\<lambda>r. chars (fst r)) (ksnprintf (replicate n 0) n fmt as)"

abbreviation a_str :: "bytes \<Rightarrow> arg" where "a_str s \<equiv> ArgStr (Some s)"
abbreviation a_chr :: "u8 \<Rightarrow> arg" where "a_chr c \<equiv> ArgWord (ucast c)"
abbreviation a_int :: "int \<Rightarrow> arg" where "a_int i \<equiv> ArgWord (of_int i)"

subsection \<open>Arguments\<close>

definition is_space :: "u8 \<Rightarrow> bool" where
  "is_space c \<longleftrightarrow> isspace (uint c)"

text \<open>The words of a line, at most n; a word that starts with a double quote ends at the next one.\<close>

primrec tokenize_line :: "nat \<Rightarrow> bytes \<Rightarrow> bytes list" where
  "tokenize_line 0 p = []"
| "tokenize_line (Suc n) p =
     (case dropWhile is_space p of
        [] \<Rightarrow> []
      | c # q \<Rightarrow>
          if c = 0x22 then takeWhile (\<lambda>b. b \<noteq> 0x22) q # tokenize_line n (tl (dropWhile (\<lambda>b. b \<noteq> 0x22) q))
          else takeWhile (\<lambda>b. \<not> is_space b) (c # q) # tokenize_line n (tl (dropWhile (\<lambda>b. \<not> is_space b) (c # q))))"

subsection \<open>History\<close>

definition shell_history_add :: "bytes \<Rightarrow> 'd shell \<Rightarrow> 'd shell" where
  "shell_history_add line S =
     (if line = [] \<or> 0 < g_hist_count S \<and> g_hist S ! ((g_hist_count S - 1) mod HIST_MAX) = line then S
      else S\<lparr>g_hist := (g_hist S)[g_hist_count S mod HIST_MAX := take (HIST_LEN - 1) line], g_hist_count := g_hist_count S + 1\<rparr>)"

definition shell_history_get :: "int \<Rightarrow> 'd shell \<Rightarrow> bytes option" where
  "shell_history_get back S =
     (if back < 0 \<or> int HIST_MAX \<le> back \<or> int (g_hist_count S) \<le> back then None
      else Some (g_hist S ! nat ((int (g_hist_count S) - 1 - back + int HIST_MAX * 100) mod int HIST_MAX)))"

primrec history_lines :: "nat list \<Rightarrow> 'd sh_op" where
  "history_lines [] S = Some S"
| "history_lines (i # is) S = do {
     S1 \<leftarrow> say '' %4d  %s\<newline>'' [a_int (int (i + 1)), a_str (g_hist S ! (i mod HIST_MAX))] S;
     history_lines is S1 }"

definition cmd_history :: "'d sh_cmd" where
  "cmd_history args S =
     (let n = min (g_hist_count S) HIST_MAX; first = g_hist_count S - n in do {
        S1 \<leftarrow> history_lines [first..<first + n] S;
        Some (0, if n = 0 then kputs (lit '' (no history)\<newline>'') S1 else S1) })"

subsection \<open>Aliases\<close>

definition alias_match :: "'d shell \<Rightarrow> bytes \<Rightarrow> nat \<Rightarrow> bool" where
  "alias_match S name i \<longleftrightarrow> fst (g_alias S ! i) \<noteq> [] \<and> strcasecmp (fst (g_alias S ! i)) name = 0"

definition shell_alias_lookup :: "bytes \<Rightarrow> nat \<Rightarrow> 'd shell \<Rightarrow> bytes option" where
  "shell_alias_lookup name outsz S =
     map_option (\<lambda>i. take (outsz - 1) (snd (g_alias S ! i))) (first_idx (alias_match S name) ALIAS_MAX)"

text \<open>The end of cmd_alias: the slot of the name, or the first free one.\<close>

definition alias_set :: "bytes \<Rightarrow> bytes \<Rightarrow> 'd sh_op" where
  "alias_set name val S =
     map_option (\<lambda>i. S\<lparr>g_alias := (g_alias S)[i := (take (ALIAS_NAME_LEN - 1) name, take (ALIAS_VAL_LEN - 1) val)]\<rparr>)
       (case first_idx (alias_match S name) ALIAS_MAX of
          Some i \<Rightarrow> Some i
        | None \<Rightarrow> first_idx (\<lambda>i. fst (g_alias S ! i) = []) ALIAS_MAX)"

primrec alias_lines :: "(bytes \<times> bytes) list \<Rightarrow> 'd sh_op" where
  "alias_lines [] S = Some S"
| "alias_lines (a # as) S = do {
     S1 \<leftarrow> (if fst a = [] then Some S else say (''  alias %s='' @ [CHR 0x27] @ ''%s'' @ [CHR 0x27] @ ''\<newline>'') [a_str (fst a), a_str (snd a)] S);
     alias_lines as S1 }"

primrec join_words :: "bytes list \<Rightarrow> bytes" where
  "join_words [] = []"
| "join_words (w # ws) = (if ws = [] then w else w @ 0x20 # join_words ws)"

definition is_quote :: "u8 \<Rightarrow> bool" where
  "is_quote c \<longleftrightarrow> c = 0x22 \<or> c = 0x27"

text \<open>The value without a quote at its ends, cut to the size of the table.\<close>

definition alias_value :: "bytes \<Rightarrow> bytes" where
  "alias_value v =
     (let v1 = (if v \<noteq> [] \<and> is_quote (hd v) then tl v else v); b = take (ALIAS_VAL_LEN - 1) v1
      in if b \<noteq> [] \<and> is_quote (List.last b) then butlast b else b)"

definition cmd_alias :: "'d sh_cmd" where
  "cmd_alias args S =
     (if args = [] then
        (if \<forall>a\<in>set (g_alias S). fst a = [] then Some (0, kputs (lit ''  (no aliases)\<newline>'') S)
         else map_option (Pair 0) (alias_lines (g_alias S) S))
      else
        let arg = take (ALIAS_NAME_LEN + ALIAS_VAL_LEN + 1) (join_words args) in
        case first_idx (\<lambda>i. arg ! i = 0x3D) (length arg) of
          None \<Rightarrow> Some (1, kputs (lit ''usage: alias name=value\<newline>'') S)
        | Some e \<Rightarrow>
            (case alias_set (take e arg) (alias_value (drop (e + 1) arg)) S of
               None \<Rightarrow> Some (1, kputs (lit ''alias: table full\<newline>'') S)
             | Some S1 \<Rightarrow> Some (0, S1)))"

definition alias_del :: "bytes \<Rightarrow> 'd shell \<Rightarrow> 'd shell" where
  "alias_del name S =
     (case first_idx (alias_match S name) ALIAS_MAX of
        Some i \<Rightarrow> S\<lparr>g_alias := (g_alias S)[i := ([], snd (g_alias S ! i))]\<rparr>
      | None \<Rightarrow> S)"

definition cmd_unalias :: "'d sh_cmd" where
  "cmd_unalias args S =
     (case args of
        [] \<Rightarrow> Some (1, kputs (lit ''usage: unalias <name>\<newline>'') S)
      | name # _ \<Rightarrow>
          if first_idx (alias_match S name) ALIAS_MAX = None then answer 1 ''unalias: %s: not found\<newline>'' [a_str name] S
          else Some (0, alias_del name S))"

text \<open>The first word of a line replaced by its alias; a line that starts with a blank has no first word and
  becomes empty.\<close>

definition expand_alias :: "bytes \<Rightarrow> nat \<Rightarrow> 'd shell \<Rightarrow> bytes" where
  "expand_alias inp outsz S =
     (let i = min 64 (length (takeWhile (\<lambda>c. \<not> is_space c) inp)) in
      if i = 0 then []
      else case shell_alias_lookup (take 31 (take i inp)) 64 S of
             None \<Rightarrow> take (outsz - 1) inp
           | Some v \<Rightarrow> take (outsz - 1) (v @ drop i inp))"

subsection \<open>Reading a line\<close>

definition redraw_line :: "bytes \<Rightarrow> bytes \<Rightarrow> 'd shell \<Rightarrow> 'd shell" where
  "redraw_line prefix line S = kputs ([13] @ replicate (LINE_MAX + 16) 0x20 @ [13] @ prefix @ line) S"

definition shell_prompt_str :: "nat \<Rightarrow> 'd shell \<Rightarrow> bytes option" where
  "shell_prompt_str outsz S =
     (let drv = fs_get_drive (sh_fs S) in
      if drv = 0x3F then format_str outsz (lit ''Zenbite> '') []
      else format_str outsz (lit ''%c:%s> '') [a_chr drv, a_str (fs_cwd (sh_fs S))])"

text \<open>The line edited, how far back in the history it was taken, -1 for none, and the line to come back to.\<close>

primrec line_loop :: "int list \<Rightarrow> bytes \<Rightarrow> bytes \<Rightarrow> int \<Rightarrow> bytes \<Rightarrow> 'd shell \<Rightarrow> (bytes \<times> 'd shell) option" where
  "line_loop [] prompt b idx saved S = None"
| "line_loop (c # ks) prompt b idx saved S =
     (if c = 3 then Some ([], (kputs (lit ''^C\<newline>'') S)\<lparr>sh_keys := ks, kb_intr := False\<rparr>)
      else if c = 10 \<or> c = 13 then Some (b, (kputs [10] S)\<lparr>sh_keys := ks\<rparr>)
      else if c = 8 then
        (if b \<noteq> [] then line_loop ks prompt (butlast b) idx saved (kputs [8] S) else line_loop ks prompt b idx saved S)
      else if c = uint KB_UP then
        (case shell_history_get (idx + 1) S of
           None \<Rightarrow> line_loop ks prompt b idx saved S
         | Some h \<Rightarrow>
             let b1 = take (LINE_MAX - 1) h
             in line_loop ks prompt b1 (idx + 1) (if idx < 0 then b else saved) (redraw_line prompt b1 S))
      else if c = uint KB_DOWN then
        (if idx < 0 then line_loop ks prompt b idx saved S
         else
           let b1 = take (LINE_MAX - 1)
                 (if idx - 1 < 0 then saved else case shell_history_get (idx - 1) S of Some h \<Rightarrow> h | None \<Rightarrow> [])
           in line_loop ks prompt b1 (idx - 1) saved (redraw_line prompt b1 S))
      else if 0x80 \<le> c \<or> c < 0x20 \<or> 0x7E < c \<or> LINE_MAX \<le> length b + 1 then line_loop ks prompt b idx saved S
      else line_loop ks prompt (b @ [of_int c]) (-1) saved (kputs [of_int c] S))"

definition read_line :: "bytes \<Rightarrow> 'd shell \<Rightarrow> (bytes \<times> 'd shell) option" where
  "read_line prompt S = line_loop (sh_keys S) prompt [] (-1) [] S"

subsection \<open>The table of commands\<close>

text \<open>A command that is not one of the table leaves -1 and may be a program.\<close>

datatype command =
    C_HELP | C_VER | C_CLR | C_SAY | C_MEM | C_CPU | C_UP | C_TINT
  | C_LS | C_CAT | C_CD | C_MKD | C_RMD | C_RM | C_MV | C_CPR
  | C_EVI | C_CC | C_ZBC
  | C_LSBLK | C_MOUNT | C_UMOUNT | C_SCAN | C_DRIVES | C_FORMAT | C_FLASH | C_INSTALL
  | C_PARTS | C_MKPART | C_DELPART | C_SETACTIVE | C_MKMBR
  | C_DF | C_DU | C_FIND | C_GREP | C_MORE
  | C_HISTORY | C_ALIAS | C_UNALIAS
  | C_WGET | C_PING | C_NSLOOKUP | C_IFCONFIG | C_DATE | C_TIME | C_KEYMAP | C_DESKTOP
  | C_ENV | C_SETENV | C_ASM | C_ELF | C_REBOOT | C_HALT | C_SHUTDOWN

definition commands :: "(string \<times> string \<times> command) list" where
  "commands =
     [(''?'', ''list commands'', C_HELP),
      (''help'', ''alias for ?'', C_HELP),
      (''ver'', ''show Zenbite version'', C_VER),
      (''clr'', ''clear screen'', C_CLR),
      (''say'', ''say <text>           print text'', C_SAY),
      (''mem'', ''show memory usage'', C_MEM),
      (''cpu'', ''show CPU info (32/64-bit detection)'', C_CPU),
      (''up'', ''uptime (PIT ticks)'', C_UP),
      (''tint'', ''tint <fg> [bg]      set text colour'', C_TINT),
      (''ls'', ''ls [path]           list dir entries'', C_LS),
      (''cat'', ''cat <file>          print file'', C_CAT),
      (''cd'', ''cd <dir>            change directory'', C_CD),
      (''mkd'', ''mkd <name>          make directory'', C_MKD),
      (''rmd'', ''rmd <name>          remove empty directory'', C_RMD),
      (''rm'', ''rm  <file>          delete file'', C_RM),
      (''mv'', ''mv  <old> <new>     rename / move'', C_MV),
      (''cpr'', ''cpr <src> <dst>     copy file'', C_CPR),
      (''evi'', ''evi <file>          line-mode editor'', C_EVI),
      (''cc'', ''cc  <src.c> [-o exe]  compile/run C program'', C_CC),
      (''zbc'', ''zbc <src.c>         alias for cc'', C_ZBC),
      (''lsblk'', ''list block devices (storage)'', C_LSBLK),
      (''mount'', ''mount <letter> <devnum>  attach drive'', C_MOUNT),
      (''umount'', ''umount <letter>     detach drive'', C_UMOUNT),
      (''scan'', ''rescan storage controllers'', C_SCAN),
      (''drv'', ''list mounted drives'', C_DRIVES),
      (''format'', ''format <devname|num> [label]  wipe + FAT'', C_FORMAT),
      (''flash'', ''flash <devname|num> <file>  write raw image to device'', C_FLASH),
      (''install'', ''install [devname]  setup wizard (interactive)'', C_INSTALL),
      (''parts'', ''parts <devname>     show MBR partition table'', C_PARTS),
      (''mkpart'', ''mkpart <devname> [type] [start sectors]  create partition'', C_MKPART),
      (''delpart'', ''delpart <devname> <1..4>  remove partition entry'', C_DELPART),
      (''setactive'', ''setactive <devname> <1..4>  set boot flag'', C_SETACTIVE),
      (''mkmbr'', ''mkmbr <devname>     wipe MBR and write chainloader'', C_MKMBR),
      (''df'', ''df                   show free space per drive'', C_DF),
      (''du'', ''du [path]            recursive directory size'', C_DU),
      (''find'', ''find <pattern> [path]  recursive name search'', C_FIND),
      (''grep'', ''grep <text> <file>   substring search'', C_GREP),
      (''more'', ''more <file>          page through a file'', C_MORE),
      (''history'', ''history              show command history'', C_HISTORY),
      (''alias'', ''alias [name=cmd]     show / add command alias'', C_ALIAS),
      (''unalias'', ''unalias <name>       remove an alias'', C_UNALIAS),
      (''wget'', ''wget <url> [-o out] HTTP GET to local file'', C_WGET),
      (''ping'', ''ping <host>        ICMP echo, 4 times (resolves)'', C_PING),
      (''nslookup'', ''nslookup <name>    DNS A-record lookup'', C_NSLOOKUP),
      (''ifconfig'', ''show network interface (MAC, IP, gateway)'', C_IFCONFIG),
      (''date'', (''show today'' @ [CHR 0x27] @ ''s date (from CMOS RTC)''), C_DATE),
      (''time'', ''show wall-clock time (from CMOS RTC)'', C_TIME),
      (''keymap'', ''keymap [us|de]     show / set keyboard layout'', C_KEYMAP),
      (''desktop'', ''launch the windowed desktop (Files/Web/Terminal)'', C_DESKTOP),
      (''env'', ''env [NAME]            show environment variables'', C_ENV),
      (''setenv'', ''setenv NAME VALUE     set environment variable'', C_SETENV),
      (''asm'', ''asm <file.asm> [-o out.elf]  assemble x86 to ELF32'', C_ASM),
      (''elf'', ''elf <file.elf>        run ELF32 executable'', C_ELF),
      (''reboot'', ''reboot the machine'', C_REBOOT),
      (''halt'', ''halt the CPU (idle forever)'', C_HALT),
      (''shutdown'', ''power off (works in QEMU / VBox / VMware)'', C_SHUTDOWN),
      (''poweroff'', ''alias for shutdown'', C_SHUTDOWN),
      (''exit'', ''alias for shutdown'', C_SHUTDOWN)]"

definition find_command :: "bytes \<Rightarrow> command option" where
  "find_command name = map_option (\<lambda>c. snd (snd c)) (List.find (\<lambda>c. strcasecmp name (lit (fst c)) = 0) commands)"

end
