(* ===== verification/ShellCmds.thy ===== *)
theory ShellCmds
  imports Shell Vfs
begin

text \<open>
  The commands of shell/builtins.c on files and disks, and the loop of shell/shell.c around the commands
  modelled. A command takes its arguments without its name. The probes of the controllers and the image of
  the boot record are arguments, as in the theories of the file system.
\<close>

subsection \<open>Plain commands\<close>

definition usage :: "int \<Rightarrow> string \<Rightarrow> 'd shell \<Rightarrow> (int \<times> 'd shell) option" where
  "usage r s S = Some (r, kputs (lit s) S)"

definition do_say :: "'d sh_cmd" where
  "do_say args S = Some (0, kputs (join_words args @ [10]) S)"

text \<open>The result of a file system call, which changes the file system and may print when it failed.\<close>

definition fs_cmd :: "('d fsys \<times> int) option \<Rightarrow> string \<Rightarrow> bytes \<Rightarrow> 'd shell \<Rightarrow> (int \<times> 'd shell) option" where
  "fs_cmd m fmt name S = do {
     (F, r) \<leftarrow> m;
     (if r < 0 then answer 0 fmt [a_str name] (S\<lparr>sh_fs := F\<rparr>) else Some (0, S\<lparr>sh_fs := F\<rparr>)) }"

definition do_cd :: "'d sh_cmd" where
  "do_cd args S =
     (case args of
        [] \<Rightarrow> answer 0 ''%c:%s\<newline>'' [a_chr (fs_get_drive (sh_fs S)), a_str (fs_cwd (sh_fs S))] S
      | d # _ \<Rightarrow> fs_cmd (fs_chdir (sh_fs S) d) ''cd: no such directory: %s\<newline>'' d S)"

definition do_mkd :: "'d sh_cmd" where
  "do_mkd args S =
     (case args of
        [] \<Rightarrow> usage 0 ''usage: mkd <name>\<newline>'' S
      | d # _ \<Rightarrow> fs_cmd (fs_mkdir (sh_fs S) d) ''mkd failed: %s\<newline>'' d S)"

definition do_rmd :: "'d sh_cmd" where
  "do_rmd args S =
     (case args of
        [] \<Rightarrow> usage 0 ''usage: rmd <name>\<newline>'' S
      | d # _ \<Rightarrow> fs_cmd (fs_rmdir (sh_fs S) d) ''rmd failed (not empty / not found): %s\<newline>'' d S)"

definition do_rm :: "'d sh_cmd" where
  "do_rm args S =
     (case args of
        [] \<Rightarrow> usage 0 ''usage: rm <file>\<newline>'' S
      | f # _ \<Rightarrow> fs_cmd (fs_unlink (sh_fs S) f) ''rm failed: %s\<newline>'' f S)"

definition do_env :: "'d sh_cmd" where
  "do_env args S =
     (case args of
        [] \<Rightarrow> map_option (\<lambda>out. (0, S\<lparr>sh_out := out\<rparr>)) (env_list (sh_env S) (sh_out S))
      | n # _ \<Rightarrow>
          (case env_get (sh_env S) n of
             Some v \<Rightarrow> answer 0 ''%s=%s\<newline>'' [a_str n, a_str v] S
           | None \<Rightarrow> answer 0 ''%s: not set\<newline>'' [a_str n] S))"

definition do_setenv :: "'d sh_cmd" where
  "do_setenv args S =
     (case args of
        n # v # _ \<Rightarrow> Some (0, S\<lparr>sh_env := fst (env_set (sh_env S) n v)\<rparr>)
      | _ \<Rightarrow> usage 0 ''usage: setenv NAME VALUE\<newline>'' S)"

subsection \<open>Reading files\<close>

text \<open>The pieces of at most k bytes that a loop of fs_read gets.\<close>

partial_function (option) read_all :: "nat \<Rightarrow> int \<Rightarrow> 'd fsys \<Rightarrow> ('d fsys \<times> bytes list) option" where
  "read_all k h F =
     Option.bind (fs_read F h k) (\<lambda>(F1, bs, n).
       if n \<le> 0 then Some (F1, [])
       else Option.bind (read_all k h F1) (\<lambda>(F2, rest). Some (F2, bs # rest)))"

text \<open>A command on a file opens it, and closes it at its end.\<close>

definition on_file :: "int \<Rightarrow> string \<Rightarrow> bytes \<Rightarrow> (int \<Rightarrow> 'd fsys \<Rightarrow> 'd shell \<Rightarrow> (int \<times> 'd shell) option) \<Rightarrow> 'd shell \<Rightarrow> (int \<times> 'd shell) option" where
  "on_file r fmt name body S = do {
     (F, h) \<leftarrow> fs_open (sh_fs S) name;
     (if h < 0 then answer r fmt [a_str name] (S\<lparr>sh_fs := F\<rparr>) else body h F S) }"

definition do_cat :: "'d sh_cmd" where
  "do_cat args S =
     (case args of
        [] \<Rightarrow> usage 0 ''usage: cat <file>\<newline>'' S
      | f # _ \<Rightarrow> on_file 0 ''cat: not found: %s\<newline>'' f (\<lambda>h F S. do {
          (F1, bs) \<leftarrow> read_all 256 h F;
          Some (0, kputs (concat bs @ [10]) (S\<lparr>sh_fs := fst (fs_close F1 h)\<rparr>)) }) S)"

text \<open>The copy stops at the first write that is not complete; the flag says so.\<close>

partial_function (option) copy_loop :: "int \<Rightarrow> int \<Rightarrow> int \<Rightarrow> 'd fsys \<Rightarrow> ('d fsys \<times> int \<times> bool) option" where
  "copy_loop src dst sofar F =
     Option.bind (fs_read F src 512) (\<lambda>(F1, bs, n).
       if n \<le> 0 then Some (F1, sofar, True)
       else Option.bind (fs_write F1 dst bs) (\<lambda>(F2, w).
         if w \<noteq> n then Some (F2, sofar, False) else copy_loop src dst (sofar + n) F2))"

definition do_cpr :: "'d sh_cmd" where
  "do_cpr args S =
     (case args of
        a # b # _ \<Rightarrow> on_file 0 ''cpr: source not found: %s\<newline>'' a (\<lambda>src F S. do {
          (F1, made) \<leftarrow> fs_create F b;
          (if made < 0 then answer 0 ''cpr: cannot create %s\<newline>'' [a_str b] (S\<lparr>sh_fs := fst (fs_close F1 src)\<rparr>)
           else do {
             (F2, dst) \<leftarrow> fs_open F1 b;
             (if dst < 0 then usage 0 ''cpr: cannot open destination\<newline>'' (S\<lparr>sh_fs := fst (fs_close F2 src)\<rparr>)
              else do {
                (F3, sofar, ok) \<leftarrow> copy_loop src dst 0 F2;
                let S1 = (if ok then S else kputs (lit ''cpr: write error\<newline>'') S);
                answer 0 ''%d bytes copied\<newline>'' [a_int sofar] (S1\<lparr>sh_fs := fst (fs_close (fst (fs_close F3 src)) dst)\<rparr>) }) }) }) S
      | _ \<Rightarrow> usage 0 ''usage: cpr <src> <dst>\<newline>'' S)"

text \<open>A move that cannot rename copies and deletes.\<close>

definition do_mv :: "'d sh_cmd" where
  "do_mv args S =
     (case args of
        a # b # _ \<Rightarrow> do {
          (F, r) \<leftarrow> fs_rename (sh_fs S) a b;
          (if r = 0 then Some (0, S\<lparr>sh_fs := F\<rparr>)
           else do {
             (rc, S1) \<leftarrow> do_cpr [a, b] (S\<lparr>sh_fs := F\<rparr>);
             (if rc < 0 then Some (0, S1)
              else do { (F2, _) \<leftarrow> fs_unlink (sh_fs S1) a; Some (0, S1\<lparr>sh_fs := F2\<rparr>) }) }) }
      | _ \<Rightarrow> usage 0 ''usage: mv <old> <new>\<newline>'' S)"

subsection \<open>Searching and paging\<close>

definition char_upper :: "u8 \<Rightarrow> int" where
  "char_upper c = toupper (uint c)"

definition line_has :: "bytes \<Rightarrow> bytes \<Rightarrow> bool" where
  "line_has needle line \<longleftrightarrow>
     (length needle \<le> length line
      \<and> list_ex (\<lambda>s. list_all (\<lambda>j. char_upper (line ! (s + j)) = char_upper (needle ! j)) [0..<length needle]) [0..<Suc (length line - length needle)])"

text \<open>One character of the file: the line so far, its number and the matches.\<close>

definition grep_char :: "bytes \<Rightarrow> u8 \<Rightarrow> bytes \<times> int \<times> int \<times> 'd shell \<Rightarrow> (bytes \<times> int \<times> int \<times> 'd shell) option" where
  "grep_char needle c st =
     (case st of (line, lineno, hits, S) \<Rightarrow>
        if c = 13 then Some st
        else if c = 10 \<or> 255 \<le> length line then
          let no = (if c = 10 then lineno + 1 else lineno) in
          if line_has needle line then map_option (\<lambda>S1. ([], no, hits + 1, S1)) (say ''%4d: %s\<newline>'' [a_int lineno, a_str line] S)
          else Some ([], no, hits, S)
        else Some (line @ [c], lineno, hits, S))"

primrec grep_bytes :: "bytes \<Rightarrow> bytes \<Rightarrow> bytes \<times> int \<times> int \<times> 'd shell \<Rightarrow> (bytes \<times> int \<times> int \<times> 'd shell) option" where
  "grep_bytes needle [] st = Some st"
| "grep_bytes needle (c # cs) st = do { st1 \<leftarrow> grep_char needle c st; grep_bytes needle cs st1 }"

definition do_grep :: "'d sh_cmd" where
  "do_grep args S =
     (case args of
        needle # f # _ \<Rightarrow> on_file 1 ''grep: %s: not found\<newline>'' f (\<lambda>h F S. do {
          (F1, bs) \<leftarrow> read_all 256 h F;
          (_, _, hits, S1) \<leftarrow> grep_bytes needle (concat bs) ([], 1, 0, S);
          answer 0 '' %d match(es)\<newline>'' [a_int hits] (S1\<lparr>sh_fs := fst (fs_close F1 h)\<rparr>) }) S
      | _ \<Rightarrow> usage 1 ''usage: grep <text> <file>\<newline>'' S)"

text \<open>Paging: the rows shown since the last key, and whether the user quit.\<close>

primrec more_bytes :: "bytes \<Rightarrow> int \<Rightarrow> 'd shell \<Rightarrow> (bool \<times> int \<times> 'd shell) option" where
  "more_bytes [] rows S = Some (False, rows, S)"
| "more_bytes (c # cs) rows S =
     (let S1 = kputs [c] S in
      if c \<noteq> 10 then more_bytes cs rows S1
      else if rows + 1 < 22 then more_bytes cs (rows + 1) S1
      else
        case sh_keys S1 of
          [] \<Rightarrow> None
        | k # ks \<Rightarrow>
            let S2 = (kputs (lit ''-- more -- (space = page, q = quit)'' @ [13] @ replicate 34 0x20 @ [13]) S1)\<lparr>sh_keys := ks\<rparr>
            in if k = 0x71 \<or> k = 0x51 \<or> k = 27 then Some (True, 0, S2) else more_bytes cs 0 S2)"

partial_function (option) more_loop :: "int \<Rightarrow> int \<Rightarrow> 'd fsys \<Rightarrow> 'd shell \<Rightarrow> ('d fsys \<times> 'd shell) option" where
  "more_loop h rows F S =
     Option.bind (fs_read F h 256) (\<lambda>(F1, bs, n).
       if n \<le> 0 then Some (F1, S)
       else Option.bind (more_bytes bs rows S) (\<lambda>(q, rows1, S1). if q then Some (F1, S1) else more_loop h rows1 F1 S1))"

definition do_more :: "'d sh_cmd" where
  "do_more args S =
     (case args of
        [] \<Rightarrow> usage 1 ''usage: more <file>\<newline>'' S
      | f # _ \<Rightarrow> on_file 1 ''more: %s: not found\<newline>'' f (\<lambda>h F S. do {
          (F1, S1) \<leftarrow> more_loop h 0 F S;
          Some (0, S1\<lparr>sh_fs := fst (fs_close F1 h)\<rparr>) }) S)"

text \<open>A star stands for any characters, a question mark for one; letters match in either case.\<close>

primrec wild_match :: "bytes \<Rightarrow> bytes \<Rightarrow> bool" where
  "wild_match [] str \<longleftrightarrow> str = []"
| "wild_match (p # pat) str \<longleftrightarrow>
     (if p = 0x2A then list_ex (\<lambda>k. wild_match pat (drop k str)) [0..<Suc (length str)]
      else case str of [] \<Rightarrow> False | c # s \<Rightarrow> (p = 0x3F \<or> char_upper p = char_upper c) \<and> wild_match pat s)"

subsection \<open>Directories\<close>

definition is_subdir :: "fs_dirent \<Rightarrow> bool" where
  "is_subdir e \<longleftrightarrow> fd_attr e AND FS_ATTR_DIR \<noteq> 0"

definition is_dotted :: "fs_dirent \<Rightarrow> bool" where
  "is_dotted e \<longleftrightarrow> byte_at (fd_name e) 0 = 0x2E"

text \<open>A name behind a directory, as long as a path may be.\<close>

definition sub_path :: "bytes \<Rightarrow> fs_dirent \<Rightarrow> bytes option" where
  "sub_path dir e = format_str FS_PATH_MAX (lit (''%s'' @ [CHR 92] @ ''%s'')) [a_str dir, a_str (fd_name e)]"

primrec ls_lines :: "fs_dirent list \<Rightarrow> 'd sh_op" where
  "ls_lines [] S = Some S"
| "ls_lines (e # es) S = do {
     S1 \<leftarrow> (if is_subdir e then say ''  %-13s <dir>\<newline>'' [a_str (fd_name e)] S
            else say ''  %-13s %8u\<newline>'' [a_str (fd_name e), ArgWord (fd_size e)] S);
     ls_lines es S1 }"

partial_function (option) read_entries :: "int \<Rightarrow> 'd fsys \<Rightarrow> ('d fsys \<times> fs_dirent list) option" where
  "read_entries h F =
     Option.bind (fs_readdir F h) (\<lambda>(F1, r).
       case r of None \<Rightarrow> Some (F1, []) | Some e \<Rightarrow> Option.bind (read_entries h F1) (\<lambda>(F2, es). Some (F2, e # es)))"

definition do_ls :: "'d sh_cmd" where
  "do_ls args S =
     (let path = (case args of [] \<Rightarrow> [] | p # _ \<Rightarrow> if p = lit ''.'' then [] else p) in do {
        (F, h) \<leftarrow> fs_opendir (sh_fs S) path;
        (if h < 0 then answer 0 ''ls: cannot open %s\<newline>'' [a_str (case args of [] \<Rightarrow> lit ''ls'' | p # _ \<Rightarrow> p)] (S\<lparr>sh_fs := F\<rparr>)
         else do {
           S1 \<leftarrow> say '' drive %c, dir %s\<newline>\<newline>'' [a_chr (fs_get_drive F), a_str (fs_cwd F)] S;
           (F1, es) \<leftarrow> read_entries h F;
           S2 \<leftarrow> ls_lines es S1;
           answer 0 ''\<newline> %d entry(ies)\<newline>'' [a_int (int (length es))] (S2\<lparr>sh_fs := fst (fs_closedir F1 h)\<rparr>) }) })"

text \<open>The sum of the sizes of the files in a directory that is open, and in the directories below it.\<close>

partial_function (option) size_loop :: "int \<Rightarrow> bytes \<Rightarrow> u32 \<Rightarrow> 'd fsys \<Rightarrow> ('d fsys \<times> u32) option" where
  "size_loop h dir sofar F =
     Option.bind (fs_readdir F h) (\<lambda>(F1, r).
       case r of
         None \<Rightarrow> Some (fst (fs_closedir F1 h), sofar)
       | Some e \<Rightarrow>
           if \<not> is_subdir e then size_loop h dir (sofar + fd_size e) F1
           else if is_dotted e then size_loop h dir sofar F1
           else Option.bind (sub_path dir e) (\<lambda>sub.
             Option.bind (fs_opendir F1 sub) (\<lambda>(F2, h2).
               Option.bind (if h2 < 0 then Some (F2, 0) else size_loop h2 sub 0 F2) (\<lambda>(F3, t). size_loop h dir (sofar + t) F3))))"

definition walk_size :: "bytes \<Rightarrow> 'd fsys \<Rightarrow> ('d fsys \<times> u32) option" where
  "walk_size dir F = do { (F1, h) \<leftarrow> fs_opendir F dir; if h < 0 then Some (F1, 0) else size_loop h dir 0 F1 }"

definition df_drive :: "u8 \<Rightarrow> 'd sh_op" where
  "df_drive L S =
     (let i = fs_drive_disk_id (sh_fs S) L in
      if i < 0 then Some S
      else do {
        d \<leftarrow> disk_get (fdev (sh_fs S)) i;
        path \<leftarrow> format_str 8 (lit (''%c:'' @ [CHR 92])) [a_chr L];
        (F, used) \<leftarrow> walk_size path (sh_fs S);
        let size_kb = sectors d div 2;
        let used_kb = used div 1024;
        let free_kb = (if used_kb < size_kb then size_kb - used_kb else 0);
        say ''   %c:    %-8s  %7u    %7u    %7u\<newline>'' [a_chr L, a_str (dname d), ArgWord (size_kb div 1024), ArgWord (used_kb div 1024), ArgWord (free_kb div 1024)]
          (S\<lparr>sh_fs := F\<rparr>) })"

primrec on_drives :: "(u8 \<Rightarrow> 'd sh_op) \<Rightarrow> nat list \<Rightarrow> 'd sh_op" where
  "on_drives f [] S = Some S"
| "on_drives f (i # is) S = do { S1 \<leftarrow> f (of_nat (65 + i)) S; on_drives f is S1 }"

definition do_df :: "'d sh_cmd" where
  "do_df args S = map_option (Pair 0) (on_drives df_drive [0..<FS_DRIVE_MAX] (kputs (lit '' DRIVE  DEVICE   SIZE_MiB   USED_MiB   FREE_MiB\<newline>'') S))"

text \<open>du prints the directories in an open one, and those in them when there is depth left.\<close>

definition size_line :: "bool \<Rightarrow> bytes \<Rightarrow> 'd sh_op" where
  "size_line whole dir S = do {
     (F, sz) \<leftarrow> walk_size dir (sh_fs S);
     say (if whole then ''%8u K  %s   (total)\<newline>'' else ''%8u K  %s\<newline>'') [ArgWord (sz div 1024), a_str dir] (S\<lparr>sh_fs := F\<rparr>) }"

partial_function (option) du_loop :: "(bytes \<Rightarrow> 'd sh_op) \<Rightarrow> int \<Rightarrow> bytes \<Rightarrow> 'd sh_op" where
  "du_loop deeper h path S =
     Option.bind (fs_readdir (sh_fs S) h) (\<lambda>(F1, r).
       case r of
         None \<Rightarrow> Some (S\<lparr>sh_fs := fst (fs_closedir F1 h)\<rparr>)
       | Some e \<Rightarrow>
           if is_dotted e then du_loop deeper h path (S\<lparr>sh_fs := F1\<rparr>)
           else Option.bind (sub_path path e) (\<lambda>sub.
             if \<not> is_subdir e then du_loop deeper h path (S\<lparr>sh_fs := F1\<rparr>)
             else Option.bind (size_line False sub (S\<lparr>sh_fs := F1\<rparr>)) (\<lambda>S1. Option.bind (deeper sub S1) (du_loop deeper h path))))"

definition du_step :: "(bytes \<Rightarrow> 'd sh_op) \<Rightarrow> bytes \<Rightarrow> 'd sh_op" where
  "du_step deeper path S = do {
     (F, h) \<leftarrow> fs_opendir (sh_fs S) path;
     (if h < 0 then Some (S\<lparr>sh_fs := F\<rparr>) else do { S1 \<leftarrow> du_loop deeper h path (S\<lparr>sh_fs := F\<rparr>); size_line True path S1 }) }"

primrec du_walk :: "nat \<Rightarrow> bytes \<Rightarrow> 'd sh_op" where
  "du_walk 0 path S = du_step (\<lambda>sub. Some) path S"
| "du_walk (Suc depth) path S = du_step (du_walk depth) path S"

text \<open>A backslash in front of another goes away.\<close>

fun collapse :: "bytes \<Rightarrow> bytes" where
  "collapse (a # b # p) = (if a = 92 \<and> b = 92 then collapse (b # p) else a # collapse (b # p))"
| "collapse p = p"

definition do_du :: "'d sh_cmd" where
  "do_du args S = do {
     path \<leftarrow> (case args of
        [] \<Rightarrow> format_str FS_PATH_MAX (lit ''%c:%s'') [a_chr (fs_get_drive (sh_fs S)), a_str (fs_cwd (sh_fs S))]
      | p # _ \<Rightarrow>
          if p \<noteq> [] \<and> byte_at p 1 = 0x3A then Some (take (FS_PATH_MAX - 1) p)
          else format_str FS_PATH_MAX (lit (''%c:%s'' @ [CHR 92] @ ''%s'')) [a_chr (fs_get_drive (sh_fs S)), a_str (fs_cwd (sh_fs S)), a_str p]);
     map_option (Pair 0) (du_walk 1 (collapse path) S) }"

text \<open>find goes through an open directory and those below it; the count is of the names that match.\<close>

partial_function (option) find_loop :: "bytes \<Rightarrow> int \<Rightarrow> bytes \<Rightarrow> int \<Rightarrow> 'd shell \<Rightarrow> ('d shell \<times> int) option" where
  "find_loop pat h dir n S =
     Option.bind (fs_readdir (sh_fs S) h) (\<lambda>(F1, r).
       case r of
         None \<Rightarrow> Some (S\<lparr>sh_fs := fst (fs_closedir F1 h)\<rparr>, n)
       | Some e \<Rightarrow>
           if is_dotted e then find_loop pat h dir n (S\<lparr>sh_fs := F1\<rparr>)
           else Option.bind (sub_path dir e) (\<lambda>full.
             Option.bind (if wild_match pat (fd_name e) then say ''  %s%s\<newline>'' [a_str full, a_str (if is_subdir e then [92] else [])] (S\<lparr>sh_fs := F1\<rparr>)
                          else Some (S\<lparr>sh_fs := F1\<rparr>)) (\<lambda>S1.
               Option.bind (if is_subdir e then
                              Option.bind (fs_opendir (sh_fs S1) full) (\<lambda>(F2, h2).
                                if h2 < 0 then Some (S1\<lparr>sh_fs := F2\<rparr>, n + (if wild_match pat (fd_name e) then 1 else 0))
                                else find_loop pat h2 full (n + (if wild_match pat (fd_name e) then 1 else 0)) (S1\<lparr>sh_fs := F2\<rparr>))
                            else Some (S1, n + (if wild_match pat (fd_name e) then 1 else 0))) (\<lambda>(S2, n2). find_loop pat h dir n2 S2))))"

definition find_walk :: "bytes \<Rightarrow> bytes \<Rightarrow> 'd shell \<Rightarrow> ('d shell \<times> int) option" where
  "find_walk pat dir S = do {
     (F, h) \<leftarrow> fs_opendir (sh_fs S) dir;
     (if h < 0 then Some (S\<lparr>sh_fs := F\<rparr>, 0) else find_loop pat h dir 0 (S\<lparr>sh_fs := F\<rparr>)) }"

definition do_find :: "'d sh_cmd" where
  "do_find args S =
     (case args of
        [] \<Rightarrow> usage 1 (''usage: find <pattern> [path]   ('' @ [CHR 0x27] @ ''*'' @ [CHR 0x27] @ '' and '' @ [CHR 0x27] @ ''?'' @ [CHR 0x27] @ '' supported)\<newline>'') S
      | pat # rest \<Rightarrow> do {
          path \<leftarrow> (case rest of
             p # _ \<Rightarrow> format_str FS_PATH_MAX (lit ''%s'') [a_str p]
           | [] \<Rightarrow> format_str FS_PATH_MAX (lit ''%c:%s'') [a_chr (fs_get_drive (sh_fs S)), a_str (fs_cwd (sh_fs S))]);
          (S1, n) \<leftarrow> find_walk pat path S;
          answer 0 '' %d match(es)\<newline>'' [a_int n] S1 })"

subsection \<open>Disks and drives\<close>

definition upcase :: "u8 \<Rightarrow> u32" where
  "upcase c = of_int (toupper (uint c))"

text \<open>A device by the drive mounted on it, its name, or its number.\<close>

primrec decimal :: "bytes \<Rightarrow> u32 \<Rightarrow> u32 option" where
  "decimal [] n = Some n"
| "decimal (c # s) n = (if isdigit (uint c) then decimal s (n * 10 + (ucast c - 48)) else None)"

definition dev_present :: "'w dstate \<Rightarrow> int \<Rightarrow> bool" where
  "dev_present s i = (case disk_get s i of None \<Rightarrow> False | Some d \<Rightarrow> present d)"

definition dev_from_arg :: "bytes \<Rightarrow> 'd fsys \<Rightarrow> int" where
  "dev_from_arg s F =
     (if s = [] then -1
      else if length s = 2 \<and> s ! 1 = 0x3A \<and> 0 \<le> fs_drive_disk_id F (s ! 0) then fs_drive_disk_id F (s ! 0)
      else
        case first_idx (\<lambda>i. present (disks (fdev F) ! i) \<and> strcasecmp s (dname (disks (fdev F) ! i)) = 0) DISK_MAX of
          Some i \<Rightarrow> int i
        | None \<Rightarrow>
            (case decimal s 0 of
               None \<Rightarrow> -1
             | Some n \<Rightarrow> if 0 \<le> sint n \<and> sint n < int DISK_MAX \<and> dev_present (fdev F) (sint n) then sint n else -1))"

definition raw_from_arg :: "bytes \<Rightarrow> 'd fsys \<Rightarrow> int" where
  "raw_from_arg s F = (let i = dev_from_arg s F in if i < 0 \<or> int DISK_RAW_MAX \<le> i then -1 else i)"

text \<open>Every drive on a device is unmounted.\<close>

definition unmount_dev :: "int \<Rightarrow> 'd fsys \<Rightarrow> 'd fsys" where
  "unmount_dev dev F =
     fold (\<lambda>i F. if fs_drive_disk_id F (of_nat (65 + i)) = dev then fst (fs_unmount F (of_nat (65 + i))) else F) [0..<FS_DRIVE_MAX] F"

definition free_drive :: "'d fsys \<Rightarrow> u8 option" where
  "free_drive F = map_option (\<lambda>i. of_nat (65 + i)) (first_idx (\<lambda>i. \<not> fs_drive_present F (of_nat (65 + i))) FS_DRIVE_MAX)"

definition do_mount :: "'d sh_cmd" where
  "do_mount args S =
     (case args of
        [] \<Rightarrow> usage 0 ''usage: mount <letter> <devnum|hda|hdb>\<newline>       mount               (no args: shows mounted drives)\<newline>'' S
      | [a] \<Rightarrow>
          (let dev = dev_from_arg a (sh_fs S) in
           if dev < 0 then answer 0 ''unknown device: %s\<newline>'' [a_str a] S
           else case free_drive (sh_fs S) of
                  None \<Rightarrow> usage 0 ''no free drive letter\<newline>'' S
                | Some L \<Rightarrow> do {
                    (F, r) \<leftarrow> fs_mount (sh_fs S) L dev;
                    (if r = 0 then answer 0 ''mounted %c: on dev %d\<newline>'' [a_chr L, a_int dev] (S\<lparr>sh_fs := F\<rparr>)
                     else usage 0 ''mount failed (bad BPB?)\<newline>'' (S\<lparr>sh_fs := F\<rparr>)) })
      | a # b # _ \<Rightarrow>
          (let dev = dev_from_arg b (sh_fs S); letter = byte_at a 0 in
           if dev < 0 then answer 0 ''unknown device: %s\<newline>'' [a_str b] S
           else do {
             (F, r) \<leftarrow> fs_mount (sh_fs S) letter dev;
             (if r = 0 then answer 0 ''mounted %c: on dev %d\<newline>'' [ArgWord (upcase letter), a_int dev] (S\<lparr>sh_fs := F\<rparr>)
              else usage 0 ''mount failed (bad letter / dev not present / bad BPB)\<newline>'' (S\<lparr>sh_fs := F\<rparr>)) }))"

definition do_umount :: "'d sh_cmd" where
  "do_umount args S =
     (case args of
        [] \<Rightarrow> usage 0 ''usage: umount <letter>\<newline>'' S
      | a # _ \<Rightarrow>
          (case fs_unmount (sh_fs S) (byte_at a 0) of (F, r) \<Rightarrow>
             if r = 0 then answer 0 ''unmounted %c:\<newline>'' [ArgWord (upcase (byte_at a 0))] (S\<lparr>sh_fs := F\<rparr>)
             else usage 0 ''umount failed\<newline>'' (S\<lparr>sh_fs := F\<rparr>)))"

definition drive_line :: "u8 \<Rightarrow> 'd sh_op" where
  "drive_line L S =
     (let i = fs_drive_disk_id (sh_fs S) L in
      if i < 0 then say ''   %c:    not mounted\<newline>'' [a_chr L] S
      else say ''   %c:    mounted%s     %s\<newline>''
             [a_chr L, a_str (lit (if L = fs_get_drive (sh_fs S) then '' (current)'' else ''        '')),
              a_str (case disk_get (fdev (sh_fs S)) i of Some d \<Rightarrow> dname d | None \<Rightarrow> lit ''?'')] S)"

definition do_drives :: "'d sh_cmd" where
  "do_drives args S = map_option (Pair 0) (on_drives drive_line [0..<FS_DRIVE_MAX] (kputs (lit '' letter  status        device\<newline>'') S))"

definition mount_letter :: "'d fsys \<Rightarrow> int \<Rightarrow> u8" where
  "mount_letter F i =
     (case first_idx (\<lambda>k. fs_drive_disk_id F (of_nat (65 + k)) = i) FS_DRIVE_MAX of Some k \<Rightarrow> of_nat (65 + k) | None \<Rightarrow> 0x2D)"

primrec blk_lines :: "nat list \<Rightarrow> 'd sh_op" where
  "blk_lines [] S = Some S"
| "blk_lines (i # is) S =
     (let s = fdev (sh_fs S); d = disks s ! i; m = mount_letter (sh_fs S) (int i) in
      if \<not> present d then blk_lines is S
      else do {
        detail \<leftarrow> (case mbr_view_info s (int i) of
           Some p \<Rightarrow> map_option (Pair (lit ''part'')) (format_str 16 (lit ''type=%02X'') [a_chr (part_type p)])
         | None \<Rightarrow> Some (lit (if i < PART_SLOT_BASE \<and> mbr_has_table s (int i) then ''mbr'' else ''disk''), []));
        S1 \<leftarrow> say ''  %2d  %-8s %7u  %6u   %c%s   %s %s\<newline>''
          [a_int (int i), a_str (dname d), ArgWord (sectors d), ArgWord (sectors d div 2048), a_chr m,
           a_str (lit (if m = 0x2D then '' '' else '':'')), a_str (fst detail), a_str (snd detail)] S;
        blk_lines is S1 })"

definition do_lsblk :: "'d sh_cmd" where
  "do_lsblk args S = do {
     S1 \<leftarrow> blk_lines [0..<DISK_MAX] (kputs (lit '' DEV  NAME      SECTORS     MiB   MOUNT  KIND\<newline>'') S);
     Some (0, if \<exists>i\<in>set [0..<DISK_MAX]. present (disks (fdev (sh_fs S)) ! i) then S1 else kputs (lit ''  (no block devices detected)\<newline>'') S1) }"

definition rescan :: "('d dstate \<Rightarrow> 'd dstate) list \<Rightarrow> 'd sh_op" where
  "rescan probes S = map_option (\<lambda>(r, F, out). S\<lparr>sh_fs := F, sh_out := out\<rparr>) (fs_rescan probes (sh_fs S) (sh_out S))"

definition do_scan :: "('d dstate \<Rightarrow> 'd dstate) list \<Rightarrow> 'd sh_cmd" where
  "do_scan probes args S = do { S1 \<leftarrow> rescan probes (kputs (lit ''rescanning storage...\<newline>'') S); do_lsblk [] S1 }"

definition do_format :: "'d sh_cmd" where
  "do_format args S =
     (case args of
        [] \<Rightarrow> usage 0 ''usage: format <devname|num> [label]\<newline>  Works on raw disks (superfloppy layout) or partitions (hda1).\<newline>'' S
      | a # rest \<Rightarrow>
          (let dev = dev_from_arg a (sh_fs S); label = (case rest of l # _ \<Rightarrow> l | [] \<Rightarrow> lit ''ZENBITE'') in
           if dev < 0 \<or> \<not> dev_present (fdev (sh_fs S)) dev then answer 0 ''format: unknown device: %s\<newline>'' [a_str a] S
           else
             let name = dname (disks (fdev (sh_fs S)) ! nat dev) in
             if dev < int DISK_RAW_MAX \<and> mbr_has_table (fdev (sh_fs S)) dev then
               answer 0 ''format: %s has a partition table. Use `format %s1` (or a partition name) instead.\<newline>'' [a_str name, a_str name] S
             else do {
               let F = unmount_dev dev (sh_fs S);
               S1 \<leftarrow> say ''formatting %s (%u sectors) as FAT (label %s)... ''
                 [a_str name, ArgWord (sectors (disks (fdev F) ! nat dev)), a_str label] S;
               (case fs_format (fdev F) dev (Some label) of (s1, r) \<Rightarrow>
                  let F1 = F\<lparr>fdev := s1\<rparr> in
                  if r < 0 then usage 0 ''FAILED\<newline>'' (S1\<lparr>sh_fs := F1\<rparr>)
                  else
                    let S2 = kputs (lit ''OK\<newline>'') S1 in
                    case free_drive F1 of
                      None \<Rightarrow> Some (0, S2\<lparr>sh_fs := F1\<rparr>)
                    | Some L \<Rightarrow> do {
                        (F2, m) \<leftarrow> fs_mount F1 L dev;
                        (if m = 0 then answer 0 ''mounted %c: on %s\<newline>'' [a_chr L, a_str name] (S2\<lparr>sh_fs := F2\<rparr>)
                         else Some (0, S2\<lparr>sh_fs := F2\<rparr>)) }) }))"

text \<open>The file is written sector by sector, the last one padded with zeros; the count is of the sectors written.\<close>

partial_function (option) flash_loop :: "int \<Rightarrow> int \<Rightarrow> u32 \<Rightarrow> u32 \<Rightarrow> 'd shell \<Rightarrow> (bool \<times> u32 \<times> 'd shell) option" where
  "flash_loop h dev secs lba S =
     (if secs \<le> lba then Some (True, lba, S)
      else Option.bind (fs_read (sh_fs S) h 512) (\<lambda>(F, bs, n).
        if n \<le> 0 then Some (True, lba, S\<lparr>sh_fs := F\<rparr>)
        else
          case disk_write (fdev F) dev lba 1 (bs @ replicate (512 - length bs) 0) of (s1, ok) \<Rightarrow>
            if \<not> ok then Some (False, lba, S\<lparr>sh_fs := F\<lparr>fdev := s1\<rparr>\<rparr>)
            else Option.bind
              (if (lba + 1) AND 0xFF = 0 then say (CHR 13 # ''  %u / %u sectors'') [ArgWord (lba + 1), ArgWord secs] (S\<lparr>sh_fs := F\<lparr>fdev := s1\<rparr>\<rparr>)
               else Some (S\<lparr>sh_fs := F\<lparr>fdev := s1\<rparr>\<rparr>))
              (flash_loop h dev secs (lba + 1))))"

definition do_flash :: "'d sh_cmd" where
  "do_flash args S =
     (case args of
        a # f # _ \<Rightarrow>
          (let dev = dev_from_arg a (sh_fs S) in
           if \<not> dev_present (fdev (sh_fs S)) dev then answer 1 ''flash: unknown device: %s\<newline>'' [a_str a] S
           else
             let d = disks (fdev (sh_fs S)) ! nat dev in
             if (case write_fn d of WriteNull \<Rightarrow> True | _ \<Rightarrow> False) then answer 1 ''flash: device %s is read-only\<newline>'' [a_str (dname d)] S
             else on_file 1 ''flash: cannot open %s\<newline>'' f (\<lambda>h F S.
               let size = (of_int (fs_size F h) :: u32); secs = (size + 511) div 512 in
               if sectors d < secs then
                 answer 1 ''flash: image (%u sectors) too big for %s (%u sectors)\<newline>'' [ArgWord secs, a_str (dname d), ArgWord (sectors d)]
                   (S\<lparr>sh_fs := fst (fs_close F h)\<rparr>)
               else do {
                 S1 \<leftarrow> say ''flash: writing %u KiB (%u sectors) to %s ...\<newline>'' [ArgWord (size div 1024), ArgWord secs, a_str (dname d)]
                   (S\<lparr>sh_fs := unmount_dev dev F\<rparr>);
                 (ok, lba, S2) \<leftarrow> flash_loop h dev secs 0 S1;
                 (if ok then answer 0 (CHR 13 # ''flash: done (%u sectors written).      \<newline>'') [ArgWord lba] (S2\<lparr>sh_fs := fst (fs_close (sh_fs S2) h)\<rparr>)
                  else map_option (\<lambda>S3. (1, S3\<lparr>sh_fs := fst (fs_close (sh_fs S3) h)\<rparr>)) (say ''flash: write error at LBA %u\<newline>'' [ArgWord lba] S2)) }) S)
      | _ \<Rightarrow> usage 1 (''usage: flash <devname|num> <file>\<newline>  writes the file byte-for-byte to the device'' @ [CHR 0x27]
              @ ''s raw\<newline>  sectors starting at LBA 0 (overwrites the boot sector,\<newline>  FAT, everything). Use with care.\<newline>'') S)"

subsection \<open>Partitions\<close>

definition part_type_name :: "u8 \<Rightarrow> string" where
  "part_type_name t =
     (if t = 0x00 then ''empty'' else if t = 0x01 then ''FAT12'' else if t = 0x04 then ''FAT16 (CHS, small)''
      else if t = 0x05 then ''Extended'' else if t = 0x06 then ''FAT16 (CHS)'' else if t = 0x0B then ''FAT32 (CHS)''
      else if t = 0x0C then ''FAT32 (LBA)'' else if t = 0x0E then ''FAT16 (LBA)'' else if t = 0x07 then ''NTFS/exFAT''
      else if t = 0x82 then ''Linux swap'' else if t = 0x83 then ''Linux'' else ''other'')"

definition type_digit :: "u8 \<Rightarrow> u32 option" where
  "type_digit c =
     (if 0x30 \<le> c \<and> c \<le> 0x39 then Some (ucast c - 0x30)
      else if 0x61 \<le> c \<and> c \<le> 0x66 then Some (ucast c - 0x61 + 10)
      else if 0x41 \<le> c \<and> c \<le> 0x46 then Some (ucast c - 0x41 + 10) else None)"

primrec type_value :: "bytes \<Rightarrow> u32 \<Rightarrow> u8" where
  "type_value [] v = ucast v"
| "type_value (c # s) v = (case type_digit c of None \<Rightarrow> 0 | Some d \<Rightarrow> type_value s (v * 16 + d))"

definition parse_type :: "bytes \<Rightarrow> u8" where
  "parse_type s =
     (if strcasecmp s (lit ''fat16'') = 0 then 0x0E else if strcasecmp s (lit ''fat32'') = 0 then 0x0C
      else if strcasecmp s (lit ''fat12'') = 0 then 0x01 else type_value s 0)"

text \<open>The number that cmd_mkpart reads: every character counts as a digit.\<close>

definition any_number :: "bytes \<Rightarrow> u32" where
  "any_number s = foldl (\<lambda>n c. n * 10 + (scast c - 48)) 0 s"

primrec part_lines :: "nat list \<Rightarrow> mbr_part list \<Rightarrow> 'd sh_op" where
  "part_lines [] pt S = Some S"
| "part_lines (i # is) pt S =
     (let p = pt ! i in do {
        S1 \<leftarrow> (if mp_type p = 0 then say ''  %d   --    --              --             --  empty\<newline>'' [a_int (int i + 1)] S
              else say ''  %d   %c    %10u  %10u   %6u  %02X  %s\<newline>''
                [a_int (int i + 1), a_chr (if mp_boot p = 0x80 then 0x2A else 0x20), ArgWord (mp_start p), ArgWord (mp_sectors p),
                 ArgWord (mp_sectors p div 2048), a_chr (mp_type p), a_str (lit (part_type_name (mp_type p)))] S);
        part_lines is pt S1 })"

definition do_parts :: "'d sh_cmd" where
  "do_parts args S =
     (case args of
        [] \<Rightarrow> usage 1 ''usage: parts <devname>  (e.g. parts hda)\<newline>'' S
      | a # _ \<Rightarrow>
          (let dev = raw_from_arg a (sh_fs S); s = fdev (sh_fs S); d = disks s ! nat dev in
           if dev < 0 then answer 1 ''parts: %s is not a raw disk\<newline>'' [a_str a] S
           else case mbr_read s dev of
                  None \<Rightarrow> answer 0 ''%s: no MBR partition table (use `mkmbr %s` to create one)\<newline>'' [a_str (dname d), a_str (dname d)] S
                | Some pt \<Rightarrow> do {
                    S1 \<leftarrow> say '' %s   total %u sectors (%u MiB)\<newline>'' [a_str (dname d), ArgWord (sectors d), ArgWord (sectors d div 2048)] S;
                    S2 \<leftarrow> part_lines [0..<MBR_PART_MAX] pt (kputs (lit ''  # boot   start_LBA       sectors        MiB  type\<newline>'') S1);
                    (case mbr_largest_free s dev of (st, n, r) \<Rightarrow>
                       if r = 0 then answer 0 '' largest free span: LBA %u..%u  (%u MiB)\<newline>'' [ArgWord st, ArgWord (st + n - 1), ArgWord (n div 2048)] S2
                       else Some (0, S2)) }))"

text \<open>The start, the length and the type of a new partition, or no free space.\<close>

definition mkpart_span :: "bytes list \<Rightarrow> 'w dstate \<Rightarrow> int \<Rightarrow> (u32 \<times> u32 \<times> u8) option" where
  "mkpart_span opts s dev =
     (let type = (case opts of t # _ \<Rightarrow> parse_type t | [] \<Rightarrow> 0);
          asked = (case opts of _ # a # b # _ \<Rightarrow> (any_number a, any_number b) | _ \<Rightarrow> (0, 0));
          span = (if snd asked \<noteq> 0 then Some asked
                  else case mbr_largest_free s dev of (st, n, r) \<Rightarrow> if r < 0 \<or> n < 2048 then None else Some (st, n))
      in map_option (\<lambda>(st, n). (st, n, if type = 0 then mbr_suggest_type n else type)) span)"

definition set_dev :: "'d dstate \<Rightarrow> 'd shell \<Rightarrow> 'd shell" where
  "set_dev s S = S\<lparr>sh_fs := (sh_fs S)\<lparr>fdev := s\<rparr>\<rparr>"

definition do_mkpart :: "('d dstate \<Rightarrow> 'd dstate) list \<Rightarrow> bytes \<Rightarrow> 'd sh_cmd" where
  "do_mkpart probes blob args S =
     (case args of
        [] \<Rightarrow> usage 1 ''usage: mkpart <devname> [fat16|fat32|HEX] [start sectors]\<newline>  Defaults: type=auto, start/sectors=largest free span.\<newline>'' S
      | a # opts \<Rightarrow>
          (let dev = raw_from_arg a (sh_fs S); s = fdev (sh_fs S) in
           if dev < 0 then answer 1 ''mkpart: %s is not a raw disk\<newline>'' [a_str a] S
           else do {
             (S1, r) \<leftarrow> (if mbr_has_table s dev then Some (S, 0)
                else do {
                  S1 \<leftarrow> say ''mkpart: %s has no MBR; writing one ...\<newline>'' [a_str (dname (disks s ! nat dev))] S;
                  Some (set_dev (fst (mbr_init_disk blob s dev)) S1, snd (mbr_init_disk blob s dev)) });
             (if r < 0 then usage 1 ''mkpart: mkmbr failed\<newline>'' S1
              else
                let s1 = fdev (sh_fs S1) in
                case mkpart_span opts s1 dev of
                  None \<Rightarrow> usage 1 ''mkpart: no free space on disk\<newline>'' S1
                | Some (st, n, type) \<Rightarrow>
                    let pt = (case mbr_read s1 dev of Some pt \<Rightarrow> pt | None \<Rightarrow> replicate MBR_PART_MAX empty_part) in
                    case first_idx (\<lambda>i. mp_type (pt ! i) = 0) MBR_PART_MAX of
                      None \<Rightarrow> usage 1 ''mkpart: no free partition slot (max 4)\<newline>'' S1
                    | Some slot \<Rightarrow>
                        let active = (\<forall>i\<in>set [0..<MBR_PART_MAX]. mp_boot (pt ! i) \<noteq> 0x80) in
                        case mbr_create_partition blob s1 dev (int slot) type st n active of (s2, rc) \<Rightarrow>
                          if rc < 0 then answer 1 ''mkpart: failed (rc=%d)\<newline>'' [a_int rc] (set_dev s2 S1)
                          else do {
                            S3 \<leftarrow> say ''mkpart: created %s partition %d at LBA %u, %u sectors (%u MiB)%s\<newline>''
                              [a_str (lit (part_type_name type)), a_int (int slot + 1), ArgWord st, ArgWord n, ArgWord (n div 2048),
                               a_str (if active then lit '' [active]'' else [])] (set_dev s2 S1);
                            map_option (Pair 0) (rescan probes S3) }) }))"

text \<open>The slot of the first character of an argument.\<close>

definition slot_arg :: "bytes \<Rightarrow> int" where
  "slot_arg a = sint (byte_at a 0) - 48 - 1"

definition bad_slot :: "int \<Rightarrow> bool" where
  "bad_slot slot \<longleftrightarrow> slot < 0 \<or> int MBR_PART_MAX \<le> slot"

definition do_delpart :: "('d dstate \<Rightarrow> 'd dstate) list \<Rightarrow> bytes \<Rightarrow> 'd sh_cmd" where
  "do_delpart probes blob args S =
     (case args of
        a # b # _ \<Rightarrow>
          (let dev = raw_from_arg a (sh_fs S); slot = slot_arg b in
           if dev < 0 then answer 1 ''delpart: %s is not a raw disk\<newline>'' [a_str a] S
           else if bad_slot slot then usage 1 ''delpart: slot must be 1..4\<newline>'' S
           else
             let view = mbr_view_for (fdev (sh_fs S)) dev slot; F = (if 0 \<le> view then unmount_dev view (sh_fs S) else sh_fs S) in
             case mbr_delete_partition blob (fdev F) dev slot of (s1, r) \<Rightarrow>
               let S1 = S\<lparr>sh_fs := F\<lparr>fdev := s1\<rparr>\<rparr> in
               if r < 0 then usage 1 ''delpart: failed\<newline>'' S1
               else do { S2 \<leftarrow> say ''delpart: removed partition %d\<newline>'' [a_int (slot + 1)] S1; map_option (Pair 0) (rescan probes S2) })
      | _ \<Rightarrow> usage 1 ''usage: delpart <devname> <1..4>\<newline>'' S)"

definition do_setactive :: "bytes \<Rightarrow> 'd sh_cmd" where
  "do_setactive blob args S =
     (case args of
        a # b # _ \<Rightarrow>
          (let dev = raw_from_arg a (sh_fs S); slot = slot_arg b in
           if dev < 0 then answer 1 ''setactive: %s is not a raw disk\<newline>'' [a_str a] S
           else if bad_slot slot then usage 1 ''setactive: slot must be 1..4\<newline>'' S
           else case mbr_set_active blob (fdev (sh_fs S)) dev slot of (s1, r) \<Rightarrow>
                  if r < 0 then usage 1 ''setactive: failed\<newline>'' (set_dev s1 S)
                  else answer 0 ''setactive: partition %d is now bootable\<newline>'' [a_int (slot + 1)] (set_dev s1 S))
      | _ \<Rightarrow> usage 1 ''usage: setactive <devname> <1..4>\<newline>'' S)"

text \<open>The drives on any view of a raw disk are unmounted before its table is replaced.\<close>

definition unmount_views :: "int \<Rightarrow> 'd fsys \<Rightarrow> 'd fsys" where
  "unmount_views dev F =
     fold (\<lambda>v F. case mbr_view_info (fdev F) (int v) of
                  None \<Rightarrow> F
                | Some p \<Rightarrow> if parent_disk p = dev then unmount_dev (int v) F else F) [PART_SLOT_BASE..<DISK_MAX] F"

definition do_mkmbr :: "('d dstate \<Rightarrow> 'd dstate) list \<Rightarrow> bytes \<Rightarrow> 'd sh_cmd" where
  "do_mkmbr probes blob args S =
     (case args of
        [] \<Rightarrow> usage 1 ''usage: mkmbr <devname>\<newline>'' S
      | a # _ \<Rightarrow>
          (let dev = raw_from_arg a (sh_fs S) in
           if dev < 0 then answer 1 ''mkmbr: %s is not a raw disk\<newline>'' [a_str a] S
           else
             let F = unmount_views dev (sh_fs S) in
             case mbr_init_disk blob (fdev F) dev of (s1, r) \<Rightarrow>
               let S1 = S\<lparr>sh_fs := F\<lparr>fdev := s1\<rparr>\<rparr> in
               if r < 0 then usage 1 ''mkmbr: failed\<newline>'' S1
               else do {
                 S2 \<leftarrow> say ''mkmbr: wrote chainloader MBR + empty partition table to %s\<newline>'' [a_str (dname (disks s1 ! nat dev))] S1;
                 map_option (Pair 0) (rescan probes S2) }))"

subsection \<open>Running a line\<close>

text \<open>
  What a command line needs beyond the state: the probes and the boot record as before, the commands that work on the state
  of another program or device, and the two ways to run a file, as an ELF program or in the C interpreter.
\<close>

record 'd machine =
  m_probes :: "('d dstate \<Rightarrow> 'd dstate) list"
  m_blob :: bytes
  m_other :: "command \<Rightarrow> 'd sh_cmd"
  m_run :: "bool \<Rightarrow> bytes \<Rightarrow> 'd shell \<Rightarrow> (int \<times> 'd shell) option"

primrec help_lines :: "(string \<times> string \<times> command) list \<Rightarrow> 'd sh_op" where
  "help_lines [] S = Some S"
| "help_lines (c # cs) S = do { S1 \<leftarrow> say ''  %-7s %s\<newline>'' [a_str (lit (fst c)), a_str (lit (fst (snd c)))] S; help_lines cs S1 }"

definition do_help :: "'d sh_cmd" where
  "do_help args S = do {
     S1 \<leftarrow> help_lines commands (kputs (lit ''Zenbite commands:\<newline>'') S);
     Some (0, kputs (lit ''  a: / b:              switch current drive\<newline>  <name>               run a .zbe executable on the current drive\<newline>'') S1) }"

definition run_command :: "'d machine \<Rightarrow> command \<Rightarrow> 'd sh_cmd" where
  "run_command M c =
     (case c of
        C_HELP \<Rightarrow> do_help | C_SAY \<Rightarrow> do_say | C_LS \<Rightarrow> do_ls | C_CAT \<Rightarrow> do_cat | C_CD \<Rightarrow> do_cd | C_MKD \<Rightarrow> do_mkd | C_RMD \<Rightarrow> do_rmd | C_RM \<Rightarrow> do_rm
      | C_MV \<Rightarrow> do_mv | C_CPR \<Rightarrow> do_cpr | C_LSBLK \<Rightarrow> do_lsblk | C_MOUNT \<Rightarrow> do_mount | C_UMOUNT \<Rightarrow> do_umount
      | C_SCAN \<Rightarrow> do_scan (m_probes M) | C_DRIVES \<Rightarrow> do_drives | C_FORMAT \<Rightarrow> do_format | C_FLASH \<Rightarrow> do_flash | C_PARTS \<Rightarrow> do_parts
      | C_MKPART \<Rightarrow> do_mkpart (m_probes M) (m_blob M) | C_DELPART \<Rightarrow> do_delpart (m_probes M) (m_blob M) | C_SETACTIVE \<Rightarrow> do_setactive (m_blob M)
      | C_MKMBR \<Rightarrow> do_mkmbr (m_probes M) (m_blob M) | C_DF \<Rightarrow> do_df | C_DU \<Rightarrow> do_du | C_FIND \<Rightarrow> do_find | C_GREP \<Rightarrow> do_grep | C_MORE \<Rightarrow> do_more
      | C_HISTORY \<Rightarrow> cmd_history | C_ALIAS \<Rightarrow> cmd_alias | C_UNALIAS \<Rightarrow> cmd_unalias | C_ENV \<Rightarrow> do_env | C_SETENV \<Rightarrow> do_setenv
      | _ \<Rightarrow> m_other M c)"

text \<open>The files a name may stand for, in the order they are looked for; True is an ELF program.\<close>

function path_dirs :: "bytes \<Rightarrow> bytes list" where
  "path_dirs p =
     (if p = [] then []
      else takeWhile (\<lambda>c. c \<noteq> 0x3B) p # (case dropWhile (\<lambda>c. c \<noteq> 0x3B) p of [] \<Rightarrow> [] | c # q \<Rightarrow> path_dirs q))"
  by pat_completeness auto

termination
proof (relation "measure length")
  fix p q :: bytes and c :: u8
  assume "dropWhile (\<lambda>c. c \<noteq> 0x3B) p = c # q"
  then have "length (c # q) \<le> length p" by (metis length_dropWhile_le)
  then show "(q, p) \<in> measure length" by simp
qed simp

declare path_dirs.simps [simp del]

primrec format_all :: "(bool \<times> string) list \<Rightarrow> arg list \<Rightarrow> (bool \<times> bytes) list option" where
  "format_all [] as = Some []"
| "format_all (f # fs) as = do { s \<leftarrow> format_str FS_PATH_MAX (lit (snd f)) as; rest \<leftarrow> format_all fs as; Some ((fst f, s) # rest) }"

primrec in_dirs :: "bytes list \<Rightarrow> bytes \<Rightarrow> (bool \<times> bytes) list option" where
  "in_dirs [] cmd = Some []"
| "in_dirs (d # ds) cmd = do {
     a \<leftarrow> format_all [(False, ''%s'' @ [CHR 92] @ ''%s.zbe''), (True, ''%s'' @ [CHR 92] @ ''%s.elf'')] [a_str d, a_str cmd];
     b \<leftarrow> in_dirs ds cmd;
     Some (a @ b) }"

definition exec_names :: "bytes \<Rightarrow> env \<Rightarrow> (bool \<times> bytes) list option" where
  "exec_names cmd e = do {
     a \<leftarrow> format_all [(False, ''%s.zbe''), (True, ''%s.elf'')] [a_str cmd];
     b \<leftarrow> (case env_get e (lit ''PATH'') of None \<Rightarrow> Some [] | Some v \<Rightarrow> in_dirs (path_dirs (take 255 (chars v))) cmd);
     Some (a @ [(False, cmd)] @ b) }"

primrec try_names :: "'d machine \<Rightarrow> (bool \<times> bytes) list \<Rightarrow> 'd shell \<Rightarrow> (int \<times> 'd shell) option" where
  "try_names M [] S = Some (-1, S)"
| "try_names M (n # ns) S = do {
     (F, h) \<leftarrow> fs_open (sh_fs S) (snd n);
     (if 0 \<le> h then m_run M (fst n) (snd n) (S\<lparr>sh_fs := fst (fs_close F h)\<rparr>) else try_names M ns (S\<lparr>sh_fs := F\<rparr>)) }"

definition try_exec_file :: "'d machine \<Rightarrow> bytes \<Rightarrow> 'd shell \<Rightarrow> (int \<times> 'd shell) option" where
  "try_exec_file M cmd S = do { ns \<leftarrow> exec_names cmd (sh_env S); try_names M ns S }"

definition shell_dispatch :: "'d machine \<Rightarrow> bytes \<Rightarrow> 'd sh_cmd" where
  "shell_dispatch M name args S =
     (if length name = 2 \<and> name ! 1 = 0x3A then
        (case fs_set_drive (sh_fs S) (name ! 0) of (F, r) \<Rightarrow>
           if r < 0 then answer 0 ''drive %c: not present\<newline>'' [ArgWord (upcase (name ! 0))] (S\<lparr>sh_fs := F\<rparr>) else Some (0, S\<lparr>sh_fs := F\<rparr>))
      else
        case find_command name of
          Some c \<Rightarrow> run_command M c args S
        | None \<Rightarrow> map_option (\<lambda>(r, S1). (if r = 0 then 0 else -1, S1)) (try_exec_file M name S))"

text \<open>A line is expanded, split and dispatched.\<close>

definition shell_run_line :: "'d machine \<Rightarrow> bytes \<Rightarrow> 'd sh_op" where
  "shell_run_line M src S =
     (case tokenize_line ARGV_MAX (expand_alias src LINE_MAX S) of
        [] \<Rightarrow> Some S
      | name # args \<Rightarrow> do {
          (r, S1) \<leftarrow> shell_dispatch M name args S;
          (if r < 0 then say ''Bad command or filename: %s\<newline>'' [a_str name] S1 else Some S1) })"

text \<open>One turn of the loop of shell_main.\<close>

definition shell_turn :: "'d machine \<Rightarrow> 'd sh_op" where
  "shell_turn M S = do {
     prompt \<leftarrow> shell_prompt_str 64 S;
     (line, S1) \<leftarrow> read_line prompt ((kputs prompt S)\<lparr>kb_intr := False\<rparr>);
     (if line = [] then Some S1
      else
        let S2 = shell_history_add line S1 in
        if tokenize_line ARGV_MAX (expand_alias line LINE_MAX S2) = [] then Some S2
        else do {
          S3 \<leftarrow> shell_run_line M line S2;
          Some (if kb_intr S3 then (kputs (lit ''^C\<newline>'') S3)\<lparr>kb_intr := False\<rparr> else S3) }) }"

primrec shell_turns :: "nat \<Rightarrow> 'd machine \<Rightarrow> 'd sh_op" where
  "shell_turns 0 M S = Some S"
| "shell_turns (Suc n) M S = do { S1 \<leftarrow> shell_turn M S; shell_turns n M S1 }"

end
