(* ===== verification/ShellFacts.thy ===== *)
theory ShellFacts
  imports ShellCmds FatDirFacts
begin

text \<open>
  Facts about the command shell: splitting a line undoes joining quoted words, the history is the list of the
  lines entered without repetitions, the aliases are a map under folded names, the patterns of find have their
  usual meaning, and what grep counts.
\<close>

subsection \<open>Splitting a line\<close>

text \<open>A word as it is typed: with quotes or plain.\<close>

definition typed_word :: "bool \<times> bytes \<Rightarrow> bytes" where
  "typed_word w = (if fst w then 0x22 # snd w @ [0x22] else snd w)"

definition word_ok :: "bool \<times> bytes \<Rightarrow> bool" where
  "word_ok w \<longleftrightarrow> (if fst w then 0x22 \<notin> set (snd w) else snd w \<noteq> [] \<and> hd (snd w) \<noteq> 0x22 \<and> (\<forall>c\<in>set (snd w). \<not> is_space c))"

lemma space_facts [simp]: "is_space 0x20" "\<not> is_space 0x22" "is_space 9"
  by (simp_all add: is_space_def isspace_def)

lemma split_stop: "takeWhile P (w @ c # r) = w \<and> dropWhile P (w @ c # r) = c # r" if "\<forall>x\<in>set w. P x" "\<not> P c"
  using that by (induction w) auto

lemma takeWhile_whole: "\<forall>x\<in>set w. P x \<Longrightarrow> takeWhile P w = w \<and> dropWhile P w = []"
  by (induction w) auto

lemma tokenize_word:
  assumes "word_ok w" and "r = [] \<or> is_space (hd r)"
  shows "tokenize_line (Suc n) (typed_word w @ r) = snd w # tokenize_line n (if fst w then r else tl r)"
proof (cases "fst w")
  case True
  then have "\<forall>x\<in>set (snd w). x \<noteq> 0x22" using assms(1) by (auto simp: word_ok_def)
  from split_stop [of "snd w" "\<lambda>x. x \<noteq> 0x22" "0x22" r] this show ?thesis using True by (simp add: typed_word_def)
next
  case False
  then obtain c v where w: "snd w = c # v" using assms(1) by (cases "snd w") (auto simp: word_ok_def)
  have s: "\<forall>x\<in>set (c # v). \<not> is_space x" "c \<noteq> 0x22" using assms(1) False by (simp_all add: word_ok_def w)
  show ?thesis
  proof (cases r)
    case Nil
    have d: "takeWhile (\<lambda>b. \<not> is_space b) v = v" "dropWhile (\<lambda>b. \<not> is_space b) v = []"
      using s by (auto simp: takeWhile_eq_all_conv dropWhile_eq_Nil_conv)
    then show ?thesis using s False Nil by (simp add: typed_word_def w d)
  next
    case (Cons d q)
    then show ?thesis using s split_stop [of "c # v" "\<lambda>b. \<not> is_space b" d q] assms(2) False by (simp add: typed_word_def w)
  qed
qed

lemma tokenize_blank: "is_space c \<Longrightarrow> tokenize_line n (c # r) = tokenize_line n r"
  by (cases n) simp_all

lemma tokenize_join_words:
  assumes "\<forall>w\<in>set ws. word_ok w" and "length ws \<le> n"
  shows "tokenize_line n (join_words (map typed_word ws)) = map snd ws"
  using assms
proof (induction ws arbitrary: n)
  case Nil
  then show ?case by (cases n) simp_all
next
  case (Cons w ws)
  obtain m where n: "n = Suc m" "length ws \<le> m" using Cons.prems(2) by (cases n) auto
  have ok: "word_ok w" "\<forall>w\<in>set ws. word_ok w" using Cons.prems(1) by simp_all
  show ?case
  proof (cases "ws = []")
    case True
    have "tokenize_line m [] = []" by (cases m) simp_all
    then show ?thesis using tokenize_word [OF ok(1), of "[]" m] True by (simp add: n(1))
  next
    case False
    let ?r = "0x20 # join_words (map typed_word ws)"
    have "tokenize_line (Suc m) (typed_word w @ ?r) = snd w # tokenize_line m (if fst w then ?r else tl ?r)"
      using tokenize_word [OF ok(1), of ?r m] by simp
    then show ?thesis using Cons.IH [OF ok(2) n(2)] False by (simp add: n(1) tokenize_blank)
  qed
qed

text \<open>Splitting a line undoes writing it: words that are quoted, or plain and free of blanks, joined by blanks, come back as they are, up to the
  16 arguments there is room for.\<close>

theorem tokenize_join:
  assumes "\<forall>w\<in>set ws. word_ok w" and "length ws \<le> n"
  shows "tokenize_line n (join_words (map typed_word ws)) = map snd ws"
  using tokenize_join_words [OF assms] .

lemma tokenize_join_witness: "tokenize_line 16 (join_words (map typed_word [(False, lit ''cpr''), (True, lit ''A B''), (False, lit ''C'')])) = [lit ''cpr'', lit ''A B'', lit ''C'']"
  using tokenize_join [of "[(False, lit ''cpr''), (True, lit ''A B''), (False, lit ''C'')]" 16]
  by (simp add: word_ok_def is_space_def isspace_def)

subsection \<open>The history\<close>

lemma newest_line:
  assumes "l \<noteq> []" and "length l < HIST_LEN" and "length (g_hist S) = HIST_MAX"
  shows "shell_history_get 0 (shell_history_add l S) = Some l"
proof -
  have m: "nat ((int (Suc n) - 1 - 0 + int HIST_MAX * 100) mod int HIST_MAX) = n mod HIST_MAX" for n
  proof -
    have "int (Suc n) - 1 - 0 + int HIST_MAX * 100 = int (n + 100 * HIST_MAX)" by simp
    then have "nat ((int (Suc n) - 1 - 0 + int HIST_MAX * 100) mod int HIST_MAX) = (n + 100 * HIST_MAX) mod HIST_MAX" by (metis nat_int of_nat_mod)
    then show ?thesis by simp
  qed
  show ?thesis
  proof (cases "0 < g_hist_count S \<and> g_hist S ! ((g_hist_count S - 1) mod HIST_MAX) = l")
    case True
    then show ?thesis using m [of "g_hist_count S - 1"] by (simp add: shell_history_add_def shell_history_get_def HIST_MAX_def)
  next
    case False
    then have "shell_history_add l S = S\<lparr>g_hist := (g_hist S)[g_hist_count S mod HIST_MAX := l], g_hist_count := g_hist_count S + 1\<rparr>"
      using assms(1,2) by (auto simp: shell_history_add_def)
    then show ?thesis using m [of "g_hist_count S"] assms(3) by (simp add: shell_history_get_def HIST_MAX_def)
  qed
qed

lemma history_kputs: "shell_history_get k (kputs x S) = shell_history_get k S"
  by (simp add: kputs_def shell_history_get_def)

lemma remdups_adj_snoc: "remdups_adj (xs @ [x]) = (if xs \<noteq> [] \<and> List.last xs = x then remdups_adj xs else remdups_adj xs @ [x])"
  by (induction xs rule: remdups_adj.induct) auto

lemma last_remdups: "xs \<noteq> [] \<Longrightarrow> List.last (remdups_adj xs) = List.last xs"
  by (induction xs rule: remdups_adj.induct) (auto simp: remdups_adj_Nil_iff)

definition hist_is :: "bytes list \<Rightarrow> 'd shell \<Rightarrow> bool" where
  "hist_is d S \<longleftrightarrow> g_hist_count S = length d \<and> length (g_hist S) = HIST_MAX
     \<and> (\<forall>i<length d. length d \<le> i + HIST_MAX \<longrightarrow> g_hist S ! (i mod HIST_MAX) = d ! i)"

lemma hist_add_same:
  assumes "hist_is d S" and "d \<noteq> []" and "List.last d = x"
  shows "shell_history_add x S = S"
proof -
  have "g_hist S ! ((length d - 1) mod HIST_MAX) = d ! (length d - 1)" using assms(1,2) by (simp add: hist_is_def HIST_MAX_def)
  then show ?thesis using assms by (simp add: shell_history_add_def hist_is_def last_conv_nth)
qed

lemma mod_hist_neq:
  assumes "i < n" and "n < i + HIST_MAX"
  shows "i mod HIST_MAX \<noteq> n mod HIST_MAX"
proof
  assume "i mod HIST_MAX = n mod HIST_MAX"
  then have "HIST_MAX dvd n - i" using assms(1) by (metis less_imp_le mod_eq_dvd_iff_nat)
  then have "HIST_MAX \<le> n - i" using assms(1) by (intro dvd_imp_le) auto
  then show False using assms by simp
qed

lemma hist_add_new:
  assumes "hist_is d S" and "x \<noteq> []" and "d = [] \<or> List.last d \<noteq> x"
  shows "hist_is (d @ [take (HIST_LEN - 1) x]) (shell_history_add x S)"
proof -
  let ?x = "take (HIST_LEN - 1) x"
  have c: "g_hist_count S = length d" "length (g_hist S) = HIST_MAX" "length d mod HIST_MAX < HIST_MAX"
    using assms(1) by (simp_all add: hist_is_def HIST_MAX_def)
  have "d = [] \<or> g_hist S ! ((length d - 1) mod HIST_MAX) \<noteq> x"
    using assms(1,3) by (auto simp: hist_is_def HIST_MAX_def last_conv_nth)
  then have a: "shell_history_add x S = S\<lparr>g_hist := (g_hist S)[length d mod HIST_MAX := ?x], g_hist_count := Suc (length d)\<rparr>"
    using assms(2) by (auto simp: shell_history_add_def c(1))
  have "(g_hist S)[length d mod HIST_MAX := ?x] ! (i mod HIST_MAX) = (d @ [?x]) ! i" if "i < Suc (length d)" "Suc (length d) \<le> i + HIST_MAX" for i
  proof (cases "i = length d")
    case True
    then show ?thesis using c by simp
  next
    case False
    then show ?thesis using that assms(1) mod_hist_neq [of i "length d"] by (auto simp: nth_append hist_is_def)
  qed
  then show ?thesis unfolding a by (simp add: hist_is_def c)
qed

text \<open>The lines entered, as a list: empty lines and lines equal to the one kept last are left out, and of a long line
  its first 127 characters are kept.\<close>

definition keep_line :: "bytes \<Rightarrow> bytes list \<Rightarrow> bytes list" where
  "keep_line x d = (if x = [] \<or> d \<noteq> [] \<and> List.last d = x then d else d @ [take (HIST_LEN - 1) x])"

lemma hist_fold: "hist_is d S \<Longrightarrow> hist_is (fold keep_line ls d) (fold shell_history_add ls S)"
proof (induction ls arbitrary: d S)
  case (Cons x ls)
  have "hist_is (keep_line x d) (shell_history_add x S)"
    using Cons.prems hist_add_same [of d S] hist_add_new [of d S x] by (auto simp: keep_line_def shell_history_add_def)
  then show ?case using Cons.IH by simp
qed simp

lemma keep_short: "\<forall>l\<in>set ls. l \<noteq> [] \<and> length l < HIST_LEN \<Longrightarrow> fold keep_line ls [] = remdups_adj ls"
proof (induction ls rule: rev_induct)
  case (snoc x ls)
  then have f: "fold keep_line (ls @ [x]) [] = keep_line x (remdups_adj ls)" by simp
  have x: "x \<noteq> []" "take (HIST_LEN - 1) x = x" using snoc.prems by (auto simp: HIST_LEN_def)
  show ?case unfolding f
    using x last_remdups [of ls] by (cases "ls = []") (auto simp: keep_line_def remdups_adj_snoc)
qed simp

text \<open>C18: The history is the list of the lines entered, without empty lines and lines equal to the entry kept before
  them, of each its first 127 characters: going back k lines gives the k-th from its end for the 32 newest, and
  nothing beyond. For lines of fewer than 128 characters this is the list without immediate repetitions; a
  longer line is compared whole with its cut copy, so its repetitions stay.\<close>

theorem history_is_list:
  assumes "g_hist_count S = 0" and "length (g_hist S) = HIST_MAX" and "d = fold keep_line ls []"
  shows "shell_history_get (int k) (fold shell_history_add ls S) = (if k < HIST_MAX \<and> k < length d then Some (rev d ! k) else None)
    \<and> ((\<forall>l\<in>set ls. l \<noteq> [] \<and> length l < HIST_LEN) \<longrightarrow> d = remdups_adj ls)"
proof -
  have "hist_is [] S" using assms(1,2) by (simp add: hist_is_def)
  then have h: "hist_is d (fold shell_history_add ls S)" using hist_fold assms(3) by blast
  have "shell_history_get (int k) (fold shell_history_add ls S) = (if k < HIST_MAX \<and> k < length d then Some (rev d ! k) else None)"
  proof (cases "k < HIST_MAX \<and> k < length d")
    case True
    let ?i = "length d - 1 - k"
    have "int (length d) - 1 - int k + int HIST_MAX * 100 = int (?i + HIST_MAX * 100)" using True by simp
    then have "nat ((int (length d) - 1 - int k + int HIST_MAX * 100) mod int HIST_MAX) = ?i mod HIST_MAX"
      by (metis mod_mult_self1 nat_int of_nat_mod mult.commute)
    moreover have "g_hist (fold shell_history_add ls S) ! (?i mod HIST_MAX) = d ! ?i" using h True by (auto simp: hist_is_def)
    ultimately show ?thesis using h True by (simp add: shell_history_get_def hist_is_def rev_nth)
  next
    case False
    then show ?thesis using h by (auto simp: shell_history_get_def hist_is_def)
  qed
  then show ?thesis using keep_short assms(3) by blast
qed

subsection \<open>A sample\<close>

definition sample_shell :: "int list \<Rightarrow> bytes list shell" where
  "sample_shell ks =
     \<lparr>g_hist = replicate HIST_MAX [], g_hist_count = 0, g_alias = replicate ALIAS_MAX ([], []), sh_keys = ks, kb_intr = False, sh_out = [],
      sh_env = \<lparr>env_names = replicate ENV_MAX [], env_vals = replicate ENV_MAX [], env_used = replicate ENV_MAX False\<rparr>,
      sh_fs = sample_fs\<lparr>current_drive := -1\<rparr>\<rparr>"

lemma history_is_list_witness:
  "shell_history_get 0 (fold shell_history_add [lit ''ls'', lit ''df'', lit ''df''] (sample_shell [])) = Some (lit ''df'')
   \<and> shell_history_get 1 (fold shell_history_add [lit ''ls'', lit ''df'', lit ''df''] (sample_shell [])) = Some (lit ''ls'')"
  using history_is_list [of "sample_shell []" "[lit ''ls'', lit ''df'']" "[lit ''ls'', lit ''df'', lit ''df'']" 0]
    history_is_list [of "sample_shell []" "[lit ''ls'', lit ''df'']" "[lit ''ls'', lit ''df'', lit ''df'']" 1]
  by (simp add: sample_shell_def HIST_LEN_def HIST_MAX_def keep_line_def)

subsection \<open>Aliases\<close>

definition alias_ok :: "'d shell \<Rightarrow> bool" where
  "alias_ok S \<longleftrightarrow> length (g_alias S) = ALIAS_MAX
     \<and> (\<forall>i<ALIAS_MAX. 0 \<notin> set (fst (g_alias S ! i)) \<and> length (snd (g_alias S ! i)) < ALIAS_VAL_LEN)
     \<and> (\<forall>i<ALIAS_MAX. \<forall>j<ALIAS_MAX. fst (g_alias S ! i) \<noteq> [] \<longrightarrow> fst (g_alias S ! j) \<noteq> [] \<longrightarrow>
          fold_case (fst (g_alias S ! i)) = fold_case (fst (g_alias S ! j)) \<longrightarrow> i = j)"

definition alias_fits :: "bytes \<Rightarrow> bool" where
  "alias_fits name \<longleftrightarrow> name \<noteq> [] \<and> length name < ALIAS_NAME_LEN \<and> 0 \<notin> set name"

text \<open>The value of a name, as expand_alias asks for it.\<close>

definition alias_get :: "'d shell \<Rightarrow> bytes \<Rightarrow> bytes option" where
  "alias_get S name = shell_alias_lookup name ALIAS_VAL_LEN S"

lemma alias_match_iff: "alias_match S name i \<longleftrightarrow> fst (g_alias S ! i) \<noteq> [] \<and> fold_case (fst (g_alias S ! i)) = fold_case name"
  by (simp add: alias_match_def strcasecmp_eq_0)

lemma alias_unique:
  "alias_ok S \<Longrightarrow> i < ALIAS_MAX \<Longrightarrow> j < ALIAS_MAX \<Longrightarrow> alias_match S name i \<Longrightarrow> alias_match S name j \<Longrightarrow> j = i"
  unfolding alias_match_iff alias_ok_def by metis

lemma alias_found:
  assumes "alias_ok S" and "i < ALIAS_MAX" and "alias_match S name i"
  shows "alias_get S name = Some (snd (g_alias S ! i))"
proof -
  have "first_idx (alias_match S name) ALIAS_MAX = Some i"
  proof (rule first_idx_unique)
    show "i < ALIAS_MAX" "alias_match S name i" by (fact assms)+
    fix j assume "j < ALIAS_MAX" "alias_match S name j"
    then show "j = i" using assms unfolding alias_match_iff alias_ok_def by metis
  qed
  moreover have "length (snd (g_alias S ! i)) < ALIAS_VAL_LEN" using assms(1,2) by (simp add: alias_ok_def)
  then have "take (ALIAS_VAL_LEN - 1) (snd (g_alias S ! i)) = snd (g_alias S ! i)" by (intro take_all) linarith
  ultimately show ?thesis by (simp add: alias_get_def shell_alias_lookup_def)
qed

lemma alias_missing: "\<forall>i<ALIAS_MAX. \<not> alias_match S name i \<Longrightarrow> alias_get S name = None"
  by (simp add: alias_get_def shell_alias_lookup_def first_idx_None)

lemma alias_get_None: "alias_get S name = None \<longleftrightarrow> (\<forall>i<ALIAS_MAX. \<not> alias_match S name i)"
  by (simp add: alias_get_def shell_alias_lookup_def first_idx_None)

lemma fold_case_Nil: "0 \<notin> set name \<Longrightarrow> fold_case name = [] \<longleftrightarrow> name = []"
  by (cases name) (auto simp: fold_case_def)

text \<open>What alias_set does: one slot, that of the name or a free one, holds the name and the value afterwards.\<close>

lemma alias_set_slot:
  assumes "alias_ok S" and "alias_fits name" and "alias_set name v S = Some T"
  shows "\<exists>i<ALIAS_MAX. T = S\<lparr>g_alias := (g_alias S)[i := (name, take (ALIAS_VAL_LEN - 1) v)]\<rparr>
    \<and> (fst (g_alias S ! i) = [] \<or> alias_match S name i) \<and> (\<forall>j<ALIAS_MAX. alias_match S name j \<longrightarrow> j = i)"
proof -
  have n: "take (ALIAS_NAME_LEN - 1) name = name" using assms(2) by (simp add: alias_fits_def ALIAS_NAME_LEN_def)
  show ?thesis
  proof (cases "first_idx (alias_match S name) ALIAS_MAX")
    case (Some i)
    then have i: "i < ALIAS_MAX" "alias_match S name i" by (auto simp: first_idx_Some)
    have "\<forall>j<ALIAS_MAX. alias_match S name j \<longrightarrow> j = i" using alias_unique [OF assms(1)] i by blast
    moreover have "T = S\<lparr>g_alias := (g_alias S)[i := (name, take (ALIAS_VAL_LEN - 1) v)]\<rparr>" using assms(3) Some n by (simp add: alias_set_def)
    ultimately show ?thesis using i by blast
  next
    case None
    then obtain i where i: "first_idx (\<lambda>i. fst (g_alias S ! i) = []) ALIAS_MAX = Some i" "T = S\<lparr>g_alias := (g_alias S)[i := (name, take (ALIAS_VAL_LEN - 1) v)]\<rparr>"
      using assms(3) n by (auto simp: alias_set_def)
    then show ?thesis using None by (auto simp: first_idx_Some first_idx_None)
  qed
qed

lemma alias_store:
  assumes "alias_ok S" and "alias_fits name" and "alias_set name v S = Some T"
  shows "alias_ok T" and "alias_get T j = (if fold_case j = fold_case name then Some (take (ALIAS_VAL_LEN - 1) v) else alias_get S j)"
proof -
  obtain i where i: "i < ALIAS_MAX" "T = S\<lparr>g_alias := (g_alias S)[i := (name, take (ALIAS_VAL_LEN - 1) v)]\<rparr>"
    "fst (g_alias S ! i) = [] \<or> alias_match S name i" "\<forall>j<ALIAS_MAX. alias_match S name j \<longrightarrow> j = i"
    using alias_set_slot [OF assms] by blast
  have l: "length (g_alias S) = ALIAS_MAX" using assms(1) by (simp add: alias_ok_def)
  have f: "name \<noteq> []" "0 \<notin> set name" using assms(2) by (simp_all add: alias_fits_def)
  have g: "g_alias T ! k = (if k = i then (name, take (ALIAS_VAL_LEN - 1) v) else g_alias S ! k)" if "k < ALIAS_MAX" for k
    using i(1,2) l that by simp
  show T: "alias_ok T"
    unfolding alias_ok_def
  proof (intro conjI allI impI)
    show "length (g_alias T) = ALIAS_MAX" using i(2) l by simp
  next
    fix k assume k: "k < ALIAS_MAX"
    show "0 \<notin> set (fst (g_alias T ! k))" "length (snd (g_alias T ! k)) < ALIAS_VAL_LEN"
      using g [OF k] k f(2) assms(1) by (auto simp: alias_ok_def ALIAS_VAL_LEN_def)
  next
    fix a b assume ab: "a < ALIAS_MAX" "b < ALIAS_MAX" "fst (g_alias T ! a) \<noteq> []" "fst (g_alias T ! b) \<noteq> []"
      "fold_case (fst (g_alias T ! a)) = fold_case (fst (g_alias T ! b))"
    have S: "alias_match S (fst (g_alias T ! a)) k" if "k = b \<or> k = a" "k \<noteq> i" for k
      using that ab g [OF ab(1)] g [OF ab(2)] by (auto simp: alias_match_iff)
    show "a = b"
    proof (cases "a = i \<or> b = i")
      case True
      then have "fold_case (fst (g_alias T ! a)) = fold_case name" using ab(5) g [OF i(1)] by auto
      then have "alias_match S (fst (g_alias T ! a)) k = alias_match S name k" for k by (simp add: alias_match_iff)
      then show ?thesis using True S i(4) ab(1,2) by metis
    next
      case False
      then show ?thesis using alias_unique [OF assms(1) ab(2,1)] S by blast
    qed
  qed
  show "alias_get T j = (if fold_case j = fold_case name then Some (take (ALIAS_VAL_LEN - 1) v) else alias_get S j)"
  proof (cases "fold_case j = fold_case name")
    case True
    then have "alias_match T j i" using g [OF i(1)] f(1) by (simp add: alias_match_iff)
    then show ?thesis using alias_found [OF T i(1)] g [OF i(1)] True by simp
  next
    case False
    have m: "alias_match T j k \<longleftrightarrow> alias_match S j k \<and> k \<noteq> i" if "k < ALIAS_MAX" for k
      using g [OF that] False i(3) by (auto simp: alias_match_iff)
    have m2: "alias_match S j k \<Longrightarrow> k \<noteq> i" for k using False i(3) by (auto simp: alias_match_iff)
    show ?thesis
    proof (cases "alias_get S j")
      case None
      then have "\<forall>k<ALIAS_MAX. \<not> alias_match T j k" using m by (auto simp: alias_get_None)
      then show ?thesis using None False by (simp add: alias_missing)
    next
      case (Some w)
      then obtain k where k: "k < ALIAS_MAX" "alias_match S j k" by (metis alias_missing option.distinct(1))
      then show ?thesis using alias_found [OF T k(1)] alias_found [OF assms(1) k] m [OF k(1)] m2 [OF k(2)] g [OF k(1)] False by auto
    qed
  qed
qed

lemma alias_forget:
  assumes "alias_ok S"
  shows "alias_ok (alias_del name S)" and "alias_get (alias_del name S) j = (if fold_case j = fold_case name then None else alias_get S j)"
proof -
  show ok: "alias_ok (alias_del name S)"
  proof (cases "first_idx (alias_match S name) ALIAS_MAX")
    case (Some i)
    then have "i < ALIAS_MAX" by (simp add: first_idx_Some)
    then show ?thesis using assms Some by (auto simp: alias_del_def alias_ok_def nth_list_update ALIAS_VAL_LEN_def)
  qed (use assms in \<open>simp add: alias_del_def\<close>)
  show "alias_get (alias_del name S) j = (if fold_case j = fold_case name then None else alias_get S j)"
  proof (cases "first_idx (alias_match S name) ALIAS_MAX")
    case None
    then have n: "\<forall>i<ALIAS_MAX. \<not> alias_match S name i" by (simp add: first_idx_None)
    then have "fold_case j = fold_case name \<Longrightarrow> alias_get S j = None" by (simp add: alias_get_None alias_match_iff)
    then show ?thesis using None by (simp add: alias_del_def)
  next
    case (Some i)
    then have i: "i < ALIAS_MAX" "alias_match S name i" by (auto simp: first_idx_Some)
    have l: "length (g_alias S) = ALIAS_MAX" using assms by (simp add: alias_ok_def)
    have uq: "k = i" if "k < ALIAS_MAX" "alias_match S name k" for k using that i assms unfolding alias_match_iff alias_ok_def by metis
    have g: "g_alias (alias_del name S) ! k = (if k = i then ([], snd (g_alias S ! i)) else g_alias S ! k)" if "k < ALIAS_MAX" for k
      using that l by (simp add: alias_del_def Some)
    have m: "alias_match (alias_del name S) j k \<longleftrightarrow> alias_match S j k \<and> k \<noteq> i" if "k < ALIAS_MAX" for k
      using g [OF that] by (auto simp: alias_match_iff)
    show ?thesis
    proof (cases "fold_case j = fold_case name")
      case True
      then have "\<forall>k<ALIAS_MAX. \<not> alias_match (alias_del name S) j k" using m uq by (auto simp: alias_match_iff)
      then show ?thesis using True by (simp add: alias_missing)
    next
      case False
      have ni: "\<not> alias_match S j i" using i(2) False by (auto simp: alias_match_iff)
      show ?thesis
      proof (cases "alias_get S j")
        case None
        then have "\<forall>k<ALIAS_MAX. \<not> alias_match (alias_del name S) j k" using m by (auto simp: alias_get_None)
        then show ?thesis using None False by (simp add: alias_missing)
      next
        case (Some w)
        then obtain k where k: "k < ALIAS_MAX" "alias_match S j k" by (metis alias_missing option.distinct(1))
        then have "k \<noteq> i" using ni by auto
        then show ?thesis using alias_found [OF ok k(1)] alias_found [OF assms k] m [OF k(1)] k(2) g [OF k(1)] False by auto
      qed
    qed
  qed
qed

text \<open>The aliases are the keyed table of SlotStore, with forgetting.\<close>

interpretation al: slot_store_del alias_get "\<lambda>S n v. alias_set n v S" alias_ok fold_case alias_fits "take (ALIAS_VAL_LEN - 1)" "\<lambda>S n. alias_del n S"
  by unfold_locales (auto simp: alias_store alias_forget)

text \<open>The aliases refine a map under folded names: after any sequence of alias commands that found room, a name stands for the value of the newest
  one that names it in either case, its first 63 characters, and any other name for what it stood for before.\<close>

theorem aliases_are_map:
  assumes "alias_ok S" and "\<forall>(n, v)\<in>set nvs. alias_fits n" and "put_all (\<lambda>S n v. alias_set n v S) S nvs = Some T"
  shows "shell_alias_lookup name ALIAS_VAL_LEN T =
    (case latest fold_case (take (ALIAS_VAL_LEN - 1)) nvs name of Some v \<Rightarrow> Some v | None \<Rightarrow> shell_alias_lookup name ALIAS_VAL_LEN S)"
  by (rule al.get_put_all [OF assms, unfolded alias_get_def])

lemma sample_alias_ok: "alias_ok (sample_shell ks)"
  by (simp add: alias_ok_def sample_shell_def ALIAS_VAL_LEN_def)

lemma aliases_are_map_witness:
  "\<exists>T. put_all (\<lambda>S n v. alias_set n v S) (sample_shell []) [(lit ''ll'', lit ''ls -l''), (lit ''LL'', lit ''ls'')] = Some T
    \<and> shell_alias_lookup (lit ''lL'') ALIAS_VAL_LEN T = Some (lit ''ls'')"
proof -
  let ?nvs = "[(lit ''ll'', lit ''ls -l''), (lit ''LL'', lit ''ls'')]"
  have f: "\<forall>(n, v)\<in>set ?nvs. alias_fits n" by (simp add: alias_fits_def ALIAS_NAME_LEN_def)
  obtain T1 where T1: "alias_set (lit ''ll'') (lit ''ls -l'') (sample_shell []) = Some T1" "g_alias T1 = (replicate ALIAS_MAX ([], []))[0 := (lit ''ll'', lit ''ls -l'')]"
    by (simp add: alias_set_def alias_match_def sample_shell_def first_idx_def ALIAS_MAX_def ALIAS_NAME_LEN_def ALIAS_VAL_LEN_def upt_rec)
  obtain T where T: "alias_set (lit ''LL'') (lit ''ls'') T1 = Some T"
    using T1(2) by (simp add: alias_set_def alias_match_def first_idx_def ALIAS_MAX_def upt_rec tolower_def)
  have p: "put_all (\<lambda>S n v. alias_set n v S) (sample_shell []) ?nvs = Some T" using T1(1) T by simp
  have "shell_alias_lookup (lit ''lL'') ALIAS_VAL_LEN T = Some (lit ''ls'')"
    using aliases_are_map [OF sample_alias_ok f p, of "lit ''lL''"] by (simp add: fold_case_def lower8_def tolower_def ALIAS_VAL_LEN_def)
  then show ?thesis using p by blast
qed

subsection \<open>Patterns\<close>

text \<open>The meaning of a pattern: a star is any characters, a question mark any one, and another character itself in either case.\<close>

inductive fits_pattern :: "bytes \<Rightarrow> bytes \<Rightarrow> bool" where
  fits_end: "fits_pattern [] []"
| fits_star: "fits_pattern pat t \<Longrightarrow> fits_pattern (0x2A # pat) (u @ t)"
| fits_any: "fits_pattern pat t \<Longrightarrow> fits_pattern (0x3F # pat) (c # t)"
| fits_char: "p \<noteq> 0x2A \<Longrightarrow> p \<noteq> 0x3F \<Longrightarrow> char_upper p = char_upper c \<Longrightarrow> fits_pattern pat t \<Longrightarrow> fits_pattern (p # pat) (c # t)"

inductive_cases fits_NilE: "fits_pattern [] str"
inductive_cases fits_ConsE: "fits_pattern (p # pat) str"

text \<open>The matcher of find decides exactly the names that fit a pattern.\<close>

theorem wild_match_iff: "wild_match pat str \<longleftrightarrow> fits_pattern pat str"
proof (induction pat arbitrary: str)
  case Nil
  show ?case by (auto intro: fits_end elim: fits_NilE)
next
  case (Cons p pat)
  show ?case
  proof
    assume w: "wild_match (p # pat) str"
    show "fits_pattern (p # pat) str"
    proof (cases "p = 0x2A")
      case True
      then obtain k where "wild_match pat (drop k str)" using w by (auto simp: list_ex_iff simp del: upt_Suc)
      then have "fits_pattern pat (drop k str)" using Cons.IH by blast
      from fits_star [OF this, of "take k str"] show ?thesis using True by simp
    next
      case False
      then obtain c s where c: "str = c # s" "p = 0x3F \<or> char_upper p = char_upper c" "wild_match pat s" using w by (auto split: list.splits)
      then have "fits_pattern pat s" using Cons.IH by blast
      then show ?thesis using c(1,2) False by (cases "p = 0x3F") (auto intro: fits_any fits_char)
    qed
  next
    assume "fits_pattern (p # pat) str"
    then consider (star) u t where "p = 0x2A" "str = u @ t" "fits_pattern pat t"
      | (one) c t where "p \<noteq> 0x2A" "str = c # t" "p = 0x3F \<or> char_upper p = char_upper c" "fits_pattern pat t"
      by (auto elim: fits_ConsE)
    then show "wild_match (p # pat) str"
    proof cases
      case star
      then have "wild_match pat (drop (length u) str)" "length u \<le> length str" using Cons.IH by simp_all
      then show ?thesis using star(1) by (auto simp: list_ex_iff simp del: upt_Suc intro!: bexI [of _ "length u"])
    next
      case one
      then show ?thesis using Cons.IH by auto
    qed
  qed
qed

subsection \<open>grep\<close>

lemma grep_say: "\<exists>S1. say ''%4d: %s\<newline>'' [a_int i, a_str s] S = Some S1"
  by (simp add: say_def kprintf_def vformat_def directive_def take_flag_def convert_def word_arg_def str_arg_def Let_def)

lemma grep_row:
  assumes "10 \<notin> set t" and "13 \<notin> set t" and "length line + length t \<le> 255"
  shows "grep_bytes needle (t @ p) (line, no, hits, S) = grep_bytes needle p (line @ t, no, hits, S)"
  using assms by (induction t arbitrary: line) (auto simp: grep_char_def)

text \<open>C38: What grep counts: of a file whose lines have at most 255 characters and no carriage return, the lines that
  hold the text in either case, each once. The characters behind the last newline are a line that is never looked
  at.\<close>

theorem grep_counts_lines:
  assumes "\<forall>t\<in>set (rest # ts). 10 \<notin> set t \<and> 13 \<notin> set t \<and> length t \<le> 255"
  shows "\<exists>S1. grep_bytes needle (concat (map (\<lambda>t. t @ [10]) ts) @ rest) ([], no, hits, S)
    = Some (rest, no + int (length ts), hits + int (length (filter (line_has needle) ts)), S1)"
  using assms
proof (induction ts arbitrary: no hits S)
  case Nil
  then show ?case using grep_row [of rest "[]" needle "[]" no hits S] by simp
next
  case (Cons t ts)
  let ?p = "concat (map (\<lambda>t. t @ [10]) ts) @ rest"
  have t: "grep_bytes needle (t @ 10 # ?p) ([], no, hits, S) = grep_bytes needle (10 # ?p) (t, no, hits, S)"
    using grep_row [of t "[]" needle "10 # ?p" no hits S] Cons.prems by simp
  show ?case
  proof (cases "line_has needle t")
    case True
    obtain S1 where S1: "say ''%4d: %s\<newline>'' [a_int no, a_str t] S = Some S1" using grep_say by blast
    then have "grep_bytes needle (10 # ?p) (t, no, hits, S) = grep_bytes needle ?p ([], no + 1, hits + 1, S1)"
      using True by (simp add: grep_char_def)
    then show ?thesis using t Cons.IH [of "no + 1" "hits + 1" S1] Cons.prems True by (auto simp: algebra_simps)
  next
    case False
    then have "grep_bytes needle (10 # ?p) (t, no, hits, S) = grep_bytes needle ?p ([], no + 1, hits, S)" by (simp add: grep_char_def)
    then show ?thesis using t Cons.IH [of "no + 1" hits S] Cons.prems False by (auto simp: algebra_simps)
  qed
qed

lemma grep_counts_lines_witness:
  "\<exists>S1. grep_bytes (lit ''ab'') (lit ''xAb'' @ [10] @ lit ''x'' @ [10] @ lit ''ab'') ([], 1, 0, sample_shell []) = Some (lit ''ab'', 3, 1, S1)"
proof -
  have "line_has (lit ''ab'') (lit ''xAb'')" "\<not> line_has (lit ''ab'') (lit ''x'')"
    by (simp_all add: line_has_def char_upper_def toupper_def list_ex_iff)
  then show ?thesis using grep_counts_lines [of "lit ''ab''" "[lit ''xAb'', lit ''x'']" "lit ''ab''" 1 0 "sample_shell []"] by simp
qed

subsection \<open>Moving a file\<close>

lemma on_file_code:
  assumes "on_file r fmt name body S = Some (rc, S1)" and "\<And>h F S rc S1. body h F S = Some (rc, S1) \<Longrightarrow> rc = r"
  shows "rc = r"
  using assms(1)
proof -
  obtain F h where "fs_open (sh_fs S) name = Some (F, h)" using assms(1) by (auto simp: on_file_def split: Option.bind_splits)
  then show ?thesis using assms by (auto simp: on_file_def answer_def split: if_splits)
qed

text \<open>A copy has the result 0 whatever happened.\<close>

lemma cpr_result: "do_cpr args S = Some (rc, S1) \<Longrightarrow> rc = 0"
  unfolding do_cpr_def
  by (auto simp: usage_def answer_def Let_def split: list.splits Option.bind_splits if_splits prod.splits elim!: on_file_code)

text \<open>A move that cannot rename deletes its source, whether the copy it tried was made or not.\<close>

lemma mv_deletes_anyway:
  assumes "fs_rename (sh_fs S) a b = Some (F, r)" and "r \<noteq> 0" and "do_cpr [a, b] (S\<lparr>sh_fs := F\<rparr>) = Some (rc, S1)" and "fs_unlink (sh_fs S1) a = Some (F2, d)"
  shows "do_mv [a, b] S = Some (0, S1\<lparr>sh_fs := F2\<rparr>)"
  using assms cpr_result [OF assms(3)] by (simp add: do_mv_def)

subsection \<open>From the keys to the command\<close>

definition key_char :: "u8 \<Rightarrow> bool" where
  "key_char c \<longleftrightarrow> 0x20 \<le> uint c \<and> uint c \<le> 0x7E"

lemma line_loop_types:
  assumes "\<forall>c\<in>set l. key_char c" and "length b + length l < LINE_MAX"
  shows "line_loop (map uint l @ 10 # ks) prompt b i saved S = Some (b @ l, S\<lparr>sh_out := sh_out S @ l @ [10], sh_keys := ks\<rparr>)"
  using assms
proof (induction l arbitrary: b i S)
  case Nil
  then show ?case by (simp add: kputs_def)
next
  case (Cons c l)
  have k: "key_char c" "\<not> LINE_MAX \<le> length b + 1" using Cons.prems by auto
  have "line_loop (map uint (c # l) @ 10 # ks) prompt b i saved S = line_loop (map uint l @ 10 # ks) prompt (b @ [c]) (-1) saved (kputs [c] S)"
    using k by (auto simp: key_char_def KB_UP_def KB_DOWN_def)
  then show ?case using Cons.IH [of "b @ [c]" "-1" "kputs [c] S"] Cons.prems by (simp add: kputs_def)
qed

lemma prompt_some: "\<exists>p. shell_prompt_str 64 S = Some p"
proof -
  have "\<exists>r. ksnprintf (replicate 64 0) 64 (lit ''Zenbite> '') [] = Some r"
    by (simp add: ksnprintf_def vformat_def Let_def)
  moreover have "\<exists>r. ksnprintf (replicate 64 0) 64 (lit ''%c:%s> '') [a_chr d, a_str w] = Some r" for d w
    by (simp add: ksnprintf_def vformat_def directive_def take_flag_def convert_def word_arg_def str_arg_def Let_def)
  ultimately show ?thesis by (auto simp: shell_prompt_str_def format_str_def Let_def)
qed

text \<open>C17: From the keys to the command: when the words of a say command that is not an alias are typed, quoted or plain, and then Enter, one turn of
  the shell puts the prompt, the line as it was typed and its words joined by single blanks on the console, keeps the line in the history and leaves
  the keys behind it unread.
\<close>

theorem say_end_to_end:
  assumes "\<forall>w\<in>set ws. word_ok w" and "length ws < ARGV_MAX" and "l = join_words (map typed_word ((False, lit ''say'') # ws))"
    and "\<forall>c\<in>set l. key_char c" and "length l < LINE_MAX" and "sh_keys S = map uint l @ 10 # ks"
    and "shell_alias_lookup (lit ''say'') ALIAS_VAL_LEN S = None" and "length (g_hist S) = HIST_MAX"
  shows "\<exists>S1 p. shell_turn M S = Some S1 \<and> sh_out S1 = sh_out S @ p @ l @ [10] @ join_words (map snd ws) @ [10] \<and> sh_keys S1 = ks
    \<and> sh_fs S1 = sh_fs S \<and> (length l < HIST_LEN \<longrightarrow> shell_history_get 0 S1 = Some l)"
proof -
  obtain p where p: "shell_prompt_str 64 S = Some p" using prompt_some by blast
  let ?S1 = "S\<lparr>sh_out := sh_out S @ p @ l @ [10], sh_keys := ks, kb_intr := False\<rparr>"
  let ?S2 = "shell_history_add l ?S1"
  have l: "l = lit ''say'' @ (if ws = [] then [] else 0x20 # join_words (map typed_word ws))" using assms(3) by (simp add: typed_word_def)
  have r: "read_line p ((kputs p S)\<lparr>kb_intr := False\<rparr>) = Some (l, ?S1)"
    using line_loop_types [OF assms(4), of "[]" ks p "-1" "[]" "(kputs p S)\<lparr>kb_intr := False\<rparr>"] assms(5,6) by (simp add: read_line_def kputs_def)
  have h: "sh_out ?S2 = sh_out ?S1" "sh_keys ?S2 = ks" "sh_fs ?S2 = sh_fs S" "g_alias ?S2 = g_alias S" "kb_intr ?S2 = False"
    by (simp_all add: shell_history_add_def)
  have al: "shell_alias_lookup (lit ''say'') 64 ?S2 = None"
    using assms(7) h(4) by (simp add: shell_alias_lookup_def first_idx_None alias_match_def ALIAS_VAL_LEN_def)
  have "takeWhile (\<lambda>c. \<not> is_space c) l = lit ''say''" unfolding l by (simp add: is_space_def isspace_def)
  moreover have "take (length (lit ''say'')) l = lit ''say''" unfolding l by simp
  moreover have "take (LINE_MAX - 1) l = l" using assms(5) by (intro take_all) linarith
  ultimately have e: "expand_alias l LINE_MAX ?S2 = l" using al by (simp add: expand_alias_def)
  have w: "tokenize_line ARGV_MAX l = lit ''say'' # map snd ws"
    using tokenize_join_words [of "(False, lit ''say'') # ws" ARGV_MAX] assms(1,2,3) by (simp add: word_ok_def is_space_def isspace_def)
  have c: "find_command (lit ''say'') = Some C_SAY" by (simp add: find_command_def commands_def tolower_def)
  let ?S3 = "kputs (join_words (map snd ws) @ [10]) ?S2"
  have "shell_run_line M l ?S2 = Some ?S3"
    by (simp add: shell_run_line_def e w shell_dispatch_def c [simplified] run_command_def do_say_def)
  moreover have "l \<noteq> []" unfolding l by simp
  ultimately have t: "shell_turn M S = Some ?S3" using p r e w h(5) by (simp add: shell_turn_def kputs_def Let_def)
  have "shell_history_get 0 ?S3 = Some l" if "length l < HIST_LEN"
    using that \<open>l \<noteq> []\<close> assms(8) newest_line [of l ?S1] by (simp add: history_kputs)
  then show ?thesis using t h by (intro exI [of _ ?S3] exI [of _ p]) (simp add: kputs_def)
qed

definition sample_machine :: "bytes list machine" where
  "sample_machine = \<lparr>m_probes = [], m_blob = [], m_other = (\<lambda>c args S. Some (0, S)), m_run = (\<lambda>e name S. Some (0, S))\<rparr>"

lemma say_end_to_end_witness:
  "\<exists>S1 p. shell_turn sample_machine (sample_shell (map uint ((lit ''say hi '' @ [0x22] @ lit ''a b'' @ [0x22])) @ 10 # [0x71])) = Some S1
    \<and> sh_out S1 = p @ (lit ''say hi '' @ [0x22] @ lit ''a b'' @ [0x22]) @ [10] @ lit ''hi a b'' @ [10] \<and> sh_keys S1 = [0x71] \<and> shell_history_get 0 S1 = Some ((lit ''say hi '' @ [0x22] @ lit ''a b'' @ [0x22]))"
proof -
  let ?ws = "[(False, lit ''hi''), (True, lit ''a b'')]" and ?l = "(lit ''say hi '' @ [0x22] @ lit ''a b'' @ [0x22])"
  let ?S = "sample_shell (map uint ?l @ 10 # [0x71])"
  have f: "sh_out ?S = []" "sh_keys ?S = map uint ?l @ 10 # [0x71]" "length (g_hist ?S) = HIST_MAX" by (simp_all add: sample_shell_def)
  have a: "shell_alias_lookup (lit ''say'') ALIAS_VAL_LEN ?S = None"
    by (simp add: shell_alias_lookup_def first_idx_None alias_match_def sample_shell_def)
  have w: "\<forall>w\<in>set ?ws. word_ok w" by (simp add: word_ok_def is_space_def isspace_def)
  have l: "?l = join_words (map typed_word ((False, lit ''say'') # ?ws))" by (simp add: typed_word_def)
  have k: "\<forall>c\<in>set ?l. key_char c" by (simp add: key_char_def)
  have n: "length ?ws < ARGV_MAX" "length ?l < LINE_MAX" "length ?l < HIST_LEN" by (simp_all add: ARGV_MAX_def LINE_MAX_def HIST_LEN_def)
  obtain S1 p where "shell_turn sample_machine ?S = Some S1" "sh_out S1 = sh_out ?S @ p @ ?l @ [10] @ join_words (map snd ?ws) @ [10]" "sh_keys S1 = [0x71]"
    "length ?l < HIST_LEN \<longrightarrow> shell_history_get 0 S1 = Some ?l"
    using say_end_to_end [OF w n(1) l k n(2) f(2) a f(3), of sample_machine] by blast
  then show ?thesis using n(3) f(1) by (intro exI [of _ S1] exI [of _ p]) simp
qed

end
