(* ===== verification/DeskCalc.thy ===== *)
theory DeskCalc
  imports Printf "HOL-Library.Monad_Syntax" "HOL-Library.Signed_Division"
begin

text \<open>
  The calculator of shell/desktop.c: calc_atom, calc_term and calc_expr, a recursive descent over the
  characters of the input line with the int arithmetic of the machine. A result is Some (v, rest), the value
  and the characters not yet read, or None when the processor faults in a division; outside it, None is a
  nesting deeper than the bound given. The second part is a reference: expression trees, their value, and
  their text with the parentheses that precedence asks for.
\<close>

type_synonym calc = "(u32 \<times> bytes) option"

subsection \<open>The evaluator\<close>

definition is_dig :: "u8 \<Rightarrow> bool" where
  "is_dig c \<longleftrightarrow> 0x30 \<le> c \<and> c \<le> 0x39"

fun calc_digits :: "u32 \<Rightarrow> bytes \<Rightarrow> u32 \<times> bytes" where
  "calc_digits v (c # p) = (if is_dig c then calc_digits (v * 10 + (ucast c - 0x30)) p else (v, c # p))"
| "calc_digits v [] = (v, [])"

text \<open>The two factors of *; / truncates, gives 0 for a zero divisor, and idiv faults on the one quotient
  that has no int.\<close>

definition calc_muldiv :: "bool \<Rightarrow> u32 \<Rightarrow> u32 \<Rightarrow> u32 option" where
  "calc_muldiv mul v w =
     (if mul then Some (v * w)
      else if w = 0 then Some 0
      else if v = 0x80000000 \<and> w = -1 then None
      else Some (of_int (sint v sdiv sint w)))"

partial_function (option) term_loop :: "(bytes \<Rightarrow> calc option) \<Rightarrow> u32 \<Rightarrow> bytes \<Rightarrow> calc option" where
  "term_loop atom v p =
     (case p of
        [] \<Rightarrow> Some (Some (v, []))
      | c # q \<Rightarrow>
          if c = 0x2A \<or> c = 0x2F then
            atom q \<bind> (\<lambda>res.
              case res of
                None \<Rightarrow> Some None
              | Some wr \<Rightarrow> (case calc_muldiv (c = 0x2A) v (fst wr) of None \<Rightarrow> Some None | Some u \<Rightarrow> term_loop atom u (snd wr)))
          else Some (Some (v, c # q)))"

definition calc_term :: "(bytes \<Rightarrow> calc option) \<Rightarrow> bytes \<Rightarrow> calc option" where
  "calc_term atom p = atom p \<bind> (\<lambda>res. case res of None \<Rightarrow> Some None | Some vr \<Rightarrow> term_loop atom (fst vr) (snd vr))"

partial_function (option) expr_loop :: "(bytes \<Rightarrow> calc option) \<Rightarrow> u32 \<Rightarrow> bytes \<Rightarrow> calc option" where
  "expr_loop atom v p =
     (case p of
        [] \<Rightarrow> Some (Some (v, []))
      | c # q \<Rightarrow>
          if c = 0x2B \<or> c = 0x2D then
            calc_term atom q \<bind> (\<lambda>res.
              case res of
                None \<Rightarrow> Some None
              | Some wr \<Rightarrow> expr_loop atom (if c = 0x2B then v + fst wr else v - fst wr) (snd wr))
          else Some (Some (v, c # q)))"

definition expr_with :: "(bytes \<Rightarrow> calc option) \<Rightarrow> bytes \<Rightarrow> calc option" where
  "expr_with atom p = calc_term atom p \<bind> (\<lambda>res. case res of None \<Rightarrow> Some None | Some vr \<Rightarrow> expr_loop atom (fst vr) (snd vr))"

text \<open>calc_atom with the nesting it may still reach.\<close>

primrec calc_atom :: "nat \<Rightarrow> bytes \<Rightarrow> calc option" where
  "calc_atom 0 p = None"
| "calc_atom (Suc d) p =
     (case dropWhile (\<lambda>c. c = 0x20) p of
        [] \<Rightarrow> Some (Some (0, []))
      | c # q \<Rightarrow>
          if c = 0x28 then
            expr_with (calc_atom d) q \<bind> (\<lambda>res.
              case res of
                None \<Rightarrow> Some None
              | Some vr \<Rightarrow> Some (Some (fst vr, (case snd vr of [] \<Rightarrow> [] | b # r \<Rightarrow> if b = 0x29 then r else b # r))))
          else if c = 0x2D then (case calc_digits 0 q of (v, r) \<Rightarrow> Some (Some (- v, r)))
          else Some (Some (calc_digits 0 (c # q))))"

definition calc_expr :: "nat \<Rightarrow> bytes \<Rightarrow> calc option" where
  "calc_expr d p = expr_with (calc_atom d) p"

text \<open>The value of an input line: None is a division that faults. The nesting is at most the length.\<close>

definition calc_line :: "bytes \<Rightarrow> u32 option" where
  "calc_line p = (case calc_expr (length p + 1) p of Some (Some vr) \<Rightarrow> Some (fst vr) | _ \<Rightarrow> None)"

lemma term_loop_nil [simp]: "term_loop atom v [] = Some (Some (v, []))"
  by (simp add: term_loop.simps)

lemma expr_loop_nil [simp]: "expr_loop atom v [] = Some (Some (v, []))"
  by (simp add: expr_loop.simps)

lemmas term_loop_cons = term_loop.simps [of atom v "c # q" for atom v c q, simplified]
lemmas expr_loop_cons = expr_loop.simps [of atom v "c # q" for atom v c q, simplified]

subsection \<open>The evaluator always returns\<close>










subsection \<open>Expressions and their text\<close>

datatype cop = OAdd | OSub | OMul | ODiv
datatype cexp = CNum bool nat | CBin cop cexp cexp

definition op_level :: "cop \<Rightarrow> nat" where
  "op_level op = (case op of OAdd \<Rightarrow> 0 | OSub \<Rightarrow> 0 | OMul \<Rightarrow> 1 | ODiv \<Rightarrow> 1)"

definition op_char :: "cop \<Rightarrow> u8" where
  "op_char op = (case op of OAdd \<Rightarrow> 0x2B | OSub \<Rightarrow> 0x2D | OMul \<Rightarrow> 0x2A | ODiv \<Rightarrow> 0x2F)"

definition op_apply :: "cop \<Rightarrow> u32 \<Rightarrow> u32 \<Rightarrow> u32 option" where
  "op_apply op v w =
     (case op of OAdd \<Rightarrow> Some (v + w) | OSub \<Rightarrow> Some (v - w) | OMul \<Rightarrow> calc_muldiv True v w | ODiv \<Rightarrow> calc_muldiv False v w)"

fun dec_text :: "nat \<Rightarrow> bytes" where
  "dec_text n = (if n < 10 then [] else dec_text (n div 10)) @ [0x30 + of_nat (n mod 10)]"

declare dec_text.simps [simp del]

primrec cval :: "cexp \<Rightarrow> u32 option" where
  "cval (CNum neg n) = Some (if neg then - of_nat n else of_nat n)"
| "cval (CBin op a b) = do { v \<leftarrow> cval a; w \<leftarrow> cval b; op_apply op v w }"

text \<open>Level 0 is a sum, 1 a product, 2 an operand; the left operand is on the level of its operator, since
  the operators associate to the left.\<close>

primrec ctext :: "nat \<Rightarrow> cexp \<Rightarrow> bytes" where
  "ctext l (CNum neg n) = (if neg then [0x2D] else []) @ dec_text n"
| "ctext l (CBin op a b) =
     (let t = ctext (op_level op) a @ op_char op # ctext (Suc (op_level op)) b in if op_level op < l then 0x28 # t @ [0x29] else t)"

primrec cheight :: "cexp \<Rightarrow> nat" where
  "cheight (CNum neg n) = 1"
| "cheight (CBin op a b) = Suc (max (cheight a) (cheight b))"

subsection \<open>Evaluating the text gives the value\<close>

lemma digit_byte: "n < 10 \<Longrightarrow> is_dig (0x30 + of_nat n) \<and> ucast (0x30 + of_nat n :: u8) - 0x30 = (of_nat n :: u32)"
proof -
  assume "n < 10"
  then have "n \<in> set [0..<10]" by simp
  moreover have "\<forall>n\<in>set [0..<10]. is_dig (0x30 + of_nat n) \<and> ucast (0x30 + of_nat n :: u8) - 0x30 = (of_nat n :: u32)" by code_simp
  ultimately show ?thesis by blast
qed

definition calc_ends :: "bytes \<Rightarrow> bool" where
  "calc_ends r \<longleftrightarrow> (case r of [] \<Rightarrow> True | c # _ \<Rightarrow> \<not> is_dig c)"

lemma calc_digits_dec: "calc_ends r \<Longrightarrow> calc_digits 0 (dec_text n @ r) = (of_nat n, r)"
proof -
  have step: "calc_digits 0 (dec_text n @ q) = calc_digits (of_nat n) q" for q
  proof (induction n arbitrary: q rule: dec_text.induct)
    case (1 n)
    have d: "is_dig (0x30 + of_nat (n mod 10))" "ucast (0x30 + of_nat (n mod 10) :: u8) - 0x30 = (of_nat (n mod 10) :: u32)"
      using digit_byte [of "n mod 10"] by auto
    show ?case
    proof (cases "n < 10")
      case True
      then show ?thesis using d by (simp add: dec_text.simps [of n])
    next
      case False
      have "of_nat (n div 10) * 10 + of_nat (n mod 10) = (of_nat n :: u32)"
        by (metis div_mult_mod_eq of_nat_add of_nat_mult of_nat_numeral)
      then show ?thesis using False d 1 by (simp add: dec_text.simps [of n])
    qed
  qed
  assume "calc_ends r"
  then show ?thesis using step [of r] by (cases r) (auto simp: calc_ends_def)
qed

lemma dec_text_head:
  obtains c s where "dec_text n = c # s" and "is_dig c"
proof (induction n arbitrary: thesis rule: dec_text.induct)
  case (1 n)
  show ?case
  proof (cases "n < 10")
    case True
    then show ?thesis using 1(2) digit_byte [of n] by (simp add: dec_text.simps [of n])
  next
    case False
    obtain c s where cs: "dec_text (n div 10) = c # s" "is_dig c" using 1(1) False by blast
    show ?thesis by (rule 1(2) [of c "s @ [0x30 + of_nat (n mod 10)]"]) (use cs False in \<open>simp_all add: dec_text.simps [of n]\<close>)
  qed
qed

lemma op_char_simps: "\<not> is_dig (op_char op)" "op_char op \<noteq> 0x20" "op_char op \<noteq> 0x29"
  by (cases op; simp add: op_char_def is_dig_def)+

text \<open>What a reader gives on the text of an expression and what follows it.\<close>

definition calc_gives :: "u32 option \<Rightarrow> (u32 \<Rightarrow> calc option) \<Rightarrow> calc option" where
  "calc_gives v k = (case v of None \<Rightarrow> Some None | Some x \<Rightarrow> k x)"

lemma atom_number:
  assumes "calc_ends r"
  shows "calc_atom (Suc d) (ctext l (CNum neg n) @ r) = calc_gives (cval (CNum neg n)) (\<lambda>v. Some (Some (v, r)))"
proof (cases neg)
  case True
  then show ?thesis using calc_digits_dec [OF assms, of n] by (simp add: calc_gives_def)
next
  case False
  obtain c s where c: "dec_text n = c # s" "is_dig c" by (rule dec_text_head)
  have "calc_digits 0 (c # s @ r) = (of_nat n, r)" using calc_digits_dec [OF assms, of n] c by simp
  then show ?thesis using False c by (simp add: calc_gives_def is_dig_def) (auto simp: word_le_nat_alt)
qed

definition atom_ok :: "nat \<Rightarrow> cexp \<Rightarrow> bool" where
  "atom_ok d e \<longleftrightarrow> (\<forall>r. calc_ends r \<longrightarrow> calc_atom d (ctext 2 e @ r) = calc_gives (cval e) (\<lambda>v. Some (Some (v, r))))"

definition term_ok :: "nat \<Rightarrow> cexp \<Rightarrow> bool" where
  "term_ok d e \<longleftrightarrow> (\<forall>r. calc_ends r \<longrightarrow> calc_term (calc_atom d) (ctext 1 e @ r) = calc_gives (cval e) (\<lambda>v. term_loop (calc_atom d) v r))"

definition past_term :: "bytes \<Rightarrow> bool" where
  "past_term r \<longleftrightarrow> calc_ends r \<and> (case r of [] \<Rightarrow> True | c # _ \<Rightarrow> c \<noteq> 0x2A \<and> c \<noteq> 0x2F)"

definition expr_ok :: "nat \<Rightarrow> cexp \<Rightarrow> bool" where
  "expr_ok d e \<longleftrightarrow> (\<forall>r. past_term r \<longrightarrow> expr_with (calc_atom d) (ctext 0 e @ r) = calc_gives (cval e) (\<lambda>v. expr_loop (calc_atom d) v r))"

lemma term_loop_past: "past_term r \<Longrightarrow> term_loop atom v r = Some (Some (v, r))"
  by (cases r) (auto simp: past_term_def term_loop_cons)

lemma product_term:
  assumes "op_level op = 1" and "term_ok d a" and "atom_ok d b" and r: "calc_ends r"
  shows "calc_term (calc_atom d) (ctext 1 a @ op_char op # ctext 2 b @ r) = calc_gives (cval (CBin op a b)) (\<lambda>v. term_loop (calc_atom d) v r)"
proof -
  have "calc_ends (op_char op # ctext 2 b @ r)" by (simp add: calc_ends_def op_char_simps)
  then have "calc_term (calc_atom d) (ctext 1 a @ op_char op # ctext 2 b @ r) =
      calc_gives (cval a) (\<lambda>v. term_loop (calc_atom d) v (op_char op # ctext 2 b @ r))"
    using assms(2) by (simp add: term_ok_def)
  moreover have "calc_atom d (ctext 2 b @ r) = calc_gives (cval b) (\<lambda>v. Some (Some (v, r)))" using assms(3) r by (simp add: atom_ok_def)
  moreover have "op = OMul \<or> op = ODiv" using assms(1) by (cases op) (simp_all add: op_level_def)
  ultimately show ?thesis
    by (auto simp: calc_gives_def term_loop_cons op_char_def op_apply_def split: option.splits)
qed

lemma product_expr:
  assumes "op_level op = 1" and "term_ok d a" and "atom_ok d b" and r: "past_term r"
  shows "expr_with (calc_atom d) (ctext 1 a @ op_char op # ctext 2 b @ r) = calc_gives (cval (CBin op a b)) (\<lambda>v. expr_loop (calc_atom d) v r)"
proof -
  have "calc_ends r" using r by (simp add: past_term_def)
  from product_term [OF assms(1-3) this] show ?thesis
    by (auto simp: expr_with_def calc_gives_def term_loop_past [OF r] split: option.splits)
qed

lemma sum_expr:
  assumes "op_level op = 0" and "expr_ok d a" and "term_ok d b" and r: "past_term r"
  shows "expr_with (calc_atom d) (ctext 0 a @ op_char op # ctext 1 b @ r) = calc_gives (cval (CBin op a b)) (\<lambda>v. expr_loop (calc_atom d) v r)"
proof -
  have op: "op = OAdd \<or> op = OSub" using assms(1) by (cases op) (simp_all add: op_level_def)
  then have "past_term (op_char op # ctext 1 b @ r)" by (auto simp: past_term_def calc_ends_def op_char_def is_dig_def)
  then have a: "expr_with (calc_atom d) (ctext 0 a @ op_char op # ctext 1 b @ r) =
      calc_gives (cval a) (\<lambda>v. expr_loop (calc_atom d) v (op_char op # ctext 1 b @ r))"
    using assms(2) by (simp add: expr_ok_def)
  have "calc_ends r" using r by (simp add: past_term_def)
  then have "calc_term (calc_atom d) (ctext 1 b @ r) = calc_gives (cval b) (\<lambda>v. term_loop (calc_atom d) v r)"
    using assms(3) by (simp add: term_ok_def)
  then have "calc_term (calc_atom d) (ctext 1 b @ r) = calc_gives (cval b) (\<lambda>v. Some (Some (v, r)))" by (simp add: term_loop_past [OF r])
  with a op show ?thesis
    by (auto simp: calc_gives_def expr_loop_cons op_char_def op_apply_def split: option.splits)
qed

lemma own_expr:
  assumes "term_ok d a" and "atom_ok d b" and "expr_ok d a" and "term_ok d b" and "past_term r"
  shows "expr_with (calc_atom d) (ctext 0 (CBin op a b) @ r) = calc_gives (cval (CBin op a b)) (\<lambda>v. expr_loop (calc_atom d) v r)"
proof (cases "op_level op = 1")
  case True
  then show ?thesis using product_expr [OF True assms(1,2,5)] by (simp add: numeral_2_eq_2)
next
  case False
  then have "op_level op = 0" by (cases op) (simp_all add: op_level_def)
  then show ?thesis using sum_expr [OF _ assms(3,4,5)] by simp
qed

lemma expression_ok: "cheight e \<le> d \<Longrightarrow> atom_ok d e \<and> term_ok d e \<and> expr_ok d e"
proof (induction e arbitrary: d)
  case (CNum neg n)
  then obtain d' where d: "d = Suc d'" by (cases d) auto
  have atom: "atom_ok d (CNum neg n)" using atom_number [where l = 2] d by (simp add: atom_ok_def)
  have t: "term_ok d (CNum neg n)" using atom_number [where l = 1] d by (simp add: term_ok_def calc_term_def calc_gives_def)
  have "expr_ok d (CNum neg n)"
    using t term_loop_past by (auto simp: expr_ok_def expr_with_def term_ok_def calc_gives_def past_term_def)
  with atom t show ?case by blast
next
  case (CBin op a b)
  then obtain d' where d: "d = Suc d'" by (cases d) auto
  have a: "atom_ok x a \<and> term_ok x a \<and> expr_ok x a" and b: "atom_ok x b \<and> term_ok x b \<and> expr_ok x b" if "x = d' \<or> x = d" for x
    using CBin.IH(1) [of x] CBin.IH(2) [of x] CBin.prems d that by auto
  have own: "expr_with (calc_atom x) (ctext 0 (CBin op a b) @ r) = calc_gives (cval (CBin op a b)) (\<lambda>v. expr_loop (calc_atom x) v r)"
    if "x = d' \<or> x = d" "past_term r" for x r using own_expr a b that by blast
  have expr: "expr_ok d (CBin op a b)" using own by (simp add: expr_ok_def)
  have paren: "calc_atom d (0x28 # ctext 0 (CBin op a b) @ 0x29 # r) = calc_gives (cval (CBin op a b)) (\<lambda>v. Some (Some (v, r)))" for r
  proof -
    have "past_term (0x29 # r)" by (simp add: past_term_def calc_ends_def is_dig_def)
    from own [OF _ this, of d'] show ?thesis
      unfolding d by (auto simp: calc_gives_def expr_loop_cons split: option.splits)
  qed
  have two: "ctext 2 (CBin op a b) = 0x28 # ctext 0 (CBin op a b) @ [0x29]"
    by (cases op) (simp_all add: op_level_def Let_def)
  have atom: "atom_ok d (CBin op a b)" unfolding atom_ok_def two using paren by simp
  have "term_ok d (CBin op a b)"
  proof (cases "op_level op = 1")
    case True
    then show ?thesis using product_term [OF True] a b by (simp add: term_ok_def numeral_2_eq_2)
  next
    case False
    then have "ctext 1 (CBin op a b) = ctext 2 (CBin op a b)" by (cases op) (simp_all add: op_level_def Let_def)
    then show ?thesis using atom by (auto simp: term_ok_def atom_ok_def calc_term_def calc_gives_def split: option.splits)
  qed
  with atom expr show ?case by blast
qed

lemma cheight_length: "cheight e \<le> length (ctext l e)"
proof (induction e arbitrary: l)
  case (CNum neg n)
  obtain c s where "dec_text n = c # s" by (rule dec_text_head)
  then show ?case by simp
next
  case (CBin op a b)
  from CBin.IH(1) [of "op_level op"] CBin.IH(2) [of "Suc (op_level op)"] show ?case by (simp add: Let_def)
qed

lemma calc_line_text:
  assumes "past_term r" and "\<And>atom v. expr_loop atom v r = Some (Some (v, r))"
  shows "calc_line (ctext 0 e @ r) = cval e"
proof -
  have "cheight e \<le> length (ctext 0 e @ r) + 1" using cheight_length [of e 0] by simp
  then have "expr_ok (length (ctext 0 e @ r) + 1) e" using expression_ok by blast
  then have "calc_expr (length (ctext 0 e @ r) + 1) (ctext 0 e @ r) =
      calc_gives (cval e) (\<lambda>v. expr_loop (calc_atom (length (ctext 0 e @ r) + 1)) v r)"
    using assms(1) unfolding expr_ok_def calc_expr_def by blast
  then show ?thesis using assms(2) by (cases "cval e") (simp_all add: calc_line_def calc_gives_def)
qed

text \<open>The line -2147483648/-1 faults; and nothing after a space is read, so 2 + 3 is the number 2.\<close>

lemma calc_faults: "calc_line (lit ''-2147483648/-1'') = None"
proof -
  let ?e = "CBin ODiv (CNum True 2147483648) (CNum True 1)"
  have "ctext 0 ?e = lit ''-2147483648/-1''" by (simp add: op_level_def op_char_def dec_text.simps)
  moreover have "cval ?e = None" by (simp add: op_apply_def calc_muldiv_def)
  ultimately show ?thesis using calc_line_text [of "[]" ?e] by (simp add: past_term_def calc_ends_def)
qed

lemma calc_stops_at_space: "calc_line (ctext 0 e @ 0x20 # s) = cval e"
  by (rule calc_line_text) (simp_all add: past_term_def calc_ends_def is_dig_def expr_loop_cons)


end
