(* ===== verification/DeskText.thy ===== *)
theory DeskText
  imports LibC "HOL-Library.Monad_Syntax" "HOL-Library.Signed_Division"
begin

text \<open>
  The text routines of shell/desktop.c: html_render, which turns a page into text, build_google_url, which
  turns a query into a URL, and the calendar's month_days and dow_first. A page is its bytes; the position in it is
  the list of the bytes not yet read. A query is its characters up to the terminator.
\<close>

subsection \<open>A page as text\<close>

record html =
  in_tag :: bool
  in_script :: bool
  in_style :: bool
  last_space :: bool
  h_out :: bytes

definition h_emit :: "u8 \<Rightarrow> bool \<Rightarrow> html \<Rightarrow> html" where
  "h_emit c blank st = st\<lparr>h_out := h_out st @ [c], last_space := blank\<rparr>"

definition lower_byte :: "u8 \<Rightarrow> u8" where
  "lower_byte c = (if 0x41 \<le> c \<and> c \<le> 0x5A then c + 32 else c)"

definition tag_char :: "u8 \<Rightarrow> bool" where
  "tag_char c \<longleftrightarrow> 0x61 \<le> c \<and> c \<le> 0x7A \<or> 0x41 \<le> c \<and> c \<le> 0x5A \<or> 0x30 \<le> c \<and> c \<le> 0x39"

definition block_tags :: "string list" where
  "block_tags = [''br'', ''p'', ''div'', ''li'', ''tr'', ''h1'', ''h2'', ''h3'', ''h4'', ''ul'', ''ol'', ''hr'', ''title'', ''header'',
     ''section'', ''article'', ''nav'', ''footer'', ''main'', ''blockquote'']"

definition html_ents :: "(string \<times> u8) list" where
  "html_ents = [(''amp;'', 0x26), (''lt;'', 0x3C), (''gt;'', 0x3E), (''quot;'', 0x22), (''apos;'', 0x27), (''nbsp;'', 0x20),
     (''mdash;'', 0x2D), (''ndash;'', 0x2D), (''hellip;'', 0x2E), (''copy;'', 0x63), (''reg;'', 0x72)]"

text \<open>The tag after an opening bracket: whether it closes, and its name in lower case, at most eleven characters.\<close>

definition html_tag :: "bytes \<Rightarrow> bool \<times> bytes" where
  "html_tag p =
     (let q = dropWhile (\<lambda>c. c = 0x20) p;
          closing = (case q of [] \<Rightarrow> False | c # _ \<Rightarrow> c = 0x2F);
          r = (if closing then tl q else q)
      in (closing, map lower_byte (take 11 (takeWhile tag_char r))))"

definition open_tag :: "bytes \<Rightarrow> html \<Rightarrow> html" where
  "open_tag p st =
     (case html_tag p of (closing, tag) \<Rightarrow>
        let st1 = (if tag = lit ''script'' \<and> \<not> closing then st\<lparr>in_script := True\<rparr>
                   else if tag = lit ''style'' \<and> \<not> closing then st\<lparr>in_style := True\<rparr>
                   else if tag \<in> set (map lit block_tags) \<and> \<not> last_space st then h_emit 10 True st
                   else st)
        in st1\<lparr>in_tag := True\<rparr>)"

text \<open>The digits of a numeric entity: the value, -1 after a character that is none, and what follows the digits read.\<close>

definition ent_digit :: "u8 \<Rightarrow> u32 option" where
  "ent_digit c =
     (if 0x30 \<le> c \<and> c \<le> 0x39 then Some (ucast c - 0x30)
      else if 0x61 \<le> c \<and> c \<le> 0x66 then Some (ucast c - 0x61 + 10)
      else if 0x41 \<le> c \<and> c \<le> 0x46 then Some (ucast c - 0x41 + 10)
      else None)"

primrec ent_digits :: "u32 \<Rightarrow> u32 \<Rightarrow> bytes \<Rightarrow> u32 \<times> bytes" where
  "ent_digits base val [] = (val, [])"
| "ent_digits base val (c # p) =
     (if c = 0x3B then (val, c # p)
      else case ent_digit c of
             None \<Rightarrow> (-1, p)
           | Some dig \<Rightarrow> if base \<le> dig then (-1, p) else ent_digits base (val * base + dig) p)"

definition numeric_ent :: "bytes \<Rightarrow> u32 \<times> bytes" where
  "numeric_ent p =
     (case p of
        c # q \<Rightarrow> if c = 0x78 \<or> c = 0x58 then ent_digits 16 0 q else ent_digits 10 0 p
      | [] \<Rightarrow> (0, []))"

definition entity :: "bytes \<Rightarrow> html \<Rightarrow> html \<times> bytes" where
  "entity p st =
     (case find (\<lambda>e. take (length (fst e)) p = lit (fst e)) html_ents of
        Some e \<Rightarrow> (h_emit (snd e) (snd e = 0x20) st, drop (length (fst e)) p)
      | None \<Rightarrow>
          (case p of
             h # d # q \<Rightarrow>
               if h = 0x23 then
                 (case numeric_ent (d # q) of (val, r) \<Rightarrow>
                    (if 0x20 \<le> sint val \<and> sint val < 0x7F then h_emit (ucast val) False st else st, tl r))
               else (st, tl (dropWhile (\<lambda>c. c \<noteq> 0x3B \<and> c \<noteq> 0x20) p))
           | _ \<Rightarrow> (st, tl (dropWhile (\<lambda>c. c \<noteq> 0x3B \<and> c \<noteq> 0x20) p))))"

text \<open>One turn of the loop at the byte c with p after it: the new state and what is left to read. The end of
  a script or style is only recognised when more bytes follow it.\<close>

definition html_step :: "u8 \<Rightarrow> bytes \<Rightarrow> html \<Rightarrow> html \<times> bytes" where
  "html_step c p st =
     (if in_script st \<or> in_style st then
        let stop = (if in_script st then lit ''</script'' else lit ''</style'') in
        if length stop < length (c # p) \<and> map lower_byte (take (length stop) (c # p)) = stop
        then (st\<lparr>in_script := False, in_style := False, in_tag := True\<rparr>, drop (length stop) (c # p))
        else (st, p)
      else if in_tag st then (if c = 0x3E then st\<lparr>in_tag := False\<rparr> else st, p)
      else if c = 0x3C then (open_tag p st, p)
      else if c = 0x26 then entity p st
      else if c = 10 \<or> c = 13 \<or> c = 9 \<or> c = 0x20 then (if last_space st then st else h_emit 0x20 True st, p)
      else if c < 0x20 \<or> 126 < c then (st, p)
      else (h_emit c False st, p))"

lemma entity_shorter: "length (snd (entity p st)) \<le> length p"
proof -
  have d: "length (dropWhile f p) \<le> length p" for f by (rule length_dropWhile_le)
  have e: "length (snd (ent_digits b v q)) \<le> length q" for b v q
    by (induction q arbitrary: v) (auto split: option.splits intro: le_SucI)
  have n: "length (snd (numeric_ent q)) \<le> length q" for q
    using e [of 16 0 "tl q"] e [of 10 0 q] by (cases q) (auto simp: numeric_ent_def)
  show ?thesis
    using d [of "\<lambda>c. c \<noteq> 0x3B \<and> c \<noteq> 0x20"] n [of "tl p"]
    by (auto simp: entity_def split: option.splits list.splits prod.splits if_splits)
qed

lemma html_step_shorter: "length (snd (html_step c p st)) \<le> length p"
  using entity_shorter [of p st] by (auto simp: html_step_def Let_def)

lemma html_step_left: "(st1, q) = html_step c p st \<Longrightarrow> length q < Suc (length p)"
  using html_step_shorter [of c p st] by (metis le_imp_less_Suc snd_conv)

function html_loop :: "nat \<Rightarrow> bytes \<Rightarrow> html \<Rightarrow> html" where
  "html_loop room [] st = st"
| "html_loop room (c # p) st =
     (if length (h_out st) < room then (case html_step c p st of (st1, q) \<Rightarrow> html_loop room q st1) else st)"
  by pat_completeness auto

termination
  by (relation "measure (\<lambda>(room, p, st). length p)") (simp_all add: html_step_left)

text \<open>html_render gives the text; its length is the value the function returns.\<close>

definition html_start :: html where
  "html_start = \<lparr>in_tag = False, in_script = False, in_style = False, last_space = True, h_out = []\<rparr>"

definition html_render :: "bytes \<Rightarrow> nat \<Rightarrow> bytes" where
  "html_render body outmax = h_out (html_loop (outmax - 1) body html_start)"

subsection \<open>A query as a URL\<close>

definition url_safe :: "u8 \<Rightarrow> bool" where
  "url_safe c \<longleftrightarrow> 0x41 \<le> c \<and> c \<le> 0x5A \<or> 0x61 \<le> c \<and> c \<le> 0x7A \<or> 0x30 \<le> c \<and> c \<le> 0x39 \<or> c = 0x2E \<or> c = 0x5F \<or> c = 0x7E \<or> c = 0x2D"

definition url_hex :: "u8 \<Rightarrow> u8" where
  "url_hex n = lit ''0123456789ABCDEF'' ! unat n"

definition url_char :: "u8 \<Rightarrow> bytes" where
  "url_char c =
     (if c = 0x20 then [0x2B] else if url_safe c then [c] else [0x25, url_hex (drop_bit 4 c), url_hex (c AND 0x0F)])"

primrec url_query :: "nat \<Rightarrow> bytes \<Rightarrow> bytes \<Rightarrow> bytes" where
  "url_query room [] out = out"
| "url_query room (c # q) out = (if length out < room then url_query room q (out @ url_char c) else out)"

definition url_prefix :: bytes where "url_prefix = lit ''http://frogfind.com/?q=''"

definition build_google_url :: "bytes \<Rightarrow> nat \<Rightarrow> bytes" where
  "build_google_url query mx = url_query (mx - 4) query (take (mx - 1) url_prefix)"

subsection \<open>The calendar\<close>

definition leap_year :: "int \<Rightarrow> bool" where
  "leap_year year \<longleftrightarrow> (year smod 4 = 0 \<and> year smod 100 \<noteq> 0) \<or> year smod 400 = 0"

definition month_days :: "int \<Rightarrow> int \<Rightarrow> int" where
  "month_days year month =
     (if month = 2 \<and> leap_year year then 29
      else [31, 28, 31, 30, 31, 30, 31, 31, 30, 31, 30, 31] ! nat (month - 1))"

text \<open>The day of the week of the first of the month, 0 for Monday.\<close>

definition dow_first :: "int \<Rightarrow> int \<Rightarrow> int" where
  "dow_first year month =
     (let m = (if month < 3 then month + 12 else month); y = (if month < 3 then year - 1 else year);
          K = y smod 100; J = y sdiv 100;
          h = (1 + (13 * (m + 1)) sdiv 5 + K + K sdiv 4 + J sdiv 4 + 5 * J) smod 7
      in [5, 6, 0, 1, 2, 3, 4] ! nat h)"

end
