(* ===== verification/DeskTextFacts.thy ===== *)
theory DeskTextFacts
  imports DeskText
begin

text \<open>What the text routines of the desktop guarantee.\<close>

subsection \<open>Rendered text\<close>

definition blank_char :: "u8 \<Rightarrow> bool" where "blank_char c \<longleftrightarrow> c = 0x20 \<or> c = 10"
definition shown_char :: "u8 \<Rightarrow> bool" where "shown_char c \<longleftrightarrow> c = 10 \<or> 0x20 \<le> c \<and> c \<le> 126"

text \<open>No blank at the start and none after another.\<close>

primrec tidy_after :: "bool \<Rightarrow> bytes \<Rightarrow> bool" where
  "tidy_after b [] = True"
| "tidy_after b (c # s) = ((blank_char c \<longrightarrow> \<not> b) \<and> tidy_after (blank_char c) s)"

definition tidy :: "bytes \<Rightarrow> bool" where "tidy s = tidy_after True s"

lemma tidy_Nil [simp]: "tidy []" by (simp add: tidy_def)

lemma tidy_snoc: "tidy (s @ [c]) \<longleftrightarrow> tidy s \<and> (blank_char c \<longrightarrow> s \<noteq> [] \<and> \<not> blank_char (last s))"
proof -
  have "tidy_after b (s @ [c]) \<longleftrightarrow> tidy_after b s \<and> (blank_char c \<longrightarrow> \<not> (if s = [] then b else blank_char (last s)))" for b
    by (induction s arbitrary: b) auto
  then show ?thesis by (auto simp: tidy_def)
qed

lemma open_tag_out: "h_out (open_tag p st) = h_out st \<or> h_out (open_tag p st) = h_out st @ [10]"
  by (simp add: open_tag_def h_emit_def Let_def split: prod.split)

lemma ent_chars: "find P html_ents = Some e \<Longrightarrow> shown_char (snd e)"
proof -
  assume "find P html_ents = Some e"
  then have "e \<in> set html_ents" by (auto simp: find_Some_iff)
  moreover have "\<forall>e\<in>set html_ents. shown_char (snd e)" by (simp add: html_ents_def shown_char_def)
  ultimately show ?thesis by blast
qed

lemma sint_shown: "0x20 \<le> sint v \<Longrightarrow> sint v < 0x7F \<Longrightarrow> shown_char (ucast v)" for v :: u32
proof -
  assume a: "0x20 \<le> sint v" "sint v < 0x7F"
  then have "v = of_nat (nat (sint v))" by simp
  moreover have "nat (sint v) \<in> {32..<127}" using a by auto
  moreover have "\<forall>n\<in>set [32..<127]. shown_char (ucast (of_nat n :: u32))" by code_simp
  then have "\<forall>n\<in>{32..<127}. shown_char (ucast (of_nat n :: u32))" by (simp only: set_upt)
  ultimately show ?thesis by metis
qed

lemma entity_out:
  "h_out (fst (entity p st)) = h_out st \<or> (\<exists>c. shown_char c \<and> h_out (fst (entity p st)) = h_out st @ [c])"
proof (cases "find (\<lambda>e. take (length (fst e)) p = lit (fst e)) html_ents")
  case None
  then show ?thesis using sint_shown
    by (auto simp: entity_def h_emit_def split: list.split prod.split)
next
  case (Some e)
  then show ?thesis using ent_chars [OF Some] by (auto simp: entity_def h_emit_def)
qed

text \<open>A step adds at most one character, and it is one the screen shows.\<close>

lemma html_step_out:
  "h_out (fst (html_step c p st)) = h_out st \<or> (\<exists>d. shown_char d \<and> h_out (fst (html_step c p st)) = h_out st @ [d])"
  using open_tag_out [of p st] entity_out [of p st]
  by (auto simp: html_step_def Let_def h_emit_def shown_char_def word_le_nat_alt word_less_nat_alt)

definition html_ok :: "nat \<Rightarrow> html \<Rightarrow> bool" where
  "html_ok room st \<longleftrightarrow> length (h_out st) \<le> room \<and> list_all shown_char (h_out st)"

lemma html_loop_ok: "html_ok room st \<Longrightarrow> html_ok room (html_loop room p st)"
proof (induction room p st rule: html_loop.induct)
  case (2 room c p st)
  have "html_ok room (fst (html_step c p st))" if "length (h_out st) < room"
    using html_step_out [of c p st] 2(2) that by (auto simp: html_ok_def)
  moreover obtain st1 q where s: "html_step c p st = (st1, q)" by fastforce
  ultimately show ?case using 2(1) [OF _ s [symmetric]] 2(2) by simp
qed simp

text \<open>Without an ampersand, last_space tells whether a blank may not follow.\<close>

definition spaced :: "html \<Rightarrow> bool" where
  "spaced st \<longleftrightarrow> tidy (h_out st) \<and> (last_space st \<longleftrightarrow> h_out st = [] \<or> blank_char (last (h_out st)))"

lemma h_emit_spaced:
  "spaced st \<Longrightarrow> b = blank_char c \<Longrightarrow> (b \<Longrightarrow> \<not> last_space st) \<Longrightarrow> spaced (h_emit c b st)"
  by (auto simp: spaced_def h_emit_def tidy_snoc)

lemma spaced_upd [simp]:
  "spaced (st\<lparr>in_tag := x\<rparr>) = spaced st" "spaced (st\<lparr>in_script := x\<rparr>) = spaced st" "spaced (st\<lparr>in_style := x\<rparr>) = spaced st"
  by (simp_all add: spaced_def)

lemma open_tag_spaced: "spaced st \<Longrightarrow> spaced (open_tag p st)"
  by (auto simp: open_tag_def Let_def blank_char_def intro!: h_emit_spaced split: prod.split)

lemma html_step_spaced:
  assumes "spaced st" and "c \<noteq> 0x26"
  shows "spaced (fst (html_step c p st)) \<and> set (snd (html_step c p st)) \<subseteq> set p"
proof -
  have "\<not> blank_char c" if "\<not> (c = 10 \<or> c = 13 \<or> c = 9 \<or> c = 0x20)" using that by (auto simp: blank_char_def)
  then have "spaced (h_emit c False st)" if "\<not> (c = 10 \<or> c = 13 \<or> c = 9 \<or> c = 0x20)"
    using assms(1) that by (intro h_emit_spaced) auto
  moreover have "spaced (h_emit 0x20 True st)" if "\<not> last_space st"
    using assms(1) that by (intro h_emit_spaced) (auto simp: blank_char_def)
  moreover have "set (drop (length (lit ''</script'')) (c # p)) \<subseteq> set p" "set (drop (length (lit ''</style'')) (c # p)) \<subseteq> set p"
    using set_drop_subset [of 7 p] set_drop_subset [of 6 p] by (auto simp: numeral_eq_Suc)
  ultimately show ?thesis
    using assms open_tag_spaced [OF assms(1), of p] by (auto simp: html_step_def Let_def)
qed

lemma html_loop_spaced: "spaced st \<Longrightarrow> 0x26 \<notin> set p \<Longrightarrow> spaced (html_loop room p st)"
proof (induction room p st rule: html_loop.induct)
  case (2 room c p st)
  then have "spaced (fst (html_step c p st)) \<and> set (snd (html_step c p st)) \<subseteq> set p" by (intro html_step_spaced) auto
  moreover obtain st1 q where s: "html_step c p st = (st1, q)" by fastforce
  ultimately show ?case using 2(1) [OF _ s [symmetric]] 2(2,3) by auto
qed simp

text \<open>Whatever the page, html_render stays inside its buffer, leaving room for the terminator, and writes only
  characters the screen shows and newlines; and a page without character entities becomes text with no
  blank at its start and never two blanks in a row.\<close>

theorem html_text_tidy:
  assumes "0x26 \<notin> set body"
  shows "length (html_render page m) \<le> m - 1 \<and> list_all shown_char (html_render page m) \<and> tidy (html_render body m)"
proof -
  have "html_ok (m - 1) html_start" by (simp add: html_ok_def html_start_def)
  then have "html_ok (m - 1) (html_loop (m - 1) page html_start)" by (rule html_loop_ok)
  moreover have "spaced (html_loop (m - 1) body html_start)"
    using assms by (intro html_loop_spaced) (simp_all add: spaced_def html_start_def)
  ultimately show ?thesis by (simp add: html_render_def html_ok_def spaced_def)
qed

lemma html_text_tidy_witness: "tidy (html_render (lit ''<p> a  b'') 8192)"
  using html_text_tidy [of "lit ''<p> a  b''" "[]" 8192] by simp

text \<open>An ampersand that starts no entity takes the text up to the next blank with it.\<close>

lemma html_loses_text: "html_render (lit ''R&D lab'') 8192 = lit ''Rlab''"
  by (simp add: html_render_def html_start_def html_step_def h_emit_def entity_def html_ents_def)

subsection \<open>Queries\<close>

fun url_decode :: "bytes \<Rightarrow> bytes" where
  "url_decode (c # p) =
     (if c = 0x2B then 0x20 # url_decode p
      else if c = 0x25 then
        (case p of
           a # b # q \<Rightarrow> (case (ent_digit a, ent_digit b) of (Some h, Some l) \<Rightarrow> ucast (h * 16 + l) # url_decode q | _ \<Rightarrow> c # url_decode p)
         | _ \<Rightarrow> c # url_decode p)
      else c # url_decode p)"
| "url_decode [] = []"

lemma url_hex_value: "unat n < 16 \<Longrightarrow> ent_digit (url_hex n) = Some (ucast n) \<and> url_safe (url_hex n)"
proof -
  assume "unat n < 16"
  then have "n = of_nat (unat n)" "unat n \<in> set [0..<16]" by auto
  moreover have "\<forall>k\<in>set [0..<16]. ent_digit (url_hex (of_nat k)) = Some (ucast (of_nat k :: u8)) \<and> url_safe (url_hex (of_nat k))"
    by code_simp
  ultimately show ?thesis by metis
qed

lemma all_bytes: "\<forall>n\<in>set [0..<256]. P (of_nat n) \<Longrightarrow> P (c :: u8)"
proof -
  assume "\<forall>n\<in>set [0..<256]. P (of_nat n)"
  moreover have "unat c < 256" using unsigned_less [of c, where 'a = nat] by simp
  then have "unat c \<in> set [0..<256]" by (simp only: set_upt) simp
  moreover have "of_nat (unat c) = c" by simp
  ultimately show ?thesis by metis
qed

lemma nibbles:
  "unat (drop_bit 4 c) < 16 \<and> unat (c AND 0x0F) < 16 \<and> (ucast (ucast (drop_bit 4 c) * 16 + ucast (c AND 0x0F) :: u32) :: u8) = c"
  by (rule all_bytes) code_simp

lemma url_char_decode: "url_decode (url_char c @ p) = c # url_decode p"
  using nibbles [of c] url_hex_value [of "drop_bit 4 c"] url_hex_value [of "c AND 0x0F"]
  by (auto simp: url_char_def url_safe_def)

lemma url_query_room: "length out + 3 * length q \<le> room + 2 \<Longrightarrow> url_query room q out = out @ concat (map url_char q)"
proof (induction q arbitrary: out)
  case (Cons c q)
  have "length (url_char c) \<le> 3" by (simp add: url_char_def)
  then show ?case using Cons by simp
qed simp

lemma url_chars_decode: "url_decode (concat (map url_char q)) = q"
  by (induction q) (simp_all add: url_char_decode)

text \<open>A query of at most 77 characters fits the URL buffer and is encoded without loss: the URL is the prefix of the
  search page followed by safe characters, + and % only, and decoding them gives the query back.\<close>

theorem url_roundtrip:
  assumes "length query \<le> 77"
  shows "take 23 (build_google_url query 256) = url_prefix \<and> url_decode (drop 23 (build_google_url query 256)) = query
    \<and> length (build_google_url query 256) < 256
    \<and> (\<forall>c\<in>set (drop 23 (build_google_url query 256)). url_safe c \<or> c = 0x2B \<or> c = 0x25)"
proof -
  have p: "length url_prefix = 23" by (simp add: url_prefix_def)
  have u: "build_google_url query 256 = url_prefix @ concat (map url_char query)"
    using assms p by (simp add: build_google_url_def url_query_room)
  have "length (concat (map url_char query)) \<le> 3 * length query"
    by (induction query) (auto simp: url_char_def)
  moreover have "url_safe c \<or> c = 0x2B \<or> c = 0x25" if "c \<in> set (url_char d)" for c d
    using that nibbles [of d] url_hex_value [of "drop_bit 4 d"] url_hex_value [of "d AND 0x0F"]
    by (auto simp: url_char_def split: if_splits)
  ultimately show ?thesis using u p assms by (auto simp: url_chars_decode)
qed

lemma url_roundtrip_witness: "url_decode (drop 23 (build_google_url (lit ''a b&c'') 256)) = lit ''a b&c''"
  using url_roundtrip [of "lit ''a b&c''"] by simp

subsection \<open>The calendar\<close>

text \<open>Days before a date, counted year by year and month by month from the first of January of year 1, a Monday.\<close>

primrec days_before_year :: "nat \<Rightarrow> int" where
  "days_before_year 0 = 0"
| "days_before_year (Suc y) = (if y = 0 then 0 else days_before_year y + (if leap_year (int y) then 366 else 365))"

definition days_before :: "nat \<Rightarrow> nat \<Rightarrow> int" where
  "days_before y m = days_before_year y + sum_list (map (month_days (int y) \<circ> int) [1..<m])"

lemma leap_year_mod: "0 \<le> y \<Longrightarrow> leap_year y \<longleftrightarrow> (y mod 4 = 0 \<and> y mod 100 \<noteq> 0) \<or> y mod 400 = 0"
  by (auto simp: leap_year_def signed_modulo_int_def sgn_if)

lemma int_div_Suc: "int (Suc n) div int k = int n div int k + of_bool (int (Suc n) mod int k = 0)"
  by (simp only: zdiv_int [symmetric] zmod_int [symmetric] div_Suc of_nat_eq_0_iff) auto

lemma leap_count: "(c \<Longrightarrow> b) \<Longrightarrow> (b \<Longrightarrow> a) \<Longrightarrow> of_bool (a \<and> \<not> b \<or> c) = (of_bool a - of_bool b + of_bool c :: int)"
  by (cases a; cases b; cases c) auto

lemma days_before_year_closed:
  "days_before_year (Suc y) = 365 * int y + int y div 4 - int y div 100 + int y div 400"
proof (induction y)
  case (Suc y)
  let ?n = "int (Suc y)"
  have "(4 :: int) dvd 100" "(100 :: int) dvd 400" by simp_all
  then have "?n mod 100 = 0" if "?n mod 400 = 0" using that by (metis dvd_eq_mod_eq_0 dvd_trans)
  moreover have "?n mod 4 = 0" if "?n mod 100 = 0" using that \<open>4 dvd 100\<close> by (metis dvd_eq_mod_eq_0 dvd_trans)
  ultimately have "of_bool (leap_year ?n) = (of_bool (?n mod 4 = 0) - of_bool (?n mod 100 = 0) + of_bool (?n mod 400 = 0) :: int)"
    unfolding leap_year_mod [OF of_nat_0_le_iff] by (intro leap_count)
  with int_div_Suc [of y 4] int_div_Suc [of y 100] int_div_Suc [of y 400]
  have "int y div 4 - int y div 100 + int y div 400 + of_bool (leap_year ?n) = ?n div 4 - ?n div 100 + ?n div 400"
    unfolding of_nat_numeral by linarith
  moreover have "days_before_year (Suc (Suc y)) = days_before_year (Suc y) + 365 + of_bool (leap_year ?n)" by simp
  ultimately show ?case using Suc by simp
qed simp

lemma year_days:
  assumes "0 < y"
  shows "days_before_year y = 365 * int (y - 1) + int (y - 1) div 4 - int (y - 1) div 100 + int (y - 1) div 400"
    and "days_before_year y + of_bool (leap_year (int y)) = 365 * int y - 365 + int y div 4 - int y div 100 + int y div 400"
proof -
  obtain k where y: "y = Suc k" using assms by (cases y) auto
  show "days_before_year y = 365 * int (y - 1) + int (y - 1) div 4 - int (y - 1) div 100 + int (y - 1) div 400"
    using days_before_year_closed [of k] y by simp
  have "days_before_year (Suc y) = days_before_year y + 365 + of_bool (leap_year (int y))" using assms by simp
  then show "days_before_year y + of_bool (leap_year (int y)) = 365 * int y - 365 + int y div 4 - int y div 100 + int y div 400"
    using days_before_year_closed [of y] by simp
qed

text \<open>The century and the year in it, against the year.\<close>

lemma zeller_year:
  fixes y :: int
  shows "(y mod 100 + y mod 100 div 4 + y div 100 div 4 + 5 * (y div 100)) mod 7 = (y + y div 4 - y div 100 + y div 400) mod 7"
proof -
  let ?q = "y div 100" and ?k = "y mod 100"
  have y: "y = 100 * ?q + ?k" by simp
  have "(100 * q + k) div 4 = 25 * q + k div 4" for q k :: int by presburger
  from this [of ?q ?k] have "y div 4 = 25 * ?q + ?k div 4" by (simp only: y [symmetric])
  moreover have "y div 400 = ?q div 4" by (simp add: zdiv_zmult2_eq [of 4 y 100, simplified])
  ultimately have e: "y + y div 4 - ?q + y div 400 = (?k + ?k div 4 + ?q div 4 + 5 * ?q) + 7 * (17 * ?q)" using y by linarith
  show ?thesis by (simp only: e mod_mult_self2)
qed

lemma zeller_at:
  fixes y :: int
  assumes "0 \<le> y" and "0 \<le> b" and "(b + 5) mod 7 = c mod 7"
  shows "[5, 6, 0, 1, 2, 3, 4] ! nat ((1 + b + y smod 100 + (y smod 100) sdiv 4 + (y sdiv 100) sdiv 4 + 5 * (y sdiv 100)) smod 7)
    = (c + 1 + (y + y div 4 - y div 100 + y div 400)) mod 7"
proof -
  have pos: "a smod int k = a mod int k" "a sdiv int k = a div int k" if "0 \<le> a" for a k
    using that by (simp_all add: signed_modulo_int_def signed_divide_int_def sgn_if)
  let ?z = "y mod 100 + y mod 100 div 4 + y div 100 div 4 + 5 * (y div 100)"
  have z: "0 \<le> ?z" using assms(1) by simp
  have m: "[5, 6, 0, 1, 2, 3, 4] ! nat h = (h + 5) mod 7" if "0 \<le> h" "h < 7" for h :: int
  proof -
    have "h \<in> {0, 1, 2, 3, 4, 5, 6}" using that by auto
    then show ?thesis by auto
  qed
  have shift: "((1 + b + z) mod 7 + 5) mod 7 = ((b + 5) mod 7 + 1 + z mod 7) mod 7" for z :: int
  proof -
    have "((1 + b + z) mod 7 + 5) mod 7 = (1 + b + z + 5) mod 7" by (rule mod_add_left_eq)
    also have "1 + b + z + 5 = (b + 5) + (1 + z)" by simp
    also have "((b + 5) + (1 + z)) mod 7 = ((b + 5) mod 7 + (1 + z)) mod 7" by (rule mod_add_left_eq [symmetric])
    also have "(b + 5) mod 7 + (1 + z) = ((b + 5) mod 7 + 1) + z" by simp
    also have "(((b + 5) mod 7 + 1) + z) mod 7 = ((b + 5) mod 7 + 1 + z mod 7) mod 7" by (rule mod_add_right_eq [symmetric])
    finally show ?thesis .
  qed
  have "(((1 + b + ?z) mod 7) + 5) mod 7 = ((b + 5) mod 7 + 1 + ?z mod 7) mod 7" by (rule shift)
  also have "\<dots> = (c mod 7 + 1 + (y + y div 4 - y div 100 + y div 400) mod 7) mod 7" by (simp only: assms(3) zeller_year)
  also have "\<dots> = (c + 1 + (y + y div 4 - y div 100 + y div 400)) mod 7"
    using mod_add_right_eq [of "c mod 7 + 1" "y + y div 4 - y div 100 + y div 400" 7]
      mod_add_left_eq [of c 7 "1 + (y + y div 4 - y div 100 + y div 400)"] by (simp only: add.assoc)
  finally have "((1 + b + ?z) mod 7 + 5) mod 7 = (c + 1 + (y + y div 4 - y div 100 + y div 400)) mod 7" .
  moreover have "(1 + b + y smod 100 + (y smod 100) sdiv 4 + (y sdiv 100) sdiv 4 + 5 * (y sdiv 100)) smod 7 = (1 + b + ?z) mod 7"
  proof -
    have n: "0 \<le> y mod 100" "0 \<le> y div 100" using assms(1) by simp_all
    have "0 \<le> 1 + b + ?z" using assms(2) z by simp
    from pos(1) [OF this, of 7] show ?thesis
      by (simp only: pos [OF assms(1), of 100, unfolded of_nat_numeral] pos [OF n(1), of 4, unfolded of_nat_numeral]
          pos [OF n(2), of 4, unfolded of_nat_numeral] of_nat_numeral add.assoc)
  qed
  moreover have "0 \<le> (1 + b + ?z) mod 7" "(1 + b + ?z) mod 7 < 7" by (rule pos_mod_sign; simp) (rule pos_mod_bound; simp)
  ultimately show ?thesis using m [of "(1 + b + ?z) mod 7"] by (simp only:)
qed

lemma month_cases:
  assumes "1 \<le> m" and "m \<le> (12 :: nat)"
  obtains "m = 1" | "m = 2" | "m = 3" | "m = 4" | "m = 5" | "m = 6" | "m = 7" | "m = 8" | "m = 9" | "m = 10" | "m = 11" | "m = 12"
  using assms by (auto simp: le_Suc_eq numeral_eq_Suc)

definition days_in_common_year :: "nat \<Rightarrow> int" where
  "days_in_common_year m = [0, 31, 59, 90, 120, 151, 181, 212, 243, 273, 304, 334] ! (m - 1)"

lemma months_before:
  assumes "1 \<le> m" and "m \<le> 12"
  shows "sum_list (map (month_days y \<circ> int) [1..<m]) = days_in_common_year m + of_bool (2 < m \<and> leap_year y)"
  using assms by (cases rule: month_cases) (simp_all add: days_in_common_year_def month_days_def upt_rec)

lemma zeller_month:
  assumes "1 \<le> m" and "m \<le> 12"
  shows "(13 * (int (if m < 3 then m + 12 else m) + 1) sdiv 5 + 5) mod 7 = (days_in_common_year m - (if m < 3 then 1 else 366)) mod 7"
    and "0 \<le> 13 * (int (if m < 3 then m + 12 else m) + 1) sdiv 5"
  using assms by (cases rule: month_cases; simp add: days_in_common_year_def)+

text \<open>C28: The calendar starts every month on the right day: dow_first is the number of days from Monday,
  1 January of year 1, to the first of the month, counted year by year and month by month with the Gregorian
  leap years, modulo 7.\<close>

theorem dow_first_correct:
  assumes "0 < y" and "1 \<le> m" and "m \<le> 12"
  shows "dow_first (int y) (int m) = days_before y m mod 7"
proof -
  let ?Y = "if m < 3 then int (y - 1) else int y" and ?k = "if m < 3 then 1 else 366 :: int"
  have "dow_first (int y) (int m) = (days_in_common_year m - ?k + 1 + (?Y + ?Y div 4 - ?Y div 100 + ?Y div 400)) mod 7"
    using zeller_at [OF _ zeller_month(2) [OF assms(2,3)] zeller_month(1) [OF assms(2,3)], of ?Y] assms(1)
    by (cases "m < 3") (simp_all add: dow_first_def Let_def of_nat_diff)
  moreover have "days_before y m = days_in_common_year m - ?k + 1 + (?Y + ?Y div 4 - ?Y div 100 + ?Y div 400) + 7 * (52 * ?Y)"
    using year_days [OF assms(1)] months_before [OF assms(2,3), of "int y"] by (cases "m < 3") (auto simp: days_before_def)
  ultimately show ?thesis by (simp only: mod_mult_self2)
qed

lemma dow_first_correct_witness: "dow_first 2 3 = days_before 2 3 mod 7"
  using dow_first_correct [of 2 3] by simp

end
