(* ===== verification/DeskWin.thy ===== *)
theory DeskWin
  imports Vga Clipboard FatFile "HOL-Library.Monad_Syntax"
begin

text \<open>
  The window manager of shell/desktop.c: the table of widgets, the operations on it, and what a click hits.
  An int of a widget is an int here. The input line of a widget is its first input_len characters, which the
  code always terminates; content is the whole buffer, with content_len beside it. None is a file system
  operation that does not return.
\<close>

definition MAX_WIDGETS :: nat where "MAX_WIDGETS = 8"
definition CONTENT_CAP :: nat where "CONTENT_CAP = 8192"
definition INPUT_CAP :: nat where "INPUT_CAP = 256"
definition TITLE_CAP :: nat where "TITLE_CAP = 24"

datatype widget_kind =
  WK_WELCOME | WK_CLOCK | WK_SYSMON | WK_MINICALC | WK_ABOUT | WK_NOTES | WK_FILES | WK_SETTINGS | WK_TERMINAL | WK_WEB
  | WK_DISKMGR | WK_CALENDAR | WK_SNAKE

record widget =
  w_used :: bool
  w_kind :: widget_kind
  w_r :: int
  w_c :: int
  w_w :: int
  w_h :: int
  w_z :: int
  w_title :: bytes
  w_prev_sec :: int
  w_input :: bytes
  w_content :: bytes
  w_content_len :: int
  w_sel :: int
  w_top :: int
  w_tab :: int
  w_row :: int
  w_focused :: bool
  w_min :: bool
  w_dirty :: bool

subsection \<open>Themes\<close>

record theme =
  mb_bg :: u8
  mb_fg :: u8
  mb_hi_bg :: u8
  mb_hi_fg :: u8
  tb_bg :: u8
  tb_fg :: u8
  win_bg :: u8
  win_fg :: u8
  menu_bg :: u8
  menu_fg :: u8
  menu_sel_bg :: u8
  menu_sel_fg :: u8

definition theme_of :: "u8 list \<Rightarrow> theme" where
  "theme_of cs =
     \<lparr>mb_bg = cs ! 0, mb_fg = cs ! 1, mb_hi_bg = cs ! 2, mb_hi_fg = cs ! 3, tb_bg = cs ! 4, tb_fg = cs ! 5, win_bg = cs ! 6,
       win_fg = cs ! 7, menu_bg = cs ! 8, menu_fg = cs ! 9, menu_sel_bg = cs ! 10, menu_sel_fg = cs ! 11\<rparr>"

definition THEME_COUNT :: int where "THEME_COUNT = 4"

definition themes :: "theme list" where
  "themes = map theme_of
     [[7, 0, 0, 15, 7, 0, 15, 0, 15, 0, 1, 15],
      [8, 15, 15, 0, 8, 15, 7, 0, 8, 15, 15, 0],
      [3, 15, 15, 1, 3, 15, 11, 0, 11, 0, 3, 15],
      [4, 14, 14, 4, 4, 14, 14, 4, 14, 4, 4, 14]]"

subsection \<open>The desktop\<close>

record 'd desk =
  widgets :: "widget list"
  next_z :: int
  task_x :: "int list"
  task_w :: "int list"
  dk_theme :: theme
  current_theme :: int
  wallpaper_style :: int
  dt_fg :: u8
  dt_bg :: u8
  current_bg_color :: int
  cursor_style :: int
  wall_img :: bytes
  wall_img_loaded :: bool
  rng_state :: u32
  mx_prev :: int
  my_prev :: int
  mx_save :: u16
  files_open :: "bytes option"
  dragging :: int
  resizing :: int
  drag_off_c :: int
  drag_off_r :: int
  was_pressed :: bool
  seen_c :: int
  seen_r :: int
  dk_scr :: vga
  dk_clip :: clip
  dk_fs :: "'d fsys"

type_synonym 'd dk_op = "'d desk \<Rightarrow> 'd desk option"

definition apply_theme :: "int \<Rightarrow> 'd desk \<Rightarrow> 'd desk" where
  "apply_theme t D =
     (let D1 = D\<lparr>current_theme := t\<rparr> in if 0 \<le> t \<and> t < THEME_COUNT then D1\<lparr>dk_theme := themes ! nat t\<rparr> else D1)"

definition wid :: "int \<Rightarrow> 'd desk \<Rightarrow> widget" where
  "wid i D = widgets D ! nat i"

definition upd_wid :: "int \<Rightarrow> (widget \<Rightarrow> widget) \<Rightarrow> 'd desk \<Rightarrow> 'd desk" where
  "upd_wid i f D = D\<lparr>widgets := (widgets D)[nat i := f (wid i D)]\<rparr>"

definition take_z :: "int \<Rightarrow> 'd desk \<Rightarrow> 'd desk" where
  "take_z i D = (upd_wid i (\<lambda>w. w\<lparr>w_z := next_z D\<rparr>) D)\<lparr>next_z := next_z D + 1\<rparr>"

definition slots :: "int list" where "slots = [0..7]"

definition set_title :: "string \<Rightarrow> widget \<Rightarrow> widget" where
  "set_title t w = w\<lparr>w_title := take (TITLE_CAP - 1) (lit t)\<rparr>"

definition put_at :: "int \<Rightarrow> int \<Rightarrow> int \<Rightarrow> int \<Rightarrow> widget \<Rightarrow> widget" where
  "put_at r c w h v = v\<lparr>w_r := r, w_c := c, w_w := w, w_h := h\<rparr>"

definition add_welcome_widget :: "'d desk \<Rightarrow> 'd desk" where
  "add_welcome_widget D =
     take_z 0 (upd_wid 0 (\<lambda>w. set_title ''Welcome'' (put_at 3 4 30 8 (w\<lparr>w_used := True, w_kind := WK_WELCOME\<rparr>))) D)"

definition focus_only :: "int \<Rightarrow> 'd desk \<Rightarrow> 'd desk" where
  "focus_only idx D = D\<lparr>widgets := map (\<lambda>i. (wid i D)\<lparr>w_focused := (i = idx)\<rparr>) slots\<rparr>"

definition singleton_kinds :: "widget_kind list" where
  "singleton_kinds = [WK_NOTES, WK_SETTINGS, WK_FILES, WK_ABOUT, WK_TERMINAL, WK_WEB, WK_DISKMGR, WK_CALENDAR]"

text \<open>The fields every new widget gets, and those of its kind: kinds that only show something are not focused.\<close>

definition fresh_widget :: "widget_kind \<Rightarrow> int \<Rightarrow> widget \<Rightarrow> widget" where
  "fresh_widget k z w =
     w\<lparr>w_used := True, w_kind := k, w_z := z, w_prev_sec := -1, w_input := [], w_content_len := 0, w_content := (w_content w)[0 := 0],
       w_sel := 0, w_top := 0, w_tab := 0, w_row := 0, w_focused := True, w_dirty := True\<rparr>"

definition arrange :: "widget_kind \<Rightarrow> int \<Rightarrow> widget \<Rightarrow> widget" where
  "arrange k i w =
     (case k of
        WK_CLOCK \<Rightarrow> (set_title ''Clock'' (put_at (4 + i) (38 + i) 36 8 w))\<lparr>w_focused := False\<rparr>
      | WK_SYSMON \<Rightarrow> (set_title ''System Monitor'' (put_at 12 (10 + i * 2) 44 10 w))\<lparr>w_focused := False\<rparr>
      | WK_MINICALC \<Rightarrow> set_title ''Calculator'' (put_at (6 + i) (20 + i * 2) 36 6 w)
      | WK_ABOUT \<Rightarrow> (set_title ''About Zenbite'' (put_at 4 14 52 12 w))\<lparr>w_focused := False\<rparr>
      | WK_NOTES \<Rightarrow> set_title ''Notes'' (put_at 3 8 60 18 w)
      | WK_FILES \<Rightarrow> set_title ''Files'' (put_at 3 10 56 18 w)
      | WK_SETTINGS \<Rightarrow> set_title ''Settings'' (put_at 3 8 60 18 w)
      | WK_TERMINAL \<Rightarrow> set_title ''Terminal'' (put_at 3 4 70 18 w)
      | WK_WEB \<Rightarrow> set_title ''Web'' (put_at 3 4 72 18 w)
      | WK_DISKMGR \<Rightarrow> (set_title ''Disk Manager'' (put_at 3 8 64 18 w))\<lparr>w_focused := False\<rparr>
      | WK_CALENDAR \<Rightarrow> (set_title ''Calendar'' (put_at 4 22 36 12 w))\<lparr>w_tab := 0\<rparr>
      | WK_SNAKE \<Rightarrow> (set_title ''Snake'' (put_at 3 14 52 18 w))\<lparr>w_sel := 0, w_top := 0, w_row := 0, w_content_len := 0, w_prev_sec := -1\<rparr>
      | WK_WELCOME \<Rightarrow> w)"

text \<open>The notes file into the content buffer.\<close>

definition load_notes :: "int \<Rightarrow> 'd dk_op" where
  "load_notes i D = do {
     (F1, fh) \<leftarrow> fs_open (dk_fs D) (lit ''NOTES.TXT'');
     (if fh < 0 then Some (D\<lparr>dk_fs := F1\<rparr>)
      else do {
        (F2, bs, n) \<leftarrow> fs_read F1 fh (CONTENT_CAP - 1);
        let n0 = max 0 n;
        let D1 = upd_wid i (\<lambda>w. w\<lparr>w_content := (blit (w_content w) 0 bs)[nat n0 := 0], w_content_len := n0\<rparr>) D;
        Some (D1\<lparr>dk_fs := fst (fs_close F2 fh)\<rparr>) }) }"

definition spawn_widget :: "widget_kind \<Rightarrow> 'd desk \<Rightarrow> (int \<times> 'd desk) option" where
  "spawn_widget k D =
     (case (if k \<in> set singleton_kinds then find (\<lambda>i. w_used (wid i D) \<and> w_kind (wid i D) = k) slots else None) of
        Some i \<Rightarrow> Some (i, focus_only i (take_z i D))
      | None \<Rightarrow>
          (case find (\<lambda>i. \<not> w_used (wid i D)) (tl slots) of
             None \<Rightarrow> Some (-1, D)
           | Some i \<Rightarrow> do {
               let D1 = (upd_wid i (arrange k i \<circ> fresh_widget k (next_z D)) D)\<lparr>next_z := next_z D + 1\<rparr>;
               D2 \<leftarrow> (if k = WK_NOTES then load_notes i D1 else Some D1);
               Some (i, if w_focused (wid i D2) then focus_only i D2 else D2) }))"

definition save_notes :: "widget \<Rightarrow> 'd fsys \<Rightarrow> 'd fsys option" where
  "save_notes w F = do {
     (F1, _) \<leftarrow> fs_create F (lit ''NOTES.TXT'');
     (F2, fh) \<leftarrow> fs_open F1 (lit ''NOTES.TXT'');
     (if fh < 0 then Some F2
      else do { (F3, _) \<leftarrow> fs_write F2 fh (take (nat (w_content_len w)) (w_content w)); Some (fst (fs_close F3 fh)) }) }"

definition in_table :: "int \<Rightarrow> bool" where
  "in_table i \<longleftrightarrow> 0 \<le> i \<and> i < int MAX_WIDGETS"

definition close_widget :: "int \<Rightarrow> 'd dk_op" where
  "close_widget i D =
     (if \<not> in_table i \<or> i = 0 then Some D
      else do {
        F \<leftarrow> (if w_kind (wid i D) = WK_NOTES then save_notes (wid i D) (dk_fs D) else Some (dk_fs D));
        Some (upd_wid i (\<lambda>w. w\<lparr>w_used := False, w_focused := False\<rparr>) (D\<lparr>dk_fs := F\<rparr>)) })"

definition minimize_widget :: "int \<Rightarrow> 'd desk \<Rightarrow> 'd desk" where
  "minimize_widget i D =
     (if \<not> in_table i \<or> i = 0 then D else upd_wid i (\<lambda>w. w\<lparr>w_min := True, w_focused := False\<rparr>) D)"

definition unminimize_widget :: "int \<Rightarrow> 'd desk \<Rightarrow> 'd desk" where
  "unminimize_widget i D =
     (if \<not> in_table i then D else focus_only i (take_z i (upd_wid i (\<lambda>w. w\<lparr>w_min := False\<rparr>) D)))"

definition raise_widget :: "int \<Rightarrow> 'd desk \<Rightarrow> 'd desk" where
  "raise_widget i D = (if \<not> in_table i then D else take_z i D)"

subsection \<open>What a click hits\<close>

definition widget_titlebar_hit :: "widget \<Rightarrow> int \<Rightarrow> int \<Rightarrow> bool" where
  "widget_titlebar_hit w col row \<longleftrightarrow> w_used w \<and> row = w_r w \<and> w_c w \<le> col \<and> col < w_c w + w_w w"

definition widget_close_hit :: "widget \<Rightarrow> int \<Rightarrow> int \<Rightarrow> bool" where
  "widget_close_hit w col row \<longleftrightarrow> w_used w \<and> row = w_r w \<and> col = w_c w + 1"

definition widget_min_hit :: "widget \<Rightarrow> int \<Rightarrow> int \<Rightarrow> bool" where
  "widget_min_hit w col row \<longleftrightarrow> w_used w \<and> row = w_r w \<and> col = w_c w + 2"

definition covers :: "int \<Rightarrow> int \<Rightarrow> widget \<Rightarrow> bool" where
  "covers col row w \<longleftrightarrow> w_used w \<and> \<not> w_min w \<and> w_c w \<le> col \<and> col < w_c w + w_w w \<and> w_r w \<le> row \<and> row < w_r w + w_h w"

definition widget_at :: "int \<Rightarrow> int \<Rightarrow> 'd desk \<Rightarrow> int" where
  "widget_at col row D =
     fst (foldl (\<lambda>(best, best_z) i. if covers col row (wid i D) \<and> best_z < w_z (wid i D) then (i, w_z (wid i D)) else (best, best_z))
       (-1, -1) slots)"

text \<open>The order in which draw_all_widgets draws: by z, and by slot within one.\<close>

definition draw_order :: "'d desk \<Rightarrow> int list" where
  "draw_order D =
     concat (map (\<lambda>z. filter (\<lambda>i. w_used (wid i D) \<and> \<not> w_min (wid i D) \<and> w_z (wid i D) = z) slots) [0..next_z D - 1])"

text \<open>The menu bar: the first column and the width of each title.\<close>

definition bar_titles :: "string list" where "bar_titles = [''Zenbite'', ''File'', ''View'', ''Help'']"

primrec bar_layout :: "int \<Rightarrow> string list \<Rightarrow> (int \<times> int) list" where
  "bar_layout col [] = []"
| "bar_layout col (t # ts) = (col, int (length t) + 2) # bar_layout (col + int (length t) + 3) ts"

definition bar_spans :: "(int \<times> int) list" where "bar_spans = bar_layout 3 bar_titles"

definition bar_hit :: "int \<Rightarrow> int \<Rightarrow> int" where
  "bar_hit c r =
     (if r \<noteq> 0 then -1
      else case find (\<lambda>i. fst (bar_spans ! i) \<le> c \<and> c < fst (bar_spans ! i) + snd (bar_spans ! i)) [0..<length bar_spans] of
             None \<Rightarrow> -1 | Some i \<Rightarrow> int i)"

definition taskbar_hit :: "int \<Rightarrow> int \<Rightarrow> 'd desk \<Rightarrow> int" where
  "taskbar_hit c r D =
     (if r \<noteq> int VGA_ROWS - 1 then -1
      else case find (\<lambda>i. 0 \<le> task_x D ! nat i \<and> task_x D ! nat i \<le> c \<and> c < task_x D ! nat i + task_w D ! nat i) slots of
             None \<Rightarrow> -1 | Some i \<Rightarrow> i)"

end
