(* ===== verification/DeskDraw.thy ===== *)
theory DeskDraw
  imports DeskWin DeskText DeskCalc Rtc Edit FatMount Mbr NetBase
begin

text \<open>
  What the desktop draws: a renderer gives the list of the drawing calls it makes, in order, and paint
  performs them on the screen. What a frame reads from other parts of the kernel, the time, the memory
  figures, the network addresses, the HTTP status and the timer, is a record.
\<close>

datatype paint_call = Fill int int int int u8 u8 u8 | Text int int bytes u8 u8 | Cell int int u8 u8 u8

primrec paint1 :: "paint_call \<Rightarrow> vga \<Rightarrow> vga" where
  "paint1 (Fill r c w h ch fg bg) v = vga_fill r c w h ch fg bg v"
| "paint1 (Text r c s fg bg) v = vga_write r c s fg bg v"
| "paint1 (Cell r c ch fg bg) v = vga_put_cell r c ch fg bg v"

definition paint :: "paint_call list \<Rightarrow> 'd desk \<Rightarrow> 'd desk" where
  "paint ps D = D\<lparr>dk_scr := foldl (\<lambda>v p. paint1 p v) (dk_scr D) ps\<rparr>"

record desk_info =
  i_time :: rtc_time
  i_kernel_kib :: u32
  i_pmm_used :: u32
  i_pmm_total :: u32
  i_heap_used :: u32
  i_heap_total :: u32
  i_net :: "(u32 \<times> u32) option"
  i_dns :: u32
  i_http :: int
  i_ticks :: u32

definition rows_max :: int where "rows_max = int VGA_ROWS"
definition cols_max :: int where "cols_max = int VGA_COLS"

abbreviation p_str :: "bytes \<Rightarrow> arg" where "p_str s \<equiv> ArgStr (Some s)"
abbreviation p_int :: "int \<Rightarrow> arg" where "p_int i \<equiv> ArgWord (of_int i)"
abbreviation p_u8 :: "u8 \<Rightarrow> arg" where "p_u8 c \<equiv> ArgWord (ucast c)"

definition shown :: "u8 \<Rightarrow> bool" where
  "shown c \<longleftrightarrow> 0x20 \<le> c \<and> c < 0x7F"

subsection \<open>Windows\<close>

definition draw_window :: "theme \<Rightarrow> u8 \<Rightarrow> int \<Rightarrow> int \<Rightarrow> int \<Rightarrow> int \<Rightarrow> bytes \<Rightarrow> paint_call list" where
  "draw_window t back r c w h title =
     [Fill r c w 1 0x20 (tb_fg t) (tb_bg t), Cell r (c + 1) 0x07 4 (tb_bg t), Cell r (c + 2) 0x07 14 (tb_bg t),
      Cell r (c + 3) 0x07 2 (tb_bg t), Text r (c + (w - int (length title)) sdiv 2) title (tb_fg t) (tb_bg t),
      Fill (r + 1) c w (h - 1) 0x20 (win_fg t) (win_bg t)]
     @ map (\<lambda>rr. Cell rr (c + w) 0xB1 8 back) [r + 1..min (r + h) (rows_max - 2)]
     @ (if r + h < rows_max - 1 then map (\<lambda>cc. Cell (r + h) cc 0xB1 8 back) [c + 1..min (c + w) (cols_max - 1)] else [])"

definition own_window :: "'d desk \<Rightarrow> widget \<Rightarrow> paint_call list" where
  "own_window D w = draw_window (dk_theme D) (dt_bg D) (w_r w) (w_c w) (w_w w) (w_h w) (w_title w)"

definition ZENBITE_VERSION :: string where "ZENBITE_VERSION = ''0.3.0''"

definition render_welcome :: "'d desk \<Rightarrow> widget \<Rightarrow> paint_call list" where
  "render_welcome D w =
     (let t = dk_theme D; r = w_r w; c = w_c w in
      own_window D w @
      [Text (r + 2) (c + 2) (lit (''Welcome to Zenbite v'' @ ZENBITE_VERSION)) 1 (win_bg t),
       Text (r + 4) (c + 2) (lit ''Drag this title bar to move me.'') (win_fg t) (win_bg t),
       Text (r + 5) (c + 2) (lit ''Click Zenbite menu for apps.'') (win_fg t) (win_bg t)])"

definition date_args :: "rtc_time \<Rightarrow> arg list" where
  "date_args t = [ArgWord (ucast (rtc_year t)), p_u8 (rtc_month t), p_u8 (rtc_day t)]"

definition time_args :: "rtc_time \<Rightarrow> arg list" where
  "time_args t = [p_u8 (rtc_hour t), p_u8 (rtc_min t), p_u8 (rtc_sec t)]"

definition render_clock_widget :: "desk_info \<Rightarrow> 'd desk \<Rightarrow> widget \<Rightarrow> paint_call list" where
  "render_clock_widget I D w =
     (let bg = win_bg (dk_theme D); dx = w_c w + (w_w w - 17) sdiv 2; dy = w_r w + 2 in
      own_window D w @
      [Text dy dx (printed 16 (lit ''%02u:%02u:%02u'') (time_args (i_time I))) 1 bg,
       Text (dy + 1) dx (printed 16 (lit ''%04u-%02u-%02u'') (date_args (i_time I))) 8 bg,
       Text (w_r w + w_h w - 2) (w_c w + 2) (lit ''Live clock. Drag to move.'') 8 bg])"

text \<open>The drives of the system monitor, one to a row while there is room.\<close>

primrec sysmon_disks :: "nat list \<Rightarrow> int \<Rightarrow> 'd desk \<Rightarrow> widget \<Rightarrow> paint_call list" where
  "sysmon_disks [] row D w = []"
| "sysmon_disks (i # is) row D w =
     (if row < w_r w + w_h w - 1 then
        case disk_get (fdev (dk_fs D)) (int i) of
          None \<Rightarrow> sysmon_disks is row D w
        | Some d \<Rightarrow>
            if \<not> present d then sysmon_disks is row D w
            else Text row (w_c w + 2) (printed 80 (lit ''  %-4s  %u KiB'') [p_str (dname d), ArgWord (sectors d div 2)])
                   (win_fg (dk_theme D)) (win_bg (dk_theme D)) # sysmon_disks is (row + 1) D w
      else [])"

definition render_sysmon_widget :: "desk_info \<Rightarrow> 'd desk \<Rightarrow> widget \<Rightarrow> paint_call list" where
  "render_sysmon_widget I D w =
     (let t = dk_theme D; r = w_r w; c = w_c w;
          used = i_kernel_kib I + i_pmm_used I; tot = 640 + i_kernel_kib I + i_pmm_total I;
          bw = w_w w - 6; filled = (if tot = 0 then 0 else sint ((used * of_int bw) div tot)) in
      own_window D w @
      [Text (r + 2) (c + 2) (printed 80 (lit ''RAM:  %u/%u KiB used (%u%%)'')
         [ArgWord used, ArgWord tot, ArgWord (if tot = 0 then 0 else used * 100 div tot)]) (win_fg t) (win_bg t)]
      @ map (\<lambda>x. Cell (r + 3) (c + 3 + x) (if x < filled then 0xDB else 0xB0) (if x < filled then 4 else 8) (win_bg t)) [0..bw - 1]
      @ [Text (r + 4) (c + 2) (printed 80 (lit ''  kernel %u KiB  +  PMM %u/%u KiB'')
           [ArgWord (i_kernel_kib I), ArgWord (i_pmm_used I), ArgWord (i_pmm_total I)]) 8 (win_bg t),
         Text (r + 5) (c + 2) (printed 80 (lit ''  kheap  %u/%u KiB'') [ArgWord (i_heap_used I), ArgWord (i_heap_total I)]) 8 (win_bg t)]
      @ sysmon_disks [0..<DISK_MAX] (r + 7) D w)"

definition render_minicalc :: "'d desk \<Rightarrow> widget \<Rightarrow> paint_call list" where
  "render_minicalc D w =
     (let t = dk_theme D; r = w_r w; c = w_c w in
      own_window D w @
      [Text (r + 1) (c + 2) (lit (if w_focused w then ''Type expression, ENTER to compute:'' else ''(click to focus)  press ENTER:''))
         (if w_focused w then win_fg t else 8) (win_bg t),
       Fill (r + 2) (c + 2) (w_w w - 4) 1 0x20 (win_fg t) (win_bg t), Text (r + 2) (c + 2) (lit ''> '') 2 (win_bg t),
       Text (r + 2) (c + 4) (w_input w) (win_fg t) (win_bg t)]
      @ (if w_focused w then [Cell (r + 2) (c + 4 + int (length (w_input w))) 0x5F (win_fg t) (win_bg t)] else []))"

definition render_about :: "'d desk \<Rightarrow> widget \<Rightarrow> paint_call list" where
  "render_about D w =
     (let t = dk_theme D; r = w_r w; c = w_c w in
      own_window D w @
      [Text (r + 2) (c + 3) (lit (''Zenbite v'' @ ZENBITE_VERSION)) 1 (win_bg t),
       Text (r + 3) (c + 3) (lit ''32-bit retro operating system, MIT'') (win_fg t) (win_bg t),
       Text (r + 5) (c + 3) (lit ''(c) 2026 Oliver Petz and contributors'') (win_fg t) (win_bg t),
       Text (r + 7) (c + 3) (lit ''Built from scratch -- bootloader,'') (win_fg t) (win_bg t),
       Text (r + 8) (c + 3) (lit ''kernel, FAT12/16/32, TCP/IP, shell, GUI.'') (win_fg t) (win_bg t),
       Text (r + w_h w - 2) (c + 3) (lit ''Drag title to move. Red dot closes.'') 8 (win_bg t)])"

text \<open>Blank rows of a window's body.\<close>

definition blank_rows :: "theme \<Rightarrow> int \<Rightarrow> int \<Rightarrow> int \<Rightarrow> int \<Rightarrow> paint_call list" where
  "blank_rows t row0 col0 n cols = map (\<lambda>rr. Fill (row0 + rr) col0 cols 1 0x20 (win_fg t) (win_bg t)) [0..n - 1]"

definition body_text :: "widget \<Rightarrow> bytes" where
  "body_text w = take (nat (w_content_len w)) (w_content w)"

text \<open>One character of the notes at (rr, cc): the new position and what is drawn.\<close>

definition notes_char :: "theme \<Rightarrow> int \<Rightarrow> int \<Rightarrow> int \<Rightarrow> int \<Rightarrow> int \<times> int \<times> paint_call list \<Rightarrow> u8 \<Rightarrow> int \<times> int \<times> paint_call list" where
  "notes_char t row0 col0 n cols s ch =
     (case s of (rr, cc, ps) \<Rightarrow>
        if \<not> rr < n then s
        else
          let wrap = ch = 10 \<or> cols \<le> cc; rr1 = (if wrap then rr + 1 else rr); cc1 = (if wrap then 0 else cc) in
          if ch \<noteq> 10 \<and> shown ch \<and> rr1 < n then (rr1, cc1 + 1, ps @ [Cell (row0 + rr1) (col0 + cc1) ch (win_fg t) (win_bg t)])
          else (rr1, cc1, ps))"

definition render_notes :: "'d desk \<Rightarrow> widget \<Rightarrow> paint_call list" where
  "render_notes D w =
     (let t = dk_theme D; row0 = w_r w + 3; col0 = w_c w + 2; n = w_h w - 4; cols = w_w w - 4 in
      case foldl (notes_char t row0 col0 n cols) (0, 0, []) (body_text w) of (rr, cc, ps) \<Rightarrow>
        own_window D w @ [Text (w_r w + 1) (w_c w + 2) (lit ''Notes -- click red dot to save & close.'') 8 (win_bg t)]
        @ blank_rows t row0 col0 n cols @ ps
        @ (if w_focused w \<and> rr < n then [Cell (row0 + rr) (col0 + cc) 0x5F (win_fg t) (win_bg t)] else []))"

end
