(* ===== verification/DeskApps.thy ===== *)
theory DeskApps
  imports DeskDraw
begin

text \<open>
  The windows of the desktop's applications: settings, terminal, web page, disk manager, calendar, files and
  the snake game. The last two change their widget while they draw. None is a read outside an array or a
  division by zero.
\<close>

subsection \<open>Settings\<close>

definition wallpaper_label :: "string list" where
  "wallpaper_label = [''Solid'', ''Stipple'', ''Dots'', ''Grid'', ''Image (WALL.TXT)'']"
definition bg_color_label :: "string list" where
  "bg_color_label = [''Blue'', ''Cyan'', ''Green'', ''Magenta'', ''Grey'', ''Black'']"
definition cursor_style_label :: "string list" where
  "cursor_style_label = [''Block (inverted)'', ''Arrow'']"
definition theme_label :: "string list" where
  "theme_label = [''Classic (grey/white)'', ''Dark    (greys)'', ''Ocean   (cyan)'', ''Sunset  (red/yellow)'']"
definition tab_label :: "string list" where
  "tab_label = [''Background'', ''Theme'', ''Date/Time'', ''Network'']"

text \<open>The tab strip, from column x and tab i.\<close>

primrec tab_strip :: "string list \<Rightarrow> int \<Rightarrow> int \<Rightarrow> theme \<Rightarrow> widget \<Rightarrow> paint_call list" where
  "tab_strip [] i x t w = []"
| "tab_strip (s # ss) i x t w =
     (let len = int (length s) + 2;
          fg = (if i = w_tab w then win_bg t else win_fg t); bg = (if i = w_tab w then win_fg t else win_bg t)
      in [Fill (w_r w + 1) x len 1 0x20 fg bg, Text (w_r w + 1) (x + 1) (lit s) fg bg] @ tab_strip ss (i + 1) (x + len + 1) t w)"

definition setting_line :: "string \<Rightarrow> string \<Rightarrow> bytes" where
  "setting_line name value = printed 80 (lit ''%-20s  <  %-22s  >'') [p_str (lit name), p_str (lit value)]"

definition addr_text :: "u32 \<Rightarrow> bytes" where
  "addr_text a = (case ip4_format (replicate 16 0) a of Some s \<Rightarrow> chars s | None \<Rightarrow> [])"

definition settings_pane :: "desk_info \<Rightarrow> 'd desk \<Rightarrow> widget \<Rightarrow> paint_call list" where
  "settings_pane I D w =
     (let t = dk_theme D; r = w_r w; c = w_c w + 2;
          item = (\<lambda>k row s. if w_row w = k \<and> w_focused w then Text row c s (win_bg t) (win_fg t) else Text row c s (win_fg t) (win_bg t)) in
      if w_tab w = 0 then
        [item 0 (r + 3) (setting_line ''Pattern'' (wallpaper_label ! nat (wallpaper_style D))),
         item 1 (r + 5) (setting_line ''Background colour'' (bg_color_label ! nat (current_bg_color D))),
         item 2 (r + 7) (setting_line ''Mouse cursor'' (cursor_style_label ! nat (cursor_style D)))]
      else if w_tab w = 1 then [Text (r + 3) c (setting_line ''Theme'' (theme_label ! nat (current_theme D))) (win_fg t) (win_bg t)]
      else if w_tab w = 2 then
        [Text (r + 3) c (printed 80 (lit ''Now: %04u-%02u-%02u %02u:%02u:%02u'') (date_args (i_time I) @ time_args (i_time I))) (win_fg t) (win_bg t),
         Text (r + 5) c (lit ''Press '' @ [0x27, 0x53, 0x27] @ lit '' to set (YYYY-MM-DD HH:MM:SS).'') 8 (win_bg t)]
      else
        let ip = (case i_net I of Some n \<Rightarrow> addr_text (fst n) | None \<Rightarrow> lit ''?''); gw = (case i_net I of Some n \<Rightarrow> addr_text (snd n) | None \<Rightarrow> lit ''?'') in
        [Text (r + 3) c (printed 80 (lit ''IP:     %s'') [p_str ip]) (win_fg t) (win_bg t),
         Text (r + 4) c (printed 80 (lit ''Gate:   %s'') [p_str gw]) (win_fg t) (win_bg t),
         Text (r + 5) c (printed 80 (lit ''DNS:    %s'') [p_str (addr_text (i_dns I))]) (win_fg t) (win_bg t),
         Text (r + 7) c (lit ''Press '' @ [0x27, 0x44, 0x27] @ lit '' to change DNS server.'') 8 (win_bg t)])"

definition render_settings :: "desk_info \<Rightarrow> 'd desk \<Rightarrow> widget \<Rightarrow> paint_call list" where
  "render_settings I D w =
     (let t = dk_theme D in
      own_window D w
      @ [Text (w_r w + w_h w - 2) (w_c w + 2) (lit ''[ TAB pane | LEFT/RIGHT value | UP/DOWN row ]'') 8 (win_bg t)]
      @ tab_strip tab_label 0 (w_c w + 2) t w
      @ map (\<lambda>rr. Fill rr (w_c w + 2) (w_w w - 4) 1 0x20 (win_fg t) (win_bg t)) [w_r w + 3..w_r w + w_h w - 3]
      @ settings_pane I D w)"

subsection \<open>The terminal\<close>

text \<open>The lines of the scrollback, wrapped at the width; then the drawing of what follows the first skip lines.\<close>

definition count_char :: "int \<Rightarrow> int \<times> int \<Rightarrow> u8 \<Rightarrow> int \<times> int" where
  "count_char cols s ch =
     (case s of (lines, cc) \<Rightarrow>
        let wrap = ch = 10 \<or> cols \<le> cc; lines1 = (if wrap then lines + 1 else lines); cc1 = (if wrap then 0 else cc) in
        if ch \<noteq> 10 \<and> shown ch then (lines1, cc1 + 1) else (lines1, cc1))"

definition count_lines :: "int \<Rightarrow> bytes \<Rightarrow> int" where
  "count_lines cols s = (case foldl (count_char cols) (0, 0) s of (lines, cc) \<Rightarrow> if 0 < cc then lines + 1 else lines)"

definition term_char :: "theme \<Rightarrow> int \<Rightarrow> int \<Rightarrow> int \<Rightarrow> int \<Rightarrow> int \<Rightarrow> int \<times> int \<times> int \<times> paint_call list \<Rightarrow> u8 \<Rightarrow> int \<times> int \<times> int \<times> paint_call list" where
  "term_char t row0 col0 n cols skip s ch =
     (case s of (line, rr, cc, ps) \<Rightarrow>
        if \<not> rr < n then s
        else
          let wrap = ch = 10 \<or> cols \<le> cc;
              rr1 = (if wrap \<and> skip \<le> line then rr + 1 else rr); line1 = (if wrap then line + 1 else line); cc1 = (if wrap then 0 else cc) in
          if ch \<noteq> 10 \<and> \<not> line1 < skip \<and> shown ch \<and> rr1 < n
          then (line1, rr1, cc1 + 1, ps @ [Cell (row0 + rr1) (col0 + cc1) ch (win_fg t) (win_bg t)])
          else (line1, rr1, cc1, ps))"

definition render_terminal :: "'d desk \<Rightarrow> widget \<Rightarrow> paint_call list" where
  "render_terminal D w =
     (let t = dk_theme D; n = w_h w - 4; cols = w_w w - 4; row0 = w_r w + 2; col0 = w_c w + 2;
          lines = count_lines cols (body_text w); skip = (if n < lines then lines - n else 0); prow = w_r w + w_h w - 2 in
      own_window D w
      @ [Text (w_r w + 1) (w_c w + 2) (lit (if w_focused w then ''$ commands ENTER to run, ESC unfocus'' else ''(click to focus)'')) 8 (win_bg t)]
      @ blank_rows t row0 col0 n cols
      @ (case foldl (term_char t row0 col0 n cols skip) (0, 0, 0, []) (body_text w) of (_, _, _, ps) \<Rightarrow> ps)
      @ [Fill prow col0 cols 1 0x20 (win_fg t) (win_bg t), Text prow col0 (lit ''$ '') 2 (win_bg t),
         Text prow (col0 + 2) (w_input w) (win_fg t) (win_bg t)]
      @ (if w_focused w then [Cell prow (col0 + 2 + int (length (w_input w))) 0x5F (win_fg t) (win_bg t)] else []))"

subsection \<open>The web page\<close>

definition web_char :: "theme \<Rightarrow> widget \<Rightarrow> int \<Rightarrow> int \<Rightarrow> int \<times> int \<times> int \<times> paint_call list \<Rightarrow> u8 \<Rightarrow> int \<times> int \<times> int \<times> paint_call list" where
  "web_char t w n cols s ch =
     (case s of (lines, vis, cc, ps) \<Rightarrow>
        let wrap = ch = 10 \<or> cols \<le> cc;
            vis1 = (if wrap \<and> w_top w \<le> lines \<and> vis < n then vis + 1 else vis);
            lines1 = (if wrap then lines + 1 else lines); cc1 = (if wrap then 0 else cc) in
        if ch = 10 \<or> \<not> shown ch then (lines1, vis1, cc1, ps)
        else if w_top w \<le> lines1 \<and> vis1 < n then
          (lines1, vis1, cc1 + 1, ps @ [Cell (w_r w + 3 + vis1) (w_c w + 2 + cc1) ch (win_fg t) (win_bg t)])
        else (lines1, vis1, cc1 + 1, ps))"

definition status_text :: "int \<Rightarrow> string" where
  "status_text st =
     (if st = 0 then ''ready'' else if st = 200 then ''OK'' else if st = 301 then ''moved'' else if st = 302 then ''found''
      else if st = 404 then ''not found'' else if st = 503 then ''unavailable'' else if st < 0 then ''transport err'' else ''?'')"

definition render_web :: "desk_info \<Rightarrow> 'd desk \<Rightarrow> widget \<Rightarrow> paint_call list" where
  "render_web I D w =
     (let t = dk_theme D; cols = w_w w - 4; n = w_h w - 4; r = w_r w; c = w_c w in
      case foldl (web_char t w n cols) (0, 0, 0, []) (body_text w) of (lines0, _, cc, ps) \<Rightarrow>
        let lines = (if 0 < cc then lines0 + 1 else lines0) in
        own_window D w
        @ [Text (r + 1) (c + 2) (lit ''URL/q:'') 8 (win_bg t), Fill (r + 1) (c + 9) (cols - 9) 1 0x20 (win_fg t) (win_bg t),
           Text (r + 1) (c + 9) (w_input w) (win_fg t) (win_bg t)]
        @ (if w_focused w then [Cell (r + 1) (c + 9 + int (length (w_input w))) 0x5F (win_fg t) (win_bg t)] else [])
        @ blank_rows t (r + 3) (c + 2) n cols @ ps
        @ [Text (r + w_h w - 2) (c + 2) (printed 80 (lit ''[ HTTP %d %s | %d B | rows %d-%d/%d | PgUp/PgDn ]'')
             [p_int (i_http I), p_str (lit (status_text (i_http I))), p_int (w_content_len w), p_int (w_top w + 1),
              p_int (if w_top w + n < lines then w_top w + n else lines), p_int lines]) 8 (win_bg t)])"

subsection \<open>The disk manager\<close>

definition disk_kind :: "int \<Rightarrow> string" where
  "disk_kind i = (if i < 4 then ''ATA'' else if i < 8 then ''AHCI'' else if i < 10 then ''Flop'' else if i < 12 then ''USB1'' else ''USB2'')"

definition drive_of_disk :: "'d fsys \<Rightarrow> int \<Rightarrow> u8" where
  "drive_of_disk F i = (case first_idx (\<lambda>k. fs_drive_disk_id F (of_nat (65 + k)) = i) 26 of Some k \<Rightarrow> of_nat (65 + k) | None \<Rightarrow> 0x2D)"

primrec disk_rows :: "nat list \<Rightarrow> int \<Rightarrow> 'd desk \<Rightarrow> widget \<Rightarrow> int \<times> paint_call list" where
  "disk_rows [] k D w = (k, [])"
| "disk_rows (i # is) k D w =
     (case disk_get (fdev (dk_fs D)) (int i) of
        None \<Rightarrow> disk_rows is k D w
      | Some d \<Rightarrow>
          if \<not> present d then disk_rows is k D w
          else
            let m = drive_of_disk (dk_fs D) (int i);
                p = Text (w_r w + 3 + k) (w_c w + 2) (printed 80 (lit ''  %2d  %-8s  %-7s  %5u MiB  %c%c'')
                      [p_int (int i), p_str (dname d), p_str (lit (disk_kind (int i))), ArgWord (sectors d div 2048), p_u8 m,
                       p_u8 (if m = 0x2D then 0x20 else 0x3A)]) (win_fg (dk_theme D)) (win_bg (dk_theme D))
            in if w_h w - 6 \<le> k + 1 then (k + 1, [p])
               else (case disk_rows is (k + 1) D w of (n, ps) \<Rightarrow> (n, p # ps)))"

definition render_diskmgr :: "'d desk \<Rightarrow> widget \<Rightarrow> paint_call list" where
  "render_diskmgr D w =
     (let t = dk_theme D in
      case disk_rows [0..<DISK_MAX] 0 D w of (n, ps) \<Rightarrow>
        own_window D w
        @ [Text (w_r w + 1) (w_c w + 2) (lit ''Slot  Name      Kind     Size       Mounted'') (win_bg t) (win_fg t)] @ ps
        @ (if n = 0 then [Text (w_r w + 3) (w_c w + 2) (lit ''No disks present.'') 8 (win_bg t)] else [])
        @ [Text (w_r w + w_h w - 2) (w_c w + 2) (printed 60 (lit ''[ %d disk%s online | F5 rescan ]'')
             [p_int n, p_str (lit (if n = 1 then [] else ''s''))]) 8 (win_bg t)])"

subsection \<open>The calendar\<close>

definition month_names :: "string list" where
  "month_names = [''January'', ''February'', ''March'', ''April'', ''May'', ''June'', ''July'', ''August'', ''September'', ''October'', ''November'', ''December'']"

text \<open>The days of the month from position (r2, c2) of the grid.\<close>

primrec day_cells :: "int list \<Rightarrow> int \<Rightarrow> int \<Rightarrow> (int \<Rightarrow> bool) \<Rightarrow> theme \<Rightarrow> widget \<Rightarrow> paint_call list" where
  "day_cells [] r2 c2 today t w = []"
| "day_cells (d # ds) r2 c2 today t w =
     Text (w_r w + 4 + r2) (w_c w + 4 + c2 * 3) (printed 3 (lit ''%2d'') [p_int d])
       (if today d then win_bg t else win_fg t) (if today d then 14 else win_bg t)
     # (if 7 \<le> c2 + 1 then day_cells ds (r2 + 1) 0 today t w else day_cells ds r2 (c2 + 1) today t w)"

text \<open>The year and month shown, from the clock's and the offset; None before year 0.\<close>

definition calendar_month :: "rtc_time \<Rightarrow> int \<Rightarrow> (int \<times> int) option" where
  "calendar_month tm off =
     (let year = (if rtc_year tm = 0 then 2026 else uint (rtc_year tm)); month = (if rtc_month tm = 0 then 1 else uint (rtc_month tm));
          ym = year * 12 + (month - 1) + off
      in if ym < 0 then None else Some (ym sdiv 12, ym smod 12 + 1))"

definition render_calendar :: "desk_info \<Rightarrow> 'd desk \<Rightarrow> widget \<Rightarrow> paint_call list option" where
  "render_calendar I D w =
     map_option (\<lambda>(cy, cm).
       let t = dk_theme D; tm = i_time I;
           head = printed 40 (lit ''%s %d'') [p_str (lit (month_names ! nat (cm - 1))), p_int cy];
           now = (\<lambda>d. cy = uint (rtc_year tm) \<and> cm = uint (rtc_month tm) \<and> d = uint (rtc_day tm)) in
       own_window D w
       @ [Text (w_r w + 1) (w_c w + (w_w w - int (length head)) sdiv 2) head (win_bg t) (win_fg t),
          Text (w_r w + 3) (w_c w + 4) (lit ''Mo Tu We Th Fr Sa Su'') 8 (win_bg t)]
       @ day_cells [1..month_days cy cm] 0 (dow_first cy cm) now t w
       @ [Text (w_r w + w_h w - 2) (w_c w + 2)
            (lit (if w_focused w then ''[ LEFT/RIGHT month  HOME today  ESC unfocus ]'' else ''[ click to focus ]'')) 8 (win_bg t)])
     (calendar_month (i_time I) (w_tab w))"

end
