(* ===== verification/DeskScene.thy ===== *)
theory DeskScene
  imports DeskApps
begin

text \<open>
  The windows that change while they are drawn, files and snake, and the whole picture: task bar, menu bar,
  wallpaper, mouse cursor, and the windows in their order.
\<close>

subsection \<open>Files\<close>

primrec read_dir :: "nat \<Rightarrow> int \<Rightarrow> 'd fsys \<Rightarrow> ('d fsys \<times> fs_dirent list) option" where
  "read_dir 0 dh F = Some (F, [])"
| "read_dir (Suc n) dh F = do {
     (F1, e) \<leftarrow> fs_readdir F dh;
     (case e of None \<Rightarrow> Some (F1, []) | Some d \<Rightarrow> do { (F2, ds) \<leftarrow> read_dir n dh F1; Some (F2, d # ds) }) }"

text \<open>files_read_cwd, and the same steps in render_files: None inside when the directory does not open.\<close>

definition files_read_cwd :: "'d fsys \<Rightarrow> ('d fsys \<times> fs_dirent list option) option" where
  "files_read_cwd F = do {
     (F1, dh) \<leftarrow> fs_opendir F (lit ''.'');
     (if dh < 0 then Some (F1, None)
      else do { (F2, es) \<leftarrow> read_dir 128 dh F1; Some (fst (fs_closedir F2 dh), Some es) }) }"

definition is_dir :: "fs_dirent \<Rightarrow> bool" where
  "is_dir e \<longleftrightarrow> fd_attr e AND FS_ATTR_DIR \<noteq> 0"

definition files_activate :: "int \<Rightarrow> 'd dk_op" where
  "files_activate i D = do {
     (F, es0) \<leftarrow> files_read_cwd (dk_fs D);
     let es = (case es0 of None \<Rightarrow> [] | Some es \<Rightarrow> es);
     let D1 = D\<lparr>dk_fs := F\<rparr>;
     let sel = w_sel (wid i D);
     (if sel < 0 \<or> int (length es) \<le> sel then Some D1
      else if is_dir (es ! nat sel) then do {
        (F1, _) \<leftarrow> fs_chdir F (fd_name (es ! nat sel));
        Some (upd_wid i (\<lambda>w. w\<lparr>w_sel := 0, w_top := 0, w_dirty := True\<rparr>) (D1\<lparr>dk_fs := F1\<rparr>)) }
      else Some (D1\<lparr>files_open := Some (take (FS_PATH_MAX - 1) (fd_name (es ! nat sel)))\<rparr>)) }"

text \<open>The selection and the scroll position after the list of n entries is read, for a body of m rows.\<close>

definition clamp_list :: "int \<Rightarrow> int \<Rightarrow> widget \<Rightarrow> widget" where
  "clamp_list n m w =
     (let sel0 = (if n \<le> w_sel w then n - 1 else w_sel w); sel = (if sel0 < 0 then 0 else sel0);
          top0 = (if sel < w_top w then sel else w_top w); top = (if top0 + m \<le> sel then sel - m + 1 else top0)
      in w\<lparr>w_sel := sel, w_top := top\<rparr>)"

definition file_line :: "theme \<Rightarrow> widget \<Rightarrow> fs_dirent list \<Rightarrow> int \<Rightarrow> paint_call list" where
  "file_line t w es i =
     (let idx = w_top w + i; row = w_r w + 2 + i in
      Fill row (w_c w + 1) (w_w w - 2) 1 0x20 (win_fg t) (win_bg t)
      # (if int (length es) \<le> idx then []
         else
           let e = es ! nat idx; here = idx = w_sel w \<and> w_focused w;
               s = printed 80 (lit '' %s %-12s %8u'') [p_str (lit (if is_dir e then ''<DIR>'' else ''     '')), p_str (fd_name e), ArgWord (fd_size e)]
           in map (\<lambda>x. Cell row (w_c w + 1 + x) (if x < int (length s) then s ! nat x else 0x20)
                (if here then win_bg t else win_fg t) (if here then win_fg t else win_bg t)) [0..w_w w - 3]))"

definition render_files :: "'d desk \<Rightarrow> widget \<Rightarrow> (paint_call list \<times> widget \<times> 'd fsys) option" where
  "render_files D w0 = do {
     (F, es0) \<leftarrow> files_read_cwd (dk_fs D);
     let t = dk_theme D;
     Some (case es0 of
       None \<Rightarrow> (own_window D w0 @ [Text (w_r w0 + 2) (w_c w0 + 2) (lit ''Cannot open directory.'') 4 (win_bg t)], w0, F)
     | Some es \<Rightarrow>
         let m = w_h w0 - 3; w = clamp_list (int (length es)) m w0 in
         (own_window D w @ [Text (w_r w + 1) (w_c w + 2)
             (lit (if w_focused w then ''Files (UP/DOWN navigate, ESC unfocus):'' else ''Files (click to focus)'')) 8 (win_bg t)]
          @ concat (map (file_line t w es) [0..m - 1]), w, F)) }"

subsection \<open>The snake game\<close>

definition quick_rand :: "u32 \<Rightarrow> u32" where
  "quick_rand s = s * 1664525 + 1013904223"

text \<open>A random cell of the field; a field without columns or rows is a division by zero.\<close>

definition random_cell :: "int \<Rightarrow> int \<Rightarrow> u32 \<Rightarrow> ((u32 \<times> u32) \<times> u32) option" where
  "random_cell cols rws s =
     (if (of_int cols :: u32) = 0 \<or> (of_int rws :: u32) = 0 then None
      else let s1 = quick_rand s; s2 = quick_rand s1 in Some ((s1 mod of_int cols, s2 mod of_int rws), s2))"

definition put_apple :: "u32 \<times> u32 \<Rightarrow> bytes \<Rightarrow> bytes" where
  "put_apple a s = s[CONTENT_CAP - 2 := ucast (fst a), CONTENT_CAP - 1 := ucast (snd a)]"

definition snake_reset :: "int \<Rightarrow> int \<Rightarrow> widget \<Rightarrow> u32 \<Rightarrow> (widget \<times> u32) option" where
  "snake_reset cols rws w s =
     map_option (\<lambda>(a, s1).
       let cx = cols sdiv 2; cy = rws sdiv 2 in
       (w\<lparr>w_sel := 0, w_top := 0, w_row := 0, w_content_len := 6,
          w_content := put_apple a (blit (w_content w) 0 (map of_int [cx, cy, cx - 1, cy, cx - 2, cy]))\<rparr>, s1))
     (random_cell cols rws s)"

definition cell_of :: "bytes \<Rightarrow> nat \<Rightarrow> int \<times> int" where
  "cell_of s k = (uint (s ! (2 * k)), uint (s ! (2 * k + 1)))"

definition snake_cells :: "widget \<Rightarrow> (int \<times> int) list" where
  "snake_cells w = map (cell_of (w_content w)) [0..<nat (w_content_len w) div 2]"

definition apple_cell :: "widget \<Rightarrow> int \<times> int" where
  "apple_cell w = (uint (w_content w ! (CONTENT_CAP - 2)), uint (w_content w ! (CONTENT_CAP - 1)))"

text \<open>Another apple, at most fifty tries to miss the snake.\<close>

primrec next_apple :: "nat \<Rightarrow> int \<Rightarrow> int \<Rightarrow> (int \<times> int) list \<Rightarrow> u32 \<Rightarrow> ((u32 \<times> u32) \<times> u32) option" where
  "next_apple 0 cols rws body s = None"
| "next_apple (Suc n) cols rws body s = do {
     (a, s1) \<leftarrow> random_cell cols rws s;
     (if (uint (fst a), uint (snd a)) \<in> set body \<and> n \<noteq> 0 then next_apple n cols rws body s1 else Some (a, s1)) }"

text \<open>The body moved: every byte up one place, then the new head in the first two.\<close>

definition shift_body :: "int \<Rightarrow> int \<Rightarrow> widget \<Rightarrow> bytes" where
  "shift_body nx ny w =
     (blit (w_content w) 1 (take (nat (w_content_len w)) (w_content w)))[0 := of_int nx, 1 := of_int ny]"

definition snake_move :: "int \<Rightarrow> int \<Rightarrow> widget \<Rightarrow> u32 \<Rightarrow> (widget \<times> u32) option" where
  "snake_move cols rws w s =
     (let (hx, hy) = cell_of (w_content w) 0;
          nx = hx + of_bool (w_top w = 0) - of_bool (w_top w = 2); ny = hy + of_bool (w_top w = 1) - of_bool (w_top w = 3) in
      if nx < 0 \<or> cols \<le> nx \<or> ny < 0 \<or> rws \<le> ny \<or> (nx, ny) \<in> set (snake_cells w) then Some (w\<lparr>w_row := 1\<rparr>, s)
      else if int CONTENT_CAP \<le> w_content_len w then None
      else
        let w1 = w\<lparr>w_content := shift_body nx ny w\<rparr> in
        if (nx, ny) \<noteq> apple_cell w then Some (w1, s)
        else
          let w2 = w1\<lparr>w_content_len := w_content_len w + 2, w_sel := w_sel w + 1\<rparr> in
          map_option (\<lambda>(a, s1). (w2\<lparr>w_content := put_apple a (w_content w2)\<rparr>, s1)) (next_apple 50 cols rws (snake_cells w2) s))"

definition snake_tick :: "u32 \<Rightarrow> int \<Rightarrow> int \<Rightarrow> widget \<Rightarrow> u32 \<Rightarrow> (widget \<times> u32) option" where
  "snake_tick now cols rws w s =
     (if w_row w = 0 \<and> w_focused w \<and> 14 \<le> now - of_int (w_prev_sec w)
      then snake_move cols rws (w\<lparr>w_prev_sec := sint now\<rparr>) s else Some (w, s))"

definition snake_paint :: "'d desk \<Rightarrow> int \<Rightarrow> int \<Rightarrow> widget \<Rightarrow> paint_call list" where
  "snake_paint D cols rws w =
     (let t = dk_theme D; r0 = w_r w + 2; c0 = w_c w + 2; (ax, ay) = apple_cell w; body = snake_cells w in
      blank_rows t r0 c0 rws cols
      @ (if ax < cols \<and> ay < rws then [Cell (r0 + ay) (c0 + ax) 0x04 4 (win_bg t)] else [])
      @ concat (map (\<lambda>k. case body ! k of (x, y) \<Rightarrow>
          if x < cols \<and> y < rws then [Cell (r0 + y) (c0 + x) 0xDB (if k = 0 then 10 else 2) (win_bg t)] else []) [0..<length body])
      @ [Text (w_r w + w_h w - 2) (w_c w + 2)
           (if w_row w = 1 then printed 60 (lit ''[ GAME OVER -- score %d -- press R to restart ]'') [p_int (w_sel w)]
            else printed 60 (lit ''[ score %d | arrows to steer | focus = play ]'') [p_int (w_sel w)]) 8 (win_bg t)])"

definition render_snake :: "desk_info \<Rightarrow> 'd desk \<Rightarrow> widget \<Rightarrow> (paint_call list \<times> widget \<times> u32) option" where
  "render_snake I D w = do {
     let cols = w_w w - 4;
     let rws = w_h w - 5;
     (w1, s1) \<leftarrow> (if w_content_len w = 0 then snake_reset cols rws w (rng_state D) else Some (w, rng_state D));
     (w2, s2) \<leftarrow> snake_tick (i_ticks I) cols rws w1 s1;
     Some (own_window D w @ snake_paint D cols rws w2, w2, s2) }"

subsection \<open>One window\<close>

definition fixed_size :: "widget_kind \<Rightarrow> bool" where
  "fixed_size k \<longleftrightarrow> k \<in> {WK_WELCOME, WK_CLOCK, WK_MINICALC, WK_ABOUT}"

text \<open>The picture of widget i, drawn, with what drawing it changes.\<close>

definition render_body :: "desk_info \<Rightarrow> int \<Rightarrow> 'd dk_op" where
  "render_body I i D =
     (let w = wid i D in
      case w_kind w of
        WK_WELCOME \<Rightarrow> Some (paint (render_welcome D w) D)
      | WK_CLOCK \<Rightarrow> Some (paint (render_clock_widget I D w) D)
      | WK_SYSMON \<Rightarrow> Some (paint (render_sysmon_widget I D w) D)
      | WK_MINICALC \<Rightarrow> Some (paint (render_minicalc D w) D)
      | WK_ABOUT \<Rightarrow> Some (paint (render_about D w) D)
      | WK_NOTES \<Rightarrow> Some (paint (render_notes D w) D)
      | WK_FILES \<Rightarrow> map_option (\<lambda>(ps, w1, F). paint ps (upd_wid i (\<lambda>_. w1) (D\<lparr>dk_fs := F\<rparr>))) (render_files D w)
      | WK_SETTINGS \<Rightarrow> Some (paint (render_settings I D w) D)
      | WK_TERMINAL \<Rightarrow> Some (paint (render_terminal D w) D)
      | WK_WEB \<Rightarrow> Some (paint (render_web I D w) D)
      | WK_DISKMGR \<Rightarrow> Some (paint (render_diskmgr D w) D)
      | WK_CALENDAR \<Rightarrow> map_option (\<lambda>ps. paint ps D) (render_calendar I D w)
      | WK_SNAKE \<Rightarrow> map_option (\<lambda>(ps, w1, s). paint ps (upd_wid i (\<lambda>_. w1) (D\<lparr>rng_state := s\<rparr>))) (render_snake I D w))"

definition render_one :: "desk_info \<Rightarrow> int \<Rightarrow> 'd dk_op" where
  "render_one I i D =
     (let w = wid i D; t = dk_theme D in
      map_option (\<lambda>D1. if fixed_size (w_kind w) then D1
        else paint [Cell (w_r w + w_h w - 1) (w_c w + w_w w - 1) 0xC4 (tb_fg t) (tb_bg t)] D1) (render_body I i D))"

subsection \<open>The task bar and the menu bar\<close>

text \<open>The chips from slot i on, the next one at column col: each used slot gets one while there is room; the
  slots after the one that does not fit keep what they had.\<close>

primrec task_chips :: "int list \<Rightarrow> int \<Rightarrow> 'd desk \<Rightarrow> 'd desk" where
  "task_chips [] col D = D"
| "task_chips (i # is) col D =
     (let D1 = D\<lparr>task_x := (task_x D)[nat i := -1], task_w := (task_w D)[nat i := 0]\<rparr>; w = wid i D; t = dk_theme D;
          s = take 14 (w_title w); cw = int (length s) + 2; row = rows_max - 1 in
      if \<not> w_used w then task_chips is col D1
      else if cols_max - 1 \<le> col + cw then D1
      else
        let fg = (if w_min w then 8 else 0); bg = (if w_focused w then mb_hi_bg t else mb_bg t) in
        task_chips is (col + cw + 1)
          (paint (Fill row col cw 1 0x20 fg bg # map (\<lambda>j. Cell row (col + 1 + int j) (s ! j) fg bg) [0..<length s])
            (D1\<lparr>task_x := (task_x D1)[nat i := col], task_w := (task_w D1)[nat i := cw]\<rparr>)))"

definition draw_taskbar :: "'d desk \<Rightarrow> 'd desk" where
  "draw_taskbar D = task_chips slots 1 (paint [Fill (rows_max - 1) 0 cols_max 1 0x20 0 (mb_bg (dk_theme D))] D)"

definition draw_clock :: "desk_info \<Rightarrow> 'd desk \<Rightarrow> 'd desk" where
  "draw_clock I D =
     (let tm = i_time I; t = dk_theme D in
      if rtc_year tm = 0 then D
      else paint [Text 0 (cols_max - 5) (printed 6 (lit ''%02u:%02u'') [p_u8 (rtc_hour tm), p_u8 (rtc_min tm)]) (mb_fg t) (mb_bg t)] D)"

definition draw_bar :: "desk_info \<Rightarrow> int \<Rightarrow> 'd desk \<Rightarrow> 'd desk" where
  "draw_bar I hot D =
     (let t = dk_theme D in
      draw_clock I (paint
        ([Fill 0 0 cols_max 1 0x20 (mb_fg t) (mb_bg t), Cell 0 1 0x0F (mb_fg t) (mb_bg t)]
         @ concat (map (\<lambda>k.
             let s = lit (bar_titles ! k); col = fst (bar_spans ! k);
                 fg = (if int k = hot then mb_hi_fg t else mb_fg t); bg = (if int k = hot then mb_hi_bg t else mb_bg t)
             in [Fill 0 col (int (length s) + 2) 1 0x20 fg bg, Text 0 (col + 1) s fg bg]) [0..<length bar_titles])) D))"

subsection \<open>The wallpaper\<close>

definition WALL_SIZE :: nat where "WALL_SIZE = (VGA_ROWS - 2) * VGA_COLS"

primrec wall_chars :: "bytes \<Rightarrow> nat \<Rightarrow> nat \<Rightarrow> bytes \<Rightarrow> bytes" where
  "wall_chars [] row col img = img"
| "wall_chars (ch # s) row col img =
     (if \<not> row < VGA_ROWS - 2 then img
      else if ch = 13 then wall_chars s row col img
      else if ch = 10 then wall_chars s (row + 1) 0 img
      else if col < VGA_COLS then wall_chars s row (col + 1) (img[row * VGA_COLS + col := ch])
      else wall_chars s row col img)"

definition load_wall_image :: "'d dk_op" where
  "load_wall_image D = do {
     (F1, fh) \<leftarrow> fs_open (dk_fs D) (lit ''WALL.TXT'');
     let D1 = D\<lparr>wall_img := replicate WALL_SIZE 0x20, wall_img_loaded := True\<rparr>;
     (if fh < 0 then Some (D1\<lparr>dk_fs := F1\<rparr>)
      else do {
        (F2, bs, n) \<leftarrow> fs_read F1 fh ((VGA_ROWS - 2) * (VGA_COLS + 2));
        Some (D1\<lparr>dk_fs := fst (fs_close F2 fh), wall_img := wall_chars (take (nat n) bs) 0 0 (wall_img D1)\<rparr>) }) }"

definition wall_char :: "'d desk \<Rightarrow> int \<Rightarrow> int \<Rightarrow> u8" where
  "wall_char D r c =
     (if wallpaper_style D = 1 then (if odd (r + c) then 0xB0 else 0x20)
      else if wallpaper_style D = 2 then (if odd r \<and> odd c then 0xFA else 0x20)
      else if wallpaper_style D = 3 then (if r mod 4 = 0 \<or> c mod 8 = 0 then 0xC4 else 0x20)
      else if wallpaper_style D = 4 then wall_img D ! nat ((r - 1) * cols_max + c)
      else 0x20)"

definition draw_wallpaper :: "'d dk_op" where
  "draw_wallpaper D = do {
     D1 \<leftarrow> (if wallpaper_style D = 4 \<and> \<not> wall_img_loaded D then load_wall_image D else Some D);
     Some (paint (map (\<lambda>(r, c). Cell r c (wall_char D1 r c) (dt_fg D1) (dt_bg D1)) (List.product [1..rows_max - 2] [0..cols_max - 1])) D1) }"

subsection \<open>The mouse cursor\<close>

definition cursor_restore :: "'d desk \<Rightarrow> 'd desk" where
  "cursor_restore D =
     (if mx_prev D < 0 then D
      else
        let attr = ucast (drop_bit 8 (mx_save D)) :: u8 in
        (paint [Cell (my_prev D) (mx_prev D) (ucast (mx_save D AND 0xFF)) (attr AND 0x0F) (drop_bit 4 attr AND 0x0F)] D)
          \<lparr>mx_prev := -1, my_prev := -1\<rparr>)"

definition cursor_draw :: "int \<Rightarrow> int \<Rightarrow> 'd desk \<Rightarrow> 'd desk" where
  "cursor_draw col row D =
     (case vga_get_cell_raw row col (dk_scr D) of (ch, attr) \<Rightarrow>
        let fg = attr AND 0x0F; bg = drop_bit 4 attr AND 0x0F in
        (paint [if cursor_style D = 1 then Cell row col 0x01 0 bg else Cell row col ch bg fg]
          (D\<lparr>mx_save := ucast ch OR push_bit 8 (ucast attr)\<rparr>))\<lparr>mx_prev := col, my_prev := row\<rparr>)"

subsection \<open>All windows\<close>

primrec render_all :: "desk_info \<Rightarrow> int list \<Rightarrow> 'd dk_op" where
  "render_all I [] D = Some D"
| "render_all I (i # is) D = do { D1 \<leftarrow> render_one I i D; render_all I is D1 }"

definition draw_all_widgets :: "desk_info \<Rightarrow> 'd dk_op" where
  "draw_all_widgets I D = map_option draw_taskbar (render_all I (draw_order D) D)"

end
