(* ===== verification/DeskPointer.thy ===== *)
theory DeskPointer
  imports DeskScene
begin

text \<open>
  The pointer part of desktop_main of shell/desktop.c: the whole picture, the windows that are drawn again on their
  own, and what pressing, dragging and resizing with the mouse does to the windows. seen_c and seen_r are the
  locals prev_mc and prev_mr. Copying the finished picture to the screen (vga_present) and the waits for the release
  of the button are left out: they change nothing of the desktop.
\<close>

definition desk_reset :: "'d desk \<Rightarrow> 'd desk" where
  "desk_reset D =
     (add_welcome_widget (D\<lparr>widgets := map (\<lambda>w. w\<lparr>w_used := False\<rparr>) (widgets D), next_z := 1\<rparr>))
       \<lparr>seen_c := -1, seen_r := -1, dragging := -1, resizing := -1, drag_off_c := 0, drag_off_r := 0, was_pressed := False\<rparr>"

definition move_cursor :: "int \<Rightarrow> int \<Rightarrow> 'd desk \<Rightarrow> 'd desk" where
  "move_cursor mc mr D =
     (if mc \<noteq> seen_c D \<or> mr \<noteq> seen_r D then (cursor_draw mc mr (cursor_restore D))\<lparr>seen_c := mc, seen_r := mr\<rparr> else D)"

text \<open>The picture when everything is to be drawn again, and after a change of the windows, with or without the bar.\<close>

definition draw_desktop :: "desk_info \<Rightarrow> int \<Rightarrow> int \<Rightarrow> 'd dk_op" where
  "draw_desktop I mc mr D = do {
     D1 \<leftarrow> draw_wallpaper (draw_bar I (-1) (D\<lparr>mx_prev := -1\<rparr>));
     D2 \<leftarrow> draw_all_widgets I D1;
     Some ((cursor_draw mc mr (draw_taskbar D2))\<lparr>seen_c := mc, seen_r := mr\<rparr>) }"

definition redraw :: "bool \<Rightarrow> desk_info \<Rightarrow> 'd dk_op" where
  "redraw bar I D = do {
     D1 \<leftarrow> draw_wallpaper (cursor_restore D);
     D2 \<leftarrow> draw_all_widgets I (if bar then draw_bar I (-1) D1 else D1);
     Some (D2\<lparr>seen_c := -1, seen_r := -1\<rparr>) }"

subsection \<open>Windows drawn on their own\<close>

definition ticks_by_second :: "widget \<Rightarrow> bool" where
  "ticks_by_second w \<longleftrightarrow> w_kind w = WK_CLOCK \<or> w_kind w = WK_SYSMON \<or> w_kind w = WK_SETTINGS \<and> w_tab w = 2"

text \<open>One used window of a frame: drawn when it is marked, when its second has passed, or when it is the snake in
  focus. A minimized window is not left out, and nothing above it is drawn again.\<close>

definition refresh_widget :: "desk_info \<Rightarrow> int \<Rightarrow> 'd dk_op" where
  "refresh_widget I i D =
     (let w = wid i D; now = uint (rtc_sec (i_time I)); ticked = ticks_by_second w \<and> now \<noteq> w_prev_sec w in
      if \<not> w_used w then Some D
      else
        let D1 = (if ticked then upd_wid i (\<lambda>w. w\<lparr>w_prev_sec := now\<rparr>) D else D) in
        if w_dirty w \<or> ticked \<or> w_kind w = WK_SNAKE \<and> w_focused w
        then map_option (upd_wid i (\<lambda>w. w\<lparr>w_dirty := False\<rparr>)) (render_one I i D1) else Some D1)"

primrec refresh_all :: "desk_info \<Rightarrow> int list \<Rightarrow> 'd dk_op" where
  "refresh_all I [] D = Some D"
| "refresh_all I (i # is) D = do { D1 \<leftarrow> refresh_widget I i D; refresh_all I is D1 }"

subsection \<open>Pressing\<close>

text \<open>Each part of a turn says whether the turn ends with it.\<close>

definition ends_turn :: "'d desk \<Rightarrow> bool \<times> 'd desk" where
  "ends_turn D = (True, D\<lparr>was_pressed := False\<rparr>)"

definition mark_windows :: "'d desk \<Rightarrow> 'd desk" where
  "mark_windows D = D\<lparr>widgets := map (\<lambda>w. if w_used w then w\<lparr>w_dirty := True\<rparr> else w) (widgets D)\<rparr>"

text \<open>A press inside window i, after it has been raised: its corner, its title bar, or a line of the file list.\<close>

definition press_inside :: "int \<Rightarrow> int \<Rightarrow> int \<Rightarrow> 'd dk_op" where
  "press_inside i mc mr D =
     (let w = wid i D in
      if \<not> fixed_size (w_kind w) \<and> mr = w_r w + w_h w - 1 \<and> mc = w_c w + w_w w - 1 then Some (D\<lparr>resizing := i\<rparr>)
      else if widget_titlebar_hit w mc mr then Some (D\<lparr>dragging := i, drag_off_c := mc - w_c w, drag_off_r := mr - w_r w\<rparr>)
      else if w_kind w = WK_FILES \<and> 0 \<le> mr - (w_r w + 2) \<and> mr - (w_r w + 2) < w_h w - 3
        then files_activate i (upd_wid i (\<lambda>w. w\<lparr>w_sel := w_top w + (mr - (w_r w + 2))\<rparr>) D)
      else Some D)"

definition press :: "desk_info \<Rightarrow> int \<Rightarrow> int \<Rightarrow> 'd desk \<Rightarrow> (bool \<times> 'd desk) option" where
  "press I mc mr D =
     (let chip = taskbar_hit mc mr D; hit = widget_at mc mr D in
      if 0 \<le> chip then
        map_option ends_turn (redraw True I
          (if w_min (wid chip D) then unminimize_widget chip D else focus_only chip (raise_widget chip D)))
      else if hit < 0 then Some (False, focus_only (-1) D)
      else if widget_close_hit (wid hit D) mc mr then do { D1 \<leftarrow> close_widget hit D; map_option ends_turn (redraw True I D1) }
      else if widget_min_hit (wid hit D) mc mr then map_option ends_turn (redraw True I (minimize_widget hit D))
      else map_option (Pair False) (press_inside hit mc mr (mark_windows (focus_only hit (raise_widget hit D)))))"

subsection \<open>Resizing and dragging\<close>

definition resize_to :: "int \<Rightarrow> int \<Rightarrow> widget \<Rightarrow> widget" where
  "resize_to mc mr w =
     (let nw = max 16 (mc - w_c w + 1); nh = max 5 (mr - w_r w + 1)
      in w\<lparr>w_w := (if cols_max < w_c w + nw then cols_max - w_c w else nw),
           w_h := (if rows_max - 1 < w_r w + nh then rows_max - 1 - w_r w else nh)\<rparr>)"

definition drag_to :: "int \<Rightarrow> int \<Rightarrow> widget \<Rightarrow> widget" where
  "drag_to nc0 nr0 w =
     (let nc = max 0 nc0; nr = max 1 nr0
      in w\<lparr>w_c := (if cols_max < nc + w_w w then cols_max - w_w w else nc),
           w_r := (if rows_max - 1 < nr + w_h w then rows_max - 1 - w_h w else nr)\<rparr>)"

text \<open>One turn with the button held down: the window as f makes it, drawn again when it changed.\<close>

definition held :: "bool \<Rightarrow> desk_info \<Rightarrow> int \<Rightarrow> int \<Rightarrow> int \<Rightarrow> (widget \<Rightarrow> widget) \<Rightarrow> 'd desk \<Rightarrow> (bool \<times> 'd desk) option" where
  "held bar I i mc mr f D = do {
     D1 \<leftarrow> (if f (wid i D) = wid i D then Some D else redraw bar I (upd_wid i f D));
     Some (True, move_cursor mc mr (D1\<lparr>was_pressed := True\<rparr>)) }"

definition resize_turn :: "desk_info \<Rightarrow> int \<Rightarrow> int \<Rightarrow> bool \<Rightarrow> 'd desk \<Rightarrow> (bool \<times> 'd desk) option" where
  "resize_turn I mc mr pressed D =
     (if resizing D < 0 then Some (False, D)
      else if \<not> pressed then Some (False, D\<lparr>resizing := -1\<rparr>)
      else held True I (resizing D) mc mr (resize_to mc mr) D)"

definition drag_turn :: "desk_info \<Rightarrow> int \<Rightarrow> int \<Rightarrow> bool \<Rightarrow> 'd desk \<Rightarrow> (bool \<times> 'd desk) option" where
  "drag_turn I mc mr pressed D =
     (if dragging D < 0 then Some (False, D)
      else if \<not> pressed then Some (False, D\<lparr>dragging := -1\<rparr>)
      else held False I (dragging D) mc mr (drag_to (mc - drag_off_c D) (mr - drag_off_r D)) D)"

definition pointer_turn :: "desk_info \<Rightarrow> int \<Rightarrow> int \<Rightarrow> bool \<Rightarrow> 'd desk \<Rightarrow> (bool \<times> 'd desk) option" where
  "pointer_turn I mc mr pressed D = do {
     let D0 = move_cursor mc mr D;
     (stop1, D1) \<leftarrow> (if pressed \<and> \<not> was_pressed D then press I mc mr D0 else Some (False, D0));
     (if stop1 then Some (True, D1)
      else do {
        (stop2, D2) \<leftarrow> resize_turn I mc mr pressed D1;
        (if stop2 then Some (True, D2)
         else do {
           (stop3, D3) \<leftarrow> drag_turn I mc mr pressed D2;
           Some (stop3, if stop3 then D3 else D3\<lparr>was_pressed := pressed\<rparr>) }) }) }"

subsection \<open>Steps of the desktop\<close>

text \<open>F8: the window in focus is minimized.\<close>

definition minimize_focused :: "'d desk \<Rightarrow> 'd desk" where
  "minimize_focused D =
     (case find (\<lambda>i. w_used (wid i D) \<and> w_focused (wid i D)) slots of None \<Rightarrow> D | Some i \<Rightarrow> minimize_widget i D)"

datatype desk_event =
  Pointer desk_info int int bool
| Launch widget_kind
| Minimize_key
| Frame desk_info
| Picture desk_info int int

primrec desk_step :: "desk_event \<Rightarrow> 'd dk_op" where
  "desk_step (Pointer I mc mr p) D = map_option snd (pointer_turn I mc mr p D)"
| "desk_step (Launch k) D = map_option snd (spawn_widget k D)"
| "desk_step Minimize_key D = Some (minimize_focused D)"
| "desk_step (Frame I) D = refresh_all I slots D"
| "desk_step (Picture I mc mr) D = draw_desktop I mc mr D"

primrec desk_run :: "desk_event list \<Rightarrow> 'd dk_op" where
  "desk_run [] D = Some D"
| "desk_run (e # es) D = do { D1 \<leftarrow> desk_step e D; desk_run es D1 }"

end
