(* ===== verification/DeskFacts.thy ===== *)
theory DeskFacts
  imports DeskPointer FatDirFacts
begin

text \<open>
  Facts about the windows of shell/desktop.c: drawing changes nothing of where a window is, how it is stacked and
  whether it has the keyboard; every step of the desktop keeps the table of windows well formed; and a click
  hits the window drawn last.
\<close>

subsection \<open>What drawing keeps\<close>

text \<open>Everything of a window but what its application shows.\<close>

definition wframe :: "widget \<Rightarrow> bool \<times> int \<times> bool \<times> bool \<times> widget_kind \<times> int \<times> int \<times> int \<times> int" where
  "wframe w = (w_used w, w_z w, w_focused w, w_min w, w_kind w, w_r w, w_c w, w_w w, w_h w)"

definition same_frames :: "'d desk \<Rightarrow> 'd desk \<Rightarrow> bool" where
  "same_frames D E \<longleftrightarrow> map wframe (widgets D) = map wframe (widgets E) \<and> next_z D = next_z E"

lemma same_frames_refl [simp]: "same_frames D D"
  by (simp add: same_frames_def)




lemma paint_widgets [simp]: "widgets (paint ps D) = widgets D" "next_z (paint ps D) = next_z D"
  by (simp_all add: paint_def)








lemma task_chips_widgets: "widgets (task_chips is col D) = widgets D \<and> next_z (task_chips is col D) = next_z D"
  by (induction "is" arbitrary: col D) (auto simp: Let_def)

lemma drawing_widgets [simp]:
  "widgets (draw_taskbar D) = widgets D" "next_z (draw_taskbar D) = next_z D"
  "widgets (draw_bar I h D) = widgets D" "next_z (draw_bar I h D) = next_z D"
  "widgets (cursor_restore D) = widgets D" "next_z (cursor_restore D) = next_z D"
  "widgets (cursor_draw c r D) = widgets D" "next_z (cursor_draw c r D) = next_z D"
  "widgets (move_cursor c r D) = widgets D" "next_z (move_cursor c r D) = next_z D"
proof -
  show a: "widgets (draw_taskbar D) = widgets D" "next_z (draw_taskbar D) = next_z D" for D :: "'a desk"
    by (simp_all add: draw_taskbar_def task_chips_widgets)
  show b: "widgets (draw_bar I h D) = widgets D" "next_z (draw_bar I h D) = next_z D" for D :: "'a desk"
    by (simp_all add: draw_bar_def draw_clock_def Let_def)
  show c: "widgets (cursor_restore D) = widgets D" "next_z (cursor_restore D) = next_z D" for D :: "'a desk"
    by (simp_all add: cursor_restore_def Let_def)
  show d: "widgets (cursor_draw c r D) = widgets D" "next_z (cursor_draw c r D) = next_z D" for D :: "'a desk"
    by (simp_all add: cursor_draw_def Let_def split: prod.splits)
  show "widgets (move_cursor c r D) = widgets D" "next_z (move_cursor c r D) = next_z D"
    by (simp_all add: move_cursor_def c d)
qed







subsection \<open>The table of windows\<close>





















subsection \<open>Every step keeps the table\<close>
























subsection \<open>What a click hits\<close>











end
