(* ===== verification/Spec2Isabelle.thy ===== *)
theory Spec2Isabelle
  imports EnvStore Kmem Clipboard FatFileFacts NetHttp NetFuel ZasElf Vfs ZbcFacts
    KeyboardFacts Mouse Rtc Tui Interrupts EditText ShellFacts DeskCalc DeskTextFacts
    DeskFacts
begin

text \<open>
  Zenbite OS: the kernel, its file system, its network stack and the programs of its shell, as far as
  they are C and do more than drive hardware that is not in the repository. This theory only gathers the
  others; each property stands beside the definitions it is about, after a text that states it.

  The program and its parts. The boot sectors load the kernel, whose kmain (kernel/kmain.c) starts the
  parts below in order and ends in the shell. Underneath are the string library and the formatter (libk),
  the memory managers (kernel/mm), the descriptor and interrupt tables and the timer (kernel/gdt.c, idt.c,
  pic.c, pit.c). The drivers put block devices into one table (drv/disk.c), on which drv/mbr.c registers
  the partitions as further devices; kernel/fs/fat.c mounts FAT volumes on them and kernel/fs/vfs.c does
  so at boot. Keys come from kernel/keyboard.c, which also asks the USB keyboard of drv/usb.c, the pointer
  from drv/mouse.c, the time from drv/rtc.c; kernel/vga.c and kernel/tui.c draw. kernel/net/net.c is the
  network stack over a card given by its callbacks. The command shell (shell/shell.c,
  shell/builtins.c) and its programs work through these parts: the assembler (shell/zas.c), whose output
  kernel/fs/elf.c loads, the C interpreter (shell/zbc.c), the text editor (shell/edit.c) and the desktop
  (shell/desktop.c).

  How the code is modelled. A C function is a function of the same name over the record of the static
  variables it uses, returning the changed record; u8, u16 and u32 are words of HOL-Library.Word, and int
  is int where it cannot overflow or a 32-bit word read by sint where it can. A buffer is the list of its
  bytes and a string is read up to its first zero (ZPrelude). The result None is always the same thing:
  the call has no defined result, because it would write outside a buffer, divide by zero, wait for ever
  or go past the fuel given. Results the code returns as error numbers are returned as numbers. What is
  not in the repository is a parameter: the drivers of raw disks and of network cards act on a state of
  type 'w nothing else looks at, the devices behind the ports on a state of type 'h, the image of
  boot/mbr.asm and the addresses the linker gives are arguments, the keys typed are a list.

  The theories, bottom up.
  ZPrelude: integers, byte buffers, strings, and the lemma collections. Fuel: the locale fuelled, for
  functions with a bound on the depth of their calls, with interpretations for the parser and the
  evaluator of the C interpreter. SlotStore and ByteQueue: the locales of keyed tables and of bounded
  byte queues; environment variables and the ARP cache, and the receive ring of TCP and the rings of the
  keyboards, are the interpretations.
  LibC (libk/string.c) and Printf (libk/printf.c): memmove on overlapping ranges, comparison, bounds of
  ksnprintf and its decimal digits.
  Kmem (kernel/mm): the frame bitmap, the bump heap, the identity map; allocation is lowest-first, blocks
  are disjoint, and requests near 4 GiB wrap. EnvStore (kernel/env.c) is a map under case-folded names.
  Clipboard (kernel/clipboard.c).
  BlockDev, DiskVolumes, Mbr (drv/disk.c, drv/mbr.c): the device table, the contract block_volume of a
  disk as a locale that raw slots and partition views both interpret, reading, writing and scanning
  partition tables, isolation of partitions.
  FatVol, FatTable, FatDir, FatFile, FatMount (kernel/fs/fat.c) with FatDirFacts, FatFileFacts and
  FatMountFacts: the allocation table of the three FAT types behind the locale fat_access, directories and
  8.3 names, files and handles, mounting and formatting. Vfs (kernel/fs/vfs.c) mounts what it finds.
  NetBase, NetStack, NetApps, NetHttp (kernel/net/net.c) with NetFacts, NetStackFacts and NetFuel: the data
  of the stack, its input and output paths, the blocking calls, HTTP; more fuel never changes a result.
  Zas, ZasAsm (shell/zas.c) with ZasFacts, ZasLayout, ZasCode: the assembler, the agreement of its two
  passes and the decoding of what it stores; the lexer stays in the array of the source, but for one text that fills
  it. Elf (kernel/fs/elf.c) and ZasElf: the loader accepts and lays out the file, which is shown to be the
  bytes that the assembler writes. FileWrites: a file written piece by piece.
  Zbc, ZbcEval (shell/zbc.c) with ZbcFuel, ZbcWf, ZbcWfS, ZbcSafe, ZbcTerm, ZbcExpr and ZbcFacts: the parser
  leaves well-formed tables and comes back when only end markers follow the table of tokens, the evaluator stays inside them, and expressions keep
  their meaning from text to value.
  Edit, EditCmds (shell/edit.c) with EditFacts, EditSafe, EditUndo and EditText: the text editor. Insert mode
  is total and keeps the cursor in the text, typing and the deletions are undone exactly, but for the deletion of the
  only row, the search finds the first match in its direction, the bytes that saving writes are loaded as the
  rows they came from; the lemmas also show what undo loses after a split, after a join and after a redo, and
  which page keys break the next character.
  Shell, ShellCmds (shell/shell.c, shell/builtins.c) with ShellFacts: the line editor, history, aliases, the
  splitting of a line, the dispatch and the commands on files, disks and partitions. The aliases interpret
  the locale of keyed tables, the history is the list of the lines entered, cut to 127 characters, grep counts the lines that hold
  a text, and one theorem goes from the keys of a line to what it prints. Commands that only call another
  program or a device are an argument of the dispatch.
  DeskCalc, DeskText with DeskTextFacts (shell/desktop.c): the calculator against the value of expression trees, the
  text of a page, the URL of a query, the weekdays of the calendar against counted days. DeskWin, DeskDraw, DeskApps,
  DeskScene, DeskPointer with DeskFacts: the table of windows, what each window draws as a list of drawing calls, the
  files and snake windows, which change while they are drawn, and the pointer; drawing keeps where the windows are and
  how they are stacked, and a click goes to the window drawn last.
  Ports (include/io.h), Keyboard, KeyboardFacts, UsbHid, Mouse, Rtc, Vga, Tui and Interrupts: the drivers
  of the console and the tables of the processor.

  Bounds and fuel. disk_read needs a depth of 2, as views sit on raw disks only (BlockDev). The polling of
  the network stack nests, so its calls take fuel; NetFuel shows what a receive call needs on a silent card
  to reach its timeout. The parser of the C interpreter needs a depth of 2051, four calls for each of the
  512 tokens and three to start (ZbcTerm), when only end markers follow the table; the evaluator runs programs that need not end, so its depth is an
  argument and a larger one keeps every result (ZbcFuel). Loops over an allocation table or a source text
  that need not end are partial functions into option, with theorems on when they end (free_chain_clears, for
  tables whose entries stay in the table, zas_passes_return, zas_percent_hangs). The calculator returns within
  a depth of one more than the length of its line (DeskCalc).

  What the theorems found. The manifest lists where the code does other than it means to; among them are a
  wrap in the bounds test of a partition, a handle that outlives its volume, the USB mouse that stops once
  the keyboard has reported, break and continue in the C interpreter, and the undo of the editor.

  Not modelled. The boot sectors are real-mode assembly. The drivers of disk controllers (ata.c, ahci.c,
  floppy.c), of network cards (e1000.c, ne2000.c) and of the USB host controllers (ehci.c and the greater
  part of usb.c) are sequences of register accesses to devices that are not in the repository; what they
  provide is a parameter with the contract the rest relies on. kmain.c, panic.c and cpuid.c are fixed
  sequences of calls and privileged instructions. The commands
  of the shell that only call another program or print the registers of a device are not modelled, nor is the
  installer, a dialogue over the parts above. Of the desktop, the menus, the keys of the window in focus and the
  applications that take the whole screen are left out. The scripts and tools run on the development host.
\<close>

end
